(* ===== verification/Prelude.thy ===== *)
theory Prelude
  imports Main "HOL-Library.Word"
begin

text \<open>
  Shared vocabulary of the wolfPSA development: the C integer types the sources use,
  buffer arguments (a pointer with a declared length, possibly NULL), the XMALLOC outcome
  script, the little-endian images that the sources obtain with XMEMCPY from an integer
  object, and the list and word lemmas the components share.

  The platform is the LP64 little-endian one that the Makefile build runs on:
  \<open>size_t\<close> and \<open>unsigned long\<close> have 8 bytes, \<open>int\<close> has 4. Lengths are \<^typ>\<open>nat\<close>; every
  place where the sources guard an overflow of \<open>size_t\<close> or \<open>int\<close> keeps its guard.
\<close>

unbundle bit_operations_syntax

section \<open>Integer types and limits\<close>

type_synonym byte = "8 word"
type_synonym u16 = "16 word"
type_synonym u32 = "32 word"
type_synonym u64 = "64 word"

abbreviation SIZE_MAX :: nat where "SIZE_MAX \<equiv> 2 ^ 64 - 1"
abbreviation UINT32_MAX :: nat where "UINT32_MAX \<equiv> 2 ^ 32 - 1"
abbreviation INT_MAX :: nat where "INT_MAX \<equiv> 2 ^ 31 - 1"

named_theorems psa_defs \<open>definitions of the PSA macros and small accessors\<close>
named_theorems frame \<open>fields an operation leaves alone\<close>

section \<open>Buffer arguments\<close>

text \<open>
  An input argument \<open>(const uint8_t *p, size_t n)\<close> is either a NULL pointer with its declared
  length or a buffer whose length is the declared one. An output argument
  \<open>(uint8_t *p, size_t n)\<close> is a NULL pointer with a declared capacity or a buffer of that
  capacity.
\<close>

datatype inbuf = NullIn nat | In "byte list"

fun in_null :: "inbuf \<Rightarrow> bool" where
  "in_null (NullIn n) = True"
| "in_null (In bs) = False"

fun in_length :: "inbuf \<Rightarrow> nat" where
  "in_length (NullIn n) = n"
| "in_length (In bs) = length bs"

fun in_bytes :: "inbuf \<Rightarrow> byte list" where
  "in_bytes (NullIn n) = []"
| "in_bytes (In bs) = bs"

datatype outbuf = NullOut nat | Out nat

fun out_null :: "outbuf \<Rightarrow> bool" where
  "out_null (NullOut n) = True"
| "out_null (Out n) = False"

fun out_size :: "outbuf \<Rightarrow> nat" where
  "out_size (NullOut n) = n"
| "out_size (Out n) = n"

section \<open>Ranges of the integer types\<close>

lemma unat_u8_less [simp]: "unat (b :: byte) < 256"
  by (rule order_less_le_trans [OF unsigned_less]) simp

lemma unat_u16_less [simp]: "unat (w :: u16) < 65536"
  by (rule order_less_le_trans [OF unsigned_less]) simp

lemma unat_u32_less [simp]: "unat (w :: u32) < 4294967296"
  by (rule order_less_le_trans [OF unsigned_less]) simp

section \<open>Little-endian images of integers\<close>

text \<open>\<open>XMEMCPY(buf, &x, n)\<close> of an integer object and back.\<close>

fun le_bytes :: "nat \<Rightarrow> nat \<Rightarrow> byte list" where
  "le_bytes 0 x = []"
| "le_bytes (Suc n) x = word_of_nat x # le_bytes n (x div 256)"

fun le_nat :: "byte list \<Rightarrow> nat" where
  "le_nat [] = 0"
| "le_nat (b # bs) = unat b + 256 * le_nat bs"

lemma length_le_bytes [simp]: "length (le_bytes n x) = n"
  by (induction n arbitrary: x) auto

lemma unat_byte_of_nat: "unat (word_of_nat x :: byte) = x mod 256"
  by (simp add: unat_of_nat)

lemma le_nat_le_bytes: "le_nat (le_bytes n x) = x mod 256 ^ n"
proof (induction n arbitrary: x)
  case 0
  then show ?case by simp
next
  case (Suc n)
  have "x mod (256 * 256 ^ n) = 256 * (x div 256 mod 256 ^ n) + x mod 256"
    by (rule mod_mult2_eq)
  with Suc show ?case by (simp add: unat_byte_of_nat)
qed

lemma le_nat_le_bytes_small [simp]: "x < 256 ^ n \<Longrightarrow> le_nat (le_bytes n x) = x"
  by (simp add: le_nat_le_bytes)

lemma le_nat_bound: "le_nat bs < 256 ^ length bs"
proof (induction bs)
  case (Cons b bs)
  have "unat b < 256" by simp
  with Cons show ?case by (simp del: unat_u8_less)
qed simp

lemma word_of_byte_inverse [simp]: "word_of_nat (unat (b :: byte)) = b"
  by simp

lemma le_bytes_le_nat: "le_bytes (length bs) (le_nat bs) = bs"
proof (induction bs)
  case (Cons b bs)
  have u: "unat b < 256" by simp
  have "(word_of_nat (unat b + 256 * le_nat bs) :: byte) = b"
  proof (rule word_unat_eq_iff [THEN iffD2])
    show "unat (word_of_nat (unat b + 256 * le_nat bs) :: byte) = unat b"
      using u by (simp only: unat_byte_of_nat) simp
  qed
  moreover have "(unat b + 256 * le_nat bs) div 256 = le_nat bs"
    using u by simp
  ultimately show ?case using Cons by simp
qed simp

definition le16 :: "u16 \<Rightarrow> byte list" where "le16 w = le_bytes 2 (unat w)"
definition le32 :: "u32 \<Rightarrow> byte list" where "le32 w = le_bytes 4 (unat w)"
definition un_le16 :: "byte list \<Rightarrow> u16" where "un_le16 bs = word_of_nat (le_nat bs)"
definition un_le32 :: "byte list \<Rightarrow> u32" where "un_le32 bs = word_of_nat (le_nat bs)"

lemma length_le16 [simp]: "length (le16 w) = 2" by (simp add: le16_def)
lemma length_le32 [simp]: "length (le32 w) = 4" by (simp add: le32_def)

lemma un_le16_le16 [simp]: "un_le16 (le16 w) = w"
  by (simp add: un_le16_def le16_def)

lemma un_le32_le32 [simp]: "un_le32 (le32 w) = w"
  by (simp add: un_le32_def le32_def)

section \<open>Allocation\<close>

text \<open>
  XMALLOC takes its outcome from a script, one entry per call (\<open>True\<close>: the allocation
  succeeds); an exhausted script means that every further allocation succeeds. Every pattern
  of allocation failures is one script.
\<close>

fun xmalloc :: "bool list \<Rightarrow> bool \<times> bool list" where
  "xmalloc [] = (True, [])"
| "xmalloc (b # bs) = (b, bs)"

section \<open>Words\<close>

lemma unat_and_le: "unat (x AND y) \<le> unat y"
  for x y :: "'a::len word"
  by (rule word_and_le1 [THEN word_le_nat_alt [THEN iffD1]])

lemma and_subset_trans: "a AND b = a \<Longrightarrow> b AND c = b \<Longrightarrow> a AND c = a"
  for a b c :: "'a::len word"
  by (metis and.assoc)

lemma and_mono_flag: "(a AND b) AND f = f \<Longrightarrow> a AND f = f"
  for a b f :: "'a::len word"
  by (metis and.assoc and.commute and.left_idem)

text \<open>Constant-time comparisons collect the differences of all bytes.\<close>

lemma fold_or_zero:
  "fold (\<lambda>i acc. acc OR f i) xs a = (0 :: byte) \<longleftrightarrow> a = 0 \<and> (\<forall>i \<in> set xs. f i = 0)"
  by (induction xs arbitrary: a) (auto simp: or_eq_0_iff)

lemma xor_zero_iff: "x XOR y = 0 \<longleftrightarrow> x = y"
  for x y :: byte
proof
  assume "x XOR y = 0"
  then have "(x XOR y) XOR y = 0 XOR y" by (simp only:)
  then show "x = y" by (simp add: xor.assoc)
qed simp

section \<open>Lists\<close>

lemma take_drop_split3: "take a xs @ take b (drop a xs) @ drop (a + b) xs = xs"
  by (metis append_take_drop_id drop_drop add.commute)

lemma map_filter_remove_other:
  "distinct (map f xs) \<Longrightarrow> x \<in> set xs \<Longrightarrow> y \<in> set xs \<Longrightarrow> f x = f y \<Longrightarrow> x = y"
  by (auto simp: distinct_map inj_on_def)

end
