(* ===== verification/Psa_Values.thy ===== *)
theory Psa_Values
  imports Prelude
begin

text \<open>
  The PSA Crypto API encodings: \<open>wolfpsa/psa/crypto_types.h\<close>, \<open>crypto_values.h\<close>,
  \<open>crypto-pqc.h\<close>, the accessors of \<open>crypto_struct.h\<close> and the size macros of
  \<open>crypto_sizes.h\<close> that the modelled sources use. An object-like macro is an abbreviation
  for its literal, a function-like macro is a definition; the collection \<open>psa_defs\<close> unfolds
  them.
\<close>

unbundle bit_operations_syntax

section \<open>Types (crypto_types.h)\<close>

type_synonym psa_key_type_t = u16
type_synonym psa_ecc_family_t = byte
type_synonym psa_dh_family_t = byte
type_synonym psa_algorithm_t = u32
type_synonym psa_key_lifetime_t = u32
type_synonym psa_key_persistence_t = byte
type_synonym psa_key_location_t = u32
type_synonym psa_key_id_t = u32
type_synonym psa_key_usage_t = u32
type_synonym psa_key_derivation_step_t = u16
type_synonym psa_key_bits_t = u16

section \<open>Status codes\<close>

datatype psa_status =
    PSA_SUCCESS
  | PSA_ERROR_GENERIC_ERROR
  | PSA_ERROR_NOT_PERMITTED
  | PSA_ERROR_NOT_SUPPORTED
  | PSA_ERROR_INVALID_ARGUMENT
  | PSA_ERROR_INVALID_HANDLE
  | PSA_ERROR_BAD_STATE
  | PSA_ERROR_BUFFER_TOO_SMALL
  | PSA_ERROR_ALREADY_EXISTS
  | PSA_ERROR_DOES_NOT_EXIST
  | PSA_ERROR_INSUFFICIENT_MEMORY
  | PSA_ERROR_INSUFFICIENT_STORAGE
  | PSA_ERROR_INSUFFICIENT_DATA
  | PSA_ERROR_STORAGE_FAILURE
  | PSA_ERROR_HARDWARE_FAILURE
  | PSA_ERROR_INSUFFICIENT_ENTROPY
  | PSA_ERROR_INVALID_SIGNATURE
  | PSA_ERROR_INVALID_PADDING
  | PSA_ERROR_CORRUPTION_DETECTED
  | PSA_ERROR_DATA_CORRUPT
  | PSA_ERROR_DATA_INVALID
  | PSA_ERROR_SERVICE_FAILURE
  | PSA_ERROR_COMMUNICATION_FAILURE
  | PSA_OPERATION_INCOMPLETE

text \<open>The \<open>int32_t\<close> values behind the names.\<close>

fun psa_status_code :: "psa_status \<Rightarrow> int" where
  "psa_status_code PSA_SUCCESS = 0"
| "psa_status_code PSA_ERROR_GENERIC_ERROR = -132"
| "psa_status_code PSA_ERROR_NOT_PERMITTED = -133"
| "psa_status_code PSA_ERROR_NOT_SUPPORTED = -134"
| "psa_status_code PSA_ERROR_INVALID_ARGUMENT = -135"
| "psa_status_code PSA_ERROR_INVALID_HANDLE = -136"
| "psa_status_code PSA_ERROR_BAD_STATE = -137"
| "psa_status_code PSA_ERROR_BUFFER_TOO_SMALL = -138"
| "psa_status_code PSA_ERROR_ALREADY_EXISTS = -139"
| "psa_status_code PSA_ERROR_DOES_NOT_EXIST = -140"
| "psa_status_code PSA_ERROR_INSUFFICIENT_MEMORY = -141"
| "psa_status_code PSA_ERROR_INSUFFICIENT_STORAGE = -142"
| "psa_status_code PSA_ERROR_INSUFFICIENT_DATA = -143"
| "psa_status_code PSA_ERROR_STORAGE_FAILURE = -146"
| "psa_status_code PSA_ERROR_HARDWARE_FAILURE = -147"
| "psa_status_code PSA_ERROR_INSUFFICIENT_ENTROPY = -148"
| "psa_status_code PSA_ERROR_INVALID_SIGNATURE = -149"
| "psa_status_code PSA_ERROR_INVALID_PADDING = -150"
| "psa_status_code PSA_ERROR_CORRUPTION_DETECTED = -151"
| "psa_status_code PSA_ERROR_DATA_CORRUPT = -152"
| "psa_status_code PSA_ERROR_DATA_INVALID = -153"
| "psa_status_code PSA_ERROR_SERVICE_FAILURE = -144"
| "psa_status_code PSA_ERROR_COMMUNICATION_FAILURE = -145"
| "psa_status_code PSA_OPERATION_INCOMPLETE = -248"

section \<open>Constants\<close>

abbreviation PSA_KEY_TYPE_NONE :: psa_key_type_t where "PSA_KEY_TYPE_NONE \<equiv> 0x0000"
abbreviation PSA_KEY_TYPE_VENDOR_FLAG :: psa_key_type_t where "PSA_KEY_TYPE_VENDOR_FLAG \<equiv> 0x8000"
abbreviation PSA_KEY_TYPE_CATEGORY_MASK :: psa_key_type_t where "PSA_KEY_TYPE_CATEGORY_MASK \<equiv> 0x7000"
abbreviation PSA_KEY_TYPE_CATEGORY_RAW :: psa_key_type_t where "PSA_KEY_TYPE_CATEGORY_RAW \<equiv> 0x1000"
abbreviation PSA_KEY_TYPE_CATEGORY_SYMMETRIC :: psa_key_type_t where "PSA_KEY_TYPE_CATEGORY_SYMMETRIC \<equiv> 0x2000"
abbreviation PSA_KEY_TYPE_CATEGORY_PUBLIC_KEY :: psa_key_type_t where "PSA_KEY_TYPE_CATEGORY_PUBLIC_KEY \<equiv> 0x4000"
abbreviation PSA_KEY_TYPE_CATEGORY_KEY_PAIR :: psa_key_type_t where "PSA_KEY_TYPE_CATEGORY_KEY_PAIR \<equiv> 0x7000"
abbreviation PSA_KEY_TYPE_CATEGORY_FLAG_PAIR :: psa_key_type_t where "PSA_KEY_TYPE_CATEGORY_FLAG_PAIR \<equiv> 0x3000"
abbreviation PSA_KEY_TYPE_RAW_DATA :: psa_key_type_t where "PSA_KEY_TYPE_RAW_DATA \<equiv> 0x1001"
abbreviation PSA_KEY_TYPE_HMAC :: psa_key_type_t where "PSA_KEY_TYPE_HMAC \<equiv> 0x1100"
abbreviation PSA_KEY_TYPE_DERIVE :: psa_key_type_t where "PSA_KEY_TYPE_DERIVE \<equiv> 0x1200"
abbreviation PSA_KEY_TYPE_PASSWORD :: psa_key_type_t where "PSA_KEY_TYPE_PASSWORD \<equiv> 0x1203"
abbreviation PSA_KEY_TYPE_PASSWORD_HASH :: psa_key_type_t where "PSA_KEY_TYPE_PASSWORD_HASH \<equiv> 0x1205"
abbreviation PSA_KEY_TYPE_PEPPER :: psa_key_type_t where "PSA_KEY_TYPE_PEPPER \<equiv> 0x1206"
abbreviation PSA_KEY_TYPE_AES :: psa_key_type_t where "PSA_KEY_TYPE_AES \<equiv> 0x2400"
abbreviation PSA_KEY_TYPE_ARIA :: psa_key_type_t where "PSA_KEY_TYPE_ARIA \<equiv> 0x2406"
abbreviation PSA_KEY_TYPE_CAMELLIA :: psa_key_type_t where "PSA_KEY_TYPE_CAMELLIA \<equiv> 0x2403"
abbreviation PSA_KEY_TYPE_DES :: psa_key_type_t where "PSA_KEY_TYPE_DES \<equiv> 0x2301"
abbreviation PSA_KEY_TYPE_CHACHA20 :: psa_key_type_t where "PSA_KEY_TYPE_CHACHA20 \<equiv> 0x2004"
abbreviation PSA_KEY_TYPE_RSA_PUBLIC_KEY :: psa_key_type_t where "PSA_KEY_TYPE_RSA_PUBLIC_KEY \<equiv> 0x4001"
abbreviation PSA_KEY_TYPE_RSA_KEY_PAIR :: psa_key_type_t where "PSA_KEY_TYPE_RSA_KEY_PAIR \<equiv> 0x7001"
abbreviation PSA_KEY_TYPE_ECC_PUBLIC_KEY_BASE :: psa_key_type_t where "PSA_KEY_TYPE_ECC_PUBLIC_KEY_BASE \<equiv> 0x4100"
abbreviation PSA_KEY_TYPE_ECC_KEY_PAIR_BASE :: psa_key_type_t where "PSA_KEY_TYPE_ECC_KEY_PAIR_BASE \<equiv> 0x7100"
abbreviation PSA_KEY_TYPE_ECC_CURVE_MASK :: psa_key_type_t where "PSA_KEY_TYPE_ECC_CURVE_MASK \<equiv> 0x00ff"
abbreviation PSA_ECC_FAMILY_SECP_K1 :: psa_ecc_family_t where "PSA_ECC_FAMILY_SECP_K1 \<equiv> 0x17"
abbreviation PSA_ECC_FAMILY_SECP_R1 :: psa_ecc_family_t where "PSA_ECC_FAMILY_SECP_R1 \<equiv> 0x12"
abbreviation PSA_ECC_FAMILY_SECP_R2 :: psa_ecc_family_t where "PSA_ECC_FAMILY_SECP_R2 \<equiv> 0x1b"
abbreviation PSA_ECC_FAMILY_SECT_K1 :: psa_ecc_family_t where "PSA_ECC_FAMILY_SECT_K1 \<equiv> 0x27"
abbreviation PSA_ECC_FAMILY_SECT_R1 :: psa_ecc_family_t where "PSA_ECC_FAMILY_SECT_R1 \<equiv> 0x22"
abbreviation PSA_ECC_FAMILY_SECT_R2 :: psa_ecc_family_t where "PSA_ECC_FAMILY_SECT_R2 \<equiv> 0x2b"
abbreviation PSA_ECC_FAMILY_BRAINPOOL_P_R1 :: psa_ecc_family_t where "PSA_ECC_FAMILY_BRAINPOOL_P_R1 \<equiv> 0x30"
abbreviation PSA_ECC_FAMILY_MONTGOMERY :: psa_ecc_family_t where "PSA_ECC_FAMILY_MONTGOMERY \<equiv> 0x41"
abbreviation PSA_ECC_FAMILY_TWISTED_EDWARDS :: psa_ecc_family_t where "PSA_ECC_FAMILY_TWISTED_EDWARDS \<equiv> 0x42"
abbreviation PSA_KEY_TYPE_DH_PUBLIC_KEY_BASE :: psa_key_type_t where "PSA_KEY_TYPE_DH_PUBLIC_KEY_BASE \<equiv> 0x4200"
abbreviation PSA_KEY_TYPE_DH_KEY_PAIR_BASE :: psa_key_type_t where "PSA_KEY_TYPE_DH_KEY_PAIR_BASE \<equiv> 0x7200"
abbreviation PSA_KEY_TYPE_DH_GROUP_MASK :: psa_key_type_t where "PSA_KEY_TYPE_DH_GROUP_MASK \<equiv> 0x00ff"
abbreviation PSA_DH_FAMILY_RFC7919 :: psa_dh_family_t where "PSA_DH_FAMILY_RFC7919 \<equiv> 0x03"
abbreviation PSA_ALG_VENDOR_FLAG :: psa_algorithm_t where "PSA_ALG_VENDOR_FLAG \<equiv> 0x80000000"
abbreviation PSA_ALG_CATEGORY_MASK :: psa_algorithm_t where "PSA_ALG_CATEGORY_MASK \<equiv> 0x7f000000"
abbreviation PSA_ALG_CATEGORY_HASH :: psa_algorithm_t where "PSA_ALG_CATEGORY_HASH \<equiv> 0x02000000"
abbreviation PSA_ALG_CATEGORY_MAC :: psa_algorithm_t where "PSA_ALG_CATEGORY_MAC \<equiv> 0x03000000"
abbreviation PSA_ALG_CATEGORY_CIPHER :: psa_algorithm_t where "PSA_ALG_CATEGORY_CIPHER \<equiv> 0x04000000"
abbreviation PSA_ALG_CATEGORY_AEAD :: psa_algorithm_t where "PSA_ALG_CATEGORY_AEAD \<equiv> 0x05000000"
abbreviation PSA_ALG_CATEGORY_SIGN :: psa_algorithm_t where "PSA_ALG_CATEGORY_SIGN \<equiv> 0x06000000"
abbreviation PSA_ALG_CATEGORY_ASYMMETRIC_ENCRYPTION :: psa_algorithm_t where "PSA_ALG_CATEGORY_ASYMMETRIC_ENCRYPTION \<equiv> 0x07000000"
abbreviation PSA_ALG_CATEGORY_KEY_DERIVATION :: psa_algorithm_t where "PSA_ALG_CATEGORY_KEY_DERIVATION \<equiv> 0x08000000"
abbreviation PSA_ALG_CATEGORY_KEY_AGREEMENT :: psa_algorithm_t where "PSA_ALG_CATEGORY_KEY_AGREEMENT \<equiv> 0x09000000"
abbreviation PSA_ALG_NONE :: psa_algorithm_t where "PSA_ALG_NONE \<equiv> 0"
abbreviation PSA_ALG_HASH_MASK :: psa_algorithm_t where "PSA_ALG_HASH_MASK \<equiv> 0x000000ff"
abbreviation PSA_ALG_MD4 :: psa_algorithm_t where "PSA_ALG_MD4 \<equiv> 0x02000002"
abbreviation PSA_ALG_MD5 :: psa_algorithm_t where "PSA_ALG_MD5 \<equiv> 0x02000003"
abbreviation PSA_ALG_RIPEMD160 :: psa_algorithm_t where "PSA_ALG_RIPEMD160 \<equiv> 0x02000004"
abbreviation PSA_ALG_SHA_1 :: psa_algorithm_t where "PSA_ALG_SHA_1 \<equiv> 0x02000005"
abbreviation PSA_ALG_SHA_224 :: psa_algorithm_t where "PSA_ALG_SHA_224 \<equiv> 0x02000008"
abbreviation PSA_ALG_SHA_256 :: psa_algorithm_t where "PSA_ALG_SHA_256 \<equiv> 0x02000009"
abbreviation PSA_ALG_SHA_384 :: psa_algorithm_t where "PSA_ALG_SHA_384 \<equiv> 0x0200000a"
abbreviation PSA_ALG_SHA_512 :: psa_algorithm_t where "PSA_ALG_SHA_512 \<equiv> 0x0200000b"
abbreviation PSA_ALG_SHA_512_224 :: psa_algorithm_t where "PSA_ALG_SHA_512_224 \<equiv> 0x0200000c"
abbreviation PSA_ALG_SHA_512_256 :: psa_algorithm_t where "PSA_ALG_SHA_512_256 \<equiv> 0x0200000d"
abbreviation PSA_ALG_SHA3_224 :: psa_algorithm_t where "PSA_ALG_SHA3_224 \<equiv> 0x02000010"
abbreviation PSA_ALG_SHA3_256 :: psa_algorithm_t where "PSA_ALG_SHA3_256 \<equiv> 0x02000011"
abbreviation PSA_ALG_SHA3_384 :: psa_algorithm_t where "PSA_ALG_SHA3_384 \<equiv> 0x02000012"
abbreviation PSA_ALG_SHA3_512 :: psa_algorithm_t where "PSA_ALG_SHA3_512 \<equiv> 0x02000013"
abbreviation PSA_ALG_SHAKE256_512 :: psa_algorithm_t where "PSA_ALG_SHAKE256_512 \<equiv> 0x02000015"
abbreviation PSA_ALG_ASCON_HASH256 :: psa_algorithm_t where "PSA_ALG_ASCON_HASH256 \<equiv> 0x02000019"
abbreviation PSA_ALG_ANY_HASH :: psa_algorithm_t where "PSA_ALG_ANY_HASH \<equiv> 0x020000ff"
abbreviation PSA_ALG_MAC_SUBCATEGORY_MASK :: psa_algorithm_t where "PSA_ALG_MAC_SUBCATEGORY_MASK \<equiv> 0x00c00000"
abbreviation PSA_ALG_HMAC_BASE :: psa_algorithm_t where "PSA_ALG_HMAC_BASE \<equiv> 0x03800000"
abbreviation PSA_ALG_MAC_TRUNCATION_MASK :: psa_algorithm_t where "PSA_ALG_MAC_TRUNCATION_MASK \<equiv> 0x003f0000"
abbreviation PSA_ALG_MAC_AT_LEAST_THIS_LENGTH_FLAG :: psa_algorithm_t where "PSA_ALG_MAC_AT_LEAST_THIS_LENGTH_FLAG \<equiv> 0x00008000"
abbreviation PSA_ALG_CIPHER_MAC_BASE :: psa_algorithm_t where "PSA_ALG_CIPHER_MAC_BASE \<equiv> 0x03c00000"
abbreviation PSA_ALG_CBC_MAC :: psa_algorithm_t where "PSA_ALG_CBC_MAC \<equiv> 0x03c00100"
abbreviation PSA_ALG_CMAC :: psa_algorithm_t where "PSA_ALG_CMAC \<equiv> 0x03c00200"
abbreviation PSA_ALG_CIPHER_STREAM_FLAG :: psa_algorithm_t where "PSA_ALG_CIPHER_STREAM_FLAG \<equiv> 0x00800000"
abbreviation PSA_ALG_CIPHER_FROM_BLOCK_FLAG :: psa_algorithm_t where "PSA_ALG_CIPHER_FROM_BLOCK_FLAG \<equiv> 0x00400000"
abbreviation PSA_ALG_STREAM_CIPHER :: psa_algorithm_t where "PSA_ALG_STREAM_CIPHER \<equiv> 0x04800100"
abbreviation PSA_ALG_CTR :: psa_algorithm_t where "PSA_ALG_CTR \<equiv> 0x04c01000"
abbreviation PSA_ALG_CFB :: psa_algorithm_t where "PSA_ALG_CFB \<equiv> 0x04c01100"
abbreviation PSA_ALG_OFB :: psa_algorithm_t where "PSA_ALG_OFB \<equiv> 0x04c01200"
abbreviation PSA_ALG_XTS :: psa_algorithm_t where "PSA_ALG_XTS \<equiv> 0x0440ff00"
abbreviation PSA_ALG_ECB_NO_PADDING :: psa_algorithm_t where "PSA_ALG_ECB_NO_PADDING \<equiv> 0x04404400"
abbreviation PSA_ALG_CBC_NO_PADDING :: psa_algorithm_t where "PSA_ALG_CBC_NO_PADDING \<equiv> 0x04404000"
abbreviation PSA_ALG_CBC_PKCS7 :: psa_algorithm_t where "PSA_ALG_CBC_PKCS7 \<equiv> 0x04404100"
abbreviation PSA_ALG_AEAD_FROM_BLOCK_FLAG :: psa_algorithm_t where "PSA_ALG_AEAD_FROM_BLOCK_FLAG \<equiv> 0x00400000"
abbreviation PSA_ALG_CCM :: psa_algorithm_t where "PSA_ALG_CCM \<equiv> 0x05500100"
abbreviation PSA_ALG_CCM_STAR_NO_TAG :: psa_algorithm_t where "PSA_ALG_CCM_STAR_NO_TAG \<equiv> 0x04c01300"
abbreviation PSA_ALG_GCM :: psa_algorithm_t where "PSA_ALG_GCM \<equiv> 0x05500200"
abbreviation PSA_ALG_CHACHA20_POLY1305 :: psa_algorithm_t where "PSA_ALG_CHACHA20_POLY1305 \<equiv> 0x05100500"
abbreviation PSA_ALG_XCHACHA20_POLY1305 :: psa_algorithm_t where "PSA_ALG_XCHACHA20_POLY1305 \<equiv> 0x05100600"
abbreviation PSA_ALG_ASCON_AEAD128 :: psa_algorithm_t where "PSA_ALG_ASCON_AEAD128 \<equiv> 0x05100700"
abbreviation PSA_ALG_AEAD_TAG_LENGTH_MASK :: psa_algorithm_t where "PSA_ALG_AEAD_TAG_LENGTH_MASK \<equiv> 0x003f0000"
abbreviation PSA_ALG_AEAD_AT_LEAST_THIS_LENGTH_FLAG :: psa_algorithm_t where "PSA_ALG_AEAD_AT_LEAST_THIS_LENGTH_FLAG \<equiv> 0x00008000"
abbreviation PSA_ALG_RSA_PKCS1V15_SIGN_BASE :: psa_algorithm_t where "PSA_ALG_RSA_PKCS1V15_SIGN_BASE \<equiv> 0x06000200"
abbreviation PSA_ALG_RSA_PSS_BASE :: psa_algorithm_t where "PSA_ALG_RSA_PSS_BASE \<equiv> 0x06000300"
abbreviation PSA_ALG_RSA_PSS_ANY_SALT_BASE :: psa_algorithm_t where "PSA_ALG_RSA_PSS_ANY_SALT_BASE \<equiv> 0x06001300"
abbreviation PSA_ALG_ECDSA_BASE :: psa_algorithm_t where "PSA_ALG_ECDSA_BASE \<equiv> 0x06000600"
abbreviation PSA_ALG_DETERMINISTIC_ECDSA_BASE :: psa_algorithm_t where "PSA_ALG_DETERMINISTIC_ECDSA_BASE \<equiv> 0x06000700"
abbreviation PSA_ALG_ECDSA_DETERMINISTIC_FLAG :: psa_algorithm_t where "PSA_ALG_ECDSA_DETERMINISTIC_FLAG \<equiv> 0x00000100"
abbreviation PSA_ALG_PURE_EDDSA :: psa_algorithm_t where "PSA_ALG_PURE_EDDSA \<equiv> 0x06000800"
abbreviation PSA_ALG_EDDSA_CTX :: psa_algorithm_t where "PSA_ALG_EDDSA_CTX \<equiv> 0x06000A00"
abbreviation PSA_ALG_HASH_EDDSA_BASE :: psa_algorithm_t where "PSA_ALG_HASH_EDDSA_BASE \<equiv> 0x06000900"
abbreviation PSA_ALG_RSA_PKCS1V15_CRYPT :: psa_algorithm_t where "PSA_ALG_RSA_PKCS1V15_CRYPT \<equiv> 0x07000200"
abbreviation PSA_ALG_RSA_OAEP_BASE :: psa_algorithm_t where "PSA_ALG_RSA_OAEP_BASE \<equiv> 0x07000300"
abbreviation PSA_ALG_HKDF_BASE :: psa_algorithm_t where "PSA_ALG_HKDF_BASE \<equiv> 0x08000100"
abbreviation PSA_ALG_HKDF_EXTRACT_BASE :: psa_algorithm_t where "PSA_ALG_HKDF_EXTRACT_BASE \<equiv> 0x08000400"
abbreviation PSA_ALG_HKDF_EXPAND_BASE :: psa_algorithm_t where "PSA_ALG_HKDF_EXPAND_BASE \<equiv> 0x08000500"
abbreviation PSA_ALG_TLS12_PRF_BASE :: psa_algorithm_t where "PSA_ALG_TLS12_PRF_BASE \<equiv> 0x08000200"
abbreviation PSA_ALG_TLS12_PSK_TO_MS_BASE :: psa_algorithm_t where "PSA_ALG_TLS12_PSK_TO_MS_BASE \<equiv> 0x08000300"
abbreviation PSA_ALG_KEY_DERIVATION_STRETCHING_FLAG :: psa_algorithm_t where "PSA_ALG_KEY_DERIVATION_STRETCHING_FLAG \<equiv> 0x00800000"
abbreviation PSA_ALG_PBKDF2_HMAC_BASE :: psa_algorithm_t where "PSA_ALG_PBKDF2_HMAC_BASE \<equiv> 0x08800100"
abbreviation PSA_ALG_PBKDF2_AES_CMAC_PRF_128 :: psa_algorithm_t where "PSA_ALG_PBKDF2_AES_CMAC_PRF_128 \<equiv> 0x08800200"
abbreviation PSA_ALG_SP800_108_COUNTER_CMAC :: psa_algorithm_t where "PSA_ALG_SP800_108_COUNTER_CMAC \<equiv> 0x08000800"
abbreviation PSA_ALG_KEY_DERIVATION_MASK :: psa_algorithm_t where "PSA_ALG_KEY_DERIVATION_MASK \<equiv> 0xfe00ffff"
abbreviation PSA_ALG_KEY_AGREEMENT_MASK :: psa_algorithm_t where "PSA_ALG_KEY_AGREEMENT_MASK \<equiv> 0xffff0000"
abbreviation PSA_ALG_FFDH :: psa_algorithm_t where "PSA_ALG_FFDH \<equiv> 0x09010000"
abbreviation PSA_ALG_ECDH :: psa_algorithm_t where "PSA_ALG_ECDH \<equiv> 0x09020000"
abbreviation PSA_KEY_LIFETIME_VOLATILE :: psa_key_lifetime_t where "PSA_KEY_LIFETIME_VOLATILE \<equiv> 0x00000000"
abbreviation PSA_KEY_LIFETIME_PERSISTENT :: psa_key_lifetime_t where "PSA_KEY_LIFETIME_PERSISTENT \<equiv> 0x00000001"
abbreviation PSA_KEY_PERSISTENCE_VOLATILE :: psa_key_persistence_t where "PSA_KEY_PERSISTENCE_VOLATILE \<equiv> 0x00"
abbreviation PSA_KEY_PERSISTENCE_DEFAULT :: psa_key_persistence_t where "PSA_KEY_PERSISTENCE_DEFAULT \<equiv> 0x01"
abbreviation PSA_KEY_PERSISTENCE_READ_ONLY :: psa_key_persistence_t where "PSA_KEY_PERSISTENCE_READ_ONLY \<equiv> 0xff"
abbreviation PSA_KEY_LOCATION_LOCAL_STORAGE :: psa_key_location_t where "PSA_KEY_LOCATION_LOCAL_STORAGE \<equiv> 0x000000"
abbreviation PSA_KEY_LOCATION_VENDOR_FLAG :: psa_key_location_t where "PSA_KEY_LOCATION_VENDOR_FLAG \<equiv> 0x800000"
abbreviation PSA_KEY_ID_NULL :: psa_key_id_t where "PSA_KEY_ID_NULL \<equiv> 0"
abbreviation PSA_KEY_ID_USER_MIN :: psa_key_id_t where "PSA_KEY_ID_USER_MIN \<equiv> 0x00000001"
abbreviation PSA_KEY_ID_USER_MAX :: psa_key_id_t where "PSA_KEY_ID_USER_MAX \<equiv> 0x3fffffff"
abbreviation PSA_KEY_ID_VENDOR_MIN :: psa_key_id_t where "PSA_KEY_ID_VENDOR_MIN \<equiv> 0x40000000"
abbreviation PSA_KEY_ID_VENDOR_MAX :: psa_key_id_t where "PSA_KEY_ID_VENDOR_MAX \<equiv> 0x7fffffff"
abbreviation PSA_KEY_USAGE_EXPORT :: psa_key_usage_t where "PSA_KEY_USAGE_EXPORT \<equiv> 0x00000001"
abbreviation PSA_KEY_USAGE_COPY :: psa_key_usage_t where "PSA_KEY_USAGE_COPY \<equiv> 0x00000002"
abbreviation PSA_KEY_USAGE_DERIVE_PUBLIC :: psa_key_usage_t where "PSA_KEY_USAGE_DERIVE_PUBLIC \<equiv> 0x00000080"
abbreviation PSA_KEY_USAGE_ENCRYPT :: psa_key_usage_t where "PSA_KEY_USAGE_ENCRYPT \<equiv> 0x00000100"
abbreviation PSA_KEY_USAGE_DECRYPT :: psa_key_usage_t where "PSA_KEY_USAGE_DECRYPT \<equiv> 0x00000200"
abbreviation PSA_KEY_USAGE_SIGN_MESSAGE :: psa_key_usage_t where "PSA_KEY_USAGE_SIGN_MESSAGE \<equiv> 0x00000400"
abbreviation PSA_KEY_USAGE_VERIFY_MESSAGE :: psa_key_usage_t where "PSA_KEY_USAGE_VERIFY_MESSAGE \<equiv> 0x00000800"
abbreviation PSA_KEY_USAGE_SIGN_HASH :: psa_key_usage_t where "PSA_KEY_USAGE_SIGN_HASH \<equiv> 0x00001000"
abbreviation PSA_KEY_USAGE_VERIFY_HASH :: psa_key_usage_t where "PSA_KEY_USAGE_VERIFY_HASH \<equiv> 0x00002000"
abbreviation PSA_KEY_USAGE_DERIVE :: psa_key_usage_t where "PSA_KEY_USAGE_DERIVE \<equiv> 0x00004000"
abbreviation PSA_KEY_USAGE_VERIFY_DERIVATION :: psa_key_usage_t where "PSA_KEY_USAGE_VERIFY_DERIVATION \<equiv> 0x00008000"
abbreviation PSA_KEY_DERIVATION_INPUT_SECRET :: psa_key_derivation_step_t where "PSA_KEY_DERIVATION_INPUT_SECRET \<equiv> 0x0101"
abbreviation PSA_KEY_DERIVATION_INPUT_PASSWORD :: psa_key_derivation_step_t where "PSA_KEY_DERIVATION_INPUT_PASSWORD \<equiv> 0x0102"
abbreviation PSA_KEY_DERIVATION_INPUT_LABEL :: psa_key_derivation_step_t where "PSA_KEY_DERIVATION_INPUT_LABEL \<equiv> 0x0201"
abbreviation PSA_KEY_DERIVATION_INPUT_CONTEXT :: psa_key_derivation_step_t where "PSA_KEY_DERIVATION_INPUT_CONTEXT \<equiv> 0x0206"
abbreviation PSA_KEY_DERIVATION_INPUT_SALT :: psa_key_derivation_step_t where "PSA_KEY_DERIVATION_INPUT_SALT \<equiv> 0x0202"
abbreviation PSA_KEY_DERIVATION_INPUT_INFO :: psa_key_derivation_step_t where "PSA_KEY_DERIVATION_INPUT_INFO \<equiv> 0x0203"
abbreviation PSA_KEY_DERIVATION_INPUT_SEED :: psa_key_derivation_step_t where "PSA_KEY_DERIVATION_INPUT_SEED \<equiv> 0x0204"
abbreviation PSA_KEY_DERIVATION_INPUT_COST :: psa_key_derivation_step_t where "PSA_KEY_DERIVATION_INPUT_COST \<equiv> 0x0205"
abbreviation PSA_ALG_SHAKE128 :: psa_algorithm_t where "PSA_ALG_SHAKE128 \<equiv> 0x0D000100"
abbreviation PSA_ALG_SHAKE256 :: psa_algorithm_t where "PSA_ALG_SHAKE256 \<equiv> 0x0D000200"
abbreviation PSA_ALG_ASCON_XOF128 :: psa_algorithm_t where "PSA_ALG_ASCON_XOF128 \<equiv> 0x0D000300"
abbreviation PSA_ALG_ASCON_CXOF128 :: psa_algorithm_t where "PSA_ALG_ASCON_CXOF128 \<equiv> 0x0D008300"
abbreviation PSA_ALG_KW :: psa_algorithm_t where "PSA_ALG_KW \<equiv> 0x0B400100"
abbreviation PSA_ALG_KWP :: psa_algorithm_t where "PSA_ALG_KWP \<equiv> 0x0BC00200"
abbreviation PSA_ALG_ECIES_SEC1 :: psa_algorithm_t where "PSA_ALG_ECIES_SEC1 \<equiv> 0x0c000100"
abbreviation PSA_KEY_TYPE_XCHACHA20 :: psa_key_type_t where "PSA_KEY_TYPE_XCHACHA20 \<equiv> 0x2007"
abbreviation PSA_KEY_TYPE_ASCON :: psa_key_type_t where "PSA_KEY_TYPE_ASCON \<equiv> 0x2008"
abbreviation PSA_KEY_USAGE_WRAP :: psa_key_usage_t where "PSA_KEY_USAGE_WRAP \<equiv> 0x00010000"
abbreviation PSA_KEY_USAGE_UNWRAP :: psa_key_usage_t where "PSA_KEY_USAGE_UNWRAP \<equiv> 0x00020000"
abbreviation PSA_ALG_SHA_256_192 :: psa_algorithm_t where "PSA_ALG_SHA_256_192 \<equiv> 0x0200000E"
abbreviation PSA_ALG_SHAKE128_256 :: psa_algorithm_t where "PSA_ALG_SHAKE128_256 \<equiv> 0x02000016"
abbreviation PSA_ALG_SHAKE256_192 :: psa_algorithm_t where "PSA_ALG_SHAKE256_192 \<equiv> 0x02000017"
abbreviation PSA_ALG_SHAKE256_256 :: psa_algorithm_t where "PSA_ALG_SHAKE256_256 \<equiv> 0x02000018"
abbreviation PSA_KEY_TYPE_ML_KEM_KEY_PAIR :: psa_key_type_t where "PSA_KEY_TYPE_ML_KEM_KEY_PAIR \<equiv> 0x7004"
abbreviation PSA_KEY_TYPE_ML_KEM_PUBLIC_KEY :: psa_key_type_t where "PSA_KEY_TYPE_ML_KEM_PUBLIC_KEY \<equiv> 0x4004"
abbreviation PSA_ALG_ML_KEM :: psa_algorithm_t where "PSA_ALG_ML_KEM \<equiv> 0x0c000200"
abbreviation PSA_KEY_TYPE_ML_DSA_KEY_PAIR :: psa_key_type_t where "PSA_KEY_TYPE_ML_DSA_KEY_PAIR \<equiv> 0x7002"
abbreviation PSA_KEY_TYPE_ML_DSA_PUBLIC_KEY :: psa_key_type_t where "PSA_KEY_TYPE_ML_DSA_PUBLIC_KEY \<equiv> 0x4002"
abbreviation PSA_ALG_ML_DSA :: psa_algorithm_t where "PSA_ALG_ML_DSA \<equiv> 0x06004400"
abbreviation PSA_ALG_DETERMINISTIC_ML_DSA :: psa_algorithm_t where "PSA_ALG_DETERMINISTIC_ML_DSA \<equiv> 0x06004500"
abbreviation PSA_KEY_TYPE_LMS_PUBLIC_KEY :: psa_key_type_t where "PSA_KEY_TYPE_LMS_PUBLIC_KEY \<equiv> 0x4007"
abbreviation PSA_KEY_TYPE_HSS_PUBLIC_KEY :: psa_key_type_t where "PSA_KEY_TYPE_HSS_PUBLIC_KEY \<equiv> 0x4008"
abbreviation PSA_ALG_LMS :: psa_algorithm_t where "PSA_ALG_LMS \<equiv> 0x06004800"
abbreviation PSA_ALG_HSS :: psa_algorithm_t where "PSA_ALG_HSS \<equiv> 0x06004900"
abbreviation PSA_KEY_TYPE_XMSS_PUBLIC_KEY :: psa_key_type_t where "PSA_KEY_TYPE_XMSS_PUBLIC_KEY \<equiv> 0x400B"
abbreviation PSA_KEY_TYPE_XMSS_MT_PUBLIC_KEY :: psa_key_type_t where "PSA_KEY_TYPE_XMSS_MT_PUBLIC_KEY \<equiv> 0x400D"
abbreviation PSA_ALG_XMSS :: psa_algorithm_t where "PSA_ALG_XMSS \<equiv> 0x06004A00"
abbreviation PSA_ALG_XMSS_MT :: psa_algorithm_t where "PSA_ALG_XMSS_MT \<equiv> 0x06004B00"

section \<open>Function-like macros\<close>

definition PSA_KEY_TYPE_IS_UNSTRUCTURED :: "psa_key_type_t \<Rightarrow> bool" where
  [psa_defs]: "PSA_KEY_TYPE_IS_UNSTRUCTURED t = 
    (t AND PSA_KEY_TYPE_CATEGORY_MASK = PSA_KEY_TYPE_CATEGORY_RAW \<or>
     t AND PSA_KEY_TYPE_CATEGORY_MASK = PSA_KEY_TYPE_CATEGORY_SYMMETRIC)"

definition PSA_KEY_TYPE_IS_PUBLIC_KEY :: "psa_key_type_t \<Rightarrow> bool" where
  [psa_defs]: "PSA_KEY_TYPE_IS_PUBLIC_KEY t = 
    (t AND PSA_KEY_TYPE_CATEGORY_MASK = PSA_KEY_TYPE_CATEGORY_PUBLIC_KEY)"

definition PSA_KEY_TYPE_IS_KEY_PAIR :: "psa_key_type_t \<Rightarrow> bool" where
  [psa_defs]: "PSA_KEY_TYPE_IS_KEY_PAIR t = 
    (t AND PSA_KEY_TYPE_CATEGORY_MASK = PSA_KEY_TYPE_CATEGORY_KEY_PAIR)"

definition PSA_KEY_TYPE_PUBLIC_KEY_OF_KEY_PAIR :: "psa_key_type_t \<Rightarrow> psa_key_type_t" where
  [psa_defs]: "PSA_KEY_TYPE_PUBLIC_KEY_OF_KEY_PAIR t = 
    t AND NOT PSA_KEY_TYPE_CATEGORY_FLAG_PAIR"

definition PSA_KEY_TYPE_IS_RSA :: "psa_key_type_t \<Rightarrow> bool" where
  [psa_defs]: "PSA_KEY_TYPE_IS_RSA t = 
    (PSA_KEY_TYPE_PUBLIC_KEY_OF_KEY_PAIR t = PSA_KEY_TYPE_RSA_PUBLIC_KEY)"

definition PSA_KEY_TYPE_IS_ECC :: "psa_key_type_t \<Rightarrow> bool" where
  [psa_defs]: "PSA_KEY_TYPE_IS_ECC t = 
    (PSA_KEY_TYPE_PUBLIC_KEY_OF_KEY_PAIR t AND NOT PSA_KEY_TYPE_ECC_CURVE_MASK =
     PSA_KEY_TYPE_ECC_PUBLIC_KEY_BASE)"

definition PSA_KEY_TYPE_IS_ECC_KEY_PAIR :: "psa_key_type_t \<Rightarrow> bool" where
  [psa_defs]: "PSA_KEY_TYPE_IS_ECC_KEY_PAIR t = 
    (t AND NOT PSA_KEY_TYPE_ECC_CURVE_MASK = PSA_KEY_TYPE_ECC_KEY_PAIR_BASE)"

definition PSA_KEY_TYPE_IS_ECC_PUBLIC_KEY :: "psa_key_type_t \<Rightarrow> bool" where
  [psa_defs]: "PSA_KEY_TYPE_IS_ECC_PUBLIC_KEY t = 
    (t AND NOT PSA_KEY_TYPE_ECC_CURVE_MASK = PSA_KEY_TYPE_ECC_PUBLIC_KEY_BASE)"

definition PSA_KEY_TYPE_IS_SPAKE2P :: "psa_key_type_t \<Rightarrow> bool" where
  [psa_defs]: "PSA_KEY_TYPE_IS_SPAKE2P t = 
    (t AND 0xff00 = 0x7200 \<or> t AND 0xff00 = 0x5200)"

definition PSA_KEY_TYPE_HAS_ECC_FAMILY :: "psa_key_type_t \<Rightarrow> bool" where
  [psa_defs]: "PSA_KEY_TYPE_HAS_ECC_FAMILY t = 
    (PSA_KEY_TYPE_IS_ECC t \<or> PSA_KEY_TYPE_IS_SPAKE2P t)"

definition PSA_KEY_TYPE_ECC_GET_FAMILY :: "psa_key_type_t \<Rightarrow> psa_ecc_family_t" where
  [psa_defs]: "PSA_KEY_TYPE_ECC_GET_FAMILY t = 
    (if PSA_KEY_TYPE_HAS_ECC_FAMILY t then ucast (t AND PSA_KEY_TYPE_ECC_CURVE_MASK) else 0)"

definition PSA_KEY_TYPE_IS_DH :: "psa_key_type_t \<Rightarrow> bool" where
  [psa_defs]: "PSA_KEY_TYPE_IS_DH t = 
    (PSA_KEY_TYPE_PUBLIC_KEY_OF_KEY_PAIR t AND NOT PSA_KEY_TYPE_DH_GROUP_MASK =
     PSA_KEY_TYPE_DH_PUBLIC_KEY_BASE)"

definition PSA_KEY_TYPE_IS_ML_KEM :: "psa_key_type_t \<Rightarrow> bool" where
  [psa_defs]: "PSA_KEY_TYPE_IS_ML_KEM t = 
    (PSA_KEY_TYPE_PUBLIC_KEY_OF_KEY_PAIR t = 0x4004)"

definition PSA_KEY_TYPE_IS_ML_DSA :: "psa_key_type_t \<Rightarrow> bool" where
  [psa_defs]: "PSA_KEY_TYPE_IS_ML_DSA t = 
    (PSA_KEY_TYPE_PUBLIC_KEY_OF_KEY_PAIR t = 0x4002)"

definition PSA_GET_KEY_TYPE_BLOCK_SIZE_EXPONENT :: "psa_key_type_t \<Rightarrow> nat" where
  [psa_defs]: "PSA_GET_KEY_TYPE_BLOCK_SIZE_EXPONENT t = 
    unat (drop_bit 8 t AND 7)"

definition PSA_BLOCK_CIPHER_BLOCK_LENGTH :: "psa_key_type_t \<Rightarrow> nat" where
  [psa_defs]: "PSA_BLOCK_CIPHER_BLOCK_LENGTH t = 
    (if t AND PSA_KEY_TYPE_CATEGORY_MASK = PSA_KEY_TYPE_CATEGORY_SYMMETRIC
     then 2 ^ PSA_GET_KEY_TYPE_BLOCK_SIZE_EXPONENT t else 0)"

definition PSA_ALG_IS_HASH :: "psa_algorithm_t \<Rightarrow> bool" where
  [psa_defs]: "PSA_ALG_IS_HASH a = 
    (a AND PSA_ALG_CATEGORY_MASK = PSA_ALG_CATEGORY_HASH)"

definition PSA_ALG_IS_MAC :: "psa_algorithm_t \<Rightarrow> bool" where
  [psa_defs]: "PSA_ALG_IS_MAC a = 
    (a AND PSA_ALG_CATEGORY_MASK = PSA_ALG_CATEGORY_MAC)"

definition PSA_ALG_IS_CIPHER :: "psa_algorithm_t \<Rightarrow> bool" where
  [psa_defs]: "PSA_ALG_IS_CIPHER a = 
    (a AND PSA_ALG_CATEGORY_MASK = PSA_ALG_CATEGORY_CIPHER)"

definition PSA_ALG_IS_AEAD :: "psa_algorithm_t \<Rightarrow> bool" where
  [psa_defs]: "PSA_ALG_IS_AEAD a = 
    (a AND PSA_ALG_CATEGORY_MASK = PSA_ALG_CATEGORY_AEAD)"

definition PSA_ALG_IS_SIGN :: "psa_algorithm_t \<Rightarrow> bool" where
  [psa_defs]: "PSA_ALG_IS_SIGN a = 
    (a AND PSA_ALG_CATEGORY_MASK = PSA_ALG_CATEGORY_SIGN)"

definition PSA_ALG_IS_KEY_AGREEMENT :: "psa_algorithm_t \<Rightarrow> bool" where
  [psa_defs]: "PSA_ALG_IS_KEY_AGREEMENT a = 
    (a AND PSA_ALG_CATEGORY_MASK = PSA_ALG_CATEGORY_KEY_AGREEMENT)"

definition PSA_ALG_IS_KEY_DERIVATION :: "psa_algorithm_t \<Rightarrow> bool" where
  [psa_defs]: "PSA_ALG_IS_KEY_DERIVATION a = 
    (a AND PSA_ALG_CATEGORY_MASK = PSA_ALG_CATEGORY_KEY_DERIVATION)"

definition PSA_ALG_IS_ASYMMETRIC_ENCRYPTION :: "psa_algorithm_t \<Rightarrow> bool" where
  [psa_defs]: "PSA_ALG_IS_ASYMMETRIC_ENCRYPTION a = 
    (a AND PSA_ALG_CATEGORY_MASK = PSA_ALG_CATEGORY_ASYMMETRIC_ENCRYPTION)"

definition PSA_ALG_HMAC :: "psa_algorithm_t \<Rightarrow> psa_algorithm_t" where
  [psa_defs]: "PSA_ALG_HMAC h = PSA_ALG_HMAC_BASE OR (h AND PSA_ALG_HASH_MASK)"

definition PSA_ALG_HMAC_GET_HASH :: "psa_algorithm_t \<Rightarrow> psa_algorithm_t" where
  [psa_defs]: "PSA_ALG_HMAC_GET_HASH a = 
    PSA_ALG_CATEGORY_HASH OR (a AND PSA_ALG_HASH_MASK)"

definition PSA_ALG_IS_HMAC :: "psa_algorithm_t \<Rightarrow> bool" where
  [psa_defs]: "PSA_ALG_IS_HMAC a = 
    (a AND (PSA_ALG_CATEGORY_MASK OR PSA_ALG_MAC_SUBCATEGORY_MASK) = PSA_ALG_HMAC_BASE)"

definition PSA_ALG_IS_BLOCK_CIPHER_MAC :: "psa_algorithm_t \<Rightarrow> bool" where
  [psa_defs]: "PSA_ALG_IS_BLOCK_CIPHER_MAC a = 
    (a AND (PSA_ALG_CATEGORY_MASK OR PSA_ALG_MAC_SUBCATEGORY_MASK) = PSA_ALG_CIPHER_MAC_BASE)"

definition PSA_ALG_TRUNCATED_MAC :: "psa_algorithm_t \<Rightarrow> nat \<Rightarrow> psa_algorithm_t" where
  [psa_defs]: "PSA_ALG_TRUNCATED_MAC a n = 
    (a AND NOT (PSA_ALG_MAC_TRUNCATION_MASK OR PSA_ALG_MAC_AT_LEAST_THIS_LENGTH_FLAG)) OR
    (push_bit 16 (word_of_nat n) AND PSA_ALG_MAC_TRUNCATION_MASK)"

definition PSA_ALG_FULL_LENGTH_MAC :: "psa_algorithm_t \<Rightarrow> psa_algorithm_t" where
  [psa_defs]: "PSA_ALG_FULL_LENGTH_MAC a = 
    a AND NOT (PSA_ALG_MAC_TRUNCATION_MASK OR PSA_ALG_MAC_AT_LEAST_THIS_LENGTH_FLAG)"

definition PSA_MAC_TRUNCATED_LENGTH :: "psa_algorithm_t \<Rightarrow> nat" where
  [psa_defs]: "PSA_MAC_TRUNCATED_LENGTH a = 
    unat (drop_bit 16 (a AND PSA_ALG_MAC_TRUNCATION_MASK))"

definition PSA_ALG_AT_LEAST_THIS_LENGTH_MAC :: "psa_algorithm_t \<Rightarrow> nat \<Rightarrow> psa_algorithm_t" where
  [psa_defs]: "PSA_ALG_AT_LEAST_THIS_LENGTH_MAC a n = 
    PSA_ALG_TRUNCATED_MAC a n OR PSA_ALG_MAC_AT_LEAST_THIS_LENGTH_FLAG"

definition PSA_ALG_IS_STREAM_CIPHER :: "psa_algorithm_t \<Rightarrow> bool" where
  [psa_defs]: "PSA_ALG_IS_STREAM_CIPHER a = 
    (a AND (PSA_ALG_CATEGORY_MASK OR PSA_ALG_CIPHER_STREAM_FLAG) =
     PSA_ALG_CATEGORY_CIPHER OR PSA_ALG_CIPHER_STREAM_FLAG)"

definition PSA_ALG_AEAD_WITH_SHORTENED_TAG :: "psa_algorithm_t \<Rightarrow> nat \<Rightarrow> psa_algorithm_t" where
  [psa_defs]: "PSA_ALG_AEAD_WITH_SHORTENED_TAG a n = 
    (a AND NOT (PSA_ALG_AEAD_TAG_LENGTH_MASK OR PSA_ALG_AEAD_AT_LEAST_THIS_LENGTH_FLAG)) OR
    (push_bit 16 (word_of_nat n) AND PSA_ALG_AEAD_TAG_LENGTH_MASK)"

definition PSA_ALG_AEAD_GET_TAG_LENGTH :: "psa_algorithm_t \<Rightarrow> nat" where
  [psa_defs]: "PSA_ALG_AEAD_GET_TAG_LENGTH a = 
    unat (drop_bit 16 (a AND PSA_ALG_AEAD_TAG_LENGTH_MASK))"

definition PSA_ALG_AEAD_WITH_DEFAULT_LENGTH_TAG_CASE :: "psa_algorithm_t \<Rightarrow> psa_algorithm_t \<Rightarrow> bool" where
  [psa_defs]: "PSA_ALG_AEAD_WITH_DEFAULT_LENGTH_TAG_CASE a ref = 
    (PSA_ALG_AEAD_WITH_SHORTENED_TAG a 0 = PSA_ALG_AEAD_WITH_SHORTENED_TAG ref 0)"

definition PSA_ALG_AEAD_WITH_DEFAULT_LENGTH_TAG :: "psa_algorithm_t \<Rightarrow> psa_algorithm_t" where
  [psa_defs]: "PSA_ALG_AEAD_WITH_DEFAULT_LENGTH_TAG a = 
    (if PSA_ALG_AEAD_WITH_DEFAULT_LENGTH_TAG_CASE a PSA_ALG_CCM then PSA_ALG_CCM
     else if PSA_ALG_AEAD_WITH_DEFAULT_LENGTH_TAG_CASE a PSA_ALG_GCM then PSA_ALG_GCM
     else if PSA_ALG_AEAD_WITH_DEFAULT_LENGTH_TAG_CASE a PSA_ALG_CHACHA20_POLY1305
       then PSA_ALG_CHACHA20_POLY1305
     else if PSA_ALG_AEAD_WITH_DEFAULT_LENGTH_TAG_CASE a PSA_ALG_XCHACHA20_POLY1305
       then PSA_ALG_XCHACHA20_POLY1305
     else if PSA_ALG_AEAD_WITH_DEFAULT_LENGTH_TAG_CASE a PSA_ALG_ASCON_AEAD128
       then PSA_ALG_ASCON_AEAD128
     else 0)"

definition PSA_ALG_AEAD_WITH_AT_LEAST_THIS_LENGTH_TAG :: "psa_algorithm_t \<Rightarrow> nat \<Rightarrow> psa_algorithm_t" where
  [psa_defs]: "PSA_ALG_AEAD_WITH_AT_LEAST_THIS_LENGTH_TAG a n = 
    PSA_ALG_AEAD_WITH_SHORTENED_TAG a n OR PSA_ALG_AEAD_AT_LEAST_THIS_LENGTH_FLAG"

definition PSA_ALG_AEAD_EQUAL :: "psa_algorithm_t \<Rightarrow> psa_algorithm_t \<Rightarrow> bool" where
  [psa_defs]: "PSA_ALG_AEAD_EQUAL a b = 
    ((a XOR b) AND NOT (PSA_ALG_AEAD_TAG_LENGTH_MASK OR PSA_ALG_AEAD_AT_LEAST_THIS_LENGTH_FLAG) = 0)"

definition PSA_ALG_IS_SIGN_HASH :: "psa_algorithm_t \<Rightarrow> bool" where
  [psa_defs]: "PSA_ALG_IS_SIGN_HASH a = 
    (PSA_ALG_IS_SIGN a \<and> a \<noteq> PSA_ALG_PURE_EDDSA \<and> a \<noteq> PSA_ALG_EDDSA_CTX)"

definition PSA_ALG_IS_HASH_AND_SIGN :: "psa_algorithm_t \<Rightarrow> bool" where
  [psa_defs]: "PSA_ALG_IS_HASH_AND_SIGN a = 
    (PSA_ALG_IS_SIGN_HASH a \<and> a AND PSA_ALG_HASH_MASK \<noteq> 0)"

definition PSA_ALG_SIGN_GET_HASH :: "psa_algorithm_t \<Rightarrow> psa_algorithm_t" where
  [psa_defs]: "PSA_ALG_SIGN_GET_HASH a = 
    (if PSA_ALG_IS_HASH_AND_SIGN a then (a AND PSA_ALG_HASH_MASK) OR PSA_ALG_CATEGORY_HASH else 0)"

definition PSA_ALG_GET_HASH :: "psa_algorithm_t \<Rightarrow> psa_algorithm_t" where
  [psa_defs]: "PSA_ALG_GET_HASH a = 
    (if a AND 0xff = 0 then PSA_ALG_NONE else 0x02000000 OR (a AND 0xff))"

definition PSA_KEY_LIFETIME_GET_PERSISTENCE :: "psa_key_lifetime_t \<Rightarrow> psa_key_persistence_t" where
  [psa_defs]: "PSA_KEY_LIFETIME_GET_PERSISTENCE l = 
    ucast (l AND 0xff)"

definition PSA_KEY_LIFETIME_GET_LOCATION :: "psa_key_lifetime_t \<Rightarrow> psa_key_location_t" where
  [psa_defs]: "PSA_KEY_LIFETIME_GET_LOCATION l = drop_bit 8 l"

definition PSA_KEY_LIFETIME_IS_VOLATILE :: "psa_key_lifetime_t \<Rightarrow> bool" where
  [psa_defs]: "PSA_KEY_LIFETIME_IS_VOLATILE l = 
    (PSA_KEY_LIFETIME_GET_PERSISTENCE l = PSA_KEY_PERSISTENCE_VOLATILE)"

definition PSA_KEY_LIFETIME_FROM_PERSISTENCE_AND_LOCATION :: "psa_key_lifetime_t \<Rightarrow> psa_key_location_t \<Rightarrow> psa_key_lifetime_t" where
  [psa_defs]: "PSA_KEY_LIFETIME_FROM_PERSISTENCE_AND_LOCATION p l = 
    push_bit 8 l OR p"

section \<open>Sizes (crypto_sizes.h)\<close>

abbreviation PSA_MAX_KEY_BITS :: nat where "PSA_MAX_KEY_BITS \<equiv> 0xfff8"
abbreviation PSA_AEAD_TAG_MAX_SIZE :: nat where "PSA_AEAD_TAG_MAX_SIZE \<equiv> 16"
abbreviation PSA_AEAD_NONCE_MAX_SIZE :: nat where "PSA_AEAD_NONCE_MAX_SIZE \<equiv> 24"
abbreviation PSA_VENDOR_RSA_MAX_KEY_BITS :: nat where "PSA_VENDOR_RSA_MAX_KEY_BITS \<equiv> 4096"

definition PSA_BITS_TO_BYTES :: "nat \<Rightarrow> nat" where
  [psa_defs]: "PSA_BITS_TO_BYTES bits = (bits + 7) div 8"

definition PSA_HASH_LENGTH :: "psa_algorithm_t \<Rightarrow> nat" where
  [psa_defs]: "PSA_HASH_LENGTH a =
    (let h = PSA_ALG_HMAC_GET_HASH a in
     if h = PSA_ALG_MD5 then 16
     else if h = PSA_ALG_RIPEMD160 then 20
     else if h = PSA_ALG_SHA_1 then 20
     else if h = PSA_ALG_SHA_224 then 28
     else if h = PSA_ALG_SHA_256 then 32
     else if h = PSA_ALG_SHA_384 then 48
     else if h = PSA_ALG_SHA_512 then 64
     else if h = PSA_ALG_SHA_512_224 then 28
     else if h = PSA_ALG_SHA_512_256 then 32
     else if h = PSA_ALG_SHA3_224 then 28
     else if h = PSA_ALG_SHA3_256 then 32
     else if h = PSA_ALG_SHA3_384 then 48
     else if h = PSA_ALG_SHA3_512 then 64
     else if h = PSA_ALG_ASCON_HASH256 then 32
     else 0)"

definition PSA_MAC_LENGTH :: "psa_key_type_t \<Rightarrow> psa_key_bits_t \<Rightarrow> psa_algorithm_t \<Rightarrow> nat" where
  [psa_defs]: "PSA_MAC_LENGTH key_type key_bits a =
    (if a AND PSA_ALG_MAC_TRUNCATION_MASK \<noteq> 0 then PSA_MAC_TRUNCATED_LENGTH a
     else if PSA_ALG_IS_HMAC a then PSA_HASH_LENGTH (PSA_ALG_HMAC_GET_HASH a)
     else if PSA_ALG_IS_BLOCK_CIPHER_MAC a then PSA_BLOCK_CIPHER_BLOCK_LENGTH key_type
     else 0)"

definition PSA_AEAD_NONCE_LENGTH :: "psa_key_type_t \<Rightarrow> psa_algorithm_t \<Rightarrow> nat" where
  [psa_defs]: "PSA_AEAD_NONCE_LENGTH key_type a =
    (if PSA_BLOCK_CIPHER_BLOCK_LENGTH key_type = 16 then
       (if PSA_ALG_AEAD_EQUAL a PSA_ALG_CCM then 13
        else if PSA_ALG_AEAD_EQUAL a PSA_ALG_GCM then 12
        else 0)
     else if key_type = PSA_KEY_TYPE_CHACHA20 \<and> PSA_ALG_AEAD_EQUAL a PSA_ALG_CHACHA20_POLY1305
       then 12
     else if key_type = PSA_KEY_TYPE_XCHACHA20 \<and> PSA_ALG_AEAD_EQUAL a PSA_ALG_XCHACHA20_POLY1305
       then 24
     else if key_type = PSA_KEY_TYPE_ASCON \<and> PSA_ALG_AEAD_EQUAL a PSA_ALG_ASCON_AEAD128
       then 16
     else 0)"

definition PSA_KEY_EXPORT_ASN1_INTEGER_MAX_SIZE :: "nat \<Rightarrow> nat" where
  [psa_defs]: "PSA_KEY_EXPORT_ASN1_INTEGER_MAX_SIZE bits = bits div 8 + 5"

definition PSA_KEY_EXPORT_RSA_KEY_PAIR_MAX_SIZE :: "nat \<Rightarrow> nat" where
  [psa_defs]: "PSA_KEY_EXPORT_RSA_KEY_PAIR_MAX_SIZE bits =
    9 * PSA_KEY_EXPORT_ASN1_INTEGER_MAX_SIZE (bits div 2 + 1) + 14"

definition PSA_KEY_EXPORT_ECC_PUBLIC_KEY_MAX_SIZE :: "nat \<Rightarrow> nat" where
  [psa_defs]: "PSA_KEY_EXPORT_ECC_PUBLIC_KEY_MAX_SIZE bits = 2 * PSA_BITS_TO_BYTES bits + 1"

definition PSA_KEY_EXPORT_ECC_KEY_PAIR_MAX_SIZE :: "nat \<Rightarrow> nat" where
  [psa_defs]: "PSA_KEY_EXPORT_ECC_KEY_PAIR_MAX_SIZE bits =
    (if bits = 448 then 57 else PSA_BITS_TO_BYTES bits)"

section \<open>Key attributes (crypto_struct.h)\<close>

record psa_key_policy_t =
  usage :: psa_key_usage_t
  alg :: psa_algorithm_t
  alg2 :: psa_algorithm_t

record psa_key_attributes_t =
  type :: psa_key_type_t
  bits :: psa_key_bits_t
  lifetime :: psa_key_lifetime_t
  policy :: psa_key_policy_t
  id :: psa_key_id_t

definition psa_key_attributes_init :: psa_key_attributes_t where
  "psa_key_attributes_init =
    \<lparr>type = PSA_KEY_TYPE_NONE, bits = 0, lifetime = PSA_KEY_LIFETIME_VOLATILE,
     policy = \<lparr>usage = 0, alg = 0, alg2 = 0\<rparr>, id = PSA_KEY_ID_NULL\<rparr>"

definition psa_reset_key_attributes :: "psa_key_attributes_t \<Rightarrow> psa_key_attributes_t" where
  "psa_reset_key_attributes a = psa_key_attributes_init"

definition psa_set_key_id :: "psa_key_attributes_t \<Rightarrow> psa_key_id_t \<Rightarrow> psa_key_attributes_t" where
  "psa_set_key_id a key =
    (let l = lifetime a; a' = a\<lparr>id := key\<rparr> in
     if PSA_KEY_LIFETIME_IS_VOLATILE l
     then a'\<lparr>lifetime := PSA_KEY_LIFETIME_FROM_PERSISTENCE_AND_LOCATION
                PSA_KEY_LIFETIME_PERSISTENT (PSA_KEY_LIFETIME_GET_LOCATION l)\<rparr>
     else a')"

definition psa_set_key_lifetime ::
    "psa_key_attributes_t \<Rightarrow> psa_key_lifetime_t \<Rightarrow> psa_key_attributes_t" where
  "psa_set_key_lifetime a l =
    (let a' = a\<lparr>lifetime := l\<rparr> in
     if PSA_KEY_LIFETIME_IS_VOLATILE l then a'\<lparr>id := PSA_KEY_ID_NULL\<rparr> else a')"

definition psa_extend_key_usage_flags :: "psa_key_usage_t \<Rightarrow> psa_key_usage_t" where
  "psa_extend_key_usage_flags u =
    (let u1 = (if u AND PSA_KEY_USAGE_SIGN_HASH \<noteq> 0 then u OR PSA_KEY_USAGE_SIGN_MESSAGE else u)
     in if u1 AND PSA_KEY_USAGE_VERIFY_HASH \<noteq> 0 then u1 OR PSA_KEY_USAGE_VERIFY_MESSAGE else u1)"

definition psa_set_key_usage_flags ::
    "psa_key_attributes_t \<Rightarrow> psa_key_usage_t \<Rightarrow> psa_key_attributes_t" where
  "psa_set_key_usage_flags a u = a\<lparr>policy := (policy a)\<lparr>usage := psa_extend_key_usage_flags u\<rparr>\<rparr>"

definition psa_get_key_usage_flags :: "psa_key_attributes_t \<Rightarrow> psa_key_usage_t" where
  [simp]: "psa_get_key_usage_flags a = usage (policy a)"

definition psa_get_key_algorithm :: "psa_key_attributes_t \<Rightarrow> psa_algorithm_t" where
  [simp]: "psa_get_key_algorithm a = alg (policy a)"

definition psa_get_key_enrollment_algorithm :: "psa_key_attributes_t \<Rightarrow> psa_algorithm_t" where
  [simp]: "psa_get_key_enrollment_algorithm a = alg2 (policy a)"

definition psa_get_key_id :: "psa_key_attributes_t \<Rightarrow> psa_key_id_t" where
  [simp]: "psa_get_key_id a = id a"

definition psa_set_key_bits :: "psa_key_attributes_t \<Rightarrow> nat \<Rightarrow> psa_key_attributes_t" where
  "psa_set_key_bits a n =
    (if n > PSA_MAX_KEY_BITS then a\<lparr>bits := - 1\<rparr> else a\<lparr>bits := word_of_nat n\<rparr>)"

section \<open>Lemmas\<close>

lemma psa_status_code_inject: "psa_status_code s = psa_status_code t \<longleftrightarrow> s = t"
  by (cases s; cases t) simp_all

lemma psa_status_code_success: "psa_status_code s = 0 \<longleftrightarrow> s = PSA_SUCCESS"
  by (cases s) simp_all

end
