(* ===== verification/Psa_Engine.thy ===== *)
theory Psa_Engine
  imports Psa_Values
begin

text \<open>
  \<open>src/psa_engine.c\<close> (translation of wolfCrypt return codes, the default device id) and the
  helpers \<open>src/psa_size.h\<close> and \<open>src/psa_output.h\<close>. The wolfCrypt return codes are a datatype:
  the sources compare them only with each other, as the labels of a C \<open>switch\<close>, which are
  pairwise distinct and distinct from 0.
\<close>

section \<open>Build options\<close>

text \<open>
  The compile-time switches the modelled sources depend on beside those that the default
  \<open>user_settings.h\<close> fixes (there \<open>HAVE_ECC\<close>, \<open>HAVE_CURVE25519\<close>, \<open>HAVE_CURVE448\<close>, \<open>HAVE_ED25519\<close>,
  \<open>HAVE_ED448\<close>, \<open>WOLFSSL_HAVE_MLDSA\<close>, \<open>WOLFSSL_HAVE_MLKEM\<close>, \<open>WOLFSSL_CMAC\<close>, \<open>WOLFSSL_SHA3\<close> and
  RSA are on). \<open>PSA_HASH_MAX_SIZE\<close> follows from the generated \<open>PSA_WANT_ALG_*\<close> set.
\<close>

record build =
  WOLFPSA_ENROLLMENT_ALG :: bool
  WOLFPSA_THREAD_SAFE :: bool
  WOLF_CRYPTO_CB :: bool
  HAVE_ECC192 :: bool
  HAVE_ECC224 :: bool
  HAVE_ECC_KOBLITZ :: bool
  HAVE_ECC_BRAINPOOL :: bool
  PSA_HASH_MAX_SIZE :: nat

definition default_build :: build where
  "default_build =
    \<lparr>WOLFPSA_ENROLLMENT_ALG = False, WOLFPSA_THREAD_SAFE = False,
     WOLF_CRYPTO_CB = False, HAVE_ECC192 = False,
     HAVE_ECC224 = False, HAVE_ECC_KOBLITZ = False, HAVE_ECC_BRAINPOOL = False,
     PSA_HASH_MAX_SIZE = 64\<rparr>"

section \<open>wolfCrypt return codes\<close>

datatype wc_ret =
    WC_OK
  | NOT_COMPILED_IN | BAD_FUNC_ARG
  | ECC_BAD_ARG_E | ECC_CURVE_OID_E | ECC_PRIV_KEY_E | ECC_OUT_OF_RANGE_E | ECC_PRIVATEONLY_E
  | BUFFER_E | RSA_BUFFER_E | MEMORY_E | WC_HW_E | SIG_VERIFY_E
  | AES_GCM_AUTH_E | AES_CCM_AUTH_E | AES_EAX_AUTH_E | AES_SIV_AUTH_E | MAC_CMP_FAILED_E
  | RNG_FAILURE_E | BAD_PADDING_E | RSA_PAD_E | BAD_STATE_E
  | PSS_SALTLEN_E | RSA_OUT_OF_RANGE_E | LENGTH_ONLY_E
  | WC_OTHER int

fun wc_error_to_psa_status :: "wc_ret \<Rightarrow> psa_status" where
  "wc_error_to_psa_status WC_OK = PSA_SUCCESS"
| "wc_error_to_psa_status NOT_COMPILED_IN = PSA_ERROR_NOT_SUPPORTED"
| "wc_error_to_psa_status BAD_FUNC_ARG = PSA_ERROR_INVALID_ARGUMENT"
| "wc_error_to_psa_status ECC_BAD_ARG_E = PSA_ERROR_INVALID_ARGUMENT"
| "wc_error_to_psa_status ECC_CURVE_OID_E = PSA_ERROR_INVALID_ARGUMENT"
| "wc_error_to_psa_status ECC_PRIV_KEY_E = PSA_ERROR_INVALID_ARGUMENT"
| "wc_error_to_psa_status ECC_OUT_OF_RANGE_E = PSA_ERROR_INVALID_ARGUMENT"
| "wc_error_to_psa_status ECC_PRIVATEONLY_E = PSA_ERROR_INVALID_ARGUMENT"
| "wc_error_to_psa_status BUFFER_E = PSA_ERROR_BUFFER_TOO_SMALL"
| "wc_error_to_psa_status RSA_BUFFER_E = PSA_ERROR_BUFFER_TOO_SMALL"
| "wc_error_to_psa_status MEMORY_E = PSA_ERROR_INSUFFICIENT_MEMORY"
| "wc_error_to_psa_status WC_HW_E = PSA_ERROR_HARDWARE_FAILURE"
| "wc_error_to_psa_status SIG_VERIFY_E = PSA_ERROR_INVALID_SIGNATURE"
| "wc_error_to_psa_status AES_GCM_AUTH_E = PSA_ERROR_INVALID_SIGNATURE"
| "wc_error_to_psa_status AES_CCM_AUTH_E = PSA_ERROR_INVALID_SIGNATURE"
| "wc_error_to_psa_status AES_EAX_AUTH_E = PSA_ERROR_INVALID_SIGNATURE"
| "wc_error_to_psa_status AES_SIV_AUTH_E = PSA_ERROR_INVALID_SIGNATURE"
| "wc_error_to_psa_status MAC_CMP_FAILED_E = PSA_ERROR_INVALID_SIGNATURE"
| "wc_error_to_psa_status RNG_FAILURE_E = PSA_ERROR_INSUFFICIENT_ENTROPY"
| "wc_error_to_psa_status BAD_PADDING_E = PSA_ERROR_INVALID_PADDING"
| "wc_error_to_psa_status RSA_PAD_E = PSA_ERROR_INVALID_PADDING"
| "wc_error_to_psa_status BAD_STATE_E = PSA_ERROR_BAD_STATE"
| "wc_error_to_psa_status PSS_SALTLEN_E = PSA_ERROR_GENERIC_ERROR"
| "wc_error_to_psa_status RSA_OUT_OF_RANGE_E = PSA_ERROR_GENERIC_ERROR"
| "wc_error_to_psa_status LENGTH_ONLY_E = PSA_ERROR_GENERIC_ERROR"
| "wc_error_to_psa_status (WC_OTHER n) = PSA_ERROR_GENERIC_ERROR"

lemma wc_error_to_psa_status_success [simp]:
  "wc_error_to_psa_status r = PSA_SUCCESS \<longleftrightarrow> r = WC_OK"
  by (cases r) simp_all

text \<open>The hash types of wolfCrypt that the sources name, and the size of a digest.\<close>

datatype wc_hash_type =
    WC_HASH_TYPE_NONE | WC_HASH_TYPE_MD5 | WC_HASH_TYPE_SHA | WC_HASH_TYPE_SHA224
  | WC_HASH_TYPE_SHA256 | WC_HASH_TYPE_SHA384 | WC_HASH_TYPE_SHA512 | WC_HASH_TYPE_SHA512_224
  | WC_HASH_TYPE_SHA512_256 | WC_HASH_TYPE_SHA3_224 | WC_HASH_TYPE_SHA3_256
  | WC_HASH_TYPE_SHA3_384 | WC_HASH_TYPE_SHA3_512

section \<open>Default device id\<close>

text \<open>
  \<open>INVALID_DEVID\<close> and the device that
  \<open>wc_CryptoCb_DefaultDevID()\<close> picks belong to the build and to wolfCrypt: they are arguments.
\<close>

abbreviation WOLFPSA_DEVID_DEFAULT :: int where "WOLFPSA_DEVID_DEFAULT \<equiv> - (2 ^ 31)"

definition wolfPSA_SetDefaultDevID :: "build \<Rightarrow> int \<Rightarrow> int \<Rightarrow> int \<Rightarrow> wc_ret \<times> int" where
  "wolfPSA_SetDefaultDevID b INVALID_DEVID cur devId =
    (if \<not> WOLF_CRYPTO_CB b \<and> devId \<noteq> INVALID_DEVID \<and> devId \<noteq> WOLFPSA_DEVID_DEFAULT
     then (NOT_COMPILED_IN, cur) else (WC_OK, devId))"

definition wolfPSA_GetDefaultDevID :: "build \<Rightarrow> int \<Rightarrow> int \<Rightarrow> int \<Rightarrow> int" where
  "wolfPSA_GetDefaultDevID b INVALID_DEVID wc_default cur =
    (if WOLF_CRYPTO_CB b
     then (if cur = WOLFPSA_DEVID_DEFAULT then wc_default else cur)
     else (if cur = WOLFPSA_DEVID_DEFAULT then INVALID_DEVID else cur))"

text \<open>Without crypto callbacks no device is ever selected, whatever was requested before.\<close>

lemma devid_never_offloads_without_cb:
  assumes "\<not> WOLF_CRYPTO_CB b"
    and "cur = inv_id \<or> cur = WOLFPSA_DEVID_DEFAULT"
    and "wolfPSA_SetDefaultDevID b inv_id cur d = (r, cur')"
  shows "wolfPSA_GetDefaultDevID b inv_id wcd cur' = inv_id"
  using assms
  by (auto simp: wolfPSA_SetDefaultDevID_def wolfPSA_GetDefaultDevID_def split: if_splits)

section \<open>Size and output helpers\<close>

definition wolfpsa_check_word32_length :: "nat \<Rightarrow> psa_status" where
  "wolfpsa_check_word32_length n =
    (if n > UINT32_MAX then PSA_ERROR_INVALID_ARGUMENT else PSA_SUCCESS)"

lemma wolfpsa_check_word32_length_ok [simp]:
  "wolfpsa_check_word32_length n = PSA_SUCCESS \<longleftrightarrow> n \<le> UINT32_MAX"
  by (simp add: wolfpsa_check_word32_length_def)

definition wolfpsa_clear_length :: "nat option \<Rightarrow> nat option" where
  "wolfpsa_clear_length len = map_option (\<lambda>_. 0) len"

end
