(* ===== verification/Store_Interface.thy ===== *)
theory Store_Interface
  imports Prelude
begin

text \<open>
  The backend interface of \<open>wolfpsa/psa_store.h\<close>. The backend is chosen at link time, so the
  six entry points are a record that the key store takes as an argument. The locale
  \<open>store_backend\<close> states what the key store relies on: a store is a map from record ids to
  byte strings, a read handle is an immutable view of one record, and a write session commits
  all of its bytes or leaves the store as it was.
\<close>

section \<open>Return codes and operations\<close>

datatype store_rc =
    WOLFPSA_STORE_OK
  | WOLFPSA_STORE_NOT_AVAILABLE
  | WOLFPSA_STORE_IO_ERROR
  | STORE_MEMORY_E
  | STORE_BUFFER_E
  | STORE_FAIL

abbreviation WOLFPSA_STORE_KEY :: int where "WOLFPSA_STORE_KEY \<equiv> 0"

text \<open>
  A successful open yields a handle, a failing one the return code. \<open>so_read\<close> yields the
  bytes read (the byte count the C function returns is their number) or an error,
  \<open>so_write\<close> the byte count or an error.
\<close>

datatype 'h open_result = Opened 'h | OpenFail store_rc

record ('st, 'h) store_ops =
  so_open :: "'st \<Rightarrow> int \<Rightarrow> nat \<Rightarrow> nat \<Rightarrow> bool \<Rightarrow> nat \<Rightarrow> 'h open_result \<times> 'st"
  so_read :: "'st \<Rightarrow> 'h \<Rightarrow> nat \<Rightarrow> (store_rc + byte list) \<times> 'h \<times> 'st"
  so_write :: "'st \<Rightarrow> 'h \<Rightarrow> byte list \<Rightarrow> (store_rc + nat) \<times> 'h \<times> 'st"
  so_close :: "'st \<Rightarrow> 'h \<Rightarrow> store_rc \<times> 'st"
  so_remove :: "'st \<Rightarrow> int \<Rightarrow> nat \<Rightarrow> nat \<Rightarrow> store_rc \<times> 'st"

text \<open>
  The write sequence of \<open>psa_import_key\<close>: open for writing, write, close; a failed commit is
  reported only when the write itself did not fail. The result is the \<open>ret\<close> of that code:
  an error or the byte count.
\<close>

definition store_write_session ::
    "('st, 'h) store_ops \<Rightarrow> 'st \<Rightarrow> nat \<Rightarrow> nat \<Rightarrow> byte list \<Rightarrow> (store_rc + nat) \<times> 'st" where
  "store_write_session ops st k variableSz buffer =
    (case so_open ops st WOLFPSA_STORE_KEY k 0 False variableSz of
       (OpenFail rc, st1) \<Rightarrow> (Inl rc, st1)
     | (Opened h, st1) \<Rightarrow>
         (case so_write ops st1 h buffer of
            (io, h', st2) \<Rightarrow>
              (case so_close ops st2 h' of
                 (closeRet, st3) \<Rightarrow>
                   (case io of
                      Inl e \<Rightarrow> (Inl e, st3)
                    | Inr n \<Rightarrow>
                        (if closeRet \<noteq> WOLFPSA_STORE_OK then Inl closeRet else Inr n, st3)))))"

section \<open>The contract\<close>

text \<open>
  \<open>recs\<close> is the map the store represents, \<open>reading h bs\<close> says that \<open>h\<close> is a read handle with
  \<open>bs\<close> left to read, and \<open>healthy\<close> describes a state in which no environment failure is
  pending: from there every operation on an id succeeds for which the backend keeps records
  (\<open>valid\<close>).
\<close>

locale store_backend =
  fixes ops :: "('st, 'h) store_ops"
    and recs :: "'st \<Rightarrow> nat \<Rightarrow> byte list option"
    and reading :: "'h \<Rightarrow> byte list \<Rightarrow> bool"
    and healthy :: "'st \<Rightarrow> bool"
    and valid :: "nat \<Rightarrow> bool"
  assumes open_read_recs:
      "so_open ops st WOLFPSA_STORE_KEY k 0 True n = (r, st') \<Longrightarrow> recs st' = recs st"
    and open_read_view:
      "so_open ops st WOLFPSA_STORE_KEY k 0 True n = (Opened h, st') \<Longrightarrow>
       \<exists>bs. recs st k = Some bs \<and> reading h bs"
    and open_read_absent:
      "so_open ops st WOLFPSA_STORE_KEY k 0 True n = (OpenFail WOLFPSA_STORE_NOT_AVAILABLE, st') \<Longrightarrow>
       recs st k = None"
    and open_fail_not_ok:
      "so_open ops st WOLFPSA_STORE_KEY k 0 rd n = (OpenFail rc, st') \<Longrightarrow> rc \<noteq> WOLFPSA_STORE_OK"
    and read_recs: "reading h bs \<Longrightarrow> so_read ops st h n = (rr, h', st') \<Longrightarrow> recs st' = recs st"
    and read_bytes:
      "reading h bs \<Longrightarrow> so_read ops st h n = (Inr cs, h', st') \<Longrightarrow>
       length cs \<le> n \<and> (\<exists>ds. bs = cs @ ds \<and> reading h' ds)"
    and read_error: "reading h bs \<Longrightarrow> so_read ops st h n = (Inl e, h', st') \<Longrightarrow> reading h' bs"
    and close_read_recs:
      "reading h bs \<Longrightarrow> so_close ops st h = (rc, st') \<Longrightarrow> recs st' = recs st"
    and open_write_recs:
      "so_open ops st WOLFPSA_STORE_KEY k 0 False n = (r, st') \<Longrightarrow> recs st' = recs st"
    and write_count: "so_write ops st h bs = (Inr m, h', st') \<Longrightarrow> m \<le> length bs"
    and write_session:
      "so_open ops st WOLFPSA_STORE_KEY k 0 False n = (Opened h, st1) \<Longrightarrow>
       bs \<noteq> [] \<Longrightarrow> so_write ops st1 h bs = (io, h', st2) \<Longrightarrow> so_close ops st2 h' = (rc, st3) \<Longrightarrow>
       recs st3 = (if io = Inr (length bs) \<and> rc = WOLFPSA_STORE_OK
                   then (recs st)(k \<mapsto> bs) else recs st)"
    and remove_recs:
      "so_remove ops st WOLFPSA_STORE_KEY k 0 = (rc, st') \<Longrightarrow>
       recs st' = (if rc = WOLFPSA_STORE_OK then (recs st)(k := None) else recs st)"
    and remove_absent:
      "so_remove ops st WOLFPSA_STORE_KEY k 0 = (WOLFPSA_STORE_NOT_AVAILABLE, st') \<Longrightarrow>
       recs st k = None"
    and healthy_open_read:
      "healthy st \<Longrightarrow> k < 2 ^ 32 \<Longrightarrow> recs st k = Some bs \<Longrightarrow>
       \<exists>h st'. so_open ops st WOLFPSA_STORE_KEY k 0 True n = (Opened h, st') \<and> healthy st'"
    and healthy_open_absent:
      "healthy st \<Longrightarrow> valid k \<Longrightarrow> recs st k = None \<Longrightarrow>
       \<exists>st'. so_open ops st WOLFPSA_STORE_KEY k 0 True n =
               (OpenFail WOLFPSA_STORE_NOT_AVAILABLE, st') \<and> healthy st'"
    and healthy_read:
      "healthy st \<Longrightarrow> reading h bs \<Longrightarrow>
       \<exists>h' st'. so_read ops st h n = (Inr (take n bs), h', st') \<and> healthy st'"
    and healthy_close_read:
      "healthy st \<Longrightarrow> reading h bs \<Longrightarrow> \<exists>rc st'. so_close ops st h = (rc, st') \<and> healthy st'"
    and healthy_write_session:
      "healthy st \<Longrightarrow> valid k \<Longrightarrow> bs \<noteq> [] \<Longrightarrow>
       \<exists>h st1 h' st2 st3. so_open ops st WOLFPSA_STORE_KEY k 0 False n = (Opened h, st1) \<and>
         so_write ops st1 h bs = (Inr (length bs), h', st2) \<and>
         so_close ops st2 h' = (WOLFPSA_STORE_OK, st3) \<and> healthy st3"
    and healthy_remove:
      "healthy st \<Longrightarrow> valid k \<Longrightarrow>
       \<exists>rc st'. so_remove ops st WOLFPSA_STORE_KEY k 0 = (rc, st') \<and> healthy st' \<and>
         (rc = WOLFPSA_STORE_OK \<or> rc = WOLFPSA_STORE_NOT_AVAILABLE)"

begin

lemma write_session_recs:
  assumes "store_write_session ops st k n bs = (r, st')" and "bs \<noteq> []"
  shows "recs st' = (if r = Inr (length bs) then (recs st)(k \<mapsto> bs) else recs st)"
proof (cases "so_open ops st WOLFPSA_STORE_KEY k 0 False n")
  case (Pair o1 st1)
  show ?thesis
  proof (cases o1)
    case (OpenFail rc)
    then show ?thesis
      using assms Pair open_write_recs [OF Pair] by (auto simp: store_write_session_def)
  next
    case (Opened h)
    obtain io h' st2 where w: "so_write ops st1 h bs = (io, h', st2)" by (metis prod_cases3)
    obtain rc st3 where c: "so_close ops st2 h' = (rc, st3)" by fastforce
    note s = write_session [OF Pair [unfolded Opened] assms(2) w c]
    show ?thesis
      using assms(1) s by (auto simp: store_write_session_def Pair Opened w c split: sum.splits if_splits)
  qed
qed

lemma session_count:
  "store_write_session ops st k n bs = (Inr m, st') \<Longrightarrow> m \<le> length bs"
  by (auto simp: store_write_session_def dest: write_count
      split: prod.splits open_result.splits sum.splits if_splits)

lemma healthy_session:
  assumes "healthy st" and "valid k" and "bs \<noteq> []"
  shows "\<exists>st'. store_write_session ops st k n bs = (Inr (length bs), st') \<and> healthy st'"
proof -
  obtain h st1 h' st2 st3 where "so_open ops st WOLFPSA_STORE_KEY k 0 False n = (Opened h, st1)"
    "so_write ops st1 h bs = (Inr (length bs), h', st2)"
    "so_close ops st2 h' = (WOLFPSA_STORE_OK, st3)" "healthy st3"
    using healthy_write_session [OF assms, of n] by blast
  then show ?thesis by (simp add: store_write_session_def)
qed

end

end
