(* ===== verification/Key_Codec.thy ===== *)
theory Key_Codec
  imports Psa_Engine
begin

text \<open>
  The pure helpers of \<open>src/psa_key_storage.c\<close>: the image of a persistent key record (attribute
  header, length word, key data), the curve tables, the inference of a key size from key data
  and the validation of key data against the declared attributes. The wolfCrypt decoders these
  helpers call are fields of a record of parameters.
\<close>

unbundle bit_operations_syntax

section \<open>wolfCrypt key decoders\<close>

text \<open>
  \<open>rsa_decode pub data\<close> stands for \<open>wc_RsaPublicKeyDecode\<close> / \<open>wc_RsaPrivateKeyDecode\<close>: the return
  code, the number of bytes consumed, the bit count of the modulus and the public exponent.
  \<open>ecc_import pair data curve\<close> stands for \<open>wc_ecc_import_private_key_ex\<close> /
  \<open>wc_ecc_import_x963_ex\<close>.
\<close>

datatype ecc_curve =
    ECC_CURVE_INVALID
  | ECC_SECP192R1 | ECC_SECP224R1 | ECC_SECP256R1 | ECC_SECP384R1 | ECC_SECP521R1
  | ECC_SECP192K1 | ECC_SECP224K1 | ECC_SECP256K1
  | ECC_BRAINPOOLP256R1 | ECC_BRAINPOOLP384R1 | ECC_BRAINPOOLP512R1
  | ECC_X25519 | ECC_X448

record key_decoders =
  init_rsa :: wc_ret
  rsa_decode :: "bool \<Rightarrow> byte list \<Rightarrow> wc_ret \<times> nat \<times> int \<times> nat"
  init_ecc :: wc_ret
  ecc_import :: "bool \<Rightarrow> byte list \<Rightarrow> ecc_curve \<Rightarrow> wc_ret"

section \<open>Curve tables\<close>

definition wolfpsa_ecc_bits_from_length :: "psa_ecc_family_t \<Rightarrow> nat \<Rightarrow> psa_key_bits_t" where
  "wolfpsa_ecc_bits_from_length family n =
    (if family = PSA_ECC_FAMILY_SECP_R1 then
       (if n = 24 then 192 else if n = 28 then 224 else if n = 32 then 256
        else if n = 48 then 384 else if n = 66 then 521 else 0)
     else if family = PSA_ECC_FAMILY_SECP_K1 then
       (if n = 24 then 192 else if n = 28 then 224 else if n = 32 then 256 else 0)
     else if family = PSA_ECC_FAMILY_BRAINPOOL_P_R1 then
       (if n = 32 then 256 else if n = 48 then 384 else if n = 64 then 512 else 0)
     else if family = PSA_ECC_FAMILY_MONTGOMERY then
       (if n = 32 then 255 else if n = 56 then 448 else 0)
     else if family = PSA_ECC_FAMILY_TWISTED_EDWARDS then
       (if n = 32 then 255 else if n = 57 then 448 else 0)
     else 0)"

definition wolfpsa_ecc_length_from_bits :: "psa_ecc_family_t \<Rightarrow> psa_key_bits_t \<Rightarrow> nat" where
  "wolfpsa_ecc_length_from_bits family b =
    (if family = PSA_ECC_FAMILY_SECP_R1 then
       (if b = 192 then 24 else if b = 224 then 28 else if b = 256 then 32
        else if b = 384 then 48 else if b = 521 then 66 else 0)
     else if family = PSA_ECC_FAMILY_SECP_K1 then
       (if b = 192 then 24 else if b = 224 then 28 else if b = 256 then 32 else 0)
     else if family = PSA_ECC_FAMILY_BRAINPOOL_P_R1 then
       (if b = 256 then 32 else if b = 384 then 48 else if b = 512 then 64 else 0)
     else if family = PSA_ECC_FAMILY_MONTGOMERY then
       (if b = 255 then 32 else if b = 448 then 56 else 0)
     else if family = PSA_ECC_FAMILY_TWISTED_EDWARDS then
       (if b = 255 then 32 else if b = 448 then 57 else 0)
     else 0)"

text \<open>\<open>wc_psa_get_ecc_curve_id\<close> of \<open>src/psa_asymmetric.c\<close>.\<close>

definition wc_psa_get_ecc_curve_id :: "build \<Rightarrow> psa_key_type_t \<Rightarrow> nat \<Rightarrow> ecc_curve" where
  "wc_psa_get_ecc_curve_id b t n =
    (let curve = PSA_KEY_TYPE_ECC_GET_FAMILY t in
     if curve = PSA_ECC_FAMILY_SECP_R1 then
       (if n = 192 then (if HAVE_ECC192 b then ECC_SECP192R1 else ECC_CURVE_INVALID)
        else if n = 224 then (if HAVE_ECC224 b then ECC_SECP224R1 else ECC_CURVE_INVALID)
        else if n = 256 then ECC_SECP256R1
        else if n = 384 then ECC_SECP384R1
        else if n = 521 then ECC_SECP521R1
        else ECC_CURVE_INVALID)
     else if curve = PSA_ECC_FAMILY_SECP_K1 then
       (if n = 192 then
          (if HAVE_ECC192 b \<and> HAVE_ECC_KOBLITZ b then ECC_SECP192K1 else ECC_CURVE_INVALID)
        else if n = 224 then
          (if HAVE_ECC224 b \<and> HAVE_ECC_KOBLITZ b then ECC_SECP224K1 else ECC_CURVE_INVALID)
        else if n = 256 then (if HAVE_ECC_KOBLITZ b then ECC_SECP256K1 else ECC_CURVE_INVALID)
        else ECC_CURVE_INVALID)
     else if curve = PSA_ECC_FAMILY_BRAINPOOL_P_R1 then
       (if HAVE_ECC_BRAINPOOL b then
          (if n = 256 then ECC_BRAINPOOLP256R1
           else if n = 384 then ECC_BRAINPOOLP384R1
           else if n = 512 then ECC_BRAINPOOLP512R1
           else ECC_CURVE_INVALID)
        else ECC_CURVE_INVALID)
     else if curve = PSA_ECC_FAMILY_MONTGOMERY then
       (if n = 255 then ECC_X25519 else if n = 448 then ECC_X448 else ECC_CURVE_INVALID)
     else ECC_CURVE_INVALID)"

section \<open>Usage flags\<close>

abbreviation usage_mask :: psa_key_usage_t where
  "usage_mask \<equiv> PSA_KEY_USAGE_EXPORT OR PSA_KEY_USAGE_COPY OR PSA_KEY_USAGE_ENCRYPT OR
     PSA_KEY_USAGE_DECRYPT OR PSA_KEY_USAGE_SIGN_MESSAGE OR PSA_KEY_USAGE_VERIFY_MESSAGE OR
     PSA_KEY_USAGE_SIGN_HASH OR PSA_KEY_USAGE_VERIFY_HASH OR PSA_KEY_USAGE_DERIVE OR
     PSA_KEY_USAGE_VERIFY_DERIVATION OR PSA_KEY_USAGE_WRAP OR PSA_KEY_USAGE_UNWRAP"

definition wolfpsa_usage_flags_valid :: "psa_key_usage_t \<Rightarrow> bool" where
  "wolfpsa_usage_flags_valid u \<longleftrightarrow> u AND NOT usage_mask = 0"

section \<open>The persistent record\<close>

abbreviation attr_length :: nat where "attr_length \<equiv> 16"
abbreviation sizeof_size_t :: nat where "sizeof_size_t \<equiv> 8"
abbreviation header_length :: nat where "header_length \<equiv> 24"

definition attr_image :: "psa_key_attributes_t \<Rightarrow> byte list" where
  "attr_image a =
    le16 (type a) @ le16 (bits a) @ le32 (usage (policy a)) @ le32 (alg (policy a)) @
    le32 (lifetime a)"

text \<open>
  The status, the bytes written and \<open>*buffer_length\<close>. The pointer arguments of this file-local
  function are addresses of objects at its only call, so the NULL checks never fire.
\<close>

definition psa_key_attributes_serialize ::
    "psa_key_attributes_t \<Rightarrow> nat \<Rightarrow> psa_status \<times> byte list \<times> nat" where
  "psa_key_attributes_serialize a buffer_size =
    (if buffer_size < attr_length then (PSA_ERROR_BUFFER_TOO_SMALL, [], 0)
     else (PSA_SUCCESS, attr_image a, attr_length))"

text \<open>
  \<open>psa_key_attributes_deserialize\<close> overwrites the fields of an attribute object; the id is not
  part of the record and keeps its value.
\<close>

definition psa_key_attributes_deserialize ::
    "byte list \<Rightarrow> psa_key_attributes_t \<Rightarrow> psa_status \<times> psa_key_attributes_t" where
  "psa_key_attributes_deserialize buf a =
    (if length buf < attr_length then (PSA_ERROR_INVALID_ARGUMENT, a)
     else (PSA_SUCCESS,
       a\<lparr>type := un_le16 (take 2 buf),
         bits := un_le16 (take 2 (drop 2 buf)),
         policy := \<lparr>usage = un_le32 (take 4 (drop 4 buf)),
                    alg = un_le32 (take 4 (drop 8 buf)),
                    alg2 = PSA_ALG_NONE\<rparr>,
         lifetime := un_le32 (take 4 (drop 12 buf))\<rparr>))"

text \<open>The buffer that \<open>psa_import_key\<close> writes: header, length word, key data.\<close>

definition key_record :: "psa_key_attributes_t \<Rightarrow> byte list \<Rightarrow> byte list" where
  "key_record a data =
    attr_image a @ le_bytes sizeof_size_t (length data) @ data"

definition wolfpsa_validate_stored_key_data_length :: "nat \<Rightarrow> psa_status" where
  "wolfpsa_validate_stored_key_data_length n =
    (if n = 0 \<or> n > INT_MAX then PSA_ERROR_DATA_INVALID else PSA_SUCCESS)"

section \<open>Size inference\<close>

definition is_byte_string_type :: "psa_key_type_t \<Rightarrow> bool" where
  "is_byte_string_type t \<longleftrightarrow>
    t = PSA_KEY_TYPE_AES \<or> t = PSA_KEY_TYPE_DES \<or> t = PSA_KEY_TYPE_HMAC \<or>
    t = PSA_KEY_TYPE_RAW_DATA \<or> t = PSA_KEY_TYPE_CHACHA20 \<or> t = PSA_KEY_TYPE_XCHACHA20 \<or>
    t = PSA_KEY_TYPE_DERIVE \<or> t = PSA_KEY_TYPE_PASSWORD \<or> t = PSA_KEY_TYPE_PASSWORD_HASH \<or>
    t = PSA_KEY_TYPE_PEPPER"

text \<open>The ECC branch: the inferred bit count, or an error.\<close>

definition infer_ecc_bits :: "psa_key_type_t \<Rightarrow> nat \<Rightarrow> psa_status + psa_key_bits_t" where
  "infer_ecc_bits t n =
    (let family = PSA_KEY_TYPE_ECC_GET_FAMILY t in
     if PSA_KEY_TYPE_IS_ECC_PUBLIC_KEY t then
       (if family = PSA_ECC_FAMILY_MONTGOMERY \<or> family = PSA_ECC_FAMILY_TWISTED_EDWARDS then
          Inr (wolfpsa_ecc_bits_from_length family n)
        else if n < 2 \<or> odd (n - 1) then Inl PSA_ERROR_INVALID_ARGUMENT
        else Inr (wolfpsa_ecc_bits_from_length family ((n - 1) div 2)))
     else Inr (wolfpsa_ecc_bits_from_length family n))"

definition wolfpsa_infer_key_bits ::
    "psa_key_attributes_t \<Rightarrow> byte list \<Rightarrow> psa_status \<times> psa_key_attributes_t" where
  "wolfpsa_infer_key_bits a data =
    (let n = length data; t = type a;
         bad = (PSA_ERROR_INVALID_ARGUMENT, a);
         good = (\<lambda>b. (PSA_SUCCESS, a\<lparr>bits := b\<rparr>)) in
     if bits a \<noteq> 0 then (PSA_SUCCESS, a)
     else if is_byte_string_type t then
       (if n = 0 \<or> n * 8 > PSA_MAX_KEY_BITS then bad else good (word_of_nat (n * 8)))
     else if PSA_KEY_TYPE_IS_ECC t then
       (case infer_ecc_bits t n of
          Inl e \<Rightarrow> (e, a)
        | Inr b \<Rightarrow> (if b = 0 then bad else good b))
     else if PSA_KEY_TYPE_IS_DH t then good (word_of_nat (n * 8))
     else if PSA_KEY_TYPE_IS_ML_DSA t then
       (if t = PSA_KEY_TYPE_ML_DSA_PUBLIC_KEY then
          (if n = 1312 then good 128 else if n = 1952 then good 192
           else if n = 2592 then good 256 else bad)
        else bad)
     else if PSA_KEY_TYPE_IS_ML_KEM t then
       (if t = PSA_KEY_TYPE_ML_KEM_PUBLIC_KEY then
          (if n = 800 then good 512 else if n = 1184 then good 768
           else if n = 1568 then good 1024 else bad)
        else bad)
     else if t = PSA_KEY_TYPE_LMS_PUBLIC_KEY then
       (if n = 48 then good 192 else if n = 56 then good 256 else bad)
     else if t = PSA_KEY_TYPE_HSS_PUBLIC_KEY then
       (if n = 52 then good 192 else if n = 60 then good 256 else bad)
     else if t = PSA_KEY_TYPE_XMSS_PUBLIC_KEY \<or> t = PSA_KEY_TYPE_XMSS_MT_PUBLIC_KEY then
       (if n = 52 then good 192 else if n = 68 then good 256 else bad)
     else bad)"

section \<open>RSA and ECC key data\<close>

definition wolfpsa_key_data_status :: "wc_ret \<Rightarrow> psa_status" where
  "wolfpsa_key_data_status r =
    (if r = MEMORY_E \<or> r = RNG_FAILURE_E \<or> r = WC_HW_E then wc_error_to_psa_status r
     else PSA_ERROR_INVALID_ARGUMENT)"

abbreviation RSA_MIN_SIZE :: int where "RSA_MIN_SIZE \<equiv> 1024"

definition wolfpsa_rsa_key_bits ::
    "key_decoders \<Rightarrow> psa_key_type_t \<Rightarrow> byte list \<Rightarrow> psa_status + psa_key_bits_t" where
  "wolfpsa_rsa_key_bits wc t data =
    (if init_rsa wc \<noteq> WC_OK then Inl (wc_error_to_psa_status (init_rsa wc))
     else
       (let (r, idx, n_bits, e) = rsa_decode wc (t = PSA_KEY_TYPE_RSA_PUBLIC_KEY) data;
            e_valid = (odd e \<and> e \<ge> 3) in
        if r \<noteq> WC_OK then Inl (wolfpsa_key_data_status r)
        else if idx \<noteq> length data \<or> n_bits \<le> 0 \<or> \<not> e_valid then Inl PSA_ERROR_INVALID_ARGUMENT
        else if n_bits mod 8 \<noteq> 0 \<or> n_bits < RSA_MIN_SIZE \<or>
                n_bits > int PSA_VENDOR_RSA_MAX_KEY_BITS
          then Inl PSA_ERROR_NOT_SUPPORTED
        else Inr (word_of_int n_bits)))"

definition wolfpsa_ecc_check_key ::
    "build \<Rightarrow> key_decoders \<Rightarrow> psa_key_attributes_t \<Rightarrow> byte list \<Rightarrow> psa_status" where
  "wolfpsa_ecc_check_key b wc a data =
    (let curve_id = wc_psa_get_ecc_curve_id b (type a) (unat (bits a)) in
     if curve_id = ECC_CURVE_INVALID then PSA_SUCCESS
     else if init_ecc wc \<noteq> WC_OK then wc_error_to_psa_status (init_ecc wc)
     else
       (let r = ecc_import wc (PSA_KEY_TYPE_IS_ECC_KEY_PAIR (type a)) data curve_id in
        if r = WC_OK then PSA_SUCCESS else wolfpsa_key_data_status r))"

section \<open>Lemmas on the tables\<close>

lemma ecc_bits_length_inverse:
  "wolfpsa_ecc_length_from_bits f b \<noteq> 0 \<Longrightarrow>
   wolfpsa_ecc_bits_from_length f (wolfpsa_ecc_length_from_bits f b) = b"
  by (auto simp: wolfpsa_ecc_length_from_bits_def wolfpsa_ecc_bits_from_length_def
      split: if_splits)

lemma ecc_length_bits_inverse:
  "wolfpsa_ecc_bits_from_length f n \<noteq> 0 \<Longrightarrow>
   wolfpsa_ecc_length_from_bits f (wolfpsa_ecc_bits_from_length f n) = n"
  by (auto simp: wolfpsa_ecc_length_from_bits_def wolfpsa_ecc_bits_from_length_def
      split: if_splits)

section \<open>Lemmas on the record\<close>

lemma length_attr_image [simp]:
  "length (attr_image a) = attr_length"
  by (simp add: attr_image_def)

lemma deserialize_attr_image [simp]:
  "psa_key_attributes_deserialize (attr_image a) b =
    (PSA_SUCCESS, a\<lparr>policy := (policy a)\<lparr>alg2 := PSA_ALG_NONE\<rparr>, id := id b\<rparr>)"
  by (simp add: psa_key_attributes_deserialize_def attr_image_def)

lemma length_key_record [simp]: "length (key_record a d) = header_length + length d"
  by (simp add: key_record_def)

lemma take_attr_key_record [simp]:
  "take attr_length (key_record a d) = attr_image a"
  by (simp add: key_record_def)

lemma take_header_key_record:
  "take header_length (key_record a d) =
    attr_image a @ le_bytes sizeof_size_t (length d)"
  by (simp add: key_record_def)

lemma drop_attr_header_key_record [simp]:
  "drop attr_length (take header_length (key_record a d)) =
    le_bytes sizeof_size_t (length d)"
  by (simp add: take_header_key_record)

lemma drop_header_key_record [simp]: "drop header_length (key_record a d) = d"
  by (simp add: key_record_def)

end
