(* ===== verification/Psa_Core.thy ===== *)
theory Psa_Core
  imports Psa_Engine Store_Interface Key_Codec
begin

text \<open>
  The global state of the library and what guards it: the file-scope variables of
  \<open>src/psa_key_storage.c\<close> and \<open>src/psa_crypto.c\<close>, the key-store mutex of \<open>src/psa_lock.h\<close>,
  initialisation and clean-up, and \<open>src/psa_random.c\<close>.

  Two fields are bookkeeping of the model: \<open>held\<close> is the state of the mutex, and \<open>lock_fault\<close>
  records a misuse of it (taking it twice, taking it before it exists, releasing it when it is
  free), which with a plain mutex is a deadlock or undefined.
\<close>

section \<open>State\<close>

record volatile_key_node =
  node_id :: psa_key_id_t
  attributes :: psa_key_attributes_t
  data :: "byte list"

record 'st key_store =
  g_key_storage_initialized :: bool
  g_next_key_id :: psa_key_id_t
  g_volatile_keys :: "volatile_key_node list"
  g_psa_crypto_initialized :: bool
  g_wolfpsa_lock_ready :: bool
  held :: bool
  lock_fault :: bool
  mutex_inits :: "bool list"
  allocs :: "bool list"
  rng_calls :: nat
  store :: 'st

text \<open>
  What the key store calls outside itself: the store backend, wolfCrypt's decoders, random
  generator, and the per-algorithm back ends that generate a key pair and export its public
  part. The natural number given to a generator is a call counter, so that two calls may
  produce different keys; the last number is the capacity of the output buffer.
\<close>

record ('st, 'h) psa_env =
  env_build :: build
  env_ops :: "('st, 'h) store_ops"
  env_wc :: key_decoders
  wc_init_rng :: "nat \<Rightarrow> wc_ret"
  wc_rng_block :: "nat \<Rightarrow> nat \<Rightarrow> wc_ret \<times> byte list"
  gen_rsa :: "nat \<Rightarrow> nat \<Rightarrow> nat \<Rightarrow> psa_status \<times> byte list"
  gen_ecc :: "nat \<Rightarrow> psa_key_type_t \<Rightarrow> nat \<Rightarrow> nat \<Rightarrow> psa_status \<times> byte list"
  gen_ed25519 :: "nat \<Rightarrow> nat \<Rightarrow> psa_status \<times> byte list"
  gen_ed448 :: "nat \<Rightarrow> nat \<Rightarrow> psa_status \<times> byte list"
  gen_x25519 :: "nat \<Rightarrow> nat \<Rightarrow> psa_status \<times> byte list"
  gen_x448 :: "nat \<Rightarrow> nat \<Rightarrow> psa_status \<times> byte list"
  mldsa_seed :: "nat \<Rightarrow> nat \<Rightarrow> psa_status \<times> byte list"
  mlkem_seed :: "nat \<Rightarrow> nat \<Rightarrow> psa_status \<times> byte list"
  new_rsa_key :: "wc_ret option"
  rsa_private_decode :: "byte list \<Rightarrow> wc_ret"
  rsa_flatten_public :: "byte list \<Rightarrow> wc_ret \<times> byte list \<times> byte list"
  export_ecc :: "psa_key_type_t \<Rightarrow> nat \<Rightarrow> byte list \<Rightarrow> nat \<Rightarrow> psa_status \<times> byte list"
  export_ed25519 :: "byte list \<Rightarrow> nat \<Rightarrow> psa_status \<times> byte list"
  export_ed448 :: "byte list \<Rightarrow> nat \<Rightarrow> psa_status \<times> byte list"
  export_x25519 :: "byte list \<Rightarrow> nat \<Rightarrow> psa_status \<times> byte list"
  export_x448 :: "byte list \<Rightarrow> nat \<Rightarrow> psa_status \<times> byte list"
  export_mldsa :: "nat \<Rightarrow> byte list \<Rightarrow> nat \<Rightarrow> psa_status \<times> byte list"
  export_mlkem :: "nat \<Rightarrow> byte list \<Rightarrow> nat \<Rightarrow> psa_status \<times> byte list"

section \<open>The mutex\<close>

definition wolfpsa_lock_ensure_init :: "build \<Rightarrow> 'st key_store \<Rightarrow> bool \<times> 'st key_store" where
  "wolfpsa_lock_ensure_init b s =
    (if \<not> WOLFPSA_THREAD_SAFE b \<or> g_wolfpsa_lock_ready s then (True, s)
     else (case xmalloc (mutex_inits s) of
             (ok, ms) \<Rightarrow> (ok, s\<lparr>mutex_inits := ms, g_wolfpsa_lock_ready := ok\<rparr>)))"

definition WOLFPSA_LOCK :: "build \<Rightarrow> 'st key_store \<Rightarrow> 'st key_store" where
  "WOLFPSA_LOCK b s =
    (if \<not> WOLFPSA_THREAD_SAFE b then s
     else if held s \<or> \<not> g_wolfpsa_lock_ready s then s\<lparr>lock_fault := True\<rparr>
     else s\<lparr>held := True\<rparr>)"

definition WOLFPSA_UNLOCK :: "build \<Rightarrow> 'st key_store \<Rightarrow> 'st key_store" where
  "WOLFPSA_UNLOCK b s =
    (if \<not> WOLFPSA_THREAD_SAFE b then s
     else if \<not> held s then s\<lparr>lock_fault := True\<rparr>
     else s\<lparr>held := False\<rparr>)"

definition s_xmalloc :: "'st key_store \<Rightarrow> bool \<times> 'st key_store" where
  "s_xmalloc s = (case xmalloc (allocs s) of (ok, as) \<Rightarrow> (ok, s\<lparr>allocs := as\<rparr>))"

section \<open>Initialisation\<close>

definition wolfPSA_CryptoIsInitialized :: "build \<Rightarrow> 'st key_store \<Rightarrow> bool \<times> 'st key_store" where
  "wolfPSA_CryptoIsInitialized b s =
    (case wolfpsa_lock_ensure_init b s of
       (ok, s1) \<Rightarrow>
         if \<not> ok then (False, s1)
         else (let s2 = WOLFPSA_LOCK b s1; initialized = g_psa_crypto_initialized s2
               in (initialized, WOLFPSA_UNLOCK b s2)))"

text \<open>\<open>wolfCrypt_ret\<close> is what \<open>wolfCrypt_Init()\<close> returns if it is called.\<close>

definition psa_crypto_init :: "build \<Rightarrow> wc_ret \<Rightarrow> 'st key_store \<Rightarrow> psa_status \<times> 'st key_store" where
  "psa_crypto_init b wolfCrypt_ret s =
    (case wolfpsa_lock_ensure_init b s of
       (ok, s1) \<Rightarrow>
         if \<not> ok then (PSA_ERROR_GENERIC_ERROR, s1)
         else
           (let s2 = WOLFPSA_LOCK b s1;
                (status, s3) =
                  (if \<not> g_psa_crypto_initialized s2 then
                     (if wolfCrypt_ret \<noteq> WC_OK then (wc_error_to_psa_status wolfCrypt_ret, s2)
                      else (PSA_SUCCESS, s2\<lparr>g_psa_crypto_initialized := True\<rparr>))
                   else (PSA_SUCCESS, s2))
            in (status, WOLFPSA_UNLOCK b s3)))"

definition psa_key_storage_init :: "build \<Rightarrow> 'st key_store \<Rightarrow> psa_status \<times> 'st key_store" where
  "psa_key_storage_init b s =
    (case wolfpsa_lock_ensure_init b s of
       (ok, s1) \<Rightarrow>
         if \<not> ok then (PSA_ERROR_GENERIC_ERROR, s1)
         else (PSA_SUCCESS,
               WOLFPSA_UNLOCK b ((WOLFPSA_LOCK b s1)\<lparr>g_key_storage_initialized := True\<rparr>)))"

definition psa_key_storage_cleanup :: "build \<Rightarrow> 'st key_store \<Rightarrow> 'st key_store" where
  "psa_key_storage_cleanup b s =
    (case wolfpsa_lock_ensure_init b s of
       (ok, s1) \<Rightarrow>
         if \<not> ok then s1
         else WOLFPSA_UNLOCK b ((WOLFPSA_LOCK b s1)
                \<lparr>g_volatile_keys := [], g_key_storage_initialized := False\<rparr>))"

definition wolfPSA_CryptoCleanup :: "build \<Rightarrow> 'st key_store \<Rightarrow> 'st key_store" where
  "wolfPSA_CryptoCleanup b s =
    (case wolfpsa_lock_ensure_init b s of
       (ok, s1) \<Rightarrow>
         if \<not> ok then s1
         else psa_key_storage_cleanup b
                (WOLFPSA_UNLOCK b ((WOLFPSA_LOCK b s1)\<lparr>g_psa_crypto_initialized := False\<rparr>)))"

definition psa_key_storage_check_init :: "build \<Rightarrow> 'st key_store \<Rightarrow> psa_status \<times> 'st key_store" where
  "psa_key_storage_check_init b s =
    (case wolfPSA_CryptoIsInitialized b s of
       (initialized, s1) \<Rightarrow>
         if \<not> initialized then (PSA_ERROR_BAD_STATE, s1) else psa_key_storage_init b s1)"

definition wolfpsa_test_get_next_key_id :: "build \<Rightarrow> 'st key_store \<Rightarrow> psa_key_id_t \<times> 'st key_store" where
  "wolfpsa_test_get_next_key_id b s =
    (case wolfpsa_lock_ensure_init b s of
       (ok, s1) \<Rightarrow>
         if \<not> ok then (0, s1)
         else (let s2 = WOLFPSA_LOCK b s1; key_id = g_next_key_id s2
               in (key_id, WOLFPSA_UNLOCK b s2)))"

definition wolfpsa_test_set_next_key_id :: "build \<Rightarrow> psa_key_id_t \<Rightarrow> 'st key_store \<Rightarrow> 'st key_store" where
  "wolfpsa_test_set_next_key_id b key_id s =
    (case wolfpsa_lock_ensure_init b s of
       (ok, s1) \<Rightarrow>
         if \<not> ok then s1
         else WOLFPSA_UNLOCK b ((WOLFPSA_LOCK b s1)\<lparr>g_next_key_id := key_id\<rparr>))"

section \<open>Random bytes\<close>

text \<open>The status and the bytes written to the output.\<close>

definition psa_generate_random ::
    "('st, 'h) psa_env \<Rightarrow> outbuf \<Rightarrow> 'st key_store \<Rightarrow> psa_status \<times> byte list \<times> 'st key_store" where
  "psa_generate_random env out s =
    (case wolfPSA_CryptoIsInitialized (env_build env) s of
       (initialized, s1) \<Rightarrow>
         if \<not> initialized then (PSA_ERROR_BAD_STATE, [], s1)
         else if out_null out \<and> out_size out > 0 then (PSA_ERROR_INVALID_ARGUMENT, [], s1)
         else if out_size out > UINT32_MAX then (PSA_ERROR_INVALID_ARGUMENT, [], s1)
         else if out_size out = 0 then (PSA_SUCCESS, [], s1)
         else
           (let i = rng_calls s1; s2 = s1\<lparr>rng_calls := Suc i\<rparr>; r = wc_init_rng env i in
            if r \<noteq> WC_OK then (wc_error_to_psa_status r, [], s2)
            else (case wc_rng_block env i (out_size out) of
                    (r', bs) \<Rightarrow>
                      if r' \<noteq> WC_OK then (wc_error_to_psa_status r', bs, s2)
                      else (PSA_SUCCESS, bs, s2))))"

section \<open>Lock discipline\<close>

definition lock_ok :: "'st key_store \<Rightarrow> bool" where
  "lock_ok s \<longleftrightarrow> \<not> held s \<and> \<not> lock_fault s"

definition ready :: "build \<Rightarrow> 'st key_store \<Rightarrow> bool" where
  "ready b s \<longleftrightarrow> lock_ok s \<and> (WOLFPSA_THREAD_SAFE b \<longrightarrow> g_wolfpsa_lock_ready s)"

text \<open>The fields that the mutex and the initialisation flag are not part of.\<close>

definition core_same :: "'st key_store \<Rightarrow> 'st key_store \<Rightarrow> bool" where
  "core_same s s' \<longleftrightarrow>
    g_next_key_id s' = g_next_key_id s \<and> g_volatile_keys s' = g_volatile_keys s \<and>
    g_psa_crypto_initialized s' = g_psa_crypto_initialized s \<and>
    allocs s' = allocs s \<and> rng_calls s' = rng_calls s \<and> store s' = store s"

lemma core_same_refl [simp]: "core_same s s"
  by (simp add: core_same_def)

lemma core_same_trans: "core_same a b \<Longrightarrow> core_same b c \<Longrightarrow> core_same a c"
  by (simp add: core_same_def)

lemma ready_lock_ok: "ready b s \<Longrightarrow> lock_ok s"
  by (simp add: ready_def)

lemma lock_ready [simp]: "ready b s \<Longrightarrow> WOLFPSA_LOCK b s = s\<lparr>held := WOLFPSA_THREAD_SAFE b\<rparr>"
  by (cases s) (simp add: WOLFPSA_LOCK_def ready_def lock_ok_def)

lemma unlock_held [simp]: "held s = WOLFPSA_THREAD_SAFE b \<Longrightarrow> WOLFPSA_UNLOCK b s = s\<lparr>held := False\<rparr>"
  by (cases s) (simp add: WOLFPSA_UNLOCK_def)

lemma release_ready [simp]: "ready b s \<Longrightarrow> s\<lparr>held := False\<rparr> = s"
  by (cases s) (simp add: ready_def lock_ok_def)

lemma ensure_init_ready [simp]: "ready b s \<Longrightarrow> wolfpsa_lock_ensure_init b s = (True, s)"
  by (simp add: wolfpsa_lock_ensure_init_def ready_def)

lemma ensure_init_cases:
  assumes "lock_ok s" and "wolfpsa_lock_ensure_init b s = (ok, s')"
  shows "lock_ok s'" and "core_same s s'" and "ok \<Longrightarrow> ready b s'"
    and "g_key_storage_initialized s' = g_key_storage_initialized s"
  using assms by (auto simp: wolfpsa_lock_ensure_init_def ready_def lock_ok_def core_same_def
      split: if_splits prod.splits)

lemma is_initialized_ready [simp]:
  "ready b s \<Longrightarrow> wolfPSA_CryptoIsInitialized b s = (g_psa_crypto_initialized s, s)"
  by (simp add: wolfPSA_CryptoIsInitialized_def Let_def)

lemma is_initialized_cases:
  assumes "lock_ok s" and "wolfPSA_CryptoIsInitialized b s = (i, s')"
  shows "lock_ok s' \<and> core_same s s' \<and> (i \<longrightarrow> ready b s' \<and> g_psa_crypto_initialized s)"
proof (cases "wolfpsa_lock_ensure_init b s")
  case (Pair ok s1)
  note e = ensure_init_cases [OF assms(1) Pair]
  show ?thesis
  proof (cases ok)
    case True
    then have r: "ready b s1" by (rule e(3))
    then have "wolfPSA_CryptoIsInitialized b s = (g_psa_crypto_initialized s1, s1)"
      using True by (simp add: wolfPSA_CryptoIsInitialized_def Pair Let_def)
    then show ?thesis using assms e r by (auto simp: core_same_def ready_lock_ok)
  next
    case False
    then show ?thesis using assms e by (auto simp: wolfPSA_CryptoIsInitialized_def Pair)
  qed
qed

lemma storage_init_ready:
  "ready b s \<Longrightarrow>
   psa_key_storage_init b s = (PSA_SUCCESS, s\<lparr>g_key_storage_initialized := True\<rparr>)"
  by (cases s) (simp add: psa_key_storage_init_def ready_def lock_ok_def)

lemma check_init_ready:
  "ready b s \<Longrightarrow> psa_key_storage_check_init b s =
     (if g_psa_crypto_initialized s then (PSA_SUCCESS, s\<lparr>g_key_storage_initialized := True\<rparr>)
      else (PSA_ERROR_BAD_STATE, s))"
  by (simp add: psa_key_storage_check_init_def storage_init_ready)

lemma check_init_cases:
  assumes "lock_ok s" and "psa_key_storage_check_init b s = (status, s')"
  shows "lock_ok s' \<and> core_same s s' \<and>
    (status = PSA_SUCCESS \<longrightarrow>
       ready b s' \<and> g_psa_crypto_initialized s \<and> g_key_storage_initialized s')"
proof (cases "wolfPSA_CryptoIsInitialized b s")
  case (Pair i s1)
  note c = is_initialized_cases [OF assms(1) Pair]
  show ?thesis
  proof (cases i)
    case True
    then have "ready b s1" using c by blast
    then show ?thesis
      using assms(2) c True
      by (auto simp: psa_key_storage_check_init_def Pair storage_init_ready core_same_def
          ready_def lock_ok_def)
  next
    case False
    then show ?thesis using assms(2) c by (auto simp: psa_key_storage_check_init_def Pair)
  qed
qed

lemma crypto_init_ready:
  "ready b s \<Longrightarrow> psa_crypto_init b r s =
      (if g_psa_crypto_initialized s then (PSA_SUCCESS, s)
       else (wc_error_to_psa_status r, s\<lparr>g_psa_crypto_initialized := (r = WC_OK)\<rparr>))"
  by (cases s) (auto simp: psa_crypto_init_def ready_def lock_ok_def Let_def)

text \<open>
  Initialisation: once the mutex exists, \<open>psa_crypto_init\<close> succeeds exactly when the library
  was initialised before or \<open>wolfCrypt_Init\<close> succeeds, the latch afterwards tells which, a
  second call changes nothing, and \<open>wolfPSA_CryptoCleanup\<close> clears the latch and every
  volatile key; all of them leave the mutex free.
\<close>

theorem crypto_init_cleanup:
  assumes "ready b s"
  shows "psa_crypto_init b r s =
      (if g_psa_crypto_initialized s then (PSA_SUCCESS, s)
       else (wc_error_to_psa_status r, s\<lparr>g_psa_crypto_initialized := (r = WC_OK)\<rparr>)) \<and>
    wolfPSA_CryptoCleanup b s =
      s\<lparr>g_psa_crypto_initialized := False, g_volatile_keys := [], g_key_storage_initialized := False\<rparr>"
proof -
  have "ready b (s\<lparr>g_psa_crypto_initialized := False\<rparr>)"
    using assms by (simp add: ready_def lock_ok_def)
  then have "wolfPSA_CryptoCleanup b s =
      s\<lparr>g_psa_crypto_initialized := False, g_volatile_keys := [], g_key_storage_initialized := False\<rparr>"
    using assms
    by (cases s) (simp add: wolfPSA_CryptoCleanup_def psa_key_storage_cleanup_def ready_def lock_ok_def)
  with crypto_init_ready [OF assms] show ?thesis by blast
qed

definition fresh_store :: "'st \<Rightarrow> 'st key_store" where
  "fresh_store st =
    \<lparr>g_key_storage_initialized = False, g_next_key_id = PSA_KEY_ID_VENDOR_MIN,
     g_volatile_keys = [], g_psa_crypto_initialized = False, g_wolfpsa_lock_ready = False,
     held = False, lock_fault = False, mutex_inits = [], allocs = [], rng_calls = 0, store = st\<rparr>"

theorem crypto_init_cleanup_witness:
  "fst (psa_crypto_init default_build WC_OK (fresh_store ())) = PSA_SUCCESS \<and>
   g_volatile_keys (wolfPSA_CryptoCleanup default_build (fresh_store ())) = []"
proof -
  have "ready default_build (fresh_store ())"
    by (simp add: ready_def lock_ok_def fresh_store_def default_build_def)
  from crypto_init_cleanup [OF this, of WC_OK] show ?thesis by (simp add: fresh_store_def)
qed

end
