(* ===== verification/Key_Storage.thy ===== *)
theory Key_Storage
  imports Psa_Core
begin

text \<open>
  The volatile-key list, the loading of a key, and \<open>psa_import_key\<close> of
  \<open>src/psa_key_storage.c\<close>. \<open>psa_import_key\<close> is a chain of checks, the assignment of an id and
  the write; each of these parts is a definition, and \<open>psa_import_key\<close> composes them in the
  order of the source.
\<close>

unbundle bit_operations_syntax

section \<open>Volatile keys\<close>

definition wolfpsa_volatile_find ::
    "'st key_store \<Rightarrow> psa_key_id_t \<Rightarrow> volatile_key_node option" where
  "wolfpsa_volatile_find s key_id = find (\<lambda>n. node_id n = key_id) (g_volatile_keys s)"

definition wolfpsa_volatile_store ::
    "build \<Rightarrow> psa_key_id_t \<Rightarrow> psa_key_attributes_t \<Rightarrow> byte list \<Rightarrow> 'st key_store \<Rightarrow>
     psa_status \<times> 'st key_store" where
  "wolfpsa_volatile_store b key_id attr d s =
    (let s1 = WOLFPSA_LOCK b s;
         (st, s2) =
           (if d = [] then (PSA_ERROR_INVALID_ARGUMENT, s1)
            else if wolfpsa_volatile_find s1 key_id \<noteq> None then (PSA_ERROR_ALREADY_EXISTS, s1)
            else
              (let (ok_node, s3) = s_xmalloc s1 in
               if \<not> ok_node then (PSA_ERROR_INSUFFICIENT_MEMORY, s3)
               else
                 (let (ok_data, s4) = s_xmalloc s3 in
                  if \<not> ok_data then (PSA_ERROR_INSUFFICIENT_MEMORY, s4)
                  else (PSA_SUCCESS,
                        s4\<lparr>g_volatile_keys :=
                             \<lparr>node_id = key_id, attributes = attr, data = d\<rparr> # g_volatile_keys s4\<rparr>))))
     in (st, WOLFPSA_UNLOCK b s2))"

text \<open>Unlinking the first node with the id.\<close>

fun unlink_node :: "psa_key_id_t \<Rightarrow> volatile_key_node list \<Rightarrow> volatile_key_node list" where
  "unlink_node key_id [] = []"
| "unlink_node key_id (n # ns) = (if node_id n = key_id then ns else n # unlink_node key_id ns)"

definition wolfpsa_volatile_remove ::
    "build \<Rightarrow> psa_key_id_t \<Rightarrow> 'st key_store \<Rightarrow> psa_status \<times> 'st key_store" where
  "wolfpsa_volatile_remove b key_id s =
    (let s1 = WOLFPSA_LOCK b s;
         (st, s2) =
           (if wolfpsa_volatile_find s1 key_id = None then (PSA_ERROR_INVALID_HANDLE, s1)
            else (PSA_SUCCESS, s1\<lparr>g_volatile_keys := unlink_node key_id (g_volatile_keys s1)\<rparr>))
     in (st, WOLFPSA_UNLOCK b s2))"

text \<open>
  The status, what was written to \<open>*attributes\<close> (nothing when the key is not found), and the
  copy of the key data.
\<close>

definition wolfpsa_volatile_get ::
    "build \<Rightarrow> psa_key_id_t \<Rightarrow> 'st key_store \<Rightarrow>
     psa_status \<times> psa_key_attributes_t option \<times> byte list \<times> 'st key_store" where
  "wolfpsa_volatile_get b key_id s =
    (let s1 = WOLFPSA_LOCK b s;
         (st, a, d, s2) =
           (case wolfpsa_volatile_find s1 key_id of
              None \<Rightarrow> (PSA_ERROR_INVALID_HANDLE, None, [], s1)
            | Some node \<Rightarrow>
                if data node = [] then (PSA_ERROR_DATA_INVALID, Some (attributes node), [], s1)
                else
                  (let (ok, s3) = s_xmalloc s1 in
                   if \<not> ok then (PSA_ERROR_INSUFFICIENT_MEMORY, Some (attributes node), [], s3)
                   else (PSA_SUCCESS, Some (attributes node), data node, s3)))
     in (st, a, d, WOLFPSA_UNLOCK b s2))"

definition wolfpsa_volatile_get_attributes ::
    "build \<Rightarrow> psa_key_id_t \<Rightarrow> 'st key_store \<Rightarrow>
     psa_status \<times> psa_key_attributes_t option \<times> 'st key_store" where
  "wolfpsa_volatile_get_attributes b key_id s =
    (let s1 = WOLFPSA_LOCK b s;
         (st, a) =
           (case wolfpsa_volatile_find s1 key_id of
              None \<Rightarrow> (PSA_ERROR_INVALID_HANDLE, None)
            | Some node \<Rightarrow> (PSA_SUCCESS, Some (attributes node)))
     in (st, a, WOLFPSA_UNLOCK b s1))"

section \<open>Access to the persistent store\<close>

definition wolfpsa_store_open_status :: "store_rc \<Rightarrow> psa_status" where
  "wolfpsa_store_open_status rc =
    (if rc = STORE_MEMORY_E then PSA_ERROR_INSUFFICIENT_MEMORY else PSA_ERROR_STORAGE_FAILURE)"

text \<open>
  The sequence every load begins with: open the record for reading and read the attribute
  header and the length word; a short read closes the handle.
\<close>

definition open_read_header ::
    "('st, 'h) psa_env \<Rightarrow> psa_key_id_t \<Rightarrow> 'st key_store \<Rightarrow>
     (psa_status + byte list \<times> 'h) \<times> 'st key_store" where
  "open_read_header env key_id s =
    (case so_open (env_ops env) (store s) WOLFPSA_STORE_KEY (unat key_id) 0 True 0 of
       (OpenFail rc, st1) \<Rightarrow>
         (Inl (if rc = WOLFPSA_STORE_NOT_AVAILABLE then PSA_ERROR_INVALID_HANDLE
               else wolfpsa_store_open_status rc), s\<lparr>store := st1\<rparr>)
     | (Opened h, st1) \<Rightarrow>
         (case so_read (env_ops env) st1 h header_length of
            (r, h', st2) \<Rightarrow>
              (case r of
                 Inr header \<Rightarrow>
                   if length header = header_length then (Inr (header, h'), s\<lparr>store := st2\<rparr>)
                   else (Inl PSA_ERROR_STORAGE_FAILURE,
                         s\<lparr>store := snd (so_close (env_ops env) st2 h')\<rparr>)
               | Inl e \<Rightarrow> (Inl PSA_ERROR_STORAGE_FAILURE,
                           s\<lparr>store := snd (so_close (env_ops env) st2 h')\<rparr>))))"

text \<open>Reading the key data that follows, and closing the handle.\<close>

definition read_body_close ::
    "('st, 'h) psa_env \<Rightarrow> 'h \<Rightarrow> nat \<Rightarrow> 'st key_store \<Rightarrow> byte list option \<times> 'st key_store" where
  "read_body_close env h n s =
    (case so_read (env_ops env) (store s) h n of
       (r, h', st1) \<Rightarrow>
         (let s1 = s\<lparr>store := snd (so_close (env_ops env) st1 h')\<rparr> in
          case r of
            Inr bs \<Rightarrow> (if length bs = n then Some bs else None, s1)
          | Inl e \<Rightarrow> (None, s1)))"

definition close_handle :: "('st, 'h) psa_env \<Rightarrow> 'h \<Rightarrow> 'st key_store \<Rightarrow> 'st key_store" where
  "close_handle env h s = s\<lparr>store := snd (so_close (env_ops env) (store s) h)\<rparr>"

definition header_data_length :: "byte list \<Rightarrow> nat" where
  "header_data_length header = le_nat (drop attr_length header)"

text \<open>
  The persistent part of \<open>wolfpsa_get_key_data\<close>: the status, what was written to
  \<open>*attributes\<close>, \<open>*key_data\<close> (\<open>None\<close> for NULL) and \<open>*key_data_length\<close>.
\<close>

definition load_persistent ::
    "('st, 'h) psa_env \<Rightarrow> psa_key_id_t \<Rightarrow> psa_key_attributes_t \<Rightarrow> 'st key_store \<Rightarrow>
     psa_status \<times> psa_key_attributes_t \<times> byte list option \<times> nat \<times> 'st key_store" where
  "load_persistent env key_id attr1 s =
    (case open_read_header env key_id s of
       (Inl e, s1) \<Rightarrow> (e, attr1, None, 0, s1)
     | (Inr (header, h), s1) \<Rightarrow>
         (let (dst, attr2) = psa_key_attributes_deserialize (take attr_length header) attr1 in
          if dst \<noteq> PSA_SUCCESS then (dst, attr2, None, 0, close_handle env h s1)
          else
            (let n = header_data_length header;
                 lst = wolfpsa_validate_stored_key_data_length n in
             if lst \<noteq> PSA_SUCCESS then (lst, attr2, None, n, close_handle env h s1)
             else
               (let (ok, s2) = s_xmalloc s1 in
                if \<not> ok
                then (PSA_ERROR_INSUFFICIENT_MEMORY, attr2, None, n, close_handle env h s2)
                else
                  (case read_body_close env h n s2 of
                     (None, s3) \<Rightarrow> (PSA_ERROR_STORAGE_FAILURE, attr2, None, 0, s3)
                   | (Some d, s3) \<Rightarrow> (PSA_SUCCESS, attr2, Some d, n, s3))))))"

text \<open>\<open>wolfpsa_get_key_data\<close>, called with non-NULL pointers.\<close>

definition wolfpsa_get_key_data ::
    "('st, 'h) psa_env \<Rightarrow> psa_key_id_t \<Rightarrow> psa_key_attributes_t \<Rightarrow> 'st key_store \<Rightarrow>
     psa_status \<times> psa_key_attributes_t \<times> byte list option \<times> nat \<times> 'st key_store" where
  "wolfpsa_get_key_data env key_id attr0 s =
    (let b = env_build env in
     case psa_key_storage_check_init b s of
       (status, s1) \<Rightarrow>
         if status \<noteq> PSA_SUCCESS then (status, attr0, None, 0, s1)
         else
           (case wolfpsa_volatile_get b key_id s1 of
              (vst, va, vd, s2) \<Rightarrow>
                (let attr1 = (case va of Some a \<Rightarrow> a | None \<Rightarrow> attr0) in
                 if vst = PSA_SUCCESS then (PSA_SUCCESS, attr1, Some vd, length vd, s2)
                 else if vst \<noteq> PSA_ERROR_INVALID_HANDLE then (vst, attr1, None, 0, s2)
                 else load_persistent env key_id attr1 s2)))"

section \<open>Import: the checks\<close>

text \<open>
  The checks up to the key type. \<open>attr_arg\<close> is \<open>None\<close> for a NULL \<open>attributes\<close> pointer and
  \<open>id_null\<close> tells whether \<open>key_id\<close> is NULL.
\<close>

definition import_check_args ::
    "build \<Rightarrow> psa_key_attributes_t option \<Rightarrow> inbuf \<Rightarrow> bool \<Rightarrow> psa_status + psa_key_attributes_t" where
  "import_check_args b attr_arg din id_null =
    (case attr_arg of
       None \<Rightarrow> Inl PSA_ERROR_INVALID_ARGUMENT
     | Some attr \<Rightarrow>
         if in_null din \<or> id_null then Inl PSA_ERROR_INVALID_ARGUMENT
         else if in_length din = 0 then Inl PSA_ERROR_INVALID_ARGUMENT
         else if in_length din > INT_MAX then Inl PSA_ERROR_INVALID_ARGUMENT
         else if PSA_KEY_LIFETIME_GET_LOCATION (lifetime attr) \<noteq> PSA_KEY_LOCATION_LOCAL_STORAGE
           then Inl PSA_ERROR_NOT_SUPPORTED
         else
           (let alg2_ok = (WOLFPSA_ENROLLMENT_ALG b \<and> PSA_KEY_LIFETIME_IS_VOLATILE (lifetime attr)) in
            if alg2 (policy attr) \<noteq> PSA_ALG_NONE \<and> \<not> alg2_ok then Inl PSA_ERROR_NOT_SUPPORTED
            else if \<not> wolfpsa_usage_flags_valid (psa_get_key_usage_flags attr)
              then Inl PSA_ERROR_INVALID_ARGUMENT
            else if type attr = PSA_KEY_TYPE_NONE then Inl PSA_ERROR_NOT_SUPPORTED
            else Inr attr))"

definition import_bits ::
    "key_decoders \<Rightarrow> psa_key_attributes_t \<Rightarrow> byte list \<Rightarrow> psa_status + psa_key_attributes_t" where
  "import_bits wc attr d =
    (let r1 =
       (if PSA_KEY_TYPE_IS_RSA (type attr) then
          (case wolfpsa_rsa_key_bits wc (type attr) d of
             Inl e \<Rightarrow> Inl e
           | Inr rsa_bits \<Rightarrow>
               if bits attr \<noteq> 0 \<and> bits attr \<noteq> rsa_bits then Inl PSA_ERROR_INVALID_ARGUMENT
               else Inr (attr\<lparr>bits := rsa_bits\<rparr>))
        else Inr attr) in
     case r1 of
       Inl e \<Rightarrow> Inl e
     | Inr attr1 \<Rightarrow>
         if bits attr1 = 0 then
           (case wolfpsa_infer_key_bits attr1 d of
              (st, attr2) \<Rightarrow> if st \<noteq> PSA_SUCCESS then Inl st else Inr attr2)
         else Inr attr1)"

definition import_check_chacha :: "psa_key_attributes_t \<Rightarrow> nat \<Rightarrow> psa_status" where
  "import_check_chacha attr n =
    (if type attr = PSA_KEY_TYPE_CHACHA20 \<or> type attr = PSA_KEY_TYPE_XCHACHA20 then
       (if bits attr \<noteq> 256 then PSA_ERROR_INVALID_ARGUMENT
        else if n \<noteq> 32 then PSA_ERROR_INVALID_ARGUMENT
        else PSA_SUCCESS)
     else PSA_SUCCESS)"

definition import_check_aes :: "psa_key_attributes_t \<Rightarrow> nat \<Rightarrow> psa_status" where
  "import_check_aes attr n =
    (if bits attr \<noteq> 128 \<and> bits attr \<noteq> 192 \<and> bits attr \<noteq> 256 then PSA_ERROR_INVALID_ARGUMENT
     else if n \<noteq> 16 \<and> n \<noteq> 24 \<and> n \<noteq> 32 then PSA_ERROR_INVALID_ARGUMENT
     else if bits attr \<noteq> word_of_nat (n * 8) then PSA_ERROR_INVALID_ARGUMENT
     else PSA_SUCCESS)"

definition import_check_des :: "psa_key_attributes_t \<Rightarrow> nat \<Rightarrow> psa_status" where
  "import_check_des attr n =
    (if n = 16 then PSA_ERROR_NOT_SUPPORTED
     else if n \<noteq> 24 then PSA_ERROR_INVALID_ARGUMENT
     else if bits attr \<noteq> word_of_nat (n * 8) then PSA_ERROR_INVALID_ARGUMENT
     else PSA_SUCCESS)"

definition import_check_raw :: "psa_key_attributes_t \<Rightarrow> nat \<Rightarrow> psa_status" where
  "import_check_raw attr n =
    (if n * 8 > PSA_MAX_KEY_BITS \<or> bits attr \<noteq> word_of_nat (n * 8)
     then PSA_ERROR_INVALID_ARGUMENT else PSA_SUCCESS)"

text \<open>
  The \<open>switch\<close> over the bit count in the post-quantum and hash-based branches: the expected
  length per size, anything else is an invalid argument.
\<close>

definition check_size_table :: "(psa_key_bits_t \<times> nat) list \<Rightarrow> psa_key_bits_t \<Rightarrow> nat \<Rightarrow> psa_status" where
  "check_size_table tbl sz n =
    (case map_of tbl sz of
       None \<Rightarrow> PSA_ERROR_INVALID_ARGUMENT
     | Some expected \<Rightarrow> if n \<noteq> expected then PSA_ERROR_INVALID_ARGUMENT else PSA_SUCCESS)"

definition import_check_mldsa :: "psa_key_attributes_t \<Rightarrow> nat \<Rightarrow> psa_status" where
  "import_check_mldsa attr n =
    (if type attr = PSA_KEY_TYPE_ML_DSA_KEY_PAIR then
       check_size_table [(128, 32), (192, 32), (256, 32)] (bits attr) n
     else check_size_table [(128, 1312), (192, 1952), (256, 2592)] (bits attr) n)"

definition import_check_mlkem :: "psa_key_attributes_t \<Rightarrow> nat \<Rightarrow> psa_status" where
  "import_check_mlkem attr n =
    (if type attr = PSA_KEY_TYPE_ML_KEM_KEY_PAIR then
       check_size_table [(512, 64), (768, 64), (1024, 64)] (bits attr) n
     else check_size_table [(512, 800), (768, 1184), (1024, 1568)] (bits attr) n)"

definition import_check_ecc ::
    "build \<Rightarrow> key_decoders \<Rightarrow> psa_key_attributes_t \<Rightarrow> byte list \<Rightarrow> psa_status" where
  "import_check_ecc b wc attr d =
    (let family = PSA_KEY_TYPE_ECC_GET_FAMILY (type attr);
         raw_point = (family = PSA_ECC_FAMILY_MONTGOMERY \<or> family = PSA_ECC_FAMILY_TWISTED_EDWARDS);
         coord =
           (if PSA_KEY_TYPE_IS_ECC_PUBLIC_KEY (type attr) then
              (if raw_point then Inr (length d)
               else if length d < 3 \<or> even (length d) then Inl PSA_ERROR_INVALID_ARGUMENT
               else if hd d \<noteq> 0x04 then Inl PSA_ERROR_INVALID_ARGUMENT
               else Inr ((length d - 1) div 2))
            else Inr (length d)) in
     case coord of
       Inl e \<Rightarrow> e
     | Inr coord_len \<Rightarrow>
         (let expected_len = wolfpsa_ecc_length_from_bits family (bits attr) in
          if expected_len = 0 then PSA_ERROR_NOT_SUPPORTED
          else if coord_len \<noteq> expected_len then PSA_ERROR_INVALID_ARGUMENT
          else if \<not> raw_point then wolfpsa_ecc_check_key b wc attr d
          else PSA_SUCCESS))"

definition import_check_data ::
    "build \<Rightarrow> key_decoders \<Rightarrow> psa_key_attributes_t \<Rightarrow> byte list \<Rightarrow> psa_status" where
  "import_check_data b wc attr d =
    (let n = length d; t = type attr; chacha = import_check_chacha attr n in
     if chacha \<noteq> PSA_SUCCESS then chacha
     else if t = PSA_KEY_TYPE_AES then import_check_aes attr n
     else if t = PSA_KEY_TYPE_DES then import_check_des attr n
     else if t = PSA_KEY_TYPE_HMAC \<or> t = PSA_KEY_TYPE_RAW_DATA \<or> t = PSA_KEY_TYPE_DERIVE \<or>
             t = PSA_KEY_TYPE_PASSWORD \<or> t = PSA_KEY_TYPE_PASSWORD_HASH \<or> t = PSA_KEY_TYPE_PEPPER
       then import_check_raw attr n
     else if PSA_KEY_TYPE_IS_ML_DSA t then import_check_mldsa attr n
     else if PSA_KEY_TYPE_IS_ML_KEM t then import_check_mlkem attr n
     else if t = PSA_KEY_TYPE_LMS_PUBLIC_KEY then
       check_size_table [(192, 48), (256, 56)] (bits attr) n
     else if t = PSA_KEY_TYPE_HSS_PUBLIC_KEY then
       check_size_table [(192, 52), (256, 60)] (bits attr) n
     else if t = PSA_KEY_TYPE_XMSS_PUBLIC_KEY \<or> t = PSA_KEY_TYPE_XMSS_MT_PUBLIC_KEY then
       check_size_table [(192, 52), (256, 68)] (bits attr) n
     else if PSA_KEY_TYPE_IS_ECC_PUBLIC_KEY t \<or> PSA_KEY_TYPE_IS_ECC_KEY_PAIR t then
       import_check_ecc b wc attr d
     else PSA_SUCCESS)"

section \<open>Import: id and storage\<close>

text \<open>The id of the new key: the caller's for a persistent key that names one, else a fresh one.\<close>

definition import_assign_id ::
    "build \<Rightarrow> psa_key_attributes_t \<Rightarrow> 'st key_store \<Rightarrow> (psa_status + psa_key_id_t) \<times> 'st key_store" where
  "import_assign_id b attr s =
    (let attr_id = (if PSA_KEY_LIFETIME_IS_VOLATILE (lifetime attr) then PSA_KEY_ID_NULL
                    else psa_get_key_id attr) in
     if attr_id \<noteq> PSA_KEY_ID_NULL then (Inr attr_id, s)
     else
       (let s1 = WOLFPSA_LOCK b s in
        if g_next_key_id s1 < PSA_KEY_ID_VENDOR_MIN \<or> g_next_key_id s1 > PSA_KEY_ID_VENDOR_MAX
        then (Inl PSA_ERROR_INSUFFICIENT_STORAGE, WOLFPSA_UNLOCK b s1)
        else (Inr (g_next_key_id s1),
              WOLFPSA_UNLOCK b (s1\<lparr>g_next_key_id := g_next_key_id s1 + 1\<rparr>))))"

text \<open>The C conversion \<open>(int)n\<close> of a size.\<close>

definition c_int :: "nat \<Rightarrow> int" where
  "c_int n = sint (word_of_nat n :: u32)"

text \<open>
  What follows the write: \<open>ret\<close> is the byte count as an \<open>int\<close> or a store error. The result is
  the status and the value left in \<open>*key_id\<close>.
\<close>

definition import_finish ::
    "psa_key_id_t \<Rightarrow> nat \<Rightarrow> store_rc + int \<Rightarrow> psa_status \<times> psa_key_id_t" where
  "import_finish key_id total_len r =
    (case r of
       Inl rc \<Rightarrow> (wolfpsa_store_open_status rc, PSA_KEY_ID_NULL)
     | Inr ret \<Rightarrow>
         if ret < 0 then (PSA_ERROR_STORAGE_FAILURE, PSA_KEY_ID_NULL)
         else if nat ret \<noteq> total_len then (PSA_ERROR_STORAGE_FAILURE, PSA_KEY_ID_NULL)
         else (PSA_SUCCESS, key_id))"

definition import_persistent ::
    "('st, 'h) psa_env \<Rightarrow> psa_key_id_t \<Rightarrow> byte list \<Rightarrow> nat \<Rightarrow> 'st key_store \<Rightarrow>
     psa_status \<times> psa_key_id_t \<times> 'st key_store" where
  "import_persistent env key_id buffer data_length s =
    (let b = env_build env; ops = env_ops env; s1 = WOLFPSA_LOCK b s in
     case so_open ops (store s1) WOLFPSA_STORE_KEY (unat key_id) 0 True 0 of
       (Opened h, st1) \<Rightarrow>
         (PSA_ERROR_ALREADY_EXISTS, PSA_KEY_ID_NULL,
          WOLFPSA_UNLOCK b (s1\<lparr>store := snd (so_close ops st1 h)\<rparr>))
     | (OpenFail rc, st1) \<Rightarrow>
         if rc \<noteq> WOLFPSA_STORE_NOT_AVAILABLE then
           (wolfpsa_store_open_status rc, PSA_KEY_ID_NULL, WOLFPSA_UNLOCK b (s1\<lparr>store := st1\<rparr>))
         else
           (case store_write_session ops st1 (unat key_id) data_length buffer of
              (r, st2) \<Rightarrow>
                (case import_finish key_id (length buffer) (map_sum (\<lambda>e. e) c_int r) of
                   (status, kid) \<Rightarrow> (status, kid, WOLFPSA_UNLOCK b (s1\<lparr>store := st2\<rparr>)))))"

definition import_store ::
    "('st, 'h) psa_env \<Rightarrow> psa_key_attributes_t \<Rightarrow> byte list \<Rightarrow> psa_key_id_t \<Rightarrow> 'st key_store \<Rightarrow>
     psa_status \<times> psa_key_id_t \<times> 'st key_store" where
  "import_store env attr d key_id s =
    (let b = env_build env; buffer_size = length d + header_length;
         (ok, s1) = s_xmalloc s in
     if \<not> ok then (PSA_ERROR_INSUFFICIENT_MEMORY, key_id, s1)
     else
       (let (sst, image, attr_len) = psa_key_attributes_serialize attr buffer_size in
        if sst \<noteq> PSA_SUCCESS then (sst, key_id, s1)
        else
          (let buffer = image @ le_bytes sizeof_size_t (length d) @ d in
           if PSA_KEY_LIFETIME_IS_VOLATILE (lifetime attr) then
             (case wolfpsa_volatile_store b key_id attr d s1 of
                (status, s2) \<Rightarrow>
                  if status \<noteq> PSA_SUCCESS then (status, PSA_KEY_ID_NULL, s2)
                  else
                    (case import_finish key_id (length buffer) (Inr (c_int (length buffer))) of
                       (status', kid) \<Rightarrow> (status', kid, s2)))
           else import_persistent env key_id buffer (length d) s1)))"

text \<open>The checks of \<open>psa_import_key\<close> in their order: an error, or the completed attributes.\<close>

definition import_validate ::
    "('st, 'h) psa_env \<Rightarrow> psa_key_attributes_t option \<Rightarrow> inbuf \<Rightarrow> bool \<Rightarrow>
     psa_status + psa_key_attributes_t" where
  "import_validate env attr_arg din id_null =
    (case import_check_args (env_build env) attr_arg din id_null of
       Inl e \<Rightarrow> Inl e
     | Inr attr0 \<Rightarrow>
         (case import_bits (env_wc env) attr0 (in_bytes din) of
            Inl e \<Rightarrow> Inl e
          | Inr attr \<Rightarrow>
              (let chk = import_check_data (env_build env) (env_wc env) attr (in_bytes din)
               in if chk \<noteq> PSA_SUCCESS then Inl chk else Inr attr)))"

text \<open>
  \<open>psa_import_key\<close>: the status, the value left in \<open>*key_id\<close> (\<open>PSA_KEY_ID_NULL\<close> also when the
  pointer is NULL) and the state.
\<close>

definition psa_import_key ::
    "('st, 'h) psa_env \<Rightarrow> psa_key_attributes_t option \<Rightarrow> inbuf \<Rightarrow> bool \<Rightarrow> 'st key_store \<Rightarrow>
     psa_status \<times> psa_key_id_t \<times> 'st key_store" where
  "psa_import_key env attr_arg din id_null s =
    (case import_validate env attr_arg din id_null of
       Inl e \<Rightarrow> (e, PSA_KEY_ID_NULL, s)
     | Inr attr \<Rightarrow>
         (case psa_key_storage_check_init (env_build env) s of
            (ini, s1) \<Rightarrow>
              if ini \<noteq> PSA_SUCCESS then (ini, PSA_KEY_ID_NULL, s1)
              else
                (case import_assign_id (env_build env) attr s1 of
                   (Inl e, s2) \<Rightarrow> (e, PSA_KEY_ID_NULL, s2)
                 | (Inr key_id, s2) \<Rightarrow> import_store env attr (in_bytes din) key_id s2)))"

section \<open>The operations with the mutex free\<close>

text \<open>
  When the mutex exists and is free, a locked section is its body: the following equations
  are the operations without the mutex.
\<close>

lemma find_held [simp]: "wolfpsa_volatile_find (s\<lparr>held := x\<rparr>) k = wolfpsa_volatile_find s k"
  by (simp add: wolfpsa_volatile_find_def)

lemma find_allocs [simp]: "wolfpsa_volatile_find (s\<lparr>allocs := x\<rparr>) k = wolfpsa_volatile_find s k"
  by (simp add: wolfpsa_volatile_find_def)

lemma find_store [simp]: "wolfpsa_volatile_find (s\<lparr>store := x\<rparr>) k = wolfpsa_volatile_find s k"
  by (simp add: wolfpsa_volatile_find_def)

lemma find_initialized [simp]:
  "wolfpsa_volatile_find (s\<lparr>g_key_storage_initialized := x\<rparr>) k = wolfpsa_volatile_find s k"
  by (simp add: wolfpsa_volatile_find_def)

lemma ready_updates [simp]:
  "ready b (s\<lparr>allocs := x1\<rparr>) = ready b s"
  "ready b (s\<lparr>store := x2\<rparr>) = ready b s"
  "ready b (s\<lparr>g_volatile_keys := x3\<rparr>) = ready b s"
  "ready b (s\<lparr>g_next_key_id := x4\<rparr>) = ready b s"
  "ready b (s\<lparr>g_key_storage_initialized := x5\<rparr>) = ready b s"
  "ready b (s\<lparr>rng_calls := x6\<rparr>) = ready b s"
  by (simp_all add: ready_def lock_ok_def)

lemma lock_ok_updates [simp]:
  "lock_ok (s\<lparr>allocs := x1\<rparr>) = lock_ok s"
  "lock_ok (s\<lparr>store := x2\<rparr>) = lock_ok s"
  "lock_ok (s\<lparr>g_volatile_keys := x3\<rparr>) = lock_ok s"
  "lock_ok (s\<lparr>g_next_key_id := x4\<rparr>) = lock_ok s"
  "lock_ok (s\<lparr>g_key_storage_initialized := x5\<rparr>) = lock_ok s"
  "lock_ok (s\<lparr>rng_calls := x6\<rparr>) = lock_ok s"
  by (simp_all add: lock_ok_def)

lemma ready_fields: "ready b s \<Longrightarrow> \<not> held s"
  by (simp add: ready_def lock_ok_def)

definition alloc_next :: "'st key_store \<Rightarrow> bool" where
  "alloc_next s = fst (xmalloc (allocs s))"

definition alloc_rest :: "'st key_store \<Rightarrow> 'st key_store" where
  "alloc_rest s = s\<lparr>allocs := snd (xmalloc (allocs s))\<rparr>"

lemma s_xmalloc_eq: "s_xmalloc s = (alloc_next s, alloc_rest s)"
  by (simp add: s_xmalloc_def alloc_next_def alloc_rest_def case_prod_unfold)

lemma alloc_rest_simps [simp]:
  "ready b (alloc_rest s) = ready b s" "lock_ok (alloc_rest s) = lock_ok s"
  "g_volatile_keys (alloc_rest s) = g_volatile_keys s" "store (alloc_rest s) = store s"
  "g_next_key_id (alloc_rest s) = g_next_key_id s"
  "g_psa_crypto_initialized (alloc_rest s) = g_psa_crypto_initialized s"
  "wolfpsa_volatile_find (alloc_rest s) k = wolfpsa_volatile_find s k"
  "alloc_rest (s\<lparr>held := x\<rparr>) = (alloc_rest s)\<lparr>held := x\<rparr>"
  "alloc_next (s\<lparr>held := x\<rparr>) = alloc_next s"
  "held (alloc_rest s) = held s" "rng_calls (alloc_rest s) = rng_calls s"
  by (simp_all add: alloc_rest_def alloc_next_def)

lemma volatile_store_ready:
  assumes "ready b s"
  shows "wolfpsa_volatile_store b k a d s =
    (if d = [] then (PSA_ERROR_INVALID_ARGUMENT, s)
     else if wolfpsa_volatile_find s k \<noteq> None then (PSA_ERROR_ALREADY_EXISTS, s)
     else if \<not> alloc_next s then (PSA_ERROR_INSUFFICIENT_MEMORY, alloc_rest s)
     else if \<not> alloc_next (alloc_rest s)
       then (PSA_ERROR_INSUFFICIENT_MEMORY, alloc_rest (alloc_rest s))
     else (PSA_SUCCESS, (alloc_rest (alloc_rest s))
             \<lparr>g_volatile_keys := \<lparr>node_id = k, attributes = a, data = d\<rparr> # g_volatile_keys s\<rparr>))"
proof -
  have "(s\<lparr>held := False\<rparr>) = s" "((alloc_rest s)\<lparr>held := False\<rparr>) = alloc_rest s"
    "((alloc_rest (alloc_rest s))\<lparr>held := False\<rparr>) = alloc_rest (alloc_rest s)"
    using assms release_ready [of b "alloc_rest s"] release_ready [of b "alloc_rest (alloc_rest s)"]
    by simp_all
  moreover have "((alloc_rest (alloc_rest s))\<lparr>g_volatile_keys := v, held := False\<rparr>) =
      (alloc_rest (alloc_rest s))\<lparr>g_volatile_keys := v\<rparr>" for v
    by (rule release_ready [of b]) (simp add: assms)
  ultimately show ?thesis
    using assms by (simp add: wolfpsa_volatile_store_def s_xmalloc_eq Let_def)
qed

lemma volatile_remove_ready:
  assumes "ready b s"
  shows "wolfpsa_volatile_remove b k s =
    (if wolfpsa_volatile_find s k = None then (PSA_ERROR_INVALID_HANDLE, s)
     else (PSA_SUCCESS, s\<lparr>g_volatile_keys := unlink_node k (g_volatile_keys s)\<rparr>))"
proof -
  have "(s\<lparr>g_volatile_keys := v, held := False\<rparr>) = s\<lparr>g_volatile_keys := v\<rparr>" for v
    by (rule release_ready [of b]) (simp add: assms)
  then show ?thesis using assms by (simp add: wolfpsa_volatile_remove_def Let_def)
qed

lemma volatile_get_ready:
  assumes "ready b s"
  shows "wolfpsa_volatile_get b k s =
    (case wolfpsa_volatile_find s k of
       None \<Rightarrow> (PSA_ERROR_INVALID_HANDLE, None, [], s)
     | Some n \<Rightarrow>
         if data n = [] then (PSA_ERROR_DATA_INVALID, Some (attributes n), [], s)
         else if \<not> alloc_next s
           then (PSA_ERROR_INSUFFICIENT_MEMORY, Some (attributes n), [], alloc_rest s)
         else (PSA_SUCCESS, Some (attributes n), data n, alloc_rest s))"
proof -
  have "(alloc_rest s)\<lparr>held := False\<rparr> = alloc_rest s"
    by (rule release_ready [of b]) (simp add: assms)
  then show ?thesis
    using assms by (simp add: wolfpsa_volatile_get_def s_xmalloc_eq Let_def split: option.split)
qed

lemma volatile_get_attributes_ready:
  "ready b s \<Longrightarrow> wolfpsa_volatile_get_attributes b k s =
    (case wolfpsa_volatile_find s k of
       None \<Rightarrow> (PSA_ERROR_INVALID_HANDLE, None, s)
     | Some n \<Rightarrow> (PSA_SUCCESS, Some (attributes n), s))"
  by (simp add: wolfpsa_volatile_get_attributes_def Let_def split: option.split)

lemma assign_id_ready:
  assumes "ready b s"
  shows "import_assign_id b a s =
    (if \<not> PSA_KEY_LIFETIME_IS_VOLATILE (lifetime a) \<and> id a \<noteq> PSA_KEY_ID_NULL then (Inr (id a), s)
     else if g_next_key_id s < PSA_KEY_ID_VENDOR_MIN \<or> g_next_key_id s > PSA_KEY_ID_VENDOR_MAX
       then (Inl PSA_ERROR_INSUFFICIENT_STORAGE, s)
     else (Inr (g_next_key_id s), s\<lparr>g_next_key_id := g_next_key_id s + 1\<rparr>))"
proof -
  have "(s\<lparr>g_next_key_id := v, held := False\<rparr>) = s\<lparr>g_next_key_id := v\<rparr>" for v
    by (rule release_ready [of b]) (simp add: assms)
  then show ?thesis using assms by (simp add: import_assign_id_def Let_def)
qed

lemma import_persistent_ready:
  assumes "ready (env_build env) s"
  shows "import_persistent env k buffer n s =
    (case so_open (env_ops env) (store s) WOLFPSA_STORE_KEY (unat k) 0 True 0 of
       (Opened h, st1) \<Rightarrow>
         (PSA_ERROR_ALREADY_EXISTS, PSA_KEY_ID_NULL,
          s\<lparr>store := snd (so_close (env_ops env) st1 h)\<rparr>)
     | (OpenFail rc, st1) \<Rightarrow>
         if rc \<noteq> WOLFPSA_STORE_NOT_AVAILABLE then
           (wolfpsa_store_open_status rc, PSA_KEY_ID_NULL, s\<lparr>store := st1\<rparr>)
         else
           (case store_write_session (env_ops env) st1 (unat k) n buffer of
              (r, st2) \<Rightarrow>
                (case import_finish k (length buffer) (map_sum (\<lambda>e. e) c_int r) of
                   (status, kid) \<Rightarrow> (status, kid, s\<lparr>store := st2\<rparr>))))"
proof -
  have "(s\<lparr>store := v, held := False\<rparr>) = s\<lparr>store := v\<rparr>" for v
    by (rule release_ready [of "env_build env"]) (simp add: assms)
  then show ?thesis
    using assms
    by (simp add: import_persistent_def Let_def split: prod.split open_result.split)
qed

lemma c_int_small: "n \<le> INT_MAX \<Longrightarrow> c_int n = int n"
  by (simp add: c_int_def signed_of_nat signed_take_bit_int_eq_self)

lemma c_int_wraps:
  assumes "INT_MAX < n" and "n \<le> 2 * INT_MAX"
  shows "c_int n < 0"
proof -
  have n: "2147483648 \<le> int n" "int n < 4294967296" using assms by simp_all
  then have "int n div 2147483648 = 1"
    by (intro int_div_pos_eq [of _ _ _ "int n - 2147483648"]) simp_all
  then have "bit (int n) 31" by (simp add: bit_iff_odd)
  moreover have "take_bit 32 (int n) = int n" using n by (simp add: take_bit_int_eq_self)
  ultimately have "signed_take_bit 31 (int n) = int n - 2 ^ 32"
    unfolding signed_take_bit_eq_take_bit_minus by simp
  then have "c_int n = int n - 2 ^ 32" by (simp add: c_int_def signed_of_nat)
  with n show ?thesis by simp
qed

lemma import_store_ready:
  assumes "ready (env_build env) s"
  shows "import_store env a d k s =
    (if \<not> alloc_next s then (PSA_ERROR_INSUFFICIENT_MEMORY, k, alloc_rest s)
     else if PSA_KEY_LIFETIME_IS_VOLATILE (lifetime a) then
       (case wolfpsa_volatile_store (env_build env) k a d (alloc_rest s) of
          (status, s2) \<Rightarrow>
            if status \<noteq> PSA_SUCCESS then (status, PSA_KEY_ID_NULL, s2)
            else (case import_finish k (length (key_record a d)) (Inr (c_int (length (key_record a d)))) of
                    (status', kid) \<Rightarrow> (status', kid, s2)))
     else import_persistent env k (key_record a d) (length d) (alloc_rest s))"
  unfolding import_store_def key_record_def
  by (simp add: s_xmalloc_eq psa_key_attributes_serialize_def Let_def)

section \<open>The abstract key store\<close>

text \<open>
  A key is looked up in the volatile list first and in the persistent store second.
  \<open>record_key a0 r\<close> decodes a stored record (\<open>a0\<close> supplies the id, which is not stored) and
  \<open>ks_lookup\<close> is the abstract content of the key store over the record map \<open>m\<close>.
\<close>

definition record_key ::
    "psa_key_attributes_t \<Rightarrow> byte list \<Rightarrow> (psa_key_attributes_t \<times> byte list) option" where
  "record_key a0 r =
    (let n = header_data_length (take header_length r) in
     if length r < header_length \<or> n = 0 \<or> n > INT_MAX \<or> length r < header_length + n then None
     else Some (snd (psa_key_attributes_deserialize (take attr_length r) a0),
                take n (drop header_length r)))"

definition ks_lookup ::
    "(nat \<Rightarrow> byte list option) \<Rightarrow> 'st key_store \<Rightarrow> psa_key_attributes_t \<Rightarrow> psa_key_id_t \<Rightarrow>
     (psa_key_attributes_t \<times> byte list) option" where
  "ks_lookup m s a0 k =
    (case wolfpsa_volatile_find s k of
       Some n \<Rightarrow> Some (attributes n, data n)
     | None \<Rightarrow> (case m (unat k) of None \<Rightarrow> None | Some r \<Rightarrow> record_key a0 r))"

lemma record_key_key_record:
  assumes "d \<noteq> []" and "length d \<le> INT_MAX"
  shows "record_key a0 (key_record a d) =
    Some (a\<lparr>policy := (policy a)\<lparr>alg2 := PSA_ALG_NONE\<rparr>, id := id a0\<rparr>, d)"
  using assms by (simp add: record_key_def header_data_length_def)

text \<open>
  A persistent record decodes to what was encoded: the attributes that were serialized
  (the enrollment algorithm is not part of the format and reads back as none, the id is the
  reader's) and the key data, whole and unchanged.
\<close>

theorem record_roundtrip:
  assumes "d \<noteq> []" and "length d \<le> INT_MAX"
  shows "psa_key_attributes_serialize a (length d + header_length) = (PSA_SUCCESS, attr_image a, attr_length) \<and>
    record_key a0 (attr_image a @ le_bytes sizeof_size_t (length d) @ d) =
      Some (a\<lparr>policy := (policy a)\<lparr>alg2 := PSA_ALG_NONE\<rparr>, id := id a0\<rparr>, d)"
  using record_key_key_record [OF assms, of a0 a]
  by (simp add: key_record_def psa_key_attributes_serialize_def)

theorem record_roundtrip_witness:
  "record_key psa_key_attributes_init
     (attr_image (psa_key_attributes_init\<lparr>bits := 128\<rparr>) @ le_bytes sizeof_size_t (length [7, 9 :: byte]) @ [7, 9]) =
   Some (psa_key_attributes_init\<lparr>bits := 128\<rparr>, [7, 9])"
  using record_roundtrip [of "[7, 9]" "psa_key_attributes_init\<lparr>bits := 128\<rparr>" psa_key_attributes_init]
  by (simp add: psa_key_attributes_init_def)

text \<open>What a load leaves alone, and what it returns when it succeeds.\<close>

definition load_frame ::
    "('st \<Rightarrow> nat \<Rightarrow> byte list option) \<Rightarrow> 'st key_store \<Rightarrow> 'st key_store \<Rightarrow> bool" where
  "load_frame recs s s' \<longleftrightarrow>
    lock_ok s' \<and> g_volatile_keys s' = g_volatile_keys s \<and> g_next_key_id s' = g_next_key_id s \<and>
    g_psa_crypto_initialized s' = g_psa_crypto_initialized s \<and> recs (store s') = recs (store s)"

lemma load_frame_trans: "load_frame recs a b \<Longrightarrow> load_frame recs b c \<Longrightarrow> load_frame recs a c"
  by (simp add: load_frame_def)

lemma load_frame_core: "lock_ok s' \<Longrightarrow> core_same s s' \<Longrightarrow> load_frame recs s s'"
  by (simp add: load_frame_def core_same_def)

lemma load_frame_store:
  "lock_ok s \<Longrightarrow> s' = s\<lparr>store := st\<rparr> \<Longrightarrow> recs st = recs (store s) \<Longrightarrow> load_frame recs s s'"
  by (simp add: load_frame_def)

lemma load_frame_alloc: "lock_ok s \<Longrightarrow> load_frame recs s (alloc_rest s)"
  by (simp add: load_frame_def)

lemma load_frame_find: "load_frame recs s s' \<Longrightarrow> wolfpsa_volatile_find s' k = wolfpsa_volatile_find s k"
  by (simp add: load_frame_def wolfpsa_volatile_find_def)

lemma store_only:
  "s' = t\<lparr>store := x\<rparr> \<Longrightarrow> ready b s' = ready b t \<and> g_next_key_id s' = g_next_key_id t \<and>
     g_psa_crypto_initialized s' = g_psa_crypto_initialized t \<and>
     g_volatile_keys s' = g_volatile_keys t"
  by simp

text \<open>
  What a successful import of attributes \<open>a\<close> and data \<open>d\<close> under the id \<open>k\<close> does to the key
  store, and the invariant of the volatile list: ids are distinct, were handed out by the
  counter, and no key is empty.
\<close>

definition import_effect ::
    "('st \<Rightarrow> nat \<Rightarrow> byte list option) \<Rightarrow> psa_key_attributes_t \<Rightarrow> byte list \<Rightarrow> psa_key_id_t \<Rightarrow>
     'st key_store \<Rightarrow> 'st key_store \<Rightarrow> bool" where
  "import_effect recs a d k s s' \<longleftrightarrow>
    (if PSA_KEY_LIFETIME_IS_VOLATILE (lifetime a) then
       wolfpsa_volatile_find s k = None \<and>
       g_volatile_keys s' = \<lparr>node_id = k, attributes = a, data = d\<rparr> # g_volatile_keys s \<and>
       recs (store s') = recs (store s)
     else
       recs (store s) (unat k) = None \<and> recs (store s') = (recs (store s))(unat k \<mapsto> key_record a d) \<and>
       g_volatile_keys s' = g_volatile_keys s)"

definition no_effect :: "('st \<Rightarrow> nat \<Rightarrow> byte list option) \<Rightarrow> 'st key_store \<Rightarrow> 'st key_store \<Rightarrow> bool" where
  "no_effect recs s s' \<longleftrightarrow>
    g_volatile_keys s' = g_volatile_keys s \<and> recs (store s') = recs (store s)"

definition ks_inv :: "'st key_store \<Rightarrow> bool" where
  "ks_inv s \<longleftrightarrow>
    lock_ok s \<and> distinct (map node_id (g_volatile_keys s)) \<and>
    (\<forall>n \<in> set (g_volatile_keys s).
       data n \<noteq> [] \<and> PSA_KEY_LIFETIME_IS_VOLATILE (lifetime (attributes n)) \<and>
       PSA_KEY_ID_VENDOR_MIN \<le> node_id n \<and> node_id n < g_next_key_id s) \<and>
    PSA_KEY_ID_VENDOR_MIN \<le> g_next_key_id s \<and> g_next_key_id s \<le> PSA_KEY_ID_VENDOR_MAX + 1"

lemma ks_inv_frame: "ks_inv s \<Longrightarrow> load_frame recs s s' \<Longrightarrow> ks_inv s'"
  by (simp add: ks_inv_def load_frame_def)

lemma ks_inv_fresh:
  assumes "ks_inv s" and "g_next_key_id s \<le> k"
  shows "wolfpsa_volatile_find s k = None"
  using assms by (auto simp: ks_inv_def wolfpsa_volatile_find_def find_None_iff)

section \<open>What the checks establish\<close>

lemma infer_key_bits_only_bits:
  assumes "wolfpsa_infer_key_bits a d = (st, a')"
  shows "\<exists>b. a' = a\<lparr>bits := b\<rparr>"
proof -
  define P where "P = (\<lambda>r :: psa_status \<times> psa_key_attributes_t. \<exists>b. snd r = a\<lparr>bits := b\<rparr>)"
  have "\<exists>b. a = a\<lparr>bits := b\<rparr>" by (rule exI [of _ "bits a"]) simp
  then have P: "P (x, a)" "P (x, a\<lparr>bits := b\<rparr>)" for x b by (auto simp: P_def)
  have I: "P x \<Longrightarrow> P y \<Longrightarrow> P (if c then x else y)" for c x y by simp
  have S: "P (case r of Inl e \<Rightarrow> (e, a) | Inr b \<Rightarrow> if b = 0 then (st, a) else (st', a\<lparr>bits := b\<rparr>))"
    for r st st' by (cases r) (simp_all add: P)
  have "P (wolfpsa_infer_key_bits a d)"
    unfolding wolfpsa_infer_key_bits_def Let_def by (intro I P S)
  then show ?thesis using assms by (simp add: P_def)
qed

lemma import_bits_only_bits:
  assumes "import_bits wc a d = Inr a'"
  shows "\<exists>b. a' = a\<lparr>bits := b\<rparr>"
proof -
  have self: "\<exists>b. x = x\<lparr>bits := b\<rparr>" for x :: psa_key_attributes_t
    by (rule exI [of _ "bits x"]) simp
  have two: "wolfpsa_infer_key_bits (a\<lparr>bits := c\<rparr>) d = (st, x) \<Longrightarrow> \<exists>b. x = a\<lparr>bits := b\<rparr>" for c st x
    using infer_key_bits_only_bits [of "a\<lparr>bits := c\<rparr>" d st x] by auto
  show ?thesis
    using assms infer_key_bits_only_bits [of a d] two self [of a]
    by (auto simp: import_bits_def Let_def split: if_splits sum.splits prod.splits)
qed

lemma validate_Inr:
  assumes "import_validate env aa din idn = Inr a"
  obtains a0 b where "aa = Some a0" "a = a0\<lparr>bits := b\<rparr>" "\<not> in_null din" "\<not> idn"
    "in_bytes din \<noteq> []" "length (in_bytes din) \<le> INT_MAX"
    "PSA_KEY_LIFETIME_GET_LOCATION (lifetime a) = PSA_KEY_LOCATION_LOCAL_STORAGE"
    "alg2 (policy a) = PSA_ALG_NONE \<or>
       WOLFPSA_ENROLLMENT_ALG (env_build env) \<and> PSA_KEY_LIFETIME_IS_VOLATILE (lifetime a)"
    "wolfpsa_usage_flags_valid (usage (policy a))" "type a \<noteq> PSA_KEY_TYPE_NONE"
    "import_check_data (env_build env) (env_wc env) a (in_bytes din) = PSA_SUCCESS"
proof -
  obtain a0 where a0: "import_check_args (env_build env) aa din idn = Inr a0"
      "import_bits (env_wc env) a0 (in_bytes din) = Inr a"
      "import_check_data (env_build env) (env_wc env) a (in_bytes din) = PSA_SUCCESS"
    using assms by (auto simp: import_validate_def Let_def split: sum.splits if_splits)
  obtain b where b: "a = a0\<lparr>bits := b\<rparr>" using import_bits_only_bits [OF a0(2)] by blast
  have len: "in_length din = length (in_bytes din)" if "\<not> in_null din"
    using that by (cases din) auto
  show thesis
    using a0 b len
    by (intro that [of a0 b])
      (auto simp: import_check_args_def Let_def split: option.splits if_splits)
qed

lemma validate_Inl: "import_validate env aa din idn = Inl e \<Longrightarrow> e \<noteq> PSA_SUCCESS"
  by (auto simp: import_validate_def import_check_args_def import_bits_def
      wolfpsa_rsa_key_bits_def wolfpsa_key_data_status_def Let_def
      split: sum.splits if_splits option.splits prod.splits)

section \<open>The volatile list under import\<close>

text \<open>
  Whatever the backend does and whatever fails, an import changes the list at most by
  consing one key under the id that the counter was advanced over.
\<close>

definition list_step :: "'st key_store \<Rightarrow> 'st key_store \<Rightarrow> bool" where
  "list_step s s' \<longleftrightarrow>
    lock_ok s' \<and> g_psa_crypto_initialized s' = g_psa_crypto_initialized s \<and>
    (g_next_key_id s' = g_next_key_id s \<and> g_volatile_keys s' = g_volatile_keys s \<or>
     PSA_KEY_ID_VENDOR_MIN \<le> g_next_key_id s \<and> g_next_key_id s \<le> PSA_KEY_ID_VENDOR_MAX \<and>
     g_next_key_id s' = g_next_key_id s + 1 \<and>
     (g_volatile_keys s' = g_volatile_keys s \<or>
      (\<exists>a d. PSA_KEY_LIFETIME_IS_VOLATILE (lifetime a) \<and> d \<noteq> [] \<and>
         g_volatile_keys s' =
           \<lparr>node_id = g_next_key_id s, attributes = a, data = d\<rparr> # g_volatile_keys s)))"

lemma list_step_refl: "lock_ok s \<Longrightarrow> list_step s s"
  by (simp add: list_step_def)

lemma list_step_frame:
  "list_step a b \<Longrightarrow> lock_ok c \<Longrightarrow> g_volatile_keys c = g_volatile_keys b \<Longrightarrow>
   g_next_key_id c = g_next_key_id b \<Longrightarrow> g_psa_crypto_initialized c = g_psa_crypto_initialized b \<Longrightarrow>
   list_step a c"
  by (auto simp: list_step_def)

lemma list_step_from:
  "list_step b c \<Longrightarrow> g_volatile_keys a = g_volatile_keys b \<Longrightarrow>
   g_next_key_id a = g_next_key_id b \<Longrightarrow> g_psa_crypto_initialized a = g_psa_crypto_initialized b \<Longrightarrow>
   list_step a c"
  by (auto simp: list_step_def)

lemma word_succ_vendor:
  fixes x :: psa_key_id_t
  assumes "x \<le> PSA_KEY_ID_VENDOR_MAX"
  shows "x < x + 1" and "x + 1 \<le> PSA_KEY_ID_VENDOR_MAX + 1"
proof -
  have u: "unat x \<le> 0x7fffffff" using assms by (simp add: word_le_nat_alt)
  then have s: "unat (x + 1) = unat x + 1" by (simp add: unat_word_ariths)
  show "x < x + 1" using s by (simp add: word_less_nat_alt)
  show "x + 1 \<le> PSA_KEY_ID_VENDOR_MAX + 1" using s u by (simp add: word_le_nat_alt)
qed

lemma ks_inv_list_step:
  assumes "ks_inv s" and "list_step s s'"
  shows "ks_inv s'"
proof -
  have "g_next_key_id s \<notin> node_id ` set (g_volatile_keys s)"
    using assms(1) by (auto simp: ks_inv_def)
  moreover have "\<forall>n \<in> set (g_volatile_keys s). node_id n < g_next_key_id s + 1"
      "PSA_KEY_ID_VENDOR_MIN \<le> g_next_key_id s + 1"
    if "g_next_key_id s \<le> PSA_KEY_ID_VENDOR_MAX"
    using assms(1) word_succ_vendor(1) [OF that]
    by (auto simp: ks_inv_def dest: order_less_trans)
  ultimately show ?thesis
    using assms word_succ_vendor [of "g_next_key_id s"]
    by (auto simp: ks_inv_def list_step_def)
qed

lemma import_persistent_list:
  assumes "ready (env_build env) s" and "import_persistent env k buf n s = (status, kid, s')"
  shows "\<exists>st. s' = s\<lparr>store := st\<rparr>"
  using assms by (auto simp: import_persistent_ready split: prod.splits open_result.splits if_splits)

lemma import_store_list:
  assumes rdy: "ready (env_build env) s" and i: "import_store env a d k s = (status, kid, s')"
  shows "ready (env_build env) s' \<and> g_psa_crypto_initialized s' = g_psa_crypto_initialized s \<and>
    g_next_key_id s' = g_next_key_id s \<and>
    (g_volatile_keys s' = g_volatile_keys s \<or>
     PSA_KEY_LIFETIME_IS_VOLATILE (lifetime a) \<and> d \<noteq> [] \<and>
     g_volatile_keys s' = \<lparr>node_id = k, attributes = a, data = d\<rparr> # g_volatile_keys s)"
proof -
  have r1: "ready (env_build env) (alloc_rest s)" using rdy by simp
  show ?thesis
    using i rdy
    by (auto simp: import_store_ready [OF rdy] volatile_store_ready [OF r1]
        dest!: import_persistent_list [OF r1] split: if_splits prod.splits)
qed

lemma import_key_list:
  assumes lk: "lock_ok s" and i: "psa_import_key env aa din idn s = (status, kid, s')"
  shows "list_step s s'"
proof (cases "import_validate env aa din idn")
  case (Inl e)
  then show ?thesis using i list_step_refl [OF lk] by (simp add: psa_import_key_def)
next
  case (Inr a)
  obtain ini s1 where c: "psa_key_storage_check_init (env_build env) s = (ini, s1)" by fastforce
  note ci = check_init_cases [OF lk c]
  show ?thesis
  proof (cases "ini = PSA_SUCCESS")
    case False
    then show ?thesis using i Inr c ci by (auto simp: psa_import_key_def core_same_def list_step_def)
  next
    case True
    then have rdy: "ready (env_build env) s1" and cs: "core_same s s1" using ci by auto
    obtain r s2 where as: "import_assign_id (env_build env) a s1 = (r, s2)" by fastforce
    show ?thesis
    proof (cases r)
      case Inl': (Inl e)
      then show ?thesis
        using i Inr c True as cs ready_lock_ok [OF rdy]
        by (auto simp: psa_import_key_def assign_id_ready [OF rdy] core_same_def list_step_def
            split: if_splits)
    next
      case r: (Inr k)
      then have st: "import_store env a (in_bytes din) k s2 = (status, kid, s')"
        using i Inr c True as by (simp add: psa_import_key_def)
      have r2: "ready (env_build env) s2"
        using as rdy by (auto simp: assign_id_ready [OF rdy] split: if_splits)
      show ?thesis
        using import_store_list [OF r2 st] as r cs ready_lock_ok
        by (auto simp: assign_id_ready [OF rdy] core_same_def list_step_def split: if_splits)
    qed
  qed
qed

section \<open>Loading from a backend that keeps its contract\<close>

text \<open>
  The client's side of the contract: what the key store does over a backend is proved once
  here, and holds of every backend for which the contract is interpreted.
\<close>

locale key_backend = store_backend ops recs reading healthy valid
  for ops :: "('st, 'h) store_ops"
    and recs :: "'st \<Rightarrow> nat \<Rightarrow> byte list option"
    and reading :: "'h \<Rightarrow> byte list \<Rightarrow> bool"
    and healthy :: "'st \<Rightarrow> bool"
    and valid :: "nat \<Rightarrow> bool"
begin

lemma open_read_header_recs:
  assumes env: "env_ops env = ops" and o: "open_read_header env k s = (r, s')"
  shows "s' = s\<lparr>store := store s'\<rparr> \<and> recs (store s') = recs (store s) \<and>
    (case r of
       Inl e \<Rightarrow> e \<noteq> PSA_SUCCESS \<and> (e = PSA_ERROR_INVALID_HANDLE \<longrightarrow> recs (store s) (unat k) = None)
     | Inr (hdr, h) \<Rightarrow>
         \<exists>rest. recs (store s) (unat k) = Some (hdr @ rest) \<and> length hdr = header_length \<and>
                reading h rest)"
proof (cases "so_open ops (store s) WOLFPSA_STORE_KEY (unat k) 0 True 0")
  case (Pair o1 st1)
  note same1 = open_read_recs [OF Pair]
  show ?thesis
  proof (cases o1)
    case (OpenFail rc)
    then show ?thesis
      using o env Pair same1 open_read_absent [of "store s" "unat k" 0 st1] open_fail_not_ok
      by (auto simp: open_read_header_def wolfpsa_store_open_status_def split: if_splits)
  next
    case (Opened h)
    obtain bs where bs: "recs (store s) (unat k) = Some bs" "reading h bs"
      using open_read_view [OF Pair [unfolded Opened]] by blast
    obtain rr h' st2 where rd: "so_read ops st1 h header_length = (rr, h', st2)" by (metis prod_cases3)
    obtain rc st3 where cl: "so_close ops st2 h' = (rc, st3)" by fastforce
    have same2: "recs st2 = recs (store s)" using read_recs [OF bs(2) rd] same1 by simp
    show ?thesis
    proof (cases rr)
      case (Inl e)
      have "recs st3 = recs (store s)"
        using close_read_recs [OF read_error [OF bs(2) rd [unfolded Inl]] cl] same2 by simp
      then show ?thesis
        using o env by (auto simp: open_read_header_def Pair Opened rd cl Inl)
    next
      case (Inr cs)
      obtain ds where ds: "bs = cs @ ds" "reading h' ds"
        using read_bytes [OF bs(2) rd [unfolded Inr]] by blast
      have "recs st3 = recs (store s)"
        using close_read_recs [OF ds(2) cl] same2 by simp
      then show ?thesis
        using o env same2 bs ds
        by (auto simp: open_read_header_def Pair Opened rd cl Inr split: if_splits)
    qed
  qed
qed

lemma read_body_close_recs:
  assumes env: "env_ops env = ops" and rd: "reading h bs"
    and o: "read_body_close env h n s = (r, s')"
  shows "s' = s\<lparr>store := store s'\<rparr> \<and> recs (store s') = recs (store s) \<and>
    (\<forall>d. r = Some d \<longrightarrow> length d = n \<and> (\<exists>rest. bs = d @ rest))"
proof -
  obtain rr h' st1 where r: "so_read ops (store s) h n = (rr, h', st1)" by (metis prod_cases3)
  obtain rc st2 where cl: "so_close ops st1 h' = (rc, st2)" by fastforce
  have "\<exists>ds. reading h' ds"
    using read_bytes [OF rd] read_error [OF rd] r by (cases rr) blast+
  then have "recs st2 = recs (store s)"
    using read_recs [OF rd r] close_read_recs [OF _ cl] by metis
  moreover have "rr = Inr cs \<Longrightarrow> \<exists>ds. bs = cs @ ds" for cs
    using read_bytes [OF rd] r by blast
  ultimately show ?thesis
    using o env r
    by (auto simp: read_body_close_def cl Let_def split: sum.splits if_splits)
qed

lemma close_handle_recs:
  assumes "env_ops env = ops" and "reading h bs"
  shows "close_handle env h s = s\<lparr>store := store (close_handle env h s)\<rparr> \<and>
    recs (store (close_handle env h s)) = recs (store s)"
proof -
  obtain rc st1 where "so_close ops (store s) h = (rc, st1)" by fastforce
  with close_read_recs [OF assms(2) this] assms(1) show ?thesis by (simp add: close_handle_def)
qed

lemma healthy_open_read_header:
  assumes env: "env_ops env = ops" and h: "healthy (store s)"
    and r: "recs (store s) (unat k) = Some (hdr @ body)" and l: "length hdr = header_length"
  shows "\<exists>fh st'. open_read_header env k s = (Inr (hdr, fh), s\<lparr>store := st'\<rparr>) \<and>
    healthy st' \<and> reading fh body"
proof -
  have k: "unat k < 2 ^ 32" by simp
  obtain h1 st1 where o: "so_open ops (store s) WOLFPSA_STORE_KEY (unat k) 0 True 0 = (Opened h1, st1)"
      "healthy st1" using healthy_open_read [OF h k r, of 0] by blast
  have rd: "reading h1 (hdr @ body)" using open_read_view [OF o(1)] r by auto
  obtain h2 st2 where r2: "so_read ops st1 h1 header_length = (Inr hdr, h2, st2)" "healthy st2"
    using healthy_read [OF o(2) rd, of header_length] l by auto
  have "reading h2 body" using read_bytes [OF rd r2(1)] by auto
  then show ?thesis using o r2 env l by (auto simp: open_read_header_def)
qed

lemma healthy_open_read_header_absent:
  assumes env: "env_ops env = ops" and h: "healthy (store s)"
    and r: "recs (store s) (unat k) = None" and k: "valid (unat k)"
  shows "\<exists>st'. open_read_header env k s = (Inl PSA_ERROR_INVALID_HANDLE, s\<lparr>store := st'\<rparr>) \<and> healthy st'"
  using healthy_open_absent [OF h k r, of 0] env by (auto simp: open_read_header_def)

lemma healthy_open_read_header_short:
  assumes env: "env_ops env = ops" and h: "healthy (store s)"
    and r: "recs (store s) (unat k) = Some bs" and l: "length bs < header_length"
  shows "\<exists>st'. open_read_header env k s = (Inl PSA_ERROR_STORAGE_FAILURE, s\<lparr>store := st'\<rparr>) \<and> healthy st'"
proof -
  have k: "unat k < 2 ^ 32" by simp
  obtain h1 st1 where o: "so_open ops (store s) WOLFPSA_STORE_KEY (unat k) 0 True 0 = (Opened h1, st1)"
      "healthy st1" using healthy_open_read [OF h k r, of 0] by blast
  have rd: "reading h1 bs" using open_read_view [OF o(1)] r by auto
  obtain h2 st2 where r2: "so_read ops st1 h1 header_length = (Inr bs, h2, st2)" "healthy st2"
    using healthy_read [OF o(2) rd, of header_length] l by auto
  obtain ds where "reading h2 ds" using read_bytes [OF rd r2(1)] by blast
  then obtain rc st3 where "so_close ops st2 h2 = (rc, st3)" "healthy st3"
    using healthy_close_read [OF r2(2)] by blast
  then show ?thesis using o r2 env l by (auto simp: open_read_header_def)
qed

lemma healthy_read_body_close:
  assumes env: "env_ops env = ops" and h: "healthy (store s)" and rd: "reading fh (d @ x)"
  shows "\<exists>st'. read_body_close env fh (length d) s = (Some d, s\<lparr>store := st'\<rparr>) \<and> healthy st'"
proof -
  obtain h2 st2 where r: "so_read ops (store s) fh (length d) = (Inr d, h2, st2)" "healthy st2"
    using healthy_read [OF h rd, of "length d"] by auto
  obtain ds where "reading h2 ds" using read_bytes [OF rd r(1)] by blast
  then obtain rc st3 where "so_close ops st2 h2 = (rc, st3)" "healthy st3"
    using healthy_close_read [OF r(2)] by blast
  then show ?thesis using r env by (auto simp: read_body_close_def)
qed

text \<open>The part of a load that follows a successful read of the header.\<close>

lemma load_body:
  assumes env: "env_ops env = ops" and lk: "lock_ok s" and rd: "reading h rest"
    and b: "read_body_close env h n (alloc_rest s) = (r, s')"
  shows "load_frame recs s s' \<and> (\<forall>d. r = Some d \<longrightarrow> length d = n \<and> (\<exists>x. rest = d @ x))"
proof -
  note c = read_body_close_recs [OF env rd b]
  have "s' = (alloc_rest s)\<lparr>store := store s'\<rparr>" using c by blast
  then have "load_frame recs (alloc_rest s) s'"
    using load_frame_store [of "alloc_rest s" s' "store s'"] c lk by simp
  then show ?thesis
    using c load_frame_trans [OF load_frame_alloc [OF lk]] by blast
qed

lemma record_key_split:
  assumes "length hdr = header_length" and "header_data_length hdr = n"
    and "0 < n" and "n \<le> INT_MAX" and "length d = n"
  shows "record_key a0 (hdr @ d @ x) =
    Some (snd (psa_key_attributes_deserialize (take attr_length hdr) a0), d)"
  using assms by (simp add: record_key_def)

lemma load_persistent_sound:
  assumes env: "env_ops env = ops" and lk: "lock_ok s"
    and l: "load_persistent env k a1 s = (status, a2, dd, n, s')"
  shows "load_frame recs s s' \<and>
    (status = PSA_SUCCESS \<longrightarrow>
      (\<exists>r d. dd = Some d \<and> n = length d \<and> recs (store s) (unat k) = Some r \<and> record_key a1 r = Some (a2, d)))
    \<and> (status = PSA_ERROR_INVALID_HANDLE \<longrightarrow> recs (store s) (unat k) = None)"
proof (cases "open_read_header env k s")
  case (Pair o1 s1)
  note c = open_read_header_recs [OF env Pair]
  have s1: "s1 = s\<lparr>store := store s1\<rparr>" and r1: "recs (store s1) = recs (store s)" using c by blast+
  have f1: "load_frame recs s s1" using load_frame_store [OF lk s1 r1] .
  have lk1: "lock_ok s1" using f1 by (simp add: load_frame_def)
  show ?thesis
  proof (cases o1)
    case (Inl e)
    then show ?thesis using l c f1 by (auto simp: load_persistent_def Pair)
  next
    case (Inr hh)
    obtain hdr h where hh: "hh = (hdr, h)" by fastforce
    obtain rest where rest: "recs (store s) (unat k) = Some (hdr @ rest)"
        "length hdr = header_length" "reading h rest" using c Inr hh by auto
    have cl: "load_frame recs x (close_handle env h x)" if "lock_ok x" for x
      using close_handle_recs [OF env rest(3), of x] load_frame_store [OF that, of "close_handle env h x"]
      by blast
    obtain dst a3 where ds: "psa_key_attributes_deserialize (take attr_length hdr) a1 = (dst, a3)"
      by fastforce
    then have dst: "dst = PSA_SUCCESS"
      using rest(2) by (auto simp: psa_key_attributes_deserialize_def split: if_splits)
    define m where "m = header_data_length hdr"
    obtain r s3 where b: "read_body_close env h m (alloc_rest s1) = (r, s3)" by fastforce
    note body = load_body [OF env lk1 rest(3) b]
    have fr: "load_frame recs s (close_handle env h s1)"
      "load_frame recs s (close_handle env h (alloc_rest s1))"
      "load_frame recs s s3"
      using f1 cl [OF lk1] cl [of "alloc_rest s1"] lk1 load_frame_alloc [OF lk1] body
        load_frame_trans by (simp, blast)+
    consider (len) "wolfpsa_validate_stored_key_data_length m \<noteq> PSA_SUCCESS"
      | (mem) "wolfpsa_validate_stored_key_data_length m = PSA_SUCCESS" "\<not> alloc_next s1"
      | (read) "wolfpsa_validate_stored_key_data_length m = PSA_SUCCESS" "alloc_next s1"
      by blast
    then show ?thesis
    proof cases
      case len
      then show ?thesis
        using l fr(1) by (auto simp: load_persistent_def Pair Inr hh ds dst m_def [symmetric]
            wolfpsa_validate_stored_key_data_length_def split: if_splits)
    next
      case mem
      then show ?thesis
        using l fr(2) by (auto simp: load_persistent_def Pair Inr hh ds dst m_def [symmetric] s_xmalloc_eq)
    next
      case read
      then have m: "0 < m" "m \<le> INT_MAX"
        by (auto simp: wolfpsa_validate_stored_key_data_length_def split: if_splits)
      show ?thesis
        using read l fr(3) body rest record_key_split [OF rest(2) m_def [symmetric] m] ds
        by (auto simp: load_persistent_def Pair Inr hh dst m_def [symmetric] s_xmalloc_eq b
            split: option.splits)
    qed
  qed
qed

lemma record_key_Some:
  assumes "record_key a1 r = Some (a2, d)"
  obtains hdr x where "r = hdr @ d @ x" "length hdr = header_length"
    "header_data_length hdr = length d" "0 < length d" "length d \<le> INT_MAX"
    "psa_key_attributes_deserialize (take attr_length hdr) a1 = (PSA_SUCCESS, a2)"
proof
  define n where "n = header_data_length (take header_length r)"
  have n: "length r \<ge> header_length + n" "0 < n" "n \<le> INT_MAX"
    and d: "d = take n (drop header_length r)"
    and a2: "a2 = snd (psa_key_attributes_deserialize (take attr_length r) a1)"
    using assms by (auto simp: record_key_def n_def [symmetric] Let_def split: if_splits)
  show "r = take header_length r @ d @ drop (header_length + n) r"
    unfolding d by (simp add: take_drop_split3)
  show "length (take header_length r) = header_length" using n by simp
  show "header_data_length (take header_length r) = length d"
    using n d by (simp add: n_def [symmetric])
  show "0 < length d" "length d \<le> INT_MAX" using n d by auto
  show "psa_key_attributes_deserialize (take attr_length (take header_length r)) a1 = (PSA_SUCCESS, a2)"
    using n a2 by (simp add: psa_key_attributes_deserialize_def)
qed

lemma load_persistent_healthy:
  assumes env: "env_ops env = ops" and h: "healthy (store s)" and al: "alloc_next s"
    and r: "recs (store s) (unat k) = Some r" "record_key a1 r = Some (a2, d)"
  shows "\<exists>st'. load_persistent env k a1 s =
    (PSA_SUCCESS, a2, Some d, length d, (alloc_rest s)\<lparr>store := st'\<rparr>) \<and> healthy st'"
proof -
  obtain hdr x where rk: "r = hdr @ d @ x" "length hdr = header_length"
    "header_data_length hdr = length d" "0 < length d" "length d \<le> INT_MAX"
    "psa_key_attributes_deserialize (take attr_length hdr) a1 = (PSA_SUCCESS, a2)"
    using r(2) by (rule record_key_Some)
  obtain fh st1 where o: "open_read_header env k s = (Inr (hdr, fh), s\<lparr>store := st1\<rparr>)"
      "healthy st1" "reading fh (d @ x)"
    using healthy_open_read_header [OF env h r(1) [unfolded rk(1)] rk(2)] by blast
  have ar: "alloc_rest (s\<lparr>store := st1\<rparr>) = (alloc_rest s)\<lparr>store := st1\<rparr>"
    "alloc_next (s\<lparr>store := st1\<rparr>) = alloc_next s"
    by (simp_all add: alloc_rest_def alloc_next_def)
  obtain st2 where "read_body_close env fh (length d) ((alloc_rest s)\<lparr>store := st1\<rparr>) =
      (Some d, (alloc_rest s)\<lparr>store := st2\<rparr>)" "healthy st2"
    using healthy_read_body_close [OF env _ o(3), of "(alloc_rest s)\<lparr>store := st1\<rparr>"] o(2) by auto
  then show ?thesis
    using rk o al
    by (auto simp: load_persistent_def s_xmalloc_eq ar wolfpsa_validate_stored_key_data_length_def)
qed

lemma get_key_data_sound:
  assumes env: "env_ops env = ops" and lk: "lock_ok s"
    and g: "wolfpsa_get_key_data env k a0 s = (status, a, dd, n, s')"
  shows "load_frame recs s s' \<and>
    (status = PSA_SUCCESS \<longrightarrow>
       (\<exists>d. dd = Some d \<and> n = length d \<and> ks_lookup (recs (store s)) s a0 k = Some (a, d))) \<and>
    (status = PSA_ERROR_INVALID_HANDLE \<longrightarrow> ks_lookup (recs (store s)) s a0 k = None)"
proof (cases "psa_key_storage_check_init (env_build env) s")
  case (Pair ini s1)
  note c = check_init_cases [OF lk Pair]
  have f1: "load_frame recs s s1" using c load_frame_core by blast
  show ?thesis
  proof (cases "ini = PSA_SUCCESS")
    case False
    have "ini \<noteq> PSA_ERROR_INVALID_HANDLE"
      using Pair False
      by (auto simp: psa_key_storage_check_init_def psa_key_storage_init_def split: prod.splits if_splits)
    with False show ?thesis using g f1 by (auto simp: wolfpsa_get_key_data_def Pair Let_def)
  next
    case True
    then have rdy: "ready (env_build env) s1" using c by blast
    then have lk1: "lock_ok s1" by (rule ready_lock_ok)
    have fa: "load_frame recs s (alloc_rest s1)"
      using f1 load_frame_alloc [OF lk1] load_frame_trans by blast
    have find: "wolfpsa_volatile_find s1 k = wolfpsa_volatile_find s k" by (rule load_frame_find [OF f1])
    show ?thesis
    proof (cases "wolfpsa_volatile_find s1 k")
      case (Some node)
      then show ?thesis
        using g True f1 fa find
        by (auto simp: wolfpsa_get_key_data_def Pair volatile_get_ready [OF rdy] ks_lookup_def
            Let_def split: if_splits)
    next
      case None
      then have "load_persistent env k a0 s1 = (status, a, dd, n, s')"
        using g True by (simp add: wolfpsa_get_key_data_def Pair volatile_get_ready [OF rdy] Let_def)
      note l = load_persistent_sound [OF env lk1 this]
      moreover have "recs (store s1) = recs (store s)" using f1 by (simp add: load_frame_def)
      ultimately show ?thesis
        using None find f1 load_frame_trans by (auto simp: ks_lookup_def)
    qed
  qed
qed

lemma get_key_data_healthy:
  assumes env: "env_ops env = ops" and rdy: "ready (env_build env) s"
    and ini: "g_psa_crypto_initialized s" and h: "healthy (store s)" and al: "allocs s = []"
    and ne: "\<And>n. n \<in> set (g_volatile_keys s) \<Longrightarrow> data n \<noteq> []"
    and lk: "ks_lookup (recs (store s)) s a0 k = Some (a, d)"
  shows "\<exists>st'. wolfpsa_get_key_data env k a0 s =
    (PSA_SUCCESS, a, Some d, length d, s\<lparr>g_key_storage_initialized := True, store := st'\<rparr>) \<and>
    healthy st'"
proof -
  let ?s1 = "s\<lparr>g_key_storage_initialized := True\<rparr>"
  have r1: "ready (env_build env) ?s1" using rdy by simp
  have an: "alloc_next ?s1" "alloc_rest ?s1 = ?s1"
    using al by (simp_all add: alloc_next_def alloc_rest_def)
  show ?thesis
  proof (cases "wolfpsa_volatile_find s k")
    case (Some node)
    then have "node \<in> set (g_volatile_keys s)"
      by (metis find_Some_iff nth_mem wolfpsa_volatile_find_def)
    then have "data node \<noteq> []" by (rule ne)
    then show ?thesis
      using lk Some ini h an check_init_ready [OF rdy] volatile_get_ready [OF r1, of k]
      by (auto simp: wolfpsa_get_key_data_def ks_lookup_def Let_def intro!: exI [of _ "store s"])
  next
    case None
    then obtain r where r: "recs (store ?s1) (unat k) = Some r" "record_key a0 r = Some (a, d)"
      using lk by (auto simp: ks_lookup_def split: option.splits)
    have "\<exists>st'. load_persistent env k a0 ?s1 =
        (PSA_SUCCESS, a, Some d, length d, ?s1\<lparr>store := st'\<rparr>) \<and> healthy st'"
      using load_persistent_healthy [OF env _ an(1) r] h an by simp
    then show ?thesis
      using None ini check_init_ready [OF rdy] volatile_get_ready [OF r1, of k]
      by (auto simp: wolfpsa_get_key_data_def Let_def)
  qed
qed

lemma import_finish_session:
  assumes s: "store_write_session ops st k n buf = (r, st')"
    and f: "import_finish kid (length buf) (map_sum (\<lambda>e. e) c_int r) = (status, kid')"
    and b: "length buf \<le> INT_MAX"
  shows "status = PSA_SUCCESS \<longleftrightarrow> r = Inr (length buf)"
    and "kid' = (if status = PSA_SUCCESS then kid else PSA_KEY_ID_NULL)"
proof -
  have "m \<le> INT_MAX" if "r = Inr m" for m
    using session_count [OF s [unfolded that]] b by simp
  then have c: "c_int m = int m" if "r = Inr m" for m
    using that c_int_small by blast
  show "status = PSA_SUCCESS \<longleftrightarrow> r = Inr (length buf)"
    using f c by (cases r) (auto simp: import_finish_def wolfpsa_store_open_status_def split: if_splits)
  show "kid' = (if status = PSA_SUCCESS then kid else PSA_KEY_ID_NULL)"
    using f by (cases r) (auto simp: import_finish_def wolfpsa_store_open_status_def split: if_splits)
qed

lemma import_persistent_cases:
  assumes env: "env_ops env = ops" and rdy: "ready (env_build env) s"
    and b: "buf \<noteq> []" "length buf \<le> INT_MAX"
    and i: "import_persistent env k buf n s = (status, kid, s')"
  shows "s' = s\<lparr>store := store s'\<rparr> \<and>
    (if status = PSA_SUCCESS
     then kid = k \<and> recs (store s) (unat k) = None \<and> recs (store s') = (recs (store s))(unat k \<mapsto> buf)
     else kid = PSA_KEY_ID_NULL \<and> recs (store s') = recs (store s))"
proof (cases "so_open ops (store s) WOLFPSA_STORE_KEY (unat k) 0 True 0")
  case (Pair o1 st1)
  note same1 = open_read_recs [OF Pair]
  show ?thesis
  proof (cases o1)
    case (Opened h)
    obtain bs where "reading h bs" using open_read_view [OF Pair [unfolded Opened]] by blast
    then have "recs (snd (so_close ops st1 h)) = recs st1"
      using close_read_recs [of h bs st1] by (metis prod.collapse)
    then show ?thesis
      using i env same1 by (auto simp: import_persistent_ready [OF rdy] Pair Opened)
  next
    case (OpenFail rc)
    obtain r st2 where w: "store_write_session ops st1 (unat k) n buf = (r, st2)" by fastforce
    obtain fs fk where f: "import_finish k (length buf) (map_sum (\<lambda>e. e) c_int r) = (fs, fk)"
      by fastforce
    show ?thesis
    proof (cases "rc = WOLFPSA_STORE_NOT_AVAILABLE")
      case True
      then have none: "recs (store s) (unat k) = None"
        using open_read_absent Pair OpenFail by blast
      have "status = fs" "kid = fk" "s' = s\<lparr>store := st2\<rparr>"
        using i env True by (auto simp: import_persistent_ready [OF rdy] Pair OpenFail w f)
      then show ?thesis
        using none same1 import_finish_session [OF w f b(2)] write_session_recs [OF w b(1)] by auto
    next
      case False
      then show ?thesis
        using i env same1
        by (auto simp: import_persistent_ready [OF rdy] Pair OpenFail wolfpsa_store_open_status_def
            split: if_splits)
    qed
  qed
qed

lemma import_store_cases:
  assumes env: "env_ops env = ops" and rdy: "ready (env_build env) s"
    and d: "d \<noteq> []" "header_length + length d \<le> INT_MAX"
    and i: "import_store env a d k s = (status, kid, s')"
  shows "ready (env_build env) s' \<and> g_next_key_id s' = g_next_key_id s \<and>
    g_psa_crypto_initialized s' = g_psa_crypto_initialized s \<and>
    (if status = PSA_SUCCESS then kid = k \<and> import_effect recs a d k s s'
     else no_effect recs s s' \<and>
       (kid = PSA_KEY_ID_NULL \<or> kid = k \<and> status = PSA_ERROR_INSUFFICIENT_MEMORY))"
proof (cases "alloc_next s")
  case False
  then show ?thesis
    using i rdy by (auto simp: import_store_ready [OF rdy] no_effect_def)
next
  case True
  have r1: "ready (env_build env) (alloc_rest s)" using rdy by simp
  show ?thesis
  proof (cases "PSA_KEY_LIFETIME_IS_VOLATILE (lifetime a)")
    case vol: True
    have "import_finish k (length (key_record a d)) (Inr (c_int (length (key_record a d)))) =
        (PSA_SUCCESS, k)"
      using d c_int_small [of "length (key_record a d)"] by (simp add: import_finish_def)
    then show ?thesis
      using i vol True rdy d
      by (auto simp: import_store_ready [OF rdy] volatile_store_ready [OF r1] import_effect_def
          no_effect_def split: if_splits)
  next
    case False
    then have p: "import_persistent env k (key_record a d) (length d) (alloc_rest s) = (status, kid, s')"
      using i True by (simp add: import_store_ready [OF rdy])
    have len: "key_record a d \<noteq> []" "length (key_record a d) \<le> INT_MAX"
      using d by (auto simp: key_record_def)
    note c = import_persistent_cases [OF env r1 len p]
    then have e: "s' = (alloc_rest s)\<lparr>store := store s'\<rparr>" by blast
    have fr: "ready (env_build env) s'" "g_next_key_id s' = g_next_key_id s"
      "g_psa_crypto_initialized s' = g_psa_crypto_initialized s" "g_volatile_keys s' = g_volatile_keys s"
      using store_only [OF e, of "env_build env"] r1 by simp_all
    then show ?thesis
      using c False by (auto simp: import_effect_def no_effect_def split: if_splits)
  qed
qed

lemma import_key_cases:
  assumes env: "env_ops env = ops" and lk: "lock_ok s"
    and len: "header_length + in_length din \<le> INT_MAX"
    and i: "psa_import_key env aa din idn s = (status, kid, s')"
  shows "lock_ok s' \<and> g_psa_crypto_initialized s' = g_psa_crypto_initialized s \<and>
    (g_next_key_id s' = g_next_key_id s \<or>
     PSA_KEY_ID_VENDOR_MIN \<le> g_next_key_id s \<and> g_next_key_id s \<le> PSA_KEY_ID_VENDOR_MAX \<and>
     g_next_key_id s' = g_next_key_id s + 1) \<and>
    (if status = PSA_SUCCESS
     then (\<exists>a. import_validate env aa din idn = Inr a \<and> import_effect recs a (in_bytes din) kid s s' \<and>
            (if \<not> PSA_KEY_LIFETIME_IS_VOLATILE (lifetime a) \<and> id a \<noteq> PSA_KEY_ID_NULL then kid = id a
             else kid = g_next_key_id s \<and> g_next_key_id s' = g_next_key_id s + 1 \<and>
               PSA_KEY_ID_VENDOR_MIN \<le> kid \<and> kid \<le> PSA_KEY_ID_VENDOR_MAX))
     else no_effect recs s s' \<and> (kid = PSA_KEY_ID_NULL \<or> status = PSA_ERROR_INSUFFICIENT_MEMORY))"
proof (cases "import_validate env aa din idn")
  case (Inl e)
  then have "e \<noteq> PSA_SUCCESS" by (rule validate_Inl)
  with Inl show ?thesis using i lk by (auto simp: psa_import_key_def no_effect_def)
next
  case (Inr a)
  have ne: "in_bytes din \<noteq> []" "header_length + length (in_bytes din) \<le> INT_MAX"
    using Inr len by (auto elim!: validate_Inr) (cases din; simp)+
  obtain ini s1 where c: "psa_key_storage_check_init (env_build env) s = (ini, s1)" by fastforce
  note ci = check_init_cases [OF lk c]
  show ?thesis
  proof (cases "ini = PSA_SUCCESS")
    case False
    then show ?thesis
      using i Inr c ci by (auto simp: psa_import_key_def no_effect_def core_same_def)
  next
    case True
    then have rdy: "ready (env_build env) s1" and cs: "core_same s s1" using ci by auto
    show ?thesis
    proof (cases "import_assign_id (env_build env) a s1")
      case (Pair r s2)
      show ?thesis
      proof (cases r)
        case (Inl e)
        then show ?thesis
          using i Inr c True Pair cs ready_lock_ok [OF rdy]
          by (auto simp: psa_import_key_def assign_id_ready [OF rdy] no_effect_def core_same_def
              split: if_splits)
      next
        case r: (Inr k)
        then have st: "import_store env a (in_bytes din) k s2 = (status, kid, s')"
          using i Inr c True Pair by (simp add: psa_import_key_def)
        have s2: "ready (env_build env) s2" "g_volatile_keys s2 = g_volatile_keys s"
            "store s2 = store s" "g_psa_crypto_initialized s2 = g_psa_crypto_initialized s"
          using Pair r rdy cs by (auto simp: assign_id_ready [OF rdy] core_same_def split: if_splits)
        have k: "if \<not> PSA_KEY_LIFETIME_IS_VOLATILE (lifetime a) \<and> id a \<noteq> PSA_KEY_ID_NULL
            then k = id a \<and> g_next_key_id s2 = g_next_key_id s
            else k = g_next_key_id s \<and> g_next_key_id s2 = g_next_key_id s + 1 \<and>
               PSA_KEY_ID_VENDOR_MIN \<le> k \<and> k \<le> PSA_KEY_ID_VENDOR_MAX"
          using Pair r cs by (auto simp: assign_id_ready [OF rdy] core_same_def split: if_splits)
        have eff: "import_effect recs a d x s2 s' = import_effect recs a d x s s'"
            "no_effect recs s2 s' = no_effect recs s s'" for d x
          using s2 by (simp_all add: import_effect_def no_effect_def wolfpsa_volatile_find_def)
        show ?thesis
          using import_store_cases [OF env s2(1) ne st] Inr k s2(4) ready_lock_ok eff
          by (auto split: if_splits)
      qed
    qed
  qed
qed

end

end
