(* ===== verification/Key_Policy.thy ===== *)
theory Key_Policy
  imports Psa_Values
begin

text \<open>
  The permitted-algorithm policies of \<open>src/psa_key_storage.c\<close>: the intersection that
  \<open>psa_copy_key\<close> computes and the test that \<open>psa_check_key_usage\<close> applies. The meaning of a
  policy is a set of concrete algorithms, \<open>alg_admits\<close>; the lemmas show that
  \<open>wolfpsa_alg_intersect\<close> computes the intersection of these sets, no more and no less.
\<close>

unbundle bit_operations_syntax

section \<open>Operations\<close>

definition wolfpsa_tag_len_permitted :: "nat \<Rightarrow> nat \<Rightarrow> bool" where
  "wolfpsa_tag_len_permitted concrete_len min_len =
    (if min_len = 0 then concrete_len = 0 else concrete_len = 0 \<or> concrete_len \<ge> min_len)"

definition wolfpsa_tag_len_restrict :: "nat \<Rightarrow> nat \<Rightarrow> nat" where
  "wolfpsa_tag_len_restrict len_a len_b =
    (if len_a = 0 \<or> len_b = 0 then 0 else if len_a > len_b then len_a else len_b)"

text \<open>The branch for two signature algorithms that differ at most in the hash field.\<close>

definition intersect_sign :: "psa_algorithm_t \<Rightarrow> psa_algorithm_t \<Rightarrow> bool \<times> psa_algorithm_t" where
  "intersect_sign src_alg dst_alg =
    (let src_hash = PSA_ALG_GET_HASH src_alg; dst_hash = PSA_ALG_GET_HASH dst_alg in
     if (src_hash = PSA_ALG_ANY_HASH) \<noteq> (dst_hash = PSA_ALG_ANY_HASH) then
       (let concrete_hash = (if src_hash = PSA_ALG_ANY_HASH then dst_hash else src_hash);
            ok = (if concrete_hash \<noteq> PSA_ALG_NONE then True
                  else src_alg AND NOT PSA_ALG_HASH_MASK = PSA_ALG_RSA_PKCS1V15_SIGN_BASE)
        in (ok, if ok then (if src_hash = PSA_ALG_ANY_HASH then dst_alg else src_alg)
                else PSA_ALG_NONE))
     else (False, PSA_ALG_NONE))"

text \<open>
  The last two branches, for MAC and for AEAD algorithms, have the same shape: \<open>at_least n\<close> is
  the wildcard of the source's family with minimum length \<open>n\<close>.
\<close>

definition intersect_lengths ::
    "psa_algorithm_t \<Rightarrow> psa_algorithm_t \<Rightarrow> (psa_algorithm_t \<Rightarrow> nat) \<Rightarrow> psa_algorithm_t \<Rightarrow>
     (nat \<Rightarrow> psa_algorithm_t) \<Rightarrow> bool \<times> psa_algorithm_t" where
  "intersect_lengths src_alg dst_alg len_field flag at_least =
    (let src_len = len_field src_alg; dst_len = len_field dst_alg;
         src_wild = (src_alg AND flag \<noteq> 0); dst_wild = (dst_alg AND flag \<noteq> 0) in
     if src_wild \<and> dst_wild then (True, at_least (wolfpsa_tag_len_restrict src_len dst_len))
     else if src_wild then
       (let ok = wolfpsa_tag_len_permitted dst_len src_len
        in (ok, if ok then dst_alg else PSA_ALG_NONE))
     else if dst_wild then
       (let ok = wolfpsa_tag_len_permitted src_len dst_len
        in (ok, if ok then src_alg else PSA_ALG_NONE))
     else (False, PSA_ALG_NONE))"

definition wolfpsa_alg_intersect ::
    "psa_algorithm_t \<Rightarrow> psa_algorithm_t \<Rightarrow> bool \<times> psa_algorithm_t" where
  "wolfpsa_alg_intersect src_alg dst_alg =
    (if src_alg = dst_alg then (True, src_alg)
     else if src_alg AND NOT PSA_ALG_HASH_MASK = dst_alg AND NOT PSA_ALG_HASH_MASK \<and>
             PSA_ALG_IS_SIGN_HASH src_alg \<and> PSA_ALG_IS_SIGN_HASH dst_alg
       then intersect_sign src_alg dst_alg
     else if PSA_ALG_IS_MAC src_alg \<and> PSA_ALG_IS_MAC dst_alg \<and>
             PSA_ALG_FULL_LENGTH_MAC src_alg = PSA_ALG_FULL_LENGTH_MAC dst_alg
       then intersect_lengths src_alg dst_alg PSA_MAC_TRUNCATED_LENGTH
              PSA_ALG_MAC_AT_LEAST_THIS_LENGTH_FLAG (PSA_ALG_AT_LEAST_THIS_LENGTH_MAC src_alg)
     else if PSA_ALG_IS_AEAD src_alg \<and> PSA_ALG_IS_AEAD dst_alg \<and>
             PSA_ALG_AEAD_WITH_SHORTENED_TAG src_alg 0 = PSA_ALG_AEAD_WITH_SHORTENED_TAG dst_alg 0
       then intersect_lengths src_alg dst_alg PSA_ALG_AEAD_GET_TAG_LENGTH
              PSA_ALG_AEAD_AT_LEAST_THIS_LENGTH_FLAG
              (PSA_ALG_AEAD_WITH_AT_LEAST_THIS_LENGTH_TAG src_alg)
     else (False, PSA_ALG_NONE))"

definition wolfpsa_alg2_intersect ::
    "psa_algorithm_t \<Rightarrow> psa_algorithm_t \<Rightarrow> bool \<times> psa_algorithm_t" where
  "wolfpsa_alg2_intersect src_alg dst_alg =
    (if src_alg = PSA_ALG_NONE \<or> dst_alg = PSA_ALG_NONE then (True, PSA_ALG_NONE)
     else wolfpsa_alg_intersect src_alg dst_alg)"

definition wolfpsa_policy_alg_permits :: "psa_algorithm_t \<Rightarrow> psa_algorithm_t \<Rightarrow> bool" where
  "wolfpsa_policy_alg_permits key_alg a =
    (if key_alg = PSA_ALG_NONE then False
     else if key_alg = a then True
     else PSA_ALG_IS_SIGN_HASH a \<and>
          PSA_ALG_SIGN_GET_HASH key_alg = PSA_ALG_ANY_HASH \<and>
          PSA_ALG_SIGN_GET_HASH a \<noteq> PSA_ALG_ANY_HASH \<and>
          key_alg AND NOT PSA_ALG_HASH_MASK = a AND NOT PSA_ALG_HASH_MASK)"

definition wolfpsa_key_permits_alg :: "psa_key_attributes_t \<Rightarrow> psa_algorithm_t \<Rightarrow> bool" where
  "wolfpsa_key_permits_alg attributes a \<longleftrightarrow>
    wolfpsa_policy_alg_permits (psa_get_key_algorithm attributes) a \<or>
    wolfpsa_policy_alg_permits (psa_get_key_enrollment_algorithm attributes) a"

section \<open>The meaning of a policy\<close>

text \<open>
  A wildcard stands for a family of concrete algorithms: \<open>PSA_ALG_ANY_HASH\<close> in a signature
  scheme, or a minimum MAC or tag length. Every other value stands for itself.
\<close>

definition sign_wild :: "psa_algorithm_t \<Rightarrow> bool" where
  "sign_wild p \<longleftrightarrow> PSA_ALG_IS_SIGN_HASH p \<and> PSA_ALG_GET_HASH p = PSA_ALG_ANY_HASH"

definition mac_wild :: "psa_algorithm_t \<Rightarrow> bool" where
  "mac_wild p \<longleftrightarrow> PSA_ALG_IS_MAC p \<and> p AND PSA_ALG_MAC_AT_LEAST_THIS_LENGTH_FLAG \<noteq> 0"

definition aead_wild :: "psa_algorithm_t \<Rightarrow> bool" where
  "aead_wild p \<longleftrightarrow> PSA_ALG_IS_AEAD p \<and> p AND PSA_ALG_AEAD_AT_LEAST_THIS_LENGTH_FLAG \<noteq> 0"

definition sign_member :: "psa_algorithm_t \<Rightarrow> psa_algorithm_t \<Rightarrow> bool" where
  "sign_member p a \<longleftrightarrow>
    sign_wild p \<and> PSA_ALG_IS_SIGN_HASH a \<and> \<not> sign_wild a \<and>
    a AND NOT PSA_ALG_HASH_MASK = p AND NOT PSA_ALG_HASH_MASK \<and>
    (PSA_ALG_GET_HASH a = PSA_ALG_NONE \<longrightarrow>
       p AND NOT PSA_ALG_HASH_MASK = PSA_ALG_RSA_PKCS1V15_SIGN_BASE)"

definition mac_member :: "psa_algorithm_t \<Rightarrow> psa_algorithm_t \<Rightarrow> bool" where
  "mac_member p a \<longleftrightarrow>
    mac_wild p \<and> PSA_ALG_IS_MAC a \<and> \<not> mac_wild a \<and>
    PSA_ALG_FULL_LENGTH_MAC a = PSA_ALG_FULL_LENGTH_MAC p \<and>
    wolfpsa_tag_len_permitted (PSA_MAC_TRUNCATED_LENGTH a) (PSA_MAC_TRUNCATED_LENGTH p)"

definition aead_member :: "psa_algorithm_t \<Rightarrow> psa_algorithm_t \<Rightarrow> bool" where
  "aead_member p a \<longleftrightarrow>
    aead_wild p \<and> PSA_ALG_IS_AEAD a \<and> \<not> aead_wild a \<and>
    PSA_ALG_AEAD_WITH_SHORTENED_TAG a 0 = PSA_ALG_AEAD_WITH_SHORTENED_TAG p 0 \<and>
    wolfpsa_tag_len_permitted (PSA_ALG_AEAD_GET_TAG_LENGTH a) (PSA_ALG_AEAD_GET_TAG_LENGTH p)"

definition alg_admits :: "psa_algorithm_t \<Rightarrow> psa_algorithm_t \<Rightarrow> bool" where
  "alg_admits p a \<longleftrightarrow>
    (if sign_wild p then sign_member p a
     else if mac_wild p then mac_member p a
     else if aead_wild p then aead_member p a
     else a = p)"

section \<open>Lengths\<close>

lemma tag_len_restrict_permitted:
  "wolfpsa_tag_len_permitted n (wolfpsa_tag_len_restrict a b) \<longleftrightarrow>
   wolfpsa_tag_len_permitted n a \<and> wolfpsa_tag_len_permitted n b"
  by (auto simp: wolfpsa_tag_len_permitted_def wolfpsa_tag_len_restrict_def)

lemma tag_len_restrict_commute:
  "wolfpsa_tag_len_restrict a b = wolfpsa_tag_len_restrict b a"
  by (auto simp: wolfpsa_tag_len_restrict_def)

lemma tag_len_restrict_less:
  "a < n \<Longrightarrow> b < n \<Longrightarrow> wolfpsa_tag_len_restrict a b < n"
  by (auto simp: wolfpsa_tag_len_restrict_def)

section \<open>Fields of an algorithm value\<close>

text \<open>MAC and AEAD algorithms keep the length and the wildcard flag in the same bits.\<close>

lemma aead_fields_as_mac:
  "PSA_ALG_AEAD_WITH_SHORTENED_TAG a 0 = PSA_ALG_FULL_LENGTH_MAC a"
  "PSA_ALG_AEAD_GET_TAG_LENGTH a = PSA_MAC_TRUNCATED_LENGTH a"
  "PSA_ALG_AEAD_WITH_AT_LEAST_THIS_LENGTH_TAG a n = PSA_ALG_AT_LEAST_THIS_LENGTH_MAC a n"
  by (simp_all add: psa_defs)

lemma or_and_distrib_word: "(x OR y) AND z = (x AND z) OR (y AND z)"
  for x y z :: "'a::len word"
  by (rule bit.conj_disj_distrib2)

lemma at_least_category:
  "PSA_ALG_AT_LEAST_THIS_LENGTH_MAC a n AND PSA_ALG_CATEGORY_MASK = a AND PSA_ALG_CATEGORY_MASK"
  by (simp add: psa_defs or_and_distrib_word and.assoc)

lemma at_least_flag:
  "PSA_ALG_AT_LEAST_THIS_LENGTH_MAC a n AND PSA_ALG_MAC_AT_LEAST_THIS_LENGTH_FLAG \<noteq> 0"
  by (simp add: psa_defs or_and_distrib_word and.assoc)

lemma at_least_full_length:
  "PSA_ALG_FULL_LENGTH_MAC (PSA_ALG_AT_LEAST_THIS_LENGTH_MAC a n) = PSA_ALG_FULL_LENGTH_MAC a"
  by (simp add: psa_defs or_and_distrib_word and.assoc)

lemma truncated_length_less: "PSA_MAC_TRUNCATED_LENGTH a < 64"
proof -
  have "drop_bit 16 (a AND 0x3f0000) = drop_bit 16 a AND (0x3f :: u32)"
    by simp
  moreover have "unat (drop_bit 16 a AND (0x3f :: u32)) \<le> unat (0x3f :: u32)"
    by (rule unat_and_le)
  ultimately show ?thesis
    by (simp add: psa_defs)
qed

lemma at_least_length:
  assumes "n < 64"
  shows "PSA_MAC_TRUNCATED_LENGTH (PSA_ALG_AT_LEAST_THIS_LENGTH_MAC a n) = n"
proof -
  have "PSA_MAC_TRUNCATED_LENGTH (PSA_ALG_AT_LEAST_THIS_LENGTH_MAC a n) =
      unat (drop_bit 16 (push_bit 16 (word_of_nat n :: u32) AND 0x3f0000))"
    by (simp add: psa_defs or_and_distrib_word and.assoc)
  also have "(0x3f0000 :: u32) = push_bit 16 (mask 6)"
    by (simp add: mask_numeral)
  also have "drop_bit 16 (push_bit 16 (word_of_nat n :: u32) AND push_bit 16 (mask 6)) =
      take_bit 6 (word_of_nat n)"
    by (rule bit_word_eqI) (auto simp: bit_simps)
  also have "unat \<dots> = n"
    using assms by (simp add: unsigned_take_bit_eq unat_of_nat take_bit_nat_eq_self)
  finally show ?thesis .
qed


lemmas at_least_fields =
  at_least_category at_least_flag at_least_full_length at_least_length [OF tag_len_restrict_less]
  truncated_length_less

lemma get_hash_any: "PSA_ALG_GET_HASH a = PSA_ALG_ANY_HASH \<longleftrightarrow> a AND PSA_ALG_HASH_MASK = 0xff"
proof -
  have "0x02000000 OR (a AND 0xff) = (0x020000ff :: u32) \<longleftrightarrow> a AND 0xff = 0xff"
  proof
    assume "0x02000000 OR (a AND 0xff) = (0x020000ff :: u32)"
    then have "(0x02000000 OR (a AND 0xff)) AND 0xff = (0x020000ff AND 0xff :: u32)" by simp
    then show "a AND 0xff = 0xff" by (simp add: or_and_distrib_word and.assoc)
  qed simp
  then show ?thesis by (simp add: psa_defs)
qed

lemma split_hash_field: "a = (a AND NOT PSA_ALG_HASH_MASK) OR (a AND PSA_ALG_HASH_MASK)"
  for a :: psa_algorithm_t
  by (metis bit.conj_disj_distrib bit.disj_cancel_left bit.conj_one_right)

lemma same_base_any_hash:
  assumes "a AND NOT PSA_ALG_HASH_MASK = b AND NOT PSA_ALG_HASH_MASK"
    and "PSA_ALG_GET_HASH a = PSA_ALG_ANY_HASH" and "PSA_ALG_GET_HASH b = PSA_ALG_ANY_HASH"
  shows "a = b"
  using assms split_hash_field [of a] split_hash_field [of b] by (simp only: get_hash_any)

text \<open>No value is a wildcard of two kinds.\<close>

lemma category_exclusive:
  "PSA_ALG_IS_SIGN_HASH a \<Longrightarrow> \<not> PSA_ALG_IS_MAC a"
  "PSA_ALG_IS_SIGN_HASH a \<Longrightarrow> \<not> PSA_ALG_IS_AEAD a"
  "PSA_ALG_IS_MAC a \<Longrightarrow> \<not> PSA_ALG_IS_AEAD a"
  by (simp_all add: psa_defs)

section \<open>Intersections\<close>

lemma intersect_sign_admits:
  assumes base: "s AND NOT PSA_ALG_HASH_MASK = d AND NOT PSA_ALG_HASH_MASK"
    and "PSA_ALG_IS_SIGN_HASH s" and "PSA_ALG_IS_SIGN_HASH d" and "s \<noteq> d"
  shows "if fst (intersect_sign s d)
         then alg_admits (snd (intersect_sign s d)) a \<longleftrightarrow> alg_admits s a \<and> alg_admits d a
         else \<not> (alg_admits s a \<and> alg_admits d a)"
  using assms same_base_any_hash [OF base] category_exclusive [of s] category_exclusive [of d]
  by (auto simp: intersect_sign_def alg_admits_def sign_member_def sign_wild_def mac_wild_def
      aead_wild_def Let_def)

text \<open>
  MAC and AEAD wildcards share one contract: a family test, a base that forgets length and
  flag, a length field of six bits and a constructor of the wildcard with a given minimum.
\<close>

definition length_admits ::
    "(psa_algorithm_t \<Rightarrow> bool) \<Rightarrow> (psa_algorithm_t \<Rightarrow> psa_algorithm_t) \<Rightarrow> (psa_algorithm_t \<Rightarrow> nat) \<Rightarrow>
     psa_algorithm_t \<Rightarrow> psa_algorithm_t \<Rightarrow> psa_algorithm_t \<Rightarrow> bool" where
  "length_admits fam base len flag p a \<longleftrightarrow>
    (if p AND flag \<noteq> 0
     then fam a \<and> a AND flag = 0 \<and> base a = base p \<and> wolfpsa_tag_len_permitted (len a) (len p)
     else a = p)"

locale length_family =
  fixes fam :: "psa_algorithm_t \<Rightarrow> bool"
    and base :: "psa_algorithm_t \<Rightarrow> psa_algorithm_t"
    and len :: "psa_algorithm_t \<Rightarrow> nat"
    and flag :: psa_algorithm_t
    and at_least :: "psa_algorithm_t \<Rightarrow> nat \<Rightarrow> psa_algorithm_t"
  assumes fam_at_least: "fam (at_least a n) = fam a"
    and base_at_least: "base (at_least a n) = base a"
    and flag_at_least: "at_least a n AND flag \<noteq> 0"
    and len_at_least: "n < 64 \<Longrightarrow> len (at_least a n) = n"
    and len_less: "len a < 64"
    and at_least_cong: "base a = base b \<Longrightarrow> at_least a n = at_least b n"
begin

lemma len_restrict: "len (at_least a (wolfpsa_tag_len_restrict (len b) (len c))) =
    wolfpsa_tag_len_restrict (len b) (len c)"
  by (simp add: len_at_least len_less tag_len_restrict_less)

lemma intersect_lengths_admits:
  assumes "fam s" and "fam d" and "base s = base d" and "s \<noteq> d"
  shows "if fst (intersect_lengths s d len flag (at_least s))
         then length_admits fam base len flag (snd (intersect_lengths s d len flag (at_least s))) a
           \<longleftrightarrow> length_admits fam base len flag s a \<and> length_admits fam base len flag d a
         else \<not> (length_admits fam base len flag s a \<and> length_admits fam base len flag d a)"
  using assms
  by (auto simp: intersect_lengths_def length_admits_def Let_def flag_at_least base_at_least
      len_restrict tag_len_restrict_permitted)

lemma intersect_lengths_fam:
  assumes "fam s" and "fam d" and "fst (intersect_lengths s d len flag (at_least s))"
  shows "fam (snd (intersect_lengths s d len flag (at_least s)))"
  using assms by (auto simp: intersect_lengths_def Let_def fam_at_least split: if_splits)

lemma intersect_lengths_commute:
  assumes "base s = base d"
  shows "intersect_lengths s d len flag (at_least s) = intersect_lengths d s len flag (at_least d)"
  using at_least_cong [OF assms]
  by (simp add: intersect_lengths_def Let_def tag_len_restrict_commute)

end

lemma at_least_cong_mac:
  "PSA_ALG_FULL_LENGTH_MAC a = PSA_ALG_FULL_LENGTH_MAC b \<Longrightarrow>
   PSA_ALG_AT_LEAST_THIS_LENGTH_MAC a n = PSA_ALG_AT_LEAST_THIS_LENGTH_MAC b n"
  by (simp add: psa_defs)

interpretation mac_lengths: length_family PSA_ALG_IS_MAC PSA_ALG_FULL_LENGTH_MAC
    PSA_MAC_TRUNCATED_LENGTH PSA_ALG_MAC_AT_LEAST_THIS_LENGTH_FLAG PSA_ALG_AT_LEAST_THIS_LENGTH_MAC
  by unfold_locales
    (simp_all add: PSA_ALG_IS_MAC_def at_least_category at_least_flag at_least_full_length
      at_least_length truncated_length_less, rule at_least_cong_mac)

interpretation aead_lengths: length_family PSA_ALG_IS_AEAD
    "\<lambda>a. PSA_ALG_AEAD_WITH_SHORTENED_TAG a 0" PSA_ALG_AEAD_GET_TAG_LENGTH
    PSA_ALG_AEAD_AT_LEAST_THIS_LENGTH_FLAG PSA_ALG_AEAD_WITH_AT_LEAST_THIS_LENGTH_TAG
  by unfold_locales
    (simp_all add: aead_fields_as_mac PSA_ALG_IS_AEAD_def at_least_category at_least_flag
      at_least_full_length at_least_length truncated_length_less, rule at_least_cong_mac)

lemma alg_admits_mac:
  "PSA_ALG_IS_MAC p \<Longrightarrow>
   alg_admits p a \<longleftrightarrow>
   length_admits PSA_ALG_IS_MAC PSA_ALG_FULL_LENGTH_MAC PSA_MAC_TRUNCATED_LENGTH
     PSA_ALG_MAC_AT_LEAST_THIS_LENGTH_FLAG p a"
  using category_exclusive [of p]
  by (auto simp: alg_admits_def length_admits_def mac_member_def mac_wild_def sign_wild_def
      aead_wild_def)

lemma alg_admits_aead:
  "PSA_ALG_IS_AEAD p \<Longrightarrow>
   alg_admits p a \<longleftrightarrow>
   length_admits PSA_ALG_IS_AEAD (\<lambda>a. PSA_ALG_AEAD_WITH_SHORTENED_TAG a 0)
     PSA_ALG_AEAD_GET_TAG_LENGTH PSA_ALG_AEAD_AT_LEAST_THIS_LENGTH_FLAG p a"
  using category_exclusive [of p]
  by (auto simp: alg_admits_def length_admits_def aead_member_def mac_wild_def sign_wild_def
      aead_wild_def)

lemma disjoint_otherwise:
  assumes "s \<noteq> d"
    and "\<not> (s AND NOT PSA_ALG_HASH_MASK = d AND NOT PSA_ALG_HASH_MASK \<and>
             PSA_ALG_IS_SIGN_HASH s \<and> PSA_ALG_IS_SIGN_HASH d)"
    and "\<not> (PSA_ALG_IS_MAC s \<and> PSA_ALG_IS_MAC d \<and>
             PSA_ALG_FULL_LENGTH_MAC s = PSA_ALG_FULL_LENGTH_MAC d)"
    and "\<not> (PSA_ALG_IS_AEAD s \<and> PSA_ALG_IS_AEAD d \<and>
             PSA_ALG_AEAD_WITH_SHORTENED_TAG s 0 = PSA_ALG_AEAD_WITH_SHORTENED_TAG d 0)"
  shows "\<not> (alg_admits s a \<and> alg_admits d a)"
proof
  assume both: "alg_admits s a \<and> alg_admits d a"
  have k: "\<And>p. alg_admits p a \<Longrightarrow> a = p \<or>
      PSA_ALG_IS_SIGN_HASH p \<and> PSA_ALG_IS_SIGN_HASH a \<and> \<not> sign_wild a \<and>
        a AND NOT PSA_ALG_HASH_MASK = p AND NOT PSA_ALG_HASH_MASK \<or>
      PSA_ALG_IS_MAC p \<and> PSA_ALG_IS_MAC a \<and>
        PSA_ALG_FULL_LENGTH_MAC a = PSA_ALG_FULL_LENGTH_MAC p \<or>
      PSA_ALG_IS_AEAD p \<and> PSA_ALG_IS_AEAD a \<and>
        PSA_ALG_AEAD_WITH_SHORTENED_TAG a 0 = PSA_ALG_AEAD_WITH_SHORTENED_TAG p 0"
    by (auto simp: alg_admits_def sign_member_def mac_member_def aead_member_def sign_wild_def
        mac_wild_def aead_wild_def split: if_splits)
  show False
    using k [of s] k [of d] both assms category_exclusive [of a] by metis
qed

lemma intersect_mac_admits:
  assumes "PSA_ALG_IS_MAC s" and "PSA_ALG_IS_MAC d"
    and "PSA_ALG_FULL_LENGTH_MAC s = PSA_ALG_FULL_LENGTH_MAC d" and "s \<noteq> d"
    and "i = intersect_lengths s d PSA_MAC_TRUNCATED_LENGTH
           PSA_ALG_MAC_AT_LEAST_THIS_LENGTH_FLAG (PSA_ALG_AT_LEAST_THIS_LENGTH_MAC s)"
  shows "if fst i then alg_admits (snd i) a \<longleftrightarrow> alg_admits s a \<and> alg_admits d a
         else \<not> (alg_admits s a \<and> alg_admits d a)"
  using mac_lengths.intersect_lengths_admits [OF assms(1-4), of a]
    mac_lengths.intersect_lengths_fam [OF assms(1,2)] assms
  by (simp add: alg_admits_mac)

lemma intersect_aead_admits:
  assumes "PSA_ALG_IS_AEAD s" and "PSA_ALG_IS_AEAD d"
    and "PSA_ALG_AEAD_WITH_SHORTENED_TAG s 0 = PSA_ALG_AEAD_WITH_SHORTENED_TAG d 0" and "s \<noteq> d"
    and "i = intersect_lengths s d PSA_ALG_AEAD_GET_TAG_LENGTH
           PSA_ALG_AEAD_AT_LEAST_THIS_LENGTH_FLAG (PSA_ALG_AEAD_WITH_AT_LEAST_THIS_LENGTH_TAG s)"
  shows "if fst i then alg_admits (snd i) a \<longleftrightarrow> alg_admits s a \<and> alg_admits d a
         else \<not> (alg_admits s a \<and> alg_admits d a)"
  using aead_lengths.intersect_lengths_admits [OF assms(1-4), of a]
    aead_lengths.intersect_lengths_fam [OF assms(1,2)] assms
  by (simp add: alg_admits_aead)

lemma alg_intersect_admits:
  "if fst (wolfpsa_alg_intersect s d)
   then alg_admits (snd (wolfpsa_alg_intersect s d)) a \<longleftrightarrow> alg_admits s a \<and> alg_admits d a
   else \<not> (alg_admits s a \<and> alg_admits d a)"
proof -
  consider (eq) "s = d"
    | (sign) "s \<noteq> d" "s AND NOT PSA_ALG_HASH_MASK = d AND NOT PSA_ALG_HASH_MASK"
        "PSA_ALG_IS_SIGN_HASH s" "PSA_ALG_IS_SIGN_HASH d"
    | (mac) "s \<noteq> d" "PSA_ALG_IS_MAC s" "PSA_ALG_IS_MAC d"
        "PSA_ALG_FULL_LENGTH_MAC s = PSA_ALG_FULL_LENGTH_MAC d"
    | (aead) "s \<noteq> d" "PSA_ALG_IS_AEAD s" "PSA_ALG_IS_AEAD d"
        "PSA_ALG_AEAD_WITH_SHORTENED_TAG s 0 = PSA_ALG_AEAD_WITH_SHORTENED_TAG d 0"
    | (none) "s \<noteq> d"
        "\<not> (s AND NOT PSA_ALG_HASH_MASK = d AND NOT PSA_ALG_HASH_MASK \<and>
            PSA_ALG_IS_SIGN_HASH s \<and> PSA_ALG_IS_SIGN_HASH d)"
        "\<not> (PSA_ALG_IS_MAC s \<and> PSA_ALG_IS_MAC d \<and>
            PSA_ALG_FULL_LENGTH_MAC s = PSA_ALG_FULL_LENGTH_MAC d)"
        "\<not> (PSA_ALG_IS_AEAD s \<and> PSA_ALG_IS_AEAD d \<and>
            PSA_ALG_AEAD_WITH_SHORTENED_TAG s 0 = PSA_ALG_AEAD_WITH_SHORTENED_TAG d 0)"
    by fast
  then show ?thesis
  proof cases
    case eq
    then show ?thesis by (simp add: wolfpsa_alg_intersect_def)
  next
    case sign
    then show ?thesis
      using intersect_sign_admits [of s d a] by (simp add: wolfpsa_alg_intersect_def)
  next
    case mac
    then show ?thesis
      using intersect_mac_admits [of s d, OF _ _ _ _ refl, of a] category_exclusive(1) [of s]
      by (auto simp: wolfpsa_alg_intersect_def)
  next
    case aead
    then show ?thesis
      using intersect_aead_admits [of s d, OF _ _ _ _ refl, of a] category_exclusive(2,3) [of s]
      by (auto simp: wolfpsa_alg_intersect_def)
  next
    case none
    then have "wolfpsa_alg_intersect s d = (False, PSA_ALG_NONE)"
      unfolding wolfpsa_alg_intersect_def by (simp only: if_False)
    with disjoint_otherwise [OF none, of a] show ?thesis by simp
  qed
qed

lemma intersect_sign_fail_none:
  "\<not> fst (intersect_sign s d) \<Longrightarrow> snd (intersect_sign s d) = PSA_ALG_NONE"
  by (auto simp: intersect_sign_def Let_def)

lemma intersect_lengths_fail_none:
  "\<not> fst (intersect_lengths s d l f g) \<Longrightarrow> snd (intersect_lengths s d l f g) = PSA_ALG_NONE"
  by (auto simp: intersect_lengths_def Let_def)

lemma alg_intersect_fail_none:
  "\<not> fst (wolfpsa_alg_intersect s d) \<Longrightarrow> snd (wolfpsa_alg_intersect s d) = PSA_ALG_NONE"
proof -
  define P where "P = (\<lambda>i. \<not> fst i \<longrightarrow> snd i = PSA_ALG_NONE)"
  have "P (True, s)" and "P (False, PSA_ALG_NONE)" and "P (intersect_sign s d)"
    and "\<And>l f g. P (intersect_lengths s d l f g)"
    using intersect_sign_fail_none intersect_lengths_fail_none by (simp_all add: P_def)
  then have "P (wolfpsa_alg_intersect s d)"
    unfolding wolfpsa_alg_intersect_def by (simp only: if_cancel split: if_split) simp
  then show "\<not> fst (wolfpsa_alg_intersect s d) \<Longrightarrow> ?thesis" by (simp add: P_def)
qed

text \<open>
  C25: The algorithm of a copy is exactly the intersection of the two policies. When
  \<open>wolfpsa_alg_intersect\<close> accepts, its result admits an algorithm just when both policies admit
  it, so a copy neither gains nor loses an algorithm; when it refuses, the result is
  \<open>PSA_ALG_NONE\<close> and the policies have no algorithm in common.
\<close>

theorem alg_intersect_exact:
  "if fst (wolfpsa_alg_intersect s d)
   then \<forall>a. alg_admits (snd (wolfpsa_alg_intersect s d)) a \<longleftrightarrow> alg_admits s a \<and> alg_admits d a
   else snd (wolfpsa_alg_intersect s d) = PSA_ALG_NONE \<and> (\<nexists>a. alg_admits s a \<and> alg_admits d a)"
  using alg_intersect_admits [of s d] alg_intersect_fail_none [of s d] by (auto split: if_splits)

text \<open>
  Source and destination play the same role in the intersection: swapping them changes
  neither the verdict nor the resulting algorithm.
\<close>

theorem alg_intersect_commute: "wolfpsa_alg_intersect s d = wolfpsa_alg_intersect d s"
proof -
  have "intersect_sign s d = intersect_sign d s"
    if "s AND NOT PSA_ALG_HASH_MASK = d AND NOT PSA_ALG_HASH_MASK"
    using that by (auto simp: intersect_sign_def Let_def)
  then show ?thesis
    using mac_lengths.intersect_lengths_commute [of s d]
      aead_lengths.intersect_lengths_commute [of s d]
    by (auto simp: wolfpsa_alg_intersect_def)
qed

section \<open>The usage check\<close>

lemma sign_get_hash_any:
  "PSA_ALG_SIGN_GET_HASH a = PSA_ALG_ANY_HASH \<longleftrightarrow> sign_wild a"
proof -
  have "(a AND 0xff) OR 0x02000000 = 0x02000000 OR (a AND (0xff :: u32))"
    by (rule or.commute)
  then show ?thesis
    using get_hash_any [of a]
    by (auto simp: sign_wild_def PSA_ALG_SIGN_GET_HASH_def PSA_ALG_IS_HASH_AND_SIGN_def
        PSA_ALG_GET_HASH_def)
qed

lemma policy_alg_permits_iff:
  "wolfpsa_policy_alg_permits p a \<longleftrightarrow>
   p \<noteq> PSA_ALG_NONE \<and>
   (p = a \<or> PSA_ALG_IS_SIGN_HASH a \<and> sign_wild p \<and> \<not> sign_wild a \<and>
            p AND NOT PSA_ALG_HASH_MASK = a AND NOT PSA_ALG_HASH_MASK)"
  by (auto simp: wolfpsa_policy_alg_permits_def sign_get_hash_any)

text \<open>
  For a policy without a length wildcard and an algorithm that names its hash (or is not a
  signature algorithm), \<open>wolfpsa_policy_alg_permits\<close> decides membership in the policy.
\<close>

theorem policy_alg_permits_admits:
  assumes "p \<noteq> PSA_ALG_NONE" and "\<not> mac_wild p" and "\<not> aead_wild p" and "\<not> sign_wild a"
    and "\<not> (PSA_ALG_IS_SIGN_HASH a \<and> PSA_ALG_GET_HASH a = PSA_ALG_NONE)"
  shows "wolfpsa_policy_alg_permits p a \<longleftrightarrow> alg_admits p a"
  using assms by (auto simp: policy_alg_permits_iff alg_admits_def sign_member_def)

text \<open>The policy ECDSA with any hash, and deterministic concrete members of it.\<close>

theorem policy_alg_permits_admits_witness:
  "wolfpsa_policy_alg_permits 0x060006ff 0x06000609 \<longleftrightarrow> alg_admits 0x060006ff 0x06000609"
  by (rule policy_alg_permits_admits)
    (simp_all add: mac_wild_def aead_wild_def sign_wild_def psa_defs)

text \<open>
  The check accepts more than the intersection does: under the policy
  ECDSA with \<open>PSA_ALG_ANY_HASH\<close> it permits \<open>PSA_ALG_ECDSA_ANY\<close>, the hashless algorithm, which
  \<open>wolfpsa_alg_intersect\<close> refuses as a widening of that policy.
\<close>

theorem any_hash_permits_hashless:
  "wolfpsa_policy_alg_permits 0x060006ff PSA_ALG_ECDSA_BASE \<and>
   wolfpsa_alg_intersect 0x060006ff PSA_ALG_ECDSA_BASE = (False, PSA_ALG_NONE) \<and>
   \<not> alg_admits 0x060006ff PSA_ALG_ECDSA_BASE"
  by (simp add: wolfpsa_policy_alg_permits_def wolfpsa_alg_intersect_def intersect_sign_def
      alg_admits_def sign_member_def sign_wild_def psa_defs)

end
