(* ===== verification/Key_Der.thy ===== *)
theory Key_Der
  imports Prelude
begin

text \<open>
  The DER writer of \<open>src/psa_key_storage.c\<close> for RSA public keys: \<open>psa_der_len_size\<close>,
  \<open>psa_der_write_len\<close>, \<open>psa_der_int_size\<close>, \<open>psa_der_write_int\<close> and the SEQUENCE that
  \<open>psa_export_public_key\<close> assembles from them. A reader for the same subset of DER states
  what the output means.
\<close>

unbundle bit_operations_syntax

section \<open>Writer\<close>

text \<open>The loops \<open>while (len > 0) { size++; len >>= 8; }\<close>.\<close>

fun count_bytes :: "nat \<Rightarrow> nat" where
  "count_bytes n = (if n = 0 then 0 else Suc (count_bytes (n div 256)))"

declare count_bytes.simps [simp del]

definition psa_der_len_size :: "nat \<Rightarrow> nat" where
  "psa_der_len_size len = (if len < 128 then 1 else 1 + count_bytes len)"

text \<open>The loop that stores the length from the last octet to the first.\<close>

fun be_octets :: "nat \<Rightarrow> nat \<Rightarrow> byte list" where
  "be_octets 0 n = []"
| "be_octets (Suc i) n = be_octets i (n div 256) @ [word_of_nat (n mod 256)]"

text \<open>The octets written and the returned count, \<open>out[0] - 0x80 + 1\<close> in the long form.\<close>

definition psa_der_write_len :: "nat \<Rightarrow> byte list \<times> nat" where
  "psa_der_write_len len =
    (if len < 128 then ([word_of_nat len], 1)
     else
       (let i = count_bytes len; out0 = (0x80 OR word_of_nat i :: byte)
        in (out0 # be_octets i len, unat out0 - 0x80 + 1)))"

definition psa_der_int_size :: "byte list \<Rightarrow> nat" where
  "psa_der_int_size val =
    (let v = dropWhile (\<lambda>b. b = 0) val in
     if v = [] then 3
     else
       (let add_zero = (if hd v AND 0x80 \<noteq> 0 then 1 else 0)
        in 1 + psa_der_len_size (length v + add_zero) + length v + add_zero))"

definition psa_der_write_int :: "byte list \<Rightarrow> byte list \<times> nat" where
  "psa_der_write_int val =
    (let v = dropWhile (\<lambda>b. b = 0) val in
     if v = [] then ([0x02, 0x01, 0x00], 3)
     else
       (let add_zero = (hd v AND 0x80 \<noteq> 0);
            (lb, len_bytes) = psa_der_write_len (length v + (if add_zero then 1 else 0)) in
        if add_zero then (0x02 # lb @ 0x00 # v, 1 + len_bytes + 1 + length v)
        else (0x02 # lb @ v, 1 + len_bytes + length v)))"

text \<open>The lengths and the octets of the RSA branch of \<open>psa_export_public_key\<close>.\<close>

definition rsa_seq_len :: "byte list \<Rightarrow> byte list \<Rightarrow> nat" where
  "rsa_seq_len n e = psa_der_int_size n + psa_der_int_size e"

definition rsa_total_len :: "byte list \<Rightarrow> byte list \<Rightarrow> nat" where
  "rsa_total_len n e = 1 + psa_der_len_size (rsa_seq_len n e) + rsa_seq_len n e"

definition rsa_public_der :: "byte list \<Rightarrow> byte list \<Rightarrow> byte list" where
  "rsa_public_der n e =
    0x30 # fst (psa_der_write_len (rsa_seq_len n e)) @ fst (psa_der_write_int n)
      @ fst (psa_der_write_int e)"

section \<open>A reader\<close>

definition be_nat :: "byte list \<Rightarrow> nat" where
  "be_nat bs = foldl (\<lambda>v b. 256 * v + unat b) 0 bs"

text \<open>A definite length: the length and the octets after it.\<close>

fun der_read_len :: "byte list \<Rightarrow> (nat \<times> byte list) option" where
  "der_read_len [] = None"
| "der_read_len (b # bs) =
    (if unat b < 128 then Some (unat b, bs)
     else if length bs < unat b - 128 then None
     else Some (be_nat (take (unat b - 128) bs), drop (unat b - 128) bs))"

text \<open>One element with the given tag: its contents and the rest.\<close>

fun der_read_tlv :: "byte \<Rightarrow> byte list \<Rightarrow> (byte list \<times> byte list) option" where
  "der_read_tlv tag [] = None"
| "der_read_tlv tag (t # bs) =
    (if t \<noteq> tag then None
     else case der_read_len bs of
            None \<Rightarrow> None
          | Some (n, rest) \<Rightarrow> if length rest < n then None else Some (take n rest, drop n rest))"

text \<open>A non-negative INTEGER: the first bit of the contents is clear.\<close>

definition der_read_uint :: "byte list \<Rightarrow> (nat \<times> byte list) option" where
  "der_read_uint bs =
    (case der_read_tlv 0x02 bs of
       None \<Rightarrow> None
     | Some (c, rest) \<Rightarrow>
         if c = [] \<or> hd c AND 0x80 \<noteq> 0 then None else Some (be_nat c, rest))"

definition der_read_rsa_public :: "byte list \<Rightarrow> (nat \<times> nat) option" where
  "der_read_rsa_public bs =
    (case der_read_tlv 0x30 bs of
       None \<Rightarrow> None
     | Some (c, rest) \<Rightarrow>
         (case der_read_uint c of
            None \<Rightarrow> None
          | Some (n, c') \<Rightarrow>
              (case der_read_uint c' of
                 None \<Rightarrow> None
               | Some (e, c'') \<Rightarrow> if c'' = [] \<and> rest = [] then Some (n, e) else None)))"

section \<open>Lengths\<close>

lemma length_be_octets [simp]: "length (be_octets i n) = i"
  by (induction i arbitrary: n) auto

lemma be_nat_append1 [simp]: "be_nat (bs @ [b]) = 256 * be_nat bs + unat b"
  by (simp add: be_nat_def)

lemma be_nat_be_octets: "be_nat (be_octets i n) = n mod 256 ^ i"
proof (induction i arbitrary: n)
  case (Suc i)
  have "n mod (256 * 256 ^ i) = 256 * (n div 256 mod 256 ^ i) + n mod 256"
    by (rule mod_mult2_eq)
  with Suc show ?case by (simp add: unat_byte_of_nat)
qed (simp add: be_nat_def)

lemma less_count_bytes: "n < 256 ^ count_bytes n"
proof (induction n rule: count_bytes.induct)
  case (1 n)
  show ?case
  proof (cases "n = 0")
    case False
    have "n = 256 * (n div 256) + n mod 256" and "n mod 256 < 256" by simp_all
    then have "n < 256 * 256 ^ count_bytes (n div 256)" using "1.IH" [OF False] by linarith
    with False show ?thesis by (simp add: count_bytes.simps [of n])
  qed (simp add: count_bytes.simps [of 0])
qed

lemma count_bytes_le: "n < 256 ^ i \<Longrightarrow> count_bytes n \<le> i"
proof (induction i arbitrary: n)
  case 0
  then show ?case by (simp add: count_bytes.simps [of 0])
next
  case (Suc i)
  then have "n div 256 < 256 ^ i" by (simp add: less_mult_imp_div_less mult.commute)
  then show ?case using Suc.IH [of "n div 256"] by (simp add: count_bytes.simps [of n])
qed

lemma count_bytes_small: "n < 2 ^ 64 \<Longrightarrow> count_bytes n \<le> 8"
  by (rule count_bytes_le) simp

lemma or_80: "unat (0x80 OR word_of_nat i :: byte) = 128 + i" if "i \<le> 8"
proof -
  have "i \<in> {0,1,2,3,4,5,6,7,8}" using that by auto
  then show ?thesis by auto
qed

lemma write_len_size:
  assumes "n < 2 ^ 64"
  shows "length (fst (psa_der_write_len n)) = psa_der_len_size n"
    and "snd (psa_der_write_len n) = psa_der_len_size n"
  using count_bytes_small [OF assms]
  by (simp_all add: psa_der_write_len_def psa_der_len_size_def Let_def or_80)

text \<open>The contents octets of an INTEGER; the size and the octets written follow from them.\<close>

definition int_contents :: "byte list \<Rightarrow> byte list" where
  "int_contents val =
    (let v = dropWhile (\<lambda>b. b = 0) val in
     if v = [] then [0] else if hd v AND 0x80 \<noteq> 0 then 0 # v else v)"

lemma length_int_contents: "length (int_contents val) \<le> Suc (length val)"
  using length_dropWhile_le [of "\<lambda>b. b = 0" val] by (auto simp: int_contents_def Let_def)

lemma int_size_contents:
  "psa_der_int_size val =
    1 + psa_der_len_size (length (int_contents val)) + length (int_contents val)"
  by (simp add: psa_der_int_size_def int_contents_def psa_der_len_size_def [of "Suc 0"] Let_def)

lemma write_int_contents:
  "fst (psa_der_write_int val) =
    0x02 # fst (psa_der_write_len (length (int_contents val))) @ int_contents val"
  by (simp add: psa_der_write_int_def int_contents_def psa_der_write_len_def [of 1]
      psa_der_write_len_def [of "Suc 0"] Let_def case_prod_unfold)

lemma write_int_returned:
  "snd (psa_der_write_int val) =
    1 + snd (psa_der_write_len (length (int_contents val))) + length (int_contents val)"
  by (simp add: psa_der_write_int_def int_contents_def psa_der_write_len_def [of 1]
      psa_der_write_len_def [of "Suc 0"] Let_def case_prod_unfold)

lemma write_int_size:
  assumes "length val < 2 ^ 63"
  shows "length (fst (psa_der_write_int val)) = psa_der_int_size val"
    and "snd (psa_der_write_int val) = psa_der_int_size val"
proof -
  have "length (int_contents val) < 2 ^ 64"
    using length_int_contents [of val] assms by simp
  then show "length (fst (psa_der_write_int val)) = psa_der_int_size val"
    and "snd (psa_der_write_int val) = psa_der_int_size val"
    using write_len_size by (simp_all add: write_int_contents write_int_returned int_size_contents)
qed

lemma be_nat_zero_cons: "be_nat (0 # bs) = be_nat bs"
  by (simp add: be_nat_def)

lemma be_nat_dropWhile: "be_nat (dropWhile (\<lambda>b. b = 0) bs) = be_nat bs"
  by (induction bs) (auto simp: be_nat_zero_cons)

lemma be_nat_int_contents: "be_nat (int_contents val) = be_nat val"
proof -
  have "be_nat (int_contents val) = be_nat (dropWhile (\<lambda>b. b = 0) val)"
  proof (cases "dropWhile (\<lambda>b. b = 0) val")
    case Nil
    then show ?thesis unfolding int_contents_def Let_def Nil by (simp add: be_nat_def)
  next
    case (Cons b bs)
    show ?thesis unfolding int_contents_def Let_def Cons by (simp add: be_nat_zero_cons)
  qed
  then show ?thesis by (simp add: be_nat_dropWhile)
qed

lemma int_contents_positive: "int_contents val \<noteq> [] \<and> hd (int_contents val) AND 0x80 = 0"
  by (simp add: int_contents_def Let_def)

section \<open>Reading back\<close>

lemma read_write_len:
  assumes "n < 2 ^ 64"
  shows "der_read_len (fst (psa_der_write_len n) @ rest) = Some (n, rest)"
proof (cases "n < 128")
  case True
  then have "unat (word_of_nat n :: byte) = n" by (simp add: unat_byte_of_nat)
  with True show ?thesis by (simp add: psa_der_write_len_def)
next
  case False
  have "n < 256 ^ count_bytes n" by (rule less_count_bytes)
  then have "be_nat (be_octets (count_bytes n) n) = n" by (simp add: be_nat_be_octets)
  with False show ?thesis
    using or_80 [OF count_bytes_small [OF assms]] by (simp add: psa_der_write_len_def Let_def)
qed

lemma read_tlv:
  "length c < 2 ^ 64 \<Longrightarrow>
   der_read_tlv tag (tag # fst (psa_der_write_len (length c)) @ c @ rest) = Some (c, rest)"
  by (simp add: read_write_len)

lemma read_write_int:
  assumes "length val < 2 ^ 63"
  shows "der_read_uint (fst (psa_der_write_int val) @ rest) = Some (be_nat val, rest)"
proof -
  have "length (int_contents val) < 2 ^ 64"
    using length_int_contents [of val] assms by simp
  then show ?thesis
    using read_tlv [of "int_contents val" "0x02" rest] int_contents_positive [of val]
    by (simp add: der_read_uint_def write_int_contents be_nat_int_contents
        del: der_read_tlv.simps)
qed

lemma int_size_bound: "length val < 2 ^ 62 \<Longrightarrow> psa_der_int_size val < 2 ^ 62 + 12"
proof -
  assume a: "length val < 2 ^ 62"
  have "psa_der_len_size (length (int_contents val)) \<le> 9"
    using count_bytes_small [of "length (int_contents val)"] length_int_contents [of val] a
    by (simp add: psa_der_len_size_def)
  then show ?thesis using length_int_contents [of val] a by (simp add: int_size_contents)
qed

text \<open>
  The RSA public key export writes exactly as many bytes as it computed before the capacity
  check, and every \<open>out +=\<close> advances by the number of bytes just written.
\<close>

theorem rsa_public_der_length:
  assumes "length n < 2 ^ 62" and "length e < 2 ^ 62"
  shows "length (rsa_public_der n e) = rsa_total_len n e \<and>
    snd (psa_der_write_len (rsa_seq_len n e)) = length (fst (psa_der_write_len (rsa_seq_len n e))) \<and>
    snd (psa_der_write_int n) = length (fst (psa_der_write_int n)) \<and>
    snd (psa_der_write_int e) = length (fst (psa_der_write_int e))"
proof -
  have "rsa_seq_len n e < 2 ^ 64"
    using int_size_bound [OF assms(1)] int_size_bound [OF assms(2)] by (simp add: rsa_seq_len_def)
  moreover have "length n < 2 ^ 63" "length e < 2 ^ 63" using assms by simp_all
  ultimately show ?thesis
    by (simp add: rsa_public_der_def rsa_total_len_def rsa_seq_len_def write_len_size write_int_size)
qed

theorem rsa_public_der_length_witness:
  "length (rsa_public_der [0xC1, 0x05] [0x01, 0x00, 0x01]) = rsa_total_len [0xC1, 0x05] [0x01, 0x00, 0x01]"
  using rsa_public_der_length [of "[0xC1, 0x05]" "[0x01, 0x00, 0x01]"] by simp

text \<open>
  The exported RSA public key is a DER SEQUENCE of two non-negative INTEGERs that a DER
  reader decodes, with nothing left over, to the modulus and the exponent that were written.
\<close>

theorem rsa_public_der_roundtrip:
  assumes "length n < 2 ^ 62" and "length e < 2 ^ 62"
  shows "der_read_rsa_public (rsa_public_der n e) = Some (be_nat n, be_nat e)"
proof -
  let ?c = "fst (psa_der_write_int n) @ fst (psa_der_write_int e)"
  have l: "length n < 2 ^ 63" "length e < 2 ^ 63" using assms by simp_all
  then have c: "length ?c = rsa_seq_len n e" by (simp add: rsa_seq_len_def write_int_size)
  moreover have "rsa_seq_len n e < 2 ^ 64"
    using int_size_bound [OF assms(1)] int_size_bound [OF assms(2)] by (simp add: rsa_seq_len_def)
  ultimately have "der_read_tlv 0x30 (rsa_public_der n e) = Some (?c, [])"
    using read_tlv [of ?c "0x30" "[]"] by (simp add: rsa_public_der_def del: der_read_tlv.simps)
  then show ?thesis
    using read_write_int [OF l(1)] read_write_int [OF l(2), of "[]"]
    by (simp add: der_read_rsa_public_def)
qed

theorem rsa_public_der_roundtrip_witness:
  "der_read_rsa_public (rsa_public_der [0xC1, 0x05] [0x01, 0x00, 0x01]) = Some (49413, 65537)"
  using rsa_public_der_roundtrip [of "[0xC1, 0x05]" "[0x01, 0x00, 0x01]"]
  by (simp add: be_nat_def)

end
