(* ===== verification/Key_Api.thy ===== *)
theory Key_Api
  imports Key_Storage Key_Policy Key_Der
begin

text \<open>
  The other key-management entry points of \<open>src/psa_key_storage.c\<close>: generation, destruction,
  export, public-key export, attributes, purge, copy and the usage check.
\<close>

unbundle bit_operations_syntax

section \<open>Generation\<close>

text \<open>
  The capacities of the private-key buffer for an ECC key pair, or the error for a size the
  family does not have.
\<close>

definition ecc_gen_size :: "psa_key_type_t \<Rightarrow> psa_key_bits_t \<Rightarrow> psa_status + nat" where
  "ecc_gen_size t key_bits =
    (let family = PSA_KEY_TYPE_ECC_GET_FAMILY t; n = unat key_bits in
     if family = PSA_ECC_FAMILY_TWISTED_EDWARDS then
       (if key_bits = 255 then Inr (PSA_BITS_TO_BYTES n + 1)
        else if key_bits = 448 then Inr (PSA_BITS_TO_BYTES n + 1)
        else Inl PSA_ERROR_INVALID_ARGUMENT)
     else if family = PSA_ECC_FAMILY_MONTGOMERY then
       (if key_bits \<noteq> 255 \<and> key_bits \<noteq> 448 then Inl PSA_ERROR_INVALID_ARGUMENT
        else Inr (PSA_KEY_EXPORT_ECC_KEY_PAIR_MAX_SIZE n))
     else Inr (PSA_KEY_EXPORT_ECC_KEY_PAIR_MAX_SIZE n))"

definition ecc_generate ::
    "('st, 'h) psa_env \<Rightarrow> nat \<Rightarrow> psa_key_type_t \<Rightarrow> psa_key_bits_t \<Rightarrow> nat \<Rightarrow> psa_status \<times> byte list" where
  "ecc_generate env i t key_bits cap =
    (let family = PSA_KEY_TYPE_ECC_GET_FAMILY t in
     if family = PSA_ECC_FAMILY_TWISTED_EDWARDS then
       (if key_bits = 255 then gen_ed25519 env i cap
        else if key_bits = 448 then gen_ed448 env i cap
        else (PSA_ERROR_INVALID_ARGUMENT, []))
     else if family = PSA_ECC_FAMILY_MONTGOMERY then
       (if key_bits = 255 then gen_x25519 env i cap
        else if key_bits = 448 then gen_x448 env i cap
        else (PSA_ERROR_INVALID_ARGUMENT, []))
     else gen_ecc env i t (unat key_bits) cap)"

text \<open>A back end was called with counter \<open>i\<close>; its output is imported when it succeeded.\<close>

definition import_generated ::
    "('st, 'h) psa_env \<Rightarrow> psa_key_attributes_t \<Rightarrow> psa_status \<times> byte list \<Rightarrow> 'st key_store \<Rightarrow>
     psa_status \<times> psa_key_id_t \<times> 'st key_store" where
  "import_generated env attr g s =
    (let s1 = s\<lparr>rng_calls := Suc (rng_calls s)\<rparr> in
     if fst g \<noteq> PSA_SUCCESS then (fst g, PSA_KEY_ID_NULL, s1)
     else psa_import_key env (Some attr) (In (snd g)) False s1)"

definition generate_unstructured ::
    "('st, 'h) psa_env \<Rightarrow> psa_key_attributes_t \<Rightarrow> 'st key_store \<Rightarrow>
     psa_status \<times> psa_key_id_t \<times> 'st key_store" where
  "generate_unstructured env attr s =
    (let key_data_length = PSA_BITS_TO_BYTES (unat (bits attr)) in
     if key_data_length = 0 then (PSA_ERROR_INVALID_ARGUMENT, PSA_KEY_ID_NULL, s)
     else
       (let (ok, s1) = s_xmalloc s in
        if \<not> ok then (PSA_ERROR_INSUFFICIENT_MEMORY, PSA_KEY_ID_NULL, s1)
        else
          (case psa_generate_random env (Out key_data_length) s1 of
             (status, key_data, s2) \<Rightarrow>
               if status \<noteq> PSA_SUCCESS then (status, PSA_KEY_ID_NULL, s2)
               else psa_import_key env (Some attr) (In key_data) False s2)))"

definition generate_rsa ::
    "('st, 'h) psa_env \<Rightarrow> psa_key_attributes_t \<Rightarrow> 'st key_store \<Rightarrow>
     psa_status \<times> psa_key_id_t \<times> 'st key_store" where
  "generate_rsa env attr s =
    (let n = unat (bits attr); (ok, s1) = s_xmalloc s in
     if \<not> ok then (PSA_ERROR_INSUFFICIENT_MEMORY, PSA_KEY_ID_NULL, s1)
     else import_generated env attr
            (gen_rsa env (rng_calls s1) n (PSA_KEY_EXPORT_RSA_KEY_PAIR_MAX_SIZE n)) s1)"

definition generate_ecc ::
    "('st, 'h) psa_env \<Rightarrow> psa_key_attributes_t \<Rightarrow> 'st key_store \<Rightarrow>
     psa_status \<times> psa_key_id_t \<times> 'st key_store" where
  "generate_ecc env attr s =
    (case ecc_gen_size (type attr) (bits attr) of
       Inl e \<Rightarrow> (e, PSA_KEY_ID_NULL, s)
     | Inr cap \<Rightarrow>
         (let (ok_priv, s1) = s_xmalloc s in
          if \<not> ok_priv then (PSA_ERROR_INSUFFICIENT_MEMORY, PSA_KEY_ID_NULL, s1)
          else
            (let (ok_pub, s2) = s_xmalloc s1 in
             if \<not> ok_pub then (PSA_ERROR_INSUFFICIENT_MEMORY, PSA_KEY_ID_NULL, s2)
             else import_generated env attr
                    (ecc_generate env (rng_calls s2) (type attr) (bits attr) cap) s2)))"

definition psa_generate_key ::
    "('st, 'h) psa_env \<Rightarrow> psa_key_attributes_t option \<Rightarrow> bool \<Rightarrow> 'st key_store \<Rightarrow>
     psa_status \<times> psa_key_id_t \<times> 'st key_store" where
  "psa_generate_key env attr_arg id_null s =
    (case attr_arg of
       None \<Rightarrow> (PSA_ERROR_INVALID_ARGUMENT, PSA_KEY_ID_NULL, s)
     | Some attr \<Rightarrow>
         (let t = type attr; key_bits = bits attr; fail = (\<lambda>e. (e, PSA_KEY_ID_NULL, s)) in
          if id_null then fail PSA_ERROR_INVALID_ARGUMENT
          else if key_bits = 0 then fail PSA_ERROR_INVALID_ARGUMENT
          else if PSA_KEY_TYPE_IS_PUBLIC_KEY t then fail PSA_ERROR_INVALID_ARGUMENT
          else if \<not> wolfpsa_usage_flags_valid (psa_get_key_usage_flags attr)
            then fail PSA_ERROR_INVALID_ARGUMENT
          else if PSA_KEY_TYPE_IS_UNSTRUCTURED t \<or> t = PSA_KEY_TYPE_HMAC \<or> t = PSA_KEY_TYPE_AES \<or>
                  t = PSA_KEY_TYPE_DES \<or> t = PSA_KEY_TYPE_CHACHA20 \<or> t = PSA_KEY_TYPE_XCHACHA20
            then generate_unstructured env attr s
          else if t = PSA_KEY_TYPE_RSA_KEY_PAIR then generate_rsa env attr s
          else if PSA_KEY_TYPE_IS_ECC_KEY_PAIR t then generate_ecc env attr s
          else if t = PSA_KEY_TYPE_ML_DSA_KEY_PAIR then
            (if key_bits \<noteq> 128 \<and> key_bits \<noteq> 192 \<and> key_bits \<noteq> 256 then fail PSA_ERROR_INVALID_ARGUMENT
             else import_generated env attr (mldsa_seed env (rng_calls s) (unat key_bits)) s)
          else if t = PSA_KEY_TYPE_ML_KEM_KEY_PAIR then
            (if key_bits \<noteq> 512 \<and> key_bits \<noteq> 768 \<and> key_bits \<noteq> 1024 then fail PSA_ERROR_INVALID_ARGUMENT
             else import_generated env attr (mlkem_seed env (rng_calls s) (unat key_bits)) s)
          else fail PSA_ERROR_NOT_SUPPORTED))"

section \<open>Destruction\<close>

definition psa_destroy_key ::
    "('st, 'h) psa_env \<Rightarrow> psa_key_id_t \<Rightarrow> 'st key_store \<Rightarrow> psa_status \<times> 'st key_store" where
  "psa_destroy_key env key_id s =
    (if key_id = PSA_KEY_ID_NULL then (PSA_SUCCESS, s)
     else
       (case psa_key_storage_check_init (env_build env) s of
          (ini, s1) \<Rightarrow>
            if ini \<noteq> PSA_SUCCESS then (ini, s1)
            else
              (case wolfpsa_volatile_remove (env_build env) key_id s1 of
                 (vst, s2) \<Rightarrow>
                   if vst = PSA_SUCCESS then (PSA_SUCCESS, s2)
                   else
                     (case so_remove (env_ops env) (store s2) WOLFPSA_STORE_KEY (unat key_id) 0 of
                        (rc, st1) \<Rightarrow>
                          (if rc = WOLFPSA_STORE_NOT_AVAILABLE then PSA_ERROR_INVALID_HANDLE
                           else if rc \<noteq> WOLFPSA_STORE_OK then wolfpsa_store_open_status rc
                           else PSA_SUCCESS, s2\<lparr>store := st1\<rparr>)))))"

section \<open>Export\<close>

text \<open>
  The status, the bytes the caller's buffer holds afterwards and \<open>*data_length\<close>; \<open>len_null\<close>
  tells whether \<open>data_length\<close> is NULL. A failed body read leaves zeros.
\<close>

definition export_persistent ::
    "('st, 'h) psa_env \<Rightarrow> psa_key_id_t \<Rightarrow> nat \<Rightarrow> 'st key_store \<Rightarrow>
     psa_status \<times> byte list \<times> nat \<times> 'st key_store" where
  "export_persistent env key_id data_size s =
    (case open_read_header env key_id s of
       (Inl e, s1) \<Rightarrow> (e, [], 0, s1)
     | (Inr (header, h), s1) \<Rightarrow>
         (let key_usage = un_le32 (take 4 (drop 4 header)) in
          if key_usage AND PSA_KEY_USAGE_EXPORT = 0
          then (PSA_ERROR_NOT_PERMITTED, [], 0, close_handle env h s1)
          else
            (let n = header_data_length header;
                 lst = wolfpsa_validate_stored_key_data_length n in
             if lst \<noteq> PSA_SUCCESS then (lst, [], 0, close_handle env h s1)
             else if data_size < n then (PSA_ERROR_BUFFER_TOO_SMALL, [], 0, close_handle env h s1)
             else
               (case read_body_close env h n s1 of
                  (None, s2) \<Rightarrow> (PSA_ERROR_STORAGE_FAILURE, replicate n 0, 0, s2)
                | (Some d, s2) \<Rightarrow> (PSA_SUCCESS, d, n, s2)))))"

definition psa_export_key ::
    "('st, 'h) psa_env \<Rightarrow> psa_key_id_t \<Rightarrow> outbuf \<Rightarrow> bool \<Rightarrow> 'st key_store \<Rightarrow>
     psa_status \<times> byte list \<times> nat \<times> 'st key_store" where
  "psa_export_key env key_id out len_null s =
    (if len_null \<or> out_null out \<and> out_size out \<noteq> 0 then (PSA_ERROR_INVALID_ARGUMENT, [], 0, s)
     else
       (case psa_key_storage_check_init (env_build env) s of
          (ini, s1) \<Rightarrow>
            if ini \<noteq> PSA_SUCCESS then (ini, [], 0, s1)
            else
              (case wolfpsa_volatile_get (env_build env) key_id s1 of
                 (vst, va, vd, s2) \<Rightarrow>
                   if vst = PSA_SUCCESS then
                     (if usage (policy (the va)) AND PSA_KEY_USAGE_EXPORT = 0
                      then (PSA_ERROR_NOT_PERMITTED, [], 0, s2)
                      else if out_size out < length vd then (PSA_ERROR_BUFFER_TOO_SMALL, [], 0, s2)
                      else (PSA_SUCCESS, vd, length vd, s2))
                   else if vst \<noteq> PSA_ERROR_INVALID_HANDLE then (vst, [], 0, s2)
                   else export_persistent env key_id (out_size out) s2)))"

section \<open>Attributes\<close>

text \<open>With a NULL \<open>attributes\<close> pointer nothing is written.\<close>

definition psa_get_key_attributes ::
    "('st, 'h) psa_env \<Rightarrow> psa_key_id_t \<Rightarrow> bool \<Rightarrow> 'st key_store \<Rightarrow>
     psa_status \<times> psa_key_attributes_t \<times> 'st key_store" where
  "psa_get_key_attributes env key_id attr_null s =
    (let a0 = psa_key_attributes_init; ops = env_ops env in
     if attr_null then (PSA_ERROR_INVALID_ARGUMENT, a0, s)
     else case psa_key_storage_check_init (env_build env) s of
       (ini, s1) \<Rightarrow>
         if ini \<noteq> PSA_SUCCESS then (ini, a0, s1)
         else
           (case wolfpsa_volatile_get_attributes (env_build env) key_id s1 of
              (vst, va, s2) \<Rightarrow>
                if vst = PSA_SUCCESS then (PSA_SUCCESS, (the va)\<lparr>id := key_id\<rparr>, s2)
                else
                  (case so_open ops (store s2) WOLFPSA_STORE_KEY (unat key_id) 0 True 0 of
                     (OpenFail rc, st1) \<Rightarrow>
                       (if rc = WOLFPSA_STORE_NOT_AVAILABLE then PSA_ERROR_INVALID_HANDLE
                        else wolfpsa_store_open_status rc, a0, s2\<lparr>store := st1\<rparr>)
                   | (Opened h, st1) \<Rightarrow>
                       (case so_read ops st1 h header_length of
                          (r, h', st2) \<Rightarrow>
                            (let s3 = s2\<lparr>store := snd (so_close ops st2 h')\<rparr> in
                             case r of
                               Inl e \<Rightarrow> (PSA_ERROR_STORAGE_FAILURE, a0, s3)
                             | Inr buf \<Rightarrow>
                                 if length buf \<noteq> header_length
                                 then (PSA_ERROR_STORAGE_FAILURE, a0, s3)
                                 else
                                   (let (dst, a) = psa_key_attributes_deserialize (take attr_length buf) a0 in
                                    if dst \<noteq> PSA_SUCCESS then (dst, a, s3)
                                    else (PSA_SUCCESS, a\<lparr>id := key_id\<rparr>, s3)))))))"

definition psa_purge_key ::
    "('st, 'h) psa_env \<Rightarrow> psa_key_id_t \<Rightarrow> 'st key_store \<Rightarrow> psa_status \<times> 'st key_store" where
  "psa_purge_key env key s = (case psa_get_key_attributes env key False s of (status, a, s1) \<Rightarrow> (status, s1))"

definition psa_check_key_usage ::
    "('st, 'h) psa_env \<Rightarrow> psa_key_id_t \<Rightarrow> psa_algorithm_t \<Rightarrow> psa_key_usage_t \<Rightarrow> 'st key_store \<Rightarrow>
     psa_status \<times> 'st key_store" where
  "psa_check_key_usage env key a u s =
    (case psa_get_key_attributes env key False s of
       (status, attr, s1) \<Rightarrow>
         if status \<noteq> PSA_SUCCESS then (status, s1)
         else if psa_get_key_usage_flags attr AND u \<noteq> u then (PSA_ERROR_NOT_PERMITTED, s1)
         else if a \<noteq> PSA_ALG_NONE \<and> \<not> wolfpsa_key_permits_alg attr a
           then (PSA_ERROR_NOT_PERMITTED, s1)
         else (PSA_SUCCESS, s1))"

section \<open>Copy\<close>

text \<open>
  The checks that both branches of \<open>psa_copy_key\<close> make on the source attributes \<open>src\<close> and the
  requested ones \<open>req\<close>, and the attributes of the copy.
\<close>

definition copy_attributes ::
    "psa_key_attributes_t \<Rightarrow> psa_key_attributes_t \<Rightarrow> psa_status + psa_key_attributes_t" where
  "copy_attributes src req =
    (if usage (policy src) AND PSA_KEY_USAGE_COPY = 0 then Inl PSA_ERROR_NOT_PERMITTED
     else if type req \<noteq> 0 \<and> type req \<noteq> type src then Inl PSA_ERROR_INVALID_ARGUMENT
     else if bits req \<noteq> 0 \<and> bits req \<noteq> bits src then Inl PSA_ERROR_INVALID_ARGUMENT
     else
       (let (ok, copy_alg) = wolfpsa_alg_intersect (alg (policy src)) (alg (policy req));
            (ok2, copy_alg2) = wolfpsa_alg2_intersect (alg2 (policy src)) (alg2 (policy req)) in
        if \<not> ok \<or> \<not> ok2 then Inl PSA_ERROR_INVALID_ARGUMENT
        else if lifetime req \<noteq> lifetime src then Inl PSA_ERROR_INVALID_ARGUMENT
        else Inr (req\<lparr>type := if type req = 0 then type src else type req,
                      bits := if bits req = 0 then bits src else bits req,
                      policy := \<lparr>usage = usage (policy src) AND usage (policy req),
                                 alg = copy_alg, alg2 = copy_alg2\<rparr>\<rparr>)))"

definition copy_persistent ::
    "('st, 'h) psa_env \<Rightarrow> psa_key_id_t \<Rightarrow> psa_key_attributes_t \<Rightarrow> 'st key_store \<Rightarrow>
     psa_status \<times> psa_key_id_t \<times> 'st key_store" where
  "copy_persistent env source_key req s =
    (case open_read_header env source_key s of
       (Inl e, s1) \<Rightarrow> (e, PSA_KEY_ID_NULL, s1)
     | (Inr (header, h), s1) \<Rightarrow>
         (let (dst, src_attr) =
                psa_key_attributes_deserialize (take attr_length header) psa_key_attributes_init in
          if dst \<noteq> PSA_SUCCESS then (dst, PSA_KEY_ID_NULL, close_handle env h s1)
          else
            (case copy_attributes src_attr req of
               Inl e \<Rightarrow> (e, PSA_KEY_ID_NULL, close_handle env h s1)
             | Inr dst_attr \<Rightarrow>
                 (let n = header_data_length header;
                      lst = wolfpsa_validate_stored_key_data_length n in
                  if lst \<noteq> PSA_SUCCESS then (lst, PSA_KEY_ID_NULL, close_handle env h s1)
                  else
                    (let (ok, s2) = s_xmalloc s1 in
                     if \<not> ok
                     then (PSA_ERROR_INSUFFICIENT_MEMORY, PSA_KEY_ID_NULL, close_handle env h s2)
                     else
                       (case read_body_close env h n s2 of
                          (None, s3) \<Rightarrow> (PSA_ERROR_STORAGE_FAILURE, PSA_KEY_ID_NULL, s3)
                        | (Some d, s3) \<Rightarrow>
                            psa_import_key env (Some dst_attr) (In d) False s3))))))"

definition psa_copy_key ::
    "('st, 'h) psa_env \<Rightarrow> psa_key_id_t \<Rightarrow> psa_key_attributes_t option \<Rightarrow> bool \<Rightarrow> 'st key_store \<Rightarrow>
     psa_status \<times> psa_key_id_t \<times> 'st key_store" where
  "psa_copy_key env source_key attr_arg id_null s =
    (case attr_arg of
       None \<Rightarrow> (PSA_ERROR_INVALID_ARGUMENT, PSA_KEY_ID_NULL, s)
     | Some req \<Rightarrow>
         if id_null then (PSA_ERROR_INVALID_ARGUMENT, PSA_KEY_ID_NULL, s)
         else
           (case psa_key_storage_check_init (env_build env) s of
              (ini, s1) \<Rightarrow>
                if ini \<noteq> PSA_SUCCESS then (ini, PSA_KEY_ID_NULL, s1)
                else
                  (case wolfpsa_volatile_get (env_build env) source_key s1 of
                     (vst, va, vd, s2) \<Rightarrow>
                       if vst = PSA_SUCCESS then
                         (case copy_attributes (the va) req of
                            Inl e \<Rightarrow> (e, PSA_KEY_ID_NULL, s2)
                          | Inr dst_attr \<Rightarrow> psa_import_key env (Some dst_attr) (In vd) False s2)
                       else if vst \<noteq> PSA_ERROR_INVALID_HANDLE then (vst, PSA_KEY_ID_NULL, s2)
                       else copy_persistent env source_key req s2)))"

section \<open>Public keys\<close>

definition psa_wc_error_to_psa_status :: "wc_ret \<Rightarrow> psa_status" where
  "psa_wc_error_to_psa_status r =
    (case r of
       WC_OK \<Rightarrow> PSA_SUCCESS
     | BAD_FUNC_ARG \<Rightarrow> PSA_ERROR_INVALID_ARGUMENT
     | BUFFER_E \<Rightarrow> PSA_ERROR_BUFFER_TOO_SMALL
     | RSA_BUFFER_E \<Rightarrow> PSA_ERROR_BUFFER_TOO_SMALL
     | MEMORY_E \<Rightarrow> PSA_ERROR_INSUFFICIENT_MEMORY
     | NOT_COMPILED_IN \<Rightarrow> PSA_ERROR_NOT_SUPPORTED
     | BAD_STATE_E \<Rightarrow> PSA_ERROR_BAD_STATE
     | _ \<Rightarrow> PSA_ERROR_GENERIC_ERROR)"

text \<open>The branch that copies a stored public key: status, bytes written, length.\<close>

definition copy_public :: "byte list \<Rightarrow> nat \<Rightarrow> psa_status \<times> byte list \<times> nat" where
  "copy_public d data_size =
    (if data_size < length d then (PSA_ERROR_BUFFER_TOO_SMALL, [], 0)
     else (PSA_SUCCESS, d, length d))"

text \<open>
  The RSA key-pair branch. \<open>new_rsa_key\<close> is \<open>None\<close> when \<open>wc_NewRsaKey\<close> returns a key and
  otherwise the error it sets; both buffers are always requested.
\<close>

definition export_rsa_pair ::
    "('st, 'h) psa_env \<Rightarrow> byte list \<Rightarrow> nat \<Rightarrow> 'st key_store \<Rightarrow>
     psa_status \<times> byte list \<times> nat \<times> 'st key_store" where
  "export_rsa_pair env d data_size s =
    (case new_rsa_key env of
       Some r \<Rightarrow> (psa_wc_error_to_psa_status (if r = WC_OK then MEMORY_E else r), [], 0, s)
     | None \<Rightarrow>
         if rsa_private_decode env d \<noteq> WC_OK
         then (psa_wc_error_to_psa_status (rsa_private_decode env d), [], 0, s)
         else
           (let (ok_n, s1) = s_xmalloc s; (ok_e, s2) = s_xmalloc s1 in
            if \<not> ok_n \<or> \<not> ok_e then (PSA_ERROR_INSUFFICIENT_MEMORY, [], 0, s2)
            else
              (case rsa_flatten_public env d of
                 (r, e, n) \<Rightarrow>
                   if r \<noteq> WC_OK then (psa_wc_error_to_psa_status r, [], 0, s2)
                   else if data_size < rsa_total_len n e then (PSA_ERROR_BUFFER_TOO_SMALL, [], 0, s2)
                   else (PSA_SUCCESS, rsa_public_der n e, rsa_total_len n e, s2))))"

text \<open>The result of an exporter of \<open>src/\<close>: it sets \<open>*data_length\<close> to the number of bytes written.\<close>

definition backend_public :: "psa_status \<times> byte list \<Rightarrow> psa_status \<times> byte list \<times> nat" where
  "backend_public r = (fst r, snd r, length (snd r))"

definition export_ecc_pair ::
    "('st, 'h) psa_env \<Rightarrow> psa_key_attributes_t \<Rightarrow> byte list \<Rightarrow> nat \<Rightarrow> psa_status \<times> byte list \<times> nat" where
  "export_ecc_pair env a d data_size =
    (let family = PSA_KEY_TYPE_ECC_GET_FAMILY (type a) in
     if family = PSA_ECC_FAMILY_TWISTED_EDWARDS then
       (if bits a = 255 then backend_public (export_ed25519 env d data_size)
        else if bits a = 448 then backend_public (export_ed448 env d data_size)
        else (PSA_ERROR_NOT_SUPPORTED, [], 0))
     else if family = PSA_ECC_FAMILY_MONTGOMERY then
       (if bits a = 255 then backend_public (export_x25519 env d data_size)
        else if bits a = 448 then backend_public (export_x448 env d data_size)
        else (PSA_ERROR_NOT_SUPPORTED, [], 0))
     else backend_public (export_ecc env (type a) (unat (bits a)) d data_size))"

definition export_pqc ::
    "('st, 'h) psa_env \<Rightarrow> psa_key_attributes_t \<Rightarrow> byte list \<Rightarrow> nat \<Rightarrow> psa_status \<times> byte list \<times> nat" where
  "export_pqc env a d data_size =
    (let t = type a in
     if PSA_KEY_TYPE_IS_ML_DSA t then
       (if t = PSA_KEY_TYPE_ML_DSA_PUBLIC_KEY then copy_public d data_size
        else if length d \<noteq> 32 then (PSA_ERROR_DATA_INVALID, [], 0)
        else backend_public (export_mldsa env (unat (bits a)) d data_size))
     else if PSA_KEY_TYPE_IS_ML_KEM t then
       (if t = PSA_KEY_TYPE_ML_KEM_PUBLIC_KEY then copy_public d data_size
        else if length d \<noteq> 64 then (PSA_ERROR_DATA_INVALID, [], 0)
        else backend_public (export_mlkem env (unat (bits a)) d data_size))
     else if t = PSA_KEY_TYPE_LMS_PUBLIC_KEY \<or> t = PSA_KEY_TYPE_HSS_PUBLIC_KEY \<or>
             t = PSA_KEY_TYPE_XMSS_PUBLIC_KEY \<or> t = PSA_KEY_TYPE_XMSS_MT_PUBLIC_KEY
       then copy_public d data_size
     else (PSA_ERROR_NOT_SUPPORTED, [], 0))"

definition has_public_part :: "psa_key_type_t \<Rightarrow> bool" where
  "has_public_part t \<longleftrightarrow>
    PSA_KEY_TYPE_IS_RSA t \<or> PSA_KEY_TYPE_IS_ECC t \<or> PSA_KEY_TYPE_IS_ML_DSA t \<or>
    PSA_KEY_TYPE_IS_ML_KEM t \<or> t = PSA_KEY_TYPE_LMS_PUBLIC_KEY \<or> t = PSA_KEY_TYPE_HSS_PUBLIC_KEY \<or>
    t = PSA_KEY_TYPE_XMSS_PUBLIC_KEY \<or> t = PSA_KEY_TYPE_XMSS_MT_PUBLIC_KEY"

definition export_public_of ::
    "('st, 'h) psa_env \<Rightarrow> psa_key_attributes_t \<Rightarrow> byte list \<Rightarrow> nat \<Rightarrow> 'st key_store \<Rightarrow>
     psa_status \<times> byte list \<times> nat \<times> 'st key_store" where
  "export_public_of env a d data_size s =
    (let t = type a; pure = (\<lambda>(st, out, n). (st, out, n, s)) in
     if PSA_KEY_TYPE_IS_RSA t then
       (if t = PSA_KEY_TYPE_RSA_PUBLIC_KEY then pure (copy_public d data_size)
        else export_rsa_pair env d data_size s)
     else if PSA_KEY_TYPE_IS_ECC t then
       (if PSA_KEY_TYPE_IS_ECC_PUBLIC_KEY t then pure (copy_public d data_size)
        else pure (export_ecc_pair env a d data_size))
     else pure (export_pqc env a d data_size))"

text \<open>Loading the key data of a persistent key, after its attributes have been read.\<close>

definition load_public_data ::
    "('st, 'h) psa_env \<Rightarrow> psa_key_id_t \<Rightarrow> 'st key_store \<Rightarrow> (psa_status + byte list) \<times> 'st key_store" where
  "load_public_data env key_id s =
    (case open_read_header env key_id s of
       (Inl e, s1) \<Rightarrow> (Inl e, s1)
     | (Inr (header, h), s1) \<Rightarrow>
         (let n = header_data_length header;
              lst = wolfpsa_validate_stored_key_data_length n in
          if lst \<noteq> PSA_SUCCESS then (Inl lst, close_handle env h s1)
          else
            (let (ok, s2) = s_xmalloc s1 in
             if \<not> ok then (Inl PSA_ERROR_INSUFFICIENT_MEMORY, close_handle env h s2)
             else (case read_body_close env h n s2 of
                     (None, s3) \<Rightarrow> (Inl PSA_ERROR_STORAGE_FAILURE, s3)
                   | (Some d, s3) \<Rightarrow> (Inr d, s3)))))"

definition psa_export_public_key ::
    "('st, 'h) psa_env \<Rightarrow> psa_key_id_t \<Rightarrow> outbuf \<Rightarrow> bool \<Rightarrow> 'st key_store \<Rightarrow>
     psa_status \<times> byte list \<times> nat \<times> 'st key_store" where
  "psa_export_public_key env key_id out len_null s =
    (if len_null \<or> out_null out \<and> out_size out \<noteq> 0 then (PSA_ERROR_INVALID_ARGUMENT, [], 0, s)
     else
       (case psa_key_storage_check_init (env_build env) s of
          (ini, s1) \<Rightarrow>
            if ini \<noteq> PSA_SUCCESS then (ini, [], 0, s1)
            else
              (case wolfpsa_volatile_get (env_build env) key_id s1 of
                 (vst, va, vd, s2) \<Rightarrow>
                   if vst = PSA_SUCCESS then
                     (if \<not> has_public_part (type (the va)) then (PSA_ERROR_INVALID_ARGUMENT, [], 0, s2)
                      else export_public_of env (the va) vd (out_size out) s2)
                   else if vst \<noteq> PSA_ERROR_INVALID_HANDLE then (vst, [], 0, s2)
                   else
                     (case psa_get_key_attributes env key_id False s2 of
                        (ast, a, s3) \<Rightarrow>
                          if ast \<noteq> PSA_SUCCESS then (ast, [], 0, s3)
                          else if \<not> has_public_part (type a)
                            then (PSA_ERROR_INVALID_ARGUMENT, [], 0, s3)
                          else (case load_public_data env key_id s3 of
                                  (Inl e, s4) \<Rightarrow> (e, [], 0, s4)
                                | (Inr d, s4) \<Rightarrow> export_public_of env a d (out_size out) s4)))))"

section \<open>The volatile list under the other operations\<close>

lemma find_unlink:
  "distinct (map node_id ns) \<Longrightarrow> find (\<lambda>n. node_id n = k) (unlink_node j ns) =
    (if j = k then None else find (\<lambda>n. node_id n = k) ns)"
  by (induction ns) (auto simp: find_None_iff image_iff)

lemma set_unlink: "set (unlink_node k ns) \<subseteq> set ns"
  by (induction ns) auto

lemma distinct_unlink: "distinct (map node_id ns) \<Longrightarrow> distinct (map node_id (unlink_node k ns))"
  using set_unlink by (induction ns) fastforce+

lemma load_frame_ready:
  assumes "lock_ok s" and "psa_key_storage_check_init b s = (ini, s1)"
  shows "load_frame recs s s1" and "ini = PSA_SUCCESS \<Longrightarrow> ready b s1"
  using check_init_cases [OF assms] load_frame_core by blast+

lemma check_init_not_handle:
  "psa_key_storage_check_init b s = (ini, s1) \<Longrightarrow> ini \<noteq> PSA_ERROR_INVALID_HANDLE"
  by (auto simp: psa_key_storage_check_init_def psa_key_storage_init_def split: prod.splits if_splits)

context key_backend
begin

lemma destroy_cases:
  assumes env: "env_ops env = ops" and lk: "lock_ok s" and k: "k \<noteq> PSA_KEY_ID_NULL"
    and x: "psa_destroy_key env k s = (status, s')"
  shows "lock_ok s' \<and> g_next_key_id s' = g_next_key_id s \<and>
    g_psa_crypto_initialized s' = g_psa_crypto_initialized s \<and>
    (if status = PSA_SUCCESS then
       (if wolfpsa_volatile_find s k \<noteq> None
        then g_volatile_keys s' = unlink_node k (g_volatile_keys s) \<and> recs (store s') = recs (store s)
        else g_volatile_keys s' = g_volatile_keys s \<and> recs (store s') = (recs (store s))(unat k := None))
     else no_effect recs s s') \<and>
    (status = PSA_ERROR_INVALID_HANDLE \<longrightarrow>
       wolfpsa_volatile_find s k = None \<and> recs (store s) (unat k) = None)"
proof (cases "psa_key_storage_check_init (env_build env) s")
  case (Pair ini s1)
  note f = load_frame_ready(1) [OF lk Pair, of recs] load_frame_ready(2) [OF lk Pair]
  show ?thesis
  proof (cases "ini = PSA_SUCCESS")
    case False
    then show ?thesis
      using x k Pair f(1) check_init_not_handle [OF Pair]
      by (auto simp: psa_destroy_key_def load_frame_def no_effect_def)
  next
    case True
    then have rdy: "ready (env_build env) s1" by (rule f(2))
    have s1: "g_volatile_keys s1 = g_volatile_keys s" "recs (store s1) = recs (store s)"
      "g_next_key_id s1 = g_next_key_id s" "g_psa_crypto_initialized s1 = g_psa_crypto_initialized s"
      using f(1) by (simp_all add: load_frame_def)
    have fd: "wolfpsa_volatile_find s1 k = wolfpsa_volatile_find s k"
      by (rule load_frame_find [OF f(1)])
    obtain rc st1 where rm: "so_remove ops (store s1) WOLFPSA_STORE_KEY (unat k) 0 = (rc, st1)"
      by fastforce
    show ?thesis
    proof (cases "wolfpsa_volatile_find s1 k")
      case None
      then have "s' = s1\<lparr>store := st1\<rparr>"
        "status = (if rc = WOLFPSA_STORE_NOT_AVAILABLE then PSA_ERROR_INVALID_HANDLE
                   else if rc \<noteq> WOLFPSA_STORE_OK then wolfpsa_store_open_status rc else PSA_SUCCESS)"
        using x k True env rm by (auto simp: psa_destroy_key_def Pair volatile_remove_ready [OF rdy])
      moreover have "rc = WOLFPSA_STORE_NOT_AVAILABLE \<Longrightarrow> recs (store s) (unat k) = None"
        using remove_absent [of "store s1" "unat k" st1] rm s1(2) by auto
      ultimately show ?thesis
        using None fd s1 ready_lock_ok [OF rdy] remove_recs [OF rm]
        by (auto simp: no_effect_def wolfpsa_store_open_status_def split: if_splits)
    next
      case (Some n)
      then show ?thesis
        using x k True s1 fd ready_lock_ok [OF rdy]
        by (auto simp: psa_destroy_key_def Pair volatile_remove_ready [OF rdy])
    qed
  qed
qed

end

end
