(* ===== verification/Key_Contract.thy ===== *)
theory Key_Contract
  imports Key_Api
begin

text \<open>
  What the key-management entry points do over any store that keeps the contract
  \<open>store_backend\<close>: the read-only ones agree with the abstract lookup \<open>ks_lookup\<close> and change
  nothing, a copy is an import of data that the source held under a policy no wider than the
  source's, and a generated key is an import of what the generator returned.
\<close>

unbundle bit_operations_syntax

section \<open>Attributes\<close>

lemma deserialize_success:
  "length hdr = header_length \<Longrightarrow>
   psa_key_attributes_deserialize (take attr_length hdr) a =
     (PSA_SUCCESS, snd (psa_key_attributes_deserialize (take attr_length hdr) a))"
  by (simp add: psa_key_attributes_deserialize_def)

lemma deserialize_usage:
  "length hdr = header_length \<Longrightarrow>
   usage (policy (snd (psa_key_attributes_deserialize (take attr_length hdr) a))) =
     un_le32 (take 4 (drop 4 hdr))"
  by (simp add: psa_key_attributes_deserialize_def drop_take min_def)

lemma validate_length_iff:
  "wolfpsa_validate_stored_key_data_length n = PSA_SUCCESS \<longleftrightarrow> 0 < n \<and> n \<le> INT_MAX"
  by (auto simp: wolfpsa_validate_stored_key_data_length_def)

lemma validate_length_not_handle [simp]:
  "wolfpsa_validate_stored_key_data_length n \<noteq> PSA_ERROR_INVALID_HANDLE"
  by (auto simp: wolfpsa_validate_stored_key_data_length_def)

text \<open>
  The attributes under an id: those of the volatile key, else those at the head of the record
  (which may be truncated after its header).
\<close>

definition attrs_lookup ::
    "(nat \<Rightarrow> byte list option) \<Rightarrow> 'st key_store \<Rightarrow> psa_key_id_t \<Rightarrow> psa_key_attributes_t option" where
  "attrs_lookup m s k =
    (case wolfpsa_volatile_find s k of
       Some n \<Rightarrow> Some ((attributes n)\<lparr>id := k\<rparr>)
     | None \<Rightarrow>
         (case m (unat k) of
            None \<Rightarrow> None
          | Some r \<Rightarrow>
              if length r < header_length then None
              else Some ((snd (psa_key_attributes_deserialize (take attr_length r)
                     psa_key_attributes_init))\<lparr>id := k\<rparr>)))"

lemma deserialize_id:
  "(snd (psa_key_attributes_deserialize buf a))\<lparr>id := k\<rparr> =
     (snd (psa_key_attributes_deserialize buf b))\<lparr>id := k\<rparr>" if "length buf \<ge> attr_length"
  using that by (simp add: psa_key_attributes_deserialize_def)

lemma attrs_of_lookup:
  assumes "ks_lookup m s a0 k = Some (a, d)"
  shows "attrs_lookup m s k = Some (a\<lparr>id := k\<rparr>)"
  using assms
  by (auto simp: ks_lookup_def attrs_lookup_def record_key_def Let_def
      psa_key_attributes_deserialize_def split: option.splits if_splits)

section \<open>Copied attributes\<close>

text \<open>
  The attributes of a copy: same kind of key, usage flags that both sides have, and an
  algorithm policy that admits exactly what both policies admit.
\<close>

lemma copy_attributes_narrow:
  assumes "copy_attributes a req = Inr a'"
  shows "usage (policy a) AND PSA_KEY_USAGE_COPY \<noteq> 0 \<and> type a' = type a \<and> bits a' = bits a \<and>
    lifetime a' = lifetime a \<and> id a' = id req \<and>
    usage (policy a') = usage (policy a) AND usage (policy req) \<and>
    (alg_admits (alg (policy a')) x \<longleftrightarrow> alg_admits (alg (policy a)) x \<and> alg_admits (alg (policy req)) x) \<and>
    (alg2 (policy a') \<noteq> PSA_ALG_NONE \<longrightarrow>
      (alg_admits (alg2 (policy a')) x \<longleftrightarrow>
         alg_admits (alg2 (policy a)) x \<and> alg_admits (alg2 (policy req)) x))"
proof -
  have i: "fst (wolfpsa_alg_intersect (alg (policy a)) (alg (policy req)))"
      "fst (wolfpsa_alg2_intersect (alg2 (policy a)) (alg2 (policy req)))"
    and a': "a' = req\<lparr>type := type a, bits := bits a,
        policy := \<lparr>usage = usage (policy a) AND usage (policy req),
          alg = snd (wolfpsa_alg_intersect (alg (policy a)) (alg (policy req))),
          alg2 = snd (wolfpsa_alg2_intersect (alg2 (policy a)) (alg2 (policy req)))\<rparr>\<rparr>"
    and u: "usage (policy a) AND PSA_KEY_USAGE_COPY \<noteq> 0" "lifetime req = lifetime a"
    using assms by (auto simp: copy_attributes_def split: if_splits prod.splits)
  have "alg_admits (snd (wolfpsa_alg2_intersect p q)) x \<longleftrightarrow> alg_admits p x \<and> alg_admits q x"
    if "snd (wolfpsa_alg2_intersect p q) \<noteq> PSA_ALG_NONE" "fst (wolfpsa_alg2_intersect p q)" for p q
    using that alg_intersect_admits [of p q x] by (auto simp: wolfpsa_alg2_intersect_def split: if_splits)
  then show ?thesis
    using i u alg_intersect_admits [of "alg (policy a)" "alg (policy req)" x] by (simp add: a')
qed

section \<open>Generators keep to their buffers\<close>

text \<open>
  What is documented of the generators: they write at most the capacity they are given, the
  random generator writes what it is asked for, and the seeds of the post-quantum keys are
  buffers of 32 and 64 bytes.
\<close>

definition env_bounded :: "('st, 'h) psa_env \<Rightarrow> bool" where
  "env_bounded env \<longleftrightarrow>
    (\<forall>i n. length (snd (wc_rng_block env i n)) \<le> n) \<and>
    (\<forall>i n c. length (snd (gen_rsa env i n c)) \<le> c) \<and>
    (\<forall>i t n c. length (snd (gen_ecc env i t n c)) \<le> c) \<and>
    (\<forall>i c. length (snd (gen_ed25519 env i c)) \<le> c) \<and>
    (\<forall>i c. length (snd (gen_ed448 env i c)) \<le> c) \<and>
    (\<forall>i c. length (snd (gen_x25519 env i c)) \<le> c) \<and>
    (\<forall>i c. length (snd (gen_x448 env i c)) \<le> c) \<and>
    (\<forall>i n. length (snd (mldsa_seed env i n)) \<le> 32) \<and>
    (\<forall>i n. length (snd (mlkem_seed env i n)) \<le> 64)"

lemma bits_to_bytes_small: "PSA_BITS_TO_BYTES (unat (b :: u16)) \<le> 8192"
  using unat_u16_less [of b] by (simp add: PSA_BITS_TO_BYTES_def del: unat_u16_less)

lemma random_length:
  assumes "env_bounded env" and "psa_generate_random env out s = (st, bs, s')"
  shows "length bs \<le> out_size out"
proof -
  have "length (snd (wc_rng_block env i n)) \<le> n" for i n using assms(1) by (simp add: env_bounded_def)
  from this [of "rng_calls (snd (wolfPSA_CryptoIsInitialized (env_build env) s))" "out_size out"]
  show ?thesis
    using assms(2) by (auto simp: psa_generate_random_def Let_def split: if_splits prod.splits)
qed

lemma gen_rsa_small:
  assumes "env_bounded env"
  shows "length (snd (gen_rsa env i (unat (b :: u16)) (PSA_KEY_EXPORT_RSA_KEY_PAIR_MAX_SIZE (unat b)))) \<le> 1000000"
proof -
  have "length (snd (gen_rsa env i n c)) \<le> c" for n c using assms by (simp add: env_bounded_def)
  moreover have "PSA_KEY_EXPORT_RSA_KEY_PAIR_MAX_SIZE (unat b) \<le> 1000000"
    using unat_u16_less [of b]
    by (simp add: PSA_KEY_EXPORT_RSA_KEY_PAIR_MAX_SIZE_def PSA_KEY_EXPORT_ASN1_INTEGER_MAX_SIZE_def
        del: unat_u16_less)
  ultimately show ?thesis using order_trans by blast
qed

lemma gen_ecc_small:
  assumes "env_bounded env" and "ecc_gen_size t b = Inr c"
  shows "length (snd (ecc_generate env i t b c)) \<le> 1000000"
proof -
  have "c \<le> 1000000"
    using assms(2) bits_to_bytes_small [of b]
    by (auto simp: ecc_gen_size_def PSA_KEY_EXPORT_ECC_KEY_PAIR_MAX_SIZE_def Let_def split: if_splits)
  moreover have "length (snd (ecc_generate env i t b c)) \<le> c"
    using assms(1) by (simp add: ecc_generate_def env_bounded_def Let_def)
  ultimately show ?thesis by simp
qed

section \<open>Success bounds the length\<close>

lemma c_int_le: "c_int n \<le> int INT_MAX"
  using sint_lt [of "word_of_nat n :: u32"] by (simp add: c_int_def)

lemma import_finish_bound:
  assumes "import_finish k n r = (PSA_SUCCESS, kid)" and "\<And>i. r = Inr i \<Longrightarrow> i \<le> int INT_MAX"
  shows "n \<le> INT_MAX"
  using assms
  by (auto simp: import_finish_def wolfpsa_store_open_status_def split: sum.splits if_splits)

lemma import_persistent_bound:
  assumes "ready (env_build env) s" and "import_persistent env k buf n s = (PSA_SUCCESS, kid, s')"
  shows "length buf \<le> INT_MAX"
proof -
  obtain r where "import_finish k (length buf) (map_sum (\<lambda>e. e) c_int r) = (PSA_SUCCESS, kid)"
    using assms(2)
    by (auto simp: import_persistent_ready [OF assms(1)] wolfpsa_store_open_status_def
        split: prod.splits open_result.splits if_splits)
  then show ?thesis
  proof (rule import_finish_bound)
    show "map_sum (\<lambda>e. e) c_int r = Inr i \<Longrightarrow> i \<le> int INT_MAX" for i
      using c_int_le by (cases r) auto
  qed
qed

lemma import_store_bound:
  assumes rdy: "ready (env_build env) s" and i: "import_store env a d k s = (PSA_SUCCESS, kid, s')"
  shows "header_length + length d \<le> INT_MAX"
proof (cases "PSA_KEY_LIFETIME_IS_VOLATILE (lifetime a)")
  case True
  then have "import_finish k (length (key_record a d)) (Inr (c_int (length (key_record a d)))) = (PSA_SUCCESS, kid)"
    using i by (auto simp: import_store_ready [OF rdy] split: if_splits prod.splits)
  then have "length (key_record a d) \<le> INT_MAX"
    by (rule import_finish_bound) (use c_int_le in auto)
  then show ?thesis by simp
next
  case False
  have r1: "ready (env_build env) (alloc_rest s)" using rdy by simp
  have "import_persistent env k (key_record a d) (length d) (alloc_rest s) = (PSA_SUCCESS, kid, s')"
    using i False by (simp add: import_store_ready [OF rdy] split: if_splits)
  from import_persistent_bound [OF r1 this] show ?thesis by simp
qed

text \<open>An import that reports success has a record whose length fits an \<open>int\<close>.\<close>

lemma import_success_bound:
  assumes lk: "lock_ok s" and i: "psa_import_key env aa din idn s = (PSA_SUCCESS, kid, s')"
  shows "header_length + in_length din \<le> INT_MAX"
proof -
  obtain a where v: "import_validate env aa din idn = Inr a"
  proof (cases "import_validate env aa din idn")
    case (Inl e)
    then show ?thesis using i validate_Inl [OF Inl] by (simp add: psa_import_key_def)
  qed
  have len: "in_length din = length (in_bytes din)"
    using v by (cases din) (auto elim!: validate_Inr)
  obtain ini s1 where c: "psa_key_storage_check_init (env_build env) s = (ini, s1)" by fastforce
  have ini: "ini = PSA_SUCCESS" using i v c by (auto simp: psa_import_key_def split: if_splits)
  then have rdy: "ready (env_build env) s1" using check_init_cases [OF lk c] by blast
  obtain r s2 where as: "import_assign_id (env_build env) a s1 = (r, s2)" by fastforce
  have r2: "ready (env_build env) s2"
    using as rdy by (auto simp: assign_id_ready [OF rdy] split: if_splits)
  obtain k where "import_store env a (in_bytes din) k s2 = (PSA_SUCCESS, kid, s')"
    using i v c ini as by (auto simp: psa_import_key_def assign_id_ready [OF rdy] split: if_splits sum.splits)
  from import_store_bound [OF r2 this] show ?thesis by (simp add: len)
qed

text \<open>What a failing export may leave in the caller's buffer: nothing, or zeros.\<close>

definition only_zeros :: "nat \<Rightarrow> byte list \<Rightarrow> bool" where
  "only_zeros cap bs \<longleftrightarrow> length bs \<le> cap \<and> bs = replicate (length bs) 0"

lemma only_zeros_simps [simp]: "only_zeros cap []" "only_zeros cap (replicate n 0) \<longleftrightarrow> n \<le> cap"
  by (simp_all add: only_zeros_def)

context key_backend
begin

section \<open>Common steps of the persistent paths\<close>

lemma header_fail:
  assumes env: "env_ops env = ops" and lk: "lock_ok s"
    and o: "open_read_header env k s = (Inl e, s1)"
  shows "load_frame recs s s1 \<and> e \<noteq> PSA_SUCCESS \<and>
    (e = PSA_ERROR_INVALID_HANDLE \<longrightarrow> recs (store s) (unat k) = None)"
  using open_read_header_recs [OF env o] load_frame_store [OF lk, of s1 "store s1" recs] by auto

lemma header_ok:
  assumes env: "env_ops env = ops" and lk: "lock_ok s"
    and o: "open_read_header env k s = (Inr (hdr, h), s1)"
  obtains rest where "recs (store s) (unat k) = Some (hdr @ rest)" "length hdr = header_length"
    "reading h rest" "load_frame recs s s1"
  using open_read_header_recs [OF env o] load_frame_store [OF lk, of s1 "store s1" recs] by auto

lemma close_frame:
  assumes env: "env_ops env = ops" and rd: "reading h rest" and f: "load_frame recs s x"
  shows "load_frame recs s (close_handle env h x)"
proof -
  have "lock_ok x" using f by (simp add: load_frame_def)
  from load_frame_store [OF this, of "close_handle env h x"] close_handle_recs [OF env rd, of x]
  have "load_frame recs x (close_handle env h x)" by blast
  with f show ?thesis by (rule load_frame_trans)
qed

lemma alloc_frame: "load_frame recs s x \<Longrightarrow> load_frame recs s (alloc_rest x)"
  by (simp add: load_frame_def)

lemma body_frame:
  assumes env: "env_ops env = ops" and rd: "reading h rest" and f: "load_frame recs s x"
    and b: "read_body_close env h n x = (r, s')"
  shows "load_frame recs s s' \<and> (\<forall>d. r = Some d \<longrightarrow> length d = n \<and> (\<exists>y. rest = d @ y))"
proof -
  have lk: "lock_ok x" using f by (simp add: load_frame_def)
  note c = read_body_close_recs [OF env rd b]
  have "load_frame recs x s'" using load_frame_store [OF lk, of s' "store s'"] c by blast
  with f c show ?thesis using load_frame_trans by blast
qed

section \<open>Export\<close>

lemma export_persistent_sound:
  assumes env: "env_ops env = ops" and lk: "lock_ok s"
    and x: "export_persistent env k cap s = (status, bs, n, s')"
  shows "load_frame recs s s' \<and>
    (if status = PSA_SUCCESS
     then n = length bs \<and> n \<le> cap \<and>
       (\<exists>r a. recs (store s) (unat k) = Some r \<and> record_key psa_key_attributes_init r = Some (a, bs) \<and>
          usage (policy a) AND PSA_KEY_USAGE_EXPORT \<noteq> 0)
     else n = 0 \<and> only_zeros cap bs)"
proof (cases "open_read_header env k s")
  case (Pair o1 s1)
  show ?thesis
  proof (cases o1)
    case (Inl e)
    then show ?thesis
      using header_fail [OF env lk Pair [unfolded Inl]] x by (auto simp: export_persistent_def Pair)
  next
    case (Inr hh)
    obtain hdr h where hh: "hh = (hdr, h)" by fastforce
    obtain rest where c: "recs (store s) (unat k) = Some (hdr @ rest)" "length hdr = header_length"
      "reading h rest" "load_frame recs s s1"
      using header_ok [OF env lk Pair [unfolded Inr hh]] by blast
    note cl = close_frame [OF env c(3) c(4)]
    define m where "m = header_data_length hdr"
    obtain r s3 where b: "read_body_close env h m s1 = (r, s3)" by fastforce
    note body = body_frame [OF env c(3) c(4) b]
    show ?thesis
    proof (cases "wolfpsa_validate_stored_key_data_length m = PSA_SUCCESS")
      case False
      then show ?thesis
        using x cl by (auto simp: export_persistent_def Pair Inr hh m_def [symmetric] Let_def split: if_splits)
    next
      case True
      then have m: "0 < m" "m \<le> INT_MAX" by (simp_all add: validate_length_iff)
      have rk: "length d = m \<Longrightarrow> record_key psa_key_attributes_init (hdr @ d @ y) =
          Some (snd (psa_key_attributes_deserialize (take attr_length hdr) psa_key_attributes_init), d)"
        for d y by (rule record_key_split [OF c(2) m_def [symmetric] m])
      show ?thesis
        using x cl body True b c rk deserialize_usage [OF c(2), of psa_key_attributes_init]
        by (auto simp: export_persistent_def Pair Inr hh m_def [symmetric] Let_def
            split: if_splits option.splits)
    qed
  qed
qed

lemma export_sound:
  assumes env: "env_ops env = ops" and lk: "lock_ok s"
    and x: "psa_export_key env k out ln s = (status, bs, n, s')"
  shows "load_frame recs s s' \<and>
    (if status = PSA_SUCCESS
     then n = length bs \<and> n \<le> out_size out \<and>
       (\<exists>a. ks_lookup (recs (store s)) s psa_key_attributes_init k = Some (a, bs) \<and>
          usage (policy a) AND PSA_KEY_USAGE_EXPORT \<noteq> 0)
     else n = 0 \<and> only_zeros (out_size out) bs)"
proof (cases "psa_key_storage_check_init (env_build env) s")
  case (Pair ini s1)
  note f = load_frame_ready(1) [OF lk Pair, of recs] load_frame_ready(2) [OF lk Pair]
  have f0: "load_frame recs s s" using lk by (simp add: load_frame_def)
  show ?thesis
  proof (cases "ini = PSA_SUCCESS")
    case False
    then show ?thesis using x f(1) f0 by (auto simp: psa_export_key_def Pair split: if_splits)
  next
    case True
    then have rdy: "ready (env_build env) s1" by (rule f(2))
    note fd = load_frame_find [OF f(1), of k]
    have re: "recs (store s1) = recs (store s)" using f(1) by (simp add: load_frame_def)
    show ?thesis
    proof (cases "wolfpsa_volatile_find s1 k")
      case (Some node)
      then show ?thesis
        using x True f(1) f0 fd alloc_frame [OF f(1)]
        by (auto simp: psa_export_key_def Pair volatile_get_ready [OF rdy] ks_lookup_def split: if_splits)
    next
      case None
      show ?thesis
      proof (cases "ln \<or> out_null out \<and> out_size out \<noteq> 0")
        case True
        then show ?thesis using x f0 by (auto simp: psa_export_key_def)
      next
        case False
        then have "export_persistent env k (out_size out) s1 = (status, bs, n, s')"
          using x True None
          by (simp add: psa_export_key_def if_not_P [OF False] Pair volatile_get_ready [OF rdy] del: de_Morgan_conj de_Morgan_disj)
        from export_persistent_sound [OF env ready_lock_ok [OF rdy] this] show ?thesis
          using None fd re load_frame_trans [OF f(1)] by (auto simp: ks_lookup_def split: if_splits)
      qed
    qed
  qed
qed

section \<open>Attributes of a stored key\<close>

lemma get_attributes_eq:
  assumes i: "psa_key_storage_check_init (env_build env) s = (PSA_SUCCESS, s1)"
    and rdy: "ready (env_build env) s1"
  shows "psa_get_key_attributes env k False s =
    (case wolfpsa_volatile_find s1 k of
       Some n \<Rightarrow> (PSA_SUCCESS, (attributes n)\<lparr>id := k\<rparr>, s1)
     | None \<Rightarrow>
         (case open_read_header env k s1 of
            (Inl e, s2) \<Rightarrow> (e, psa_key_attributes_init, s2)
          | (Inr (hdr, h), s2) \<Rightarrow>
              (PSA_SUCCESS,
               (snd (psa_key_attributes_deserialize (take attr_length hdr) psa_key_attributes_init))
                 \<lparr>id := k\<rparr>, close_handle env h s2)))"
proof -
  have d: "psa_key_attributes_deserialize (take attr_length hdr) a = (x, y) \<Longrightarrow>
      length hdr = header_length \<Longrightarrow> x = PSA_SUCCESS" for hdr a x y
    using deserialize_success [of hdr a] by simp
  show ?thesis
    using i
    by (auto simp: psa_get_key_attributes_def volatile_get_attributes_ready [OF rdy]
        open_read_header_def close_handle_def Let_def dest: d
        split: option.splits prod.splits open_result.splits sum.splits)
qed

lemma get_attributes_sound:
  assumes env: "env_ops env = ops" and lk: "lock_ok s"
    and x: "psa_get_key_attributes env k an s = (status, a, s')"
  shows "load_frame recs s s' \<and>
    (status = PSA_SUCCESS \<longrightarrow> attrs_lookup (recs (store s)) s k = Some a) \<and>
    (status = PSA_ERROR_INVALID_HANDLE \<longrightarrow> attrs_lookup (recs (store s)) s k = None)"
proof (cases "an \<or> fst (psa_key_storage_check_init (env_build env) s) \<noteq> PSA_SUCCESS")
  case True
  obtain ini s1 where i: "psa_key_storage_check_init (env_build env) s = (ini, s1)" by fastforce
  have "load_frame recs s s" using lk by (simp add: load_frame_def)
  then show ?thesis
    using x True i load_frame_ready(1) [OF lk i, of recs] check_init_not_handle [OF i]
    by (auto simp: psa_get_key_attributes_def Let_def split: if_splits)
next
  case False
  then obtain s1 where i: "psa_key_storage_check_init (env_build env) s = (PSA_SUCCESS, s1)" and an: "\<not> an"
    by (metis prod.collapse)
  note f = load_frame_ready(1) [OF lk i, of recs] load_frame_ready(2) [OF lk i, OF refl]
  note lk1 = ready_lock_ok [OF f(2)]
  have fd: "wolfpsa_volatile_find s1 k = wolfpsa_volatile_find s k" and re: "recs (store s1) = recs (store s)"
    using load_frame_find [OF f(1)] f(1) by (auto simp: load_frame_def)
  obtain o1 s2 where o: "open_read_header env k s1 = (o1, s2)" by fastforce
  have x': "psa_get_key_attributes env k False s = (status, a, s')" using x an by simp
  show ?thesis
  proof (cases "wolfpsa_volatile_find s1 k")
    case (Some n)
    then show ?thesis
      using x' f(1) fd by (auto simp: get_attributes_eq [OF i f(2)] attrs_lookup_def)
  next
    case None
    show ?thesis
    proof (cases o1)
      case (Inl e)
      then show ?thesis
        using x' None fd re header_fail [OF env lk1 o [unfolded Inl]] load_frame_trans [OF f(1)]
        by (auto simp: get_attributes_eq [OF i f(2)] o attrs_lookup_def)
    next
      case (Inr hh)
      obtain hdr h where hh: "hh = (hdr, h)" by fastforce
      obtain rest where c: "recs (store s1) (unat k) = Some (hdr @ rest)" "length hdr = header_length"
        "reading h rest" "load_frame recs s1 s2"
        using header_ok [OF env lk1 o [unfolded Inr hh]] by blast
      show ?thesis
        using x' None fd re c(1,2) load_frame_trans [OF f(1) close_frame [OF env c(3,4)]]
        by (auto simp: get_attributes_eq [OF i f(2)] o Inr hh attrs_lookup_def)
    qed
  qed
qed

lemma get_attributes_healthy:
  assumes env: "env_ops env = ops" and rdy: "ready (env_build env) s"
    and ini: "g_psa_crypto_initialized s" and h: "healthy (store s)" and k: "valid (unat k)"
  shows "\<exists>st'. healthy st' \<and> psa_get_key_attributes env k False s =
    (case attrs_lookup (recs (store s)) s k of
       Some a \<Rightarrow> (PSA_SUCCESS, a, s\<lparr>g_key_storage_initialized := True, store := st'\<rparr>)
     | None \<Rightarrow> (if recs (store s) (unat k) = None then PSA_ERROR_INVALID_HANDLE
               else PSA_ERROR_STORAGE_FAILURE,
               psa_key_attributes_init, s\<lparr>g_key_storage_initialized := True, store := st'\<rparr>))"
proof -
  let ?s1 = "s\<lparr>g_key_storage_initialized := True\<rparr>"
  have i: "psa_key_storage_check_init (env_build env) s = (PSA_SUCCESS, ?s1)"
    using check_init_ready [OF rdy] ini by simp
  have r1: "ready (env_build env) ?s1" using rdy by simp
  note eq = get_attributes_eq [OF i r1, of k]
  consider (vol) n where "wolfpsa_volatile_find s k = Some n"
    | (absent) "wolfpsa_volatile_find s k = None" "recs (store s) (unat k) = None"
    | (short) r where "wolfpsa_volatile_find s k = None" "recs (store s) (unat k) = Some r"
        "length r < header_length"
    | (full) r where "wolfpsa_volatile_find s k = None" "recs (store s) (unat k) = Some r"
        "header_length \<le> length r"
    by (metis not_less option.exhaust)
  then show ?thesis
  proof cases
    case vol
    then show ?thesis using eq h by (auto simp: attrs_lookup_def intro!: exI [of _ "store s"])
  next
    case absent
    then show ?thesis
      using eq healthy_open_read_header_absent [OF env, of ?s1 k] h k by (auto simp: attrs_lookup_def)
  next
    case short
    then show ?thesis
      using eq healthy_open_read_header_short [OF env, of ?s1 k r] h by (auto simp: attrs_lookup_def)
  next
    case full
    have s: "recs (store ?s1) (unat k) = Some (take header_length r @ drop header_length r)"
      "length (take header_length r) = header_length" using full by auto
    obtain fh st1 where o: "open_read_header env k ?s1 = (Inr (take header_length r, fh), ?s1\<lparr>store := st1\<rparr>)"
      "healthy st1" "reading fh (drop header_length r)"
      using healthy_open_read_header [OF env _ s] h by auto
    obtain rc st2 where "so_close ops st1 fh = (rc, st2)" "healthy st2"
      using healthy_close_read [OF o(2,3)] by blast
    then show ?thesis
      using eq o full env by (auto simp: attrs_lookup_def close_handle_def)
  qed
qed

text \<open>The usage check grants exactly what the stored policy grants.\<close>

lemma check_usage_sound:
  assumes env: "env_ops env = ops" and lk: "lock_ok s"
    and x: "psa_check_key_usage env k al u s = (status, s')"
  shows "load_frame recs s s' \<and>
    (status = PSA_SUCCESS \<longrightarrow>
       (\<exists>a. attrs_lookup (recs (store s)) s k = Some a \<and> usage (policy a) AND u = u \<and>
          (al = PSA_ALG_NONE \<or> wolfpsa_key_permits_alg a al)))"
proof -
  obtain st a s1 where g: "psa_get_key_attributes env k False s = (st, a, s1)" by (metis prod_cases3)
  from get_attributes_sound [OF env lk g] show ?thesis
    using x by (auto simp: psa_check_key_usage_def g split: if_splits)
qed

section \<open>Copy\<close>

text \<open>
  A copy either fails and leaves the key store alone, or is an import of the source's data
  under attributes that \<open>copy_attributes\<close> computed from the source's.
\<close>

lemma copy_persistent_import:
  assumes env: "env_ops env = ops" and lk: "lock_ok s"
    and x: "copy_persistent env k req s = (status, kid, s')"
  shows "status \<noteq> PSA_SUCCESS \<and> kid = PSA_KEY_ID_NULL \<and> load_frame recs s s' \<or>
    (\<exists>r a d a' s1. recs (store s) (unat k) = Some r \<and> record_key psa_key_attributes_init r = Some (a, d) \<and>
       copy_attributes a req = Inr a' \<and> load_frame recs s s1 \<and>
       psa_import_key env (Some a') (In d) False s1 = (status, kid, s'))"
proof (cases "open_read_header env k s")
  case (Pair o1 s1)
  show ?thesis
  proof (cases o1)
    case (Inl e)
    then show ?thesis
      using header_fail [OF env lk Pair [unfolded Inl]] x by (auto simp: copy_persistent_def Pair)
  next
    case (Inr hh)
    obtain hdr h where hh: "hh = (hdr, h)" by fastforce
    obtain rest where c: "recs (store s) (unat k) = Some (hdr @ rest)" "length hdr = header_length"
      "reading h rest" "load_frame recs s s1"
      using header_ok [OF env lk Pair [unfolded Inr hh]] by blast
    note cl = close_frame [OF env c(3) c(4)] close_frame [OF env c(3) alloc_frame [OF c(4)]]
    define m where "m = header_data_length hdr"
    define a where "a = snd (psa_key_attributes_deserialize (take attr_length hdr) psa_key_attributes_init)"
    have ds: "psa_key_attributes_deserialize (take attr_length hdr) psa_key_attributes_init = (PSA_SUCCESS, a)"
      unfolding a_def by (rule deserialize_success [OF c(2)])
    obtain r s3 where b: "read_body_close env h m (alloc_rest s1) = (r, s3)" by fastforce
    note body = body_frame [OF env c(3) alloc_frame [OF c(4)] b]
    show ?thesis
    proof (cases "copy_attributes a req")
      case bad: (Inl e)
      then have "e \<noteq> PSA_SUCCESS"
        by (auto simp: copy_attributes_def Let_def split: if_splits prod.splits)
      with bad show ?thesis using x cl by (auto simp: copy_persistent_def Pair Inr hh ds)
    next
      case ca: (Inr a')
      show ?thesis
      proof (cases "wolfpsa_validate_stored_key_data_length m = PSA_SUCCESS \<and> alloc_next s1")
        case False
        then show ?thesis
          using x cl by (auto simp: copy_persistent_def Pair Inr hh ds ca m_def [symmetric] s_xmalloc_eq
              Let_def split: if_splits)
      next
        case True
        then have m: "0 < m" "m \<le> INT_MAX" by (simp_all add: validate_length_iff)
        have rk: "length d = m \<Longrightarrow> record_key psa_key_attributes_init (hdr @ d @ y) = Some (a, d)" for d y
          unfolding a_def by (rule record_key_split [OF c(2) m_def [symmetric] m])
        have x': "(case r of None \<Rightarrow> (PSA_ERROR_STORAGE_FAILURE, PSA_KEY_ID_NULL, s3)
            | Some d \<Rightarrow> psa_import_key env (Some a') (In d) False s3) = (status, kid, s')"
          using x True by (simp add: copy_persistent_def Pair Inr hh ds ca m_def [symmetric]
              s_xmalloc_eq b split: option.splits)
        show ?thesis
        proof (cases r)
          case None
          then show ?thesis using x' body by auto
        next
          case (Some d)
          then obtain y where "length d = m" "rest = d @ y" using body by blast
          then show ?thesis using Some x' body c(1) rk ca by auto
        qed
      qed
    qed
  qed
qed

lemma copy_import:
  assumes env: "env_ops env = ops" and lk: "lock_ok s"
    and x: "psa_copy_key env k aa idn s = (status, kid, s')"
  shows "status \<noteq> PSA_SUCCESS \<and> kid = PSA_KEY_ID_NULL \<and> load_frame recs s s' \<or>
    (\<exists>req a d a' s1. aa = Some req \<and> ks_lookup (recs (store s)) s psa_key_attributes_init k = Some (a, d) \<and>
       copy_attributes a req = Inr a' \<and> load_frame recs s s1 \<and>
       psa_import_key env (Some a') (In d) False s1 = (status, kid, s'))"
proof (cases "aa = None \<or> idn \<or> fst (psa_key_storage_check_init (env_build env) s) \<noteq> PSA_SUCCESS")
  case True
  obtain ini s1 where i: "psa_key_storage_check_init (env_build env) s = (ini, s1)" by fastforce
  have "load_frame recs s s" using lk by (simp add: load_frame_def)
  then show ?thesis
    using x True i load_frame_ready(1) [OF lk i, of recs]
    by (auto simp: psa_copy_key_def split: if_splits option.splits)
next
  case False
  then obtain req s1 where i: "psa_key_storage_check_init (env_build env) s = (PSA_SUCCESS, s1)"
    and an: "\<not> idn" "aa = Some req"
    by (metis not_None_eq prod.collapse)
  note f = load_frame_ready(1) [OF lk i, of recs] load_frame_ready(2) [OF lk i, OF refl]
  have fd: "wolfpsa_volatile_find s1 k = wolfpsa_volatile_find s k" and re: "recs (store s1) = recs (store s)"
    using load_frame_find [OF f(1)] f(1) by (auto simp: load_frame_def)
  show ?thesis
  proof (cases "wolfpsa_volatile_find s1 k")
    case None
    then have "copy_persistent env k req s1 = (status, kid, s')"
      using x an i by (simp add: psa_copy_key_def volatile_get_ready [OF f(2)])
    from copy_persistent_import [OF env ready_lock_ok [OF f(2)] this] show ?thesis
      using None an(2) fd re load_frame_trans [OF f(1)] by (fastforce simp: ks_lookup_def)
  next
    case (Some n)
    have "copy_attributes (attributes n) req = Inl e \<Longrightarrow> e \<noteq> PSA_SUCCESS" for e
      by (auto simp: copy_attributes_def Let_def split: if_splits prod.splits)
    then show ?thesis
      using x an i Some fd f(1) alloc_frame [OF f(1)]
      by (auto simp: psa_copy_key_def volatile_get_ready [OF f(2)] ks_lookup_def split: if_splits sum.splits)
  qed
qed

section \<open>Generation\<close>

text \<open>A generated key is an import of the generator's output under the caller's attributes.\<close>

lemma generate_random_frame:
  assumes "lock_ok s" and "psa_generate_random env out s = (status, bs, s')"
  shows "load_frame recs s s'"
proof -
  obtain i s1 where i: "wolfPSA_CryptoIsInitialized (env_build env) s = (i, s1)" by fastforce
  have "load_frame recs s s1"
    using is_initialized_cases [OF assms(1) i] load_frame_core by blast
  then show ?thesis
    using assms(2) i
    by (auto simp: psa_generate_random_def Let_def load_frame_def split: if_splits prod.splits)
qed

lemma generate_unstructured_import:
  assumes lk: "lock_ok s" and x: "generate_unstructured env a s = (status, kid, s')"
  shows "status \<noteq> PSA_SUCCESS \<and> kid = PSA_KEY_ID_NULL \<and> load_frame recs s s' \<or>
    (\<exists>d s1. load_frame recs s s1 \<and> psa_import_key env (Some a) (In d) False s1 = (status, kid, s') \<and>
       (env_bounded env \<longrightarrow> header_length + length d \<le> INT_MAX))"
proof -
  have f: "load_frame recs s s" "load_frame recs s (alloc_rest s)"
    using lk by (simp_all add: load_frame_def)
  obtain st d s2 where g: "psa_generate_random env (Out (PSA_BITS_TO_BYTES (unat (bits a)))) (alloc_rest s) = (st, d, s2)"
    by (metis prod_cases3)
  have "load_frame recs s s2"
    using load_frame_trans [OF f(2) generate_random_frame [OF _ g]] lk by simp
  moreover have "env_bounded env \<longrightarrow> header_length + length d \<le> INT_MAX"
    using random_length [OF _ g] bits_to_bytes_small [of "bits a"] by auto
  ultimately show ?thesis
    using x f g by (auto simp: generate_unstructured_def s_xmalloc_eq Let_def split: if_splits)
qed

lemma generate_import:
  assumes lk: "lock_ok s" and x: "psa_generate_key env aa idn s = (status, kid, s')"
  shows "status \<noteq> PSA_SUCCESS \<and> kid = PSA_KEY_ID_NULL \<and> load_frame recs s s' \<or>
    (\<exists>d s1. load_frame recs s s1 \<and> psa_import_key env aa (In d) False s1 = (status, kid, s') \<and>
       (env_bounded env \<longrightarrow> header_length + length d \<le> INT_MAX))"
proof (cases aa)
  case None
  then show ?thesis using x lk by (simp add: psa_generate_key_def load_frame_def)
next
  case (Some a)
  let ?P = "\<lambda>(status, kid, s'). status \<noteq> PSA_SUCCESS \<and> kid = PSA_KEY_ID_NULL \<and> load_frame recs s s' \<or>
    (\<exists>d s1. load_frame recs s s1 \<and> psa_import_key env (Some a) (In d) False s1 = (status, kid, s') \<and>
       (env_bounded env \<longrightarrow> header_length + length d \<le> INT_MAX))"
  have f: "load_frame recs s s" "load_frame recs s (alloc_rest s)" "load_frame recs s (alloc_rest (alloc_rest s))"
    using lk by (simp_all add: load_frame_def)
  have fail: "?P (e, PSA_KEY_ID_NULL, y)" if "e \<noteq> PSA_SUCCESS" "load_frame recs s y" for e y
    using that by simp
  have gen: "?P (import_generated env a g y)"
    if "load_frame recs s y" "env_bounded env \<Longrightarrow> length (snd g) \<le> 1000000" for g y
  proof -
    have "load_frame recs s (y\<lparr>rng_calls := Suc (rng_calls y)\<rparr>)"
      using that(1) by (simp add: load_frame_def)
    moreover have "env_bounded env \<longrightarrow> header_length + length (snd g) \<le> INT_MAX" using that(2) by auto
    ultimately show ?thesis
      by (cases "psa_import_key env (Some a) (In (snd g)) False (y\<lparr>rng_calls := Suc (rng_calls y)\<rparr>)")
        (auto simp: import_generated_def Let_def)
  qed
  have uns: "?P (generate_unstructured env a s)"
    using generate_unstructured_import [OF lk, of env a] by (cases "generate_unstructured env a s") auto
  have rsa: "?P (generate_rsa env a s)"
    using gen [OF f(2) gen_rsa_small, of env "rng_calls s" "bits a"] fail f by (simp add: generate_rsa_def s_xmalloc_eq Let_def)
  have ecc: "?P (generate_ecc env a s)"
  proof (cases "ecc_gen_size (type a) (bits a)")
    case (Inl e)
    then have "e \<noteq> PSA_SUCCESS" by (auto simp: ecc_gen_size_def Let_def split: if_splits)
    with Inl show ?thesis using f by (simp add: generate_ecc_def)
  next
    case (Inr c)
    then show ?thesis
      using gen [OF f(3) gen_ecc_small [OF _ Inr], of env "rng_calls s"] fail f
      by (simp add: generate_ecc_def s_xmalloc_eq Let_def)
  qed
  have seeds: "length (snd (mldsa_seed env i n)) \<le> 1000000" "length (snd (mlkem_seed env i n)) \<le> 1000000"
    if "env_bounded env" for i n
  proof -
    have "length (snd (mldsa_seed env i n)) \<le> 32" "length (snd (mlkem_seed env i n)) \<le> 64"
      using that by (simp_all add: env_bounded_def)
    then show "length (snd (mldsa_seed env i n)) \<le> 1000000" "length (snd (mlkem_seed env i n)) \<le> 1000000"
      by linarith+
  qed
  have I: "?P x \<Longrightarrow> ?P y \<Longrightarrow> ?P (if c then x else y)" for c x y by simp
  have "?P (psa_generate_key env aa idn s)"
    unfolding psa_generate_key_def Some option.case Let_def
    by (intro I uns rsa ecc gen fail f) (simp_all add: seeds)
  then show ?thesis using x Some by auto
qed

section \<open>Public keys\<close>

lemma export_public_of_frame:
  assumes "load_frame recs s x" and "export_public_of env a d cap x = (status, bs, n, s')"
  shows "load_frame recs s s'"
proof -
  have "load_frame recs s (alloc_rest (alloc_rest x))" using assms(1) by (simp add: load_frame_def)
  then show ?thesis
    using assms
    by (auto simp: export_public_of_def export_rsa_pair_def s_xmalloc_eq Let_def
        split: if_splits prod.splits option.splits)
qed

lemma export_public_of_id: "export_public_of env (a\<lparr>id := k\<rparr>) d cap s = export_public_of env a d cap s"
  by (simp add: export_public_of_def export_ecc_pair_def export_pqc_def Let_def)

lemma load_public_sound:
  assumes env: "env_ops env = ops" and lk: "lock_ok s"
    and x: "load_public_data env k s = (r, s')"
  shows "load_frame recs s s' \<and>
    (case r of
       Inl e \<Rightarrow> e \<noteq> PSA_SUCCESS
     | Inr d \<Rightarrow> \<exists>rc. recs (store s) (unat k) = Some rc \<and> record_key psa_key_attributes_init rc =
         Some (snd (psa_key_attributes_deserialize (take attr_length rc) psa_key_attributes_init), d))"
proof (cases "open_read_header env k s")
  case (Pair o1 s1)
  show ?thesis
  proof (cases o1)
    case (Inl e)
    then show ?thesis
      using header_fail [OF env lk Pair [unfolded Inl]] x by (auto simp: load_public_data_def Pair)
  next
    case (Inr hh)
    obtain hdr h where hh: "hh = (hdr, h)" by fastforce
    obtain rest where c: "recs (store s) (unat k) = Some (hdr @ rest)" "length hdr = header_length"
      "reading h rest" "load_frame recs s s1"
      using header_ok [OF env lk Pair [unfolded Inr hh]] by blast
    note cl = close_frame [OF env c(3) c(4)] close_frame [OF env c(3) alloc_frame [OF c(4)]]
    define m where "m = header_data_length hdr"
    obtain rb s3 where b: "read_body_close env h m (alloc_rest s1) = (rb, s3)" by fastforce
    note body = body_frame [OF env c(3) alloc_frame [OF c(4)] b]
    show ?thesis
    proof (cases "wolfpsa_validate_stored_key_data_length m = PSA_SUCCESS")
      case False
      then show ?thesis
        using x cl by (auto simp: load_public_data_def Pair Inr hh m_def [symmetric] Let_def)
    next
      case True
      then have m: "0 < m" "m \<le> INT_MAX" by (simp_all add: validate_length_iff)
      have rk: "length d = m \<Longrightarrow> record_key psa_key_attributes_init (hdr @ d @ y) =
          Some (snd (psa_key_attributes_deserialize (take attr_length hdr) psa_key_attributes_init), d)"
        for d y by (rule record_key_split [OF c(2) m_def [symmetric] m])
      show ?thesis
        using x cl body True c rk
        by (auto simp: load_public_data_def Pair Inr hh m_def [symmetric] s_xmalloc_eq b
            split: if_splits option.splits)
    qed
  qed
qed

lemma export_public_sound:
  assumes env: "env_ops env = ops" and lk: "lock_ok s"
    and x: "psa_export_public_key env k out ln s = (status, bs, n, s')"
  shows "load_frame recs s s' \<and>
    (status = PSA_SUCCESS \<longrightarrow>
       (\<exists>a d s1. ks_lookup (recs (store s)) s psa_key_attributes_init k = Some (a, d) \<and>
          has_public_part (type a) \<and>
          export_public_of env a d (out_size out) s1 = (PSA_SUCCESS, bs, n, s')))"
proof (cases "ln \<or> out_null out \<and> out_size out \<noteq> 0 \<or> fst (psa_key_storage_check_init (env_build env) s) \<noteq> PSA_SUCCESS")
  case True
  obtain ini s1 where i: "psa_key_storage_check_init (env_build env) s = (ini, s1)" by fastforce
  have "load_frame recs s s" using lk by (simp add: load_frame_def)
  then show ?thesis
    using x True i load_frame_ready(1) [OF lk i, of recs]
    by (auto simp: psa_export_public_key_def split: if_splits)
next
  case False
  then obtain s1 where i: "psa_key_storage_check_init (env_build env) s = (PSA_SUCCESS, s1)"
    by (metis prod.collapse)
  have an: "ln = False" "(out_null out \<and> 0 < out_size out) = False" using False by auto
  note f = load_frame_ready(1) [OF lk i, of recs] load_frame_ready(2) [OF lk i, OF refl]
  note lk1 = ready_lock_ok [OF f(2)]
  have fd: "wolfpsa_volatile_find s1 k = wolfpsa_volatile_find s k" and re: "recs (store s1) = recs (store s)"
    using load_frame_find [OF f(1)] f(1) by (auto simp: load_frame_def)
  show ?thesis
  proof (cases "wolfpsa_volatile_find s1 k")
    case (Some node)
    have e: "(if data node = [] then (PSA_ERROR_DATA_INVALID, [], 0, s1)
        else if \<not> alloc_next s1 then (PSA_ERROR_INSUFFICIENT_MEMORY, [], 0, alloc_rest s1)
        else if \<not> has_public_part (type (attributes node)) then (PSA_ERROR_INVALID_ARGUMENT, [], 0, alloc_rest s1)
        else export_public_of env (attributes node) (data node) (out_size out) (alloc_rest s1)) =
        (status, bs, n, s')"
      using x Some by (simp add: psa_export_public_key_def an i volatile_get_ready [OF f(2)] split: if_splits)
    show ?thesis
      using e Some fd f(1) alloc_frame [OF f(1)]
        export_public_of_frame [OF alloc_frame [OF f(1)], of env "attributes node" "data node" "out_size out" status bs n s']
      by (auto simp: ks_lookup_def split: if_splits)
  next
    case None
    obtain ast a s3 where g: "psa_get_key_attributes env k False s1 = (ast, a, s3)" by (metis prod_cases3)
    obtain r s4 where l: "load_public_data env k s3 = (r, s4)" by fastforce
    note gs = get_attributes_sound [OF env lk1 g]
    then have f3: "load_frame recs s s3" and lk3: "lock_ok s3"
      using load_frame_trans [OF f(1)] by (auto simp: load_frame_def)
    note ls = load_public_sound [OF env lk3 l]
    then have f4: "load_frame recs s s4" using load_frame_trans [OF f3] by blast
    have e: "(if ast \<noteq> PSA_SUCCESS then (ast, [], 0, s3)
        else if \<not> has_public_part (type a) then (PSA_ERROR_INVALID_ARGUMENT, [], 0, s3)
        else case r of Inl e \<Rightarrow> (e, [], 0, s4) | Inr d \<Rightarrow> export_public_of env a d (out_size out) s4) =
        (status, bs, n, s')"
      using x None
      by (auto simp: psa_export_public_key_def an i volatile_get_ready [OF f(2)] g l split: sum.splits if_splits)
    show ?thesis
    proof (cases "ast = PSA_SUCCESS \<and> has_public_part (type a)")
      case False
      then show ?thesis using e f3 by (auto split: if_splits)
    next
      case True
      show ?thesis
      proof (cases r)
        case (Inl e')
        then show ?thesis using e True f4 ls by auto
      next
        case (Inr d)
        have x': "export_public_of env a d (out_size out) s4 = (status, bs, n, s')"
          using e True Inr by simp
        define a0 where "a0 = snd (psa_key_attributes_deserialize
            (take attr_length (the (recs (store s3) (unat k)))) psa_key_attributes_init)"
        have r3: "recs (store s3) = recs (store s)" using f3 by (simp add: load_frame_def)
        have lk0: "ks_lookup (recs (store s)) s psa_key_attributes_init k = Some (a0, d)"
          using ls Inr None fd r3 by (auto simp: ks_lookup_def a0_def)
        have "a = a0\<lparr>id := k\<rparr>"
          using gs True attrs_of_lookup [OF lk0] fd re None by (auto simp: attrs_lookup_def)
        then show ?thesis
          using x' lk0 True export_public_of_frame [OF f4 x']
          by (auto simp: export_public_of_id intro!: exI [of _ a0] exI [of _ d])
      qed
    qed
  qed
qed

end

end
