(* ===== verification/Key_Machine.thy ===== *)
theory Key_Machine
  imports Key_Contract
begin

text \<open>
  The key store as a state machine. \<open>api_op\<close> lists the key-management calls, \<open>run_op\<close> performs
  one, \<open>reachable\<close> are the states of a process that makes any sequence of calls while
  allocations and the mutex creation may fail at any time. \<open>ks_inv\<close> holds in all of them. For
  callers that keep their persistent ids outside the vendor range the machine refines a map
  from ids to keys, \<open>abs_step\<close>.
\<close>

unbundle bit_operations_syntax

section \<open>Calls\<close>

datatype api_op =
    Op_init wc_ret
  | Op_cleanup
  | Op_import "psa_key_attributes_t option" inbuf bool
  | Op_generate "psa_key_attributes_t option" bool
  | Op_destroy psa_key_id_t
  | Op_export psa_key_id_t outbuf bool
  | Op_export_public psa_key_id_t outbuf bool
  | Op_get_attributes psa_key_id_t bool
  | Op_purge psa_key_id_t
  | Op_check_usage psa_key_id_t psa_algorithm_t psa_key_usage_t
  | Op_copy psa_key_id_t "psa_key_attributes_t option" bool
  | Op_get_key_data psa_key_id_t psa_key_attributes_t
  | Op_random outbuf

text \<open>The status of the call, the id it hands out, the bytes it writes and the new state.\<close>

fun run_op ::
    "('st, 'h) psa_env \<Rightarrow> api_op \<Rightarrow> 'st key_store \<Rightarrow>
     psa_status \<times> psa_key_id_t \<times> byte list \<times> 'st key_store" where
  "run_op env (Op_init r) s =
    (case psa_crypto_init (env_build env) r s of (st, s') \<Rightarrow> (st, PSA_KEY_ID_NULL, [], s'))"
| "run_op env Op_cleanup s = (PSA_SUCCESS, PSA_KEY_ID_NULL, [], wolfPSA_CryptoCleanup (env_build env) s)"
| "run_op env (Op_import aa din idn) s =
    (case psa_import_key env aa din idn s of (st, kid, s') \<Rightarrow> (st, kid, [], s'))"
| "run_op env (Op_generate aa idn) s =
    (case psa_generate_key env aa idn s of (st, kid, s') \<Rightarrow> (st, kid, [], s'))"
| "run_op env (Op_destroy k) s =
    (case psa_destroy_key env k s of (st, s') \<Rightarrow> (st, PSA_KEY_ID_NULL, [], s'))"
| "run_op env (Op_export k out ln) s =
    (case psa_export_key env k out ln s of (st, bs, n, s') \<Rightarrow> (st, PSA_KEY_ID_NULL, take n bs, s'))"
| "run_op env (Op_export_public k out ln) s =
    (case psa_export_public_key env k out ln s of (st, bs, n, s') \<Rightarrow> (st, PSA_KEY_ID_NULL, take n bs, s'))"
| "run_op env (Op_get_attributes k an) s =
    (case psa_get_key_attributes env k an s of (st, a, s') \<Rightarrow> (st, PSA_KEY_ID_NULL, [], s'))"
| "run_op env (Op_purge k) s =
    (case psa_purge_key env k s of (st, s') \<Rightarrow> (st, PSA_KEY_ID_NULL, [], s'))"
| "run_op env (Op_check_usage k al u) s =
    (case psa_check_key_usage env k al u s of (st, s') \<Rightarrow> (st, PSA_KEY_ID_NULL, [], s'))"
| "run_op env (Op_copy k aa idn) s =
    (case psa_copy_key env k aa idn s of (st, kid, s') \<Rightarrow> (st, kid, [], s'))"
| "run_op env (Op_get_key_data k a0) s =
    (case wolfpsa_get_key_data env k a0 s of
       (st, a, dd, n, s') \<Rightarrow> (st, PSA_KEY_ID_NULL, case dd of None \<Rightarrow> [] | Some d \<Rightarrow> d, s'))"
| "run_op env (Op_random out) s =
    (case psa_generate_random env out s of (st, bs, s') \<Rightarrow> (st, PSA_KEY_ID_NULL, bs, s'))"

inductive reachable :: "('st, 'h) psa_env \<Rightarrow> 'st key_store \<Rightarrow> bool" for env where
  boot: "reachable env (fresh_store st)"
| faults: "reachable env s \<Longrightarrow> reachable env (s\<lparr>allocs := as, mutex_inits := ms\<rparr>)"
| call: "reachable env s \<Longrightarrow> run_op env op s = (st, kid, bs, s') \<Longrightarrow> reachable env s'"

text \<open>The calls that only look.\<close>

fun reads :: "api_op \<Rightarrow> bool" where
  "reads (Op_export k out ln) = True"
| "reads (Op_export_public k out ln) = True"
| "reads (Op_get_attributes k an) = True"
| "reads (Op_purge k) = True"
| "reads (Op_check_usage k al u) = True"
| "reads (Op_get_key_data k a0) = True"
| "reads (Op_random out) = True"
| "reads op = False"

text \<open>A sequence of calls and the trace of their results.\<close>

type_synonym api_event = "api_op \<times> psa_status \<times> psa_key_id_t \<times> byte list"

fun run_all :: "('st, 'h) psa_env \<Rightarrow> api_op list \<Rightarrow> 'st key_store \<Rightarrow> api_event list \<times> 'st key_store" where
  "run_all env [] s = ([], s)"
| "run_all env (op # rest) s =
    (case run_op env op s of
       (st, kid, bs, s1) \<Rightarrow>
         (case run_all env rest s1 of (tr, s2) \<Rightarrow> ((op, st, kid, bs) # tr, s2)))"

section \<open>Initialisation and clean-up from any state\<close>

lemma crypto_init_cases:
  assumes "lock_ok s" and "psa_crypto_init b r s = (st, s')"
  shows "lock_ok s' \<and> g_volatile_keys s' = g_volatile_keys s \<and> g_next_key_id s' = g_next_key_id s \<and>
    store s' = store s"
proof (cases "wolfpsa_lock_ensure_init b s")
  case (Pair ok s1)
  note e = ensure_init_cases [OF assms(1) Pair]
  show ?thesis
  proof (cases ok)
    case True
    then have r: "ready b s1" by (rule e(3))
    have "psa_crypto_init b r s = psa_crypto_init b r s1"
      using r True by (simp add: psa_crypto_init_def Pair)
    then show ?thesis
      using assms(2) e(2) ready_lock_ok [OF r] crypto_init_ready [OF r, of r]
      by (auto simp: core_same_def lock_ok_def split: if_splits)
  next
    case False
    then show ?thesis using assms(2) e by (auto simp: psa_crypto_init_def Pair core_same_def)
  qed
qed

lemma cleanup_ready:
  "ready b s \<Longrightarrow> wolfPSA_CryptoCleanup b s =
     s\<lparr>g_psa_crypto_initialized := False, g_volatile_keys := [], g_key_storage_initialized := False\<rparr>"
  by (cases s) (simp add: wolfPSA_CryptoCleanup_def psa_key_storage_cleanup_def
      wolfpsa_lock_ensure_init_def WOLFPSA_LOCK_def WOLFPSA_UNLOCK_def ready_def lock_ok_def)

lemma cleanup_cases:
  assumes "lock_ok s" and "wolfPSA_CryptoCleanup b s = s'"
  shows "lock_ok s' \<and> (g_volatile_keys s' = g_volatile_keys s \<or> g_volatile_keys s' = []) \<and>
    g_next_key_id s' = g_next_key_id s \<and> store s' = store s"
proof (cases "wolfpsa_lock_ensure_init b s")
  case (Pair ok s1)
  note e = ensure_init_cases [OF assms(1) Pair]
  show ?thesis
  proof (cases ok)
    case True
    then have r: "ready b s1" by (rule e(3))
    have "wolfPSA_CryptoCleanup b s = wolfPSA_CryptoCleanup b s1"
      using r True by (simp add: wolfPSA_CryptoCleanup_def Pair)
    then show ?thesis
      using assms(2) e(2) ready_lock_ok [OF r] cleanup_ready [OF r]
      by (auto simp: core_same_def lock_ok_def)
  next
    case False
    then show ?thesis using assms(2) e by (auto simp: wolfPSA_CryptoCleanup_def Pair core_same_def)
  qed
qed

section \<open>The invariant\<close>

lemma ks_inv_fresh_store: "ks_inv (fresh_store st)"
  by (simp add: ks_inv_def fresh_store_def lock_ok_def)

lemma ks_inv_sublist:
  assumes "ks_inv s" and "lock_ok s'" and "g_next_key_id s' = g_next_key_id s"
    and "set (g_volatile_keys s') \<subseteq> set (g_volatile_keys s)"
    and "distinct (map node_id (g_volatile_keys s'))"
  shows "ks_inv s'"
  using assms by (auto simp: ks_inv_def)

lemma ks_inv_import_after:
  assumes "ks_inv s" and "load_frame recs s s1" and "psa_import_key env aa din idn s1 = (st, kid, s')"
  shows "ks_inv s'"
proof -
  have "ks_inv s1" using assms(1,2) by (rule ks_inv_frame)
  moreover have "lock_ok s1" using assms(2) by (simp add: load_frame_def)
  ultimately show ?thesis using import_key_list [OF _ assms(3)] ks_inv_list_step by blast
qed

section \<open>The abstract key store\<close>

text \<open>
  A map from ids to attributes and key data. \<open>stored_attr\<close> is what a key created with
  attributes \<open>a\<close> reads back as: a record carries neither the id nor the second algorithm.
\<close>

type_synonym key_map = "psa_key_id_t \<Rightarrow> (psa_key_attributes_t \<times> byte list) option"

definition ks_abs :: "('st \<Rightarrow> nat \<Rightarrow> byte list option) \<Rightarrow> 'st key_store \<Rightarrow> key_map" where
  "ks_abs recs s = ks_lookup (recs (store s)) s psa_key_attributes_init"

definition stored_attr :: "psa_key_attributes_t \<Rightarrow> psa_key_attributes_t" where
  "stored_attr a =
    (if PSA_KEY_LIFETIME_IS_VOLATILE (lifetime a) then a
     else a\<lparr>policy := (policy a)\<lparr>alg2 := PSA_ALG_NONE\<rparr>, id := id psa_key_attributes_init\<rparr>)"

definition vendor_id :: "psa_key_id_t \<Rightarrow> bool" where
  "vendor_id k \<longleftrightarrow> PSA_KEY_ID_VENDOR_MIN \<le> k \<and> k \<le> PSA_KEY_ID_VENDOR_MAX"

text \<open>
  What the specification allows a call to do: a failing call and a read leave the map alone, a
  creation adds one key under an id that was free, a copy keeps to the source's policy,
  and destruction removes one key.
\<close>

fun inspects :: "api_op \<Rightarrow> bool" where
  "inspects (Op_get_attributes k an) = True"
| "inspects (Op_purge k) = True"
| "inspects (Op_check_usage k al u) = True"
| "inspects (Op_random out) = True"
| "inspects (Op_init r) = True"
| "inspects op = False"

inductive abs_step :: "api_op \<Rightarrow> psa_status \<Rightarrow> psa_key_id_t \<Rightarrow> byte list \<Rightarrow> key_map \<Rightarrow> key_map \<Rightarrow> bool" where
  failed: "st \<noteq> PSA_SUCCESS \<Longrightarrow> (\<And>k. op = Op_destroy k \<Longrightarrow> st = PSA_ERROR_INVALID_HANDLE \<Longrightarrow> m k = None) \<Longrightarrow>
    abs_step op st kid bs m m"
| imported: "m k = None \<Longrightarrow> a = a0\<lparr>bits := b\<rparr> \<Longrightarrow>
    abs_step (Op_import (Some a0) (In d) False) PSA_SUCCESS k [] m (m(k \<mapsto> (stored_attr a, d)))"
| generated: "m k = None \<Longrightarrow> a = a0\<lparr>bits := b\<rparr> \<Longrightarrow>
    abs_step (Op_generate (Some a0) idn) PSA_SUCCESS k [] m (m(k \<mapsto> (stored_attr a, d)))"
| copied: "m j = Some (src, d) \<Longrightarrow> copy_attributes src req = Inr a1 \<Longrightarrow> m k = None \<Longrightarrow> a = a1\<lparr>bits := b\<rparr> \<Longrightarrow>
    abs_step (Op_copy j (Some req) idn) PSA_SUCCESS k [] m (m(k \<mapsto> (stored_attr a, d)))"
| destroyed: "abs_step (Op_destroy k) PSA_SUCCESS PSA_KEY_ID_NULL [] m (if k = PSA_KEY_ID_NULL then m else m(k := None))"
| exported: "m k = Some (a, d) \<Longrightarrow> usage (policy a) AND PSA_KEY_USAGE_EXPORT \<noteq> 0 \<Longrightarrow> length d \<le> out_size out \<Longrightarrow>
    abs_step (Op_export k out ln) PSA_SUCCESS PSA_KEY_ID_NULL d m m"
| exported_public: "m k = Some (a, d) \<Longrightarrow> has_public_part (type a) \<Longrightarrow>
    abs_step (Op_export_public k out ln) PSA_SUCCESS PSA_KEY_ID_NULL bs m m"
| loaded: "m k = Some (a, d) \<Longrightarrow>
    abs_step (Op_get_key_data k a0) PSA_SUCCESS PSA_KEY_ID_NULL d m m"
| inspected: "inspects op \<Longrightarrow>
    abs_step op PSA_SUCCESS PSA_KEY_ID_NULL bs m m"
| cleaned: "(\<And>k. m' k = m k \<or> m' k = None \<and> vendor_id k) \<Longrightarrow>
    abs_step Op_cleanup PSA_SUCCESS PSA_KEY_ID_NULL [] m m'"

inductive abs_run :: "api_event list \<Rightarrow> key_map \<Rightarrow> key_map \<Rightarrow> bool" where
  finish: "abs_run [] m m"
| more: "abs_step op st kid bs m m1 \<Longrightarrow> abs_run tr m1 m2 \<Longrightarrow> abs_run ((op, st, kid, bs) # tr) m m2"

inductive_cases abs_destroy_cases: "abs_step (Op_destroy k) st kid bs m m'"
inductive_cases abs_export_cases: "abs_step (Op_export k out ln) st kid bs m m'"
inductive_cases abs_copy_cases: "abs_step (Op_copy k aa idn) st kid bs m m'"

section \<open>Disciplined callers\<close>

text \<open>
  The refinement holds for callers that give a persistent key an id outside the vendor range
  and data whose record fits an \<open>int\<close>. Then no record stands under an id that the counter has
  yet to hand out or that a volatile key has.
\<close>

fun op_ok :: "api_op \<Rightarrow> bool" where
  "op_ok (Op_import aa din idn) =
    (header_length + in_length din \<le> INT_MAX \<and> (case aa of None \<Rightarrow> True | Some a \<Rightarrow> \<not> vendor_id (id a)))"
| "op_ok (Op_generate aa idn) = (case aa of None \<Rightarrow> True | Some a \<Rightarrow> \<not> vendor_id (id a))"
| "op_ok (Op_copy k aa idn) = (case aa of None \<Rightarrow> True | Some a \<Rightarrow> \<not> vendor_id (id a))"
| "op_ok op = True"

definition id_inv :: "('st \<Rightarrow> nat \<Rightarrow> byte list option) \<Rightarrow> 'st key_store \<Rightarrow> bool" where
  "id_inv recs s \<longleftrightarrow>
    ks_inv s \<and>
    (\<forall>k. recs (store s) (unat k) \<noteq> None \<longrightarrow> vendor_id k \<longrightarrow> k < g_next_key_id s) \<and>
    (\<forall>n \<in> set (g_volatile_keys s). recs (store s) (unat (node_id n)) = None) \<and>
    (\<forall>k a d. ks_abs recs s k = Some (a, d) \<longrightarrow> header_length + length d \<le> INT_MAX)"

lemma ks_abs_frame: "load_frame recs s s' \<Longrightarrow> ks_abs recs s' = ks_abs recs s"
  by (rule ext) (simp add: ks_abs_def ks_lookup_def load_frame_def wolfpsa_volatile_find_def)

lemma id_inv_frame: "id_inv recs s \<Longrightarrow> load_frame recs s s' \<Longrightarrow> id_inv recs s'"
  using ks_inv_frame [of s recs s'] ks_abs_frame [of recs s s']
  by (simp add: id_inv_def) (simp add: load_frame_def)

text \<open>A step that only removes keys keeps the invariant.\<close>

lemma id_inv_shrink:
  assumes inv: "id_inv recs s" and ki: "ks_inv s'" and nx: "g_next_key_id s' = g_next_key_id s"
    and vol: "set (g_volatile_keys s') \<subseteq> set (g_volatile_keys s)"
    and rc: "\<And>j. recs (store s) j = None \<Longrightarrow> recs (store s') j = None"
    and ab: "\<And>j y. ks_abs recs s' j = Some y \<Longrightarrow> ks_abs recs s j = Some y"
  shows "id_inv recs s'"
  unfolding id_inv_def
proof (intro conjI allI impI ballI)
  show "ks_inv s'" by (rule ki)
next
  fix k assume "recs (store s') (unat k) \<noteq> None" "vendor_id k"
  then have "recs (store s) (unat k) \<noteq> None" using rc by metis
  with \<open>vendor_id k\<close> show "k < g_next_key_id s'" using inv nx by (simp add: id_inv_def)
next
  fix n assume "n \<in> set (g_volatile_keys s')"
  then show "recs (store s') (unat (node_id n)) = None" using inv vol rc by (auto simp: id_inv_def)
next
  fix k a d assume "ks_abs recs s' k = Some (a, d)"
  then have "ks_abs recs s k = Some (a, d)" by (rule ab)
  then show "header_length + length d \<le> INT_MAX" using inv unfolding id_inv_def by blast
qed

lemma ks_abs_import:
  assumes "import_effect recs a d k s s'" and "d \<noteq> []" and "length d \<le> INT_MAX"
    and "PSA_KEY_LIFETIME_IS_VOLATILE (lifetime a) \<or> wolfpsa_volatile_find s k = None"
  shows "ks_abs recs s' = (ks_abs recs s)(k \<mapsto> (stored_attr a, d))"
proof (cases "PSA_KEY_LIFETIME_IS_VOLATILE (lifetime a)")
  case True
  then show ?thesis
    using assms(1)
    by (intro ext) (auto simp: ks_abs_def ks_lookup_def import_effect_def wolfpsa_volatile_find_def stored_attr_def)
next
  case False
  then show ?thesis
    using assms record_key_key_record [OF assms(2,3), of psa_key_attributes_init a]
    by (intro ext) (auto simp: ks_abs_def ks_lookup_def import_effect_def wolfpsa_volatile_find_def
        stored_attr_def word_unat_eq_iff split: option.splits)
qed

lemma find_vendor:
  assumes "ks_inv s" and "wolfpsa_volatile_find s k = Some n"
  shows "vendor_id k \<and> k < g_next_key_id s \<and> n \<in> set (g_volatile_keys s) \<and> node_id n = k"
proof -
  have n: "n \<in> set (g_volatile_keys s)" "node_id n = k"
    using assms(2) by (auto simp: wolfpsa_volatile_find_def find_Some_iff)
  then have "PSA_KEY_ID_VENDOR_MIN \<le> k" "k < g_next_key_id s" "g_next_key_id s \<le> PSA_KEY_ID_VENDOR_MAX + 1"
    using assms(1) by (auto simp: ks_inv_def)
  then have "k < PSA_KEY_ID_VENDOR_MAX + 1" by (meson order_less_le_trans)
  then have "k \<le> PSA_KEY_ID_VENDOR_MAX" by (simp add: word_le_nat_alt word_less_nat_alt)
  with n \<open>PSA_KEY_ID_VENDOR_MIN \<le> k\<close> \<open>k < g_next_key_id s\<close> show ?thesis by (simp add: vendor_id_def)
qed

lemma ks_abs_fresh:
  assumes "id_inv recs s" and "g_next_key_id s \<le> k" and "vendor_id k"
  shows "ks_abs recs s k = None \<and> recs (store s) (unat k) = None \<and> wolfpsa_volatile_find s k = None"
proof -
  have "wolfpsa_volatile_find s k = None" using assms ks_inv_fresh by (auto simp: id_inv_def)
  moreover have "recs (store s) (unat k) = None"
    using assms leD by (auto simp: id_inv_def)
  ultimately show ?thesis by (simp add: ks_abs_def ks_lookup_def)
qed

context key_backend
begin

lemma ks_inv_destroy:
  assumes env: "env_ops env = ops" and inv: "ks_inv s" and x: "psa_destroy_key env k s = (st, s')"
  shows "ks_inv s'"
proof (cases "k = PSA_KEY_ID_NULL")
  case True
  then show ?thesis using x inv by (simp add: psa_destroy_key_def)
next
  case False
  have lk: "lock_ok s" and di: "distinct (map node_id (g_volatile_keys s))"
    using inv by (auto simp: ks_inv_def)
  note d = destroy_cases [OF env lk False x]
  then have "g_volatile_keys s' = g_volatile_keys s \<or> g_volatile_keys s' = unlink_node k (g_volatile_keys s)"
    by (auto simp: no_effect_def split: if_splits)
  then have "set (g_volatile_keys s') \<subseteq> set (g_volatile_keys s)"
      "distinct (map node_id (g_volatile_keys s'))"
    using set_unlink [of k "g_volatile_keys s"] distinct_unlink [OF di, of k] di by auto
  with d show ?thesis by (intro ks_inv_sublist [OF inv]) auto
qed

lemma reading_op_frame:
  assumes env: "env_ops env = ops" and lk: "lock_ok s" and x: "run_op env op s = (st, kid, bs, s')"
    and op: "reads op"
  shows "load_frame recs s s'"
proof (cases op)
  case (Op_export k out ln)
  then show ?thesis using x export_sound [OF env lk] by (auto split: prod.splits)
next
  case (Op_export_public k out ln)
  then show ?thesis using x export_public_sound [OF env lk] by (auto split: prod.splits)
next
  case (Op_get_attributes k an)
  then show ?thesis using x get_attributes_sound [OF env lk] by (auto split: prod.splits)
next
  case (Op_purge k)
  then show ?thesis
    using x get_attributes_sound [OF env lk, of k False] by (auto simp: psa_purge_key_def split: prod.splits)
next
  case (Op_check_usage k al u)
  then show ?thesis using x check_usage_sound [OF env lk] by (auto split: prod.splits)
next
  case (Op_get_key_data k a0)
  then show ?thesis using x get_key_data_sound [OF env lk] by (auto split: prod.splits)
next
  case (Op_random out)
  then show ?thesis using x generate_random_frame [OF lk] by (auto split: prod.splits)
qed (use op in auto)

lemma ks_inv_step:
  assumes env: "env_ops env = ops" and inv: "ks_inv s" and x: "run_op env op s = (st, kid, bs, s')"
  shows "ks_inv s'"
proof -
  have lk: "lock_ok s" and di: "distinct (map node_id (g_volatile_keys s))"
    using inv by (auto simp: ks_inv_def)
  have f0: "load_frame recs s s" using lk by (simp add: load_frame_def)
  note rd = ks_inv_frame [OF inv reading_op_frame [OF env lk x]]
  show ?thesis
  proof (cases op)
    case (Op_init r)
    then show ?thesis
      using x crypto_init_cases [OF lk] di by (auto intro!: ks_inv_sublist [OF inv] split: prod.splits)
  next
    case Op_cleanup
    then show ?thesis
      using x cleanup_cases [OF lk, of "env_build env" s'] di
      by (intro ks_inv_sublist [OF inv]) auto
  next
    case (Op_import aa din idn)
    then show ?thesis
      using x ks_inv_import_after [OF inv f0] by (auto split: prod.splits)
  next
    case (Op_generate aa idn)
    then have "psa_generate_key env aa idn s = (st, kid, s')" using x by (auto split: prod.splits)
    from generate_import [OF lk this] show ?thesis
      using ks_inv_frame [OF inv] ks_inv_import_after [OF inv] by blast
  next
    case (Op_destroy k)
    then show ?thesis using x ks_inv_destroy [OF env inv] by (auto split: prod.splits)
  next
    case (Op_copy k aa idn)
    then have "psa_copy_key env k aa idn s = (st, kid, s')" using x by (auto split: prod.splits)
    from copy_import [OF env lk this] show ?thesis
      using ks_inv_frame [OF inv] ks_inv_import_after [OF inv] by blast
  qed (auto intro: rd)
qed

lemma reachable_inv:
  assumes "env_ops env = ops" and "reachable env s"
  shows "ks_inv s"
  using assms(2)
proof induction
  case (boot st)
  show ?case by (rule ks_inv_fresh_store)
next
  case (faults s as ms)
  then show ?case by (simp add: ks_inv_def lock_ok_def)
next
  case (call s op st kid bs s')
  then show ?case using ks_inv_step [OF assms(1)] by blast
qed

section \<open>Refinement\<close>

lemma import_refines:
  assumes env: "env_ops env = ops" and inv: "id_inv recs s"
    and len: "header_length + in_length din \<le> INT_MAX"
    and aid: "\<And>a. aa = Some a \<Longrightarrow> \<not> vendor_id (id a)"
    and i: "psa_import_key env aa din idn s = (status, kid, s')"
  shows "id_inv recs s' \<and>
    (if status = PSA_SUCCESS
     then (\<exists>a0 b. aa = Some a0 \<and> din = In (in_bytes din) \<and> \<not> idn \<and> ks_abs recs s kid = None \<and>
       ks_abs recs s' = (ks_abs recs s)(kid \<mapsto> (stored_attr (a0\<lparr>bits := b\<rparr>), in_bytes din)))
     else ks_abs recs s' = ks_abs recs s)"
proof -
  have ki: "ks_inv s" and lk: "lock_ok s" using inv by (auto simp: id_inv_def ks_inv_def)
  note c = import_key_cases [OF env lk len i]
  have ki': "ks_inv s'" using import_key_list [OF lk i] ks_inv_list_step [OF ki] by blast
  show ?thesis
  proof (cases "status = PSA_SUCCESS")
    case False
    then have ne: "no_effect recs s s'" using c by simp
    then have ab: "ks_abs recs s' = ks_abs recs s"
      by (intro ext) (simp add: ks_abs_def ks_lookup_def no_effect_def wolfpsa_volatile_find_def)
    have "g_next_key_id s \<le> g_next_key_id s'"
      using c word_succ_vendor(1) [of "g_next_key_id s"] by auto
    then have "id_inv recs s'"
      using inv ki' ab ne by (auto simp: id_inv_def no_effect_def dest: order_less_le_trans)
    with False ab show ?thesis by simp
  next
    case True
    then obtain a where a: "import_validate env aa din idn = Inr a"
        "import_effect recs a (in_bytes din) kid s s'"
        "if \<not> PSA_KEY_LIFETIME_IS_VOLATILE (lifetime a) \<and> id a \<noteq> PSA_KEY_ID_NULL then kid = id a
         else kid = g_next_key_id s \<and> g_next_key_id s' = g_next_key_id s + 1 \<and>
           PSA_KEY_ID_VENDOR_MIN \<le> kid \<and> kid \<le> PSA_KEY_ID_VENDOR_MAX"
      using c by auto
    obtain a0 b where v: "aa = Some a0" "a = a0\<lparr>bits := b\<rparr>" "\<not> in_null din" "\<not> idn"
        "in_bytes din \<noteq> []" "length (in_bytes din) \<le> INT_MAX"
      using a(1) by (auto elim!: validate_Inr)
    have din: "din = In (in_bytes din)" using v(3) by (cases din) auto
    have mono: "g_next_key_id s \<le> g_next_key_id s'"
      using c word_succ_vendor(1) [of "g_next_key_id s"] by auto
    have free: "ks_abs recs s kid = None \<and> wolfpsa_volatile_find s kid = None \<and> recs (store s) (unat kid) = None"
    proof (cases "\<not> PSA_KEY_LIFETIME_IS_VOLATILE (lifetime a) \<and> id a \<noteq> PSA_KEY_ID_NULL")
      case True
      then have k: "\<not> vendor_id kid" using aid v a(3) by simp
      then have "wolfpsa_volatile_find s kid = None" using find_vendor [OF ki, of kid] by (cases "wolfpsa_volatile_find s kid") auto
      moreover have "recs (store s) (unat kid) = None"
        using a(2) True by (simp add: import_effect_def)
      ultimately show ?thesis by (simp add: ks_abs_def ks_lookup_def)
    next
      case False
      then have "kid = g_next_key_id s" "vendor_id kid" using a(3) by (auto simp: vendor_id_def)
      then show ?thesis using ks_abs_fresh [OF inv, of kid] by simp
    qed
    have ab: "ks_abs recs s' = (ks_abs recs s)(kid \<mapsto> (stored_attr a, in_bytes din))"
      by (rule ks_abs_import [OF a(2) v(5,6)]) (use free in simp)
    have new: "vendor_id kid \<Longrightarrow> kid < g_next_key_id s'"
      using a(3) aid v word_succ_vendor(1) [of kid] by (auto split: if_splits)
    have volk: "PSA_KEY_LIFETIME_IS_VOLATILE (lifetime a) \<or> (\<forall>n \<in> set (g_volatile_keys s). node_id n \<noteq> kid)"
      using free by (auto simp: wolfpsa_volatile_find_def find_None_iff)
    have idv: "id_inv recs s'"
      unfolding id_inv_def
    proof (intro conjI allI impI ballI)
      show "ks_inv s'" by (rule ki')
    next
      fix k assume "recs (store s') (unat k) \<noteq> None" "vendor_id k"
      moreover have "unat k \<noteq> unat kid" if "k \<noteq> kid" using that by (simp add: word_unat_eq_iff)
      ultimately show "k < g_next_key_id s'"
        using a(2) new inv mono
        by (cases "k = kid") (auto simp: import_effect_def id_inv_def split: if_splits
            dest: order_less_le_trans)
    next
      fix n assume "n \<in> set (g_volatile_keys s')"
      then show "recs (store s') (unat (node_id n)) = None"
        using a(2) free volk inv
        by (auto simp: import_effect_def id_inv_def word_unat_eq_iff split: if_splits)
    next
      fix k x d assume "ks_abs recs s' k = Some (x, d)"
      then show "header_length + length d \<le> INT_MAX"
        using ab inv len din by (auto simp: id_inv_def split: if_splits)
    qed
    then show ?thesis using True ab free v din by auto
  qed
qed

lemma import_after_refines:
  assumes env: "env_ops env = ops" and inv: "id_inv recs s" and f: "load_frame recs s s1"
    and len: "header_length + length d \<le> INT_MAX" and aid: "\<not> vendor_id (id a)"
    and i: "psa_import_key env (Some a) (In d) False s1 = (status, kid, s')"
  shows "id_inv recs s' \<and>
    (if status = PSA_SUCCESS
     then ks_abs recs s kid = None \<and>
       (\<exists>b. ks_abs recs s' = (ks_abs recs s)(kid \<mapsto> (stored_attr (a\<lparr>bits := b\<rparr>), d)))
     else ks_abs recs s' = ks_abs recs s)"
  using import_refines [OF env id_inv_frame [OF inv f] _ _ i] ks_abs_frame [OF f] len aid by auto

lemma destroy_refines:
  assumes env: "env_ops env = ops" and inv: "id_inv recs s" and k: "k \<noteq> PSA_KEY_ID_NULL"
    and x: "psa_destroy_key env k s = (status, s')"
  shows "id_inv recs s' \<and>
    ks_abs recs s' = (if status = PSA_SUCCESS then (ks_abs recs s)(k := None) else ks_abs recs s) \<and>
    (status = PSA_ERROR_INVALID_HANDLE \<longrightarrow> ks_abs recs s k = None)"
proof -
  have ki: "ks_inv s" and lk: "lock_ok s" and di: "distinct (map node_id (g_volatile_keys s))"
    and vr: "\<And>n. n \<in> set (g_volatile_keys s) \<Longrightarrow> recs (store s) (unat (node_id n)) = None"
    using inv by (auto simp: id_inv_def ks_inv_def)
  note c = destroy_cases [OF env lk k x]
  have ki': "ks_inv s'" by (rule ks_inv_destroy [OF env ki x])
  have free: "recs (store s) (unat k) = None" if "wolfpsa_volatile_find s k = Some n" for n
    using find_vendor [OF ki that] vr [of n] by simp
  have ab: "ks_abs recs s' = (if status = PSA_SUCCESS then (ks_abs recs s)(k := None) else ks_abs recs s)"
    using c free find_unlink [OF di]
    by (intro ext) (auto simp: ks_abs_def ks_lookup_def no_effect_def wolfpsa_volatile_find_def
        word_unat_eq_iff split: if_splits option.splits)
  have "set (g_volatile_keys s') \<subseteq> set (g_volatile_keys s)"
    using c set_unlink [of k "g_volatile_keys s"] by (auto simp: no_effect_def split: if_splits)
  moreover have "recs (store s) j = None \<Longrightarrow> recs (store s') j = None" for j
    using c by (auto simp: no_effect_def split: if_splits)
  ultimately have "id_inv recs s'"
    using c ab by (intro id_inv_shrink [OF inv ki']) (auto split: if_splits)
  with ab c show ?thesis by (auto simp: ks_abs_def ks_lookup_def)
qed

lemma cleanup_refines:
  assumes inv: "id_inv recs s" and x: "wolfPSA_CryptoCleanup b s = s'"
  shows "id_inv recs s' \<and> (ks_abs recs s' k = ks_abs recs s k \<or> ks_abs recs s' k = None \<and> vendor_id k)"
proof -
  have ki: "ks_inv s" and lk: "lock_ok s" and di: "distinct (map node_id (g_volatile_keys s))"
    using inv by (auto simp: id_inv_def ks_inv_def)
  note c = cleanup_cases [OF lk x]
  have ki': "ks_inv s'" by (rule ks_inv_sublist [OF ki]) (use c di in auto)
  have vr: "recs (store s) (unat j) = None \<and> vendor_id j" if "wolfpsa_volatile_find s j = Some n" for j n
    using find_vendor [OF ki that] inv by (auto simp: id_inv_def)
  have ab: "ks_abs recs s' j = ks_abs recs s j \<or> ks_abs recs s' j = None \<and> vendor_id j" for j
    using c vr [of j]
    by (auto simp: ks_abs_def ks_lookup_def wolfpsa_volatile_find_def split: option.splits)
  then have "ks_abs recs s' j = Some y \<Longrightarrow> ks_abs recs s j = Some y" for j y
    by (metis option.distinct(1))
  then have "id_inv recs s'" using c by (intro id_inv_shrink [OF inv ki']) auto
  with ab show ?thesis by blast
qed

lemma init_refines:
  assumes inv: "id_inv recs s" and x: "psa_crypto_init b r s = (st, s')"
  shows "id_inv recs s' \<and> ks_abs recs s' = ks_abs recs s"
proof -
  have ki: "ks_inv s" and lk: "lock_ok s" and di: "distinct (map node_id (g_volatile_keys s))"
    using inv by (auto simp: id_inv_def ks_inv_def)
  note c = crypto_init_cases [OF lk x]
  have "ks_inv s'" by (rule ks_inv_sublist [OF ki]) (use c di in auto)
  moreover have "ks_abs recs s' = ks_abs recs s"
    using c by (intro ext) (simp add: ks_abs_def ks_lookup_def wolfpsa_volatile_find_def)
  ultimately show ?thesis using c by (auto intro!: id_inv_shrink [OF inv])
qed

lemma reading_op_refines:
  assumes env: "env_ops env = ops" and lk: "lock_ok s" and x: "run_op env op s = (st, kid, bs, s')"
    and op: "reads op"
  shows "abs_step op st kid bs (ks_abs recs s) (ks_abs recs s)"
proof (cases "st = PSA_SUCCESS")
  case False
  then show ?thesis by (rule failed) (use op in auto)
next
  case True
  show ?thesis
  proof (cases op)
    case (Op_export k out ln)
    obtain ds n where e: "psa_export_key env k out ln s = (st, ds, n, s')" "kid = PSA_KEY_ID_NULL"
        "bs = take n ds"
      using x Op_export by (auto split: prod.splits)
    from export_sound [OF env lk e(1)] show ?thesis
      using e True Op_export by (auto simp: ks_abs_def intro!: abs_step.exported)
  next
    case (Op_export_public k out ln)
    obtain ds n where e: "psa_export_public_key env k out ln s = (st, ds, n, s')" "kid = PSA_KEY_ID_NULL"
      using x Op_export_public by (auto split: prod.splits)
    from export_public_sound [OF env lk e(1)] show ?thesis
      using e True Op_export_public by (auto simp: ks_abs_def intro!: abs_step.exported_public)
  next
    case (Op_get_key_data k a0)
    obtain a dd n where g: "wolfpsa_get_key_data env k a0 s = (st, a, dd, n, s')"
        "kid = PSA_KEY_ID_NULL" "bs = (case dd of None \<Rightarrow> [] | Some d \<Rightarrow> d)"
      using x Op_get_key_data by (auto split: prod.splits)
    obtain d where d: "dd = Some d" "ks_lookup (recs (store s)) s a0 k = Some (a, d)"
      using get_key_data_sound [OF env lk g(1)] True by auto
    then obtain a' where "ks_abs recs s k = Some (a', d)"
      by (auto simp: ks_abs_def ks_lookup_def record_key_def Let_def split: option.splits if_splits)
    then show ?thesis using g d True Op_get_key_data by (auto intro: abs_step.loaded)
  qed (use x True op in \<open>auto intro!: abs_step.inspected split: prod.splits\<close>)
qed

lemma step_refines:
  assumes env: "env_ops env = ops" and bd: "env_bounded env" and inv: "id_inv recs s" and ok: "op_ok op"
    and x: "run_op env op s = (st, kid, bs, s')"
  shows "id_inv recs s' \<and> abs_step op st kid bs (ks_abs recs s) (ks_abs recs s')"
proof -
  have lk: "lock_ok s" using inv by (auto simp: id_inv_def ks_inv_def)
  note rf = reading_op_frame [OF env lk x] and rr = reading_op_refines [OF env lk x]
  have rd: "id_inv recs s' \<and> abs_step op st kid bs (ks_abs recs s) (ks_abs recs s')"
    if "load_frame recs s s'" "abs_step op st kid bs (ks_abs recs s) (ks_abs recs s)"
    using that id_inv_frame [OF inv] ks_abs_frame by metis
  show ?thesis
  proof (cases op)
    case (Op_init r)
    then have i: "psa_crypto_init (env_build env) r s = (st, s')" "kid = PSA_KEY_ID_NULL" "bs = []"
      using x by (auto split: prod.splits)
    from init_refines [OF inv i(1)] show ?thesis
      using Op_init i by (cases "st = PSA_SUCCESS") (auto intro: abs_step.inspected abs_step.failed)
  next
    case Op_cleanup
    then show ?thesis
      using x cleanup_refines [OF inv, of "env_build env" s'] by (auto intro!: abs_step.cleaned)
  next
    case (Op_import aa din idn)
    then have i: "psa_import_key env aa din idn s = (st, kid, s')" "bs = []"
      using x by (auto split: prod.splits)
    have "header_length + in_length din \<le> INT_MAX" "\<And>a. aa = Some a \<Longrightarrow> \<not> vendor_id (id a)"
      using ok Op_import by auto
    note r = import_refines [OF env inv this i(1)]
    show ?thesis
    proof (cases "st = PSA_SUCCESS")
      case False
      then show ?thesis using r Op_import by (auto intro: abs_step.failed)
    next
      case True
      then obtain a0 b where "aa = Some a0" "din = In (in_bytes din)" "\<not> idn" "ks_abs recs s kid = None"
        "ks_abs recs s' = (ks_abs recs s)(kid \<mapsto> (stored_attr (a0\<lparr>bits := b\<rparr>), in_bytes din))"
        using r by auto
      then show ?thesis
        using r True Op_import i abs_step.imported [of "ks_abs recs s" kid "a0\<lparr>bits := b\<rparr>" b a0 "in_bytes din"]
        by simp
    qed
  next
    case (Op_generate aa idn)
    then have i: "psa_generate_key env aa idn s = (st, kid, s')" "bs = []"
      using x by (auto split: prod.splits)
    from generate_import [OF lk i(1)] show ?thesis
    proof (elim disjE exE conjE)
      assume "st \<noteq> PSA_SUCCESS" "load_frame recs s s'"
      then show ?thesis using rd Op_generate by (auto intro: abs_step.failed)
    next
      fix d s1 assume f: "load_frame recs s s1" and im: "psa_import_key env aa (In d) False s1 = (st, kid, s')"
        and l: "env_bounded env \<longrightarrow> header_length + length d \<le> INT_MAX"
      show ?thesis
      proof (cases aa)
        case None
        then have "st \<noteq> PSA_SUCCESS" "s' = s1"
          using im by (auto simp: psa_import_key_def import_validate_def import_check_args_def)
        then show ?thesis using rd f Op_generate by (auto intro: abs_step.failed)
      next
        case (Some a)
        have na: "\<not> vendor_id (id a)" using ok Op_generate Some by simp
        note r = import_after_refines [OF env inv f _ na im [unfolded Some]]
        show ?thesis
          using r l bd Op_generate Some i
          by (cases "st = PSA_SUCCESS") (auto intro: abs_step.failed intro!: abs_step.generated)
      qed
    qed
  next
    case (Op_destroy k)
    then have i: "psa_destroy_key env k s = (st, s')" "kid = PSA_KEY_ID_NULL" "bs = []"
      using x by (auto split: prod.splits)
    show ?thesis
    proof (cases "k = PSA_KEY_ID_NULL")
      case True
      then show ?thesis
        using i inv Op_destroy abs_step.destroyed [of k "ks_abs recs s"] by (simp add: psa_destroy_key_def)
    next
      case False
      note r = destroy_refines [OF env inv False i(1)]
      show ?thesis
        using r i False Op_destroy abs_step.destroyed [of k "ks_abs recs s"]
        by (cases "st = PSA_SUCCESS") (auto intro: abs_step.failed)
    qed
  next
    case (Op_copy k aa idn)
    then have i: "psa_copy_key env k aa idn s = (st, kid, s')" "bs = []"
      using x by (auto split: prod.splits)
    from copy_import [OF env lk i(1)] show ?thesis
    proof (elim disjE exE conjE)
      assume "st \<noteq> PSA_SUCCESS" "load_frame recs s s'"
      then show ?thesis using rd Op_copy by (auto intro: abs_step.failed)
    next
      fix req a d a' s1
      assume s: "aa = Some req" "ks_lookup (recs (store s)) s psa_key_attributes_init k = Some (a, d)"
        "copy_attributes a req = Inr a'" and f: "load_frame recs s s1"
        and im: "psa_import_key env (Some a') (In d) False s1 = (st, kid, s')"
      have src: "ks_abs recs s k = Some (a, d)" using s(2) by (simp add: ks_abs_def)
      then have len: "header_length + length d \<le> INT_MAX" using inv unfolding id_inv_def by blast
      have na: "\<not> vendor_id (id a')"
        using ok Op_copy s(1) copy_attributes_narrow [OF s(3)] by simp
      note r = import_after_refines [OF env inv f len na im]
      show ?thesis
        using r src s i Op_copy
        by (cases "st = PSA_SUCCESS") (auto intro: abs_step.failed intro!: abs_step.copied)
    qed
  qed (use rf rr rd in auto)
qed

lemma run_refines:
  assumes env: "env_ops env = ops" and bd: "env_bounded env"
  shows "id_inv recs s \<Longrightarrow> list_all op_ok calls \<Longrightarrow> run_all env calls s = (tr, s') \<Longrightarrow>
    id_inv recs s' \<and> abs_run tr (ks_abs recs s) (ks_abs recs s')"
proof (induction calls arbitrary: s tr)
  case Nil
  then show ?case by (auto intro: abs_run.finish)
next
  case (Cons op calls)
  obtain st kid bs s1 where o: "run_op env op s = (st, kid, bs, s1)" by (metis prod_cases4)
  obtain tr1 s2 where r: "run_all env calls s1 = (tr1, s2)" by fastforce
  have e: "tr = (op, st, kid, bs) # tr1" "s2 = s'" using Cons.prems(3) o r by auto
  have ok: "op_ok op" "list_all op_ok calls" using Cons.prems(2) by auto
  note s1 = step_refines [OF env bd Cons.prems(1) ok(1) o]
  then have "id_inv recs s' \<and> abs_run tr1 (ks_abs recs s1) (ks_abs recs s')"
    using Cons.IH [OF _ ok(2)] r e by blast
  then show ?case using s1 e by (auto intro: abs_run.more)
qed

section \<open>Ids are not reused\<close>

lemma step_counter:
  assumes env: "env_ops env = ops" and inv: "ks_inv s" and x: "run_op env op s = (st, kid, bs, s')"
  shows "g_next_key_id s \<le> g_next_key_id s' \<and>
    (\<forall>n \<in> set (g_volatile_keys s'). n \<in> set (g_volatile_keys s) \<or>
       g_next_key_id s \<le> node_id n \<and> node_id n < g_next_key_id s')"
proof -
  have lk: "lock_ok s" using inv by (auto simp: ks_inv_def)
  let ?G = "\<lambda>s s' :: 'st key_store. g_next_key_id s \<le> g_next_key_id s' \<and>
    (\<forall>n \<in> set (g_volatile_keys s'). n \<in> set (g_volatile_keys s) \<or>
       g_next_key_id s \<le> node_id n \<and> node_id n < g_next_key_id s')"
  have frame: "?G s s'" if "load_frame recs s s'" using that by (simp add: load_frame_def)
  have imp: "?G s s'" if "load_frame recs s s1" "psa_import_key env aa din idn s1 = (st', kid', s')"
    for s1 aa din idn st' kid'
  proof -
    have l: "lock_ok s1" and e: "g_next_key_id s1 = g_next_key_id s" "g_volatile_keys s1 = g_volatile_keys s"
      using that(1) by (auto simp: load_frame_def)
    show ?thesis
      using import_key_list [OF l that(2)] word_succ_vendor(1) [of "g_next_key_id s"] e
      by (auto simp: list_step_def)
  qed
  have self: "load_frame recs s s" using lk by (simp add: load_frame_def)
  have sub: "?G s s'" if "g_next_key_id s' = g_next_key_id s" "set (g_volatile_keys s') \<subseteq> set (g_volatile_keys s)"
    using that by auto
  show ?thesis
  proof (cases op)
    case (Op_init r)
    then have "psa_crypto_init (env_build env) r s = (st, s')" using x by (auto split: prod.splits)
    from crypto_init_cases [OF lk this] show ?thesis by (intro sub) auto
  next
    case Op_cleanup
    then have "wolfPSA_CryptoCleanup (env_build env) s = s'" using x by simp
    from cleanup_cases [OF lk this] show ?thesis by (intro sub) auto
  next
    case (Op_import aa din idn)
    then have "psa_import_key env aa din idn s = (st, kid, s')" using x by (auto split: prod.splits)
    with self show ?thesis by (rule imp)
  next
    case (Op_generate aa idn)
    then have "psa_generate_key env aa idn s = (st, kid, s')" using x by (auto split: prod.splits)
    from generate_import [OF lk this] show ?thesis using frame imp by blast
  next
    case (Op_destroy k)
    then have d: "psa_destroy_key env k s = (st, s')" using x by (auto split: prod.splits)
    show ?thesis
    proof (cases "k = PSA_KEY_ID_NULL")
      case True
      then show ?thesis using d by (simp add: psa_destroy_key_def)
    next
      case False
      from destroy_cases [OF env lk False d] show ?thesis
        using set_unlink [of k "g_volatile_keys s"]
        by (intro sub) (auto simp: no_effect_def split: if_splits)
    qed
  next
    case (Op_copy k aa idn)
    then have "psa_copy_key env k aa idn s = (st, kid, s')" using x by (auto split: prod.splits)
    from copy_import [OF env lk this] show ?thesis using frame imp by blast
  qed (use reading_op_frame [OF env lk x] frame in auto)
qed

section \<open>Import over a healthy store\<close>

lemma healthy_import:
  assumes env: "env_ops env = ops" and rdy: "ready (env_build env) s"
    and ini: "g_psa_crypto_initialized s" and h: "healthy (store s)" and al: "allocs s = []"
    and v: "import_validate env aa din idn = Inr a"
    and p: "\<not> PSA_KEY_LIFETIME_IS_VOLATILE (lifetime a)" "id a \<noteq> PSA_KEY_ID_NULL"
    and len: "header_length + in_length din \<le> INT_MAX" and kv: "valid (unat (id a))"
  shows "\<exists>st'. healthy st' \<and> psa_import_key env aa din idn s =
    (if recs (store s) (unat (id a)) = None
     then (PSA_SUCCESS, id a, s\<lparr>g_key_storage_initialized := True, store := st'\<rparr>)
     else (PSA_ERROR_ALREADY_EXISTS, PSA_KEY_ID_NULL,
           s\<lparr>g_key_storage_initialized := True, store := st'\<rparr>))"
proof -
  let ?s1 = "s\<lparr>g_key_storage_initialized := True\<rparr>"
  let ?buf = "key_record a (in_bytes din)"
  have r1: "ready (env_build env) ?s1" using rdy by simp
  have an: "alloc_next ?s1" "alloc_rest ?s1 = ?s1" using al by (simp_all add: alloc_next_def alloc_rest_def)
  have "\<not> in_null din" using v by (rule validate_Inr)
  then have "in_length din = length (in_bytes din)" by (cases din) simp_all
  then have l: "length ?buf \<le> INT_MAX" "length ?buf \<noteq> 0" using len by simp_all
  then have ne: "?buf \<noteq> []" by (metis list.size(3))
  have k: "unat (id a) < 2 ^ 32" by simp
  have e: "psa_import_key env aa din idn s = import_persistent env (id a) ?buf (length (in_bytes din)) ?s1"
    using v p ini an check_init_ready [OF rdy]
    by (simp add: psa_import_key_def assign_id_ready [OF r1] import_store_ready [OF r1])
  show ?thesis
  proof (cases "recs (store s) (unat (id a))")
    case None
    obtain st1 where o: "so_open ops (store s) WOLFPSA_STORE_KEY (unat (id a)) 0 True 0 =
        (OpenFail WOLFPSA_STORE_NOT_AVAILABLE, st1)" "healthy st1"
      using healthy_open_absent [OF h kv None] by blast
    obtain st2 where w: "store_write_session ops st1 (unat (id a)) (length (in_bytes din)) ?buf =
        (Inr (length ?buf), st2)" "healthy st2"
      using healthy_session [OF o(2) kv ne] by blast
    have f: "import_finish (id a) (length ?buf) (map_sum (\<lambda>e. e) c_int (Inr (length ?buf))) = (PSA_SUCCESS, id a)"
      using c_int_small [OF l(1)] by (simp add: import_finish_def)
    have "import_persistent env (id a) ?buf (length (in_bytes din)) ?s1 = (PSA_SUCCESS, id a, ?s1\<lparr>store := st2\<rparr>)"
      unfolding import_persistent_ready [OF r1] env using o(1) w(1) f by simp
    then show ?thesis using e w(2) None by auto
  next
    case (Some r)
    obtain fh st1 where o: "so_open ops (store s) WOLFPSA_STORE_KEY (unat (id a)) 0 True 0 = (Opened fh, st1)"
        "healthy st1" using healthy_open_read [OF h k Some] by blast
    obtain bs where "reading fh bs" using open_read_view [OF o(1)] by blast
    then obtain rc st2 where "so_close ops st1 fh = (rc, st2)" "healthy st2"
      using healthy_close_read [OF o(2)] by blast
    then show ?thesis using e o env Some by (auto simp: import_persistent_ready [OF r1])
  qed
qed

lemma healthy_copy:
  assumes env: "env_ops env = ops" and rdy: "ready (env_build env) s"
    and ini: "g_psa_crypto_initialized s" and h: "healthy (store s)" and al: "allocs s = []"
    and src: "wolfpsa_volatile_find s k = None" "recs (store s) (unat k) = Some r"
      "record_key psa_key_attributes_init r = Some (a, d)"
    and ca: "copy_attributes a req = Inr a'"
  shows "\<exists>st'. healthy st' \<and> recs st' = recs (store s) \<and>
    psa_copy_key env k (Some req) False s =
    psa_import_key env (Some a') (In d) False (s\<lparr>g_key_storage_initialized := True, store := st'\<rparr>)"
proof -
  let ?s1 = "s\<lparr>g_key_storage_initialized := True\<rparr>"
  have r1: "ready (env_build env) ?s1" using rdy by simp
  obtain hdr x where rk: "r = hdr @ d @ x" "length hdr = header_length"
    "header_data_length hdr = length d" "0 < length d" "length d \<le> INT_MAX"
    "psa_key_attributes_deserialize (take attr_length hdr) psa_key_attributes_init = (PSA_SUCCESS, a)"
    using src(3) by (rule record_key_Some)
  have rs: "recs (store ?s1) (unat k) = Some (hdr @ d @ x)" using src(2) rk(1) by simp
  obtain fh st1 where o: "open_read_header env k ?s1 = (Inr (hdr, fh), ?s1\<lparr>store := st1\<rparr>)"
      "healthy st1" "reading fh (d @ x)"
    using healthy_open_read_header [OF env _ rs rk(2)] h by auto
  let ?s2 = "?s1\<lparr>store := st1\<rparr>"
  have an: "alloc_next ?s2" "alloc_rest ?s2 = ?s2" using al by (simp_all add: alloc_next_def alloc_rest_def)
  obtain st2 where b: "read_body_close env fh (length d) ?s2 = (Some d, ?s2\<lparr>store := st2\<rparr>)" "healthy st2"
    using healthy_read_body_close [OF env _ o(3), of ?s2] o(2) by auto
  have "recs st1 = recs (store s)" using open_read_header_recs [OF env o(1)] by simp
  then have rc: "recs st2 = recs (store s)" using read_body_close_recs [OF env o(3) b(1)] by simp
  have v: "wolfpsa_validate_stored_key_data_length (length d) = PSA_SUCCESS"
    using rk(4,5) by (simp add: validate_length_iff)
  have "copy_persistent env k req ?s1 = psa_import_key env (Some a') (In d) False (?s2\<lparr>store := st2\<rparr>)"
    using o(1) rk(3,6) ca v an b(1) by (simp add: copy_persistent_def s_xmalloc_eq)
  moreover have "psa_copy_key env k (Some req) False s = copy_persistent env k req ?s1"
    using ini src(1) check_init_ready [OF rdy] by (simp add: psa_copy_key_def volatile_get_ready [OF r1])
  ultimately show ?thesis using b(2) rc by auto
qed

end

end
