(* ===== verification/Key_Use.thy ===== *)
theory Key_Use
  imports Key_Contract
begin

text \<open>
  What every cryptographic operation does first: load the key by its id with
  \<open>wolfpsa_get_key_data\<close>. The attributes structure is an uninitialised local of the caller; a
  load overwrites every field but the id of a persistent key, which no caller reads.
\<close>

definition load_key ::
    "('st, 'h) psa_env \<Rightarrow> psa_key_id_t \<Rightarrow> 'st key_store \<Rightarrow>
     (psa_status + psa_key_attributes_t \<times> byte list) \<times> 'st key_store" where
  "load_key env key s =
    (case wolfpsa_get_key_data env key psa_key_attributes_init s of
       (status, attrs, key_data, key_data_length, s1) \<Rightarrow>
         if status \<noteq> PSA_SUCCESS then (Inl status, s1)
         else (Inr (attrs, case key_data of None \<Rightarrow> [] | Some d \<Rightarrow> d), s1))"

text \<open>The key that an id names in a state of the key store.\<close>

definition key_at ::
    "('st \<Rightarrow> nat \<Rightarrow> byte list option) \<Rightarrow> 'st key_store \<Rightarrow> psa_key_id_t \<Rightarrow>
     (psa_key_attributes_t \<times> byte list) option" where
  "key_at recs s k = ks_lookup (recs (store s)) s psa_key_attributes_init k"

lemma load_key_Inl [simp]: "load_key env k s \<noteq> (Inl PSA_SUCCESS, s')"
  by (auto simp: load_key_def split: prod.splits)

text \<open>What leaves the keys alone leaves every id with its key.\<close>

lemma key_at_frame: "load_frame recs s s' \<Longrightarrow> key_at recs s' k = key_at recs s k"
  by (simp add: key_at_def load_frame_def ks_lookup_def wolfpsa_volatile_find_def)

lemma xmalloc_load_frame: "lock_ok s \<Longrightarrow> s_xmalloc s = (ok, s') \<Longrightarrow> load_frame recs s s'"
  by (auto simp: s_xmalloc_def load_frame_def lock_ok_def split: prod.splits)

context key_backend
begin

lemma load_key_sound:
  assumes env: "env_ops env = ops" and lk: "lock_ok s" and g: "load_key env k s = (r, s')"
  shows "load_frame recs s s'"
    and "r = Inr (a, d) \<Longrightarrow> key_at recs s k = Some (a, d)"
proof -
  obtain status a' dd n s1 where
    w: "wolfpsa_get_key_data env k psa_key_attributes_init s = (status, a', dd, n, s1)"
    by (metis prod_cases5)
  note S = get_key_data_sound [OF env lk w]
  show "load_frame recs s s'" using S g w by (auto simp: load_key_def split: if_splits)
  show "r = Inr (a, d) \<Longrightarrow> key_at recs s k = Some (a, d)"
    using S g w by (auto simp: load_key_def key_at_def split: if_splits)
qed

lemma load_key_healthy:
  assumes env: "env_ops env = ops" and rdy: "ready (env_build env) s"
    and ini: "g_psa_crypto_initialized s" and h: "healthy (store s)" and al: "allocs s = []"
    and ne: "\<And>n. n \<in> set (g_volatile_keys s) \<Longrightarrow> data n \<noteq> []"
    and k: "key_at recs s k = Some (a, d)"
  shows "\<exists>st'. load_key env k s =
    (Inr (a, d), s\<lparr>g_key_storage_initialized := True, store := st'\<rparr>) \<and> healthy st'"
proof -
  have lk: "ks_lookup (recs (store s)) s psa_key_attributes_init k = Some (a, d)"
    using k by (simp add: key_at_def)
  have "\<exists>st'. wolfpsa_get_key_data env k psa_key_attributes_init s =
      (PSA_SUCCESS, a, Some d, length d, s\<lparr>g_key_storage_initialized := True, store := st'\<rparr>) \<and>
    healthy st'"
    by (rule get_key_data_healthy [OF env rdy ini h al _ lk]) (rule ne)
  then show ?thesis by (auto simp: load_key_def)
qed

end

end
