(* ===== verification/Store_Posix.thy ===== *)
theory Store_Posix
  imports Store_Interface
begin

text \<open>
  The file backend \<open>src/psa_store_posix.c\<close> (POSIX branch). A record is one file under the
  token directory; a write goes to a temporary file that \<open>wolfPSA_Store_Close\<close> renames over
  the record. Regular files are a map from path names to contents. Every libc call that can
  fail takes its outcome from the script \<open>faults\<close>: \<open>None\<close> is no failure, \<open>Some n\<close> a failure
  (after \<open>n\<close> bytes, for the transfer functions); an exhausted script means no more failures.
  The directory tree with its owners and modes belongs to the system: the calls that inspect it
  are the fields of a record of parameters, \<open>dir_ops\<close>.
\<close>

unbundle bit_operations_syntax

section \<open>Directories\<close>

record stat_t =
  st_mode :: u32
  st_uid :: nat
  st_ino :: nat
  st_dev :: nat

datatype mkdir_result = MkdirOk | MkdirExists | MkdirFail

record ('d, 'fd) dir_ops =
  d_lstat :: "'d \<Rightarrow> string \<Rightarrow> stat_t option"
  d_open :: "'d \<Rightarrow> string \<Rightarrow> 'fd option"
  d_openat :: "'d \<Rightarrow> 'fd \<Rightarrow> string \<Rightarrow> 'fd option"
  d_fstat :: "'d \<Rightarrow> 'fd \<Rightarrow> stat_t option"
  d_mkdir :: "'d \<Rightarrow> string \<Rightarrow> mkdir_result \<times> 'd"
  d_rmdir :: "'d \<Rightarrow> string \<Rightarrow> 'd"
  d_euid :: nat

definition S_ISDIR :: "u32 \<Rightarrow> bool" where
  "S_ISDIR m \<longleftrightarrow> m AND 0xF000 = 0x4000"

definition S_ISLNK :: "u32 \<Rightarrow> bool" where
  "S_ISLNK m \<longleftrightarrow> m AND 0xF000 = 0xA000"

abbreviation S_ISVTX :: u32 where "S_ISVTX \<equiv> 0x200"
abbreviation GROUP_OTHER_WRITE :: u32 where "GROUP_OTHER_WRITE \<equiv> 0x12"

datatype path_check =
    WOLFPSA_STORE_PATH_OK | WOLFPSA_STORE_PATH_REJECTED | WOLFPSA_STORE_PATH_UNKNOWN

abbreviation WOLFPSA_STORE_MAX_PATH :: nat where "WOLFPSA_STORE_MAX_PATH \<equiv> 256"
abbreviation WOLFPSA_STORE_MAX_COMPONENT :: nat where "WOLFPSA_STORE_MAX_COMPONENT \<equiv> 256"
abbreviation WOLFPSA_STORE_MAX_DEPTH :: nat where "WOLFPSA_STORE_MAX_DEPTH \<equiv> 256"

definition wolfPSA_StoreCheckLeaf :: "('d, 'fd) dir_ops \<Rightarrow> 'd \<Rightarrow> string \<Rightarrow> path_check" where
  "wolfPSA_StoreCheckLeaf os d dirPath =
    (case d_lstat os d dirPath of
       None \<Rightarrow> WOLFPSA_STORE_PATH_UNKNOWN
     | Some st \<Rightarrow>
         if \<not> S_ISDIR (st_mode st) then WOLFPSA_STORE_PATH_REJECTED
         else if S_ISLNK (st_mode st) then WOLFPSA_STORE_PATH_REJECTED
         else if (st_uid st \<noteq> d_euid os \<and> st_uid st \<noteq> 0) \<or>
                 st_mode st AND GROUP_OTHER_WRITE \<noteq> 0 then WOLFPSA_STORE_PATH_REJECTED
         else WOLFPSA_STORE_PATH_OK)"

definition wolfPSA_StoreCheckDirFd :: "('d, 'fd) dir_ops \<Rightarrow> 'd \<Rightarrow> 'fd \<Rightarrow> path_check" where
  "wolfPSA_StoreCheckDirFd os d fd =
    (case d_fstat os d fd of
       None \<Rightarrow> WOLFPSA_STORE_PATH_UNKNOWN
     | Some st \<Rightarrow>
         if \<not> S_ISDIR (st_mode st) then WOLFPSA_STORE_PATH_REJECTED
         else if st_uid st \<noteq> d_euid os \<and> st_uid st \<noteq> 0 then WOLFPSA_STORE_PATH_REJECTED
         else
           (let sticky = (st_mode st AND S_ISVTX \<noteq> 0) in
            if st_mode st AND GROUP_OTHER_WRITE \<noteq> 0 \<and> \<not> sticky then WOLFPSA_STORE_PATH_REJECTED
            else WOLFPSA_STORE_PATH_OK))"

text \<open>
  The loop of \<open>wolfPSA_StoreCheckLexical\<close>: \<open>n\<close> iterations are left, \<open>p\<close> is the rest of the
  path. On success the file descriptor of the store directory is returned.
\<close>

fun lexical_loop ::
    "('d, 'fd) dir_ops \<Rightarrow> 'd \<Rightarrow> nat \<Rightarrow> 'fd \<Rightarrow> string \<Rightarrow> path_check \<times> 'fd option" where
  "lexical_loop os d 0 fd p = (WOLFPSA_STORE_PATH_UNKNOWN, None)"
| "lexical_loop os d (Suc n) fd p =
    (let q = dropWhile (\<lambda>c. c = CHR ''/'') p in
     if q = [] then (WOLFPSA_STORE_PATH_OK, Some fd)
     else
       (let comp = takeWhile (\<lambda>c. c \<noteq> CHR ''/'') q in
        if length comp \<ge> WOLFPSA_STORE_MAX_COMPONENT then (WOLFPSA_STORE_PATH_UNKNOWN, None)
        else
          (let ret = (if comp \<noteq> ''.'' \<and> comp \<noteq> ''..'' then wolfPSA_StoreCheckDirFd os d fd
                      else WOLFPSA_STORE_PATH_OK) in
           if ret \<noteq> WOLFPSA_STORE_PATH_OK then (ret, None)
           else case d_openat os d fd comp of
                  None \<Rightarrow> (WOLFPSA_STORE_PATH_UNKNOWN, None)
                | Some next \<Rightarrow> lexical_loop os d n next (drop (length comp) q))))"

definition wolfPSA_StoreCheckLexical ::
    "('d, 'fd) dir_ops \<Rightarrow> 'd \<Rightarrow> string \<Rightarrow> path_check \<times> 'fd option" where
  "wolfPSA_StoreCheckLexical os d dirPath =
    (case d_open os d (if take 1 dirPath = ''/'' then ''/'' else ''.'') of
       None \<Rightarrow> (WOLFPSA_STORE_PATH_UNKNOWN, None)
     | Some fd \<Rightarrow> lexical_loop os d WOLFPSA_STORE_MAX_DEPTH fd dirPath)"

fun ancestors_loop :: "('d, 'fd) dir_ops \<Rightarrow> 'd \<Rightarrow> nat \<Rightarrow> 'fd \<Rightarrow> stat_t \<Rightarrow> path_check" where
  "ancestors_loop os d 0 fd st = WOLFPSA_STORE_PATH_UNKNOWN"
| "ancestors_loop os d (Suc n) fd st =
    (case d_openat os d fd ''..'' of
       None \<Rightarrow> WOLFPSA_STORE_PATH_UNKNOWN
     | Some parent \<Rightarrow>
         (case d_fstat os d parent of
            None \<Rightarrow> WOLFPSA_STORE_PATH_UNKNOWN
          | Some parent_st \<Rightarrow>
              if st_ino parent_st = st_ino st \<and> st_dev parent_st = st_dev st
              then WOLFPSA_STORE_PATH_OK
              else
                (let ret = wolfPSA_StoreCheckDirFd os d parent in
                 if ret \<noteq> WOLFPSA_STORE_PATH_OK then ret
                 else ancestors_loop os d n parent parent_st)))"

definition wolfPSA_StoreCheckAncestors :: "('d, 'fd) dir_ops \<Rightarrow> 'd \<Rightarrow> 'fd \<Rightarrow> path_check" where
  "wolfPSA_StoreCheckAncestors os d fd =
    (case d_fstat os d fd of
       None \<Rightarrow> WOLFPSA_STORE_PATH_UNKNOWN
     | Some st \<Rightarrow> ancestors_loop os d WOLFPSA_STORE_MAX_DEPTH fd st)"

definition wolfPSA_StoreCheckPath :: "('d, 'fd) dir_ops \<Rightarrow> 'd \<Rightarrow> string \<Rightarrow> path_check" where
  "wolfPSA_StoreCheckPath os d dirPath =
    (let ret = wolfPSA_StoreCheckLeaf os d dirPath in
     if ret \<noteq> WOLFPSA_STORE_PATH_OK then ret
     else case wolfPSA_StoreCheckLexical os d dirPath of
            (WOLFPSA_STORE_PATH_OK, Some leafFd) \<Rightarrow> wolfPSA_StoreCheckAncestors os d leafFd
          | (ret, _) \<Rightarrow> ret)"

definition wolfPSA_StoreValidatePath :: "('d, 'fd) dir_ops \<Rightarrow> 'd \<Rightarrow> string \<Rightarrow> store_rc" where
  "wolfPSA_StoreValidatePath os d dirPath =
    (if wolfPSA_StoreCheckPath os d dirPath = WOLFPSA_STORE_PATH_OK then WOLFPSA_STORE_OK
     else WOLFPSA_STORE_IO_ERROR)"

definition wolfPSA_StoreEnsureDir ::
    "('d, 'fd) dir_ops \<Rightarrow> 'd \<Rightarrow> string \<Rightarrow> store_rc \<times> 'd" where
  "wolfPSA_StoreEnsureDir os d dirPath =
    (if dirPath = [] then (WOLFPSA_STORE_IO_ERROR, d)
     else if wolfPSA_StoreValidatePath os d dirPath = WOLFPSA_STORE_OK then (WOLFPSA_STORE_OK, d)
     else case d_mkdir os d dirPath of
            (MkdirOk, d') \<Rightarrow>
              (let ret = wolfPSA_StoreCheckPath os d' dirPath;
                   d'' = (if ret = WOLFPSA_STORE_PATH_REJECTED then d_rmdir os d' dirPath else d')
               in (if ret = WOLFPSA_STORE_PATH_OK then WOLFPSA_STORE_OK
                   else WOLFPSA_STORE_IO_ERROR, d''))
          | (MkdirExists, d') \<Rightarrow> (wolfPSA_StoreValidatePath os d' dirPath, d')
          | (MkdirFail, d') \<Rightarrow> (WOLFPSA_STORE_IO_ERROR, d'))"

section \<open>State and handles\<close>

record 'd posix_state =
  files :: "string \<rightharpoonup> byte list"
  dirs :: 'd
  env_no_store :: bool
  env_token_path :: "string option"
  faults :: "nat option list"
  p_allocs :: "bool list"
  mkstemp_suffixes :: "string list"
  pid :: nat
  now :: nat

datatype fstream = RStream "byte list" | WStream string

record FileStoreCtx =
  ctx_file :: "fstream option"
  is_write :: bool
  has_temp :: bool
  write_failed :: bool
  final_name :: string
  temp_name :: string

text \<open>The next outcome of the script.\<close>

definition next_fault :: "'d posix_state \<Rightarrow> nat option \<times> 'd posix_state" where
  "next_fault st = (case faults st of [] \<Rightarrow> (None, st) | f # fs \<Rightarrow> (f, st\<lparr>faults := fs\<rparr>))"

definition p_xmalloc :: "'d posix_state \<Rightarrow> bool \<times> 'd posix_state" where
  "p_xmalloc st = (case xmalloc (p_allocs st) of (ok, as) \<Rightarrow> (ok, st\<lparr>p_allocs := as\<rparr>))"

section \<open>Names\<close>

definition hex_digit :: "nat \<Rightarrow> char" where
  "hex_digit n = (if n < 10 then char_of (48 + n) else char_of (87 + n))"

fun hex_digits :: "nat \<Rightarrow> nat \<Rightarrow> string" where
  "hex_digits 0 x = []"
| "hex_digits (Suc n) x = hex_digits n (x div 16) @ [hex_digit (x mod 16)]"

text \<open>The number of hex digits of a value, at least the given field width (\<open>%0<width>lx\<close>).\<close>

fun hex_width :: "nat \<Rightarrow> nat" where
  "hex_width x = (if x < 16 then 1 else Suc (hex_width (x div 16)))"

declare hex_width.simps [simp del]

definition fmt_hex :: "nat \<Rightarrow> nat \<Rightarrow> string" where
  "fmt_hex w x = hex_digits (max w (hex_width x)) x"

definition token_path :: "'d posix_state \<Rightarrow> string" where
  "token_path st = (case env_token_path st of Some s \<Rightarrow> s | None \<Rightarrow> ''./.store'')"

definition record_suffix :: "nat \<Rightarrow> nat \<Rightarrow> string" where
  "record_suffix id1 id2 = ''/psa_key_'' @ fmt_hex 16 id1 @ ''_'' @ fmt_hex 16 id2"

text \<open>
  \<open>wolfPSA_Store_Name\<close> with the buffer size its callers pass; \<open>None\<close> is the return value -1.
\<close>

definition wolfPSA_Store_Name :: "'d posix_state \<Rightarrow> int \<Rightarrow> nat \<Rightarrow> nat \<Rightarrow> string option" where
  "wolfPSA_Store_Name st typ id1 id2 =
    (let str = token_path st in
     if length str > WOLFPSA_STORE_MAX_PATH - 48 - 1 then None
     else if typ = WOLFPSA_STORE_KEY then Some (str @ record_suffix id1 id2)
     else None)"

text \<open>
  The callers' test of the value that \<open>XSNPRINTF\<close> returned: a name that did not fit is an
  error.
\<close>

definition store_name_ok :: "'d posix_state \<Rightarrow> int \<Rightarrow> nat \<Rightarrow> nat \<Rightarrow> string option" where
  "store_name_ok st typ id1 id2 =
    (case wolfPSA_Store_Name st typ id1 id2 of
       None \<Rightarrow> None
     | Some name \<Rightarrow> if length name < WOLFPSA_STORE_MAX_PATH then Some name else None)"

definition wolfPSA_StoreDirOfName :: "string \<Rightarrow> string option" where
  "wolfPSA_StoreDirOfName name =
    (let rest = dropWhile (\<lambda>c. c \<noteq> CHR ''/'' \<and> c \<noteq> CHR 0x5C) (rev name) in
     if rest = [] then None
     else
       (let dir = rev (tl rest) in
        if dir = [] \<or> length dir \<ge> WOLFPSA_STORE_MAX_PATH then None else Some dir))"

definition temp_template :: "'d posix_state \<Rightarrow> string \<Rightarrow> string" where
  "temp_template st dirPath =
    dirPath @ ''/psa_tmp_'' @ fmt_hex 8 (pid st) @ ''_'' @ fmt_hex 8 (now st) @ ''_XXXXXX''"

section \<open>Temporary files\<close>

text \<open>
  \<open>mkstemp\<close> replaces the last six characters of the template and creates the file, which must
  not exist.
\<close>

definition next_suffix :: "'d posix_state \<Rightarrow> string \<times> 'd posix_state" where
  "next_suffix st =
    (case mkstemp_suffixes st of
       [] \<Rightarrow> (''AAAAAA'', st)
     | s # ss \<Rightarrow> (s, st\<lparr>mkstemp_suffixes := ss\<rparr>))"

definition mkstemp :: "'d posix_state \<Rightarrow> string \<Rightarrow> string option \<times> 'd posix_state" where
  "mkstemp st template =
    (let (f, st1) = next_fault st; (s, st2) = next_suffix st1;
         name = take (length template - 6) template @ s in
     if f \<noteq> None \<or> files st2 name \<noteq> None then (None, st2)
     else (Some name, st2\<lparr>files := (files st2)(name \<mapsto> [])\<rparr>))"

definition p_remove :: "'d posix_state \<Rightarrow> string \<Rightarrow> store_rc \<times> 'd posix_state" where
  "p_remove st name =
    (let (f, st1) = next_fault st in
     if f \<noteq> None then (STORE_FAIL, st1)
     else if files st1 name = None then (WOLFPSA_STORE_NOT_AVAILABLE, st1)
     else (WOLFPSA_STORE_OK, st1\<lparr>files := (files st1)(name := None)\<rparr>))"

definition wolfPSA_StoreAbortTemp ::
    "FileStoreCtx \<Rightarrow> 'd posix_state \<Rightarrow> FileStoreCtx \<times> 'd posix_state" where
  "wolfPSA_StoreAbortTemp ctx st =
    (if has_temp ctx then (ctx\<lparr>has_temp := False\<rparr>, snd (p_remove st (temp_name ctx)))
     else (ctx, st))"

definition wolfPSA_StoreCommitTemp ::
    "FileStoreCtx \<Rightarrow> 'd posix_state \<Rightarrow> store_rc \<times> FileStoreCtx \<times> 'd posix_state" where
  "wolfPSA_StoreCommitTemp ctx st =
    (if \<not> has_temp ctx then (WOLFPSA_STORE_OK, ctx, st)
     else
       (let (f, st1) = next_fault st in
        if f \<noteq> None \<or> files st1 (temp_name ctx) = None then (WOLFPSA_STORE_IO_ERROR, ctx, st1)
        else (WOLFPSA_STORE_OK, ctx\<lparr>has_temp := False\<rparr>,
              st1\<lparr>files := (files st1)(final_name ctx := files st1 (temp_name ctx),
                                      temp_name ctx := None)\<rparr>)))"

text \<open>
  \<open>wolfPSA_StoreCreateTempFile\<close>: the name is formatted, the file created, its mode set and a
  stream opened; a failure after the creation unlinks the file. The template fits the
  buffer, so copying it into the context never truncates.
\<close>

definition wolfPSA_StoreCreateTempFile ::
    "FileStoreCtx \<Rightarrow> string \<Rightarrow> 'd posix_state \<Rightarrow> store_rc \<times> FileStoreCtx \<times> 'd posix_state" where
  "wolfPSA_StoreCreateTempFile ctx dirPath st =
    (let templ = temp_template st dirPath in
     if length templ \<ge> WOLFPSA_STORE_MAX_PATH then (WOLFPSA_STORE_IO_ERROR, ctx, st)
     else case mkstemp st templ of
       (None, st1) \<Rightarrow> (WOLFPSA_STORE_IO_ERROR, ctx, st1)
     | (Some name, st1) \<Rightarrow>
         (let (f_chmod, st2) = next_fault st1 in
          if f_chmod \<noteq> None then (WOLFPSA_STORE_IO_ERROR, ctx, snd (p_remove st2 name))
          else
            (let (f_fdopen, st3) = next_fault st2 in
             if f_fdopen \<noteq> None
             then (WOLFPSA_STORE_IO_ERROR, ctx\<lparr>ctx_file := None\<rparr>, snd (p_remove st3 name))
             else (WOLFPSA_STORE_OK,
                   ctx\<lparr>ctx_file := Some (WStream name), temp_name := name, has_temp := True\<rparr>, st3))))"

section \<open>Entry points\<close>

definition wolfPSA_Store_Remove ::
    "'d posix_state \<Rightarrow> int \<Rightarrow> nat \<Rightarrow> nat \<Rightarrow> store_rc \<times> 'd posix_state" where
  "wolfPSA_Store_Remove st typ id1 id2 =
    (if env_no_store st then (WOLFPSA_STORE_NOT_AVAILABLE, st)
     else case store_name_ok st typ id1 id2 of
            None \<Rightarrow> (STORE_FAIL, st)
          | Some name \<Rightarrow> p_remove st name)"

definition new_ctx :: "string \<Rightarrow> bool \<Rightarrow> FileStoreCtx" where
  "new_ctx name rd =
    \<lparr>ctx_file = None, is_write = (\<not> rd), has_temp = False, write_failed = False,
     final_name = name, temp_name = []\<rparr>"

text \<open>
  The read and the write branch of \<open>wolfPSA_Store_OpenSz\<close>. A failing branch has no temporary
  file left, so the clean-up that follows only closes the stream and frees the context.
\<close>

definition open_for_read ::
    "('d, 'fd) dir_ops \<Rightarrow> 'd posix_state \<Rightarrow> string \<Rightarrow> FileStoreCtx open_result \<times> 'd posix_state" where
  "open_for_read os st name =
    (let (f, st1) = next_fault st in
     if f \<noteq> None then (OpenFail WOLFPSA_STORE_IO_ERROR, st1)
     else case files st1 name of
            None \<Rightarrow> (OpenFail WOLFPSA_STORE_NOT_AVAILABLE, st1)
          | Some content \<Rightarrow>
              (case wolfPSA_StoreDirOfName name of
                 None \<Rightarrow> (OpenFail WOLFPSA_STORE_IO_ERROR, st1)
               | Some dirPath \<Rightarrow>
                   if wolfPSA_StoreValidatePath os (dirs st1) dirPath \<noteq> WOLFPSA_STORE_OK
                   then (OpenFail WOLFPSA_STORE_IO_ERROR, st1)
                   else (Opened ((new_ctx name True)\<lparr>ctx_file := Some (RStream content)\<rparr>), st1)))"

definition open_for_write ::
    "('d, 'fd) dir_ops \<Rightarrow> 'd posix_state \<Rightarrow> string \<Rightarrow> FileStoreCtx open_result \<times> 'd posix_state" where
  "open_for_write os st name =
    (case wolfPSA_StoreDirOfName name of
       None \<Rightarrow> (OpenFail WOLFPSA_STORE_IO_ERROR, st)
     | Some dirPath \<Rightarrow>
         (case wolfPSA_StoreEnsureDir os (dirs st) dirPath of
            (rc, d') \<Rightarrow>
              (let st1 = st\<lparr>dirs := d'\<rparr> in
               if rc \<noteq> WOLFPSA_STORE_OK then (OpenFail rc, st1)
               else case wolfPSA_StoreCreateTempFile (new_ctx name False) dirPath st1 of
                      (rc', ctx, st2) \<Rightarrow>
                        if rc' \<noteq> WOLFPSA_STORE_OK then (OpenFail rc', st2)
                        else (Opened ctx, st2))))"

definition wolfPSA_Store_OpenSz ::
    "('d, 'fd) dir_ops \<Rightarrow> 'd posix_state \<Rightarrow> int \<Rightarrow> nat \<Rightarrow> nat \<Rightarrow> bool \<Rightarrow> nat \<Rightarrow>
     FileStoreCtx open_result \<times> 'd posix_state" where
  "wolfPSA_Store_OpenSz os st typ id1 id2 rd variableSz =
    (if env_no_store st then (OpenFail WOLFPSA_STORE_NOT_AVAILABLE, st)
     else case store_name_ok st typ id1 id2 of
            None \<Rightarrow> (OpenFail STORE_FAIL, st)
          | Some name \<Rightarrow>
              (let (ok, st1) = p_xmalloc st in
               if \<not> ok then (OpenFail STORE_MEMORY_E, st1)
               else if rd then open_for_read os st1 name
               else open_for_write os st1 name))"

definition wolfPSA_Store_Close ::
    "'d posix_state \<Rightarrow> FileStoreCtx \<Rightarrow> store_rc \<times> 'd posix_state" where
  "wolfPSA_Store_Close st ctx =
    (let (f, st1) = (if ctx_file ctx \<noteq> None then next_fault st else (None, st));
         ctx1 = (if f \<noteq> None then ctx\<lparr>write_failed := True\<rparr> else ctx);
         ret = (if f \<noteq> None then WOLFPSA_STORE_IO_ERROR else WOLFPSA_STORE_OK) in
     if is_write ctx1 \<and> has_temp ctx1 \<and> \<not> write_failed ctx1 then
       (case wolfPSA_StoreCommitTemp ctx1 st1 of
          (commitRet, ctx2, st2) \<Rightarrow>
            if commitRet \<noteq> WOLFPSA_STORE_OK
            then (WOLFPSA_STORE_IO_ERROR, snd (wolfPSA_StoreAbortTemp ctx2 st2))
            else (ret, st2))
     else if has_temp ctx1 then
       (if is_write ctx1 \<and> write_failed ctx1 then WOLFPSA_STORE_IO_ERROR else ret,
        snd (wolfPSA_StoreAbortTemp ctx1 st1))
     else (ret, st1))"

definition wolfPSA_Store_Read ::
    "'d posix_state \<Rightarrow> FileStoreCtx \<Rightarrow> nat \<Rightarrow>
     (store_rc + byte list) \<times> FileStoreCtx \<times> 'd posix_state" where
  "wolfPSA_Store_Read st ctx len =
    (case ctx_file ctx of
       None \<Rightarrow> (Inl STORE_BUFFER_E, ctx, st)
     | Some (WStream name) \<Rightarrow> (Inr [], ctx, st)
     | Some (RStream content) \<Rightarrow>
         (let (f, st1) = next_fault st;
              n = (case f of None \<Rightarrow> len | Some k \<Rightarrow> min k len) in
          (Inr (take n content), ctx\<lparr>ctx_file := Some (RStream (drop n content))\<rparr>, st1)))"

text \<open>\<open>XFWRITE(buffer, 1, len, file)\<close>: the number of bytes that reached the file.\<close>

definition p_fwrite :: "'d posix_state \<Rightarrow> string \<Rightarrow> byte list \<Rightarrow> nat \<times> 'd posix_state" where
  "p_fwrite st name buffer =
    (let (f, st1) = next_fault st;
         n = (case f of None \<Rightarrow> length buffer | Some k \<Rightarrow> min k (length buffer)) in
     (n, st1\<lparr>files := (files st1)
                (name := map_option (\<lambda>c. c @ take n buffer) (files st1 name))\<rparr>))"

definition wolfPSA_Store_Write ::
    "'d posix_state \<Rightarrow> FileStoreCtx \<Rightarrow> byte list \<Rightarrow>
     (store_rc + nat) \<times> FileStoreCtx \<times> 'd posix_state" where
  "wolfPSA_Store_Write st ctx buffer =
    (case ctx_file ctx of
       None \<Rightarrow> (Inl STORE_BUFFER_E, ctx, st)
     | Some (RStream content) \<Rightarrow>
         (Inr 0, if buffer = [] then ctx else ctx\<lparr>write_failed := True\<rparr>, st)
     | Some (WStream name) \<Rightarrow>
         (let (n, st1) = p_fwrite st name buffer in
          if n = length buffer then
            (let (f, st2) = next_fault st1 in
             if f \<noteq> None
             then (Inl WOLFPSA_STORE_IO_ERROR, ctx\<lparr>write_failed := True\<rparr>, st2)
             else (Inr n, ctx, st2))
          else (Inr n, ctx\<lparr>write_failed := True\<rparr>, st1)))"

definition posix_ops :: "('d, 'fd) dir_ops \<Rightarrow> ('d posix_state, FileStoreCtx) store_ops" where
  "posix_ops os =
    \<lparr>so_open = wolfPSA_Store_OpenSz os, so_read = wolfPSA_Store_Read,
     so_write = wolfPSA_Store_Write, so_close = wolfPSA_Store_Close,
     so_remove = wolfPSA_Store_Remove\<rparr>"

section \<open>The represented store\<close>

definition posix_recs :: "'d posix_state \<Rightarrow> nat \<Rightarrow> byte list option" where
  "posix_recs st k =
    (if env_no_store st then None
     else case store_name_ok st WOLFPSA_STORE_KEY k 0 of
            None \<Rightarrow> None | Some name \<Rightarrow> files st name)"

definition posix_reading :: "FileStoreCtx \<Rightarrow> byte list \<Rightarrow> bool" where
  "posix_reading ctx bs \<longleftrightarrow> ctx_file ctx = Some (RStream bs) \<and> \<not> has_temp ctx"

text \<open>
  A state in which nothing fails: no scripted faults, a usable token path whose directory
  passes the check, and a free temporary name.
\<close>

definition posix_healthy :: "('d, 'fd) dir_ops \<Rightarrow> 'd posix_state \<Rightarrow> bool" where
  "posix_healthy os st \<longleftrightarrow>
    faults st = [] \<and> p_allocs st = [] \<and> mkstemp_suffixes st = [] \<and> \<not> env_no_store st \<and>
    0 < length (token_path st) \<and> length (token_path st) \<le> 207 \<and>
    length (temp_template st (token_path st)) < WOLFPSA_STORE_MAX_PATH \<and>
    wolfPSA_StoreCheckPath os (dirs st) (token_path st) = WOLFPSA_STORE_PATH_OK \<and>
    files st (take (length (temp_template st (token_path st)) - 6)
                (temp_template st (token_path st)) @ ''AAAAAA'') = None"

section \<open>Names are unambiguous\<close>

definition digit_val :: "char \<Rightarrow> nat" where
  "digit_val c = (if of_char c < (58 :: nat) then of_char c - 48 else of_char c - 87)"

definition hex_val :: "string \<Rightarrow> nat" where
  "hex_val s = foldl (\<lambda>v c. 16 * v + digit_val c) 0 s"

lemma digit_val_hex_digit [simp]: "n < 16 \<Longrightarrow> digit_val (hex_digit n) = n"
  by (auto simp: digit_val_def hex_digit_def)

lemma length_hex_digits [simp]: "length (hex_digits n x) = n"
  by (induction n arbitrary: x) auto

lemma hex_val_hex_digits: "hex_val (hex_digits n x) = x mod 16 ^ n"
proof (induction n arbitrary: x)
  case (Suc n)
  have "x mod (16 * 16 ^ n) = 16 * (x div 16 mod 16 ^ n) + x mod 16"
    by (rule mod_mult2_eq)
  with Suc show ?case by (simp add: hex_val_def)
qed (simp add: hex_val_def)

lemma less_hex_width: "x < 16 ^ hex_width x"
proof (induction x rule: hex_width.induct)
  case (1 x)
  show ?case
  proof (cases "x < 16")
    case False
    have "x = 16 * (x div 16) + x mod 16" and "x mod 16 < 16" by simp_all
    then have "x < 16 * 16 ^ hex_width (x div 16)" using "1.IH" [OF False] by linarith
    with False show ?thesis by (simp add: hex_width.simps [of x])
  qed (simp add: hex_width.simps [of x])
qed

lemma hex_val_fmt_hex [simp]: "hex_val (fmt_hex w x) = x"
proof -
  have "x < 16 ^ max w (hex_width x)"
    by (rule order_less_le_trans [OF less_hex_width]) (simp add: power_increasing)
  then show ?thesis by (simp add: fmt_hex_def hex_val_hex_digits)
qed

lemma fmt_hex_inject: "fmt_hex w x = fmt_hex w y \<longleftrightarrow> x = y"
  by (metis hex_val_fmt_hex)

definition is_name_char :: "char \<Rightarrow> bool" where
  "is_name_char c \<longleftrightarrow> c \<noteq> CHR ''/'' \<and> c \<noteq> CHR 0x5C"

definition is_hex_char :: "char \<Rightarrow> bool" where
  "is_hex_char c \<longleftrightarrow> 48 \<le> (of_char c :: nat) \<and> of_char c \<le> (57 :: nat) \<or>
     97 \<le> (of_char c :: nat) \<and> of_char c \<le> (102 :: nat)"

lemma is_hex_char_not: "is_hex_char c \<Longrightarrow> c \<noteq> CHR ''/'' \<and> c \<noteq> CHR 0x5C \<and> c \<noteq> CHR ''_''"
  by (auto simp: is_hex_char_def)

lemma hex_digit_char: "n < 16 \<Longrightarrow> is_hex_char (hex_digit n)"
  by (auto simp: hex_digit_def is_hex_char_def)

lemma hex_digits_chars: "list_all is_hex_char (hex_digits n x)"
  by (induction n arbitrary: x) (simp_all add: hex_digit_char)

lemma fmt_hex_no_underscore: "CHR ''_'' \<notin> set (fmt_hex w x)"
  using hex_digits_chars [of "max w (hex_width x)" x] is_hex_char_not
  by (auto simp: fmt_hex_def list_all_iff)

lemma fmt_hex_name_chars: "list_all is_name_char (fmt_hex w x)"
  using hex_digits_chars [of "max w (hex_width x)" x] is_hex_char_not
  by (auto simp: fmt_hex_def is_name_char_def list_all_iff)

lemma hex_width_le: "x < 16 ^ n \<Longrightarrow> 0 < n \<Longrightarrow> hex_width x \<le> n"
proof (induction n arbitrary: x)
  case (Suc n)
  show ?case
  proof (cases "x < 16")
    case False
    then have "0 < n" using Suc.prems by (cases n) auto
    moreover have "x div 16 < 16 ^ n" using Suc.prems by (simp add: less_mult_imp_div_less mult.commute)
    ultimately show ?thesis using Suc.IH [of "x div 16"] False by (simp add: hex_width.simps [of x])
  qed (simp add: hex_width.simps [of x])
qed simp

lemma length_fmt_hex: "x < 16 ^ w \<Longrightarrow> 0 < w \<Longrightarrow> length (fmt_hex w x) = w"
  using hex_width_le [of x w] by (simp add: fmt_hex_def)

lemma takeWhile_underscore:
  "CHR ''_'' \<notin> set s \<Longrightarrow> takeWhile (\<lambda>c. c \<noteq> CHR ''_'') (s @ CHR ''_'' # t) = s"
  by (induction s) auto

lemma record_suffix_inject: "record_suffix a b = record_suffix c d \<longleftrightarrow> a = c \<and> b = d"
proof
  assume "record_suffix a b = record_suffix c d"
  then have *: "fmt_hex 16 a @ CHR ''_'' # fmt_hex 16 b = fmt_hex 16 c @ CHR ''_'' # fmt_hex 16 d"
    by (simp add: record_suffix_def)
  then have "fmt_hex 16 a = fmt_hex 16 c"
    by (metis takeWhile_underscore fmt_hex_no_underscore)
  with * show "a = c \<and> b = d" by (simp add: fmt_hex_inject)
qed simp

lemma record_suffix_tl:
  "\<exists>s. record_suffix a b = CHR ''/'' # s \<and> list_all is_name_char s"
  by (simp add: record_suffix_def fmt_hex_name_chars) (simp add: is_name_char_def)

lemma dropWhile_name_chars:
  "list_all is_name_char s \<Longrightarrow>
   dropWhile (\<lambda>c. c \<noteq> CHR ''/'' \<and> c \<noteq> CHR 0x5C) (rev s @ CHR ''/'' # r) = CHR ''/'' # r"
  by (subst dropWhile_append2) (auto simp: list_all_iff is_name_char_def)

lemma dir_of_record_name:
  "wolfPSA_StoreDirOfName (dir @ record_suffix a b) =
    (if dir = [] \<or> length dir \<ge> WOLFPSA_STORE_MAX_PATH then None else Some dir)"
proof -
  obtain s where s: "record_suffix a b = CHR ''/'' # s" "list_all is_name_char s"
    using record_suffix_tl by blast
  show ?thesis
    using dropWhile_name_chars [OF s(2), of "rev dir"]
    by (simp add: wolfPSA_StoreDirOfName_def s(1) Let_def)
qed

definition temp_suffix :: "string \<Rightarrow> string" where
  "temp_suffix s = ''/psa_tmp_'' @ s"

lemma temp_not_record: "dir @ temp_suffix s \<noteq> dir @ record_suffix a b"
  by (simp add: temp_suffix_def record_suffix_def)

lemma length_record_suffix:
  "k < 2 ^ 64 \<Longrightarrow> length (record_suffix k 0) = 42"
  by (simp add: record_suffix_def length_fmt_hex)

section \<open>What the operations leave alone\<close>

text \<open>
  \<open>temps_only dir st st'\<close>: from \<open>st\<close> to \<open>st'\<close> the environment variables are unchanged and so is
  every file other than the temporary files of \<open>dir\<close>.
\<close>

definition temps_only :: "string \<Rightarrow> 'd posix_state \<Rightarrow> 'd posix_state \<Rightarrow> bool" where
  "temps_only dir st st' \<longleftrightarrow>
    env_no_store st' = env_no_store st \<and> env_token_path st' = env_token_path st \<and>
    (\<forall>n. (\<forall>s. n \<noteq> dir @ temp_suffix s) \<longrightarrow> files st' n = files st n)"

lemma temps_only_refl [simp]: "temps_only dir st st"
  by (simp add: temps_only_def)

lemma temps_only_trans:
  "temps_only dir a b \<Longrightarrow> temps_only dir b c \<Longrightarrow> temps_only dir a c"
  by (simp add: temps_only_def)

lemma temps_only_token_path: "temps_only dir st st' \<Longrightarrow> token_path st' = token_path st"
  by (simp add: temps_only_def token_path_def)

lemma store_name_ok_Some:
  "store_name_ok st WOLFPSA_STORE_KEY k 0 = Some name \<Longrightarrow>
   name = token_path st @ record_suffix k 0"
  by (auto simp: store_name_ok_def wolfPSA_Store_Name_def Let_def split: if_splits)

lemma temps_only_recs:
  assumes "temps_only (token_path st) st st'"
  shows "posix_recs st' = posix_recs st"
proof
  fix k
  have "files st' (token_path st @ record_suffix k 0) = files st (token_path st @ record_suffix k 0)"
    using assms temp_not_record [of "token_path st"] unfolding temps_only_def by metis
  moreover have "store_name_ok st' WOLFPSA_STORE_KEY k 0 = store_name_ok st WOLFPSA_STORE_KEY k 0"
    using temps_only_token_path [OF assms] by (simp add: store_name_ok_def wolfPSA_Store_Name_def)
  moreover have "env_no_store st' = env_no_store st"
    using assms by (simp add: temps_only_def)
  ultimately show "posix_recs st' k = posix_recs st k"
    using store_name_ok_Some [of st k] by (auto simp: posix_recs_def split: option.splits)
qed

lemma temps_only_next_fault: "next_fault st = (f, st') \<Longrightarrow> temps_only dir st st'"
  by (auto simp: next_fault_def temps_only_def split: list.splits)

lemma next_fault_fields [frame]:
  "next_fault st = (f, st') \<Longrightarrow> files st' = files st \<and> dirs st' = dirs st \<and> pid st' = pid st \<and>
     now st' = now st \<and> env_no_store st' = env_no_store st \<and>
     env_token_path st' = env_token_path st"
  by (auto simp: next_fault_def split: list.splits)

lemma temps_only_next_suffix: "next_suffix st = (s, st') \<Longrightarrow> temps_only dir st st'"
  by (auto simp: next_suffix_def temps_only_def split: list.splits)

lemma temps_only_xmalloc: "p_xmalloc st = (ok, st') \<Longrightarrow> temps_only dir st st'"
  by (auto simp: p_xmalloc_def temps_only_def split: prod.splits)

lemma temps_only_files_update:
  "temps_only dir st st' \<Longrightarrow>
   temps_only dir st (st'\<lparr>files := (files st')(dir @ temp_suffix s := v)\<rparr>)"
  by (auto simp: temps_only_def)

lemma temps_only_dirs: "temps_only dir st (st\<lparr>dirs := d\<rparr>)"
  by (simp add: temps_only_def)

lemma temps_only_p_remove:
  assumes "p_remove st (dir @ temp_suffix s) = (rc, st')"
  shows "temps_only dir st st'"
proof -
  obtain f st1 where n: "next_fault st = (f, st1)" by fastforce
  show ?thesis
    using assms temps_only_next_fault [OF n, of dir] temps_only_files_update [of dir st st1 s]
    by (auto simp: p_remove_def n Let_def split: if_splits)
qed

lemma temps_only_snd_remove: "temps_only dir st (snd (p_remove st (dir @ temp_suffix s)))"
  by (rule temps_only_p_remove [OF prod.collapse [symmetric]])

lemma template_prefix:
  "\<exists>s. take (length (temp_template st dir) - 6) (temp_template st dir) = dir @ temp_suffix s"
proof -
  have "temp_template st dir =
      (dir @ ''/psa_tmp_'' @ fmt_hex 8 (pid st) @ ''_'' @ fmt_hex 8 (now st) @ ''_'') @ ''XXXXXX''"
    by (simp add: temp_template_def)
  moreover have "take (length (a @ ''XXXXXX'') - 6) (a @ ''XXXXXX'') = a" for a
    by simp
  ultimately show ?thesis unfolding temp_suffix_def by (metis append.assoc)
qed

lemma temps_only_mkstemp:
  assumes "mkstemp st (temp_template st' dir) = (r, st'')"
  shows "temps_only dir st st'' \<and>
    (\<forall>name. r = Some name \<longrightarrow> (\<exists>s. name = dir @ temp_suffix s) \<and> files st'' name = Some [])"
proof -
  obtain f st1 where n: "next_fault st = (f, st1)" by fastforce
  obtain x st2 where x: "next_suffix st1 = (x, st2)" by fastforce
  obtain p where p: "take (length (temp_template st' dir) - 6) (temp_template st' dir)
      = dir @ temp_suffix p" using template_prefix by blast
  have t: "temps_only dir st st2"
    using temps_only_next_fault [OF n] temps_only_next_suffix [OF x] by (rule temps_only_trans)
  show ?thesis
    using assms t temps_only_files_update [OF t, of "p @ x"]
    by (auto simp: mkstemp_def n x p Let_def temp_suffix_def split: if_splits)
qed

lemma create_temp_file:
  assumes "wolfPSA_StoreCreateTempFile ctx dir st = (rc, ctx', st')"
  shows "temps_only dir st st' \<and>
    (rc = WOLFPSA_STORE_OK \<longrightarrow>
      (\<exists>s. ctx' = ctx\<lparr>ctx_file := Some (WStream (dir @ temp_suffix s)),
                      temp_name := dir @ temp_suffix s, has_temp := True\<rparr> \<and>
           files st' (dir @ temp_suffix s) = Some []))"
proof -
  obtain r st1 where m: "mkstemp st (temp_template st dir) = (r, st1)" by fastforce
  obtain f1 st2 where n1: "next_fault st1 = (f1, st2)" by fastforce
  obtain f2 st3 where n2: "next_fault st2 = (f2, st3)" by fastforce
  note mk = temps_only_mkstemp [OF m]
  show ?thesis
  proof (cases r)
    case None
    then show ?thesis
      using assms mk by (auto simp: wolfPSA_StoreCreateTempFile_def m Let_def split: if_splits)
  next
    case (Some name)
    then obtain s where name: "name = dir @ temp_suffix s" "files st1 name = Some []"
      using mk by auto
    have t2: "temps_only dir st st2"
      using mk temps_only_next_fault [OF n1, of dir] temps_only_trans by blast
    then have t3: "temps_only dir st st3"
      using temps_only_next_fault [OF n2, of dir] temps_only_trans by blast
    have rm: "temps_only dir st2 (snd (p_remove st2 name))" "temps_only dir st3 (snd (p_remove st3 name))"
      unfolding name(1) by (rule temps_only_snd_remove)+
    have "files st3 name = Some []"
      using name(2) next_fault_fields [OF n1] next_fault_fields [OF n2] by simp
    then show ?thesis
      using assms t2 t3 rm temps_only_trans [of dir st]
      by (auto simp: wolfPSA_StoreCreateTempFile_def m n1 n2 Some name(1) Let_def split: if_splits)
  qed
qed

section \<open>Reading\<close>

lemma open_for_read_cases:
  assumes "open_for_read os st name = (r, st')"
  shows "temps_only dir st st' \<and>
    (case r of Opened h \<Rightarrow> \<exists>bs. files st name = Some bs \<and> posix_reading h bs
     | OpenFail rc \<Rightarrow> rc \<noteq> WOLFPSA_STORE_OK \<and>
         (rc = WOLFPSA_STORE_NOT_AVAILABLE \<longrightarrow> files st name = None))"
proof -
  obtain f st1 where n: "next_fault st = (f, st1)" by fastforce
  show ?thesis
    using assms temps_only_next_fault [OF n, of dir] next_fault_fields [OF n]
    by (auto simp: open_for_read_def n posix_reading_def new_ctx_def Let_def
        split: if_splits option.splits)
qed

lemma open_for_write_cases:
  assumes "open_for_write os st (dir @ record_suffix k 0) = (r, st')"
  shows "temps_only dir st st' \<and>
    (case r of
       Opened h \<Rightarrow>
         (\<exists>s. h = (new_ctx (dir @ record_suffix k 0) False)
                   \<lparr>ctx_file := Some (WStream (dir @ temp_suffix s)),
                    temp_name := dir @ temp_suffix s, has_temp := True\<rparr> \<and>
              files st' (dir @ temp_suffix s) = Some [])
     | OpenFail rc \<Rightarrow> rc \<noteq> WOLFPSA_STORE_OK)"
proof (cases "wolfPSA_StoreDirOfName (dir @ record_suffix k 0)")
  case None
  then show ?thesis using assms by (auto simp: open_for_write_def)
next
  case (Some d)
  then have d: "d = dir" by (auto simp: dir_of_record_name split: if_splits)
  obtain rc d' where e: "wolfPSA_StoreEnsureDir os (dirs st) dir = (rc, d')" by fastforce
  obtain rc' ctx st2 where c: "wolfPSA_StoreCreateTempFile
      (new_ctx (dir @ record_suffix k 0) False) dir (st\<lparr>dirs := d'\<rparr>) = (rc', ctx, st2)"
    by (metis prod_cases3)
  have "temps_only dir st (st\<lparr>dirs := d'\<rparr>)" by (rule temps_only_dirs)
  then show ?thesis
    using assms create_temp_file [OF c] temps_only_trans [of dir st "st\<lparr>dirs := d'\<rparr>" st2]
    by (auto simp: open_for_write_def Some d e c Let_def split: if_splits)
qed

section \<open>Write sessions\<close>

definition write_ctx :: "string \<Rightarrow> nat \<Rightarrow> string \<Rightarrow> bool \<Rightarrow> FileStoreCtx" where
  "write_ctx dir k s failed =
    \<lparr>ctx_file = Some (WStream (dir @ temp_suffix s)), is_write = True, has_temp = True,
     write_failed = failed, final_name = dir @ record_suffix k 0,
     temp_name = dir @ temp_suffix s\<rparr>"

lemma write_ctx_simps [simp]:
  "ctx_file (write_ctx dir k s b) = Some (WStream (dir @ temp_suffix s))"
  "is_write (write_ctx dir k s b)" "has_temp (write_ctx dir k s b)"
  "write_failed (write_ctx dir k s b) = b"
  "final_name (write_ctx dir k s b) = dir @ record_suffix k 0"
  "temp_name (write_ctx dir k s b) = dir @ temp_suffix s"
  "(write_ctx dir k s b)\<lparr>write_failed := c\<rparr> = write_ctx dir k s c"
  by (simp_all add: write_ctx_def)

lemma open_for_write_ctx:
  assumes "open_for_write os st (dir @ record_suffix k 0) = (Opened h, st')"
  shows "\<exists>s. h = write_ctx dir k s False \<and> files st' (dir @ temp_suffix s) = Some []"
  using open_for_write_cases [OF assms] by (auto simp: write_ctx_def new_ctx_def)

lemma fwrite_cases:
  assumes "p_fwrite st (dir @ temp_suffix s) bs = (n, st')"
    and "files st (dir @ temp_suffix s) = Some []"
  shows "temps_only dir st st' \<and> files st' (dir @ temp_suffix s) = Some (take n bs)"
proof -
  obtain f st1 where n1: "next_fault st = (f, st1)" by fastforce
  note t1 = temps_only_next_fault [OF n1, of dir]
  show ?thesis
    using assms temps_only_files_update [OF t1, of s] next_fault_fields [OF n1]
    by (auto simp: p_fwrite_def n1 Let_def)
qed

lemma write_cases:
  assumes w: "wolfPSA_Store_Write st (write_ctx dir k s False) bs = (io, h', st')"
    and f: "files st (dir @ temp_suffix s) = Some []"
  shows "temps_only dir st st' \<and> h' = write_ctx dir k s (io \<noteq> Inr (length bs)) \<and>
    (io = Inr (length bs) \<longrightarrow> files st' (dir @ temp_suffix s) = Some bs)"
proof -
  obtain n st1 where p: "p_fwrite st (dir @ temp_suffix s) bs = (n, st1)" by fastforce
  obtain g st2 where q: "next_fault st1 = (g, st2)" by fastforce
  have "temps_only dir st st2"
    using fwrite_cases [OF p f] temps_only_next_fault [OF q, of dir] temps_only_trans by blast
  then show ?thesis
    using w fwrite_cases [OF p f] next_fault_fields [OF q]
    by (auto simp: wolfPSA_Store_Write_def p q split: if_splits)
qed

lemma close_failed:
  assumes "wolfPSA_Store_Close st (write_ctx dir k s True) = (rc, st')"
  shows "rc \<noteq> WOLFPSA_STORE_OK \<and> temps_only dir st st'"
proof -
  obtain f st1 where n: "next_fault st = (f, st1)" by fastforce
  have "rc = WOLFPSA_STORE_IO_ERROR \<and> st' = snd (p_remove st1 (dir @ temp_suffix s))"
    using assms by (cases f) (auto simp: wolfPSA_Store_Close_def n wolfPSA_StoreAbortTemp_def Let_def)
  then show ?thesis
    using temps_only_next_fault [OF n, of dir] temps_only_snd_remove temps_only_trans by blast
qed

definition committed :: "string \<Rightarrow> nat \<Rightarrow> byte list \<Rightarrow> 'd posix_state \<Rightarrow> 'd posix_state \<Rightarrow> bool" where
  "committed dir k bs st st' \<longleftrightarrow>
    env_no_store st' = env_no_store st \<and> env_token_path st' = env_token_path st \<and>
    files st' (dir @ record_suffix k 0) = Some bs \<and>
    (\<forall>n. n \<noteq> dir @ record_suffix k 0 \<longrightarrow> (\<forall>s. n \<noteq> dir @ temp_suffix s) \<longrightarrow>
         files st' n = files st n)"

lemma close_written:
  assumes cl: "wolfPSA_Store_Close st (write_ctx dir k s False) = (rc, st')"
    and fl: "files st (dir @ temp_suffix s) = Some bs"
  shows "if rc = WOLFPSA_STORE_OK then committed dir k bs st st' else temps_only dir st st'"
proof -
  let ?t = "dir @ temp_suffix s" and ?r = "dir @ record_suffix k 0"
  obtain f st1 where n: "next_fault st = (f, st1)" by fastforce
  obtain g st2 where m: "next_fault st1 = (g, st2)" by fastforce
  note t1 = temps_only_next_fault [OF n, of dir]
  have t2: "temps_only dir st st2"
    using t1 temps_only_next_fault [OF m, of dir] by (rule temps_only_trans)
  have f2: "files st2 = files st"
    using next_fault_fields [OF n] next_fault_fields [OF m] by simp
  consider (fclose) "f \<noteq> None" | (rename) "f = None" "g \<noteq> None" | (ok) "f = None" "g = None"
    by blast
  then show ?thesis
  proof cases
    case fclose
    then have "rc = WOLFPSA_STORE_IO_ERROR \<and> st' = snd (p_remove st1 ?t)"
      using cl by (auto simp: wolfPSA_Store_Close_def n wolfPSA_StoreAbortTemp_def Let_def)
    then show ?thesis using t1 temps_only_snd_remove temps_only_trans by auto blast
  next
    case rename
    then have "rc = WOLFPSA_STORE_IO_ERROR \<and> st' = snd (p_remove st2 ?t)"
      using cl by (auto simp: wolfPSA_Store_Close_def n m wolfPSA_StoreAbortTemp_def
          wolfPSA_StoreCommitTemp_def Let_def)
    then show ?thesis using t2 temps_only_snd_remove temps_only_trans by auto blast
  next
    case ok
    then have "rc = WOLFPSA_STORE_OK \<and>
        st' = st2\<lparr>files := (files st2)(?r := files st2 ?t, ?t := None)\<rparr>"
      using cl f2 fl by (auto simp: wolfPSA_Store_Close_def n m
          wolfPSA_StoreCommitTemp_def Let_def)
    then show ?thesis
      using t2 f2 fl temp_not_record [of dir s k 0] by (auto simp: committed_def temps_only_def)
  qed
qed

lemma committed_recs:
  assumes "committed (token_path st) k bs st st'" and "\<not> env_no_store st"
    and "store_name_ok st WOLFPSA_STORE_KEY k 0 \<noteq> None"
  shows "posix_recs st' = (posix_recs st)(k \<mapsto> bs)"
proof
  fix j
  have nm: "store_name_ok st' WOLFPSA_STORE_KEY j 0 = store_name_ok st WOLFPSA_STORE_KEY j 0"
    using assms(1) by (simp add: committed_def store_name_ok_def wolfPSA_Store_Name_def token_path_def)
  have "files st' (token_path st @ record_suffix j 0) =
      (if j = k then Some bs else files st (token_path st @ record_suffix j 0))"
  proof (cases "j = k")
    case False
    then have "token_path st @ record_suffix j 0 \<noteq> token_path st @ record_suffix k 0"
      by (simp add: record_suffix_inject)
    with False assms(1) temp_not_record [of "token_path st"] show ?thesis
      unfolding committed_def by metis
  qed (use assms(1) in \<open>simp add: committed_def\<close>)
  with assms nm show "posix_recs st' j = ((posix_recs st)(k \<mapsto> bs)) j"
    using store_name_ok_Some [of st]
    by (auto simp: posix_recs_def committed_def split: option.splits)
qed

lemma temps_only_committed:
  "temps_only dir st st1 \<Longrightarrow> committed dir k bs st1 st2 \<Longrightarrow> committed dir k bs st st2"
  by (simp add: temps_only_def committed_def)

section \<open>The backend laws\<close>

text \<open>What an open does, whichever way it ends.\<close>

lemma open_step:
  assumes "wolfPSA_Store_OpenSz os st WOLFPSA_STORE_KEY k 0 rd n = (r, st')"
  obtains (early) rc where "r = OpenFail rc" "rc \<noteq> WOLFPSA_STORE_OK"
      "rc = WOLFPSA_STORE_NOT_AVAILABLE \<Longrightarrow> env_no_store st" "temps_only (token_path st) st st'"
    | (opened) st1 where "\<not> env_no_store st" "store_name_ok st WOLFPSA_STORE_KEY k 0 \<noteq> None"
      "temps_only (token_path st) st st1"
      "(if rd then open_for_read os st1 (token_path st @ record_suffix k 0)
        else open_for_write os st1 (token_path st @ record_suffix k 0)) = (r, st')"
proof -
  obtain ok st1 where x: "p_xmalloc st = (ok, st1)" by fastforce
  note t1 = temps_only_xmalloc [OF x, of "token_path st"]
  show thesis
  proof (cases "env_no_store st \<or> store_name_ok st WOLFPSA_STORE_KEY k 0 = None \<or> \<not> ok")
    case True
    then show thesis
      using assms t1 early
      by (auto simp: wolfPSA_Store_OpenSz_def x split: if_splits option.splits)
  next
    case False
    then obtain name where nm: "store_name_ok st WOLFPSA_STORE_KEY k 0 = Some name" by auto
    show thesis
      using False assms t1 store_name_ok_Some [OF nm] opened [of st1]
      by (simp add: wolfPSA_Store_OpenSz_def x nm)
  qed
qed

lemma posix_recs_name:
  "\<not> env_no_store st \<Longrightarrow> store_name_ok st WOLFPSA_STORE_KEY k 0 \<noteq> None \<Longrightarrow>
   posix_recs st k = files st (token_path st @ record_suffix k 0)"
  using store_name_ok_Some [of st k] by (auto simp: posix_recs_def)

lemma temps_only_record:
  "temps_only dir st st' \<Longrightarrow> files st' (dir @ record_suffix k 0) = files st (dir @ record_suffix k 0)"
  using temp_not_record [of dir] unfolding temps_only_def by metis

lemma open_temps_only:
  assumes "wolfPSA_Store_OpenSz os st WOLFPSA_STORE_KEY k 0 rd n = (r, st')"
  shows "temps_only (token_path st) st st'"
  using assms
proof (cases rule: open_step)
  case (opened st1)
  have "temps_only (token_path st) st1 st'"
    using opened(4) open_for_read_cases [of os st1] open_for_write_cases [of os st1]
    by (cases rd) auto
  with opened(3) show ?thesis by (rule temps_only_trans)
qed

lemma open_not_ok:
  assumes "wolfPSA_Store_OpenSz os st WOLFPSA_STORE_KEY k 0 rd n = (OpenFail rc, st')"
  shows "rc \<noteq> WOLFPSA_STORE_OK"
  using assms
proof (cases rule: open_step)
  case (opened st1)
  then show ?thesis
    using open_for_read_cases [of os st1 "token_path st @ record_suffix k 0"]
      open_for_write_cases [of os st1] by (cases rd) fastforce+
qed simp

lemma open_read_content:
  assumes "wolfPSA_Store_OpenSz os st WOLFPSA_STORE_KEY k 0 True n = (r, st')"
  shows "case r of Opened h \<Rightarrow> \<exists>bs. posix_recs st k = Some bs \<and> posix_reading h bs
         | OpenFail rc \<Rightarrow> rc = WOLFPSA_STORE_NOT_AVAILABLE \<longrightarrow> posix_recs st k = None"
  using assms
proof (cases rule: open_step)
  case (early rc)
  then show ?thesis by (auto simp: posix_recs_def)
next
  case (opened st1)
  have o: "open_for_read os st1 (token_path st @ record_suffix k 0) = (r, st')"
    using opened(4) by simp
  show ?thesis
    using open_for_read_cases [OF o] posix_recs_name [OF opened(1,2)]
      temps_only_record [OF opened(3), of k]
    by (auto split: open_result.splits)
qed

lemma posix_session_recs:
  assumes op: "wolfPSA_Store_OpenSz os st WOLFPSA_STORE_KEY k 0 False n = (Opened h, st1)"
    and wr: "wolfPSA_Store_Write st1 h bs = (io, h', st2)"
    and cl: "wolfPSA_Store_Close st2 h' = (rc, st3)"
  shows "posix_recs st3 = (if io = Inr (length bs) \<and> rc = WOLFPSA_STORE_OK
                   then (posix_recs st)(k \<mapsto> bs) else posix_recs st)"
  using op
proof (cases rule: open_step)
  case (opened st0)
  let ?d = "token_path st"
  have "open_for_write os st0 (?d @ record_suffix k 0) = (Opened h, st1)"
    using opened(4) by simp
  then obtain s where h: "h = write_ctx ?d k s False" "files st1 (?d @ temp_suffix s) = Some []"
    using open_for_write_ctx by blast
  note w = write_cases [OF wr [unfolded h(1)] h(2)]
  have t2: "temps_only ?d st st2"
    using open_temps_only [OF op] w temps_only_trans by blast
  show ?thesis
  proof (cases "io = Inr (length bs)")
    case True
    then have h': "h' = write_ctx ?d k s False" "files st2 (?d @ temp_suffix s) = Some bs"
      using w by auto
    note c = close_written [OF cl [unfolded h'(1)] h'(2)]
    show ?thesis
      using True c t2 temps_only_trans [of ?d st st2 st3] temps_only_recs [of st st3]
        temps_only_committed [OF t2] committed_recs [OF _ opened(1,2)]
      by (auto split: if_splits)
  next
    case False
    then have "h' = write_ctx ?d k s True" using w by simp
    then have "temps_only ?d st2 st3" using cl close_failed by blast
    with t2 have "temps_only ?d st st3" by (rule temps_only_trans)
    with False show ?thesis by (simp add: temps_only_recs)
  qed
qed simp

lemma store_name_ok_cong:
  "token_path st' = token_path st \<Longrightarrow> store_name_ok st' t a b = store_name_ok st t a b"
  by (simp add: store_name_ok_def wolfPSA_Store_Name_def)

lemma remove_recs_posix:
  assumes "wolfPSA_Store_Remove st WOLFPSA_STORE_KEY k 0 = (rc, st')"
  shows "posix_recs st' = (if rc = WOLFPSA_STORE_OK then (posix_recs st)(k := None) else posix_recs st)
    \<and> (rc = WOLFPSA_STORE_NOT_AVAILABLE \<longrightarrow> posix_recs st k = None)"
proof (cases "env_no_store st \<or> store_name_ok st WOLFPSA_STORE_KEY k 0 = None")
  case True
  then show ?thesis
    using assms by (auto simp: wolfPSA_Store_Remove_def posix_recs_def split: if_splits)
next
  case False
  then have ok: "\<not> env_no_store st" "store_name_ok st WOLFPSA_STORE_KEY k 0 \<noteq> None" by auto
  then obtain name where nm: "store_name_ok st WOLFPSA_STORE_KEY k 0 = Some name" by auto
  obtain f st1 where n: "next_fault st = (f, st1)" by fastforce
  have name: "name = token_path st @ record_suffix k 0" by (rule store_name_ok_Some [OF nm])
  have same: "posix_recs st1 = posix_recs st"
    by (rule temps_only_recs) (rule temps_only_next_fault [OF n])
  have inj: "store_name_ok st WOLFPSA_STORE_KEY j 0 = Some name \<Longrightarrow> j = k" for j
    using store_name_ok_Some [of st j] name by (simp add: record_suffix_inject)
  have upd: "posix_recs (st1\<lparr>files := (files st1)(name := None)\<rparr>) = (posix_recs st1)(k := None)"
    (is "posix_recs ?st' = _")
  proof
    fix j
    have tp: "token_path ?st' = token_path st" "token_path st1 = token_path st"
      using next_fault_fields [OF n] by (simp_all add: token_path_def)
    note nms = store_name_ok_cong [OF tp(1)] store_name_ok_cong [OF tp(2)]
    show "posix_recs ?st' j = ((posix_recs st1)(k := None)) j"
    proof (cases "store_name_ok st WOLFPSA_STORE_KEY j 0")
      case None
      then show ?thesis using nm by (cases "j = k") (simp_all add: posix_recs_def nms)
    next
      case (Some m)
      then have "m = name \<longleftrightarrow> j = k" using inj [of j] nm by (metis option.inject)
      with Some show ?thesis by (cases "j = k") (simp_all add: posix_recs_def nms)
    qed
  qed
  have c: "posix_recs st k = files st1 name"
    using posix_recs_name [OF ok] name next_fault_fields [OF n] by simp
  have r: "p_remove st name = (rc, st')"
    using assms ok(1) nm by (simp add: wolfPSA_Store_Remove_def)
  consider "f \<noteq> None" | "f = None" "files st1 name = None" | "f = None" "files st1 name \<noteq> None"
    by blast
  then show ?thesis
  proof cases
    case 1
    then show ?thesis using r same by (auto simp: p_remove_def n)
  next
    case 2
    then show ?thesis using r same c by (auto simp: p_remove_def n)
  next
    case 3
    then have "rc = WOLFPSA_STORE_OK" "st' = st1\<lparr>files := (files st1)(name := None)\<rparr>"
      using r by (auto simp: p_remove_def n)
    then show ?thesis using upd same by simp
  qed
qed

lemma close_reading:
  assumes "posix_reading h bs" and "next_fault st = (f, st1)"
  shows "wolfPSA_Store_Close st h =
    (if f = None then WOLFPSA_STORE_OK else WOLFPSA_STORE_IO_ERROR, st1)"
  using assms by (cases f) (simp_all add: wolfPSA_Store_Close_def posix_reading_def)

section \<open>Healthy states\<close>

lemma healthy_name:
  assumes "posix_healthy os st" and "k < 2 ^ 32"
  shows "store_name_ok st WOLFPSA_STORE_KEY k 0 = Some (token_path st @ record_suffix k 0)"
  using assms length_record_suffix [of k]
  by (simp add: posix_healthy_def store_name_ok_def wolfPSA_Store_Name_def)

lemma healthy_steps [simp]:
  assumes "posix_healthy os st"
  shows "next_fault st = (None, st)" "p_xmalloc st = (True, st)" "\<not> env_no_store st"
    "next_suffix st = (''AAAAAA'', st)"
  using assms by (simp_all add: posix_healthy_def next_fault_def p_xmalloc_def next_suffix_def)

lemma healthy_dir:
  assumes "posix_healthy os st"
  shows "wolfPSA_StoreDirOfName (token_path st @ record_suffix k 0) = Some (token_path st)"
    and "wolfPSA_StoreValidatePath os (dirs st) (token_path st) = WOLFPSA_STORE_OK"
    and "token_path st \<noteq> []"
  using assms by (auto simp: posix_healthy_def dir_of_record_name wolfPSA_StoreValidatePath_def)

lemma healthy_open_for_read:
  assumes "posix_healthy os st"
  shows "open_for_read os st (token_path st @ record_suffix k 0) =
    (case files st (token_path st @ record_suffix k 0) of
       None \<Rightarrow> (OpenFail WOLFPSA_STORE_NOT_AVAILABLE, st)
     | Some bs \<Rightarrow>
         (Opened ((new_ctx (token_path st @ record_suffix k 0) True)
            \<lparr>ctx_file := Some (RStream bs)\<rparr>), st))"
  using assms healthy_dir [OF assms] by (simp add: open_for_read_def split: option.split)

lemma healthy_open_read:
  assumes "posix_healthy os st" and "k < 2 ^ 32"
  shows "wolfPSA_Store_OpenSz os st WOLFPSA_STORE_KEY k 0 True n =
    (case posix_recs st k of
       None \<Rightarrow> (OpenFail WOLFPSA_STORE_NOT_AVAILABLE, st)
     | Some bs \<Rightarrow>
         (Opened ((new_ctx (token_path st @ record_suffix k 0) True)
            \<lparr>ctx_file := Some (RStream bs)\<rparr>), st))"
  using assms healthy_name [OF assms] posix_recs_name [of st k] healthy_open_for_read [OF assms(1), of k]
  by (simp add: wolfPSA_Store_OpenSz_def)

lemma healthy_files:
  "posix_healthy os st \<Longrightarrow>
   \<exists>t. (\<forall>f. posix_healthy os (st\<lparr>files := f\<rparr>) \<longleftrightarrow> f (token_path st @ temp_suffix t) = None) \<and>
       take (length (temp_template st (token_path st)) - 6) (temp_template st (token_path st))
         @ ''AAAAAA'' = token_path st @ temp_suffix t"
proof -
  assume h: "posix_healthy os st"
  obtain s where s: "take (length (temp_template st (token_path st)) - 6)
      (temp_template st (token_path st)) = token_path st @ temp_suffix s"
    using template_prefix by blast
  have e: "token_path st @ temp_suffix s @ ''AAAAAA'' = token_path st @ temp_suffix (s @ ''AAAAAA'')"
    by (simp add: temp_suffix_def)
  have "token_path (st\<lparr>files := f\<rparr>) = token_path st"
    "temp_template (st\<lparr>files := f\<rparr>) x = temp_template st x" for f x
    by (simp_all add: token_path_def temp_template_def)
  then have "posix_healthy os (st\<lparr>files := f\<rparr>) \<longleftrightarrow>
      f (token_path st @ temp_suffix (s @ ''AAAAAA'')) = None" for f
    using h s e by (simp add: posix_healthy_def)
  with s e show ?thesis by (metis append.assoc)
qed

lemma healthy_write:
  assumes h: "posix_healthy os st" and k: "k < 2 ^ 32" and "bs \<noteq> []"
  shows "\<exists>h1 st1 h2 st2 st3.
    wolfPSA_Store_OpenSz os st WOLFPSA_STORE_KEY k 0 False n = (Opened h1, st1) \<and>
    wolfPSA_Store_Write st1 h1 bs = (Inr (length bs), h2, st2) \<and>
    wolfPSA_Store_Close st2 h2 = (WOLFPSA_STORE_OK, st3) \<and> posix_healthy os st3"
proof -
  let ?d = "token_path st"
  obtain t where t: "\<And>f. posix_healthy os (st\<lparr>files := f\<rparr>) \<longleftrightarrow> f (?d @ temp_suffix t) = None"
      "take (length (temp_template st ?d) - 6) (temp_template st ?d) @ ''AAAAAA'' = ?d @ temp_suffix t"
    using healthy_files [OF h] by blast
  let ?T = "?d @ temp_suffix t" and ?R = "?d @ record_suffix k 0"
  have "st\<lparr>files := files st\<rparr> = st" by simp
  then have free: "files st ?T = None" using t(1) [of "files st"] h by simp
  have len: "length (temp_template st ?d) < WOLFPSA_STORE_MAX_PATH"
    using h by (simp add: posix_healthy_def)
  have nf: "next_fault (st\<lparr>files := f\<rparr>) = (None, st\<lparr>files := f\<rparr>)" for f
    using h by (simp add: next_fault_def posix_healthy_def)
  define st1 where "st1 = st\<lparr>files := (files st)(?T \<mapsto> [])\<rparr>"
  define st2 where "st2 = st\<lparr>files := (files st)(?T \<mapsto> bs)\<rparr>"
  define st3 where "st3 = st\<lparr>files := (files st)(?T \<mapsto> bs, ?R \<mapsto> bs, ?T := None)\<rparr>"
  have "mkstemp st (temp_template st ?d) = (Some ?T, st1)"
    using h free by (simp add: mkstemp_def t(2) st1_def Let_def)
  then have "open_for_write os st ?R = (Opened (write_ctx ?d k t False), st1)"
    using h healthy_dir [OF h] len nf
    by (simp add: open_for_write_def wolfPSA_StoreEnsureDir_def wolfPSA_StoreCreateTempFile_def
        st1_def write_ctx_def new_ctx_def)
  then have 1: "wolfPSA_Store_OpenSz os st WOLFPSA_STORE_KEY k 0 False n =
      (Opened (write_ctx ?d k t False), st1)"
    using h healthy_name [OF h k] by (simp add: wolfPSA_Store_OpenSz_def)
  have 2: "wolfPSA_Store_Write st1 (write_ctx ?d k t False) bs =
      (Inr (length bs), write_ctx ?d k t False, st2)"
    by (simp add: wolfPSA_Store_Write_def p_fwrite_def st1_def st2_def nf)
  have 3: "wolfPSA_Store_Close st2 (write_ctx ?d k t False) = (WOLFPSA_STORE_OK, st3)"
    by (simp add: wolfPSA_Store_Close_def wolfPSA_StoreCommitTemp_def st2_def st3_def nf)
  have 4: "posix_healthy os st3" by (simp add: st3_def t(1))
  from 1 2 3 4 show ?thesis by blast
qed

lemma healthy_remove:
  assumes h: "posix_healthy os st" and k: "k < 2 ^ 32"
  shows "\<exists>rc st'. wolfPSA_Store_Remove st WOLFPSA_STORE_KEY k 0 = (rc, st') \<and>
    posix_healthy os st' \<and> (rc = WOLFPSA_STORE_OK \<or> rc = WOLFPSA_STORE_NOT_AVAILABLE)"
proof -
  let ?R = "token_path st @ record_suffix k 0"
  obtain t where t: "\<And>f. posix_healthy os (st\<lparr>files := f\<rparr>) \<longleftrightarrow> f (token_path st @ temp_suffix t) = None"
    using healthy_files [OF h] by blast
  have "st\<lparr>files := files st\<rparr> = st" by simp
  then have "posix_healthy os (st\<lparr>files := (files st)(?R := None)\<rparr>)"
    using t [of "files st"] t [of "(files st)(?R := None)"] h by simp
  then show ?thesis
    using h healthy_name [OF h k] by (simp add: wolfPSA_Store_Remove_def p_remove_def)
qed

interpretation posix: store_backend "posix_ops os" posix_recs posix_reading "posix_healthy os" "\<lambda>k. k < 2 ^ 32"
  for os :: "('d, 'fd) dir_ops"
proof (unfold_locales, goal_cases)
  case 1 then show ?case by (simp add: posix_ops_def temps_only_recs [OF open_temps_only])
next
  case 2 then show ?case using open_read_content by (fastforce simp: posix_ops_def)
next
  case 3 then show ?case using open_read_content by (fastforce simp: posix_ops_def)
next
  case 4 then show ?case by (simp add: posix_ops_def open_not_ok)
next
  case (5 h bs st n rr h' st')
  then show ?case
    using temps_only_recs [OF temps_only_next_fault]
    by (auto simp: posix_ops_def wolfPSA_Store_Read_def posix_reading_def Let_def split: prod.splits)
next
  case 6 then show ?case
    by (auto simp: posix_ops_def wolfPSA_Store_Read_def posix_reading_def Let_def
        split: prod.splits option.splits)
next
  case 7 then show ?case
    by (auto simp: posix_ops_def wolfPSA_Store_Read_def posix_reading_def Let_def split: prod.splits)
next
  case (8 h bs st rc st')
  obtain f st1 where n: "next_fault st = (f, st1)" by fastforce
  with 8 show ?case
    using temps_only_recs [OF temps_only_next_fault [OF n]] close_reading [OF 8(1) n]
    by (simp add: posix_ops_def)
next
  case 9 then show ?case by (simp add: posix_ops_def temps_only_recs [OF open_temps_only])
next
  case (10 st h bs m h' st')
  then show ?case
    by (auto simp: posix_ops_def wolfPSA_Store_Write_def p_fwrite_def Let_def
        split: option.splits fstream.splits prod.splits if_splits)
next
  case (11 st k n h st1 bs io h' st2 rc st3)
  then show ?case using posix_session_recs [of os st k n h st1 bs io h' st2 rc st3]
    by (simp add: posix_ops_def)
next
  case 12 then show ?case using remove_recs_posix by (fastforce simp: posix_ops_def)
next
  case 13 then show ?case using remove_recs_posix by (fastforce simp: posix_ops_def)
next
  case 14 then show ?case by (simp add: posix_ops_def healthy_open_read)
next
  case 15 then show ?case by (simp add: posix_ops_def healthy_open_read)
next
  case 16 then show ?case by (simp add: posix_ops_def wolfPSA_Store_Read_def posix_reading_def)
next
  case 17 then show ?case by (simp add: posix_ops_def wolfPSA_Store_Close_def posix_reading_def)
next
  case 18 then show ?case using healthy_write by (simp add: posix_ops_def)
next
  case 19 then show ?case using healthy_remove by (simp add: posix_ops_def)
qed

section \<open>Trusted directories\<close>

text \<open>
  What the checks are meant to establish. A directory is trusted when its owner is the
  effective user or root and nobody else can rename its entries; the store directory itself
  must not be writable by group or other at all. \<open>lexical_walk n fd p leaf\<close> resolves the path
  \<open>p\<close> from \<open>fd\<close> in \<open>n\<close> steps and asks that every directory in which a proper component is
  looked up is trusted; \<open>ancestor_chain n fd st\<close> asks the same of the \<open>n\<close> real ancestors.
\<close>

definition trusted_dir :: "('d, 'fd) dir_ops \<Rightarrow> 'd \<Rightarrow> 'fd \<Rightarrow> bool" where
  "trusted_dir os d fd \<longleftrightarrow>
    (\<exists>st. d_fstat os d fd = Some st \<and> S_ISDIR (st_mode st) \<and> st_uid st \<in> {d_euid os, 0} \<and>
      (st_mode st AND GROUP_OTHER_WRITE = 0 \<or> st_mode st AND S_ISVTX \<noteq> 0))"

definition private_leaf :: "('d, 'fd) dir_ops \<Rightarrow> 'd \<Rightarrow> string \<Rightarrow> bool" where
  "private_leaf os d p \<longleftrightarrow>
    (\<exists>st. d_lstat os d p = Some st \<and> S_ISDIR (st_mode st) \<and> st_uid st \<in> {d_euid os, 0} \<and>
      st_mode st AND GROUP_OTHER_WRITE = 0)"

inductive lexical_walk :: "('d, 'fd) dir_ops \<Rightarrow> 'd \<Rightarrow> nat \<Rightarrow> 'fd \<Rightarrow> string \<Rightarrow> 'fd \<Rightarrow> bool"
  for os d where
  lw_done: "dropWhile (\<lambda>c. c = CHR ''/'') p = [] \<Longrightarrow> lexical_walk os d 0 fd p fd"
| lw_step: "dropWhile (\<lambda>c. c = CHR ''/'') p = q \<Longrightarrow> q \<noteq> [] \<Longrightarrow>
    takeWhile (\<lambda>c. c \<noteq> CHR ''/'') q = cmp \<Longrightarrow> length cmp < WOLFPSA_STORE_MAX_COMPONENT \<Longrightarrow>
    cmp \<in> {''.'', ''..''} \<or> trusted_dir os d fd \<Longrightarrow> d_openat os d fd cmp = Some next \<Longrightarrow>
    lexical_walk os d n next (drop (length cmp) q) leaf \<Longrightarrow> lexical_walk os d (Suc n) fd p leaf"

inductive_cases lexical_walk_0E: "lexical_walk os d 0 fd p leaf"
inductive_cases lexical_walk_SucE: "lexical_walk os d (Suc n) fd p leaf"

inductive ancestor_chain :: "('d, 'fd) dir_ops \<Rightarrow> 'd \<Rightarrow> nat \<Rightarrow> 'fd \<Rightarrow> stat_t \<Rightarrow> bool"
  for os d where
  ac_root: "d_openat os d fd ''..'' = Some parent \<Longrightarrow> d_fstat os d parent = Some pst \<Longrightarrow>
    st_ino pst = st_ino st \<and> st_dev pst = st_dev st \<Longrightarrow> ancestor_chain os d 0 fd st"
| ac_up: "d_openat os d fd ''..'' = Some parent \<Longrightarrow> d_fstat os d parent = Some pst \<Longrightarrow>
    \<not> (st_ino pst = st_ino st \<and> st_dev pst = st_dev st) \<Longrightarrow> trusted_dir os d parent \<Longrightarrow>
    ancestor_chain os d n parent pst \<Longrightarrow> ancestor_chain os d (Suc n) fd st"

inductive_cases ancestor_chain_0E: "ancestor_chain os d 0 fd st"
inductive_cases ancestor_chain_SucE: "ancestor_chain os d (Suc n) fd st"

lemma check_leaf_iff:
  "wolfPSA_StoreCheckLeaf os d p = WOLFPSA_STORE_PATH_OK \<longleftrightarrow> private_leaf os d p"
  by (auto simp: wolfPSA_StoreCheckLeaf_def private_leaf_def S_ISDIR_def S_ISLNK_def
      split: option.splits)

lemma check_dir_fd_iff:
  "wolfPSA_StoreCheckDirFd os d fd = WOLFPSA_STORE_PATH_OK \<longleftrightarrow> trusted_dir os d fd"
  by (auto simp: wolfPSA_StoreCheckDirFd_def trusted_dir_def Let_def split: option.splits)

lemma lexical_loop_sound:
  "lexical_loop os d m fd p = (WOLFPSA_STORE_PATH_OK, r) \<Longrightarrow>
   \<exists>n leaf. n < m \<and> r = Some leaf \<and> lexical_walk os d n fd p leaf"
proof (induction m arbitrary: fd p)
  case (Suc m)
  let ?q = "dropWhile (\<lambda>c. c = CHR ''/'') p"
  let ?c = "takeWhile (\<lambda>c. c \<noteq> CHR ''/'') ?q"
  show ?case
  proof (cases "?q = []")
    case True
    then show ?thesis using Suc.prems lw_done [of p os d fd] by (auto simp: Let_def)
  next
    case False
    then obtain next' where ok: "length ?c < WOLFPSA_STORE_MAX_COMPONENT"
        "?c \<in> {''.'', ''..''} \<or> trusted_dir os d fd" "d_openat os d fd ?c = Some next'"
        "lexical_loop os d m next' (drop (length ?c) ?q) = (WOLFPSA_STORE_PATH_OK, r)"
      using Suc.prems
      by (auto simp: Let_def check_dir_fd_iff [symmetric] split: if_splits option.splits)
    then obtain n leaf where "n < m" "r = Some leaf"
        "lexical_walk os d n next' (drop (length ?c) ?q) leaf"
      using Suc.IH [OF ok(4)] by blast
    then show ?thesis using lw_step [OF refl False refl ok(1-3)] by blast
  qed
qed simp

lemma lexical_loop_complete:
  "lexical_walk os d n fd p leaf \<Longrightarrow> n < m \<Longrightarrow>
   lexical_loop os d m fd p = (WOLFPSA_STORE_PATH_OK, Some leaf)"
proof (induction arbitrary: m rule: lexical_walk.induct)
  case (lw_done p fd)
  then show ?case by (cases m) (auto simp: Let_def)
next
  case (lw_step p q cmp fd next' n leaf)
  from lw_step.prems obtain k where m: "m = Suc k" "n < k" by (cases m) auto
  have "(if cmp \<noteq> ''.'' \<and> cmp \<noteq> ''..'' then wolfPSA_StoreCheckDirFd os d fd
      else WOLFPSA_STORE_PATH_OK) = WOLFPSA_STORE_PATH_OK"
    using lw_step.hyps(5) by (auto simp: check_dir_fd_iff)
  with lw_step m show ?case by (simp add: Let_def)
qed

lemma ancestors_loop_iff:
  "ancestors_loop os d m fd st = WOLFPSA_STORE_PATH_OK \<longleftrightarrow> (\<exists>n < m. ancestor_chain os d n fd st)"
proof (induction os d m fd st rule: ancestors_loop.induct)
  case (2 os d m fd st)
  show ?case
  proof
    assume l: "ancestors_loop os d (Suc m) fd st = WOLFPSA_STORE_PATH_OK"
    then obtain parent pst where p: "d_openat os d fd ''..'' = Some parent"
        "d_fstat os d parent = Some pst" by (auto split: option.splits)
    show "\<exists>n < Suc m. ancestor_chain os d n fd st"
    proof (cases "st_ino pst = st_ino st \<and> st_dev pst = st_dev st")
      case True
      then show ?thesis using ac_root [OF p] by blast
    next
      case False
      then have "trusted_dir os d parent" "\<exists>n < m. ancestor_chain os d n parent pst"
        using l p 2 [OF p False refl]
        by (auto simp: Let_def check_dir_fd_iff split: if_splits)
      then show ?thesis using ac_up [OF p False] by (meson Suc_less_eq)
    qed
  next
    assume "\<exists>n < Suc m. ancestor_chain os d n fd st"
    then obtain n where "n < Suc m" "ancestor_chain os d n fd st" by blast
    then show "ancestors_loop os d (Suc m) fd st = WOLFPSA_STORE_PATH_OK"
    proof (cases n)
      case 0
      with \<open>ancestor_chain os d n fd st\<close> show ?thesis
        by (auto elim: ancestor_chain_0E)
    next
      case (Suc j)
      with \<open>n < Suc m\<close> \<open>ancestor_chain os d n fd st\<close> 2 show ?thesis
        by (auto elim!: ancestor_chain_SucE simp: Let_def check_dir_fd_iff)
    qed
  qed
qed simp

lemma check_path_ok_iff:
  "wolfPSA_StoreCheckPath os d p = WOLFPSA_STORE_PATH_OK \<longleftrightarrow>
   wolfPSA_StoreCheckLeaf os d p = WOLFPSA_STORE_PATH_OK \<and>
   (\<exists>leaf. wolfPSA_StoreCheckLexical os d p = (WOLFPSA_STORE_PATH_OK, Some leaf) \<and>
           wolfPSA_StoreCheckAncestors os d leaf = WOLFPSA_STORE_PATH_OK)"
proof -
  have "\<exists>leaf. r = Some leaf" if "wolfPSA_StoreCheckLexical os d p = (WOLFPSA_STORE_PATH_OK, r)" for r
    using that lexical_loop_sound [of os d WOLFPSA_STORE_MAX_DEPTH _ p r]
    by (auto simp: wolfPSA_StoreCheckLexical_def split: option.splits)
  then show ?thesis
    by (auto simp: wolfPSA_StoreCheckPath_def Let_def split: prod.splits path_check.splits option.splits)
qed

lemma lexical_loop_iff:
  "lexical_loop os d m fd p = (WOLFPSA_STORE_PATH_OK, Some leaf) \<longleftrightarrow>
   (\<exists>n < m. lexical_walk os d n fd p leaf)"
  using lexical_loop_sound [of os d m fd p "Some leaf"] lexical_loop_complete [of os d _ fd p leaf m]
  by auto

lemma check_lexical_iff:
  "wolfPSA_StoreCheckLexical os d p = (WOLFPSA_STORE_PATH_OK, Some leaf) \<longleftrightarrow>
   (\<exists>fd n. d_open os d (if take 1 p = ''/'' then ''/'' else ''.'') = Some fd \<and>
           n < WOLFPSA_STORE_MAX_DEPTH \<and> lexical_walk os d n fd p leaf)"
  unfolding wolfPSA_StoreCheckLexical_def
  by (cases "d_open os d (if take 1 p = ''/'' then ''/'' else ''.'')")
    (simp_all add: lexical_loop_iff)

lemma check_ancestors_iff:
  "wolfPSA_StoreCheckAncestors os d fd = WOLFPSA_STORE_PATH_OK \<longleftrightarrow>
   (\<exists>st n. d_fstat os d fd = Some st \<and> n < WOLFPSA_STORE_MAX_DEPTH \<and> ancestor_chain os d n fd st)"
  unfolding wolfPSA_StoreCheckAncestors_def
  by (cases "d_fstat os d fd") (simp_all add: ancestors_loop_iff)

text \<open>
  The path check accepts a store directory exactly when the directory is private, the path
  as written resolves in fewer than 256 steps with every directory that holds a component
  trusted, and the real parents up to the root, fewer than 256 of them, are trusted as well.
\<close>

theorem store_check_path_iff:
  "wolfPSA_StoreCheckPath os d p = WOLFPSA_STORE_PATH_OK \<longleftrightarrow>
   private_leaf os d p \<and>
   (\<exists>fd leaf st m n. m < WOLFPSA_STORE_MAX_DEPTH \<and> n < WOLFPSA_STORE_MAX_DEPTH \<and>
      d_open os d (if take 1 p = ''/'' then ''/'' else ''.'') = Some fd \<and>
      lexical_walk os d m fd p leaf \<and> d_fstat os d leaf = Some st \<and>
      ancestor_chain os d n leaf st)"
  unfolding check_path_ok_iff check_leaf_iff check_lexical_iff check_ancestors_iff by blast

section \<open>The store as a whole\<close>

text \<open>
  C3: A write session (open, write, close) is atomic whatever fails in it: either the whole
  record is committed under its id and the session reports the byte count, or every record is
  what it was before. No other record is ever touched.
\<close>

theorem posix_write_atomic:
  "case store_write_session (posix_ops os) st k n (b # bs) of
     (r, st') \<Rightarrow> posix_recs st' =
       (if r = Inr (length (b # bs)) then (posix_recs st)(k \<mapsto> b # bs) else posix_recs st)"
  using posix.write_session_recs [of os st k n "b # bs"] by (auto split: prod.split)

text \<open>
  Distinct (id1, id2) pairs have distinct record names, and no record name can be the name
  of a temporary file of the same directory.
\<close>

theorem record_names_unambiguous:
  "(dir @ record_suffix a b = dir @ record_suffix c d) = (a = c \<and> b = d) \<and>
   dir @ record_suffix a b \<noteq>
     take (length (temp_template st dir) - 6) (temp_template st dir) @ x"
proof -
  obtain s where "take (length (temp_template st dir) - 6) (temp_template st dir) =
      dir @ temp_suffix s" using template_prefix by blast
  moreover have "temp_suffix s @ x = temp_suffix (s @ x)" by (simp add: temp_suffix_def)
  ultimately show ?thesis
    using temp_not_record [of dir "s @ x" a b] by (simp add: record_suffix_inject)
qed

lemma ensure_dir_ok:
  "wolfPSA_StoreEnsureDir os d p = (WOLFPSA_STORE_OK, d') \<Longrightarrow>
   wolfPSA_StoreCheckPath os d' p = WOLFPSA_STORE_PATH_OK"
  by (auto simp: wolfPSA_StoreEnsureDir_def wolfPSA_StoreValidatePath_def Let_def
      split: if_splits prod.splits mkdir_result.splits)

lemma create_temp_dirs:
  assumes "wolfPSA_StoreCreateTempFile ctx p st = (WOLFPSA_STORE_OK, ctx', st')"
  shows "dirs st' = dirs st"
proof -
  obtain f1 st1 where n1: "next_fault st = (f1, st1)" by fastforce
  obtain s st2 where n2: "next_suffix st1 = (s, st2)" by fastforce
  have d: "dirs st2 = dirs st"
    using next_fault_fields [OF n1] n2 by (auto simp: next_suffix_def split: list.splits)
  show ?thesis
    using assms d
    by (auto simp: wolfPSA_StoreCreateTempFile_def mkstemp_def n1 n2 Let_def next_fault_fields
        dest!: next_fault_fields split: if_splits prod.splits option.splits)
qed

text \<open>
  C28: No handle is ever given out, for reading or for writing, unless the token directory
  passed the path check.
\<close>

theorem open_only_trusted_path:
  assumes "wolfPSA_Store_OpenSz os st WOLFPSA_STORE_KEY k 0 rd n = (Opened h, st')"
  shows "wolfPSA_StoreCheckPath os (dirs st') (token_path st) = WOLFPSA_STORE_PATH_OK"
  using assms
proof (cases rule: open_step)
  case (opened st1)
  show ?thesis
  proof (cases rd)
    case True
    obtain f st2 where "next_fault st1 = (f, st2)" by fastforce
    with True opened show ?thesis
      by (auto simp: open_for_read_def dir_of_record_name wolfPSA_StoreValidatePath_def Let_def
          split: if_splits option.splits)
  next
    case False
    obtain rc d' where "wolfPSA_StoreEnsureDir os (dirs st1) (token_path st) = (rc, d')" by fastforce
    with False opened ensure_dir_ok [of os "dirs st1" "token_path st" d'] create_temp_dirs
    show ?thesis
      by (fastforce simp: open_for_write_def dir_of_record_name Let_def
          split: if_splits option.splits prod.splits)
  qed
qed simp

text \<open>A root directory and a state for concrete runs.\<close>

definition demo_stat :: stat_t where
  "demo_stat = \<lparr>st_mode = 0x41C0, st_uid = 0, st_ino = 2, st_dev = 1\<rparr>"

definition demo_dirs :: "(unit, unit) dir_ops" where
  "demo_dirs = \<lparr>d_lstat = (\<lambda>_ _. Some demo_stat), d_open = (\<lambda>_ _. Some ()),
     d_openat = (\<lambda>_ _ _. Some ()), d_fstat = (\<lambda>_ _. Some demo_stat),
     d_mkdir = (\<lambda>d _. (MkdirExists, d)), d_rmdir = (\<lambda>d _. d), d_euid = 1000\<rparr>"

definition demo_posix :: "unit posix_state" where
  "demo_posix = \<lparr>files = Map.empty, dirs = (), env_no_store = False, env_token_path = None,
     faults = [], p_allocs = [], mkstemp_suffixes = [], pid = 7, now = 9\<rparr>"

lemma demo_check_path:
  "wolfPSA_StoreCheckPath demo_dirs () ''./.store'' = WOLFPSA_STORE_PATH_OK"
proof -
  have leaf: "wolfPSA_StoreCheckLeaf demo_dirs () p = WOLFPSA_STORE_PATH_OK" for p
    by (simp add: wolfPSA_StoreCheckLeaf_def demo_dirs_def demo_stat_def S_ISDIR_def S_ISLNK_def)
  have fd: "wolfPSA_StoreCheckDirFd demo_dirs () fd = WOLFPSA_STORE_PATH_OK" for fd
    by (simp add: wolfPSA_StoreCheckDirFd_def demo_dirs_def demo_stat_def S_ISDIR_def Let_def)
  have os: "d_open demo_dirs d p = Some ()" "d_openat demo_dirs d u p = Some ()"
    "d_fstat demo_dirs d u = Some demo_stat" for d p u
    by (simp_all add: demo_dirs_def)
  have "lexical_loop demo_dirs () (Suc (Suc (Suc n))) () ''./.store'' =
      (WOLFPSA_STORE_PATH_OK, Some ())" for n
    by (simp add: os fd Let_def)
  from this [of 253]
  have "wolfPSA_StoreCheckLexical demo_dirs () ''./.store'' = (WOLFPSA_STORE_PATH_OK, Some ())"
    by (simp add: wolfPSA_StoreCheckLexical_def os)
  moreover have "ancestors_loop demo_dirs () (Suc n) () demo_stat = WOLFPSA_STORE_PATH_OK" for n
    by (simp add: os)
  from this [of 255] have "wolfPSA_StoreCheckAncestors demo_dirs () () = WOLFPSA_STORE_PATH_OK"
    by (simp add: wolfPSA_StoreCheckAncestors_def os)
  ultimately show ?thesis by (simp add: wolfPSA_StoreCheckPath_def leaf)
qed

lemma demo_healthy: "posix_healthy demo_dirs demo_posix"
proof -
  have "length (fmt_hex 8 7) = 8" "length (fmt_hex 8 9) = 8" by (rule length_fmt_hex; simp)+
  then show ?thesis
    using demo_check_path
    by (simp add: posix_healthy_def demo_posix_def token_path_def temp_template_def)
qed

theorem open_only_trusted_path_witness:
  "\<exists>h st'. wolfPSA_Store_OpenSz demo_dirs demo_posix WOLFPSA_STORE_KEY 5 0 False 3 = (Opened h, st') \<and>
     wolfPSA_StoreCheckPath demo_dirs (dirs st') (token_path demo_posix) = WOLFPSA_STORE_PATH_OK"
proof -
  obtain h st' where "wolfPSA_Store_OpenSz demo_dirs demo_posix WOLFPSA_STORE_KEY 5 0 False 3 =
      (Opened h, st')"
    using healthy_write [OF demo_healthy, of 5 "[0]" 3] by auto
  with open_only_trusted_path [OF this] show ?thesis by blast
qed

end
