(* ===== verification/Posix_Keys.thy ===== *)
theory Posix_Keys
  imports Key_Machine Key_Use Store_Posix
begin

text \<open>
  The key store put on the POSIX backend (the interpretation \<open>posix_keys\<close>, whose facts the
  theorems about the library rest on), and one concrete environment with a fresh store and a
  key, on which the theorems are instantiated.
\<close>

unbundle bit_operations_syntax

section \<open>The key store over the POSIX backend\<close>

text \<open>The contract lemmas of the key store, for the store that discharges the contract.\<close>

interpretation posix_keys: key_backend "posix_ops os" posix_recs posix_reading "posix_healthy os" "\<lambda>k. k < 2 ^ 32"
  for os :: "('d, 'fd) dir_ops"
  by unfold_locales

text \<open>A process that starts over a store and initialises the library.\<close>

lemma init_fresh:
  "\<exists>s1. psa_crypto_init b WC_OK (fresh_store st) = (PSA_SUCCESS, s1) \<and> ready b s1 \<and>
     g_psa_crypto_initialized s1 \<and> store s1 = st \<and> allocs s1 = [] \<and> g_volatile_keys s1 = []"
  by (simp add: psa_crypto_init_def wolfpsa_lock_ensure_init_def WOLFPSA_LOCK_def WOLFPSA_UNLOCK_def
      fresh_store_def ready_def lock_ok_def Let_def)

section \<open>A concrete environment\<close>

text \<open>
  An environment for concrete runs: the POSIX store in a trusted directory, and stand-ins for
  wolfCrypt that keep to their buffers.
\<close>

definition demo_env :: "(unit posix_state, FileStoreCtx) psa_env" where
  "demo_env =
    \<lparr>env_build = default_build, env_ops = posix_ops demo_dirs,
     env_wc = \<lparr>init_rsa = WC_OK, rsa_decode = (\<lambda>_ _. (BAD_FUNC_ARG, 0, 0, 0)), init_ecc = WC_OK,
               ecc_import = (\<lambda>_ _ _. WC_OK)\<rparr>,
     wc_init_rng = (\<lambda>_. WC_OK), wc_rng_block = (\<lambda>i n. (WC_OK, replicate n (word_of_nat i))),
     gen_rsa = (\<lambda>_ _ _. (PSA_ERROR_NOT_SUPPORTED, [])),
     gen_ecc = (\<lambda>_ _ _ c. (PSA_SUCCESS, replicate c 1)),
     gen_ed25519 = (\<lambda>_ c. (PSA_SUCCESS, replicate c 1)),
     gen_ed448 = (\<lambda>_ c. (PSA_SUCCESS, replicate c 1)),
     gen_x25519 = (\<lambda>_ c. (PSA_SUCCESS, replicate c 1)),
     gen_x448 = (\<lambda>_ c. (PSA_SUCCESS, replicate c 1)),
     mldsa_seed = (\<lambda>_ _. (PSA_SUCCESS, [])), mlkem_seed = (\<lambda>_ _. (PSA_SUCCESS, [])),
     new_rsa_key = None, rsa_private_decode = (\<lambda>_. WC_OK),
     rsa_flatten_public = (\<lambda>_. (WC_OK, [1, 0, 1], [0x80])),
     export_ecc = (\<lambda>_ _ _ _. (PSA_ERROR_NOT_SUPPORTED, [])),
     export_ed25519 = (\<lambda>_ _. (PSA_ERROR_NOT_SUPPORTED, [])),
     export_ed448 = (\<lambda>_ _. (PSA_ERROR_NOT_SUPPORTED, [])),
     export_x25519 = (\<lambda>_ _. (PSA_ERROR_NOT_SUPPORTED, [])),
     export_x448 = (\<lambda>_ _. (PSA_ERROR_NOT_SUPPORTED, [])),
     export_mldsa = (\<lambda>_ _ _. (PSA_ERROR_NOT_SUPPORTED, [])),
     export_mlkem = (\<lambda>_ _ _. (PSA_ERROR_NOT_SUPPORTED, []))\<rparr>"

definition demo_key :: "byte list" where
  "demo_key = [0, 1, 2, 3, 4, 5, 6, 7, 8, 9, 10, 11, 12, 13, 14, 15]"

text \<open>A persistent AES-128 key for counter mode that may be exported and copied.\<close>

definition demo_attr :: "psa_key_id_t \<Rightarrow> psa_key_lifetime_t \<Rightarrow> psa_key_attributes_t" where
  "demo_attr k l = psa_key_attributes_init
    \<lparr>type := PSA_KEY_TYPE_AES, bits := 128, lifetime := l, id := k,
     policy := \<lparr>usage = PSA_KEY_USAGE_EXPORT OR PSA_KEY_USAGE_COPY, alg = 0x04c01000, alg2 = PSA_ALG_NONE\<rparr>\<rparr>"

definition demo_ks :: "unit posix_state key_store" where
  "demo_ks = (fresh_store demo_posix)\<lparr>g_psa_crypto_initialized := True\<rparr>"

lemma demo_env_simps [simp]:
  "env_ops demo_env = posix_ops demo_dirs" "env_build demo_env = default_build"
  by (simp_all add: demo_env_def)

lemma demo_bounded: "env_bounded demo_env"
  by (simp add: env_bounded_def demo_env_def)

lemma demo_recs [simp]: "posix_recs demo_posix k = None"
  by (simp add: posix_recs_def demo_posix_def split: option.split)

lemma demo_ks_simps [simp]:
  "ready default_build demo_ks" "lock_ok demo_ks" "g_psa_crypto_initialized demo_ks" "allocs demo_ks = []"
  "store demo_ks = demo_posix" "g_volatile_keys demo_ks = []" "g_next_key_id demo_ks = PSA_KEY_ID_VENDOR_MIN"
  "wolfpsa_volatile_find demo_ks k = None"
  by (simp_all add: demo_ks_def fresh_store_def ready_def lock_ok_def default_build_def wolfpsa_volatile_find_def)

lemma demo_key_length [simp]: "length demo_key = 16" "demo_key \<noteq> []"
  by (simp_all add: demo_key_def)

lemma demo_attr_simps [simp]:
  "lifetime (demo_attr k l) = l" "id (demo_attr k l) = k" "type (demo_attr k l) = PSA_KEY_TYPE_AES"
  "bits (demo_attr k l) = 128" "alg2 (policy (demo_attr k l)) = PSA_ALG_NONE"
  "usage (policy (demo_attr k l)) = 3"
  by (simp_all add: demo_attr_def)

lemma demo_validate:
  "l = 0 \<or> l = 1 \<Longrightarrow> import_validate demo_env (Some (demo_attr k l)) (In demo_key) False = Inr (demo_attr k l)"
  by (auto simp: import_validate_def import_check_args_def import_bits_def import_check_data_def
      import_check_chacha_def import_check_aes_def wolfpsa_usage_flags_valid_def psa_defs
      psa_get_key_usage_flags_def Let_def)

lemma demo_lifetimes [simp]: "PSA_KEY_LIFETIME_IS_VOLATILE 0" "\<not> PSA_KEY_LIFETIME_IS_VOLATILE 1"
  by (simp_all add: psa_defs)

text \<open>The key store with one volatile key, and the loading of that key.\<close>

definition demo_with :: "psa_key_attributes_t \<Rightarrow> byte list \<Rightarrow> unit posix_state key_store" where
  "demo_with a d = demo_ks
    \<lparr>g_key_storage_initialized := True,
     g_volatile_keys := [\<lparr>node_id = PSA_KEY_ID_VENDOR_MIN, attributes = a, data = d\<rparr>],
     g_next_key_id := PSA_KEY_ID_VENDOR_MIN + 1\<rparr>"

lemma demo_with_simps [simp]:
  "ready default_build (demo_with a d)" "lock_ok (demo_with a d)"
  "allocs (demo_with a d) = []" "store (demo_with a d) = demo_posix"
  "g_psa_crypto_initialized (demo_with a d)"
  "alloc_next (demo_with a d)" "alloc_rest (demo_with a d) = demo_with a d"
  "wolfpsa_volatile_find (demo_with a d) PSA_KEY_ID_VENDOR_MIN =
     Some \<lparr>node_id = PSA_KEY_ID_VENDOR_MIN, attributes = a, data = d\<rparr>"
  by (simp_all add: demo_with_def demo_ks_def fresh_store_def ready_def lock_ok_def default_build_def
      wolfpsa_volatile_find_def alloc_next_def alloc_rest_def)

lemma demo_with_storage_initialized [simp]:
  "(demo_with a d)\<lparr>g_key_storage_initialized := True\<rparr> = demo_with a d"
  by (simp add: demo_with_def)

lemma demo_with_s_xmalloc [simp]: "s_xmalloc (demo_with a d) = (True, demo_with a d)"
  by (simp add: s_xmalloc_eq)

lemma demo_key_at [simp]: "key_at posix_recs (demo_with a d) PSA_KEY_ID_VENDOR_MIN = Some (a, d)"
  by (simp add: key_at_def ks_lookup_def)

lemma demo_load_key [simp]:
  "d \<noteq> [] \<Longrightarrow> load_key demo_env PSA_KEY_ID_VENDOR_MIN (demo_with a d) = (Inr (a, d), demo_with a d)"
  using check_init_ready [of default_build "demo_with a d"]
    volatile_get_ready [of default_build "demo_with a d" PSA_KEY_ID_VENDOR_MIN]
  by (simp add: load_key_def wolfpsa_get_key_data_def Let_def)

end
