(* ===== verification/Mac.thy ===== *)
theory Mac
  imports Posix_Keys
begin

text \<open>
  \<open>src/psa_mac.c\<close>: the multi-part MAC operation (set-up, update, finish, abort) and the one-shot
  calls built on it. wolfCrypt's HMAC and CMAC are a parameter (record \<open>mac_engine\<close>); what the
  theorems rely on of them is \<open>mac_engine_ok\<close>. The opaque operation structure of the caller is
  \<open>None\<close> when its context pointer is NULL; an operation argument is \<open>None\<close> when the pointer to
  the structure itself is NULL.
\<close>

unbundle bit_operations_syntax

section \<open>Contexts\<close>

datatype wolfpsa_mac_type = WOLFPSA_MAC_NONE | WOLFPSA_MAC_HMAC | WOLFPSA_MAC_CMAC

record 'c wolfpsa_mac_ctx =
  mac_alg :: psa_algorithm_t
  mac_key_type :: psa_key_type_t
  mac_key_bits :: psa_key_bits_t
  mac_length :: nat
  full_length :: nat
  mac_type :: wolfpsa_mac_type
  mac_key :: "byte list option"
  mac_wc :: 'c

type_synonym 'c psa_mac_operation_t = "'c wolfpsa_mac_ctx option"

text \<open>
  wolfCrypt's side. A context of type \<open>'c\<close> is the union of an \<open>Hmac\<close> and a \<open>Cmac\<close>,
  \<open>wc_mac_zero\<close> the zeroed one. The \<open>Final\<close> functions give the content of the
  \<open>PSA_MAC_MAX_SIZE\<close> bytes of the local output buffer after the call (\<open>wc_CmacFinal\<close> also the
  length it stores); the context they leave behind is only freed. \<open>mac_devid\<close> is what
  \<open>wolfPSA_GetDefaultDevID\<close> returns.
\<close>

record 'c mac_engine =
  mac_devid :: int
  wc_mac_zero :: 'c
  wc_HmacInit :: "int \<Rightarrow> wc_ret \<times> 'c"
  wc_HmacSetKey :: "wc_hash_type \<Rightarrow> byte list \<Rightarrow> 'c \<Rightarrow> wc_ret \<times> 'c"
  wc_HmacUpdate :: "byte list \<Rightarrow> 'c \<Rightarrow> wc_ret \<times> 'c"
  wc_HmacFinal :: "'c \<Rightarrow> wc_ret \<times> byte list"
  wc_InitCmac :: "byte list \<Rightarrow> int \<Rightarrow> wc_ret \<times> 'c"
  wc_CmacUpdate :: "byte list \<Rightarrow> 'c \<Rightarrow> wc_ret \<times> 'c"
  wc_CmacFinal :: "nat \<Rightarrow> 'c \<Rightarrow> wc_ret \<times> byte list \<times> nat"

definition wolfpsa_mac_get_ctx :: "'c psa_mac_operation_t option \<Rightarrow> 'c wolfpsa_mac_ctx option" where
  "wolfpsa_mac_get_ctx op = (case op of None \<Rightarrow> None | Some ctx \<Rightarrow> ctx)"

definition psa_mac_abort ::
    "'c psa_mac_operation_t option \<Rightarrow> psa_status \<times> 'c psa_mac_operation_t option" where
  "psa_mac_abort op =
    (if op = None then (PSA_ERROR_INVALID_ARGUMENT, op) else (PSA_SUCCESS, Some None))"

definition wolfpsa_mac_fail ::
    "'c psa_mac_operation_t option \<Rightarrow> psa_status \<Rightarrow> psa_status \<times> 'c psa_mac_operation_t option" where
  "wolfpsa_mac_fail op status = (status, snd (psa_mac_abort op))"

section \<open>Algorithm and key checks\<close>

definition wolfpsa_hash_type_from_alg :: "psa_algorithm_t \<Rightarrow> wc_hash_type" where
  "wolfpsa_hash_type_from_alg a =
    (let hash_alg =
       (if PSA_ALG_IS_HMAC a then PSA_ALG_HMAC_GET_HASH a
        else if PSA_ALG_IS_HASH a then a else 0) in
     if hash_alg = PSA_ALG_MD5 then WC_HASH_TYPE_MD5
     else if hash_alg = PSA_ALG_SHA_1 then WC_HASH_TYPE_SHA
     else if hash_alg = PSA_ALG_SHA_224 then WC_HASH_TYPE_SHA224
     else if hash_alg = PSA_ALG_SHA_256 then WC_HASH_TYPE_SHA256
     else if hash_alg = PSA_ALG_SHA_384 then WC_HASH_TYPE_SHA384
     else if hash_alg = PSA_ALG_SHA_512 then WC_HASH_TYPE_SHA512
     else if hash_alg = PSA_ALG_SHA_512_224 then WC_HASH_TYPE_SHA512_224
     else if hash_alg = PSA_ALG_SHA_512_256 then WC_HASH_TYPE_SHA512_256
     else if hash_alg = PSA_ALG_SHA3_224 then WC_HASH_TYPE_SHA3_224
     else if hash_alg = PSA_ALG_SHA3_256 then WC_HASH_TYPE_SHA3_256
     else if hash_alg = PSA_ALG_SHA3_384 then WC_HASH_TYPE_SHA3_384
     else if hash_alg = PSA_ALG_SHA3_512 then WC_HASH_TYPE_SHA3_512
     else WC_HASH_TYPE_NONE)"

definition wolfpsa_mac_alg_permitted ::
    "psa_key_attributes_t \<Rightarrow> psa_algorithm_t \<Rightarrow> psa_algorithm_t \<Rightarrow> bool" where
  "wolfpsa_mac_alg_permitted attrs key_alg a =
    (if key_alg = PSA_ALG_NONE \<or> PSA_ALG_FULL_LENGTH_MAC key_alg \<noteq> PSA_ALG_FULL_LENGTH_MAC a
     then False
     else
       (let req_length = PSA_MAC_LENGTH (type attrs) (bits attrs) a;
            trunc = PSA_MAC_TRUNCATED_LENGTH key_alg;
            min_length =
              (if trunc = 0
               then PSA_MAC_LENGTH (type attrs) (bits attrs) (PSA_ALG_FULL_LENGTH_MAC key_alg)
               else trunc)
        in if key_alg AND PSA_ALG_MAC_AT_LEAST_THIS_LENGTH_FLAG \<noteq> 0
           then min_length \<le> req_length else req_length = min_length))"

definition wolfpsa_mac_check_key ::
    "('st, 'h) psa_env \<Rightarrow> psa_key_id_t \<Rightarrow> psa_key_usage_t \<Rightarrow> psa_algorithm_t \<Rightarrow> 'st key_store \<Rightarrow>
     (psa_status + psa_key_attributes_t \<times> byte list) \<times> 'st key_store" where
  "wolfpsa_mac_check_key env key want a s =
    (case load_key env key s of
       (Inl status, s1) \<Rightarrow> (Inl status, s1)
     | (Inr (attrs, d), s1) \<Rightarrow>
         (if PSA_ALG_IS_HMAC a \<and> type attrs \<noteq> PSA_KEY_TYPE_HMAC then Inl PSA_ERROR_INVALID_ARGUMENT
          else if \<not> PSA_ALG_IS_HMAC a \<and> PSA_ALG_IS_BLOCK_CIPHER_MAC a \<and> type attrs \<noteq> PSA_KEY_TYPE_AES
            then Inl PSA_ERROR_INVALID_ARGUMENT
          else if \<not> PSA_ALG_IS_HMAC a \<and> \<not> PSA_ALG_IS_BLOCK_CIPHER_MAC a then Inl PSA_ERROR_NOT_SUPPORTED
          else if psa_get_key_usage_flags attrs AND want \<noteq> want then Inl PSA_ERROR_NOT_PERMITTED
          else if \<not> wolfpsa_mac_alg_permitted attrs (psa_get_key_algorithm attrs) a \<and>
                  \<not> wolfpsa_mac_alg_permitted attrs (psa_get_key_enrollment_algorithm attrs) a
            then Inl PSA_ERROR_NOT_PERMITTED
          else Inr (attrs, d), s1))"

section \<open>Set-up\<close>

text \<open>The context before wolfCrypt is involved.\<close>

definition mac_new_ctx ::
    "'c mac_engine \<Rightarrow> psa_algorithm_t \<Rightarrow> psa_key_attributes_t \<Rightarrow> 'c wolfpsa_mac_ctx" where
  "mac_new_ctx E a attrs =
    \<lparr>mac_alg = a, mac_key_type = type attrs, mac_key_bits = bits attrs,
     mac_length = PSA_MAC_LENGTH (type attrs) (bits attrs) a,
     full_length = PSA_MAC_LENGTH (type attrs) (bits attrs) (PSA_ALG_FULL_LENGTH_MAC a),
     mac_type = WOLFPSA_MAC_NONE, mac_key = None, mac_wc = wc_mac_zero E\<rparr>"

text \<open>
  The HMAC and CMAC branches: the wolfCrypt return code and the context, or an early return.
  Under \<open>WOLF_CRYPTO_CB\<close> the context owns a copy of the key.
\<close>

definition mac_start_hmac ::
    "build \<Rightarrow> 'c mac_engine \<Rightarrow> wc_hash_type \<Rightarrow> byte list \<Rightarrow> 'c wolfpsa_mac_ctx \<Rightarrow> 'st key_store \<Rightarrow>
     (psa_status + wc_ret \<times> 'c wolfpsa_mac_ctx) \<times> 'st key_store" where
  "mac_start_hmac b E h d ctx s =
    (let (ok, s1) = (if WOLF_CRYPTO_CB b then s_xmalloc s else (True, s)) in
     if \<not> ok then (Inl PSA_ERROR_INSUFFICIENT_MEMORY, s1)
     else
       (let own = (if WOLF_CRYPTO_CB b then Some d else None);
            (ret, c) = wc_HmacInit E (mac_devid E);
            (ret2, c2) = (if ret = WC_OK then wc_HmacSetKey E h d c else (ret, c))
        in (Inr (ret2, ctx\<lparr>mac_type := WOLFPSA_MAC_HMAC, mac_key := own, mac_wc := c2\<rparr>), s1)))"

definition mac_start ::
    "build \<Rightarrow> 'c mac_engine \<Rightarrow> psa_algorithm_t \<Rightarrow> byte list \<Rightarrow> 'c wolfpsa_mac_ctx \<Rightarrow> 'st key_store \<Rightarrow>
     (psa_status + wc_ret \<times> 'c wolfpsa_mac_ctx) \<times> 'st key_store" where
  "mac_start b E a d ctx s =
    (if PSA_ALG_IS_HMAC a then
       (let h = wolfpsa_hash_type_from_alg a in
        if h = WC_HASH_TYPE_NONE then (Inl PSA_ERROR_NOT_SUPPORTED, s)
        else mac_start_hmac b E h d ctx s)
     else if PSA_ALG_IS_BLOCK_CIPHER_MAC a \<and> PSA_ALG_FULL_LENGTH_MAC a = PSA_ALG_CMAC then
       (let (ret, c) = wc_InitCmac E d (mac_devid E)
        in (Inr (ret, ctx\<lparr>mac_type := WOLFPSA_MAC_CMAC, mac_wc := c\<rparr>), s))
     else (Inr (NOT_COMPILED_IN, ctx), s))"

definition mac_check_lengths :: "psa_algorithm_t \<Rightarrow> 'c wolfpsa_mac_ctx \<Rightarrow> psa_status" where
  "mac_check_lengths a ctx =
    (if mac_length ctx = 0 \<or> full_length ctx = 0 \<or> mac_length ctx > full_length ctx
     then PSA_ERROR_INVALID_ARGUMENT
     else if a AND PSA_ALG_MAC_TRUNCATION_MASK \<noteq> 0 then
       (if PSA_MAC_TRUNCATED_LENGTH a > full_length ctx then PSA_ERROR_INVALID_ARGUMENT
        else if PSA_MAC_TRUNCATED_LENGTH a < 4 then PSA_ERROR_NOT_SUPPORTED
        else PSA_SUCCESS)
     else PSA_SUCCESS)"

definition wolfpsa_mac_setup ::
    "('st, 'h) psa_env \<Rightarrow> 'c mac_engine \<Rightarrow> 'c psa_mac_operation_t option \<Rightarrow> psa_key_id_t \<Rightarrow>
     psa_algorithm_t \<Rightarrow> psa_key_usage_t \<Rightarrow> 'st key_store \<Rightarrow>
     psa_status \<times> 'c psa_mac_operation_t option \<times> 'st key_store" where
  "wolfpsa_mac_setup env E op key a want s =
    (if op = None then (PSA_ERROR_INVALID_ARGUMENT, op, s)
     else if op \<noteq> Some None then (PSA_ERROR_BAD_STATE, op, s)
     else if \<not> PSA_ALG_IS_MAC a then (PSA_ERROR_INVALID_ARGUMENT, op, s)
     else
       (case wolfpsa_mac_check_key env key want a s of
          (Inl status, s1) \<Rightarrow> (status, op, s1)
        | (Inr (attrs, d), s1) \<Rightarrow>
            (let (ok, s2) = s_xmalloc s1 in
             if \<not> ok then (PSA_ERROR_INSUFFICIENT_MEMORY, op, s2)
             else if wolfpsa_check_word32_length (length d) \<noteq> PSA_SUCCESS
               then (PSA_ERROR_INVALID_ARGUMENT, op, s2)
             else
               (case mac_start (env_build env) E a d (mac_new_ctx E a attrs) s2 of
                  (Inl status, s3) \<Rightarrow> (status, op, s3)
                | (Inr (ret, ctx), s3) \<Rightarrow>
                    (let lst = mac_check_lengths a ctx in
                     if lst \<noteq> PSA_SUCCESS then (lst, op, s3)
                     else if ret \<noteq> WC_OK then (wc_error_to_psa_status ret, op, s3)
                     else (PSA_SUCCESS, Some (Some ctx), s3))))))"

definition psa_mac_sign_setup where
  "psa_mac_sign_setup env E op key a s =
    wolfpsa_mac_setup env E op key a PSA_KEY_USAGE_SIGN_MESSAGE s"

definition psa_mac_verify_setup where
  "psa_mac_verify_setup env E op key a s =
    wolfpsa_mac_setup env E op key a PSA_KEY_USAGE_VERIFY_MESSAGE s"

section \<open>Update and finish\<close>

definition psa_mac_update ::
    "'c mac_engine \<Rightarrow> 'c psa_mac_operation_t option \<Rightarrow> inbuf \<Rightarrow>
     psa_status \<times> 'c psa_mac_operation_t option" where
  "psa_mac_update E op input =
    (case wolfpsa_mac_get_ctx op of
       None \<Rightarrow> wolfpsa_mac_fail op PSA_ERROR_BAD_STATE
     | Some ctx \<Rightarrow>
         if in_null input \<and> in_length input > 0 then wolfpsa_mac_fail op PSA_ERROR_INVALID_ARGUMENT
         else if wolfpsa_check_word32_length (in_length input) \<noteq> PSA_SUCCESS
           then wolfpsa_mac_fail op PSA_ERROR_INVALID_ARGUMENT
         else if in_length input = 0 then (PSA_SUCCESS, op)
         else if mac_type ctx = WOLFPSA_MAC_NONE then wolfpsa_mac_fail op PSA_ERROR_BAD_STATE
         else
           (let (ret, c) =
              (if mac_type ctx = WOLFPSA_MAC_HMAC then wc_HmacUpdate E (in_bytes input) (mac_wc ctx)
               else wc_CmacUpdate E (in_bytes input) (mac_wc ctx));
                op1 = Some (Some (ctx\<lparr>mac_wc := c\<rparr>))
            in if ret \<noteq> WC_OK then wolfpsa_mac_fail op1 (wc_error_to_psa_status ret)
               else (PSA_SUCCESS, op1)))"

text \<open>
  The status, what was copied to \<open>mac\<close>, and \<open>*mac_length\<close> (\<open>None\<close> for a NULL pointer, whose
  value is given on entry).
\<close>

definition wolfpsa_mac_final ::
    "build \<Rightarrow> 'c mac_engine \<Rightarrow> 'c wolfpsa_mac_ctx \<Rightarrow> outbuf \<Rightarrow> nat option \<Rightarrow>
     psa_status \<times> byte list \<times> nat option" where
  "wolfpsa_mac_final b E ctx mac len =
    (if len = None \<or> out_null mac \<and> out_size mac \<noteq> 0 then (PSA_ERROR_INVALID_ARGUMENT, [], len)
     else if full_length ctx > PSA_HASH_MAX_SIZE b then (PSA_ERROR_INVALID_ARGUMENT, [], len)
     else if out_size mac < mac_length ctx then (PSA_ERROR_BUFFER_TOO_SMALL, [], len)
     else if mac_type ctx = WOLFPSA_MAC_NONE then (PSA_ERROR_BAD_STATE, [], len)
     else
       (let (ret, full_mac, full_len) =
          (if mac_type ctx = WOLFPSA_MAC_HMAC
           then (case wc_HmacFinal E (mac_wc ctx) of (ret, buf) \<Rightarrow> (ret, buf, full_length ctx))
           else wc_CmacFinal E (full_length ctx) (mac_wc ctx))
        in if ret \<noteq> WC_OK then (wc_error_to_psa_status ret, [], len)
           else if mac_length ctx > full_len then (PSA_ERROR_INVALID_ARGUMENT, [], len)
           else (PSA_SUCCESS, take (mac_length ctx) full_mac, Some (mac_length ctx))))"

definition psa_mac_sign_finish ::
    "build \<Rightarrow> 'c mac_engine \<Rightarrow> 'c psa_mac_operation_t option \<Rightarrow> outbuf \<Rightarrow> nat option \<Rightarrow>
     psa_status \<times> byte list \<times> nat option \<times> 'c psa_mac_operation_t option" where
  "psa_mac_sign_finish b E op mac len0 =
    (let len = wolfpsa_clear_length len0 in
     case wolfpsa_mac_get_ctx op of
       None \<Rightarrow> (case wolfpsa_mac_fail op PSA_ERROR_BAD_STATE of (status, op1) \<Rightarrow> (status, [], len, op1))
     | Some ctx \<Rightarrow>
         (case wolfpsa_mac_final b E ctx mac len of
            (status, bs, len1) \<Rightarrow>
              if status \<noteq> PSA_SUCCESS
              then (case wolfpsa_mac_fail op status of (st, op1) \<Rightarrow> (st, bs, len1, op1))
              else (PSA_SUCCESS, bs, len1, snd (psa_mac_abort op))))"

definition psa_mac_verify_finish ::
    "build \<Rightarrow> 'c mac_engine \<Rightarrow> 'c psa_mac_operation_t option \<Rightarrow> inbuf \<Rightarrow>
     psa_status \<times> 'c psa_mac_operation_t option" where
  "psa_mac_verify_finish b E op mac =
    (case wolfpsa_mac_get_ctx op of
       None \<Rightarrow> (PSA_ERROR_BAD_STATE, op)
     | Some ctx \<Rightarrow>
         if in_null mac then (PSA_ERROR_INVALID_ARGUMENT, op)
         else
           (let at_least = mac_alg ctx AND PSA_ALG_MAC_AT_LEAST_THIS_LENGTH_FLAG \<noteq> 0;
                bad_length =
                  (if at_least then in_length mac < mac_length ctx \<or> in_length mac > full_length ctx
                   else in_length mac \<noteq> mac_length ctx)
            in if bad_length then (PSA_ERROR_INVALID_SIGNATURE, snd (psa_mac_abort op))
               else
                 (let ctx1 = (if at_least then ctx\<lparr>mac_length := full_length ctx\<rparr> else ctx)
                  in case wolfpsa_mac_final b E ctx1 (Out (PSA_HASH_MAX_SIZE b)) (Some 0) of
                       (status, computed, computed_length) \<Rightarrow>
                         (if status \<noteq> PSA_SUCCESS then status
                          else if in_length mac > the computed_length then PSA_ERROR_INVALID_SIGNATURE
                          else if take (in_length mac) computed \<noteq> in_bytes mac
                            then PSA_ERROR_INVALID_SIGNATURE
                          else PSA_SUCCESS,
                          snd (psa_mac_abort op)))))"

section \<open>One-shot calls\<close>

definition psa_mac_compute ::
    "('st, 'h) psa_env \<Rightarrow> 'c mac_engine \<Rightarrow> psa_key_id_t \<Rightarrow> psa_algorithm_t \<Rightarrow> inbuf \<Rightarrow> outbuf \<Rightarrow>
     nat option \<Rightarrow> 'st key_store \<Rightarrow> psa_status \<times> byte list \<times> nat option \<times> 'st key_store" where
  "psa_mac_compute env E key a input mac len0 s =
    (let len = wolfpsa_clear_length len0 in
     case psa_mac_sign_setup env E (Some None) key a s of
       (status, op, s1) \<Rightarrow>
         if status \<noteq> PSA_SUCCESS then (status, [], len, s1)
         else
           (case psa_mac_update E op input of
              (status2, op2) \<Rightarrow>
                if status2 \<noteq> PSA_SUCCESS then (status2, [], len, s1)
                else
                  (case psa_mac_sign_finish (env_build env) E op2 mac len of
                     (status3, bs, len3, op3) \<Rightarrow> (status3, bs, len3, s1))))"

definition psa_mac_verify ::
    "('st, 'h) psa_env \<Rightarrow> 'c mac_engine \<Rightarrow> psa_key_id_t \<Rightarrow> psa_algorithm_t \<Rightarrow> inbuf \<Rightarrow> inbuf \<Rightarrow>
     'st key_store \<Rightarrow> psa_status \<times> 'st key_store" where
  "psa_mac_verify env E key a input mac s =
    (case psa_mac_verify_setup env E (Some None) key a s of
       (status, op, s1) \<Rightarrow>
         if status \<noteq> PSA_SUCCESS then (status, s1)
         else
           (case psa_mac_update E op input of
              (status2, op2) \<Rightarrow>
                if status2 \<noteq> PSA_SUCCESS then (status2, s1)
                else (fst (psa_mac_verify_finish (env_build env) E op2 mac), s1)))"

section \<open>What wolfCrypt promises\<close>

text \<open>
  The size of the output of each algorithm (\<open>WC_HASH_TYPE_NONE\<close> stands for AES-CMAC here), and
  the documented behaviour of the wolfCrypt calls: \<open>V\<close> reads the algorithm, the key and the
  bytes absorbed so far off a context, and \<open>F\<close> is the MAC function.
\<close>

fun digest_size :: "wc_hash_type \<Rightarrow> nat" where
  "digest_size WC_HASH_TYPE_NONE = 16"
| "digest_size WC_HASH_TYPE_MD5 = 16"
| "digest_size WC_HASH_TYPE_SHA = 20"
| "digest_size WC_HASH_TYPE_SHA224 = 28"
| "digest_size WC_HASH_TYPE_SHA256 = 32"
| "digest_size WC_HASH_TYPE_SHA384 = 48"
| "digest_size WC_HASH_TYPE_SHA512 = 64"
| "digest_size WC_HASH_TYPE_SHA512_224 = 28"
| "digest_size WC_HASH_TYPE_SHA512_256 = 32"
| "digest_size WC_HASH_TYPE_SHA3_224 = 28"
| "digest_size WC_HASH_TYPE_SHA3_256 = 32"
| "digest_size WC_HASH_TYPE_SHA3_384 = 48"
| "digest_size WC_HASH_TYPE_SHA3_512 = 64"

type_synonym mac_function = "wc_hash_type \<Rightarrow> byte list \<Rightarrow> byte list \<Rightarrow> byte list"
type_synonym 'c mac_view = "'c \<Rightarrow> wc_hash_type \<times> byte list \<times> byte list"

definition mac_engine_ok :: "'c mac_engine \<Rightarrow> mac_function \<Rightarrow> 'c mac_view \<Rightarrow> bool" where
  "mac_engine_ok E F V \<longleftrightarrow>
    (\<forall>h k m. length (F h k m) = digest_size h) \<and>
    (\<forall>h k c c'. wc_HmacSetKey E h k c = (WC_OK, c') \<longrightarrow> V c' = (h, k, [])) \<and>
    (\<forall>k dev c. wc_InitCmac E k dev = (WC_OK, c) \<longrightarrow> V c = (WC_HASH_TYPE_NONE, k, [])) \<and>
    (\<forall>h k m x c c'. V c = (h, k, m) \<and> wc_HmacUpdate E x c = (WC_OK, c') \<longrightarrow> V c' = (h, k, m @ x)) \<and>
    (\<forall>h k m x c c'. V c = (h, k, m) \<and> wc_CmacUpdate E x c = (WC_OK, c') \<longrightarrow> V c' = (h, k, m @ x)) \<and>
    (\<forall>h k m c buf. V c = (h, k, m) \<and> wc_HmacFinal E c = (WC_OK, buf) \<longrightarrow>
       take (digest_size h) buf = F h k m) \<and>
    (\<forall>k m c buf n. V c = (WC_HASH_TYPE_NONE, k, m) \<and> wc_CmacFinal E 16 c = (WC_OK, buf, n) \<longrightarrow>
       n = 16 \<and> take 16 buf = F WC_HASH_TYPE_NONE k m)"

lemma mac_engine_okD:
  assumes "mac_engine_ok E F V"
  shows "length (F h k m) = digest_size h"
    and "wc_HmacSetKey E h k c = (WC_OK, c') \<Longrightarrow> V c' = (h, k, [])"
    and "wc_InitCmac E k dev = (WC_OK, c) \<Longrightarrow> V c = (WC_HASH_TYPE_NONE, k, [])"
    and "V c = (h, k, m) \<Longrightarrow> wc_HmacUpdate E x c = (WC_OK, c') \<Longrightarrow> V c' = (h, k, m @ x)"
    and "V c = (h, k, m) \<Longrightarrow> wc_CmacUpdate E x c = (WC_OK, c') \<Longrightarrow> V c' = (h, k, m @ x)"
    and "V c = (h, k, m) \<Longrightarrow> wc_HmacFinal E c = (WC_OK, buf) \<Longrightarrow> take (digest_size h) buf = F h k m"
    and "V c = (WC_HASH_TYPE_NONE, k, m) \<Longrightarrow> wc_CmacFinal E 16 c = (WC_OK, buf, n) \<Longrightarrow>
      n = 16 \<and> take 16 buf = F WC_HASH_TYPE_NONE k m"
  using assms unfolding mac_engine_ok_def by - (elim conjE, meson)+

text \<open>The algorithm an operation runs, and the untruncated MAC.\<close>

definition mac_hash :: "psa_algorithm_t \<Rightarrow> wc_hash_type" where
  "mac_hash a = (if PSA_ALG_IS_HMAC a then wolfpsa_hash_type_from_alg a else WC_HASH_TYPE_NONE)"

definition mac_value :: "mac_function \<Rightarrow> psa_algorithm_t \<Rightarrow> byte list \<Rightarrow> byte list \<Rightarrow> byte list" where
  "mac_value F a d m = F (mac_hash a) d m"

section \<open>The state of an operation\<close>

text \<open>
  \<open>mac_state V ctx a d m\<close>: an active operation for algorithm \<open>a\<close> with key \<open>d\<close> that has absorbed
  the message \<open>m\<close>.
\<close>

definition mac_ctx_ok :: "'c wolfpsa_mac_ctx \<Rightarrow> bool" where
  "mac_ctx_ok ctx \<longleftrightarrow>
    mac_type ctx = (if PSA_ALG_IS_HMAC (mac_alg ctx) then WOLFPSA_MAC_HMAC else WOLFPSA_MAC_CMAC) \<and>
    full_length ctx = digest_size (mac_hash (mac_alg ctx)) \<and>
    mac_length ctx = PSA_MAC_LENGTH (mac_key_type ctx) (mac_key_bits ctx) (mac_alg ctx) \<and>
    4 \<le> mac_length ctx \<and> mac_length ctx \<le> full_length ctx"

definition mac_state ::
    "'c mac_view \<Rightarrow> 'c wolfpsa_mac_ctx \<Rightarrow> psa_algorithm_t \<Rightarrow> byte list \<Rightarrow> byte list \<Rightarrow> bool" where
  "mac_state V ctx a d m \<longleftrightarrow>
    mac_ctx_ok ctx \<and> mac_alg ctx = a \<and> V (mac_wc ctx) = (mac_hash a, d, m)"

lemma full_length_mac_bits:
  "PSA_ALG_FULL_LENGTH_MAC a AND PSA_ALG_MAC_TRUNCATION_MASK = 0"
  "PSA_ALG_IS_HMAC (PSA_ALG_FULL_LENGTH_MAC a) = PSA_ALG_IS_HMAC a"
  "PSA_ALG_IS_BLOCK_CIPHER_MAC (PSA_ALG_FULL_LENGTH_MAC a) = PSA_ALG_IS_BLOCK_CIPHER_MAC a"
  "PSA_ALG_HMAC_GET_HASH (PSA_ALG_FULL_LENGTH_MAC a) = PSA_ALG_HMAC_GET_HASH a"
  by (simp_all add: psa_defs and.assoc)

lemma get_hash_idem: "PSA_ALG_HMAC_GET_HASH (PSA_ALG_HMAC_GET_HASH a) = PSA_ALG_HMAC_GET_HASH a"
  by (simp add: psa_defs bit.conj_disj_distrib2 and.assoc)

lemma hmac_not_cipher_mac: "PSA_ALG_IS_HMAC a \<Longrightarrow> \<not> PSA_ALG_IS_BLOCK_CIPHER_MAC a"
  by (simp add: psa_defs)

lemma hash_length_digest:
  assumes "PSA_ALG_IS_HMAC a" and "wolfpsa_hash_type_from_alg a \<noteq> WC_HASH_TYPE_NONE"
  shows "PSA_HASH_LENGTH (PSA_ALG_HMAC_GET_HASH a) = digest_size (wolfpsa_hash_type_from_alg a)"
  using assms
  by (simp add: PSA_HASH_LENGTH_def get_hash_idem wolfpsa_hash_type_from_alg_def Let_def split: if_splits)

lemma full_length_eq:
  assumes "PSA_ALG_IS_HMAC a \<and> mac_hash a \<noteq> WC_HASH_TYPE_NONE \<or>
    \<not> PSA_ALG_IS_HMAC a \<and> PSA_ALG_IS_BLOCK_CIPHER_MAC a \<and> kt = PSA_KEY_TYPE_AES"
  shows "PSA_MAC_LENGTH kt kb (PSA_ALG_FULL_LENGTH_MAC a) = digest_size (mac_hash a)"
  using assms hash_length_digest [of a]
  by (auto simp: PSA_MAC_LENGTH_def full_length_mac_bits mac_hash_def PSA_BLOCK_CIPHER_BLOCK_LENGTH_def
      PSA_GET_KEY_TYPE_BLOCK_SIZE_EXPONENT_def)

lemma mac_length_untruncated:
  assumes "a AND PSA_ALG_MAC_TRUNCATION_MASK = 0"
  shows "PSA_MAC_LENGTH kt kb a = PSA_MAC_LENGTH kt kb (PSA_ALG_FULL_LENGTH_MAC a)"
  using assms by (simp add: PSA_MAC_LENGTH_def full_length_mac_bits)

lemma digest_size_ge: "16 \<le> digest_size h" "digest_size h \<le> 64"
  by (cases h; simp)+

lemma mac_check_key_Inr:
  assumes "wolfpsa_mac_check_key env key want a s = (Inr (attrs, d), s1)"
  shows "load_key env key s = (Inr (attrs, d), s1) \<and> usage (policy attrs) AND want = want \<and>
    (wolfpsa_mac_alg_permitted attrs (alg (policy attrs)) a \<or>
     wolfpsa_mac_alg_permitted attrs (alg2 (policy attrs)) a) \<and>
    (if PSA_ALG_IS_HMAC a then type attrs = PSA_KEY_TYPE_HMAC
     else PSA_ALG_IS_BLOCK_CIPHER_MAC a \<and> type attrs = PSA_KEY_TYPE_AES)"
  using assms
  by (auto simp: wolfpsa_mac_check_key_def psa_get_key_usage_flags_def psa_get_key_algorithm_def
      psa_get_key_enrollment_algorithm_def split: prod.splits sum.splits if_splits)

lemma mac_start_fields:
  assumes st: "mac_start b E a d ctx0 s = (Inr (WC_OK, ctx), s1)"
  shows "(PSA_ALG_IS_HMAC a \<longrightarrow> mac_hash a \<noteq> WC_HASH_TYPE_NONE) \<and>
    mac_type ctx = (if PSA_ALG_IS_HMAC a then WOLFPSA_MAC_HMAC else WOLFPSA_MAC_CMAC) \<and>
    mac_alg ctx = mac_alg ctx0 \<and> mac_key_type ctx = mac_key_type ctx0 \<and>
    mac_key_bits ctx = mac_key_bits ctx0 \<and> mac_length ctx = mac_length ctx0 \<and>
    full_length ctx = full_length ctx0"
proof (cases "PSA_ALG_IS_HMAC a")
  case True
  then show ?thesis
    using st by (auto simp: mac_start_def mac_start_hmac_def mac_hash_def Let_def split: if_splits prod.splits)
next
  case False
  then show ?thesis using st by (auto simp: mac_start_def Let_def split: if_splits prod.splits)
qed

lemma mac_start_view:
  assumes ok: "mac_engine_ok E F V" and st: "mac_start b E a d ctx0 s = (Inr (WC_OK, ctx), s1)"
  shows "V (mac_wc ctx) = (mac_hash a, d, [])"
proof (cases "PSA_ALG_IS_HMAC a")
  case True
  have g: "mac_start_hmac b E (wolfpsa_hash_type_from_alg a) d ctx0 s = (Inr (WC_OK, ctx), s1)"
    using st True by (simp add: mac_start_def Let_def split: if_splits)
  obtain r c where i: "wc_HmacInit E (mac_devid E) = (r, c)" by fastforce
  from g i have "r = WC_OK"
    by (simp add: mac_start_hmac_def Let_def split: if_splits prod.splits)
  with g i have "wc_HmacSetKey E (wolfpsa_hash_type_from_alg a) d c = (WC_OK, mac_wc ctx)"
    by (auto simp: mac_start_hmac_def Let_def split: if_splits prod.splits)
  from mac_engine_okD(2) [OF ok this] True show ?thesis by (simp add: mac_hash_def)
next
  case False
  from st False have "wc_InitCmac E d (mac_devid E) = (WC_OK, mac_wc ctx)"
    by (auto simp: mac_start_def Let_def split: if_splits prod.splits)
  from mac_engine_okD(3) [OF ok this] False show ?thesis by (simp add: mac_hash_def)
qed

lemma mac_start_Inl [simp]: "mac_start b E a d ctx s \<noteq> (Inl PSA_SUCCESS, s')"
  by (auto simp: mac_start_def mac_start_hmac_def Let_def split: prod.splits)

lemma mac_check_key_Inl [simp]: "wolfpsa_mac_check_key env key want a s \<noteq> (Inl PSA_SUCCESS, s')"
  by (auto simp: wolfpsa_mac_check_key_def split: prod.splits sum.splits)

lemma mac_check_lengths_ok:
  assumes "mac_check_lengths a ctx = PSA_SUCCESS"
  shows "mac_length ctx \<noteq> 0 \<and> mac_length ctx \<le> full_length ctx \<and>
    (a AND PSA_ALG_MAC_TRUNCATION_MASK \<noteq> 0 \<longrightarrow> 4 \<le> PSA_MAC_TRUNCATED_LENGTH a)"
  using assms by (auto simp: mac_check_lengths_def split: if_splits)

lemma mac_setup_parts:
  assumes "wolfpsa_mac_setup env E op key a want s = (PSA_SUCCESS, op', s')"
  shows "op = Some None \<and> (\<exists>attrs d s1 s2 ctx.
    wolfpsa_mac_check_key env key want a s = (Inr (attrs, d), s1) \<and>
    mac_start (env_build env) E a d (mac_new_ctx E a attrs) s2 = (Inr (WC_OK, ctx), s') \<and>
    mac_check_lengths a ctx = PSA_SUCCESS \<and> op' = Some (Some ctx))"
  using assms
  by (auto simp: wolfpsa_mac_setup_def Let_def split: if_splits prod.splits sum.splits)

lemma mac_setup_ctx:
  assumes st: "wolfpsa_mac_setup env E op key a want s = (PSA_SUCCESS, op', s')"
  shows "\<exists>attrs d s1 s2 ctx. load_key env key s = (Inr (attrs, d), s1) \<and>
    usage (policy attrs) AND want = want \<and>
    (wolfpsa_mac_alg_permitted attrs (alg (policy attrs)) a \<or>
     wolfpsa_mac_alg_permitted attrs (alg2 (policy attrs)) a) \<and>
    op' = Some (Some ctx) \<and> mac_ctx_ok ctx \<and> mac_alg ctx = a \<and>
    mac_start (env_build env) E a d (mac_new_ctx E a attrs) s2 = (Inr (WC_OK, ctx), s') \<and>
    mac_length ctx = PSA_MAC_LENGTH (type attrs) (bits attrs) a"
proof -
  obtain attrs d s1 s2 ctx where
    ck: "wolfpsa_mac_check_key env key want a s = (Inr (attrs, d), s1)"
    and ms: "mac_start (env_build env) E a d (mac_new_ctx E a attrs) s2 = (Inr (WC_OK, ctx), s')"
    and cl: "mac_check_lengths a ctx = PSA_SUCCESS" and op': "op' = Some (Some ctx)"
    using mac_setup_parts [OF st] by (elim conjE exE)
  note c = mac_check_key_Inr [OF ck] and m = mac_start_fields [OF ms] and l = mac_check_lengths_ok [OF cl]
  have f: "mac_alg ctx = a" "mac_key_type ctx = type attrs" "mac_key_bits ctx = bits attrs"
    "mac_length ctx = PSA_MAC_LENGTH (type attrs) (bits attrs) a"
    "full_length ctx = PSA_MAC_LENGTH (type attrs) (bits attrs) (PSA_ALG_FULL_LENGTH_MAC a)"
    "mac_type ctx = (if PSA_ALG_IS_HMAC a then WOLFPSA_MAC_HMAC else WOLFPSA_MAC_CMAC)"
    using m by (simp_all add: mac_new_ctx_def)
  have full: "full_length ctx = digest_size (mac_hash a)"
    unfolding f by (rule full_length_eq) (use c m in \<open>auto split: if_splits\<close>)
  have "4 \<le> mac_length ctx"
  proof (cases "a AND PSA_ALG_MAC_TRUNCATION_MASK = 0")
    case True
    then show ?thesis
      using mac_length_untruncated [OF True] full digest_size_ge(1) [of "mac_hash a"] f by simp
  next
    case False
    then show ?thesis using l f by (simp add: PSA_MAC_LENGTH_def)
  qed
  then have "mac_ctx_ok ctx" using full f l by (simp add: mac_ctx_ok_def)
  with c op' f ms show ?thesis by blast
qed

lemma mac_setup_state:
  assumes ok: "mac_engine_ok E F V"
    and st: "wolfpsa_mac_setup env E op key a want s = (PSA_SUCCESS, op', s')"
  shows "\<exists>attrs d s1 ctx. load_key env key s = (Inr (attrs, d), s1) \<and>
    usage (policy attrs) AND want = want \<and>
    (wolfpsa_mac_alg_permitted attrs (alg (policy attrs)) a \<or>
     wolfpsa_mac_alg_permitted attrs (alg2 (policy attrs)) a) \<and>
    op' = Some (Some ctx) \<and> mac_state V ctx a d [] \<and>
    mac_length ctx = PSA_MAC_LENGTH (type attrs) (bits attrs) a"
proof -
  obtain attrs d s1 s2 ctx where p: "load_key env key s = (Inr (attrs, d), s1)"
      "usage (policy attrs) AND want = want"
      "wolfpsa_mac_alg_permitted attrs (alg (policy attrs)) a \<or>
       wolfpsa_mac_alg_permitted attrs (alg2 (policy attrs)) a"
      "op' = Some (Some ctx)" "mac_ctx_ok ctx" "mac_alg ctx = a"
      "mac_length ctx = PSA_MAC_LENGTH (type attrs) (bits attrs) a"
    and ms: "mac_start (env_build env) E a d (mac_new_ctx E a attrs) s2 = (Inr (WC_OK, ctx), s')"
    using mac_setup_ctx [OF st] by (elim exE conjE)
  have "mac_state V ctx a d []" using mac_start_view [OF ok ms] p by (simp add: mac_state_def)
  with p show ?thesis by blast
qed

lemma mac_update_state:
  assumes ok: "mac_engine_ok E F V" and ms: "mac_state V ctx a d m"
    and u: "psa_mac_update E (Some (Some ctx)) x = (PSA_SUCCESS, op')"
  shows "\<exists>ctx'. op' = Some (Some ctx') \<and> mac_state V ctx' a d (m @ in_bytes x) \<and>
    mac_length ctx' = mac_length ctx"
proof (cases "in_length x = 0")
  case True
  then have "in_bytes x = []" by (cases x) simp_all
  then show ?thesis
    using u ms True by (auto simp: psa_mac_update_def wolfpsa_mac_get_ctx_def)
next
  case False
  have v: "V (mac_wc ctx) = (mac_hash a, d, m)" using ms by (simp add: mac_state_def)
  have "\<exists>c. op' = Some (Some (ctx\<lparr>mac_wc := c\<rparr>)) \<and>
      (wc_HmacUpdate E (in_bytes x) (mac_wc ctx) = (WC_OK, c) \<or>
       wc_CmacUpdate E (in_bytes x) (mac_wc ctx) = (WC_OK, c))"
    using u False
    by (auto simp: psa_mac_update_def wolfpsa_mac_get_ctx_def wolfpsa_mac_fail_def Let_def
        split: if_splits prod.splits)
  then obtain c where c: "op' = Some (Some (ctx\<lparr>mac_wc := c\<rparr>))"
    "wc_HmacUpdate E (in_bytes x) (mac_wc ctx) = (WC_OK, c) \<or>
     wc_CmacUpdate E (in_bytes x) (mac_wc ctx) = (WC_OK, c)" by (elim exE conjE)
  have "V c = (mac_hash a, d, m @ in_bytes x)"
    using c(2) mac_engine_okD(4,5) [OF ok v] by (elim disjE)
  then have "mac_state V (ctx\<lparr>mac_wc := c\<rparr>) a d (m @ in_bytes x)"
    using ms by (auto simp: mac_state_def mac_ctx_ok_def)
  with c show ?thesis by simp
qed

lemma mac_final_state:
  assumes ok: "mac_engine_ok E F V" and ms: "mac_state V ctx a d m" and n: "n \<le> full_length ctx"
    and f: "wolfpsa_mac_final b E (ctx\<lparr>mac_length := n\<rparr>) mac len = (PSA_SUCCESS, bs, len')"
  shows "bs = take n (mac_value F a d m) \<and> len' = Some n \<and> n \<le> out_size mac"
proof -
  have full: "full_length ctx = digest_size (mac_hash a)"
    and ty: "mac_type ctx = (if PSA_ALG_IS_HMAC a then WOLFPSA_MAC_HMAC else WOLFPSA_MAC_CMAC)"
    and v: "V (mac_wc ctx) = (mac_hash a, d, m)"
    using ms by (auto simp: mac_state_def mac_ctx_ok_def)
  have sub: "take n (take j buf) = take n buf" if "n \<le> j" for j and buf :: "byte list"
    using that by (simp add: min_def)
  show ?thesis
  proof (cases "PSA_ALG_IS_HMAC a")
    case True
    obtain ret buf where w: "wc_HmacFinal E (mac_wc ctx) = (ret, buf)" by fastforce
    have g: "ret = WC_OK" "bs = take n buf" "len' = Some n" "n \<le> out_size mac"
      using f True ty w by (auto simp: wolfpsa_mac_final_def Let_def split: if_splits)
    with mac_engine_okD(6) [OF ok v, of buf] w sub [of "digest_size (mac_hash a)" buf] n full
    show ?thesis by (simp add: mac_value_def)
  next
    case False
    then have h: "mac_hash a = WC_HASH_TYPE_NONE" by (simp add: mac_hash_def)
    obtain ret buf j where w: "wc_CmacFinal E 16 (mac_wc ctx) = (ret, buf, j)" by (metis prod_cases3)
    have g: "ret = WC_OK" "bs = take n buf" "len' = Some n" "n \<le> out_size mac"
      using f False ty w full h by (auto simp: wolfpsa_mac_final_def Let_def split: if_splits)
    with mac_engine_okD(7) [OF ok v [unfolded h], of buf j] w sub [of 16 buf] n full h
    show ?thesis by (simp add: mac_value_def)
  qed
qed

lemma mac_value_length:
  assumes "mac_engine_ok E F V" and "mac_state V ctx a d m"
  shows "length (mac_value F a d m) = full_length ctx"
  using mac_engine_okD(1) [OF assms(1)] assms(2) by (simp add: mac_state_def mac_ctx_ok_def mac_value_def)

text \<open>A sequence of updates, as a caller would write it.\<close>

fun mac_updates ::
    "'c mac_engine \<Rightarrow> 'c psa_mac_operation_t option \<Rightarrow> inbuf list \<Rightarrow>
     psa_status \<times> 'c psa_mac_operation_t option" where
  "mac_updates E op [] = (PSA_SUCCESS, op)"
| "mac_updates E op (x # xs) =
    (case psa_mac_update E op x of
       (status, op1) \<Rightarrow> if status \<noteq> PSA_SUCCESS then (status, op1) else mac_updates E op1 xs)"

lemma mac_updates_state:
  assumes "mac_engine_ok E F V" and "mac_state V ctx a d m"
    and "mac_updates E (Some (Some ctx)) xs = (PSA_SUCCESS, op')"
  shows "\<exists>ctx'. op' = Some (Some ctx') \<and> mac_state V ctx' a d (m @ concat (map in_bytes xs)) \<and>
    mac_length ctx' = mac_length ctx"
  using assms(2,3)
proof (induction xs arbitrary: ctx m)
  case (Cons x xs)
  obtain st op1 where u: "psa_mac_update E (Some (Some ctx)) x = (st, op1)" by fastforce
  with Cons.prems have st: "st = PSA_SUCCESS" and r: "mac_updates E op1 xs = (PSA_SUCCESS, op')"
    by (auto split: if_splits)
  obtain ctx1 where 1: "op1 = Some (Some ctx1)" "mac_state V ctx1 a d (m @ in_bytes x)"
    "mac_length ctx1 = mac_length ctx"
    using mac_update_state [OF assms(1) Cons.prems(1) u [unfolded st]] by (elim exE conjE)
  from Cons.IH [OF 1(2) r [unfolded 1(1)]] 1(3) show ?case by simp
qed auto

lemma mac_final_runs:
  assumes ok: "mac_engine_ok E F V" and ms: "mac_state V ctx a d m" and n: "n \<le> full_length ctx"
    and run: "\<And>c. fst (wc_HmacFinal E c) = WC_OK" "\<And>n c. fst (wc_CmacFinal E n c) = WC_OK"
    and room: "64 \<le> PSA_HASH_MAX_SIZE b"
  shows "wolfpsa_mac_final b E (ctx\<lparr>mac_length := n\<rparr>) (Out (PSA_HASH_MAX_SIZE b)) (Some 0) =
    (PSA_SUCCESS, take n (mac_value F a d m), Some n)"
proof -
  have full: "full_length ctx = digest_size (mac_hash a)"
    and ty: "mac_type ctx = (if PSA_ALG_IS_HMAC a then WOLFPSA_MAC_HMAC else WOLFPSA_MAC_CMAC)"
    and v: "V (mac_wc ctx) = (mac_hash a, d, m)"
    using ms by (auto simp: mac_state_def mac_ctx_ok_def)
  have le: "full_length ctx \<le> PSA_HASH_MAX_SIZE b" using full digest_size_ge(2) [of "mac_hash a"] room by simp
  have "\<exists>bs len. wolfpsa_mac_final b E (ctx\<lparr>mac_length := n\<rparr>) (Out (PSA_HASH_MAX_SIZE b)) (Some 0) =
      (PSA_SUCCESS, bs, len)"
  proof (cases "PSA_ALG_IS_HMAC a")
    case True
    obtain buf where "wc_HmacFinal E (mac_wc ctx) = (WC_OK, buf)" using run(1) [of "mac_wc ctx"] by (metis prod.collapse)
    then show ?thesis using True ty le n by (simp add: wolfpsa_mac_final_def)
  next
    case False
    then have h: "mac_hash a = WC_HASH_TYPE_NONE" by (simp add: mac_hash_def)
    obtain buf j where w: "wc_CmacFinal E 16 (mac_wc ctx) = (WC_OK, buf, j)"
      using run(2) [of 16 "mac_wc ctx"] by (metis prod.collapse)
    then have "j = 16" using mac_engine_okD(7) [OF ok v [unfolded h]] by blast
    with w show ?thesis using False ty le n full h by (simp add: wolfpsa_mac_final_def)
  qed
  then obtain bs len where f: "wolfpsa_mac_final b E (ctx\<lparr>mac_length := n\<rparr>) (Out (PSA_HASH_MAX_SIZE b)) (Some 0) =
      (PSA_SUCCESS, bs, len)" by (elim exE)
  with mac_final_state [OF ok ms n f] show ?thesis by simp
qed

lemma take_eq_flip: "length tag \<le> k \<Longrightarrow> (take (length tag) (take k xs) \<noteq> tag) = (tag \<noteq> take (length tag) xs)"
  by (auto simp: min_def)

lemma mac_verify_finish_state:
  assumes ok: "mac_engine_ok E F V" and ms: "mac_state V ctx a d m"
    and run: "\<And>c. fst (wc_HmacFinal E c) = WC_OK" "\<And>n c. fst (wc_CmacFinal E n c) = WC_OK"
    and room: "64 \<le> PSA_HASH_MAX_SIZE b"
  shows "psa_mac_verify_finish b E (Some (Some ctx)) (In tag) =
    (if tag = take (length tag) (mac_value F a d m) \<and>
        (if a AND PSA_ALG_MAC_AT_LEAST_THIS_LENGTH_FLAG \<noteq> 0
         then mac_length ctx \<le> length tag \<and> length tag \<le> full_length ctx else length tag = mac_length ctx)
     then PSA_SUCCESS else PSA_ERROR_INVALID_SIGNATURE, Some None)"
proof -
  have l: "mac_length ctx \<le> full_length ctx" "mac_alg ctx = a"
    using ms unfolding mac_state_def mac_ctx_ok_def by blast+
  note fin = mac_final_runs [OF ok ms _ run room]
  show ?thesis
  proof (cases "a AND PSA_ALG_MAC_AT_LEAST_THIS_LENGTH_FLAG = 0")
    case True
    then show ?thesis
      using fin [of "mac_length ctx"] l take_eq_flip [of tag "mac_length ctx" "mac_value F a d m"]
      by (simp add: psa_mac_verify_finish_def wolfpsa_mac_get_ctx_def psa_mac_abort_def)
  next
    case False
    then show ?thesis
      using fin [of "full_length ctx"] l take_eq_flip [of tag "full_length ctx" "mac_value F a d m"]
      by (simp add: psa_mac_verify_finish_def wolfpsa_mac_get_ctx_def psa_mac_abort_def)
  qed
qed

section \<open>The operation as a state machine\<close>

datatype mac_call =
    Mac_sign_setup psa_key_id_t psa_algorithm_t
  | Mac_verify_setup psa_key_id_t psa_algorithm_t
  | Mac_update inbuf
  | Mac_sign_finish outbuf "nat option"
  | Mac_verify_finish inbuf
  | Mac_abort

fun mac_step ::
    "('st, 'h) psa_env \<Rightarrow> 'c mac_engine \<Rightarrow> mac_call \<Rightarrow> 'c psa_mac_operation_t \<Rightarrow> 'st key_store \<Rightarrow>
     psa_status \<times> 'c psa_mac_operation_t option \<times> 'st key_store" where
  "mac_step env E (Mac_sign_setup key a) op s = psa_mac_sign_setup env E (Some op) key a s"
| "mac_step env E (Mac_verify_setup key a) op s = psa_mac_verify_setup env E (Some op) key a s"
| "mac_step env E (Mac_update x) op s =
    (case psa_mac_update E (Some op) x of (status, op1) \<Rightarrow> (status, op1, s))"
| "mac_step env E (Mac_sign_finish mac len) op s =
    (case psa_mac_sign_finish (env_build env) E (Some op) mac len of
       (status, bs, len1, op1) \<Rightarrow> (status, op1, s))"
| "mac_step env E (Mac_verify_finish mac) op s =
    (case psa_mac_verify_finish (env_build env) E (Some op) mac of (status, op1) \<Rightarrow> (status, op1, s))"
| "mac_step env E Mac_abort op s = (case psa_mac_abort (Some op) of (status, op1) \<Rightarrow> (status, op1, s))"

text \<open>
  What an operation structure can become from \<open>PSA_MAC_OPERATION_INIT\<close>. Between two calls the
  rest of the program may change the key store in any way.
\<close>

inductive mac_reachable :: "('st, 'h) psa_env \<Rightarrow> 'c mac_engine \<Rightarrow> 'c psa_mac_operation_t \<Rightarrow> bool"
  for env E where
  mac_init: "mac_reachable env E None"
| mac_next: "mac_reachable env E op \<Longrightarrow> mac_step env E call op s = (status, Some op', s') \<Longrightarrow>
    mac_reachable env E op'"

fun mac_setup_call :: "mac_call \<Rightarrow> bool" where
  "mac_setup_call (Mac_sign_setup key a) = True"
| "mac_setup_call (Mac_verify_setup key a) = True"
| "mac_setup_call c = False"

lemma mac_setup_cases:
  assumes "wolfpsa_mac_setup env E (Some op) key a want s = (status, op', s')"
  shows "status = PSA_SUCCESS \<and> op = None \<and> (\<exists>ctx. op' = Some (Some ctx) \<and> mac_ctx_ok ctx) \<or>
    status \<noteq> PSA_SUCCESS \<and> op' = Some op"
proof (cases "status = PSA_SUCCESS")
  case True
  then have st: "wolfpsa_mac_setup env E (Some op) key a want s = (PSA_SUCCESS, op', s')"
    using assms by simp
  from mac_setup_parts [OF st] mac_setup_ctx [OF st] True show ?thesis by auto
next
  case False
  then show ?thesis
    using assms by (auto simp: wolfpsa_mac_setup_def Let_def split: if_splits prod.splits sum.splits)
qed

lemma mac_update_cases:
  assumes "psa_mac_update E (Some op) x = (status, op')"
  shows "status \<noteq> PSA_SUCCESS \<and> op' = Some None \<or>
    status = PSA_SUCCESS \<and> (\<exists>ctx c. op = Some ctx \<and> op' = Some (Some (ctx\<lparr>mac_wc := c\<rparr>)))"
proof (cases op)
  case None
  then show ?thesis
    using assms by (simp add: psa_mac_update_def wolfpsa_mac_get_ctx_def wolfpsa_mac_fail_def psa_mac_abort_def)
next
  case (Some ctx)
  then show ?thesis
    using assms
    by (auto simp: psa_mac_update_def wolfpsa_mac_get_ctx_def wolfpsa_mac_fail_def psa_mac_abort_def Let_def
        intro: exI [of _ "mac_wc ctx"] split: if_splits prod.splits)
qed

lemma mac_sign_finish_ends:
  "psa_mac_sign_finish b E (Some op) mac len = (status, bs, len', op') \<Longrightarrow> op' = Some None"
  by (cases op)
    (auto simp: psa_mac_sign_finish_def wolfpsa_mac_get_ctx_def wolfpsa_mac_fail_def psa_mac_abort_def
      Let_def split: if_splits prod.splits)

lemma mac_verify_finish_ends:
  "psa_mac_verify_finish b E (Some op) mac = (status, op') \<Longrightarrow>
   op' = Some None \<or> status \<noteq> PSA_SUCCESS \<and> in_null mac \<and> op' = Some op"
  by (cases op)
    (auto simp: psa_mac_verify_finish_def wolfpsa_mac_get_ctx_def psa_mac_abort_def
      Let_def split: if_splits prod.splits)

lemma mac_reachable_ok: "mac_reachable env E op \<Longrightarrow> op = Some ctx \<Longrightarrow> mac_ctx_ok ctx"
proof (induction arbitrary: ctx rule: mac_reachable.induct)
  case (mac_next op call s status op' s')
  show ?case
  proof (cases call)
    case (Mac_sign_setup key a)
    then show ?thesis
      using mac_setup_cases [of env E op key a PSA_KEY_USAGE_SIGN_MESSAGE s] mac_next
      by (auto simp: psa_mac_sign_setup_def)
  next
    case (Mac_verify_setup key a)
    then show ?thesis
      using mac_setup_cases [of env E op key a PSA_KEY_USAGE_VERIFY_MESSAGE s] mac_next
      by (auto simp: psa_mac_verify_setup_def)
  next
    case (Mac_update x)
    then obtain st where "psa_mac_update E (Some op) x = (st, Some op')"
      using mac_next.hyps by (auto split: prod.splits)
    from mac_update_cases [OF this] mac_next show ?thesis by (auto simp: mac_ctx_ok_def)
  next
    case (Mac_sign_finish mac len)
    then show ?thesis using mac_next by (auto split: prod.splits dest: mac_sign_finish_ends)
  next
    case (Mac_verify_finish mac)
    then show ?thesis using mac_next by (auto split: prod.splits dest: mac_verify_finish_ends)
  next
    case Mac_abort
    then show ?thesis using mac_next by (auto simp: psa_mac_abort_def)
  qed
qed simp

text \<open>
  C31: Whatever sequence of calls a program makes on a MAC operation, an active operation has a
  consistent context (the back end fits the algorithm, the output length is between 4 bytes and
  the length of the full MAC), a finishing call that succeeds ends the operation, and a call
  that fails ends it too. The exceptions are a failed set-up, which leaves the operation as it
  was, and \<open>psa_mac_verify_finish\<close> with a NULL MAC, after which the operation is still active.
\<close>

theorem mac_operation_lifecycle:
  assumes "mac_reachable env E op" and "mac_step env E call op s = (status, op', s')"
  shows "\<exists>op1. op' = Some op1 \<and> (\<forall>ctx. op1 = Some ctx \<longrightarrow> mac_ctx_ok ctx) \<and>
    (status \<noteq> PSA_SUCCESS \<longrightarrow>
       op1 = None \<or> op1 = op \<and> (mac_setup_call call \<or> (\<exists>n. call = Mac_verify_finish (NullIn n)))) \<and>
    (status = PSA_SUCCESS \<longrightarrow>
       (if mac_setup_call call then op = None \<and> op1 \<noteq> None
        else if \<exists>x. call = Mac_update x then op \<noteq> None \<and> op1 \<noteq> None
        else op1 = None))"
proof -
  have ok: "\<exists>op1. op' = Some op1 \<and> (\<forall>ctx. op1 = Some ctx \<longrightarrow> mac_ctx_ok ctx)"
    if "op' \<noteq> None"
  proof -
    from that obtain op1 where "op' = Some op1" by blast
    moreover from mac_next [OF assms(1) assms(2) [unfolded this]] have "mac_reachable env E op1" .
    ultimately show ?thesis using mac_reachable_ok by blast
  qed
  show ?thesis
  proof (cases call)
    case (Mac_sign_setup key a)
    then show ?thesis
      using mac_setup_cases [of env E op key a PSA_KEY_USAGE_SIGN_MESSAGE s status op' s'] assms ok
      by (auto simp: psa_mac_sign_setup_def)
  next
    case (Mac_verify_setup key a)
    then show ?thesis
      using mac_setup_cases [of env E op key a PSA_KEY_USAGE_VERIFY_MESSAGE s status op' s'] assms ok
      by (auto simp: psa_mac_verify_setup_def)
  next
    case (Mac_update x)
    then have "psa_mac_update E (Some op) x = (status, op')"
      using assms(2) by (auto split: prod.splits)
    from mac_update_cases [OF this] Mac_update ok show ?thesis by auto
  next
    case (Mac_sign_finish mac len)
    then show ?thesis using assms ok by (auto split: prod.splits dest: mac_sign_finish_ends)
  next
    case (Mac_verify_finish mac)
    then have "psa_mac_verify_finish (env_build env) E (Some op) mac = (status, op')"
      using assms(2) by (auto split: prod.splits)
    from mac_verify_finish_ends [OF this] Mac_verify_finish ok show ?thesis
      by (cases mac) auto
  next
    case Mac_abort
    then show ?thesis using assms ok by (auto simp: psa_mac_abort_def)
  qed
qed

section \<open>A concrete engine\<close>

text \<open>
  A stand-in for wolfCrypt that keeps the key and the message in the context, to show that the
  assumptions on the engine can hold.
\<close>

definition demo_mac_fun :: mac_function where
  "demo_mac_fun h k m = replicate (digest_size h) (sum_list k + sum_list m)"

definition demo_mac :: "(wc_hash_type \<times> byte list \<times> byte list) mac_engine" where
  "demo_mac =
    \<lparr>mac_devid = -2, wc_mac_zero = (WC_HASH_TYPE_NONE, [], []),
     wc_HmacInit = (\<lambda>dev. (WC_OK, (WC_HASH_TYPE_NONE, [], []))),
     wc_HmacSetKey = (\<lambda>h k c. (WC_OK, (h, k, []))),
     wc_HmacUpdate = (\<lambda>x (h, k, m). (WC_OK, (h, k, m @ x))),
     wc_HmacFinal = (\<lambda>(h, k, m). (WC_OK, demo_mac_fun h k m)),
     wc_InitCmac = (\<lambda>k dev. (WC_OK, (WC_HASH_TYPE_NONE, k, []))),
     wc_CmacUpdate = (\<lambda>x (h, k, m). (WC_OK, (h, k, m @ x))),
     wc_CmacFinal = (\<lambda>n (h, k, m). (WC_OK, demo_mac_fun h k m, n))\<rparr>"

lemma demo_mac_ok: "mac_engine_ok demo_mac demo_mac_fun (\<lambda>c. c)"
  by (auto simp: mac_engine_ok_def demo_mac_def demo_mac_fun_def)

text \<open>An HMAC key that may sign and verify with SHA-256 tags of at least 8 bytes.\<close>

definition demo_mac_attr :: psa_key_attributes_t where
  "demo_mac_attr = psa_key_attributes_init
    \<lparr>type := PSA_KEY_TYPE_HMAC, bits := 128,
     policy := \<lparr>usage = PSA_KEY_USAGE_SIGN_MESSAGE OR PSA_KEY_USAGE_VERIFY_MESSAGE,
                alg = PSA_ALG_AT_LEAST_THIS_LENGTH_MAC (PSA_ALG_HMAC PSA_ALG_SHA_256) 8, alg2 = PSA_ALG_NONE\<rparr>\<rparr>"

definition demo_mac_ctx ::
    "byte list \<Rightarrow> (wc_hash_type \<times> byte list \<times> byte list) wolfpsa_mac_ctx" where
  "demo_mac_ctx m =
    \<lparr>mac_alg = PSA_ALG_TRUNCATED_MAC (PSA_ALG_HMAC PSA_ALG_SHA_256) 10, mac_key_type = PSA_KEY_TYPE_HMAC,
     mac_key_bits = 128, mac_length = 10, full_length = 32, mac_type = WOLFPSA_MAC_HMAC,
     mac_key = None, mac_wc = (WC_HASH_TYPE_SHA256, demo_key, m)\<rparr>"

lemma demo_mac_setup:
  "want = PSA_KEY_USAGE_SIGN_MESSAGE \<or> want = PSA_KEY_USAGE_VERIFY_MESSAGE \<Longrightarrow>
   wolfpsa_mac_setup demo_env demo_mac (Some None) PSA_KEY_ID_VENDOR_MIN
     (PSA_ALG_TRUNCATED_MAC (PSA_ALG_HMAC PSA_ALG_SHA_256) 10) want (demo_with demo_mac_attr demo_key) =
   (PSA_SUCCESS, Some (Some (demo_mac_ctx [])), demo_with demo_mac_attr demo_key)"
  by (auto simp: wolfpsa_mac_setup_def wolfpsa_mac_check_key_def wolfpsa_mac_alg_permitted_def
      mac_start_def mac_start_hmac_def mac_new_ctx_def mac_check_lengths_def wolfpsa_hash_type_from_alg_def
      demo_mac_def demo_mac_attr_def demo_mac_ctx_def psa_defs psa_get_key_usage_flags_def
      psa_get_key_algorithm_def psa_get_key_enrollment_algorithm_def psa_key_attributes_init_def
      default_build_def Let_def)

lemma demo_mac_update:
  "x \<noteq> [] \<Longrightarrow> length x \<le> UINT32_MAX \<Longrightarrow>
   psa_mac_update demo_mac (Some (Some (demo_mac_ctx m))) (In x) =
   (PSA_SUCCESS, Some (Some (demo_mac_ctx (m @ x))))"
  by (simp add: psa_mac_update_def wolfpsa_mac_get_ctx_def demo_mac_def demo_mac_ctx_def)

theorem mac_operation_lifecycle_witness:
  "psa_mac_update demo_mac (Some (Some (demo_mac_ctx []))) (NullIn 3) = (PSA_ERROR_INVALID_ARGUMENT, Some None)"
proof -
  let ?a = "PSA_ALG_TRUNCATED_MAC (PSA_ALG_HMAC PSA_ALG_SHA_256) 10" and ?s = "demo_with demo_mac_attr demo_key"
  have "mac_step demo_env demo_mac (Mac_sign_setup PSA_KEY_ID_VENDOR_MIN ?a) None ?s =
      (PSA_SUCCESS, Some (Some (demo_mac_ctx [])), ?s)"
    using demo_mac_setup by (simp add: psa_mac_sign_setup_def)
  from mac_next [OF mac_init this] have r: "mac_reachable demo_env demo_mac (Some (demo_mac_ctx []))" .
  obtain st op' where u: "psa_mac_update demo_mac (Some (Some (demo_mac_ctx []))) (NullIn 3) = (st, op')"
    by fastforce
  then have st: "st = PSA_ERROR_INVALID_ARGUMENT"
    by (simp add: psa_mac_update_def wolfpsa_mac_get_ctx_def wolfpsa_mac_fail_def)
  have "mac_step demo_env demo_mac (Mac_update (NullIn 3)) (Some (demo_mac_ctx [])) ?s = (st, op', ?s)"
    using u by simp
  from mac_operation_lifecycle [OF r this] st u show ?thesis by auto
qed

section \<open>Signing and verifying\<close>

text \<open>
  A multi-part MAC that is set up, fed and finished successfully, in whatever pieces the
  message came, is the MAC of the whole message under the key the id names, cut to the length
  the algorithm asks for; the key allows signing and its policy allows this algorithm at this
  length. The operation is inactive afterwards.
\<close>

theorem mac_sign_correct:
  assumes env: "env_ops env = posix_ops os" and lk: "lock_ok s" and ok: "mac_engine_ok E F V"
    and st: "psa_mac_sign_setup env E op key a s = (PSA_SUCCESS, op1, s')"
    and up: "mac_updates E op1 xs = (PSA_SUCCESS, op2)"
    and fi: "psa_mac_sign_finish b E op2 mac len0 = (PSA_SUCCESS, bs, len, op3)"
  shows "\<exists>attrs d. key_at posix_recs s key = Some (attrs, d) \<and>
    usage (policy attrs) AND PSA_KEY_USAGE_SIGN_MESSAGE = PSA_KEY_USAGE_SIGN_MESSAGE \<and>
    (wolfpsa_mac_alg_permitted attrs (alg (policy attrs)) a \<or>
     wolfpsa_mac_alg_permitted attrs (alg2 (policy attrs)) a) \<and>
    bs = take (PSA_MAC_LENGTH (type attrs) (bits attrs) a) (mac_value F a d (concat (map in_bytes xs))) \<and>
    length bs = PSA_MAC_LENGTH (type attrs) (bits attrs) a \<and>
    4 \<le> length bs \<and> length bs \<le> out_size mac \<and> len = Some (length bs) \<and> op3 = Some None"
proof -
  obtain attrs d s1 ctx where p: "load_key env key s = (Inr (attrs, d), s1)"
      "usage (policy attrs) AND PSA_KEY_USAGE_SIGN_MESSAGE = PSA_KEY_USAGE_SIGN_MESSAGE"
      "wolfpsa_mac_alg_permitted attrs (alg (policy attrs)) a \<or>
       wolfpsa_mac_alg_permitted attrs (alg2 (policy attrs)) a"
      "op1 = Some (Some ctx)" "mac_state V ctx a d []"
      "mac_length ctx = PSA_MAC_LENGTH (type attrs) (bits attrs) a"
    using mac_setup_state [OF ok st [unfolded psa_mac_sign_setup_def]] by (elim exE conjE)
  have key: "key_at posix_recs s key = Some (attrs, d)"
    by (rule posix_keys.load_key_sound(2) [OF env lk p(1) refl])
  let ?m = "concat (map in_bytes xs)"
  obtain ctx2 where c: "op2 = Some (Some ctx2)" "mac_state V ctx2 a d ?m" "mac_length ctx2 = mac_length ctx"
    using mac_updates_state [OF ok p(5) up [unfolded p(4)]] by auto
  have l: "4 \<le> mac_length ctx2" "mac_length ctx2 \<le> full_length ctx2"
    using c(2) unfolding mac_state_def mac_ctx_ok_def by blast+
  have f: "wolfpsa_mac_final b E (ctx2\<lparr>mac_length := mac_length ctx2\<rparr>) mac (wolfpsa_clear_length len0) =
      (PSA_SUCCESS, bs, len)" and op3: "op3 = Some None"
    using fi c(1)
    by (auto simp: psa_mac_sign_finish_def wolfpsa_mac_get_ctx_def wolfpsa_mac_fail_def psa_mac_abort_def
        Let_def split: if_splits prod.splits)
  have bs: "bs = take (mac_length ctx2) (mac_value F a d ?m)" "len = Some (mac_length ctx2)"
    "mac_length ctx2 \<le> out_size mac"
    using mac_final_state [OF ok c(2) l(2) f] by blast+
  have "length bs = mac_length ctx2" using bs(1) l(2) mac_value_length [OF ok c(2)] by simp
  with key p(2,3,6) c(3) bs l op3 show ?thesis by auto
qed

theorem mac_sign_correct_witness:
  "\<exists>bs. psa_mac_sign_finish default_build demo_mac (Some (Some (demo_mac_ctx [1, 2, 3]))) (Out 32) (Some 7) =
     (PSA_SUCCESS, bs, Some 10, Some None) \<and> bs = take 10 (demo_mac_fun WC_HASH_TYPE_SHA256 demo_key [1, 2, 3])"
proof -
  let ?a = "PSA_ALG_TRUNCATED_MAC (PSA_ALG_HMAC PSA_ALG_SHA_256) 10" and ?s = "demo_with demo_mac_attr demo_key"
  have st: "psa_mac_sign_setup demo_env demo_mac (Some None) PSA_KEY_ID_VENDOR_MIN ?a ?s =
      (PSA_SUCCESS, Some (Some (demo_mac_ctx [])), ?s)"
    using demo_mac_setup by (simp add: psa_mac_sign_setup_def)
  have up: "mac_updates demo_mac (Some (Some (demo_mac_ctx []))) [In [1, 2], In [3]] =
      (PSA_SUCCESS, Some (Some (demo_mac_ctx [1, 2, 3])))"
    by (simp add: demo_mac_update)
  obtain bs where fi: "psa_mac_sign_finish default_build demo_mac (Some (Some (demo_mac_ctx [1, 2, 3])))
      (Out 32) (Some 7) = (PSA_SUCCESS, bs, Some 10, Some None)"
    by (simp add: psa_mac_sign_finish_def wolfpsa_mac_get_ctx_def wolfpsa_mac_final_def demo_mac_def
        demo_mac_ctx_def default_build_def psa_mac_abort_def wolfpsa_clear_length_def)
  have h: "mac_hash ?a = WC_HASH_TYPE_SHA256"
    by (simp add: mac_hash_def wolfpsa_hash_type_from_alg_def psa_defs)
  have n: "PSA_MAC_LENGTH PSA_KEY_TYPE_HMAC 128 ?a = 10" by (simp add: psa_defs)
  from mac_sign_correct [OF demo_env_simps(1) demo_with_simps(2) demo_mac_ok st up fi] fi
  show ?thesis by (simp add: mac_value_def h demo_mac_attr_def n)
qed

text \<open>
  C11: Verification accepts exactly the right tags. When an operation was set up for verification,
  fed in any pieces, and wolfCrypt computes its MAC without an error, the result is success
  if the tag is the MAC of the message, cut to the tag's length, and that length is the one the
  algorithm names (with the at-least flag: any length from it up to the full MAC), and
  \<open>PSA_ERROR_INVALID_SIGNATURE\<close> otherwise; the operation is inactive afterwards.
\<close>

theorem mac_verify_exact:
  assumes env: "env_ops env = posix_ops os" and lk: "lock_ok s" and ok: "mac_engine_ok E F V"
    and st: "psa_mac_verify_setup env E op key a s = (PSA_SUCCESS, op1, s')"
    and up: "mac_updates E op1 xs = (PSA_SUCCESS, op2)"
    and run: "\<And>c. fst (wc_HmacFinal E c) = WC_OK" "\<And>n c. fst (wc_CmacFinal E n c) = WC_OK"
    and room: "64 \<le> PSA_HASH_MAX_SIZE b"
  shows "\<exists>attrs d. key_at posix_recs s key = Some (attrs, d) \<and>
    usage (policy attrs) AND PSA_KEY_USAGE_VERIFY_MESSAGE = PSA_KEY_USAGE_VERIFY_MESSAGE \<and>
    psa_mac_verify_finish b E op2 (In tag) =
      (let full = mac_value F a d (concat (map in_bytes xs));
           n = PSA_MAC_LENGTH (type attrs) (bits attrs) a in
       (if tag = take (length tag) full \<and>
           (if a AND PSA_ALG_MAC_AT_LEAST_THIS_LENGTH_FLAG \<noteq> 0
            then n \<le> length tag \<and> length tag \<le> length full else length tag = n)
        then PSA_SUCCESS else PSA_ERROR_INVALID_SIGNATURE, Some None))"
proof -
  obtain attrs d s1 ctx where p: "load_key env key s = (Inr (attrs, d), s1)"
      "usage (policy attrs) AND PSA_KEY_USAGE_VERIFY_MESSAGE = PSA_KEY_USAGE_VERIFY_MESSAGE"
      "op1 = Some (Some ctx)" "mac_state V ctx a d []"
      "mac_length ctx = PSA_MAC_LENGTH (type attrs) (bits attrs) a"
    using mac_setup_state [OF ok st [unfolded psa_mac_verify_setup_def]] by (elim exE conjE)
  have key: "key_at posix_recs s key = Some (attrs, d)"
    by (rule posix_keys.load_key_sound(2) [OF env lk p(1) refl])
  let ?m = "concat (map in_bytes xs)"
  obtain ctx2 where c: "op2 = Some (Some ctx2)" "mac_state V ctx2 a d ?m" "mac_length ctx2 = mac_length ctx"
    using mac_updates_state [OF ok p(4) up [unfolded p(3)]] by auto
  have "psa_mac_verify_finish b E (Some (Some ctx2)) (In tag) =
      (if tag = take (length tag) (mac_value F a d ?m) \<and>
          (if a AND PSA_ALG_MAC_AT_LEAST_THIS_LENGTH_FLAG \<noteq> 0
           then mac_length ctx2 \<le> length tag \<and> length tag \<le> full_length ctx2
           else length tag = mac_length ctx2)
       then PSA_SUCCESS else PSA_ERROR_INVALID_SIGNATURE, Some None)"
    by (rule mac_verify_finish_state [OF ok c(2) run room])
  with key p(2,5) c mac_value_length [OF ok c(2)] show ?thesis by (auto simp: Let_def)
qed

theorem mac_verify_exact_witness:
  "psa_mac_verify_finish default_build demo_mac (Some (Some (demo_mac_ctx [1, 2, 3])))
     (In (take 10 (demo_mac_fun WC_HASH_TYPE_SHA256 demo_key [1, 2, 3]))) = (PSA_SUCCESS, Some None)"
proof -
  let ?a = "PSA_ALG_TRUNCATED_MAC (PSA_ALG_HMAC PSA_ALG_SHA_256) 10" and ?s = "demo_with demo_mac_attr demo_key"
  have st: "psa_mac_verify_setup demo_env demo_mac (Some None) PSA_KEY_ID_VENDOR_MIN ?a ?s =
      (PSA_SUCCESS, Some (Some (demo_mac_ctx [])), ?s)"
    using demo_mac_setup by (simp add: psa_mac_verify_setup_def)
  have up: "mac_updates demo_mac (Some (Some (demo_mac_ctx []))) [In [1, 2], In [3]] =
      (PSA_SUCCESS, Some (Some (demo_mac_ctx [1, 2, 3])))"
    by (simp add: demo_mac_update)
  have run: "\<And>c. fst (wc_HmacFinal demo_mac c) = WC_OK" "\<And>n c. fst (wc_CmacFinal demo_mac n c) = WC_OK"
    by (simp_all add: demo_mac_def split: prod.split)
  have h: "mac_hash ?a = WC_HASH_TYPE_SHA256"
    by (simp add: mac_hash_def wolfpsa_hash_type_from_alg_def psa_defs)
  have n: "PSA_MAC_LENGTH PSA_KEY_TYPE_HMAC 128 ?a = 10" "?a AND PSA_ALG_MAC_AT_LEAST_THIS_LENGTH_FLAG = 0"
    by (simp_all add: psa_defs)
  have room: "64 \<le> PSA_HASH_MAX_SIZE default_build" by (simp add: default_build_def)
  from mac_verify_exact [OF demo_env_simps(1) demo_with_simps(2) demo_mac_ok st up run room,
      of "take 10 (demo_mac_fun WC_HASH_TYPE_SHA256 demo_key [1, 2, 3])"]
  show ?thesis by (simp add: mac_value_def h demo_mac_attr_def n demo_mac_fun_def)
qed

end
