(* ===== verification/Cipher.thy ===== *)
theory Cipher
  imports Posix_Keys
begin

text \<open>
  \<open>src/psa_cipher.c\<close>: unauthenticated ciphers. The multi-part operation buffers an incomplete
  block (and, when it removes padding, the last complete one); the one-shot calls put the
  generated IV in front of the ciphertext and take it off again. wolfCrypt's AES, 3DES and
  ChaCha are a parameter (record \<open>cipher_engine\<close>). The build is the default one: AES with ECB,
  CTR, CFB and OFB, 3DES with ECB, ChaCha.

  An operation argument is \<open>None\<close> for a NULL pointer; the operation itself is \<open>None\<close> when its
  context pointer is NULL. The addresses of the buffers are arguments, because the code
  compares them. When an update fails in wolfCrypt after it has written some blocks, the model
  reports no bytes for the failing call.
\<close>

unbundle bit_operations_syntax

section \<open>Contexts\<close>

datatype cipher_dir = AES_ENCRYPTION | AES_DECRYPTION

abbreviation AES_BLOCK_SIZE :: nat where "AES_BLOCK_SIZE \<equiv> 16"
abbreviation DES_BLOCK_SIZE :: nat where "DES_BLOCK_SIZE \<equiv> 8"
abbreviation DES3_KEY_SIZE :: nat where "DES3_KEY_SIZE \<equiv> 24"
abbreviation CHACHA_MAX_KEY_SZ :: nat where "CHACHA_MAX_KEY_SZ \<equiv> 32"
abbreviation WOLFPSA_CHACHA20_IV_BYTES :: nat where "WOLFPSA_CHACHA20_IV_BYTES \<equiv> 12"

text \<open>\<open>partial\<close> is the first \<open>partial_len\<close> bytes of the array of that name.\<close>

record 'c wolfpsa_cipher_ctx =
  ci_alg :: psa_algorithm_t
  ci_key_type :: psa_key_type_t
  ci_key_bits :: psa_key_bits_t
  direction :: cipher_dir
  iv_set :: bool
  iv_attempted :: bool
  is_chacha :: bool
  is_des3 :: bool
  block_size :: nat
  ci_iv :: "byte list"
  partial :: "byte list"
  ci_wc :: 'c

type_synonym 'c psa_cipher_operation_t = "'c wolfpsa_cipher_ctx option"

text \<open>
  wolfCrypt's side: the functions that transform data are the constructors of
  \<open>wc_cipher_op\<close>; \<open>wc_process\<close> gives the return code, the bytes written and the new context.
  A context of type \<open>'c\<close> is the \<open>Aes\<close>, \<open>Des3\<close> and \<open>ChaCha\<close> members together.
\<close>

datatype wc_cipher_op =
    Wc_Des3_Cbc cipher_dir | Wc_Aes_Cbc cipher_dir
  | Wc_Des3_Ecb cipher_dir | Wc_Aes_Ecb cipher_dir
  | Wc_Aes_Ctr | Wc_Aes_Cfb cipher_dir | Wc_Aes_Ofb cipher_dir | Wc_Chacha_Process

record 'c cipher_engine =
  ci_devid :: int
  wc_cipher_zero :: 'c
  wc_Chacha_SetKey :: "byte list \<Rightarrow> 'c \<Rightarrow> wc_ret \<times> 'c"
  wc_Des3Init :: "int \<Rightarrow> 'c \<Rightarrow> wc_ret \<times> 'c"
  wc_Des3_SetKey :: "byte list \<Rightarrow> byte list \<Rightarrow> cipher_dir \<Rightarrow> 'c \<Rightarrow> wc_ret \<times> 'c"
  wc_AesInit :: "int \<Rightarrow> 'c \<Rightarrow> wc_ret \<times> 'c"
  wc_AesCtrSetKey :: "byte list \<Rightarrow> byte list \<Rightarrow> cipher_dir \<Rightarrow> 'c \<Rightarrow> wc_ret \<times> 'c"
  wc_AesSetKey :: "byte list \<Rightarrow> byte list \<Rightarrow> cipher_dir \<Rightarrow> 'c \<Rightarrow> wc_ret \<times> 'c"
  wc_Chacha_SetIV :: "byte list \<Rightarrow> nat \<Rightarrow> 'c \<Rightarrow> wc_ret \<times> 'c"
  wc_Des3_SetIV :: "byte list \<Rightarrow> 'c \<Rightarrow> wc_ret \<times> 'c"
  wc_AesSetIV :: "byte list \<Rightarrow> 'c \<Rightarrow> wc_ret \<times> 'c"
  wc_process :: "wc_cipher_op \<Rightarrow> byte list \<Rightarrow> 'c \<Rightarrow> wc_ret \<times> byte list \<times> 'c"

definition wolfpsa_cipher_get_ctx ::
    "'c psa_cipher_operation_t option \<Rightarrow> 'c wolfpsa_cipher_ctx option" where
  "wolfpsa_cipher_get_ctx op = (case op of None \<Rightarrow> None | Some ctx \<Rightarrow> ctx)"

definition psa_cipher_abort ::
    "'c psa_cipher_operation_t option \<Rightarrow> psa_status \<times> 'c psa_cipher_operation_t option" where
  "psa_cipher_abort op =
    (if op = None then (PSA_ERROR_INVALID_ARGUMENT, op) else (PSA_SUCCESS, Some None))"

definition wolfpsa_cipher_fail ::
    "'c psa_cipher_operation_t option \<Rightarrow> psa_status \<Rightarrow> psa_status \<times> 'c psa_cipher_operation_t option" where
  "wolfpsa_cipher_fail op status = (status, snd (psa_cipher_abort op))"

section \<open>Algorithm and key checks\<close>

definition wolfpsa_cipher_check_alg :: "psa_algorithm_t \<Rightarrow> psa_status" where
  "wolfpsa_cipher_check_alg a =
    (if \<not> PSA_ALG_IS_CIPHER a then PSA_ERROR_NOT_SUPPORTED
     else if a \<in> {PSA_ALG_CBC_NO_PADDING, PSA_ALG_CBC_PKCS7, PSA_ALG_ECB_NO_PADDING, PSA_ALG_CTR,
                  PSA_ALG_CCM_STAR_NO_TAG, PSA_ALG_CFB, PSA_ALG_OFB, PSA_ALG_STREAM_CIPHER}
       then PSA_SUCCESS
     else PSA_ERROR_NOT_SUPPORTED)"

definition wolfpsa_cipher_block_size :: "psa_key_type_t \<Rightarrow> nat" where
  "wolfpsa_cipher_block_size kt = (if kt = PSA_KEY_TYPE_DES then DES_BLOCK_SIZE else AES_BLOCK_SIZE)"

definition wolfpsa_cipher_iv_length :: "psa_algorithm_t \<Rightarrow> psa_key_type_t \<Rightarrow> nat" where
  "wolfpsa_cipher_iv_length a kt =
    (if a \<in> {PSA_ALG_CBC_NO_PADDING, PSA_ALG_CBC_PKCS7, PSA_ALG_CTR, PSA_ALG_CFB, PSA_ALG_OFB}
       then wolfpsa_cipher_block_size kt
     else if a = PSA_ALG_STREAM_CIPHER then WOLFPSA_CHACHA20_IV_BYTES
     else if a = PSA_ALG_CCM_STAR_NO_TAG then 13
     else 0)"

text \<open>The check of the key type against the algorithm, and of the key's size.\<close>

definition cipher_type_ok :: "psa_key_type_t \<Rightarrow> psa_algorithm_t \<Rightarrow> bool" where
  "cipher_type_ok kt a =
    (if a = PSA_ALG_STREAM_CIPHER then kt = PSA_KEY_TYPE_CHACHA20
     else if kt = PSA_KEY_TYPE_DES
       then a \<in> {PSA_ALG_CBC_NO_PADDING, PSA_ALG_ECB_NO_PADDING, PSA_ALG_CBC_PKCS7}
     else kt = PSA_KEY_TYPE_AES)"

definition cipher_size_status :: "psa_key_attributes_t \<Rightarrow> nat \<Rightarrow> psa_status" where
  "cipher_size_status attrs n =
    (if type attrs = PSA_KEY_TYPE_CHACHA20 then
       (if n \<noteq> CHACHA_MAX_KEY_SZ then PSA_ERROR_INVALID_ARGUMENT
        else if bits attrs \<noteq> 256 then PSA_ERROR_INVALID_ARGUMENT
        else PSA_SUCCESS)
     else if type attrs = PSA_KEY_TYPE_DES then
       (if n = 16 then PSA_ERROR_NOT_SUPPORTED
        else if n \<noteq> 24 then PSA_ERROR_INVALID_ARGUMENT
        else if bits attrs \<noteq> word_of_nat (n * 8) then PSA_ERROR_INVALID_ARGUMENT
        else PSA_SUCCESS)
     else if n \<noteq> 16 \<and> n \<noteq> 24 \<and> n \<noteq> 32 then PSA_ERROR_INVALID_ARGUMENT
     else if bits attrs \<noteq> 128 \<and> bits attrs \<noteq> 192 \<and> bits attrs \<noteq> 256 then PSA_ERROR_INVALID_ARGUMENT
     else PSA_SUCCESS)"

definition wolfpsa_cipher_check_key ::
    "('st, 'h) psa_env \<Rightarrow> psa_key_id_t \<Rightarrow> psa_key_usage_t \<Rightarrow> psa_algorithm_t \<Rightarrow> 'st key_store \<Rightarrow>
     (psa_status + psa_key_attributes_t \<times> byte list) \<times> 'st key_store" where
  "wolfpsa_cipher_check_key env key want a s =
    (case load_key env key s of
       (Inl status, s1) \<Rightarrow> (Inl status, s1)
     | (Inr (attrs, d), s1) \<Rightarrow>
         (if \<not> cipher_type_ok (type attrs) a then Inl PSA_ERROR_NOT_SUPPORTED
          else if psa_get_key_usage_flags attrs AND want \<noteq> want then Inl PSA_ERROR_NOT_PERMITTED
          else if \<not> wolfpsa_key_permits_alg attrs a then Inl PSA_ERROR_NOT_PERMITTED
          else if cipher_size_status attrs (length d) \<noteq> PSA_SUCCESS
            then Inl (cipher_size_status attrs (length d))
          else Inr (attrs, d), s1))"

section \<open>Set-up\<close>

definition cipher_new_ctx ::
    "'c cipher_engine \<Rightarrow> cipher_dir \<Rightarrow> psa_algorithm_t \<Rightarrow> psa_key_attributes_t \<Rightarrow> 'c wolfpsa_cipher_ctx" where
  "cipher_new_ctx E dir a attrs =
    \<lparr>ci_alg = a, ci_key_type = type attrs, ci_key_bits = bits attrs, direction = dir,
     iv_set = False, iv_attempted = False, is_chacha = (a = PSA_ALG_STREAM_CIPHER),
     is_des3 = (type attrs = PSA_KEY_TYPE_DES), block_size = wolfpsa_cipher_block_size (type attrs),
     ci_iv = replicate AES_BLOCK_SIZE 0, partial = [], ci_wc = wc_cipher_zero E\<rparr>"

text \<open>
  Loading the key into wolfCrypt. The modes that only use the forward direction of AES load
  an encryption key also for decryption.
\<close>

definition aes_key_direction :: "cipher_dir \<Rightarrow> psa_algorithm_t \<Rightarrow> cipher_dir" where
  "aes_key_direction dir a =
    (if dir = AES_ENCRYPTION \<or> a = PSA_ALG_CCM_STAR_NO_TAG \<or> a = PSA_ALG_OFB \<or> a = PSA_ALG_CFB
     then AES_ENCRYPTION else AES_DECRYPTION)"

definition cipher_start ::
    "'c cipher_engine \<Rightarrow> byte list \<Rightarrow> 'c wolfpsa_cipher_ctx \<Rightarrow> wc_ret \<times> 'c wolfpsa_cipher_ctx" where
  "cipher_start E d ctx =
    (let (ret, c) =
       (if is_chacha ctx then wc_Chacha_SetKey E d (ci_wc ctx)
        else if is_des3 ctx then
          (let (ret1, c1) = wc_Des3Init E (ci_devid E) (ci_wc ctx) in
           if ret1 \<noteq> WC_OK then (ret1, c1)
           else wc_Des3_SetKey E (take DES3_KEY_SIZE d) (ci_iv ctx) (direction ctx) c1)
        else
          (let (ret1, c1) = wc_AesInit E (ci_devid E) (ci_wc ctx) in
           if ret1 \<noteq> WC_OK then (ret1, c1)
           else if ci_alg ctx = PSA_ALG_CTR
             then wc_AesCtrSetKey E d (ci_iv ctx) AES_ENCRYPTION c1
           else wc_AesSetKey E d (ci_iv ctx) (aes_key_direction (direction ctx) (ci_alg ctx)) c1))
     in (ret, ctx\<lparr>ci_wc := c\<rparr>))"

definition cipher_setup ::
    "('st, 'h) psa_env \<Rightarrow> 'c cipher_engine \<Rightarrow> cipher_dir \<Rightarrow> psa_key_usage_t \<Rightarrow>
     'c psa_cipher_operation_t option \<Rightarrow> psa_key_id_t \<Rightarrow> psa_algorithm_t \<Rightarrow> 'st key_store \<Rightarrow>
     psa_status \<times> 'c psa_cipher_operation_t option \<times> 'st key_store" where
  "cipher_setup env E dir want op key a s =
    (if op = None then (PSA_ERROR_INVALID_ARGUMENT, op, s)
     else if op \<noteq> Some None then (PSA_ERROR_BAD_STATE, op, s)
     else if wolfpsa_cipher_check_alg a \<noteq> PSA_SUCCESS then (wolfpsa_cipher_check_alg a, op, s)
     else
       (case wolfpsa_cipher_check_key env key want a s of
          (Inl status, s1) \<Rightarrow> (status, op, s1)
        | (Inr (attrs, d), s1) \<Rightarrow>
            (let (ok, s2) = s_xmalloc s1 in
             if \<not> ok then (PSA_ERROR_INSUFFICIENT_MEMORY, op, s2)
             else if wolfpsa_check_word32_length (length d) \<noteq> PSA_SUCCESS
               then (PSA_ERROR_INVALID_ARGUMENT, op, s2)
             else
               (case cipher_start E d (cipher_new_ctx E dir a attrs) of
                  (ret, ctx) \<Rightarrow>
                    if ret \<noteq> WC_OK then (wc_error_to_psa_status ret, op, s2)
                    else (PSA_SUCCESS, Some (Some ctx), s2)))))"

definition psa_cipher_encrypt_setup where
  "psa_cipher_encrypt_setup env E op key a s =
    cipher_setup env E AES_ENCRYPTION PSA_KEY_USAGE_ENCRYPT op key a s"

definition psa_cipher_decrypt_setup where
  "psa_cipher_decrypt_setup env E op key a s =
    cipher_setup env E AES_DECRYPTION PSA_KEY_USAGE_DECRYPT op key a s"

section \<open>The IV\<close>

text \<open>The counter block that AES-CCM* without a tag starts from.\<close>

definition ccm_star_counter :: "byte list \<Rightarrow> byte list" where
  "ccm_star_counter iv = [0x01] @ take 13 iv @ [0x00, 0x01]"

definition cipher_load_iv ::
    "'c cipher_engine \<Rightarrow> 'c wolfpsa_cipher_ctx \<Rightarrow> byte list \<Rightarrow> psa_status \<times> 'c wolfpsa_cipher_ctx" where
  "cipher_load_iv E ctx iv =
    (if ci_alg ctx = PSA_ALG_STREAM_CIPHER then
       (if length iv \<noteq> WOLFPSA_CHACHA20_IV_BYTES then (PSA_ERROR_INVALID_ARGUMENT, ctx)
        else (let (ret, c) = wc_Chacha_SetIV E iv 0 (ci_wc ctx)
              in (wc_error_to_psa_status ret, ctx\<lparr>ci_wc := c\<rparr>)))
     else if ci_alg ctx = PSA_ALG_CCM_STAR_NO_TAG then
       (if length iv \<noteq> 13 then (PSA_ERROR_INVALID_ARGUMENT, ctx)
        else (let (ret, c) = wc_AesSetIV E (ccm_star_counter iv) (ci_wc ctx)
              in (wc_error_to_psa_status ret, ctx\<lparr>ci_iv := ccm_star_counter iv, ci_wc := c\<rparr>)))
     else
       (let expected_len = wolfpsa_cipher_block_size (ci_key_type ctx) in
        if length iv \<noteq> expected_len then (PSA_ERROR_INVALID_ARGUMENT, ctx)
        else
          (let niv = iv @ drop expected_len (ci_iv ctx);
               (ret, c) = (if is_des3 ctx then wc_Des3_SetIV E niv (ci_wc ctx)
                           else wc_AesSetIV E niv (ci_wc ctx))
           in (wc_error_to_psa_status ret, ctx\<lparr>ci_iv := niv, ci_wc := c\<rparr>))))"

definition wolfpsa_cipher_set_iv ::
    "'c cipher_engine \<Rightarrow> 'c psa_cipher_operation_t option \<Rightarrow> inbuf \<Rightarrow>
     psa_status \<times> 'c psa_cipher_operation_t option" where
  "wolfpsa_cipher_set_iv E op iv =
    (case wolfpsa_cipher_get_ctx op of
       None \<Rightarrow> (PSA_ERROR_BAD_STATE, op)
     | Some ctx \<Rightarrow>
         if iv_attempted ctx then (PSA_ERROR_BAD_STATE, op)
         else
           (let ctx1 = ctx\<lparr>iv_attempted := True\<rparr> in
            if wolfpsa_cipher_iv_length (ci_alg ctx) (ci_key_type ctx) = 0
              then (PSA_ERROR_BAD_STATE, Some (Some ctx1))
            else if in_null iv then (PSA_ERROR_INVALID_ARGUMENT, Some (Some ctx1))
            else
              (case cipher_load_iv E ctx1 (in_bytes iv) of
                 (status, ctx2) \<Rightarrow>
                   if status \<noteq> PSA_SUCCESS then (status, Some (Some ctx2))
                   else (PSA_SUCCESS, Some (Some (ctx2\<lparr>iv_set := True\<rparr>))))))"

definition psa_cipher_set_iv ::
    "'c cipher_engine \<Rightarrow> 'c psa_cipher_operation_t option \<Rightarrow> inbuf \<Rightarrow>
     psa_status \<times> 'c psa_cipher_operation_t option" where
  "psa_cipher_set_iv E op iv =
    (case wolfpsa_cipher_set_iv E op iv of
       (status, op1) \<Rightarrow>
         if status \<noteq> PSA_SUCCESS then wolfpsa_cipher_fail op1 status else (status, op1))"

text \<open>The status, the IV written, \<open>*iv_length\<close>, the operation and the key store.\<close>

definition wolfpsa_cipher_generate_iv ::
    "('st, 'h) psa_env \<Rightarrow> 'c cipher_engine \<Rightarrow> 'c psa_cipher_operation_t option \<Rightarrow> outbuf \<Rightarrow>
     nat option \<Rightarrow> 'st key_store \<Rightarrow>
     psa_status \<times> byte list \<times> nat option \<times> 'c psa_cipher_operation_t option \<times> 'st key_store" where
  "wolfpsa_cipher_generate_iv env E op iv len0 s =
    (let len = wolfpsa_clear_length len0 in
     case wolfpsa_cipher_get_ctx op of
       None \<Rightarrow> (PSA_ERROR_BAD_STATE, [], len, op, s)
     | Some ctx \<Rightarrow>
         if iv_attempted ctx then (PSA_ERROR_BAD_STATE, [], len, op, s)
         else if direction ctx \<noteq> AES_ENCRYPTION then (PSA_ERROR_BAD_STATE, [], len, op, s)
         else
           (let expected_len = wolfpsa_cipher_iv_length (ci_alg ctx) (ci_key_type ctx) in
            if expected_len = 0 then (PSA_ERROR_BAD_STATE, [], len, op, s)
            else if len = None \<or> out_null iv \<and> out_size iv \<noteq> 0
              then (PSA_ERROR_INVALID_ARGUMENT, [], len, op, s)
            else if out_size iv < expected_len then (PSA_ERROR_BUFFER_TOO_SMALL, [], len, op, s)
            else
              (case psa_generate_random env (Out expected_len) s of
                 (status, r, s1) \<Rightarrow>
                   if status \<noteq> PSA_SUCCESS then (status, r, len, op, s1)
                   else
                     (case wolfpsa_cipher_set_iv E op (In r) of
                        (status2, op2) \<Rightarrow>
                          if status2 \<noteq> PSA_SUCCESS then (status2, r, len, op2, s1)
                          else (PSA_SUCCESS, r, Some expected_len, op2, s1)))))"

definition psa_cipher_generate_iv where
  "psa_cipher_generate_iv env E op iv len0 s =
    (case wolfpsa_cipher_generate_iv env E op iv len0 s of
       (status, r, len, op1, s1) \<Rightarrow>
         if status \<noteq> PSA_SUCCESS
         then (case wolfpsa_cipher_fail op1 status of (st, op2) \<Rightarrow> (st, r, len, op2, s1))
         else (status, r, len, op1, s1))"

section \<open>Update\<close>

text \<open>
  The range test of the overlap guards, on \<open>uintptr_t\<close> values: \<open>ia\<close> and \<open>oa\<close> are the addresses of
  the two buffers.
\<close>

definition ranges_overlap :: "u64 \<Rightarrow> inbuf \<Rightarrow> u64 \<Rightarrow> outbuf \<Rightarrow> bool" where
  "ranges_overlap ia input oa output \<longleftrightarrow>
    \<not> in_null input \<and> \<not> out_null output \<and> in_length input > 0 \<and> out_size output > 0 \<and>
    ia < oa + word_of_nat (out_size output) \<and> oa < ia + word_of_nat (in_length input)"

text \<open>
  The block modes. \<open>cipher_first_block\<close> completes the buffered block with the first bytes of the
  input and tells how many it used; \<open>cipher_whole_blocks\<close> is the call for the complete blocks
  that follow, skipped when there are none.
\<close>

definition cipher_first_block ::
    "'c cipher_engine \<Rightarrow> wc_cipher_op \<Rightarrow> 'c wolfpsa_cipher_ctx \<Rightarrow> byte list \<Rightarrow>
     psa_status + byte list \<times> nat \<times> 'c wolfpsa_cipher_ctx" where
  "cipher_first_block E p ctx inp =
    (if partial ctx \<noteq> [] then
       (let needed = block_size ctx - length (partial ctx);
            (ret, out, c) = wc_process E p (partial ctx @ take needed inp) (ci_wc ctx)
        in if ret \<noteq> WC_OK then Inl (wc_error_to_psa_status ret)
           else Inr (out, needed, ctx\<lparr>partial := [], ci_wc := c\<rparr>))
     else Inr ([], 0, ctx))"

definition cipher_whole_blocks ::
    "'c cipher_engine \<Rightarrow> wc_cipher_op \<Rightarrow> 'c wolfpsa_cipher_ctx \<Rightarrow> byte list \<Rightarrow>
     psa_status + byte list \<times> 'c wolfpsa_cipher_ctx" where
  "cipher_whole_blocks E p ctx inp =
    (if inp \<noteq> [] then
       (let (ret, out, c) = wc_process E p inp (ci_wc ctx)
        in if ret \<noteq> WC_OK then Inl (wc_error_to_psa_status ret) else Inr (out, ctx\<lparr>ci_wc := c\<rparr>))
     else Inr ([], ctx))"

text \<open>CBC without padding, CBC encryption with padding, and ECB: every complete block goes out.\<close>

definition cipher_block_update ::
    "'c cipher_engine \<Rightarrow> wc_cipher_op \<Rightarrow> 'c wolfpsa_cipher_ctx \<Rightarrow> byte list \<Rightarrow> nat \<Rightarrow>
     psa_status + byte list \<times> nat \<times> 'c wolfpsa_cipher_ctx" where
  "cipher_block_update E p ctx inp cap =
    (let bs = block_size ctx;
         blocks = (length (partial ctx) + length inp) div bs
     in if cap < blocks * bs then Inl PSA_ERROR_BUFFER_TOO_SMALL
        else if blocks = 0 then Inr ([], 0, ctx\<lparr>partial := partial ctx @ inp\<rparr>)
        else
          (case cipher_first_block E p ctx inp of
             Inl e \<Rightarrow> Inl e
           | Inr (out1, input_offset, ctx1) \<Rightarrow>
               (let output_offset = (if partial ctx \<noteq> [] then bs else 0);
                    rest = drop input_offset inp;
                    full = (length rest div bs) * bs
                in case cipher_whole_blocks E p ctx1 (take full rest) of
                     Inl e \<Rightarrow> Inl e
                   | Inr (out2, ctx2) \<Rightarrow>
                       Inr (out1 @ out2, output_offset + full,
                            if drop full rest \<noteq> [] then ctx2\<lparr>partial := drop full rest\<rparr> else ctx2))))"

text \<open>CBC decryption with padding: the last complete block is kept back.\<close>

definition cipher_pkcs7_dec_update ::
    "'c cipher_engine \<Rightarrow> wc_cipher_op \<Rightarrow> 'c wolfpsa_cipher_ctx \<Rightarrow> byte list \<Rightarrow> nat \<Rightarrow>
     psa_status + byte list \<times> nat \<times> 'c wolfpsa_cipher_ctx" where
  "cipher_pkcs7_dec_update E p ctx inp cap =
    (let bs = block_size ctx;
         total = length (partial ctx) + length inp;
         process_len = ((total - 1) div bs) * bs
     in if total < bs then Inr ([], 0, ctx\<lparr>partial := partial ctx @ inp\<rparr>)
        else if process_len = 0 then Inr ([], 0, ctx\<lparr>partial := partial ctx @ inp\<rparr>)
        else if cap < process_len then Inl PSA_ERROR_BUFFER_TOO_SMALL
        else
          (case cipher_first_block E p ctx inp of
             Inl e \<Rightarrow> Inl e
           | Inr (out1, input_offset, ctx1) \<Rightarrow>
               (let output_offset = (if partial ctx \<noteq> [] then bs else 0);
                    full = process_len - output_offset
                in case cipher_whole_blocks E p ctx1 (take full (drop input_offset inp)) of
                     Inl e \<Rightarrow> Inl e
                   | Inr (out2, ctx2) \<Rightarrow>
                       (let used = input_offset + full in
                        Inr (out1 @ out2, output_offset + full,
                             if length inp \<ge> used + bs
                               then ctx2\<lparr>partial := take bs (drop used inp)\<rparr>
                             else if length inp > used then ctx2\<lparr>partial := drop used inp\<rparr>
                             else ctx2)))))"

definition cipher_stream_update ::
    "'c cipher_engine \<Rightarrow> wc_cipher_op \<Rightarrow> 'c wolfpsa_cipher_ctx \<Rightarrow> byte list \<Rightarrow> nat \<Rightarrow>
     psa_status + byte list \<times> nat \<times> 'c wolfpsa_cipher_ctx" where
  "cipher_stream_update E p ctx inp cap =
    (if cap < length inp then Inl PSA_ERROR_BUFFER_TOO_SMALL
     else
       (let (ret, out, c) = wc_process E p inp (ci_wc ctx)
        in if ret \<noteq> WC_OK then Inl (wc_error_to_psa_status ret)
           else Inr (out, length inp, ctx\<lparr>ci_wc := c\<rparr>)))"

definition cbc_op :: "'c wolfpsa_cipher_ctx \<Rightarrow> wc_cipher_op" where
  "cbc_op ctx = (if is_des3 ctx then Wc_Des3_Cbc (direction ctx) else Wc_Aes_Cbc (direction ctx))"

definition ecb_op :: "'c wolfpsa_cipher_ctx \<Rightarrow> wc_cipher_op" where
  "ecb_op ctx = (if is_des3 ctx then Wc_Des3_Ecb (direction ctx) else Wc_Aes_Ecb (direction ctx))"

text \<open>The dispatch on the algorithm, for a nonempty input.\<close>

definition cipher_update_alg ::
    "'c cipher_engine \<Rightarrow> 'c wolfpsa_cipher_ctx \<Rightarrow> byte list \<Rightarrow> nat \<Rightarrow>
     psa_status + byte list \<times> nat \<times> 'c wolfpsa_cipher_ctx" where
  "cipher_update_alg E ctx inp cap =
    (let a = ci_alg ctx in
     if a = PSA_ALG_CBC_NO_PADDING then
       (if \<not> iv_set ctx then Inl PSA_ERROR_BAD_STATE else cipher_block_update E (cbc_op ctx) ctx inp cap)
     else if a = PSA_ALG_CBC_PKCS7 then
       (if \<not> iv_set ctx then Inl PSA_ERROR_BAD_STATE
        else if direction ctx = AES_ENCRYPTION then cipher_block_update E (cbc_op ctx) ctx inp cap
        else cipher_pkcs7_dec_update E (cbc_op ctx) ctx inp cap)
     else if a = PSA_ALG_ECB_NO_PADDING then cipher_block_update E (ecb_op ctx) ctx inp cap
     else if a \<notin> {PSA_ALG_CCM_STAR_NO_TAG, PSA_ALG_CTR, PSA_ALG_CFB, PSA_ALG_OFB, PSA_ALG_STREAM_CIPHER}
       then Inl PSA_ERROR_NOT_SUPPORTED
     else if \<not> iv_set ctx then Inl PSA_ERROR_BAD_STATE
     else cipher_stream_update E
       (if a = PSA_ALG_CFB then Wc_Aes_Cfb (direction ctx)
        else if a = PSA_ALG_OFB then Wc_Aes_Ofb (direction ctx)
        else if a = PSA_ALG_STREAM_CIPHER then Wc_Chacha_Process
        else Wc_Aes_Ctr) ctx inp cap)"

text \<open>The status, the bytes written, \<open>*output_length\<close> (\<open>None\<close> for a NULL pointer) and the operation.\<close>

definition psa_cipher_update ::
    "'c cipher_engine \<Rightarrow> 'c psa_cipher_operation_t option \<Rightarrow> u64 \<Rightarrow> inbuf \<Rightarrow> u64 \<Rightarrow> outbuf \<Rightarrow> nat option \<Rightarrow>
     psa_status \<times> byte list \<times> nat option \<times> 'c psa_cipher_operation_t option" where
  "psa_cipher_update E op ia input oa output len0 =
    (let len = wolfpsa_clear_length len0;
         failed = (\<lambda>status. case wolfpsa_cipher_fail op status of (st, op1) \<Rightarrow> (st, [], len, op1))
     in if len0 = None then failed PSA_ERROR_INVALID_ARGUMENT
        else
          (case wolfpsa_cipher_get_ctx op of
             None \<Rightarrow> failed PSA_ERROR_BAD_STATE
           | Some ctx \<Rightarrow>
               if in_null input \<and> in_length input > 0 then failed PSA_ERROR_INVALID_ARGUMENT
               else if out_null output \<and> out_size output > 0 then failed PSA_ERROR_INVALID_ARGUMENT
               else if wolfpsa_check_word32_length (in_length input) \<noteq> PSA_SUCCESS
                 then failed PSA_ERROR_INVALID_ARGUMENT
               else if ci_alg ctx \<in> {PSA_ALG_CBC_NO_PADDING, PSA_ALG_CBC_PKCS7, PSA_ALG_ECB_NO_PADDING} \<and>
                       ranges_overlap ia input oa output
                 then failed PSA_ERROR_NOT_SUPPORTED
               else if in_length input = 0 then (PSA_SUCCESS, [], len, op)
               else
                 (case cipher_update_alg E ctx (in_bytes input) (out_size output) of
                    Inl e \<Rightarrow> failed e
                  | Inr (out, n, ctx1) \<Rightarrow> (PSA_SUCCESS, out, Some n, Some (Some ctx1)))))"

section \<open>Finish\<close>

text \<open>
  The constant-time padding check: masks are \<open>0xff\<close> or \<open>0\<close>, as wolfCrypt's \<open>ctMaskEq\<close>,
  \<open>ctMaskGT\<close> and \<open>ctMaskLT\<close> return them.
\<close>

definition ct_mask :: "bool \<Rightarrow> byte" where
  "ct_mask b = (if b then 0xff else 0)"

definition pkcs7_invalid :: "byte list \<Rightarrow> nat \<Rightarrow> byte" where
  "pkcs7_invalid block bs =
    (let pad = block ! (bs - 1); pad_len = unat pad
     in fold (\<lambda>i invalid. invalid OR (ct_mask (i < pad_len) AND (block ! (bs - 1 - i) XOR pad))) [0..<bs]
          (ct_mask (pad_len = 0) OR ct_mask (pad_len > bs)))"

definition cipher_finish_pkcs7_enc ::
    "'c cipher_engine \<Rightarrow> 'c wolfpsa_cipher_ctx \<Rightarrow> nat \<Rightarrow> psa_status + byte list \<times> nat" where
  "cipher_finish_pkcs7_enc E ctx cap =
    (let bs = block_size ctx; pad_len = bs - length (partial ctx) in
     if length (partial ctx) \<ge> bs then Inl PSA_ERROR_BAD_STATE
     else if cap < bs then Inl PSA_ERROR_BUFFER_TOO_SMALL
     else
       (case wc_process E (if is_des3 ctx then Wc_Des3_Cbc AES_ENCRYPTION else Wc_Aes_Cbc AES_ENCRYPTION)
               (partial ctx @ replicate pad_len (word_of_nat pad_len)) (ci_wc ctx) of
          (ret, out, c) \<Rightarrow>
            if ret \<noteq> WC_OK then Inl (wc_error_to_psa_status ret) else Inr (out, bs)))"

definition cipher_finish_pkcs7_dec ::
    "'c cipher_engine \<Rightarrow> 'c wolfpsa_cipher_ctx \<Rightarrow> nat \<Rightarrow> psa_status + byte list \<times> nat" where
  "cipher_finish_pkcs7_dec E ctx cap =
    (let bs = block_size ctx in
     if length (partial ctx) \<noteq> bs then Inl PSA_ERROR_INVALID_PADDING
     else
       (case wc_process E (if is_des3 ctx then Wc_Des3_Cbc AES_DECRYPTION else Wc_Aes_Cbc AES_DECRYPTION)
               (partial ctx) (ci_wc ctx) of
          (ret, block, c) \<Rightarrow>
            if ret \<noteq> WC_OK then Inl (wc_error_to_psa_status ret)
            else if pkcs7_invalid block bs \<noteq> 0 then Inl PSA_ERROR_INVALID_PADDING
            else
              (let plain_len = bs - unat (block ! (bs - 1)) in
               if cap < plain_len then Inl PSA_ERROR_BUFFER_TOO_SMALL
               else Inr (take plain_len block, plain_len))))"

definition psa_cipher_finish ::
    "'c cipher_engine \<Rightarrow> 'c psa_cipher_operation_t option \<Rightarrow> outbuf \<Rightarrow> nat option \<Rightarrow>
     psa_status \<times> byte list \<times> nat option \<times> 'c psa_cipher_operation_t option" where
  "psa_cipher_finish E op output len0 =
    (let len = wolfpsa_clear_length len0;
         failed = (\<lambda>status. case wolfpsa_cipher_fail op status of (st, op1) \<Rightarrow> (st, [], len, op1))
     in if op = None \<or> len0 = None then failed PSA_ERROR_INVALID_ARGUMENT
        else
          (case wolfpsa_cipher_get_ctx op of
             None \<Rightarrow> failed PSA_ERROR_BAD_STATE
           | Some ctx \<Rightarrow>
               if out_null output \<and> out_size output > 0 then failed PSA_ERROR_INVALID_ARGUMENT
               else if ci_alg ctx = PSA_ALG_CBC_PKCS7 then
                 (if \<not> iv_set ctx then failed PSA_ERROR_BAD_STATE
                  else
                    (case (if direction ctx = AES_ENCRYPTION
                           then cipher_finish_pkcs7_enc E ctx (out_size output)
                           else cipher_finish_pkcs7_dec E ctx (out_size output)) of
                       Inl e \<Rightarrow> failed e
                     | Inr (out, n) \<Rightarrow> (PSA_SUCCESS, out, Some n, snd (psa_cipher_abort op))))
               else if ci_alg ctx \<in> {PSA_ALG_CBC_NO_PADDING, PSA_ALG_ECB_NO_PADDING} \<and> partial ctx \<noteq> []
                 then failed PSA_ERROR_INVALID_ARGUMENT
               else (PSA_SUCCESS, [], len, snd (psa_cipher_abort op))))"

section \<open>One-shot calls\<close>

text \<open>Advancing a buffer pointer; a NULL pointer with length 0 is passed through.\<close>

fun out_shift :: "nat \<Rightarrow> outbuf \<Rightarrow> outbuf" where
  "out_shift n (NullOut c) = NullOut (c - n)"
| "out_shift n (Out c) = Out (c - n)"

fun in_shift :: "nat \<Rightarrow> inbuf \<Rightarrow> inbuf" where
  "in_shift n (NullIn c) = NullIn (c - n)"
| "in_shift n (In bs) = In (drop n bs)"

definition psa_cipher_encrypt ::
    "('st, 'h) psa_env \<Rightarrow> 'c cipher_engine \<Rightarrow> psa_key_id_t \<Rightarrow> psa_algorithm_t \<Rightarrow> u64 \<Rightarrow> inbuf \<Rightarrow>
     u64 \<Rightarrow> outbuf \<Rightarrow> nat option \<Rightarrow> 'st key_store \<Rightarrow> psa_status \<times> byte list \<times> nat option \<times> 'st key_store" where
  "psa_cipher_encrypt env E key a ia input oa output len0 s =
    (let len = wolfpsa_clear_length len0 in
     if len0 = None then (PSA_ERROR_INVALID_ARGUMENT, [], len, s)
     else if out_null output \<and> out_size output > 0 then (PSA_ERROR_INVALID_ARGUMENT, [], len, s)
     else if ranges_overlap ia input oa output then (PSA_ERROR_NOT_SUPPORTED, [], len, s)
     else
       (case psa_cipher_encrypt_setup env E (Some None) key a s of
          (status, op, s1) \<Rightarrow>
            if status \<noteq> PSA_SUCCESS then (status, [], len, s1)
            else
              (case wolfpsa_cipher_get_ctx op of
                 None \<Rightarrow> (PSA_ERROR_BAD_STATE, [], len, s1)
               | Some ctx \<Rightarrow>
                   (let iv_len = wolfpsa_cipher_iv_length a (ci_key_type ctx) in
                    if iv_len \<noteq> 0 \<and> out_size output < iv_len
                      then (PSA_ERROR_BUFFER_TOO_SMALL, [], len, s1)
                    else
                      (case (if iv_len \<noteq> 0
                             then psa_cipher_generate_iv env E op (Out AES_BLOCK_SIZE) (Some iv_len) s1
                             else (PSA_SUCCESS, [], Some 0, op, s1)) of
                         (status2, iv, ivl, op2, s2) \<Rightarrow>
                           if status2 \<noteq> PSA_SUCCESS then (status2, [], len, s2)
                           else
                             (let offset = (case ivl of None \<Rightarrow> 0 | Some n \<Rightarrow> n) in
                              case psa_cipher_update E op2 ia input (oa + word_of_nat offset)
                                     (out_shift offset output) (Some 0) of
                                (status3, out, outl, op3) \<Rightarrow>
                                  if status3 \<noteq> PSA_SUCCESS then (status3, iv, len, s2)
                                  else
                                    (let out_len = (case outl of None \<Rightarrow> 0 | Some n \<Rightarrow> n) in
                                     case psa_cipher_finish E op3 (out_shift (offset + out_len) output) (Some 0) of
                                       (status4, fin, finl, op4) \<Rightarrow>
                                         if status4 \<noteq> PSA_SUCCESS then (status4, iv @ out, len, s2)
                                         else
                                           (let finish_len = (case finl of None \<Rightarrow> 0 | Some n \<Rightarrow> n) in
                                            (PSA_SUCCESS, iv @ out @ fin,
                                             Some (offset + out_len + finish_len), s2)))))))))"

definition psa_cipher_decrypt ::
    "('st, 'h) psa_env \<Rightarrow> 'c cipher_engine \<Rightarrow> psa_key_id_t \<Rightarrow> psa_algorithm_t \<Rightarrow> u64 \<Rightarrow> inbuf \<Rightarrow>
     u64 \<Rightarrow> outbuf \<Rightarrow> nat option \<Rightarrow> 'st key_store \<Rightarrow> psa_status \<times> byte list \<times> nat option \<times> 'st key_store" where
  "psa_cipher_decrypt env E key a ia input oa output len0 s =
    (let len = wolfpsa_clear_length len0 in
     if len0 = None then (PSA_ERROR_INVALID_ARGUMENT, [], len, s)
     else if out_null output \<and> out_size output > 0 then (PSA_ERROR_INVALID_ARGUMENT, [], len, s)
     else if in_null input \<and> in_length input > 0 then (PSA_ERROR_INVALID_ARGUMENT, [], len, s)
     else if ranges_overlap ia input oa output then (PSA_ERROR_NOT_SUPPORTED, [], len, s)
     else
       (case psa_cipher_decrypt_setup env E (Some None) key a s of
          (status, op, s1) \<Rightarrow>
            if status \<noteq> PSA_SUCCESS then (status, [], len, s1)
            else
              (case wolfpsa_cipher_get_ctx op of
                 None \<Rightarrow> (PSA_ERROR_BAD_STATE, [], len, s1)
               | Some ctx \<Rightarrow>
                   (let iv_len = wolfpsa_cipher_iv_length a (ci_key_type ctx) in
                    if iv_len \<noteq> 0 \<and> in_length input < iv_len
                      then (PSA_ERROR_INVALID_ARGUMENT, [], len, s1)
                    else
                      (case (if iv_len \<noteq> 0
                             then psa_cipher_set_iv E op (In (take iv_len (in_bytes input)))
                             else (PSA_SUCCESS, op)) of
                         (status2, op2) \<Rightarrow>
                           if status2 \<noteq> PSA_SUCCESS then (status2, [], len, s1)
                           else
                             (case psa_cipher_update E op2 (ia + word_of_nat iv_len) (in_shift iv_len input)
                                     oa output (Some 0) of
                                (status3, out, outl, op3) \<Rightarrow>
                                  if status3 \<noteq> PSA_SUCCESS then (status3, [], len, s1)
                                  else
                                    (let out_len = (case outl of None \<Rightarrow> 0 | Some n \<Rightarrow> n) in
                                     case psa_cipher_finish E op3 (out_shift out_len output) (Some 0) of
                                       (status4, fin, finl, op4) \<Rightarrow>
                                         if status4 \<noteq> PSA_SUCCESS then (status4, out, len, s1)
                                         else
                                           (let finish_len = (case finl of None \<Rightarrow> 0 | Some n \<Rightarrow> n) in
                                            (PSA_SUCCESS, out @ fin, Some (out_len + finish_len), s1)))))))))"

section \<open>Padding\<close>

lemma ct_mask_zero [simp]: "ct_mask b = 0 \<longleftrightarrow> \<not> b"
  by (simp add: ct_mask_def)

lemma ct_mask_and [simp]: "ct_mask b AND x = 0 \<longleftrightarrow> (b \<longrightarrow> x = 0)"
proof -
  have m: "(0xff :: byte) = - 1" by simp
  have "0xff AND x = x" by (simp only: m and.left_neutral)
  then show ?thesis by (simp add: ct_mask_def)
qed

text \<open>The constant-time check accepts exactly the blocks that end in \<open>n\<close> bytes of value \<open>n\<close>.\<close>

lemma pkcs7_invalid_iff:
  assumes "length block = bs" and "0 < bs"
  shows "pkcs7_invalid block bs = 0 \<longleftrightarrow>
    (let n = unat (last block) in 1 \<le> n \<and> n \<le> bs \<and> drop (bs - n) block = replicate n (last block))"
proof -
  have ne: "block \<noteq> []" using assms by auto
  then have l: "block ! (bs - Suc 0) = last block" using assms by (simp add: last_conv_nth)
  let ?n = "unat (last block)"
  have eq: "(\<forall>i \<in> set [0..<bs]. i < ?n \<longrightarrow> block ! (bs - 1 - i) = last block) \<longleftrightarrow>
      drop (bs - ?n) block = replicate ?n (last block)" if "?n \<le> bs"
  proof
    assume h: "\<forall>i \<in> set [0..<bs]. i < ?n \<longrightarrow> block ! (bs - 1 - i) = last block"
    show "drop (bs - ?n) block = replicate ?n (last block)"
    proof (rule nth_equalityI)
      show "length (drop (bs - ?n) block) = length (replicate ?n (last block))" using that assms by simp
    next
      fix j assume j: "j < length (drop (bs - ?n) block)"
      then have jn: "j < ?n" using that assms by simp
      have i: "?n - 1 - j < ?n" "?n - 1 - j < bs" using jn that by simp_all
      have "bs - 1 - (?n - 1 - j) = bs - ?n + j" using jn that by simp
      moreover have "block ! (bs - 1 - (?n - 1 - j)) = last block" using h i by simp
      ultimately show "drop (bs - ?n) block ! j = replicate ?n (last block) ! j"
        using jn that assms by simp
    qed
  next
    assume d: "drop (bs - ?n) block = replicate ?n (last block)"
    show "\<forall>i \<in> set [0..<bs]. i < ?n \<longrightarrow> block ! (bs - 1 - i) = last block"
    proof (intro ballI impI)
      fix i assume i: "i < ?n"
      have "drop (bs - ?n) block ! (?n - 1 - i) = last block" unfolding d using i by simp
      moreover have "bs - ?n + (?n - 1 - i) = bs - 1 - i" using i that by simp
      ultimately show "block ! (bs - 1 - i) = last block" using that assms by (simp add: nth_drop)
    qed
  qed
  show ?thesis
  proof (cases "1 \<le> ?n \<and> ?n \<le> bs")
    case True
    then show ?thesis
      using eq by (simp add: pkcs7_invalid_def Let_def l fold_or_zero or_eq_0_iff xor_zero_iff)
  next
    case False
    then show ?thesis by (auto simp: pkcs7_invalid_def Let_def l fold_or_zero or_eq_0_iff)
  qed
qed

definition pkcs7_pad :: "nat \<Rightarrow> byte list \<Rightarrow> byte list" where
  "pkcs7_pad bs x = x @ replicate (bs - length x) (word_of_nat (bs - length x))"

lemma pkcs7_pad_valid:
  assumes "length x < bs" and "bs \<le> 16"
  shows "length (pkcs7_pad bs x) = bs" "pkcs7_invalid (pkcs7_pad bs x) bs = 0"
    "take (bs - unat (pkcs7_pad bs x ! (bs - 1))) (pkcs7_pad bs x) = x"
    "bs - unat (pkcs7_pad bs x ! (bs - 1)) = length x"
proof -
  obtain n where n: "bs = length x + n" "0 < n" "n \<le> 16" using assms by (metis add_leD2 less_imp_add_positive)
  let ?b = "pkcs7_pad bs x"
  have b: "?b = x @ replicate n (word_of_nat n)" using n by (simp add: pkcs7_pad_def)
  show len: "length ?b = bs" using n b by simp
  have u: "unat (word_of_nat n :: byte) = n" using n by (simp add: unat_of_nat)
  have l: "last ?b = word_of_nat n" using n b by simp
  have "?b \<noteq> []" using len assms by auto
  then have l1: "?b ! (bs - 1) = word_of_nat n" using l len by (simp add: last_conv_nth)
  show "pkcs7_invalid ?b bs = 0"
    unfolding pkcs7_invalid_iff [OF len order_le_less_trans [OF le0 assms(1)]] Let_def l u
    using b n by simp
  show "bs - unat (?b ! (bs - 1)) = length x" using l1 u n by simp
  then show "take (bs - unat (?b ! (bs - 1))) ?b = x" by (simp only:) (simp add: b)
qed

section \<open>Cutting the data differently\<close>

text \<open>
  What the code relies on of wolfCrypt here: the output is as long as the input, and a call on
  whole units continues where the previous call stopped. A unit is the block of a block mode
  and a byte of a stream mode.
\<close>

fun op_unit :: "wc_cipher_op \<Rightarrow> nat" where
  "op_unit (Wc_Des3_Cbc d) = 8"
| "op_unit (Wc_Des3_Ecb d) = 8"
| "op_unit (Wc_Aes_Cbc d) = 16"
| "op_unit (Wc_Aes_Ecb d) = 16"
| "op_unit p = 1"

definition cipher_chains :: "'c cipher_engine \<Rightarrow> bool" where
  "cipher_chains E \<longleftrightarrow>
    (\<forall>p x c out c'. wc_process E p x c = (WC_OK, out, c') \<longrightarrow> length out = length x) \<and>
    (\<forall>p x y c o1 c1 o2 c2. op_unit p dvd length x \<and> wc_process E p x c = (WC_OK, o1, c1) \<and>
       wc_process E p y c1 = (WC_OK, o2, c2) \<longrightarrow> wc_process E p (x @ y) c = (WC_OK, o1 @ o2, c2))"

text \<open>\<open>proc E p x c out c'\<close>: transforming \<open>x\<close>, where no call is made for nothing.\<close>

definition proc ::
    "'c cipher_engine \<Rightarrow> wc_cipher_op \<Rightarrow> byte list \<Rightarrow> 'c \<Rightarrow> byte list \<Rightarrow> 'c \<Rightarrow> bool" where
  "proc E p x c out c' \<longleftrightarrow>
    (if x = [] then out = [] \<and> c' = c else wc_process E p x c = (WC_OK, out, c'))"

lemma proc_nil [simp]: "proc E p [] c out c' \<longleftrightarrow> out = [] \<and> c' = c"
  by (simp add: proc_def)

lemma proc_append:
  assumes "cipher_chains E" and "op_unit p dvd length x" and "proc E p x c o1 c1" and "proc E p y c1 o2 c2"
  shows "proc E p (x @ y) c (o1 @ o2) c2"
proof (cases "x = [] \<or> y = []")
  case True
  then show ?thesis using assms(3,4) by (auto simp: proc_def)
next
  case False
  then have "wc_process E p x c = (WC_OK, o1, c1)" "wc_process E p y c1 = (WC_OK, o2, c2)"
    using assms(3,4) by (simp_all add: proc_def)
  then have "wc_process E p (x @ y) c = (WC_OK, o1 @ o2, c2)"
    using assms(1,2) unfolding cipher_chains_def by meson
  with False show ?thesis by (simp add: proc_def)
qed

lemma proc_length: "cipher_chains E \<Longrightarrow> proc E p x c out c' \<Longrightarrow> length out = length x"
  unfolding cipher_chains_def proc_def by (metis list.size(3))

lemma proc_fun: "proc E p x c o1 c1 \<Longrightarrow> proc E p x c o2 c2 \<Longrightarrow> o1 = o2 \<and> c1 = c2"
  by (auto simp: proc_def split: if_splits)

lemma cipher_update_alg_Inl [simp]: "cipher_update_alg E ctx inp cap \<noteq> Inl PSA_SUCCESS"
proof -
  have f: "cipher_first_block E p c x \<noteq> Inl PSA_SUCCESS" for p c x
    by (auto simp: cipher_first_block_def Let_def split: prod.splits)
  have w: "cipher_whole_blocks E p c x \<noteq> Inl PSA_SUCCESS" for p c x
    by (auto simp: cipher_whole_blocks_def Let_def split: prod.splits)
  have "cipher_block_update E p c x k \<noteq> Inl PSA_SUCCESS" for p c x k
    using f w by (auto simp: cipher_block_update_def Let_def split: sum.splits)
  moreover have "cipher_pkcs7_dec_update E p c x k \<noteq> Inl PSA_SUCCESS" for p c x k
    using f w by (auto simp: cipher_pkcs7_dec_update_def Let_def split: sum.splits)
  moreover have "cipher_stream_update E p c x k \<noteq> Inl PSA_SUCCESS" for p c x k
    by (auto simp: cipher_stream_update_def Let_def split: prod.splits)
  ultimately show ?thesis by (simp add: cipher_update_alg_def Let_def)
qed

lemma cipher_first_block_proc:
  assumes "cipher_first_block E p ctx inp = Inr (out, n, ctx1)"
  shows "proc E p (if partial ctx = [] then [] else partial ctx @ take n inp) (ci_wc ctx) out (ci_wc ctx1) \<and>
    ctx1 = ctx\<lparr>partial := [], ci_wc := ci_wc ctx1\<rparr> \<and>
    n = (if partial ctx = [] then 0 else block_size ctx - length (partial ctx))"
  using assms
  by (auto simp: cipher_first_block_def proc_def Let_def split: if_splits prod.splits)

lemma cipher_whole_blocks_proc:
  assumes "cipher_whole_blocks E p ctx inp = Inr (out, ctx1)"
  shows "proc E p inp (ci_wc ctx) out (ci_wc ctx1) \<and> ctx1 = ctx\<lparr>ci_wc := ci_wc ctx1\<rparr>"
  using assms by (auto simp: cipher_whole_blocks_def proc_def Let_def split: if_splits prod.splits)

text \<open>
  \<open>cipher_done ctx n\<close> of the first \<open>n\<close> message bytes have been passed on to wolfCrypt by the
  operation; the others are in \<open>partial\<close>.
\<close>

definition cipher_done :: "'c wolfpsa_cipher_ctx \<Rightarrow> nat \<Rightarrow> nat" where
  "cipher_done ctx n =
    (if ci_alg ctx \<in> {PSA_ALG_CBC_NO_PADDING, PSA_ALG_ECB_NO_PADDING} \<or>
        ci_alg ctx = PSA_ALG_CBC_PKCS7 \<and> direction ctx = AES_ENCRYPTION
     then n div block_size ctx * block_size ctx
     else if ci_alg ctx = PSA_ALG_CBC_PKCS7 then (n - 1) div block_size ctx * block_size ctx
     else n)"

definition cipher_op_of :: "'c wolfpsa_cipher_ctx \<Rightarrow> wc_cipher_op" where
  "cipher_op_of ctx =
    (let a = ci_alg ctx in
     if a = PSA_ALG_CBC_NO_PADDING \<or> a = PSA_ALG_CBC_PKCS7 then cbc_op ctx
     else if a = PSA_ALG_ECB_NO_PADDING then ecb_op ctx
     else if a = PSA_ALG_CFB then Wc_Aes_Cfb (direction ctx)
     else if a = PSA_ALG_OFB then Wc_Aes_Ofb (direction ctx)
     else if a = PSA_ALG_STREAM_CIPHER then Wc_Chacha_Process
     else Wc_Aes_Ctr)"

definition cipher_ctx_ok :: "'c wolfpsa_cipher_ctx \<Rightarrow> bool" where
  "cipher_ctx_ok ctx \<longleftrightarrow> block_size ctx = (if is_des3 ctx then DES_BLOCK_SIZE else AES_BLOCK_SIZE)"

text \<open>The state of an operation that began in \<open>ctx0\<close> and has been given \<open>m\<close>, with output \<open>out\<close>.\<close>

definition cipher_state ::
    "'c cipher_engine \<Rightarrow> 'c wolfpsa_cipher_ctx \<Rightarrow> byte list \<Rightarrow> byte list \<Rightarrow> 'c wolfpsa_cipher_ctx \<Rightarrow> bool" where
  "cipher_state E ctx0 m out ctx \<longleftrightarrow>
    (let k = cipher_done ctx0 (length m) in
     proc E (cipher_op_of ctx0) (take k m) (ci_wc ctx0) out (ci_wc ctx) \<and>
     ctx = ctx0\<lparr>partial := drop k m, ci_wc := ci_wc ctx\<rparr>)"

lemma ctx_update_props [simp]:
  "cipher_done (ctx\<lparr>partial := x, ci_wc := c\<rparr>) = cipher_done ctx"
  "cipher_op_of (ctx\<lparr>partial := x, ci_wc := c\<rparr>) = cipher_op_of ctx"
  "cbc_op (ctx\<lparr>partial := x, ci_wc := c\<rparr>) = cbc_op ctx"
  "ecb_op (ctx\<lparr>partial := x, ci_wc := c\<rparr>) = ecb_op ctx"
  by (simp_all add: cipher_done_def cipher_op_of_def cbc_op_def ecb_op_def fun_eq_iff Let_def)

lemma cipher_done_le: "cipher_done ctx n \<le> n"
  by (auto simp: cipher_done_def intro: order_trans [OF div_times_less_eq_dividend])

lemma op_unit_block: "cipher_ctx_ok ctx \<Longrightarrow> op_unit (cbc_op ctx) = block_size ctx \<and>
    op_unit (ecb_op ctx) = block_size ctx"
  by (simp add: cipher_ctx_ok_def cbc_op_def ecb_op_def)

lemma cipher_done_dvd: "cipher_ctx_ok ctx \<Longrightarrow> op_unit (cipher_op_of ctx) dvd cipher_done ctx n"
  using op_unit_block [of ctx] by (auto simp: cipher_done_def cipher_op_of_def Let_def)

text \<open>
  One step of a block mode: \<open>r\<close> buffered bytes and \<open>inp\<close> new ones, of which the complete blocks
  up to \<open>j\<close> bytes go out.
\<close>

lemma blocks_step:
  assumes ch: "cipher_chains E" and u: "op_unit p dvd bs"
    and f: "cipher_first_block E p ctx inp = Inr (out1, off, ctx1)" and bs: "block_size ctx = bs"
    and w: "cipher_whole_blocks E p ctx1 (take (j - (if partial ctx \<noteq> [] then bs else 0)) (drop off inp)) =
      Inr (out2, ctx2)"
    and r: "length (partial ctx) \<le> bs" and j: "bs \<le> j" "j \<le> length (partial ctx @ inp)"
  shows "proc E p (take j (partial ctx @ inp)) (ci_wc ctx) (out1 @ out2) (ci_wc ctx2) \<and>
    ctx2 = ctx\<lparr>partial := [], ci_wc := ci_wc ctx2\<rparr> \<and>
    off + (j - (if partial ctx \<noteq> [] then bs else 0)) + length (partial ctx) = j"
proof -
  note F = cipher_first_block_proc [OF f] and W = cipher_whole_blocks_proc [OF w]
  have c2: "ctx2 = ctx\<lparr>partial := [], ci_wc := ci_wc ctx2\<rparr>"
    using F W by (metis wolfpsa_cipher_ctx.surjective wolfpsa_cipher_ctx.update_convs(11,12))
  show ?thesis
  proof (cases "partial ctx = []")
    case True
    then show ?thesis using F W c2 by simp
  next
    case False
    let ?x = "partial ctx @ take off inp"
    have off: "off = bs - length (partial ctx)" using F False bs by simp
    have lx: "length ?x = bs" using off r j by simp
    have "j - length (partial ctx) = off + (j - bs)" using off r j by simp
    moreover have "length (partial ctx) \<le> j" using r j by simp
    ultimately have "take j (partial ctx @ inp) = ?x @ take (j - bs) (drop off inp)"
      by (simp only: take_append take_all take_add append_assoc)
    moreover have "proc E p (?x @ take (j - bs) (drop off inp)) (ci_wc ctx) (out1 @ out2) (ci_wc ctx2)"
    proof (rule proc_append [OF ch])
      show "op_unit p dvd length ?x" using u lx by (simp only:)
      show "proc E p ?x (ci_wc ctx) out1 (ci_wc ctx1)" using conjunct1 [OF F] False by (simp only: if_False)
      show "proc E p (take (j - bs) (drop off inp)) (ci_wc ctx1) out2 (ci_wc ctx2)" using W False by simp
    qed
    ultimately show ?thesis using c2 off r j False by simp
  qed
qed

lemma div_mult_dvd:
  fixes bs :: nat
  assumes "0 < bs" and "bs dvd k"
  shows "(k + x) div bs * bs = k + x div bs * bs"
proof -
  obtain q where k: "k = q * bs" using assms(2) by (metis dvd_div_mult_self)
  have "(x + q * bs) div bs = q + x div bs" by (rule div_mult_self1) (use assms in simp)
  then show ?thesis unfolding k by (simp add: add.commute add_mult_distrib)
qed

lemma take_drop_append:
  assumes "k \<le> length m"
  shows "take k m @ take j (drop k m @ x) = take (k + j) (m @ x)"
    and "drop j (drop k m @ x) = drop (k + j) (m @ x)"
proof -
  have d: "drop k m @ x = drop k (m @ x)" "take k m = take k (m @ x)" using assms by simp_all
  show "take k m @ take j (drop k m @ x) = take (k + j) (m @ x)" by (simp only: d take_add)
  show "drop j (drop k m @ x) = drop (k + j) (m @ x)" by (simp only: d drop_drop add.commute)
qed

lemma block_update_state:
  assumes ch: "cipher_chains E" and u: "op_unit p = bs" and bs: "block_size ctx = bs" "0 < bs"
    and pl: "length (partial ctx) < bs"
    and up: "cipher_block_update E p ctx inp cap = Inr (out, n, ctx')"
  shows "let j = (length (partial ctx) + length inp) div bs * bs in
    proc E p (take j (partial ctx @ inp)) (ci_wc ctx) out (ci_wc ctx') \<and>
    ctx' = ctx\<lparr>partial := drop j (partial ctx @ inp), ci_wc := ci_wc ctx'\<rparr> \<and> n = j"
proof -
  let ?q = "(length (partial ctx) + length inp) div bs" let ?j = "?q * bs"
  show ?thesis
  proof (cases "?q = 0")
    case True
    then show ?thesis
      using up bs by (auto simp: cipher_block_update_def Let_def split: if_splits)
  next
    case False
    let ?o = "if partial ctx \<noteq> [] then bs else 0"
    have j: "bs \<le> ?j" "?j \<le> length (partial ctx @ inp)"
      using False div_times_less_eq_dividend [of "length (partial ctx) + length inp" bs] by (simp_all)
    obtain out1 off ctx1 where f: "cipher_first_block E p ctx inp = Inr (out1, off, ctx1)"
      using up False bs by (auto simp: cipher_block_update_def Let_def split: if_splits sum.splits)
    have off: "off = (if partial ctx = [] then 0 else bs - length (partial ctx))"
      using cipher_first_block_proc [OF f] bs by simp
    let ?full = "(length inp - off) div bs * bs"
    have full: "?full = ?j - ?o"
    proof (cases "partial ctx = []")
      case False
      have "bs \<le> length (partial ctx) + length inp" using order_trans [OF j] by simp
      then have "length (partial ctx) + length inp = (length inp - off) + bs" using off False pl by simp
      then have "?q = (length inp - off) div bs + 1" using bs(2) by (simp only:) (rule div_add_self2, simp)
      then show ?thesis using False by simp
    qed (use off in simp)
    obtain out2 ctx2 where w: "cipher_whole_blocks E p ctx1 (take ?full (drop off inp)) = Inr (out2, ctx2)"
      and res: "out = out1 @ out2" "n = ?o + ?full"
        "ctx' = (if drop ?full (drop off inp) \<noteq> [] then ctx2\<lparr>partial := drop ?full (drop off inp)\<rparr> else ctx2)"
      using up False bs f by (auto simp: cipher_block_update_def Let_def split: if_splits sum.splits)
    have S: "proc E p (take ?j (partial ctx @ inp)) (ci_wc ctx) (out1 @ out2) (ci_wc ctx2) \<and>
        ctx2 = ctx\<lparr>partial := [], ci_wc := ci_wc ctx2\<rparr> \<and> off + (?j - ?o) + length (partial ctx) = ?j"
      by (rule blocks_step [OF ch _ f bs(1) w [unfolded full]]) (use u pl j in simp_all)
    have e: "?j = length (partial ctx) + (?full + off)"
      using S full by (simp only: add.commute)
    have d: "drop ?j (partial ctx @ inp) = drop ?full (drop off inp)"
    proof -
      have "drop ?j (partial ctx @ inp) = drop (length (partial ctx) + (?full + off)) (partial ctx @ inp)"
        by (rule arg_cong [OF e])
      then show ?thesis by simp
    qed
    define rest where "rest = drop ?full (drop off inp)"
    obtain v where v: "ctx2 = ctx\<lparr>partial := [], ci_wc := v\<rparr>" using S by blast
    have c': "ctx' = ctx\<lparr>partial := rest, ci_wc := v\<rparr>"
      using res(3) v unfolding rest_def [symmetric] by (cases "rest = []") simp_all
    have w2: "ci_wc ctx2 = v" "ci_wc ctx' = v" using v c' by simp_all
    show ?thesis unfolding Let_def
    proof (intro conjI)
      show "proc E p (take ?j (partial ctx @ inp)) (ci_wc ctx) out (ci_wc ctx')"
        using conjunct1 [OF S] unfolding res(1) w2 .
      show "ctx' = ctx\<lparr>partial := drop ?j (partial ctx @ inp), ci_wc := ci_wc ctx'\<rparr>"
        unfolding d rest_def [symmetric] w2 by (rule c')
      show "n = ?j" using res(2) full j by auto
    qed
  qed
qed

lemma pkcs7_dec_update_state:
  assumes ch: "cipher_chains E" and u: "op_unit p = bs" and bs: "block_size ctx = bs" "0 < bs"
    and pl: "length (partial ctx) \<le> bs" and inp: "inp \<noteq> []"
    and up: "cipher_pkcs7_dec_update E p ctx inp cap = Inr (out, n, ctx')"
  shows "let j = (length (partial ctx) + length inp - 1) div bs * bs in
    proc E p (take j (partial ctx @ inp)) (ci_wc ctx) out (ci_wc ctx') \<and>
    ctx' = ctx\<lparr>partial := drop j (partial ctx @ inp), ci_wc := ci_wc ctx'\<rparr> \<and> n = j"
proof -
  let ?t = "length (partial ctx) + length inp"
  let ?q = "(?t - 1) div bs" let ?j = "?q * bs"
  have t: "0 < ?t" using inp by simp
  show ?thesis
  proof (cases "?q = 0")
    case True
    then show ?thesis
      using up bs by (auto simp: cipher_pkcs7_dec_update_def Let_def split: if_splits)
  next
    case False
    let ?o = "if partial ctx \<noteq> [] then bs else 0"
    have jle: "?j \<le> ?t - 1" by (rule div_times_less_eq_dividend)
    have jb: "bs \<le> ?j" using False by simp
    have nlt: "\<not> ?t < bs" using jle jb by linarith
    have near: "?t \<le> ?j + bs"
    proof -
      have "?t - 1 < ?j + bs" using bs(2) by (simp add: dividend_less_div_times add.commute)
      then show ?thesis by simp
    qed
    have j: "bs \<le> ?j" "?j \<le> length (partial ctx @ inp)"
      using jb order_trans [OF jle diff_le_self] by simp_all
    have pj: "?j \<noteq> 0" using jb bs by simp
    define k where "k = ?j"
    have up2: "(if cap < k then Inl PSA_ERROR_BUFFER_TOO_SMALL
        else case cipher_first_block E p ctx inp of
               Inl e \<Rightarrow> Inl e
             | Inr (out1, off, ctx1) \<Rightarrow>
                 (case cipher_whole_blocks E p ctx1 (take (k - ?o) (drop off inp)) of
                    Inl e \<Rightarrow> Inl e
                  | Inr (out2, ctx2) \<Rightarrow>
                      Inr (out1 @ out2, ?o + (k - ?o),
                        if length inp \<ge> off + (k - ?o) + bs
                          then ctx2\<lparr>partial := take bs (drop (off + (k - ?o)) inp)\<rparr>
                        else if length inp > off + (k - ?o) then ctx2\<lparr>partial := drop (off + (k - ?o)) inp\<rparr>
                        else ctx2))) = Inr (out, n, ctx')"
      using up nlt pj unfolding k_def cipher_pkcs7_dec_update_def Let_def bs(1) by (simp only: if_False)
    obtain out1 off ctx1 where f: "cipher_first_block E p ctx inp = Inr (out1, off, ctx1)"
      using up2 by (auto split: if_splits sum.splits)
    let ?full = "?j - ?o"
    obtain out2 ctx2 where w: "cipher_whole_blocks E p ctx1 (take ?full (drop off inp)) = Inr (out2, ctx2)"
      and res: "out = out1 @ out2" "n = ?o + ?full"
        "ctx' = (if length inp \<ge> off + ?full + bs then ctx2\<lparr>partial := take bs (drop (off + ?full) inp)\<rparr>
           else if length inp > off + ?full then ctx2\<lparr>partial := drop (off + ?full) inp\<rparr> else ctx2)"
      using up2 f unfolding k_def [symmetric] by (auto split: if_split_asm sum.splits)
    have S: "proc E p (take ?j (partial ctx @ inp)) (ci_wc ctx) (out1 @ out2) (ci_wc ctx2) \<and>
        ctx2 = ctx\<lparr>partial := [], ci_wc := ci_wc ctx2\<rparr> \<and> off + ?full + length (partial ctx) = ?j"
      by (rule blocks_step [OF ch _ f bs(1) w]) (use u pl j in simp_all)
    have e: "?j = length (partial ctx) + (off + ?full)" using S by (simp only: add.commute)
    have d: "drop ?j (partial ctx @ inp) = drop (off + ?full) inp"
    proof -
      have "drop ?j (partial ctx @ inp) = drop (length (partial ctx) + (off + ?full)) (partial ctx @ inp)"
        by (rule arg_cong [OF e])
      then show ?thesis by simp
    qed
    define rest where "rest = drop (off + ?full) inp"
    have lr: "length rest = length inp - (off + ?full)" by (simp add: rest_def)
    have used: "length inp \<le> off + ?full + bs" "off + ?full < length inp" using near jle t e by linarith+
    obtain v where v: "ctx2 = ctx\<lparr>partial := [], ci_wc := v\<rparr>" using S by blast
    have tk: "take bs rest = rest" using used(1) lr by simp
    have "ctx' = ctx2\<lparr>partial := rest\<rparr>"
      using res(3) used tk unfolding rest_def by (simp split: if_splits)
    then have c': "ctx' = ctx\<lparr>partial := rest, ci_wc := v\<rparr>" using v by simp
    have w2: "ci_wc ctx2 = v" "ci_wc ctx' = v" using v c' by simp_all
    show ?thesis unfolding Let_def
    proof (intro conjI)
      show "proc E p (take ?j (partial ctx @ inp)) (ci_wc ctx) out (ci_wc ctx')"
        using conjunct1 [OF S] unfolding res(1) w2 .
      show "ctx' = ctx\<lparr>partial := drop ?j (partial ctx @ inp), ci_wc := ci_wc ctx'\<rparr>"
        unfolding d rest_def [symmetric] w2 by (rule c')
      show "n = ?j" using res(2) jb by auto
    qed
  qed
qed

lemma cipher_state_step:
  assumes ch: "cipher_chains E" and ok: "cipher_ctx_ok ctx0" and st: "cipher_state E ctx0 m out ctx"
    and pr: "proc E (cipher_op_of ctx0) (take j (partial ctx @ inp)) (ci_wc ctx) o2 (ci_wc ctx')"
    and c': "ctx' = ctx\<lparr>partial := drop j (partial ctx @ inp), ci_wc := ci_wc ctx'\<rparr>"
    and kj: "cipher_done ctx0 (length m) + j = cipher_done ctx0 (length m + length inp)"
  shows "cipher_state E ctx0 (m @ inp) (out @ o2) ctx'"
proof -
  define k where "k = cipher_done ctx0 (length m)"
  have k: "k \<le> length m" unfolding k_def by (rule cipher_done_le)
  obtain v where v: "ctx = ctx0\<lparr>partial := drop k m, ci_wc := v\<rparr>"
    and p0: "proc E (cipher_op_of ctx0) (take k m) (ci_wc ctx0) out (ci_wc ctx)"
    using st unfolding cipher_state_def Let_def k_def by blast
  have pa: "partial ctx = drop k m" using v by simp
  have d: "op_unit (cipher_op_of ctx0) dvd length (take k m)"
    using cipher_done_dvd [OF ok, of "length m"] k unfolding k_def by simp
  have "proc E (cipher_op_of ctx0) (take k m @ take j (drop k m @ inp)) (ci_wc ctx0) (out @ o2) (ci_wc ctx')"
    using proc_append [OF ch d p0 pr] unfolding pa .
  then have "proc E (cipher_op_of ctx0) (take (k + j) (m @ inp)) (ci_wc ctx0) (out @ o2) (ci_wc ctx')"
    unfolding take_drop_append(1) [OF k] .
  moreover have "ctx' = ctx0\<lparr>partial := drop (k + j) (m @ inp), ci_wc := ci_wc ctx'\<rparr>"
    using c' unfolding pa take_drop_append(2) [OF k] by (simp add: v)
  ultimately show ?thesis using kj unfolding cipher_state_def k_def by simp
qed

lemma cipher_update_alg_state:
  assumes ch: "cipher_chains E" and ok: "cipher_ctx_ok ctx0" and st: "cipher_state E ctx0 m out ctx"
    and inp: "inp \<noteq> []" and up: "cipher_update_alg E ctx inp cap = Inr (o2, n, ctx')"
  shows "cipher_state E ctx0 (m @ inp) (out @ o2) ctx' \<and> n = length o2"
proof -
  define k where "k = cipher_done ctx0 (length m)"
  have k: "k \<le> length m" unfolding k_def by (rule cipher_done_le)
  obtain v where v: "ctx = ctx0\<lparr>partial := drop k m, ci_wc := v\<rparr>"
    using st unfolding cipher_state_def Let_def k_def by blast
  have pa: "length (partial ctx) = length m - k" using v by simp
  have f: "ci_alg ctx = ci_alg ctx0" "direction ctx = direction ctx0" "block_size ctx = block_size ctx0"
    "cbc_op ctx = cbc_op ctx0" "ecb_op ctx = ecb_op ctx0"
    unfolding v by simp_all
  define bs where "bs = block_size ctx0"
  have bs: "0 < bs" "block_size ctx = bs" using ok f by (auto simp: cipher_ctx_ok_def bs_def)
  note units = op_unit_block [OF ok, folded bs_def]
  let ?blk = "ci_alg ctx0 \<in> {PSA_ALG_CBC_NO_PADDING, PSA_ALG_ECB_NO_PADDING} \<or>
      ci_alg ctx0 = PSA_ALG_CBC_PKCS7 \<and> direction ctx0 = AES_ENCRYPTION"
  consider (blk) ?blk | (dec) "\<not> ?blk" "ci_alg ctx0 = PSA_ALG_CBC_PKCS7" "direction ctx0 = AES_DECRYPTION"
    | (stream) "\<not> ?blk" "ci_alg ctx0 \<noteq> PSA_ALG_CBC_PKCS7"
    by (cases "direction ctx0") blast+
  then show ?thesis
  proof cases
    case blk
    have ke: "k = length m div bs * bs" using blk by (simp add: k_def cipher_done_def bs_def)
    have pl: "length (partial ctx) < bs"
      using pa ke bs(1) by (simp add: minus_div_mult_eq_mod)
    have up1: "cipher_block_update E (cipher_op_of ctx0) ctx inp cap = Inr (o2, n, ctx')"
      using up blk by (auto simp: cipher_update_alg_def Let_def f cipher_op_of_def split: if_splits)
    have un: "op_unit (cipher_op_of ctx0) = bs"
      using blk units by (auto simp: cipher_op_of_def Let_def)
    note B = block_update_state [OF ch un bs(2,1) pl up1, unfolded Let_def]
    have n: "n = length o2"
      using B proc_length [OF ch conjunct1 [OF B]] div_times_less_eq_dividend [of "length (partial ctx) + length inp" bs]
      by simp
    have "k + (length (partial ctx) + length inp) div bs * bs = cipher_done ctx0 (length m + length inp)"
      using div_mult_dvd [OF bs(1), of k "length (partial ctx) + length inp"] ke k pa blk
      by (simp add: cipher_done_def bs_def [symmetric])
    then show ?thesis
      using cipher_state_step [OF ch ok st] B n unfolding k_def by blast
  next
    case dec
    have ke: "k = (length m - 1) div bs * bs" using dec by (simp add: k_def cipher_done_def bs_def)
    have pl: "length (partial ctx) \<le> bs"
    proof -
      have "length m - 1 < k + bs" unfolding ke using bs(1) by (simp add: dividend_less_div_times add.commute)
      then show ?thesis using pa by simp
    qed
    have up1: "cipher_pkcs7_dec_update E (cipher_op_of ctx0) ctx inp cap = Inr (o2, n, ctx')"
      using up dec by (auto simp: cipher_update_alg_def Let_def f cipher_op_of_def split: if_splits)
    have un: "op_unit (cipher_op_of ctx0) = bs"
      using dec units by (auto simp: cipher_op_of_def Let_def)
    note B = pkcs7_dec_update_state [OF ch un bs(2,1) pl inp up1, unfolded Let_def]
    have n: "n = length o2"
    proof -
      let ?j = "(length (partial ctx) + length inp - 1) div bs * bs"
      have "length o2 = length (take ?j (partial ctx @ inp))" by (rule proc_length [OF ch conjunct1 [OF B]])
      also have "\<dots> = ?j" unfolding length_take length_append
        by (rule min_absorb2) (rule order_trans [OF div_times_less_eq_dividend diff_le_self])
      finally show ?thesis using B by simp
    qed
    have x: "k + (length (partial ctx) + length inp - 1) = length m + length inp - 1"
      using pa k inp by (cases inp) simp_all
    have "k + (length (partial ctx) + length inp - 1) div bs * bs = cipher_done ctx0 (length m + length inp)"
      using div_mult_dvd [OF bs(1), of k "length (partial ctx) + length inp - 1"] ke dec
      unfolding x by (simp add: cipher_done_def bs_def [symmetric])
    then show ?thesis
      using cipher_state_step [OF ch ok st] B n unfolding k_def by blast
  next
    case stream
    have ke: "k = length m" using stream by (simp add: k_def cipher_done_def)
    then have pn: "partial ctx = []" using v by simp
    have up1: "cipher_stream_update E (cipher_op_of ctx0) ctx inp cap = Inr (o2, n, ctx')"
      using up stream by (auto simp: cipher_update_alg_def Let_def f cipher_op_of_def split: if_splits)
    then have pr: "proc E (cipher_op_of ctx0) (take (length inp) (partial ctx @ inp)) (ci_wc ctx) o2 (ci_wc ctx')"
      and c': "ctx' = ctx\<lparr>partial := drop (length inp) (partial ctx @ inp), ci_wc := ci_wc ctx'\<rparr>"
      using inp pn
      by (auto simp: cipher_stream_update_def proc_def Let_def v split: if_splits prod.splits)
    have "k + length inp = cipher_done ctx0 (length m + length inp)"
      using stream ke by (simp add: cipher_done_def)
    then have "cipher_state E ctx0 (m @ inp) (out @ o2) ctx'"
      by (intro cipher_state_step [OF ch ok st pr c']) (simp add: k_def)
    moreover have "n = length o2"
      using up1 proc_length [OF ch pr] pn
      by (auto simp: cipher_stream_update_def Let_def split: if_split_asm prod.splits)
    ultimately show ?thesis ..
  qed
qed

end
