(* ===== verification/Cipher_Machine.thy ===== *)
theory Cipher_Machine
  imports Cipher
begin

text \<open>
  The cipher operation of \<open>src/psa_cipher.c\<close> as a state machine: what any sequence of calls
  keeps, and that the output does not depend on how the data was cut into updates.
\<close>

unbundle bit_operations_syntax

section \<open>The operation as a state machine\<close>

datatype cipher_call =
    Ci_encrypt_setup psa_key_id_t psa_algorithm_t
  | Ci_decrypt_setup psa_key_id_t psa_algorithm_t
  | Ci_set_iv inbuf
  | Ci_generate_iv outbuf "nat option"
  | Ci_update u64 inbuf u64 outbuf "nat option"
  | Ci_finish outbuf "nat option"
  | Ci_abort

fun cipher_step ::
    "('st, 'h) psa_env \<Rightarrow> 'c cipher_engine \<Rightarrow> cipher_call \<Rightarrow> 'c psa_cipher_operation_t \<Rightarrow> 'st key_store \<Rightarrow>
     psa_status \<times> 'c psa_cipher_operation_t option \<times> 'st key_store" where
  "cipher_step env E (Ci_encrypt_setup key a) op s = psa_cipher_encrypt_setup env E (Some op) key a s"
| "cipher_step env E (Ci_decrypt_setup key a) op s = psa_cipher_decrypt_setup env E (Some op) key a s"
| "cipher_step env E (Ci_set_iv iv) op s =
    (case psa_cipher_set_iv E (Some op) iv of (status, op1) \<Rightarrow> (status, op1, s))"
| "cipher_step env E (Ci_generate_iv iv len) op s =
    (case psa_cipher_generate_iv env E (Some op) iv len s of (status, r, n, op1, s1) \<Rightarrow> (status, op1, s1))"
| "cipher_step env E (Ci_update ia x oa out len) op s =
    (case psa_cipher_update E (Some op) ia x oa out len of (status, bs, n, op1) \<Rightarrow> (status, op1, s))"
| "cipher_step env E (Ci_finish out len) op s =
    (case psa_cipher_finish E (Some op) out len of (status, bs, n, op1) \<Rightarrow> (status, op1, s))"
| "cipher_step env E Ci_abort op s = (case psa_cipher_abort (Some op) of (status, op1) \<Rightarrow> (status, op1, s))"

text \<open>What an operation can become from \<open>PSA_CIPHER_OPERATION_INIT\<close>.\<close>

inductive cipher_reachable :: "('st, 'h) psa_env \<Rightarrow> 'c cipher_engine \<Rightarrow> 'c psa_cipher_operation_t \<Rightarrow> bool"
  for env E where
  cipher_init: "cipher_reachable env E None"
| cipher_next: "cipher_reachable env E op \<Longrightarrow> cipher_step env E call op s = (status, Some op', s') \<Longrightarrow>
    cipher_reachable env E op'"

fun cipher_setup_call :: "cipher_call \<Rightarrow> bool" where
  "cipher_setup_call (Ci_encrypt_setup key a) = True"
| "cipher_setup_call (Ci_decrypt_setup key a) = True"
| "cipher_setup_call c = False"

text \<open>
  The invariant of an active operation: the block size fits the key type, the buffered bytes
  fit the array, and only the removal of padding ever holds a complete block.
\<close>

definition holds_block :: "'c wolfpsa_cipher_ctx \<Rightarrow> bool" where
  "holds_block ctx \<longleftrightarrow> ci_alg ctx = PSA_ALG_CBC_PKCS7 \<and> direction ctx = AES_DECRYPTION"

definition cipher_inv :: "'c wolfpsa_cipher_ctx \<Rightarrow> bool" where
  "cipher_inv ctx \<longleftrightarrow>
    cipher_ctx_ok ctx \<and> wolfpsa_cipher_check_alg (ci_alg ctx) = PSA_SUCCESS \<and>
    length (partial ctx) \<le> block_size ctx \<and>
    (\<not> holds_block ctx \<longrightarrow> length (partial ctx) < block_size ctx) \<and>
    (iv_set ctx \<longrightarrow> iv_attempted ctx)"

lemma cipher_inv_bound: "cipher_inv ctx \<Longrightarrow> length (partial ctx) \<le> AES_BLOCK_SIZE"
  by (auto simp: cipher_inv_def cipher_ctx_ok_def split: if_splits)

lemma cipher_start_frame: "cipher_start E d ctx = (ret, ctx') \<Longrightarrow> \<exists>c. ctx' = ctx\<lparr>ci_wc := c\<rparr>"
  by (auto simp: cipher_start_def Let_def split: prod.splits)

lemma new_ctx_inv: "wolfpsa_cipher_check_alg a = PSA_SUCCESS \<Longrightarrow> cipher_inv ((cipher_new_ctx E dir a attrs)\<lparr>ci_wc := c\<rparr>)"
  by (simp add: cipher_inv_def cipher_ctx_ok_def cipher_new_ctx_def wolfpsa_cipher_block_size_def)

lemma cipher_check_key_Inl [simp]: "wolfpsa_cipher_check_key env key want a s \<noteq> (Inl PSA_SUCCESS, s')"
  by (auto simp: wolfpsa_cipher_check_key_def split: prod.splits sum.splits)

lemma cipher_setup_parts:
  assumes "cipher_setup env E dir want op key a s = (PSA_SUCCESS, op', s')"
  shows "op = Some None \<and> wolfpsa_cipher_check_alg a = PSA_SUCCESS \<and> (\<exists>attrs d s1 ctx.
    wolfpsa_cipher_check_key env key want a s = (Inr (attrs, d), s1) \<and>
    cipher_start E d (cipher_new_ctx E dir a attrs) = (WC_OK, ctx) \<and> op' = Some (Some ctx))"
  using assms by (auto simp: cipher_setup_def Let_def split: if_splits prod.splits sum.splits)

lemma cipher_setup_cases:
  assumes "cipher_setup env E dir want (Some op) key a s = (status, op', s')"
  shows "status = PSA_SUCCESS \<and> op = None \<and> (\<exists>ctx. op' = Some (Some ctx) \<and> cipher_inv ctx) \<or>
    status \<noteq> PSA_SUCCESS \<and> op' = Some op"
proof (cases "status = PSA_SUCCESS")
  case True
  then have st: "cipher_setup env E dir want (Some op) key a s = (PSA_SUCCESS, op', s')"
    using assms by simp
  obtain attrs d s1 ctx where "wolfpsa_cipher_check_alg a = PSA_SUCCESS" "op = None"
    "cipher_start E d (cipher_new_ctx E dir a attrs) = (WC_OK, ctx)" "op' = Some (Some ctx)"
    using cipher_setup_parts [OF st] by (elim conjE exE) simp
  with True show ?thesis using cipher_start_frame new_ctx_inv by metis
next
  case False
  then show ?thesis
    using assms by (auto simp: cipher_setup_def Let_def split: if_splits prod.splits sum.splits)
qed

lemma cipher_load_iv_frame:
  "cipher_load_iv E ctx iv = (status, ctx') \<Longrightarrow> \<exists>v c. ctx' = ctx\<lparr>ci_iv := v, ci_wc := c\<rparr>"
proof -
  assume "cipher_load_iv E ctx iv = (status, ctx')"
  then have "ctx' = ctx\<lparr>ci_iv := ci_iv ctx', ci_wc := ci_wc ctx'\<rparr>"
    by (auto simp: cipher_load_iv_def Let_def split: if_splits prod.splits)
  then show ?thesis by blast
qed

lemma cipher_set_iv_cases:
  assumes "wolfpsa_cipher_set_iv E (Some op) iv = (status, op')"
  shows "\<exists>op1. op' = Some op1 \<and> (op1 = None \<longleftrightarrow> op = None) \<and> (status = PSA_SUCCESS \<longrightarrow>
    (\<exists>ctx v c. op = Some ctx \<and>
       op1 = Some (ctx\<lparr>iv_attempted := True, ci_iv := v, ci_wc := c, iv_set := True\<rparr>)))"
proof (cases op)
  case None
  then show ?thesis using assms by (auto simp: wolfpsa_cipher_set_iv_def wolfpsa_cipher_get_ctx_def)
next
  case (Some ctx)
  obtain st ctx2 where l: "cipher_load_iv E (ctx\<lparr>iv_attempted := True\<rparr>) (in_bytes iv) = (st, ctx2)" by fastforce
  obtain v c where "ctx2 = ctx\<lparr>iv_attempted := True, ci_iv := v, ci_wc := c\<rparr>"
    using cipher_load_iv_frame [OF l] by auto
  then show ?thesis
    using assms Some l
    by (auto simp: wolfpsa_cipher_set_iv_def wolfpsa_cipher_get_ctx_def Let_def split: if_splits)
qed

lemma cipher_inv_set_iv:
  "cipher_inv ctx \<Longrightarrow> cipher_inv (ctx\<lparr>iv_attempted := True, ci_iv := v, ci_wc := c, iv_set := True\<rparr>)"
  by (auto simp: cipher_inv_def cipher_ctx_ok_def holds_block_def)

lemma cipher_block_update_frame:
  assumes bs: "0 < block_size ctx" and pl: "length (partial ctx) < block_size ctx"
    and up: "cipher_block_update E p ctx inp cap = Inr (out, n, ctx')"
  shows "\<exists>x c. ctx' = ctx\<lparr>partial := x, ci_wc := c\<rparr> \<and> length x < block_size ctx"
proof (cases "(length (partial ctx) + length inp) div block_size ctx = 0")
  case True
  then have "ctx' = ctx\<lparr>partial := partial ctx @ inp, ci_wc := ci_wc ctx\<rparr>"
    using up by (auto simp: cipher_block_update_def Let_def split: if_splits)
  moreover have "length (partial ctx @ inp) < block_size ctx" using True bs by (simp add: div_eq_0_iff)
  ultimately show ?thesis by blast
next
  case False
  obtain out1 off ctx1 where f: "cipher_first_block E p ctx inp = Inr (out1, off, ctx1)"
    using up False by (auto simp: cipher_block_update_def Let_def split: if_splits sum.splits)
  let ?rest = "drop off inp" let ?full = "length ?rest div block_size ctx * block_size ctx"
  obtain out2 ctx2 where w: "cipher_whole_blocks E p ctx1 (take ?full ?rest) = Inr (out2, ctx2)"
    and c': "ctx' = (if drop ?full ?rest \<noteq> [] then ctx2\<lparr>partial := drop ?full ?rest\<rparr> else ctx2)"
    using up False f by (auto simp: cipher_block_update_def Let_def split: if_splits sum.splits)
  obtain c where "ctx1 = ctx\<lparr>partial := [], ci_wc := c\<rparr>" using cipher_first_block_proc [OF f] by blast
  moreover obtain c2 where "ctx2 = ctx1\<lparr>ci_wc := c2\<rparr>" using cipher_whole_blocks_proc [OF w] by blast
  ultimately have "ctx' = ctx\<lparr>partial := drop ?full ?rest, ci_wc := c2\<rparr>" using c' by simp
  moreover have "length (drop ?full ?rest) < block_size ctx"
    unfolding length_drop [of ?full] minus_div_mult_eq_mod using bs by (rule mod_less_divisor)
  ultimately show ?thesis by blast
qed

lemma cipher_pkcs7_dec_frame:
  assumes bs: "0 < block_size ctx" and pl: "length (partial ctx) \<le> block_size ctx"
    and up: "cipher_pkcs7_dec_update E p ctx inp cap = Inr (out, n, ctx')"
  shows "\<exists>x c. ctx' = ctx\<lparr>partial := x, ci_wc := c\<rparr> \<and> length x \<le> block_size ctx"
proof -
  let ?bs = "block_size ctx" and ?t = "length (partial ctx) + length inp"
  define k where "k = (?t - 1) div ?bs * ?bs"
  show ?thesis
  proof (cases "?t < ?bs \<or> k = 0")
    case True
    then have "ctx' = ctx\<lparr>partial := partial ctx @ inp, ci_wc := ci_wc ctx\<rparr>"
      using up by (auto simp: cipher_pkcs7_dec_update_def Let_def k_def split: if_splits)
    moreover have "?t \<le> ?bs" using True bs by (auto simp: k_def div_eq_0_iff)
    ultimately show ?thesis by (metis length_append)
  next
    case False
    let ?o = "if partial ctx \<noteq> [] then ?bs else 0"
    have up2: "(if cap < k then Inl PSA_ERROR_BUFFER_TOO_SMALL
        else case cipher_first_block E p ctx inp of
               Inl e \<Rightarrow> Inl e
             | Inr (out1, off, ctx1) \<Rightarrow>
                 (case cipher_whole_blocks E p ctx1 (take (k - ?o) (drop off inp)) of
                    Inl e \<Rightarrow> Inl e
                  | Inr (out2, ctx2) \<Rightarrow>
                      Inr (out1 @ out2, ?o + (k - ?o),
                        if length inp \<ge> off + (k - ?o) + ?bs
                          then ctx2\<lparr>partial := take ?bs (drop (off + (k - ?o)) inp)\<rparr>
                        else if length inp > off + (k - ?o) then ctx2\<lparr>partial := drop (off + (k - ?o)) inp\<rparr>
                        else ctx2))) = Inr (out, n, ctx')"
      using up False unfolding k_def cipher_pkcs7_dec_update_def Let_def
      by (simp only: if_False de_Morgan_disj)
    obtain out1 off ctx1 where f: "cipher_first_block E p ctx inp = Inr (out1, off, ctx1)"
      using up2 by (auto split: if_splits sum.splits)
    define j where "j = off + (k - ?o)"
    obtain out2 ctx2 where w: "cipher_whole_blocks E p ctx1 (take (k - ?o) (drop off inp)) = Inr (out2, ctx2)"
      and c': "ctx' = (if length inp \<ge> j + ?bs then ctx2\<lparr>partial := take ?bs (drop j inp)\<rparr>
         else if length inp > j then ctx2\<lparr>partial := drop j inp\<rparr> else ctx2)"
      using up2 f unfolding j_def by (auto split: if_split_asm sum.splits)
    obtain c where "ctx1 = ctx\<lparr>partial := [], ci_wc := c\<rparr>" using cipher_first_block_proc [OF f] by blast
    moreover obtain c2 where "ctx2 = ctx1\<lparr>ci_wc := c2\<rparr>" using cipher_whole_blocks_proc [OF w] by blast
    ultimately have c2: "ctx2 = ctx\<lparr>partial := [], ci_wc := c2\<rparr>" by simp
    have "ctx' = ctx\<lparr>partial := partial ctx', ci_wc := c2\<rparr> \<and> length (partial ctx') \<le> ?bs"
      using c' c2 by (auto split: if_split_asm)
    then show ?thesis by blast
  qed
qed

lemma cipher_update_alg_inv:
  assumes inv: "cipher_inv ctx" and up: "cipher_update_alg E ctx inp cap = Inr (out, n, ctx')"
  shows "cipher_inv ctx'"
proof -
  have bs: "0 < block_size ctx" using inv by (auto simp: cipher_inv_def cipher_ctx_ok_def)
  have pl: "length (partial ctx) \<le> block_size ctx" using inv by (simp add: cipher_inv_def)
  have plt: "\<not> holds_block ctx \<Longrightarrow> length (partial ctx) < block_size ctx"
    using inv by (simp add: cipher_inv_def)
  have keep: "cipher_inv (ctx\<lparr>partial := x, ci_wc := c\<rparr>)"
    if "length x \<le> block_size ctx" "\<not> holds_block ctx \<Longrightarrow> length x < block_size ctx" for x c
    using inv that by (auto simp: cipher_inv_def cipher_ctx_ok_def holds_block_def)
  consider (blk) p where "cipher_block_update E p ctx inp cap = Inr (out, n, ctx')" "\<not> holds_block ctx"
    | (dec) p where "cipher_pkcs7_dec_update E p ctx inp cap = Inr (out, n, ctx')" "holds_block ctx"
    | (stream) p where "cipher_stream_update E p ctx inp cap = Inr (out, n, ctx')"
  proof -
    assume 1: "\<And>p. cipher_block_update E p ctx inp cap = Inr (out, n, ctx') \<Longrightarrow> \<not> holds_block ctx \<Longrightarrow> thesis"
      and 2: "\<And>p. cipher_pkcs7_dec_update E p ctx inp cap = Inr (out, n, ctx') \<Longrightarrow> holds_block ctx \<Longrightarrow> thesis"
      and 3: "\<And>p. cipher_stream_update E p ctx inp cap = Inr (out, n, ctx') \<Longrightarrow> thesis"
    show thesis
      using up 1 [of "cbc_op ctx"] 1 [of "ecb_op ctx"] 2 [of "cbc_op ctx"] 3
      by (cases "direction ctx") (auto simp: cipher_update_alg_def holds_block_def Let_def split: if_split_asm)
  qed
  then show ?thesis
  proof cases
    case blk
    then obtain x c where "ctx' = ctx\<lparr>partial := x, ci_wc := c\<rparr>" "length x < block_size ctx"
      using cipher_block_update_frame [OF bs plt [OF blk(2)] blk(1)] by blast
    then show ?thesis using keep by simp
  next
    case dec
    then obtain x c where "ctx' = ctx\<lparr>partial := x, ci_wc := c\<rparr>" "length x \<le> block_size ctx"
      using cipher_pkcs7_dec_frame [OF bs pl dec(1)] by blast
    then show ?thesis using keep dec by simp
  next
    case stream
    then obtain c where "ctx' = ctx\<lparr>partial := partial ctx, ci_wc := c\<rparr>"
      by (auto simp: cipher_stream_update_def Let_def split: if_splits prod.splits)
    moreover have "cipher_inv (ctx\<lparr>partial := partial ctx, ci_wc := c\<rparr>)" by (rule keep [OF pl plt])
    ultimately show ?thesis by (simp only:)
  qed
qed

lemma cipher_update_cases:
  assumes "psa_cipher_update E (Some op) ia x oa out len0 = (status, bs, len, op')"
  shows "status \<noteq> PSA_SUCCESS \<and> op' = Some None \<or>
    status = PSA_SUCCESS \<and> (\<exists>ctx. op = Some ctx \<and>
      (in_length x = 0 \<and> op' = Some op \<and> bs = [] \<or>
       in_bytes x \<noteq> [] \<and> (\<exists>n ctx1. cipher_update_alg E ctx (in_bytes x) (out_size out) = Inr (bs, n, ctx1) \<and>
          op' = Some (Some ctx1))))"
proof (cases op)
  case None
  then show ?thesis
    using assms
    by (auto simp: psa_cipher_update_def wolfpsa_cipher_get_ctx_def wolfpsa_cipher_fail_def psa_cipher_abort_def
        Let_def split: if_splits)
next
  case (Some ctx)
  have nz: "in_bytes x \<noteq> []" if "\<not> (in_null x \<and> in_length x > 0)" "in_length x \<noteq> 0"
    using that by (cases x) auto
  have ne: "cipher_update_alg E ctx (in_bytes x) (out_size out) \<noteq> Inl PSA_SUCCESS"
    by (rule cipher_update_alg_Inl)
  show ?thesis
  proof (cases "cipher_update_alg E ctx (in_bytes x) (out_size out)")
    case (Inl e)
    then show ?thesis
      using assms Some ne
      by (auto simp: psa_cipher_update_def wolfpsa_cipher_get_ctx_def wolfpsa_cipher_fail_def psa_cipher_abort_def
          Let_def split: if_split_asm)
  next
    case (Inr r)
    obtain o1 n1 c1 where r: "r = (o1, n1, c1)" by (metis prod_cases3)
    show ?thesis
      using assms Some Inr r nz
      by (auto simp: psa_cipher_update_def wolfpsa_cipher_get_ctx_def wolfpsa_cipher_fail_def psa_cipher_abort_def
          Let_def split: if_split_asm)
  qed
qed

lemma cipher_finish_ends:
  "psa_cipher_finish E (Some op) out len0 = (status, bs, len, op') \<Longrightarrow> op' = Some None"
  by (cases op)
    (auto simp: psa_cipher_finish_def wolfpsa_cipher_get_ctx_def wolfpsa_cipher_fail_def psa_cipher_abort_def
      Let_def split: if_split_asm sum.splits)

lemma cipher_psa_set_iv_cases:
  assumes "psa_cipher_set_iv E (Some op) iv = (status, op')"
  shows "status \<noteq> PSA_SUCCESS \<and> op' = Some None \<or>
    status = PSA_SUCCESS \<and> (\<exists>ctx v c. op = Some ctx \<and>
       op' = Some (Some (ctx\<lparr>iv_attempted := True, ci_iv := v, ci_wc := c, iv_set := True\<rparr>)))"
proof -
  obtain st op1 where w: "wolfpsa_cipher_set_iv E (Some op) iv = (st, op1)" by fastforce
  show ?thesis
    using cipher_set_iv_cases [OF w] assms w
    by (auto simp: psa_cipher_set_iv_def wolfpsa_cipher_fail_def psa_cipher_abort_def split: if_split_asm)
qed

lemma cipher_generate_iv_parts:
  assumes "wolfpsa_cipher_generate_iv env E (Some op) iv len0 s = (status, r, len, op1, s')"
  shows "(\<exists>op2. op1 = Some op2) \<and> (status = PSA_SUCCESS \<longrightarrow>
    wolfpsa_cipher_set_iv E (Some op) (In r) = (PSA_SUCCESS, op1) \<and>
    (\<exists>ctx. op = Some ctx \<and> len = Some (wolfpsa_cipher_iv_length (ci_alg ctx) (ci_key_type ctx)) \<and>
       psa_generate_random env (Out (wolfpsa_cipher_iv_length (ci_alg ctx) (ci_key_type ctx))) s =
         (PSA_SUCCESS, r, s')))"
proof (cases op)
  case None
  then show ?thesis
    using assms by (auto simp: wolfpsa_cipher_generate_iv_def wolfpsa_cipher_get_ctx_def Let_def)
next
  case (Some ctx)
  obtain g r2 s2 where rnd: "psa_generate_random env
      (Out (wolfpsa_cipher_iv_length (ci_alg ctx) (ci_key_type ctx))) s = (g, r2, s2)" by (metis prod_cases3)
  obtain st op2 where w: "wolfpsa_cipher_set_iv E (Some op) (In r2) = (st, op2)" by fastforce
  obtain op3 where "op2 = Some op3" using cipher_set_iv_cases [OF w] by blast
  then show ?thesis
    using assms Some rnd w
    by (auto simp: wolfpsa_cipher_generate_iv_def wolfpsa_cipher_get_ctx_def Let_def split: if_split_asm)
qed

lemma cipher_psa_generate_iv_cases:
  assumes "psa_cipher_generate_iv env E (Some op) iv len0 s = (status, r, len, op', s')"
  shows "status \<noteq> PSA_SUCCESS \<and> op' = Some None \<or>
    status = PSA_SUCCESS \<and> (\<exists>ctx v c. op = Some ctx \<and>
       op' = Some (Some (ctx\<lparr>iv_attempted := True, ci_iv := v, ci_wc := c, iv_set := True\<rparr>)))"
proof -
  obtain st r1 l1 op1 s1 where g: "wolfpsa_cipher_generate_iv env E (Some op) iv len0 s = (st, r1, l1, op1, s1)"
    by (metis prod_cases5)
  note G = cipher_generate_iv_parts [OF g]
  show ?thesis
  proof (cases "st = PSA_SUCCESS")
    case True
    then have w: "wolfpsa_cipher_set_iv E (Some op) (In r1) = (PSA_SUCCESS, op1)" using G by simp
    from cipher_set_iv_cases [OF w] True assms g show ?thesis
      by (auto simp: psa_cipher_generate_iv_def)
  next
    case False
    then show ?thesis
      using G assms g by (auto simp: psa_cipher_generate_iv_def wolfpsa_cipher_fail_def psa_cipher_abort_def)
  qed
qed

lemma cipher_reachable_inv: "cipher_reachable env E op \<Longrightarrow> op = Some ctx \<Longrightarrow> cipher_inv ctx"
proof (induction arbitrary: ctx rule: cipher_reachable.induct)
  case (cipher_next op call s status op' s')
  show ?case
  proof (cases call)
    case (Ci_encrypt_setup key a)
    then have "cipher_setup env E AES_ENCRYPTION PSA_KEY_USAGE_ENCRYPT (Some op) key a s = (status, Some op', s')"
      using cipher_next.hyps by (simp add: psa_cipher_encrypt_setup_def)
    from cipher_setup_cases [OF this] cipher_next show ?thesis by auto
  next
    case (Ci_decrypt_setup key a)
    then have "cipher_setup env E AES_DECRYPTION PSA_KEY_USAGE_DECRYPT (Some op) key a s = (status, Some op', s')"
      using cipher_next.hyps by (simp add: psa_cipher_decrypt_setup_def)
    from cipher_setup_cases [OF this] cipher_next show ?thesis by auto
  next
    case (Ci_set_iv iv)
    then have "psa_cipher_set_iv E (Some op) iv = (status, Some op')"
      using cipher_next.hyps by (auto split: prod.splits)
    from cipher_psa_set_iv_cases [OF this] cipher_next cipher_inv_set_iv show ?thesis by auto
  next
    case (Ci_generate_iv iv len)
    then obtain r n where "psa_cipher_generate_iv env E (Some op) iv len s = (status, r, n, Some op', s')"
      using cipher_next.hyps by (auto split: prod.splits)
    from cipher_psa_generate_iv_cases [OF this] cipher_next cipher_inv_set_iv show ?thesis by auto
  next
    case (Ci_update ia x oa out len)
    then obtain bs n where "psa_cipher_update E (Some op) ia x oa out len = (status, bs, n, Some op')"
      using cipher_next.hyps by (auto split: prod.splits)
    from cipher_update_cases [OF this] cipher_next cipher_update_alg_inv show ?thesis by auto
  next
    case (Ci_finish out len)
    then show ?thesis using cipher_next by (auto split: prod.splits dest: cipher_finish_ends)
  next
    case Ci_abort
    then show ?thesis using cipher_next by (auto simp: psa_cipher_abort_def)
  qed
qed simp

text \<open>
  C32: Whatever sequence of calls a program makes on a cipher operation: the buffered bytes of an
  active operation fit the 16-byte array and stay below one block unless padding is being
  removed (so the guard of \<open>psa_cipher_finish\<close> against a full buffer never fires when it adds
  padding), an IV counts as set only after an attempt to set it; every failing call except a
  set-up ends the operation, as a successful finish does.
\<close>

theorem cipher_operation_lifecycle:
  assumes "cipher_reachable env E op" and "cipher_step env E call op s = (status, op', s')"
  shows "\<exists>op1. op' = Some op1 \<and>
    (\<forall>ctx. op1 = Some ctx \<longrightarrow>
       length (partial ctx) \<le> AES_BLOCK_SIZE \<and>
       (\<not> holds_block ctx \<longrightarrow> length (partial ctx) < block_size ctx) \<and>
       block_size ctx = (if is_des3 ctx then DES_BLOCK_SIZE else AES_BLOCK_SIZE) \<and>
       (iv_set ctx \<longrightarrow> iv_attempted ctx)) \<and>
    (status \<noteq> PSA_SUCCESS \<longrightarrow> op1 = None \<or> op1 = op \<and> cipher_setup_call call) \<and>
    (status = PSA_SUCCESS \<longrightarrow> (op1 = None \<longleftrightarrow> call = Ci_abort \<or> (\<exists>out len. call = Ci_finish out len)))"
proof -
  have inv: "length (partial ctx) \<le> AES_BLOCK_SIZE \<and>
      (\<not> holds_block ctx \<longrightarrow> length (partial ctx) < block_size ctx) \<and>
      block_size ctx = (if is_des3 ctx then DES_BLOCK_SIZE else AES_BLOCK_SIZE) \<and>
      (iv_set ctx \<longrightarrow> iv_attempted ctx)" if "op' = Some (Some ctx)" for ctx
  proof -
    have "cipher_inv ctx"
      by (rule cipher_reachable_inv [OF cipher_next [OF assms(1) assms(2) [unfolded that]] refl])
    then show ?thesis using cipher_inv_bound [of ctx] unfolding cipher_inv_def cipher_ctx_ok_def by blast
  qed
  have "\<exists>op1. op' = Some op1 \<and> (status \<noteq> PSA_SUCCESS \<longrightarrow> op1 = None \<or> op1 = op \<and> cipher_setup_call call) \<and>
      (status = PSA_SUCCESS \<longrightarrow> (op1 = None \<longleftrightarrow> call = Ci_abort \<or> (\<exists>out len. call = Ci_finish out len)))"
  proof (cases call)
    case (Ci_encrypt_setup key a)
    then have "cipher_setup env E AES_ENCRYPTION PSA_KEY_USAGE_ENCRYPT (Some op) key a s = (status, op', s')"
      using assms(2) by (simp add: psa_cipher_encrypt_setup_def)
    from cipher_setup_cases [OF this] Ci_encrypt_setup show ?thesis by auto
  next
    case (Ci_decrypt_setup key a)
    then have "cipher_setup env E AES_DECRYPTION PSA_KEY_USAGE_DECRYPT (Some op) key a s = (status, op', s')"
      using assms(2) by (simp add: psa_cipher_decrypt_setup_def)
    from cipher_setup_cases [OF this] Ci_decrypt_setup show ?thesis by auto
  next
    case (Ci_set_iv iv)
    then have "psa_cipher_set_iv E (Some op) iv = (status, op')" using assms(2) by (auto split: prod.splits)
    from cipher_psa_set_iv_cases [OF this] Ci_set_iv show ?thesis by auto
  next
    case (Ci_generate_iv iv len)
    then obtain r n where "psa_cipher_generate_iv env E (Some op) iv len s = (status, r, n, op', s')"
      using assms(2) by (auto split: prod.splits)
    from cipher_psa_generate_iv_cases [OF this] Ci_generate_iv show ?thesis by auto
  next
    case (Ci_update ia x oa out len)
    then obtain bs n where "psa_cipher_update E (Some op) ia x oa out len = (status, bs, n, op')"
      using assms(2) by (auto split: prod.splits)
    from cipher_update_cases [OF this] Ci_update show ?thesis by auto
  next
    case (Ci_finish out len)
    then show ?thesis using assms by (auto split: prod.splits dest: cipher_finish_ends)
  next
    case Ci_abort
    then show ?thesis using assms by (auto simp: psa_cipher_abort_def)
  qed
  with inv show ?thesis by blast
qed

section \<open>A concrete engine\<close>

text \<open>A stand-in for wolfCrypt whose only cipher is an exclusive or with a key byte.\<close>

definition demo_cipher :: "byte cipher_engine" where
  "demo_cipher =
    \<lparr>ci_devid = -2, wc_cipher_zero = 0,
     wc_Chacha_SetKey = (\<lambda>k c. (WC_OK, k ! 1)),
     wc_Des3Init = (\<lambda>dev c. (WC_OK, c)), wc_Des3_SetKey = (\<lambda>k iv dir c. (WC_OK, k ! 1)),
     wc_AesInit = (\<lambda>dev c. (WC_OK, c)), wc_AesCtrSetKey = (\<lambda>k iv dir c. (WC_OK, k ! 1)),
     wc_AesSetKey = (\<lambda>k iv dir c. (WC_OK, k ! 1)),
     wc_Chacha_SetIV = (\<lambda>iv n c. (WC_OK, c)), wc_Des3_SetIV = (\<lambda>iv c. (WC_OK, c)),
     wc_AesSetIV = (\<lambda>iv c. (WC_OK, c)),
     wc_process = (\<lambda>p x c. (WC_OK, map (\<lambda>b. b XOR c) x, c))\<rparr>"

lemma demo_cipher_chains: "cipher_chains demo_cipher"
  by (simp add: cipher_chains_def demo_cipher_def)

definition demo_cipher_attr :: psa_key_attributes_t where
  "demo_cipher_attr = psa_key_attributes_init
    \<lparr>type := PSA_KEY_TYPE_AES, bits := 128,
     policy := \<lparr>usage = PSA_KEY_USAGE_ENCRYPT OR PSA_KEY_USAGE_DECRYPT,
                alg = PSA_ALG_CBC_PKCS7, alg2 = PSA_ALG_NONE\<rparr>\<rparr>"

definition demo_cipher_ctx :: "cipher_dir \<Rightarrow> byte wolfpsa_cipher_ctx" where
  "demo_cipher_ctx dir =
    \<lparr>ci_alg = PSA_ALG_CBC_PKCS7, ci_key_type = PSA_KEY_TYPE_AES, ci_key_bits = 128, direction = dir,
     iv_set = False, iv_attempted = False, is_chacha = False, is_des3 = False, block_size = 16,
     ci_iv = replicate 16 0, partial = [], ci_wc = 1\<rparr>"

lemma demo_cipher_setup:
  "cipher_setup demo_env demo_cipher dir (if dir = AES_ENCRYPTION then PSA_KEY_USAGE_ENCRYPT else PSA_KEY_USAGE_DECRYPT)
     (Some None) PSA_KEY_ID_VENDOR_MIN PSA_ALG_CBC_PKCS7 (demo_with demo_cipher_attr demo_key) =
   (PSA_SUCCESS, Some (Some (demo_cipher_ctx dir)), demo_with demo_cipher_attr demo_key)"
  by (cases dir)
    (simp_all add: cipher_setup_def wolfpsa_cipher_check_alg_def wolfpsa_cipher_check_key_def cipher_type_ok_def
      cipher_size_status_def cipher_start_def cipher_new_ctx_def wolfpsa_cipher_block_size_def
      demo_cipher_def demo_cipher_attr_def demo_cipher_ctx_def psa_defs psa_get_key_usage_flags_def
      wolfpsa_key_permits_alg_def wolfpsa_policy_alg_permits_def psa_get_key_algorithm_def
      psa_key_attributes_init_def demo_key_def aes_key_direction_def Let_def)

definition demo_iv_ctx :: "cipher_dir \<Rightarrow> byte wolfpsa_cipher_ctx" where
  "demo_iv_ctx dir = (demo_cipher_ctx dir)\<lparr>iv_attempted := True, iv_set := True\<rparr>"

lemma demo_cipher_set_iv:
  "psa_cipher_set_iv demo_cipher (Some (Some (demo_cipher_ctx dir))) (In (replicate 16 0)) =
    (PSA_SUCCESS, Some (Some (demo_iv_ctx dir)))"
  by (simp add: psa_cipher_set_iv_def wolfpsa_cipher_set_iv_def wolfpsa_cipher_get_ctx_def
      cipher_load_iv_def wolfpsa_cipher_iv_length_def wolfpsa_cipher_block_size_def
      demo_cipher_def demo_cipher_ctx_def demo_iv_ctx_def Let_def)

lemma demo_iv_reachable: "cipher_reachable demo_env demo_cipher (Some (demo_iv_ctx dir))"
proof -
  let ?s = "demo_with demo_cipher_attr demo_key"
  have "cipher_reachable demo_env demo_cipher (Some (demo_cipher_ctx dir))"
  proof (cases dir)
    case AES_ENCRYPTION
    then have "cipher_step demo_env demo_cipher (Ci_encrypt_setup PSA_KEY_ID_VENDOR_MIN PSA_ALG_CBC_PKCS7) None ?s =
        (PSA_SUCCESS, Some (Some (demo_cipher_ctx dir)), ?s)"
      using demo_cipher_setup [of dir] by (simp add: psa_cipher_encrypt_setup_def)
    then show ?thesis by (rule cipher_next [OF cipher_init])
  next
    case AES_DECRYPTION
    then have "cipher_step demo_env demo_cipher (Ci_decrypt_setup PSA_KEY_ID_VENDOR_MIN PSA_ALG_CBC_PKCS7) None ?s =
        (PSA_SUCCESS, Some (Some (demo_cipher_ctx dir)), ?s)"
      using demo_cipher_setup [of dir] by (simp add: psa_cipher_decrypt_setup_def)
    then show ?thesis by (rule cipher_next [OF cipher_init])
  qed
  moreover have "cipher_step demo_env demo_cipher (Ci_set_iv (In (replicate 16 0))) (Some (demo_cipher_ctx dir)) ?s =
      (PSA_SUCCESS, Some (Some (demo_iv_ctx dir)), ?s)"
    using demo_cipher_set_iv [of dir] by simp
  ultimately show ?thesis by (rule cipher_next)
qed

lemma demo_cipher_update:
  "psa_cipher_update demo_cipher (Some (Some (demo_iv_ctx AES_ENCRYPTION))) 0x1000 (In [1, 2, 3]) 0x2000 (Out 32) (Some 0) =
    (PSA_SUCCESS, [], Some 0, Some (Some ((demo_iv_ctx AES_ENCRYPTION)\<lparr>partial := [1, 2, 3]\<rparr>)))"
  by (simp add: psa_cipher_update_def wolfpsa_cipher_get_ctx_def cipher_update_alg_def cipher_block_update_def
      ranges_overlap_def demo_iv_ctx_def demo_cipher_ctx_def wolfpsa_clear_length_def Let_def)

theorem cipher_operation_lifecycle_witness:
  "\<exists>ctx. psa_cipher_update demo_cipher (Some (Some (demo_iv_ctx AES_ENCRYPTION))) 0x1000 (In [1, 2, 3])
     0x2000 (Out 32) (Some 0) = (PSA_SUCCESS, [], Some 0, Some (Some ctx)) \<and> length (partial ctx) < block_size ctx"
proof -
  let ?s = "demo_with demo_cipher_attr demo_key"
  have "cipher_step demo_env demo_cipher (Ci_update 0x1000 (In [1, 2, 3]) 0x2000 (Out 32) (Some 0))
      (Some (demo_iv_ctx AES_ENCRYPTION)) ?s =
      (PSA_SUCCESS, Some (Some ((demo_iv_ctx AES_ENCRYPTION)\<lparr>partial := [1, 2, 3]\<rparr>)), ?s)"
    using demo_cipher_update by simp
  from cipher_operation_lifecycle [OF demo_iv_reachable this] demo_cipher_update show ?thesis
    by (simp add: holds_block_def demo_iv_ctx_def demo_cipher_ctx_def)
qed

section \<open>The output does not depend on the pieces\<close>

text \<open>A sequence of updates with their buffers; the outputs are put one after the other.\<close>

fun cipher_updates ::
    "'c cipher_engine \<Rightarrow> 'c psa_cipher_operation_t option \<Rightarrow> (u64 \<times> inbuf \<times> u64 \<times> outbuf) list \<Rightarrow>
     psa_status \<times> byte list \<times> 'c psa_cipher_operation_t option" where
  "cipher_updates E op [] = (PSA_SUCCESS, [], op)"
| "cipher_updates E op ((ia, x, oa, out) # r) =
    (case psa_cipher_update E op ia x oa out (Some 0) of
       (status, bs, n, op1) \<Rightarrow>
         if status \<noteq> PSA_SUCCESS then (status, bs, op1)
         else (case cipher_updates E op1 r of (st2, bs2, op2) \<Rightarrow> (st2, bs @ bs2, op2)))"

fun pieces :: "(u64 \<times> inbuf \<times> u64 \<times> outbuf) list \<Rightarrow> byte list" where
  "pieces [] = []"
| "pieces ((ia, x, oa, out) # r) = in_bytes x @ pieces r"

lemma cipher_updates_state:
  assumes "cipher_chains E" and "cipher_ctx_ok ctx0" and "cipher_state E ctx0 m o0 ctx"
    and "cipher_updates E (Some (Some ctx)) xs = (PSA_SUCCESS, out, op')"
  shows "\<exists>ctx'. op' = Some (Some ctx') \<and> cipher_state E ctx0 (m @ pieces xs) (o0 @ out) ctx'"
  using assms(3,4)
proof (induction xs arbitrary: m o0 ctx out)
  case (Cons y ys)
  obtain ia x oa ob where y: "y = (ia, x, oa, ob)" by (metis prod_cases4)
  obtain st bs n op1 where u: "psa_cipher_update E (Some (Some ctx)) ia x oa ob (Some 0) = (st, bs, n, op1)"
    by (metis prod_cases4)
  obtain st2 bs2 op2 where r: "cipher_updates E op1 ys = (st2, bs2, op2)" by (metis prod_cases3)
  have ok: "st = PSA_SUCCESS" "st2 = PSA_SUCCESS" "op2 = op'" "out = bs @ bs2"
    using Cons.prems(2) y u r by (auto split: if_split_asm)
  obtain ctx1 where c1: "op1 = Some (Some ctx1)" "cipher_state E ctx0 (m @ in_bytes x) (o0 @ bs) ctx1"
  proof (cases "in_bytes x = []")
    case True
    then have "in_length x = 0 \<and> op1 = Some (Some ctx) \<and> bs = []"
      using cipher_update_cases [OF u] ok(1) by auto
    then show ?thesis using that Cons.prems(1) True by simp
  next
    case False
    then have nz: "in_length x \<noteq> 0" by (cases x) auto
    then obtain k ctx1 where "cipher_update_alg E ctx (in_bytes x) (out_size ob) = Inr (bs, k, ctx1)"
      "op1 = Some (Some ctx1)"
      using cipher_update_cases [OF u] ok(1) by auto
    with cipher_update_alg_state [OF assms(1,2) Cons.prems(1) False] that show ?thesis by blast
  qed
  have "\<exists>ctx'. op' = Some (Some ctx') \<and>
      cipher_state E ctx0 ((m @ in_bytes x) @ pieces ys) ((o0 @ bs) @ bs2) ctx'"
    by (rule Cons.IH [OF c1(2)]) (use r ok c1(1) in simp)
  then show ?case using y ok(4) by simp
qed auto

lemma cipher_state_init: "partial ctx = [] \<Longrightarrow> cipher_state E ctx [] [] ctx"
  by (simp add: cipher_state_def cipher_done_def Let_def)

text \<open>
  C20: The output of a cipher operation does not depend on how the caller cuts the data: two
  sequences of updates on the same operation, with whatever buffers, that carry the same bytes
  and succeed give the same output and leave the operation in the same state (and so the same
  result of the finish), for every mode, direction and key type.
\<close>

theorem cipher_chunking:
  assumes "cipher_chains E" and "cipher_reachable env E (Some ctx)" and "partial ctx = []"
    and "cipher_updates E (Some (Some ctx)) xs = (PSA_SUCCESS, out1, op1)"
    and "cipher_updates E (Some (Some ctx)) ys = (PSA_SUCCESS, out2, op2)"
    and "pieces xs = pieces ys"
  shows "out1 = out2 \<and> op1 = op2"
proof -
  have ok: "cipher_ctx_ok ctx" using cipher_reachable_inv [OF assms(2) refl] by (simp add: cipher_inv_def)
  note S = cipher_updates_state [OF assms(1) ok cipher_state_init [OF assms(3)]]
  obtain c1 where c1: "op1 = Some (Some c1)" "cipher_state E ctx (pieces xs) out1 c1"
    using S [OF assms(4)] by auto
  obtain c2 where c2: "op2 = Some (Some c2)" "cipher_state E ctx (pieces xs) out2 c2"
    using S [OF assms(5)] assms(6) by auto
  note s1 = c1(2) [unfolded cipher_state_def Let_def] and s2 = c2(2) [unfolded cipher_state_def Let_def]
  have w: "out1 = out2" "ci_wc c1 = ci_wc c2"
    using proc_fun [OF conjunct1 [OF s1] conjunct1 [OF s2]] by simp_all
  let ?d = "drop (cipher_done ctx (length (pieces xs))) (pieces xs)"
  have e: "c1 = ctx\<lparr>partial := ?d, ci_wc := ci_wc c1\<rparr>" "c2 = ctx\<lparr>partial := ?d, ci_wc := ci_wc c2\<rparr>"
    by (rule conjunct2 [OF s1], rule conjunct2 [OF s2])
  have "c1 = ctx\<lparr>partial := ?d, ci_wc := ci_wc c2\<rparr>" using e(1) unfolding w(2) .
  then have "c1 = c2" unfolding e(2) [symmetric] .
  with w c1(1) c2(1) show ?thesis by simp
qed

theorem cipher_chunking_witness:
  "fst (snd (cipher_updates demo_cipher (Some (Some (demo_iv_ctx AES_ENCRYPTION)))
      [(0x1000, In [1, 2, 3], 0x2000, Out 32), (0x1000, In (replicate 15 7), 0x2000, Out 32)])) =
   fst (snd (cipher_updates demo_cipher (Some (Some (demo_iv_ctx AES_ENCRYPTION)))
      [(0x1000, In ([1, 2, 3] @ replicate 15 7), 0x2000, Out 32)]))"
proof -
  let ?c = "demo_iv_ctx AES_ENCRYPTION"
  let ?xs = "[(0x1000, In [1, 2, 3], 0x2000, Out 32), (0x1000, In (replicate 15 7), 0x2000, Out 32)]
      :: (u64 \<times> inbuf \<times> u64 \<times> outbuf) list"
  let ?ys = "[(0x1000, In ([1, 2, 3] @ replicate 15 7), 0x2000, Out 32)] :: (u64 \<times> inbuf \<times> u64 \<times> outbuf) list"
  note defs = psa_cipher_update_def wolfpsa_cipher_get_ctx_def cipher_update_alg_def cipher_block_update_def
    cipher_first_block_def cipher_whole_blocks_def cbc_op_def demo_cipher_def ranges_overlap_def demo_iv_ctx_def
    demo_cipher_ctx_def wolfpsa_clear_length_def
  have "fst (cipher_updates demo_cipher (Some (Some ?c)) ?xs) = PSA_SUCCESS" by (simp add: defs Let_def)
  then obtain o1 op1 where 1: "cipher_updates demo_cipher (Some (Some ?c)) ?xs = (PSA_SUCCESS, o1, op1)"
    by (metis prod.collapse)
  have "fst (cipher_updates demo_cipher (Some (Some ?c)) ?ys) = PSA_SUCCESS" by (simp add: defs Let_def)
  then obtain o2 op2 where 2: "cipher_updates demo_cipher (Some (Some ?c)) ?ys = (PSA_SUCCESS, o2, op2)"
    by (metis prod.collapse)
  have "partial ?c = []" by (simp add: demo_iv_ctx_def demo_cipher_ctx_def)
  moreover have "pieces ?xs = pieces ?ys" by simp
  ultimately have "o1 = o2 \<and> op1 = op2"
    by (rule cipher_chunking [OF demo_cipher_chains demo_iv_reachable _ 1 2])
  with 1 2 show ?thesis by (simp only: fst_conv snd_conv)
qed

end
