(* ===== verification/Cipher_Roundtrip.thy ===== *)
theory Cipher_Roundtrip
  imports Cipher_Machine
begin

text \<open>
  \<open>psa_cipher_decrypt\<close> undoes \<open>psa_cipher_encrypt\<close> (\<open>src/psa_cipher.c\<close>), for every supported algorithm
  and key type.
\<close>

unbundle bit_operations_syntax

section \<open>Decryption undoes encryption\<close>

fun inv_op :: "wc_cipher_op \<Rightarrow> wc_cipher_op" where
  "inv_op (Wc_Des3_Cbc dir) = Wc_Des3_Cbc AES_DECRYPTION"
| "inv_op (Wc_Aes_Cbc dir) = Wc_Aes_Cbc AES_DECRYPTION"
| "inv_op (Wc_Des3_Ecb dir) = Wc_Des3_Ecb AES_DECRYPTION"
| "inv_op (Wc_Aes_Ecb dir) = Wc_Aes_Ecb AES_DECRYPTION"
| "inv_op (Wc_Aes_Cfb dir) = Wc_Aes_Cfb AES_DECRYPTION"
| "inv_op (Wc_Aes_Ofb dir) = Wc_Aes_Ofb AES_DECRYPTION"
| "inv_op p = p"

text \<open>
  What the code relies on of wolfCrypt. \<open>K p e d\<close>: the contexts \<open>e\<close> and \<open>d\<close> hold the same key, one
  for \<open>p\<close> and one for its inverse; \<open>R p e d\<close>: moreover they stand at the same position after the
  same IV. Loading the same key and then the same IV pairs two contexts, and a paired context
  undoes what the other one did and stays paired. The modes CFB, OFB and CTR use the forward
  direction of AES on both sides.
\<close>

definition cipher_inverts ::
    "'c cipher_engine \<Rightarrow> (wc_cipher_op \<Rightarrow> 'c \<Rightarrow> 'c \<Rightarrow> bool) \<Rightarrow> (wc_cipher_op \<Rightarrow> 'c \<Rightarrow> 'c \<Rightarrow> bool) \<Rightarrow> bool" where
  "cipher_inverts E K R \<longleftrightarrow>
    (\<forall>k c0 c1 e d. wc_Chacha_SetKey E k c0 = (WC_OK, e) \<and> wc_Chacha_SetKey E k c1 = (WC_OK, d) \<longrightarrow>
       K Wc_Chacha_Process e d) \<and>
    (\<forall>k iv c0 c1 e d p. p \<in> {Wc_Des3_Cbc AES_ENCRYPTION, Wc_Des3_Ecb AES_ENCRYPTION} \<and>
       wc_Des3_SetKey E k iv AES_ENCRYPTION c0 = (WC_OK, e) \<and>
       wc_Des3_SetKey E k iv AES_DECRYPTION c1 = (WC_OK, d) \<longrightarrow> K p e d) \<and>
    (\<forall>k iv c0 c1 e d p. p \<in> {Wc_Aes_Cbc AES_ENCRYPTION, Wc_Aes_Ecb AES_ENCRYPTION} \<and>
       wc_AesSetKey E k iv AES_ENCRYPTION c0 = (WC_OK, e) \<and>
       wc_AesSetKey E k iv AES_DECRYPTION c1 = (WC_OK, d) \<longrightarrow> K p e d) \<and>
    (\<forall>k iv c0 c1 e d p. p \<in> {Wc_Aes_Ctr, Wc_Aes_Cfb AES_ENCRYPTION, Wc_Aes_Ofb AES_ENCRYPTION} \<and>
       wc_AesSetKey E k iv AES_ENCRYPTION c0 = (WC_OK, e) \<and>
       wc_AesSetKey E k iv AES_ENCRYPTION c1 = (WC_OK, d) \<longrightarrow> K p e d) \<and>
    (\<forall>k iv c0 c1 e d. wc_AesCtrSetKey E k iv AES_ENCRYPTION c0 = (WC_OK, e) \<and>
       wc_AesCtrSetKey E k iv AES_ENCRYPTION c1 = (WC_OK, d) \<longrightarrow> K Wc_Aes_Ctr e d) \<and>
    (\<forall>iv n e d e' p. K p e d \<and> wc_Chacha_SetIV E iv n e = (WC_OK, e') \<longrightarrow>
       (\<exists>d'. wc_Chacha_SetIV E iv n d = (WC_OK, d') \<and> R p e' d')) \<and>
    (\<forall>iv e d e' p. K p e d \<and> wc_Des3_SetIV E iv e = (WC_OK, e') \<longrightarrow>
       (\<exists>d'. wc_Des3_SetIV E iv d = (WC_OK, d') \<and> R p e' d')) \<and>
    (\<forall>iv e d e' p. K p e d \<and> wc_AesSetIV E iv e = (WC_OK, e') \<longrightarrow>
       (\<exists>d'. wc_AesSetIV E iv d = (WC_OK, d') \<and> R p e' d')) \<and>
    (\<forall>e d p. K p e d \<and> p \<in> {Wc_Des3_Ecb AES_ENCRYPTION, Wc_Aes_Ecb AES_ENCRYPTION} \<longrightarrow> R p e d) \<and>
    (\<forall>p x e d y e'. R p e d \<and> wc_process E p x e = (WC_OK, y, e') \<longrightarrow>
       (\<exists>d'. wc_process E (inv_op p) y d = (WC_OK, x, d') \<and> R p e' d'))"

lemma demo_cipher_inverts: "cipher_inverts demo_cipher (\<lambda>p e d. e = d) (\<lambda>p e d. e = d)"
  by (auto simp: cipher_inverts_def demo_cipher_def comp_def xor.assoc intro!: map_idI)

text \<open>An operation right before its first update.\<close>

lemma cipher_update_fresh:
  assumes inv: "cipher_inv ctx" and pn: "partial ctx = []" and inp: "inp \<noteq> []"
    and iv: "iv_set ctx \<or> ci_alg ctx = PSA_ALG_ECB_NO_PADDING"
    and k: "k = cipher_done ctx (length inp)" and cap: "k \<le> cap"
    and pr: "proc E (cipher_op_of ctx) (take k inp) (ci_wc ctx) out w"
  shows "cipher_update_alg E ctx inp cap = Inr (out, k, ctx\<lparr>partial := drop k inp, ci_wc := w\<rparr>)"
proof -
  define bs where "bs = block_size ctx"
  have bs: "0 < bs" using inv by (auto simp: cipher_inv_def cipher_ctx_ok_def bs_def)
  have alg: "wolfpsa_cipher_check_alg (ci_alg ctx) = PSA_SUCCESS" using inv by (simp add: cipher_inv_def)
  have fb: "cipher_first_block E p ctx x = Inr ([], 0, ctx)" for p x
    using pn by (simp add: cipher_first_block_def)
  have wb: "cipher_whole_blocks E (cipher_op_of ctx) ctx (take k inp) = Inr (out, ctx\<lparr>ci_wc := w\<rparr>)"
    using pr by (auto simp: cipher_whole_blocks_def proc_def split: if_split_asm)
  have kle: "k \<le> length inp" unfolding k by (rule cipher_done_le)
  have same: "(if drop k inp \<noteq> [] then ctx\<lparr>ci_wc := w, partial := drop k inp\<rparr> else ctx\<lparr>ci_wc := w\<rparr>) =
      ctx\<lparr>partial := drop k inp, ci_wc := w\<rparr>"
    using pn by (cases "drop k inp = []") simp_all
  let ?blk = "ci_alg ctx \<in> {PSA_ALG_CBC_NO_PADDING, PSA_ALG_ECB_NO_PADDING} \<or>
      ci_alg ctx = PSA_ALG_CBC_PKCS7 \<and> direction ctx = AES_ENCRYPTION"
  consider (blk) ?blk | (dec) "\<not> ?blk" "ci_alg ctx = PSA_ALG_CBC_PKCS7" "direction ctx = AES_DECRYPTION"
    | (stream) "\<not> ?blk" "ci_alg ctx \<noteq> PSA_ALG_CBC_PKCS7"
    by (cases "direction ctx") blast+
  then show ?thesis
  proof cases
    case blk
    have ke: "k = length inp div bs * bs" using blk k by (simp add: cipher_done_def bs_def)
    have "cipher_block_update E (cipher_op_of ctx) ctx inp cap = Inr (out, k, ctx\<lparr>partial := drop k inp, ci_wc := w\<rparr>)"
    proof (cases "length inp div bs = 0")
      case True
      then show ?thesis using ke pr pn by (simp add: cipher_block_update_def bs_def)
    next
      case False
      then show ?thesis
        using ke fb wb cap same pn by (simp add: cipher_block_update_def Let_def bs_def)
    qed
    then show ?thesis
      using blk iv by (auto simp: cipher_update_alg_def cipher_op_of_def Let_def)
  next
    case dec
    have ke: "k = (length inp - 1) div bs * bs" using dec k by (simp add: cipher_done_def bs_def)
    have ke': "(length inp - Suc 0) div bs * bs = k" using ke by simp
    have "cipher_pkcs7_dec_update E (cipher_op_of ctx) ctx inp cap = Inr (out, k, ctx\<lparr>partial := drop k inp, ci_wc := w\<rparr>)"
    proof (cases "k = 0")
      case True
      then show ?thesis
        using pr pn unfolding cipher_pkcs7_dec_update_def bs_def [symmetric] by (simp add: Let_def ke')
    next
      case False
      have nlt: "\<not> length inp < bs"
        using False ke bs by (metis div_eq_0_iff less_imp_diff_less mult_is_0)
      have "length inp - 1 < k + bs" unfolding ke using bs by (simp add: dividend_less_div_times add.commute)
      then have near: "length inp \<le> k + bs" by simp
      have lt: "k < length inp" using kle ke inp
        by (metis diff_less div_times_less_eq_dividend le_less_trans length_greater_0_conv zero_less_one)
      have tk: "take bs (drop k inp) = drop k inp" using near by simp
      have c: "(if length inp \<ge> k + bs then ctx\<lparr>ci_wc := w, partial := take bs (drop k inp)\<rparr>
          else if length inp > k then ctx\<lparr>ci_wc := w, partial := drop k inp\<rparr> else ctx\<lparr>ci_wc := w\<rparr>) =
          ctx\<lparr>partial := drop k inp, ci_wc := w\<rparr>"
        using lt tk by simp
      show ?thesis
        using False nlt cap fb wb c unfolding cipher_pkcs7_dec_update_def bs_def [symmetric]
        by (simp add: Let_def ke' pn)
    qed
    then show ?thesis
      using dec iv by (auto simp: cipher_update_alg_def cipher_op_of_def Let_def)
  next
    case stream
    have ke: "k = length inp" using stream k by (simp add: cipher_done_def)
    have "cipher_stream_update E (cipher_op_of ctx) ctx inp cap = Inr (out, k, ctx\<lparr>partial := drop k inp, ci_wc := w\<rparr>)"
      using ke pr cap pn inp by (simp add: cipher_stream_update_def proc_def)
    then show ?thesis
      using stream iv alg
      by (auto simp: cipher_update_alg_def cipher_op_of_def wolfpsa_cipher_check_alg_def Let_def split: if_split_asm)
  qed
qed

lemma cipher_invertsD:
  assumes "cipher_inverts E K R"
  shows "wc_Chacha_SetKey E k c0 = (WC_OK, e) \<Longrightarrow> wc_Chacha_SetKey E k c1 = (WC_OK, d) \<Longrightarrow> K Wc_Chacha_Process e d"
    and "p \<in> {Wc_Des3_Cbc AES_ENCRYPTION, Wc_Des3_Ecb AES_ENCRYPTION} \<Longrightarrow>
       wc_Des3_SetKey E k iv AES_ENCRYPTION c0 = (WC_OK, e) \<Longrightarrow>
       wc_Des3_SetKey E k iv AES_DECRYPTION c1 = (WC_OK, d) \<Longrightarrow> K p e d"
    and "p \<in> {Wc_Aes_Cbc AES_ENCRYPTION, Wc_Aes_Ecb AES_ENCRYPTION} \<Longrightarrow>
       wc_AesSetKey E k iv AES_ENCRYPTION c0 = (WC_OK, e) \<Longrightarrow>
       wc_AesSetKey E k iv AES_DECRYPTION c1 = (WC_OK, d) \<Longrightarrow> K p e d"
    and "p \<in> {Wc_Aes_Ctr, Wc_Aes_Cfb AES_ENCRYPTION, Wc_Aes_Ofb AES_ENCRYPTION} \<Longrightarrow>
       wc_AesSetKey E k iv AES_ENCRYPTION c0 = (WC_OK, e) \<Longrightarrow>
       wc_AesSetKey E k iv AES_ENCRYPTION c1 = (WC_OK, d) \<Longrightarrow> K p e d"
    and "wc_AesCtrSetKey E k iv AES_ENCRYPTION c0 = (WC_OK, e) \<Longrightarrow>
       wc_AesCtrSetKey E k iv AES_ENCRYPTION c1 = (WC_OK, d) \<Longrightarrow> K Wc_Aes_Ctr e d"
    and "K p e d \<Longrightarrow> wc_Chacha_SetIV E iv n e = (WC_OK, e') \<Longrightarrow>
       \<exists>d'. wc_Chacha_SetIV E iv n d = (WC_OK, d') \<and> R p e' d'"
    and "K p e d \<Longrightarrow> wc_Des3_SetIV E iv e = (WC_OK, e') \<Longrightarrow>
       \<exists>d'. wc_Des3_SetIV E iv d = (WC_OK, d') \<and> R p e' d'"
    and "K p e d \<Longrightarrow> wc_AesSetIV E iv e = (WC_OK, e') \<Longrightarrow>
       \<exists>d'. wc_AesSetIV E iv d = (WC_OK, d') \<and> R p e' d'"
    and "K p e d \<Longrightarrow> p \<in> {Wc_Des3_Ecb AES_ENCRYPTION, Wc_Aes_Ecb AES_ENCRYPTION} \<Longrightarrow> R p e d"
    and "R p e d \<Longrightarrow> wc_process E p x e = (WC_OK, y, e') \<Longrightarrow>
       \<exists>d'. wc_process E (inv_op p) y d = (WC_OK, x, d') \<and> R p e' d'"
  using assms unfolding cipher_inverts_def by - (elim conjE, meson)+

lemma cipher_start_wc:
  assumes "cipher_start E d ctx = (WC_OK, ctx')"
  shows "is_chacha ctx \<Longrightarrow> wc_Chacha_SetKey E d (ci_wc ctx) = (WC_OK, ci_wc ctx')"
    and "\<not> is_chacha ctx \<Longrightarrow> is_des3 ctx \<Longrightarrow>
      \<exists>c1. wc_Des3_SetKey E (take DES3_KEY_SIZE d) (ci_iv ctx) (direction ctx) c1 = (WC_OK, ci_wc ctx')"
    and "\<not> is_chacha ctx \<Longrightarrow> \<not> is_des3 ctx \<Longrightarrow> ci_alg ctx = PSA_ALG_CTR \<Longrightarrow>
      \<exists>c1. wc_AesCtrSetKey E d (ci_iv ctx) AES_ENCRYPTION c1 = (WC_OK, ci_wc ctx')"
    and "\<not> is_chacha ctx \<Longrightarrow> \<not> is_des3 ctx \<Longrightarrow> ci_alg ctx \<noteq> PSA_ALG_CTR \<Longrightarrow>
      \<exists>c1. wc_AesSetKey E d (ci_iv ctx) (aes_key_direction (direction ctx) (ci_alg ctx)) c1 = (WC_OK, ci_wc ctx')"
  using assms by (auto simp: cipher_start_def Let_def split: prod.splits if_split_asm)

lemma new_ctx_fields [simp]:
  "is_chacha (cipher_new_ctx E dir a attrs) = (a = PSA_ALG_STREAM_CIPHER)"
  "is_des3 (cipher_new_ctx E dir a attrs) = (type attrs = PSA_KEY_TYPE_DES)"
  "ci_alg (cipher_new_ctx E dir a attrs) = a" "direction (cipher_new_ctx E dir a attrs) = dir"
  "ci_iv (cipher_new_ctx E dir a attrs) = replicate AES_BLOCK_SIZE 0"
  "ci_key_type (cipher_new_ctx E dir a attrs) = type attrs"
  "partial (cipher_new_ctx E dir a attrs) = []" "\<not> iv_attempted (cipher_new_ctx E dir a attrs)"
  "\<not> iv_set (cipher_new_ctx E dir a attrs)"
  "block_size (cipher_new_ctx E dir a attrs) = wolfpsa_cipher_block_size (type attrs)"
  by (simp_all add: cipher_new_ctx_def)

lemma start_pair:
  assumes inv: "cipher_inverts E K R" and ca: "wolfpsa_cipher_check_alg a = PSA_SUCCESS"
    and ty: "cipher_type_ok (type attrs) a"
    and e: "cipher_start E d (cipher_new_ctx E AES_ENCRYPTION a attrs) = (WC_OK, ce)"
    and f: "cipher_start E d (cipher_new_ctx E AES_DECRYPTION a attrs) = (WC_OK, cd)"
  shows "K (cipher_op_of (cipher_new_ctx E AES_ENCRYPTION a attrs)) (ci_wc ce) (ci_wc cd)"
    and "cipher_op_of (cipher_new_ctx E AES_DECRYPTION a attrs) =
      inv_op (cipher_op_of (cipher_new_ctx E AES_ENCRYPTION a attrs))"
proof -
  let ?e = "cipher_new_ctx E AES_ENCRYPTION a attrs" and ?d = "cipher_new_ctx E AES_DECRYPTION a attrs"
  note se = cipher_start_wc [OF e, simplified] and sd = cipher_start_wc [OF f, simplified]
  have alg: "a \<in> {PSA_ALG_CBC_NO_PADDING, PSA_ALG_CBC_PKCS7, PSA_ALG_ECB_NO_PADDING, PSA_ALG_CTR,
      PSA_ALG_CCM_STAR_NO_TAG, PSA_ALG_CFB, PSA_ALG_OFB, PSA_ALG_STREAM_CIPHER}"
    using ca by (simp add: wolfpsa_cipher_check_alg_def split: if_split_asm)
  show "K (cipher_op_of ?e) (ci_wc ce) (ci_wc cd)"
  proof (cases "a = PSA_ALG_STREAM_CIPHER")
    case True
    then have "cipher_op_of ?e = Wc_Chacha_Process" by (simp add: cipher_op_of_def)
    then show ?thesis using cipher_invertsD(1) [OF inv se(1) sd(1)] True by simp
  next
    case nst: False
    show ?thesis
    proof (cases "type attrs = PSA_KEY_TYPE_DES")
      case True
      then have "cipher_op_of ?e \<in> {Wc_Des3_Cbc AES_ENCRYPTION, Wc_Des3_Ecb AES_ENCRYPTION}"
        using ty nst by (auto simp: cipher_type_ok_def cipher_op_of_def cbc_op_def ecb_op_def)
      then show ?thesis using cipher_invertsD(2) [OF inv] se(2) sd(2) True nst by blast
    next
      case nd: False
      show ?thesis
      proof (cases "a = PSA_ALG_CTR")
        case True
        then have "cipher_op_of ?e = Wc_Aes_Ctr" by (simp add: cipher_op_of_def)
        then show ?thesis using cipher_invertsD(5) [OF inv] se(3) sd(3) True nst nd by metis
      next
        case nc: False
        obtain c0 where k0: "wc_AesSetKey E d (replicate AES_BLOCK_SIZE 0) (aes_key_direction AES_ENCRYPTION a) c0 =
          (WC_OK, ci_wc ce)" using se(4) nst nd nc by blast
        obtain c1 where k1: "wc_AesSetKey E d (replicate AES_BLOCK_SIZE 0) (aes_key_direction AES_DECRYPTION a) c1 =
          (WC_OK, ci_wc cd)" using sd(4) nst nd nc by blast
        show ?thesis
        proof (cases "a \<in> {PSA_ALG_CCM_STAR_NO_TAG, PSA_ALG_OFB, PSA_ALG_CFB}")
          case True
          then have op: "cipher_op_of ?e \<in> {Wc_Aes_Ctr, Wc_Aes_Cfb AES_ENCRYPTION, Wc_Aes_Ofb AES_ENCRYPTION}"
            by (auto simp: cipher_op_of_def)
          have "aes_key_direction AES_ENCRYPTION a = AES_ENCRYPTION" "aes_key_direction AES_DECRYPTION a = AES_ENCRYPTION"
            using True by (auto simp: aes_key_direction_def)
          then show ?thesis using cipher_invertsD(4) [OF inv op] k0 k1 by simp
        next
          case False
          then have op: "cipher_op_of ?e \<in> {Wc_Aes_Cbc AES_ENCRYPTION, Wc_Aes_Ecb AES_ENCRYPTION}"
            using alg nst nc nd by (auto simp: cipher_op_of_def cbc_op_def ecb_op_def)
          have "aes_key_direction AES_ENCRYPTION a = AES_ENCRYPTION" "aes_key_direction AES_DECRYPTION a = AES_DECRYPTION"
            using False by (auto simp: aes_key_direction_def)
          then show ?thesis using cipher_invertsD(3) [OF inv op] k0 k1 by simp
        qed
      qed
    qed
  qed
  show "cipher_op_of ?d = inv_op (cipher_op_of ?e)"
    by (simp add: cipher_op_of_def cbc_op_def ecb_op_def Let_def)
qed

lemma iv_pair:
  assumes inv: "cipher_inverts E K R" and k: "K p (ci_wc ce) (ci_wc cd)"
    and same: "ci_alg cd = ci_alg ce" "ci_key_type cd = ci_key_type ce" "is_des3 cd = is_des3 ce" "ci_iv cd = ci_iv ce"
    and l: "cipher_load_iv E ce iv = (PSA_SUCCESS, ce2)"
  shows "\<exists>cd2. cipher_load_iv E cd iv = (PSA_SUCCESS, cd2) \<and> R p (ci_wc ce2) (ci_wc cd2)"
proof -
  note D = cipher_invertsD(6-8) [OF inv k]
  consider (st) "ci_alg ce = PSA_ALG_STREAM_CIPHER"
    | (ccm) "ci_alg ce = PSA_ALG_CCM_STAR_NO_TAG"
    | (blk) "ci_alg ce \<noteq> PSA_ALG_STREAM_CIPHER" "ci_alg ce \<noteq> PSA_ALG_CCM_STAR_NO_TAG" by blast
  then show ?thesis
  proof cases
    case st
    then have w: "wc_Chacha_SetIV E iv 0 (ci_wc ce) = (WC_OK, ci_wc ce2)" "length iv = WOLFPSA_CHACHA20_IV_BYTES"
      using l by (auto simp: cipher_load_iv_def Let_def split: if_split_asm prod.splits)
    from D(1) [OF w(1)] w(2) st same show ?thesis by (auto simp: cipher_load_iv_def)
  next
    case ccm
    then have w: "wc_AesSetIV E (ccm_star_counter iv) (ci_wc ce) = (WC_OK, ci_wc ce2)" "length iv = 13"
      using l by (auto simp: cipher_load_iv_def Let_def split: if_split_asm prod.splits)
    from D(3) [OF w(1)] w(2) ccm same show ?thesis by (auto simp: cipher_load_iv_def)
  next
    case blk
    define niv where "niv = iv @ drop (wolfpsa_cipher_block_size (ci_key_type ce)) (ci_iv ce)"
    have len: "length iv = wolfpsa_cipher_block_size (ci_key_type ce)"
      using l blk by (auto simp: cipher_load_iv_def Let_def split: if_split_asm)
    show ?thesis
    proof (cases "is_des3 ce")
      case True
      then have w: "wc_Des3_SetIV E niv (ci_wc ce) = (WC_OK, ci_wc ce2)"
        using l blk len by (auto simp: cipher_load_iv_def Let_def niv_def split: if_split_asm prod.splits)
      from D(2) [OF w] len blk same True show ?thesis by (auto simp: cipher_load_iv_def Let_def niv_def)
    next
      case False
      then have w: "wc_AesSetIV E niv (ci_wc ce) = (WC_OK, ci_wc ce2)"
        using l blk len by (auto simp: cipher_load_iv_def Let_def niv_def split: if_split_asm prod.splits)
      from D(3) [OF w] len blk same False show ?thesis by (auto simp: cipher_load_iv_def Let_def niv_def)
    qed
  qed
qed

text \<open>Two operations that are ready for data and belong together.\<close>

definition paired ::
    "(wc_cipher_op \<Rightarrow> 'c \<Rightarrow> 'c \<Rightarrow> bool) \<Rightarrow> 'c wolfpsa_cipher_ctx \<Rightarrow> 'c wolfpsa_cipher_ctx \<Rightarrow> bool" where
  "paired R ce cd \<longleftrightarrow>
    R (cipher_op_of ce) (ci_wc ce) (ci_wc cd) \<and> cipher_op_of cd = inv_op (cipher_op_of ce) \<and>
    cipher_inv ce \<and> cipher_inv cd \<and> partial ce = [] \<and> partial cd = [] \<and>
    direction ce = AES_ENCRYPTION \<and> direction cd = AES_DECRYPTION \<and>
    ci_alg cd = ci_alg ce \<and> block_size cd = block_size ce \<and> is_des3 cd = is_des3 ce \<and>
    (iv_set cd \<or> ci_alg ce = PSA_ALG_ECB_NO_PADDING)"

lemma proc_inverse:
  assumes inv: "cipher_inverts E K R" and ch: "cipher_chains E" and r: "R p e d" and pr: "proc E p x e y e'"
  shows "\<exists>d'. proc E (inv_op p) y d x d' \<and> R p e' d'"
proof (cases "x = []")
  case True
  then show ?thesis using pr r by simp
next
  case False
  then have w: "wc_process E p x e = (WC_OK, y, e')" using pr by (simp add: proc_def)
  have "y \<noteq> []" using proc_length [OF ch pr] False by auto
  with cipher_invertsD(10) [OF inv r w] show ?thesis by (auto simp: proc_def)
qed

lemma cipher_update_forward:
  assumes "cipher_update_alg E ctx x cap = Inr (out, n, ctx')" and "x \<noteq> []" and "length x \<le> UINT32_MAX"
    and "\<not> ranges_overlap ia (In x) oa (Out cap)"
  shows "psa_cipher_update E (Some (Some ctx)) ia (In x) oa (Out cap) (Some 0) =
    (PSA_SUCCESS, out, Some n, Some (Some ctx'))"
  using assms by (simp add: psa_cipher_update_def wolfpsa_cipher_get_ctx_def)

lemma finish_enc_parts:
  assumes f: "psa_cipher_finish E (Some (Some ctx)) ob (Some 0) = (PSA_SUCCESS, fin, finl, op4)"
    and dir: "direction ctx = AES_ENCRYPTION"
  shows "if ci_alg ctx = PSA_ALG_CBC_PKCS7
    then length (partial ctx) < block_size ctx \<and> finl = Some (block_size ctx) \<and>
      (\<exists>w. wc_process E (cbc_op ctx) (pkcs7_pad (block_size ctx) (partial ctx)) (ci_wc ctx) = (WC_OK, fin, w))
    else fin = [] \<and> finl = Some 0 \<and>
      (ci_alg ctx \<in> {PSA_ALG_CBC_NO_PADDING, PSA_ALG_ECB_NO_PADDING} \<longrightarrow> partial ctx = [])"
  using f dir
  by (auto simp: psa_cipher_finish_def wolfpsa_cipher_get_ctx_def wolfpsa_cipher_fail_def wolfpsa_clear_length_def
      cipher_finish_pkcs7_enc_def pkcs7_pad_def cbc_op_def Let_def split: if_split_asm sum.splits prod.splits)

lemma finish_plain:
  assumes "ci_alg ctx \<noteq> PSA_ALG_CBC_PKCS7" and "partial ctx = []"
  shows "psa_cipher_finish E (Some (Some ctx)) (Out cap) (Some 0) = (PSA_SUCCESS, [], Some 0, Some None)"
  using assms
  by (auto simp: psa_cipher_finish_def wolfpsa_cipher_get_ctx_def wolfpsa_clear_length_def psa_cipher_abort_def)

lemma finish_unpad:
  assumes "ci_alg ctx = PSA_ALG_CBC_PKCS7" and "direction ctx = AES_DECRYPTION" and "iv_set ctx"
    and bs: "block_size ctx = bs" "bs \<le> 16" and x: "length x < bs" and l: "length (partial ctx) = bs"
    and w: "wc_process E (cbc_op ctx) (partial ctx) (ci_wc ctx) = (WC_OK, pkcs7_pad bs x, w')"
    and cap: "length x \<le> cap"
  shows "psa_cipher_finish E (Some (Some ctx)) (Out cap) (Some 0) = (PSA_SUCCESS, x, Some (length x), Some None)"
proof -
  have d: "cipher_finish_pkcs7_dec E ctx cap = Inr (x, length x)"
    using assms(1-3) l w cap bs pkcs7_pad_valid [OF x bs(2)] unfolding cipher_finish_pkcs7_dec_def
    by (cases "is_des3 ctx") (simp_all add: Let_def cbc_op_def)
  then show ?thesis
    using assms(1-3)
    by (simp add: psa_cipher_finish_def wolfpsa_cipher_get_ctx_def psa_cipher_abort_def)
qed

lemma paired_data:
  assumes inv: "cipher_inverts E K R" and ch: "cipher_chains E" and pd: "paired R ce cd"
    and up: "psa_cipher_update E (Some (Some ce)) ia (In m) oa ob (Some 0) = (PSA_SUCCESS, out, outl, op3)"
    and fi: "psa_cipher_finish E op3 ob2 (Some 0) = (PSA_SUCCESS, fin, finl, op4)"
    and cap: "length (out @ fin) \<le> cap" and w32: "length (out @ fin) \<le> UINT32_MAX"
    and nov: "\<not> ranges_overlap ib (In (out @ fin)) oc (Out cap)"
  shows "\<exists>o2 n2 op f2 nf. psa_cipher_update E (Some (Some cd)) ib (In (out @ fin)) oc (Out cap) (Some 0) =
      (PSA_SUCCESS, o2, Some n2, op) \<and>
    psa_cipher_finish E op (Out (cap - n2)) (Some 0) = (PSA_SUCCESS, f2, Some nf, Some None) \<and>
    o2 @ f2 = m \<and> n2 + nf = length m"
    and "outl = Some (length out)" and "finl = Some (length fin)"
proof -
  have cinv: "cipher_inv ce" "cipher_inv cd" using pd by (simp_all add: paired_def)
  have "cipher_ctx_ok ce" using cinv(1) by (simp add: cipher_inv_def)
  note ok = this cinv
  have P: "R (cipher_op_of ce) (ci_wc ce) (ci_wc cd)" "cipher_op_of cd = inv_op (cipher_op_of ce)"
    "partial ce = []" "partial cd = []" "direction ce = AES_ENCRYPTION" "direction cd = AES_DECRYPTION"
    "ci_alg cd = ci_alg ce" "block_size cd = block_size ce" "is_des3 cd = is_des3 ce"
    "iv_set cd \<or> ci_alg cd = PSA_ALG_ECB_NO_PADDING"
    using pd by (auto simp: paired_def)
  define bs where "bs = block_size ce"
  have bs: "0 < bs" "bs \<le> 16" using ok(1) by (auto simp: cipher_ctx_ok_def bs_def)
  define k where "k = cipher_done ce (length m)"
  have kle: "k \<le> length m" unfolding k_def by (rule cipher_done_le)
  have "cipher_updates E (Some (Some ce)) [(ia, In m, oa, ob)] = (PSA_SUCCESS, out, op3)" using up by simp
  from cipher_updates_state [OF ch ok(1) cipher_state_init [OF P(3)] this]
  obtain c3 where c3: "op3 = Some (Some c3)" and st: "cipher_state E ce m out c3" by auto
  have pr: "proc E (cipher_op_of ce) (take k m) (ci_wc ce) out (ci_wc c3)"
    and c3e: "c3 = ce\<lparr>partial := drop k m, ci_wc := ci_wc c3\<rparr>"
    using st unfolding cipher_state_def Let_def k_def by (rule conjunct1, rule conjunct2)
  obtain v where v: "c3 = ce\<lparr>partial := drop k m, ci_wc := v\<rparr>" using c3e by blast
  have f3: "direction c3 = AES_ENCRYPTION" "ci_alg c3 = ci_alg ce" "block_size c3 = bs"
    "partial c3 = drop k m" "cbc_op c3 = cbc_op ce"
    unfolding v using P by (simp_all add: bs_def)
  have lo: "length out = k" using proc_length [OF ch pr] kle by simp
  show "outl = Some (length out)"
  proof (cases "m = []")
    case True
    then show ?thesis using up lo kle
      by (auto simp: psa_cipher_update_def wolfpsa_cipher_get_ctx_def wolfpsa_cipher_fail_def
          wolfpsa_clear_length_def psa_cipher_abort_def Let_def split: if_split_asm)
  next
    case False
    obtain n c' where u: "cipher_update_alg E ce m (out_size ob) = Inr (out, n, c')" "outl = Some n"
      using up False
      by (auto simp: psa_cipher_update_def wolfpsa_cipher_get_ctx_def wolfpsa_cipher_fail_def
          psa_cipher_abort_def Let_def split: if_split_asm sum.splits)
    from cipher_update_alg_state [OF ch ok(1) cipher_state_init [OF P(3)] False u(1)] u(2) show ?thesis by simp
  qed
  note F = finish_enc_parts [OF fi [unfolded c3] f3(1), unfolded f3]
  obtain d1 where d1: "proc E (inv_op (cipher_op_of ce)) out (ci_wc cd) (take k m) d1"
      "R (cipher_op_of ce) (ci_wc c3) d1"
    using proc_inverse [OF inv ch P(1) pr] by blast
  show "finl = Some (length fin)"
  proof (cases "ci_alg ce = PSA_ALG_CBC_PKCS7")
    case True
    then obtain w where l: "length (drop k m) < bs" and fl: "finl = Some bs"
      and w: "wc_process E (cbc_op ce) (pkcs7_pad bs (drop k m)) (ci_wc c3) = (WC_OK, fin, w)"
      using F by (auto simp del: length_drop)
    have "length fin = length (pkcs7_pad bs (drop k m))" using ch w unfolding cipher_chains_def by blast
    then show ?thesis using fl pkcs7_pad_valid(1) [OF l bs(2)] by simp
  next
    case False
    then show ?thesis using F by simp
  qed
  show "\<exists>o2 n2 op f2 nf. psa_cipher_update E (Some (Some cd)) ib (In (out @ fin)) oc (Out cap) (Some 0) =
      (PSA_SUCCESS, o2, Some n2, op) \<and>
    psa_cipher_finish E op (Out (cap - n2)) (Some 0) = (PSA_SUCCESS, f2, Some nf, Some None) \<and>
    o2 @ f2 = m \<and> n2 + nf = length m"
  proof (cases "ci_alg ce = PSA_ALG_CBC_PKCS7")
    case True
    then obtain w where l: "length (drop k m) < bs"
      and w: "wc_process E (cbc_op ce) (pkcs7_pad bs (drop k m)) (ci_wc c3) = (WC_OK, fin, w)"
      using F by (auto simp del: length_drop)
    note pad = pkcs7_pad_valid [OF l bs(2)]
    have lf: "length fin = bs" using ch w pad(1) unfolding cipher_chains_def by metis
    have oe: "cipher_op_of ce = cbc_op ce" "cipher_op_of cd = cbc_op cd" using True P by (simp_all add: cipher_op_of_def)
    obtain d2 where d2: "wc_process E (cbc_op cd) fin d1 = (WC_OK, pkcs7_pad bs (drop k m), d2)"
      using cipher_invertsD(10) [OF inv d1(2)] w oe P(2) by metis
    have kdvd: "bs dvd k" using True P by (simp add: k_def cipher_done_def bs_def)
    have dn: "cipher_done cd (length (out @ fin)) = k"
      using div_mult_dvd [OF bs(1) kdvd, of "bs - 1"] True P lo lf bs
      by (simp add: cipher_done_def bs_def)
    have ne: "out @ fin \<noteq> []" using lf bs by auto
    let ?c = "cd\<lparr>partial := fin, ci_wc := d1\<rparr>"
    have "cipher_update_alg E cd (out @ fin) cap = Inr (take k m, k, cd\<lparr>partial := drop k (out @ fin), ci_wc := d1\<rparr>)"
      by (rule cipher_update_fresh [OF ok(3) P(4) ne P(10) dn [symmetric]]) (use cap lo d1 P in simp_all)
    then have u: "psa_cipher_update E (Some (Some cd)) ib (In (out @ fin)) oc (Out cap) (Some 0) =
        (PSA_SUCCESS, take k m, Some k, Some (Some ?c))"
      using cipher_update_forward [OF _ ne w32 nov] lo by simp
    have "psa_cipher_finish E (Some (Some ?c)) (Out (cap - k)) (Some 0) =
        (PSA_SUCCESS, drop k m, Some (length (drop k m)), Some None)"
      by (rule finish_unpad [where bs = bs]) (use True P l lf d2 bs cap lo in \<open>simp_all add: bs_def\<close>)
    with u have "\<exists>op. psa_cipher_update E (Some (Some cd)) ib (In (out @ fin)) oc (Out cap) (Some 0) =
        (PSA_SUCCESS, take k m, Some k, op) \<and>
      psa_cipher_finish E op (Out (cap - k)) (Some 0) =
        (PSA_SUCCESS, drop k m, Some (length (drop k m)), Some None)"
      by blast
    moreover have "take k m @ drop k m = m" "k + length (drop k m) = length m" using kle by simp_all
    ultimately show ?thesis by blast
  next
    case False
    have fin: "fin = []" using F False by simp
    have km: "k = length m"
    proof (cases "ci_alg ce \<in> {PSA_ALG_CBC_NO_PADDING, PSA_ALG_ECB_NO_PADDING}")
      case True
      then have "drop k m = []" using F False by simp
      then show ?thesis using kle by simp
    next
      case ns: False
      then show ?thesis using False by (simp add: k_def cipher_done_def)
    qed
    show ?thesis
    proof (cases "m = []")
      case True
      then have "out = []" using lo km by simp
      then have "psa_cipher_update E (Some (Some cd)) ib (In (out @ fin)) oc (Out cap) (Some 0) =
          (PSA_SUCCESS, [], Some 0, Some (Some cd))"
        using fin by (simp add: psa_cipher_update_def wolfpsa_cipher_get_ctx_def ranges_overlap_def wolfpsa_clear_length_def)
      with finish_plain [of cd E cap] False P True show ?thesis by auto
    next
      case ne: False
      have on: "out @ fin \<noteq> []" using lo km ne by auto
      have dn: "cipher_done cd (length (out @ fin)) = k"
        using False P lo fin km unfolding k_def by (auto simp: cipher_done_def split: if_split_asm)
      have "cipher_update_alg E cd (out @ fin) cap = Inr (take k m, k, cd\<lparr>partial := drop k (out @ fin), ci_wc := d1\<rparr>)"
        by (rule cipher_update_fresh [OF ok(3) P(4) on P(10) dn [symmetric]]) (use cap lo d1 P fin in simp_all)
      then have u: "psa_cipher_update E (Some (Some cd)) ib (In (out @ fin)) oc (Out cap) (Some 0) =
          (PSA_SUCCESS, m, Some k, Some (Some (cd\<lparr>partial := [], ci_wc := d1\<rparr>)))"
        using cipher_update_forward [OF _ on w32 nov] lo fin km by simp
      with finish_plain [of "cd\<lparr>partial := [], ci_wc := d1\<rparr>" E "cap - k"] False P km show ?thesis by auto
    qed
  qed
qed

lemma cipher_check_key_Inr:
  assumes "wolfpsa_cipher_check_key env key want a s = (Inr (attrs, d), s1)"
  shows "load_key env key s = (Inr (attrs, d), s1) \<and> cipher_type_ok (type attrs) a \<and>
    usage (policy attrs) AND want = want \<and> wolfpsa_key_permits_alg attrs a"
  using assms
  by (auto simp: wolfpsa_cipher_check_key_def psa_get_key_usage_flags_def
      split: prod.splits sum.splits if_split_asm)

text \<open>Setting the IV on both sides.\<close>

lemma set_iv_pair:
  assumes inv: "cipher_inverts E K R" and k: "K p (ci_wc ce) (ci_wc cd)"
    and same: "ci_alg cd = ci_alg ce" "ci_key_type cd = ci_key_type ce" "is_des3 cd = is_des3 ce"
      "ci_iv cd = ci_iv ce" "\<not> iv_attempted ce" "\<not> iv_attempted cd"
    and w: "wolfpsa_cipher_set_iv E (Some (Some ce)) (In iv) = (PSA_SUCCESS, op2)"
  shows "\<exists>v c v' c'. op2 = Some (Some (ce\<lparr>iv_attempted := True, ci_iv := v, ci_wc := c, iv_set := True\<rparr>)) \<and>
    psa_cipher_set_iv E (Some (Some cd)) (In iv) =
      (PSA_SUCCESS, Some (Some (cd\<lparr>iv_attempted := True, ci_iv := v', ci_wc := c', iv_set := True\<rparr>))) \<and> R p c c'"
proof -
  let ?ce = "ce\<lparr>iv_attempted := True\<rparr>" and ?cd = "cd\<lparr>iv_attempted := True\<rparr>"
  obtain ce2 where l: "cipher_load_iv E ?ce iv = (PSA_SUCCESS, ce2)" and op2: "op2 = Some (Some (ce2\<lparr>iv_set := True\<rparr>))"
    and n: "wolfpsa_cipher_iv_length (ci_alg ce) (ci_key_type ce) \<noteq> 0"
    using w same
    by (auto simp: wolfpsa_cipher_set_iv_def wolfpsa_cipher_get_ctx_def Let_def split: if_split_asm prod.splits)
  have "\<exists>cd2. cipher_load_iv E ?cd iv = (PSA_SUCCESS, cd2) \<and> R p (ci_wc ce2) (ci_wc cd2)"
    by (rule iv_pair [OF inv _ _ _ _ _ l]) (use k same in simp_all)
  then obtain cd2 where l2: "cipher_load_iv E ?cd iv = (PSA_SUCCESS, cd2)" and r: "R p (ci_wc ce2) (ci_wc cd2)"
    by blast
  obtain v c where ce2: "ce2 = ce\<lparr>iv_attempted := True, ci_iv := v, ci_wc := c\<rparr>"
    using cipher_load_iv_frame [OF l] by auto
  obtain v' c' where cd2: "cd2 = cd\<lparr>iv_attempted := True, ci_iv := v', ci_wc := c'\<rparr>"
    using cipher_load_iv_frame [OF l2] by auto
  have "psa_cipher_set_iv E (Some (Some cd)) (In iv) = (PSA_SUCCESS, Some (Some (cd2\<lparr>iv_set := True\<rparr>)))"
    using l2 n same by (simp add: psa_cipher_set_iv_def wolfpsa_cipher_set_iv_def wolfpsa_cipher_get_ctx_def)
  with op2 ce2 cd2 r show ?thesis by auto
qed

lemma op_of_update [simp]:
  "cipher_op_of (ctx\<lparr>iv_attempted := x, ci_iv := v, ci_wc := c, iv_set := y\<rparr>) = cipher_op_of ctx"
  "cipher_op_of (ctx\<lparr>ci_wc := c\<rparr>) = cipher_op_of ctx"
  by (simp_all add: cipher_op_of_def cbc_op_def ecb_op_def Let_def)

lemma generate_iv_parts:
  assumes "psa_cipher_generate_iv env E (Some (Some ctx)) iv len0 s = (PSA_SUCCESS, r, len, op', s')"
  shows "wolfpsa_cipher_set_iv E (Some (Some ctx)) (In r) = (PSA_SUCCESS, op') \<and>
    len = Some (wolfpsa_cipher_iv_length (ci_alg ctx) (ci_key_type ctx))"
proof -
  obtain st r1 l1 op1 s1 where g: "wolfpsa_cipher_generate_iv env E (Some (Some ctx)) iv len0 s = (st, r1, l1, op1, s1)"
    by (metis prod_cases5)
  have "st = PSA_SUCCESS"
    using assms g by (auto simp: psa_cipher_generate_iv_def wolfpsa_cipher_fail_def split: if_split_asm)
  with cipher_generate_iv_parts [OF g] assms g show ?thesis by (simp add: psa_cipher_generate_iv_def)
qed

lemma load_iv_length:
  assumes "wolfpsa_cipher_set_iv E (Some (Some ctx)) (In iv) = (PSA_SUCCESS, op')"
    and "wolfpsa_cipher_check_alg (ci_alg ctx) = PSA_SUCCESS"
  shows "length iv = wolfpsa_cipher_iv_length (ci_alg ctx) (ci_key_type ctx)"
  using assms
  by (auto simp: wolfpsa_cipher_set_iv_def wolfpsa_cipher_get_ctx_def cipher_load_iv_def Let_def
      wolfpsa_cipher_iv_length_def wolfpsa_cipher_check_alg_def split: if_split_asm prod.splits)

lemma encrypt_parts:
  assumes "psa_cipher_encrypt env E key a ia (In m) oa ob len0 s = (PSA_SUCCESS, ct, len, s1)"
  shows "\<exists>ce sa iv out fin op2 op3 op4 ob2 ob3 oa2 outl finl. psa_cipher_encrypt_setup env E (Some None) key a s = (PSA_SUCCESS, Some (Some ce), sa) \<and>
    (let n = wolfpsa_cipher_iv_length a (ci_key_type ce) in
       if n = 0 then iv = [] \<and> op2 = Some (Some ce)
       else psa_cipher_generate_iv env E (Some (Some ce)) (Out AES_BLOCK_SIZE) (Some n) sa =
         (PSA_SUCCESS, iv, Some n, op2, s1)) \<and>
    psa_cipher_update E op2 ia (In m) oa2 ob2 (Some 0) = (PSA_SUCCESS, out, outl, op3) \<and>
    psa_cipher_finish E op3 ob3 (Some 0) = (PSA_SUCCESS, fin, finl, op4) \<and> ct = iv @ out @ fin"
proof -
  obtain st op sa where S: "psa_cipher_encrypt_setup env E (Some None) key a s = (st, op, sa)" by (metis prod_cases3)
  have st: "st = PSA_SUCCESS" using assms S by (auto simp: psa_cipher_encrypt_def Let_def split: if_split_asm)
  then obtain ce where op: "op = Some (Some ce)"
    using cipher_setup_parts S unfolding psa_cipher_encrypt_setup_def by metis
  let ?n = "wolfpsa_cipher_iv_length a (ci_key_type ce)"
  obtain st2 iv ivl op2 s2 where G: "(if ?n \<noteq> 0
       then psa_cipher_generate_iv env E op (Out AES_BLOCK_SIZE) (Some ?n) sa
       else (PSA_SUCCESS, [], Some 0, op, sa)) = (st2, iv, ivl, op2, s2)" by (metis prod_cases5)
  have st2: "st2 = PSA_SUCCESS"
    using assms S st op G by (auto simp: psa_cipher_encrypt_def wolfpsa_cipher_get_ctx_def Let_def split: if_split_asm)
  have ivl: "ivl = Some ?n"
  proof (cases "?n = 0")
    case False
    then have "psa_cipher_generate_iv env E (Some (Some ce)) (Out AES_BLOCK_SIZE) (Some ?n) sa =
        (PSA_SUCCESS, iv, ivl, op2, s2)" using G st2 op by simp
    moreover have "ci_alg ce = a"
      using cipher_setup_parts [OF S [unfolded st psa_cipher_encrypt_setup_def]] op cipher_start_frame by fastforce
    ultimately show ?thesis using generate_iv_parts by metis
  qed (use G in simp)
  obtain st3 out outl op3 where U: "psa_cipher_update E op2 ia (In m) (oa + word_of_nat ?n) (out_shift ?n ob) (Some 0) =
      (st3, out, outl, op3)" by (metis prod_cases4)
  have st3: "st3 = PSA_SUCCESS"
    using assms S st op G st2 ivl U
    by (auto simp: psa_cipher_encrypt_def wolfpsa_cipher_get_ctx_def Let_def split: if_split_asm)
  let ?k = "case outl of None \<Rightarrow> 0 | Some n \<Rightarrow> n"
  obtain st4 fin finl op4 where F: "psa_cipher_finish E op3 (out_shift (?n + ?k) ob) (Some 0) = (st4, fin, finl, op4)"
    by (metis prod_cases4)
  have st4: "st4 = PSA_SUCCESS" and ct: "ct = iv @ out @ fin" and s1: "s1 = s2"
    using assms S st op G st2 ivl U st3 F
    by (auto simp: psa_cipher_encrypt_def wolfpsa_cipher_get_ctx_def Let_def split: if_split_asm)
  have I: "let n = ?n in if n = 0 then iv = [] \<and> op2 = Some (Some ce)
       else psa_cipher_generate_iv env E (Some (Some ce)) (Out AES_BLOCK_SIZE) (Some n) sa =
         (PSA_SUCCESS, iv, Some n, op2, s1)"
    using G st2 ivl op s1 by (auto simp: Let_def split: if_split_asm)
  show ?thesis
    by (rule exI [of _ ce], rule exI [of _ sa], rule exI [of _ iv], rule exI [of _ out], rule exI [of _ fin],
        rule exI [of _ op2], rule exI [of _ op3], rule exI [of _ op4], intro exI conjI)
      (use S st op I U st3 F st4 ct in auto)
qed

text \<open>What two set-ups under the same key leave behind, before and after the IV.\<close>

lemma setup_pair:
  assumes inv: "cipher_inverts E K R" and env: "env_ops env = posix_ops os" and lk: "lock_ok s" "lock_ok s2"
    and key: "key_at posix_recs s2 key = key_at posix_recs s key"
    and e: "cipher_setup env E AES_ENCRYPTION PSA_KEY_USAGE_ENCRYPT (Some None) key a s = (PSA_SUCCESS, Some (Some ce), sa)"
    and d: "cipher_setup env E AES_DECRYPTION PSA_KEY_USAGE_DECRYPT (Some None) key a s2 = (PSA_SUCCESS, Some (Some cd), sd)"
  shows "\<exists>attrs c c'. ce = (cipher_new_ctx E AES_ENCRYPTION a attrs)\<lparr>ci_wc := c\<rparr> \<and>
    cd = (cipher_new_ctx E AES_DECRYPTION a attrs)\<lparr>ci_wc := c'\<rparr> \<and>
    K (cipher_op_of ce) c c' \<and> cipher_op_of cd = inv_op (cipher_op_of ce) \<and>
    cipher_inv ce \<and> cipher_inv cd"
proof -
  obtain attrs kd s1 where ca: "wolfpsa_cipher_check_alg a = PSA_SUCCESS"
    and ck: "wolfpsa_cipher_check_key env key PSA_KEY_USAGE_ENCRYPT a s = (Inr (attrs, kd), s1)"
    and st: "cipher_start E kd (cipher_new_ctx E AES_ENCRYPTION a attrs) = (WC_OK, ce)"
    using cipher_setup_parts [OF e] by auto
  obtain attrs2 kd2 s12 where
    ck2: "wolfpsa_cipher_check_key env key PSA_KEY_USAGE_DECRYPT a s2 = (Inr (attrs2, kd2), s12)"
    and st2: "cipher_start E kd2 (cipher_new_ctx E AES_DECRYPTION a attrs2) = (WC_OK, cd)"
    using cipher_setup_parts [OF d] by auto
  note C = cipher_check_key_Inr [OF ck] and C2 = cipher_check_key_Inr [OF ck2]
  have "key_at posix_recs s key = Some (attrs, kd)"
    by (rule posix_keys.load_key_sound(2) [OF env lk(1) conjunct1 [OF C] refl])
  moreover have "key_at posix_recs s2 key = Some (attrs2, kd2)"
    by (rule posix_keys.load_key_sound(2) [OF env lk(2) conjunct1 [OF C2] refl])
  ultimately have eq: "attrs2 = attrs" "kd2 = kd" using key by simp_all
  note SP = start_pair [OF inv ca _ st st2 [unfolded eq]]
  obtain c c' where cc: "ce = (cipher_new_ctx E AES_ENCRYPTION a attrs)\<lparr>ci_wc := c\<rparr>"
    "cd = (cipher_new_ctx E AES_DECRYPTION a attrs)\<lparr>ci_wc := c'\<rparr>"
    using cipher_start_frame [OF st] cipher_start_frame [OF st2] eq by auto
  have "K (cipher_op_of (cipher_new_ctx E AES_ENCRYPTION a attrs)) c c'"
    "cipher_op_of (cipher_new_ctx E AES_DECRYPTION a attrs) = inv_op (cipher_op_of (cipher_new_ctx E AES_ENCRYPTION a attrs))"
    using SP C cc by simp_all
  moreover have "cipher_inv ce" "cipher_inv cd" unfolding cc by (rule new_ctx_inv [OF ca])+
  ultimately show ?thesis using cc by (intro exI [of _ attrs] exI [of _ c] exI [of _ c'] conjI) simp_all
qed

lemma no_overlap_inner:
  assumes "\<not> ranges_overlap ib (In ct) oc (Out cap)" and "unat ib + length ct < 2 ^ 64" and "n \<le> length ct"
  shows "\<not> ranges_overlap (ib + word_of_nat n) (In (drop n ct)) oc (Out cap)"
proof
  assume o: "ranges_overlap (ib + word_of_nat n) (In (drop n ct)) oc (Out cap)"
  have un: "unat (word_of_nat n :: u64) = n" using assms by (simp add: unat_of_nat)
  have "unat ib + unat (word_of_nat n :: u64) < 2 ^ 64" using assms un by simp
  then have "ib \<le> ib + word_of_nat n"
    by (simp add: word_le_nat_alt unat_word_ariths)
  moreover have "ib + word_of_nat n + word_of_nat (length ct - n) = ib + word_of_nat (length ct)"
    using assms(3) by simp
  ultimately have "ranges_overlap ib (In ct) oc (Out cap)"
    using o by (auto simp: ranges_overlap_def)
  with assms(1) show False by contradiction
qed

text \<open>
  C12: \<open>psa_cipher_decrypt\<close> undoes \<open>psa_cipher_encrypt\<close>. If an encryption succeeded, and a later state
  of the library still has the same key under the id and lets it be set up for decryption, then
  decrypting the result into a separate buffer that can hold it succeeds and gives back the
  plaintext and its length. This holds for every algorithm, with and without an IV, with and
  without padding, and for AES, 3DES and ChaCha20 keys. The ciphertext is at most \<open>UINT32_MAX\<close> bytes
  long and its buffer does not wrap around the address space.
\<close>

theorem cipher_roundtrip:
  assumes inv: "cipher_inverts E K R" and ch: "cipher_chains E"
    and env: "env_ops env = posix_ops os" and lk: "lock_ok s" "lock_ok s2"
    and enc: "psa_cipher_encrypt env E key a ia (In m) oa ob len0 s = (PSA_SUCCESS, ct, len, s1)"
    and key: "key_at posix_recs s2 key = key_at posix_recs s key"
    and dset: "fst (psa_cipher_decrypt_setup env E (Some None) key a s2) = PSA_SUCCESS"
    and cap: "length ct \<le> cap" and w32: "length ct \<le> UINT32_MAX"
    and addr: "unat ib + length ct < 2 ^ 64" and nov: "\<not> ranges_overlap ib (In ct) oc (Out cap)"
  shows "\<exists>s3. psa_cipher_decrypt env E key a ib (In ct) oc (Out cap) (Some l0) s2 =
    (PSA_SUCCESS, m, Some (length m), s3)"
proof -
  obtain ce sa iv out fin op2 op3 op4 ob2 ob3 oa2 outl finl
    where se: "psa_cipher_encrypt_setup env E (Some None) key a s = (PSA_SUCCESS, Some (Some ce), sa)"
    and I: "let n = wolfpsa_cipher_iv_length a (ci_key_type ce) in
       if n = 0 then iv = [] \<and> op2 = Some (Some ce)
       else psa_cipher_generate_iv env E (Some (Some ce)) (Out AES_BLOCK_SIZE) (Some n) sa =
         (PSA_SUCCESS, iv, Some n, op2, s1)"
    and up: "psa_cipher_update E op2 ia (In m) oa2 ob2 (Some 0) = (PSA_SUCCESS, out, outl, op3)"
    and fi: "psa_cipher_finish E op3 ob3 (Some 0) = (PSA_SUCCESS, fin, finl, op4)" and ct: "ct = iv @ out @ fin"
    using encrypt_parts [OF enc] by (elim exE conjE)
  obtain cd sd where sd: "psa_cipher_decrypt_setup env E (Some None) key a s2 = (PSA_SUCCESS, Some (Some cd), sd)"
    using dset cipher_setup_parts unfolding psa_cipher_decrypt_setup_def by (metis prod.collapse)
  obtain attrs c c' where cc: "ce = (cipher_new_ctx E AES_ENCRYPTION a attrs)\<lparr>ci_wc := c\<rparr>"
      "cd = (cipher_new_ctx E AES_DECRYPTION a attrs)\<lparr>ci_wc := c'\<rparr>"
    and K: "K (cipher_op_of ce) c c'" and op: "cipher_op_of cd = inv_op (cipher_op_of ce)"
    and ci: "cipher_inv ce" "cipher_inv cd"
    using setup_pair [OF inv env lk key se [unfolded psa_cipher_encrypt_setup_def] sd [unfolded psa_cipher_decrypt_setup_def]]
    by (elim exE conjE)
  have f: "ci_alg ce = a" "ci_alg cd = a" "ci_key_type ce = type attrs" "ci_key_type cd = type attrs"
    "is_des3 cd = is_des3 ce" "ci_iv cd = ci_iv ce" "\<not> iv_attempted ce" "\<not> iv_attempted cd"
    "partial ce = []" "partial cd = []" "block_size cd = block_size ce"
    "direction ce = AES_ENCRYPTION" "direction cd = AES_DECRYPTION" "ci_wc ce = c" "ci_wc cd = c'"
    unfolding cc by simp_all
  define n where "n = wolfpsa_cipher_iv_length a (type attrs)"
  have ca: "wolfpsa_cipher_check_alg a = PSA_SUCCESS" using ci(1) f(1) by (simp add: cipher_inv_def)
  have "\<exists>ce2 cd2. op2 = Some (Some ce2) \<and> paired R ce2 cd2 \<and> length iv = n \<and>
      (if n \<noteq> 0 then psa_cipher_set_iv E (Some (Some cd)) (In iv) else (PSA_SUCCESS, Some (Some cd))) =
        (PSA_SUCCESS, Some (Some cd2))"
  proof (cases "n = 0")
    case True
    then have "a = PSA_ALG_ECB_NO_PADDING"
      using ca by (auto simp: n_def wolfpsa_cipher_iv_length_def wolfpsa_cipher_check_alg_def
          wolfpsa_cipher_block_size_def split: if_split_asm)
    then have "cipher_op_of ce \<in> {Wc_Des3_Ecb AES_ENCRYPTION, Wc_Aes_Ecb AES_ENCRYPTION}"
      using f by (simp add: cipher_op_of_def ecb_op_def)
    then have "R (cipher_op_of ce) c c'" by (rule cipher_invertsD(9) [OF inv K])
    then have "paired R ce cd" using f op ci \<open>a = _\<close> by (simp add: paired_def)
    moreover have "iv = [] \<and> op2 = Some (Some ce)" using I True f by (simp add: n_def Let_def)
    ultimately show ?thesis using True by simp
  next
    case False
    then have g: "psa_cipher_generate_iv env E (Some (Some ce)) (Out AES_BLOCK_SIZE) (Some n) sa =
        (PSA_SUCCESS, iv, Some n, op2, s1)" using I f by (simp add: n_def Let_def)
    have w: "wolfpsa_cipher_set_iv E (Some (Some ce)) (In iv) = (PSA_SUCCESS, op2)"
      using generate_iv_parts [OF g] by blast
    have li: "length iv = n" using load_iv_length [OF w] ca f by (simp add: n_def)
    have "\<exists>v x v' y. op2 = Some (Some (ce\<lparr>iv_attempted := True, ci_iv := v, ci_wc := x, iv_set := True\<rparr>)) \<and>
        psa_cipher_set_iv E (Some (Some cd)) (In iv) =
          (PSA_SUCCESS, Some (Some (cd\<lparr>iv_attempted := True, ci_iv := v', ci_wc := y, iv_set := True\<rparr>))) \<and>
        R (cipher_op_of ce) x y"
      by (rule set_iv_pair [OF inv _ _ _ _ _ _ _ w]) (use K f in simp_all)
    then obtain v x v' y where o2: "op2 = Some (Some (ce\<lparr>iv_attempted := True, ci_iv := v, ci_wc := x, iv_set := True\<rparr>))"
      and sv: "psa_cipher_set_iv E (Some (Some cd)) (In iv) =
          (PSA_SUCCESS, Some (Some (cd\<lparr>iv_attempted := True, ci_iv := v', ci_wc := y, iv_set := True\<rparr>)))"
      and r: "R (cipher_op_of ce) x y" by (elim exE conjE)
    have "paired R (ce\<lparr>iv_attempted := True, ci_iv := v, ci_wc := x, iv_set := True\<rparr>)
        (cd\<lparr>iv_attempted := True, ci_iv := v', ci_wc := y, iv_set := True\<rparr>)"
      using r f op cipher_inv_set_iv [OF ci(1)] cipher_inv_set_iv [OF ci(2)] by (simp add: paired_def)
    with o2 sv li False show ?thesis by auto
  qed
  then obtain ce2 cd2 where o2: "op2 = Some (Some ce2)" and pd: "paired R ce2 cd2" and li: "length iv = n"
    and ivd: "(if n \<noteq> 0 then psa_cipher_set_iv E (Some (Some cd)) (In iv) else (PSA_SUCCESS, Some (Some cd))) =
        (PSA_SUCCESS, Some (Some cd2))" by (elim exE conjE)
  have dr: "take n ct = iv" "drop n ct = out @ fin" "n \<le> length ct" using ct li by simp_all
  have nov2: "\<not> ranges_overlap (ib + word_of_nat n) (In (out @ fin)) oc (Out cap)"
    using no_overlap_inner [OF nov addr dr(3)] dr(2) by simp
  obtain o3 n3 op f3 nf where
    u: "psa_cipher_update E (Some (Some cd2)) (ib + word_of_nat n) (In (out @ fin)) oc (Out cap) (Some 0) =
      (PSA_SUCCESS, o3, Some n3, op)"
    and fn: "psa_cipher_finish E op (Out (cap - n3)) (Some 0) = (PSA_SUCCESS, f3, Some nf, Some None)"
    and r: "o3 @ f3 = m" "n3 + nf = length m"
    using paired_data(1) [OF inv ch pd up [unfolded o2] fi _ _ nov2] cap w32 ct by auto
  show ?thesis
    using sd ivd u fn r dr nov f(4)
    by (cases "n = 0")
      (simp_all add: psa_cipher_decrypt_def wolfpsa_cipher_get_ctx_def n_def [symmetric] Let_def not_less)
qed

theorem cipher_roundtrip_witness:
  "\<exists>ct len s1 s3. psa_cipher_encrypt demo_env demo_cipher PSA_KEY_ID_VENDOR_MIN PSA_ALG_CBC_PKCS7 0x1000 (In [1, 2, 3])
      0x2000 (Out 64) (Some 0) (demo_with demo_cipher_attr demo_key) = (PSA_SUCCESS, ct, len, s1) \<and>
    psa_cipher_decrypt demo_env demo_cipher PSA_KEY_ID_VENDOR_MIN PSA_ALG_CBC_PKCS7 0x1000 (In ct)
      0x2000 (Out 64) (Some 0) (demo_with demo_cipher_attr demo_key) = (PSA_SUCCESS, [1, 2, 3], Some 3, s3)"
proof -
  let ?s = "demo_with demo_cipher_attr demo_key"
  have ini: "wolfPSA_CryptoIsInitialized default_build ?s = (True, ?s)" by simp
  have rnd: "psa_generate_random demo_env (Out 16) ?s =
      (PSA_SUCCESS, replicate 16 (word_of_nat (rng_calls ?s)), ?s\<lparr>rng_calls := Suc (rng_calls ?s)\<rparr>)"
    using ini by (simp add: psa_generate_random_def demo_env_def Let_def)
  have rc: "rng_calls ?s = 0" by (simp add: demo_with_def demo_ks_def fresh_store_def)
  have ivl: "wolfpsa_cipher_iv_length PSA_ALG_CBC_PKCS7 PSA_KEY_TYPE_AES = 16"
    by (simp add: wolfpsa_cipher_iv_length_def wolfpsa_cipher_block_size_def)
  have se: "psa_cipher_encrypt_setup demo_env demo_cipher (Some None) PSA_KEY_ID_VENDOR_MIN PSA_ALG_CBC_PKCS7 ?s =
      (PSA_SUCCESS, Some (Some (demo_cipher_ctx AES_ENCRYPTION)), ?s)"
    using demo_cipher_setup [of AES_ENCRYPTION] by (simp add: psa_cipher_encrypt_setup_def)
  have sd: "fst (psa_cipher_decrypt_setup demo_env demo_cipher (Some None) PSA_KEY_ID_VENDOR_MIN PSA_ALG_CBC_PKCS7 ?s) = PSA_SUCCESS"
    using demo_cipher_setup [of AES_DECRYPTION] by (simp add: psa_cipher_decrypt_setup_def)
  have wsi: "wolfpsa_cipher_set_iv demo_cipher (Some (Some (demo_cipher_ctx AES_ENCRYPTION))) (In (replicate 16 0)) =
      (PSA_SUCCESS, Some (Some (demo_iv_ctx AES_ENCRYPTION)))"
    using demo_cipher_set_iv [of AES_ENCRYPTION]
    by (auto simp: psa_cipher_set_iv_def wolfpsa_cipher_fail_def split: if_split_asm prod.splits)
  have gen: "psa_cipher_generate_iv demo_env demo_cipher (Some (Some (demo_cipher_ctx AES_ENCRYPTION))) (Out 16) (Some 16) ?s =
      (PSA_SUCCESS, replicate 16 0, Some 16, Some (Some (demo_iv_ctx AES_ENCRYPTION)), ?s\<lparr>rng_calls := 1\<rparr>)"
    using rnd wsi rc ivl
    by (simp add: psa_cipher_generate_iv_def wolfpsa_cipher_generate_iv_def wolfpsa_cipher_get_ctx_def
        demo_cipher_ctx_def wolfpsa_clear_length_def Let_def)
  have up: "psa_cipher_update demo_cipher (Some (Some (demo_iv_ctx AES_ENCRYPTION))) 0x1000 (In [1, 2, 3])
      (0x2000 + word_of_nat 16) (Out 48) (Some 0) =
      (PSA_SUCCESS, [], Some 0, Some (Some ((demo_iv_ctx AES_ENCRYPTION)\<lparr>partial := [1, 2, 3]\<rparr>)))"
    by (simp add: psa_cipher_update_def wolfpsa_cipher_get_ctx_def cipher_update_alg_def cipher_block_update_def
        ranges_overlap_def demo_iv_ctx_def demo_cipher_ctx_def wolfpsa_clear_length_def Let_def)
  obtain fin where fi: "psa_cipher_finish demo_cipher (Some (Some ((demo_iv_ctx AES_ENCRYPTION)\<lparr>partial := [1, 2, 3]\<rparr>)))
      (Out 48) (Some 0) = (PSA_SUCCESS, fin, Some 16, Some None)" and lf: "length fin = 16"
    by (simp add: psa_cipher_finish_def wolfpsa_cipher_get_ctx_def cipher_finish_pkcs7_enc_def demo_cipher_def
        demo_iv_ctx_def demo_cipher_ctx_def psa_cipher_abort_def Let_def)
  have nov: "\<not> ranges_overlap 0x1000 (In x) 0x2000 (Out 64)" if "length x \<le> 32" for x
  proof -
    have "unat (0x1000 + word_of_nat (length x) :: u64) = 0x1000 + length x"
      using that by (simp add: unat_word_ariths unat_of_nat)
    then show ?thesis using that by (simp add: ranges_overlap_def word_less_nat_alt)
  qed
  let ?ct = "replicate 16 0 @ [] @ fin"
  have enc: "psa_cipher_encrypt demo_env demo_cipher PSA_KEY_ID_VENDOR_MIN PSA_ALG_CBC_PKCS7 0x1000 (In [1, 2, 3])
      0x2000 (Out 64) (Some 0) ?s = (PSA_SUCCESS, ?ct, Some 32, ?s\<lparr>rng_calls := 1\<rparr>)"
    using nov [of "[1, 2, 3]"] se gen up fi ivl
    by (simp add: psa_cipher_encrypt_def wolfpsa_cipher_get_ctx_def demo_cipher_ctx_def Let_def)
  have "\<exists>s3. psa_cipher_decrypt demo_env demo_cipher PSA_KEY_ID_VENDOR_MIN PSA_ALG_CBC_PKCS7 0x1000 (In ?ct)
      0x2000 (Out 64) (Some 0) ?s = (PSA_SUCCESS, [1, 2, 3], Some (length [1 :: byte, 2, 3]), s3)"
    by (rule cipher_roundtrip [OF demo_cipher_inverts demo_cipher_chains demo_env_simps(1) demo_with_simps(2)
          demo_with_simps(2) enc refl sd]) (use lf nov in simp_all)
  with enc show ?thesis by auto
qed

end
