(* ===== verification/Aead_Ccm.thy ===== *)
theory Aead_Ccm
  imports Posix_Keys
begin

text \<open>
  The context of an authenticated-encryption operation (\<open>src/psa_aead_internal.h\<close>), wolfCrypt's
  side as a parameter, and the streaming AES-CCM that \<open>src/psa_aead.c\<close> builds itself from the
  AES block function: one pass that runs the counter mode and the CBC-MAC byte by byte. It is
  proved equal to the definition of CCM in NIST SP 800-38C (formatting function of its
  appendix A), which states the two passes separately.
\<close>

unbundle bit_operations_syntax

section \<open>Contexts\<close>

text \<open>The \<open>ccm_\<close> members of the context.\<close>

record ccm_ctx =
  ccm_aes_inited :: bool
  ccm_ctr :: "byte list"
  ccm_mac :: "byte list"
  ccm_mblk :: "byte list"
  ccm_mfill :: nat
  ccm_ks :: "byte list"
  ccm_ks_off :: nat
  ccm_lenSz :: nat
  ccm_tag_len :: nat
  ccm_ks_valid :: bool

text \<open>
  \<open>ae_nonce\<close> is the first \<open>nonce_length\<close> bytes of the array. \<open>ae_aad\<close> and \<open>ae_input\<close> are the
  heap buffers, \<open>[]\<close> for a NULL pointer; \<open>aad_length\<close> is the length of \<open>ae_aad\<close>, whereas
  \<open>input_length\<close> also counts streamed bytes that are not kept. \<open>ae_direction\<close> is true when the
  operation encrypts. \<open>ae_aes\<close> is the union of the two \<open>Aes\<close> members.
\<close>

record ('a, 'p) wolfpsa_aead_ctx =
  ae_alg :: psa_algorithm_t
  ae_key_type :: psa_key_type_t
  ae_key_bits :: psa_key_bits_t
  ae_direction :: bool
  ae_key :: "byte list"
  ae_nonce :: "byte list"
  ae_aad :: "byte list"
  ae_input :: "byte list"
  ae_input_length :: nat
  ae_ad_expected :: nat
  ae_plaintext_expected :: nat
  ae_tag_length :: nat
  ae_lengths_set :: bool
  ae_ad_started :: bool
  ae_body_started :: bool
  ae_streaming :: bool
  ae_aes :: 'a
  ae_gcm_inited :: bool
  ae_chacha :: 'p
  ae_ccm :: ccm_ctx

type_synonym ('a, 'p) psa_aead_operation_t = "('a, 'p) wolfpsa_aead_ctx option"

text \<open>
  wolfCrypt's side. A function gives its return code, what it writes, and the context it
  leaves. The one-shot functions of XChaCha20-Poly1305 and Ascon receive the caller's pointers
  unchecked, so their arguments are buffer arguments. \<open>ae_min_tag\<close> is
  \<open>WOLFSSL_MIN_AUTH_TAG_SZ\<close>, \<open>ae_ascon_auth_e\<close> the number of the error code \<open>ASCON_AUTH_E\<close>.
\<close>

record ('a, 'p, 'n) aead_engine =
  ae_devid :: int
  ae_min_tag :: nat
  ae_ascon_auth_e :: int
  ae_aes_zero :: 'a
  ae_chacha_zero :: 'p
  ae_AesInit :: "int \<Rightarrow> 'a \<Rightarrow> wc_ret \<times> 'a"
  ae_AesSetKeyDirect :: "byte list \<Rightarrow> 'a \<Rightarrow> wc_ret \<times> 'a"
  ae_AesEncryptDirect :: "byte list \<Rightarrow> 'a \<Rightarrow> wc_ret \<times> byte list \<times> 'a"
  ae_AesGcmInit :: "bool \<Rightarrow> byte list \<Rightarrow> byte list \<Rightarrow> 'a \<Rightarrow> wc_ret \<times> 'a"
  ae_AesGcmUpdate :: "bool \<Rightarrow> byte list \<Rightarrow> byte list \<Rightarrow> 'a \<Rightarrow> wc_ret \<times> byte list \<times> 'a"
  ae_AesGcmEncryptFinal :: "nat \<Rightarrow> 'a \<Rightarrow> wc_ret \<times> byte list"
  ae_AesGcmDecryptFinal :: "byte list \<Rightarrow> 'a \<Rightarrow> wc_ret"
  ae_ChaChaInit :: "byte list \<Rightarrow> byte list \<Rightarrow> bool \<Rightarrow> 'p \<Rightarrow> wc_ret \<times> 'p"
  ae_ChaChaUpdateAad :: "byte list \<Rightarrow> 'p \<Rightarrow> wc_ret \<times> 'p"
  ae_ChaChaUpdateData :: "byte list \<Rightarrow> 'p \<Rightarrow> wc_ret \<times> byte list \<times> 'p"
  ae_ChaChaFinal :: "'p \<Rightarrow> wc_ret \<times> byte list"
  ae_ChaChaCheckTag :: "byte list \<Rightarrow> byte list \<Rightarrow> wc_ret"
  ae_AesGcmSetKey :: "byte list \<Rightarrow> 'a \<Rightarrow> wc_ret \<times> 'a"
  ae_AesGcmEncrypt :: "'a \<Rightarrow> byte list \<Rightarrow> byte list \<Rightarrow> nat \<Rightarrow> byte list \<Rightarrow> wc_ret \<times> byte list \<times> byte list"
  ae_AesGcmDecrypt :: "'a \<Rightarrow> byte list \<Rightarrow> byte list \<Rightarrow> byte list \<Rightarrow> byte list \<Rightarrow> wc_ret \<times> byte list"
  ae_AesCcmCheckTagSize :: "nat \<Rightarrow> wc_ret"
  ae_AesCcmSetKey :: "byte list \<Rightarrow> 'a \<Rightarrow> wc_ret \<times> 'a"
  ae_AesCcmEncrypt :: "'a \<Rightarrow> byte list \<Rightarrow> byte list \<Rightarrow> nat \<Rightarrow> byte list \<Rightarrow> wc_ret \<times> byte list \<times> byte list"
  ae_AesCcmDecrypt :: "'a \<Rightarrow> byte list \<Rightarrow> byte list \<Rightarrow> byte list \<Rightarrow> byte list \<Rightarrow> wc_ret \<times> byte list"
  ae_ChaChaEncrypt :: "byte list \<Rightarrow> byte list \<Rightarrow> byte list \<Rightarrow> byte list \<Rightarrow> wc_ret \<times> byte list \<times> byte list"
  ae_ChaChaDecrypt :: "byte list \<Rightarrow> byte list \<Rightarrow> byte list \<Rightarrow> byte list \<Rightarrow> byte list \<Rightarrow> wc_ret \<times> byte list"
  ae_XChaChaEncrypt :: "outbuf \<Rightarrow> inbuf \<Rightarrow> inbuf \<Rightarrow> inbuf \<Rightarrow> byte list \<Rightarrow> wc_ret \<times> byte list"
  ae_XChaChaDecrypt :: "outbuf \<Rightarrow> inbuf \<Rightarrow> inbuf \<Rightarrow> inbuf \<Rightarrow> byte list \<Rightarrow> wc_ret \<times> byte list"
  ae_AsconInit :: "wc_ret \<times> 'n"
  ae_AsconSetKey :: "byte list \<Rightarrow> 'n \<Rightarrow> wc_ret \<times> 'n"
  ae_AsconSetNonce :: "inbuf \<Rightarrow> 'n \<Rightarrow> wc_ret \<times> 'n"
  ae_AsconSetAD :: "inbuf \<Rightarrow> 'n \<Rightarrow> wc_ret \<times> 'n"
  ae_AsconEncryptUpdate :: "outbuf \<Rightarrow> inbuf \<Rightarrow> 'n \<Rightarrow> wc_ret \<times> byte list \<times> 'n"
  ae_AsconEncryptFinal :: "'n \<Rightarrow> wc_ret \<times> byte list"
  ae_AsconDecryptUpdate :: "outbuf \<Rightarrow> inbuf \<Rightarrow> 'n \<Rightarrow> wc_ret \<times> byte list \<times> 'n"
  ae_AsconDecryptFinal :: "inbuf \<Rightarrow> 'n \<Rightarrow> wc_ret"

section \<open>Streaming CCM\<close>

text \<open>The increment of the last \<open>lenSz\<close> bytes of the counter block, with its carry.\<close>

definition ctr_inc_byte :: "nat \<Rightarrow> byte list \<times> byte \<Rightarrow> byte list \<times> byte" where
  "ctr_inc_byte i st =
    (case st of (ctr, carry) \<Rightarrow>
       (let next_byte = ctr ! (15 - i) + carry
        in (ctr[15 - i := next_byte], carry AND (if next_byte = 0 then 1 else 0))))"

definition wolfpsa_aead_ccm_ctr_inc :: "byte list \<Rightarrow> nat \<Rightarrow> byte list" where
  "wolfpsa_aead_ccm_ctr_inc ctr lenSz = fst (fold ctr_inc_byte [0..<lenSz] (ctr, 1))"

text \<open>A zeroed block with \<open>bs\<close> copied to its start, and one step of the CBC-MAC.\<close>

definition zero_pad :: "byte list \<Rightarrow> byte list" where
  "zero_pad bs = bs @ replicate (16 - length bs) 0"

definition ccm_absorb ::
    "('a, 'p, 'n) aead_engine \<Rightarrow> byte list \<Rightarrow> byte list \<Rightarrow> 'a \<Rightarrow> psa_status + byte list \<times> 'a" where
  "ccm_absorb E mac block aes =
    (case ae_AesEncryptDirect E (map2 (XOR) mac block) aes of
       (ret, mac1, aes1) \<Rightarrow>
         if ret \<noteq> WC_OK then Inl (wc_error_to_psa_status ret) else Inr (mac1, aes1))"

text \<open>The first block: flags, nonce, and the message length byte by byte from the end.\<close>

definition b0_len_byte :: "nat \<Rightarrow> byte list \<times> nat \<Rightarrow> byte list \<times> nat" where
  "b0_len_byte i st =
    (case st of (block, msg_len) \<Rightarrow> (block[15 - i := word_of_nat (msg_len mod 256)], msg_len div 256))"

definition ccm_b0 :: "nat \<Rightarrow> nat \<Rightarrow> byte list \<Rightarrow> nat \<Rightarrow> byte list \<times> nat" where
  "ccm_b0 aad_len tag_len nonce msg_len =
    (let lenSz = 15 - length nonce;
         flags = word_of_nat ((if aad_len > 0 then 64 else 0) + 8 * ((tag_len - 2) div 2) + (lenSz - 1))
     in fold b0_len_byte [0..<lenSz] (zero_pad (flags # nonce), msg_len))"

text \<open>The length prefix of the associated data, and the blocks after the first.\<close>

definition ccm_aad_prefix :: "nat \<Rightarrow> byte list" where
  "ccm_aad_prefix aad_len =
    (if aad_len \<le> 0xFEFF then [word_of_nat (aad_len div 2 ^ 8), word_of_nat (aad_len mod 256)]
     else [0xff, 0xfe, word_of_nat (aad_len div 2 ^ 24), word_of_nat (aad_len div 2 ^ 16),
           word_of_nat (aad_len div 2 ^ 8), word_of_nat (aad_len mod 256)])"

fun ccm_aad_loop ::
    "('a, 'p, 'n) aead_engine \<Rightarrow> byte list \<Rightarrow> byte list \<Rightarrow> 'a \<Rightarrow> psa_status + byte list \<times> 'a" where
  "ccm_aad_loop E mac [] aes = Inr (mac, aes)"
| "ccm_aad_loop E mac (x # xs) aes =
    (case ccm_absorb E mac (zero_pad (take 16 (x # xs))) aes of
       Inl e \<Rightarrow> Inl e
     | Inr (mac1, aes1) \<Rightarrow> ccm_aad_loop E mac1 (drop 16 (x # xs)) aes1)"

definition ccm_aad ::
    "('a, 'p, 'n) aead_engine \<Rightarrow> byte list \<Rightarrow> byte list \<Rightarrow> 'a \<Rightarrow> psa_status + byte list \<times> 'a" where
  "ccm_aad E mac aad aes =
    (if length aad > 0 then
       (let prefix = ccm_aad_prefix (length aad); room = 16 - length prefix in
        case ccm_absorb E mac (zero_pad (prefix @ take room aad)) aes of
          Inl e \<Rightarrow> Inl e
        | Inr (mac1, aes1) \<Rightarrow> ccm_aad_loop E mac1 (drop room aad) aes1)
     else Inr (mac, aes))"

definition wolfpsa_aead_ccm_init ::
    "('a, 'p, 'n) aead_engine \<Rightarrow> ('a, 'p) wolfpsa_aead_ctx \<Rightarrow> psa_status + ('a, 'p) wolfpsa_aead_ctx" where
  "wolfpsa_aead_ccm_init E ctx =
    (let nonce = ae_nonce ctx; lenSz = 15 - length nonce in
     if length nonce < 7 \<or> length nonce > 13 then Inl PSA_ERROR_INVALID_ARGUMENT
     else
       (case (case ae_AesInit E (ae_devid E) (ae_aes ctx) of
                (ret, aes) \<Rightarrow> if ret = WC_OK then ae_AesSetKeyDirect E (ae_key ctx) aes else (ret, aes)) of
          (ret, aes0) \<Rightarrow>
            if ret \<noteq> WC_OK then Inl (wc_error_to_psa_status ret)
            else
              (case ccm_b0 (length (ae_aad ctx)) (ae_tag_length ctx) nonce (ae_plaintext_expected ctx) of
                 (block, msg_len) \<Rightarrow>
                   if msg_len \<noteq> 0 then Inl PSA_ERROR_INVALID_ARGUMENT
                   else
                     (case ae_AesEncryptDirect E block aes0 of
                        (ret1, mac, aes1) \<Rightarrow>
                          if ret1 \<noteq> WC_OK then Inl (wc_error_to_psa_status ret1)
                          else
                            (case ccm_aad E mac (ae_aad ctx) aes1 of
                               Inl e \<Rightarrow> Inl e
                             | Inr (mac2, aes2) \<Rightarrow>
                                 (let ctr = (zero_pad (word_of_nat (lenSz - 1) # nonce))[15 := 1] in
                                  case ae_AesEncryptDirect E ctr aes2 of
                                    (ret3, ks, aes3) \<Rightarrow>
                                      if ret3 \<noteq> WC_OK then Inl (wc_error_to_psa_status ret3)
                                      else Inr (ctx\<lparr>ae_aes := aes3, ae_ccm :=
                                        \<lparr>ccm_aes_inited = True, ccm_ctr = ctr, ccm_mac = mac2,
                                         ccm_mblk = replicate 16 0, ccm_mfill = 0, ccm_ks = ks,
                                         ccm_ks_off = 0, ccm_lenSz = lenSz,
                                         ccm_tag_len = ae_tag_length ctx, ccm_ks_valid = True\<rparr>\<rparr>)))))))"

text \<open>
  One byte of the message: a fresh keystream block when the last one is used up, the output
  byte, and the plaintext byte into the CBC-MAC block, which is absorbed when it is full.
\<close>

definition ccm_next_ks ::
    "('a, 'p, 'n) aead_engine \<Rightarrow> ccm_ctx \<Rightarrow> 'a \<Rightarrow> psa_status + ccm_ctx \<times> 'a" where
  "ccm_next_ks E c aes =
    (if ccm_ks_off c = 16 then
       (let ctr = wolfpsa_aead_ccm_ctr_inc (ccm_ctr c) (ccm_lenSz c) in
        case ae_AesEncryptDirect E ctr aes of
          (ret, ks, aes1) \<Rightarrow>
            if ret \<noteq> WC_OK then Inl (wc_error_to_psa_status ret)
            else Inr (c\<lparr>ccm_ctr := ctr, ccm_ks := ks, ccm_ks_off := 0\<rparr>, aes1))
     else Inr (c, aes))"

definition ccm_mac_byte ::
    "('a, 'p, 'n) aead_engine \<Rightarrow> byte \<Rightarrow> ccm_ctx \<Rightarrow> 'a \<Rightarrow> psa_status + ccm_ctx \<times> 'a" where
  "ccm_mac_byte E pt_byte c aes =
    (let mblk = (ccm_mblk c)[ccm_mfill c := ccm_mblk c ! ccm_mfill c XOR pt_byte];
         mfill = ccm_mfill c + 1
     in if mfill = 16 then
          (case ccm_absorb E (ccm_mac c) mblk aes of
             Inl e \<Rightarrow> Inl e
           | Inr (mac, aes1) \<Rightarrow>
               Inr (c\<lparr>ccm_mac := mac, ccm_mfill := 0, ccm_mblk := replicate 16 0\<rparr>, aes1))
        else Inr (c\<lparr>ccm_mblk := mblk, ccm_mfill := mfill\<rparr>, aes))"

fun wolfpsa_aead_ccm_update ::
    "('a, 'p, 'n) aead_engine \<Rightarrow> bool \<Rightarrow> byte list \<Rightarrow> ccm_ctx \<Rightarrow> 'a \<Rightarrow>
     psa_status + byte list \<times> ccm_ctx \<times> 'a" where
  "wolfpsa_aead_ccm_update E direction [] c aes = Inr ([], c, aes)"
| "wolfpsa_aead_ccm_update E direction (x # xs) c aes =
    (case ccm_next_ks E c aes of
       Inl e \<Rightarrow> Inl e
     | Inr (c1, aes1) \<Rightarrow>
         (let out = x XOR ccm_ks c1 ! ccm_ks_off c1; pt_byte = (if \<not> direction then out else x) in
          case ccm_mac_byte E pt_byte (c1\<lparr>ccm_ks_off := ccm_ks_off c1 + 1\<rparr>) aes1 of
            Inl e \<Rightarrow> Inl e
          | Inr (c2, aes2) \<Rightarrow>
              (case wolfpsa_aead_ccm_update E direction xs c2 aes2 of
                 Inl e \<Rightarrow> Inl e
               | Inr (outs, c3, aes3) \<Rightarrow> Inr (out # outs, c3, aes3))))"

text \<open>The tag: the CBC-MAC, with a last partial block if there is one, under the block of counter 0.\<close>

definition wolfpsa_aead_ccm_finish ::
    "('a, 'p, 'n) aead_engine \<Rightarrow> byte list \<Rightarrow> nat \<Rightarrow> ccm_ctx \<Rightarrow> 'a \<Rightarrow> psa_status + byte list" where
  "wolfpsa_aead_ccm_finish E nonce tag_len c aes =
    (case (if ccm_mfill c > 0 then ccm_absorb E (ccm_mac c) (ccm_mblk c) aes else Inr (ccm_mac c, aes)) of
       Inl e \<Rightarrow> Inl e
     | Inr (mac, aes1) \<Rightarrow>
         (case ae_AesEncryptDirect E (zero_pad (word_of_nat (ccm_lenSz c - 1) # nonce)) aes1 of
            (ret, tmp, aes2) \<Rightarrow>
              if ret \<noteq> WC_OK then Inl (wc_error_to_psa_status ret)
              else Inr (map (\<lambda>i. mac ! i XOR tmp ! i) [0..<tag_len])))"

section \<open>CCM as SP 800-38C defines it\<close>

text \<open>
  The formatting function: the first block holds the flags, the nonce and the length of the
  message; the associated data follows behind an encoding of its length, then the message,
  both filled with zeros to whole blocks. \<open>f\<close> is the block cipher under the key.
\<close>

fun ccm_blocks :: "byte list \<Rightarrow> byte list list" where
  "ccm_blocks [] = []"
| "ccm_blocks (x # xs) = zero_pad (take 16 (x # xs)) # ccm_blocks (drop 16 (x # xs))"

definition ccm_encode_aad :: "byte list \<Rightarrow> byte list" where
  "ccm_encode_aad A =
    (if A = [] then []
     else if length A < 2 ^ 16 - 2 ^ 8 then be_octets 2 (length A) @ A
     else [0xff, 0xfe] @ be_octets 4 (length A) @ A)"

definition ccm_header :: "byte list \<Rightarrow> byte list \<Rightarrow> nat \<Rightarrow> nat \<Rightarrow> byte list list" where
  "ccm_header N A plen t =
    (let q = 15 - length N;
         flags = word_of_nat ((if A = [] then 0 else 64) + 8 * ((t - 2) div 2) + (q - 1))
     in (flags # N @ be_octets q plen) # ccm_blocks (ccm_encode_aad A))"

definition cbc_mac :: "(byte list \<Rightarrow> byte list) \<Rightarrow> byte list \<Rightarrow> byte list list \<Rightarrow> byte list" where
  "cbc_mac f y bs = foldl (\<lambda>y b. f (map2 (XOR) y b)) y bs"

definition ccm_ctr_block :: "byte list \<Rightarrow> nat \<Rightarrow> byte list" where
  "ccm_ctr_block N i = (let q = 15 - length N in word_of_nat (q - 1) # N @ be_octets q i)"

text \<open>Byte \<open>j\<close> of the keystream \<open>S\<^sub>1 S\<^sub>2 \<dots>\<close>, the encrypted message, and the tag.\<close>

definition ccm_keystream :: "(byte list \<Rightarrow> byte list) \<Rightarrow> byte list \<Rightarrow> nat \<Rightarrow> byte" where
  "ccm_keystream f N j = f (ccm_ctr_block N (Suc (j div 16))) ! (j mod 16)"

definition ccm_crypt :: "(byte list \<Rightarrow> byte list) \<Rightarrow> byte list \<Rightarrow> byte list \<Rightarrow> byte list" where
  "ccm_crypt f N m = map (\<lambda>j. m ! j XOR ccm_keystream f N j) [0..<length m]"

definition ccm_tag :: "(byte list \<Rightarrow> byte list) \<Rightarrow> byte list \<Rightarrow> byte list \<Rightarrow> byte list \<Rightarrow> nat \<Rightarrow> byte list" where
  "ccm_tag f N A m t =
    take t (map2 (XOR) (cbc_mac f (replicate 16 0) (ccm_header N A (length m) t @ ccm_blocks m))
                       (f (ccm_ctr_block N 0)))"

section \<open>Octet strings\<close>

lemma be_octets_add: "be_octets (r + k) n = be_octets r (n div 256 ^ k) @ be_octets k n"
  by (induction k arbitrary: n) (simp_all add: div_mult2_eq)

lemma be_octets_Suc_Cons: "be_octets (Suc k) n = word_of_nat (n div 256 ^ k mod 256) # be_octets k n"
  using be_octets_add [of 1 k n] by simp

lemma ctr_inc_digit:
  "(word_of_nat (n div 256 ^ k mod 256) :: byte) + of_bool (256 ^ k dvd Suc n) =
     word_of_nat (Suc n div 256 ^ k mod 256)"
proof -
  have w: "(word_of_nat (m mod 256) :: byte) = word_of_nat m" for m
    by (rule word_unat_eq_iff [THEN iffD2]) (simp add: unat_of_nat)
  show ?thesis by (simp add: w div_Suc dvd_eq_mod_eq_0)
qed

lemma ctr_inc_carry:
  "(of_bool (256 ^ k dvd Suc n) :: byte) AND
     (if (word_of_nat (Suc n div 256 ^ k mod 256) :: byte) = 0 then 1 else 0) =
   of_bool (256 ^ Suc k dvd Suc n)"
proof -
  have z: "(word_of_nat (m mod 256) :: byte) = 0 \<longleftrightarrow> 256 dvd m" for m
    by (simp add: word_unat_eq_iff unat_of_nat dvd_eq_mod_eq_0)
  have "256 ^ Suc k dvd Suc n \<longleftrightarrow> 256 ^ k dvd Suc n \<and> 256 dvd Suc n div 256 ^ k"
    by (metis dvd_div_iff_mult dvd_mult_right mult.commute power_Suc power_not_zero zero_neq_numeral)
  then show ?thesis by (simp add: z)
qed

text \<open>
  The increment with a carry is addition of one to the big-endian number in the last \<open>q\<close>
  bytes, modulo \<open>256 ^ q\<close>.
\<close>

lemma ctr_inc_step:
  assumes "length pre + Suc (r + k) = 16"
  shows "ctr_inc_byte k (pre @ be_octets (Suc r) (n div 256 ^ k) @ be_octets k (Suc n), of_bool (256 ^ k dvd Suc n)) =
    (pre @ be_octets r (n div 256 ^ Suc k) @ be_octets (Suc k) (Suc n), of_bool (256 ^ Suc k dvd Suc n))"
proof -
  have i: "15 - k = length (pre @ be_octets r (n div 256 ^ Suc k))" using assms by simp
  have split: "pre @ be_octets (Suc r) (n div 256 ^ k) @ be_octets k (Suc n) =
      (pre @ be_octets r (n div 256 ^ Suc k)) @ word_of_nat (n div 256 ^ k mod 256) # be_octets k (Suc n)"
    by (simp add: div_mult2_eq mult.commute [of 256])
  have "((pre @ be_octets r (n div 256 ^ Suc k)) @ x # be_octets k (Suc n)) ! (15 - k) = x"
    "((pre @ be_octets r (n div 256 ^ Suc k)) @ x # be_octets k (Suc n))[15 - k := y] =
      (pre @ be_octets r (n div 256 ^ Suc k)) @ y # be_octets k (Suc n)" for x y
    unfolding i by (simp_all only: nth_append_length list_update_length)
  then show ?thesis
    unfolding split by (simp only: ctr_inc_byte_def prod.case Let_def ctr_inc_digit ctr_inc_carry)
      (simp only: be_octets_Suc_Cons append_assoc)
qed

lemma ctr_inc_loop:
  assumes "length pre + (r + k) = 16"
  shows "fold ctr_inc_byte [0..<k] (pre @ be_octets (r + k) n, 1) =
    (pre @ be_octets r (n div 256 ^ k) @ be_octets k (Suc n), of_bool (256 ^ k dvd Suc n))"
  using assms
proof (induction k arbitrary: r)
  case (Suc k)
  have "fold ctr_inc_byte [0..<k] (pre @ be_octets (Suc r + k) n, 1) =
    (pre @ be_octets (Suc r) (n div 256 ^ k) @ be_octets k (Suc n), of_bool (256 ^ k dvd Suc n))"
    using Suc.prems by (intro Suc.IH) simp
  moreover have "[0..<Suc k] = [0..<k] @ [k]" "r + Suc k = Suc r + k" by simp_all
  moreover have "length pre + Suc (r + k) = 16" using Suc.prems by simp
  ultimately show ?case by (simp only: fold_append o_apply fold_simps id_apply ctr_inc_step)
qed simp

lemma ccm_ctr_inc:
  "length pre + q = 16 \<Longrightarrow> wolfpsa_aead_ccm_ctr_inc (pre @ be_octets q n) q = pre @ be_octets q (Suc n)"
  using ctr_inc_loop [of pre 0 q n] by (simp add: wolfpsa_aead_ccm_ctr_inc_def)

lemma b0_len_step:
  assumes "length pre + Suc (r + k) = 16"
  shows "b0_len_byte k (pre @ replicate (Suc r) 0 @ be_octets k n, n div 256 ^ k) =
    (pre @ replicate r 0 @ be_octets (Suc k) n, n div 256 ^ Suc k)"
proof -
  have i: "15 - k = length (pre @ replicate r (0 :: byte))" using assms by simp
  have split: "pre @ replicate (Suc r) 0 @ be_octets k n = (pre @ replicate r 0) @ 0 # be_octets k n"
    by (simp add: replicate_app_Cons_same)
  have upd: "((pre @ replicate r 0) @ 0 # be_octets k n)[15 - k := y] = (pre @ replicate r 0) @ y # be_octets k n" for y
    unfolding i by (rule list_update_length)
  show ?thesis
    unfolding b0_len_byte_def prod.case split
    unfolding upd unfolding be_octets_Suc_Cons append_assoc
    by (simp add: div_mult2_eq mult.commute [of 256])
qed

lemma b0_len_loop:
  assumes "length pre + (r + k) = 16"
  shows "fold b0_len_byte [0..<k] (pre @ replicate (r + k) 0, n) =
    (pre @ replicate r 0 @ be_octets k n, n div 256 ^ k)"
  using assms
proof (induction k arbitrary: r)
  case (Suc k)
  have "fold b0_len_byte [0..<k] (pre @ replicate (Suc r + k) 0, n) =
      (pre @ replicate (Suc r) 0 @ be_octets k n, n div 256 ^ k)"
    using Suc.prems by (intro Suc.IH) simp
  moreover have "[0..<Suc k] = [0..<k] @ [k]" "r + Suc k = Suc r + k" by simp_all
  moreover have "length pre + Suc (r + k) = 16" using Suc.prems by simp
  ultimately show ?case by (simp only: fold_append o_apply fold_simps id_apply b0_len_step)
qed simp

lemma zero_pad_Cons_nonce:
  "length N \<le> 15 \<Longrightarrow> zero_pad (x # N) = (x # N) @ replicate (15 - length N) 0"
  by (simp add: zero_pad_def)

lemma be_octets_zero: "be_octets q 0 = replicate q 0"
  by (induction q) (simp_all add: replicate_append_same)

lemma be_octets_one: "0 < q \<Longrightarrow> be_octets q 1 = replicate (q - 1) 0 @ [1]"
  by (cases q) (simp_all add: be_octets_zero)

text \<open>The blocks that the code builds are those of the standard.\<close>

lemma ccm_b0_header:
  assumes "7 \<le> length N" "length N \<le> 13"
  shows "ccm_b0 (length A) t N n = (hd (ccm_header N A n t), n div 256 ^ (15 - length N))"
proof -
  define w :: byte where
    "w = word_of_nat ((if length A > 0 then 64 else 0) + 8 * ((t - 2) div 2) + (15 - length N - 1))"
  have c: "(if A = [] then 0 else 64) = (if length A > 0 then 64 else (0 :: nat))" by simp
  have "length (w # N) + (0 + (15 - length N)) = 16" using assms by simp
  from b0_len_loop [OF this, of n] zero_pad_Cons_nonce [of N w] assms show ?thesis
    unfolding ccm_b0_def ccm_header_def Let_def c w_def [symmetric] by simp
qed

lemma ccm_ctr_one:
  assumes "7 \<le> length N" "length N \<le> 13"
  shows "(zero_pad (word_of_nat (15 - length N - 1) # N))[15 := 1] = ccm_ctr_block N 1"
proof -
  obtain m where m: "15 - length N = Suc m" using assms by (cases "15 - length N") auto
  have "15 = length ((word_of_nat m # N) @ replicate m (0 :: byte))" using m assms by simp
  then have "(((word_of_nat m # N) @ replicate m 0) @ [0 :: byte])[15 := 1] = ((word_of_nat m # N) @ replicate m 0) @ [1]"
    by (metis list_update_length)
  moreover have "zero_pad (word_of_nat m # N) = ((word_of_nat m # N) @ replicate m 0) @ [0 :: byte]"
    using m assms by (simp add: zero_pad_def replicate_append_same)
  ultimately show ?thesis using m by (simp add: ccm_ctr_block_def be_octets_one be_octets_zero)
qed

lemma ccm_ctr_zero:
  "length N \<le> 15 \<Longrightarrow> zero_pad (word_of_nat (15 - length N - 1) # N) = ccm_ctr_block N 0"
  by (simp add: ccm_ctr_block_def zero_pad_def be_octets_zero)

lemma ccm_ctr_next:
  "length N \<le> 15 \<Longrightarrow> wolfpsa_aead_ccm_ctr_inc (ccm_ctr_block N i) (15 - length N) = ccm_ctr_block N (Suc i)"
  using ccm_ctr_inc [of "word_of_nat (15 - length N - 1) # N" "15 - length N" i]
  by (simp add: ccm_ctr_block_def Let_def)

lemma length_ccm_ctr_block [simp]: "length N \<le> 15 \<Longrightarrow> length (ccm_ctr_block N i) = 16"
  by (simp add: ccm_ctr_block_def)

lemma byte_of_nat_mod [simp]: "(word_of_nat (m mod 256) :: byte) = word_of_nat m"
  by (rule word_unat_eq_iff [THEN iffD2]) (simp add: unat_of_nat)

lemma ccm_aad_prefix_octets:
  "ccm_aad_prefix n = (if n < 2 ^ 16 - 2 ^ 8 then be_octets 2 n else [0xff, 0xfe] @ be_octets 4 n)"
proof -
  have two: "be_octets 2 n = [word_of_nat (n div 256), word_of_nat n]"
    using be_octets.simps(2) [of 1 n] by (simp add: numeral_2_eq_2)
  have "be_octets 4 n = be_octets 2 (n div 2 ^ 16) @ be_octets 2 n"
    using be_octets_add [of 2 2 n] by simp
  moreover have "be_octets 2 (n div 2 ^ 16) = [word_of_nat (n div 2 ^ 16 div 256), word_of_nat (n div 2 ^ 16)]"
    using be_octets.simps(2) [of 1 "n div 2 ^ 16"] by (simp add: numeral_2_eq_2)
  moreover have "n div 2 ^ 16 div 256 = n div 2 ^ 24" by (simp add: div_mult2_eq [symmetric])
  ultimately show ?thesis using two by (simp add: ccm_aad_prefix_def)
qed

lemma length_zero_pad [simp]: "length bs \<le> 16 \<Longrightarrow> length (zero_pad bs) = 16"
  by (simp add: zero_pad_def)

lemma ccm_blocks_step: "xs \<noteq> [] \<Longrightarrow> ccm_blocks xs = zero_pad (take 16 xs) # ccm_blocks (drop 16 xs)"
  by (cases xs) simp_all

lemma ccm_blocks_lengths: "b \<in> set (ccm_blocks xs) \<Longrightarrow> length b = 16"
  by (induction xs rule: ccm_blocks.induct) auto

lemma ccm_blocks_append:
  "16 dvd length xs \<Longrightarrow> ccm_blocks (xs @ ys) = ccm_blocks xs @ ccm_blocks ys"
proof (induction xs rule: ccm_blocks.induct)
  case (2 x xs)
  have l: "16 \<le> length (x # xs)" using "2.prems" by (rule dvd_imp_le) simp
  have "16 dvd length (drop 16 (x # xs))" 
    unfolding length_drop by (rule dvd_diff_nat [OF "2.prems" dvd_refl])
  from "2.IH" [OF this] l show ?case
    using ccm_blocks_step [of "(x # xs) @ ys"] by simp
qed simp

lemma ccm_blocks_full: "length xs = 16 \<Longrightarrow> ccm_blocks xs = [xs]"
  using ccm_blocks_step [of xs] by (cases xs) (simp_all add: zero_pad_def)

lemma ccm_blocks_aad:
  assumes "length pre \<le> 16" "pre \<noteq> []"
  shows "ccm_blocks (pre @ A) = zero_pad (pre @ take (16 - length pre) A) # ccm_blocks (drop (16 - length pre) A)"
  using assms ccm_blocks_step [of "pre @ A"] by simp

lemma cbc_mac_simps [simp]:
  "cbc_mac f y [] = y" "cbc_mac f y (b # bs) = cbc_mac f (f (map2 (XOR) y b)) bs"
  "cbc_mac f y (xs @ ys) = cbc_mac f (cbc_mac f y xs) ys"
  by (simp_all add: cbc_mac_def)

section \<open>The code computes CCM\<close>

text \<open>
  What is assumed of wolfCrypt's AES block function: whenever it reports success, a context
  that was keyed with \<open>k\<close> (\<open>G k\<close>) maps a block to \<open>f k\<close> of it and stays keyed; and that the
  check of a tag size passes only the sizes of the standard.
\<close>

definition aes_direct ::
    "('a, 'p, 'n) aead_engine \<Rightarrow> (byte list \<Rightarrow> 'a \<Rightarrow> bool) \<Rightarrow> (byte list \<Rightarrow> byte list \<Rightarrow> byte list) \<Rightarrow> bool" where
  "aes_direct E G f \<longleftrightarrow>
    (\<forall>k b. length (f k b) = 16) \<and>
    (\<forall>d k a a1 a2. ae_AesInit E d a = (WC_OK, a1) \<and> ae_AesSetKeyDirect E k a1 = (WC_OK, a2) \<longrightarrow> G k a2) \<and>
    (\<forall>k a b c a1. G k a \<and> length b = 16 \<and> ae_AesEncryptDirect E b a = (WC_OK, c, a1) \<longrightarrow> c = f k b \<and> G k a1) \<and>
    (\<forall>t. ae_AesCcmCheckTagSize E t = WC_OK \<longrightarrow> t \<in> {4, 6, 8, 10, 12, 14, 16})"

lemma aes_directD:
  assumes "aes_direct E G f"
  shows "length (f k b) = 16"
    and "ae_AesInit E d a = (WC_OK, a1) \<Longrightarrow> ae_AesSetKeyDirect E k a1 = (WC_OK, a2) \<Longrightarrow> G k a2"
    and "G k a \<Longrightarrow> length b = 16 \<Longrightarrow> ae_AesEncryptDirect E b a = (WC_OK, c, a1) \<Longrightarrow> c = f k b"
    and "G k a \<Longrightarrow> length b = 16 \<Longrightarrow> ae_AesEncryptDirect E b a = (WC_OK, c, a1) \<Longrightarrow> G k a1"
    and "ae_AesCcmCheckTagSize E t = WC_OK \<Longrightarrow> t \<in> {4, 6, 8, 10, 12, 14, 16}"
  using assms unfolding aes_direct_def by - (elim conjE, meson)+

lemma ccm_absorb_ok:
  assumes law: "aes_direct E G f" and g: "G k a" and l: "length mac = 16" "length b = 16"
    and r: "ccm_absorb E mac b a = Inr (mac1, a1)"
  shows "mac1 = f k (map2 (XOR) mac b)" "length mac1 = 16" "G k a1"
proof -
  have e: "ae_AesEncryptDirect E (map2 (XOR) mac b) a = (WC_OK, mac1, a1)"
    using r by (auto simp: ccm_absorb_def split: prod.splits if_split_asm)
  have lb: "length (map2 (XOR) mac b) = 16" using l by simp
  show "mac1 = f k (map2 (XOR) mac b)" "G k a1"
    using aes_directD(3,4) [OF law g lb e] by blast+
  then show "length mac1 = 16" using aes_directD(1) [OF law] by simp
qed

lemma length_cbc_mac:
  "aes_direct E G f \<Longrightarrow> length y = 16 \<Longrightarrow> length (cbc_mac (f k) y bs) = 16"
  by (induction bs arbitrary: y) (simp_all add: aes_directD(1))

lemma ccm_aad_loop_ok:
  assumes law: "aes_direct E G f" and "G k a" "length mac = 16" "ccm_aad_loop E mac xs a = Inr (mac1, a1)"
  shows "mac1 = cbc_mac (f k) mac (ccm_blocks xs) \<and> length mac1 = 16 \<and> G k a1"
  using assms
proof (induction E mac xs a rule: ccm_aad_loop.induct)
  case (2 E mac x xs a)
  obtain m a2 where ab: "ccm_absorb E mac (zero_pad (take 16 (x # xs))) a = Inr (m, a2)"
    and lo: "ccm_aad_loop E m (drop 16 (x # xs)) a2 = Inr (mac1, a1)"
    using "2.prems"(4) by (auto split: sum.splits prod.splits)
  have "length (zero_pad (take 16 (x # xs))) = 16" by simp
  from ccm_absorb_ok [OF "2.prems"(1-3) this ab] "2.IH" [OF ab refl "2.prems"(1) _ _ lo] show ?case
    by (simp add: length_cbc_mac [OF "2.prems"(1)])
qed simp

lemma ccm_aad_ok:
  assumes law: "aes_direct E G f" and g: "G k a" and l: "length mac = 16" and r: "ccm_aad E mac A a = Inr (mac1, a1)"
  shows "mac1 = cbc_mac (f k) mac (ccm_blocks (ccm_encode_aad A))" "length mac1 = 16" "G k a1"
proof -
  have "mac1 = cbc_mac (f k) mac (ccm_blocks (ccm_encode_aad A)) \<and> length mac1 = 16 \<and> G k a1"
  proof (cases "A = []")
    case False
    define pre where "pre = ccm_aad_prefix (length A)"
    have pre: "length pre \<le> 16" "pre \<noteq> []" by (auto simp: pre_def ccm_aad_prefix_def)
    have enc: "ccm_encode_aad A = pre @ A"
      using False unfolding pre_def ccm_encode_aad_def ccm_aad_prefix_octets by simp
    obtain m a2 where ab: "ccm_absorb E mac (zero_pad (pre @ take (16 - length pre) A)) a = Inr (m, a2)"
      and lo: "ccm_aad_loop E m (drop (16 - length pre) A) a2 = Inr (mac1, a1)"
      using r False by (auto simp: ccm_aad_def pre_def [symmetric] Let_def split: sum.splits prod.splits)
    have "length (zero_pad (pre @ take (16 - length pre) A)) = 16" using pre by simp
    note ccm_absorb_ok [OF law g l this ab]
    with ccm_aad_loop_ok [OF law _ _ lo] show ?thesis
      by (simp add: enc ccm_blocks_aad [OF pre] length_cbc_mac [OF law])
  qed (use r g l in \<open>simp add: ccm_aad_def ccm_encode_aad_def\<close>)
  then show "mac1 = cbc_mac (f k) mac (ccm_blocks (ccm_encode_aad A))" "length mac1 = 16" "G k a1" by blast+
qed

text \<open>
  The state after the bytes \<open>p\<close> of the plaintext: \<open>mac0\<close> is the CBC-MAC of the header, the
  keystream block in use is the one of the last byte, and the partial block holds what follows
  the last whole block.
\<close>

definition ccm_state ::
    "(byte list \<Rightarrow> 'a \<Rightarrow> bool) \<Rightarrow> (byte list \<Rightarrow> byte list \<Rightarrow> byte list) \<Rightarrow> byte list \<Rightarrow> byte list \<Rightarrow>
     byte list \<Rightarrow> byte list \<Rightarrow> ccm_ctx \<Rightarrow> 'a \<Rightarrow> bool" where
  "ccm_state G f k N mac0 p c a \<longleftrightarrow>
    G k a \<and> length mac0 = 16 \<and> ccm_lenSz c = 15 - length N \<and>
    ccm_ctr c = ccm_ctr_block N (Suc ((length p - 1) div 16)) \<and> ccm_ks c = f k (ccm_ctr c) \<and>
    ccm_ks_off c = (if p = [] then 0 else Suc ((length p - 1) mod 16)) \<and>
    ccm_mfill c = length p mod 16 \<and>
    ccm_mac c = cbc_mac (f k) mac0 (ccm_blocks (take (length p - length p mod 16) p)) \<and>
    ccm_mblk c = zero_pad (drop (length p - length p mod 16) p)"

lemma ccm_stateD:
  assumes "ccm_state G f k N mac0 p c a"
  shows "G k a" "length mac0 = 16" "ccm_lenSz c = 15 - length N"
    "ccm_ctr c = ccm_ctr_block N (Suc ((length p - 1) div 16))" "ccm_ks c = f k (ccm_ctr c)"
    "ccm_ks_off c = (if p = [] then 0 else Suc ((length p - 1) mod 16))" "ccm_mfill c = length p mod 16"
    "ccm_mac c = cbc_mac (f k) mac0 (ccm_blocks (take (length p - length p mod 16) p))"
    "ccm_mblk c = zero_pad (drop (length p - length p mod 16) p)"
  using assms unfolding ccm_state_def by blast+

lemma pred_div_mod:
  fixes n :: nat
  shows "n mod 16 \<noteq> 0 \<Longrightarrow> (n - 1) div 16 = n div 16" "n mod 16 \<noteq> 0 \<Longrightarrow> Suc ((n - 1) mod 16) = n mod 16"
    "0 < n \<Longrightarrow> n mod 16 = 0 \<Longrightarrow> Suc ((n - 1) div 16) = n div 16" "0 < n \<Longrightarrow> n mod 16 = 0 \<Longrightarrow> (n - 1) mod 16 = 15"
  by (cases n; simp add: mod_Suc div_Suc split: if_split_asm)+

lemma ccm_next_ks_ok:
  assumes law: "aes_direct E G f" and N: "length N \<le> 15" and st: "ccm_state G f k N mac0 p c a"
    and r: "ccm_next_ks E c a = Inr (c1, a1)"
  shows "G k a1 \<and> c1 = c\<lparr>ccm_ctr := ccm_ctr_block N (Suc (length p div 16)),
      ccm_ks := f k (ccm_ctr_block N (Suc (length p div 16))), ccm_ks_off := length p mod 16\<rparr>"
proof (cases "p \<noteq> [] \<and> length p mod 16 = 0")
  case True
  then have off: "ccm_ks_off c = 16" and ctr: "ccm_ctr c = ccm_ctr_block N (length p div 16)"
    using ccm_stateD [OF st] pred_div_mod(3,4) [of "length p"] by simp_all
  have inc: "wolfpsa_aead_ccm_ctr_inc (ccm_ctr c) (ccm_lenSz c) = ccm_ctr_block N (Suc (length p div 16))"
    using ccm_ctr_next [OF N] ctr ccm_stateD(3) [OF st] by simp
  from r off inc obtain ks where e: "ae_AesEncryptDirect E (ccm_ctr_block N (Suc (length p div 16))) a = (WC_OK, ks, a1)"
    and c1: "c1 = c\<lparr>ccm_ctr := ccm_ctr_block N (Suc (length p div 16)), ccm_ks := ks, ccm_ks_off := 0\<rparr>"
    by (auto simp: ccm_next_ks_def Let_def split: prod.splits if_split_asm)
  from aes_directD(3,4) [OF law ccm_stateD(1) [OF st] _ e] c1 True N show ?thesis by simp
next
  case False
  have "ccm_ks_off c = length p mod 16" "ccm_ks_off c \<noteq> 16"
    "ccm_ctr c = ccm_ctr_block N (Suc (length p div 16))"
    using False ccm_stateD(4,6) [OF st] pred_div_mod(1,2) [of "length p"] by auto
  with r ccm_stateD(1,5) [OF st] show ?thesis by (simp add: ccm_next_ks_def)
qed

lemma zero_pad_update:
  assumes "length r < 16"
  shows "(zero_pad r)[length r := zero_pad r ! length r XOR x] = zero_pad (r @ [x])"
proof -
  obtain n where n: "16 - length r = Suc n" using assms by (cases "16 - length r") auto
  have "zero_pad r = r @ 0 # replicate n 0" using n by (simp add: zero_pad_def)
  moreover have "zero_pad (r @ [x]) = r @ x # replicate n 0" using n by (simp add: zero_pad_def)
  ultimately show ?thesis by simp
qed

text \<open>One more plaintext byte in the CBC-MAC part of the state.\<close>

lemma ccm_mac_byte_ok:
  assumes law: "aes_direct E G f" and g: "G k a" and m0: "length mac0 = 16"
    and mf: "ccm_mfill c = length p mod 16"
    and mc: "ccm_mac c = cbc_mac (f k) mac0 (ccm_blocks (take (length p - length p mod 16) p))"
    and mb: "ccm_mblk c = zero_pad (drop (length p - length p mod 16) p)"
    and r: "ccm_mac_byte E x c a = Inr (c1, a1)"
  shows "G k a1 \<and> c1 = c\<lparr>ccm_mfill := Suc (length p) mod 16,
    ccm_mac := cbc_mac (f k) mac0 (ccm_blocks (take (Suc (length p) - Suc (length p) mod 16) (p @ [x]))),
    ccm_mblk := zero_pad (drop (Suc (length p) - Suc (length p) mod 16) (p @ [x]))\<rparr>"
proof -
  define n where "n = length p"
  define m where "m = n - n mod 16"
  have nm: "m \<le> n" "n = m + n mod 16" "16 dvd m" by (simp_all add: m_def dvd_minus_mod)
  define rest where "rest = drop m p"
  have lr: "length rest = n mod 16" using nm by (simp add: rest_def n_def [symmetric])
  have upd: "(ccm_mblk c)[ccm_mfill c := ccm_mblk c ! ccm_mfill c XOR x] = zero_pad (rest @ [x])"
    using zero_pad_update [of rest x] lr mf mb by (simp add: rest_def m_def n_def)
  show ?thesis
  proof (cases "Suc (n mod 16) = 16")
    case True
    then have s: "Suc n mod 16 = 0" by (simp add: mod_Suc)
    have full: "zero_pad (rest @ [x]) = rest @ [x]" using True lr by (simp add: zero_pad_def)
    obtain mac where ab: "ccm_absorb E (ccm_mac c) (rest @ [x]) a = Inr (mac, a1)"
      and c1: "c1 = c\<lparr>ccm_mac := mac, ccm_mfill := 0, ccm_mblk := replicate 16 0\<rparr>"
      using r True upd full mf
      by (auto simp: ccm_mac_byte_def n_def [symmetric] Let_def split: sum.splits)
    have l: "length (ccm_mac c) = 16" "length (rest @ [x]) = 16"
      using mc length_cbc_mac [OF law m0] True lr by simp_all
    have "ccm_blocks (p @ [x]) = ccm_blocks (take m p) @ [rest @ [x]]"
    proof -
      have p: "p @ [x] = take m p @ rest @ [x]" by (simp add: rest_def)
      have "16 dvd length (take m p)" using nm by (simp add: n_def min_absorb2)
      from ccm_blocks_append [OF this, of "rest @ [x]"] show ?thesis
        unfolding p ccm_blocks_full [OF l(2)] .
    qed
    then show ?thesis
      using ccm_absorb_ok [OF law g l ab] c1 s mc by (simp add: n_def [symmetric] m_def [symmetric] zero_pad_def)
  next
    case False
    then have s: "Suc n mod 16 = Suc (n mod 16)" "Suc n - Suc n mod 16 = m" by (simp_all add: mod_Suc m_def)
    have "c1 = c\<lparr>ccm_mblk := zero_pad (rest @ [x]), ccm_mfill := Suc (n mod 16)\<rparr>" "a1 = a"
      using r False upd mf by (auto simp: ccm_mac_byte_def n_def [symmetric] Let_def)
    moreover have "take m (p @ [x]) = take m p" "drop m (p @ [x]) = rest @ [x]"
      using nm(1) by (simp_all add: rest_def n_def)
    ultimately show ?thesis
      using g s(1) mc unfolding n_def [symmetric] s(2) m_def [symmetric] by simp
  qed
qed

lemma ccm_state_step:
  assumes law: "aes_direct E G f" and N: "length N \<le> 15" and st: "ccm_state G f k N mac0 p c a"
    and ks: "ccm_next_ks E c a = Inr (c1, a1)"
    and mb: "ccm_mac_byte E x (c1\<lparr>ccm_ks_off := ccm_ks_off c1 + 1\<rparr>) a1 = Inr (c2, a2)"
  shows "ccm_ks c1 ! ccm_ks_off c1 = ccm_keystream (f k) N (length p)" "ccm_state G f k N mac0 (p @ [x]) c2 a2"
proof -
  let ?ctr = "ccm_ctr_block N (Suc (length p div 16))"
  have g1: "G k a1" and c1: "c1 = c\<lparr>ccm_ctr := ?ctr, ccm_ks := f k ?ctr, ccm_ks_off := length p mod 16\<rparr>"
    using ccm_next_ks_ok [OF law N st ks] by blast+
  show "ccm_ks c1 ! ccm_ks_off c1 = ccm_keystream (f k) N (length p)"
    by (simp add: c1 ccm_keystream_def)
  have "G k a2 \<and> c2 = (c1\<lparr>ccm_ks_off := ccm_ks_off c1 + 1\<rparr>)\<lparr>ccm_mfill := Suc (length p) mod 16,
    ccm_mac := cbc_mac (f k) mac0 (ccm_blocks (take (Suc (length p) - Suc (length p) mod 16) (p @ [x]))),
    ccm_mblk := zero_pad (drop (Suc (length p) - Suc (length p) mod 16) (p @ [x]))\<rparr>"
    by (rule ccm_mac_byte_ok [OF law g1 ccm_stateD(2) [OF st] _ _ _ mb]) (use ccm_stateD [OF st] c1 in simp_all)
  then show "ccm_state G f k N mac0 (p @ [x]) c2 a2"
    using ccm_stateD(2,3) [OF st] by (simp add: ccm_state_def c1)
qed

text \<open>A part of the message that starts at byte \<open>n\<close>.\<close>

definition ccm_crypt_at :: "(byte list \<Rightarrow> byte list) \<Rightarrow> byte list \<Rightarrow> nat \<Rightarrow> byte list \<Rightarrow> byte list" where
  "ccm_crypt_at f N n m = map (\<lambda>j. m ! j XOR ccm_keystream f N (n + j)) [0..<length m]"

lemma ccm_crypt_at_Nil [simp]: "ccm_crypt_at f N n [] = []"
  by (simp add: ccm_crypt_at_def)

lemma ccm_crypt_at_Cons [simp]:
  "ccm_crypt_at f N n (x # xs) = (x XOR ccm_keystream f N n) # ccm_crypt_at f N (Suc n) xs"
  by (simp add: ccm_crypt_at_def upt_conv_Cons map_Suc_upt [symmetric] o_def del: upt_Suc)

lemma ccm_crypt_at_eq_Nil [simp]: "ccm_crypt_at f N n m = [] \<longleftrightarrow> m = []"
  by (simp add: ccm_crypt_at_def)

lemma ccm_crypt_at_append:
  "ccm_crypt_at f N n (xs @ ys) = ccm_crypt_at f N n xs @ ccm_crypt_at f N (n + length xs) ys"
  by (induction xs arbitrary: n) simp_all

lemma ccm_crypt_at_0: "ccm_crypt_at f N 0 m = ccm_crypt f N m"
  by (simp add: ccm_crypt_at_def ccm_crypt_def)

lemma length_ccm_crypt [simp]: "length (ccm_crypt_at f N n m) = length m" "length (ccm_crypt f N m) = length m"
  by (simp_all add: ccm_crypt_at_def ccm_crypt_def)

lemma ccm_crypt_at_twice [simp]: "ccm_crypt_at f N n (ccm_crypt_at f N n m) = m"
  by (induction m arbitrary: n) (simp_all add: xor.assoc)

lemma ccm_update_ok:
  assumes law: "aes_direct E G f" and N: "length N \<le> 15" and st: "ccm_state G f k N mac0 p c a"
    and up: "wolfpsa_aead_ccm_update E enc xs c a = Inr (out, c1, a1)"
  shows "out = ccm_crypt_at (f k) N (length p) xs \<and> ccm_state G f k N mac0 (p @ (if enc then xs else out)) c1 a1"
  using st up
proof (induction xs arbitrary: p c a out)
  case (Cons x xs)
  obtain c2 a2 where ks: "ccm_next_ks E c a = Inr (c2, a2)"
    using Cons.prems(2) by (auto split: sum.splits)
  define o1 where "o1 = x XOR ccm_ks c2 ! ccm_ks_off c2"
  obtain c3 a3 outs where
    mb: "ccm_mac_byte E (if enc then x else o1) (c2\<lparr>ccm_ks_off := ccm_ks_off c2 + 1\<rparr>) a2 = Inr (c3, a3)"
    and rec: "wolfpsa_aead_ccm_update E enc xs c3 a3 = Inr (outs, c1, a1)" and out: "out = o1 # outs"
    using Cons.prems(2) ks by (auto simp: o1_def Let_def split: sum.splits prod.splits if_splits)
  note S = ccm_state_step [OF law N Cons.prems(1) ks mb]
  from Cons.IH [OF S(2) rec] S(1) out show ?case by (auto simp: o1_def)
qed simp

text \<open>The tag, and the state after initialisation.\<close>

lemma map_xor_take:
  fixes xs ys :: "byte list"
  shows "t \<le> length xs \<Longrightarrow> t \<le> length ys \<Longrightarrow> map (\<lambda>i. xs ! i XOR ys ! i) [0..<t] = take t (map2 (XOR) xs ys)"
  by (rule nth_equalityI) simp_all

lemma ccm_finish_ok:
  assumes law: "aes_direct E G f" and N: "length N \<le> 15" and st: "ccm_state G f k N mac0 p c a" and t: "t \<le> 16"
    and fi: "wolfpsa_aead_ccm_finish E N t c a = Inr tag"
  shows "tag = take t (map2 (XOR) (cbc_mac (f k) mac0 (ccm_blocks p)) (f k (ccm_ctr_block N 0)))"
proof -
  let ?m = "length p - length p mod 16"
  have lm: "length (ccm_mac c) = 16" using ccm_stateD(2,8) [OF st] length_cbc_mac [OF law] by simp
  have blk: "ccm_blocks p = ccm_blocks (take ?m p) @ ccm_blocks (drop ?m p)"
    using ccm_blocks_append [of "take ?m p" "drop ?m p"] by (simp add: dvd_minus_mod min_absorb2)
  obtain mac a1 where mac: "(if ccm_mfill c > 0 then ccm_absorb E (ccm_mac c) (ccm_mblk c) a else Inr (ccm_mac c, a)) = Inr (mac, a1)"
    using fi by (auto simp: wolfpsa_aead_ccm_finish_def split: sum.splits)
  have M: "mac = cbc_mac (f k) mac0 (ccm_blocks p) \<and> G k a1 \<and> length mac = 16"
  proof (cases "ccm_mfill c > 0")
    case True
    have nz: "drop ?m p \<noteq> []" "length (drop ?m p) < 16" using True ccm_stateD(7) [OF st] by auto
    then have "ccm_blocks (drop ?m p) = [zero_pad (drop ?m p)]" using ccm_blocks_step [OF nz(1)] by simp
    moreover have "ccm_absorb E (ccm_mac c) (zero_pad (drop ?m p)) a = Inr (mac, a1)"
      using mac True ccm_stateD(9) [OF st] by simp
    note ccm_absorb_ok [OF law ccm_stateD(1) [OF st] lm _ this]
    ultimately show ?thesis using nz blk ccm_stateD(8) [OF st] by simp
  next
    case False
    then show ?thesis using mac lm ccm_stateD(1,7,8) [OF st] by simp
  qed
  have z: "zero_pad (word_of_nat (ccm_lenSz c - 1) # N) = ccm_ctr_block N 0"
    using ccm_ctr_zero [OF N] ccm_stateD(3) [OF st] by simp
  obtain tmp a2 where e: "ae_AesEncryptDirect E (ccm_ctr_block N 0) a1 = (WC_OK, tmp, a2)"
    and tag: "tag = map (\<lambda>i. mac ! i XOR tmp ! i) [0..<t]"
    using fi mac z by (auto simp: wolfpsa_aead_ccm_finish_def split: prod.splits if_split_asm)
  have "tmp = f k (ccm_ctr_block N 0)"
    by (rule aes_directD(3) [OF law conjunct1 [OF conjunct2 [OF M]] _ e]) (use N in simp)
  moreover have "length mac = 16" using M by blast
  then have "t \<le> length mac" "t \<le> length tmp" using t calculation aes_directD(1) [OF law] by simp_all
  note map_xor_take [OF this]
  ultimately show ?thesis using tag M by simp
qed

lemma ccm_init_ok:
  assumes law: "aes_direct E G f" and r: "wolfpsa_aead_ccm_init E ctx = Inr ctx1"
  shows "7 \<le> length (ae_nonce ctx)" "length (ae_nonce ctx) \<le> 13"
    "ae_plaintext_expected ctx < 256 ^ (15 - length (ae_nonce ctx))"
    "\<exists>c a. ctx1 = ctx\<lparr>ae_aes := a, ae_ccm := c\<rparr> \<and>
      ccm_state G f (ae_key ctx) (ae_nonce ctx)
        (cbc_mac (f (ae_key ctx)) (replicate 16 0)
          (ccm_header (ae_nonce ctx) (ae_aad ctx) (ae_plaintext_expected ctx) (ae_tag_length ctx))) [] c a"
proof -
  define N A P t k where "N = ae_nonce ctx" and "A = ae_aad ctx" and "P = ae_plaintext_expected ctx"
    and "t = ae_tag_length ctx" and "k = ae_key ctx"
  note fld = this
  have "\<not> (length (ae_nonce ctx) < 7 \<or> 13 < length (ae_nonce ctx))"
    by (rule notI) (use r in \<open>simp add: wolfpsa_aead_ccm_init_def Let_def\<close>)
  then show N: "7 \<le> length (ae_nonce ctx)" "length (ae_nonce ctx) \<le> 13" by simp_all
  have b0: "ccm_b0 (length A) t N P = (hd (ccm_header N A P t), P div 256 ^ (15 - length N))"
    using ccm_b0_header N by (simp add: fld)
  have ctr: "(zero_pad (word_of_nat (15 - length N - 1) # N))[15 := 1] = ccm_ctr_block N 1"
    using ccm_ctr_one N by (simp add: fld)
  note R = r [unfolded wolfpsa_aead_ccm_init_def Let_def, folded fld]
  have N': "\<not> (length N < 7 \<or> 13 < length N)" using N by (simp add: fld)
  obtain r0 a0 where i0: "ae_AesInit E (ae_devid E) (ae_aes ctx) = (r0, a0)" by fastforce
  obtain r1 a1 where i1: "ae_AesSetKeyDirect E k a0 = (r1, a1)" by fastforce
  have "r0 = WC_OK" by (rule ccontr) (use R N' i0 in simp)
  moreover from this have "r1 = WC_OK" by - (rule ccontr, use R N' i0 i1 in simp)
  ultimately have i: "ae_AesInit E (ae_devid E) (ae_aes ctx) = (WC_OK, a0)" "ae_AesSetKeyDirect E k a0 = (WC_OK, a1)"
    using i0 i1 by simp_all
  have P: "P div 256 ^ (15 - length N) = 0" by (rule ccontr) (use R N' i b0 in simp)
  then show "ae_plaintext_expected ctx < 256 ^ (15 - length (ae_nonce ctx))"
    by (simp add: fld div_eq_0_iff)
  obtain r2 mac a2 where e0: "ae_AesEncryptDirect E (hd (ccm_header N A P t)) a1 = (r2, mac, a2)" by (metis prod_cases3)
  have "r2 = WC_OK" by (rule ccontr) (use R N' i b0 P e0 in simp)
  with e0 have e: "ae_AesEncryptDirect E (hd (ccm_header N A P t)) a1 = (WC_OK, mac, a2)" by simp
  obtain mac2 a3 where aa: "ccm_aad E mac A a2 = Inr (mac2, a3)"
    using R N' i b0 P e by (cases "ccm_aad E mac A a2") auto
  obtain r4 ks a4 where k0: "ae_AesEncryptDirect E (ccm_ctr_block N 1) a3 = (r4, ks, a4)" by (metis prod_cases3)
  have "r4 = WC_OK" by (rule ccontr) (use R [unfolded ctr] N' i b0 P e aa k0 in simp)
  with k0 have kb: "ae_AesEncryptDirect E (ccm_ctr_block N 1) a3 = (WC_OK, ks, a4)" by simp
  have c1: "ctx1 = ctx\<lparr>ae_aes := a4, ae_ccm :=
      \<lparr>ccm_aes_inited = True, ccm_ctr = ccm_ctr_block N 1, ccm_mac = mac2, ccm_mblk = replicate 16 0, ccm_mfill = 0,
       ccm_ks = ks, ccm_ks_off = 0, ccm_lenSz = 15 - length N, ccm_tag_len = t, ccm_ks_valid = True\<rparr>\<rparr>"
    using R [unfolded ctr] N' i b0 P e aa kb by simp
  have g: "G k a1" by (rule aes_directD(2) [OF law i])
  have lb: "length (hd (ccm_header N A P t)) = 16" using N by (simp add: ccm_header_def fld Let_def)
  have m: "mac = f k (hd (ccm_header N A P t))" "length mac = 16" "G k a2"
    using aes_directD(3,4) [OF law g lb e] aes_directD(1) [OF law] by simp_all
  note M = ccm_aad_ok [OF law m(3,2) aa]
  have h: "ccm_header N A P t = hd (ccm_header N A P t) # ccm_blocks (ccm_encode_aad A)"
    by (simp add: ccm_header_def Let_def)
  have z: "map2 (XOR) (replicate 16 0) b = b" if "length b = 16" for b :: "byte list"
    by (rule nth_equalityI) (use that in simp_all)
  have hd_mac: "cbc_mac (f k) (replicate 16 0) (ccm_header N A P t) = mac2"
    by (subst h) (simp only: cbc_mac_simps z [OF lb] m(1) [symmetric] M(1))
  have K: "ks = f k (ccm_ctr_block N 1)" "G k a4"
    using aes_directD(3,4) [OF law M(3) _ kb] N by (simp_all add: fld)
  show "\<exists>c a. ctx1 = ctx\<lparr>ae_aes := a, ae_ccm := c\<rparr> \<and>
      ccm_state G f (ae_key ctx) (ae_nonce ctx)
        (cbc_mac (f (ae_key ctx)) (replicate 16 0)
          (ccm_header (ae_nonce ctx) (ae_aad ctx) (ae_plaintext_expected ctx) (ae_tag_length ctx))) [] c a"
    unfolding fld [symmetric] hd_mac
    by (intro exI conjI, rule c1) (use K M in \<open>simp add: ccm_state_def zero_pad_def\<close>)
qed

text \<open>A failure is never reported as success.\<close>

lemma ccm_absorb_Inl [simp]: "ccm_absorb E mac b a \<noteq> Inl PSA_SUCCESS"
  by (simp add: ccm_absorb_def split: prod.splits)

lemma ccm_aad_loop_Inl [simp]: "ccm_aad_loop E mac xs a \<noteq> Inl PSA_SUCCESS"
proof (induction E mac xs a rule: ccm_aad_loop.induct)
  case (2 E mac x xs a)
  have n: "ccm_absorb E mac (zero_pad (take 16 (x # xs))) a \<noteq> Inl PSA_SUCCESS" by simp
  show ?case
  proof (cases "ccm_absorb E mac (zero_pad (take 16 (x # xs))) a")
    case (Inr r)
    obtain m a1 where "r = (m, a1)" by fastforce
    with Inr 2 show ?thesis by simp
  qed (use n in simp)
qed simp

lemma ccm_aad_Inl [simp]: "ccm_aad E mac A a \<noteq> Inl PSA_SUCCESS"
  by (auto simp: ccm_aad_def Let_def split: sum.splits)

lemma ccm_init_Inl [simp]: "wolfpsa_aead_ccm_init E ctx \<noteq> Inl PSA_SUCCESS"
proof -
  obtain r0 a0 where i: "(case ae_AesInit E (ae_devid E) (ae_aes ctx) of
      (ret, aes) \<Rightarrow> if ret = WC_OK then ae_AesSetKeyDirect E (ae_key ctx) aes else (ret, aes)) = (r0, a0)"
    by fastforce
  obtain blk n where b: "ccm_b0 (length (ae_aad ctx)) (ae_tag_length ctx) (ae_nonce ctx) (ae_plaintext_expected ctx) = (blk, n)"
    by fastforce
  obtain r1 mac a1 where e: "ae_AesEncryptDirect E blk a0 = (r1, mac, a1)" by (metis prod_cases3)
  have n: "ccm_aad E mac (ae_aad ctx) a1 \<noteq> Inl PSA_SUCCESS" by simp
  show ?thesis
  proof (cases "ccm_aad E mac (ae_aad ctx) a1")
    case (Inl x)
    with n show ?thesis by (simp add: wolfpsa_aead_ccm_init_def Let_def i b e)
  next
    case (Inr r)
    obtain mac2 a2 where r: "r = (mac2, a2)" by fastforce
    obtain r3 ks a3 where k: "ae_AesEncryptDirect E ((zero_pad (word_of_nat (15 - length (ae_nonce ctx) - 1) # ae_nonce ctx))[15 := 1]) a2 =
        (r3, ks, a3)" by (metis prod_cases3)
    show ?thesis unfolding wolfpsa_aead_ccm_init_def Let_def i prod.case b e Inr r sum.case k by simp
  qed
qed

lemma ccm_update_Inl [simp]: "wolfpsa_aead_ccm_update E enc xs c a \<noteq> Inl PSA_SUCCESS"
proof (induction xs arbitrary: c a)
  case (Cons x xs)
  have ks: "ccm_next_ks E c a \<noteq> Inl PSA_SUCCESS"
    by (simp add: ccm_next_ks_def Let_def split: prod.splits)
  have mb: "ccm_mac_byte E b c a \<noteq> Inl PSA_SUCCESS" for b c a
    by (auto simp: ccm_mac_byte_def Let_def split: sum.splits)
  show ?case
    using ks Cons.IH by (cases enc) (auto simp: Let_def mb split: sum.splits)
qed simp

lemma ccm_finish_Inl [simp]: "wolfpsa_aead_ccm_finish E N t c a \<noteq> Inl PSA_SUCCESS"
  by (auto simp: wolfpsa_aead_ccm_finish_def split: sum.splits prod.splits)

end
