(* ===== verification/Aead.thy ===== *)
theory Aead
  imports Aead_Ccm
begin

text \<open>
  \<open>src/psa_aead.c\<close> and \<open>src/psa_chacha20_poly1305.c\<close>: authenticated encryption. A multi-part
  operation goes through set-up, optional lengths, nonce, associated data and payload to a tag
  that is produced or verified. With an output buffer, updates stream through wolfCrypt (GCM,
  ChaCha20-Poly1305) or the CCM of theory \<open>Aead_Ccm\<close>; without one they buffer, and the final
  call runs a one-shot function: the one-shot entry points work that way. XChaCha20-Poly1305
  and Ascon-AEAD128 have one-shot paths of their own. The build is the default one, in which
  all of these are present.

  An operation argument is \<open>None\<close> for a NULL pointer; the operation itself is \<open>None\<close> when its
  context pointer is NULL. Lengths returned through a pointer are \<open>None\<close> for a NULL pointer. The
  lengths of data fed so far are natural numbers: without declared lengths the counter of the
  code would wrap after 2^64 bytes.
\<close>

unbundle bit_operations_syntax

section \<open>Buffers, limits and tags\<close>

definition wolfpsa_aead_get_ctx ::
    "('a, 'p) psa_aead_operation_t option \<Rightarrow> ('a, 'p) wolfpsa_aead_ctx option" where
  "wolfpsa_aead_get_ctx op = (case op of None \<Rightarrow> None | Some ctx \<Rightarrow> ctx)"

definition psa_aead_abort ::
    "('a, 'p) psa_aead_operation_t option \<Rightarrow> psa_status \<times> ('a, 'p) psa_aead_operation_t option" where
  "psa_aead_abort op = (if op = None then (PSA_ERROR_INVALID_ARGUMENT, op) else (PSA_SUCCESS, Some None))"

text \<open>The status, the new buffer, \<open>*len\<close> and the state of the allocator.\<close>

definition wolfpsa_aead_append ::
    "byte list \<Rightarrow> nat \<Rightarrow> inbuf \<Rightarrow> 'st key_store \<Rightarrow> psa_status \<times> byte list \<times> nat \<times> 'st key_store" where
  "wolfpsa_aead_append buf len inp s =
    (if in_null inp \<and> in_length inp > 0 then (PSA_ERROR_INVALID_ARGUMENT, buf, len, s)
     else if in_length inp = 0 then (PSA_SUCCESS, buf, len, s)
     else if len > SIZE_MAX - in_length inp then (PSA_ERROR_INSUFFICIENT_MEMORY, buf, len, s)
     else
       (let (ok, s1) = s_xmalloc s in
        if \<not> ok then (PSA_ERROR_INSUFFICIENT_MEMORY, buf, len, s1)
        else (PSA_SUCCESS, buf @ in_bytes inp, len + in_length inp, s1)))"

text \<open>A heap buffer of the context as a pointer argument.\<close>

definition ctx_buf :: "byte list \<Rightarrow> inbuf" where
  "ctx_buf bs = (if bs = [] then NullIn 0 else In bs)"

fun wolfpsa_aead_nonnull_data :: "inbuf \<Rightarrow> inbuf" where
  "wolfpsa_aead_nonnull_data (NullIn 0) = In []"
| "wolfpsa_aead_nonnull_data b = b"

lemma nonnull_ctx_buf [simp]: "wolfpsa_aead_nonnull_data (ctx_buf bs) = In bs"
  by (simp add: ctx_buf_def)

definition wolfpsa_aead_tag_length :: "psa_algorithm_t \<Rightarrow> nat" where
  "wolfpsa_aead_tag_length a = PSA_ALG_AEAD_GET_TAG_LENGTH a"

definition wolfpsa_aead_lengths_missing :: "('a, 'p) wolfpsa_aead_ctx \<Rightarrow> bool" where
  "wolfpsa_aead_lengths_missing ctx \<longleftrightarrow> PSA_ALG_AEAD_EQUAL (ae_alg ctx) PSA_ALG_CCM \<and> \<not> ae_lengths_set ctx"

text \<open>Algorithm, bound of the associated data, bound of the plaintext.\<close>

definition wolfpsa_aead_limits :: "(psa_algorithm_t \<times> nat \<times> nat) list" where
  "wolfpsa_aead_limits =
    [(PSA_ALG_GCM, 2 ^ 61 - 1, 0xFFFFFFFE0), (PSA_ALG_CHACHA20_POLY1305, 2 ^ 64 - 1, UINT32_MAX * 64)]"

definition wolfpsa_aead_check_lengths :: "psa_algorithm_t \<Rightarrow> nat \<Rightarrow> nat \<Rightarrow> nat \<Rightarrow> psa_status" where
  "wolfpsa_aead_check_lengths a nonce_length ad_length plaintext_length =
    (let len_size = 15 - nonce_length in
     if PSA_ALG_AEAD_EQUAL a PSA_ALG_CCM \<and> nonce_length \<noteq> 0 \<and>
        len_size < 8 \<and> plaintext_length div 2 ^ (8 * len_size) \<noteq> 0
       then PSA_ERROR_INVALID_ARGUMENT
     else if list_ex (\<lambda>(lim_alg, max_ad, max_plaintext). PSA_ALG_AEAD_EQUAL a lim_alg \<and>
               (ad_length > max_ad \<or> plaintext_length > max_plaintext)) wolfpsa_aead_limits
       then PSA_ERROR_INVALID_ARGUMENT
     else if wolfpsa_check_word32_length ad_length \<noteq> PSA_SUCCESS \<or>
             \<not> PSA_ALG_AEAD_EQUAL a PSA_ALG_CCM \<and> wolfpsa_check_word32_length plaintext_length \<noteq> PSA_SUCCESS
       then PSA_ERROR_NOT_SUPPORTED
     else PSA_SUCCESS)"

abbreviation WC_AES_BLOCK_SIZE :: nat where "WC_AES_BLOCK_SIZE \<equiv> 16"
abbreviation CHACHA20_POLY1305_AEAD_KEYSIZE :: nat where "CHACHA20_POLY1305_AEAD_KEYSIZE \<equiv> 32"
abbreviation CHACHA20_POLY1305_AEAD_IV_SIZE :: nat where "CHACHA20_POLY1305_AEAD_IV_SIZE \<equiv> 12"
abbreviation CHACHA20_POLY1305_AEAD_AUTHTAG_SIZE :: nat where "CHACHA20_POLY1305_AEAD_AUTHTAG_SIZE \<equiv> 16"
abbreviation XCHACHA20_POLY1305_AEAD_NONCE_SIZE :: nat where "XCHACHA20_POLY1305_AEAD_NONCE_SIZE \<equiv> 24"
abbreviation ASCON_AEAD128_KEY_SZ :: nat where "ASCON_AEAD128_KEY_SZ \<equiv> 16"
abbreviation ASCON_AEAD128_NONCE_SZ :: nat where "ASCON_AEAD128_NONCE_SZ \<equiv> 16"
abbreviation ASCON_AEAD128_TAG_SZ :: nat where "ASCON_AEAD128_TAG_SZ \<equiv> 16"

definition wolfpsa_aead_gcm_check_tag_size :: "('a, 'p, 'n) aead_engine \<Rightarrow> nat \<Rightarrow> psa_status" where
  "wolfpsa_aead_gcm_check_tag_size E tag_length =
    (if tag_length \<noteq> 4 \<and> tag_length \<noteq> 8 \<and> (tag_length < 12 \<or> tag_length > WC_AES_BLOCK_SIZE)
       then PSA_ERROR_INVALID_ARGUMENT
     else if tag_length < ae_min_tag E then PSA_ERROR_NOT_SUPPORTED
     else PSA_SUCCESS)"

section \<open>Keys\<close>

definition wolfpsa_aead_alg_permitted :: "psa_algorithm_t \<Rightarrow> psa_algorithm_t \<Rightarrow> bool" where
  "wolfpsa_aead_alg_permitted key_alg a =
    (let key_tag_len = wolfpsa_aead_tag_length key_alg; req_tag_len = wolfpsa_aead_tag_length a in
     if key_tag_len = 0 \<or>
        PSA_ALG_AEAD_WITH_DEFAULT_LENGTH_TAG key_alg \<noteq> PSA_ALG_AEAD_WITH_DEFAULT_LENGTH_TAG a then False
     else if key_alg AND PSA_ALG_AEAD_AT_LEAST_THIS_LENGTH_FLAG \<noteq> 0 then req_tag_len \<ge> key_tag_len
     else req_tag_len = key_tag_len)"

definition wolfpsa_aead_key_permits_alg :: "psa_key_attributes_t \<Rightarrow> psa_algorithm_t \<Rightarrow> bool" where
  "wolfpsa_aead_key_permits_alg attrs a \<longleftrightarrow>
    wolfpsa_aead_alg_permitted (alg (policy attrs)) a \<or> wolfpsa_aead_alg_permitted (alg2 (policy attrs)) a"

definition wolfpsa_aead_check_key ::
    "('st, 'h) psa_env \<Rightarrow> psa_key_id_t \<Rightarrow> psa_key_usage_t \<Rightarrow> psa_algorithm_t \<Rightarrow> 'st key_store \<Rightarrow>
     (psa_status + psa_key_attributes_t \<times> byte list) \<times> 'st key_store" where
  "wolfpsa_aead_check_key env key want a s =
    (case load_key env key s of
       (Inl status, s1) \<Rightarrow> (Inl status, s1)
     | (Inr (attrs, d), s1) \<Rightarrow>
         (if (PSA_ALG_AEAD_EQUAL a PSA_ALG_GCM \<or> PSA_ALG_AEAD_EQUAL a PSA_ALG_CCM) \<and> type attrs \<noteq> PSA_KEY_TYPE_AES
            then Inl PSA_ERROR_INVALID_ARGUMENT
          else if \<not> (PSA_ALG_AEAD_EQUAL a PSA_ALG_GCM \<or> PSA_ALG_AEAD_EQUAL a PSA_ALG_CCM) \<and>
                  PSA_ALG_AEAD_EQUAL a PSA_ALG_CHACHA20_POLY1305 \<and> type attrs \<noteq> PSA_KEY_TYPE_CHACHA20
            then Inl PSA_ERROR_INVALID_ARGUMENT
          else if \<not> (PSA_ALG_AEAD_EQUAL a PSA_ALG_GCM \<or> PSA_ALG_AEAD_EQUAL a PSA_ALG_CCM) \<and>
                  \<not> PSA_ALG_AEAD_EQUAL a PSA_ALG_CHACHA20_POLY1305
            then Inl PSA_ERROR_NOT_SUPPORTED
          else if psa_get_key_usage_flags attrs AND want \<noteq> want then Inl PSA_ERROR_NOT_PERMITTED
          else if wolfpsa_aead_tag_length a = 0 then Inl PSA_ERROR_INVALID_ARGUMENT
          else if \<not> wolfpsa_aead_key_permits_alg attrs a then Inl PSA_ERROR_NOT_PERMITTED
          else Inr (attrs, d), s1))"

section \<open>Set-up\<close>

definition zero_ccm :: ccm_ctx where
  "zero_ccm = \<lparr>ccm_aes_inited = False, ccm_ctr = replicate 16 0, ccm_mac = replicate 16 0,
    ccm_mblk = replicate 16 0, ccm_mfill = 0, ccm_ks = replicate 16 0, ccm_ks_off = 0, ccm_lenSz = 0,
    ccm_tag_len = 0, ccm_ks_valid = False\<rparr>"

definition aead_new_ctx ::
    "('a, 'p, 'n) aead_engine \<Rightarrow> bool \<Rightarrow> psa_algorithm_t \<Rightarrow> psa_key_attributes_t \<Rightarrow> byte list \<Rightarrow>
     ('a, 'p) wolfpsa_aead_ctx" where
  "aead_new_ctx E enc a attrs d =
    \<lparr>ae_alg = a, ae_key_type = type attrs, ae_key_bits = bits attrs, ae_direction = enc, ae_key = d,
     ae_nonce = [], ae_aad = [], ae_input = [], ae_input_length = 0, ae_ad_expected = 0,
     ae_plaintext_expected = 0, ae_tag_length = wolfpsa_aead_tag_length a, ae_lengths_set = False,
     ae_ad_started = False, ae_body_started = False, ae_streaming = False, ae_aes = ae_aes_zero E,
     ae_gcm_inited = False, ae_chacha = ae_chacha_zero E, ae_ccm = zero_ccm\<rparr>"

text \<open>The checks of the tag length that the algorithm makes.\<close>

definition aead_check_tag :: "('a, 'p, 'n) aead_engine \<Rightarrow> psa_algorithm_t \<Rightarrow> nat \<Rightarrow> psa_status" where
  "aead_check_tag E a tag_length =
    (if tag_length = 0 then PSA_ERROR_INVALID_ARGUMENT
     else if PSA_ALG_AEAD_EQUAL a PSA_ALG_CCM \<and> ae_AesCcmCheckTagSize E tag_length \<noteq> WC_OK
       then PSA_ERROR_INVALID_ARGUMENT
     else if PSA_ALG_AEAD_EQUAL a PSA_ALG_GCM \<and> wolfpsa_aead_gcm_check_tag_size E tag_length \<noteq> PSA_SUCCESS
       then wolfpsa_aead_gcm_check_tag_size E tag_length
     else if PSA_ALG_AEAD_EQUAL a PSA_ALG_CHACHA20_POLY1305 \<and> tag_length \<noteq> CHACHA20_POLY1305_AEAD_AUTHTAG_SIZE
       then PSA_ERROR_NOT_SUPPORTED
     else PSA_SUCCESS)"

definition aead_check_alg :: "psa_algorithm_t \<Rightarrow> psa_status" where
  "aead_check_alg a =
    (if \<not> PSA_ALG_IS_AEAD a \<or> PSA_ALG_AEAD_EQUAL a PSA_ALG_CCM_STAR_NO_TAG then PSA_ERROR_NOT_SUPPORTED
     else if a AND PSA_ALG_AEAD_AT_LEAST_THIS_LENGTH_FLAG \<noteq> 0 then PSA_ERROR_INVALID_ARGUMENT
     else if PSA_ALG_AEAD_EQUAL a PSA_ALG_XCHACHA20_POLY1305 \<or> PSA_ALG_AEAD_EQUAL a PSA_ALG_ASCON_AEAD128
       then PSA_ERROR_NOT_SUPPORTED
     else PSA_SUCCESS)"

definition wolfpsa_aead_setup ::
    "('st, 'h) psa_env \<Rightarrow> ('a, 'p, 'n) aead_engine \<Rightarrow> ('a, 'p) psa_aead_operation_t option \<Rightarrow> psa_key_id_t \<Rightarrow>
     psa_algorithm_t \<Rightarrow> psa_key_usage_t \<Rightarrow> 'st key_store \<Rightarrow>
     psa_status \<times> ('a, 'p) psa_aead_operation_t option \<times> 'st key_store" where
  "wolfpsa_aead_setup env E op key a want s =
    (if op = None then (PSA_ERROR_INVALID_ARGUMENT, op, s)
     else if op \<noteq> Some None then (PSA_ERROR_BAD_STATE, op, s)
     else if aead_check_alg a \<noteq> PSA_SUCCESS then (aead_check_alg a, op, s)
     else
       (case wolfpsa_aead_check_key env key want a s of
          (Inl status, s1) \<Rightarrow> (status, op, s1)
        | (Inr (attrs, d), s1) \<Rightarrow>
            (let (ok, s2) = s_xmalloc s1 in
             if \<not> ok then (PSA_ERROR_INSUFFICIENT_MEMORY, op, s2)
             else if aead_check_tag E a (wolfpsa_aead_tag_length a) \<noteq> PSA_SUCCESS
               then (aead_check_tag E a (wolfpsa_aead_tag_length a), op, s2)
             else
               (let (ok_key, s3) = s_xmalloc s2 in
                if \<not> ok_key then (PSA_ERROR_INSUFFICIENT_MEMORY, op, s3)
                else (PSA_SUCCESS, Some (Some (aead_new_ctx E (want = PSA_KEY_USAGE_ENCRYPT) a attrs d)), s3)))))"

definition psa_aead_encrypt_setup where
  "psa_aead_encrypt_setup env E op key a s = wolfpsa_aead_setup env E op key a PSA_KEY_USAGE_ENCRYPT s"

definition psa_aead_decrypt_setup where
  "psa_aead_decrypt_setup env E op key a s = wolfpsa_aead_setup env E op key a PSA_KEY_USAGE_DECRYPT s"

section \<open>Lengths, nonce and associated data\<close>

definition psa_aead_set_lengths ::
    "('a, 'p) psa_aead_operation_t option \<Rightarrow> nat \<Rightarrow> nat \<Rightarrow> psa_status \<times> ('a, 'p) psa_aead_operation_t option" where
  "psa_aead_set_lengths op ad_length plaintext_length =
    (case wolfpsa_aead_get_ctx op of
       None \<Rightarrow> (PSA_ERROR_BAD_STATE, op)
     | Some ctx \<Rightarrow>
         (let status = (if ae_lengths_set ctx \<or> ae_ad_started ctx \<or> ae_body_started ctx then PSA_ERROR_BAD_STATE
                        else wolfpsa_aead_check_lengths (ae_alg ctx) (length (ae_nonce ctx)) ad_length plaintext_length)
          in if status \<noteq> PSA_SUCCESS then (status, snd (psa_aead_abort op))
             else (PSA_SUCCESS, Some (Some (ctx\<lparr>ae_ad_expected := ad_length,
                     ae_plaintext_expected := plaintext_length, ae_lengths_set := True\<rparr>)))))"

text \<open>The check of the nonce's length.\<close>

definition aead_check_nonce :: "psa_key_type_t \<Rightarrow> psa_algorithm_t \<Rightarrow> nat \<Rightarrow> psa_status" where
  "aead_check_nonce kt a n =
    (if PSA_ALG_AEAD_EQUAL a PSA_ALG_GCM then
       (if n = 0 then PSA_ERROR_INVALID_ARGUMENT
        else if n < 12 \<or> n > PSA_AEAD_NONCE_MAX_SIZE then PSA_ERROR_NOT_SUPPORTED
        else PSA_SUCCESS)
     else if PSA_ALG_AEAD_EQUAL a PSA_ALG_CCM then
       (if n < 7 \<or> n > 13 then PSA_ERROR_INVALID_ARGUMENT else PSA_SUCCESS)
     else if PSA_AEAD_NONCE_LENGTH kt a = 0 \<or> n \<noteq> PSA_AEAD_NONCE_LENGTH kt a then PSA_ERROR_INVALID_ARGUMENT
     else PSA_SUCCESS)"

definition psa_aead_set_nonce ::
    "('a, 'p) psa_aead_operation_t option \<Rightarrow> inbuf \<Rightarrow> psa_status \<times> ('a, 'p) psa_aead_operation_t option" where
  "psa_aead_set_nonce op nonce =
    (case wolfpsa_aead_get_ctx op of
       None \<Rightarrow> (PSA_ERROR_BAD_STATE, op)
     | Some ctx \<Rightarrow>
         if in_null nonce then (PSA_ERROR_INVALID_ARGUMENT, op)
         else if length (ae_nonce ctx) \<noteq> 0 then (PSA_ERROR_BAD_STATE, op)
         else if aead_check_nonce (ae_key_type ctx) (ae_alg ctx) (in_length nonce) \<noteq> PSA_SUCCESS
           then (aead_check_nonce (ae_key_type ctx) (ae_alg ctx) (in_length nonce), op)
         else if ae_lengths_set ctx \<and>
                 wolfpsa_aead_check_lengths (ae_alg ctx) (in_length nonce) (ae_ad_expected ctx)
                   (ae_plaintext_expected ctx) \<noteq> PSA_SUCCESS
           then (wolfpsa_aead_check_lengths (ae_alg ctx) (in_length nonce) (ae_ad_expected ctx)
                   (ae_plaintext_expected ctx), op)
         else (PSA_SUCCESS, Some (Some (ctx\<lparr>ae_nonce := in_bytes nonce\<rparr>))))"

text \<open>The status, the nonce written, \<open>*nonce_length\<close>, the operation and the key store.\<close>

definition psa_aead_generate_nonce ::
    "('st, 'h) psa_env \<Rightarrow> ('a, 'p) psa_aead_operation_t option \<Rightarrow> outbuf \<Rightarrow> nat option \<Rightarrow> 'st key_store \<Rightarrow>
     psa_status \<times> byte list \<times> nat option \<times> ('a, 'p) psa_aead_operation_t option \<times> 'st key_store" where
  "psa_aead_generate_nonce env op nonce len0 s =
    (let len = wolfpsa_clear_length len0 in
     case wolfpsa_aead_get_ctx op of
       None \<Rightarrow> (PSA_ERROR_BAD_STATE, [], len, op, s)
     | Some ctx \<Rightarrow>
         if len = None \<or> out_null nonce \<and> out_size nonce \<noteq> 0 then (PSA_ERROR_INVALID_ARGUMENT, [], len, op, s)
         else if \<not> ae_direction ctx then (PSA_ERROR_BAD_STATE, [], len, op, s)
         else if length (ae_nonce ctx) \<noteq> 0 then (PSA_ERROR_BAD_STATE, [], len, op, s)
         else
           (let expected = PSA_AEAD_NONCE_LENGTH (ae_key_type ctx) (ae_alg ctx) in
            if expected = 0 \<or> out_size nonce < expected then (PSA_ERROR_BUFFER_TOO_SMALL, [], len, op, s)
            else
              (case psa_generate_random env (Out expected) s of
                 (status, r, s1) \<Rightarrow>
                   if status \<noteq> PSA_SUCCESS then (status, r, len, op, s1)
                   else
                     (case psa_aead_set_nonce op (In r) of
                        (status2, op2) \<Rightarrow>
                          if status2 \<noteq> PSA_SUCCESS then (status2, r, len, op2, s1)
                          else (PSA_SUCCESS, r, Some expected, op2, s1)))))"

definition psa_aead_update_ad ::
    "('a, 'p) psa_aead_operation_t option \<Rightarrow> inbuf \<Rightarrow> 'st key_store \<Rightarrow>
     psa_status \<times> ('a, 'p) psa_aead_operation_t option \<times> 'st key_store" where
  "psa_aead_update_ad op inp s =
    (case wolfpsa_aead_get_ctx op of
       None \<Rightarrow> (PSA_ERROR_BAD_STATE, op, s)
     | Some ctx \<Rightarrow>
         (let n = in_length inp; aad_length = length (ae_aad ctx) in
          if ae_body_started ctx then (PSA_ERROR_BAD_STATE, snd (psa_aead_abort op), s)
          else if length (ae_nonce ctx) = 0 \<or> wolfpsa_aead_lengths_missing ctx then (PSA_ERROR_BAD_STATE, op, s)
          else if n = 0 then (PSA_SUCCESS, Some (Some (ctx\<lparr>ae_ad_started := True\<rparr>)), s)
          else if ae_lengths_set ctx \<and> (n > SIZE_MAX - aad_length \<or> aad_length + n > ae_ad_expected ctx)
            then (PSA_ERROR_INVALID_ARGUMENT, snd (psa_aead_abort op), s)
          else if n > SIZE_MAX - aad_length \<or> wolfpsa_check_word32_length (aad_length + n) \<noteq> PSA_SUCCESS
            then (PSA_ERROR_INVALID_ARGUMENT, snd (psa_aead_abort op), s)
          else
            (case wolfpsa_aead_append (ae_aad ctx) aad_length inp s of
               (status, aad1, len1, s1) \<Rightarrow>
                 if status = PSA_SUCCESS
                 then (status, Some (Some (ctx\<lparr>ae_aad := aad1, ae_ad_started := True\<rparr>)), s1)
                 else (status, snd (psa_aead_abort op), s1))))"

section \<open>Streaming\<close>

text \<open>A chunk through the streaming functions of the algorithm: the output and the new context.\<close>

definition gcm_stream_update ::
    "('a, 'p, 'n) aead_engine \<Rightarrow> ('a, 'p) wolfpsa_aead_ctx \<Rightarrow> byte list \<Rightarrow>
     psa_status + byte list \<times> ('a, 'p) wolfpsa_aead_ctx" where
  "gcm_stream_update E ctx inp =
    (let first = \<not> ae_streaming ctx in
     case (if first then
             (case ae_AesInit E (ae_devid E) (ae_aes ctx) of
                (ret, aes) \<Rightarrow>
                  if ret = WC_OK then ae_AesGcmInit E (ae_direction ctx) (ae_key ctx) (ae_nonce ctx) aes
                  else (ret, aes))
           else (WC_OK, ae_aes ctx)) of
       (ret, aes) \<Rightarrow>
         if ret \<noteq> WC_OK then Inl (wc_error_to_psa_status ret)
         else
           (case ae_AesGcmUpdate E (ae_direction ctx) inp (if first then ae_aad ctx else []) aes of
              (ret1, out, aes1) \<Rightarrow>
                if ret1 \<noteq> WC_OK then Inl (wc_error_to_psa_status ret1)
                else Inr (out, ctx\<lparr>ae_aes := aes1, ae_gcm_inited := True\<rparr>)))"

definition chacha_stream_start ::
    "('a, 'p, 'n) aead_engine \<Rightarrow> ('a, 'p) wolfpsa_aead_ctx \<Rightarrow> wc_ret \<times> 'p" where
  "chacha_stream_start E ctx =
    (case ae_ChaChaInit E (ae_key ctx) (ae_nonce ctx) (ae_direction ctx) (ae_chacha ctx) of
       (ret, c) \<Rightarrow>
         if ret \<noteq> WC_OK then (ret, c)
         else if length (ae_aad ctx) > 0 then ae_ChaChaUpdateAad E (ae_aad ctx) c
         else (WC_OK, c))"

definition chacha_stream_update ::
    "('a, 'p, 'n) aead_engine \<Rightarrow> ('a, 'p) wolfpsa_aead_ctx \<Rightarrow> byte list \<Rightarrow>
     psa_status + byte list \<times> ('a, 'p) wolfpsa_aead_ctx" where
  "chacha_stream_update E ctx inp =
    (case (if \<not> ae_streaming ctx then chacha_stream_start E ctx else (WC_OK, ae_chacha ctx)) of
       (ret, c) \<Rightarrow>
         if ret \<noteq> WC_OK then Inl (wc_error_to_psa_status ret)
         else
           (case ae_ChaChaUpdateData E inp c of
              (ret1, out, c1) \<Rightarrow>
                if ret1 \<noteq> WC_OK then Inl (wc_error_to_psa_status ret1)
                else Inr (out, ctx\<lparr>ae_chacha := c1\<rparr>)))"

definition ccm_stream_update ::
    "('a, 'p, 'n) aead_engine \<Rightarrow> ('a, 'p) wolfpsa_aead_ctx \<Rightarrow> byte list \<Rightarrow>
     psa_status + byte list \<times> ('a, 'p) wolfpsa_aead_ctx" where
  "ccm_stream_update E ctx inp =
    (case (if \<not> ae_streaming ctx then wolfpsa_aead_ccm_init E ctx else Inr ctx) of
       Inl e \<Rightarrow> Inl e
     | Inr ctx1 \<Rightarrow>
         (case wolfpsa_aead_ccm_update E (ae_direction ctx1) inp (ae_ccm ctx1) (ae_aes ctx1) of
            Inl e \<Rightarrow> Inl e
          | Inr (out, c, aes) \<Rightarrow> Inr (out, ctx1\<lparr>ae_ccm := c, ae_aes := aes\<rparr>)))"

definition wolfpsa_aead_stream_update ::
    "('a, 'p, 'n) aead_engine \<Rightarrow> ('a, 'p) wolfpsa_aead_ctx \<Rightarrow> byte list \<Rightarrow>
     psa_status + byte list \<times> ('a, 'p) wolfpsa_aead_ctx" where
  "wolfpsa_aead_stream_update E ctx inp =
    (if PSA_ALG_AEAD_EQUAL (ae_alg ctx) PSA_ALG_GCM then gcm_stream_update E ctx inp
     else if PSA_ALG_AEAD_EQUAL (ae_alg ctx) PSA_ALG_CHACHA20_POLY1305 then chacha_stream_update E ctx inp
     else if PSA_ALG_AEAD_EQUAL (ae_alg ctx) PSA_ALG_CCM then ccm_stream_update E ctx inp
     else Inl PSA_ERROR_NOT_SUPPORTED)"

text \<open>
  The end of a stream: the status and, when encrypting, the tag. When decrypting, \<open>tag\<close> is the
  caller's, and the CCM comparison collects all differences.
\<close>

definition ct_diff :: "byte list \<Rightarrow> byte list \<Rightarrow> nat \<Rightarrow> byte" where
  "ct_diff computed tag tag_len = fold (\<lambda>i diff. diff OR (computed ! i XOR tag ! i)) [0..<tag_len] 0"

definition wolfpsa_aead_stream_final ::
    "('a, 'p, 'n) aead_engine \<Rightarrow> ('a, 'p) wolfpsa_aead_ctx \<Rightarrow> byte list \<Rightarrow> nat \<Rightarrow> psa_status \<times> byte list" where
  "wolfpsa_aead_stream_final E ctx tag tag_len =
    (if PSA_ALG_AEAD_EQUAL (ae_alg ctx) PSA_ALG_GCM then
       (case (if ae_direction ctx then ae_AesGcmEncryptFinal E tag_len (ae_aes ctx)
              else (ae_AesGcmDecryptFinal E (take tag_len tag) (ae_aes ctx), [])) of
          (ret, out) \<Rightarrow>
            if ret \<noteq> WC_OK then
              (if ret = AES_GCM_AUTH_E \<or> ret = MAC_CMP_FAILED_E then (PSA_ERROR_INVALID_SIGNATURE, [])
               else (wc_error_to_psa_status ret, []))
            else (PSA_SUCCESS, out))
     else if PSA_ALG_AEAD_EQUAL (ae_alg ctx) PSA_ALG_CHACHA20_POLY1305 then
       (case ae_ChaChaFinal E (ae_chacha ctx) of
          (ret, computed) \<Rightarrow>
            if ret \<noteq> WC_OK then (wc_error_to_psa_status ret, [])
            else if ae_direction ctx then (PSA_SUCCESS, take tag_len computed)
            else if ae_ChaChaCheckTag E computed tag \<noteq> WC_OK then (PSA_ERROR_INVALID_SIGNATURE, [])
            else (PSA_SUCCESS, []))
     else if PSA_ALG_AEAD_EQUAL (ae_alg ctx) PSA_ALG_CCM then
       (case wolfpsa_aead_ccm_finish E (ae_nonce ctx) tag_len (ae_ccm ctx) (ae_aes ctx) of
          Inl e \<Rightarrow> (e, [])
        | Inr computed \<Rightarrow>
            if ae_direction ctx then (PSA_SUCCESS, computed)
            else if ct_diff computed tag tag_len \<noteq> 0 then (PSA_ERROR_INVALID_SIGNATURE, [])
            else (PSA_SUCCESS, []))
     else (PSA_ERROR_NOT_SUPPORTED, []))"

text \<open>The status, the bytes written, \<open>*output_length\<close>, the operation and the key store.\<close>

definition psa_aead_update ::
    "('a, 'p, 'n) aead_engine \<Rightarrow> ('a, 'p) psa_aead_operation_t option \<Rightarrow> inbuf \<Rightarrow> outbuf \<Rightarrow> nat option \<Rightarrow>
     'st key_store \<Rightarrow> psa_status \<times> byte list \<times> nat option \<times> ('a, 'p) psa_aead_operation_t option \<times> 'st key_store" where
  "psa_aead_update E op inp output len0 s =
    (let len = wolfpsa_clear_length len0;
         failed = (\<lambda>status s1. (status, [], len, snd (psa_aead_abort op), s1))
     in case wolfpsa_aead_get_ctx op of
          None \<Rightarrow> (PSA_ERROR_BAD_STATE, [], len, op, s)
        | Some ctx \<Rightarrow>
            (let n = in_length inp; ctx1 = ctx\<lparr>ae_body_started := True\<rparr> in
             if len = None then (PSA_ERROR_INVALID_ARGUMENT, [], len, op, s)
             else if wolfpsa_aead_lengths_missing ctx then (PSA_ERROR_BAD_STATE, [], len, op, s)
             else if length (ae_nonce ctx) = 0 then (PSA_ERROR_BAD_STATE, [], len, op, s)
             else if ae_lengths_set ctx \<and> length (ae_aad ctx) \<noteq> ae_ad_expected ctx
               then failed PSA_ERROR_INVALID_ARGUMENT s
             else if ae_lengths_set ctx \<and>
                     (n > SIZE_MAX - ae_input_length ctx \<or> ae_input_length ctx + n > ae_plaintext_expected ctx)
               then failed PSA_ERROR_INVALID_ARGUMENT s
             else if in_null inp \<and> n > 0 then failed PSA_ERROR_INVALID_ARGUMENT s
             else if n = 0 then (PSA_SUCCESS, [], len, Some (Some ctx1), s)
             else if out_null output then
               (if ae_streaming ctx then failed PSA_ERROR_BAD_STATE s
                else
                  (case wolfpsa_aead_append (ae_input ctx) (ae_input_length ctx) inp s of
                     (status, buf1, len1, s1) \<Rightarrow>
                       if status \<noteq> PSA_SUCCESS then failed status s1
                       else (status, [], len, Some (Some (ctx1\<lparr>ae_input := buf1, ae_input_length := len1\<rparr>)), s1)))
             else if ae_input ctx \<noteq> [] then failed PSA_ERROR_BAD_STATE s
             else if out_size output < n then failed PSA_ERROR_BUFFER_TOO_SMALL s
             else if wolfpsa_check_word32_length n \<noteq> PSA_SUCCESS then failed PSA_ERROR_INVALID_ARGUMENT s
             else
               (case wolfpsa_aead_stream_update E ctx1 (in_bytes inp) of
                  Inl e \<Rightarrow> failed e s
                | Inr (out, ctx2) \<Rightarrow>
                    (PSA_SUCCESS, out, Some n,
                     Some (Some (ctx2\<lparr>ae_streaming := True, ae_input_length := ae_input_length ctx2 + n\<rparr>)), s))))"

section \<open>ChaCha20-Poly1305 in one call\<close>

definition psa_chacha20_poly1305_encrypt ::
    "('a, 'p, 'n) aead_engine \<Rightarrow> inbuf \<Rightarrow> psa_algorithm_t \<Rightarrow> inbuf \<Rightarrow> inbuf \<Rightarrow> inbuf \<Rightarrow> nat \<Rightarrow>
     psa_status + byte list \<times> nat" where
  "psa_chacha20_poly1305_encrypt E key a nonce additional_data plaintext ciphertext_size =
    (if in_null key \<or> in_length key \<noteq> CHACHA20_POLY1305_AEAD_KEYSIZE then Inl PSA_ERROR_INVALID_ARGUMENT
     else if a \<noteq> PSA_ALG_CHACHA20_POLY1305 then Inl PSA_ERROR_NOT_SUPPORTED
     else if in_null nonce \<or> in_length nonce \<noteq> CHACHA20_POLY1305_AEAD_IV_SIZE then Inl PSA_ERROR_INVALID_ARGUMENT
     else if in_null additional_data \<and> in_length additional_data > 0 then Inl PSA_ERROR_INVALID_ARGUMENT
     else if in_null plaintext \<and> in_length plaintext > 0 then Inl PSA_ERROR_INVALID_ARGUMENT
     else if wolfpsa_check_word32_length (in_length additional_data) \<noteq> PSA_SUCCESS \<or>
             wolfpsa_check_word32_length (in_length plaintext) \<noteq> PSA_SUCCESS
       then Inl PSA_ERROR_INVALID_ARGUMENT
     else if in_length plaintext > SIZE_MAX - CHACHA20_POLY1305_AEAD_AUTHTAG_SIZE then Inl PSA_ERROR_BUFFER_TOO_SMALL
     else if ciphertext_size < in_length plaintext + CHACHA20_POLY1305_AEAD_AUTHTAG_SIZE
       then Inl PSA_ERROR_BUFFER_TOO_SMALL
     else
       (case ae_ChaChaEncrypt E (in_bytes key) (in_bytes nonce) (in_bytes additional_data) (in_bytes plaintext) of
          (ret, ct, tag) \<Rightarrow>
            if ret \<noteq> WC_OK then Inl (wc_error_to_psa_status ret)
            else Inr (ct @ tag, in_length plaintext + CHACHA20_POLY1305_AEAD_AUTHTAG_SIZE)))"

definition psa_chacha20_poly1305_decrypt ::
    "('a, 'p, 'n) aead_engine \<Rightarrow> inbuf \<Rightarrow> psa_algorithm_t \<Rightarrow> inbuf \<Rightarrow> inbuf \<Rightarrow> byte list \<Rightarrow> nat \<Rightarrow>
     psa_status + byte list \<times> nat" where
  "psa_chacha20_poly1305_decrypt E key a nonce additional_data ciphertext plaintext_size =
    (let ct_len = length ciphertext - CHACHA20_POLY1305_AEAD_AUTHTAG_SIZE in
     if in_null key \<or> in_length key \<noteq> CHACHA20_POLY1305_AEAD_KEYSIZE then Inl PSA_ERROR_INVALID_ARGUMENT
     else if a \<noteq> PSA_ALG_CHACHA20_POLY1305 then Inl PSA_ERROR_NOT_SUPPORTED
     else if in_null nonce \<or> in_length nonce \<noteq> CHACHA20_POLY1305_AEAD_IV_SIZE then Inl PSA_ERROR_INVALID_ARGUMENT
     else if in_null additional_data \<and> in_length additional_data > 0 then Inl PSA_ERROR_INVALID_ARGUMENT
     else if length ciphertext < CHACHA20_POLY1305_AEAD_AUTHTAG_SIZE then Inl PSA_ERROR_INVALID_ARGUMENT
     else if wolfpsa_check_word32_length (in_length additional_data) \<noteq> PSA_SUCCESS \<or>
             wolfpsa_check_word32_length ct_len \<noteq> PSA_SUCCESS
       then Inl PSA_ERROR_INVALID_ARGUMENT
     else if plaintext_size < ct_len then Inl PSA_ERROR_BUFFER_TOO_SMALL
     else
       (case ae_ChaChaDecrypt E (in_bytes key) (in_bytes nonce) (in_bytes additional_data)
               (take ct_len ciphertext) (drop ct_len ciphertext) of
          (ret, pt) \<Rightarrow>
            if ret \<noteq> WC_OK then Inl (wc_error_to_psa_status ret) else Inr (pt, ct_len)))"

section \<open>Finish and verify\<close>

text \<open>
  An \<open>Aes\<close> object on the heap: the allocation, then its initialisation.
\<close>

definition wolfpsa_aes_new ::
    "('a, 'p, 'n) aead_engine \<Rightarrow> 'st key_store \<Rightarrow> (wc_ret \<times> 'a) \<times> 'st key_store" where
  "wolfpsa_aes_new E s =
    (let (ok, s1) = s_xmalloc s in
     if \<not> ok then ((MEMORY_E, ae_aes_zero E), s1)
     else (ae_AesInit E (ae_devid E) (ae_aes_zero E), s1))"

text \<open>A one-shot call on a fresh AES context: create, load the key, run.\<close>

definition aes_oneshot ::
    "('a, 'p, 'n) aead_engine \<Rightarrow> (byte list \<Rightarrow> 'a \<Rightarrow> wc_ret \<times> 'a) \<Rightarrow> byte list \<Rightarrow> ('a \<Rightarrow> wc_ret \<times> 'r) \<Rightarrow> 'r \<Rightarrow>
     'st key_store \<Rightarrow> (wc_ret \<times> 'r) \<times> 'st key_store" where
  "aes_oneshot E set_key key run none s =
    (case wolfpsa_aes_new E s of
       ((ret, aes), s1) \<Rightarrow>
         if ret \<noteq> WC_OK then ((ret, none), s1)
         else
           (case set_key key aes of
              (ret1, aes1) \<Rightarrow> if ret1 = WC_OK then (run aes1, s1) else ((ret1, none), s1)))"

text \<open>
  \<open>Inr\<close>: the ciphertext and the tag written, \<open>*ciphertext_length\<close> and \<open>*tag_length\<close>.
\<close>

definition aead_encrypt_buffered ::
    "('a, 'p, 'n) aead_engine \<Rightarrow> ('a, 'p) wolfpsa_aead_ctx \<Rightarrow> 'st key_store \<Rightarrow>
     (psa_status + byte list \<times> byte list \<times> nat \<times> nat) \<times> 'st key_store" where
  "aead_encrypt_buffered E ctx s =
    (let inp = wolfpsa_aead_nonnull_data (ctx_buf (ae_input ctx)); aad = wolfpsa_aead_nonnull_data (ctx_buf (ae_aad ctx));
         n = ae_input_length ctx; t = ae_tag_length ctx in
     if PSA_ALG_AEAD_EQUAL (ae_alg ctx) PSA_ALG_GCM then
       (case aes_oneshot E (ae_AesGcmSetKey E) (ae_key ctx)
               (\<lambda>aes. ae_AesGcmEncrypt E aes (in_bytes inp) (ae_nonce ctx) t (in_bytes aad)) ([], []) s of
          ((ret, out, tag), s1) \<Rightarrow>
            if ret \<noteq> WC_OK then (Inl (wc_error_to_psa_status ret), s1) else (Inr (out, tag, n, t), s1))
     else if PSA_ALG_AEAD_EQUAL (ae_alg ctx) PSA_ALG_CCM then
       (if ae_AesCcmCheckTagSize E t \<noteq> WC_OK then (Inl PSA_ERROR_NOT_SUPPORTED, s)
        else
          (case aes_oneshot E (ae_AesCcmSetKey E) (ae_key ctx)
                  (\<lambda>aes. ae_AesCcmEncrypt E aes (in_bytes inp) (ae_nonce ctx) t (in_bytes aad)) ([], []) s of
             ((ret, out, tag), s1) \<Rightarrow>
               if ret \<noteq> WC_OK then (Inl (wc_error_to_psa_status ret), s1) else (Inr (out, tag, n, t), s1)))
     else if PSA_ALG_AEAD_EQUAL (ae_alg ctx) PSA_ALG_CHACHA20_POLY1305 then
       (let (ok, s1) = s_xmalloc s in
        if \<not> ok then (Inl PSA_ERROR_INSUFFICIENT_MEMORY, s1)
        else
          (case psa_chacha20_poly1305_encrypt E (In (ae_key ctx)) (ae_alg ctx) (In (ae_nonce ctx)) aad inp (n + t) of
             Inl e \<Rightarrow> (Inl e, s1)
           | Inr (tmp, out_len) \<Rightarrow>
               if out_len < n + t then (Inl PSA_ERROR_GENERIC_ERROR, s1)
               else (Inr (take n tmp, take t (drop n tmp), n, t), s1)))
     else (Inl PSA_ERROR_NOT_SUPPORTED, s))"

definition wolfpsa_aead_encrypt_final ::
    "('a, 'p, 'n) aead_engine \<Rightarrow> ('a, 'p) wolfpsa_aead_ctx \<Rightarrow> outbuf \<Rightarrow> nat option \<Rightarrow> outbuf \<Rightarrow> nat option \<Rightarrow>
     'st key_store \<Rightarrow> (psa_status + byte list \<times> byte list \<times> nat \<times> nat) \<times> 'st key_store" where
  "wolfpsa_aead_encrypt_final E ctx ciphertext clen tag tlen s =
    (if clen = None \<or> tlen = None \<or> out_null tag \<and> out_size tag \<noteq> 0 then (Inl PSA_ERROR_INVALID_ARGUMENT, s)
     else if out_null ciphertext \<and> out_size ciphertext \<noteq> 0 then (Inl PSA_ERROR_INVALID_ARGUMENT, s)
     else if length (ae_nonce ctx) = 0 \<or> wolfpsa_aead_lengths_missing ctx then (Inl PSA_ERROR_BAD_STATE, s)
     else if ae_streaming ctx then
       (if ae_lengths_set ctx \<and> (length (ae_aad ctx) \<noteq> ae_ad_expected ctx \<or>
                                 ae_input_length ctx \<noteq> ae_plaintext_expected ctx)
          then (Inl PSA_ERROR_INVALID_ARGUMENT, s)
        else if out_size tag < ae_tag_length ctx then (Inl PSA_ERROR_BUFFER_TOO_SMALL, s)
        else
          (case wolfpsa_aead_stream_final E ctx [] (ae_tag_length ctx) of
             (status, t) \<Rightarrow>
               if status \<noteq> PSA_SUCCESS then (Inl status, s) else (Inr ([], t, 0, ae_tag_length ctx), s)))
     else if ae_lengths_set ctx \<and> (length (ae_aad ctx) \<noteq> ae_ad_expected ctx \<or>
                                   ae_input_length ctx \<noteq> ae_plaintext_expected ctx)
       then (Inl PSA_ERROR_INVALID_ARGUMENT, s)
     else if PSA_ALG_AEAD_EQUAL (ae_alg ctx) PSA_ALG_CHACHA20_POLY1305 \<and>
             ae_input_length ctx > SIZE_MAX - ae_tag_length ctx
       then (Inl PSA_ERROR_BUFFER_TOO_SMALL, s)
     else if out_size ciphertext < ae_input_length ctx then (Inl PSA_ERROR_BUFFER_TOO_SMALL, s)
     else if out_size tag < ae_tag_length ctx then (Inl PSA_ERROR_BUFFER_TOO_SMALL, s)
     else if wolfpsa_check_word32_length (ae_input_length ctx) \<noteq> PSA_SUCCESS \<or>
             wolfpsa_check_word32_length (length (ae_aad ctx)) \<noteq> PSA_SUCCESS
       then (Inl PSA_ERROR_INVALID_ARGUMENT, s)
     else aead_encrypt_buffered E ctx s)"

text \<open>\<open>Inr\<close>: the plaintext written and \<open>*plaintext_length\<close>.\<close>

definition aead_decrypt_buffered ::
    "('a, 'p, 'n) aead_engine \<Rightarrow> ('a, 'p) wolfpsa_aead_ctx \<Rightarrow> nat \<Rightarrow> byte list \<Rightarrow> 'st key_store \<Rightarrow>
     (psa_status + byte list \<times> nat) \<times> 'st key_store" where
  "aead_decrypt_buffered E ctx plaintext_size tag s =
    (let inp = wolfpsa_aead_nonnull_data (ctx_buf (ae_input ctx)); aad = wolfpsa_aead_nonnull_data (ctx_buf (ae_aad ctx));
         n = ae_input_length ctx in
     if PSA_ALG_AEAD_EQUAL (ae_alg ctx) PSA_ALG_GCM then
       (case aes_oneshot E (ae_AesGcmSetKey E) (ae_key ctx)
               (\<lambda>aes. ae_AesGcmDecrypt E aes (in_bytes inp) (ae_nonce ctx) tag (in_bytes aad)) [] s of
          ((ret, out), s1) \<Rightarrow>
            if ret = AES_GCM_AUTH_E \<or> ret = MAC_CMP_FAILED_E then (Inl PSA_ERROR_INVALID_SIGNATURE, s1)
            else if ret \<noteq> WC_OK then (Inl (wc_error_to_psa_status ret), s1)
            else (Inr (out, n), s1))
     else if PSA_ALG_AEAD_EQUAL (ae_alg ctx) PSA_ALG_CCM then
       (if ae_AesCcmCheckTagSize E (length tag) \<noteq> WC_OK then (Inl PSA_ERROR_INVALID_SIGNATURE, s)
        else
          (case aes_oneshot E (ae_AesCcmSetKey E) (ae_key ctx)
                  (\<lambda>aes. ae_AesCcmDecrypt E aes (in_bytes inp) (ae_nonce ctx) tag (in_bytes aad)) [] s of
             ((ret, out), s1) \<Rightarrow>
               if ret = AES_CCM_AUTH_E \<or> ret = MAC_CMP_FAILED_E then (Inl PSA_ERROR_INVALID_SIGNATURE, s1)
               else if ret \<noteq> WC_OK then (Inl (wc_error_to_psa_status ret), s1)
               else (Inr (out, n), s1)))
     else if PSA_ALG_AEAD_EQUAL (ae_alg ctx) PSA_ALG_CHACHA20_POLY1305 then
       (if n > SIZE_MAX - length tag then (Inl PSA_ERROR_INVALID_ARGUMENT, s)
        else
          (let (ok, s1) = s_xmalloc s in
           if \<not> ok then (Inl PSA_ERROR_INSUFFICIENT_MEMORY, s1)
           else
             (case psa_chacha20_poly1305_decrypt E (In (ae_key ctx)) (ae_alg ctx) (In (ae_nonce ctx)) aad
                     (take n (in_bytes inp) @ tag) plaintext_size of
                Inl e \<Rightarrow> (Inl PSA_ERROR_INVALID_SIGNATURE, s1)
              | Inr (out, out_len) \<Rightarrow> (Inr (out, out_len), s1))))
     else (Inl PSA_ERROR_NOT_SUPPORTED, s))"

definition wolfpsa_aead_decrypt_final ::
    "('a, 'p, 'n) aead_engine \<Rightarrow> ('a, 'p) wolfpsa_aead_ctx \<Rightarrow> outbuf \<Rightarrow> nat option \<Rightarrow> inbuf \<Rightarrow> 'st key_store \<Rightarrow>
     (psa_status + byte list \<times> nat) \<times> 'st key_store" where
  "wolfpsa_aead_decrypt_final E ctx plaintext plen tag s =
    (if plen = None \<or> in_null tag \<and> in_length tag \<noteq> 0 then (Inl PSA_ERROR_INVALID_ARGUMENT, s)
     else if out_null plaintext \<and> out_size plaintext \<noteq> 0 then (Inl PSA_ERROR_INVALID_ARGUMENT, s)
     else if length (ae_nonce ctx) = 0 \<or> wolfpsa_aead_lengths_missing ctx then (Inl PSA_ERROR_BAD_STATE, s)
     else if ae_streaming ctx then
       (if ae_lengths_set ctx \<and> (length (ae_aad ctx) \<noteq> ae_ad_expected ctx \<or>
                                 ae_input_length ctx \<noteq> ae_plaintext_expected ctx)
          then (Inl PSA_ERROR_INVALID_ARGUMENT, s)
        else if in_length tag \<noteq> ae_tag_length ctx then (Inl PSA_ERROR_INVALID_SIGNATURE, s)
        else
          (case wolfpsa_aead_stream_final E ctx (in_bytes tag) (ae_tag_length ctx) of
             (status, t) \<Rightarrow> if status \<noteq> PSA_SUCCESS then (Inl status, s) else (Inr ([], 0), s)))
     else if ae_lengths_set ctx \<and> (length (ae_aad ctx) \<noteq> ae_ad_expected ctx \<or>
                                   ae_input_length ctx \<noteq> ae_plaintext_expected ctx)
       then (Inl PSA_ERROR_INVALID_ARGUMENT, s)
     else if in_length tag \<noteq> ae_tag_length ctx then (Inl PSA_ERROR_INVALID_SIGNATURE, s)
     else if out_size plaintext < ae_input_length ctx then (Inl PSA_ERROR_BUFFER_TOO_SMALL, s)
     else if wolfpsa_check_word32_length (ae_input_length ctx) \<noteq> PSA_SUCCESS \<or>
             wolfpsa_check_word32_length (length (ae_aad ctx)) \<noteq> PSA_SUCCESS
       then (Inl PSA_ERROR_INVALID_ARGUMENT, s)
     else aead_decrypt_buffered E ctx (out_size plaintext) (in_bytes tag) s)"

text \<open>
  The status, the ciphertext, \<open>*ciphertext_length\<close>, the tag, \<open>*tag_length\<close>, the operation and
  the key store.
\<close>

definition psa_aead_finish ::
    "('a, 'p, 'n) aead_engine \<Rightarrow> ('a, 'p) psa_aead_operation_t option \<Rightarrow> outbuf \<Rightarrow> nat option \<Rightarrow> outbuf \<Rightarrow>
     nat option \<Rightarrow> 'st key_store \<Rightarrow>
     psa_status \<times> byte list \<times> nat option \<times> byte list \<times> nat option \<times> ('a, 'p) psa_aead_operation_t option \<times>
     'st key_store" where
  "psa_aead_finish E op ciphertext clen0 tag tlen0 s =
    (let clen = wolfpsa_clear_length clen0; tlen = wolfpsa_clear_length tlen0 in
     case wolfpsa_aead_get_ctx op of
       None \<Rightarrow> (PSA_ERROR_BAD_STATE, [], clen, [], tlen, op, s)
     | Some ctx \<Rightarrow>
         if \<not> ae_direction ctx then (PSA_ERROR_BAD_STATE, [], clen, [], tlen, op, s)
         else
           (case wolfpsa_aead_encrypt_final E ctx ciphertext clen tag tlen s of
              (Inl status, s1) \<Rightarrow> (status, [], clen, [], tlen, snd (psa_aead_abort op), s1)
            | (Inr (ct, t, n, m), s1) \<Rightarrow> (PSA_SUCCESS, ct, Some n, t, Some m, snd (psa_aead_abort op), s1)))"

definition psa_aead_verify ::
    "('a, 'p, 'n) aead_engine \<Rightarrow> ('a, 'p) psa_aead_operation_t option \<Rightarrow> outbuf \<Rightarrow> nat option \<Rightarrow> inbuf \<Rightarrow>
     'st key_store \<Rightarrow>
     psa_status \<times> byte list \<times> nat option \<times> ('a, 'p) psa_aead_operation_t option \<times> 'st key_store" where
  "psa_aead_verify E op plaintext plen0 tag s =
    (let plen = wolfpsa_clear_length plen0 in
     case wolfpsa_aead_get_ctx op of
       None \<Rightarrow> (PSA_ERROR_BAD_STATE, [], plen, op, s)
     | Some ctx \<Rightarrow>
         if ae_direction ctx then (PSA_ERROR_BAD_STATE, [], plen, op, s)
         else
           (case wolfpsa_aead_decrypt_final E ctx plaintext plen tag s of
              (Inl status, s1) \<Rightarrow> (status, [], plen, snd (psa_aead_abort op), s1)
            | (Inr (pt, n), s1) \<Rightarrow> (PSA_SUCCESS, pt, Some n, snd (psa_aead_abort op), s1)))"

section \<open>One-shot calls\<close>

text \<open>
  The key check that the one-shot-only algorithms share: type and length of the key, usage,
  policy.
\<close>

definition oneshot_key ::
    "('st, 'h) psa_env \<Rightarrow> psa_key_id_t \<Rightarrow> psa_key_type_t \<Rightarrow> nat \<Rightarrow> psa_key_usage_t \<Rightarrow> psa_algorithm_t \<Rightarrow>
     'st key_store \<Rightarrow> (psa_status + byte list) \<times> 'st key_store" where
  "oneshot_key env key kt key_size want a s =
    (case load_key env key s of
       (Inl status, s1) \<Rightarrow> (Inl status, s1)
     | (Inr (attrs, d), s1) \<Rightarrow>
         (if type attrs \<noteq> kt \<or> length d \<noteq> key_size then Inl PSA_ERROR_INVALID_ARGUMENT
          else if psa_get_key_usage_flags attrs AND want = 0 then Inl PSA_ERROR_NOT_PERMITTED
          else if \<not> wolfpsa_aead_key_permits_alg attrs a then Inl PSA_ERROR_NOT_PERMITTED
          else Inr d, s1))"

definition wolfpsa_xchacha_oneshot_encrypt ::
    "('st, 'h) psa_env \<Rightarrow> ('a, 'p, 'n) aead_engine \<Rightarrow> psa_key_id_t \<Rightarrow> psa_algorithm_t \<Rightarrow> inbuf \<Rightarrow> inbuf \<Rightarrow> inbuf \<Rightarrow>
     outbuf \<Rightarrow> nat option \<Rightarrow> 'st key_store \<Rightarrow> psa_status \<times> byte list \<times> nat option \<times> 'st key_store" where
  "wolfpsa_xchacha_oneshot_encrypt env E key a nonce additional_data plaintext ciphertext len s =
    (let out_len = in_length plaintext + CHACHA20_POLY1305_AEAD_AUTHTAG_SIZE in
     if a \<noteq> PSA_ALG_XCHACHA20_POLY1305 then (PSA_ERROR_NOT_SUPPORTED, [], len, s)
     else if in_length nonce \<noteq> XCHACHA20_POLY1305_AEAD_NONCE_SIZE then (PSA_ERROR_INVALID_ARGUMENT, [], len, s)
     else if len = None then (PSA_ERROR_INVALID_ARGUMENT, [], len, s)
     else if in_length plaintext > SIZE_MAX - CHACHA20_POLY1305_AEAD_AUTHTAG_SIZE
       then (PSA_ERROR_INVALID_ARGUMENT, [], len, s)
     else if out_size ciphertext < out_len then (PSA_ERROR_BUFFER_TOO_SMALL, [], len, s)
     else
       (case oneshot_key env key PSA_KEY_TYPE_XCHACHA20 CHACHA20_POLY1305_AEAD_KEYSIZE PSA_KEY_USAGE_ENCRYPT a s of
          (Inl status, s1) \<Rightarrow> (status, [], len, s1)
        | (Inr d, s1) \<Rightarrow>
            (case ae_XChaChaEncrypt E ciphertext plaintext additional_data nonce d of
               (ret, out) \<Rightarrow>
                 if ret \<noteq> WC_OK then (wc_error_to_psa_status ret, [], len, s1)
                 else (PSA_SUCCESS, out, Some out_len, s1))))"

definition wolfpsa_xchacha_oneshot_decrypt ::
    "('st, 'h) psa_env \<Rightarrow> ('a, 'p, 'n) aead_engine \<Rightarrow> psa_key_id_t \<Rightarrow> psa_algorithm_t \<Rightarrow> inbuf \<Rightarrow> inbuf \<Rightarrow> inbuf \<Rightarrow>
     outbuf \<Rightarrow> nat option \<Rightarrow> 'st key_store \<Rightarrow> psa_status \<times> byte list \<times> nat option \<times> 'st key_store" where
  "wolfpsa_xchacha_oneshot_decrypt env E key a nonce additional_data ciphertext plaintext len s =
    (let pt_len = in_length ciphertext - CHACHA20_POLY1305_AEAD_AUTHTAG_SIZE in
     if a \<noteq> PSA_ALG_XCHACHA20_POLY1305 then (PSA_ERROR_NOT_SUPPORTED, [], len, s)
     else if in_length nonce \<noteq> XCHACHA20_POLY1305_AEAD_NONCE_SIZE then (PSA_ERROR_INVALID_ARGUMENT, [], len, s)
     else if len = None then (PSA_ERROR_INVALID_ARGUMENT, [], len, s)
     else if in_length ciphertext < CHACHA20_POLY1305_AEAD_AUTHTAG_SIZE
       then (PSA_ERROR_INVALID_ARGUMENT, [], len, s)
     else if out_size plaintext < pt_len then (PSA_ERROR_BUFFER_TOO_SMALL, [], len, s)
     else
       (case oneshot_key env key PSA_KEY_TYPE_XCHACHA20 CHACHA20_POLY1305_AEAD_KEYSIZE PSA_KEY_USAGE_DECRYPT a s of
          (Inl status, s1) \<Rightarrow> (status, [], len, s1)
        | (Inr d, s1) \<Rightarrow>
            (case ae_XChaChaDecrypt E plaintext ciphertext additional_data nonce d of
               (ret, out) \<Rightarrow>
                 if ret = MAC_CMP_FAILED_E then (PSA_ERROR_INVALID_SIGNATURE, [], len, s1)
                 else if ret \<noteq> WC_OK then (wc_error_to_psa_status ret, [], len, s1)
                 else (PSA_SUCCESS, out, Some pt_len, s1))))"

text \<open>The calls to Ascon up to the associated data, each skipped after a failure.\<close>

definition ascon_start ::
    "('a, 'p, 'n) aead_engine \<Rightarrow> byte list \<Rightarrow> inbuf \<Rightarrow> inbuf \<Rightarrow> wc_ret \<times> 'n" where
  "ascon_start E key nonce additional_data =
    (let (ret0, c0) = ae_AsconInit E;
         (ret1, c1) = (if ret0 = WC_OK then ae_AsconSetKey E key c0 else (ret0, c0));
         (ret2, c2) = (if ret1 = WC_OK then ae_AsconSetNonce E nonce c1 else (ret1, c1))
     in if ret2 = WC_OK then ae_AsconSetAD E additional_data c2 else (ret2, c2))"

definition wolfpsa_ascon_oneshot_encrypt ::
    "('st, 'h) psa_env \<Rightarrow> ('a, 'p, 'n) aead_engine \<Rightarrow> psa_key_id_t \<Rightarrow> psa_algorithm_t \<Rightarrow> inbuf \<Rightarrow> inbuf \<Rightarrow> inbuf \<Rightarrow>
     outbuf \<Rightarrow> nat option \<Rightarrow> 'st key_store \<Rightarrow> psa_status \<times> byte list \<times> nat option \<times> 'st key_store" where
  "wolfpsa_ascon_oneshot_encrypt env E key a nonce additional_data plaintext ciphertext len s =
    (let out_len = in_length plaintext + ASCON_AEAD128_TAG_SZ in
     if a \<noteq> PSA_ALG_ASCON_AEAD128 then (PSA_ERROR_NOT_SUPPORTED, [], len, s)
     else if in_length nonce \<noteq> ASCON_AEAD128_NONCE_SZ then (PSA_ERROR_INVALID_ARGUMENT, [], len, s)
     else if len = None then (PSA_ERROR_INVALID_ARGUMENT, [], len, s)
     else if in_length plaintext > SIZE_MAX - ASCON_AEAD128_TAG_SZ then (PSA_ERROR_INVALID_ARGUMENT, [], len, s)
     else if out_size ciphertext < out_len then (PSA_ERROR_BUFFER_TOO_SMALL, [], len, s)
     else if wolfpsa_check_word32_length (in_length plaintext) \<noteq> PSA_SUCCESS \<or>
             wolfpsa_check_word32_length (in_length additional_data) \<noteq> PSA_SUCCESS
       then (PSA_ERROR_INVALID_ARGUMENT, [], len, s)
     else
       (case oneshot_key env key PSA_KEY_TYPE_ASCON ASCON_AEAD128_KEY_SZ PSA_KEY_USAGE_ENCRYPT a s of
          (Inl status, s1) \<Rightarrow> (status, [], len, s1)
        | (Inr d, s1) \<Rightarrow>
            (let (ret3, c3) = ascon_start E d nonce additional_data;
                 (ret4, ct, c4) = (if ret3 = WC_OK then ae_AsconEncryptUpdate E ciphertext plaintext c3 else (ret3, [], c3));
                 (ret5, tag) = (if ret4 = WC_OK then ae_AsconEncryptFinal E c4 else (ret4, []))
             in if ret5 \<noteq> WC_OK then (wc_error_to_psa_status ret5, [], len, s1)
                else (PSA_SUCCESS, ct @ tag, Some out_len, s1))))"

definition wolfpsa_ascon_oneshot_decrypt ::
    "('st, 'h) psa_env \<Rightarrow> ('a, 'p, 'n) aead_engine \<Rightarrow> psa_key_id_t \<Rightarrow> psa_algorithm_t \<Rightarrow> inbuf \<Rightarrow> inbuf \<Rightarrow> inbuf \<Rightarrow>
     outbuf \<Rightarrow> nat option \<Rightarrow> 'st key_store \<Rightarrow> psa_status \<times> byte list \<times> nat option \<times> 'st key_store" where
  "wolfpsa_ascon_oneshot_decrypt env E key a nonce additional_data ciphertext plaintext len s =
    (let ct_len = in_length ciphertext - ASCON_AEAD128_TAG_SZ;
         body = (if in_null ciphertext then NullIn ct_len else In (take ct_len (in_bytes ciphertext)));
         tag = (if in_null ciphertext then NullIn ASCON_AEAD128_TAG_SZ else In (drop ct_len (in_bytes ciphertext))) in
     if a \<noteq> PSA_ALG_ASCON_AEAD128 then (PSA_ERROR_NOT_SUPPORTED, [], len, s)
     else if in_length nonce \<noteq> ASCON_AEAD128_NONCE_SZ then (PSA_ERROR_INVALID_ARGUMENT, [], len, s)
     else if len = None then (PSA_ERROR_INVALID_ARGUMENT, [], len, s)
     else if in_length ciphertext < ASCON_AEAD128_TAG_SZ then (PSA_ERROR_INVALID_ARGUMENT, [], len, s)
     else if out_size plaintext < ct_len then (PSA_ERROR_BUFFER_TOO_SMALL, [], len, s)
     else if wolfpsa_check_word32_length ct_len \<noteq> PSA_SUCCESS \<or>
             wolfpsa_check_word32_length (in_length additional_data) \<noteq> PSA_SUCCESS
       then (PSA_ERROR_INVALID_ARGUMENT, [], len, s)
     else
       (case oneshot_key env key PSA_KEY_TYPE_ASCON ASCON_AEAD128_KEY_SZ PSA_KEY_USAGE_DECRYPT a s of
          (Inl status, s1) \<Rightarrow> (status, [], len, s1)
        | (Inr d, s1) \<Rightarrow>
            (let (ret3, c3) = ascon_start E d nonce additional_data;
                 (ret4, pt, c4) = (if ret3 = WC_OK then ae_AsconDecryptUpdate E plaintext body c3 else (ret3, [], c3));
                 ret5 = (if ret4 = WC_OK then ae_AsconDecryptFinal E tag c4 else ret4)
             in if ret5 = MAC_CMP_FAILED_E \<or> ret5 = WC_OTHER (ae_ascon_auth_e E)
                  then (PSA_ERROR_INVALID_SIGNATURE, [], len, s1)
                else if ret5 \<noteq> WC_OK then (wc_error_to_psa_status ret5, [], len, s1)
                else (PSA_SUCCESS, pt, Some ct_len, s1))))"

text \<open>
  The steps that both one-shot calls make on the local operation before the payload: lengths
  for CCM, nonce, associated data. The operation is not visible outside, so a failure only
  leaves its status.
\<close>

definition oneshot_prepare ::
    "psa_algorithm_t \<Rightarrow> inbuf \<Rightarrow> inbuf \<Rightarrow> nat \<Rightarrow> ('a, 'p) psa_aead_operation_t option \<Rightarrow> 'st key_store \<Rightarrow>
     psa_status \<times> ('a, 'p) psa_aead_operation_t option \<times> 'st key_store" where
  "oneshot_prepare a nonce additional_data payload_length op s =
    (case (if PSA_ALG_AEAD_EQUAL a PSA_ALG_CCM
           then psa_aead_set_lengths op (in_length additional_data) payload_length else (PSA_SUCCESS, op)) of
       (status, op1) \<Rightarrow>
         if status \<noteq> PSA_SUCCESS then (status, snd (psa_aead_abort op1), s)
         else
           (case psa_aead_set_nonce op1 nonce of
              (status2, op2) \<Rightarrow>
                if status2 \<noteq> PSA_SUCCESS then (status2, snd (psa_aead_abort op2), s)
                else
                  (case psa_aead_update_ad op2 additional_data s of
                     (status3, op3, s1) \<Rightarrow>
                       if status3 \<noteq> PSA_SUCCESS then (status3, snd (psa_aead_abort op3), s1)
                       else (PSA_SUCCESS, op3, s1))))"

text \<open>
  The last store of \<open>psa_aead_encrypt\<close> goes through \<open>ciphertext_length\<close> without a check for NULL;
  the model has no value for that and keeps \<open>None\<close>.
\<close>

definition psa_aead_encrypt ::
    "('st, 'h) psa_env \<Rightarrow> ('a, 'p, 'n) aead_engine \<Rightarrow> psa_key_id_t \<Rightarrow> psa_algorithm_t \<Rightarrow> inbuf \<Rightarrow> inbuf \<Rightarrow> inbuf \<Rightarrow>
     outbuf \<Rightarrow> nat option \<Rightarrow> 'st key_store \<Rightarrow> psa_status \<times> byte list \<times> nat option \<times> 'st key_store" where
  "psa_aead_encrypt env E key a nonce additional_data plaintext ciphertext len0 s =
    (let len = wolfpsa_clear_length len0 in
     if PSA_ALG_AEAD_EQUAL a PSA_ALG_XCHACHA20_POLY1305
       then wolfpsa_xchacha_oneshot_encrypt env E key a nonce additional_data plaintext ciphertext len s
     else if PSA_ALG_AEAD_EQUAL a PSA_ALG_ASCON_AEAD128
       then wolfpsa_ascon_oneshot_encrypt env E key a nonce additional_data plaintext ciphertext len s
     else
       (case wolfpsa_aead_setup env E (Some None) key a PSA_KEY_USAGE_ENCRYPT s of
          (status, op, s1) \<Rightarrow>
            if status \<noteq> PSA_SUCCESS then (status, [], len, s1)
            else
              (case oneshot_prepare a nonce additional_data (in_length plaintext) op s1 of
                 (status2, op2, s2) \<Rightarrow>
                   if status2 \<noteq> PSA_SUCCESS then (status2, [], len, s2)
                   else
                     (case psa_aead_update E op2 plaintext (NullOut 0) (Some 0) s2 of
                        (status3, bs, n, op3, s3) \<Rightarrow>
                          if status3 \<noteq> PSA_SUCCESS then (status3, [], len, s3)
                          else
                            (let needed_tag_len = wolfpsa_aead_tag_length a in
                             if needed_tag_len > out_size ciphertext \<or>
                                out_size ciphertext - needed_tag_len < in_length plaintext
                               then (PSA_ERROR_BUFFER_TOO_SMALL, [], len, s3)
                             else
                               (case psa_aead_finish E op3 ciphertext n (Out PSA_AEAD_TAG_MAX_SIZE) (Some 0) s3 of
                                  (status4, ct, clen, tag, tlen, op4, s4) \<Rightarrow>
                                    if status4 \<noteq> PSA_SUCCESS then (status4, [], len, s4)
                                    else if out_size ciphertext < the clen + the tlen
                                      then (PSA_ERROR_BUFFER_TOO_SMALL, [], len, s4)
                                    else (PSA_SUCCESS, ct @ tag, map_option (\<lambda>_. the clen + the tlen) len, s4)))))))"

definition psa_aead_decrypt ::
    "('st, 'h) psa_env \<Rightarrow> ('a, 'p, 'n) aead_engine \<Rightarrow> psa_key_id_t \<Rightarrow> psa_algorithm_t \<Rightarrow> inbuf \<Rightarrow> inbuf \<Rightarrow> inbuf \<Rightarrow>
     outbuf \<Rightarrow> nat option \<Rightarrow> 'st key_store \<Rightarrow> psa_status \<times> byte list \<times> nat option \<times> 'st key_store" where
  "psa_aead_decrypt env E key a nonce additional_data ciphertext plaintext len0 s =
    (let len = wolfpsa_clear_length len0 in
     if PSA_ALG_AEAD_EQUAL a PSA_ALG_XCHACHA20_POLY1305
       then wolfpsa_xchacha_oneshot_decrypt env E key a nonce additional_data ciphertext plaintext len s
     else if PSA_ALG_AEAD_EQUAL a PSA_ALG_ASCON_AEAD128
       then wolfpsa_ascon_oneshot_decrypt env E key a nonce additional_data ciphertext plaintext len s
     else
       (case wolfpsa_aead_setup env E (Some None) key a PSA_KEY_USAGE_DECRYPT s of
          (status, op, s1) \<Rightarrow>
            if status \<noteq> PSA_SUCCESS then (status, [], len, s1)
            else
              (let tag_length = wolfpsa_aead_tag_length a; ct_len = in_length ciphertext - tag_length;
                   body = (if in_null ciphertext then NullIn ct_len else In (take ct_len (in_bytes ciphertext)));
                   tag = (if in_null ciphertext then NullIn tag_length else In (drop ct_len (in_bytes ciphertext))) in
               if tag_length = 0 \<or> in_length ciphertext < tag_length then (PSA_ERROR_INVALID_ARGUMENT, [], len, s1)
               else
                 (case oneshot_prepare a nonce additional_data ct_len op s1 of
                    (status2, op2, s2) \<Rightarrow>
                      if status2 \<noteq> PSA_SUCCESS then (status2, [], len, s2)
                      else
                        (case psa_aead_update E op2 body (NullOut 0) len s2 of
                           (status3, bs, n, op3, s3) \<Rightarrow>
                             if status3 \<noteq> PSA_SUCCESS then (status3, [], n, s3)
                             else
                               (case psa_aead_verify E op3 plaintext n tag s3 of
                                  (status4, pt, n4, op4, s4) \<Rightarrow> (status4, pt, n4, s4)))))))"

end
