(* ===== verification/Aead_Stream.thy ===== *)
theory Aead_Stream
  imports Aead
begin

text \<open>
  Multi-part AES-CCM through the API of \<open>src/psa_aead.c\<close>: however the associated data and the
  payload are cut into calls, encryption produces the ciphertext and tag of NIST SP 800-38C,
  and verification accepts exactly that tag.
\<close>

unbundle bit_operations_syntax

section \<open>Algorithms\<close>

lemma aead_equal_iff:
  "PSA_ALG_AEAD_EQUAL a b \<longleftrightarrow> a AND 0xFFC07FFF = b AND 0xFFC07FFF"
proof -
  have m: "NOT (PSA_ALG_AEAD_TAG_LENGTH_MASK OR PSA_ALG_AEAD_AT_LEAST_THIS_LENGTH_FLAG) = 0xFFC07FFF"
    by simp
  have "(a XOR b) AND m = 0 \<longleftrightarrow> a AND m = b AND m" for m
    by (simp add: bit_eq_iff bit_simps) blast
  then show ?thesis unfolding PSA_ALG_AEAD_EQUAL_def m .
qed

lemma ccm_excludes:
  assumes "PSA_ALG_AEAD_EQUAL a PSA_ALG_CCM"
  shows "\<not> PSA_ALG_AEAD_EQUAL a PSA_ALG_GCM" "\<not> PSA_ALG_AEAD_EQUAL a PSA_ALG_CHACHA20_POLY1305"
  using assms by (simp_all add: aead_equal_iff)

lemma stream_update_Inl [simp]: "wolfpsa_aead_stream_update E ctx xs \<noteq> Inl PSA_SUCCESS"
proof -
  have "gcm_stream_update E ctx xs \<noteq> Inl PSA_SUCCESS"
    by (auto simp: gcm_stream_update_def Let_def split: prod.splits)
  moreover have "chacha_stream_update E ctx xs \<noteq> Inl PSA_SUCCESS"
    by (auto simp: chacha_stream_update_def split: prod.splits)
  moreover have "ccm_stream_update E ctx xs \<noteq> Inl PSA_SUCCESS"
    by (auto simp: ccm_stream_update_def split: prod.splits sum.splits if_split_asm)
  ultimately show ?thesis by (simp add: wolfpsa_aead_stream_update_def)
qed

section \<open>Sequences of calls\<close>

text \<open>Associated data in pieces, and payload in pieces with the outputs collected.\<close>

fun aead_update_ads ::
    "('a, 'p) psa_aead_operation_t option \<Rightarrow> inbuf list \<Rightarrow> 'st key_store \<Rightarrow>
     psa_status \<times> ('a, 'p) psa_aead_operation_t option \<times> 'st key_store" where
  "aead_update_ads op [] s = (PSA_SUCCESS, op, s)"
| "aead_update_ads op (x # xs) s =
    (case psa_aead_update_ad op x s of
       (status, op1, s1) \<Rightarrow> if status \<noteq> PSA_SUCCESS then (status, op1, s1) else aead_update_ads op1 xs s1)"

fun aead_updates ::
    "('a, 'p, 'n) aead_engine \<Rightarrow> ('a, 'p) psa_aead_operation_t option \<Rightarrow> (inbuf \<times> outbuf) list \<Rightarrow> 'st key_store \<Rightarrow>
     psa_status \<times> byte list \<times> ('a, 'p) psa_aead_operation_t option \<times> 'st key_store" where
  "aead_updates E op [] s = (PSA_SUCCESS, [], op, s)"
| "aead_updates E op ((x, out) # xs) s =
    (case psa_aead_update E op x out (Some 0) s of
       (status, bs, n, op1, s1) \<Rightarrow>
         if status \<noteq> PSA_SUCCESS then (status, [], op1, s1)
         else
           (case aead_updates E op1 xs s1 of (status2, bs2, op2, s2) \<Rightarrow> (status2, bs @ bs2, op2, s2)))"

abbreviation payload :: "(inbuf \<times> outbuf) list \<Rightarrow> byte list" where
  "payload ys \<equiv> concat (map (in_bytes \<circ> fst) ys)"

section \<open>A CCM session\<close>

text \<open>
  The context of a CCM operation after set-up, lengths and nonce: key, nonce, associated data so
  far, declared lengths and plaintext so far.
\<close>

definition ccm_session ::
    "(byte list \<Rightarrow> 'a \<Rightarrow> bool) \<Rightarrow> (byte list \<Rightarrow> byte list \<Rightarrow> byte list) \<Rightarrow> bool \<Rightarrow> psa_algorithm_t \<Rightarrow> byte list \<Rightarrow>
     byte list \<Rightarrow> nat \<Rightarrow> nat \<Rightarrow> byte list \<Rightarrow> byte list \<Rightarrow> ('a, 'p) wolfpsa_aead_ctx \<Rightarrow> bool" where
  "ccm_session G f enc a k N adl ptl A p ctx \<longleftrightarrow>
    ae_alg ctx = a \<and> PSA_ALG_AEAD_EQUAL a PSA_ALG_CCM \<and> ae_direction ctx = enc \<and> ae_key ctx = k \<and>
    ae_nonce ctx = N \<and> 7 \<le> length N \<and> length N \<le> 13 \<and> ae_tag_length ctx = wolfpsa_aead_tag_length a \<and>
    ae_lengths_set ctx \<and> ae_ad_expected ctx = adl \<and> ae_plaintext_expected ctx = ptl \<and>
    ae_aad ctx = A \<and> ae_input ctx = [] \<and> ae_input_length ctx = length p \<and> ae_streaming ctx = (p \<noteq> []) \<and>
    (p \<noteq> [] \<longrightarrow> length A = adl \<and> ptl < 256 ^ (15 - length N) \<and>
      ccm_state G f k N (cbc_mac (f k) (replicate 16 0) (ccm_header N A ptl (wolfpsa_aead_tag_length a))) p
        (ae_ccm ctx) (ae_aes ctx))"

lemma ccm_sessionD:
  assumes "ccm_session G f enc a k N adl ptl A p ctx"
  shows "ae_alg ctx = a" "PSA_ALG_AEAD_EQUAL a PSA_ALG_CCM" "ae_direction ctx = enc" "ae_key ctx = k"
    "ae_nonce ctx = N" "7 \<le> length N" "length N \<le> 13" "ae_tag_length ctx = wolfpsa_aead_tag_length a"
    "ae_lengths_set ctx" "ae_ad_expected ctx = adl" "ae_plaintext_expected ctx = ptl" "ae_aad ctx = A"
    "ae_input ctx = []" "ae_input_length ctx = length p" "ae_streaming ctx = (p \<noteq> [])"
    "p \<noteq> [] \<Longrightarrow> length A = adl"
    "p \<noteq> [] \<Longrightarrow> ccm_state G f k N
       (cbc_mac (f k) (replicate 16 0) (ccm_header N A ptl (wolfpsa_aead_tag_length a))) p (ae_ccm ctx) (ae_aes ctx)"
    "p \<noteq> [] \<Longrightarrow> ptl < 256 ^ (15 - length N)"
  using assms unfolding ccm_session_def by blast+

lemma aead_check_key_Inl [simp]: "wolfpsa_aead_check_key env key want a s \<noteq> (Inl PSA_SUCCESS, s')"
  by (auto simp: wolfpsa_aead_check_key_def split: prod.splits sum.splits)

text \<open>What a successful set-up has checked.\<close>

lemma aead_setup_parts:
  assumes "wolfpsa_aead_setup env E op key a want s = (PSA_SUCCESS, op1, s1)"
  shows "op = Some None \<and> aead_check_alg a = PSA_SUCCESS \<and>
    aead_check_tag E a (wolfpsa_aead_tag_length a) = PSA_SUCCESS \<and> (\<exists>attrs d s2.
    wolfpsa_aead_check_key env key want a s = (Inr (attrs, d), s2) \<and>
    op1 = Some (Some (aead_new_ctx E (want = PSA_KEY_USAGE_ENCRYPT) a attrs d)))"
  using assms by (auto simp: wolfpsa_aead_setup_def Let_def split: if_split_asm prod.splits sum.splits)

lemma aead_check_key_parts:
  assumes "wolfpsa_aead_check_key env key want a s = (Inr (attrs, d), s1)"
  shows "load_key env key s = (Inr (attrs, d), s1)"
    "usage (policy attrs) AND want = want" "wolfpsa_aead_key_permits_alg attrs a"
    "wolfpsa_aead_tag_length a \<noteq> 0"
    "type attrs = (if PSA_ALG_AEAD_EQUAL a PSA_ALG_CHACHA20_POLY1305 then PSA_KEY_TYPE_CHACHA20 else PSA_KEY_TYPE_AES)"
  using assms
  by (auto simp: wolfpsa_aead_check_key_def psa_get_key_usage_flags_def aead_equal_iff
      split: if_split_asm prod.splits sum.splits)

lemma ccm_session_start:
  assumes ccm: "PSA_ALG_AEAD_EQUAL a PSA_ALG_CCM"
    and l: "psa_aead_set_lengths (Some (Some (aead_new_ctx E enc a attrs d))) adl ptl = (PSA_SUCCESS, op1)"
    and n: "psa_aead_set_nonce op1 (In N) = (PSA_SUCCESS, op2)"
  shows "\<exists>ctx. op2 = Some (Some ctx) \<and> ccm_session G f enc a d N adl ptl [] [] ctx"
proof -
  have o1: "op1 = Some (Some ((aead_new_ctx E enc a attrs d)\<lparr>ae_ad_expected := adl,
      ae_plaintext_expected := ptl, ae_lengths_set := True\<rparr>))"
    using l by (auto simp: psa_aead_set_lengths_def wolfpsa_aead_get_ctx_def Let_def split: if_split_asm)
  have "7 \<le> length N" "length N \<le> 13"
    "op2 = Some (Some ((aead_new_ctx E enc a attrs d)\<lparr>ae_ad_expected := adl,
      ae_plaintext_expected := ptl, ae_lengths_set := True, ae_nonce := N\<rparr>))"
    using n ccm ccm_excludes [OF ccm] unfolding o1
    by (auto simp: psa_aead_set_nonce_def wolfpsa_aead_get_ctx_def aead_check_nonce_def aead_new_ctx_def
        split: if_split_asm)
  then show ?thesis using ccm by (simp add: ccm_session_def aead_new_ctx_def)
qed

lemma ccm_session_ad:
  assumes S: "ccm_session G f enc a k N adl ptl A [] ctx"
    and u: "psa_aead_update_ad (Some (Some ctx)) x s = (PSA_SUCCESS, op1, s1)"
  shows "\<exists>ctx1. op1 = Some (Some ctx1) \<and> ccm_session G f enc a k N adl ptl (A @ in_bytes x) [] ctx1"
proof -
  have "op1 = Some (Some (ctx\<lparr>ae_aad := A @ in_bytes x, ae_ad_started := True\<rparr>))"
    using u ccm_sessionD [OF S]
    by (cases x) (auto simp: psa_aead_update_ad_def wolfpsa_aead_get_ctx_def wolfpsa_aead_append_def Let_def
        split: if_split_asm prod.splits)
  then show ?thesis using S by (simp add: ccm_session_def)
qed

lemma ccm_session_ads:
  assumes "ccm_session G f enc a k N adl ptl A [] ctx"
    and "aead_update_ads (Some (Some ctx)) xs s = (PSA_SUCCESS, op1, s1)"
  shows "\<exists>ctx1. op1 = Some (Some ctx1) \<and>
    ccm_session G f enc a k N adl ptl (A @ concat (map in_bytes xs)) [] ctx1"
  using assms
proof (induction xs arbitrary: A ctx s)
  case (Cons x xs)
  obtain op2 s2 where u: "psa_aead_update_ad (Some (Some ctx)) x s = (PSA_SUCCESS, op2, s2)"
    and r: "aead_update_ads op2 xs s2 = (PSA_SUCCESS, op1, s1)"
    using Cons.prems(2) by (auto split: prod.splits if_split_asm)
  obtain ctx2 where o2: "op2 = Some (Some ctx2)"
    and S2: "ccm_session G f enc a k N adl ptl (A @ in_bytes x) [] ctx2"
    using ccm_session_ad [OF Cons.prems(1) u] by blast
  show ?case using Cons.IH [OF S2 r [unfolded o2]] by simp
qed auto

text \<open>The guards of an update on a CCM session.\<close>

lemma ccm_update_guards:
  assumes S: "ccm_session G f enc a k N adl ptl A p ctx" and o: "\<not> out_null out"
    and u: "psa_aead_update E (Some (Some ctx)) x out (Some l) s = (PSA_SUCCESS, bs, n, op1, s1)"
  shows "length A = adl" "length p + in_length x \<le> ptl"
    "in_length x = 0 \<Longrightarrow> bs = [] \<and> op1 = Some (Some (ctx\<lparr>ae_body_started := True\<rparr>))"
    "in_length x \<noteq> 0 \<Longrightarrow> \<exists>ctx2. \<not> in_null x \<and>
       ccm_stream_update E (ctx\<lparr>ae_body_started := True\<rparr>) (in_bytes x) = Inr (bs, ctx2) \<and>
       op1 = Some (Some (ctx2\<lparr>ae_streaming := True, ae_input_length := ae_input_length ctx2 + in_length x\<rparr>))"
proof -
  note D = ccm_sessionD [OF S]
  note X = ccm_excludes [OF D(2)]
  have st: "wolfpsa_aead_stream_update E (ctx\<lparr>ae_body_started := True\<rparr>) (in_bytes x) =
      ccm_stream_update E (ctx\<lparr>ae_body_started := True\<rparr>) (in_bytes x)"
    using D X by (simp add: wolfpsa_aead_stream_update_def)
  show "length A = adl"
    by (rule ccontr) (use u D in \<open>simp add: psa_aead_update_def wolfpsa_aead_get_ctx_def wolfpsa_clear_length_def
        wolfpsa_aead_lengths_missing_def Let_def split: if_split_asm\<close>)
  then show "length p + in_length x \<le> ptl"
    using u D by (auto simp: psa_aead_update_def wolfpsa_aead_get_ctx_def wolfpsa_clear_length_def
        wolfpsa_aead_lengths_missing_def Let_def split: if_split_asm)
  show "in_length x = 0 \<Longrightarrow> bs = [] \<and> op1 = Some (Some (ctx\<lparr>ae_body_started := True\<rparr>))"
    using u D by (auto simp: psa_aead_update_def wolfpsa_aead_get_ctx_def wolfpsa_clear_length_def
        wolfpsa_aead_lengths_missing_def Let_def split: if_split_asm)
  show "in_length x \<noteq> 0 \<Longrightarrow> \<exists>ctx2. \<not> in_null x \<and>
       ccm_stream_update E (ctx\<lparr>ae_body_started := True\<rparr>) (in_bytes x) = Inr (bs, ctx2) \<and>
       op1 = Some (Some (ctx2\<lparr>ae_streaming := True, ae_input_length := ae_input_length ctx2 + in_length x\<rparr>))"
    using u D o st by (auto simp: psa_aead_update_def wolfpsa_aead_get_ctx_def wolfpsa_clear_length_def
        wolfpsa_aead_lengths_missing_def Let_def split: if_split_asm sum.splits prod.splits)
qed

lemma ccm_session_update:
  assumes law: "aes_direct E G f" and S: "ccm_session G f enc a k N adl ptl A p ctx" and o: "\<not> out_null out"
    and u: "psa_aead_update E (Some (Some ctx)) x out (Some l) s = (PSA_SUCCESS, bs, n, op1, s1)"
  shows "bs = ccm_crypt_at (f k) N (length p) (in_bytes x) \<and> (\<exists>ctx1. op1 = Some (Some ctx1) \<and>
    ccm_session G f enc a k N adl ptl A (p @ (if enc then in_bytes x else bs)) ctx1)"
proof (cases "in_length x = 0")
  case True
  then have "in_bytes x = []" by (cases x) simp_all
  with ccm_update_guards(3) [OF S o u True] S show ?thesis by (simp add: ccm_session_def)
next
  case False
  note D = ccm_sessionD [OF S]
  let ?m0 = "cbc_mac (f k) (replicate 16 0) (ccm_header N A ptl (wolfpsa_aead_tag_length a))"
  obtain ctx2 where nn: "\<not> in_null x"
    and su: "ccm_stream_update E (ctx\<lparr>ae_body_started := True\<rparr>) (in_bytes x) = Inr (bs, ctx2)"
    and o1: "op1 = Some (Some (ctx2\<lparr>ae_streaming := True, ae_input_length := ae_input_length ctx2 + in_length x\<rparr>))"
    using ccm_update_guards(4) [OF S o u False] by blast
  have lx: "in_length x = length (in_bytes x)" "in_bytes x \<noteq> []" using nn False by (cases x; simp)+
  obtain c1 a1 where st: "ccm_state G f k N ?m0 p c1 a1" and fit: "ptl < 256 ^ (15 - length N)"
    and su1: "(case wolfpsa_aead_ccm_update E enc (in_bytes x) c1 a1 of
         Inl e \<Rightarrow> Inl e
       | Inr (out, c, aes) \<Rightarrow> Inr (out, ctx\<lparr>ae_body_started := True, ae_ccm := c, ae_aes := aes\<rparr>)) = Inr (bs, ctx2)"
  proof (cases "p = []")
    case True
    then obtain ctx1 where i: "wolfpsa_aead_ccm_init E (ctx\<lparr>ae_body_started := True\<rparr>) = Inr ctx1"
      using su D by (auto simp: ccm_stream_update_def split: sum.splits)
    obtain c1 a1 where c: "ctx1 = ctx\<lparr>ae_body_started := True, ae_aes := a1, ae_ccm := c1\<rparr>"
      and s1: "ccm_state G f k N ?m0 [] c1 a1"
      using ccm_init_ok(4) [OF law i] D by auto
    show ?thesis
      by (rule that) (use ccm_init_ok(3) [OF law i] s1 True su i c D in \<open>auto simp: ccm_stream_update_def split: sum.splits prod.splits\<close>)
  next
    case False
    show ?thesis by (rule that [OF D(17,18) [OF False]]) (use su False D in \<open>simp add: ccm_stream_update_def\<close>)
  qed
  obtain c aes where up: "wolfpsa_aead_ccm_update E enc (in_bytes x) c1 a1 = Inr (bs, c, aes)"
    and c2: "ctx2 = ctx\<lparr>ae_body_started := True, ae_ccm := c, ae_aes := aes\<rparr>"
    using su1 by (auto split: sum.splits)
  have "length N \<le> 15" using D(7) by simp
  note U = ccm_update_ok [OF law this st up]
  show ?thesis using U D fit ccm_update_guards(1) [OF S o u] lx unfolding o1 c2
    by (auto simp: ccm_session_def)
qed

lemma ccm_session_updates:
  assumes law: "aes_direct E G f" and "ccm_session G f enc a k N adl ptl A p ctx"
    and "list_all (\<lambda>(x, out). \<not> out_null out) ys"
    and "aead_updates E (Some (Some ctx)) ys s = (PSA_SUCCESS, bs, op1, s1)"
  shows "bs = ccm_crypt_at (f k) N (length p) (payload ys) \<and> (\<exists>ctx1. op1 = Some (Some ctx1) \<and>
    ccm_session G f enc a k N adl ptl A (p @ (if enc then payload ys else bs)) ctx1)"
  using assms(2-)
proof (induction ys arbitrary: p ctx s bs)
  case (Cons y ys)
  obtain x out where y: "y = (x, out)" by fastforce
  have o: "\<not> out_null out" "list_all (\<lambda>(x, out). \<not> out_null out) ys" using Cons.prems(2) y by simp_all
  obtain b1 n op2 s2 b2 where u: "psa_aead_update E (Some (Some ctx)) x out (Some 0) s = (PSA_SUCCESS, b1, n, op2, s2)"
    and r: "aead_updates E op2 ys s2 = (PSA_SUCCESS, b2, op1, s1)" and b: "bs = b1 @ b2"
    using Cons.prems(3) y by (auto split: prod.splits if_split_asm)
  obtain ctx2 where b1: "b1 = ccm_crypt_at (f k) N (length p) (in_bytes x)" and o2: "op2 = Some (Some ctx2)"
    and S2: "ccm_session G f enc a k N adl ptl A (p @ (if enc then in_bytes x else b1)) ctx2"
    using ccm_session_update [OF law Cons.prems(1) o(1) u] by blast
  have l: "length (p @ (if enc then in_bytes x else b1)) = length p + length (in_bytes x)" by (simp add: b1)
  show ?case using Cons.IH [OF S2 o(2) r [unfolded o2]] unfolding l
    by (auto simp: b b1 y ccm_crypt_at_append)
qed auto

section \<open>The tag\<close>

lemma ct_diff_zero: "ct_diff xs ys n = 0 \<longleftrightarrow> (\<forall>i < n. xs ! i = ys ! i)"
  by (auto simp: ct_diff_def fold_or_zero xor_zero_iff)

lemma ct_diff_eq: "length xs = n \<Longrightarrow> length ys = n \<Longrightarrow> ct_diff xs ys n = 0 \<longleftrightarrow> xs = ys"
  by (auto simp: ct_diff_zero list_eq_iff_nth_eq)

lemma ccm_session_tag:
  assumes law: "aes_direct E G f" and S: "ccm_session G f enc a k N adl (length p) A p ctx" and p: "p \<noteq> []"
    and t: "wolfpsa_aead_tag_length a \<le> 16"
    and fi: "wolfpsa_aead_ccm_finish E N (wolfpsa_aead_tag_length a) (ae_ccm ctx) (ae_aes ctx) = Inr tag"
  shows "tag = ccm_tag (f k) N A p (wolfpsa_aead_tag_length a)"
proof -
  have "length N \<le> 15" using ccm_sessionD(7) [OF S] by simp
  from ccm_finish_ok [OF law this ccm_sessionD(17) [OF S p] t fi] show ?thesis
    by (simp add: ccm_tag_def)
qed

lemma ccm_finish_session:
  assumes law: "aes_direct E G f" and S: "ccm_session G f True a k N adl ptl A p ctx" and p: "p \<noteq> []"
    and t: "wolfpsa_aead_tag_length a \<le> 16"
    and fi: "psa_aead_finish E (Some (Some ctx)) ct (Some l) tg (Some l2) s = (PSA_SUCCESS, c, cln, tag, tln, op1, s1)"
  shows "length p = ptl" "length A = adl" "c = []" "cln = Some 0" "tag = ccm_tag (f k) N A p (wolfpsa_aead_tag_length a)"
    "tln = Some (wolfpsa_aead_tag_length a)" "op1 = Some None"
proof -
  note D = ccm_sessionD [OF S]
  obtain tg2 where sf: "wolfpsa_aead_stream_final E ctx [] (wolfpsa_aead_tag_length a) = (PSA_SUCCESS, tg2)"
    and r: "length p = ptl" "length A = adl" "c = []" "cln = Some 0" "tag = tg2"
      "tln = Some (wolfpsa_aead_tag_length a)" "op1 = Some None"
    using fi D p by (auto simp: psa_aead_finish_def wolfpsa_aead_encrypt_final_def wolfpsa_aead_get_ctx_def
        wolfpsa_clear_length_def psa_aead_abort_def Let_def split: if_split_asm prod.splits sum.splits)
  have "wolfpsa_aead_ccm_finish E N (wolfpsa_aead_tag_length a) (ae_ccm ctx) (ae_aes ctx) = Inr tag"
    using sf r(5) D ccm_excludes [OF D(2)]
    by (auto simp: wolfpsa_aead_stream_final_def split: sum.splits if_split_asm)
  from ccm_session_tag [OF law _ p t this] S r show "tag = ccm_tag (f k) N A p (wolfpsa_aead_tag_length a)"
    by simp
  show "length p = ptl" "length A = adl" "c = []" "cln = Some 0" "tln = Some (wolfpsa_aead_tag_length a)" "op1 = Some None"
    by (fact r)+
qed

text \<open>When the block function does not fail, neither does the end of a stream.\<close>

lemma ccm_finish_total:
  assumes "\<And>b a. fst (ae_AesEncryptDirect E b a) = WC_OK"
  shows "\<exists>tag. wolfpsa_aead_ccm_finish E N t c a = Inr tag \<and> length tag = t"
proof -
  have e: "\<exists>m a1. ae_AesEncryptDirect E b a = (WC_OK, m, a1)" for b a
    using assms [of b a] by (cases "ae_AesEncryptDirect E b a") auto
  obtain m a1 where "(if ccm_mfill c > 0 then ccm_absorb E (ccm_mac c) (ccm_mblk c) a else Inr (ccm_mac c, a)) = Inr (m, a1)"
    using e [of "map2 (XOR) (ccm_mac c) (ccm_mblk c)" a] by (cases "ccm_mfill c > 0") (auto simp: ccm_absorb_def)
  moreover obtain tmp a2 where "ae_AesEncryptDirect E (zero_pad (word_of_nat (ccm_lenSz c - 1) # N)) a1 = (WC_OK, tmp, a2)"
    using e by blast
  ultimately show ?thesis by (simp add: wolfpsa_aead_ccm_finish_def)
qed

lemma ccm_verify_session:
  assumes law: "aes_direct E G f" and S: "ccm_session G f False a k N adl ptl A p ctx" and p: "p \<noteq> []"
    and t: "wolfpsa_aead_tag_length a \<le> 16" and run: "\<And>b a. fst (ae_AesEncryptDirect E b a) = WC_OK"
    and o: "out_null out \<longrightarrow> out_size out = 0"
  shows "psa_aead_verify E (Some (Some ctx)) out (Some l) (In tag) s =
    (if length p \<noteq> ptl then PSA_ERROR_INVALID_ARGUMENT
     else if tag = ccm_tag (f k) N A p (wolfpsa_aead_tag_length a) then PSA_SUCCESS
     else PSA_ERROR_INVALID_SIGNATURE, [], Some 0, Some None, s)"
proof -
  note D = ccm_sessionD [OF S]
  obtain computed where fi: "wolfpsa_aead_ccm_finish E N (wolfpsa_aead_tag_length a) (ae_ccm ctx) (ae_aes ctx) = Inr computed"
    and lc: "length computed = wolfpsa_aead_tag_length a"
    using ccm_finish_total [OF run] by blast
  have sf: "wolfpsa_aead_stream_final E ctx tag (wolfpsa_aead_tag_length a) =
      (if ct_diff computed tag (wolfpsa_aead_tag_length a) \<noteq> 0 then PSA_ERROR_INVALID_SIGNATURE else PSA_SUCCESS, [])"
    using D fi ccm_excludes [OF D(2)] by (simp add: wolfpsa_aead_stream_final_def)
  have N0: "N \<noteq> []" using D(6) by auto
  have fin: "wolfpsa_aead_decrypt_final E ctx out (Some 0) (In tag) s =
    (if length p \<noteq> ptl then Inl PSA_ERROR_INVALID_ARGUMENT
     else if length tag \<noteq> wolfpsa_aead_tag_length a then Inl PSA_ERROR_INVALID_SIGNATURE
     else if ct_diff computed tag (wolfpsa_aead_tag_length a) \<noteq> 0 then Inl PSA_ERROR_INVALID_SIGNATURE
     else Inr ([], 0), s)"
    using D(1-16) p o sf N0 by (simp add: wolfpsa_aead_decrypt_final_def wolfpsa_aead_lengths_missing_def)
  have "computed = ccm_tag (f k) N A p (wolfpsa_aead_tag_length a)" if "length p = ptl"
    using ccm_session_tag [OF law _ p t fi] S that by simp
  then have eq: "(length tag = wolfpsa_aead_tag_length a \<and> ct_diff computed tag (wolfpsa_aead_tag_length a) = 0) \<longleftrightarrow>
      tag = ccm_tag (f k) N A p (wolfpsa_aead_tag_length a)" if "length p = ptl"
    using that lc ct_diff_eq [of computed "wolfpsa_aead_tag_length a" tag] by auto
  show ?thesis
    using fin eq D(3) by (simp add: psa_aead_verify_def wolfpsa_aead_get_ctx_def wolfpsa_clear_length_def psa_aead_abort_def) metis
qed

section \<open>Multi-part CCM\<close>

text \<open>What the calls before the tag have established, in either direction.\<close>

lemma ccm_multipart_session:
  assumes env: "env_ops env = posix_ops os" and lk: "lock_ok s" and law: "aes_direct E G f"
    and ccm: "PSA_ALG_AEAD_EQUAL a PSA_ALG_CCM"
    and st: "wolfpsa_aead_setup env E op key a want s = (PSA_SUCCESS, op0, s0)"
    and ln: "psa_aead_set_lengths op0 adl ptl = (PSA_SUCCESS, op1)"
    and no: "psa_aead_set_nonce op1 (In N) = (PSA_SUCCESS, op2)"
    and ads: "aead_update_ads op2 xs s0 = (PSA_SUCCESS, op3, s1)"
    and out: "list_all (\<lambda>(x, out). \<not> out_null out) ys"
    and ups: "aead_updates E op3 ys s1 = (PSA_SUCCESS, bs, op4, s2)"
  shows "\<exists>attrs d ctx. key_at posix_recs s key = Some (attrs, d) \<and> usage (policy attrs) AND want = want \<and>
    wolfpsa_aead_key_permits_alg attrs a \<and> wolfpsa_aead_tag_length a \<in> {4, 6, 8, 10, 12, 14, 16} \<and>
    bs = ccm_crypt (f d) N (payload ys) \<and> op4 = Some (Some ctx) \<and>
    ccm_session G f (want = PSA_KEY_USAGE_ENCRYPT) a d N adl ptl (concat (map in_bytes xs))
      (if want = PSA_KEY_USAGE_ENCRYPT then payload ys else bs) ctx"
proof -
  let ?enc = "want = PSA_KEY_USAGE_ENCRYPT" and ?A = "concat (map in_bytes xs)"
  obtain attrs d sk where tag: "aead_check_tag E a (wolfpsa_aead_tag_length a) = PSA_SUCCESS"
    and ck: "wolfpsa_aead_check_key env key want a s = (Inr (attrs, d), sk)"
    and o0: "op0 = Some (Some (aead_new_ctx E ?enc a attrs d))"
    using aead_setup_parts [OF st] by (elim conjE exE)
  note K = aead_check_key_parts [OF ck]
  have key: "key_at posix_recs s key = Some (attrs, d)"
    by (rule posix_keys.load_key_sound(2) [OF env lk K(1) refl])
  have "ae_AesCcmCheckTagSize E (wolfpsa_aead_tag_length a) = WC_OK"
    using tag ccm by (auto simp: aead_check_tag_def split: if_split_asm)
  note t = aes_directD(5) [OF law this]
  obtain ctx2 where o2: "op2 = Some (Some ctx2)" and S2: "ccm_session G f ?enc a d N adl ptl [] [] ctx2"
    using ccm_session_start [OF ccm ln [unfolded o0] no] by blast
  obtain ctx3 where o3: "op3 = Some (Some ctx3)" and S3: "ccm_session G f ?enc a d N adl ptl ?A [] ctx3"
    using ccm_session_ads [OF S2 ads [unfolded o2]] by auto
  obtain ctx4 where b: "bs = ccm_crypt (f d) N (payload ys)" and o4: "op4 = Some (Some ctx4)"
    and S4: "ccm_session G f ?enc a d N adl ptl ?A (if ?enc then payload ys else bs) ctx4"
    using ccm_session_updates [OF law S3 out ups [unfolded o3]] by (auto simp: ccm_crypt_at_0)
  show ?thesis using key K(2,3) t b o4 S4 by blast
qed

text \<open>
  C9: The streaming CCM of wolfPSA is the CCM of NIST SP 800-38C. When an encryption is set up
  for a CCM algorithm, given lengths and a nonce, fed associated data and a nonempty payload in
  any pieces, and finished, then the outputs together are the CCM ciphertext of the payload and
  the tag is the CCM tag of nonce, associated data and payload, under the key the id names; that
  key may encrypt with this algorithm, the lengths are the declared ones, and the operation is
  over.
\<close>

theorem ccm_multipart_encrypt:
  assumes env: "env_ops env = posix_ops os" and lk: "lock_ok s" and law: "aes_direct E G f"
    and ccm: "PSA_ALG_AEAD_EQUAL a PSA_ALG_CCM"
    and st: "psa_aead_encrypt_setup env E op key a s = (PSA_SUCCESS, op0, s0)"
    and ln: "psa_aead_set_lengths op0 adl ptl = (PSA_SUCCESS, op1)"
    and no: "psa_aead_set_nonce op1 (In N) = (PSA_SUCCESS, op2)"
    and ads: "aead_update_ads op2 xs s0 = (PSA_SUCCESS, op3, s1)"
    and out: "list_all (\<lambda>(x, out). \<not> out_null out) ys" and ne: "payload ys \<noteq> []"
    and ups: "aead_updates E op3 ys s1 = (PSA_SUCCESS, bs, op4, s2)"
    and fi: "psa_aead_finish E op4 ct (Some l) tg (Some l2) s2 = (PSA_SUCCESS, c, cln, tag, tln, op5, s3)"
  shows "\<exists>attrs d. key_at posix_recs s key = Some (attrs, d) \<and>
    usage (policy attrs) AND PSA_KEY_USAGE_ENCRYPT = PSA_KEY_USAGE_ENCRYPT \<and> wolfpsa_aead_key_permits_alg attrs a \<and>
    bs = ccm_crypt (f d) N (payload ys) \<and> c = [] \<and>
    tag = ccm_tag (f d) N (concat (map in_bytes xs)) (payload ys) (wolfpsa_aead_tag_length a) \<and>
    length (concat (map in_bytes xs)) = adl \<and> length (payload ys) = ptl \<and>
    tln = Some (wolfpsa_aead_tag_length a) \<and> op5 = Some None"
proof -
  obtain attrs d ctx where k: "key_at posix_recs s key = Some (attrs, d)"
      "usage (policy attrs) AND PSA_KEY_USAGE_ENCRYPT = PSA_KEY_USAGE_ENCRYPT" "wolfpsa_aead_key_permits_alg attrs a"
    and t: "wolfpsa_aead_tag_length a \<in> {4, 6, 8, 10, 12, 14, 16}" and b: "bs = ccm_crypt (f d) N (payload ys)"
    and o4: "op4 = Some (Some ctx)"
    and S: "ccm_session G f True a d N adl ptl (concat (map in_bytes xs)) (payload ys) ctx"
    using ccm_multipart_session [OF env lk law ccm st [unfolded psa_aead_encrypt_setup_def] ln no ads out ups]
    unfolding simp_thms if_True by (elim exE conjE)
  have "wolfpsa_aead_tag_length a \<le> 16" using t by auto
  note F = ccm_finish_session [OF law S ne this fi [unfolded o4]]
  show ?thesis using k b F by blast
qed

text \<open>
  C10: Streaming CCM decryption accepts exactly the right tag. When a decryption is set up for a
  CCM algorithm, given lengths and a nonce, and fed associated data and a nonempty ciphertext in
  any pieces, the outputs together are its CCM plaintext under the key the id names, and, as
  long as the AES block function does not fail, \<open>psa_aead_verify\<close> succeeds if and only if the
  tag is the CCM tag of nonce, associated data and that plaintext, at the length the algorithm
  names, and the payload had the declared length; another tag is an invalid signature.
\<close>

theorem ccm_multipart_verify_exact:
  assumes env: "env_ops env = posix_ops os" and lk: "lock_ok s" and law: "aes_direct E G f"
    and ccm: "PSA_ALG_AEAD_EQUAL a PSA_ALG_CCM"
    and st: "psa_aead_decrypt_setup env E op key a s = (PSA_SUCCESS, op0, s0)"
    and ln: "psa_aead_set_lengths op0 adl ptl = (PSA_SUCCESS, op1)"
    and no: "psa_aead_set_nonce op1 (In N) = (PSA_SUCCESS, op2)"
    and ads: "aead_update_ads op2 xs s0 = (PSA_SUCCESS, op3, s1)"
    and out: "list_all (\<lambda>(x, out). \<not> out_null out) ys" and ne: "payload ys \<noteq> []"
    and ups: "aead_updates E op3 ys s1 = (PSA_SUCCESS, bs, op4, s2)"
    and run: "\<And>b a. fst (ae_AesEncryptDirect E b a) = WC_OK" and pt: "out_null pt \<longrightarrow> out_size pt = 0"
  shows "\<exists>attrs d. key_at posix_recs s key = Some (attrs, d) \<and>
    usage (policy attrs) AND PSA_KEY_USAGE_DECRYPT = PSA_KEY_USAGE_DECRYPT \<and> wolfpsa_aead_key_permits_alg attrs a \<and>
    bs = ccm_crypt (f d) N (payload ys) \<and>
    psa_aead_verify E op4 pt (Some l) (In tag) s2 =
      (if length (payload ys) \<noteq> ptl then PSA_ERROR_INVALID_ARGUMENT
       else if tag = ccm_tag (f d) N (concat (map in_bytes xs)) bs (wolfpsa_aead_tag_length a) then PSA_SUCCESS
       else PSA_ERROR_INVALID_SIGNATURE, [], Some 0, Some None, s2)"
proof -
  have dec: "(PSA_KEY_USAGE_DECRYPT = PSA_KEY_USAGE_ENCRYPT) = False" by simp
  obtain attrs d ctx where k: "key_at posix_recs s key = Some (attrs, d)"
      "usage (policy attrs) AND PSA_KEY_USAGE_DECRYPT = PSA_KEY_USAGE_DECRYPT" "wolfpsa_aead_key_permits_alg attrs a"
    and t: "wolfpsa_aead_tag_length a \<in> {4, 6, 8, 10, 12, 14, 16}" and b: "bs = ccm_crypt (f d) N (payload ys)"
    and o4: "op4 = Some (Some ctx)"
    and S: "ccm_session G f False a d N adl ptl (concat (map in_bytes xs)) bs ctx"
    using ccm_multipart_session [OF env lk law ccm st [unfolded psa_aead_decrypt_setup_def] ln no ads out ups]
    unfolding dec if_False by (elim exE conjE)
  have "wolfpsa_aead_tag_length a \<le> 16" "bs \<noteq> []" using t ne by (auto simp: b ccm_crypt_at_0 [symmetric])
  note F = ccm_verify_session [OF law S this(2,1) run pt, of l tag s2]
  have "length bs = length (payload ys)" by (simp add: b)
  then show ?thesis using k b F unfolding o4 by (intro exI conjI) simp_all
qed

section \<open>Streams that run to their end\<close>

text \<open>An AES that never reports an error.\<close>

definition aes_runs :: "('a, 'p, 'n) aead_engine \<Rightarrow> bool" where
  "aes_runs E \<longleftrightarrow> (\<forall>d a. fst (ae_AesInit E d a) = WC_OK) \<and> (\<forall>k a. fst (ae_AesSetKeyDirect E k a) = WC_OK) \<and>
    (\<forall>b a. fst (ae_AesEncryptDirect E b a) = WC_OK)"

lemma aes_runsD:
  assumes "aes_runs E"
  shows "\<exists>a1. ae_AesInit E d a = (WC_OK, a1)" "\<exists>a1. ae_AesSetKeyDirect E k a = (WC_OK, a1)"
    "\<exists>c a1. ae_AesEncryptDirect E b a = (WC_OK, c, a1)" "fst (ae_AesEncryptDirect E b a) = WC_OK"
proof -
  have "fst (ae_AesInit E d a) = WC_OK" "fst (ae_AesSetKeyDirect E k a) = WC_OK"
    and e: "fst (ae_AesEncryptDirect E b a) = WC_OK"
    using assms unfolding aes_runs_def by blast+
  then show "\<exists>a1. ae_AesInit E d a = (WC_OK, a1)" "\<exists>a1. ae_AesSetKeyDirect E k a = (WC_OK, a1)"
    "\<exists>c a1. ae_AesEncryptDirect E b a = (WC_OK, c, a1)"
    by (metis eq_fst_iff surj_pair)+
  show "fst (ae_AesEncryptDirect E b a) = WC_OK" by (fact e)
qed

lemma ccm_absorb_runs: "aes_runs E \<Longrightarrow> \<exists>m a1. ccm_absorb E mac b a = Inr (m, a1)"
  using aes_runsD(3) [of E "map2 (XOR) mac b" a] by (auto simp: ccm_absorb_def)

lemma ccm_aad_loop_runs: "aes_runs E \<Longrightarrow> \<exists>m a1. ccm_aad_loop E mac xs a = Inr (m, a1)"
proof (induction E mac xs a rule: ccm_aad_loop.induct)
  case (2 E mac x xs a)
  obtain m a1 where "ccm_absorb E mac (zero_pad (take 16 (x # xs))) a = Inr (m, a1)"
    using ccm_absorb_runs [OF "2.prems"] by blast
  with "2.IH" [OF this refl "2.prems"] show ?case by simp
qed simp

lemma ccm_aad_runs:
  assumes "aes_runs E"
  shows "\<exists>m a1. ccm_aad E mac A a = Inr (m, a1)"
proof -
  obtain m a1 where "ccm_absorb E mac (zero_pad (ccm_aad_prefix (length A) @
      take (16 - length (ccm_aad_prefix (length A))) A)) a = Inr (m, a1)"
    using ccm_absorb_runs [OF assms] by blast
  then show ?thesis using ccm_aad_loop_runs [OF assms] by (simp add: ccm_aad_def Let_def)
qed

lemma ccm_init_runs:
  assumes run: "aes_runs E" and N: "7 \<le> length (ae_nonce ctx)" "length (ae_nonce ctx) \<le> 13"
    and fit: "ae_plaintext_expected ctx < 256 ^ (15 - length (ae_nonce ctx))"
  shows "\<exists>ctx1. wolfpsa_aead_ccm_init E ctx = Inr ctx1"
proof -
  obtain a0 a1 where i: "ae_AesInit E (ae_devid E) (ae_aes ctx) = (WC_OK, a0)" "ae_AesSetKeyDirect E (ae_key ctx) a0 = (WC_OK, a1)"
    using aes_runsD(1,2) [OF run] by metis
  let ?b0 = "hd (ccm_header (ae_nonce ctx) (ae_aad ctx) (ae_plaintext_expected ctx) (ae_tag_length ctx))"
  have b: "ccm_b0 (length (ae_aad ctx)) (ae_tag_length ctx) (ae_nonce ctx) (ae_plaintext_expected ctx) = (?b0, 0)"
    using ccm_b0_header [OF N] fit by simp
  obtain mac a2 where e: "ae_AesEncryptDirect E ?b0 a1 = (WC_OK, mac, a2)" using aes_runsD(3) [OF run] by blast
  obtain m a3 where aa: "ccm_aad E mac (ae_aad ctx) a2 = Inr (m, a3)" using ccm_aad_runs [OF run] by blast
  obtain ks a4 where k: "ae_AesEncryptDirect E ((zero_pad (word_of_nat (15 - length (ae_nonce ctx) - 1) # ae_nonce ctx))[15 := 1]) a3 =
      (WC_OK, ks, a4)" using aes_runsD(3) [OF run] by blast
  have n: "(length (ae_nonce ctx) < 7 \<or> 13 < length (ae_nonce ctx)) = False" using N by simp
  show ?thesis
    by (simp only: wolfpsa_aead_ccm_init_def Let_def i n b e aa k prod.case sum.case if_True if_False simp_thms) blast
qed

lemma ccm_update_runs: "aes_runs E \<Longrightarrow> \<exists>bs c1 a1. wolfpsa_aead_ccm_update E enc xs c a = Inr (bs, c1, a1)"
proof (induction xs arbitrary: c a)
  case (Cons x xs)
  note run = Cons.prems
  have "\<exists>c1 a1. ccm_next_ks E c a = Inr (c1, a1)"
    using aes_runsD(3) [OF run, of "wolfpsa_aead_ccm_ctr_inc (ccm_ctr c) (ccm_lenSz c)" a]
    by (auto simp: ccm_next_ks_def Let_def)
  then obtain c1 a1 where ks: "ccm_next_ks E c a = Inr (c1, a1)" by blast
  have "\<exists>c2 a2. ccm_mac_byte E b d a = Inr (c2, a2)" for b d a
    using ccm_absorb_runs [OF run, of "ccm_mac d" "(ccm_mblk d)[ccm_mfill d := ccm_mblk d ! ccm_mfill d XOR b]" a]
    by (auto simp: ccm_mac_byte_def Let_def)
  then obtain c2 a2 where mb: "ccm_mac_byte E (if \<not> enc then x XOR ccm_ks c1 ! ccm_ks_off c1 else x)
      (c1\<lparr>ccm_ks_off := ccm_ks_off c1 + 1\<rparr>) a1 = Inr (c2, a2)" by blast
  obtain bs c3 a3 where "wolfpsa_aead_ccm_update E enc xs c2 a2 = Inr (bs, c3, a3)"
    using Cons.IH [OF run] by blast
  with ks mb show ?case by (simp add: Let_def)
qed simp

lemma ccm_stream_update_runs:
  assumes run: "aes_runs E" and N: "7 \<le> length (ae_nonce ctx)" "length (ae_nonce ctx) \<le> 13"
    and fit: "ae_plaintext_expected ctx < 256 ^ (15 - length (ae_nonce ctx))"
  shows "\<exists>bs ctx1. ccm_stream_update E ctx xs = Inr (bs, ctx1)"
proof -
  obtain ctx1 where c: "(if \<not> ae_streaming ctx then wolfpsa_aead_ccm_init E ctx else Inr ctx) = Inr ctx1"
    using ccm_init_runs [OF assms] by (cases "ae_streaming ctx") auto
  obtain bs c1 a1 where "wolfpsa_aead_ccm_update E (ae_direction ctx1) xs (ae_ccm ctx1) (ae_aes ctx1) = Inr (bs, c1, a1)"
    using ccm_update_runs [OF run] by blast
  with c show ?thesis by (simp add: ccm_stream_update_def)
qed

text \<open>Chunks that come with room for their output, within what \<open>word32\<close> lengths can carry.\<close>

definition chunk_ok :: "inbuf \<times> outbuf \<Rightarrow> bool" where
  "chunk_ok y \<longleftrightarrow> \<not> in_null (fst y) \<and> \<not> out_null (snd y) \<and> in_length (fst y) \<le> out_size (snd y) \<and>
    in_length (fst y) \<le> UINT32_MAX"

lemma ccm_session_update_runs:
  assumes run: "aes_runs E" and S: "ccm_session G f enc a k N adl ptl A p ctx" and y: "chunk_ok (x, out)"
    and A: "length A = adl" and p: "length p + in_length x \<le> ptl" and fit: "ptl < 256 ^ (15 - length N)"
  shows "\<exists>bs n op1 s1. psa_aead_update E (Some (Some ctx)) x out (Some l) s = (PSA_SUCCESS, bs, n, op1, s1)"
proof -
  note D = ccm_sessionD [OF S]
  have "(256 :: nat) ^ (15 - length N) \<le> 256 ^ 8" using D(6) by (intro power_increasing) auto
  then have sz: "in_length x \<le> SIZE_MAX - length p" using p fit by simp
  obtain bs ctx1 where "ccm_stream_update E (ctx\<lparr>ae_body_started := True\<rparr>) (in_bytes x) = Inr (bs, ctx1)"
    using ccm_stream_update_runs [OF run, of "ctx\<lparr>ae_body_started := True\<rparr>" "in_bytes x"] D(5-7,11) fit by auto
  then have "wolfpsa_aead_stream_update E (ctx\<lparr>ae_body_started := True\<rparr>) (in_bytes x) = Inr (bs, ctx1)"
    using D ccm_excludes [OF D(2)] by (simp add: wolfpsa_aead_stream_update_def)
  moreover have "N \<noteq> []" using D(6) by auto
  ultimately show ?thesis
    using D(1-16) y A p sz by (simp add: psa_aead_update_def wolfpsa_aead_get_ctx_def wolfpsa_clear_length_def
        wolfpsa_aead_lengths_missing_def chunk_ok_def Let_def)
qed

lemma in_length_bytes: "\<not> in_null x \<Longrightarrow> in_length x = length (in_bytes x)"
  by (cases x) simp_all

lemma ccm_session_updates_run:
  assumes run: "aes_runs E" and law: "aes_direct E G f" and fit: "ptl < 256 ^ (15 - length N)" and A: "length A = adl"
    and "ccm_session G f enc a k N adl ptl A p ctx" and "list_all chunk_ok ys"
    and "length p + length (payload ys) \<le> ptl"
  shows "\<exists>bs op1 s1. aead_updates E (Some (Some ctx)) ys s = (PSA_SUCCESS, bs, op1, s1)"
  using assms(5-)
proof (induction ys arbitrary: p ctx s)
  case (Cons y ys)
  obtain x out where y: "y = (x, out)" by fastforce
  have ok: "chunk_ok (x, out)" using Cons.prems(2) y by simp
  then have o: "\<not> out_null out" and lx: "in_length x = length (in_bytes x)"
    by (simp_all add: chunk_ok_def in_length_bytes)
  have "length p + in_length x \<le> ptl" using Cons.prems(3) y lx by simp
  then obtain b1 n op1 s1 where u: "psa_aead_update E (Some (Some ctx)) x out (Some 0) s = (PSA_SUCCESS, b1, n, op1, s1)"
    using ccm_session_update_runs [OF run Cons.prems(1) ok A _ fit] by blast
  obtain ctx1 where b1: "length b1 = length (in_bytes x)" and o1: "op1 = Some (Some ctx1)"
    and S1: "ccm_session G f enc a k N adl ptl A (p @ (if enc then in_bytes x else b1)) ctx1"
    using ccm_session_update [OF law Cons.prems(1) o u] by auto
  have le: "length (p @ (if enc then in_bytes x else b1)) + length (payload ys) \<le> ptl"
    using Cons.prems(3) y b1 by (simp add: o_def)
  obtain b2 op2 s2 where "aead_updates E (Some (Some ctx1)) ys s1 = (PSA_SUCCESS, b2, op2, s2)"
    using Cons.IH [OF S1 _ le, of s1] Cons.prems(2) by auto
  with u o1 y show ?case by simp
qed simp

lemma ccm_finish_session_runs:
  assumes run: "aes_runs E" and S: "ccm_session G f True a k N adl (length p) A p ctx" and p: "p \<noteq> []"
    and o: "out_null ct \<longrightarrow> out_size ct = 0" and t: "wolfpsa_aead_tag_length a \<le> n"
  shows "\<exists>tag. psa_aead_finish E (Some (Some ctx)) ct (Some l) (Out n) (Some l2) s =
    (PSA_SUCCESS, [], Some 0, tag, Some (wolfpsa_aead_tag_length a), Some None, s)"
proof -
  note D = ccm_sessionD [OF S]
  obtain tag where "wolfpsa_aead_ccm_finish E N (wolfpsa_aead_tag_length a) (ae_ccm ctx) (ae_aes ctx) = Inr tag"
    using ccm_finish_total [of E] aes_runsD(4) [OF run] by blast
  then have "wolfpsa_aead_stream_final E ctx [] (wolfpsa_aead_tag_length a) = (PSA_SUCCESS, tag)"
    using D ccm_excludes [OF D(2)] by (simp add: wolfpsa_aead_stream_final_def)
  moreover have "N \<noteq> []" using D(6) by auto
  ultimately show ?thesis
    using D(1-16) p o t by (simp add: psa_aead_finish_def wolfpsa_aead_encrypt_final_def wolfpsa_aead_get_ctx_def
        wolfpsa_clear_length_def wolfpsa_aead_lengths_missing_def psa_aead_abort_def Let_def)
qed

section \<open>A concrete engine\<close>

text \<open>A stand-in for wolfCrypt on which the theorems are instantiated.\<close>

definition demo_block :: "byte list \<Rightarrow> byte list \<Rightarrow> byte list" where
  "demo_block k b = take 16 (map (\<lambda>x. x + 1 + hd (k @ [0])) b @ replicate 16 0)"

definition demo_aead :: "(byte list, byte list, byte list) aead_engine" where
  "demo_aead =
    \<lparr>ae_devid = 0, ae_min_tag = 4, ae_ascon_auth_e = 9, ae_aes_zero = [], ae_chacha_zero = [],
     ae_AesInit = (\<lambda>_ _. (WC_OK, [])), ae_AesSetKeyDirect = (\<lambda>k _. (WC_OK, k)),
     ae_AesEncryptDirect = (\<lambda>b k. (WC_OK, demo_block k b, k)),
     ae_AesGcmInit = (\<lambda>_ k _ _. (WC_OK, k)), ae_AesGcmUpdate = (\<lambda>_ x _ k. (WC_OK, x, k)),
     ae_AesGcmEncryptFinal = (\<lambda>t _. (WC_OK, replicate t 7)),
     ae_AesGcmDecryptFinal = (\<lambda>tag _. if tag = replicate (length tag) 7 then WC_OK else AES_GCM_AUTH_E),
     ae_ChaChaInit = (\<lambda>k _ _ _. (WC_OK, k)), ae_ChaChaUpdateAad = (\<lambda>_ k. (WC_OK, k)),
     ae_ChaChaUpdateData = (\<lambda>x k. (WC_OK, x, k)), ae_ChaChaFinal = (\<lambda>_. (WC_OK, replicate 16 7)),
     ae_ChaChaCheckTag = (\<lambda>x y. if x = y then WC_OK else MAC_CMP_FAILED_E),
     ae_AesGcmSetKey = (\<lambda>k _. (WC_OK, k)), ae_AesGcmEncrypt = (\<lambda>_ x _ t _. (WC_OK, x, replicate t 7)),
     ae_AesGcmDecrypt = (\<lambda>_ x _ tag _. if tag = replicate (length tag) 7 then (WC_OK, x) else (AES_GCM_AUTH_E, [])),
     ae_AesCcmCheckTagSize = (\<lambda>t. if t \<in> {4, 6, 8, 10, 12, 14, 16} then WC_OK else BAD_FUNC_ARG),
     ae_AesCcmSetKey = (\<lambda>k _. (WC_OK, k)), ae_AesCcmEncrypt = (\<lambda>_ x _ t _. (WC_OK, x, replicate t 7)),
     ae_AesCcmDecrypt = (\<lambda>_ x _ tag _. if tag = replicate (length tag) 7 then (WC_OK, x) else (AES_CCM_AUTH_E, [])),
     ae_ChaChaEncrypt = (\<lambda>_ _ _ x. (WC_OK, x, replicate 16 7)),
     ae_ChaChaDecrypt = (\<lambda>_ _ _ x tag. if tag = replicate 16 7 then (WC_OK, x) else (MAC_CMP_FAILED_E, [])),
     ae_XChaChaEncrypt = (\<lambda>_ x _ _ _. (WC_OK, in_bytes x @ replicate 16 7)),
     ae_XChaChaDecrypt = (\<lambda>_ x _ _ _. if drop (in_length x - 16) (in_bytes x) = replicate 16 7
       then (WC_OK, take (in_length x - 16) (in_bytes x)) else (MAC_CMP_FAILED_E, [])),
     ae_AsconInit = (WC_OK, []), ae_AsconSetKey = (\<lambda>k _. (WC_OK, k)), ae_AsconSetNonce = (\<lambda>_ k. (WC_OK, k)),
     ae_AsconSetAD = (\<lambda>_ k. (WC_OK, k)), ae_AsconEncryptUpdate = (\<lambda>_ x k. (WC_OK, in_bytes x, k)),
     ae_AsconEncryptFinal = (\<lambda>_. (WC_OK, replicate 16 7)), ae_AsconDecryptUpdate = (\<lambda>_ x k. (WC_OK, in_bytes x, k)),
     ae_AsconDecryptFinal = (\<lambda>tag _. if in_bytes tag = replicate 16 7 then WC_OK else WC_OTHER 9)\<rparr>"

lemma demo_aead_direct: "aes_direct demo_aead (=) demo_block"
  by (simp add: aes_direct_def demo_aead_def demo_block_def min_def)

lemma demo_aead_runs: "aes_runs demo_aead"
  by (simp add: aes_runs_def demo_aead_def)

definition demo_aead_attr :: psa_key_attributes_t where
  "demo_aead_attr = psa_key_attributes_init
    \<lparr>type := PSA_KEY_TYPE_AES, bits := 128,
     policy := \<lparr>usage = PSA_KEY_USAGE_ENCRYPT OR PSA_KEY_USAGE_DECRYPT, alg = PSA_ALG_CCM, alg2 = PSA_ALG_NONE\<rparr>\<rparr>"

abbreviation demo_aead_ks :: "unit posix_state key_store" where
  "demo_aead_ks \<equiv> demo_with demo_aead_attr demo_key"

lemma demo_aead_setup:
  assumes "want = PSA_KEY_USAGE_ENCRYPT \<or> want = PSA_KEY_USAGE_DECRYPT"
  shows "wolfpsa_aead_setup demo_env demo_aead (Some None) PSA_KEY_ID_VENDOR_MIN PSA_ALG_CCM want demo_aead_ks =
    (PSA_SUCCESS, Some (Some (aead_new_ctx demo_aead (want = PSA_KEY_USAGE_ENCRYPT) PSA_ALG_CCM demo_aead_attr demo_key)), demo_aead_ks)"
  using assms
  by (auto simp: wolfpsa_aead_setup_def aead_check_alg_def wolfpsa_aead_check_key_def aead_check_tag_def
      wolfpsa_aead_key_permits_alg_def wolfpsa_aead_alg_permitted_def wolfpsa_aead_tag_length_def
      psa_get_key_usage_flags_def demo_aead_attr_def demo_aead_def aead_equal_iff psa_defs)

text \<open>The context of the example once its associated data is in.\<close>

definition demo_nonce :: "byte list" where
  "demo_nonce = [1, 2, 3, 4, 5, 6, 7, 8, 9, 10, 11, 12, 13]"

definition demo_ccm :: "bool \<Rightarrow> byte list \<Rightarrow> bool \<Rightarrow> (byte list, byte list) wolfpsa_aead_ctx" where
  "demo_ccm enc A started = (aead_new_ctx demo_aead enc PSA_ALG_CCM demo_aead_attr demo_key)
    \<lparr>ae_ad_expected := 2, ae_plaintext_expected := 3, ae_lengths_set := True, ae_nonce := demo_nonce,
     ae_aad := A, ae_ad_started := started\<rparr>"

abbreviation demo_ctx0 :: "bool \<Rightarrow> (byte list, byte list) wolfpsa_aead_ctx" where
  "demo_ctx0 enc \<equiv> aead_new_ctx demo_aead enc PSA_ALG_CCM demo_aead_attr demo_key"

lemma demo_ccm_calls:
  "psa_aead_set_lengths (Some (Some (demo_ctx0 enc))) 2 3 = (PSA_SUCCESS, Some (Some ((demo_ctx0 enc)
     \<lparr>ae_ad_expected := 2, ae_plaintext_expected := 3, ae_lengths_set := True\<rparr>)))"
  "psa_aead_set_nonce (Some (Some ((demo_ctx0 enc)\<lparr>ae_ad_expected := 2, ae_plaintext_expected := 3, ae_lengths_set := True\<rparr>)))
     (In demo_nonce) = (PSA_SUCCESS, Some (Some (demo_ccm enc [] False)))"
  "aead_update_ads (Some (Some (demo_ccm enc [] False))) [In [1], In [2]] demo_aead_ks =
     (PSA_SUCCESS, Some (Some (demo_ccm enc [1, 2] True)), demo_aead_ks)"
  by (simp_all add: psa_aead_set_lengths_def psa_aead_set_nonce_def psa_aead_update_ad_def wolfpsa_aead_append_def
      wolfpsa_aead_get_ctx_def wolfpsa_aead_check_lengths_def wolfpsa_aead_limits_def aead_check_nonce_def
      wolfpsa_aead_lengths_missing_def aead_new_ctx_def demo_ccm_def demo_nonce_def aead_equal_iff Let_def)

lemma demo_ccm_session:
  "ccm_session (=) demo_block enc PSA_ALG_CCM demo_key demo_nonce 2 3 [1, 2] [] (demo_ccm enc [1, 2] True)"
  by (simp add: ccm_session_def demo_ccm_def aead_new_ctx_def demo_nonce_def aead_equal_iff)

definition demo_chunks :: "(inbuf \<times> outbuf) list" where
  "demo_chunks = [(In [5], Out 4), (In [6, 7], Out 4)]"

lemma demo_chunks_simps:
  "payload demo_chunks = [5, 6, 7]" "list_all (\<lambda>(x, out). \<not> out_null out) demo_chunks" "list_all chunk_ok demo_chunks"
  "payload demo_chunks \<noteq> []"
  by (simp_all add: demo_chunks_def chunk_ok_def)

lemma demo_ccm_alg: "PSA_ALG_AEAD_EQUAL PSA_ALG_CCM PSA_ALG_CCM" "wolfpsa_aead_tag_length PSA_ALG_CCM = 16"
  by (simp_all add: aead_equal_iff wolfpsa_aead_tag_length_def psa_defs)

lemma demo_ccm_updates:
  "\<exists>bs op1 s1. aead_updates demo_aead (Some (Some (demo_ccm enc [1, 2] True))) demo_chunks s = (PSA_SUCCESS, bs, op1, s1)"
  by (rule ccm_session_updates_run [OF demo_aead_runs demo_aead_direct _ _ demo_ccm_session demo_chunks_simps(3)])
    (simp_all only: demo_chunks_simps, simp_all add: demo_nonce_def)

lemma demo_ccm_finish:
  assumes u: "aead_updates demo_aead (Some (Some (demo_ccm True [1, 2] True))) demo_chunks s = (PSA_SUCCESS, bs, op1, s1)"
  shows "\<exists>tag. psa_aead_finish demo_aead op1 (NullOut 0) (Some 0) (Out 16) (Some 0) s1 =
    (PSA_SUCCESS, [], Some 0, tag, Some 16, Some None, s1)"
proof -
  obtain ctx where o1: "op1 = Some (Some ctx)"
    and S: "ccm_session (=) demo_block True PSA_ALG_CCM demo_key demo_nonce 2 3 [1, 2] ([] @ [5, 6, 7]) ctx"
    using ccm_session_updates [OF demo_aead_direct demo_ccm_session demo_chunks_simps(2) u]
    unfolding demo_chunks_simps(1) if_True by blast
  from ccm_finish_session_runs [OF demo_aead_runs, of "(=)" demo_block PSA_ALG_CCM demo_key demo_nonce 2 "[5, 6, 7]" "[1, 2]" ctx
      "NullOut 0" 16 0 0 s1] S show ?thesis
    by (simp add: demo_ccm_alg o1 numeral_3_eq_3)
qed

lemma demo_encrypt_setup:
  "psa_aead_encrypt_setup demo_env demo_aead (Some None) PSA_KEY_ID_VENDOR_MIN PSA_ALG_CCM demo_aead_ks =
    (PSA_SUCCESS, Some (Some (demo_ctx0 True)), demo_aead_ks)"
  using demo_aead_setup [of PSA_KEY_USAGE_ENCRYPT] by (simp add: psa_aead_encrypt_setup_def)

lemma demo_decrypt_setup:
  "psa_aead_decrypt_setup demo_env demo_aead (Some None) PSA_KEY_ID_VENDOR_MIN PSA_ALG_CCM demo_aead_ks =
    (PSA_SUCCESS, Some (Some (demo_ctx0 False)), demo_aead_ks)"
  using demo_aead_setup [of PSA_KEY_USAGE_DECRYPT] by (simp add: psa_aead_decrypt_setup_def)

theorem ccm_multipart_encrypt_witness:
  "\<exists>bs op4 s2 tag. aead_updates demo_aead (Some (Some (demo_ccm True [1, 2] True))) demo_chunks demo_aead_ks =
      (PSA_SUCCESS, bs, op4, s2) \<and>
    psa_aead_finish demo_aead op4 (NullOut 0) (Some 0) (Out 16) (Some 0) s2 = (PSA_SUCCESS, [], Some 0, tag, Some 16, Some None, s2) \<and>
    bs = ccm_crypt (demo_block demo_key) demo_nonce [5, 6, 7] \<and>
    tag = ccm_tag (demo_block demo_key) demo_nonce [1, 2] [5, 6, 7] 16"
proof -
  obtain bs op4 s2 where up: "aead_updates demo_aead (Some (Some (demo_ccm True [1, 2] True))) demo_chunks demo_aead_ks =
      (PSA_SUCCESS, bs, op4, s2)" using demo_ccm_updates by blast
  obtain tag where fi: "psa_aead_finish demo_aead op4 (NullOut 0) (Some 0) (Out 16) (Some 0) s2 =
      (PSA_SUCCESS, [], Some 0, tag, Some 16, Some None, s2)" using demo_ccm_finish [OF up] by blast
  from ccm_multipart_encrypt [OF demo_env_simps(1) demo_with_simps(2) demo_aead_direct demo_ccm_alg(1)
      demo_encrypt_setup demo_ccm_calls demo_chunks_simps(2,4) up fi] up fi
  show ?thesis unfolding demo_chunks_simps(1) demo_ccm_alg(2) by auto
qed

theorem ccm_multipart_verify_exact_witness:
  "\<exists>bs op4 s2. aead_updates demo_aead (Some (Some (demo_ccm False [1, 2] True))) demo_chunks demo_aead_ks =
      (PSA_SUCCESS, bs, op4, s2) \<and>
    psa_aead_verify demo_aead op4 (NullOut 0) (Some 0) (In (ccm_tag (demo_block demo_key) demo_nonce [1, 2] bs 16)) s2 =
      (PSA_SUCCESS, [], Some 0, Some None, s2) \<and>
    psa_aead_verify demo_aead op4 (NullOut 0) (Some 0) (In []) s2 = (PSA_ERROR_INVALID_SIGNATURE, [], Some 0, Some None, s2)"
proof -
  obtain bs op4 s2 where up: "aead_updates demo_aead (Some (Some (demo_ccm False [1, 2] True))) demo_chunks demo_aead_ks =
      (PSA_SUCCESS, bs, op4, s2)" using demo_ccm_updates by blast
  have nil: "ccm_tag (demo_block demo_key) demo_nonce [1, 2] bs 16 \<noteq> []"
  proof -
    have "length (demo_block k b) = 16" for k b using aes_directD(1) [OF demo_aead_direct] .
    moreover have "length (cbc_mac (demo_block demo_key) y x) = 16" if "length y = 16" for x y
      using length_cbc_mac [OF demo_aead_direct that] .
    ultimately have "length (ccm_tag (demo_block demo_key) demo_nonce [1, 2] bs 16) = 16" by (simp add: ccm_tag_def)
    then show ?thesis by auto
  qed
  note V = ccm_multipart_verify_exact [OF demo_env_simps(1) demo_with_simps(2) demo_aead_direct demo_ccm_alg(1)
      demo_decrypt_setup demo_ccm_calls demo_chunks_simps(2,4) up aes_runsD(4) [OF demo_aead_runs], of "NullOut 0",
      unfolded demo_chunks_simps(1) demo_ccm_alg(2)]
  have p: "out_null (NullOut 0) \<longrightarrow> out_size (NullOut 0) = 0" by simp
  from V [OF p, of 0 "ccm_tag (demo_block demo_key) demo_nonce [1, 2] bs 16"] V [OF p, of 0 "[]"] up nil
  show ?thesis by auto
qed

text \<open>
  C13: What the streaming CCM encrypts it decrypts. Take a finished multi-part CCM encryption, and
  a decryption set up, later, with the same key and algorithm, the same lengths and nonce, and
  the same associated data in any pieces. As long as AES reports no error, feeding the
  ciphertext in any pieces (each with room for its output) succeeds, gives the plaintext back,
  and the verification of the tag succeeds.
\<close>

theorem ccm_multipart_roundtrip:
  assumes env: "env_ops env = posix_ops os" and lk: "lock_ok s" "lock_ok r" and law: "aes_direct E G f"
    and run: "aes_runs E" and ccm: "PSA_ALG_AEAD_EQUAL a PSA_ALG_CCM"
    and st: "psa_aead_encrypt_setup env E op key a s = (PSA_SUCCESS, op0, s0)"
    and ln: "psa_aead_set_lengths op0 adl ptl = (PSA_SUCCESS, op1)"
    and no: "psa_aead_set_nonce op1 (In N) = (PSA_SUCCESS, op2)"
    and ads: "aead_update_ads op2 xs s0 = (PSA_SUCCESS, op3, s1)"
    and out: "list_all (\<lambda>(x, out). \<not> out_null out) ys" and ne: "payload ys \<noteq> []"
    and ups: "aead_updates E op3 ys s1 = (PSA_SUCCESS, bs, op4, s2)"
    and fi: "psa_aead_finish E op4 ct (Some l) tg (Some l2) s2 = (PSA_SUCCESS, c, cln, tag, tln, op5, s3)"
    and key: "key_at posix_recs r key = key_at posix_recs s key"
    and dst: "psa_aead_decrypt_setup env E dop key a r = (PSA_SUCCESS, dop0, r0)"
    and dln: "psa_aead_set_lengths dop0 adl ptl = (PSA_SUCCESS, dop1)"
    and dno: "psa_aead_set_nonce dop1 (In N) = (PSA_SUCCESS, dop2)"
    and dads: "aead_update_ads dop2 zs r0 = (PSA_SUCCESS, dop3, r1)"
    and same: "concat (map in_bytes zs) = concat (map in_bytes xs)"
    and ws: "list_all chunk_ok ws" "payload ws = bs"
  shows "\<exists>dop4 r2. aead_updates E dop3 ws r1 = (PSA_SUCCESS, payload ys, dop4, r2) \<and>
    psa_aead_verify E dop4 (NullOut 0) (Some l) (In tag) r2 = (PSA_SUCCESS, [], Some 0, Some None, r2)"
proof -
  let ?A = "concat (map in_bytes xs)" and ?t = "wolfpsa_aead_tag_length a"
  note Enc = ccm_multipart_session [OF env lk(1) law ccm st [unfolded psa_aead_encrypt_setup_def] ln no ads out ups,
      unfolded simp_thms if_True]
  obtain attrs d ctx where k: "key_at posix_recs s key = Some (attrs, d)" and t: "?t \<in> {4, 6, 8, 10, 12, 14, 16}"
    and b: "bs = ccm_crypt (f d) N (payload ys)" and o4: "op4 = Some (Some ctx)"
    and S: "ccm_session G f True a d N adl ptl ?A (payload ys) ctx"
    using Enc by (elim exE conjE)
  have t16: "?t \<le> 16" using t by auto
  note F = ccm_finish_session [OF law S ne t16 fi [unfolded o4]]
  have o0: "list_all (\<lambda>(x :: inbuf, out). \<not> out_null out) []" by simp
  have u0: "aead_updates E dop3 [] r1 = (PSA_SUCCESS, [], dop3, r1)" by simp
  have dec: "(PSA_KEY_USAGE_DECRYPT = PSA_KEY_USAGE_ENCRYPT) = False" by simp
  obtain attrs' d' dctx where k': "key_at posix_recs r key = Some (attrs', d')" and do3: "dop3 = Some (Some dctx)"
    and DS: "ccm_session G f False a d' N adl ptl (concat (map in_bytes zs)) [] dctx"
    using ccm_multipart_session [OF env lk(2) law ccm dst [unfolded psa_aead_decrypt_setup_def] dln dno dads o0 u0]
    unfolding dec if_False by (elim exE conjE)
  have d': "d' = d" using k k' key by simp
  note DS = DS [unfolded d' same]
  have lp: "length (payload ws) = length (payload ys)" using ws(2) b by simp
  have le: "length [] + length (payload ws) \<le> ptl" using lp F(1) by simp
  obtain bs2 dop4 r2 where du: "aead_updates E (Some (Some dctx)) ws r1 = (PSA_SUCCESS, bs2, dop4, r2)"
    using ccm_session_updates_run [OF run law ccm_sessionD(18) [OF S ne] F(2) DS ws(1) le] by blast
  have nn: "list_all (\<lambda>(x, out). \<not> out_null out) ws"
    using ws(1) by (auto simp: list_all_iff chunk_ok_def)
  obtain dctx4 where b2: "bs2 = ccm_crypt_at (f d) N 0 (payload ws)" and do4: "dop4 = Some (Some dctx4)"
    and DS4: "ccm_session G f False a d N adl ptl ?A bs2 dctx4"
    using ccm_session_updates [OF law DS nn du] by auto
  have p2: "bs2 = payload ys" unfolding b2 ws(2) b ccm_crypt_at_0 [symmetric] by simp
  have "psa_aead_verify E (Some (Some dctx4)) (NullOut 0) (Some l) (In tag) r2 =
      (if length (payload ys) \<noteq> ptl then PSA_ERROR_INVALID_ARGUMENT
       else if tag = ccm_tag (f d) N ?A (payload ys) ?t then PSA_SUCCESS
       else PSA_ERROR_INVALID_SIGNATURE, [], Some 0, Some None, r2)"
    by (rule ccm_verify_session [OF law DS4 [unfolded p2] ne t16]) (use aes_runsD(4) [OF run] in simp_all)
  then have "psa_aead_verify E dop4 (NullOut 0) (Some l) (In tag) r2 = (PSA_SUCCESS, [], Some 0, Some None, r2)"
    using F(1,5) do4 by simp
  with du do3 p2 show ?thesis by blast
qed

theorem ccm_multipart_roundtrip_witness:
  "\<exists>bs op4 s2 tag dop4 r2.
    aead_updates demo_aead (Some (Some (demo_ccm True [1, 2] True))) demo_chunks demo_aead_ks = (PSA_SUCCESS, bs, op4, s2) \<and>
    psa_aead_finish demo_aead op4 (NullOut 0) (Some 0) (Out 16) (Some 0) s2 = (PSA_SUCCESS, [], Some 0, tag, Some 16, Some None, s2) \<and>
    aead_updates demo_aead (Some (Some (demo_ccm False [1, 2] True))) [(In bs, Out 3)] demo_aead_ks = (PSA_SUCCESS, [5, 6, 7], dop4, r2) \<and>
    psa_aead_verify demo_aead dop4 (NullOut 0) (Some 0) (In tag) r2 = (PSA_SUCCESS, [], Some 0, Some None, r2)"
proof -
  obtain bs op4 s2 where up: "aead_updates demo_aead (Some (Some (demo_ccm True [1, 2] True))) demo_chunks demo_aead_ks =
      (PSA_SUCCESS, bs, op4, s2)" using demo_ccm_updates by blast
  obtain tag where fi: "psa_aead_finish demo_aead op4 (NullOut 0) (Some 0) (Out 16) (Some 0) s2 =
      (PSA_SUCCESS, [], Some 0, tag, Some 16, Some None, s2)" using demo_ccm_finish [OF up] by blast
  have "length bs = 3"
    using ccm_session_updates [OF demo_aead_direct demo_ccm_session demo_chunks_simps(2) up]
    unfolding demo_chunks_simps(1) by auto
  then have ws: "list_all chunk_ok [(In bs, Out 3)]" "payload [(In bs, Out 3)] = bs" by (simp_all add: chunk_ok_def)
  from ccm_multipart_roundtrip [OF demo_env_simps(1) demo_with_simps(2) demo_with_simps(2) demo_aead_direct demo_aead_runs demo_ccm_alg(1)
      demo_encrypt_setup demo_ccm_calls demo_chunks_simps(2,4) up fi refl demo_decrypt_setup demo_ccm_calls refl ws] up fi
  show ?thesis unfolding demo_chunks_simps(1) by blast
qed

end
