(* ===== verification/Aead_Machine.thy ===== *)
theory Aead_Machine
  imports Aead_Stream
begin

text \<open>
  The AEAD operation of \<open>src/psa_aead.c\<close> as a state machine: what any sequence of calls, in
  whatever order and with whatever failures, keeps.
\<close>

unbundle bit_operations_syntax

section \<open>The operation as a state machine\<close>

datatype aead_call =
    Ae_encrypt_setup psa_key_id_t psa_algorithm_t
  | Ae_decrypt_setup psa_key_id_t psa_algorithm_t
  | Ae_set_lengths nat nat
  | Ae_set_nonce inbuf
  | Ae_generate_nonce outbuf "nat option"
  | Ae_update_ad inbuf
  | Ae_update inbuf outbuf "nat option"
  | Ae_finish outbuf "nat option" outbuf "nat option"
  | Ae_verify outbuf "nat option" inbuf
  | Ae_abort

fun aead_step ::
    "('st, 'h) psa_env \<Rightarrow> ('a, 'p, 'n) aead_engine \<Rightarrow> aead_call \<Rightarrow> ('a, 'p) psa_aead_operation_t \<Rightarrow> 'st key_store \<Rightarrow>
     psa_status \<times> ('a, 'p) psa_aead_operation_t option \<times> 'st key_store" where
  "aead_step env E (Ae_encrypt_setup key a) op s = psa_aead_encrypt_setup env E (Some op) key a s"
| "aead_step env E (Ae_decrypt_setup key a) op s = psa_aead_decrypt_setup env E (Some op) key a s"
| "aead_step env E (Ae_set_lengths adl ptl) op s =
    (case psa_aead_set_lengths (Some op) adl ptl of (status, op1) \<Rightarrow> (status, op1, s))"
| "aead_step env E (Ae_set_nonce n) op s =
    (case psa_aead_set_nonce (Some op) n of (status, op1) \<Rightarrow> (status, op1, s))"
| "aead_step env E (Ae_generate_nonce out len) op s =
    (case psa_aead_generate_nonce env (Some op) out len s of (status, r, n, op1, s1) \<Rightarrow> (status, op1, s1))"
| "aead_step env E (Ae_update_ad x) op s = psa_aead_update_ad (Some op) x s"
| "aead_step env E (Ae_update x out len) op s =
    (case psa_aead_update E (Some op) x out len s of (status, bs, n, op1, s1) \<Rightarrow> (status, op1, s1))"
| "aead_step env E (Ae_finish ct clen tag tlen) op s =
    (case psa_aead_finish E (Some op) ct clen tag tlen s of (status, c, n, t, m, op1, s1) \<Rightarrow> (status, op1, s1))"
| "aead_step env E (Ae_verify pt plen tag) op s =
    (case psa_aead_verify E (Some op) pt plen tag s of (status, p, n, op1, s1) \<Rightarrow> (status, op1, s1))"
| "aead_step env E Ae_abort op s = (case psa_aead_abort (Some op) of (status, op1) \<Rightarrow> (status, op1, s))"

text \<open>What an operation can become from \<open>PSA_AEAD_OPERATION_INIT\<close>.\<close>

inductive aead_reachable ::
    "('st, 'h) psa_env \<Rightarrow> ('a, 'p, 'n) aead_engine \<Rightarrow> ('a, 'p) psa_aead_operation_t \<Rightarrow> bool"
  for env E where
  aead_init: "aead_reachable env E None"
| aead_next: "aead_reachable env E op \<Longrightarrow> aead_step env E call op s = (status, Some op', s') \<Longrightarrow>
    aead_reachable env E op'"

text \<open>
  The invariant of an active operation: algorithm, tag length, nonce and lengths are ones the
  algorithm allows; nothing is fed before the nonce (and, for CCM, the lengths) is known;
  declared lengths are never exceeded, and the associated data is complete once the payload
  has started; buffering and streaming are not mixed.
\<close>

definition aead_inv :: "('a, 'p, 'n) aead_engine \<Rightarrow> ('a, 'p) wolfpsa_aead_ctx \<Rightarrow> bool" where
  "aead_inv E ctx \<longleftrightarrow>
    aead_check_alg (ae_alg ctx) = PSA_SUCCESS \<and> ae_tag_length ctx = wolfpsa_aead_tag_length (ae_alg ctx) \<and>
    aead_check_tag E (ae_alg ctx) (ae_tag_length ctx) = PSA_SUCCESS \<and>
    (ae_nonce ctx \<noteq> [] \<longrightarrow> aead_check_nonce (ae_key_type ctx) (ae_alg ctx) (length (ae_nonce ctx)) = PSA_SUCCESS) \<and>
    (ae_ad_started ctx \<or> ae_body_started ctx \<longrightarrow> ae_nonce ctx \<noteq> [] \<and> \<not> wolfpsa_aead_lengths_missing ctx) \<and>
    (ae_aad ctx \<noteq> [] \<longrightarrow> ae_ad_started ctx) \<and> (0 < ae_input_length ctx \<longrightarrow> ae_body_started ctx) \<and>
    (ae_lengths_set ctx \<longrightarrow> length (ae_aad ctx) \<le> ae_ad_expected ctx \<and>
       ae_input_length ctx \<le> ae_plaintext_expected ctx \<and>
       (ae_body_started ctx \<longrightarrow> length (ae_aad ctx) = ae_ad_expected ctx) \<and>
       wolfpsa_aead_check_lengths (ae_alg ctx) (length (ae_nonce ctx)) (ae_ad_expected ctx)
         (ae_plaintext_expected ctx) = PSA_SUCCESS) \<and>
    length (ae_aad ctx) \<le> UINT32_MAX \<and>
    (if ae_streaming ctx then ae_body_started ctx \<and> ae_input ctx = [] else ae_input_length ctx = length (ae_input ctx))"

text \<open>What a call that leaves the operation active does not touch.\<close>

definition aead_keeps :: "('a, 'p) wolfpsa_aead_ctx \<Rightarrow> ('a, 'p) wolfpsa_aead_ctx \<Rightarrow> bool" where
  "aead_keeps ctx ctx1 \<longleftrightarrow>
    ae_alg ctx1 = ae_alg ctx \<and> ae_key_type ctx1 = ae_key_type ctx \<and> ae_direction ctx1 = ae_direction ctx \<and>
    ae_key ctx1 = ae_key ctx \<and> ae_tag_length ctx1 = ae_tag_length ctx \<and>
    (ae_nonce ctx \<noteq> [] \<longrightarrow> ae_nonce ctx1 = ae_nonce ctx) \<and>
    (ae_lengths_set ctx \<longrightarrow> ae_lengths_set ctx1 \<and> ae_ad_expected ctx1 = ae_ad_expected ctx \<and>
       ae_plaintext_expected ctx1 = ae_plaintext_expected ctx) \<and>
    (\<exists>x. ae_aad ctx1 = ae_aad ctx @ x \<and> (ae_body_started ctx \<longrightarrow> x = [])) \<and>
    (ae_body_started ctx \<longrightarrow> ae_body_started ctx1) \<and> ae_input_length ctx \<le> ae_input_length ctx1"

lemma aead_keeps_refl [simp]: "aead_keeps ctx ctx"
  by (simp add: aead_keeps_def)

text \<open>The outcome of a call on an operation: ended, or still active with the invariant.\<close>

definition aead_moves ::
    "('a, 'p, 'n) aead_engine \<Rightarrow> ('a, 'p) psa_aead_operation_t \<Rightarrow> ('a, 'p) psa_aead_operation_t option \<Rightarrow> bool" where
  "aead_moves E op op' \<longleftrightarrow> op' = Some None \<or>
    (\<exists>ctx ctx1. op = Some ctx \<and> op' = Some (Some ctx1) \<and> aead_keeps ctx ctx1 \<and> (aead_inv E ctx \<longrightarrow> aead_inv E ctx1))"

lemma aead_moves_simps [simp]:
  "aead_moves E op (Some None)" "aead_moves E op (Some op)" "aead_moves E op (snd (psa_aead_abort (Some op)))"
  "aead_moves E (Some ctx) (Some (Some ctx1)) \<longleftrightarrow> aead_keeps ctx ctx1 \<and> (aead_inv E ctx \<longrightarrow> aead_inv E ctx1)"
  by (cases op; simp add: aead_moves_def psa_aead_abort_def)+

section \<open>The calls\<close>

lemma aead_setup_moves:
  assumes "wolfpsa_aead_setup env E (Some op) key a want s = (status, op', s')"
  shows "op' = Some op \<or> op = None \<and> status = PSA_SUCCESS \<and> (\<exists>ctx. op' = Some (Some ctx) \<and> aead_inv E ctx)"
proof (cases "status = PSA_SUCCESS")
  case True
  then have p: "wolfpsa_aead_setup env E (Some op) key a want s = (PSA_SUCCESS, op', s')" using assms by simp
  obtain attrs d where "op = None" "op' = Some (Some (aead_new_ctx E (want = PSA_KEY_USAGE_ENCRYPT) a attrs d))"
    and c: "aead_check_alg a = PSA_SUCCESS" "aead_check_tag E a (wolfpsa_aead_tag_length a) = PSA_SUCCESS"
    using aead_setup_parts [OF p] by (elim conjE exE) simp
  moreover have "aead_inv E (aead_new_ctx E b a attrs d)" for b
    using c by (simp add: aead_inv_def aead_new_ctx_def)
  ultimately show ?thesis using True by blast
next
  case False
  then show ?thesis
    using assms by (auto simp: wolfpsa_aead_setup_def Let_def split: if_split_asm prod.splits sum.splits)
qed

lemma aead_set_lengths_moves:
  "psa_aead_set_lengths (Some op) adl ptl = (status, op') \<Longrightarrow> aead_moves E op op'"
  by (cases op) (auto simp: psa_aead_set_lengths_def wolfpsa_aead_get_ctx_def aead_keeps_def aead_inv_def
      wolfpsa_aead_lengths_missing_def Let_def split: if_split_asm)

lemma aead_set_nonce_moves:
  "psa_aead_set_nonce (Some op) n = (status, op') \<Longrightarrow> aead_moves E op op'"
  by (cases op; cases n) (auto simp: psa_aead_set_nonce_def wolfpsa_aead_get_ctx_def aead_keeps_def aead_inv_def
      wolfpsa_aead_lengths_missing_def split: if_split_asm)

lemma aead_generate_nonce_moves:
  assumes "psa_aead_generate_nonce env (Some op) out len s = (status, r, n, op', s')"
  shows "aead_moves E op op'"
proof (cases "op' = Some op")
  case False
  then obtain x st where "psa_aead_set_nonce (Some op) (In x) = (st, op')"
    using assms by (auto simp: psa_aead_generate_nonce_def Let_def split: option.splits if_split_asm prod.splits)
  then show ?thesis by (rule aead_set_nonce_moves)
qed simp

lemma aead_append_ok:
  assumes "wolfpsa_aead_append buf len x s = (PSA_SUCCESS, buf1, len1, s1)"
  shows "buf1 = buf @ in_bytes x" "len1 = len + in_length x" "in_length x = length (in_bytes x)"
  using assms by (cases x; auto simp: wolfpsa_aead_append_def Let_def split: if_split_asm prod.splits)+

lemma aead_moves_ad:
  assumes "\<not> ae_body_started ctx" "ae_nonce ctx \<noteq> []" "\<not> wolfpsa_aead_lengths_missing ctx"
    and "ae_lengths_set ctx \<Longrightarrow> length (ae_aad ctx @ b) \<le> ae_ad_expected ctx" "b \<noteq> [] \<Longrightarrow> length (ae_aad ctx @ b) \<le> UINT32_MAX"
  shows "aead_moves E (Some ctx) (Some (Some (ctx\<lparr>ae_aad := ae_aad ctx @ b, ae_ad_started := True\<rparr>)))"
proof -
  let ?c = "ctx\<lparr>ae_aad := ae_aad ctx @ b, ae_ad_started := True\<rparr>"
  have "aead_keeps ctx ?c" using assms(1) by (simp add: aead_keeps_def)
  moreover have "aead_inv E ?c" if "aead_inv E ctx"
    using that assms unfolding aead_inv_def wolfpsa_aead_lengths_missing_def
    by (cases "b = []") (auto split: if_split_asm)
  ultimately show ?thesis by simp
qed

lemma aead_update_ad_moves:
  assumes u: "psa_aead_update_ad (Some op) x s = (status, op', s')" and inv: "\<And>ctx. op = Some ctx \<Longrightarrow> aead_inv E ctx"
  shows "aead_moves E op op'"
proof (cases op)
  case (Some ctx)
  show ?thesis
  proof (cases "op' = Some op \<or> op' = Some None")
    case True
    then show ?thesis by auto
  next
    case False
    have g: "\<not> ae_body_started ctx" "ae_nonce ctx \<noteq> []" "\<not> wolfpsa_aead_lengths_missing ctx"
      using u False unfolding Some
      by (auto simp: psa_aead_update_ad_def wolfpsa_aead_get_ctx_def psa_aead_abort_def Let_def split: if_split_asm)
    show ?thesis
    proof (cases "in_length x = 0")
      case True
      then have o: "op' = Some (Some (ctx\<lparr>ae_aad := ae_aad ctx @ [], ae_ad_started := True\<rparr>))"
        using u g unfolding Some by (simp add: psa_aead_update_ad_def wolfpsa_aead_get_ctx_def)
      show ?thesis unfolding Some o
        by (rule aead_moves_ad [OF g]) (use inv [OF Some] in \<open>simp_all add: aead_inv_def\<close>)
    next
      case ne: False
      obtain st b l s1 where ap: "wolfpsa_aead_append (ae_aad ctx) (length (ae_aad ctx)) x s = (st, b, l, s1)"
        by (metis prod_cases4)
      have st: "st = PSA_SUCCESS"
        and o: "op' = Some (Some (ctx\<lparr>ae_aad := b, ae_ad_started := True\<rparr>))"
        and le: "ae_lengths_set ctx \<Longrightarrow> length (ae_aad ctx) + in_length x \<le> ae_ad_expected ctx"
          "length (ae_aad ctx) + in_length x \<le> UINT32_MAX"
        using u g ne False ap unfolding Some
        by (auto simp: psa_aead_update_ad_def wolfpsa_aead_get_ctx_def psa_aead_abort_def Let_def split: if_split_asm)
      note A = aead_append_ok [OF ap [unfolded st]]
      show ?thesis unfolding Some o A(1)
        by (rule aead_moves_ad [OF g]) (use le A(3) in simp_all)
    qed
  qed
qed (use u in \<open>auto simp: psa_aead_update_ad_def wolfpsa_aead_get_ctx_def\<close>)

text \<open>Streaming only touches wolfCrypt's part of the context.\<close>

lemma ccm_init_frame:
  assumes "wolfpsa_aead_ccm_init E ctx = Inr ctx1"
  shows "\<exists>a c. ctx1 = ctx\<lparr>ae_aes := a, ae_ccm := c\<rparr>"
proof -
  obtain r0 a0 where i: "(case ae_AesInit E (ae_devid E) (ae_aes ctx) of
      (ret, aes) \<Rightarrow> if ret = WC_OK then ae_AesSetKeyDirect E (ae_key ctx) aes else (ret, aes)) = (r0, a0)"
    by fastforce
  obtain blk n where b: "ccm_b0 (length (ae_aad ctx)) (ae_tag_length ctx) (ae_nonce ctx) (ae_plaintext_expected ctx) = (blk, n)"
    by fastforce
  obtain r1 mac a1 where e: "ae_AesEncryptDirect E blk a0 = (r1, mac, a1)" by (metis prod_cases3)
  have "\<exists>y. ccm_aad E mac (ae_aad ctx) a1 = Inr y"
    using assms by (cases "ccm_aad E mac (ae_aad ctx) a1")
      (simp_all add: wolfpsa_aead_ccm_init_def Let_def i b e split: if_split_asm)
  then obtain mac2 a2 where aa: "ccm_aad E mac (ae_aad ctx) a1 = Inr (mac2, a2)" by fastforce
  obtain r3 ks a3 where k: "ae_AesEncryptDirect E ((zero_pad (word_of_nat (15 - length (ae_nonce ctx) - 1) # ae_nonce ctx))[15 := 1]) a2 =
      (r3, ks, a3)" by (metis prod_cases3)
  show ?thesis
    using assms unfolding wolfpsa_aead_ccm_init_def Let_def i prod.case b e aa sum.case k
    by (simp split: if_split_asm) blast
qed

lemma stream_update_frame:
  assumes "wolfpsa_aead_stream_update E ctx xs = Inr (out, ctx1)"
  shows "\<exists>a g p c. ctx1 = ctx\<lparr>ae_aes := a, ae_gcm_inited := g, ae_chacha := p, ae_ccm := c\<rparr>"
proof -
  have "\<exists>a g. ctx1 = ctx\<lparr>ae_aes := a, ae_gcm_inited := g\<rparr>" if "gcm_stream_update E ctx xs = Inr (out, ctx1)"
    using that by (auto simp: gcm_stream_update_def Let_def split: prod.splits if_split_asm)
  moreover have "\<exists>p. ctx1 = ctx\<lparr>ae_chacha := p\<rparr>" if "chacha_stream_update E ctx xs = Inr (out, ctx1)"
    using that by (auto simp: chacha_stream_update_def split: prod.splits if_split_asm)
  moreover have "\<exists>a c. ctx1 = ctx\<lparr>ae_aes := a, ae_ccm := c\<rparr>" if c: "ccm_stream_update E ctx xs = Inr (out, ctx1)"
  proof -
    obtain ctx0 c2 a2 where "(if \<not> ae_streaming ctx then wolfpsa_aead_ccm_init E ctx else Inr ctx) = Inr ctx0"
      and c1: "ctx1 = ctx0\<lparr>ae_ccm := c2, ae_aes := a2\<rparr>"
      using c by (auto simp: ccm_stream_update_def split: sum.splits prod.splits)
    then have "ctx0 = ctx \<or> (\<exists>a c. ctx0 = ctx\<lparr>ae_aes := a, ae_ccm := c\<rparr>)"
      using ccm_init_frame [of E ctx ctx0] by (cases "ae_streaming ctx") simp_all
    then have "ctx1 = ctx\<lparr>ae_aes := a2, ae_ccm := c2\<rparr>" using c1 by (elim disjE exE) simp_all
    then show ?thesis by blast
  qed
  ultimately obtain a g p c where
    "ctx1 = ctx\<lparr>ae_aes := a, ae_gcm_inited := g\<rparr> \<or> ctx1 = ctx\<lparr>ae_chacha := p\<rparr> \<or> ctx1 = ctx\<lparr>ae_aes := a, ae_ccm := c\<rparr>"
    using assms by (auto simp: wolfpsa_aead_stream_update_def split: if_split_asm)
  then have "ctx1 = ctx\<lparr>ae_aes := ae_aes ctx1, ae_gcm_inited := ae_gcm_inited ctx1, ae_chacha := ae_chacha ctx1, ae_ccm := ae_ccm ctx1\<rparr>"
    by (elim disjE) simp_all
  then show ?thesis by blast
qed

lemma aead_moves_body:
  assumes g: "\<not> wolfpsa_aead_lengths_missing ctx" "ae_nonce ctx \<noteq> []"
      "ae_lengths_set ctx \<Longrightarrow> length (ae_aad ctx) = ae_ad_expected ctx \<and> ae_input_length ctx + n \<le> ae_plaintext_expected ctx"
    and c: "ctx1 = ctx\<lparr>ae_body_started := True, ae_aes := a, ae_gcm_inited := i, ae_chacha := p, ae_ccm := cc,
      ae_input := buf, ae_input_length := ae_input_length ctx + n, ae_streaming := str\<rparr>"
    and str: "aead_inv E ctx \<Longrightarrow> if str then buf = [] else \<not> ae_streaming ctx \<and> length buf = length (ae_input ctx) + n"
  shows "aead_moves E (Some ctx) (Some (Some ctx1))"
proof -
  have "aead_keeps ctx ctx1" by (simp add: aead_keeps_def c)
  moreover have "aead_inv E ctx1" if "aead_inv E ctx"
    using that g str unfolding aead_inv_def wolfpsa_aead_lengths_missing_def
    by (auto simp: c split: if_split_asm)
  ultimately show ?thesis by simp
qed

text \<open>The successful outcomes of an update: nothing to do, buffered, streamed.\<close>

lemma aead_update_cases:
  assumes u: "psa_aead_update E (Some (Some ctx)) x out len s = (status, bs, n, op', s')"
    and f: "op' \<noteq> Some (Some ctx)" "op' \<noteq> Some None"
  shows "\<not> wolfpsa_aead_lengths_missing ctx" "ae_nonce ctx \<noteq> []"
    "ae_lengths_set ctx \<Longrightarrow> length (ae_aad ctx) = ae_ad_expected ctx \<and>
       ae_input_length ctx + in_length x \<le> ae_plaintext_expected ctx"
    "in_length x = 0 \<and> op' = Some (Some (ctx\<lparr>ae_body_started := True\<rparr>)) \<or>
     (\<exists>b l s1. \<not> ae_streaming ctx \<and>
       wolfpsa_aead_append (ae_input ctx) (ae_input_length ctx) x s = (PSA_SUCCESS, b, l, s1) \<and>
       op' = Some (Some (ctx\<lparr>ae_body_started := True, ae_input := b, ae_input_length := l\<rparr>))) \<or>
     (\<exists>ob ctx2. ae_input ctx = [] \<and>
       wolfpsa_aead_stream_update E (ctx\<lparr>ae_body_started := True\<rparr>) (in_bytes x) = Inr (ob, ctx2) \<and>
       op' = Some (Some (ctx2\<lparr>ae_streaming := True, ae_input_length := ae_input_length ctx2 + in_length x\<rparr>)))"
proof -
  have l: "wolfpsa_clear_length len \<noteq> None" "\<not> wolfpsa_aead_lengths_missing ctx" "ae_nonce ctx \<noteq> []"
    using u f by (auto simp: psa_aead_update_def wolfpsa_aead_get_ctx_def Let_def split: if_split_asm)
  have e: "\<not> (ae_lengths_set ctx \<and> length (ae_aad ctx) \<noteq> ae_ad_expected ctx)"
    by (rule notI) (use u f l in \<open>simp add: psa_aead_update_def wolfpsa_aead_get_ctx_def psa_aead_abort_def Let_def\<close>)
  have e2: "\<not> (ae_lengths_set ctx \<and> (SIZE_MAX - ae_input_length ctx < in_length x \<or>
      ae_plaintext_expected ctx < ae_input_length ctx + in_length x))"
    by (rule notI) (use u f l e in \<open>simp add: psa_aead_update_def wolfpsa_aead_get_ctx_def psa_aead_abort_def Let_def\<close>)
  show "\<not> wolfpsa_aead_lengths_missing ctx" "ae_nonce ctx \<noteq> []" by (fact l)+
  show "ae_lengths_set ctx \<Longrightarrow> length (ae_aad ctx) = ae_ad_expected ctx \<and>
       ae_input_length ctx + in_length x \<le> ae_plaintext_expected ctx"
    using e e2 by auto
  show "in_length x = 0 \<and> op' = Some (Some (ctx\<lparr>ae_body_started := True\<rparr>)) \<or>
     (\<exists>b l s1. \<not> ae_streaming ctx \<and>
       wolfpsa_aead_append (ae_input ctx) (ae_input_length ctx) x s = (PSA_SUCCESS, b, l, s1) \<and>
       op' = Some (Some (ctx\<lparr>ae_body_started := True, ae_input := b, ae_input_length := l\<rparr>))) \<or>
     (\<exists>ob ctx2. ae_input ctx = [] \<and>
       wolfpsa_aead_stream_update E (ctx\<lparr>ae_body_started := True\<rparr>) (in_bytes x) = Inr (ob, ctx2) \<and>
       op' = Some (Some (ctx2\<lparr>ae_streaming := True, ae_input_length := ae_input_length ctx2 + in_length x\<rparr>)))"
    using u f l e e2
    by (simp add: psa_aead_update_def wolfpsa_aead_get_ctx_def psa_aead_abort_def Let_def
        split: if_split_asm prod.splits sum.splits)
qed

lemma aead_update_moves:
  assumes u: "psa_aead_update E (Some op) x out len s = (status, bs, n, op', s')"
  shows "aead_moves E op op'"
proof (cases op)
  case None
  then show ?thesis using u by (auto simp: psa_aead_update_def wolfpsa_aead_get_ctx_def Let_def)
next
  case (Some ctx)
  note u = u [unfolded Some]
  show ?thesis unfolding Some
  proof (cases "op' = Some (Some ctx) \<or> op' = Some None")
    case True
    then show "aead_moves E (Some ctx) op'" by (elim disjE) (simp_all del: aead_moves_simps(4))
  next
    case False
    then have f: "op' \<noteq> Some (Some ctx)" "op' \<noteq> Some None" by simp_all
    note C = aead_update_cases [OF u f]
    from C(4) show "aead_moves E (Some ctx) op'"
    proof (elim disjE exE conjE)
      assume n: "in_length x = 0" "op' = Some (Some (ctx\<lparr>ae_body_started := True\<rparr>))"
      show ?thesis unfolding n(2)
        by (rule aead_moves_body [where n = 0 and a = "ae_aes ctx" and i = "ae_gcm_inited ctx" and p = "ae_chacha ctx"
              and cc = "ae_ccm ctx" and buf = "ae_input ctx" and str = "ae_streaming ctx", OF C(1,2)]) (use C(3) n in \<open>auto simp: aead_inv_def\<close>)
    next
      fix b l s1
      assume b: "\<not> ae_streaming ctx" "wolfpsa_aead_append (ae_input ctx) (ae_input_length ctx) x s = (PSA_SUCCESS, b, l, s1)"
        "op' = Some (Some (ctx\<lparr>ae_body_started := True, ae_input := b, ae_input_length := l\<rparr>))"
      note A = aead_append_ok [OF b(2)]
      show ?thesis unfolding b(3)
        by (rule aead_moves_body [where n = "in_length x" and a = "ae_aes ctx" and i = "ae_gcm_inited ctx" and p = "ae_chacha ctx"
              and cc = "ae_ccm ctx" and buf = b and str = False, OF C(1,2)]) (use C(3) b A in \<open>auto\<close>)
    next
      fix ob ctx2
      assume t: "ae_input ctx = []"
        "wolfpsa_aead_stream_update E (ctx\<lparr>ae_body_started := True\<rparr>) (in_bytes x) = Inr (ob, ctx2)"
        "op' = Some (Some (ctx2\<lparr>ae_streaming := True, ae_input_length := ae_input_length ctx2 + in_length x\<rparr>))"
      obtain a g p c where c2: "ctx2 = ctx\<lparr>ae_body_started := True, ae_aes := a, ae_gcm_inited := g, ae_chacha := p, ae_ccm := c\<rparr>"
        using stream_update_frame [OF t(2)] by blast
      show ?thesis unfolding t(3) c2
        by (rule aead_moves_body [where n = "in_length x" and a = a and i = g and p = p and cc = c and buf = "[]"
              and str = True, OF C(1,2)]) (use C(3) t(1) in \<open>auto\<close>)
    qed
  qed
qed

lemma chacha_oneshot_Inl [simp]:
  "psa_chacha20_poly1305_encrypt E k a n ad pt c \<noteq> Inl PSA_SUCCESS"
  by (auto simp: psa_chacha20_poly1305_encrypt_def split: prod.splits)

lemma encrypt_buffered_Inl [simp]: "aead_encrypt_buffered E ctx s \<noteq> (Inl PSA_SUCCESS, s1)"
  unfolding aead_encrypt_buffered_def Let_def by (auto split: prod.splits sum.splits if_split_asm)

lemma decrypt_buffered_Inl [simp]: "aead_decrypt_buffered E ctx n tag s \<noteq> (Inl PSA_SUCCESS, s1)"
  unfolding aead_decrypt_buffered_def Let_def by (auto split: prod.splits sum.splits if_split_asm)

lemma encrypt_final_Inl [simp]: "wolfpsa_aead_encrypt_final E ctx ct clen tag tlen s \<noteq> (Inl PSA_SUCCESS, s1)"
  unfolding wolfpsa_aead_encrypt_final_def by (auto split: prod.splits if_split_asm)

lemma decrypt_final_Inl [simp]: "wolfpsa_aead_decrypt_final E ctx pt plen tag s \<noteq> (Inl PSA_SUCCESS, s1)"
  unfolding wolfpsa_aead_decrypt_final_def by (auto split: prod.splits if_split_asm)

text \<open>A tag is produced or verified only for a complete message.\<close>

definition aead_complete :: "('a, 'p) wolfpsa_aead_ctx \<Rightarrow> bool" where
  "aead_complete ctx \<longleftrightarrow> ae_nonce ctx \<noteq> [] \<and> \<not> wolfpsa_aead_lengths_missing ctx \<and>
    (ae_lengths_set ctx \<longrightarrow> length (ae_aad ctx) = ae_ad_expected ctx \<and> ae_input_length ctx = ae_plaintext_expected ctx)"

lemma encrypt_final_complete: "wolfpsa_aead_encrypt_final E ctx ct clen tag tlen s = (Inr r, s1) \<Longrightarrow> aead_complete ctx"
  unfolding wolfpsa_aead_encrypt_final_def aead_complete_def by (auto split: if_split_asm)

lemma decrypt_final_complete: "wolfpsa_aead_decrypt_final E ctx pt plen tag s = (Inr r, s1) \<Longrightarrow> aead_complete ctx"
  unfolding wolfpsa_aead_decrypt_final_def aead_complete_def by (auto split: if_split_asm)

lemma aead_finish_ends:
  assumes "psa_aead_finish E (Some op) ct clen tag tlen s = (status, c, n, t, m, op', s')"
  shows "op' = Some op \<or> op' = Some None"
    "status = PSA_SUCCESS \<Longrightarrow> op' = Some None \<and> (\<exists>ctx. op = Some ctx \<and> ae_direction ctx \<and> aead_complete ctx)"
proof -
  show "op' = Some op \<or> op' = Some None"
    using assms by (auto simp: psa_aead_finish_def psa_aead_abort_def Let_def split: option.splits if_split_asm prod.splits sum.splits)
  assume st: "status = PSA_SUCCESS"
  then obtain ctx where op: "op = Some ctx" and d: "ae_direction ctx"
    using assms by (cases op) (auto simp: psa_aead_finish_def wolfpsa_aead_get_ctx_def Let_def split: if_split_asm)
  obtain r s1 where r: "wolfpsa_aead_encrypt_final E ctx ct (wolfpsa_clear_length clen) tag (wolfpsa_clear_length tlen) s = (r, s1)"
    by fastforce
  have n: "r \<noteq> Inl PSA_SUCCESS" using r encrypt_final_Inl by metis
  then obtain y where "r = Inr y" using assms st r d unfolding op
    by (cases r) (simp_all add: psa_aead_finish_def wolfpsa_aead_get_ctx_def Let_def)
  with assms r d encrypt_final_complete show "op' = Some None \<and> (\<exists>ctx. op = Some ctx \<and> ae_direction ctx \<and> aead_complete ctx)"
    unfolding op by (auto simp: psa_aead_finish_def wolfpsa_aead_get_ctx_def psa_aead_abort_def Let_def split: prod.splits)
qed

lemma aead_verify_ends:
  assumes "psa_aead_verify E (Some op) pt plen tag s = (status, p, n, op', s')"
  shows "op' = Some op \<or> op' = Some None"
    "status = PSA_SUCCESS \<Longrightarrow> op' = Some None \<and> (\<exists>ctx. op = Some ctx \<and> \<not> ae_direction ctx \<and> aead_complete ctx)"
proof -
  show "op' = Some op \<or> op' = Some None"
    using assms by (auto simp: psa_aead_verify_def psa_aead_abort_def Let_def split: option.splits if_split_asm prod.splits sum.splits)
  assume st: "status = PSA_SUCCESS"
  then obtain ctx where op: "op = Some ctx" and d: "\<not> ae_direction ctx"
    using assms by (cases op) (auto simp: psa_aead_verify_def wolfpsa_aead_get_ctx_def Let_def split: if_split_asm)
  obtain r s1 where r: "wolfpsa_aead_decrypt_final E ctx pt (wolfpsa_clear_length plen) tag s = (r, s1)"
    by fastforce
  have n: "r \<noteq> Inl PSA_SUCCESS" using r decrypt_final_Inl by metis
  then obtain y where "r = Inr y" using assms st r d unfolding op
    by (cases r) (simp_all add: psa_aead_verify_def wolfpsa_aead_get_ctx_def Let_def)
  with assms r d decrypt_final_complete show "op' = Some None \<and> (\<exists>ctx. op = Some ctx \<and> \<not> ae_direction ctx \<and> aead_complete ctx)"
    unfolding op by (auto simp: psa_aead_verify_def wolfpsa_aead_get_ctx_def psa_aead_abort_def Let_def split: prod.splits)
qed

section \<open>Every sequence of calls\<close>

lemma aead_step_moves:
  assumes st: "aead_step env E call op s = (status, op', s')" and inv: "\<And>ctx. op = Some ctx \<Longrightarrow> aead_inv E ctx"
  shows "aead_moves E op op' \<or> op = None \<and> (\<exists>ctx. op' = Some (Some ctx) \<and> aead_inv E ctx)"
proof (cases call)
  case (Ae_encrypt_setup key a)
  then have "wolfpsa_aead_setup env E (Some op) key a PSA_KEY_USAGE_ENCRYPT s = (status, op', s')"
    using st by (simp add: psa_aead_encrypt_setup_def)
  from aead_setup_moves [OF this] show ?thesis by (elim disjE) simp_all
next
  case (Ae_decrypt_setup key a)
  then have "wolfpsa_aead_setup env E (Some op) key a PSA_KEY_USAGE_DECRYPT s = (status, op', s')"
    using st by (simp add: psa_aead_decrypt_setup_def)
  from aead_setup_moves [OF this] show ?thesis by (elim disjE) simp_all
next
  case (Ae_set_lengths adl ptl)
  then show ?thesis using st aead_set_lengths_moves [of op adl ptl status op' E] by (auto split: prod.splits)
next
  case (Ae_set_nonce n)
  then show ?thesis using st aead_set_nonce_moves [of op n status op' E] by (auto split: prod.splits)
next
  case (Ae_generate_nonce out len)
  then show ?thesis using st aead_generate_nonce_moves [of env op out len s status _ _ op' s' E] by (auto split: prod.splits)
next
  case (Ae_update_ad x)
  then show ?thesis using st aead_update_ad_moves [of op x s status op' s' E] inv by simp
next
  case (Ae_update x out len)
  then show ?thesis using st aead_update_moves [of E op x out len s status _ _ op' s'] by (auto split: prod.splits)
next
  case (Ae_finish ct clen tag tlen)
  then obtain c n t m where "psa_aead_finish E (Some op) ct clen tag tlen s = (status, c, n, t, m, op', s')"
    using st by (auto split: prod.splits)
  from aead_finish_ends(1) [OF this] show ?thesis by (elim disjE) simp_all
next
  case (Ae_verify pt plen tag)
  then obtain p n where "psa_aead_verify E (Some op) pt plen tag s = (status, p, n, op', s')"
    using st by (auto split: prod.splits)
  from aead_verify_ends(1) [OF this] show ?thesis by (elim disjE) simp_all
next
  case Ae_abort
  then show ?thesis using st by (auto simp: psa_aead_abort_def)
qed

lemma aead_reachable_inv: "aead_reachable env E op \<Longrightarrow> op = Some ctx \<Longrightarrow> aead_inv E ctx"
proof (induction arbitrary: ctx rule: aead_reachable.induct)
  case (aead_next op call s status op' s')
  from aead_step_moves [OF aead_next.hyps(2) aead_next.IH] aead_next.IH aead_next.prems
  show ?case by (auto simp: aead_moves_def)
qed simp

text \<open>
  C33: Whatever sequence of calls a program makes on an AEAD operation, with whatever failures:
  an active operation satisfies \<open>aead_inv\<close>; a call that leaves it active changes neither
  algorithm, key, direction, nor a nonce or lengths once they are set, only appends to the
  associated data, and not even that once the payload has started (such a call ends the
  operation); and a finish or verify that succeeds ends the operation, fits its direction, and
  comes after a nonce and exactly the declared amounts of associated data and payload.
\<close>

theorem aead_operation_lifecycle:
  assumes r: "aead_reachable env E op" and st: "aead_step env E call op s = (status, op', s')"
  shows "\<exists>op1. op' = Some op1 \<and>
    (\<forall>ctx1. op1 = Some ctx1 \<longrightarrow> aead_inv E ctx1 \<and> (\<forall>ctx. op = Some ctx \<longrightarrow> aead_keeps ctx ctx1)) \<and>
    (\<forall>x ctx. call = Ae_update_ad x \<and> op = Some ctx \<and> ae_body_started ctx \<longrightarrow>
       status = PSA_ERROR_BAD_STATE \<and> op1 = None) \<and>
    (\<forall>ct clen tag tlen. call = Ae_finish ct clen tag tlen \<and> status = PSA_SUCCESS \<longrightarrow>
       op1 = None \<and> (\<exists>ctx. op = Some ctx \<and> ae_direction ctx \<and> aead_complete ctx)) \<and>
    (\<forall>pt plen tag. call = Ae_verify pt plen tag \<and> status = PSA_SUCCESS \<longrightarrow>
       op1 = None \<and> (\<exists>ctx. op = Some ctx \<and> \<not> ae_direction ctx \<and> aead_complete ctx))"
proof -
  have inv: "aead_inv E ctx" if "op = Some ctx" for ctx using aead_reachable_inv [OF r that] .
  note M = aead_step_moves [OF st inv]
  obtain op1 where o: "op' = Some op1" using M by (auto simp: aead_moves_def)
  have "aead_inv E ctx1 \<and> (\<forall>ctx. op = Some ctx \<longrightarrow> aead_keeps ctx ctx1)" if "op1 = Some ctx1" for ctx1
    using M inv o that by (auto simp: aead_moves_def)
  moreover have "status = PSA_ERROR_BAD_STATE \<and> op1 = None"
    if "call = Ae_update_ad x \<and> op = Some ctx \<and> ae_body_started ctx" for x ctx
    using st that o by (simp add: psa_aead_update_ad_def wolfpsa_aead_get_ctx_def psa_aead_abort_def Let_def)
  moreover have "op1 = None \<and> (\<exists>ctx. op = Some ctx \<and> ae_direction ctx \<and> aead_complete ctx)"
    if c: "call = Ae_finish ct clen tag tlen \<and> status = PSA_SUCCESS" for ct clen tag tlen
  proof -
    obtain cb n t m where f: "psa_aead_finish E (Some op) ct clen tag tlen s = (PSA_SUCCESS, cb, n, t, m, op', s')"
      using st c by (auto split: prod.splits)
    from aead_finish_ends(2) [OF f refl] o show ?thesis by simp
  qed
  moreover have "op1 = None \<and> (\<exists>ctx. op = Some ctx \<and> \<not> ae_direction ctx \<and> aead_complete ctx)"
    if c: "call = Ae_verify pt plen tag \<and> status = PSA_SUCCESS" for pt plen tag
  proof -
    obtain p n where f: "psa_aead_verify E (Some op) pt plen tag s = (PSA_SUCCESS, p, n, op', s')"
      using st c by (auto split: prod.splits)
    from aead_verify_ends(2) [OF f refl] o show ?thesis by simp
  qed
  ultimately show ?thesis using o by blast
qed

theorem aead_operation_lifecycle_witness:
  "\<exists>op1. aead_step demo_env demo_aead (Ae_set_lengths 2 3) (Some (demo_ctx0 True)) demo_aead_ks =
      (PSA_SUCCESS, Some (Some op1), demo_aead_ks) \<and> aead_inv demo_aead op1 \<and> aead_keeps (demo_ctx0 True) op1"
proof -
  have "aead_step demo_env demo_aead (Ae_encrypt_setup PSA_KEY_ID_VENDOR_MIN PSA_ALG_CCM) None demo_aead_ks =
      (PSA_SUCCESS, Some (Some (demo_ctx0 True)), demo_aead_ks)"
    using demo_encrypt_setup by simp
  then have r: "aead_reachable demo_env demo_aead (Some (demo_ctx0 True))"
    by (rule aead_next [OF aead_init])
  have st: "aead_step demo_env demo_aead (Ae_set_lengths 2 3) (Some (demo_ctx0 True)) demo_aead_ks =
      (PSA_SUCCESS, Some (Some ((demo_ctx0 True)\<lparr>ae_ad_expected := 2, ae_plaintext_expected := 3, ae_lengths_set := True\<rparr>)), demo_aead_ks)"
    using demo_ccm_calls(1) by simp
  from aead_operation_lifecycle [OF r st] st show ?thesis by auto
qed

end
