(* ===== verification/Hash.thy ===== *)
theory Hash
  imports Posix_Keys
begin

text \<open>
  \<open>src/psa_hash_engine.c\<close>: multi-part hashing, its clone, the one-shot calls and the
  verification calls. wolfCrypt's digests are a parameter (record \<open>hash_engine\<close>), what the
  theorems rely on of them is \<open>hash_engine_ok\<close>. Operation arguments are as in \<open>Mac\<close>: \<open>None\<close> is
  a NULL pointer, \<open>Some None\<close> an inactive operation. Releasing a wolfCrypt context
  (\<open>psa_hash_cleanup_ctx\<close>) leaves no value behind.
\<close>

unbundle bit_operations_syntax

section \<open>Contexts\<close>

text \<open>The wolfCrypt digests, one constructor per family of calls (\<open>wc_Md5Update\<close>, \<open>wc_ShaUpdate\<close>, \dots).\<close>

datatype wc_digest =
    Wc_Md5 | Wc_RipeMd | Wc_Sha | Wc_Sha224 | Wc_Sha256 | Wc_Sha384
  | Wc_Sha512 | Wc_Sha512_224 | Wc_Sha512_256
  | Wc_Sha3_224 | Wc_Sha3_256 | Wc_Sha3_384 | Wc_Sha3_512 | Wc_Shake256 | Wc_AsconHash256

record 'h psa_hash_operation_ctx =
  hash_alg :: psa_algorithm_t
  hash_initialized :: bool
  hash_started :: bool
  hash_finalized :: bool
  hash_ctx :: 'h

type_synonym 'h psa_hash_operation_t = "'h psa_hash_operation_ctx option"

text \<open>
  wolfCrypt's side. A context of type \<open>'h\<close> is the union of the digest states, \<open>hs_zero\<close> the
  zeroed one. \<open>hs_Init\<close> has the device id where the call takes one, \<open>hs_Final\<close> the length where
  the call takes one and gives the bytes written to the output; the context that is left is only
  freed. \<open>hs_devid\<close> is what \<open>wolfPSA_GetDefaultDevID\<close> returns.
\<close>

record 'h hash_engine =
  hs_devid :: int
  hs_zero :: 'h
  hs_Init :: "wc_digest \<Rightarrow> int option \<Rightarrow> 'h \<Rightarrow> wc_ret \<times> 'h"
  hs_Update :: "wc_digest \<Rightarrow> byte list \<Rightarrow> 'h \<Rightarrow> wc_ret \<times> 'h"
  hs_Final :: "wc_digest \<Rightarrow> nat option \<Rightarrow> 'h \<Rightarrow> wc_ret \<times> byte list"
  hs_Copy :: "wc_digest \<Rightarrow> 'h \<Rightarrow> wc_ret \<times> 'h"

abbreviation WOLFPSA_HASH_MAX_SIZE :: nat where "WOLFPSA_HASH_MAX_SIZE \<equiv> 64"

definition psa_hash_get_ctx :: "'h psa_hash_operation_t option \<Rightarrow> 'h psa_hash_operation_ctx option" where
  "psa_hash_get_ctx op = (case op of None \<Rightarrow> None | Some ctx \<Rightarrow> ctx)"

definition psa_hash_abort ::
    "'h psa_hash_operation_t option \<Rightarrow> psa_status \<times> 'h psa_hash_operation_t option" where
  "psa_hash_abort op =
    (if op = None then (PSA_ERROR_INVALID_ARGUMENT, op)
     else if psa_hash_get_ctx op = None then (PSA_SUCCESS, op)
     else (PSA_SUCCESS, Some None))"

definition wolfpsa_hash_fail ::
    "'h psa_hash_operation_t option \<Rightarrow> psa_status \<Rightarrow> psa_status \<times> 'h psa_hash_operation_t option" where
  "wolfpsa_hash_fail op status = (status, snd (psa_hash_abort op))"

section \<open>Algorithms\<close>

definition psa_hash_check_alg_supported :: "psa_algorithm_t \<Rightarrow> psa_status" where
  "psa_hash_check_alg_supported a =
    (if a = PSA_ALG_MD5 then PSA_SUCCESS
     else if a = PSA_ALG_RIPEMD160 then PSA_SUCCESS
     else if a = PSA_ALG_SHA_1 then PSA_SUCCESS
     else if a = PSA_ALG_SHA_256 then PSA_SUCCESS
     else if a = PSA_ALG_SHA_224 then PSA_SUCCESS
     else if a = PSA_ALG_SHA_384 then PSA_SUCCESS
     else if a = PSA_ALG_SHA_512 then PSA_SUCCESS
     else if a = PSA_ALG_SHA_512_224 then PSA_SUCCESS
     else if a = PSA_ALG_SHA_512_256 then PSA_SUCCESS
     else if a = PSA_ALG_SHA3_224 \<or> a = PSA_ALG_SHA3_256 \<or> a = PSA_ALG_SHA3_384 \<or> a = PSA_ALG_SHA3_512
       then PSA_SUCCESS
     else if a = PSA_ALG_SHAKE256_512 then PSA_SUCCESS
     else if a = PSA_ALG_ASCON_HASH256 then PSA_SUCCESS
     else PSA_ERROR_NOT_SUPPORTED)"

definition psa_hash_get_size :: "psa_algorithm_t \<Rightarrow> nat" where
  "psa_hash_get_size a =
    (if a = PSA_ALG_MD5 then 16
     else if a = PSA_ALG_RIPEMD160 then 20
     else if a = PSA_ALG_SHA_1 then 20
     else if a = PSA_ALG_SHA_256 then 32
     else if a = PSA_ALG_SHA_224 then 28
     else if a = PSA_ALG_SHA_384 then 48
     else if a = PSA_ALG_SHA_512 then 64
     else if a = PSA_ALG_SHA_512_224 then 28
     else if a = PSA_ALG_SHA_512_256 then 32
     else if a = PSA_ALG_SHA3_224 then 28
     else if a = PSA_ALG_SHA3_256 then 32
     else if a = PSA_ALG_SHA3_384 then 48
     else if a = PSA_ALG_SHA3_512 then 64
     else if a = PSA_ALG_SHAKE256_512 then 64
     else if a = PSA_ALG_ASCON_HASH256 then 32
     else 0)"

text \<open>The switches on the algorithm; \<open>None\<close> is their default branch.\<close>

definition hash_init_switch :: "'h hash_engine \<Rightarrow> psa_algorithm_t \<Rightarrow> 'h \<Rightarrow> (wc_ret \<times> 'h) option" where
  "hash_init_switch E a c =
    (let dev = Some (hs_devid E) in
     if a = PSA_ALG_MD5 then Some (hs_Init E Wc_Md5 None c)
     else if a = PSA_ALG_RIPEMD160 then Some (hs_Init E Wc_RipeMd None c)
     else if a = PSA_ALG_SHA_1 then Some (hs_Init E Wc_Sha dev c)
     else if a = PSA_ALG_SHA_256 then Some (hs_Init E Wc_Sha256 dev c)
     else if a = PSA_ALG_SHA_224 then Some (hs_Init E Wc_Sha224 dev c)
     else if a = PSA_ALG_SHA_384 then Some (hs_Init E Wc_Sha384 dev c)
     else if a = PSA_ALG_SHA_512 then Some (hs_Init E Wc_Sha512 dev c)
     else if a = PSA_ALG_SHA_512_224 then Some (hs_Init E Wc_Sha512_224 dev c)
     else if a = PSA_ALG_SHA_512_256 then Some (hs_Init E Wc_Sha512_256 dev c)
     else if a = PSA_ALG_SHA3_224 then Some (hs_Init E Wc_Sha3_224 dev c)
     else if a = PSA_ALG_SHA3_256 then Some (hs_Init E Wc_Sha3_256 dev c)
     else if a = PSA_ALG_SHA3_384 then Some (hs_Init E Wc_Sha3_384 dev c)
     else if a = PSA_ALG_SHA3_512 then Some (hs_Init E Wc_Sha3_512 dev c)
     else if a = PSA_ALG_SHAKE256_512 then Some (hs_Init E Wc_Shake256 dev c)
     else if a = PSA_ALG_ASCON_HASH256 then Some (hs_Init E Wc_AsconHash256 None c)
     else None)"

definition hash_update_switch ::
    "'h hash_engine \<Rightarrow> psa_algorithm_t \<Rightarrow> byte list \<Rightarrow> 'h \<Rightarrow> (wc_ret \<times> 'h) option" where
  "hash_update_switch E a x c =
    (if a = PSA_ALG_MD5 then Some (hs_Update E Wc_Md5 x c)
     else if a = PSA_ALG_RIPEMD160 then Some (hs_Update E Wc_RipeMd x c)
     else if a = PSA_ALG_SHA_1 then Some (hs_Update E Wc_Sha x c)
     else if a = PSA_ALG_SHA_256 then Some (hs_Update E Wc_Sha256 x c)
     else if a = PSA_ALG_SHA_224 then Some (hs_Update E Wc_Sha224 x c)
     else if a = PSA_ALG_SHA_384 then Some (hs_Update E Wc_Sha384 x c)
     else if a = PSA_ALG_SHA_512 then Some (hs_Update E Wc_Sha512 x c)
     else if a = PSA_ALG_SHA_512_224 then Some (hs_Update E Wc_Sha512_224 x c)
     else if a = PSA_ALG_SHA_512_256 then Some (hs_Update E Wc_Sha512_256 x c)
     else if a = PSA_ALG_SHA3_224 then Some (hs_Update E Wc_Sha3_224 x c)
     else if a = PSA_ALG_SHA3_256 then Some (hs_Update E Wc_Sha3_256 x c)
     else if a = PSA_ALG_SHA3_384 then Some (hs_Update E Wc_Sha3_384 x c)
     else if a = PSA_ALG_SHA3_512 then Some (hs_Update E Wc_Sha3_512 x c)
     else if a = PSA_ALG_SHAKE256_512 then Some (hs_Update E Wc_Shake256 x c)
     else if a = PSA_ALG_ASCON_HASH256 then Some (hs_Update E Wc_AsconHash256 x c)
     else None)"

definition hash_final_switch :: "'h hash_engine \<Rightarrow> psa_algorithm_t \<Rightarrow> 'h \<Rightarrow> (wc_ret \<times> byte list) option" where
  "hash_final_switch E a c =
    (if a = PSA_ALG_MD5 then Some (hs_Final E Wc_Md5 None c)
     else if a = PSA_ALG_RIPEMD160 then Some (hs_Final E Wc_RipeMd None c)
     else if a = PSA_ALG_SHA_1 then Some (hs_Final E Wc_Sha None c)
     else if a = PSA_ALG_SHA_256 then Some (hs_Final E Wc_Sha256 None c)
     else if a = PSA_ALG_SHA_224 then Some (hs_Final E Wc_Sha224 None c)
     else if a = PSA_ALG_SHA_384 then Some (hs_Final E Wc_Sha384 None c)
     else if a = PSA_ALG_SHA_512 then Some (hs_Final E Wc_Sha512 None c)
     else if a = PSA_ALG_SHA_512_224 then Some (hs_Final E Wc_Sha512_224 None c)
     else if a = PSA_ALG_SHA_512_256 then Some (hs_Final E Wc_Sha512_256 None c)
     else if a = PSA_ALG_SHA3_224 then Some (hs_Final E Wc_Sha3_224 None c)
     else if a = PSA_ALG_SHA3_256 then Some (hs_Final E Wc_Sha3_256 None c)
     else if a = PSA_ALG_SHA3_384 then Some (hs_Final E Wc_Sha3_384 None c)
     else if a = PSA_ALG_SHA3_512 then Some (hs_Final E Wc_Sha3_512 None c)
     else if a = PSA_ALG_SHAKE256_512 then Some (hs_Final E Wc_Shake256 (Some 64) c)
     else if a = PSA_ALG_ASCON_HASH256 then Some (hs_Final E Wc_AsconHash256 None c)
     else None)"

text \<open>RIPEMD-160 and Ascon states are copied byte for byte.\<close>

definition hash_copy_switch :: "'h hash_engine \<Rightarrow> psa_algorithm_t \<Rightarrow> 'h \<Rightarrow> (wc_ret \<times> 'h) option" where
  "hash_copy_switch E a c =
    (if a = PSA_ALG_MD5 then Some (hs_Copy E Wc_Md5 c)
     else if a = PSA_ALG_RIPEMD160 then Some (WC_OK, c)
     else if a = PSA_ALG_SHA_1 then Some (hs_Copy E Wc_Sha c)
     else if a = PSA_ALG_SHA_256 then Some (hs_Copy E Wc_Sha256 c)
     else if a = PSA_ALG_SHA_224 then Some (hs_Copy E Wc_Sha224 c)
     else if a = PSA_ALG_SHA_384 then Some (hs_Copy E Wc_Sha384 c)
     else if a = PSA_ALG_SHA_512 then Some (hs_Copy E Wc_Sha512 c)
     else if a = PSA_ALG_SHA_512_224 then Some (hs_Copy E Wc_Sha512_224 c)
     else if a = PSA_ALG_SHA_512_256 then Some (hs_Copy E Wc_Sha512_256 c)
     else if a = PSA_ALG_SHA3_224 then Some (hs_Copy E Wc_Sha3_224 c)
     else if a = PSA_ALG_SHA3_256 then Some (hs_Copy E Wc_Sha3_256 c)
     else if a = PSA_ALG_SHA3_384 then Some (hs_Copy E Wc_Sha3_384 c)
     else if a = PSA_ALG_SHA3_512 then Some (hs_Copy E Wc_Sha3_512 c)
     else if a = PSA_ALG_SHAKE256_512 then Some (hs_Copy E Wc_Shake256 c)
     else if a = PSA_ALG_ASCON_HASH256 then Some (WC_OK, c)
     else None)"

section \<open>The multi-part operation\<close>

definition psa_hash_setup ::
    "('st, 'f) psa_env \<Rightarrow> 'h hash_engine \<Rightarrow> 'h psa_hash_operation_t option \<Rightarrow> psa_algorithm_t \<Rightarrow> 'st key_store \<Rightarrow>
     psa_status \<times> 'h psa_hash_operation_t option \<times> 'st key_store" where
  "psa_hash_setup env E op a s =
    (if op = None then (PSA_ERROR_INVALID_ARGUMENT, op, s)
     else
       (case wolfPSA_CryptoIsInitialized (env_build env) s of
          (initialized, s1) \<Rightarrow>
            if \<not> initialized then (PSA_ERROR_BAD_STATE, op, s1)
            else if \<not> PSA_ALG_IS_HASH a then (PSA_ERROR_INVALID_ARGUMENT, op, s1)
            else if psa_hash_check_alg_supported a \<noteq> PSA_SUCCESS then (psa_hash_check_alg_supported a, op, s1)
            else if op \<noteq> Some None then (PSA_ERROR_BAD_STATE, op, s1)
            else
              (case s_xmalloc s1 of
                 (ok, s2) \<Rightarrow>
                   if \<not> ok then (PSA_ERROR_INSUFFICIENT_MEMORY, op, s2)
                   else
                     (case hash_init_switch E a (hs_zero E) of
                        None \<Rightarrow> (PSA_ERROR_NOT_SUPPORTED, op, s2)
                      | Some (ret, c) \<Rightarrow>
                          if ret \<noteq> WC_OK then (wc_error_to_psa_status ret, op, s2)
                          else (PSA_SUCCESS,
                                Some (Some \<lparr>hash_alg = a, hash_initialized = True, hash_started = True,
                                            hash_finalized = False, hash_ctx = c\<rparr>), s2)))))"

definition psa_hash_update ::
    "'h hash_engine \<Rightarrow> 'h psa_hash_operation_t option \<Rightarrow> inbuf \<Rightarrow> psa_status \<times> 'h psa_hash_operation_t option" where
  "psa_hash_update E op input =
    (if op = None \<or> in_null input \<and> in_length input > 0 then wolfpsa_hash_fail op PSA_ERROR_INVALID_ARGUMENT
     else
       (case psa_hash_get_ctx op of
          None \<Rightarrow> wolfpsa_hash_fail op PSA_ERROR_BAD_STATE
        | Some ctx \<Rightarrow>
            if \<not> hash_initialized ctx \<or> \<not> hash_started ctx then wolfpsa_hash_fail op PSA_ERROR_BAD_STATE
            else if hash_finalized ctx then wolfpsa_hash_fail op PSA_ERROR_BAD_STATE
            else if wolfpsa_check_word32_length (in_length input) \<noteq> PSA_SUCCESS
              then wolfpsa_hash_fail op PSA_ERROR_INVALID_ARGUMENT
            else
              (case hash_update_switch E (hash_alg ctx) (in_bytes input) (hash_ctx ctx) of
                 None \<Rightarrow> wolfpsa_hash_fail op PSA_ERROR_NOT_SUPPORTED
               | Some (ret, c) \<Rightarrow>
                   if ret \<noteq> WC_OK then wolfpsa_hash_fail op (wc_error_to_psa_status ret)
                   else (PSA_SUCCESS, Some (Some (ctx\<lparr>hash_ctx := c\<rparr>))))))"

text \<open>The status, the bytes written to \<open>hash\<close>, \<open>*hash_length\<close>, and the operation.\<close>

definition psa_hash_finish ::
    "'h hash_engine \<Rightarrow> 'h psa_hash_operation_t option \<Rightarrow> outbuf \<Rightarrow> nat option \<Rightarrow>
     psa_status \<times> byte list \<times> nat option \<times> 'h psa_hash_operation_t option" where
  "psa_hash_finish E op hash len0 =
    (let len = wolfpsa_clear_length len0;
         fail = (\<lambda>bs status. case wolfpsa_hash_fail op status of (st, op1) \<Rightarrow> (st, bs, len, op1)) in
     if op = None \<or> len = None \<or> out_null hash \<and> out_size hash \<noteq> 0 then fail [] PSA_ERROR_INVALID_ARGUMENT
     else
       (case psa_hash_get_ctx op of
          None \<Rightarrow> fail [] PSA_ERROR_BAD_STATE
        | Some ctx \<Rightarrow>
            if \<not> hash_initialized ctx \<or> \<not> hash_started ctx then fail [] PSA_ERROR_BAD_STATE
            else if hash_finalized ctx then fail [] PSA_ERROR_BAD_STATE
            else
              (let expected = psa_hash_get_size (hash_alg ctx) in
               if expected = 0 then fail [] PSA_ERROR_NOT_SUPPORTED
               else if out_size hash < expected then fail [] PSA_ERROR_BUFFER_TOO_SMALL
               else
                 (case hash_final_switch E (hash_alg ctx) (hash_ctx ctx) of
                    None \<Rightarrow> fail [] PSA_ERROR_NOT_SUPPORTED
                  | Some (ret, bs) \<Rightarrow>
                      if ret \<noteq> WC_OK then fail bs (wc_error_to_psa_status ret)
                      else (PSA_SUCCESS, bs, Some expected, Some None)))))"

definition psa_hash_verify ::
    "'h hash_engine \<Rightarrow> 'h psa_hash_operation_t option \<Rightarrow> inbuf \<Rightarrow> psa_status \<times> 'h psa_hash_operation_t option" where
  "psa_hash_verify E op hash =
    (if op = None \<or> in_null hash \<and> in_length hash \<noteq> 0 then (PSA_ERROR_INVALID_ARGUMENT, op)
     else
       (case psa_hash_finish E op (Out WOLFPSA_HASH_MAX_SIZE) (Some 0) of
          (status, computed, computed_length, op1) \<Rightarrow>
            (if status \<noteq> PSA_SUCCESS then status
             else if in_length hash \<noteq> the computed_length then PSA_ERROR_INVALID_SIGNATURE
             else if take (the computed_length) computed \<noteq> in_bytes hash then PSA_ERROR_INVALID_SIGNATURE
             else PSA_SUCCESS, op1)))"

definition psa_hash_clone ::
    "'h hash_engine \<Rightarrow> 'h psa_hash_operation_t option \<Rightarrow> 'h psa_hash_operation_t option \<Rightarrow> 'st key_store \<Rightarrow>
     psa_status \<times> 'h psa_hash_operation_t option \<times> 'st key_store" where
  "psa_hash_clone E source target s =
    (if source = None \<or> target = None then (PSA_ERROR_INVALID_ARGUMENT, target, s)
     else if target \<noteq> Some None then (PSA_ERROR_BAD_STATE, target, s)
     else
       (case psa_hash_get_ctx source of
          None \<Rightarrow> (PSA_ERROR_BAD_STATE, target, s)
        | Some ctx \<Rightarrow>
            if \<not> hash_initialized ctx \<or> \<not> hash_started ctx then (PSA_ERROR_BAD_STATE, target, s)
            else if hash_finalized ctx then (PSA_ERROR_BAD_STATE, target, s)
            else
              (case s_xmalloc s of
                 (ok, s1) \<Rightarrow>
                   if \<not> ok then (PSA_ERROR_INSUFFICIENT_MEMORY, target, s1)
                   else
                     (case hash_copy_switch E (hash_alg ctx) (hash_ctx ctx) of
                        None \<Rightarrow> (PSA_ERROR_NOT_SUPPORTED, target, s1)
                      | Some (ret, c) \<Rightarrow>
                          if ret \<noteq> WC_OK then (wc_error_to_psa_status ret, target, s1)
                          else (PSA_SUCCESS,
                                Some (Some \<lparr>hash_alg = hash_alg ctx, hash_initialized = hash_initialized ctx,
                                            hash_started = hash_started ctx, hash_finalized = hash_finalized ctx,
                                            hash_ctx = c\<rparr>), s1)))))"

section \<open>One-shot calls\<close>

definition psa_hash_compute ::
    "('st, 'f) psa_env \<Rightarrow> 'h hash_engine \<Rightarrow> psa_algorithm_t \<Rightarrow> inbuf \<Rightarrow> outbuf \<Rightarrow> nat option \<Rightarrow> 'st key_store \<Rightarrow>
     psa_status \<times> byte list \<times> nat option \<times> 'st key_store" where
  "psa_hash_compute env E a input hash len0 s =
    (let len = wolfpsa_clear_length len0 in
     case wolfPSA_CryptoIsInitialized (env_build env) s of
       (initialized, s1) \<Rightarrow>
         if \<not> initialized then (PSA_ERROR_BAD_STATE, [], len, s1)
         else
           (case psa_hash_setup env E (Some None) a s1 of
              (status, op, s2) \<Rightarrow>
                if status \<noteq> PSA_SUCCESS then (status, [], len, s2)
                else
                  (case psa_hash_update E op input of
                     (status2, op2) \<Rightarrow>
                       if status2 \<noteq> PSA_SUCCESS then (status2, [], len, s2)
                       else
                         (case psa_hash_finish E op2 hash len of
                            (status3, bs, len3, op3) \<Rightarrow> (status3, bs, len3, s2)))))"

definition psa_hash_compare ::
    "('st, 'f) psa_env \<Rightarrow> 'h hash_engine \<Rightarrow> psa_algorithm_t \<Rightarrow> inbuf \<Rightarrow> inbuf \<Rightarrow> 'st key_store \<Rightarrow>
     psa_status \<times> 'st key_store" where
  "psa_hash_compare env E a input hash s =
    (case wolfPSA_CryptoIsInitialized (env_build env) s of
       (initialized, s1) \<Rightarrow>
         if \<not> initialized then (PSA_ERROR_BAD_STATE, s1)
         else if \<not> PSA_ALG_IS_HASH a then (PSA_ERROR_INVALID_ARGUMENT, s1)
         else if psa_hash_get_size a = 0 then (PSA_ERROR_NOT_SUPPORTED, s1)
         else if in_length hash \<noteq> psa_hash_get_size a then (PSA_ERROR_INVALID_SIGNATURE, s1)
         else if in_null hash then (PSA_ERROR_INVALID_ARGUMENT, s1)
         else
           (case psa_hash_compute env E a input (Out WOLFPSA_HASH_MAX_SIZE) (Some 0) s1 of
              (status, computed, computed_length, s2) \<Rightarrow>
                (if status \<noteq> PSA_SUCCESS then status
                 else if take (the computed_length) computed \<noteq> take (the computed_length) (in_bytes hash)
                   then PSA_ERROR_INVALID_SIGNATURE
                 else PSA_SUCCESS, s2)))"

section \<open>What wolfCrypt promises\<close>

text \<open>
  \<open>V\<close> reads the digest and the bytes absorbed so far off a context, and \<open>H\<close> is the digest
  function. Only successful calls promise anything; \<open>hash_never_fails\<close> says that calls succeed.
\<close>

fun wc_digest_size :: "wc_digest \<Rightarrow> nat" where
  "wc_digest_size Wc_Md5 = 16"
| "wc_digest_size Wc_RipeMd = 20"
| "wc_digest_size Wc_Sha = 20"
| "wc_digest_size Wc_Sha224 = 28"
| "wc_digest_size Wc_Sha256 = 32"
| "wc_digest_size Wc_Sha384 = 48"
| "wc_digest_size Wc_Sha512 = 64"
| "wc_digest_size Wc_Sha512_224 = 28"
| "wc_digest_size Wc_Sha512_256 = 32"
| "wc_digest_size Wc_Sha3_224 = 28"
| "wc_digest_size Wc_Sha3_256 = 32"
| "wc_digest_size Wc_Sha3_384 = 48"
| "wc_digest_size Wc_Sha3_512 = 64"
| "wc_digest_size Wc_Shake256 = 64"
| "wc_digest_size Wc_AsconHash256 = 32"

definition final_arg :: "wc_digest \<Rightarrow> nat option" where
  "final_arg w = (if w = Wc_Shake256 then Some 64 else None)"

definition init_arg :: "'h hash_engine \<Rightarrow> wc_digest \<Rightarrow> int option" where
  "init_arg E w = (if w = Wc_Md5 \<or> w = Wc_RipeMd \<or> w = Wc_AsconHash256 then None else Some (hs_devid E))"

definition hash_engine_ok ::
    "'h hash_engine \<Rightarrow> (wc_digest \<Rightarrow> byte list \<Rightarrow> byte list) \<Rightarrow> ('h \<Rightarrow> wc_digest \<times> byte list) \<Rightarrow> bool" where
  "hash_engine_ok E H V \<longleftrightarrow>
    (\<forall>w m. length (H w m) = wc_digest_size w) \<and>
    (\<forall>w d c c'. hs_Init E w d c = (WC_OK, c') \<longrightarrow> V c' = (w, [])) \<and>
    (\<forall>w m x c c'. V c = (w, m) \<and> hs_Update E w x c = (WC_OK, c') \<longrightarrow> V c' = (w, m @ x)) \<and>
    (\<forall>w m c bs. V c = (w, m) \<and> hs_Final E w (final_arg w) c = (WC_OK, bs) \<longrightarrow> bs = H w m) \<and>
    (\<forall>w m c c'. V c = (w, m) \<and> hs_Copy E w c = (WC_OK, c') \<longrightarrow> V c' = (w, m))"

definition hash_never_fails :: "'h hash_engine \<Rightarrow> bool" where
  "hash_never_fails E \<longleftrightarrow>
    (\<forall>w d c. fst (hs_Init E w d c) = WC_OK) \<and> (\<forall>w x c. fst (hs_Update E w x c) = WC_OK) \<and>
    (\<forall>w n c. fst (hs_Final E w n c) = WC_OK) \<and> (\<forall>w c. fst (hs_Copy E w c) = WC_OK)"

lemma hash_engine_okD:
  assumes "hash_engine_ok E H V"
  shows "length (H w m) = wc_digest_size w"
    and "hs_Init E w d c = (WC_OK, c') \<Longrightarrow> V c' = (w, [])"
    and "V c = (w, m) \<Longrightarrow> hs_Update E w x c = (WC_OK, c') \<Longrightarrow> V c' = (w, m @ x)"
    and "V c = (w, m) \<Longrightarrow> hs_Final E w (final_arg w) c = (WC_OK, bs) \<Longrightarrow> bs = H w m"
    and "V c = (w, m) \<Longrightarrow> hs_Copy E w c = (WC_OK, c') \<Longrightarrow> V c' = (w, m)"
  using assms unfolding hash_engine_ok_def by - (elim conjE, meson)+

text \<open>The digest an algorithm names; every switch dispatches to it.\<close>

definition alg_digest :: "psa_algorithm_t \<Rightarrow> wc_digest option" where
  "alg_digest a = map_of
    [(PSA_ALG_MD5, Wc_Md5), (PSA_ALG_RIPEMD160, Wc_RipeMd), (PSA_ALG_SHA_1, Wc_Sha), (PSA_ALG_SHA_224, Wc_Sha224),
     (PSA_ALG_SHA_256, Wc_Sha256), (PSA_ALG_SHA_384, Wc_Sha384), (PSA_ALG_SHA_512, Wc_Sha512),
     (PSA_ALG_SHA_512_224, Wc_Sha512_224), (PSA_ALG_SHA_512_256, Wc_Sha512_256), (PSA_ALG_SHA3_224, Wc_Sha3_224),
     (PSA_ALG_SHA3_256, Wc_Sha3_256), (PSA_ALG_SHA3_384, Wc_Sha3_384), (PSA_ALG_SHA3_512, Wc_Sha3_512),
     (PSA_ALG_SHAKE256_512, Wc_Shake256), (PSA_ALG_ASCON_HASH256, Wc_AsconHash256)] a"

lemma alg_digest_cases:
  assumes "alg_digest a = Some w"
  obtains "a = PSA_ALG_MD5" "w = Wc_Md5" | "a = PSA_ALG_RIPEMD160" "w = Wc_RipeMd" | "a = PSA_ALG_SHA_1" "w = Wc_Sha"
    | "a = PSA_ALG_SHA_224" "w = Wc_Sha224" | "a = PSA_ALG_SHA_256" "w = Wc_Sha256" | "a = PSA_ALG_SHA_384" "w = Wc_Sha384"
    | "a = PSA_ALG_SHA_512" "w = Wc_Sha512" | "a = PSA_ALG_SHA_512_224" "w = Wc_Sha512_224"
    | "a = PSA_ALG_SHA_512_256" "w = Wc_Sha512_256" | "a = PSA_ALG_SHA3_224" "w = Wc_Sha3_224"
    | "a = PSA_ALG_SHA3_256" "w = Wc_Sha3_256" | "a = PSA_ALG_SHA3_384" "w = Wc_Sha3_384"
    | "a = PSA_ALG_SHA3_512" "w = Wc_Sha3_512" | "a = PSA_ALG_SHAKE256_512" "w = Wc_Shake256"
    | "a = PSA_ALG_ASCON_HASH256" "w = Wc_AsconHash256"
  using assms by (auto simp: alg_digest_def split: if_split_asm)

lemma hash_supported_iff: "psa_hash_check_alg_supported a = PSA_SUCCESS \<longleftrightarrow> alg_digest a \<noteq> None"
  by (simp add: psa_hash_check_alg_supported_def alg_digest_def)

lemma hash_switches:
  assumes "alg_digest a = Some w"
  shows "psa_hash_get_size a = wc_digest_size w" "PSA_ALG_IS_HASH a"
    "hash_init_switch E a c = Some (hs_Init E w (init_arg E w) c)"
    "hash_update_switch E a x c = Some (hs_Update E w x c)"
    "hash_final_switch E a c = Some (hs_Final E w (final_arg w) c)"
    "hash_copy_switch E a c = (if w = Wc_RipeMd \<or> w = Wc_AsconHash256 then Some (WC_OK, c) else Some (hs_Copy E w c))"
  by (cases rule: alg_digest_cases [OF assms];
      simp add: psa_hash_get_size_def psa_defs hash_init_switch_def hash_update_switch_def hash_final_switch_def
        hash_copy_switch_def final_arg_def init_arg_def Let_def)+

lemma hash_size_pos_iff: "psa_hash_get_size a \<noteq> 0 \<longleftrightarrow> alg_digest a \<noteq> None"
  by (simp add: psa_hash_get_size_def alg_digest_def)

lemma digest_size_bounds: "0 < wc_digest_size w" "wc_digest_size w \<le> WOLFPSA_HASH_MAX_SIZE"
  by (cases w; simp)+

section \<open>The state of an operation\<close>

text \<open>\<open>hash_state V op a m\<close>: an active operation for algorithm \<open>a\<close> that has absorbed the message \<open>m\<close>.\<close>

definition hash_state ::
    "('h \<Rightarrow> wc_digest \<times> byte list) \<Rightarrow> 'h psa_hash_operation_t option \<Rightarrow> psa_algorithm_t \<Rightarrow> byte list \<Rightarrow> bool" where
  "hash_state V op a m \<longleftrightarrow> (\<exists>ctx w. op = Some (Some ctx) \<and> hash_alg ctx = a \<and> alg_digest a = Some w \<and>
    hash_initialized ctx \<and> hash_started ctx \<and> \<not> hash_finalized ctx \<and> V (hash_ctx ctx) = (w, m))"

lemma hash_stateE:
  assumes "hash_state V op a m"
  obtains ctx w where "op = Some (Some ctx)" "hash_alg ctx = a" "alg_digest a = Some w"
    "hash_initialized ctx" "hash_started ctx" "\<not> hash_finalized ctx" "V (hash_ctx ctx) = (w, m)"
  using assms unfolding hash_state_def by (elim exE conjE)

definition chunk_of :: "inbuf \<Rightarrow> bool" where
  "chunk_of x \<longleftrightarrow> (in_null x \<longrightarrow> in_length x = 0) \<and> in_length x \<le> UINT32_MAX"

lemma hash_setup_state:
  assumes ok: "hash_engine_ok E H V" and st: "psa_hash_setup env E (Some None) a s = (PSA_SUCCESS, op, s1)"
  shows "hash_state V op a []"
proof -
  obtain i s0 where i: "wolfPSA_CryptoIsInitialized (env_build env) s = (i, s0)" by fastforce
  obtain b s2 where b: "s_xmalloc s0 = (b, s2)" by fastforce
  have sup: "psa_hash_check_alg_supported a = PSA_SUCCESS"
    using st i by (auto simp: psa_hash_setup_def split: if_split_asm)
  then obtain w where w: "alg_digest a = Some w" using hash_supported_iff by auto
  obtain ret c where rc: "hs_Init E w (init_arg E w) (hs_zero E) = (ret, c)" by fastforce
  have "ret = WC_OK \<and> op = Some (Some \<lparr>hash_alg = a, hash_initialized = True, hash_started = True,
      hash_finalized = False, hash_ctx = c\<rparr>)"
    using st i b rc sup by (auto simp: psa_hash_setup_def hash_switches [OF w] split: if_split_asm)
  then show ?thesis using hash_engine_okD(2) [OF ok] rc w by (auto simp: hash_state_def)
qed

lemma hash_update_state:
  assumes ok: "hash_engine_ok E H V" and h: "hash_state V op a m" and u: "psa_hash_update E op x = (PSA_SUCCESS, op1)"
  shows "hash_state V op1 a (m @ in_bytes x)"
proof -
  obtain ctx w where c: "op = Some (Some ctx)" "hash_alg ctx = a" "alg_digest a = Some w"
    "hash_initialized ctx" "hash_started ctx" "\<not> hash_finalized ctx" "V (hash_ctx ctx) = (w, m)"
    using h by (rule hash_stateE)
  obtain ret c' where r: "hs_Update E w (in_bytes x) (hash_ctx ctx) = (ret, c')" by fastforce
  have "ret = WC_OK \<and> op1 = Some (Some (ctx\<lparr>hash_ctx := c'\<rparr>))"
    using u c(1,2,4-7) r
    by (auto simp: hash_switches [OF c(3) [folded c(2)]] psa_hash_update_def psa_hash_get_ctx_def wolfpsa_hash_fail_def split: if_split_asm)
  then show ?thesis using c r hash_engine_okD(3) [OF ok c(7)] by (auto simp: hash_state_def)
qed

lemma hash_update_succeeds:
  assumes "hash_never_fails E" "hash_state V op a m" "chunk_of x"
  shows "fst (psa_hash_update E op x) = PSA_SUCCESS"
proof -
  obtain ctx w where c: "op = Some (Some ctx)" "hash_alg ctx = a" "alg_digest a = Some w"
    "hash_initialized ctx" "hash_started ctx" "\<not> hash_finalized ctx" "V (hash_ctx ctx) = (w, m)"
    using assms(2) by (rule hash_stateE)
  have "fst (hs_Update E w (in_bytes x) (hash_ctx ctx)) = WC_OK" using assms(1) by (simp add: hash_never_fails_def)
  with c(1,2,4-7) assms(3) show ?thesis
    by (auto simp: hash_switches [OF c(3) [folded c(2)]] psa_hash_update_def psa_hash_get_ctx_def chunk_of_def split: prod.splits)
qed

text \<open>The outcome of finishing an active operation: too small a buffer, wolfCrypt's failure, or the digest.\<close>

lemma hash_finish_state:
  assumes ok: "hash_engine_ok E H V" and h: "hash_state V op a m" and f: "psa_hash_finish E op out (Some l) = (st, bs, n, op1)"
    and w: "alg_digest a = Some w"
  shows "op1 = Some None"
    and "st = PSA_SUCCESS \<Longrightarrow> bs = H w m \<and> n = Some (wc_digest_size w) \<and> wc_digest_size w \<le> out_size out"
    and "hash_never_fails E \<Longrightarrow> \<not> out_null out \<Longrightarrow>
      st = (if wc_digest_size w \<le> out_size out then PSA_SUCCESS else PSA_ERROR_BUFFER_TOO_SMALL)"
proof -
  obtain ctx where c: "op = Some (Some ctx)" "hash_alg ctx = a"
    "hash_initialized ctx" "hash_started ctx" "\<not> hash_finalized ctx" "V (hash_ctx ctx) = (w, m)"
    using h w by (elim hash_stateE) simp
  obtain ret d where r: "hs_Final E w (final_arg w) (hash_ctx ctx) = (ret, d)" by fastforce
  note e = f [unfolded psa_hash_finish_def psa_hash_get_ctx_def Let_def c(1) option.case wolfpsa_clear_length_def]
  note sw = hash_switches [OF w [folded c(2)]] wolfpsa_hash_fail_def psa_hash_abort_def psa_hash_get_ctx_def
  show "op1 = Some None"
    using e c r digest_size_bounds(1) [of w] by (auto simp: sw split: if_split_asm prod.splits)
  show "bs = H w m \<and> n = Some (wc_digest_size w) \<and> wc_digest_size w \<le> out_size out" if "st = PSA_SUCCESS"
    using e c r digest_size_bounds(1) [of w] that hash_engine_okD(4) [OF ok c(6)] by (auto simp: sw split: if_split_asm prod.splits)
  show "st = (if wc_digest_size w \<le> out_size out then PSA_SUCCESS else PSA_ERROR_BUFFER_TOO_SMALL)"
    if "hash_never_fails E" "\<not> out_null out"
  proof -
    have "ret = WC_OK" using that(1) r by (metis fst_conv hash_never_fails_def)
    then show ?thesis using e c r digest_size_bounds(1) [of w] that(2) by (auto simp: sw split: if_split_asm prod.splits)
  qed
qed

lemma hash_clone_state:
  assumes ok: "hash_engine_ok E H V" and h: "hash_state V op a m"
    and c: "psa_hash_clone E op (Some None) s = (PSA_SUCCESS, op1, s1)"
  shows "hash_state V op1 a m"
proof -
  obtain ctx w where x: "op = Some (Some ctx)" "hash_alg ctx = a" "alg_digest a = Some w"
    "hash_initialized ctx" "hash_started ctx" "\<not> hash_finalized ctx" "V (hash_ctx ctx) = (w, m)"
    using h by (rule hash_stateE)
  obtain b s2 where b: "s_xmalloc s = (b, s2)" by fastforce
  obtain ret c' where r: "hash_copy_switch E (hash_alg ctx) (hash_ctx ctx) = Some (ret, c')"
    using hash_switches(6) [OF x(3) [folded x(2)], of E "hash_ctx ctx"] by (cases "hs_Copy E w (hash_ctx ctx)") (auto split: if_split_asm)
  have e: "ret = WC_OK" "op1 = Some (Some \<lparr>hash_alg = a, hash_initialized = True, hash_started = True,
      hash_finalized = False, hash_ctx = c'\<rparr>)"
    using c x(1,2,4-6) b r by (auto simp: psa_hash_clone_def psa_hash_get_ctx_def split: if_split_asm)
  have "V c' = (w, m)"
    using r e(1) x(7) hash_engine_okD(5) [OF ok x(7), of c']
    by (auto simp: hash_switches(6) [OF x(3) [folded x(2)]] split: if_split_asm)
  then show ?thesis using e(2) x(3) by (simp add: hash_state_def)
qed

section \<open>Messages in pieces\<close>

fun hash_updates ::
    "'h hash_engine \<Rightarrow> 'h psa_hash_operation_t option \<Rightarrow> inbuf list \<Rightarrow> psa_status \<times> 'h psa_hash_operation_t option" where
  "hash_updates E op [] = (PSA_SUCCESS, op)"
| "hash_updates E op (x # xs) =
    (case psa_hash_update E op x of
       (status, op1) \<Rightarrow> if status \<noteq> PSA_SUCCESS then (status, op1) else hash_updates E op1 xs)"

definition message :: "inbuf list \<Rightarrow> byte list" where
  "message xs = concat (map in_bytes xs)"

lemma message_simps [simp]: "message [] = []" "message (x # xs) = in_bytes x @ message xs"
  by (simp_all add: message_def)

lemma hash_updates_state:
  assumes "hash_engine_ok E H V" "hash_state V op a m" "hash_updates E op xs = (PSA_SUCCESS, op1)"
  shows "hash_state V op1 a (m @ message xs)"
  using assms(2,3)
proof (induction xs arbitrary: op m)
  case (Cons x xs)
  obtain st op0 where u: "psa_hash_update E op x = (st, op0)" by fastforce
  with Cons.prems have "st = PSA_SUCCESS" "hash_updates E op0 xs = (PSA_SUCCESS, op1)" by (auto split: if_split_asm)
  with Cons.IH [OF hash_update_state [OF assms(1) Cons.prems(1)]] u show ?case by simp
qed simp

lemma hash_updates_succeed:
  assumes "hash_engine_ok E H V" "hash_never_fails E" "hash_state V op a m" "list_all chunk_of xs"
  shows "fst (hash_updates E op xs) = PSA_SUCCESS"
  using assms(3,4)
proof (induction xs arbitrary: op m)
  case (Cons x xs)
  obtain op0 where u: "psa_hash_update E op x = (PSA_SUCCESS, op0)"
    using hash_update_succeeds [OF assms(2) Cons.prems(1), of x] Cons.prems(2)
    by (cases "psa_hash_update E op x") simp
  with Cons.IH [OF hash_update_state [OF assms(1) Cons.prems(1) u]] Cons.prems(2) show ?case by simp
qed simp

text \<open>
  C24: A message hashed in pieces, in whatever cut and with clones taken on the way, gives the
  digest of what each operation was fed: after a common prefix, an operation and its clone that
  continue differently finish with the digests of their own messages, and the length is the
  digest's; both operations end. With a wolfCrypt that does not fail, finishing succeeds exactly
  when the buffer is large enough.
\<close>

theorem hash_clone_digests:
  assumes ok: "hash_engine_ok E H V"
    and "psa_hash_setup env E (Some None) a s = (PSA_SUCCESS, op, s1)"
    and "hash_updates E op xs = (PSA_SUCCESS, op1)"
    and "psa_hash_clone E op1 (Some None) s2 = (PSA_SUCCESS, op2, s3)"
    and "hash_updates E op1 ys = (PSA_SUCCESS, op3)" "hash_updates E op2 zs = (PSA_SUCCESS, op4)"
    and f: "psa_hash_finish E op3 (Out n3) (Some l3) = (st3, bs3, len3, op5)"
      "psa_hash_finish E op4 (Out n4) (Some l4) = (st4, bs4, len4, op6)"
  shows "\<exists>w. alg_digest a = Some w \<and>
    (st3 = PSA_SUCCESS \<longrightarrow> bs3 = H w (message (xs @ ys)) \<and> len3 = Some (length bs3)) \<and>
    (st4 = PSA_SUCCESS \<longrightarrow> bs4 = H w (message (xs @ zs)) \<and> len4 = Some (length bs4)) \<and>
    (hash_never_fails E \<longrightarrow> st3 = (if n3 < wc_digest_size w then PSA_ERROR_BUFFER_TOO_SMALL else PSA_SUCCESS) \<and>
       st4 = (if n4 < wc_digest_size w then PSA_ERROR_BUFFER_TOO_SMALL else PSA_SUCCESS)) \<and>
    op5 = Some None \<and> op6 = Some None"
proof -
  have h1: "hash_state V op1 a (message xs)"
    using hash_updates_state [OF ok hash_setup_state [OF ok assms(2)] assms(3)] by simp
  have h3: "hash_state V op3 a (message xs @ message ys)" by (rule hash_updates_state [OF ok h1 assms(5)])
  have h4: "hash_state V op4 a (message xs @ message zs)"
    by (rule hash_updates_state [OF ok hash_clone_state [OF ok h1 assms(4)] assms(6)])
  obtain w where w: "alg_digest a = Some w" using h1 by (elim hash_stateE)
  note F = hash_finish_state [OF ok h3 f(1) w] hash_finish_state [OF ok h4 f(2) w]
  show ?thesis
  proof (intro exI [of _ w] conjI)
    show "st3 = PSA_SUCCESS \<longrightarrow> bs3 = H w (message (xs @ ys)) \<and> len3 = Some (length bs3)"
      using F(2) hash_engine_okD(1) [OF ok] by (simp add: message_def)
    show "st4 = PSA_SUCCESS \<longrightarrow> bs4 = H w (message (xs @ zs)) \<and> len4 = Some (length bs4)"
      using F(5) hash_engine_okD(1) [OF ok] by (simp add: message_def)
    show "hash_never_fails E \<longrightarrow> st3 = (if n3 < wc_digest_size w then PSA_ERROR_BUFFER_TOO_SMALL else PSA_SUCCESS) \<and>
        st4 = (if n4 < wc_digest_size w then PSA_ERROR_BUFFER_TOO_SMALL else PSA_SUCCESS)"
      using F(3,6) by (simp add: not_less)
  qed (rule w F(1,4))+
qed

section \<open>One-shot calls\<close>

lemma hash_compute_digest:
  assumes ok: "hash_engine_ok E H V" and w: "alg_digest a = Some w"
    and c: "psa_hash_compute env E a x (Out n) (Some l) s = (st, bs, len, s1)"
  shows "st = PSA_SUCCESS \<Longrightarrow> bs = H w (in_bytes x) \<and> len = Some (wc_digest_size w)"
proof -
  obtain i s2 where i: "wolfPSA_CryptoIsInitialized (env_build env) s = (i, s2)" by fastforce
  obtain st1 op s3 where su: "psa_hash_setup env E (Some None) a s2 = (st1, op, s3)" by (metis prod_cases3)
  obtain st2 op2 where u: "psa_hash_update E op x = (st2, op2)" by fastforce
  obtain st3 bs3 len3 op3 where f: "psa_hash_finish E op2 (Out n) (Some 0) = (st3, bs3, len3, op3)" by (metis prod_cases4)
  assume "st = PSA_SUCCESS"
  then have e: "st1 = PSA_SUCCESS" "st2 = PSA_SUCCESS" "st3 = PSA_SUCCESS" "bs = bs3" "len = len3"
    using c i su u f by (auto simp: psa_hash_compute_def wolfpsa_clear_length_def Let_def split: if_split_asm)
  have h: "hash_state V op2 a (in_bytes x)"
    using hash_update_state [OF ok hash_setup_state [OF ok su [unfolded e(1)]] u [unfolded e(2)]] by simp
  from hash_finish_state(2) [OF ok h f w e(3)] e show "bs = H w (in_bytes x) \<and> len = Some (wc_digest_size w)" by simp
qed

text \<open>
  A ready library: initialised, and neither the mutex nor an allocation fails.
\<close>

lemma hash_compute_succeeds:
  assumes ok: "hash_engine_ok E H V" and nf: "hash_never_fails E" and w: "alg_digest a = Some w"
    and i: "wolfPSA_CryptoIsInitialized (env_build env) s = (True, s1)"
      "wolfPSA_CryptoIsInitialized (env_build env) s1 = (True, s2)" and m: "s_xmalloc s2 = (True, s3)"
    and x: "chunk_of x" and n: "wc_digest_size w \<le> n"
  shows "psa_hash_compute env E a x (Out n) (Some l) s = (PSA_SUCCESS, H w (in_bytes x), Some (wc_digest_size w), s3)"
proof -
  obtain c where c: "hs_Init E w (init_arg E w) (hs_zero E) = (WC_OK, c)"
    using nf by (metis hash_never_fails_def prod.collapse)
  obtain op where su: "psa_hash_setup env E (Some None) a s1 = (PSA_SUCCESS, op, s3)"
    using i(2) m c w by (simp add: psa_hash_setup_def hash_switches [OF w] hash_supported_iff)
  note h = hash_setup_state [OF ok su]
  obtain op2 where u: "psa_hash_update E op x = (PSA_SUCCESS, op2)"
    using hash_update_succeeds [OF nf h x] by (cases "psa_hash_update E op x") simp
  have h2: "hash_state V op2 a (in_bytes x)" using hash_update_state [OF ok h u] by simp
  obtain st3 bs3 len3 op3 where f: "psa_hash_finish E op2 (Out n) (Some 0) = (st3, bs3, len3, op3)" by (metis prod_cases4)
  have "st3 = PSA_SUCCESS" using hash_finish_state(3) [OF ok h2 f w nf] n by simp
  with hash_finish_state(2) [OF ok h2 f w] show ?thesis
    using i(1) su u f by (simp add: psa_hash_compute_def wolfpsa_clear_length_def)
qed

text \<open>
  Comparing with a reference digest accepts nothing but the digest of the message, whatever
  wolfCrypt and the allocator do; and in an initialised library whose calls do not fail it
  accepts exactly it, reports a mismatch of content or of length as an invalid signature, and
  rejects a NULL reference of the right length as an invalid argument.
\<close>

theorem hash_compare_exact:
  assumes ok: "hash_engine_ok E H V" and w: "alg_digest a = Some w"
    and c: "psa_hash_compare env E a x hash s = (st, s')"
  shows "(st = PSA_SUCCESS \<longrightarrow> hash = In (H w (in_bytes x))) \<and>
    (hash_never_fails E \<and> chunk_of x \<and> wolfPSA_CryptoIsInitialized (env_build env) s = (True, s) \<and>
       fst (s_xmalloc s) \<longrightarrow>
     st = (if in_length hash \<noteq> wc_digest_size w then PSA_ERROR_INVALID_SIGNATURE
           else if in_null hash then PSA_ERROR_INVALID_ARGUMENT
           else if hash = In (H w (in_bytes x)) then PSA_SUCCESS else PSA_ERROR_INVALID_SIGNATURE))"
proof -
  obtain i s1 where i: "wolfPSA_CryptoIsInitialized (env_build env) s = (i, s1)" by fastforce
  obtain st1 bs len s2 where d: "psa_hash_compute env E a x (Out WOLFPSA_HASH_MAX_SIZE) (Some 0) s1 = (st1, bs, len, s2)"
    by (metis prod_cases4)
  note D = hash_compute_digest [OF ok w d]
  note e = c [unfolded psa_hash_compare_def i prod.case d]
  have L: "length (H w m) = wc_digest_size w" for m using hash_engine_okD(1) [OF ok] .
  have t: "take (wc_digest_size w) (H w m) = H w m" for m by (simp add: L)
  have acc: "hash = In (H w (in_bytes x))" if "st = PSA_SUCCESS"
    using e that D digest_size_bounds(1) [of w]
    by (cases hash) (auto simp: hash_switches [OF w] t L split: if_split_asm)
  have "st = (if in_length hash \<noteq> wc_digest_size w then PSA_ERROR_INVALID_SIGNATURE
           else if in_null hash then PSA_ERROR_INVALID_ARGUMENT
           else if hash = In (H w (in_bytes x)) then PSA_SUCCESS else PSA_ERROR_INVALID_SIGNATURE)"
    if r: "hash_never_fails E" "chunk_of x" "wolfPSA_CryptoIsInitialized (env_build env) s = (True, s)" "fst (s_xmalloc s)"
  proof -
    obtain s3 where m: "s_xmalloc s = (True, s3)" using r(4) by (cases "s_xmalloc s") simp
    have "i" "s1 = s" using i r(3) by simp_all
    with hash_compute_succeeds [OF ok r(1) w r(3,3) m r(2) digest_size_bounds(2)] d
    have "st1 = PSA_SUCCESS" "bs = H w (in_bytes x)" "len = Some (wc_digest_size w)" by simp_all
    with e \<open>i\<close> digest_size_bounds(1) [of w] show ?thesis
      by (cases hash) (auto simp: hash_switches [OF w] t L split: if_split_asm)
  qed
  with acc show ?thesis by blast
qed

section \<open>A concrete engine\<close>

definition demo_digest :: "wc_digest \<Rightarrow> byte list \<Rightarrow> byte list" where
  "demo_digest w m = take (wc_digest_size w) (m @ replicate 64 0)"

definition demo_hash :: "(wc_digest \<times> byte list) hash_engine" where
  "demo_hash =
    \<lparr>hs_devid = 0, hs_zero = (Wc_Md5, []), hs_Init = (\<lambda>w d c. (WC_OK, (w, []))),
     hs_Update = (\<lambda>w x c. (WC_OK, (fst c, snd c @ x))),
     hs_Final = (\<lambda>w n c. (WC_OK, demo_digest (fst c) (snd c))), hs_Copy = (\<lambda>w c. (WC_OK, c))\<rparr>"

lemma demo_hash_ok: "hash_engine_ok demo_hash demo_digest (\<lambda>c. c)" "hash_never_fails demo_hash"
proof -
  have "length (demo_digest w m) = wc_digest_size w" for w m
    using digest_size_bounds(2) [of w] by (simp add: demo_digest_def)
  then show "hash_engine_ok demo_hash demo_digest (\<lambda>c. c)" by (simp add: hash_engine_ok_def demo_hash_def)
  show "hash_never_fails demo_hash" by (simp add: hash_never_fails_def demo_hash_def)
qed

abbreviation demo_hash_ks :: "unit posix_state key_store" where
  "demo_hash_ks \<equiv> demo_with (demo_attr 5 0) demo_key"

lemma demo_initialized: "wolfPSA_CryptoIsInitialized default_build demo_hash_ks = (True, demo_hash_ks)"
  by simp

definition demo_hash_op :: "byte list \<Rightarrow> (wc_digest \<times> byte list) psa_hash_operation_t option" where
  "demo_hash_op m = Some (Some \<lparr>hash_alg = PSA_ALG_SHA_256, hash_initialized = True, hash_started = True,
     hash_finalized = False, hash_ctx = (Wc_Sha256, m)\<rparr>)"

lemma demo_hash_setup:
  "psa_hash_setup demo_env demo_hash (Some None) PSA_ALG_SHA_256 demo_hash_ks = (PSA_SUCCESS, demo_hash_op [], demo_hash_ks)"
  using demo_initialized
  by (simp add: psa_hash_setup_def demo_hash_op_def psa_defs psa_hash_check_alg_supported_def hash_init_switch_def demo_hash_def)

lemma demo_hash_calls:
  "psa_hash_update demo_hash (demo_hash_op m) (In [x]) = (PSA_SUCCESS, demo_hash_op (m @ [x]))"
  "psa_hash_clone demo_hash (demo_hash_op m) (Some None) demo_hash_ks = (PSA_SUCCESS, demo_hash_op m, demo_hash_ks)"
  "psa_hash_finish demo_hash (demo_hash_op m) (Out 32) (Some 0) = (PSA_SUCCESS, demo_digest Wc_Sha256 m, Some 32, Some None)"
  by (simp_all add: psa_hash_update_def psa_hash_clone_def psa_hash_finish_def psa_hash_get_ctx_def demo_hash_op_def
      hash_update_switch_def hash_copy_switch_def hash_final_switch_def psa_hash_get_size_def demo_hash_def
      wolfpsa_clear_length_def Let_def)

theorem hash_clone_digests_witness:
  "psa_hash_finish demo_hash (demo_hash_op [1, 2]) (Out 32) (Some 0) =
     (PSA_SUCCESS, demo_digest Wc_Sha256 (message ([In [1]] @ [In [2]])), Some 32, Some None) \<and>
   psa_hash_finish demo_hash (demo_hash_op [1, 3]) (Out 32) (Some 0) =
     (PSA_SUCCESS, demo_digest Wc_Sha256 (message ([In [1]] @ [In [3]])), Some 32, Some None)"
proof -
  have u: "hash_updates demo_hash (demo_hash_op []) [In [1]] = (PSA_SUCCESS, demo_hash_op [1])"
    "hash_updates demo_hash (demo_hash_op [1]) [In [y]] = (PSA_SUCCESS, demo_hash_op [1, y])" for y
    by (simp_all add: demo_hash_calls)
  have d: "alg_digest PSA_ALG_SHA_256 = Some Wc_Sha256" by (simp add: alg_digest_def)
  from hash_clone_digests [OF demo_hash_ok(1) demo_hash_setup u(1) demo_hash_calls(2) u(2) u(2)
      demo_hash_calls(3) demo_hash_calls(3), of 2 3] d
  show ?thesis by (simp add: demo_hash_calls)
qed

theorem hash_compare_exact_witness:
  "fst (psa_hash_compare demo_env demo_hash PSA_ALG_SHA_256 (In [7]) (In (demo_digest Wc_Sha256 [7])) demo_hash_ks) = PSA_SUCCESS \<and>
   fst (psa_hash_compare demo_env demo_hash PSA_ALG_SHA_256 (In [7]) (In (replicate 32 1)) demo_hash_ks) = PSA_ERROR_INVALID_SIGNATURE"
proof -
  have d: "alg_digest PSA_ALG_SHA_256 = Some Wc_Sha256" by (simp add: alg_digest_def)
  have l: "length (demo_digest Wc_Sha256 [7]) = 32" "demo_digest Wc_Sha256 [7] \<noteq> replicate 32 1"
    by (simp_all add: demo_digest_def numeral_eq_Suc)
  note X = hash_compare_exact [OF demo_hash_ok(1) d surjective_pairing, of demo_env "In [7]" _ demo_hash_ks]
  have "chunk_of (In [7])" by (simp add: chunk_of_def)
  with X [of "In (demo_digest Wc_Sha256 [7])"] X [of "In (replicate 32 1)"] demo_hash_ok(2) demo_initialized l
  show ?thesis by simp
qed

end
