(* ===== verification/Xof.thy ===== *)
theory Xof
  imports Hash
begin

text \<open>
  \<open>src/psa_xof.c\<close>: extendable-output functions. All input is collected and absorbed by one call
  when the first output is asked for; output is served from a one-block staging buffer and by
  squeezing whole blocks straight into the caller's buffer. wolfCrypt's SHAKE is a parameter
  (\<open>xof_engine\<close>, \<open>xof_engine_ok\<close>). The loops of the source are \<open>partial_function\<close>s, whose value
  \<open>None\<close> is a loop that does not end.
\<close>

unbundle bit_operations_syntax

section \<open>Contexts\<close>

definition PSA_ALG_IS_XOF :: "psa_algorithm_t \<Rightarrow> bool" where
  [psa_defs]: "PSA_ALG_IS_XOF a \<longleftrightarrow> a AND 0x7f000000 = 0x0D000000"

definition PSA_ALG_XOF_HAS_CONTEXT :: "psa_algorithm_t \<Rightarrow> bool" where
  [psa_defs]: "PSA_ALG_XOF_HAS_CONTEXT a \<longleftrightarrow> a AND 0x00008000 \<noteq> 0"

abbreviation SHAKE128_BLOCK_SIZE :: nat where "SHAKE128_BLOCK_SIZE \<equiv> 168"
abbreviation SHAKE256_BLOCK_SIZE :: nat where "SHAKE256_BLOCK_SIZE \<equiv> 136"

text \<open>
  \<open>xof_ibuf\<close> holds the \<open>ibuf_len\<close> bytes written to the input buffer, \<open>xof_ibuf_cap\<close> its size; the
  pointer is NULL exactly when the size is 0.
\<close>

record 'k psa_xof_operation_ctx =
  xof_alg :: psa_algorithm_t
  xof_shake :: 'k
  xof_squeezing :: bool
  xof_block_size :: nat
  xof_buf :: "byte list"
  xof_buf_off :: nat
  xof_buf_len :: nat
  xof_ibuf :: "byte list"
  xof_ibuf_cap :: nat

type_synonym 'k psa_xof_operation_t = "'k psa_xof_operation_ctx option"

datatype shake = Shake128 | Shake256

text \<open>
  wolfCrypt's \<open>wc_InitShake\<close>, \<open>wc_Shake_Absorb\<close> and \<open>wc_Shake_SqueezeBlocks\<close>, in their 128 and
  256 variants; squeezing gives the bytes it writes.
\<close>

record 'k xof_engine =
  xo_devid :: int
  xo_zero :: 'k
  xo_Init :: "shake \<Rightarrow> int \<Rightarrow> 'k \<Rightarrow> wc_ret \<times> 'k"
  xo_Absorb :: "shake \<Rightarrow> byte list \<Rightarrow> 'k \<Rightarrow> wc_ret \<times> 'k"
  xo_SqueezeBlocks :: "shake \<Rightarrow> nat \<Rightarrow> 'k \<Rightarrow> wc_ret \<times> byte list \<times> 'k"

definition c_word32 :: "nat \<Rightarrow> nat" where "c_word32 n = n mod 2 ^ 32"

definition psa_xof_get_ctx :: "'k psa_xof_operation_t option \<Rightarrow> 'k psa_xof_operation_ctx option" where
  "psa_xof_get_ctx op = (case op of None \<Rightarrow> None | Some ctx \<Rightarrow> ctx)"

definition psa_xof_abort ::
    "'k psa_xof_operation_t option \<Rightarrow> psa_status \<times> 'k psa_xof_operation_t option" where
  "psa_xof_abort op =
    (if op = None then (PSA_ERROR_INVALID_ARGUMENT, op)
     else if psa_xof_get_ctx op = None then (PSA_SUCCESS, op)
     else (PSA_SUCCESS, Some None))"

definition wolfpsa_xof_fail ::
    "'k psa_xof_operation_t option \<Rightarrow> psa_status \<Rightarrow> psa_status \<times> 'k psa_xof_operation_t option" where
  "wolfpsa_xof_fail op status = (status, snd (psa_xof_abort op))"

section \<open>Set-up and input\<close>

definition psa_xof_setup ::
    "('st, 'f) psa_env \<Rightarrow> 'k xof_engine \<Rightarrow> 'k psa_xof_operation_t option \<Rightarrow> psa_algorithm_t \<Rightarrow> 'st key_store \<Rightarrow>
     psa_status \<times> 'k psa_xof_operation_t option \<times> 'st key_store" where
  "psa_xof_setup env E op a s =
    (if op = None then (PSA_ERROR_INVALID_ARGUMENT, op, s)
     else
       (case wolfPSA_CryptoIsInitialized (env_build env) s of
          (initialized, s1) \<Rightarrow>
            if \<not> initialized then (PSA_ERROR_BAD_STATE, op, s1)
            else if \<not> PSA_ALG_IS_XOF a then (PSA_ERROR_INVALID_ARGUMENT, op, s1)
            else if a = PSA_ALG_ASCON_XOF128 \<or> a = PSA_ALG_ASCON_CXOF128 then (PSA_ERROR_NOT_SUPPORTED, op, s1)
            else if a \<noteq> PSA_ALG_SHAKE128 \<and> a \<noteq> PSA_ALG_SHAKE256 then (PSA_ERROR_NOT_SUPPORTED, op, s1)
            else if op \<noteq> Some None then (PSA_ERROR_BAD_STATE, op, s1)
            else
              (case s_xmalloc s1 of
                 (ok, s2) \<Rightarrow>
                   if \<not> ok then (PSA_ERROR_INSUFFICIENT_MEMORY, op, s2)
                   else
                     (let (block_size, ret, k) =
                        (if a = PSA_ALG_SHAKE128
                         then (SHAKE128_BLOCK_SIZE, xo_Init E Shake128 (xo_devid E) (xo_zero E))
                         else (SHAKE256_BLOCK_SIZE, xo_Init E Shake256 (xo_devid E) (xo_zero E)))
                      in if ret \<noteq> WC_OK then (wc_error_to_psa_status ret, op, s2)
                         else (PSA_SUCCESS,
                               Some (Some \<lparr>xof_alg = a, xof_shake = k, xof_squeezing = False,
                                 xof_block_size = block_size, xof_buf = replicate 168 0, xof_buf_off = 0,
                                 xof_buf_len = 0, xof_ibuf = [], xof_ibuf_cap = 0\<rparr>), s2)))))"

definition psa_xof_set_context ::
    "'k psa_xof_operation_t option \<Rightarrow> inbuf \<Rightarrow> psa_status \<times> 'k psa_xof_operation_t option" where
  "psa_xof_set_context op context =
    (if op = None then (PSA_ERROR_INVALID_ARGUMENT, op)
     else
       (case psa_xof_get_ctx op of
          None \<Rightarrow> wolfpsa_xof_fail op PSA_ERROR_BAD_STATE
        | Some ctx \<Rightarrow>
            if \<not> PSA_ALG_XOF_HAS_CONTEXT (xof_alg ctx) then wolfpsa_xof_fail op PSA_ERROR_INVALID_ARGUMENT
            else if xof_squeezing ctx \<or> xof_ibuf ctx \<noteq> [] then wolfpsa_xof_fail op PSA_ERROR_BAD_STATE
            else wolfpsa_xof_fail op PSA_ERROR_INVALID_ARGUMENT))"

text \<open>The doubling loop of \<open>psa_xof_ibuf_grow\<close>, and the function itself (\<open>False\<close>: no memory).\<close>

partial_function (option) xof_grow_cap :: "nat \<Rightarrow> nat \<Rightarrow> nat option" where
  "xof_grow_cap new_cap need =
    (if new_cap < need
     then (if new_cap > UINT32_MAX div 2 then Some UINT32_MAX else xof_grow_cap (new_cap * 2) need)
     else Some new_cap)"

definition psa_xof_ibuf_grow ::
    "'k psa_xof_operation_ctx \<Rightarrow> nat \<Rightarrow> 'st key_store \<Rightarrow> (bool \<times> 'k psa_xof_operation_ctx \<times> 'st key_store) option" where
  "psa_xof_ibuf_grow ctx need s =
    (if need \<le> xof_ibuf_cap ctx then Some (True, ctx, s)
     else
       Option.bind (xof_grow_cap (if xof_ibuf_cap ctx \<noteq> 0 then xof_ibuf_cap ctx else 256) need)
         (\<lambda>new_cap. case s_xmalloc s of
            (ok, s1) \<Rightarrow> if \<not> ok then Some (False, ctx, s1) else Some (True, ctx\<lparr>xof_ibuf_cap := new_cap\<rparr>, s1)))"

definition psa_xof_update ::
    "'k psa_xof_operation_t option \<Rightarrow> inbuf \<Rightarrow> 'st key_store \<Rightarrow>
     (psa_status \<times> 'k psa_xof_operation_t option \<times> 'st key_store) option" where
  "psa_xof_update op input s =
    (let fail = (\<lambda>status. case wolfpsa_xof_fail op status of (st, op1) \<Rightarrow> Some (st, op1, s)) in
     if op = None \<or> in_null input \<and> in_length input > 0 then fail PSA_ERROR_INVALID_ARGUMENT
     else
       (case psa_xof_get_ctx op of
          None \<Rightarrow> fail PSA_ERROR_BAD_STATE
        | Some ctx \<Rightarrow>
            if xof_squeezing ctx then fail PSA_ERROR_BAD_STATE
            else if in_length input = 0 then Some (PSA_SUCCESS, op, s)
            else if wolfpsa_check_word32_length (in_length input) \<noteq> PSA_SUCCESS then fail PSA_ERROR_INVALID_ARGUMENT
            else if in_length input > UINT32_MAX - length (xof_ibuf ctx) then fail PSA_ERROR_INVALID_ARGUMENT
            else
              Option.bind (psa_xof_ibuf_grow ctx (length (xof_ibuf ctx) + in_length input) s)
                (\<lambda>(ok, ctx1, s1).
                   if \<not> ok
                   then (case wolfpsa_xof_fail op PSA_ERROR_INSUFFICIENT_MEMORY of (st, op1) \<Rightarrow> Some (st, op1, s1))
                   else Some (PSA_SUCCESS, Some (Some (ctx1\<lparr>xof_ibuf := xof_ibuf ctx1 @ in_bytes input\<rparr>)), s1))))"

section \<open>Output\<close>

definition xof_absorb_switch :: "'k xof_engine \<Rightarrow> psa_algorithm_t \<Rightarrow> byte list \<Rightarrow> 'k \<Rightarrow> (wc_ret \<times> 'k) option" where
  "xof_absorb_switch E a x k =
    (if a = PSA_ALG_SHAKE128 then Some (xo_Absorb E Shake128 x k)
     else if a = PSA_ALG_SHAKE256 then Some (xo_Absorb E Shake256 x k)
     else None)"

definition xof_squeeze_switch ::
    "'k xof_engine \<Rightarrow> psa_algorithm_t \<Rightarrow> nat \<Rightarrow> 'k \<Rightarrow> (wc_ret \<times> byte list \<times> 'k) option" where
  "xof_squeeze_switch E a n k =
    (if a = PSA_ALG_SHAKE128 then Some (xo_SqueezeBlocks E Shake128 n k)
     else if a = PSA_ALG_SHAKE256 then Some (xo_SqueezeBlocks E Shake256 n k)
     else None)"

text \<open>The transition to squeezing: one absorb call for the whole input.\<close>

definition xof_start_squeezing ::
    "'k xof_engine \<Rightarrow> 'k psa_xof_operation_ctx \<Rightarrow> psa_status + 'k psa_xof_operation_ctx" where
  "xof_start_squeezing E ctx =
    (case xof_absorb_switch E (xof_alg ctx) (take (c_word32 (length (xof_ibuf ctx))) (xof_ibuf ctx)) (xof_shake ctx) of
       None \<Rightarrow> Inl PSA_ERROR_NOT_SUPPORTED
     | Some (ret, k) \<Rightarrow>
         if ret \<noteq> WC_OK then Inl (wc_error_to_psa_status ret)
         else Inr (ctx\<lparr>xof_shake := k, xof_ibuf := [], xof_ibuf_cap := 0, xof_squeezing := True,
                       xof_buf_off := 0, xof_buf_len := 0\<rparr>))"

text \<open>How many blocks one call asks for, so that neither the count nor the byte product leaves 32 bits.\<close>

definition xof_n_blocks :: "nat \<Rightarrow> nat \<Rightarrow> nat" where
  "xof_n_blocks block_size n =
    (let max_blocks = UINT32_MAX div block_size; n_blocks = n div block_size
     in if n_blocks > max_blocks then max_blocks else n_blocks)"

text \<open>
  Squeezing whole blocks into the caller's buffer: \<open>n\<close> bytes are still wanted, \<open>out\<close> was
  written. A failure gives the status and what was written before.
\<close>

partial_function (option) xof_squeeze_direct ::
    "'k xof_engine \<Rightarrow> 'k psa_xof_operation_ctx \<Rightarrow> nat \<Rightarrow> byte list \<Rightarrow>
     (psa_status \<times> byte list + byte list \<times> nat \<times> 'k psa_xof_operation_ctx) option" where
  "xof_squeeze_direct E ctx n out =
    (if n \<ge> xof_block_size ctx then
       (let n_blocks = xof_n_blocks (xof_block_size ctx) n
        in case xof_squeeze_switch E (xof_alg ctx) (c_word32 n_blocks) (xof_shake ctx) of
             None \<Rightarrow> Some (Inl (PSA_ERROR_NOT_SUPPORTED, out))
           | Some (ret, bs, k) \<Rightarrow>
               if ret \<noteq> WC_OK then Some (Inl (wc_error_to_psa_status ret, out @ bs))
               else xof_squeeze_direct E (ctx\<lparr>xof_shake := k\<rparr>) (n - n_blocks * xof_block_size ctx) (out @ bs))
     else Some (Inr (out, n, ctx)))"

partial_function (option) xof_serve ::
    "'k xof_engine \<Rightarrow> 'k psa_xof_operation_ctx \<Rightarrow> nat \<Rightarrow> byte list \<Rightarrow>
     (psa_status \<times> byte list + byte list \<times> 'k psa_xof_operation_ctx) option" where
  "xof_serve E ctx n out =
    (if n = 0 then Some (Inr (out, ctx))
     else if xof_buf_off ctx < xof_buf_len ctx then
       (let avail = xof_buf_len ctx - xof_buf_off ctx;
            m = (if n < avail then n else avail)
        in xof_serve E (ctx\<lparr>xof_buf_off := xof_buf_off ctx + m\<rparr>) (n - m)
             (out @ take m (drop (xof_buf_off ctx) (xof_buf ctx))))
     else
       (let ctx1 = ctx\<lparr>xof_buf_off := 0, xof_buf_len := 0\<rparr>
        in Option.bind
             (if n \<ge> xof_block_size ctx1 then xof_squeeze_direct E ctx1 n out else Some (Inr (out, n, ctx1)))
             (\<lambda>r. case r of
                Inl e \<Rightarrow> Some (Inl e)
              | Inr (out1, n1, ctx2) \<Rightarrow>
                  if n1 = 0 then Some (Inr (out1, ctx2))
                  else
                    (case xof_squeeze_switch E (xof_alg ctx2) 1 (xof_shake ctx2) of
                       None \<Rightarrow> Some (Inl (PSA_ERROR_NOT_SUPPORTED, out1))
                     | Some (ret, bs, k) \<Rightarrow>
                         if ret \<noteq> WC_OK then Some (Inl (wc_error_to_psa_status ret, out1))
                         else xof_serve E
                                (ctx2\<lparr>xof_shake := k, xof_buf := bs @ drop (length bs) (xof_buf ctx2),
                                      xof_buf_len := xof_block_size ctx2, xof_buf_off := 0\<rparr>) n1 out1))))"

definition psa_xof_output ::
    "'k xof_engine \<Rightarrow> 'k psa_xof_operation_t option \<Rightarrow> outbuf \<Rightarrow>
     (psa_status \<times> byte list \<times> 'k psa_xof_operation_t option) option" where
  "psa_xof_output E op output =
    (let fail = (\<lambda>status bs. case wolfpsa_xof_fail op status of (st, op1) \<Rightarrow> Some (st, bs, op1)) in
     if op = None \<or> out_null output \<and> out_size output > 0 then fail PSA_ERROR_INVALID_ARGUMENT []
     else
       (case psa_xof_get_ctx op of
          None \<Rightarrow> fail PSA_ERROR_BAD_STATE []
        | Some ctx \<Rightarrow>
            if out_size output = 0 then Some (PSA_SUCCESS, [], op)
            else
              (case (if \<not> xof_squeezing ctx then xof_start_squeezing E ctx else Inr ctx) of
                 Inl status \<Rightarrow> fail status []
               | Inr ctx1 \<Rightarrow>
                   Option.bind (xof_serve E ctx1 (out_size output) [])
                     (\<lambda>r. case r of
                        Inl (status, bs) \<Rightarrow> fail status bs
                      | Inr (bs, ctx2) \<Rightarrow> Some (PSA_SUCCESS, bs, Some (Some ctx2))))))"

section \<open>The operation as a state machine\<close>

fun xof_rate :: "shake \<Rightarrow> nat" where
  "xof_rate Shake128 = 168"
| "xof_rate Shake256 = 136"

definition shake_of :: "psa_algorithm_t \<Rightarrow> shake option" where
  "shake_of a = (if a = PSA_ALG_SHAKE128 then Some Shake128 else if a = PSA_ALG_SHAKE256 then Some Shake256 else None)"

text \<open>
  The invariant of an active operation: the rate fits the algorithm; the input fits its
  allocation and 32 bits, and is gone once output has started; the staging window lies within
  the 168 bytes of the staging buffer, and is empty before output.
\<close>

definition xof_inv :: "'k psa_xof_operation_ctx \<Rightarrow> bool" where
  "xof_inv ctx \<longleftrightarrow>
    (\<exists>sh. shake_of (xof_alg ctx) = Some sh \<and> xof_block_size ctx = xof_rate sh) \<and>
    length (xof_ibuf ctx) \<le> xof_ibuf_cap ctx \<and> xof_ibuf_cap ctx \<le> UINT32_MAX \<and>
    xof_buf_off ctx \<le> xof_buf_len ctx \<and> xof_buf_len ctx \<le> 168 \<and>
    (if xof_squeezing ctx then xof_ibuf_cap ctx = 0 else xof_buf_len ctx = 0)"

lemma shake_of_cases:
  assumes "shake_of a = Some sh"
  obtains "a = PSA_ALG_SHAKE128" "sh = Shake128" | "a = PSA_ALG_SHAKE256" "sh = Shake256"
  using assms by (auto simp: shake_of_def split: if_split_asm)

lemma xof_switches:
  assumes "shake_of a = Some sh"
  shows "xof_absorb_switch E a x k = Some (xo_Absorb E sh x k)"
    "xof_squeeze_switch E a n k = Some (xo_SqueezeBlocks E sh n k)"
  by (cases rule: shake_of_cases [OF assms]; simp add: xof_absorb_switch_def xof_squeeze_switch_def)+

lemma xof_rate_bounds [simp]: "0 < xof_rate sh" "xof_rate sh \<le> 168" "xof_rate sh \<le> 4294967295"
  by (cases sh; simp)+

datatype xof_call =
    Xof_setup psa_algorithm_t
  | Xof_set_context inbuf
  | Xof_update inbuf
  | Xof_output outbuf
  | Xof_abort

text \<open>A call on an operation; \<open>None\<close> when it does not return.\<close>

fun xof_step ::
    "('st, 'f) psa_env \<Rightarrow> 'k xof_engine \<Rightarrow> xof_call \<Rightarrow> 'k psa_xof_operation_t \<Rightarrow> 'st key_store \<Rightarrow>
     (psa_status \<times> 'k psa_xof_operation_t option \<times> 'st key_store) option" where
  "xof_step env E (Xof_setup a) op s = Some (psa_xof_setup env E (Some op) a s)"
| "xof_step env E (Xof_set_context x) op s =
    (case psa_xof_set_context (Some op) x of (st, op1) \<Rightarrow> Some (st, op1, s))"
| "xof_step env E (Xof_update x) op s = psa_xof_update (Some op) x s"
| "xof_step env E (Xof_output out) op s =
    map_option (\<lambda>(st, bs, op1). (st, op1, s)) (psa_xof_output E (Some op) out)"
| "xof_step env E Xof_abort op s = (case psa_xof_abort (Some op) of (st, op1) \<Rightarrow> Some (st, op1, s))"

inductive xof_reachable :: "('st, 'f) psa_env \<Rightarrow> 'k xof_engine \<Rightarrow> 'k psa_xof_operation_t \<Rightarrow> bool" for env E where
  xof_init: "xof_reachable env E None"
| xof_next: "xof_reachable env E op \<Longrightarrow> xof_step env E call op s = Some (st, Some op', s') \<Longrightarrow> xof_reachable env E op'"

section \<open>The loops end\<close>

lemma xof_grow_cap_returns:
  assumes "0 < c" "need \<le> UINT32_MAX" "c \<le> UINT32_MAX"
  shows "\<exists>r. xof_grow_cap c need = Some r \<and> need \<le> r \<and> r \<le> UINT32_MAX"
  using assms
proof (induction "need - c" arbitrary: c rule: less_induct)
  case less
  show ?case
  proof (cases "c < need \<and> c \<le> UINT32_MAX div 2")
    case True
    have "need - c * 2 < need - c" "c * 2 \<le> UINT32_MAX" using True less.prems by auto
    from less.hyps [OF this(1)] this(2) less.prems show ?thesis
      using True by (subst xof_grow_cap.simps) simp
  next
    case False
    then show ?thesis using less.prems by (subst xof_grow_cap.simps) auto
  qed
qed

lemma xof_n_blocks_bounds:
  assumes "0 < b" "b \<le> UINT32_MAX" "b \<le> n"
  shows "0 < xof_n_blocks b n" "xof_n_blocks b n * b \<le> n" "xof_n_blocks b n \<le> UINT32_MAX"
proof -
  let ?k = "xof_n_blocks b n"
  have "0 < UINT32_MAX div b" "0 < n div b" using assms by (simp_all add: div_greater_zero_iff)
  then show "0 < ?k" by (simp add: xof_n_blocks_def Let_def)
  have "?k \<le> n div b" by (simp add: xof_n_blocks_def Let_def)
  then show "?k * b \<le> n" by (meson div_times_less_eq_dividend le_trans mult_le_mono1)
  have "?k \<le> UINT32_MAX div b" by (simp add: xof_n_blocks_def Let_def)
  then show "?k \<le> UINT32_MAX" using div_le_dividend le_trans by blast
qed

lemma xof_squeeze_direct_returns:
  assumes "0 < xof_block_size ctx" "xof_block_size ctx \<le> UINT32_MAX"
  shows "(\<exists>e. xof_squeeze_direct E ctx n out = Some (Inl e)) \<or>
    (\<exists>out1 n1 k. xof_squeeze_direct E ctx n out = Some (Inr (out1, n1, ctx\<lparr>xof_shake := k\<rparr>)) \<and>
       n1 \<le> n \<and> n1 < xof_block_size ctx)"
  using assms
proof (induction n arbitrary: ctx out rule: less_induct)
  case (less n)
  show ?case
  proof (cases "xof_block_size ctx \<le> n")
    case False
    then have "xof_squeeze_direct E ctx n out = Some (Inr (out, n, ctx\<lparr>xof_shake := xof_shake ctx\<rparr>))"
      by (subst xof_squeeze_direct.simps) simp
    with False show ?thesis by (intro disjI2 exI [of _ out] exI [of _ n] exI [of _ "xof_shake ctx"]) simp
  next
    case True
    let ?k = "xof_n_blocks (xof_block_size ctx) n"
    note D = xof_n_blocks_bounds [OF less.prems True]
    note u = xof_squeeze_direct.simps [of E ctx n out]
    show ?thesis
    proof (cases "xof_squeeze_switch E (xof_alg ctx) (c_word32 ?k) (xof_shake ctx)")
      case None
      then show ?thesis using True u by (simp add: Let_def)
    next
      case (Some r)
      obtain ret bs sk where r: "r = (ret, bs, sk)" by (metis prod_cases3)
      have "n - ?k * xof_block_size ctx < n" using D less.prems True by simp
      from less.IH [OF this, of "ctx\<lparr>xof_shake := sk\<rparr>" "out @ bs"] less.prems
      show ?thesis using True Some r u by (auto simp: Let_def)
    qed
  qed
qed

text \<open>What serving output may change, and that it ends.\<close>

definition xof_serves :: "'k psa_xof_operation_ctx \<Rightarrow> 'k psa_xof_operation_ctx \<Rightarrow> bool" where
  "xof_serves ctx ctx1 \<longleftrightarrow>
    xof_buf_off ctx1 \<le> xof_buf_len ctx1 \<and> xof_buf_len ctx1 \<le> max (xof_buf_len ctx) (xof_block_size ctx) \<and>
    xof_alg ctx1 = xof_alg ctx \<and> xof_block_size ctx1 = xof_block_size ctx \<and> xof_squeezing ctx1 = xof_squeezing ctx \<and>
    xof_ibuf ctx1 = xof_ibuf ctx \<and> xof_ibuf_cap ctx1 = xof_ibuf_cap ctx"

lemma xof_serve_returns:
  assumes "0 < xof_block_size ctx" "xof_block_size ctx \<le> UINT32_MAX" "xof_buf_off ctx \<le> xof_buf_len ctx"
  shows "(\<exists>e. xof_serve E ctx n out = Some (Inl e)) \<or>
    (\<exists>out1 ctx1. xof_serve E ctx n out = Some (Inr (out1, ctx1)) \<and> xof_serves ctx ctx1)"
  using assms
proof (induction "2 * n + (if xof_buf_off ctx < xof_buf_len ctx then 0 else 1)" arbitrary: ctx n out rule: less_induct)
  case less
  note u = xof_serve.simps [of E ctx n out]
  consider "n = 0" | "0 < n" "xof_buf_off ctx < xof_buf_len ctx" | "0 < n" "\<not> xof_buf_off ctx < xof_buf_len ctx" by auto
  then show ?case
  proof cases
    case 1
    then show ?thesis using u less.prems(3) by (auto simp: xof_serves_def)
  next
    case 2
    define m where "m = (if n < xof_buf_len ctx - xof_buf_off ctx then n else xof_buf_len ctx - xof_buf_off ctx)"
    let ?c = "ctx\<lparr>xof_buf_off := xof_buf_off ctx + m\<rparr>"
    have m: "0 < m" "m \<le> n" "xof_buf_off ctx + m \<le> xof_buf_len ctx" using 2 by (auto simp: m_def)
    have e: "xof_serve E ctx n out = xof_serve E ?c (n - m) (out @ take m (drop (xof_buf_off ctx) (xof_buf ctx)))"
      using u 2 by (simp add: m_def Let_def)
    have "xof_serves ctx ctx1" if "xof_serves ?c ctx1" for ctx1
      using that by (auto simp: xof_serves_def)
    moreover have "2 * (n - m) + (if xof_buf_off ?c < xof_buf_len ?c then 0 else 1) <
        2 * n + (if xof_buf_off ctx < xof_buf_len ctx then 0 else 1)"
      using m 2 by (simp, linarith)
    note less.hyps [OF this, of "out @ take m (drop (xof_buf_off ctx) (xof_buf ctx))"]
    ultimately show ?thesis unfolding e using less.prems m by auto
  next
    case 3
    let ?c1 = "ctx\<lparr>xof_buf_off := 0, xof_buf_len := 0\<rparr>"
    let ?direct = "if n \<ge> xof_block_size ?c1 then xof_squeeze_direct E ?c1 n out else Some (Inr (out, n, ?c1))"
    have "(\<exists>e. ?direct = Some (Inl e)) \<or>
        (\<exists>out1 n1 k. ?direct = Some (Inr (out1, n1, ?c1\<lparr>xof_shake := k\<rparr>)) \<and> n1 \<le> n)"
    proof (cases "xof_block_size ?c1 \<le> n")
      case True
      with xof_squeeze_direct_returns [of ?c1 E n out] less.prems show ?thesis by fastforce
    next
      case False
      then show ?thesis by (auto intro!: exI [of _ "xof_shake ctx"])
    qed
    then show ?thesis
    proof (elim disjE exE conjE)
      fix e assume "?direct = Some (Inl e)"
      then show ?thesis using u 3 by (simp add: Let_def)
    next
      fix out1 n1 k
      assume d: "?direct = Some (Inr (out1, n1, ?c1\<lparr>xof_shake := k\<rparr>))" "n1 \<le> n"
      note u1 = u [unfolded Let_def d(1) bind.simps sum.case prod.case]
      obtain sq where sq: "xof_squeeze_switch E (xof_alg ctx) 1 k = sq" by simp
      show ?thesis
      proof (cases "n1 = 0 \<or> sq = None \<or> fst (the sq) \<noteq> WC_OK")
        case True
        then show ?thesis using u1 3 less.prems(3) sq
          by (cases sq) (auto simp: xof_serves_def split: prod.splits)
      next
        case False
        then obtain bs k1 where q: "sq = Some (WC_OK, bs, k1)" by auto
        let ?c2 = "?c1\<lparr>xof_shake := k1, xof_buf := bs @ drop (length bs) (xof_buf ctx), xof_buf_len := xof_block_size ctx,
            xof_buf_off := 0\<rparr>"
        have e: "xof_serve E ctx n out = xof_serve E ?c2 n1 out1" using u1 3 False sq q by simp
        have "xof_serves ctx ctx1" if "xof_serves ?c2 ctx1" for ctx1
          using that by (auto simp: xof_serves_def)
        moreover have "2 * n1 + (if xof_buf_off ?c2 < xof_buf_len ?c2 then 0 else 1) <
            2 * n + (if xof_buf_off ctx < xof_buf_len ctx then 0 else 1)"
          using d(2) 3 less.prems(1) by simp
        note less.hyps [OF this, of out1]
        ultimately show ?thesis unfolding e using less.prems by auto
      qed
    qed
  qed
qed

section \<open>Every sequence of calls\<close>

lemma xof_fail_op: "wolfpsa_xof_fail (Some op) st = (st, Some None)"
  by (cases op) (simp_all add: wolfpsa_xof_fail_def psa_xof_abort_def psa_xof_get_ctx_def)

lemma xof_setup_inv:
  assumes "psa_xof_setup env E (Some op) a s = (st, op', s')"
  shows "\<exists>op1. op' = Some op1 \<and> (op1 = op \<or> (\<forall>ctx. op1 = Some ctx \<longrightarrow> xof_inv ctx))"
  using assms
  by (auto simp: psa_xof_setup_def Let_def xof_inv_def shake_of_def split: if_split_asm prod.splits)

lemma xof_update_inv:
  assumes "\<And>ctx. op = Some ctx \<Longrightarrow> xof_inv ctx"
  shows "\<exists>st op1 s1. psa_xof_update (Some op) x s = Some (st, Some op1, s1) \<and> (\<forall>ctx. op1 = Some ctx \<longrightarrow> xof_inv ctx)"
proof (cases "\<exists>ctx. op = Some ctx \<and> \<not> (in_null x \<and> 0 < in_length x) \<and> \<not> xof_squeezing ctx \<and>
    in_length x \<noteq> 0 \<and> in_length x \<le> UINT32_MAX \<and> in_length x \<le> UINT32_MAX - length (xof_ibuf ctx)")
  case False
  show ?thesis
  proof (cases op)
    case None
    then show ?thesis by (simp add: psa_xof_update_def psa_xof_get_ctx_def xof_fail_op Let_def)
  next
    case (Some ctx)
    then show ?thesis using assms False
      by (simp add: psa_xof_update_def psa_xof_get_ctx_def xof_fail_op Let_def not_less) (intro impI, simp)
  qed
next
  case True
  then obtain ctx where c: "op = Some ctx" "\<not> xof_squeezing ctx" "\<not> in_null x" "in_length x \<noteq> 0"
    "in_length x \<le> UINT32_MAX" "in_length x \<le> UINT32_MAX - length (xof_ibuf ctx)" by auto
  have inv: "xof_inv ctx" by (rule assms [OF c(1)])
  let ?need = "length (xof_ibuf ctx) + in_length x"
  have n: "?need \<le> UINT32_MAX" using c(4,6) by linarith
  have "\<exists>ok cap s1. psa_xof_ibuf_grow ctx ?need s = Some (ok, ctx\<lparr>xof_ibuf_cap := cap\<rparr>, s1) \<and>
      (ok \<longrightarrow> ?need \<le> cap \<and> cap \<le> UINT32_MAX)"
  proof (cases "?need \<le> xof_ibuf_cap ctx")
    case True
    then show ?thesis using inv
      by (intro exI [of _ True] exI [of _ "xof_ibuf_cap ctx"] exI [of _ s]) (simp add: psa_xof_ibuf_grow_def xof_inv_def)
  next
    case False
    let ?c = "if xof_ibuf_cap ctx \<noteq> 0 then xof_ibuf_cap ctx else 256"
    have "0 < ?c" "?c \<le> UINT32_MAX" using inv by (simp_all add: xof_inv_def)
    from xof_grow_cap_returns [OF this(1) n this(2)]
    obtain r where r: "xof_grow_cap ?c ?need = Some r" "?need \<le> r" "r \<le> UINT32_MAX" by blast
    obtain ok s1 where m: "s_xmalloc s = (ok, s1)" by fastforce
    have "psa_xof_ibuf_grow ctx ?need s = Some (ok, ctx\<lparr>xof_ibuf_cap := if ok then r else xof_ibuf_cap ctx\<rparr>, s1)"
      using r(1) m False by (simp add: psa_xof_ibuf_grow_def)
    with r(2,3) show ?thesis by (intro exI [of _ ok] exI [of _ "if ok then r else xof_ibuf_cap ctx"] exI [of _ s1]) simp
  qed
  then obtain ok cap s1 where g: "psa_xof_ibuf_grow ctx ?need s = Some (ok, ctx\<lparr>xof_ibuf_cap := cap\<rparr>, s1)"
    "ok \<Longrightarrow> ?need \<le> cap \<and> cap \<le> UINT32_MAX" by blast
  have l: "length (in_bytes x) = in_length x" using c(3) by (cases x) simp_all
  show ?thesis
  proof (cases ok)
    case True
    have "xof_inv (ctx\<lparr>xof_ibuf_cap := cap, xof_ibuf := xof_ibuf ctx @ in_bytes x\<rparr>)"
      using inv g(2) [OF True] c(2) l by (simp add: xof_inv_def)
    then show ?thesis using True c g(1)
      by (auto simp: psa_xof_update_def psa_xof_get_ctx_def Let_def)
  next
    case False
    then show ?thesis using c g(1)
      by (auto simp: psa_xof_update_def psa_xof_get_ctx_def xof_fail_op Let_def)
  qed
qed

lemma xof_output_inv:
  assumes inv: "\<And>ctx. op = Some ctx \<Longrightarrow> xof_inv ctx"
  shows "\<exists>st bs op1. psa_xof_output E (Some op) out = Some (st, bs, Some op1) \<and> (\<forall>ctx. op1 = Some ctx \<longrightarrow> xof_inv ctx)"
proof (cases "\<exists>ctx ctx1. op = Some ctx \<and> \<not> out_null out \<and> out_size out \<noteq> 0 \<and>
    (if \<not> xof_squeezing ctx then xof_start_squeezing E ctx else Inr ctx) = Inr ctx1")
  case False
  then show ?thesis using inv
    by (cases op; cases "out_null out")
      (auto simp: psa_xof_output_def psa_xof_get_ctx_def xof_fail_op Let_def split: sum.splits)
next
  case True
  then obtain ctx ctx1 where c: "op = Some ctx" "\<not> out_null out" "out_size out \<noteq> 0"
    "(if \<not> xof_squeezing ctx then xof_start_squeezing E ctx else Inr ctx) = Inr ctx1" by blast
  note ic = inv [OF c(1)]
  have i1: "xof_inv ctx1" "xof_squeezing ctx1"
    using ic c(4) by (auto simp: xof_start_squeezing_def xof_inv_def split: if_split_asm option.splits prod.splits)
  have b: "0 < xof_block_size ctx1" "xof_block_size ctx1 \<le> UINT32_MAX" "xof_buf_off ctx1 \<le> xof_buf_len ctx1"
    using i1(1) by (auto simp: xof_inv_def)
  from xof_serve_returns [OF b, of E "out_size out" "[]"] show ?thesis
  proof (elim disjE exE conjE)
    fix e assume "xof_serve E ctx1 (out_size out) [] = Some (Inl e)"
    then show ?thesis using c
      by (cases e) (auto simp: psa_xof_output_def psa_xof_get_ctx_def xof_fail_op Let_def)
  next
    fix bs ctx2 assume s: "xof_serve E ctx1 (out_size out) [] = Some (Inr (bs, ctx2))" "xof_serves ctx1 ctx2"
    have "xof_inv ctx2"
      using i1 s(2) by (auto simp: xof_inv_def xof_serves_def intro: order_trans)
    then show ?thesis using c s(1) by (auto simp: psa_xof_output_def psa_xof_get_ctx_def Let_def)
  qed
qed

lemma xof_step_inv:
  assumes inv: "\<And>ctx. op = Some ctx \<Longrightarrow> xof_inv ctx"
  shows "\<exists>st op1 s1. xof_step env E call op s = Some (st, Some op1, s1) \<and> (\<forall>ctx. op1 = Some ctx \<longrightarrow> xof_inv ctx)"
proof (cases call)
  case (Xof_setup a)
  obtain st op' s' where "psa_xof_setup env E (Some op) a s = (st, op', s')" by (metis prod_cases3)
  with xof_setup_inv [OF this] inv show ?thesis using Xof_setup by auto
next
  case (Xof_update x)
  with xof_update_inv [of op x s] inv show ?thesis by simp
next
  case (Xof_output out)
  with xof_output_inv [of op E out] inv show ?thesis by fastforce
qed (use inv in \<open>cases op; auto simp: psa_xof_set_context_def psa_xof_get_ctx_def psa_xof_abort_def xof_fail_op\<close>)+

lemma xof_reachable_inv: "xof_reachable env E op \<Longrightarrow> op = Some ctx \<Longrightarrow> xof_inv ctx"
proof (induction arbitrary: ctx rule: xof_reachable.induct)
  case (xof_next op call s st op' s')
  from xof_step_inv [of op env E call s, OF xof_next.IH] xof_next.hyps(2) xof_next.prems show ?case by auto
qed simp

text \<open>
  Every call on an XOF operation returns, whatever calls came before and however wolfCrypt
  and the allocator behave: the doubling of the input buffer and the loops that serve output all
  end. And in every reachable state the collected input fits its allocation and 32 bits, and the
  staging window lies within the staging buffer.
\<close>

theorem xof_calls_return:
  assumes "xof_reachable env E op"
  shows "(\<exists>st op1 s1. xof_step env E call op s = Some (st, Some op1, s1)) \<and>
    (\<forall>ctx. op = Some ctx \<longrightarrow> length (xof_ibuf ctx) \<le> xof_ibuf_cap ctx \<and> xof_ibuf_cap ctx \<le> UINT32_MAX \<and>
       xof_buf_off ctx \<le> xof_buf_len ctx \<and> xof_buf_len ctx \<le> SHAKE128_BLOCK_SIZE)"
  using xof_step_inv [of op env E call s] xof_reachable_inv [OF assms] by (auto simp: xof_inv_def)

section \<open>What wolfCrypt promises\<close>

text \<open>
  \<open>V\<close> reads off a context whether it is fresh or how many blocks were squeezed after absorbing
  which message; \<open>X sh m i\<close> is byte \<open>i\<close> of the output of SHAKE for the message \<open>m\<close>.
\<close>

datatype xof_view = Xof_fresh shake | Xof_squeezed shake "byte list" nat

definition xof_engine_ok ::
    "'k xof_engine \<Rightarrow> (shake \<Rightarrow> byte list \<Rightarrow> nat \<Rightarrow> byte) \<Rightarrow> ('k \<Rightarrow> xof_view) \<Rightarrow> bool" where
  "xof_engine_ok E X V \<longleftrightarrow>
    (\<forall>sh d k k'. xo_Init E sh d k = (WC_OK, k') \<longrightarrow> V k' = Xof_fresh sh) \<and>
    (\<forall>sh m k k'. V k = Xof_fresh sh \<and> xo_Absorb E sh m k = (WC_OK, k') \<longrightarrow> V k' = Xof_squeezed sh m 0) \<and>
    (\<forall>sh m i n k bs k'. V k = Xof_squeezed sh m i \<and> xo_SqueezeBlocks E sh n k = (WC_OK, bs, k') \<longrightarrow>
       bs = map (X sh m) [i * xof_rate sh ..< (i + n) * xof_rate sh] \<and> V k' = Xof_squeezed sh m (i + n))"

definition xof_never_fails :: "'k xof_engine \<Rightarrow> bool" where
  "xof_never_fails E \<longleftrightarrow>
    (\<forall>sh m k. fst (xo_Absorb E sh m k) = WC_OK) \<and> (\<forall>sh n k. fst (xo_SqueezeBlocks E sh n k) = WC_OK)"

lemma xof_engine_okD:
  assumes "xof_engine_ok E X V"
  shows "xo_Init E sh d k = (WC_OK, k') \<Longrightarrow> V k' = Xof_fresh sh"
    and "V k = Xof_fresh sh \<Longrightarrow> xo_Absorb E sh m k = (WC_OK, k') \<Longrightarrow> V k' = Xof_squeezed sh m 0"
    and "V k = Xof_squeezed sh m i \<Longrightarrow> xo_SqueezeBlocks E sh n k = (WC_OK, bs, k') \<Longrightarrow>
      bs = map (X sh m) [i * xof_rate sh ..< (i + n) * xof_rate sh] \<and> V k' = Xof_squeezed sh m (i + n)"
  using assms unfolding xof_engine_ok_def by - (elim conjE, meson)+

section \<open>The output stream\<close>

text \<open>
  A squeezing operation that has delivered the first \<open>pos\<close> bytes of the stream: \<open>i\<close> blocks were
  squeezed, and the staging window holds what is left of them.
\<close>

definition xof_at ::
    "(shake \<Rightarrow> byte list \<Rightarrow> nat \<Rightarrow> byte) \<Rightarrow> ('k \<Rightarrow> xof_view) \<Rightarrow> 'k psa_xof_operation_ctx \<Rightarrow> shake \<Rightarrow> byte list \<Rightarrow> nat \<Rightarrow> bool" where
  "xof_at X V ctx sh m pos \<longleftrightarrow>
    shake_of (xof_alg ctx) = Some sh \<and> xof_block_size ctx = xof_rate sh \<and> xof_squeezing ctx \<and>
    (\<exists>i. V (xof_shake ctx) = Xof_squeezed sh m i \<and> xof_buf_off ctx \<le> xof_buf_len ctx \<and>
       pos + (xof_buf_len ctx - xof_buf_off ctx) = i * xof_rate sh \<and>
       drop (xof_buf_off ctx) (take (xof_buf_len ctx) (xof_buf ctx)) = map (X sh m) [pos ..< i * xof_rate sh])"

lemma upt_split: "i \<le> j \<Longrightarrow> j \<le> k \<Longrightarrow> map f [i ..< j] @ map f [j ..< k] = map f [i ..< k]"
  by (metis le_Suc_ex map_append upt_add_eq_append)

lemma take_window: "m \<le> b - a \<Longrightarrow> take m (drop a (take b xs)) = take m (drop a xs)"
  by (simp add: drop_take min_absorb1)

lemma xof_squeeze_direct_stream:
  assumes ok: "xof_engine_ok E X V"
    and "xof_squeeze_direct E ctx n out = Some r" and "shake_of (xof_alg ctx) = Some sh"
    and "xof_block_size ctx = xof_rate sh" and "V (xof_shake ctx) = Xof_squeezed sh m i"
  shows "case r of Inl e \<Rightarrow> fst e \<noteq> PSA_SUCCESS \<and> \<not> xof_never_fails E
    | Inr (out1, n1, ctx1) \<Rightarrow> \<exists>j k. ctx1 = ctx\<lparr>xof_shake := k\<rparr> \<and> V k = Xof_squeezed sh m (i + j) \<and>
        out1 = out @ map (X sh m) [i * xof_rate sh ..< (i + j) * xof_rate sh] \<and> n = n1 + j * xof_rate sh"
  using assms(2-5)
proof (induction n arbitrary: ctx out i rule: less_induct)
  case (less n)
  note u = less.prems(1) [unfolded xof_squeeze_direct.simps [of E ctx n out]]
  show ?case
  proof (cases "xof_rate sh \<le> n")
    case False
    then show ?thesis using u less.prems
      by (auto intro!: exI [of _ 0] exI [of _ "xof_shake ctx"])
  next
    case True
    let ?k = "xof_n_blocks (xof_rate sh) n"
    have D: "0 < ?k" "?k * xof_rate sh \<le> n" "?k \<le> UINT32_MAX" using xof_n_blocks_bounds [OF _ _ True] by simp_all
    have w: "c_word32 ?k = ?k" using D(3) by (simp add: c_word32_def)
    obtain ret bs k where q: "xo_SqueezeBlocks E sh ?k (xof_shake ctx) = (ret, bs, k)" by (metis prod_cases3)
    show ?thesis
    proof (cases "ret = WC_OK")
      case False
      then have "\<not> xof_never_fails E" using q by (metis fst_conv xof_never_fails_def)
      then show ?thesis using u True less.prems q w False by (auto simp: xof_switches [OF less.prems(2)] Let_def)
    next
      case o: True
      note S = xof_engine_okD(3) [OF ok less.prems(4) q [unfolded o]]
      let ?c = "ctx\<lparr>xof_shake := k\<rparr>" and ?n = "n - ?k * xof_rate sh"
      have e: "xof_squeeze_direct E ?c ?n (out @ bs) = Some r"
        using u True less.prems(3) q w o by (simp add: xof_switches [OF less.prems(2)] Let_def)
      have "0 < n" using True xof_rate_bounds(1) [of sh] by linarith
      then have "?n < n" using D by simp
      note IH = less.IH [OF this e, of "i + ?k"]
      show ?thesis
      proof (cases r)
        case (Inl e)
        then show ?thesis using IH S less.prems by simp
      next
        case (Inr y)
        obtain out1 n1 ctx1 where y: "y = (out1, n1, ctx1)" by (metis prod_cases3)
        obtain j k1 where j: "ctx1 = ?c\<lparr>xof_shake := k1\<rparr>" "V k1 = Xof_squeezed sh m (i + ?k + j)"
          "out1 = (out @ bs) @ map (X sh m) [(i + ?k) * xof_rate sh ..< (i + ?k + j) * xof_rate sh]"
          "?n = n1 + j * xof_rate sh"
          using IH S less.prems Inr y by auto
        have "out1 = out @ map (X sh m) [i * xof_rate sh ..< (i + (?k + j)) * xof_rate sh]"
          using j(3) S upt_split [of "i * xof_rate sh" "(i + ?k) * xof_rate sh" "(i + ?k + j) * xof_rate sh" "X sh m"]
          by (simp add: add.assoc)
        moreover have "n = n1 + (?k + j) * xof_rate sh" using j(4) D(2) by (simp add: algebra_simps)
        ultimately show ?thesis using Inr y j(1,2) by (auto simp: add.assoc intro!: exI [of _ "?k + j"] exI [of _ k1])
      qed
    qed
  qed
qed

lemma xof_at_drain:
  assumes "xof_at X V ctx sh m pos" "k \<le> xof_buf_len ctx - xof_buf_off ctx"
  shows "take k (drop (xof_buf_off ctx) (xof_buf ctx)) = map (X sh m) [pos ..< pos + k]"
    "xof_at X V (ctx\<lparr>xof_buf_off := xof_buf_off ctx + k\<rparr>) sh m (pos + k)"
proof -
  obtain i where i: "V (xof_shake ctx) = Xof_squeezed sh m i" "xof_buf_off ctx \<le> xof_buf_len ctx"
    "pos + (xof_buf_len ctx - xof_buf_off ctx) = i * xof_rate sh"
    "drop (xof_buf_off ctx) (take (xof_buf_len ctx) (xof_buf ctx)) = map (X sh m) [pos ..< i * xof_rate sh]"
    using assms(1) by (auto simp: xof_at_def)
  have k: "pos + k \<le> i * xof_rate sh" using i(3) assms(2) by linarith
  have "take k (drop (xof_buf_off ctx) (xof_buf ctx)) = take k (map (X sh m) [pos ..< i * xof_rate sh])"
    unfolding i(4) [symmetric] by (rule take_window [OF assms(2), symmetric])
  then show "take k (drop (xof_buf_off ctx) (xof_buf ctx)) = map (X sh m) [pos ..< pos + k]"
    using k by (simp add: take_map take_upt)
  have "drop (xof_buf_off ctx + k) (take (xof_buf_len ctx) (xof_buf ctx)) = drop k (map (X sh m) [pos ..< i * xof_rate sh])"
    unfolding i(4) [symmetric] by (simp add: add.commute)
  then have d: "drop (xof_buf_off ctx + k) (take (xof_buf_len ctx) (xof_buf ctx)) = map (X sh m) [pos + k ..< i * xof_rate sh]"
    by (simp add: drop_map drop_upt)
  have "pos + k + (xof_buf_len ctx - (xof_buf_off ctx + k)) = i * xof_rate sh" "xof_buf_off ctx + k \<le> xof_buf_len ctx"
    using i(2,3) assms(2) by linarith+
  with d i(1) assms(1) show "xof_at X V (ctx\<lparr>xof_buf_off := xof_buf_off ctx + k\<rparr>) sh m (pos + k)"
    by (auto simp: xof_at_def)
qed

lemma xof_at_block:
  assumes ok: "xof_engine_ok E X V" and "shake_of (xof_alg ctx) = Some sh" "xof_block_size ctx = xof_rate sh" "xof_squeezing ctx"
    and "V k = Xof_squeezed sh m i" "xo_SqueezeBlocks E sh 1 k = (WC_OK, bs, k1)"
  shows "xof_at X V (ctx\<lparr>xof_shake := k1, xof_buf := bs @ drop (length bs) b, xof_buf_len := xof_block_size ctx,
    xof_buf_off := 0\<rparr>) sh m (i * xof_rate sh)"
  using assms(2-4) xof_engine_okD(3) [OF ok assms(5,6)] by (simp add: xof_at_def)

lemma xof_serve_stream:
  assumes ok: "xof_engine_ok E X V" and "xof_serve E ctx n out = Some r" and "xof_at X V ctx sh m pos"
  shows "case r of Inl e \<Rightarrow> fst e \<noteq> PSA_SUCCESS \<and> \<not> xof_never_fails E
    | Inr (out1, ctx1) \<Rightarrow> out1 = out @ map (X sh m) [pos ..< pos + n] \<and> xof_at X V ctx1 sh m (pos + n)"
  using assms(2,3)
proof (induction "2 * n + (if xof_buf_off ctx < xof_buf_len ctx then 0 else 1)" arbitrary: ctx n out pos rule: less_induct)
  case less
  note u = less.prems(1) [unfolded xof_serve.simps [of E ctx n out]]
  have sh: "shake_of (xof_alg ctx) = Some sh" "xof_block_size ctx = xof_rate sh" "xof_squeezing ctx"
    using less.prems(2) by (auto simp: xof_at_def)
  consider "n = 0" | "0 < n" "xof_buf_off ctx < xof_buf_len ctx" | "0 < n" "\<not> xof_buf_off ctx < xof_buf_len ctx" by auto
  then show ?case
  proof cases
    case 1
    then show ?thesis using u less.prems(2) by auto
  next
    case 2
    define k where "k = (if n < xof_buf_len ctx - xof_buf_off ctx then n else xof_buf_len ctx - xof_buf_off ctx)"
    let ?c = "ctx\<lparr>xof_buf_off := xof_buf_off ctx + k\<rparr>"
    have k: "0 < k" "k \<le> n" "k \<le> xof_buf_len ctx - xof_buf_off ctx" using 2 by (auto simp: k_def)
    have e: "xof_serve E ?c (n - k) (out @ map (X sh m) [pos ..< pos + k]) = Some r"
      using u 2 by (simp add: Let_def k_def [symmetric] xof_at_drain(1) [OF less.prems(2) k(3)])
    have "2 * (n - k) + (if xof_buf_off ?c < xof_buf_len ?c then 0 else 1) <
        2 * n + (if xof_buf_off ctx < xof_buf_len ctx then 0 else 1)" using k 2 by (simp, linarith)
    from less.hyps [OF this e xof_at_drain(2) [OF less.prems(2) k(3)]] k(2)
    show ?thesis by (cases r) (auto simp: upt_split)
  next
    case 3
    let ?c1 = "ctx\<lparr>xof_buf_off := 0, xof_buf_len := 0\<rparr>"
    let ?direct = "if n \<ge> xof_block_size ?c1 then xof_squeeze_direct E ?c1 n out else Some (Inr (out, n, ?c1))"
    obtain i where i: "V (xof_shake ctx) = Xof_squeezed sh m i" "pos = i * xof_rate sh"
      using less.prems(2) 3 by (auto simp: xof_at_def)
    obtain d where d: "?direct = Some d" using u 3 by (cases ?direct) (simp_all add: Let_def)
    have D: "case d of Inl e \<Rightarrow> fst e \<noteq> PSA_SUCCESS \<and> \<not> xof_never_fails E
      | Inr (out1, n1, ctx1) \<Rightarrow> \<exists>j k. ctx1 = ?c1\<lparr>xof_shake := k\<rparr> \<and> V k = Xof_squeezed sh m (i + j) \<and>
        out1 = out @ map (X sh m) [pos ..< (i + j) * xof_rate sh] \<and> n = n1 + j * xof_rate sh"
    proof (cases "xof_block_size ?c1 \<le> n")
      case True
      then have "xof_squeeze_direct E ?c1 n out = Some d" using d by simp
      from xof_squeeze_direct_stream [OF ok this, of sh m i] sh i(1) show ?thesis unfolding i(2) by simp
    next
      case False
      then have "d = Inr (out, n, ?c1)" using d by simp
      then show ?thesis using i by (auto intro!: exI [of _ 0] exI [of _ "xof_shake ctx"])
    qed
    note u1 = u [unfolded Let_def d bind.simps]
    show ?thesis
    proof (cases d)
      case (Inl e)
      then show ?thesis using u1 3 D by auto
    next
      case (Inr y)
      obtain out1 n1 ctx1 where y: "y = (out1, n1, ctx1)" by (metis prod_cases3)
      obtain j k where j: "ctx1 = ?c1\<lparr>xof_shake := k\<rparr>" "V k = Xof_squeezed sh m (i + j)"
        "out1 = out @ map (X sh m) [pos ..< (i + j) * xof_rate sh]" "n = n1 + j * xof_rate sh"
        using D Inr y by auto
      have p: "pos + n = (i + j) * xof_rate sh + n1" using i(2) j(4) by (simp add: algebra_simps)
      show ?thesis
      proof (cases "n1 = 0")
        case True
        then have "r = Inr (out1, ctx1)" using u1 3 Inr y j(1) by simp
        then show ?thesis using True p j sh by (simp add: xof_at_def)
      next
        case False
        obtain ret bs k1 where q: "xo_SqueezeBlocks E sh 1 k = (ret, bs, k1)" by (metis prod_cases3)
        show ?thesis
        proof (cases "ret = WC_OK")
          case f: False
          then have "\<not> xof_never_fails E" using q by (metis fst_conv xof_never_fails_def)
          then show ?thesis using u1 3 Inr y j(1) False f q by (auto simp: xof_switches [OF sh(1)])
        next
          case o: True
          let ?c2 = "?c1\<lparr>xof_shake := k1, xof_buf := bs @ drop (length bs) (xof_buf ctx), xof_buf_len := xof_block_size ctx,
              xof_buf_off := 0\<rparr>"
          have e: "xof_serve E ?c2 n1 out1 = Some r"
            using u1 3 Inr y j(1) False o q by (simp add: xof_switches [OF sh(1)])
          have a: "xof_at X V ?c2 sh m ((i + j) * xof_rate sh)"
            using xof_at_block [OF ok _ _ _ j(2) q [unfolded o], of "?c1"] sh by simp
          have "2 * n1 + (if xof_buf_off ?c2 < xof_buf_len ?c2 then 0 else 1) <
              2 * n + (if xof_buf_off ctx < xof_buf_len ctx then 0 else 1)"
            using j(4) 3 sh(2) by simp
          from less.hyps [OF this e a] show ?thesis
            using j(3) p i(2) upt_split [of pos "(i + j) * xof_rate sh" "pos + n" "X sh m"] by (cases r) auto
        qed
      qed
    qed
  qed
qed

section \<open>Sessions\<close>

text \<open>An operation that has absorbed \<open>m\<close> and delivered \<open>pos\<close> bytes; before any output, the input is collected.\<close>

definition xof_pos ::
    "(shake \<Rightarrow> byte list \<Rightarrow> nat \<Rightarrow> byte) \<Rightarrow> ('k \<Rightarrow> xof_view) \<Rightarrow> 'k psa_xof_operation_t option \<Rightarrow> shake \<Rightarrow> byte list \<Rightarrow> nat \<Rightarrow> bool" where
  "xof_pos X V op sh m pos \<longleftrightarrow> (\<exists>ctx. op = Some (Some ctx) \<and> xof_inv ctx \<and> shake_of (xof_alg ctx) = Some sh \<and>
    (if xof_squeezing ctx then xof_at X V ctx sh m pos
     else V (xof_shake ctx) = Xof_fresh sh \<and> xof_ibuf ctx = m \<and> pos = 0))"

lemma xof_setup_pos:
  assumes ok: "xof_engine_ok E X V" and st: "psa_xof_setup env E (Some None) a s = (PSA_SUCCESS, op, s1)"
  shows "\<exists>sh. shake_of a = Some sh \<and> xof_pos X V op sh [] 0"
proof -
  obtain i s0 where i: "wolfPSA_CryptoIsInitialized (env_build env) s = (i, s0)" by fastforce
  obtain b s2 where b: "s_xmalloc s0 = (b, s2)" by fastforce
  have a: "a = PSA_ALG_SHAKE128 \<or> a = PSA_ALG_SHAKE256"
    using st i by (auto simp: psa_xof_setup_def split: if_split_asm)
  then obtain sh where sh: "shake_of a = Some sh" by (auto simp: shake_of_def)
  obtain ret k where k: "xo_Init E sh (xo_devid E) (xo_zero E) = (ret, k)" by fastforce
  have r: "ret = WC_OK \<and> op = Some (Some \<lparr>xof_alg = a, xof_shake = k, xof_squeezing = False, xof_block_size = xof_rate sh,
      xof_buf = replicate 168 0, xof_buf_off = 0, xof_buf_len = 0, xof_ibuf = [], xof_ibuf_cap = 0\<rparr>)"
    using st i b k by (cases rule: shake_of_cases [OF sh]) (auto simp: psa_xof_setup_def split: if_split_asm)
  then have "V k = Xof_fresh sh" using xof_engine_okD(1) [OF ok] k by simp
  with r sh show ?thesis by (auto simp: xof_pos_def xof_inv_def)
qed

lemma xof_grow_frame:
  assumes "psa_xof_ibuf_grow ctx need s = Some (ok, ctx1, s1)"
  shows "ctx1 = ctx\<lparr>xof_ibuf_cap := xof_ibuf_cap ctx1\<rparr>"
  using assms
  by (cases "s_xmalloc s"; cases "fst (s_xmalloc s)")
    (auto simp: psa_xof_ibuf_grow_def bind_eq_Some_conv split: if_split_asm)

lemma xof_update_pos:
  assumes p: "xof_pos X V op sh m 0" and u: "psa_xof_update op x s = Some (PSA_SUCCESS, op1, s1)"
  shows "xof_pos X V op1 sh (m @ in_bytes x) 0"
proof -
  obtain ctx where c: "op = Some (Some ctx)" "xof_inv ctx" "shake_of (xof_alg ctx) = Some sh"
    "if xof_squeezing ctx then xof_at X V ctx sh m 0 else V (xof_shake ctx) = Xof_fresh sh \<and> xof_ibuf ctx = m"
    using p by (auto simp: xof_pos_def split: if_split_asm)
  have inv: "xof_inv ctx1" if "op1 = Some (Some ctx1)" for ctx1
    using xof_update_inv [of "Some ctx" x s] c(1,2) u that by auto
  show ?thesis
  proof (cases "in_length x = 0")
    case True
    then have "op1 = op" "\<not> xof_squeezing ctx" "in_bytes x = []"
      using u c(1) by (cases x; auto simp: psa_xof_update_def psa_xof_get_ctx_def xof_fail_op Let_def split: if_split_asm)+
    then show ?thesis using p c by (auto simp: xof_pos_def)
  next
    case False
    then obtain ok ctx1 s2 where g: "psa_xof_ibuf_grow ctx (length (xof_ibuf ctx) + in_length x) s = Some (ok, ctx1, s2)"
      and o: "op1 = Some (Some (ctx1\<lparr>xof_ibuf := xof_ibuf ctx1 @ in_bytes x\<rparr>))" and n: "\<not> xof_squeezing ctx"
      using u c(1)
      by (auto simp: psa_xof_update_def psa_xof_get_ctx_def xof_fail_op Let_def bind_eq_Some_conv split: if_split_asm)
    obtain cap where f: "ctx1 = ctx\<lparr>xof_ibuf_cap := cap\<rparr>" using xof_grow_frame [OF g] by blast
    show ?thesis using inv [OF o] o n c unfolding f by (simp add: xof_pos_def)
  qed
qed

lemma xof_output_pos:
  assumes ok: "xof_engine_ok E X V" and p: "xof_pos X V op sh m pos"
    and o: "psa_xof_output E op (Out n) = Some (st, bs, op1)"
  shows "if st = PSA_SUCCESS then bs = map (X sh m) [pos ..< pos + n] \<and> xof_pos X V op1 sh m (pos + n)
    else \<not> xof_never_fails E"
proof -
  obtain ctx where c: "op = Some (Some ctx)" "xof_inv ctx" "shake_of (xof_alg ctx) = Some sh"
    "if xof_squeezing ctx then xof_at X V ctx sh m pos else V (xof_shake ctx) = Xof_fresh sh \<and> xof_ibuf ctx = m \<and> pos = 0"
    using p unfolding xof_pos_def by (elim exE conjE)
  let ?start = "if \<not> xof_squeezing ctx then xof_start_squeezing E ctx else Inr ctx"
  show ?thesis
  proof (cases "n = 0")
    case True
    then show ?thesis using o c(1) p by (auto simp: psa_xof_output_def psa_xof_get_ctx_def Let_def)
  next
    case False
    have S: "case ?start of Inl e \<Rightarrow> e \<noteq> PSA_SUCCESS \<and> \<not> xof_never_fails E | Inr ctx1 \<Rightarrow> xof_at X V ctx1 sh m pos"
    proof (cases "xof_squeezing ctx")
      case True
      then show ?thesis using c(4) by simp
    next
      case sq: False
      have l: "c_word32 (length m) = length m" using c(2,4) sq by (auto simp: xof_inv_def c_word32_def)
      obtain ret k where a: "xo_Absorb E sh m (xof_shake ctx) = (ret, k)" by fastforce
      have "\<not> xof_never_fails E" if "ret \<noteq> WC_OK" using a that by (metis fst_conv xof_never_fails_def)
      moreover have "V k = Xof_squeezed sh m 0" if "ret = WC_OK"
        using xof_engine_okD(2) [OF ok _ a [unfolded that]] c(4) sq by simp
      ultimately show ?thesis using sq c(2-4) a l
        by (auto simp: xof_start_squeezing_def xof_switches [OF c(3)] xof_at_def xof_inv_def)
    qed
    show ?thesis
    proof (cases ?start)
      case (Inl e)
      then show ?thesis using S o c(1) False by (auto simp: psa_xof_output_def psa_xof_get_ctx_def xof_fail_op Let_def)
    next
      case (Inr ctx1)
      with S have at1: "xof_at X V ctx1 sh m pos" by simp
      note o1 = o [unfolded psa_xof_output_def psa_xof_get_ctx_def c(1) Let_def option.case Inr sum.case]
      obtain r where r: "xof_serve E ctx1 n [] = Some r" using o1 False by (cases "xof_serve E ctx1 n []") simp_all
      note R = xof_serve_stream [OF ok r at1]
      have inv: "xof_inv ctx2" if "op1 = Some (Some ctx2)" for ctx2
        using xof_output_inv [of "Some ctx" E "Out n"] c(1,2) o that by auto
      show ?thesis
      proof (cases r)
        case l: (Inl e)
        obtain e1 e2 where e: "e = (e1, e2)" by fastforce
        have "st = e1" using o1 r False l e by (simp add: xof_fail_op)
        then show ?thesis using R l e by simp
      next
        case (Inr y)
        obtain bs2 ctx2 where y: "y = (bs2, ctx2)" by fastforce
        have "st = PSA_SUCCESS" "bs = bs2" "op1 = Some (Some ctx2)" using o1 r False Inr y by simp_all
        then show ?thesis using R Inr y inv by (auto simp: xof_pos_def xof_at_def)
      qed
    qed
  qed
qed

fun xof_updates ::
    "'k psa_xof_operation_t option \<Rightarrow> inbuf list \<Rightarrow> 'st key_store \<Rightarrow>
     (psa_status \<times> 'k psa_xof_operation_t option \<times> 'st key_store) option" where
  "xof_updates op [] s = Some (PSA_SUCCESS, op, s)"
| "xof_updates op (x # xs) s =
    Option.bind (psa_xof_update op x s)
      (\<lambda>(st, op1, s1). if st \<noteq> PSA_SUCCESS then Some (st, op1, s1) else xof_updates op1 xs s1)"

text \<open>Outputs of the given lengths, one call each: the bytes of all of them together.\<close>

fun xof_outputs ::
    "'k xof_engine \<Rightarrow> 'k psa_xof_operation_t option \<Rightarrow> nat list \<Rightarrow>
     (psa_status \<times> byte list \<times> 'k psa_xof_operation_t option) option" where
  "xof_outputs E op [] = Some (PSA_SUCCESS, [], op)"
| "xof_outputs E op (n # ns) =
    Option.bind (psa_xof_output E op (Out n))
      (\<lambda>(st, bs, op1). if st \<noteq> PSA_SUCCESS then Some (st, bs, op1)
        else map_option (\<lambda>(st2, bs2, op2). (st2, bs @ bs2, op2)) (xof_outputs E op1 ns))"

lemma xof_updates_pos:
  assumes "xof_pos X V op sh m 0" "xof_updates op xs s = Some (PSA_SUCCESS, op1, s1)"
  shows "xof_pos X V op1 sh (m @ message xs) 0"
  using assms
proof (induction xs arbitrary: op m s)
  case (Cons x xs)
  obtain op0 s0 where u: "psa_xof_update op x s = Some (PSA_SUCCESS, op0, s0)" "xof_updates op0 xs s0 = Some (PSA_SUCCESS, op1, s1)"
    using Cons.prems(2) by (auto simp: bind_eq_Some_conv split: if_split_asm)
  from Cons.IH [OF xof_update_pos [OF Cons.prems(1) u(1)] u(2)] show ?case by simp
qed simp

lemma xof_outputs_pos:
  assumes ok: "xof_engine_ok E X V" and "xof_pos X V op sh m pos"
  shows "\<exists>st bs op1. xof_outputs E op ns = Some (st, bs, op1) \<and>
    (if st = PSA_SUCCESS then bs = map (X sh m) [pos ..< pos + sum_list ns] else \<not> xof_never_fails E)"
  using assms(2)
proof (induction ns arbitrary: op pos)
  case (Cons n ns)
  obtain ctx where "op = Some (Some ctx)" "xof_inv ctx" using Cons.prems by (auto simp: xof_pos_def)
  then obtain st0 b0 op0 where o: "psa_xof_output E op (Out n) = Some (st0, b0, op0)"
    using xof_output_inv [of "Some ctx" E "Out n"] by auto
  note P = xof_output_pos [OF ok Cons.prems o]
  show ?case
  proof (cases "st0 = PSA_SUCCESS")
    case False
    then show ?thesis using P o by simp
  next
    case True
    then have p: "b0 = map (X sh m) [pos ..< pos + n]" "xof_pos X V op0 sh m (pos + n)" using P by simp_all
    obtain st b1 op1 where r: "xof_outputs E op0 ns = Some (st, b1, op1)"
      "if st = PSA_SUCCESS then b1 = map (X sh m) [pos + n ..< pos + n + sum_list ns] else \<not> xof_never_fails E"
      using Cons.IH [OF p(2)] by (elim exE conjE)
    have "xof_outputs E op (n # ns) = Some (st, b0 @ b1, op1)" using o True r(1) by simp
    then show ?thesis
      using r(2) p(1) upt_split [of pos "pos + n" "pos + n + sum_list ns" "X sh m"]
      by (intro exI [of _ st] exI [of _ "b0 @ b1"] exI [of _ op1]) (simp add: add.assoc)
  qed
qed simp

text \<open>
  C23: The bytes that an XOF operation delivers, however the input was cut into updates and the
  output into requests, are the successive bytes of the SHAKE stream of the whole message: no
  byte is lost, repeated or reordered where a request ends inside a block, asks for many blocks
  at once, or is empty. Every request returns, and only a failure of wolfCrypt makes one fail.
\<close>

theorem xof_output_stream:
  assumes ok: "xof_engine_ok E X V"
    and "psa_xof_setup env E (Some None) a s = (PSA_SUCCESS, op, s1)"
    and "xof_updates op xs s2 = Some (PSA_SUCCESS, op1, s3)"
  shows "\<exists>sh st bs op2. shake_of a = Some sh \<and> xof_outputs E op1 ns = Some (st, bs, op2) \<and>
    (if st = PSA_SUCCESS then bs = map (X sh (message xs)) [0 ..< sum_list ns] else \<not> xof_never_fails E)"
proof -
  obtain sh where sh: "shake_of a = Some sh" "xof_pos X V op sh [] 0"
    using xof_setup_pos [OF ok assms(2)] by blast
  obtain st bs op2 where "xof_outputs E op1 ns = Some (st, bs, op2)"
    "if st = PSA_SUCCESS then bs = map (X sh ([] @ message xs)) [0 ..< 0 + sum_list ns] else \<not> xof_never_fails E"
    using xof_outputs_pos [OF ok xof_updates_pos [OF sh(2) assms(3)], of ns] by (elim exE conjE)
  then show ?thesis using sh(1) unfolding append_Nil add_0 by (intro exI conjI)
qed

section \<open>A concrete engine\<close>

definition demo_stream :: "shake \<Rightarrow> byte list \<Rightarrow> nat \<Rightarrow> byte" where
  "demo_stream sh m i = word_of_nat (length m + i)"

fun demo_squeeze :: "shake \<Rightarrow> nat \<Rightarrow> xof_view \<Rightarrow> wc_ret \<times> byte list \<times> xof_view" where
  "demo_squeeze sh n (Xof_fresh sh1) = (WC_OK, [], Xof_fresh sh1)"
| "demo_squeeze sh n (Xof_squeezed sh1 m i) =
    (WC_OK, map (demo_stream sh m) [i * xof_rate sh ..< (i + n) * xof_rate sh], Xof_squeezed sh1 m (i + n))"

definition demo_xof :: "xof_view xof_engine" where
  "demo_xof = \<lparr>xo_devid = 0, xo_zero = Xof_fresh Shake128, xo_Init = (\<lambda>sh d k. (WC_OK, Xof_fresh sh)),
    xo_Absorb = (\<lambda>sh m k. (WC_OK, Xof_squeezed sh m 0)), xo_SqueezeBlocks = demo_squeeze\<rparr>"

lemma demo_xof_ok: "xof_engine_ok demo_xof demo_stream (\<lambda>k. k)" "xof_never_fails demo_xof"
proof -
  have "fst (demo_squeeze sh n k) = WC_OK" for sh n k by (cases k) simp_all
  then show "xof_engine_ok demo_xof demo_stream (\<lambda>k. k)" "xof_never_fails demo_xof"
    by (simp_all add: xof_engine_ok_def xof_never_fails_def demo_xof_def)
qed

definition demo_xof_op :: "xof_view \<Rightarrow> bool \<Rightarrow> byte list \<Rightarrow> nat \<Rightarrow> xof_view psa_xof_operation_t" where
  "demo_xof_op k sq ib cap = Some \<lparr>xof_alg = PSA_ALG_SHAKE256, xof_shake = k, xof_squeezing = sq, xof_block_size = 136,
     xof_buf = replicate 168 0, xof_buf_off = 0, xof_buf_len = 0, xof_ibuf = ib, xof_ibuf_cap = cap\<rparr>"

lemma demo_xof_setup: "psa_xof_setup demo_env demo_xof (Some None) PSA_ALG_SHAKE256 demo_hash_ks =
    (PSA_SUCCESS, Some (demo_xof_op (Xof_fresh Shake256) False [] 0), demo_hash_ks)"
  using demo_initialized by (simp add: psa_xof_setup_def psa_defs demo_xof_def demo_xof_op_def)

lemma demo_xof_update: "xof_updates (Some (demo_xof_op (Xof_fresh Shake256) False [] 0)) [In [7]] demo_hash_ks =
    Some (PSA_SUCCESS, Some (demo_xof_op (Xof_fresh Shake256) False [7] 256), demo_hash_ks)"
  by (simp add: psa_xof_update_def psa_xof_get_ctx_def demo_xof_op_def psa_xof_ibuf_grow_def
      xof_grow_cap.simps Let_def)

theorem xof_output_stream_witness:
  "\<exists>op. xof_outputs demo_xof (Some (demo_xof_op (Xof_fresh Shake256) False [7] 256)) [3, 0, 140, 500] =
     Some (PSA_SUCCESS, map (demo_stream Shake256 [7]) [0 ..< 643], op)"
proof -
  have s: "shake_of PSA_ALG_SHAKE256 = Some Shake256" by (simp add: shake_of_def)
  have "message [In [7]] = [7]" "sum_list [3, 0, 140, 500] = (643 :: nat)" by simp_all
  with xof_output_stream [OF demo_xof_ok(1) demo_xof_setup demo_xof_update, of "[3, 0, 140, 500]"] s demo_xof_ok(2)
  show ?thesis by (auto split: if_split_asm)
qed

theorem xof_calls_return_witness:
  "\<exists>st op1 s1. xof_step demo_env demo_xof (Xof_output (Out 1000)) (demo_xof_op (Xof_fresh Shake256) False [] 0) demo_hash_ks =
     Some (st, Some op1, s1)"
proof -
  have "xof_step demo_env demo_xof (Xof_setup PSA_ALG_SHAKE256) None demo_hash_ks =
      Some (PSA_SUCCESS, Some (demo_xof_op (Xof_fresh Shake256) False [] 0), demo_hash_ks)"
    by (simp add: demo_xof_setup)
  from xof_calls_return [OF xof_next [OF xof_init this]] show ?thesis by blast
qed

end
