(* ===== verification/Key_Wrap.thy ===== *)
theory Key_Wrap
  imports Posix_Keys
begin

text \<open>
  \<open>src/psa_key_wrap.c\<close>: wrapping a key under another (RFC 3394, \<open>PSA_ALG_KW\<close>) as an export, and
  unwrapping as an import. wolfCrypt's AES key wrap is a parameter (\<open>wrap_engine\<close>,
  \<open>key_wrap_inverts\<close>). The theorems compose the export and import of the key store. The
  code casts the lengths it gives to wolfCrypt to 32 bits; the model passes the lists and sizes as
  they are, so it follows the code for data and buffers below 4 GiB.
\<close>

unbundle bit_operations_syntax

section \<open>Sizes\<close>

definition PSA_ALG_IS_KEY_WRAP :: "psa_algorithm_t \<Rightarrow> bool" where
  [psa_defs]: "PSA_ALG_IS_KEY_WRAP a \<longleftrightarrow> a AND 0x7f000000 = 0x0b000000"

abbreviation PSA_KEY_TYPE_DSA_PUBLIC_KEY :: psa_key_type_t where "PSA_KEY_TYPE_DSA_PUBLIC_KEY \<equiv> 0x4005"
abbreviation PSA_KEY_TYPE_DSA_KEY_PAIR :: psa_key_type_t where "PSA_KEY_TYPE_DSA_KEY_PAIR \<equiv> 0x7005"

definition PSA_KEY_EXPORT_RSA_PUBLIC_KEY_MAX_SIZE :: "nat \<Rightarrow> nat" where
  "PSA_KEY_EXPORT_RSA_PUBLIC_KEY_MAX_SIZE key_bits = PSA_KEY_EXPORT_ASN1_INTEGER_MAX_SIZE key_bits + 11"

definition PSA_KEY_EXPORT_DSA_PUBLIC_KEY_MAX_SIZE :: "nat \<Rightarrow> nat" where
  "PSA_KEY_EXPORT_DSA_PUBLIC_KEY_MAX_SIZE key_bits = PSA_KEY_EXPORT_ASN1_INTEGER_MAX_SIZE key_bits * 3 + 59"

definition PSA_KEY_EXPORT_DSA_KEY_PAIR_MAX_SIZE :: "nat \<Rightarrow> nat" where
  "PSA_KEY_EXPORT_DSA_KEY_PAIR_MAX_SIZE key_bits = PSA_KEY_EXPORT_ASN1_INTEGER_MAX_SIZE key_bits * 3 + 75"

definition PSA_EXPORT_KEY_OUTPUT_SIZE :: "psa_key_type_t \<Rightarrow> nat \<Rightarrow> nat" where
  "PSA_EXPORT_KEY_OUTPUT_SIZE t n =
    (if PSA_KEY_TYPE_IS_UNSTRUCTURED t then PSA_BITS_TO_BYTES n
     else if PSA_KEY_TYPE_IS_DH t then PSA_BITS_TO_BYTES n
     else if t = PSA_KEY_TYPE_RSA_KEY_PAIR then PSA_KEY_EXPORT_RSA_KEY_PAIR_MAX_SIZE n
     else if t = PSA_KEY_TYPE_RSA_PUBLIC_KEY then PSA_KEY_EXPORT_RSA_PUBLIC_KEY_MAX_SIZE n
     else if t = PSA_KEY_TYPE_DSA_KEY_PAIR then PSA_KEY_EXPORT_DSA_KEY_PAIR_MAX_SIZE n
     else if t = PSA_KEY_TYPE_DSA_PUBLIC_KEY then PSA_KEY_EXPORT_DSA_PUBLIC_KEY_MAX_SIZE n
     else if t = PSA_KEY_TYPE_ECC_KEY_PAIR_BASE OR ucast PSA_ECC_FAMILY_MONTGOMERY then PSA_BITS_TO_BYTES n
     else if PSA_KEY_TYPE_IS_ECC_KEY_PAIR t then PSA_KEY_EXPORT_ECC_KEY_PAIR_MAX_SIZE n
     else if PSA_KEY_TYPE_IS_ECC_PUBLIC_KEY t then PSA_KEY_EXPORT_ECC_PUBLIC_KEY_MAX_SIZE n
     else if t = PSA_KEY_TYPE_ML_DSA_KEY_PAIR then 32
     else if t = PSA_KEY_TYPE_ML_DSA_PUBLIC_KEY then
       (if n = 128 then 1312 else if n = 192 then 1952 else if n = 256 then 2592 else 0)
     else if t = PSA_KEY_TYPE_ML_KEM_KEY_PAIR then 64
     else if t = PSA_KEY_TYPE_ML_KEM_PUBLIC_KEY then
       (if n = 512 then 800 else if n = 768 then 1184 else if n = 1024 then 1568 else 0)
     else 0)"

section \<open>Wrap and unwrap\<close>

text \<open>
  \<open>wc_AesKeyWrap\<close> and \<open>wc_AesKeyUnWrap\<close> with the default IV: key-encryption key, input, size of
  the output buffer; a negative return code or the bytes written. \<open>kw_export_max\<close> is the build's
  \<open>PSA_EXPORT_KEY_PAIR_OR_PUBLIC_MAX_SIZE\<close>, which follows from the generated \<open>PSA_WANT_*\<close> set.
\<close>

record wrap_engine =
  kw_export_max :: nat
  wc_AesKeyWrap :: "byte list \<Rightarrow> byte list \<Rightarrow> nat \<Rightarrow> wc_ret + byte list"
  wc_AesKeyUnWrap :: "byte list \<Rightarrow> byte list \<Rightarrow> nat \<Rightarrow> wc_ret + byte list"

text \<open>The test \<open>wret < 0\<close>: a return value of 0 means that nothing was written, not an error.\<close>

definition kw_result :: "wc_ret + byte list \<Rightarrow> wc_ret + byte list" where
  "kw_result wret = (if wret = Inl WC_OK then Inr [] else wret)"

abbreviation BAD_KEYWRAP_IV_E :: wc_ret where "BAD_KEYWRAP_IV_E \<equiv> WC_OTHER (- 240)"

text \<open>The checks on the algorithm, and the loading of the key-encryption key with the usage it needs.\<close>

definition wrap_check_alg :: "psa_algorithm_t \<Rightarrow> psa_status" where
  "wrap_check_alg a =
    (if \<not> PSA_ALG_IS_KEY_WRAP a then PSA_ERROR_INVALID_ARGUMENT
     else if a = PSA_ALG_KWP then PSA_ERROR_NOT_SUPPORTED
     else if a \<noteq> PSA_ALG_KW then PSA_ERROR_INVALID_ARGUMENT
     else PSA_SUCCESS)"

definition wrap_load_kek ::
    "('st, 'h) psa_env \<Rightarrow> psa_key_id_t \<Rightarrow> psa_algorithm_t \<Rightarrow> psa_key_usage_t \<Rightarrow> 'st key_store \<Rightarrow>
     (psa_status + byte list) \<times> 'st key_store" where
  "wrap_load_kek env wrapping_key a want s =
    (case load_key env wrapping_key s of
       (Inl status, s1) \<Rightarrow> (Inl status, s1)
     | (Inr (attrs, kek), s1) \<Rightarrow>
         (if type attrs \<noteq> PSA_KEY_TYPE_AES then Inl PSA_ERROR_INVALID_ARGUMENT
          else if psa_get_key_usage_flags attrs AND want = 0 then Inl PSA_ERROR_NOT_PERMITTED
          else if \<not> wolfpsa_key_permits_alg attrs a then Inl PSA_ERROR_NOT_PERMITTED
          else Inr kek, s1))"

text \<open>The status, the bytes written to \<open>data\<close>, \<open>*data_length\<close>, and the state.\<close>

definition psa_wrap_key ::
    "('st, 'h) psa_env \<Rightarrow> wrap_engine \<Rightarrow> psa_key_id_t \<Rightarrow> psa_algorithm_t \<Rightarrow> psa_key_id_t \<Rightarrow> outbuf \<Rightarrow> nat option \<Rightarrow>
     'st key_store \<Rightarrow> psa_status \<times> byte list \<times> nat option \<times> 'st key_store" where
  "psa_wrap_key env E wrapping_key a key out len0 s =
    (let len = wolfpsa_clear_length len0 in
     if out_null out \<or> len = None then (PSA_ERROR_INVALID_ARGUMENT, [], len, s)
     else if wrap_check_alg a \<noteq> PSA_SUCCESS then (wrap_check_alg a, [], len, s)
     else
       (case wrap_load_kek env wrapping_key a PSA_KEY_USAGE_WRAP s of
          (Inl status, s1) \<Rightarrow> (status, [], len, s1)
        | (Inr kek, s1) \<Rightarrow>
            (case psa_get_key_attributes env key False s1 of
               (status2, target_attr, s2) \<Rightarrow>
                 if status2 \<noteq> PSA_SUCCESS then (status2, [], len, s2)
                 else
                   (let size = PSA_EXPORT_KEY_OUTPUT_SIZE (type target_attr) (unat (bits target_attr));
                        plain_max = (if size = 0 then kw_export_max E else size);
                        (ok, s3) = s_xmalloc s2
                    in if \<not> ok then (PSA_ERROR_INSUFFICIENT_MEMORY, [], len, s3)
                       else
                         (case psa_export_key env key (Out plain_max) False s3 of
                            (status4, plaintext, exported_len, s4) \<Rightarrow>
                              if status4 \<noteq> PSA_SUCCESS then (status4, [], len, s4)
                              else if exported_len < 16 \<or> exported_len mod 8 \<noteq> 0
                                then (PSA_ERROR_INVALID_ARGUMENT, [], len, s4)
                              else if out_size out < exported_len + 8 then (PSA_ERROR_BUFFER_TOO_SMALL, [], len, s4)
                              else
                                (case kw_result (wc_AesKeyWrap E kek plaintext (out_size out)) of
                                   Inl wret \<Rightarrow> (wc_error_to_psa_status wret, [], len, s4)
                                 | Inr wrapped \<Rightarrow> (PSA_SUCCESS, wrapped, Some (length wrapped), s4)))))))"

text \<open>As for \<open>psa_import_key\<close>, \<open>id_null\<close> tells whether the pointer to the new id is NULL.\<close>

definition psa_unwrap_key ::
    "('st, 'h) psa_env \<Rightarrow> wrap_engine \<Rightarrow> psa_key_attributes_t option \<Rightarrow> psa_key_id_t \<Rightarrow> psa_algorithm_t \<Rightarrow> inbuf \<Rightarrow>
     bool \<Rightarrow> 'st key_store \<Rightarrow> psa_status \<times> psa_key_id_t \<times> 'st key_store" where
  "psa_unwrap_key env E attr wrapping_key a din id_null s =
    (if attr = None \<or> in_null din \<or> id_null then (PSA_ERROR_INVALID_ARGUMENT, PSA_KEY_ID_NULL, s)
     else if wrap_check_alg a \<noteq> PSA_SUCCESS then (wrap_check_alg a, PSA_KEY_ID_NULL, s)
     else if in_length din < 24 \<or> in_length din mod 8 \<noteq> 0 then (PSA_ERROR_INVALID_ARGUMENT, PSA_KEY_ID_NULL, s)
     else
       (case wrap_load_kek env wrapping_key a PSA_KEY_USAGE_UNWRAP s of
          (Inl status, s1) \<Rightarrow> (status, PSA_KEY_ID_NULL, s1)
        | (Inr kek, s1) \<Rightarrow>
            (let plain_len = in_length din - 8; (ok, s2) = s_xmalloc s1
             in if \<not> ok then (PSA_ERROR_INSUFFICIENT_MEMORY, PSA_KEY_ID_NULL, s2)
                else
                  (case kw_result (wc_AesKeyUnWrap E kek (in_bytes din) plain_len) of
                     Inl wret \<Rightarrow>
                       (if wret = BAD_KEYWRAP_IV_E then PSA_ERROR_INVALID_SIGNATURE else wc_error_to_psa_status wret,
                        PSA_KEY_ID_NULL, s2)
                   | Inr plaintext \<Rightarrow>
                       (case psa_import_key env attr (In plaintext) id_null s2 of
                          (status, kid, s3) \<Rightarrow>
                            (status, if status \<noteq> PSA_SUCCESS then PSA_KEY_ID_NULL else kid, s3))))))"

lemma kw_result_neg [simp]: "kw_result r \<noteq> Inl WC_OK"
  by (simp add: kw_result_def)

section \<open>What is loaded, exported and imported\<close>

lemma wrap_load_kek_Inl [simp]: "wrap_load_kek env k a want s \<noteq> (Inl PSA_SUCCESS, s')"
  by (auto simp: wrap_load_kek_def split: prod.splits sum.splits)

lemma wrap_check_alg_ok: "wrap_check_alg a = PSA_SUCCESS \<longleftrightarrow> a = PSA_ALG_KW"
  by (auto simp: wrap_check_alg_def psa_defs)

text \<open>A key-encryption key: an AES key that has the usage and permits the algorithm.\<close>

definition kek_ok :: "psa_key_attributes_t \<Rightarrow> psa_algorithm_t \<Rightarrow> psa_key_usage_t \<Rightarrow> bool" where
  "kek_ok attrs a want \<longleftrightarrow> type attrs = PSA_KEY_TYPE_AES \<and> usage (policy attrs) AND want \<noteq> 0 \<and> wolfpsa_key_permits_alg attrs a"

context key_backend
begin

lemma wrap_load_kek_sound:
  assumes env: "env_ops env = ops" and lk: "lock_ok s" and w: "wrap_load_kek env k a want s = (r, s')"
  shows "load_frame recs s s'"
    and "r = Inr kek \<Longrightarrow> \<exists>attrs. key_at recs s k = Some (attrs, kek) \<and> kek_ok attrs a want"
proof -
  obtain r0 s0 where l: "load_key env k s = (r0, s0)" by fastforce
  note L = load_key_sound [OF env lk l]
  show "load_frame recs s s'" using w l L(1) by (auto simp: wrap_load_kek_def split: sum.splits)
  show "\<exists>attrs. key_at recs s k = Some (attrs, kek) \<and> kek_ok attrs a want" if "r = Inr kek"
    using w l L(2) that
    by (auto simp: wrap_load_kek_def kek_ok_def psa_get_key_usage_flags_def split: sum.splits if_split_asm)
qed

text \<open>A successful wrap used a permitted key-encryption key and an exportable key, and changed nothing.\<close>

lemma wrap_sound:
  assumes env: "env_ops env = ops" and lk: "lock_ok s"
    and w: "psa_wrap_key env E wk a k out len0 s = (PSA_SUCCESS, c, len, s')"
  shows "load_frame recs s s'" "a = PSA_ALG_KW" "len = Some (length c)"
    and "\<exists>wa kek ka d. key_at recs s wk = Some (wa, kek) \<and> kek_ok wa a PSA_KEY_USAGE_WRAP \<and>
      key_at recs s k = Some (ka, d) \<and> usage (policy ka) AND PSA_KEY_USAGE_EXPORT \<noteq> 0 \<and>
      16 \<le> length d \<and> length d mod 8 = 0 \<and> length d + 8 \<le> out_size out \<and>
      kw_result (wc_AesKeyWrap E kek d (out_size out)) = Inr c"
proof -
  obtain r1 s1 where l: "wrap_load_kek env wk a PSA_KEY_USAGE_WRAP s = (r1, s1)" by fastforce
  obtain st2 ta s2 where g: "psa_get_key_attributes env k False s1 = (st2, ta, s2)" by (metis prod_cases3)
  obtain ok s3 where m: "s_xmalloc s2 = (ok, s3)" by fastforce
  define pm where "pm = (let n = PSA_EXPORT_KEY_OUTPUT_SIZE (type ta) (unat (bits ta)) in if n = 0 then kw_export_max E else n)"
  obtain st4 d n s4 where x: "psa_export_key env k (Out pm) False s3 = (st4, d, n, s4)" by (metis prod_cases4)
  note e = w [unfolded psa_wrap_key_def Let_def l g m prod.case pm_def [unfolded Let_def, symmetric] x]
  obtain kek where kek: "r1 = Inr kek" using e l by (cases r1) (auto split: if_split_asm)
  show "a = PSA_ALG_KW" using e by (auto simp: wrap_check_alg_ok split: if_split_asm)
  have o: "st2 = PSA_SUCCESS" "ok" "st4 = PSA_SUCCESS" "16 \<le> n" "n mod 8 = 0" "n + 8 \<le> out_size out"
    "s' = s4" "len = Some (length c)" "kw_result (wc_AesKeyWrap E kek d (out_size out)) = Inr c"
    using e kek by (auto split: if_split_asm sum.splits)
  show "len = Some (length c)" by (rule o)
  note L = wrap_load_kek_sound [OF env lk l]
  have f1: "load_frame recs s s1" by (rule L(1))
  have f2: "load_frame recs s s2"
    using load_frame_trans [OF f1] get_attributes_sound [OF env _ g] f1 by (simp add: load_frame_def)
  have f3: "load_frame recs s s3"
    using load_frame_trans [OF f2 xmalloc_load_frame [OF _ m]] f2 by (simp add: load_frame_def)
  have X: "load_frame recs s3 s4 \<and> n = length d \<and>
      (\<exists>ka. key_at recs s3 k = Some (ka, d) \<and> usage (policy ka) AND PSA_KEY_USAGE_EXPORT \<noteq> 0)"
    using export_sound [OF env _ x] f3 o(3) by (auto simp: load_frame_def key_at_def)
  then show "load_frame recs s s'" using load_frame_trans [OF f3] o(7) by blast
  show "\<exists>wa kek ka d. key_at recs s wk = Some (wa, kek) \<and> kek_ok wa a PSA_KEY_USAGE_WRAP \<and>
      key_at recs s k = Some (ka, d) \<and> usage (policy ka) AND PSA_KEY_USAGE_EXPORT \<noteq> 0 \<and>
      16 \<le> length d \<and> length d mod 8 = 0 \<and> length d + 8 \<le> out_size out \<and>
      kw_result (wc_AesKeyWrap E kek d (out_size out)) = Inr c"
    using L(2) [OF kek] X o key_at_frame [OF f3] by auto
qed

text \<open>A successful unwrap imported what the permitted key-encryption key unwraps the data to.\<close>

lemma unwrap_sound:
  assumes env: "env_ops env = ops" and lk: "lock_ok s"
    and u: "psa_unwrap_key env E aa wk a din idn s = (PSA_SUCCESS, kid, s')"
  shows "\<exists>wa kek p na s2. key_at recs s wk = Some (wa, kek) \<and> kek_ok wa a PSA_KEY_USAGE_UNWRAP \<and>
    kw_result (wc_AesKeyUnWrap E kek (in_bytes din) (in_length din - 8)) = Inr p \<and> load_frame recs s s2 \<and>
    import_validate env aa (In p) False = Inr na \<and> import_effect recs na p kid s2 s'"
proof -
  obtain r1 s1 where l: "wrap_load_kek env wk a PSA_KEY_USAGE_UNWRAP s = (r1, s1)" by fastforce
  obtain ok s2 where m: "s_xmalloc s1 = (ok, s2)" by fastforce
  note e = u [unfolded psa_unwrap_key_def Let_def l m prod.case]
  obtain kek where kek: "r1 = Inr kek" using e l by (cases r1) (auto split: if_split_asm)
  obtain p where p: "kw_result (wc_AesKeyUnWrap E kek (in_bytes din) (in_length din - 8)) = Inr p"
    using e kek by (cases "kw_result (wc_AesKeyUnWrap E kek (in_bytes din) (in_length din - 8))") (auto split: if_split_asm)
  obtain st3 kid3 s3 where i: "psa_import_key env aa (In p) idn s2 = (st3, kid3, s3)" by (metis prod_cases3)
  have o: "\<not> idn" "st3 = PSA_SUCCESS" "kid3 = kid" "s3 = s'"
    using e kek p i by (auto split: if_split_asm)
  note L = wrap_load_kek_sound [OF env lk l]
  have f2: "load_frame recs s s2"
    using load_frame_trans [OF L(1) xmalloc_load_frame [OF _ m]] L(1) by (simp add: load_frame_def)
  then have lk2: "lock_ok s2" by (simp add: load_frame_def)
  have i': "psa_import_key env aa (In p) False s2 = (PSA_SUCCESS, kid, s')" using i o by simp
  obtain na where "import_validate env aa (In p) False = Inr na" "import_effect recs na p kid s2 s'"
    using import_key_cases [OF env lk2 import_success_bound [OF lk2 i'] i'] by auto
  with L(2) [OF kek] p f2 show ?thesis by blast
qed

end

section \<open>Wrapping and unwrapping\<close>

text \<open>RFC 3394: wrapping adds eight bytes, and unwrapping under the same key restores the input.\<close>

definition key_wrap_inverts :: "wrap_engine \<Rightarrow> bool" where
  "key_wrap_inverts E \<longleftrightarrow> (\<forall>kek p n c. wc_AesKeyWrap E kek p n = Inr c \<longrightarrow>
    length c = length p + 8 \<and> wc_AesKeyUnWrap E kek c (length p) = Inr p)"

text \<open>
  C14: A key that is wrapped and later unwrapped arrives unchanged. A successful wrap used an AES
  key that permits wrapping and a key that permits export, writes within the caller's buffer, and
  changes no key; a successful unwrap of the result, at any later time and under any id that
  holds the same AES key and permits unwrapping, creates exactly one key, whose bytes are those
  of the key that was wrapped and whose attributes are the validated ones of the caller.
\<close>

theorem key_wrap_roundtrip:
  assumes env: "env_ops env = posix_ops os" and E: "key_wrap_inverts E" and lk: "lock_ok s" "lock_ok t"
    and w: "psa_wrap_key env E wk a k out len0 s = (PSA_SUCCESS, c, len, s')"
    and u: "psa_unwrap_key env E aa wk2 a2 (In c) idn t = (PSA_SUCCESS, kid, t')"
    and kek: "map_option snd (key_at posix_recs t wk2) = map_option snd (key_at posix_recs s wk)"
  shows "\<exists>ka d wa wb kek na t1. key_at posix_recs s k = Some (ka, d) \<and> usage (policy ka) AND PSA_KEY_USAGE_EXPORT \<noteq> 0 \<and>
    key_at posix_recs s wk = Some (wa, kek) \<and> kek_ok wa PSA_ALG_KW PSA_KEY_USAGE_WRAP \<and>
    key_at posix_recs t wk2 = Some (wb, kek) \<and> kek_ok wb PSA_ALG_KW PSA_KEY_USAGE_UNWRAP \<and>
    len = Some (length d + 8) \<and> length c \<le> out_size out \<and> load_frame posix_recs s s' \<and>
    load_frame posix_recs t t1 \<and> import_validate env aa (In d) False = Inr na \<and>
    import_effect posix_recs na d kid t1 t'"
proof -
  note W = posix_keys.wrap_sound [OF env lk(1) w]
  have a2: "a2 = PSA_ALG_KW" using u by (auto simp: psa_unwrap_key_def wrap_check_alg_ok split: if_split_asm)
  have c24: "24 \<le> length c" using u by (auto simp: psa_unwrap_key_def split: if_split_asm)
  obtain wa ke ka d where f: "key_at posix_recs s wk = Some (wa, ke)" "kek_ok wa a PSA_KEY_USAGE_WRAP"
    "key_at posix_recs s k = Some (ka, d)" "usage (policy ka) AND PSA_KEY_USAGE_EXPORT \<noteq> 0"
    "length d + 8 \<le> out_size out" "kw_result (wc_AesKeyWrap E ke d (out_size out)) = Inr c"
    using W(4) by blast
  have "wc_AesKeyWrap E ke d (out_size out) = Inr c"
    using f(6) c24 by (auto simp: kw_result_def split: if_split_asm)
  then have i: "length c = length d + 8" "wc_AesKeyUnWrap E ke c (length d) = Inr d"
    using E unfolding key_wrap_inverts_def by blast+
  obtain wb ke2 p na t1 where g: "key_at posix_recs t wk2 = Some (wb, ke2)" "kek_ok wb a2 PSA_KEY_USAGE_UNWRAP"
    "kw_result (wc_AesKeyUnWrap E ke2 c (length c - 8)) = Inr p" "load_frame posix_recs t t1"
    "import_validate env aa (In p) False = Inr na" "import_effect posix_recs na p kid t1 t'"
    using posix_keys.unwrap_sound [OF env lk(2) u] by auto
  have "ke2 = ke" using kek f(1) g(1) by simp
  then have "p = d" using g(3) i by (simp add: kw_result_def)
  with f g i W \<open>ke2 = ke\<close> a2 show ?thesis by auto
qed

section \<open>A concrete run\<close>

definition demo_wrap :: wrap_engine where
  "demo_wrap = \<lparr>kw_export_max = 4096, wc_AesKeyWrap = (\<lambda>kek p n. Inr (replicate 8 0xA6 @ p)),
    wc_AesKeyUnWrap = (\<lambda>kek c n. if take 8 c = replicate 8 0xA6 then Inr (drop 8 c) else Inl BAD_KEYWRAP_IV_E)\<rparr>"

definition demo_kek_attr :: psa_key_attributes_t where
  "demo_kek_attr = (demo_attr 0 0)
    \<lparr>policy := \<lparr>usage = PSA_KEY_USAGE_EXPORT OR PSA_KEY_USAGE_WRAP OR PSA_KEY_USAGE_UNWRAP, alg = PSA_ALG_KW, alg2 = PSA_ALG_NONE\<rparr>\<rparr>"

lemma demo_kek_simps [simp]: "type demo_kek_attr = PSA_KEY_TYPE_AES" "bits demo_kek_attr = 128"
  "psa_get_key_usage_flags demo_kek_attr = 0x30001" "wolfpsa_key_permits_alg demo_kek_attr PSA_ALG_KW"
  "usage (policy demo_kek_attr) = 0x30001"
  by (simp_all add: demo_kek_attr_def psa_get_key_usage_flags_def wolfpsa_key_permits_alg_def
      wolfpsa_policy_alg_permits_def psa_get_key_algorithm_def psa_get_key_enrollment_algorithm_def psa_defs)

abbreviation demo_wrap_ks :: "unit posix_state key_store" where
  "demo_wrap_ks \<equiv> demo_with demo_kek_attr demo_key"

definition demo_wrapped :: "byte list" where "demo_wrapped = replicate 8 0xA6 @ demo_key"

lemma demo_wrap_runs:
  "psa_wrap_key demo_env demo_wrap PSA_KEY_ID_VENDOR_MIN PSA_ALG_KW PSA_KEY_ID_VENDOR_MIN (Out 24) (Some 0) demo_wrap_ks =
     (PSA_SUCCESS, demo_wrapped, Some 24, demo_wrap_ks)"
proof -
  have l: "wrap_load_kek demo_env PSA_KEY_ID_VENDOR_MIN PSA_ALG_KW PSA_KEY_USAGE_WRAP demo_wrap_ks = (Inr demo_key, demo_wrap_ks)"
    by (simp add: wrap_load_kek_def)
  have i: "psa_key_storage_check_init default_build demo_wrap_ks = (PSA_SUCCESS, demo_wrap_ks)"
    using check_init_ready [of default_build demo_wrap_ks] by simp
  have g: "psa_get_key_attributes demo_env PSA_KEY_ID_VENDOR_MIN False demo_wrap_ks =
      (PSA_SUCCESS, demo_kek_attr\<lparr>id := PSA_KEY_ID_VENDOR_MIN\<rparr>, demo_wrap_ks)"
    using posix_keys.get_attributes_eq [of demo_env demo_wrap_ks demo_wrap_ks PSA_KEY_ID_VENDOR_MIN] i by simp
  have z: "PSA_EXPORT_KEY_OUTPUT_SIZE PSA_KEY_TYPE_AES 128 = 16"
    by (simp add: PSA_EXPORT_KEY_OUTPUT_SIZE_def psa_defs)
  have x: "psa_export_key demo_env PSA_KEY_ID_VENDOR_MIN (Out 16) False demo_wrap_ks = (PSA_SUCCESS, demo_key, 16, demo_wrap_ks)"
    using volatile_get_ready [of default_build demo_wrap_ks PSA_KEY_ID_VENDOR_MIN] i by (simp add: psa_export_key_def)
  show ?thesis
    by (simp add: psa_wrap_key_def wolfpsa_clear_length_def wrap_check_alg_ok l g z x demo_wrap_def kw_result_def demo_wrapped_def)
qed

theorem key_wrap_roundtrip_witness:
  "\<exists>t1 t' na. psa_unwrap_key demo_env demo_wrap (Some (demo_attr 5 1)) PSA_KEY_ID_VENDOR_MIN PSA_ALG_KW (In demo_wrapped) False
      demo_wrap_ks = (PSA_SUCCESS, 5, t') \<and> import_effect posix_recs na demo_key 5 t1 t'"
proof -
  have inv: "key_wrap_inverts demo_wrap" by (auto simp: key_wrap_inverts_def demo_wrap_def)
  have l: "wrap_load_kek demo_env PSA_KEY_ID_VENDOR_MIN PSA_ALG_KW PSA_KEY_USAGE_UNWRAP demo_wrap_ks = (Inr demo_key, demo_wrap_ks)"
    by (simp add: wrap_load_kek_def)
  obtain t' where i: "psa_import_key demo_env (Some (demo_attr 5 1)) (In demo_key) False demo_wrap_ks = (PSA_SUCCESS, 5, t')"
    using posix_keys.healthy_import [OF demo_env_simps(1) _ _ _ _ demo_validate [of 1 5], of demo_wrap_ks] demo_healthy by auto
  have u: "psa_unwrap_key demo_env demo_wrap (Some (demo_attr 5 1)) PSA_KEY_ID_VENDOR_MIN PSA_ALG_KW (In demo_wrapped) False
      demo_wrap_ks = (PSA_SUCCESS, 5, t')"
    using i by (simp add: psa_unwrap_key_def wrap_check_alg_ok l demo_wrapped_def demo_wrap_def kw_result_def)
  from key_wrap_roundtrip [OF demo_env_simps(1) inv _ _ demo_wrap_runs u] u show ?thesis by auto
qed

end
