(* ===== verification/Store_Zephyr.thy ===== *)
theory Store_Zephyr
  imports Posix_Keys
begin

text \<open>
  \<open>src/psa_store_zephyr.c\<close>: the store backend over the PSA Internal Trusted Storage of Zephyr, and
  the stub that replaces it without secure storage. The storage service is not part of the
  sources: its calls are a parameter (record \<open>its_ops\<close>), and \<open>its_ok\<close> states their documented
  behaviour. Both backends are shown to keep the contract \<open>store_backend\<close>, so that what is proved
  of the key store over that contract holds on Zephyr too.
\<close>

unbundle bit_operations_syntax

section \<open>The storage service\<close>

text \<open>
  \<open>psa_its_get_info\<close> (size), \<open>psa_its_get\<close> (uid, offset, size; the bytes stored to the buffer),
  \<open>psa_its_set\<close>, \<open>psa_its_remove\<close>.
\<close>

record 'i its_ops =
  its_get_info :: "'i \<Rightarrow> nat \<Rightarrow> psa_status \<times> nat \<times> 'i"
  its_get :: "'i \<Rightarrow> nat \<Rightarrow> nat \<Rightarrow> nat \<Rightarrow> psa_status \<times> byte list \<times> 'i"
  its_set :: "'i \<Rightarrow> nat \<Rightarrow> byte list \<Rightarrow> psa_status \<times> 'i"
  its_remove :: "'i \<Rightarrow> nat \<Rightarrow> psa_status \<times> 'i"

text \<open>
  What is documented of the service: it keeps a map \<open>objs\<close> from uids to objects, reads do not change
  the map and give what it holds, a missing object is reported only where there is none, and a set
  or a remove takes effect exactly when it reports success. Any call may fail.
\<close>

definition its_ok :: "'i its_ops \<Rightarrow> ('i \<Rightarrow> nat \<Rightarrow> byte list option) \<Rightarrow> bool" where
  "its_ok I objs \<longleftrightarrow>
    (\<forall>i u st n i'. its_get_info I i u = (st, n, i') \<longrightarrow> objs i' = objs i \<and>
       (st = PSA_SUCCESS \<longrightarrow> (\<exists>b. objs i u = Some b \<and> n = length b)) \<and>
       (st = PSA_ERROR_DOES_NOT_EXIST \<longrightarrow> objs i u = None)) \<and>
    (\<forall>i u off n st bs i'. its_get I i u off n = (st, bs, i') \<longrightarrow> objs i' = objs i \<and>
       (st = PSA_SUCCESS \<longrightarrow> (\<exists>b. objs i u = Some b \<and> bs = take n (drop off b)))) \<and>
    (\<forall>i u bs st i'. its_set I i u bs = (st, i') \<longrightarrow>
       objs i' = (if st = PSA_SUCCESS then (objs i)(u \<mapsto> bs) else objs i)) \<and>
    (\<forall>i u st i'. its_remove I i u = (st, i') \<longrightarrow>
       objs i' = (if st = PSA_SUCCESS then (objs i)(u := None) else objs i) \<and>
       (st = PSA_ERROR_DOES_NOT_EXIST \<longrightarrow> objs i u = None))"

text \<open>
  A service that does not fail in the states \<open>calm\<close>, with room for every object: not a promise of
  the interface, but the case in which a success can be asked for.
\<close>

definition its_roomy :: "'i its_ops \<Rightarrow> ('i \<Rightarrow> nat \<Rightarrow> byte list option) \<Rightarrow> ('i \<Rightarrow> bool) \<Rightarrow> bool" where
  "its_roomy I objs calm \<longleftrightarrow>
    (\<forall>i u st n i'. calm i \<longrightarrow> its_get_info I i u = (st, n, i') \<longrightarrow>
       calm i' \<and> st = (if objs i u = None then PSA_ERROR_DOES_NOT_EXIST else PSA_SUCCESS)) \<and>
    (\<forall>i u off n st bs i'. calm i \<longrightarrow> its_get I i u off n = (st, bs, i') \<longrightarrow>
       calm i' \<and> (objs i u \<noteq> None \<longrightarrow> st = PSA_SUCCESS)) \<and>
    (\<forall>i u bs st i'. calm i \<longrightarrow> u \<noteq> 0 \<longrightarrow> its_set I i u bs = (st, i') \<longrightarrow> calm i' \<and> st = PSA_SUCCESS) \<and>
    (\<forall>i u st i'. calm i \<longrightarrow> its_remove I i u = (st, i') \<longrightarrow>
       calm i' \<and> (st = PSA_SUCCESS \<or> st = PSA_ERROR_DOES_NOT_EXIST))"

abbreviation its_full :: "'i its_ops \<Rightarrow> ('i \<Rightarrow> nat \<Rightarrow> byte list option) \<Rightarrow> ('i \<Rightarrow> bool) \<Rightarrow> bool" where
  "its_full I objs calm \<equiv> its_ok I objs \<and> its_roomy I objs calm"

text \<open>Of a service that may fail in every state nothing more is asked.\<close>

lemma its_never_calm: "its_roomy I objs (\<lambda>i. False)"
  by (simp add: its_roomy_def)

section \<open>The backend\<close>

text \<open>
  The state is the service and the outcomes of coming allocations. A handle is the
  \<open>WolfpsaZephyrStore\<close> structure; \<open>len\<close> is the length of \<open>zh_buf\<close>, and the pointer \<open>buf\<close> is NULL
  exactly when that is 0.
\<close>

record 'i zephyr_state =
  z_its :: 'i
  z_allocs :: "bool list"

record WolfpsaZephyrStore =
  zh_uid :: nat
  zh_buf :: "byte list"
  zh_off :: nat
  zh_write :: bool

definition z_xmalloc :: "'i zephyr_state \<Rightarrow> bool \<times> 'i zephyr_state" where
  "z_xmalloc st = (case xmalloc (z_allocs st) of (ok, as) \<Rightarrow> (ok, st\<lparr>z_allocs := as\<rparr>))"

definition wolfpsa_store_uid :: "int \<Rightarrow> nat \<Rightarrow> nat \<Rightarrow> nat" where
  "wolfpsa_store_uid t id1 id2 = id1"

text \<open>The read snapshot: one \<open>psa_its_get\<close> of the whole object.\<close>

definition zephyr_snapshot ::
    "'i its_ops \<Rightarrow> nat \<Rightarrow> nat \<Rightarrow> 'i zephyr_state \<Rightarrow> WolfpsaZephyrStore open_result \<times> 'i zephyr_state" where
  "zephyr_snapshot I uid sz st =
    (case z_xmalloc st of
       (ok, st1) \<Rightarrow>
         if \<not> ok then (OpenFail STORE_MEMORY_E, st1)
         else
           (case its_get I (z_its st1) uid 0 sz of
              (s, bs, i) \<Rightarrow>
                if s \<noteq> PSA_SUCCESS \<or> length bs \<noteq> sz then (OpenFail WOLFPSA_STORE_IO_ERROR, st1\<lparr>z_its := i\<rparr>)
                else (Opened \<lparr>zh_uid = uid, zh_buf = bs, zh_off = 0, zh_write = False\<rparr>, st1\<lparr>z_its := i\<rparr>)))"

definition zephyr_Store_OpenSz ::
    "'i its_ops \<Rightarrow> 'i zephyr_state \<Rightarrow> int \<Rightarrow> nat \<Rightarrow> nat \<Rightarrow> bool \<Rightarrow> nat \<Rightarrow>
     WolfpsaZephyrStore open_result \<times> 'i zephyr_state" where
  "zephyr_Store_OpenSz I st t id1 id2 rd variableSz =
    (let uid = wolfpsa_store_uid t id1 id2 in
     if uid = 0 then (OpenFail WOLFPSA_STORE_IO_ERROR, st)
     else
       (let (s, sz, i) = (if rd then its_get_info I (z_its st) uid else (PSA_SUCCESS, 0, z_its st));
            st1 = st\<lparr>z_its := i\<rparr>
        in if rd \<and> s = PSA_ERROR_DOES_NOT_EXIST then (OpenFail WOLFPSA_STORE_NOT_AVAILABLE, st1)
           else if rd \<and> s \<noteq> PSA_SUCCESS then (OpenFail WOLFPSA_STORE_IO_ERROR, st1)
           else
             (case z_xmalloc st1 of
                (ok, st2) \<Rightarrow>
                  if \<not> ok then (OpenFail STORE_MEMORY_E, st2)
                  else if rd \<and> sz > 0 then zephyr_snapshot I uid sz st2
                  else (Opened \<lparr>zh_uid = uid, zh_buf = [], zh_off = 0, zh_write = \<not> rd\<rparr>, st2))))"

definition zephyr_Store_Remove ::
    "'i its_ops \<Rightarrow> 'i zephyr_state \<Rightarrow> int \<Rightarrow> nat \<Rightarrow> nat \<Rightarrow> store_rc \<times> 'i zephyr_state" where
  "zephyr_Store_Remove I st t id1 id2 =
    (let uid = wolfpsa_store_uid t id1 id2 in
     if uid = 0 then (WOLFPSA_STORE_IO_ERROR, st)
     else
       (case its_remove I (z_its st) uid of
          (s, i) \<Rightarrow>
            (if s = PSA_ERROR_DOES_NOT_EXIST then WOLFPSA_STORE_NOT_AVAILABLE
             else if s \<noteq> PSA_SUCCESS then WOLFPSA_STORE_IO_ERROR else WOLFPSA_STORE_OK,
             st\<lparr>z_its := i\<rparr>)))"

definition zephyr_Store_Close ::
    "'i zephyr_state \<Rightarrow> WolfpsaZephyrStore \<Rightarrow> store_rc \<times> 'i zephyr_state" where
  "zephyr_Store_Close st h = (WOLFPSA_STORE_OK, st)"

definition zephyr_Store_Read ::
    "'i zephyr_state \<Rightarrow> WolfpsaZephyrStore \<Rightarrow> nat \<Rightarrow>
     (store_rc + byte list) \<times> WolfpsaZephyrStore \<times> 'i zephyr_state" where
  "zephyr_Store_Read st h n =
    (if zh_write h then (Inl WOLFPSA_STORE_IO_ERROR, h, st)
     else if n = 0 \<or> zh_off h \<ge> length (zh_buf h) then (Inr [], h, st)
     else
       (let got = (if length (zh_buf h) - zh_off h > n then n else length (zh_buf h) - zh_off h)
        in (Inr (take got (drop (zh_off h) (zh_buf h))), h\<lparr>zh_off := zh_off h + got\<rparr>, st)))"

definition zephyr_Store_Write ::
    "'i its_ops \<Rightarrow> 'i zephyr_state \<Rightarrow> WolfpsaZephyrStore \<Rightarrow> byte list \<Rightarrow>
     (store_rc + nat) \<times> WolfpsaZephyrStore \<times> 'i zephyr_state" where
  "zephyr_Store_Write I st h bs =
    (if \<not> zh_write h then (Inl WOLFPSA_STORE_IO_ERROR, h, st)
     else
       (let (ok, st1) = (if bs \<noteq> [] then z_xmalloc st else (True, st))
        in if \<not> ok then (Inl STORE_MEMORY_E, h, st1)
           else
             (let h1 = h\<lparr>zh_buf := zh_buf h @ bs\<rparr>
              in if zh_buf h1 = [] then (Inr (length bs), h1, st1)
                 else
                   (case its_set I (z_its st1) (zh_uid h1) (zh_buf h1) of
                      (s, i) \<Rightarrow>
                        (if s \<noteq> PSA_SUCCESS then Inl WOLFPSA_STORE_IO_ERROR else Inr (length bs), h1, st1\<lparr>z_its := i\<rparr>)))))"

definition zephyr_ops :: "'i its_ops \<Rightarrow> ('i zephyr_state, WolfpsaZephyrStore) store_ops" where
  "zephyr_ops I =
    \<lparr>so_open = zephyr_Store_OpenSz I, so_read = zephyr_Store_Read, so_write = zephyr_Store_Write I,
     so_close = zephyr_Store_Close, so_remove = zephyr_Store_Remove I\<rparr>"

text \<open>The stub of a build without secure storage.\<close>

definition stub_ops :: "('st, WolfpsaZephyrStore) store_ops" where
  "stub_ops =
    \<lparr>so_open = (\<lambda>st t id1 id2 rd n. (OpenFail WOLFPSA_STORE_NOT_AVAILABLE, st)),
     so_read = (\<lambda>st h n. (Inl WOLFPSA_STORE_IO_ERROR, h, st)),
     so_write = (\<lambda>st h bs. (Inl WOLFPSA_STORE_IO_ERROR, h, st)),
     so_close = (\<lambda>st h. (WOLFPSA_STORE_OK, st)),
     so_remove = (\<lambda>st t id1 id2. (WOLFPSA_STORE_NOT_AVAILABLE, st))\<rparr>"

section \<open>The contract\<close>

lemma its_okD:
  assumes "its_ok I objs"
  shows "its_get_info I i u = (st, n, i') \<Longrightarrow> objs i' = objs i"
    and "its_get_info I i u = (PSA_SUCCESS, n, i') \<Longrightarrow> \<exists>b. objs i u = Some b \<and> n = length b"
    and "its_get_info I i u = (PSA_ERROR_DOES_NOT_EXIST, n, i') \<Longrightarrow> objs i u = None"
    and "its_get I i u off n = (st, bs, i') \<Longrightarrow> objs i' = objs i"
    and "its_get I i u off n = (PSA_SUCCESS, bs, i') \<Longrightarrow> \<exists>b. objs i u = Some b \<and> bs = take n (drop off b)"
    and "its_set I i u bs = (st, i') \<Longrightarrow> objs i' = (if st = PSA_SUCCESS then (objs i)(u \<mapsto> bs) else objs i)"
    and "its_remove I i u = (st, i') \<Longrightarrow> objs i' = (if st = PSA_SUCCESS then (objs i)(u := None) else objs i)"
    and "its_remove I i u = (PSA_ERROR_DOES_NOT_EXIST, i') \<Longrightarrow> objs i u = None"
  using assms unfolding its_ok_def by - (elim conjE, (blast | fastforce))+

lemma its_roomyD:
  assumes "its_roomy I objs calm"
  shows "its_get_info I i u = (st, n, i') \<Longrightarrow> calm i \<Longrightarrow>
      calm i' \<and> st = (if objs i u = None then PSA_ERROR_DOES_NOT_EXIST else PSA_SUCCESS)"
    and "its_get I i u off n = (st, bs, i') \<Longrightarrow> calm i \<Longrightarrow> calm i' \<and> (objs i u \<noteq> None \<longrightarrow> st = PSA_SUCCESS)"
    and "its_set I i u bs = (st, i') \<Longrightarrow> calm i \<Longrightarrow> u \<noteq> 0 \<Longrightarrow> calm i' \<and> st = PSA_SUCCESS"
    and "its_remove I i u = (st, i') \<Longrightarrow> calm i \<Longrightarrow> calm i' \<and> (st = PSA_SUCCESS \<or> st = PSA_ERROR_DOES_NOT_EXIST)"
proof -
  note R = assms [unfolded its_roomy_def]
  note C = R [THEN conjunct1] R [THEN conjunct2, THEN conjunct1] R [THEN conjunct2, THEN conjunct2, THEN conjunct1]
    R [THEN conjunct2, THEN conjunct2, THEN conjunct2]
  show "its_get_info I i u = (st, n, i') \<Longrightarrow> calm i \<Longrightarrow>
      calm i' \<and> st = (if objs i u = None then PSA_ERROR_DOES_NOT_EXIST else PSA_SUCCESS)"
    by (rule C(1) [THEN spec, THEN spec, THEN spec, THEN spec, THEN spec, THEN mp, THEN mp])
  show "its_get I i u off n = (st, bs, i') \<Longrightarrow> calm i \<Longrightarrow> calm i' \<and> (objs i u \<noteq> None \<longrightarrow> st = PSA_SUCCESS)"
    by (rule C(2) [THEN spec, THEN spec, THEN spec, THEN spec, THEN spec, THEN spec, THEN spec, THEN mp, THEN mp])
  show "its_set I i u bs = (st, i') \<Longrightarrow> calm i \<Longrightarrow> u \<noteq> 0 \<Longrightarrow> calm i' \<and> st = PSA_SUCCESS"
    by (rule C(3) [THEN spec, THEN spec, THEN spec, THEN spec, THEN spec, THEN mp, THEN mp, THEN mp])
  show "its_remove I i u = (st, i') \<Longrightarrow> calm i \<Longrightarrow> calm i' \<and> (st = PSA_SUCCESS \<or> st = PSA_ERROR_DOES_NOT_EXIST)"
    by (rule C(4) [THEN spec, THEN spec, THEN spec, THEN spec, THEN mp, THEN mp])
qed

lemmas its_fullD = its_okD(1-3) [OF conjunct1] its_roomyD(1) [OF conjunct2] its_okD(4,5) [OF conjunct1]
  its_roomyD(2) [OF conjunct2] its_okD(6) [OF conjunct1] its_roomyD(3) [OF conjunct2] its_okD(7,8) [OF conjunct1]
  its_roomyD(4) [OF conjunct2]

definition zephyr_recs :: "('i \<Rightarrow> nat \<Rightarrow> byte list option) \<Rightarrow> 'i zephyr_state \<Rightarrow> nat \<Rightarrow> byte list option" where
  "zephyr_recs objs st k = (if k = 0 then None else objs (z_its st) k)"

definition zephyr_reading :: "WolfpsaZephyrStore \<Rightarrow> byte list \<Rightarrow> bool" where
  "zephyr_reading h bs \<longleftrightarrow> \<not> zh_write h \<and> bs = drop (zh_off h) (zh_buf h)"

definition zephyr_healthy :: "('i \<Rightarrow> bool) \<Rightarrow> 'i zephyr_state \<Rightarrow> bool" where
  "zephyr_healthy calm st \<longleftrightarrow> calm (z_its st) \<and> z_allocs st = []"

lemma z_xmalloc_its: "z_xmalloc st = (ok, st') \<Longrightarrow> z_its st' = z_its st"
  by (auto simp: z_xmalloc_def split: prod.splits)

lemma zephyr_open_read:
  assumes I: "its_full I objs calm" and o: "zephyr_Store_OpenSz I st t k k2 True n = (r, st')"
  shows "zephyr_recs objs st' = zephyr_recs objs st"
    and "r = Opened h \<Longrightarrow> \<exists>bs. zephyr_recs objs st k = Some bs \<and> zephyr_reading h bs"
    and "r = OpenFail WOLFPSA_STORE_NOT_AVAILABLE \<Longrightarrow> zephyr_recs objs st k = None"
    and "r \<noteq> OpenFail WOLFPSA_STORE_OK"
    and "zephyr_healthy calm st \<Longrightarrow> k \<noteq> 0 \<Longrightarrow> zephyr_healthy calm st' \<and>
      (if zephyr_recs objs st k = None then r = OpenFail WOLFPSA_STORE_NOT_AVAILABLE else \<exists>h. r = Opened h)"
proof -
  obtain s1 sz i1 where g: "its_get_info I (z_its st) k = (s1, sz, i1)" by (metis prod_cases3)
  obtain ok st2 where m: "z_xmalloc (st\<lparr>z_its := i1\<rparr>) = (ok, st2)" by fastforce
  obtain ok3 st3 where m3: "z_xmalloc st2 = (ok3, st3)" by fastforce
  obtain s4 bs i4 where gt: "its_get I (z_its st3) k 0 sz = (s4, bs, i4)" by (metis prod_cases3)
  note G = its_fullD(1-4) [OF I, of "z_its st" k] its_fullD(5-7) [OF I, of "z_its st3" k 0 sz]
  have i: "z_its st2 = i1" "z_its st3 = i1" using z_xmalloc_its [OF m] z_xmalloc_its [OF m3] by simp_all
  have ob: "objs i1 = objs (z_its st)" "objs i4 = objs i1" using G(1) [OF g] G(5) [OF gt] i by simp_all
  note e = o [unfolded zephyr_Store_OpenSz_def wolfpsa_store_uid_def Let_def zephyr_snapshot_def g m prod.case m3 gt if_True]
  show "zephyr_recs objs st' = zephyr_recs objs st"
    using e i ob by (auto simp: zephyr_recs_def fun_eq_iff split: if_split_asm)
  show "\<exists>bs. zephyr_recs objs st k = Some bs \<and> zephyr_reading h bs" if "r = Opened h"
    using e that G(2) [of sz i1] G(6) [of bs i4] g gt i ob
    by (auto simp: zephyr_recs_def zephyr_reading_def split: if_split_asm)
  show "zephyr_recs objs st k = None" if "r = OpenFail WOLFPSA_STORE_NOT_AVAILABLE"
    using e that G(3) [of sz i1] g by (auto simp: zephyr_recs_def split: if_split_asm)
  show "r \<noteq> OpenFail WOLFPSA_STORE_OK" using e by (auto split: if_split_asm)
  show "zephyr_healthy calm st' \<and>
      (if zephyr_recs objs st k = None then r = OpenFail WOLFPSA_STORE_NOT_AVAILABLE else \<exists>h. r = Opened h)"
    if h: "zephyr_healthy calm st" "k \<noteq> 0"
  proof -
    have a: "ok" "ok3" "z_allocs st2 = []" "z_allocs st3 = []"
      using h(1) m m3 by (auto simp: zephyr_healthy_def z_xmalloc_def)
    have c: "calm i1" "s1 = (if objs (z_its st) k = None then PSA_ERROR_DOES_NOT_EXIST else PSA_SUCCESS)"
      using G(4) [OF g] h(1) by (simp_all add: zephyr_healthy_def)
    have c4: "calm i4" "objs i1 k \<noteq> None \<longrightarrow> s4 = PSA_SUCCESS" using G(7) [OF gt] c(1) i by simp_all
    show ?thesis
    proof (cases "objs (z_its st) k")
      case None
      then show ?thesis using e c h by (auto simp: zephyr_recs_def zephyr_healthy_def)
    next
      case (Some b)
      then have l: "s1 = PSA_SUCCESS" "sz = length b" "s4 = PSA_SUCCESS" using c c4 ob G(2) [of sz i1] g by auto
      then have "bs = b" using G(6) [of bs i4] gt i ob Some by auto
      then show ?thesis using e l a c4 c(1) i h Some by (cases "sz = 0") (auto simp: zephyr_recs_def zephyr_healthy_def)
    qed
  qed
qed

lemma zephyr_read:
  assumes "zephyr_reading h bs" and "zephyr_Store_Read st h n = (r, h', st')"
  shows "st' = st" "r = Inr (take n bs)" "zephyr_reading h' (drop n bs)"
  using assms
  by (auto simp: zephyr_Store_Read_def zephyr_reading_def Let_def add.commute min_def split: if_split_asm)

lemma zephyr_write_session:
  assumes I: "its_full I objs calm" and o: "zephyr_Store_OpenSz I st t k k2 False n = (r, st1)"
  shows "zephyr_recs objs st1 = zephyr_recs objs st" "r \<noteq> OpenFail WOLFPSA_STORE_OK"
    and "r = Opened h \<Longrightarrow> bs \<noteq> [] \<Longrightarrow> zephyr_Store_Write I st1 h bs = (io, h', st2) \<Longrightarrow>
      zephyr_recs objs st2 = (if io = Inr (length bs) then (zephyr_recs objs st)(k \<mapsto> bs) else zephyr_recs objs st)"
    and "zephyr_healthy calm st \<Longrightarrow> k \<noteq> 0 \<Longrightarrow> bs \<noteq> [] \<Longrightarrow> \<exists>h h' st2. r = Opened h \<and>
      zephyr_Store_Write I st1 h bs = (Inr (length bs), h', st2) \<and> zephyr_healthy calm st2"
proof -
  obtain ok stm where m: "z_xmalloc (st\<lparr>z_its := z_its st\<rparr>) = (ok, stm)" by fastforce
  have i: "z_its stm = z_its st" using z_xmalloc_its [OF m] by simp
  note e = o [unfolded zephyr_Store_OpenSz_def wolfpsa_store_uid_def Let_def if_False prod.case m]
  show "zephyr_recs objs st1 = zephyr_recs objs st" "r \<noteq> OpenFail WOLFPSA_STORE_OK"
    using e i by (auto simp: zephyr_recs_def fun_eq_iff split: if_split_asm)
  let ?h = "\<lparr>zh_uid = k, zh_buf = [], zh_off = 0, zh_write = True\<rparr>"
  obtain ok2 stn where m2: "z_xmalloc st1 = (ok2, stn)" by fastforce
  obtain s i2 where st: "its_set I (z_its stn) k bs = (s, i2)" by fastforce
  have W: "zephyr_Store_Write I st1 ?h bs = (if \<not> ok2 then (Inl STORE_MEMORY_E, ?h, stn)
      else (if s \<noteq> PSA_SUCCESS then Inl WOLFPSA_STORE_IO_ERROR else Inr (length bs), ?h\<lparr>zh_buf := bs\<rparr>, stn\<lparr>z_its := i2\<rparr>))"
    if "bs \<noteq> []"
    using that m2 st by (simp add: zephyr_Store_Write_def)
  show "zephyr_recs objs st2 = (if io = Inr (length bs) then (zephyr_recs objs st)(k \<mapsto> bs) else zephyr_recs objs st)"
    if "r = Opened h" "bs \<noteq> []" "zephyr_Store_Write I st1 h bs = (io, h', st2)"
  proof -
    have h: "h = ?h" "st1 = stm" "k \<noteq> 0" using e that(1) by (auto split: if_split_asm)
    show ?thesis
      using that(3) [unfolded h(1) W [OF that(2)]] h i z_xmalloc_its [OF m2] its_fullD(8) [OF I st]
      by (auto simp: zephyr_recs_def fun_eq_iff split: if_split_asm)
  qed
  show "\<exists>h h' st2. r = Opened h \<and> zephyr_Store_Write I st1 h bs = (Inr (length bs), h', st2) \<and> zephyr_healthy calm st2"
    if h: "zephyr_healthy calm st" "k \<noteq> 0" "bs \<noteq> []"
  proof -
    have a: "ok" "st1 = stm" "r = Opened ?h" "ok2" "z_allocs stn = []"
      using e h m m2 by (auto simp: zephyr_healthy_def z_xmalloc_def)
    have "calm (z_its stn)" using h(1) i a(2) z_xmalloc_its [OF m2] by (simp add: zephyr_healthy_def)
    then have "s = PSA_SUCCESS" "calm i2" using its_fullD(9) [OF I st] h(2) by simp_all
    then show ?thesis using W [OF h(3)] a by (simp add: zephyr_healthy_def)
  qed
qed

lemma zephyr_remove:
  assumes I: "its_full I objs calm" and r: "zephyr_Store_Remove I st t k k2 = (rc, st')"
  shows "zephyr_recs objs st' = (if rc = WOLFPSA_STORE_OK then (zephyr_recs objs st)(k := None) else zephyr_recs objs st)"
    and "rc = WOLFPSA_STORE_NOT_AVAILABLE \<Longrightarrow> zephyr_recs objs st k = None"
    and "zephyr_healthy calm st \<Longrightarrow> k \<noteq> 0 \<Longrightarrow>
      zephyr_healthy calm st' \<and> (rc = WOLFPSA_STORE_OK \<or> rc = WOLFPSA_STORE_NOT_AVAILABLE)"
proof -
  obtain s i where g: "its_remove I (z_its st) k = (s, i)" by fastforce
  note G = its_fullD(10-12) [OF I, of "z_its st" k]
  note e = r [unfolded zephyr_Store_Remove_def wolfpsa_store_uid_def Let_def g prod.case]
  show "zephyr_recs objs st' = (if rc = WOLFPSA_STORE_OK then (zephyr_recs objs st)(k := None) else zephyr_recs objs st)"
    using e G(1) [OF g] by (auto simp: zephyr_recs_def fun_eq_iff split: if_split_asm)
  show "zephyr_recs objs st k = None" if "rc = WOLFPSA_STORE_NOT_AVAILABLE"
    using e that G(2) [of i] g by (auto simp: zephyr_recs_def split: if_split_asm)
  show "zephyr_healthy calm st' \<and> (rc = WOLFPSA_STORE_OK \<or> rc = WOLFPSA_STORE_NOT_AVAILABLE)"
    if "zephyr_healthy calm st" "k \<noteq> 0"
    using e that G(3) [OF g] by (auto simp: zephyr_healthy_def split: if_split_asm)
qed

text \<open>
  The contract holds for every service that behaves as documented, with the ids that the
  service accepts: all but 0; its clauses on success are those of the states \<open>calm\<close>.
\<close>

lemma zephyr_key_backend:
  assumes I: "its_full I objs calm"
  shows "key_backend (zephyr_ops I) (zephyr_recs objs) zephyr_reading (zephyr_healthy calm) (\<lambda>k. k \<noteq> 0)"
proof (unfold_locales, unfold zephyr_ops_def store_ops.simps, goal_cases)
  case (1 st k n r st') then show ?case using zephyr_open_read(1) [OF I] by blast
next
  case (2 st k n h st') then show ?case using zephyr_open_read(2) [OF I] by blast
next
  case (3 st k n st') then show ?case using zephyr_open_read(3) [OF I] by blast
next
  case (4 st k rd n rc st')
  then show ?case
    using zephyr_open_read(4) [OF I, of st WOLFPSA_STORE_KEY k 0 n "OpenFail rc" st']
      zephyr_write_session(2) [OF I, of st WOLFPSA_STORE_KEY k 0 n "OpenFail rc" st'] by (cases rd) simp_all
next
  case (5 h bs st n rr h' st') then show ?case using zephyr_read(1) by blast
next
  case (6 h bs st n cs h' st')
  then show ?case using zephyr_read(2,3) [OF 6] by (auto intro!: exI [of _ "drop n bs"])
next
  case (7 h bs st n e h' st') then show ?case using zephyr_read(2) [OF 7] by simp
next
  case (8 h bs st rc st') then show ?case by (simp add: zephyr_Store_Close_def)
next
  case (9 st k n r st') then show ?case using zephyr_write_session(1) [OF I] by blast
next
  case (10 st h bs m h' st')
  then show ?case by (auto simp: zephyr_Store_Write_def Let_def split: if_split_asm prod.splits)
next
  case (11 st k n h st1 bs io h' st2 rc st3)
  then show ?case using zephyr_write_session(3) [OF I 11(1) refl 11(2,3)] by (auto simp: zephyr_Store_Close_def)
next
  case (12 st k rc st') then show ?case using zephyr_remove(1) [OF I] by blast
next
  case (13 st k st') then show ?case using zephyr_remove(2) [OF I] by blast
next
  case (14 st k bs n)
  obtain r st' where o: "zephyr_Store_OpenSz I st WOLFPSA_STORE_KEY k 0 True n = (r, st')" by fastforce
  have "k \<noteq> 0" using 14(3) by (auto simp: zephyr_recs_def split: if_split_asm)
  with zephyr_open_read(5) [OF I o] 14 o show ?case by auto
next
  case (15 st k n)
  obtain r st' where o: "zephyr_Store_OpenSz I st WOLFPSA_STORE_KEY k 0 True n = (r, st')" by fastforce
  with zephyr_open_read(5) [OF I o] 15 show ?case by auto
next
  case (16 st h bs n)
  obtain r h' st' where o: "zephyr_Store_Read st h n = (r, h', st')" by (metis prod_cases3)
  with zephyr_read [OF 16(2) o] 16 show ?case by auto
next
  case (17 st h bs) then show ?case by (simp add: zephyr_Store_Close_def)
next
  case (18 st k bs n)
  obtain r st1 where o: "zephyr_Store_OpenSz I st WOLFPSA_STORE_KEY k 0 False n = (r, st1)" by fastforce
  from zephyr_write_session(4) [OF I o 18] o show ?case by (auto simp: zephyr_Store_Close_def)
next
  case (19 st k)
  obtain rc st' where o: "zephyr_Store_Remove I st WOLFPSA_STORE_KEY k 0 = (rc, st')" by fastforce
  from zephyr_remove(3) [OF I o 19] o show ?case by auto
qed

text \<open>Without secure storage there are no records, and no operation on them succeeds.\<close>

interpretation stub_keys: key_backend stub_ops "\<lambda>st k. None" "\<lambda>h bs. False" "\<lambda>st. False" "\<lambda>k. False"
  by unfold_locales (auto simp: stub_ops_def)

section \<open>The key store on Zephyr\<close>

text \<open>
  C8: On Zephyr the key store refines a map from ids to keys as well: over every storage service
  that behaves as documented (\<open>its_ok\<close>), whatever failures it reports, a sequence of
  key-management calls behaves like operations on a map. As on POSIX this is for disciplined
  callers (\<open>op_ok\<close>: no import, generation or copy asks for an id of the vendor range \<open>0x40000000\<close> to
  \<open>0x7fffffff\<close>, and the record of an imported key is at most \<open>INT_MAX\<close> bytes long), from a fresh
  process whose store has no record in the vendor range and none longer than \<open>INT_MAX\<close>
  (\<open>id_inv\<close>), with generators that keep to their buffers (\<open>env_bounded\<close>).
\<close>

theorem zephyr_key_store_refines_map:
  assumes I: "its_ok I objs" and env: "env_ops env = zephyr_ops I"
    and run: "env_bounded env" "id_inv (zephyr_recs objs) (fresh_store st)" "list_all op_ok calls"
      "run_all env calls (fresh_store st) = (tr, s')"
  shows "abs_run tr (ks_abs (zephyr_recs objs) (fresh_store st)) (ks_abs (zephyr_recs objs) s')"
proof -
  have K: "key_backend (zephyr_ops I) (zephyr_recs objs) zephyr_reading (zephyr_healthy (\<lambda>i. False)) (\<lambda>k. k \<noteq> 0)"
    by (rule zephyr_key_backend) (simp add: I its_never_calm)
  from key_backend.run_refines [OF K env run] show ?thesis by blast
qed

text \<open>
  A persistent import over a service that does not fail and has room succeeds exactly when the id
  is free.
\<close>

theorem zephyr_import_when_free:
  assumes I: "its_ok I objs" "its_roomy I objs calm" and env: "env_ops env = zephyr_ops I"
    and h: "ready (env_build env) s" "g_psa_crypto_initialized s" "zephyr_healthy calm (store s)" "allocs s = []"
      "import_validate env aa din idn = Inr a" "\<not> PSA_KEY_LIFETIME_IS_VOLATILE (lifetime a)"
      "id a \<noteq> PSA_KEY_ID_NULL" "header_length + in_length din \<le> INT_MAX"
  shows "\<exists>s1. psa_import_key env aa din idn s =
    (if zephyr_recs objs (store s) (unat (id a)) = None then (PSA_SUCCESS, id a, s1)
     else (PSA_ERROR_ALREADY_EXISTS, PSA_KEY_ID_NULL, s1))"
proof -
  have K: "key_backend (zephyr_ops I) (zephyr_recs objs) zephyr_reading (zephyr_healthy calm) (\<lambda>k. k \<noteq> 0)"
    by (rule zephyr_key_backend) (simp add: I)
  have "unat (id a) \<noteq> 0" using h(7) by (simp add: unat_eq_0)
  from key_backend.healthy_import [OF K env h this] show ?thesis by auto
qed

section \<open>A concrete service\<close>

definition demo_its :: "(nat \<Rightarrow> byte list option) its_ops" where
  "demo_its =
    \<lparr>its_get_info = (\<lambda>i u. case i u of None \<Rightarrow> (PSA_ERROR_DOES_NOT_EXIST, 0, i) | Some b \<Rightarrow> (PSA_SUCCESS, length b, i)),
     its_get = (\<lambda>i u off n. case i u of None \<Rightarrow> (PSA_ERROR_DOES_NOT_EXIST, [], i) | Some b \<Rightarrow> (PSA_SUCCESS, take n (drop off b), i)),
     its_set = (\<lambda>i u bs. (PSA_SUCCESS, i(u \<mapsto> bs))),
     its_remove = (\<lambda>i u. case i u of None \<Rightarrow> (PSA_ERROR_DOES_NOT_EXIST, i) | Some b \<Rightarrow> (PSA_SUCCESS, i(u := None)))\<rparr>"

lemma demo_its_ok: "its_ok demo_its (\<lambda>i. i)" "its_roomy demo_its (\<lambda>i. i) (\<lambda>i. True)"
  by (auto simp: its_ok_def its_roomy_def demo_its_def split: option.splits)

definition demo_zephyr_env :: "((nat \<Rightarrow> byte list option) zephyr_state, WolfpsaZephyrStore) psa_env" where
  "demo_zephyr_env =
    \<lparr>env_build = default_build, env_ops = zephyr_ops demo_its, env_wc = env_wc demo_env,
     wc_init_rng = wc_init_rng demo_env, wc_rng_block = wc_rng_block demo_env, gen_rsa = gen_rsa demo_env,
     gen_ecc = gen_ecc demo_env, gen_ed25519 = gen_ed25519 demo_env, gen_ed448 = gen_ed448 demo_env,
     gen_x25519 = gen_x25519 demo_env, gen_x448 = gen_x448 demo_env, mldsa_seed = mldsa_seed demo_env,
     mlkem_seed = mlkem_seed demo_env, new_rsa_key = new_rsa_key demo_env, rsa_private_decode = rsa_private_decode demo_env,
     rsa_flatten_public = rsa_flatten_public demo_env, export_ecc = export_ecc demo_env,
     export_ed25519 = export_ed25519 demo_env, export_ed448 = export_ed448 demo_env, export_x25519 = export_x25519 demo_env,
     export_x448 = export_x448 demo_env, export_mldsa = export_mldsa demo_env, export_mlkem = export_mlkem demo_env\<rparr>"

lemma demo_zephyr_env_simps [simp]:
  "env_ops demo_zephyr_env = zephyr_ops demo_its" "env_build demo_zephyr_env = default_build"
  by (simp_all add: demo_zephyr_env_def)

lemma demo_zephyr_bounded: "env_bounded demo_zephyr_env"
  using demo_bounded by (simp add: env_bounded_def demo_zephyr_env_def)

abbreviation demo_zephyr :: "(nat \<Rightarrow> byte list option) zephyr_state" where
  "demo_zephyr \<equiv> \<lparr>z_its = (\<lambda>u. None), z_allocs = []\<rparr>"

lemma demo_zephyr_id_inv: "id_inv (zephyr_recs (\<lambda>i. i)) (fresh_store demo_zephyr)"
  using ks_inv_fresh_store [of demo_zephyr]
  by (simp add: id_inv_def ks_abs_def ks_lookup_def fresh_store_def wolfpsa_volatile_find_def zephyr_recs_def)

lemma demo_zephyr_validate:
  "import_validate demo_zephyr_env (Some (demo_attr 5 1)) (In demo_key) False = Inr (demo_attr 5 1)"
  by (simp add: import_validate_def import_check_args_def import_bits_def import_check_data_def
      import_check_chacha_def import_check_aes_def wolfpsa_usage_flags_valid_def psa_defs
      psa_get_key_usage_flags_def Let_def)

theorem zephyr_import_when_free_witness:
  "\<exists>s1. psa_import_key demo_zephyr_env (Some (demo_attr 5 1)) (In demo_key) False
     ((fresh_store demo_zephyr)\<lparr>g_psa_crypto_initialized := True\<rparr>) = (PSA_SUCCESS, 5, s1)"
proof -
  let ?s = "(fresh_store demo_zephyr)\<lparr>g_psa_crypto_initialized := True\<rparr>"
  have r: "ready default_build ?s"
    by (simp add: fresh_store_def ready_def lock_ok_def default_build_def)
  have h: "zephyr_healthy (\<lambda>i. True) (store ?s)" "allocs ?s = []" "zephyr_recs (\<lambda>i. i) (store ?s) 5 = None"
    by (simp_all add: zephyr_healthy_def zephyr_recs_def fresh_store_def)
  from zephyr_import_when_free [OF demo_its_ok demo_zephyr_env_simps(1) _ _ _ _ demo_zephyr_validate, of ?s]
  show ?thesis using r h by auto
qed

text \<open>A run that imports a persistent key, exports it and destroys it.\<close>

theorem zephyr_key_store_refines_map_witness:
  "\<exists>tr s'. run_all demo_zephyr_env [Op_init WC_OK, Op_import (Some (demo_attr 5 1)) (In demo_key) False,
       Op_export 5 (Out 16) False, Op_destroy 5] (fresh_store demo_zephyr) = (tr, s') \<and>
     tr ! 1 = (Op_import (Some (demo_attr 5 1)) (In demo_key) False, PSA_SUCCESS, 5, []) \<and>
     abs_run tr (ks_abs (zephyr_recs (\<lambda>i. i)) (fresh_store demo_zephyr)) (ks_abs (zephyr_recs (\<lambda>i. i)) s')"
proof -
  let ?calls = "[Op_init WC_OK, Op_import (Some (demo_attr 5 1)) (In demo_key) False,
       Op_export 5 (Out 16) False, Op_destroy 5]"
  obtain tr s' where r: "run_all demo_zephyr_env ?calls (fresh_store demo_zephyr) = (tr, s')" by fastforce
  obtain s1 where s1: "psa_crypto_init default_build WC_OK (fresh_store demo_zephyr) = (PSA_SUCCESS, s1)"
      "ready default_build s1" "g_psa_crypto_initialized s1" "store s1 = demo_zephyr" "allocs s1 = []"
    using init_fresh [of default_build demo_zephyr] by blast
  obtain s2 where "psa_import_key demo_zephyr_env (Some (demo_attr 5 1)) (In demo_key) False s1 = (PSA_SUCCESS, 5, s2)"
    using zephyr_import_when_free [OF demo_its_ok demo_zephyr_env_simps(1) _ s1(3) _ s1(5) demo_zephyr_validate] s1
    by (auto simp: zephyr_healthy_def zephyr_recs_def)
  then have tr: "tr ! 1 = (Op_import (Some (demo_attr 5 1)) (In demo_key) False, PSA_SUCCESS, 5, [])"
    using r s1(1) by (auto split: prod.splits)
  have "list_all op_ok ?calls" by (simp add: vendor_id_def)
  from zephyr_key_store_refines_map [OF demo_its_ok(1) _ demo_zephyr_bounded demo_zephyr_id_inv this r] r tr show ?thesis by auto
qed

end
