(* ===== verification/Asym_Agree.thy ===== *)
theory Asym_Agree
  imports Posix_Keys
begin

text \<open>
  Key policies for asymmetric algorithms and the raw ECDH shared secret: the policy checks and
  \<open>wolfpsa_key_agreement_secret\<close>, \<open>psa_raw_key_agreement\<close> of \<open>src/psa_asymmetric_api.c\<close>, and the
  X25519 and X448 agreements of \<open>src/psa_montgomery.c\<close>. wolfCrypt's curves are a parameter
  (record \<open>ecdh_engine\<close>). The modelled build is the one of \<open>user_settings.h\<close>: all curves are
  compiled in, with an RNG attached to ECC private keys (\<open>ECC_TIMING_RESISTANT\<close>).
\<close>

unbundle bit_operations_syntax

section \<open>Algorithm macros\<close>

definition PSA_ALG_KEY_AGREEMENT :: "psa_algorithm_t \<Rightarrow> psa_algorithm_t \<Rightarrow> psa_algorithm_t" where
  [psa_defs]: "PSA_ALG_KEY_AGREEMENT ka_alg kdf_alg = ka_alg OR kdf_alg"

definition PSA_ALG_KEY_AGREEMENT_GET_KDF :: "psa_algorithm_t \<Rightarrow> psa_algorithm_t" where
  [psa_defs]: "PSA_ALG_KEY_AGREEMENT_GET_KDF a =
    (a AND PSA_ALG_KEY_DERIVATION_MASK) OR PSA_ALG_CATEGORY_KEY_DERIVATION"

definition PSA_ALG_KEY_AGREEMENT_GET_BASE :: "psa_algorithm_t \<Rightarrow> psa_algorithm_t" where
  [psa_defs]: "PSA_ALG_KEY_AGREEMENT_GET_BASE a =
    (a AND PSA_ALG_KEY_AGREEMENT_MASK) OR PSA_ALG_CATEGORY_KEY_AGREEMENT"

definition PSA_ALG_IS_RAW_KEY_AGREEMENT :: "psa_algorithm_t \<Rightarrow> bool" where
  [psa_defs]: "PSA_ALG_IS_RAW_KEY_AGREEMENT a \<longleftrightarrow>
    PSA_ALG_IS_KEY_AGREEMENT a \<and> PSA_ALG_KEY_AGREEMENT_GET_KDF a = PSA_ALG_CATEGORY_KEY_DERIVATION"

definition PSA_ALG_IS_ECDSA :: "psa_algorithm_t \<Rightarrow> bool" where
  [psa_defs]: "PSA_ALG_IS_ECDSA a \<longleftrightarrow>
    a AND NOT PSA_ALG_HASH_MASK AND NOT PSA_ALG_ECDSA_DETERMINISTIC_FLAG = PSA_ALG_ECDSA_BASE"

definition PSA_ALG_IS_HASH_ML_DSA :: "psa_algorithm_t \<Rightarrow> bool" where
  [psa_defs]: "PSA_ALG_IS_HASH_ML_DSA a \<longleftrightarrow> a AND NOT 0x1ff = 0x06004600"

definition PSA_KEY_TYPE_IS_DH_KEY_PAIR :: "psa_key_type_t \<Rightarrow> bool" where
  [psa_defs]: "PSA_KEY_TYPE_IS_DH_KEY_PAIR t \<longleftrightarrow>
    t AND NOT PSA_KEY_TYPE_DH_GROUP_MASK = PSA_KEY_TYPE_DH_KEY_PAIR_BASE"

definition PSA_RAW_KEY_AGREEMENT_OUTPUT_SIZE :: "psa_key_type_t \<Rightarrow> nat \<Rightarrow> nat" where
  [psa_defs]: "PSA_RAW_KEY_AGREEMENT_OUTPUT_SIZE t n =
    (if PSA_KEY_TYPE_IS_ECC_KEY_PAIR t \<or> PSA_KEY_TYPE_IS_DH_KEY_PAIR t then PSA_BITS_TO_BYTES n else 0)"

section \<open>Key policies\<close>

definition wolfpsa_key_agreement_alg_permitted :: "psa_algorithm_t \<Rightarrow> psa_algorithm_t \<Rightarrow> bool" where
  "wolfpsa_key_agreement_alg_permitted key_alg a =
    (if PSA_ALG_KEY_AGREEMENT_GET_BASE key_alg \<noteq> PSA_ALG_KEY_AGREEMENT_GET_BASE a then False
     else if PSA_ALG_IS_RAW_KEY_AGREEMENT key_alg then True
     else PSA_ALG_KEY_AGREEMENT_GET_KDF key_alg = PSA_ALG_KEY_AGREEMENT_GET_KDF a)"

definition wolfpsa_sign_alg_permitted ::
    "psa_algorithm_t \<Rightarrow> psa_algorithm_t \<Rightarrow> psa_key_usage_t \<Rightarrow> bool" where
  "wolfpsa_sign_alg_permitted key_alg a requested_usage =
    (if key_alg = a then True
     else if PSA_ALG_IS_SIGN_HASH a \<and> PSA_ALG_SIGN_GET_HASH key_alg = PSA_ALG_ANY_HASH \<and>
             PSA_ALG_SIGN_GET_HASH a \<noteq> PSA_ALG_ANY_HASH \<and>
             key_alg AND NOT PSA_ALG_HASH_MASK = a AND NOT PSA_ALG_HASH_MASK then True
     else if requested_usage AND (PSA_KEY_USAGE_VERIFY_HASH OR PSA_KEY_USAGE_VERIFY_MESSAGE) \<noteq> 0 then
       (if PSA_ALG_IS_ECDSA a \<and> PSA_ALG_IS_ECDSA key_alg \<and>
           PSA_ALG_GET_HASH a = PSA_ALG_GET_HASH key_alg \<and> PSA_ALG_GET_HASH a \<noteq> PSA_ALG_NONE then True
        else PSA_ALG_IS_HASH_ML_DSA a \<and> PSA_ALG_IS_HASH_ML_DSA key_alg \<and>
             PSA_ALG_GET_HASH a \<noteq> PSA_ALG_ANY_HASH \<and>
             (PSA_ALG_GET_HASH key_alg = PSA_ALG_ANY_HASH \<or> PSA_ALG_GET_HASH key_alg = PSA_ALG_GET_HASH a))
     else False)"

definition wolfpsa_asymmetric_alg_permitted ::
    "psa_algorithm_t \<Rightarrow> psa_algorithm_t \<Rightarrow> psa_key_usage_t \<Rightarrow> bool" where
  "wolfpsa_asymmetric_alg_permitted key_alg a u =
    (if key_alg = PSA_ALG_NONE then False
     else if PSA_ALG_IS_KEY_AGREEMENT a \<and> PSA_ALG_IS_KEY_AGREEMENT key_alg
       then wolfpsa_key_agreement_alg_permitted key_alg a
     else wolfpsa_sign_alg_permitted key_alg a u)"

definition wolfpsa_asymmetric_check_key ::
    "('st, 'h) psa_env \<Rightarrow> psa_key_id_t \<Rightarrow> psa_key_usage_t \<Rightarrow> psa_algorithm_t \<Rightarrow> 'st key_store \<Rightarrow>
     (psa_status + psa_key_attributes_t \<times> byte list) \<times> 'st key_store" where
  "wolfpsa_asymmetric_check_key env key u a s =
    (case load_key env key s of
       (Inl status, s1) \<Rightarrow> (Inl status, s1)
     | (Inr (attrs, d), s1) \<Rightarrow>
         (if psa_get_key_usage_flags attrs AND u \<noteq> u then Inl PSA_ERROR_NOT_PERMITTED
          else if \<not> wolfpsa_asymmetric_alg_permitted (psa_get_key_algorithm attrs) a u \<and>
                  \<not> wolfpsa_asymmetric_alg_permitted (psa_get_key_enrollment_algorithm attrs) a u
            then Inl PSA_ERROR_NOT_PERMITTED
          else Inr (attrs, d), s1))"

section \<open>wolfCrypt's curves\<close>

text \<open>
  \<open>'e\<close> is an \<open>ecc_key\<close>, \<open>'m\<close> a \<open>curve25519_key\<close> or \<open>curve448_key\<close>. The number given to an
  initialisation is 0 for the private and 1 for the public key object; the one given to
  \<open>ec_set_rng\<close> and \<open>x25519_set_rng\<close> names the generator that was set up. A shared-secret call
  gets the size of the output buffer and gives the bytes it stored, as many as the length it
  returns.
\<close>

record ('e, 'm) ecdh_engine =
  ec_devid :: int
  ec_init :: "nat \<Rightarrow> int \<Rightarrow> wc_ret \<times> 'e"
  ec_import_private :: "byte list \<Rightarrow> ecc_curve \<Rightarrow> 'e \<Rightarrow> wc_ret \<times> 'e"
  ec_set_rng :: "nat \<Rightarrow> 'e \<Rightarrow> wc_ret \<times> 'e"
  ec_make_pub :: "'e \<Rightarrow> wc_ret \<times> 'e"
  ec_import_x963 :: "byte list \<Rightarrow> ecc_curve \<Rightarrow> 'e \<Rightarrow> wc_ret \<times> 'e"
  ec_shared_secret :: "'e \<Rightarrow> 'e \<Rightarrow> nat \<Rightarrow> wc_ret \<times> byte list"
  CURVE25519_BLINDING :: bool
  x25519_init :: "nat \<Rightarrow> int \<Rightarrow> wc_ret \<times> 'm"
  x25519_set_rng :: "nat \<Rightarrow> 'm \<Rightarrow> wc_ret \<times> 'm"
  x25519_import_private :: "byte list \<Rightarrow> 'm \<Rightarrow> wc_ret \<times> 'm"
  x25519_import_public :: "byte list \<Rightarrow> 'm \<Rightarrow> wc_ret \<times> 'm"
  x25519_shared_secret :: "'m \<Rightarrow> 'm \<Rightarrow> nat \<Rightarrow> wc_ret \<times> byte list"
  x448_init :: "nat \<Rightarrow> int \<Rightarrow> wc_ret \<times> 'm"
  x448_import_private :: "byte list \<Rightarrow> 'm \<Rightarrow> wc_ret \<times> 'm"
  x448_import_public :: "byte list \<Rightarrow> 'm \<Rightarrow> wc_ret \<times> 'm"
  x448_shared_secret :: "'m \<Rightarrow> 'm \<Rightarrow> nat \<Rightarrow> wc_ret \<times> byte list"

text \<open>A wolfCrypt call whose failure ends the function with the translated status.\<close>

definition wc_try :: "wc_ret \<times> 'a \<Rightarrow> ('a \<Rightarrow> psa_status + 'b) \<Rightarrow> psa_status + 'b" where
  "wc_try r k = (case r of (ret, x) \<Rightarrow> if ret \<noteq> WC_OK then Inl (wc_error_to_psa_status ret) else k x)"

lemma wc_try_Inr: "wc_try r k = Inr y \<longleftrightarrow> (\<exists>x. r = (WC_OK, x) \<and> k x = Inr y)"
  by (cases r) (auto simp: wc_try_def)

abbreviation CURVE25519_KEYSIZE :: nat where "CURVE25519_KEYSIZE \<equiv> 32"
abbreviation CURVE448_KEY_SIZE :: nat where "CURVE448_KEY_SIZE \<equiv> 56"

section \<open>X25519 and X448\<close>

text \<open>The last byte of the peer's public value loses its top bit.\<close>

definition x25519_mask_peer :: "byte list \<Rightarrow> byte list" where
  "x25519_mask_peer peer = peer[CURVE25519_KEYSIZE - 1 := (peer ! (CURVE25519_KEYSIZE - 1)) AND 127]"

definition x25519_agree ::
    "('e, 'm) ecdh_engine \<Rightarrow> byte list \<Rightarrow> byte list \<Rightarrow> nat \<Rightarrow> 'm \<Rightarrow> 'm \<Rightarrow> psa_status + byte list" where
  "x25519_agree E private_key peer_key out_len priv pub =
    wc_try (x25519_import_private E private_key priv) (\<lambda>priv'.
    wc_try (x25519_import_public E (x25519_mask_peer peer_key) pub) (\<lambda>pub'.
    wc_try (x25519_shared_secret E priv' pub' out_len) Inr))"

definition psa_asymmetric_key_agreement_x25519 ::
    "('st, 'h) psa_env \<Rightarrow> ('e, 'm) ecdh_engine \<Rightarrow> byte list \<Rightarrow> inbuf \<Rightarrow> outbuf \<Rightarrow> 'st key_store \<Rightarrow>
     (psa_status + byte list) \<times> 'st key_store" where
  "psa_asymmetric_key_agreement_x25519 env E private_key peer_key output s =
    (if in_null peer_key \<or> out_null output \<and> out_size output \<noteq> 0 then (Inl PSA_ERROR_INVALID_ARGUMENT, s)
     else if length private_key \<noteq> CURVE25519_KEYSIZE \<or> in_length peer_key \<noteq> CURVE25519_KEYSIZE
       then (Inl PSA_ERROR_INVALID_ARGUMENT, s)
     else if out_size output < CURVE25519_KEYSIZE then (Inl PSA_ERROR_BUFFER_TOO_SMALL, s)
     else if wolfpsa_check_word32_length (out_size output) \<noteq> PSA_SUCCESS
       then (Inl PSA_ERROR_INVALID_ARGUMENT, s)
     else
       (case x25519_init E 0 (ec_devid E) of
          (r1, priv) \<Rightarrow>
            if r1 \<noteq> WC_OK then (Inl (wc_error_to_psa_status r1), s)
            else
              (case x25519_init E 1 (ec_devid E) of
                 (r2, pub) \<Rightarrow>
                   if r2 \<noteq> WC_OK then (Inl (wc_error_to_psa_status r2), s)
                   else if CURVE25519_BLINDING E then
                     (let i = rng_calls s; s1 = s\<lparr>rng_calls := Suc i\<rparr>; r3 = wc_init_rng env i in
                      if r3 \<noteq> WC_OK then (Inl (wc_error_to_psa_status r3), s1)
                      else
                        (wc_try (x25519_set_rng E i priv) (\<lambda>priv1.
                           x25519_agree E private_key (in_bytes peer_key) (out_size output) priv1 pub), s1))
                   else (x25519_agree E private_key (in_bytes peer_key) (out_size output) priv pub, s))))"

definition psa_asymmetric_key_agreement_x448 ::
    "('e, 'm) ecdh_engine \<Rightarrow> byte list \<Rightarrow> inbuf \<Rightarrow> outbuf \<Rightarrow> psa_status + byte list" where
  "psa_asymmetric_key_agreement_x448 E private_key peer_key output =
    (if in_null peer_key \<or> out_null output \<and> out_size output \<noteq> 0 then Inl PSA_ERROR_INVALID_ARGUMENT
     else if length private_key \<noteq> CURVE448_KEY_SIZE \<or> in_length peer_key \<noteq> CURVE448_KEY_SIZE
       then Inl PSA_ERROR_INVALID_ARGUMENT
     else if out_size output < CURVE448_KEY_SIZE then Inl PSA_ERROR_BUFFER_TOO_SMALL
     else if wolfpsa_check_word32_length (out_size output) \<noteq> PSA_SUCCESS
       then Inl PSA_ERROR_INVALID_ARGUMENT
     else
       wc_try (x448_init E 0 (ec_devid E)) (\<lambda>priv.
       wc_try (x448_init E 1 (ec_devid E)) (\<lambda>pub.
       wc_try (x448_import_private E private_key priv) (\<lambda>priv'.
       wc_try (x448_import_public E (in_bytes peer_key) pub) (\<lambda>pub'.
       wc_try (x448_shared_secret E priv' pub' (out_size output)) Inr)))))"

section \<open>ECDH\<close>

text \<open>The Weierstrass curves, from the choice of the curve on.\<close>

definition ecdh_weierstrass ::
    "('st, 'h) psa_env \<Rightarrow> ('e, 'm) ecdh_engine \<Rightarrow> psa_key_attributes_t \<Rightarrow> byte list \<Rightarrow> inbuf \<Rightarrow> outbuf \<Rightarrow>
     'st key_store \<Rightarrow> (psa_status + byte list) \<times> 'st key_store" where
  "ecdh_weierstrass env E attrs d peer_key output s =
    (let n = unat (bits attrs);
         curve_id = wc_psa_get_ecc_curve_id (env_build env) (type attrs) n;
         expected_secret_len = PSA_RAW_KEY_AGREEMENT_OUTPUT_SIZE (type attrs) n
     in
     if curve_id = ECC_CURVE_INVALID then (Inl PSA_ERROR_NOT_SUPPORTED, s)
     else if expected_secret_len = 0 then (Inl PSA_ERROR_NOT_SUPPORTED, s)
     else if out_size output < expected_secret_len then (Inl PSA_ERROR_BUFFER_TOO_SMALL, s)
     else if in_null peer_key \<and> in_length peer_key > 0 then (Inl PSA_ERROR_INVALID_ARGUMENT, s)
     else if in_length peer_key \<noteq> 1 + 2 * PSA_BITS_TO_BYTES n \<or> in_bytes peer_key ! 0 \<noteq> 0x04
       then (Inl PSA_ERROR_INVALID_ARGUMENT, s)
     else
       (case ec_init E 0 (ec_devid E) of
          (r1, priv) \<Rightarrow>
            if r1 \<noteq> WC_OK then (Inl (wc_error_to_psa_status r1), s)
            else
              (case ec_init E 1 (ec_devid E) of
                 (r2, pub) \<Rightarrow>
                   if r2 \<noteq> WC_OK then (Inl (wc_error_to_psa_status r2), s)
                   else
                     (let i = rng_calls s; s1 = s\<lparr>rng_calls := Suc i\<rparr>; r3 = wc_init_rng env i in
                      if r3 \<noteq> WC_OK then (Inl (wc_error_to_psa_status r3), s1)
                      else
                        (wc_try (ec_import_private E d curve_id priv) (\<lambda>priv1.
                         wc_try (ec_set_rng E i priv1) (\<lambda>priv2.
                         wc_try (ec_make_pub E priv2) (\<lambda>priv3.
                         wc_try (ec_import_x963 E (in_bytes peer_key) curve_id pub) (\<lambda>pub1.
                         wc_try (ec_shared_secret E priv3 pub1 (out_size output)) Inr)))), s1)))))"

text \<open>
  The agreement with a key that was loaded: the status, or the secret, whose length is what is
  stored in \<open>*output_length\<close>. Of the state it reads and moves only the count of generators.
\<close>

definition agreement_of_key ::
    "('st, 'h) psa_env \<Rightarrow> ('e, 'm) ecdh_engine \<Rightarrow> psa_key_attributes_t \<Rightarrow> byte list \<Rightarrow> inbuf \<Rightarrow> outbuf \<Rightarrow>
     'st key_store \<Rightarrow> (psa_status + byte list) \<times> 'st key_store" where
  "agreement_of_key env E attrs d peer_key output s =
    (if \<not> PSA_KEY_TYPE_IS_ECC_KEY_PAIR (type attrs) then (Inl PSA_ERROR_INVALID_ARGUMENT, s)
     else if wolfpsa_check_word32_length (length d) \<noteq> PSA_SUCCESS \<or>
             wolfpsa_check_word32_length (in_length peer_key) \<noteq> PSA_SUCCESS \<or>
             wolfpsa_check_word32_length (out_size output) \<noteq> PSA_SUCCESS
       then (Inl PSA_ERROR_INVALID_ARGUMENT, s)
     else if PSA_KEY_TYPE_ECC_GET_FAMILY (type attrs) = PSA_ECC_FAMILY_MONTGOMERY then
       (if bits attrs = 255 then psa_asymmetric_key_agreement_x25519 env E d peer_key output s
        else if bits attrs = 448 then (psa_asymmetric_key_agreement_x448 E d peer_key output, s)
        else (Inl PSA_ERROR_NOT_SUPPORTED, s))
     else ecdh_weierstrass env E attrs d peer_key output s)"

definition wolfpsa_key_agreement_secret ::
    "('st, 'h) psa_env \<Rightarrow> ('e, 'm) ecdh_engine \<Rightarrow> psa_algorithm_t \<Rightarrow> psa_key_id_t \<Rightarrow> inbuf \<Rightarrow> outbuf \<Rightarrow>
     'st key_store \<Rightarrow> (psa_status + byte list) \<times> 'st key_store" where
  "wolfpsa_key_agreement_secret env E a private_key peer_key output s =
    (if PSA_ALG_KEY_AGREEMENT_GET_BASE a \<noteq> PSA_ALG_ECDH then (Inl PSA_ERROR_NOT_SUPPORTED, s)
     else
       (case wolfpsa_asymmetric_check_key env private_key PSA_KEY_USAGE_DERIVE a s of
          (Inl status, s1) \<Rightarrow> (Inl status, s1)
        | (Inr (attrs, d), s1) \<Rightarrow> agreement_of_key env E attrs d peer_key output s1))"

definition psa_raw_key_agreement ::
    "('st, 'h) psa_env \<Rightarrow> ('e, 'm) ecdh_engine \<Rightarrow> psa_algorithm_t \<Rightarrow> psa_key_id_t \<Rightarrow> inbuf \<Rightarrow> outbuf \<Rightarrow>
     nat option \<Rightarrow> 'st key_store \<Rightarrow> psa_status \<times> byte list \<times> nat option \<times> 'st key_store" where
  "psa_raw_key_agreement env E a private_key peer_key output len0 s =
    (let len = wolfpsa_clear_length len0 in
     if len = None \<or> out_null output \<and> out_size output \<noteq> 0 then (PSA_ERROR_INVALID_ARGUMENT, [], len, s)
     else if \<not> PSA_ALG_IS_RAW_KEY_AGREEMENT a then (PSA_ERROR_INVALID_ARGUMENT, [], len, s)
     else
       (case wolfpsa_key_agreement_secret env E a private_key peer_key output s of
          (Inl status, s1) \<Rightarrow> (status, [], len, s1)
        | (Inr secret, s1) \<Rightarrow> (PSA_SUCCESS, secret, Some (length secret), s1)))"

section \<open>Failures and the key that was used\<close>

lemma wc_try_Inl: "wc_try r k \<noteq> Inl PSA_SUCCESS" if "\<And>x. k x \<noteq> Inl PSA_SUCCESS"
  using that by (cases r) (auto simp: wc_try_def)

lemma asymmetric_check_key_Inl [simp]: "wolfpsa_asymmetric_check_key env key u a s \<noteq> (Inl PSA_SUCCESS, s')"
  by (auto simp: wolfpsa_asymmetric_check_key_def split: prod.splits sum.splits)

lemma agreement_secret_Inl: "wolfpsa_key_agreement_secret env E a k peer output s \<noteq> (Inl PSA_SUCCESS, s')"
proof -
  have x: "x25519_agree E d p n a b \<noteq> Inl PSA_SUCCESS" for d p n a b
    by (simp add: x25519_agree_def wc_try_Inl)
  have x25519: "psa_asymmetric_key_agreement_x25519 env E d peer output s1 \<noteq> (Inl PSA_SUCCESS, s')" for d s1
    by (auto simp: psa_asymmetric_key_agreement_x25519_def Let_def wc_try_Inl x split: prod.splits)
  have x448: "psa_asymmetric_key_agreement_x448 E d peer output \<noteq> Inl PSA_SUCCESS" for d
    by (auto simp: psa_asymmetric_key_agreement_x448_def intro!: wc_try_Inl)
  have ec: "ecdh_weierstrass env E at d peer output s1 \<noteq> (Inl PSA_SUCCESS, s')" for at d s1
    by (auto simp: ecdh_weierstrass_def Let_def wc_try_Inl split: prod.splits)
  show ?thesis
    by (auto simp: wolfpsa_key_agreement_secret_def agreement_of_key_def x25519 x448 ec split: prod.splits sum.splits)
qed

text \<open>A secret comes from the key that was loaded, under its policy.\<close>

lemma agreement_secret_key:
  assumes "wolfpsa_key_agreement_secret env E a k peer output s = (Inr secret, s')"
  obtains attrs d s1 where "load_key env k s = (Inr (attrs, d), s1)"
    and "usage (policy attrs) AND PSA_KEY_USAGE_DERIVE = PSA_KEY_USAGE_DERIVE"
    and "wolfpsa_asymmetric_alg_permitted (alg (policy attrs)) a PSA_KEY_USAGE_DERIVE \<or>
      wolfpsa_asymmetric_alg_permitted (alg2 (policy attrs)) a PSA_KEY_USAGE_DERIVE"
    and "PSA_KEY_TYPE_IS_ECC_KEY_PAIR (type attrs)" and "PSA_ALG_KEY_AGREEMENT_GET_BASE a = PSA_ALG_ECDH"
    and "agreement_of_key env E attrs d peer output s1 = (Inr secret, s')"
proof -
  obtain attrs d s1 where c: "wolfpsa_asymmetric_check_key env k PSA_KEY_USAGE_DERIVE a s = (Inr (attrs, d), s1)"
    "agreement_of_key env E attrs d peer output s1 = (Inr secret, s')" "PSA_ALG_KEY_AGREEMENT_GET_BASE a = PSA_ALG_ECDH"
    using assms by (auto simp: wolfpsa_key_agreement_secret_def split: if_splits prod.splits sum.splits)
  then show ?thesis
    by (intro that [of attrs d s1])
      (auto simp: wolfpsa_asymmetric_check_key_def psa_get_key_usage_flags_def psa_get_key_algorithm_def
        psa_get_key_enrollment_algorithm_def agreement_of_key_def split: if_splits prod.splits sum.splits)
qed

text \<open>
  What a key-agreement policy \<open>p\<close> admits of a request \<open>a\<close>: the same base, and either no fixed KDF or
  the same one.
\<close>

definition agreement_policy_allows :: "psa_algorithm_t \<Rightarrow> psa_algorithm_t \<Rightarrow> bool" where
  "agreement_policy_allows a p \<longleftrightarrow>
    PSA_ALG_IS_KEY_AGREEMENT p \<and> PSA_ALG_KEY_AGREEMENT_GET_BASE p = PSA_ALG_KEY_AGREEMENT_GET_BASE a \<and>
    (PSA_ALG_IS_RAW_KEY_AGREEMENT p \<or> PSA_ALG_KEY_AGREEMENT_GET_KDF p = PSA_ALG_KEY_AGREEMENT_GET_KDF a)"

text \<open>A key that may be agreed with under \<open>a\<close>.\<close>

definition agreement_key_ok :: "psa_algorithm_t \<Rightarrow> psa_key_attributes_t \<Rightarrow> bool" where
  "agreement_key_ok a attrs \<longleftrightarrow>
    PSA_KEY_TYPE_IS_ECC_KEY_PAIR (type attrs) \<and> usage (policy attrs) AND PSA_KEY_USAGE_DERIVE = PSA_KEY_USAGE_DERIVE \<and>
    (agreement_policy_allows a (alg (policy attrs)) \<or> agreement_policy_allows a (alg2 (policy attrs)))"

lemma agreement_permitted_iff:
  assumes a: "PSA_ALG_IS_KEY_AGREEMENT a"
  shows "wolfpsa_asymmetric_alg_permitted p a PSA_KEY_USAGE_DERIVE \<longleftrightarrow> agreement_policy_allows a p"
proof (cases "PSA_ALG_IS_KEY_AGREEMENT p")
  case True
  then show ?thesis using a
    by (auto simp: wolfpsa_asymmetric_alg_permitted_def wolfpsa_key_agreement_alg_permitted_def
        agreement_policy_allows_def psa_defs)
next
  case False
  then have "p \<noteq> a" and "\<not> PSA_ALG_IS_SIGN_HASH a" using a by (auto simp: psa_defs)
  then show ?thesis using False
    by (simp add: wolfpsa_asymmetric_alg_permitted_def wolfpsa_sign_alg_permitted_def agreement_policy_allows_def)
qed

lemma agreement_secret_ok:
  assumes "wolfpsa_key_agreement_secret env E a k peer output s = (Inr secret, s')" and a: "PSA_ALG_IS_KEY_AGREEMENT a"
  obtains attrs d s1 where "load_key env k s = (Inr (attrs, d), s1)" and "agreement_key_ok a attrs"
    and "PSA_ALG_KEY_AGREEMENT_GET_BASE a = PSA_ALG_ECDH"
    and "agreement_of_key env E attrs d peer output s1 = (Inr secret, s')"
  using assms(1)
  by (rule agreement_secret_key) (auto simp: agreement_permitted_iff [OF a] agreement_key_ok_def intro: that)

text \<open>An agreement leaves the keys alone.\<close>

lemma agreement_of_key_frame:
  assumes "agreement_of_key env E attrs d peer output s = (r, s')" and "lock_ok s"
  shows "load_frame recs s s'"
  using assms
  by (auto simp: agreement_of_key_def psa_asymmetric_key_agreement_x25519_def ecdh_weierstrass_def Let_def load_frame_def
      lock_ok_def split: if_splits prod.splits)

text \<open>The two halves of a combined algorithm give it back.\<close>

lemma agreement_recombine:
  assumes "PSA_ALG_IS_KEY_AGREEMENT a"
  shows "PSA_ALG_KEY_AGREEMENT (PSA_ALG_KEY_AGREEMENT_GET_BASE a) (PSA_ALG_KEY_AGREEMENT_GET_KDF a) = a"
proof -
  have g: "((a AND x) OR k) OR ((a AND y) OR d) = (a AND (x OR y)) OR (k OR d)" for x y k d :: psa_algorithm_t
    by (simp add: bit.conj_disj_distrib ac_simps)
  have c: "a AND 0x7f000000 = 0x09000000" using assms by (simp add: psa_defs)
  have m: "(PSA_ALG_KEY_AGREEMENT_MASK OR PSA_ALG_KEY_DERIVATION_MASK :: psa_algorithm_t) = - 1" by simp
  have "a OR (a AND 0x7f000000) = a" by (rule word_ao_absorbs)
  then have "a OR 0x09000000 = a" by (simp only: c)
  then show ?thesis
    unfolding PSA_ALG_KEY_AGREEMENT_def PSA_ALG_KEY_AGREEMENT_GET_BASE_def PSA_ALG_KEY_AGREEMENT_GET_KDF_def g m
    by simp
qed

end
