(* ===== verification/Kdf.thy ===== *)
theory Kdf
  imports Mac Asym_Agree
begin

text \<open>
  \<open>src/psa_key_derivation.c\<close>, first part: the operation context, the set-up, the capacity and
  the inputs (bytes, integers, keys, key agreement). A buffer of the context is its list of
  bytes; a NULL buffer is the empty list (\<open>wolfpsa_kdf_append\<close> allocates nothing for an empty
  input). Operation arguments are as in \<open>Mac\<close>: \<open>None\<close> is a NULL pointer, \<open>Some None\<close> an inactive
  operation. The modelled build is the one of \<open>user_settings.h\<close>, where HKDF, the TLS 1.2 PRF,
  PBKDF2, HMAC and AES-CMAC are compiled in.
\<close>

unbundle bit_operations_syntax

section \<open>Algorithm macros\<close>

abbreviation PSA_KEY_DERIVATION_INPUT_OTHER_SECRET :: psa_key_derivation_step_t where
  "PSA_KEY_DERIVATION_INPUT_OTHER_SECRET \<equiv> 0x0103"
abbreviation PSA_KEY_DERIVATION_UNLIMITED_CAPACITY :: nat where
  "PSA_KEY_DERIVATION_UNLIMITED_CAPACITY \<equiv> SIZE_MAX"
abbreviation PSA_TLS12_PSK_TO_MS_PSK_MAX_SIZE :: nat where "PSA_TLS12_PSK_TO_MS_PSK_MAX_SIZE \<equiv> 128"
abbreviation UINT16_MAX :: nat where "UINT16_MAX \<equiv> 65535"

definition PSA_ALG_IS_HKDF :: "psa_algorithm_t \<Rightarrow> bool" where
  [psa_defs]: "PSA_ALG_IS_HKDF a \<longleftrightarrow> a AND NOT PSA_ALG_HASH_MASK = PSA_ALG_HKDF_BASE"

definition PSA_ALG_HKDF_GET_HASH :: "psa_algorithm_t \<Rightarrow> psa_algorithm_t" where
  [psa_defs]: "PSA_ALG_HKDF_GET_HASH a = PSA_ALG_CATEGORY_HASH OR (a AND PSA_ALG_HASH_MASK)"

definition PSA_ALG_IS_HKDF_EXTRACT :: "psa_algorithm_t \<Rightarrow> bool" where
  [psa_defs]: "PSA_ALG_IS_HKDF_EXTRACT a \<longleftrightarrow> a AND NOT PSA_ALG_HASH_MASK = PSA_ALG_HKDF_EXTRACT_BASE"

definition PSA_ALG_IS_HKDF_EXPAND :: "psa_algorithm_t \<Rightarrow> bool" where
  [psa_defs]: "PSA_ALG_IS_HKDF_EXPAND a \<longleftrightarrow> a AND NOT PSA_ALG_HASH_MASK = PSA_ALG_HKDF_EXPAND_BASE"

definition PSA_ALG_IS_ANY_HKDF :: "psa_algorithm_t \<Rightarrow> bool" where
  [psa_defs]: "PSA_ALG_IS_ANY_HKDF a \<longleftrightarrow>
    a AND NOT PSA_ALG_HASH_MASK = PSA_ALG_HKDF_BASE \<or>
    a AND NOT PSA_ALG_HASH_MASK = PSA_ALG_HKDF_EXTRACT_BASE \<or>
    a AND NOT PSA_ALG_HASH_MASK = PSA_ALG_HKDF_EXPAND_BASE"

definition PSA_ALG_IS_TLS12_PRF :: "psa_algorithm_t \<Rightarrow> bool" where
  [psa_defs]: "PSA_ALG_IS_TLS12_PRF a \<longleftrightarrow> a AND NOT PSA_ALG_HASH_MASK = PSA_ALG_TLS12_PRF_BASE"

definition PSA_ALG_TLS12_PRF_GET_HASH :: "psa_algorithm_t \<Rightarrow> psa_algorithm_t" where
  [psa_defs]: "PSA_ALG_TLS12_PRF_GET_HASH a = PSA_ALG_CATEGORY_HASH OR (a AND PSA_ALG_HASH_MASK)"

definition PSA_ALG_IS_TLS12_PSK_TO_MS :: "psa_algorithm_t \<Rightarrow> bool" where
  [psa_defs]: "PSA_ALG_IS_TLS12_PSK_TO_MS a \<longleftrightarrow> a AND NOT PSA_ALG_HASH_MASK = PSA_ALG_TLS12_PSK_TO_MS_BASE"

definition PSA_ALG_TLS12_PSK_TO_MS_GET_HASH :: "psa_algorithm_t \<Rightarrow> psa_algorithm_t" where
  [psa_defs]: "PSA_ALG_TLS12_PSK_TO_MS_GET_HASH a = PSA_ALG_CATEGORY_HASH OR (a AND PSA_ALG_HASH_MASK)"

definition PSA_ALG_IS_PBKDF2_HMAC :: "psa_algorithm_t \<Rightarrow> bool" where
  [psa_defs]: "PSA_ALG_IS_PBKDF2_HMAC a \<longleftrightarrow> a AND NOT PSA_ALG_HASH_MASK = PSA_ALG_PBKDF2_HMAC_BASE"

definition PSA_ALG_PBKDF2_HMAC_GET_HASH :: "psa_algorithm_t \<Rightarrow> psa_algorithm_t" where
  [psa_defs]: "PSA_ALG_PBKDF2_HMAC_GET_HASH a = PSA_ALG_CATEGORY_HASH OR (a AND PSA_ALG_HASH_MASK)"

definition PSA_ALG_IS_PBKDF2 :: "psa_algorithm_t \<Rightarrow> bool" where
  [psa_defs]: "PSA_ALG_IS_PBKDF2 a \<longleftrightarrow> PSA_ALG_IS_PBKDF2_HMAC a \<or> a = PSA_ALG_PBKDF2_AES_CMAC_PRF_128"

definition PSA_ALG_IS_SP800_108_COUNTER_HMAC :: "psa_algorithm_t \<Rightarrow> bool" where
  [psa_defs]: "PSA_ALG_IS_SP800_108_COUNTER_HMAC a \<longleftrightarrow> a AND NOT 0x000000ff = 0x08000700"

definition PSA_ALG_IS_KEY_DERIVATION_OR_AGREEMENT :: "psa_algorithm_t \<Rightarrow> bool" where
  [psa_defs]: "PSA_ALG_IS_KEY_DERIVATION_OR_AGREEMENT a \<longleftrightarrow>
    PSA_ALG_IS_KEY_DERIVATION a \<or> PSA_ALG_IS_KEY_AGREEMENT a"

section \<open>The context\<close>

record wolfpsa_kdf_ctx =
  kd_alg :: psa_algorithm_t
  kd_ka_alg :: psa_algorithm_t
  kd_capacity :: nat
  kd_output_offset :: nat
  kd_steps_set :: u32
  kd_secret :: "byte list"
  kd_other_secret :: "byte list"
  kd_salt :: "byte list"
  kd_info :: "byte list"
  kd_label :: "byte list"
  kd_context :: "byte list"
  kd_seed :: "byte list"
  kd_password :: "byte list"
  kd_cost :: u32
  sp800_108_L_bytes :: nat
  kd_is_key_agreement :: bool
  kd_is_raw_kdf :: bool
  kd_output_started :: bool
  kd_can_output_key :: bool
  kd_error_state :: bool
  kd_output_cache :: "byte list option"

type_synonym psa_key_derivation_operation_t = "wolfpsa_kdf_ctx option"

abbreviation WOLFPSA_KDF_STEP_SECRET :: u32 where "WOLFPSA_KDF_STEP_SECRET \<equiv> 1"
abbreviation WOLFPSA_KDF_STEP_OTHER_SECRET :: u32 where "WOLFPSA_KDF_STEP_OTHER_SECRET \<equiv> 2"
abbreviation WOLFPSA_KDF_STEP_SALT :: u32 where "WOLFPSA_KDF_STEP_SALT \<equiv> 4"
abbreviation WOLFPSA_KDF_STEP_INFO :: u32 where "WOLFPSA_KDF_STEP_INFO \<equiv> 8"
abbreviation WOLFPSA_KDF_STEP_LABEL :: u32 where "WOLFPSA_KDF_STEP_LABEL \<equiv> 16"
abbreviation WOLFPSA_KDF_STEP_SEED :: u32 where "WOLFPSA_KDF_STEP_SEED \<equiv> 32"
abbreviation WOLFPSA_KDF_STEP_PASSWORD :: u32 where "WOLFPSA_KDF_STEP_PASSWORD \<equiv> 64"
abbreviation WOLFPSA_KDF_STEP_COST :: u32 where "WOLFPSA_KDF_STEP_COST \<equiv> 128"
abbreviation WOLFPSA_KDF_STEP_CONTEXT :: u32 where "WOLFPSA_KDF_STEP_CONTEXT \<equiv> 256"

abbreviation WOLFPSA_KDF_MAX_CACHE_BYTES :: nat where "WOLFPSA_KDF_MAX_CACHE_BYTES \<equiv> 64 * 1024"

text \<open>The key types that each step takes.\<close>

definition wolfpsa_kdf_key_inputs :: "(psa_key_derivation_step_t \<times> psa_key_type_t) list" where
  "wolfpsa_kdf_key_inputs =
    [(PSA_KEY_DERIVATION_INPUT_SECRET, PSA_KEY_TYPE_DERIVE),
     (PSA_KEY_DERIVATION_INPUT_OTHER_SECRET, PSA_KEY_TYPE_DERIVE),
     (PSA_KEY_DERIVATION_INPUT_PASSWORD, PSA_KEY_TYPE_PASSWORD),
     (PSA_KEY_DERIVATION_INPUT_PASSWORD, PSA_KEY_TYPE_DERIVE),
     (PSA_KEY_DERIVATION_INPUT_SALT, PSA_KEY_TYPE_RAW_DATA),
     (PSA_KEY_DERIVATION_INPUT_INFO, PSA_KEY_TYPE_RAW_DATA),
     (PSA_KEY_DERIVATION_INPUT_LABEL, PSA_KEY_TYPE_RAW_DATA),
     (PSA_KEY_DERIVATION_INPUT_CONTEXT, PSA_KEY_TYPE_RAW_DATA),
     (PSA_KEY_DERIVATION_INPUT_SEED, PSA_KEY_TYPE_RAW_DATA)]"

definition wolfpsa_kdf_get_ctx :: "psa_key_derivation_operation_t option \<Rightarrow> wolfpsa_kdf_ctx option" where
  "wolfpsa_kdf_get_ctx op = (case op of None \<Rightarrow> None | Some ctx \<Rightarrow> ctx)"

text \<open>The status and the new content of the buffer.\<close>

definition wolfpsa_kdf_append ::
    "byte list \<Rightarrow> inbuf \<Rightarrow> 'st key_store \<Rightarrow> psa_status \<times> byte list \<times> 'st key_store" where
  "wolfpsa_kdf_append buf d s =
    (if in_null d \<and> in_length d > 0 then (PSA_ERROR_INVALID_ARGUMENT, buf, s)
     else if in_length d = 0 then (PSA_SUCCESS, buf, s)
     else if length buf > SIZE_MAX - in_length d then (PSA_ERROR_INSUFFICIENT_MEMORY, buf, s)
     else
       (case s_xmalloc s of
          (ok, s1) \<Rightarrow>
            if \<not> ok then (PSA_ERROR_INSUFFICIENT_MEMORY, buf, s1)
            else (PSA_SUCCESS, buf @ in_bytes d, s1)))"

section \<open>wolfCrypt's side\<close>

datatype wc_MACAlgorithm = no_mac | sha256_mac | sha384_mac | sha512_mac

text \<open>
  The HMAC and CMAC calls are those of \<open>Mac\<close>. The derivation calls get the device id last and
  give the bytes they stored; the wanted length is the \<open>nat\<close>. \<open>wc_PRF_TLS\<close> is called with
  \<open>useAtLeastSha256\<close> set.
\<close>

record 'c kdf_engine =
  ke_mac :: "'c mac_engine"
  wc_HashGetDigestSize :: "wc_hash_type \<Rightarrow> int"
  wc_HKDF_Extract :: "wc_hash_type \<Rightarrow> byte list \<Rightarrow> byte list \<Rightarrow> int \<Rightarrow> wc_ret \<times> byte list"
  wc_HKDF_Expand :: "wc_hash_type \<Rightarrow> byte list \<Rightarrow> byte list \<Rightarrow> nat \<Rightarrow> int \<Rightarrow> wc_ret \<times> byte list"
  wc_PRF_TLS :: "nat \<Rightarrow> byte list \<Rightarrow> byte list \<Rightarrow> byte list \<Rightarrow> wc_MACAlgorithm \<Rightarrow> int \<Rightarrow> wc_ret \<times> byte list"
  wc_PBKDF2 :: "byte list \<Rightarrow> byte list \<Rightarrow> nat \<Rightarrow> nat \<Rightarrow> wc_hash_type \<Rightarrow> int \<Rightarrow> wc_ret \<times> byte list"

definition kdf_hash_type_from_alg :: "psa_algorithm_t \<Rightarrow> wc_hash_type" where
  "kdf_hash_type_from_alg a =
    (let hash_alg =
       (if PSA_ALG_IS_ANY_HKDF a then PSA_ALG_HKDF_GET_HASH a
        else if PSA_ALG_IS_TLS12_PRF a then PSA_ALG_TLS12_PRF_GET_HASH a
        else if PSA_ALG_IS_TLS12_PSK_TO_MS a then PSA_ALG_TLS12_PSK_TO_MS_GET_HASH a
        else if PSA_ALG_IS_PBKDF2_HMAC a then PSA_ALG_PBKDF2_HMAC_GET_HASH a
        else if PSA_ALG_IS_SP800_108_COUNTER_HMAC a then PSA_ALG_GET_HASH a
        else 0)
     in if hash_alg = PSA_ALG_SHA_1 then WC_HASH_TYPE_SHA
        else if hash_alg = PSA_ALG_SHA_224 then WC_HASH_TYPE_SHA224
        else if hash_alg = PSA_ALG_SHA_256 then WC_HASH_TYPE_SHA256
        else if hash_alg = PSA_ALG_SHA_384 then WC_HASH_TYPE_SHA384
        else if hash_alg = PSA_ALG_SHA_512 then WC_HASH_TYPE_SHA512
        else if hash_alg = PSA_ALG_SHA_512_224 then WC_HASH_TYPE_SHA512_224
        else if hash_alg = PSA_ALG_SHA_512_256 then WC_HASH_TYPE_SHA512_256
        else WC_HASH_TYPE_NONE)"

definition wolfpsa_prf_mac_from_alg :: "psa_algorithm_t \<Rightarrow> wc_MACAlgorithm" where
  "wolfpsa_prf_mac_from_alg a =
    (let h = kdf_hash_type_from_alg a in
     if h = WC_HASH_TYPE_SHA256 then sha256_mac
     else if h = WC_HASH_TYPE_SHA384 then sha384_mac
     else if h = WC_HASH_TYPE_SHA512 then sha512_mac
     else no_mac)"

definition wolfpsa_kdf_require_output :: "wolfpsa_kdf_ctx \<Rightarrow> nat \<Rightarrow> psa_status \<times> wolfpsa_kdf_ctx" where
  "wolfpsa_kdf_require_output ctx output_length =
    (if kd_capacity ctx = PSA_KEY_DERIVATION_UNLIMITED_CAPACITY then (PSA_SUCCESS, ctx)
     else if kd_capacity ctx < output_length then (PSA_ERROR_INSUFFICIENT_DATA, ctx\<lparr>kd_capacity := 0\<rparr>)
     else (PSA_SUCCESS, ctx\<lparr>kd_capacity := kd_capacity ctx - output_length\<rparr>))"

definition wolfpsa_kdf_step_mask :: "psa_key_derivation_step_t \<Rightarrow> u32" where
  "wolfpsa_kdf_step_mask st =
    (if st = PSA_KEY_DERIVATION_INPUT_SECRET then WOLFPSA_KDF_STEP_SECRET
     else if st = PSA_KEY_DERIVATION_INPUT_OTHER_SECRET then WOLFPSA_KDF_STEP_OTHER_SECRET
     else if st = PSA_KEY_DERIVATION_INPUT_SALT then WOLFPSA_KDF_STEP_SALT
     else if st = PSA_KEY_DERIVATION_INPUT_INFO then WOLFPSA_KDF_STEP_INFO
     else if st = PSA_KEY_DERIVATION_INPUT_LABEL then WOLFPSA_KDF_STEP_LABEL
     else if st = PSA_KEY_DERIVATION_INPUT_SEED then WOLFPSA_KDF_STEP_SEED
     else if st = PSA_KEY_DERIVATION_INPUT_PASSWORD then WOLFPSA_KDF_STEP_PASSWORD
     else if st = PSA_KEY_DERIVATION_INPUT_COST then WOLFPSA_KDF_STEP_COST
     else if st = PSA_KEY_DERIVATION_INPUT_CONTEXT then WOLFPSA_KDF_STEP_CONTEXT
     else 0)"

section \<open>Which inputs are taken\<close>

text \<open>The branches of \<open>wolfpsa_kdf_validate_step\<close> for HKDF and for TLS-PSK-to-MS.\<close>

definition kdf_validate_hkdf ::
    "'c kdf_engine \<Rightarrow> wolfpsa_kdf_ctx \<Rightarrow> psa_key_derivation_step_t \<Rightarrow> nat \<Rightarrow> psa_status" where
  "kdf_validate_hkdf E ctx st data_length =
    (let a = kd_alg ctx; steps = kd_steps_set ctx in
     if st = PSA_KEY_DERIVATION_INPUT_OTHER_SECRET \<or> st = PSA_KEY_DERIVATION_INPUT_LABEL \<or>
        st = PSA_KEY_DERIVATION_INPUT_SEED \<or> st = PSA_KEY_DERIVATION_INPUT_PASSWORD \<or>
        st = PSA_KEY_DERIVATION_INPUT_COST then PSA_ERROR_INVALID_ARGUMENT
     else if PSA_ALG_IS_HKDF_EXTRACT a \<and> st = PSA_KEY_DERIVATION_INPUT_INFO
       then PSA_ERROR_INVALID_ARGUMENT
     else if PSA_ALG_IS_HKDF_EXTRACT a \<and> st = PSA_KEY_DERIVATION_INPUT_SALT then
       (if steps AND WOLFPSA_KDF_STEP_SECRET \<noteq> 0 then PSA_ERROR_BAD_STATE else PSA_SUCCESS)
     else if PSA_ALG_IS_HKDF_EXTRACT a \<and> st = PSA_KEY_DERIVATION_INPUT_SECRET then
       (if steps AND WOLFPSA_KDF_STEP_SALT = 0 then PSA_ERROR_BAD_STATE else PSA_SUCCESS)
     else if PSA_ALG_IS_HKDF_EXPAND a then
       (if st = PSA_KEY_DERIVATION_INPUT_SALT then PSA_ERROR_INVALID_ARGUMENT
        else if st = PSA_KEY_DERIVATION_INPUT_SECRET then
          (if steps \<noteq> 0 then PSA_ERROR_BAD_STATE
           else
             (let hash_len = wc_HashGetDigestSize E (kdf_hash_type_from_alg a) in
              if hash_len \<le> 0 \<or> data_length \<noteq> nat hash_len then PSA_ERROR_INVALID_ARGUMENT
              else PSA_SUCCESS))
        else if st = PSA_KEY_DERIVATION_INPUT_INFO then
          (if steps AND WOLFPSA_KDF_STEP_SECRET = 0 then PSA_ERROR_BAD_STATE else PSA_SUCCESS)
        else PSA_ERROR_INVALID_ARGUMENT)
     else if PSA_ALG_IS_HKDF a \<and> st = PSA_KEY_DERIVATION_INPUT_SALT then
       (if steps AND WOLFPSA_KDF_STEP_SECRET \<noteq> 0 then PSA_ERROR_BAD_STATE else PSA_SUCCESS)
     else if PSA_ALG_IS_HKDF a \<and>
             (st = PSA_KEY_DERIVATION_INPUT_SECRET \<or> st = PSA_KEY_DERIVATION_INPUT_INFO)
       then PSA_SUCCESS
     else PSA_ERROR_INVALID_ARGUMENT)"

definition kdf_validate_psk_to_ms ::
    "wolfpsa_kdf_ctx \<Rightarrow> psa_key_derivation_step_t \<Rightarrow> nat \<Rightarrow> psa_status" where
  "kdf_validate_psk_to_ms ctx st data_length =
    (if st \<noteq> PSA_KEY_DERIVATION_INPUT_SECRET \<and> st \<noteq> PSA_KEY_DERIVATION_INPUT_OTHER_SECRET \<and>
        st \<noteq> PSA_KEY_DERIVATION_INPUT_SEED then PSA_ERROR_INVALID_ARGUMENT
     else if st = PSA_KEY_DERIVATION_INPUT_SECRET \<and> kd_steps_set ctx AND WOLFPSA_KDF_STEP_SEED = 0
       then PSA_ERROR_BAD_STATE
     else if st = PSA_KEY_DERIVATION_INPUT_SECRET \<and> data_length > PSA_TLS12_PSK_TO_MS_PSK_MAX_SIZE
       then PSA_ERROR_INVALID_ARGUMENT
     else if st = PSA_KEY_DERIVATION_INPUT_OTHER_SECRET \<and> kd_steps_set ctx AND WOLFPSA_KDF_STEP_SEED = 0
       then PSA_ERROR_BAD_STATE
     else if st = PSA_KEY_DERIVATION_INPUT_OTHER_SECRET \<and> data_length > UINT16_MAX
       then PSA_ERROR_INVALID_ARGUMENT
     else PSA_SUCCESS)"

definition wolfpsa_kdf_validate_step ::
    "'c kdf_engine \<Rightarrow> wolfpsa_kdf_ctx \<Rightarrow> psa_key_derivation_step_t \<Rightarrow> nat \<Rightarrow> psa_status" where
  "wolfpsa_kdf_validate_step E ctx st data_length =
    (let multipart_step = PSA_ALG_IS_PBKDF2 (kd_alg ctx) \<and> st = PSA_KEY_DERIVATION_INPUT_SALT in
     if kd_output_started ctx then PSA_ERROR_BAD_STATE
     else if st = 0 then PSA_ERROR_INVALID_ARGUMENT
     else if \<not> multipart_step \<and> kd_steps_set ctx AND wolfpsa_kdf_step_mask st \<noteq> 0 then PSA_ERROR_BAD_STATE
     else if kd_is_raw_kdf ctx then
       (if st \<noteq> PSA_KEY_DERIVATION_INPUT_SECRET then PSA_ERROR_INVALID_ARGUMENT else PSA_SUCCESS)
     else if PSA_ALG_IS_ANY_HKDF (kd_alg ctx) then kdf_validate_hkdf E ctx st data_length
     else if PSA_ALG_IS_TLS12_PRF (kd_alg ctx) then
       (if st \<noteq> PSA_KEY_DERIVATION_INPUT_SECRET \<and> st \<noteq> PSA_KEY_DERIVATION_INPUT_LABEL \<and>
           st \<noteq> PSA_KEY_DERIVATION_INPUT_SEED then PSA_ERROR_INVALID_ARGUMENT else PSA_SUCCESS)
     else if PSA_ALG_IS_TLS12_PSK_TO_MS (kd_alg ctx) then kdf_validate_psk_to_ms ctx st data_length
     else if PSA_ALG_IS_PBKDF2 (kd_alg ctx) then
       (if st \<noteq> PSA_KEY_DERIVATION_INPUT_PASSWORD \<and> st \<noteq> PSA_KEY_DERIVATION_INPUT_SALT
        then PSA_ERROR_INVALID_ARGUMENT else PSA_SUCCESS)
     else if PSA_ALG_IS_SP800_108_COUNTER_HMAC (kd_alg ctx) \<or> kd_alg ctx = PSA_ALG_SP800_108_COUNTER_CMAC then
       (if st \<noteq> PSA_KEY_DERIVATION_INPUT_SECRET \<and> st \<noteq> PSA_KEY_DERIVATION_INPUT_LABEL \<and>
           st \<noteq> PSA_KEY_DERIVATION_INPUT_CONTEXT then PSA_ERROR_INVALID_ARGUMENT else PSA_SUCCESS)
     else PSA_ERROR_NOT_SUPPORTED)"

section \<open>The error state\<close>

definition wolfpsa_kdf_check_state :: "wolfpsa_kdf_ctx option \<Rightarrow> psa_status" where
  "wolfpsa_kdf_check_state c =
    (case c of None \<Rightarrow> PSA_ERROR_BAD_STATE
     | Some ctx \<Rightarrow> if kd_error_state ctx then PSA_ERROR_BAD_STATE else PSA_SUCCESS)"

definition wolfpsa_kdf_done :: "wolfpsa_kdf_ctx \<Rightarrow> psa_status \<Rightarrow> psa_status \<times> wolfpsa_kdf_ctx" where
  "wolfpsa_kdf_done ctx status =
    (status,
     if status \<noteq> PSA_SUCCESS \<and> status \<noteq> PSA_ERROR_INVALID_SIGNATURE \<and> status \<noteq> PSA_ERROR_INVALID_HANDLE
     then ctx\<lparr>kd_error_state := True\<rparr> else ctx)"

text \<open>
  The shape of the entry points: check the state, run the file-local function \<open>f\<close> on the
  context, record the outcome. The NULL checks of the file-local functions repeat the one of
  \<open>wolfpsa_kdf_check_state\<close>.
\<close>

definition kdf_entry ::
    "psa_key_derivation_operation_t option \<Rightarrow> 'st key_store \<Rightarrow>
     (wolfpsa_kdf_ctx \<Rightarrow> 'st key_store \<Rightarrow> psa_status \<times> wolfpsa_kdf_ctx \<times> 'st key_store) \<Rightarrow>
     psa_status \<times> psa_key_derivation_operation_t option \<times> 'st key_store" where
  "kdf_entry op s f =
    (case wolfpsa_kdf_get_ctx op of
       None \<Rightarrow> (wolfpsa_kdf_check_state None, op, s)
     | Some ctx \<Rightarrow>
         if wolfpsa_kdf_check_state (Some ctx) \<noteq> PSA_SUCCESS
         then (wolfpsa_kdf_check_state (Some ctx), op, s)
         else
           (case f ctx s of
              (status, ctx1, s1) \<Rightarrow>
                (case wolfpsa_kdf_done ctx1 status of (status', ctx2) \<Rightarrow> (status', Some (Some ctx2), s1))))"

section \<open>Set-up, abort and capacity\<close>

definition kdf_new_ctx :: "psa_algorithm_t \<Rightarrow> psa_algorithm_t \<Rightarrow> wolfpsa_kdf_ctx" where
  "kdf_new_ctx a kdf_alg =
    \<lparr>kd_alg = kdf_alg,
     kd_ka_alg = (if PSA_ALG_IS_KEY_AGREEMENT a then PSA_ALG_KEY_AGREEMENT_GET_BASE a else 0),
     kd_capacity = PSA_KEY_DERIVATION_UNLIMITED_CAPACITY, kd_output_offset = 0, kd_steps_set = 0,
     kd_secret = [], kd_other_secret = [], kd_salt = [], kd_info = [], kd_label = [], kd_context = [],
     kd_seed = [], kd_password = [], kd_cost = 0, sp800_108_L_bytes = 0,
     kd_is_key_agreement = PSA_ALG_IS_KEY_AGREEMENT a,
     kd_is_raw_kdf = (PSA_ALG_IS_KEY_AGREEMENT a \<and> kdf_alg = PSA_ALG_CATEGORY_KEY_DERIVATION),
     kd_output_started = False, kd_can_output_key = False, kd_error_state = False,
     kd_output_cache = None\<rparr>"

definition psa_key_derivation_setup ::
    "'c kdf_engine \<Rightarrow> psa_key_derivation_operation_t option \<Rightarrow> psa_algorithm_t \<Rightarrow> 'st key_store \<Rightarrow>
     psa_status \<times> psa_key_derivation_operation_t option \<times> 'st key_store" where
  "psa_key_derivation_setup E op a s =
    (let kdf_alg = (if PSA_ALG_IS_KEY_AGREEMENT a then PSA_ALG_KEY_AGREEMENT_GET_KDF a else a);
         hash_type = kdf_hash_type_from_alg kdf_alg;
         hash_len = wc_HashGetDigestSize E hash_type
     in
     if op = None then (PSA_ERROR_INVALID_ARGUMENT, op, s)
     else if op \<noteq> Some None then (PSA_ERROR_BAD_STATE, op, s)
     else if \<not> PSA_ALG_IS_KEY_DERIVATION_OR_AGREEMENT a then (PSA_ERROR_INVALID_ARGUMENT, op, s)
     else if PSA_ALG_IS_KEY_AGREEMENT a \<and> PSA_ALG_KEY_AGREEMENT_GET_BASE a \<noteq> PSA_ALG_ECDH
       then (PSA_ERROR_NOT_SUPPORTED, op, s)
     else if \<not> (PSA_ALG_IS_ANY_HKDF kdf_alg \<or> PSA_ALG_IS_TLS12_PRF kdf_alg \<or>
                PSA_ALG_IS_TLS12_PSK_TO_MS kdf_alg \<or> PSA_ALG_IS_PBKDF2 kdf_alg \<or>
                PSA_ALG_IS_SP800_108_COUNTER_HMAC kdf_alg \<or> kdf_alg = PSA_ALG_SP800_108_COUNTER_CMAC \<or>
                kdf_alg = PSA_ALG_CATEGORY_KEY_DERIVATION)
       then (PSA_ERROR_NOT_SUPPORTED, op, s)
     else if (PSA_ALG_IS_ANY_HKDF kdf_alg \<or> PSA_ALG_IS_TLS12_PRF kdf_alg \<or>
              PSA_ALG_IS_TLS12_PSK_TO_MS kdf_alg \<or> PSA_ALG_IS_PBKDF2_HMAC kdf_alg \<or>
              PSA_ALG_IS_SP800_108_COUNTER_HMAC kdf_alg) \<and> hash_type = WC_HASH_TYPE_NONE
       then (PSA_ERROR_NOT_SUPPORTED, op, s)
     else
       (case s_xmalloc s of
          (ok, s1) \<Rightarrow>
            if \<not> ok then (PSA_ERROR_INSUFFICIENT_MEMORY, op, s1)
            else if PSA_ALG_IS_ANY_HKDF kdf_alg \<and> hash_len \<le> 0 then (PSA_ERROR_NOT_SUPPORTED, op, s1)
            else
              (let ctx = kdf_new_ctx a kdf_alg;
                   ctx1 = (if PSA_ALG_IS_ANY_HKDF kdf_alg then
                             (if PSA_ALG_IS_HKDF_EXTRACT kdf_alg then ctx\<lparr>kd_capacity := nat hash_len\<rparr>
                              else ctx\<lparr>kd_capacity := 255 * nat hash_len\<rparr>)
                           else ctx);
                   ctx2 = (if PSA_ALG_IS_SP800_108_COUNTER_HMAC kdf_alg \<or>
                              kdf_alg = PSA_ALG_SP800_108_COUNTER_CMAC
                           then ctx1\<lparr>kd_capacity := 0x1fffffff\<rparr> else ctx1)
               in (PSA_SUCCESS, Some (Some ctx2), s1))))"

definition psa_key_derivation_abort ::
    "psa_key_derivation_operation_t option \<Rightarrow> psa_status \<times> psa_key_derivation_operation_t option" where
  "psa_key_derivation_abort op =
    (if op = None then (PSA_ERROR_INVALID_ARGUMENT, op) else (PSA_SUCCESS, Some None))"

definition wolfpsa_kdf_set_capacity ::
    "'c kdf_engine \<Rightarrow> wolfpsa_kdf_ctx \<Rightarrow> nat \<Rightarrow> psa_status \<times> wolfpsa_kdf_ctx" where
  "wolfpsa_kdf_set_capacity E ctx cap =
    (let hash_len = wc_HashGetDigestSize E (kdf_hash_type_from_alg (kd_alg ctx)) in
     if PSA_ALG_IS_ANY_HKDF (kd_alg ctx) \<and> hash_len \<le> 0 then (PSA_ERROR_NOT_SUPPORTED, ctx)
     else if PSA_ALG_IS_ANY_HKDF (kd_alg ctx) \<and> PSA_ALG_IS_HKDF_EXTRACT (kd_alg ctx) \<and> cap > nat hash_len
       then (PSA_ERROR_INVALID_ARGUMENT, ctx)
     else if PSA_ALG_IS_ANY_HKDF (kd_alg ctx) \<and> \<not> PSA_ALG_IS_HKDF_EXTRACT (kd_alg ctx) \<and>
             cap > 255 * nat hash_len
       then (PSA_ERROR_INVALID_ARGUMENT, ctx)
     else if cap > kd_capacity ctx then (PSA_ERROR_INVALID_ARGUMENT, ctx)
     else (PSA_SUCCESS, ctx\<lparr>kd_capacity := cap\<rparr>))"

definition psa_key_derivation_set_capacity ::
    "'c kdf_engine \<Rightarrow> psa_key_derivation_operation_t option \<Rightarrow> nat \<Rightarrow>
     psa_status \<times> psa_key_derivation_operation_t option" where
  "psa_key_derivation_set_capacity E op cap =
    (case wolfpsa_kdf_get_ctx op of
       None \<Rightarrow> (wolfpsa_kdf_check_state None, op)
     | Some ctx \<Rightarrow>
         if wolfpsa_kdf_check_state (Some ctx) \<noteq> PSA_SUCCESS
         then (wolfpsa_kdf_check_state (Some ctx), op)
         else
           (case wolfpsa_kdf_set_capacity E ctx cap of
              (status, ctx1) \<Rightarrow>
                if status = PSA_ERROR_INVALID_ARGUMENT then (status, Some (Some ctx1))
                else (case wolfpsa_kdf_done ctx1 status of (status', ctx2) \<Rightarrow> (status', Some (Some ctx2)))))"

definition psa_key_derivation_get_capacity ::
    "psa_key_derivation_operation_t option \<Rightarrow> nat option \<Rightarrow> psa_status \<times> nat option" where
  "psa_key_derivation_get_capacity op cap =
    (if op = None \<or> cap = None then (PSA_ERROR_INVALID_ARGUMENT, cap)
     else
       (case wolfpsa_kdf_get_ctx op of
          None \<Rightarrow> (PSA_ERROR_BAD_STATE, cap)
        | Some ctx \<Rightarrow> (PSA_SUCCESS, Some (kd_capacity ctx))))"

section \<open>Inputs\<close>

definition wolfpsa_kdf_input_bytes ::
    "'c kdf_engine \<Rightarrow> wolfpsa_kdf_ctx \<Rightarrow> psa_key_derivation_step_t \<Rightarrow> inbuf \<Rightarrow> 'st key_store \<Rightarrow>
     psa_status \<times> wolfpsa_kdf_ctx \<times> 'st key_store" where
  "wolfpsa_kdf_input_bytes E ctx st d s =
    (let status = wolfpsa_kdf_validate_step E ctx st (in_length d);
         mask = wolfpsa_kdf_step_mask st;
         add = (\<lambda>buf upd. case wolfpsa_kdf_append buf d s of
                  (status, buf', s1) \<Rightarrow>
                    (status,
                     if status = PSA_SUCCESS then (upd buf')\<lparr>kd_steps_set := kd_steps_set ctx OR mask\<rparr>
                     else upd buf', s1))
     in
     if status \<noteq> PSA_SUCCESS then (status, ctx, s)
     else if mask = 0 then (PSA_ERROR_INVALID_ARGUMENT, ctx, s)
     else if st = PSA_KEY_DERIVATION_INPUT_SECRET then add (kd_secret ctx) (\<lambda>b. ctx\<lparr>kd_secret := b\<rparr>)
     else if st = PSA_KEY_DERIVATION_INPUT_OTHER_SECRET
       then add (kd_other_secret ctx) (\<lambda>b. ctx\<lparr>kd_other_secret := b\<rparr>)
     else if st = PSA_KEY_DERIVATION_INPUT_SALT then add (kd_salt ctx) (\<lambda>b. ctx\<lparr>kd_salt := b\<rparr>)
     else if st = PSA_KEY_DERIVATION_INPUT_INFO then add (kd_info ctx) (\<lambda>b. ctx\<lparr>kd_info := b\<rparr>)
     else if st = PSA_KEY_DERIVATION_INPUT_LABEL then add (kd_label ctx) (\<lambda>b. ctx\<lparr>kd_label := b\<rparr>)
     else if st = PSA_KEY_DERIVATION_INPUT_CONTEXT then add (kd_context ctx) (\<lambda>b. ctx\<lparr>kd_context := b\<rparr>)
     else if st = PSA_KEY_DERIVATION_INPUT_SEED then add (kd_seed ctx) (\<lambda>b. ctx\<lparr>kd_seed := b\<rparr>)
     else if st = PSA_KEY_DERIVATION_INPUT_PASSWORD then add (kd_password ctx) (\<lambda>b. ctx\<lparr>kd_password := b\<rparr>)
     else (PSA_ERROR_INVALID_ARGUMENT, ctx, s))"

definition psa_key_derivation_input_bytes ::
    "'c kdf_engine \<Rightarrow> psa_key_derivation_operation_t option \<Rightarrow> psa_key_derivation_step_t \<Rightarrow> inbuf \<Rightarrow>
     'st key_store \<Rightarrow> psa_status \<times> psa_key_derivation_operation_t option \<times> 'st key_store" where
  "psa_key_derivation_input_bytes E op st d s =
    kdf_entry op s (\<lambda>ctx s1. wolfpsa_kdf_input_bytes E ctx st d s1)"

definition wolfpsa_kdf_input_integer ::
    "wolfpsa_kdf_ctx \<Rightarrow> psa_key_derivation_step_t \<Rightarrow> u64 \<Rightarrow> psa_status \<times> wolfpsa_kdf_ctx" where
  "wolfpsa_kdf_input_integer ctx st v =
    (if kd_output_started ctx then (PSA_ERROR_BAD_STATE, ctx)
     else if st \<noteq> PSA_KEY_DERIVATION_INPUT_COST then (PSA_ERROR_INVALID_ARGUMENT, ctx)
     else if \<not> PSA_ALG_IS_PBKDF2 (kd_alg ctx) then (PSA_ERROR_INVALID_ARGUMENT, ctx)
     else if kd_steps_set ctx AND WOLFPSA_KDF_STEP_COST \<noteq> 0 then (PSA_ERROR_BAD_STATE, ctx)
     else if v = 0 then (PSA_ERROR_INVALID_ARGUMENT, ctx)
     else if v > 0xFFFFFFFF then (PSA_ERROR_NOT_SUPPORTED, ctx)
     else (PSA_SUCCESS,
           ctx\<lparr>kd_cost := ucast v, kd_steps_set := kd_steps_set ctx OR WOLFPSA_KDF_STEP_COST\<rparr>))"

definition psa_key_derivation_input_integer ::
    "psa_key_derivation_operation_t option \<Rightarrow> psa_key_derivation_step_t \<Rightarrow> u64 \<Rightarrow> 'st key_store \<Rightarrow>
     psa_status \<times> psa_key_derivation_operation_t option \<times> 'st key_store" where
  "psa_key_derivation_input_integer op st v s =
    kdf_entry op s (\<lambda>ctx s1. case wolfpsa_kdf_input_integer ctx st v of (status, ctx1) \<Rightarrow> (status, ctx1, s1))"

definition wolfpsa_kdf_key_type_ok ::
    "psa_algorithm_t \<Rightarrow> psa_key_derivation_step_t \<Rightarrow> psa_key_type_t \<Rightarrow> bool" where
  "wolfpsa_kdf_key_type_ok a st t =
    (if st = PSA_KEY_DERIVATION_INPUT_SECRET \<and>
        (t = PSA_KEY_TYPE_HMAC \<and> PSA_ALG_IS_SP800_108_COUNTER_HMAC a \<or>
         t = PSA_KEY_TYPE_AES \<and> a = PSA_ALG_SP800_108_COUNTER_CMAC) then True
     else list_ex (\<lambda>(st', t'). st' = st \<and> t' = t) wolfpsa_kdf_key_inputs)"

definition wolfpsa_kdf_key_alg_permitted :: "wolfpsa_kdf_ctx \<Rightarrow> psa_algorithm_t \<Rightarrow> bool" where
  "wolfpsa_kdf_key_alg_permitted ctx key_alg =
    (if key_alg = PSA_ALG_NONE then False
     else if kd_is_key_agreement ctx then
       PSA_ALG_IS_KEY_AGREEMENT key_alg \<and> PSA_ALG_KEY_AGREEMENT_GET_KDF key_alg = kd_alg ctx
     else key_alg = kd_alg ctx)"

definition wolfpsa_kdf_input_key ::
    "('st, 'h) psa_env \<Rightarrow> 'c kdf_engine \<Rightarrow> wolfpsa_kdf_ctx \<Rightarrow> psa_key_derivation_step_t \<Rightarrow> psa_key_id_t \<Rightarrow>
     'st key_store \<Rightarrow> psa_status \<times> wolfpsa_kdf_ctx \<times> 'st key_store" where
  "wolfpsa_kdf_input_key env E ctx st key s =
    (case load_key env key s of
       (Inl status, s1) \<Rightarrow> (status, ctx, s1)
     | (Inr (attrs, d), s1) \<Rightarrow>
         (let vst = wolfpsa_kdf_validate_step E ctx st (length d) in
          if vst \<noteq> PSA_SUCCESS then (vst, ctx, s1)
          else if psa_get_key_usage_flags attrs AND
                  (PSA_KEY_USAGE_DERIVE OR PSA_KEY_USAGE_VERIFY_DERIVATION) = 0
            then (PSA_ERROR_NOT_PERMITTED, ctx, s1)
          else if \<not> wolfpsa_kdf_key_type_ok (kd_alg ctx) st (type attrs)
            then (PSA_ERROR_INVALID_ARGUMENT, ctx, s1)
          else if \<not> wolfpsa_kdf_key_alg_permitted ctx (psa_get_key_algorithm attrs) \<and>
                  \<not> wolfpsa_kdf_key_alg_permitted ctx (psa_get_key_enrollment_algorithm attrs)
            then (PSA_ERROR_NOT_PERMITTED, ctx, s1)
          else
            (case wolfpsa_kdf_input_bytes E ctx st (In d) s1 of
               (status, ctx1, s2) \<Rightarrow>
                 (status,
                  if status = PSA_SUCCESS \<and> psa_get_key_usage_flags attrs AND PSA_KEY_USAGE_DERIVE \<noteq> 0 \<and>
                     (st = PSA_KEY_DERIVATION_INPUT_SECRET \<or> st = PSA_KEY_DERIVATION_INPUT_PASSWORD)
                  then ctx1\<lparr>kd_can_output_key := True\<rparr> else ctx1, s2))))"

definition psa_key_derivation_input_key ::
    "('st, 'h) psa_env \<Rightarrow> 'c kdf_engine \<Rightarrow> psa_key_derivation_operation_t option \<Rightarrow>
     psa_key_derivation_step_t \<Rightarrow> psa_key_id_t \<Rightarrow> 'st key_store \<Rightarrow>
     psa_status \<times> psa_key_derivation_operation_t option \<times> 'st key_store" where
  "psa_key_derivation_input_key env E op st key s =
    kdf_entry op s (\<lambda>ctx s1. wolfpsa_kdf_input_key env E ctx st key s1)"

definition wolfpsa_kdf_key_agreement ::
    "('st, 'h) psa_env \<Rightarrow> 'c kdf_engine \<Rightarrow> ('e, 'm) ecdh_engine \<Rightarrow> wolfpsa_kdf_ctx \<Rightarrow>
     psa_key_derivation_step_t \<Rightarrow> psa_key_id_t \<Rightarrow> inbuf \<Rightarrow> 'st key_store \<Rightarrow>
     psa_status \<times> wolfpsa_kdf_ctx \<times> 'st key_store" where
  "wolfpsa_kdf_key_agreement env E X ctx st private_key peer_key s =
    (if \<not> kd_is_key_agreement ctx then (PSA_ERROR_INVALID_ARGUMENT, ctx, s)
     else if kd_output_started ctx then (PSA_ERROR_BAD_STATE, ctx, s)
     else if st \<noteq> PSA_KEY_DERIVATION_INPUT_SECRET \<and> st \<noteq> PSA_KEY_DERIVATION_INPUT_OTHER_SECRET
       then (PSA_ERROR_INVALID_ARGUMENT, ctx, s)
     else if st = PSA_KEY_DERIVATION_INPUT_OTHER_SECRET \<and> \<not> PSA_ALG_IS_TLS12_PSK_TO_MS (kd_alg ctx)
       then (PSA_ERROR_INVALID_ARGUMENT, ctx, s)
     else
       (case psa_get_key_attributes env private_key False s of
          (ast, priv_attr, s1) \<Rightarrow>
            (let secret_len = PSA_RAW_KEY_AGREEMENT_OUTPUT_SIZE (type priv_attr)
                                (unat (bits priv_attr)) in
             if ast \<noteq> PSA_SUCCESS then (ast, ctx, s1)
             else if psa_get_key_usage_flags priv_attr AND PSA_KEY_USAGE_DERIVE = 0
               then (PSA_ERROR_NOT_PERMITTED, ctx, s1)
             else if \<not> PSA_KEY_TYPE_IS_KEY_PAIR (type priv_attr)
               then (PSA_ERROR_INVALID_ARGUMENT, ctx, s1)
             else if secret_len = 0 then (PSA_ERROR_NOT_SUPPORTED, ctx, s1)
             else
               (case s_xmalloc s1 of
                  (ok, s2) \<Rightarrow>
                    if \<not> ok then (PSA_ERROR_INSUFFICIENT_MEMORY, ctx, s2)
                    else
                      (case wolfpsa_key_agreement_secret env X
                              (PSA_ALG_KEY_AGREEMENT (kd_ka_alg ctx) (kd_alg ctx)) private_key peer_key
                              (Out secret_len) s2 of
                         (Inl status, s3) \<Rightarrow> (status, ctx, s3)
                       | (Inr secret, s3) \<Rightarrow>
                           (case wolfpsa_kdf_input_bytes E ctx st (In secret) s3 of
                              (status, ctx1, s4) \<Rightarrow>
                                (status,
                                 if status = PSA_SUCCESS \<and> st = PSA_KEY_DERIVATION_INPUT_SECRET
                                 then ctx1\<lparr>kd_can_output_key := True\<rparr> else ctx1, s4)))))))"

definition psa_key_derivation_key_agreement ::
    "('st, 'h) psa_env \<Rightarrow> 'c kdf_engine \<Rightarrow> ('e, 'm) ecdh_engine \<Rightarrow> psa_key_derivation_operation_t option \<Rightarrow>
     psa_key_derivation_step_t \<Rightarrow> psa_key_id_t \<Rightarrow> inbuf \<Rightarrow> 'st key_store \<Rightarrow>
     psa_status \<times> psa_key_derivation_operation_t option \<times> 'st key_store" where
  "psa_key_derivation_key_agreement env E X op st private_key peer_key s =
    kdf_entry op s (\<lambda>ctx s1. wolfpsa_kdf_key_agreement env E X ctx st private_key peer_key s1)"

end
