(* ===== verification/Kdf_Compute.thy ===== *)
theory Kdf_Compute
  imports Kdf
begin

text \<open>
  \<open>src/psa_key_derivation.c\<close>, second part: the derivation functions behind
  \<open>wolfpsa_kdf_compute_output\<close>, what wolfCrypt promises of the calls they make
  (\<open>kdf_engine_ok\<close>), and the stream of bytes that the inputs of an operation define
  (\<open>kdf_stream\<close>). Every loop that the types do not bound is a partial function into \<open>option\<close>;
  \<open>None\<close> is a call that does not return.
\<close>

unbundle bit_operations_syntax

abbreviation WC_MAX_DIGEST_SIZE :: nat where "WC_MAX_DIGEST_SIZE \<equiv> 64"
abbreviation WC_AES_BLOCK_SIZE :: nat where "WC_AES_BLOCK_SIZE \<equiv> 16"

section \<open>One MAC\<close>

text \<open>Four bytes, most significant first, as the sources write a counter or a length.\<close>

definition be32 :: "u32 \<Rightarrow> byte list" where
  "be32 w = [ucast (drop_bit 24 w AND 0xff), ucast (drop_bit 16 w AND 0xff),
             ucast (drop_bit 8 w AND 0xff), ucast (w AND 0xff)]"

fun cmac_updates :: "'c mac_engine \<Rightarrow> byte list list \<Rightarrow> 'c \<Rightarrow> wc_ret \<times> 'c" where
  "cmac_updates M [] c = (WC_OK, c)"
| "cmac_updates M (x # xs) c =
    (case wc_CmacUpdate M x c of (ret, c1) \<Rightarrow> if ret \<noteq> WC_OK then (ret, c1) else cmac_updates M xs c1)"

definition kdf_cmac :: "'c mac_engine \<Rightarrow> byte list \<Rightarrow> byte list list \<Rightarrow> psa_status + byte list" where
  "kdf_cmac M key parts =
    (case wc_InitCmac M key (mac_devid M) of
       (r1, c1) \<Rightarrow>
         if r1 \<noteq> WC_OK then Inl (wc_error_to_psa_status r1)
         else
           (case cmac_updates M parts c1 of
              (r2, c2) \<Rightarrow>
                if r2 \<noteq> WC_OK then Inl (wc_error_to_psa_status r2)
                else
                  (case wc_CmacFinal M WC_AES_BLOCK_SIZE c2 of
                     (r3, buf, out_sz) \<Rightarrow>
                       if r3 \<noteq> WC_OK then Inl (wc_error_to_psa_status r3)
                       else if out_sz \<noteq> WC_AES_BLOCK_SIZE then Inl PSA_ERROR_NOT_SUPPORTED
                       else Inr (take WC_AES_BLOCK_SIZE buf))))"

fun hmac_updates :: "'c mac_engine \<Rightarrow> byte list list \<Rightarrow> 'c \<Rightarrow> wc_ret \<times> 'c" where
  "hmac_updates M [] c = (WC_OK, c)"
| "hmac_updates M (x # xs) c =
    (case wc_HmacUpdate M x c of (ret, c1) \<Rightarrow> if ret \<noteq> WC_OK then (ret, c1) else hmac_updates M xs c1)"

definition kdf_hmac ::
    "'c mac_engine \<Rightarrow> wc_hash_type \<Rightarrow> byte list \<Rightarrow> byte list list \<Rightarrow> psa_status + byte list" where
  "kdf_hmac M h key parts =
    (case wc_HmacInit M (mac_devid M) of
       (r1, c1) \<Rightarrow>
         if r1 \<noteq> WC_OK then Inl (wc_error_to_psa_status r1)
         else
           (case wc_HmacSetKey M h key c1 of
              (r2, c2) \<Rightarrow>
                if r2 \<noteq> WC_OK then Inl (wc_error_to_psa_status r2)
                else
                  (case hmac_updates M parts c2 of
                     (r3, c3) \<Rightarrow>
                       if r3 \<noteq> WC_OK then Inl (wc_error_to_psa_status r3)
                       else
                         (case wc_HmacFinal M c3 of
                            (r4, block) \<Rightarrow>
                              if r4 \<noteq> WC_OK then Inl (wc_error_to_psa_status r4) else Inr block))))"

section \<open>HKDF and the TLS 1.2 PRF\<close>

abbreviation word32_ok :: "nat \<Rightarrow> bool" where
  "word32_ok n \<equiv> wolfpsa_check_word32_length n = PSA_SUCCESS"

definition kdf_hkdf_extract ::
    "'c kdf_engine \<Rightarrow> wolfpsa_kdf_ctx \<Rightarrow> wc_hash_type \<Rightarrow> nat \<Rightarrow> psa_status + byte list" where
  "kdf_hkdf_extract E ctx h output_length =
    (let hash_len = wc_HashGetDigestSize E h in
     if hash_len \<le> 0 then Inl PSA_ERROR_NOT_SUPPORTED
     else if nat hash_len > WC_MAX_DIGEST_SIZE then Inl PSA_ERROR_NOT_SUPPORTED
     else if \<not> word32_ok (length (kd_salt ctx)) \<or> \<not> word32_ok (length (kd_secret ctx))
       then Inl PSA_ERROR_INVALID_ARGUMENT
     else if output_length > nat hash_len then Inl PSA_ERROR_INVALID_ARGUMENT
     else
       wc_try (wc_HKDF_Extract E h (kd_salt ctx) (kd_secret ctx) (mac_devid (ke_mac E)))
         (\<lambda>prk. Inr (take output_length prk)))"

definition kdf_hkdf_expand ::
    "'c kdf_engine \<Rightarrow> wolfpsa_kdf_ctx \<Rightarrow> wc_hash_type \<Rightarrow> nat \<Rightarrow> psa_status + byte list" where
  "kdf_hkdf_expand E ctx h output_length =
    (if \<not> word32_ok (length (kd_secret ctx)) \<or> \<not> word32_ok (length (kd_info ctx)) \<or>
        \<not> word32_ok output_length then Inl PSA_ERROR_INVALID_ARGUMENT
     else wc_try (wc_HKDF_Expand E h (kd_secret ctx) (kd_info ctx) output_length (mac_devid (ke_mac E))) Inr)"

definition kdf_hkdf_full ::
    "'c kdf_engine \<Rightarrow> wolfpsa_kdf_ctx \<Rightarrow> wc_hash_type \<Rightarrow> nat \<Rightarrow> psa_status + byte list" where
  "kdf_hkdf_full E ctx h output_length =
    (let hash_len = wc_HashGetDigestSize E h in
     if hash_len \<le> 0 \<or> nat hash_len > WC_MAX_DIGEST_SIZE then Inl PSA_ERROR_NOT_SUPPORTED
     else if \<not> word32_ok (length (kd_salt ctx)) \<or> \<not> word32_ok (length (kd_secret ctx)) \<or>
             \<not> word32_ok (length (kd_info ctx)) \<or> \<not> word32_ok output_length
       then Inl PSA_ERROR_INVALID_ARGUMENT
     else
       wc_try (wc_HKDF_Extract E h (kd_salt ctx) (kd_secret ctx) (mac_devid (ke_mac E))) (\<lambda>prk.
       wc_try (wc_HKDF_Expand E h (take (nat hash_len) prk) (kd_info ctx) output_length
                 (mac_devid (ke_mac E))) Inr))"

definition wolfpsa_kdf_hkdf ::
    "'c kdf_engine \<Rightarrow> wolfpsa_kdf_ctx \<Rightarrow> nat \<Rightarrow> psa_status + byte list" where
  "wolfpsa_kdf_hkdf E ctx output_length =
    (let h = kdf_hash_type_from_alg (kd_alg ctx) in
     if h = WC_HASH_TYPE_NONE then Inl PSA_ERROR_NOT_SUPPORTED
     else if PSA_ALG_IS_HKDF_EXTRACT (kd_alg ctx) then kdf_hkdf_extract E ctx h output_length
     else if PSA_ALG_IS_HKDF_EXPAND (kd_alg ctx) then kdf_hkdf_expand E ctx h output_length
     else if PSA_ALG_IS_HKDF (kd_alg ctx) then kdf_hkdf_full E ctx h output_length
     else Inl PSA_ERROR_NOT_SUPPORTED)"

definition wolfpsa_kdf_tls12_prf ::
    "'c kdf_engine \<Rightarrow> wolfpsa_kdf_ctx \<Rightarrow> nat \<Rightarrow> psa_status + byte list" where
  "wolfpsa_kdf_tls12_prf E ctx output_length =
    (let h = kdf_hash_type_from_alg (kd_alg ctx); prf_mac = wolfpsa_prf_mac_from_alg (kd_alg ctx) in
     if h = WC_HASH_TYPE_NONE \<or> prf_mac = no_mac then Inl PSA_ERROR_NOT_SUPPORTED
     else if \<not> word32_ok output_length \<or> \<not> word32_ok (length (kd_secret ctx)) \<or>
             \<not> word32_ok (length (kd_label ctx)) \<or> \<not> word32_ok (length (kd_seed ctx))
       then Inl PSA_ERROR_INVALID_ARGUMENT
     else wc_try (wc_PRF_TLS E output_length (kd_secret ctx) (kd_label ctx) (kd_seed ctx) prf_mac
                    (mac_devid (ke_mac E))) Inr)"

text \<open>Two bytes, most significant first.\<close>

definition be16_len :: "nat \<Rightarrow> byte list" where
  "be16_len n = [word_of_nat (n div 256), word_of_nat n]"

definition master_secret_label :: "byte list" where
  "master_secret_label =
    [0x6d, 0x61, 0x73, 0x74, 0x65, 0x72, 0x20, 0x73, 0x65, 0x63, 0x72, 0x65, 0x74]"

definition psk_premaster :: "wolfpsa_kdf_ctx \<Rightarrow> byte list" where
  "psk_premaster ctx =
    (let other = (if kd_steps_set ctx AND WOLFPSA_KDF_STEP_OTHER_SECRET = 0
                  then replicate (length (kd_secret ctx)) 0 else kd_other_secret ctx)
     in be16_len (length other) @ other @ be16_len (length (kd_secret ctx)) @ kd_secret ctx)"

definition wolfpsa_kdf_tls12_psk_to_ms ::
    "'c kdf_engine \<Rightarrow> wolfpsa_kdf_ctx \<Rightarrow> nat \<Rightarrow> 'st key_store \<Rightarrow> (psa_status + byte list) \<times> 'st key_store" where
  "wolfpsa_kdf_tls12_psk_to_ms E ctx output_length s =
    (let h = kdf_hash_type_from_alg (kd_alg ctx); prf_mac = wolfpsa_prf_mac_from_alg (kd_alg ctx);
         other_secret_length = (if kd_steps_set ctx AND WOLFPSA_KDF_STEP_OTHER_SECRET = 0
                                then length (kd_secret ctx) else length (kd_other_secret ctx));
         premaster_len = 2 + length (kd_secret ctx) + 2 + other_secret_length
     in
     if h = WC_HASH_TYPE_NONE \<or> prf_mac = no_mac then (Inl PSA_ERROR_NOT_SUPPORTED, s)
     else if other_secret_length > UINT16_MAX \<or> length (kd_secret ctx) > UINT16_MAX
       then (Inl PSA_ERROR_INVALID_ARGUMENT, s)
     else if \<not> word32_ok output_length \<or> \<not> word32_ok premaster_len \<or> \<not> word32_ok (length (kd_seed ctx))
       then (Inl PSA_ERROR_INVALID_ARGUMENT, s)
     else
       (case s_xmalloc s of
          (ok, s1) \<Rightarrow>
            if \<not> ok then (Inl PSA_ERROR_INSUFFICIENT_MEMORY, s1)
            else (wc_try (wc_PRF_TLS E output_length (psk_premaster ctx) master_secret_label (kd_seed ctx)
                            prf_mac (mac_devid (ke_mac E))) Inr, s1)))"

section \<open>PBKDF2\<close>

definition kdf_pbkdf2_hmac ::
    "'c kdf_engine \<Rightarrow> wolfpsa_kdf_ctx \<Rightarrow> nat \<Rightarrow> psa_status + byte list" where
  "kdf_pbkdf2_hmac E ctx output_length =
    (let h = kdf_hash_type_from_alg (kd_alg ctx) in
     if h = WC_HASH_TYPE_NONE then Inl PSA_ERROR_NOT_SUPPORTED
     else if length (kd_password ctx) > INT_MAX \<or> length (kd_salt ctx) > INT_MAX \<or>
             unat (kd_cost ctx) > INT_MAX \<or> output_length > INT_MAX then Inl PSA_ERROR_INVALID_ARGUMENT
     else wc_try (wc_PBKDF2 E (kd_password ctx) (kd_salt ctx) (unat (kd_cost ctx)) output_length h
                    (mac_devid (ke_mac E))) Inr)"

text \<open>The key of the PRF: a password of one block as it is, any other one under the zero key.\<close>

definition pbkdf2_cmac_key :: "'c mac_engine \<Rightarrow> byte list \<Rightarrow> psa_status + byte list" where
  "pbkdf2_cmac_key M password =
    (if length password = WC_AES_BLOCK_SIZE then Inr password
     else kdf_cmac M (replicate WC_AES_BLOCK_SIZE 0) [password])"

text \<open>The inner loop: \<open>n\<close> more rounds, with \<open>u_block\<close> and \<open>t_block\<close>.\<close>

fun pbkdf2_cmac_rounds ::
    "'c mac_engine \<Rightarrow> byte list \<Rightarrow> nat \<Rightarrow> byte list \<Rightarrow> byte list \<Rightarrow> psa_status + byte list" where
  "pbkdf2_cmac_rounds M key 0 u t = Inr t"
| "pbkdf2_cmac_rounds M key (Suc n) u t =
    (case kdf_cmac M key [u] of
       Inl e \<Rightarrow> Inl e
     | Inr u' \<Rightarrow> pbkdf2_cmac_rounds M key n u' (map2 (XOR) t u'))"

definition pbkdf2_cmac_block ::
    "'c mac_engine \<Rightarrow> byte list \<Rightarrow> byte list \<Rightarrow> u32 \<Rightarrow> u32 \<Rightarrow> psa_status + byte list" where
  "pbkdf2_cmac_block M key salt cost i =
    (case kdf_cmac M key [salt @ be32 i] of
       Inl e \<Rightarrow> Inl e
     | Inr u \<Rightarrow> pbkdf2_cmac_rounds M key (unat cost - 1) u u)"

text \<open>The outer loop, with its 32-bit counter \<open>i\<close> against the \<open>size_t\<close> number of blocks.\<close>

partial_function (option) pbkdf2_cmac_loop ::
    "(u32 \<Rightarrow> psa_status + byte list) \<Rightarrow> nat \<Rightarrow> nat \<Rightarrow> u32 \<Rightarrow> nat \<Rightarrow> byte list \<Rightarrow>
     (psa_status + byte list) option" where
  "pbkdf2_cmac_loop blk blocks n i off out =
    (if \<not> unat i \<le> blocks then Some (Inr out)
     else
       (case blk i of
          Inl e \<Rightarrow> Some (Inl e)
        | Inr t \<Rightarrow>
            if off + WC_AES_BLOCK_SIZE \<le> n
            then pbkdf2_cmac_loop blk blocks n (i + 1) (off + WC_AES_BLOCK_SIZE) (out @ t)
            else pbkdf2_cmac_loop blk blocks n (i + 1) n (out @ take (n - off) t)))"

definition pbkdf2_blocks :: "nat \<Rightarrow> nat" where
  "pbkdf2_blocks output_length = (output_length + (WC_AES_BLOCK_SIZE - 1)) mod 2 ^ 64 div WC_AES_BLOCK_SIZE"

definition kdf_pbkdf2_cmac ::
    "'c kdf_engine \<Rightarrow> wolfpsa_kdf_ctx \<Rightarrow> nat \<Rightarrow> 'st key_store \<Rightarrow>
     ((psa_status + byte list) \<times> 'st key_store) option" where
  "kdf_pbkdf2_cmac E ctx output_length s =
    (let M = ke_mac E in
     if \<not> word32_ok (length (kd_password ctx)) then Some (Inl PSA_ERROR_INVALID_ARGUMENT, s)
     else
       (case s_xmalloc s of
          (ok, s1) \<Rightarrow>
            if \<not> ok then Some (Inl PSA_ERROR_INSUFFICIENT_MEMORY, s1)
            else
              (case pbkdf2_cmac_key M (kd_password ctx) of
                 Inl e \<Rightarrow> Some (Inl e, s1)
               | Inr key \<Rightarrow>
                   if \<not> word32_ok (length (kd_salt ctx) + 4) then Some (Inl PSA_ERROR_INVALID_ARGUMENT, s1)
                   else
                     (case s_xmalloc s1 of
                        (ok2, s2) \<Rightarrow>
                          if \<not> ok2 then Some (Inl PSA_ERROR_INSUFFICIENT_MEMORY, s2)
                          else
                            map_option (\<lambda>r. (r, s2))
                              (pbkdf2_cmac_loop (pbkdf2_cmac_block M key (kd_salt ctx) (kd_cost ctx))
                                 (pbkdf2_blocks output_length) output_length 1 0 [])))))"

definition wolfpsa_kdf_pbkdf2 ::
    "'c kdf_engine \<Rightarrow> wolfpsa_kdf_ctx \<Rightarrow> nat \<Rightarrow> 'st key_store \<Rightarrow>
     ((psa_status + byte list) \<times> 'st key_store) option" where
  "wolfpsa_kdf_pbkdf2 E ctx output_length s =
    (if PSA_ALG_IS_PBKDF2_HMAC (kd_alg ctx) then Some (kdf_pbkdf2_hmac E ctx output_length, s)
     else if kd_alg ctx = PSA_ALG_PBKDF2_AES_CMAC_PRF_128 then kdf_pbkdf2_cmac E ctx output_length s
     else Some (Inl PSA_ERROR_NOT_SUPPORTED, s))"

section \<open>SP 800-108 in counter mode\<close>

definition nonempty :: "byte list \<Rightarrow> byte list list" where
  "nonempty xs = (if length xs > 0 then [xs] else [])"

text \<open>\<open>[L]_4\<close>: the low 32 bits of the total length in bits.\<close>

definition sp800_L_buf :: "wolfpsa_kdf_ctx \<Rightarrow> byte list" where
  "sp800_L_buf ctx = be32 (word_of_nat (sp800_108_L_bytes ctx * 8))"

text \<open>The loop that both variants have: \<open>blk\<close> computes one block of \<open>len\<close> bytes.\<close>

partial_function (option) sp800_108_loop ::
    "(u32 \<Rightarrow> psa_status + byte list) \<Rightarrow> nat \<Rightarrow> nat \<Rightarrow> u32 \<Rightarrow> nat \<Rightarrow> byte list \<Rightarrow>
     (psa_status + byte list) option" where
  "sp800_108_loop blk len n counter off out =
    (if \<not> off < n then Some (Inr out)
     else
       (case blk counter of
          Inl e \<Rightarrow> Some (Inl e)
        | Inr block \<Rightarrow>
            (let copy_len = (if off + len > n then n - off else len) in
             sp800_108_loop blk len n (counter + 1) (off + copy_len) (out @ take copy_len block))))"

definition sp800_108_hmac_block ::
    "'c mac_engine \<Rightarrow> wc_hash_type \<Rightarrow> wolfpsa_kdf_ctx \<Rightarrow> u32 \<Rightarrow> psa_status + byte list" where
  "sp800_108_hmac_block M h ctx counter =
    kdf_hmac M h (kd_secret ctx)
      ([be32 counter] @ nonempty (kd_label ctx) @ [[0]] @ nonempty (kd_context ctx) @ [sp800_L_buf ctx])"

definition wolfpsa_kdf_sp800_108_hmac ::
    "'c kdf_engine \<Rightarrow> wolfpsa_kdf_ctx \<Rightarrow> nat \<Rightarrow> (psa_status + byte list) option" where
  "wolfpsa_kdf_sp800_108_hmac E ctx output_length =
    (let h = kdf_hash_type_from_alg (kd_alg ctx); hmac_len = wc_HashGetDigestSize E h in
     if h = WC_HASH_TYPE_NONE then Some (Inl PSA_ERROR_NOT_SUPPORTED)
     else if hmac_len \<le> 0 \<or> nat hmac_len > WC_MAX_DIGEST_SIZE then Some (Inl PSA_ERROR_NOT_SUPPORTED)
     else if length (kd_secret ctx) > INT_MAX then Some (Inl PSA_ERROR_INVALID_ARGUMENT)
     else if \<not> word32_ok (length (kd_label ctx)) \<or> \<not> word32_ok (length (kd_context ctx))
       then Some (Inl PSA_ERROR_INVALID_ARGUMENT)
     else sp800_108_loop (sp800_108_hmac_block (ke_mac E) h ctx) (nat hmac_len) output_length 1 0 [])"

definition sp800_108_cmac_k0 :: "'c mac_engine \<Rightarrow> wolfpsa_kdf_ctx \<Rightarrow> psa_status + byte list" where
  "sp800_108_cmac_k0 M ctx =
    kdf_cmac M (kd_secret ctx)
      (nonempty (kd_label ctx) @ [[0]] @ nonempty (kd_context ctx) @ [sp800_L_buf ctx])"

definition sp800_108_cmac_block ::
    "'c mac_engine \<Rightarrow> wolfpsa_kdf_ctx \<Rightarrow> byte list \<Rightarrow> u32 \<Rightarrow> psa_status + byte list" where
  "sp800_108_cmac_block M ctx K0 counter =
    kdf_cmac M (kd_secret ctx)
      ([be32 counter] @ nonempty (kd_label ctx) @ [[0]] @ nonempty (kd_context ctx) @
       [sp800_L_buf ctx, K0])"

definition wolfpsa_kdf_sp800_108_cmac ::
    "'c kdf_engine \<Rightarrow> wolfpsa_kdf_ctx \<Rightarrow> nat \<Rightarrow> 'st key_store \<Rightarrow>
     ((psa_status + byte list) \<times> 'st key_store) option" where
  "wolfpsa_kdf_sp800_108_cmac E ctx output_length s =
    (if length (kd_secret ctx) \<noteq> 16 \<and> length (kd_secret ctx) \<noteq> 24 \<and> length (kd_secret ctx) \<noteq> 32
     then Some (Inl PSA_ERROR_INVALID_ARGUMENT, s)
     else if \<not> word32_ok (length (kd_secret ctx)) then Some (Inl PSA_ERROR_INVALID_ARGUMENT, s)
     else if \<not> word32_ok (length (kd_label ctx)) \<or> \<not> word32_ok (length (kd_context ctx))
       then Some (Inl PSA_ERROR_INVALID_ARGUMENT, s)
     else
       (case s_xmalloc s of
          (ok, s1) \<Rightarrow>
            if \<not> ok then Some (Inl PSA_ERROR_INSUFFICIENT_MEMORY, s1)
            else
              (case sp800_108_cmac_k0 (ke_mac E) ctx of
                 Inl e \<Rightarrow> Some (Inl e, s1)
               | Inr K0 \<Rightarrow>
                   map_option (\<lambda>r. (r, s1))
                     (sp800_108_loop (sp800_108_cmac_block (ke_mac E) ctx K0) WC_AES_BLOCK_SIZE
                        output_length 1 0 []))))"

section \<open>The dispatch\<close>

definition wolfpsa_kdf_compute_output ::
    "'c kdf_engine \<Rightarrow> wolfpsa_kdf_ctx \<Rightarrow> nat \<Rightarrow> 'st key_store \<Rightarrow>
     ((psa_status + byte list) \<times> 'st key_store) option" where
  "wolfpsa_kdf_compute_output E ctx n s =
    (if kd_is_raw_kdf ctx then Some (Inr (take n (kd_secret ctx)), s)
     else if PSA_ALG_IS_ANY_HKDF (kd_alg ctx) then Some (wolfpsa_kdf_hkdf E ctx n, s)
     else if PSA_ALG_IS_TLS12_PRF (kd_alg ctx) then Some (wolfpsa_kdf_tls12_prf E ctx n, s)
     else if PSA_ALG_IS_TLS12_PSK_TO_MS (kd_alg ctx) then Some (wolfpsa_kdf_tls12_psk_to_ms E ctx n s)
     else if PSA_ALG_IS_PBKDF2 (kd_alg ctx) then wolfpsa_kdf_pbkdf2 E ctx n s
     else if PSA_ALG_IS_SP800_108_COUNTER_HMAC (kd_alg ctx)
       then map_option (\<lambda>r. (r, s)) (wolfpsa_kdf_sp800_108_hmac E ctx n)
     else if kd_alg ctx = PSA_ALG_SP800_108_COUNTER_CMAC then wolfpsa_kdf_sp800_108_cmac E ctx n s
     else Some (Inl PSA_ERROR_NOT_SUPPORTED, s))"

end
