(* ===== verification/Kdf_Stream.thy ===== *)
theory Kdf_Stream
  imports Kdf_Compute
begin

text \<open>
  What wolfCrypt promises of the calls that a derivation makes (\<open>kdf_engine_ok\<close>), the stream of
  bytes that the inputs of an operation define (\<open>kdf_stream\<close>, after RFC 5869, RFC 5246,
  RFC 4279, RFC 8018 and SP 800-108), and the proof that \<open>wolfpsa_kdf_compute_output\<close> gives a
  prefix of it.
\<close>

unbundle bit_operations_syntax

section \<open>What wolfCrypt promises\<close>

text \<open>
  The functions wolfCrypt documents: the MACs, HKDF-Extract, and the output streams of
  HKDF-Expand, of the TLS PRF and of PBKDF2, of which a call delivers the first bytes.
\<close>

record kdf_ref =
  kr_mac :: mac_function
  kr_extract :: "wc_hash_type \<Rightarrow> byte list \<Rightarrow> byte list \<Rightarrow> byte list"
  kr_expand :: "wc_hash_type \<Rightarrow> byte list \<Rightarrow> byte list \<Rightarrow> nat \<Rightarrow> byte"
  kr_prf :: "wc_MACAlgorithm \<Rightarrow> byte list \<Rightarrow> byte list \<Rightarrow> byte list \<Rightarrow> nat \<Rightarrow> byte"
  kr_pbkdf2 :: "wc_hash_type \<Rightarrow> byte list \<Rightarrow> byte list \<Rightarrow> nat \<Rightarrow> nat \<Rightarrow> byte"

abbreviation prefix_of :: "(nat \<Rightarrow> byte) \<Rightarrow> nat \<Rightarrow> byte list" where
  "prefix_of f n \<equiv> map f [0..<n]"

definition kdf_engine_ok :: "'c kdf_engine \<Rightarrow> kdf_ref \<Rightarrow> 'c mac_view \<Rightarrow> bool" where
  "kdf_engine_ok E R V \<longleftrightarrow>
    mac_engine_ok (ke_mac E) (kr_mac R) V \<and>
    (\<forall>h. h \<noteq> WC_HASH_TYPE_NONE \<longrightarrow> wc_HashGetDigestSize E h = int (digest_size h)) \<and>
    (\<forall>h salt ikm dev out. wc_HKDF_Extract E h salt ikm dev = (WC_OK, out) \<longrightarrow>
       out = kr_extract R h salt ikm \<and> length out = digest_size h) \<and>
    (\<forall>h prk info n dev out. wc_HKDF_Expand E h prk info n dev = (WC_OK, out) \<longrightarrow>
       out = prefix_of (kr_expand R h prk info) n) \<and>
    (\<forall>n k l sd m dev out. wc_PRF_TLS E n k l sd m dev = (WC_OK, out) \<longrightarrow>
       out = prefix_of (kr_prf R m k l sd) n) \<and>
    (\<forall>pw salt it n h dev out. wc_PBKDF2 E pw salt it n h dev = (WC_OK, out) \<longrightarrow>
       out = prefix_of (kr_pbkdf2 R h pw salt it) n)"

lemma kdf_engine_okD:
  assumes "kdf_engine_ok E R V"
  shows "mac_engine_ok (ke_mac E) (kr_mac R) V"
    and "h \<noteq> WC_HASH_TYPE_NONE \<Longrightarrow> wc_HashGetDigestSize E h = int (digest_size h)"
    and "wc_HKDF_Extract E h salt ikm dev = (WC_OK, out) \<Longrightarrow>
      out = kr_extract R h salt ikm \<and> length out = digest_size h"
    and "wc_HKDF_Expand E h prk info n dev = (WC_OK, out) \<Longrightarrow> out = prefix_of (kr_expand R h prk info) n"
    and "wc_PRF_TLS E n k l sd m dev = (WC_OK, out) \<Longrightarrow> out = prefix_of (kr_prf R m k l sd) n"
    and "wc_PBKDF2 E pw salt it n h dev = (WC_OK, out) \<Longrightarrow> out = prefix_of (kr_pbkdf2 R h pw salt it) n"
  using assms unfolding kdf_engine_ok_def by - (elim conjE, (blast | fastforce | meson))+

section \<open>The derivation stream\<close>

text \<open>The stream of equally long blocks \<open>B 0\<close>, \<open>B 1\<close>, \dots\<close>

definition block_stream :: "(nat \<Rightarrow> byte list) \<Rightarrow> nat \<Rightarrow> nat \<Rightarrow> byte" where
  "block_stream B len j = B (j div len) ! (j mod len)"

text \<open>SP 800-108 with HMAC: \<open>K(i) = HMAC(K_IN, [i]_4 || Label || 0x00 || Context || [L]_4)\<close>.\<close>

definition sp800_hmac_K :: "kdf_ref \<Rightarrow> wolfpsa_kdf_ctx \<Rightarrow> nat \<Rightarrow> byte list" where
  "sp800_hmac_K R ctx i =
    kr_mac R (kdf_hash_type_from_alg (kd_alg ctx)) (kd_secret ctx)
      (be32 (word_of_nat i) @ kd_label ctx @ [0] @ kd_context ctx @ sp800_L_buf ctx)"

text \<open>SP 800-108 with CMAC: the same with \<open>K_0\<close> appended.\<close>

definition sp800_cmac_K0 :: "kdf_ref \<Rightarrow> wolfpsa_kdf_ctx \<Rightarrow> byte list" where
  "sp800_cmac_K0 R ctx =
    kr_mac R WC_HASH_TYPE_NONE (kd_secret ctx) (kd_label ctx @ [0] @ kd_context ctx @ sp800_L_buf ctx)"

definition sp800_cmac_K :: "kdf_ref \<Rightarrow> wolfpsa_kdf_ctx \<Rightarrow> nat \<Rightarrow> byte list" where
  "sp800_cmac_K R ctx i =
    kr_mac R WC_HASH_TYPE_NONE (kd_secret ctx)
      (be32 (word_of_nat i) @ kd_label ctx @ [0] @ kd_context ctx @ sp800_L_buf ctx @ sp800_cmac_K0 R ctx)"

text \<open>
  PBKDF2 with AES-CMAC-PRF-128 (RFC 8018 and RFC 4615): \<open>U_1 = PRF(P, S || INT(i))\<close>,
  \<open>U_(j+1) = PRF(P, U_j)\<close>, and \<open>T_i\<close> is the exclusive or of \<open>U_1 .. U_c\<close>.
\<close>

definition prf128_key :: "kdf_ref \<Rightarrow> byte list \<Rightarrow> byte list" where
  "prf128_key R pw =
    (if length pw = 16 then pw else kr_mac R WC_HASH_TYPE_NONE (replicate 16 0) pw)"

definition prf128 :: "kdf_ref \<Rightarrow> byte list \<Rightarrow> byte list \<Rightarrow> byte list" where
  "prf128 R pw x = kr_mac R WC_HASH_TYPE_NONE (prf128_key R pw) x"

fun pbkdf2_U :: "kdf_ref \<Rightarrow> byte list \<Rightarrow> byte list \<Rightarrow> nat \<Rightarrow> nat \<Rightarrow> byte list" where
  "pbkdf2_U R pw salt i 0 = prf128 R pw (salt @ be32 (word_of_nat i))"
| "pbkdf2_U R pw salt i (Suc j) = prf128 R pw (pbkdf2_U R pw salt i j)"

definition pbkdf2_T :: "kdf_ref \<Rightarrow> byte list \<Rightarrow> byte list \<Rightarrow> nat \<Rightarrow> nat \<Rightarrow> byte list" where
  "pbkdf2_T R pw salt c i =
    fold (\<lambda>j t. map2 (XOR) t (pbkdf2_U R pw salt i j)) [1..<c] (pbkdf2_U R pw salt i 0)"

definition kdf_stream :: "kdf_ref \<Rightarrow> wolfpsa_kdf_ctx \<Rightarrow> nat \<Rightarrow> byte" where
  "kdf_stream R ctx =
    (let a = kd_alg ctx; h = kdf_hash_type_from_alg a in
     if kd_is_raw_kdf ctx then (\<lambda>j. kd_secret ctx ! j)
     else if PSA_ALG_IS_HKDF_EXTRACT a then (\<lambda>j. kr_extract R h (kd_salt ctx) (kd_secret ctx) ! j)
     else if PSA_ALG_IS_HKDF_EXPAND a then kr_expand R h (kd_secret ctx) (kd_info ctx)
     else if PSA_ALG_IS_HKDF a
       then kr_expand R h (kr_extract R h (kd_salt ctx) (kd_secret ctx)) (kd_info ctx)
     else if PSA_ALG_IS_TLS12_PRF a
       then kr_prf R (wolfpsa_prf_mac_from_alg a) (kd_secret ctx) (kd_label ctx) (kd_seed ctx)
     else if PSA_ALG_IS_TLS12_PSK_TO_MS a
       then kr_prf R (wolfpsa_prf_mac_from_alg a) (psk_premaster ctx) master_secret_label (kd_seed ctx)
     else if PSA_ALG_IS_PBKDF2_HMAC a
       then kr_pbkdf2 R h (kd_password ctx) (kd_salt ctx) (unat (kd_cost ctx))
     else if a = PSA_ALG_PBKDF2_AES_CMAC_PRF_128
       then block_stream (\<lambda>i. pbkdf2_T R (kd_password ctx) (kd_salt ctx) (unat (kd_cost ctx)) (Suc i)) 16
     else if PSA_ALG_IS_SP800_108_COUNTER_HMAC a
       then block_stream (\<lambda>i. sp800_hmac_K R ctx (Suc i)) (digest_size h)
     else block_stream (\<lambda>i. sp800_cmac_K R ctx (Suc i)) 16)"

section \<open>One MAC\<close>

lemma cmac_updates_view:
  assumes ok: "mac_engine_ok M F V"
  shows "V c = (h, k, m) \<Longrightarrow> cmac_updates M xs c = (WC_OK, c') \<Longrightarrow> V c' = (h, k, m @ concat xs)"
proof (induction xs arbitrary: c m)
  case (Cons x xs)
  obtain r c1 where u: "wc_CmacUpdate M x c = (r, c1)" by fastforce
  with Cons.prems have r: "r = WC_OK" "cmac_updates M xs c1 = (WC_OK, c')" by (auto split: if_splits)
  have "V c1 = (h, k, m @ x)" using mac_engine_okD(5) [OF ok Cons.prems(1)] u r by simp
  from Cons.IH [OF this r(2)] show ?case by simp
qed simp

lemma hmac_updates_view:
  assumes ok: "mac_engine_ok M F V"
  shows "V c = (h, k, m) \<Longrightarrow> hmac_updates M xs c = (WC_OK, c') \<Longrightarrow> V c' = (h, k, m @ concat xs)"
proof (induction xs arbitrary: c m)
  case (Cons x xs)
  obtain r c1 where u: "wc_HmacUpdate M x c = (r, c1)" by fastforce
  with Cons.prems have r: "r = WC_OK" "hmac_updates M xs c1 = (WC_OK, c')" by (auto split: if_splits)
  have "V c1 = (h, k, m @ x)" using mac_engine_okD(4) [OF ok Cons.prems(1)] u r by simp
  from Cons.IH [OF this r(2)] show ?case by simp
qed simp

lemma kdf_cmac_value:
  assumes ok: "mac_engine_ok M F V" and r: "kdf_cmac M key parts = Inr out"
  shows "out = F WC_HASH_TYPE_NONE key (concat parts)"
proof -
  obtain c1 c2 buf where c: "wc_InitCmac M key (mac_devid M) = (WC_OK, c1)"
    "cmac_updates M parts c1 = (WC_OK, c2)" "wc_CmacFinal M 16 c2 = (WC_OK, buf, 16)" "out = take 16 buf"
    using r by (auto simp: kdf_cmac_def split: prod.splits if_splits)
  have "V c2 = (WC_HASH_TYPE_NONE, key, concat parts)"
    using cmac_updates_view [OF ok mac_engine_okD(3) [OF ok c(1)] c(2)] by simp
  from mac_engine_okD(7) [OF ok this c(3)] c(4) show ?thesis by simp
qed

lemma kdf_hmac_value:
  assumes ok: "mac_engine_ok M F V" and r: "kdf_hmac M h key parts = Inr block"
  shows "take (digest_size h) block = F h key (concat parts)"
proof -
  obtain c1 c2 c3 where c: "wc_HmacSetKey M h key c1 = (WC_OK, c2)"
    "hmac_updates M parts c2 = (WC_OK, c3)" "wc_HmacFinal M c3 = (WC_OK, block)"
    using r by (auto simp: kdf_hmac_def split: prod.splits if_splits)
  have "V c3 = (h, key, concat parts)"
    using hmac_updates_view [OF ok mac_engine_okD(2) [OF ok c(1)] c(2)] by simp
  from mac_engine_okD(6) [OF ok this c(3)] show ?thesis .
qed

lemma concat_nonempty [simp]: "concat (nonempty xs) = xs"
  by (simp add: nonempty_def)

section \<open>The loops\<close>

lemma block_stream_extend:
  assumes "length (B c) = len" and "m \<le> len" and "0 < len"
  shows "prefix_of (block_stream B len) (c * len + m) = prefix_of (block_stream B len) (c * len) @ take m (B c)"
proof (rule nth_equalityI)
  fix j assume "j < length (prefix_of (block_stream B len) (c * len + m))"
  then have j: "j < c * len + m" by simp
  show "prefix_of (block_stream B len) (c * len + m) ! j =
    (prefix_of (block_stream B len) (c * len) @ take m (B c)) ! j"
  proof (cases "j < c * len")
    case False
    then obtain d where d: "j = c * len + d" using le_Suc_ex not_less by blast
    then have "d < len" "d < m" using j assms(2) by auto
    then show ?thesis using d assms by (simp add: nth_append block_stream_def)
  qed (use j in \<open>simp add: nth_append\<close>)
qed (use assms in simp)

lemma unat_u32_of_nat: "m < 2 ^ 32 \<Longrightarrow> unat (word_of_nat m :: u32) = m"
  by (simp add: unat_of_nat)

lemma word_of_nat_Suc: "(word_of_nat (Suc (Suc c)) :: u32) = word_of_nat (Suc c) + 1"
  by simp

lemma sp800_108_loop_stream:
  assumes len: "0 < len"
    and blk: "\<And>i b. blk (word_of_nat (Suc i)) = Inr b \<Longrightarrow> take len b = B i \<and> length (B i) = len"
  shows "sp800_108_loop blk len n (word_of_nat (Suc c)) off (prefix_of (block_stream B len) off) = Some (Inr r) \<Longrightarrow>
    off = min (c * len) n \<Longrightarrow> r = prefix_of (block_stream B len) n"
proof (induction "n - off" arbitrary: c off rule: less_induct)
  case less
  note u = sp800_108_loop.simps [of blk len n "word_of_nat (Suc c)" off]
  show ?case
  proof (cases "off < n")
    case False
    then have "off = n" using less.prems(2) by linarith
    then show ?thesis using less.prems(1) u by simp
  next
    case True
    then have off: "off = c * len" using less.prems(2) by linarith
    define k where "k = (if off + len > n then n - off else len)"
    have k: "k \<le> len" "0 < k" "off + k = min (Suc c * len) n" using True len off by (auto simp: k_def)
    obtain b where b: "blk (word_of_nat (Suc c)) = Inr b"
      using less.prems(1) u True by (cases "blk (word_of_nat (Suc c))") auto
    have "take k b = take k (B c)" using blk [OF b] k(1) by (metis min.absorb1 take_take)
    then have ext: "prefix_of (block_stream B len) off @ take k b = prefix_of (block_stream B len) (off + k)"
      using block_stream_extend [of B c len k] blk [OF b] k(1) len off by simp
    have nx: "sp800_108_loop blk len n (word_of_nat (Suc (Suc c))) (off + k)
        (prefix_of (block_stream B len) (off + k)) = Some (Inr r)"
      using less.prems(1) True b ext
      unfolding u k_def [symmetric] word_of_nat_Suc by (simp add: Let_def k_def)
    show ?thesis
      by (rule less.hyps [OF _ nx k(3)]) (use True k(2) in simp)
  qed
qed

lemma sp800_108_loop_returns:
  assumes len: "0 < len"
  shows "\<exists>r. sp800_108_loop blk len n c off out = Some r"
proof (induction "n - off" arbitrary: c off out rule: less_induct)
  case less
  note u = sp800_108_loop.simps [of blk len n c off out]
  show ?case
  proof (cases "off < n")
    case True
    define k where "k = (if off + len > n then n - off else len)"
    have "n - (off + k) < n - off" using True len by (auto simp: k_def)
    from less [OF this] True show ?thesis
      unfolding u k_def [symmetric] Let_def by (cases "blk c") auto
  qed (simp add: u)
qed

lemma pbkdf2_cmac_loop_stream:
  assumes blk: "\<And>i b. blk (word_of_nat (Suc i)) = Inr b \<Longrightarrow> b = B i \<and> length (B i) = 16"
    and n: "n \<le> 16 * blocks" and blocks: "blocks < 2 ^ 32 - 1"
  shows "pbkdf2_cmac_loop blk blocks n (word_of_nat (Suc c)) off (prefix_of (block_stream B 16) off) = Some (Inr r) \<Longrightarrow>
    off = min (c * 16) n \<Longrightarrow> c \<le> blocks \<Longrightarrow> r = prefix_of (block_stream B 16) n"
proof (induction "Suc blocks - c" arbitrary: c off rule: less_induct)
  case less
  note u = pbkdf2_cmac_loop.simps [of blk blocks n "word_of_nat (Suc c)" off]
  have i: "unat (word_of_nat (Suc c) :: u32) = Suc c"
    by (rule unat_u32_of_nat) (use less.prems(3) blocks in simp)
  show ?case
  proof (cases "Suc c \<le> blocks")
    case False
    then have "off = n" using less.prems(2,3) n by linarith
    then show ?thesis using less.prems(1) u i False by simp
  next
    case True
    obtain b where b: "blk (word_of_nat (Suc c)) = Inr b"
      using less.prems(1) u True i by (cases "blk (word_of_nat (Suc c))") auto
    define k where "k = (if off + 16 \<le> n then 16 else n - off)"
    have k: "k \<le> 16" "off + k = min (Suc c * 16) n" using less.prems(2) by (auto simp: k_def)
    have ext: "prefix_of (block_stream B 16) off @ take k b = prefix_of (block_stream B 16) (off + k)"
    proof (cases "off = c * 16")
      case True
      then show ?thesis using block_stream_extend [of B c 16 k] blk [OF b] k(1) by simp
    next
      case False
      then have "k = 0" using less.prems(2) by (auto simp: k_def)
      then show ?thesis by simp
    qed
    have nx: "pbkdf2_cmac_loop blk blocks n (word_of_nat (Suc (Suc c))) (off + k)
        (prefix_of (block_stream B 16) (off + k)) = Some (Inr r)"
      using less.prems(1,2) True b ext blk [OF b] i
      unfolding u word_of_nat_Suc by (auto simp: k_def split: if_splits)
    show ?thesis
      by (rule less.hyps [OF _ nx k(2)]) (use True in simp_all)
  qed
qed

text \<open>The loop ends when its counter can pass the number of blocks, and only then.\<close>

lemma pbkdf2_cmac_loop_returns:
  assumes blocks: "blocks < 2 ^ 32 - 1"
  shows "c \<le> blocks \<Longrightarrow> \<exists>r. pbkdf2_cmac_loop blk blocks n (word_of_nat (Suc c)) off out = Some r"
proof (induction "Suc blocks - c" arbitrary: c off out rule: less_induct)
  case less
  note u = pbkdf2_cmac_loop.simps [of blk blocks n "word_of_nat (Suc c)" off out]
  have i: "unat (word_of_nat (Suc c) :: u32) = Suc c"
    by (rule unat_u32_of_nat) (use less.prems blocks in simp)
  show ?case
  proof (cases "Suc c \<le> blocks")
    case True
    then have ih: "\<exists>r. pbkdf2_cmac_loop blk blocks n (word_of_nat (Suc (Suc c))) off' out' = Some r" for off' out'
      by (intro less.hyps) auto
    show ?thesis using ih True i unfolding u word_of_nat_Suc [symmetric] by (auto split: sum.splits)
  next
    case False
    then show ?thesis using i unfolding u by simp
  qed
qed

lemma pbkdf2_cmac_loop_wraps:
  assumes "2 ^ 32 - 1 \<le> blocks" and "pbkdf2_cmac_loop blk blocks n i off out = Some r"
  shows "\<exists>e. r = Inl e"
proof -
  have "2 ^ 32 - 1 \<le> blocks \<longrightarrow> (\<exists>e. r = Inl e)"
  proof (rule pbkdf2_cmac_loop.raw_induct
      [where P = "\<lambda>_ blocks _ _ _ _ r. 2 ^ 32 - 1 \<le> blocks \<longrightarrow> (\<exists>e. r = Inl e)", OF _ assms(2)], intro impI)
    fix f :: "(u32 \<Rightarrow> psa_status + byte list) \<Rightarrow> nat \<Rightarrow> nat \<Rightarrow> u32 \<Rightarrow> nat \<Rightarrow> byte list \<Rightarrow> (psa_status + byte list) option"
      and blk blocks n i off out r
    assume ih: "\<And>blk blocks n i off out y. f blk blocks n i off out = Some y \<Longrightarrow>
        2 ^ 32 - 1 \<le> blocks \<longrightarrow> (\<exists>e. y = Inl e)"
      and eq: "(if \<not> unat i \<le> blocks then Some (Inr out)
        else case blk i of Inl e \<Rightarrow> Some (Inl e)
          | Inr t \<Rightarrow> if off + 16 \<le> n then f blk blocks n (i + 1) (off + 16) (out @ t)
              else f blk blocks n (i + 1) n (out @ take (n - off) t)) = Some r"
      and big: "2 ^ 32 - 1 \<le> blocks"
    have "unat i \<le> blocks" using big unat_u32_less [of i] by (simp del: unat_u32_less)
    then show "\<exists>e. r = Inl e" using eq ih big by (cases "blk i") (auto split: if_splits)
  qed
  with assms(1) show ?thesis by blast
qed

section \<open>Every derivation gives a prefix of the stream\<close>

lemma kdf_hash_size: "kdf_hash_type_from_alg a = h \<Longrightarrow> h \<noteq> WC_HASH_TYPE_NONE \<Longrightarrow> 0 < digest_size h"
  using digest_size_ge [of h] by linarith

lemma prefix_of_nth: "n \<le> length xs \<Longrightarrow> prefix_of (\<lambda>j. xs ! j) n = take n xs"
  by (rule nth_equalityI) simp_all

lemma take_prefix_of: "m \<le> n \<Longrightarrow> take m (prefix_of f n) = prefix_of f m"
  by (simp add: take_map take_upt)

lemma sp800_hmac_stream:
  assumes ok: "kdf_engine_ok E R V" and r: "wolfpsa_kdf_sp800_108_hmac E ctx n = Some (Inr out)"
  shows "out = prefix_of (block_stream (\<lambda>i. sp800_hmac_K R ctx (Suc i))
    (digest_size (kdf_hash_type_from_alg (kd_alg ctx)))) n"
proof -
  define h where "h = kdf_hash_type_from_alg (kd_alg ctx)"
  note mok = kdf_engine_okD(1) [OF ok]
  have h: "h \<noteq> WC_HASH_TYPE_NONE" using r by (auto simp: wolfpsa_kdf_sp800_108_hmac_def h_def Let_def)
  have len: "0 < digest_size h" using digest_size_ge [of h] by linarith
  have "sp800_108_loop (sp800_108_hmac_block (ke_mac E) h ctx) (digest_size h) n 1 0 [] = Some (Inr out)"
    using r h kdf_engine_okD(2) [OF ok h]
    by (auto simp: wolfpsa_kdf_sp800_108_hmac_def h_def [symmetric] Let_def split: if_splits)
  then show ?thesis unfolding h_def [symmetric]
  proof (intro sp800_108_loop_stream [OF len, of _ _ n 0 0])
    fix i b assume "sp800_108_hmac_block (ke_mac E) h ctx (word_of_nat (Suc i)) = Inr b"
    from kdf_hmac_value [OF mok this [unfolded sp800_108_hmac_block_def]]
    show "take (digest_size h) b = sp800_hmac_K R ctx (Suc i) \<and>
        length (sp800_hmac_K R ctx (Suc i)) = digest_size h"
      using mac_engine_okD(1) [OF mok] by (simp add: sp800_hmac_K_def h_def [symmetric])
  qed simp_all
qed

lemma sp800_cmac_stream:
  assumes ok: "kdf_engine_ok E R V" and r: "wolfpsa_kdf_sp800_108_cmac E ctx n s = Some (Inr out, s')"
  shows "out = prefix_of (block_stream (\<lambda>i. sp800_cmac_K R ctx (Suc i)) 16) n"
proof -
  note mok = kdf_engine_okD(1) [OF ok]
  obtain K0 where K0: "sp800_108_cmac_k0 (ke_mac E) ctx = Inr K0"
    and loop: "sp800_108_loop (sp800_108_cmac_block (ke_mac E) ctx K0) 16 n 1 0 [] = Some (Inr out)"
    using r by (auto simp: wolfpsa_kdf_sp800_108_cmac_def split: if_splits prod.splits sum.splits)
  have k0: "K0 = sp800_cmac_K0 R ctx"
    using kdf_cmac_value [OF mok K0 [unfolded sp800_108_cmac_k0_def]] by (simp add: sp800_cmac_K0_def)
  show ?thesis
  proof (rule sp800_108_loop_stream [of 16 _ _ n 0 0])
    show "sp800_108_loop (sp800_108_cmac_block (ke_mac E) ctx K0) 16 n (word_of_nat (Suc 0)) 0
        (prefix_of (block_stream (\<lambda>i. sp800_cmac_K R ctx (Suc i)) 16) 0) = Some (Inr out)"
      using loop by simp
    fix i b assume "sp800_108_cmac_block (ke_mac E) ctx K0 (word_of_nat (Suc i)) = Inr b"
    from kdf_cmac_value [OF mok this [unfolded sp800_108_cmac_block_def]]
    show "take 16 b = sp800_cmac_K R ctx (Suc i) \<and> length (sp800_cmac_K R ctx (Suc i)) = 16"
      using mac_engine_okD(1) [OF mok, of WC_HASH_TYPE_NONE] by (simp add: sp800_cmac_K_def k0)
  qed simp_all
qed

lemma pbkdf2_cmac_key_value:
  assumes "mac_engine_ok M (kr_mac R) V" and "pbkdf2_cmac_key M pw = Inr key"
  shows "key = prf128_key R pw"
  using assms kdf_cmac_value [OF assms(1), of "replicate 16 0" "[pw]"]
  by (auto simp: pbkdf2_cmac_key_def prf128_key_def split: if_splits)

lemma pbkdf2_rounds_value:
  assumes ok: "mac_engine_ok M (kr_mac R) V"
  shows "pbkdf2_cmac_rounds M (prf128_key R pw) n (pbkdf2_U R pw salt i j) t = Inr t' \<Longrightarrow>
    t' = fold (\<lambda>j t. map2 (XOR) t (pbkdf2_U R pw salt i j)) [Suc j..<Suc j + n] t"
proof (induction n arbitrary: j t)
  case (Suc n)
  obtain u where u: "kdf_cmac M (prf128_key R pw) [pbkdf2_U R pw salt i j] = Inr u"
    using Suc.prems by (auto split: sum.splits)
  have uU: "u = pbkdf2_U R pw salt i (Suc j)"
    using kdf_cmac_value [OF ok u] by (simp add: prf128_def)
  have "t' = fold (\<lambda>j t. map2 (XOR) t (pbkdf2_U R pw salt i j)) [Suc (Suc j)..<Suc (Suc j) + n] (map2 (XOR) t u)"
    using Suc.IH [of "Suc j" "map2 (XOR) t u"] Suc.prems u uU by simp
  moreover have "[Suc j..<Suc j + Suc n] = Suc j # [Suc (Suc j)..<Suc (Suc j) + n]"
    by (simp add: upt_conv_Cons)
  ultimately show ?case using uU by (simp del: upt_Suc pbkdf2_U.simps)
qed simp

lemma pbkdf2_T_length:
  assumes ok: "mac_engine_ok M (kr_mac R) V"
  shows "length (pbkdf2_T R pw salt c i) = 16"
proof -
  have U: "length (pbkdf2_U R pw salt i j) = 16" for j
    using mac_engine_okD(1) [OF ok, of WC_HASH_TYPE_NONE] by (cases j) (simp_all add: prf128_def)
  have "length t = 16 \<Longrightarrow> length (fold (\<lambda>j t. map2 (XOR) t (pbkdf2_U R pw salt i j)) js t) = 16" for js t
    by (induction js arbitrary: t) (simp_all add: U)
  then show ?thesis unfolding pbkdf2_T_def using U by blast
qed

lemma pbkdf2_block_value:
  assumes ok: "mac_engine_ok M (kr_mac R) V"
    and b: "pbkdf2_cmac_block M (prf128_key R pw) salt cost (word_of_nat i) = Inr t"
  shows "t = pbkdf2_T R pw salt (unat cost) i"
proof -
  obtain u where u: "kdf_cmac M (prf128_key R pw) [salt @ be32 (word_of_nat i)] = Inr u"
    and t: "pbkdf2_cmac_rounds M (prf128_key R pw) (unat cost - 1) u u = Inr t"
    using b by (auto simp: pbkdf2_cmac_block_def split: sum.splits)
  have "u = pbkdf2_U R pw salt i 0" using kdf_cmac_value [OF ok u] by (simp add: prf128_def)
  from pbkdf2_rounds_value [OF ok t [unfolded this]]
  have "t = fold (\<lambda>j t. map2 (XOR) t (pbkdf2_U R pw salt i j)) [1..<1 + (unat cost - 1)] (pbkdf2_U R pw salt i 0)"
    by simp
  moreover have "[1..<1 + (unat cost - 1)] = [1..<unat cost]" by (cases "unat cost") simp_all
  ultimately show ?thesis by (simp add: pbkdf2_T_def)
qed

lemma pbkdf2_blocks_le: "n \<le> SIZE_MAX - 15 \<Longrightarrow> n \<le> 16 * pbkdf2_blocks n"
  unfolding pbkdf2_blocks_def by (simp add: mod_less)

lemma pbkdf2_cmac_stream:
  assumes ok: "kdf_engine_ok E R V" and n: "n \<le> SIZE_MAX - 15"
    and r: "kdf_pbkdf2_cmac E ctx n s = Some (Inr out, s')"
  shows "out = prefix_of (block_stream
    (\<lambda>i. pbkdf2_T R (kd_password ctx) (kd_salt ctx) (unat (kd_cost ctx)) (Suc i)) 16) n"
proof -
  note mok = kdf_engine_okD(1) [OF ok]
  obtain key where key: "pbkdf2_cmac_key (ke_mac E) (kd_password ctx) = Inr key"
    and loop: "pbkdf2_cmac_loop (pbkdf2_cmac_block (ke_mac E) key (kd_salt ctx) (kd_cost ctx))
      (pbkdf2_blocks n) n 1 0 [] = Some (Inr out)"
    using r by (auto simp: kdf_pbkdf2_cmac_def Let_def split: if_splits prod.splits sum.splits)
  have k: "key = prf128_key R (kd_password ctx)" by (rule pbkdf2_cmac_key_value [OF mok key])
  have small: "pbkdf2_blocks n < 2 ^ 32 - 1"
    using pbkdf2_cmac_loop_wraps [OF _ loop] by (meson not_less sum.distinct(2))
  show ?thesis
  proof (rule pbkdf2_cmac_loop_stream [OF _ pbkdf2_blocks_le [OF n] small, of _ _ 0 0])
    show "pbkdf2_cmac_loop (pbkdf2_cmac_block (ke_mac E) key (kd_salt ctx) (kd_cost ctx)) (pbkdf2_blocks n) n
        (word_of_nat (Suc 0)) 0 (prefix_of (block_stream
          (\<lambda>i. pbkdf2_T R (kd_password ctx) (kd_salt ctx) (unat (kd_cost ctx)) (Suc i)) 16) 0) = Some (Inr out)"
      using loop by simp
    fix i b assume "pbkdf2_cmac_block (ke_mac E) key (kd_salt ctx) (kd_cost ctx) (word_of_nat (Suc i)) = Inr b"
    from pbkdf2_block_value [OF mok this [unfolded k]]
    show "b = pbkdf2_T R (kd_password ctx) (kd_salt ctx) (unat (kd_cost ctx)) (Suc i) \<and>
        length (pbkdf2_T R (kd_password ctx) (kd_salt ctx) (unat (kd_cost ctx)) (Suc i)) = 16"
      using pbkdf2_T_length [OF mok] by simp
  qed simp_all
qed

text \<open>The algorithm families exclude each other.\<close>

lemma kdf_alg_disjoint:
  "PSA_ALG_IS_HKDF_EXTRACT a \<Longrightarrow> \<not> PSA_ALG_IS_HKDF_EXPAND a \<and> \<not> PSA_ALG_IS_HKDF a"
  "PSA_ALG_IS_HKDF_EXPAND a \<Longrightarrow> \<not> PSA_ALG_IS_HKDF a"
  "PSA_ALG_IS_ANY_HKDF a \<longleftrightarrow> PSA_ALG_IS_HKDF a \<or> PSA_ALG_IS_HKDF_EXTRACT a \<or> PSA_ALG_IS_HKDF_EXPAND a"
  "PSA_ALG_IS_TLS12_PRF a \<Longrightarrow> \<not> PSA_ALG_IS_ANY_HKDF a"
  "PSA_ALG_IS_TLS12_PSK_TO_MS a \<Longrightarrow> \<not> PSA_ALG_IS_ANY_HKDF a \<and> \<not> PSA_ALG_IS_TLS12_PRF a"
  "PSA_ALG_IS_PBKDF2 a \<Longrightarrow> \<not> PSA_ALG_IS_ANY_HKDF a \<and> \<not> PSA_ALG_IS_TLS12_PRF a \<and> \<not> PSA_ALG_IS_TLS12_PSK_TO_MS a"
  by (auto simp: psa_defs)

lemma kdf_hkdf_stream:
  assumes ok: "kdf_engine_ok E R V" and raw: "\<not> kd_is_raw_kdf ctx"
    and r: "wolfpsa_kdf_hkdf E ctx n = Inr out"
  shows "out = prefix_of (kdf_stream R ctx) n"
proof -
  define h where "h = kdf_hash_type_from_alg (kd_alg ctx)"
  have h: "h \<noteq> WC_HASH_TYPE_NONE" using r by (auto simp: wolfpsa_kdf_hkdf_def h_def Let_def)
  note D = kdf_engine_okD [OF ok]
  show ?thesis
  proof (cases "PSA_ALG_IS_HKDF_EXTRACT (kd_alg ctx)")
    case True
    with r h obtain prk where p: "wc_HKDF_Extract E h (kd_salt ctx) (kd_secret ctx) (mac_devid (ke_mac E)) = (WC_OK, prk)"
      "out = take n prk" "n \<le> digest_size h"
      by (auto simp: wolfpsa_kdf_hkdf_def h_def [symmetric] kdf_hkdf_extract_def Let_def wc_try_Inr D(2) [OF h] split: if_splits)
    have e: "prk = kr_extract R h (kd_salt ctx) (kd_secret ctx)" "length prk = digest_size h"
      using D(3) [OF p(1)] by blast+
    show ?thesis using True raw e p(2,3) prefix_of_nth [of n prk]
      by (simp add: kdf_stream_def h_def [symmetric] Let_def)
  next
    case F: False
    show ?thesis
    proof (cases "PSA_ALG_IS_HKDF_EXPAND (kd_alg ctx)")
      case True
      with F r h have "wc_HKDF_Expand E h (kd_secret ctx) (kd_info ctx) n (mac_devid (ke_mac E)) = (WC_OK, out)"
        by (auto simp: wolfpsa_kdf_hkdf_def h_def [symmetric] kdf_hkdf_expand_def Let_def wc_try_Inr split: if_splits)
      from D(4) [OF this] show ?thesis using True F raw by (simp add: kdf_stream_def h_def [symmetric] Let_def)
    next
      case False
      with F r h obtain prk where p: "PSA_ALG_IS_HKDF (kd_alg ctx)"
        "wc_HKDF_Extract E h (kd_salt ctx) (kd_secret ctx) (mac_devid (ke_mac E)) = (WC_OK, prk)"
        "wc_HKDF_Expand E h (take (digest_size h) prk) (kd_info ctx) n (mac_devid (ke_mac E)) = (WC_OK, out)"
        by (auto simp: wolfpsa_kdf_hkdf_def h_def [symmetric] kdf_hkdf_full_def Let_def wc_try_Inr D(2) [OF h] split: if_splits)
      have e: "prk = kr_extract R h (kd_salt ctx) (kd_secret ctx)" "length prk = digest_size h"
        using D(3) [OF p(2)] by blast+
      have "take (digest_size h) prk = kr_extract R h (kd_salt ctx) (kd_secret ctx)"
        unfolding e(1) [symmetric] using e(2) by simp
      with D(4) [OF p(3)] show ?thesis using False F p(1) raw
        by (simp add: kdf_stream_def h_def [symmetric] Let_def)
    qed
  qed
qed

lemma compute_output_stream:
  assumes ok: "kdf_engine_ok E R V" and n: "n \<le> SIZE_MAX - 15"
    and raw: "kd_is_raw_kdf ctx \<Longrightarrow> n \<le> length (kd_secret ctx)"
    and r: "wolfpsa_kdf_compute_output E ctx n s = Some (Inr out, s')"
  shows "out = prefix_of (kdf_stream R ctx) n"
proof -
  note D = kdf_engine_okD [OF ok]
  let ?a = "kd_alg ctx"
  consider "kd_is_raw_kdf ctx"
    | "\<not> kd_is_raw_kdf ctx" "PSA_ALG_IS_ANY_HKDF ?a"
    | "\<not> kd_is_raw_kdf ctx" "PSA_ALG_IS_TLS12_PRF ?a"
    | "\<not> kd_is_raw_kdf ctx" "PSA_ALG_IS_TLS12_PSK_TO_MS ?a"
    | "\<not> kd_is_raw_kdf ctx" "PSA_ALG_IS_PBKDF2_HMAC ?a"
    | "\<not> kd_is_raw_kdf ctx" "?a = PSA_ALG_PBKDF2_AES_CMAC_PRF_128"
    | "\<not> kd_is_raw_kdf ctx" "PSA_ALG_IS_SP800_108_COUNTER_HMAC ?a"
    | "\<not> kd_is_raw_kdf ctx" "?a = PSA_ALG_SP800_108_COUNTER_CMAC"
    using r by (auto simp: wolfpsa_kdf_compute_output_def PSA_ALG_IS_PBKDF2_def split: if_splits)
  then show ?thesis
  proof cases
    case 1
    then show ?thesis using r raw prefix_of_nth [of n "kd_secret ctx"]
      by (simp add: wolfpsa_kdf_compute_output_def kdf_stream_def)
  next
    case 2
    then have "wolfpsa_kdf_hkdf E ctx n = Inr out" using r by (simp add: wolfpsa_kdf_compute_output_def)
    then show ?thesis by (rule kdf_hkdf_stream [OF ok 2(1)])
  next
    case 3
    then have "wc_PRF_TLS E n (kd_secret ctx) (kd_label ctx) (kd_seed ctx) (wolfpsa_prf_mac_from_alg ?a)
        (mac_devid (ke_mac E)) = (WC_OK, out)"
      using r kdf_alg_disjoint(4) [OF 3(2)]
      by (auto simp: wolfpsa_kdf_compute_output_def wolfpsa_kdf_tls12_prf_def Let_def wc_try_Inr split: if_splits)
    from D(5) [OF this] show ?thesis using 3 kdf_alg_disjoint(3,4) [of ?a]
      by (simp add: kdf_stream_def Let_def)
  next
    case 4
    then have "wc_PRF_TLS E n (psk_premaster ctx) master_secret_label (kd_seed ctx) (wolfpsa_prf_mac_from_alg ?a)
        (mac_devid (ke_mac E)) = (WC_OK, out)"
      using r kdf_alg_disjoint(5) [OF 4(2)]
      by (auto simp: wolfpsa_kdf_compute_output_def wolfpsa_kdf_tls12_psk_to_ms_def Let_def wc_try_Inr
          split: if_splits prod.splits)
    from D(5) [OF this] show ?thesis using 4 kdf_alg_disjoint(3,5) [of ?a]
      by (simp add: kdf_stream_def Let_def)
  next
    case 5
    then have p: "PSA_ALG_IS_PBKDF2 ?a" by (simp add: PSA_ALG_IS_PBKDF2_def)
    have "wc_PBKDF2 E (kd_password ctx) (kd_salt ctx) (unat (kd_cost ctx)) n (kdf_hash_type_from_alg ?a)
        (mac_devid (ke_mac E)) = (WC_OK, out)"
      using r 5 p kdf_alg_disjoint(6) [OF p]
      by (auto simp: wolfpsa_kdf_compute_output_def wolfpsa_kdf_pbkdf2_def kdf_pbkdf2_hmac_def Let_def wc_try_Inr
          split: if_splits)
    from D(6) [OF this] show ?thesis using 5 kdf_alg_disjoint(3) [of ?a] kdf_alg_disjoint(6) [OF p]
      by (simp add: kdf_stream_def Let_def)
  next
    case 6
    have "kdf_pbkdf2_cmac E ctx n s = Some (Inr out, s')"
      using r 6 by (simp add: wolfpsa_kdf_compute_output_def wolfpsa_kdf_pbkdf2_def psa_defs)
    from pbkdf2_cmac_stream [OF ok n this] show ?thesis using 6 by (simp add: kdf_stream_def psa_defs)
  next
    case 7
    then have "wolfpsa_kdf_sp800_108_hmac E ctx n = Some (Inr out)"
      using r by (simp add: wolfpsa_kdf_compute_output_def psa_defs split: if_splits)
    moreover have "?a \<noteq> PSA_ALG_PBKDF2_AES_CMAC_PRF_128" using 7(2) by (auto simp: psa_defs)
    ultimately show ?thesis using 7 sp800_hmac_stream [OF ok]
      by (simp add: kdf_stream_def Let_def psa_defs)
  next
    case 8
    have "wolfpsa_kdf_sp800_108_cmac E ctx n s = Some (Inr out, s')"
      using r 8 by (simp add: wolfpsa_kdf_compute_output_def psa_defs)
    from sp800_cmac_stream [OF ok this] show ?thesis using 8 by (simp add: kdf_stream_def psa_defs)
  qed
qed

text \<open>Every derivation returns, short of the lengths at which the PBKDF2 counter wraps around.\<close>

lemma compute_output_returns:
  assumes "kd_alg ctx = PSA_ALG_PBKDF2_AES_CMAC_PRF_128 \<Longrightarrow> pbkdf2_blocks n < 2 ^ 32 - 1"
  shows "\<exists>r s'. wolfpsa_kdf_compute_output E ctx n s = Some (r, s')"
proof -
  have pb: "\<exists>r s'. kdf_pbkdf2_cmac E ctx n s = Some (r, s')" if "kd_alg ctx = PSA_ALG_PBKDF2_AES_CMAC_PRF_128"
  proof -
    have "\<exists>r. pbkdf2_cmac_loop blk (pbkdf2_blocks n) n 1 0 [] = Some r" for blk
      using pbkdf2_cmac_loop_returns [OF assms(1) [OF that], of 0 blk n 0 "[]"] by simp
    then show ?thesis by (fastforce simp: kdf_pbkdf2_cmac_def Let_def split: prod.splits sum.splits)
  qed
  have hm: "\<exists>r. wolfpsa_kdf_sp800_108_hmac E ctx n = Some r"
    using sp800_108_loop_returns by (auto simp: wolfpsa_kdf_sp800_108_hmac_def Let_def)
  have cm: "\<exists>r s'. wolfpsa_kdf_sp800_108_cmac E ctx n s = Some (r, s')"
    using sp800_108_loop_returns [of 16]
    by (fastforce simp: wolfpsa_kdf_sp800_108_cmac_def split: prod.splits sum.splits)
  show ?thesis using pb hm cm
    by (auto simp: wolfpsa_kdf_compute_output_def wolfpsa_kdf_pbkdf2_def wolfpsa_kdf_tls12_psk_to_ms_def)
qed

end
