(* ===== verification/Kdf_Output.thy ===== *)
theory Kdf_Output
  imports Kdf_Stream
begin

text \<open>
  \<open>src/psa_key_derivation.c\<close>, third part: the output and the verification of bytes and keys, with
  the output cache, and \<open>psa_key_agreement\<close> of \<open>src/psa_asymmetric_api.c\<close>, which drives a whole
  derivation. The result of a call is \<open>None\<close> when it does not return.
\<close>

unbundle bit_operations_syntax

section \<open>Output of bytes\<close>

text \<open>The inputs that must have been given, by algorithm.\<close>

abbreviation step_missing :: "wolfpsa_kdf_ctx \<Rightarrow> u32 \<Rightarrow> bool" where
  "step_missing ctx m \<equiv> kd_steps_set ctx AND m = 0"

definition kdf_output_check :: "wolfpsa_kdf_ctx \<Rightarrow> nat \<Rightarrow> psa_status" where
  "kdf_output_check ctx n =
    (let a = kd_alg ctx in
     if kd_is_raw_kdf ctx then
       (if step_missing ctx WOLFPSA_KDF_STEP_SECRET \<or> kd_output_offset ctx > length (kd_secret ctx) \<or>
           n > length (kd_secret ctx) - kd_output_offset ctx
        then PSA_ERROR_INSUFFICIENT_DATA else PSA_SUCCESS)
     else if PSA_ALG_IS_ANY_HKDF a then
       (if PSA_ALG_IS_HKDF_EXTRACT a then
          (if step_missing ctx WOLFPSA_KDF_STEP_SALT \<or> step_missing ctx WOLFPSA_KDF_STEP_SECRET
           then PSA_ERROR_BAD_STATE else PSA_SUCCESS)
        else if step_missing ctx WOLFPSA_KDF_STEP_SECRET \<or> step_missing ctx WOLFPSA_KDF_STEP_INFO
          then PSA_ERROR_BAD_STATE else PSA_SUCCESS)
     else if PSA_ALG_IS_TLS12_PRF a then
       (if step_missing ctx WOLFPSA_KDF_STEP_SECRET \<or> step_missing ctx WOLFPSA_KDF_STEP_LABEL \<or>
           step_missing ctx WOLFPSA_KDF_STEP_SEED then PSA_ERROR_BAD_STATE else PSA_SUCCESS)
     else if PSA_ALG_IS_TLS12_PSK_TO_MS a then
       (if step_missing ctx WOLFPSA_KDF_STEP_SECRET \<or> step_missing ctx WOLFPSA_KDF_STEP_SEED
        then PSA_ERROR_BAD_STATE else PSA_SUCCESS)
     else if PSA_ALG_IS_PBKDF2 a then
       (if step_missing ctx WOLFPSA_KDF_STEP_PASSWORD \<or> step_missing ctx WOLFPSA_KDF_STEP_SALT \<or>
           step_missing ctx WOLFPSA_KDF_STEP_COST then PSA_ERROR_BAD_STATE else PSA_SUCCESS)
     else if PSA_ALG_IS_SP800_108_COUNTER_HMAC a \<or> a = PSA_ALG_SP800_108_COUNTER_CMAC then
       (if step_missing ctx WOLFPSA_KDF_STEP_SECRET then PSA_ERROR_BAD_STATE else PSA_SUCCESS)
     else PSA_SUCCESS)"

definition kdf_is_sp800 :: "wolfpsa_kdf_ctx \<Rightarrow> bool" where
  "kdf_is_sp800 ctx \<longleftrightarrow>
    \<not> kd_is_raw_kdf ctx \<and>
    (PSA_ALG_IS_SP800_108_COUNTER_HMAC (kd_alg ctx) \<or> kd_alg ctx = PSA_ALG_SP800_108_COUNTER_CMAC)"

definition kdf_snapshot_L :: "wolfpsa_kdf_ctx \<Rightarrow> wolfpsa_kdf_ctx" where
  "kdf_snapshot_L ctx =
    (if kdf_is_sp800 ctx \<and> \<not> kd_output_started ctx then ctx\<lparr>sp800_108_L_bytes := kd_capacity ctx\<rparr> else ctx)"

text \<open>
  The cache that the first call fills. The capacity has been reduced by \<open>n\<close> before, so the sum
  is the capacity at the start of the call and does not overflow.
\<close>

definition kdf_fill_cache ::
    "'c kdf_engine \<Rightarrow> wolfpsa_kdf_ctx \<Rightarrow> nat \<Rightarrow> 'st key_store \<Rightarrow>
     (psa_status \<times> wolfpsa_kdf_ctx \<times> 'st key_store) option" where
  "kdf_fill_cache E ctx n s =
    (if kd_output_cache ctx = None \<and> \<not> kd_is_raw_kdf ctx \<and>
        kd_capacity ctx \<noteq> PSA_KEY_DERIVATION_UNLIMITED_CAPACITY \<and> kd_output_offset ctx = 0 \<and>
        n + kd_capacity ctx \<le> WOLFPSA_KDF_MAX_CACHE_BYTES then
       (case s_xmalloc s of
          (ok, s1) \<Rightarrow>
            if \<not> ok then Some (PSA_ERROR_INSUFFICIENT_MEMORY, ctx, s1)
            else
              (case wolfpsa_kdf_compute_output E ctx (n + kd_capacity ctx) s1 of
                 None \<Rightarrow> None
               | Some (Inl e, s2) \<Rightarrow> Some (e, ctx, s2)
               | Some (Inr cache, s2) \<Rightarrow> Some (PSA_SUCCESS, ctx\<lparr>kd_output_cache := Some cache\<rparr>, s2)))
     else Some (PSA_SUCCESS, ctx, s))"

text \<open>From the cache, or computed: the status and the bytes that are delivered.\<close>

definition kdf_serve ::
    "'c kdf_engine \<Rightarrow> wolfpsa_kdf_ctx \<Rightarrow> nat \<Rightarrow> nat \<Rightarrow> 'st key_store \<Rightarrow>
     ((psa_status + byte list) \<times> 'st key_store) option" where
  "kdf_serve E ctx n total_output_length s =
    (case kd_output_cache ctx of
       Some cache \<Rightarrow>
         if total_output_length > length cache then Some (Inl PSA_ERROR_INSUFFICIENT_DATA, s)
         else Some (Inr (take n (drop (kd_output_offset ctx) cache)), s)
     | None \<Rightarrow>
         if kd_output_offset ctx = 0 then wolfpsa_kdf_compute_output E ctx n s
         else
           (case s_xmalloc s of
              (ok, s1) \<Rightarrow>
                if \<not> ok then Some (Inl PSA_ERROR_INSUFFICIENT_MEMORY, s1)
                else
                  (case wolfpsa_kdf_compute_output E ctx total_output_length s1 of
                     None \<Rightarrow> None
                   | Some (Inl e, s2) \<Rightarrow> Some (Inl e, s2)
                   | Some (Inr full_output, s2) \<Rightarrow>
                       Some (Inr (take n (drop (kd_output_offset ctx) full_output)), s2))))"

definition wolfpsa_kdf_output_bytes ::
    "'c kdf_engine \<Rightarrow> wolfpsa_kdf_ctx \<Rightarrow> outbuf \<Rightarrow> 'st key_store \<Rightarrow>
     (psa_status \<times> byte list \<times> wolfpsa_kdf_ctx \<times> 'st key_store) option" where
  "wolfpsa_kdf_output_bytes E ctx output s =
    (let n = out_size output in
     if out_null output then Some (PSA_ERROR_BAD_STATE, [], ctx, s)
     else if kdf_output_check ctx n \<noteq> PSA_SUCCESS then Some (kdf_output_check ctx n, [], ctx, s)
     else
       (case wolfpsa_kdf_require_output (kdf_snapshot_L ctx) n of
          (st1, ctx1) \<Rightarrow>
            if st1 \<noteq> PSA_SUCCESS then Some (st1, [], ctx1, s)
            else
              (let ctx2 = ctx1\<lparr>kd_output_started := True\<rparr>;
                   total_output_length = (kd_output_offset ctx + n) mod 2 ^ 64
               in
               if total_output_length < kd_output_offset ctx
               then Some (PSA_ERROR_INVALID_ARGUMENT, [], ctx2, s)
               else
                 (case kdf_fill_cache E ctx2 n s of
                    None \<Rightarrow> None
                  | Some (st2, ctx3, s1) \<Rightarrow>
                      if st2 \<noteq> PSA_SUCCESS then Some (st2, [], ctx3, s1)
                      else
                        (case kdf_serve E ctx3 n total_output_length s1 of
                           None \<Rightarrow> None
                         | Some (Inl e, s2) \<Rightarrow> Some (e, [], ctx3, s2)
                         | Some (Inr bs, s2) \<Rightarrow>
                             Some (PSA_SUCCESS, bs,
                                   ctx3\<lparr>kd_output_offset := kd_output_offset ctx3 + n\<rparr>, s2))))))"

definition psa_key_derivation_output_bytes ::
    "'c kdf_engine \<Rightarrow> psa_key_derivation_operation_t option \<Rightarrow> outbuf \<Rightarrow> 'st key_store \<Rightarrow>
     (psa_status \<times> byte list \<times> psa_key_derivation_operation_t option \<times> 'st key_store) option" where
  "psa_key_derivation_output_bytes E op output s =
    (case wolfpsa_kdf_get_ctx op of
       None \<Rightarrow> Some (wolfpsa_kdf_check_state None, [], op, s)
     | Some ctx \<Rightarrow>
         if wolfpsa_kdf_check_state (Some ctx) \<noteq> PSA_SUCCESS
         then Some (wolfpsa_kdf_check_state (Some ctx), [], op, s)
         else
           (case wolfpsa_kdf_output_bytes E ctx output s of
              None \<Rightarrow> None
            | Some (status, bs, ctx1, s1) \<Rightarrow>
                Some (status, bs, Some (Some (snd (wolfpsa_kdf_done ctx1 status))), s1)))"

section \<open>Output of keys\<close>

text \<open>\<open>wolfpsa_kdf_done\<close> on the operation after calls that work on the operation itself.\<close>

definition kdf_done_op ::
    "psa_key_derivation_operation_t option \<Rightarrow> psa_status \<Rightarrow> psa_key_derivation_operation_t option" where
  "kdf_done_op op status =
    (case op of Some (Some ctx) \<Rightarrow> Some (Some (snd (wolfpsa_kdf_done ctx status))) | _ \<Rightarrow> op)"

definition wolfpsa_kdf_output_key ::
    "('st, 'h) psa_env \<Rightarrow> 'c kdf_engine \<Rightarrow> psa_key_attributes_t option \<Rightarrow> wolfpsa_kdf_ctx \<Rightarrow> bool \<Rightarrow>
     'st key_store \<Rightarrow>
     (psa_status \<times> psa_key_id_t \<times> psa_key_derivation_operation_t option \<times> 'st key_store) option" where
  "wolfpsa_kdf_output_key env E attr_arg ctx id_null s =
    (let op = Some (Some ctx); fail = (\<lambda>e. Some (e, PSA_KEY_ID_NULL, op, s)) in
     case attr_arg of
       None \<Rightarrow> fail PSA_ERROR_INVALID_ARGUMENT
     | Some attr \<Rightarrow>
         (let key_len = PSA_BITS_TO_BYTES (unat (bits attr)) in
          if id_null then fail PSA_ERROR_INVALID_ARGUMENT
          else if key_len = 0 then fail PSA_ERROR_INVALID_ARGUMENT
          else if \<not> kd_can_output_key ctx then fail PSA_ERROR_NOT_PERMITTED
          else if \<not> PSA_KEY_TYPE_IS_UNSTRUCTURED (type attr) then fail PSA_ERROR_INVALID_ARGUMENT
          else
            (case s_xmalloc s of
               (ok, s1) \<Rightarrow>
                 if \<not> ok then Some (PSA_ERROR_INSUFFICIENT_MEMORY, PSA_KEY_ID_NULL, op, s1)
                 else
                   (case psa_key_derivation_output_bytes E op (Out key_len) s1 of
                      None \<Rightarrow> None
                    | Some (status, bs, op1, s2) \<Rightarrow>
                        if status \<noteq> PSA_SUCCESS then Some (status, PSA_KEY_ID_NULL, op1, s2)
                        else
                          (case psa_import_key env (Some attr) (In bs) False s2 of
                             (ist, kid, s3) \<Rightarrow> Some (ist, kid, op1, s3))))))"

definition psa_key_derivation_output_key ::
    "('st, 'h) psa_env \<Rightarrow> 'c kdf_engine \<Rightarrow> psa_key_attributes_t option \<Rightarrow>
     psa_key_derivation_operation_t option \<Rightarrow> bool \<Rightarrow> 'st key_store \<Rightarrow>
     (psa_status \<times> psa_key_id_t \<times> psa_key_derivation_operation_t option \<times> 'st key_store) option" where
  "psa_key_derivation_output_key env E attr_arg op id_null s =
    (case wolfpsa_kdf_get_ctx op of
       None \<Rightarrow> Some (wolfpsa_kdf_check_state None, PSA_KEY_ID_NULL, op, s)
     | Some ctx \<Rightarrow>
         if wolfpsa_kdf_check_state (Some ctx) \<noteq> PSA_SUCCESS
         then Some (wolfpsa_kdf_check_state (Some ctx), PSA_KEY_ID_NULL, op, s)
         else
           (case wolfpsa_kdf_output_key env E attr_arg ctx id_null s of
              None \<Rightarrow> None
            | Some (status, kid, op1, s1) \<Rightarrow> Some (status, kid, kdf_done_op op1 status, s1)))"

section \<open>Verification\<close>

definition wolfpsa_kdf_verify_bytes ::
    "'c kdf_engine \<Rightarrow> wolfpsa_kdf_ctx \<Rightarrow> inbuf \<Rightarrow> 'st key_store \<Rightarrow>
     (psa_status \<times> psa_key_derivation_operation_t option \<times> 'st key_store) option" where
  "wolfpsa_kdf_verify_bytes E ctx expected s =
    (let op = Some (Some ctx) in
     if in_null expected then Some (PSA_ERROR_INVALID_ARGUMENT, op, s)
     else if in_length expected > INT_MAX then Some (PSA_ERROR_INVALID_ARGUMENT, op, s)
     else if in_length expected = 0 then
       (case psa_key_derivation_output_bytes E op (Out 0) s of
          None \<Rightarrow> None | Some (status, bs, op1, s1) \<Rightarrow> Some (status, op1, s1))
     else
       (case s_xmalloc s of
          (ok, s1) \<Rightarrow>
            if \<not> ok then Some (PSA_ERROR_INSUFFICIENT_MEMORY, op, s1)
            else
              (case psa_key_derivation_output_bytes E op (Out (in_length expected)) s1 of
                 None \<Rightarrow> None
               | Some (status, bs, op1, s2) \<Rightarrow>
                   if status \<noteq> PSA_SUCCESS then Some (status, op1, s2)
                   else if bs \<noteq> in_bytes expected then Some (PSA_ERROR_INVALID_SIGNATURE, op1, s2)
                   else Some (PSA_SUCCESS, op1, s2))))"

definition psa_key_derivation_verify_bytes ::
    "'c kdf_engine \<Rightarrow> psa_key_derivation_operation_t option \<Rightarrow> inbuf \<Rightarrow> 'st key_store \<Rightarrow>
     (psa_status \<times> psa_key_derivation_operation_t option \<times> 'st key_store) option" where
  "psa_key_derivation_verify_bytes E op expected s =
    (case wolfpsa_kdf_get_ctx op of
       None \<Rightarrow> Some (wolfpsa_kdf_check_state None, op, s)
     | Some ctx \<Rightarrow>
         if wolfpsa_kdf_check_state (Some ctx) \<noteq> PSA_SUCCESS
         then Some (wolfpsa_kdf_check_state (Some ctx), op, s)
         else
           (case wolfpsa_kdf_verify_bytes E ctx expected s of
              None \<Rightarrow> None
            | Some (status, op1, s1) \<Rightarrow> Some (status, kdf_done_op op1 status, s1)))"

text \<open>The data of the expected key is loaded with a NULL attributes pointer, after the attributes.\<close>

definition wolfpsa_kdf_verify_key ::
    "('st, 'h) psa_env \<Rightarrow> 'c kdf_engine \<Rightarrow> wolfpsa_kdf_ctx \<Rightarrow> psa_key_id_t \<Rightarrow> 'st key_store \<Rightarrow>
     (psa_status \<times> psa_key_derivation_operation_t option \<times> 'st key_store) option" where
  "wolfpsa_kdf_verify_key env E ctx expected s =
    (let op = Some (Some ctx) in
     case psa_get_key_attributes env expected False s of
       (ast, attrs, s1) \<Rightarrow>
         if ast \<noteq> PSA_SUCCESS then Some (ast, op, s1)
         else if psa_get_key_usage_flags attrs AND PSA_KEY_USAGE_VERIFY_DERIVATION = 0
           then Some (PSA_ERROR_NOT_PERMITTED, op, s1)
         else if PSA_ALG_IS_PBKDF2 (kd_alg ctx) \<and> type attrs \<noteq> PSA_KEY_TYPE_PASSWORD_HASH
           then Some (PSA_ERROR_INVALID_ARGUMENT, op, s1)
         else if \<not> PSA_ALG_IS_PBKDF2 (kd_alg ctx) \<and> type attrs \<noteq> PSA_KEY_TYPE_RAW_DATA
           then Some (PSA_ERROR_INVALID_ARGUMENT, op, s1)
         else
           (case load_key env expected s1 of
              (Inl status, s2) \<Rightarrow> Some (status, op, s2)
            | (Inr (a, d), s2) \<Rightarrow> psa_key_derivation_verify_bytes E op (In d) s2))"

definition psa_key_derivation_verify_key ::
    "('st, 'h) psa_env \<Rightarrow> 'c kdf_engine \<Rightarrow> psa_key_derivation_operation_t option \<Rightarrow> psa_key_id_t \<Rightarrow>
     'st key_store \<Rightarrow> (psa_status \<times> psa_key_derivation_operation_t option \<times> 'st key_store) option" where
  "psa_key_derivation_verify_key env E op expected s =
    (case wolfpsa_kdf_get_ctx op of
       None \<Rightarrow> Some (wolfpsa_kdf_check_state None, op, s)
     | Some ctx \<Rightarrow>
         if wolfpsa_kdf_check_state (Some ctx) \<noteq> PSA_SUCCESS
         then Some (wolfpsa_kdf_check_state (Some ctx), op, s)
         else
           (case wolfpsa_kdf_verify_key env E ctx expected s of
              None \<Rightarrow> None
            | Some (status, op1, s1) \<Rightarrow> Some (status, kdf_done_op op1 status, s1)))"

section \<open>Key agreement with a derivation\<close>

text \<open>The calls up to the output, on a fresh operation.\<close>

definition agreement_kdf_inputs ::
    "('st, 'h) psa_env \<Rightarrow> 'c kdf_engine \<Rightarrow> ('e, 'm) ecdh_engine \<Rightarrow> psa_key_id_t \<Rightarrow> inbuf \<Rightarrow> psa_algorithm_t \<Rightarrow>
     'st key_store \<Rightarrow> psa_status \<times> psa_key_derivation_operation_t option \<times> 'st key_store" where
  "agreement_kdf_inputs env E X private_key peer_key a s =
    (let kdf_alg = PSA_ALG_KEY_AGREEMENT_GET_KDF a;
         step = (\<lambda>(status, op, s) f. if status = PSA_SUCCESS then f op s else (status, op, s));
         r1 = psa_key_derivation_setup E (Some None) a s;
         r2 = step r1 (\<lambda>op s.
                if PSA_ALG_IS_HKDF kdf_alg \<or> PSA_ALG_IS_HKDF_EXTRACT kdf_alg
                then psa_key_derivation_input_bytes E op PSA_KEY_DERIVATION_INPUT_SALT (NullIn 0) s
                else (PSA_SUCCESS, op, s));
         r3 = step r2 (\<lambda>op s.
                psa_key_derivation_key_agreement env E X op PSA_KEY_DERIVATION_INPUT_SECRET private_key
                  peer_key s)
     in step r3 (\<lambda>op s.
          if PSA_ALG_IS_HKDF kdf_alg \<or> PSA_ALG_IS_HKDF_EXPAND kdf_alg
          then psa_key_derivation_input_bytes E op PSA_KEY_DERIVATION_INPUT_INFO (NullIn 0) s
          else (PSA_SUCCESS, op, s)))"

definition wolfpsa_key_agreement_kdf ::
    "('st, 'h) psa_env \<Rightarrow> 'c kdf_engine \<Rightarrow> ('e, 'm) ecdh_engine \<Rightarrow> psa_key_id_t \<Rightarrow> inbuf \<Rightarrow> psa_algorithm_t \<Rightarrow>
     psa_key_attributes_t \<Rightarrow> 'st key_store \<Rightarrow> (psa_status \<times> psa_key_id_t \<times> 'st key_store) option" where
  "wolfpsa_key_agreement_kdf env E X private_key peer_key a attr s =
    (case agreement_kdf_inputs env E X private_key peer_key a s of
       (status, op, s1) \<Rightarrow>
         if status \<noteq> PSA_SUCCESS then Some (status, PSA_KEY_ID_NULL, s1)
         else
           (case psa_key_derivation_output_key env E (Some attr) op False s1 of
              None \<Rightarrow> None
            | Some (status2, kid, op2, s2) \<Rightarrow> Some (status2, kid, s2)))"

definition psa_key_agreement ::
    "('st, 'h) psa_env \<Rightarrow> 'c kdf_engine \<Rightarrow> ('e, 'm) ecdh_engine \<Rightarrow> psa_key_id_t \<Rightarrow> inbuf \<Rightarrow> psa_algorithm_t \<Rightarrow>
     psa_key_attributes_t option \<Rightarrow> bool \<Rightarrow> 'st key_store \<Rightarrow>
     (psa_status \<times> psa_key_id_t \<times> 'st key_store) option" where
  "psa_key_agreement env E X private_key peer_key a attr_arg id_null s =
    (let fail = (\<lambda>e. Some (e, PSA_KEY_ID_NULL, s)) in
     case attr_arg of
       None \<Rightarrow> fail PSA_ERROR_INVALID_ARGUMENT
     | Some attr \<Rightarrow>
         if id_null then fail PSA_ERROR_INVALID_ARGUMENT
         else if \<not> PSA_ALG_IS_KEY_AGREEMENT a then fail PSA_ERROR_NOT_SUPPORTED
         else if \<not> PSA_ALG_IS_RAW_KEY_AGREEMENT a
           then wolfpsa_key_agreement_kdf env E X private_key peer_key a attr s
         else if type attr \<noteq> PSA_KEY_TYPE_DERIVE \<and> type attr \<noteq> PSA_KEY_TYPE_RAW_DATA \<and>
                 type attr \<noteq> PSA_KEY_TYPE_HMAC \<and> type attr \<noteq> PSA_KEY_TYPE_PASSWORD
           then fail PSA_ERROR_INVALID_ARGUMENT
         else
           (case psa_get_key_attributes env private_key False s of
              (ast, priv_attr, s1) \<Rightarrow>
                (let secret_len = PSA_RAW_KEY_AGREEMENT_OUTPUT_SIZE (type priv_attr) (unat (bits priv_attr)) in
                 if ast \<noteq> PSA_SUCCESS then Some (ast, PSA_KEY_ID_NULL, s1)
                 else if secret_len = 0 then Some (PSA_ERROR_NOT_SUPPORTED, PSA_KEY_ID_NULL, s1)
                 else
                   (case s_xmalloc s1 of
                      (ok, s2) \<Rightarrow>
                        if \<not> ok then Some (PSA_ERROR_INSUFFICIENT_MEMORY, PSA_KEY_ID_NULL, s2)
                        else
                          (case wolfpsa_key_agreement_secret env X a private_key peer_key (Out secret_len) s2 of
                             (Inl status, s3) \<Rightarrow> Some (status, PSA_KEY_ID_NULL, s3)
                           | (Inr secret, s3) \<Rightarrow>
                               Some (psa_import_key env (Some attr) (In secret) False s3))))))"

end
