(* ===== verification/Kdf_Machine.thy ===== *)
theory Kdf_Machine
  imports Kdf_Output
begin

text \<open>
  The key-derivation operation as a state machine: one constructor of \<open>kdf_call\<close> per entry
  point that works on the operation (\<open>psa_key_derivation_get_capacity\<close> only reads it, also after an
  error, and is not among them), \<open>kdf_exec\<close> runs one call and \<open>kdf_run\<close> a sequence of them, recording what each call
  returned. The lemmas say what one call does to the context of an active operation: a read
  (\<open>output_bytes_read\<close>) delivers bytes of the stream of the context, an input changes nothing on
  the output side and nothing at all once output has begun (\<open>kdf_output_same\<close>), and every call
  keeps the relation \<open>kdf_mono\<close>.
\<close>

unbundle bit_operations_syntax

section \<open>Calls and runs\<close>

datatype kdf_call =
    Kd_Setup psa_algorithm_t
  | Kd_Abort
  | Kd_SetCapacity nat
  | Kd_InputBytes psa_key_derivation_step_t inbuf
  | Kd_InputInteger psa_key_derivation_step_t u64
  | Kd_InputKey psa_key_derivation_step_t psa_key_id_t
  | Kd_KeyAgreement psa_key_derivation_step_t psa_key_id_t inbuf
  | Kd_OutputBytes outbuf
  | Kd_OutputKey "psa_key_attributes_t option" bool
  | Kd_VerifyBytes inbuf
  | Kd_VerifyKey psa_key_id_t

text \<open>The status, the bytes delivered to the caller, the operation and the key store.\<close>

fun kdf_exec ::
    "('st, 'h) psa_env \<Rightarrow> 'c kdf_engine \<Rightarrow> ('e, 'm) ecdh_engine \<Rightarrow> kdf_call \<Rightarrow>
     psa_key_derivation_operation_t option \<Rightarrow> 'st key_store \<Rightarrow>
     (psa_status \<times> byte list \<times> psa_key_derivation_operation_t option \<times> 'st key_store) option" where
  "kdf_exec env E X (Kd_Setup a) op s =
    (case psa_key_derivation_setup E op a s of (st, op', s') \<Rightarrow> Some (st, [], op', s'))"
| "kdf_exec env E X Kd_Abort op s =
    (case psa_key_derivation_abort op of (st, op') \<Rightarrow> Some (st, [], op', s))"
| "kdf_exec env E X (Kd_SetCapacity n) op s =
    (case psa_key_derivation_set_capacity E op n of (st, op') \<Rightarrow> Some (st, [], op', s))"
| "kdf_exec env E X (Kd_InputBytes stp d) op s =
    (case psa_key_derivation_input_bytes E op stp d s of (st, op', s') \<Rightarrow> Some (st, [], op', s'))"
| "kdf_exec env E X (Kd_InputInteger stp v) op s =
    (case psa_key_derivation_input_integer op stp v s of (st, op', s') \<Rightarrow> Some (st, [], op', s'))"
| "kdf_exec env E X (Kd_InputKey stp k) op s =
    (case psa_key_derivation_input_key env E op stp k s of (st, op', s') \<Rightarrow> Some (st, [], op', s'))"
| "kdf_exec env E X (Kd_KeyAgreement stp k peer) op s =
    (case psa_key_derivation_key_agreement env E X op stp k peer s of (st, op', s') \<Rightarrow> Some (st, [], op', s'))"
| "kdf_exec env E X (Kd_OutputBytes output) op s = psa_key_derivation_output_bytes E op output s"
| "kdf_exec env E X (Kd_OutputKey attr id_null) op s =
    map_option (\<lambda>(st, kid, op', s'). (st, [], op', s')) (psa_key_derivation_output_key env E attr op id_null s)"
| "kdf_exec env E X (Kd_VerifyBytes expected) op s =
    map_option (\<lambda>(st, op', s'). (st, [], op', s')) (psa_key_derivation_verify_bytes E op expected s)"
| "kdf_exec env E X (Kd_VerifyKey k) op s =
    map_option (\<lambda>(st, op', s'). (st, [], op', s')) (psa_key_derivation_verify_key env E op k s)"

text \<open>The record of a call: the state in which it was made, and what it returned.\<close>

record 'st kdf_event =
  ev_call :: kdf_call
  ev_op :: "psa_key_derivation_operation_t option"
  ev_keys :: "'st key_store"
  ev_status :: psa_status
  ev_bytes :: "byte list"

fun kdf_run ::
    "('st, 'h) psa_env \<Rightarrow> 'c kdf_engine \<Rightarrow> ('e, 'm) ecdh_engine \<Rightarrow> kdf_call list \<Rightarrow>
     psa_key_derivation_operation_t option \<Rightarrow> 'st key_store \<Rightarrow>
     ('st kdf_event list \<times> psa_key_derivation_operation_t option \<times> 'st key_store) option" where
  "kdf_run env E X [] op s = Some ([], op, s)"
| "kdf_run env E X (c # cs) op s =
    (case kdf_exec env E X c op s of
       None \<Rightarrow> None
     | Some (st, bs, op1, s1) \<Rightarrow>
         (case kdf_run env E X cs op1 s1 of
            None \<Rightarrow> None
          | Some (evs, op2, s2) \<Rightarrow>
              Some (\<lparr>ev_call = c, ev_op = op, ev_keys = s, ev_status = st, ev_bytes = bs\<rparr> # evs, op2, s2)))"

lemma kdf_run_Cons:
  assumes "kdf_run env E X (c # cs) op s = Some (evs, op2, s2)"
  obtains st bs op1 s1 evs' where "kdf_exec env E X c op s = Some (st, bs, op1, s1)"
    and "kdf_run env E X cs op1 s1 = Some (evs', op2, s2)"
    and "evs = \<lparr>ev_call = c, ev_op = op, ev_keys = s, ev_status = st, ev_bytes = bs\<rparr> # evs'"
  using assms by (auto split: option.splits)

text \<open>How many bytes a call asks for.\<close>

fun kdf_request :: "kdf_call \<Rightarrow> nat" where
  "kdf_request (Kd_OutputBytes output) = out_size output"
| "kdf_request (Kd_OutputKey (Some attr) id_null) = PSA_BITS_TO_BYTES (unat (bits attr))"
| "kdf_request (Kd_VerifyBytes expected) = in_length expected"
| "kdf_request (Kd_VerifyKey k) = INT_MAX"
| "kdf_request _ = 0"

section \<open>Steps of the context\<close>

text \<open>
  A context between calls: nothing was delivered before output began, and a cache holds the
  first bytes of the stream, as many as can still be asked for.
\<close>

definition kdf_good :: "kdf_ref \<Rightarrow> wolfpsa_kdf_ctx \<Rightarrow> bool" where
  "kdf_good R ctx \<longleftrightarrow>
    (\<not> kd_output_started ctx \<longrightarrow> kd_output_offset ctx = 0 \<and> kd_output_cache ctx = None) \<and>
    (\<forall>c. kd_output_cache ctx = Some c \<longrightarrow>
       c = prefix_of (kdf_stream R ctx) (length c) \<and> kd_capacity ctx \<noteq> SIZE_MAX \<and>
       kd_output_offset ctx + kd_capacity ctx \<le> length c)"

lemma kdf_stream_cong:
  "kdf_stream R (ctx\<lparr>kd_capacity := a1\<rparr>) = kdf_stream R ctx"
  "kdf_stream R (ctx\<lparr>kd_output_offset := a2\<rparr>) = kdf_stream R ctx"
  "kdf_stream R (ctx\<lparr>kd_output_started := a3\<rparr>) = kdf_stream R ctx"
  "kdf_stream R (ctx\<lparr>kd_output_cache := a4\<rparr>) = kdf_stream R ctx"
  "kdf_stream R (ctx\<lparr>kd_error_state := a5\<rparr>) = kdf_stream R ctx"
  "kdf_stream R (ctx\<lparr>kd_can_output_key := a6\<rparr>) = kdf_stream R ctx"
  by (simp_all add: kdf_stream_def sp800_hmac_K_def sp800_cmac_K_def sp800_cmac_K0_def sp800_L_buf_def
      psk_premaster_def Let_def)

declare kdf_stream_cong [simp]

text \<open>The outcome of reserving \<open>n\<close> bytes of the capacity.\<close>

lemma require_output_cases:
  assumes "wolfpsa_kdf_require_output ctx n = (st, ctx')"
  shows "st = PSA_SUCCESS \<and> kd_capacity ctx = SIZE_MAX \<and> ctx' = ctx \<or>
    st = PSA_SUCCESS \<and> kd_capacity ctx \<noteq> SIZE_MAX \<and> n \<le> kd_capacity ctx \<and>
      ctx' = ctx\<lparr>kd_capacity := kd_capacity ctx - n\<rparr> \<or>
    st = PSA_ERROR_INSUFFICIENT_DATA \<and> kd_capacity ctx \<noteq> SIZE_MAX \<and> kd_capacity ctx < n \<and>
      ctx' = ctx\<lparr>kd_capacity := 0\<rparr>"
  using assms by (auto simp: wolfpsa_kdf_require_output_def split: if_splits)

lemma fill_cache_cases:
  assumes ok: "kdf_engine_ok E R V" and f: "kdf_fill_cache E ctx n s = Some (st, ctx', s')"
  shows "ctx' = ctx \<or>
    (\<exists>c. kd_output_cache ctx = None \<and> kd_output_offset ctx = 0 \<and> st = PSA_SUCCESS \<and>
       ctx' = ctx\<lparr>kd_output_cache := Some c\<rparr> \<and> c = prefix_of (kdf_stream R ctx) (length c) \<and>
       length c = n + kd_capacity ctx \<and> kd_capacity ctx \<noteq> SIZE_MAX)"
proof (cases "ctx' = ctx")
  case False
  with f obtain c s1 where c: "kd_output_cache ctx = None" "\<not> kd_is_raw_kdf ctx" "kd_output_offset ctx = 0"
      "kd_capacity ctx \<noteq> SIZE_MAX" "n + kd_capacity ctx \<le> 65536" "st = PSA_SUCCESS" "ctx' = ctx\<lparr>kd_output_cache := Some c\<rparr>"
      "wolfpsa_kdf_compute_output E ctx (n + kd_capacity ctx) s1 = Some (Inr c, s')"
    by (auto simp: kdf_fill_cache_def split: if_splits option.splits prod.splits sum.splits)
  have "c = prefix_of (kdf_stream R ctx) (n + kd_capacity ctx)"
    by (rule compute_output_stream [OF ok _ _ c(8)]) (use c(2,5) in simp_all)
  then have "length c = n + kd_capacity ctx" and "c = prefix_of (kdf_stream R ctx) (length c)" by simp_all
  then show ?thesis using c by blast
qed simp

lemma take_drop_prefix_of:
  "k + n \<le> m \<Longrightarrow> take n (drop k (prefix_of f m)) = map f [k..<k + n]"
  by (simp add: drop_map take_map take_upt)

lemma serve_stream:
  assumes ok: "kdf_engine_ok E R V" and sv: "kdf_serve E ctx n (kd_output_offset ctx + n) s = Some (Inr bs, s')"
    and cache: "\<And>c. kd_output_cache ctx = Some c \<Longrightarrow> c = prefix_of (kdf_stream R ctx) (length c)"
    and raw: "kd_is_raw_kdf ctx \<Longrightarrow> kd_output_offset ctx + n \<le> length (kd_secret ctx)"
    and small: "kd_output_offset ctx + n \<le> SIZE_MAX - 15"
  shows "bs = map (kdf_stream R ctx) [kd_output_offset ctx..<kd_output_offset ctx + n]"
proof (cases "kd_output_cache ctx")
  case (Some c)
  then have "kd_output_offset ctx + n \<le> length c" "bs = take n (drop (kd_output_offset ctx) c)"
    using sv by (auto simp: kdf_serve_def split: if_splits)
  then show ?thesis using cache [OF Some] take_drop_prefix_of by metis
next
  case None
  show ?thesis
  proof (cases "kd_output_offset ctx = 0")
    case True
    then have "wolfpsa_kdf_compute_output E ctx n s = Some (Inr bs, s')" using None sv by (simp add: kdf_serve_def)
    from compute_output_stream [OF ok _ _ this] show ?thesis using True raw small by simp
  next
    case False
    then obtain s1 full where "wolfpsa_kdf_compute_output E ctx (kd_output_offset ctx + n) s1 = Some (Inr full, s')"
      "bs = take n (drop (kd_output_offset ctx) full)"
      using None sv by (auto simp: kdf_serve_def split: if_splits option.splits prod.splits sum.splits)
    with compute_output_stream [OF ok small raw this(1)] show ?thesis
      by (simp add: drop_map)
  qed
qed

text \<open>The fields that define the stream, and that only inputs change.\<close>

definition kdf_inputs_same :: "wolfpsa_kdf_ctx \<Rightarrow> wolfpsa_kdf_ctx \<Rightarrow> bool" where
  "kdf_inputs_same ctx ctx' \<longleftrightarrow>
    kd_alg ctx' = kd_alg ctx \<and> kd_ka_alg ctx' = kd_ka_alg ctx \<and> kd_steps_set ctx' = kd_steps_set ctx \<and>
    kd_secret ctx' = kd_secret ctx \<and> kd_other_secret ctx' = kd_other_secret ctx \<and> kd_salt ctx' = kd_salt ctx \<and>
    kd_info ctx' = kd_info ctx \<and> kd_label ctx' = kd_label ctx \<and> kd_context ctx' = kd_context ctx \<and>
    kd_seed ctx' = kd_seed ctx \<and> kd_password ctx' = kd_password ctx \<and> kd_cost ctx' = kd_cost ctx \<and>
    kd_is_key_agreement ctx' = kd_is_key_agreement ctx \<and> kd_is_raw_kdf ctx' = kd_is_raw_kdf ctx \<and>
    kd_can_output_key ctx' = kd_can_output_key ctx"

lemma kdf_inputs_same_refl [simp]: "kdf_inputs_same ctx ctx"
  by (simp add: kdf_inputs_same_def)

lemma kdf_inputs_same_trans: "kdf_inputs_same a b \<Longrightarrow> kdf_inputs_same b c \<Longrightarrow> kdf_inputs_same a c"
  by (simp add: kdf_inputs_same_def)

lemma kdf_inputs_same_upd [simp]:
  "kdf_inputs_same ctx (ctx'\<lparr>kd_capacity := a1\<rparr>) = kdf_inputs_same ctx ctx'"
  "kdf_inputs_same ctx (ctx'\<lparr>kd_output_offset := a2\<rparr>) = kdf_inputs_same ctx ctx'"
  "kdf_inputs_same ctx (ctx'\<lparr>kd_output_started := a3\<rparr>) = kdf_inputs_same ctx ctx'"
  "kdf_inputs_same ctx (ctx'\<lparr>kd_output_cache := a4\<rparr>) = kdf_inputs_same ctx ctx'"
  "kdf_inputs_same ctx (ctx'\<lparr>kd_error_state := a5\<rparr>) = kdf_inputs_same ctx ctx'"
  "kdf_inputs_same ctx (ctx'\<lparr>sp800_108_L_bytes := a6\<rparr>) = kdf_inputs_same ctx ctx'"
  by (simp_all add: kdf_inputs_same_def)

lemma kdf_inputs_sameD:
  assumes "kdf_inputs_same ctx ctx'"
  shows "kd_alg ctx' = kd_alg ctx" "kd_can_output_key ctx' = kd_can_output_key ctx"
    "kd_is_key_agreement ctx' = kd_is_key_agreement ctx" "kd_ka_alg ctx' = kd_ka_alg ctx"
    "kd_is_raw_kdf ctx' = kd_is_raw_kdf ctx" "kd_secret ctx' = kd_secret ctx" "kd_steps_set ctx' = kd_steps_set ctx"
  using assms by (simp_all add: kdf_inputs_same_def)

lemma kdf_stream_same:
  assumes "kdf_inputs_same ctx ctx'" and "sp800_108_L_bytes ctx' = sp800_108_L_bytes ctx"
  shows "kdf_stream R ctx' = kdf_stream R ctx"
  using assms
  by (simp add: kdf_inputs_same_def kdf_stream_def sp800_hmac_K_def sp800_cmac_K_def sp800_cmac_K0_def
      sp800_L_buf_def psk_premaster_def Let_def)

text \<open>
  A read of \<open>n\<close> bytes: what it does to the context whether it succeeds or not, and what it
  delivers when it succeeds.
\<close>

definition kdf_read :: "kdf_ref \<Rightarrow> nat \<Rightarrow> wolfpsa_kdf_ctx \<Rightarrow> wolfpsa_kdf_ctx \<Rightarrow> bool \<Rightarrow> byte list \<Rightarrow> bool" where
  "kdf_read R n ctx ctx' succ bs \<longleftrightarrow>
    kdf_inputs_same ctx ctx' \<and>
    (kd_output_started ctx \<longrightarrow> kd_output_started ctx' \<and> sp800_108_L_bytes ctx' = sp800_108_L_bytes ctx) \<and>
    kd_capacity ctx' \<le> kd_capacity ctx \<and>
    (kd_capacity ctx \<noteq> SIZE_MAX \<longrightarrow> kd_capacity ctx' \<noteq> SIZE_MAX \<and>
       kd_output_offset ctx' + kd_capacity ctx' \<le> kd_output_offset ctx + kd_capacity ctx) \<and>
    (if succ
     then kd_output_started ctx' \<and> kd_output_offset ctx' = kd_output_offset ctx + n \<and>
       bs = map (kdf_stream R ctx') [kd_output_offset ctx..<kd_output_offset ctx + n]
     else kd_output_offset ctx' = kd_output_offset ctx \<and> bs = [])"

lemma output_check_raw:
  assumes "kdf_output_check ctx n = PSA_SUCCESS" and "kd_is_raw_kdf ctx"
  shows "kd_output_offset ctx + n \<le> length (kd_secret ctx)"
  using assms by (auto simp: kdf_output_check_def Let_def split: if_splits)

text \<open>The context after the snapshot and the reservation.\<close>

lemma output_reserve:
  assumes r: "wolfpsa_kdf_require_output (kdf_snapshot_L ctx) n = (st, ctx1)" and cap: "kd_capacity ctx \<le> SIZE_MAX"
  shows "kdf_inputs_same ctx ctx1 \<and> kd_output_offset ctx1 = kd_output_offset ctx \<and>
    kd_output_cache ctx1 = kd_output_cache ctx \<and> kd_output_started ctx1 = kd_output_started ctx \<and>
    kd_error_state ctx1 = kd_error_state ctx \<and>
    (kd_output_started ctx \<longrightarrow> sp800_108_L_bytes ctx1 = sp800_108_L_bytes ctx) \<and>
    (if kd_capacity ctx = SIZE_MAX then st = PSA_SUCCESS \<and> kd_capacity ctx1 = SIZE_MAX
     else if n \<le> kd_capacity ctx then st = PSA_SUCCESS \<and> kd_capacity ctx1 = kd_capacity ctx - n
     else st = PSA_ERROR_INSUFFICIENT_DATA \<and> kd_capacity ctx1 = 0)"
  using r
  by (auto simp: wolfpsa_kdf_require_output_def kdf_snapshot_L_def split: if_splits)

section \<open>Failures carry an error\<close>

lemma kdf_cmac_Inl [simp]: "kdf_cmac M key parts \<noteq> Inl PSA_SUCCESS"
  by (auto simp: kdf_cmac_def split: prod.splits)

lemma kdf_hmac_Inl [simp]: "kdf_hmac M h key parts \<noteq> Inl PSA_SUCCESS"
  by (auto simp: kdf_hmac_def split: prod.splits)

lemma sp800_108_loop_Inl:
  assumes "\<And>c. blk c \<noteq> Inl PSA_SUCCESS"
  shows "sp800_108_loop blk len n c off out \<noteq> Some (Inl PSA_SUCCESS)"
proof
  assume l: "sp800_108_loop blk len n c off out = Some (Inl PSA_SUCCESS)"
  have "(\<forall>c. blk c \<noteq> Inl PSA_SUCCESS) \<longrightarrow> Inl PSA_SUCCESS \<noteq> (Inl PSA_SUCCESS :: psa_status + byte list)"
    by (rule sp800_108_loop.raw_induct
        [where P = "\<lambda>blk _ _ _ _ _ r. (\<forall>c. blk c \<noteq> Inl PSA_SUCCESS) \<longrightarrow> r \<noteq> Inl PSA_SUCCESS", OF _ l])
      (auto simp: Let_def split: if_splits sum.splits)
  with assms show False by simp
qed

lemma pbkdf2_cmac_loop_Inl:
  assumes "\<And>c. blk c \<noteq> Inl e" and l: "pbkdf2_cmac_loop blk blocks n i off out = Some r"
  shows "r \<noteq> Inl e"
proof -
  have "(\<forall>c. blk c \<noteq> Inl e) \<longrightarrow> r \<noteq> Inl e"
    by (rule pbkdf2_cmac_loop.raw_induct
        [where P = "\<lambda>blk _ _ _ _ _ r. (\<forall>c. blk c \<noteq> Inl e) \<longrightarrow> r \<noteq> Inl e", OF _ l])
      (auto split: if_splits sum.splits)
  with assms(1) show ?thesis by simp
qed

lemma pbkdf2_rounds_Inl: "pbkdf2_cmac_rounds M key n u t \<noteq> Inl PSA_SUCCESS"
  by (induction n arbitrary: u t) (auto split: sum.splits)

lemma compute_output_Inl:
  fixes E :: "'c kdf_engine"
  shows "wolfpsa_kdf_compute_output E ctx n s \<noteq> Some (Inl PSA_SUCCESS, s')"
proof
  assume c: "wolfpsa_kdf_compute_output E ctx n s = Some (Inl PSA_SUCCESS, s')"
  have b1: "pbkdf2_cmac_block M key salt cost i \<noteq> Inl PSA_SUCCESS" for M :: "'c mac_engine" and key salt cost i
    by (auto simp: pbkdf2_cmac_block_def pbkdf2_rounds_Inl split: sum.splits)
  have b2: "sp800_108_hmac_block M h ctx i \<noteq> Inl PSA_SUCCESS" for M :: "'c mac_engine" and h i
    by (simp add: sp800_108_hmac_block_def)
  have b3: "sp800_108_cmac_block M ctx k i \<noteq> Inl PSA_SUCCESS" for M :: "'c mac_engine" and k i
    by (simp add: sp800_108_cmac_block_def)
  have k: "pbkdf2_cmac_key M pw \<noteq> Inl PSA_SUCCESS" "sp800_108_cmac_k0 M ctx \<noteq> Inl PSA_SUCCESS"
    for M :: "'c mac_engine" and pw
    by (simp_all add: pbkdf2_cmac_key_def sp800_108_cmac_k0_def)
  have h1: "wolfpsa_kdf_hkdf E ctx n \<noteq> Inl PSA_SUCCESS"
    by (auto simp: wolfpsa_kdf_hkdf_def kdf_hkdf_extract_def kdf_hkdf_expand_def kdf_hkdf_full_def Let_def
        intro!: wc_try_Inl)
  have h2: "wolfpsa_kdf_tls12_prf E ctx n \<noteq> Inl PSA_SUCCESS" "kdf_pbkdf2_hmac E ctx n \<noteq> Inl PSA_SUCCESS"
    by (auto simp: wolfpsa_kdf_tls12_prf_def kdf_pbkdf2_hmac_def Let_def wc_try_Inl)
  have h3: "wolfpsa_kdf_tls12_psk_to_ms E ctx n s \<noteq> (Inl PSA_SUCCESS, s')"
    by (auto simp: wolfpsa_kdf_tls12_psk_to_ms_def Let_def wc_try_Inl split: prod.splits)
  have h4: "kdf_pbkdf2_cmac E ctx n s \<noteq> Some (Inl PSA_SUCCESS, s')"
    by (auto simp: kdf_pbkdf2_cmac_def Let_def k dest: pbkdf2_cmac_loop_Inl [OF b1] split: prod.splits sum.splits)
  have h5: "wolfpsa_kdf_sp800_108_hmac E ctx n \<noteq> Some (Inl PSA_SUCCESS)"
    by (auto simp: wolfpsa_kdf_sp800_108_hmac_def Let_def sp800_108_loop_Inl [OF b2])
  have h6: "wolfpsa_kdf_sp800_108_cmac E ctx n s \<noteq> Some (Inl PSA_SUCCESS, s')"
    by (auto simp: wolfpsa_kdf_sp800_108_cmac_def k sp800_108_loop_Inl [OF b3] split: prod.splits sum.splits)
  show False using c h1 h2 h3 h4 h5 h6
    by (auto simp: wolfpsa_kdf_compute_output_def wolfpsa_kdf_pbkdf2_def split: if_splits)
qed

lemma serve_Inl: "kdf_serve E ctx n m s \<noteq> Some (Inl PSA_SUCCESS, s')"
  by (auto simp: kdf_serve_def compute_output_Inl split: option.splits prod.splits sum.splits)

section \<open>A read of the operation\<close>

text \<open>The rest of a read, after the reservation.\<close>

lemma serve_done:
  assumes ok: "kdf_engine_ok E R V" and good: "kdf_good R ctx" and cap: "kd_capacity ctx \<le> SIZE_MAX"
    and chk: "kdf_output_check ctx n = PSA_SUCCESS" and small: "kd_output_offset ctx + n \<le> SIZE_MAX - 15"
    and S: "kdf_inputs_same ctx ctx1 \<and> kd_output_offset ctx1 = kd_output_offset ctx \<and>
      kd_output_cache ctx1 = kd_output_cache ctx \<and> kd_output_started ctx1 = kd_output_started ctx \<and>
      kd_error_state ctx1 = kd_error_state ctx \<and>
      (kd_output_started ctx \<longrightarrow> sp800_108_L_bytes ctx1 = sp800_108_L_bytes ctx) \<and>
      (if kd_capacity ctx = SIZE_MAX then st1 = PSA_SUCCESS \<and> kd_capacity ctx1 = SIZE_MAX
       else if n \<le> kd_capacity ctx then st1 = PSA_SUCCESS \<and> kd_capacity ctx1 = kd_capacity ctx - n
       else st1 = PSA_ERROR_INSUFFICIENT_DATA \<and> kd_capacity ctx1 = 0)"
    and st1: "st1 = PSA_SUCCESS" and ctx2: "ctx2 = ctx1\<lparr>kd_output_started := True\<rparr>"
    and f: "kdf_fill_cache E ctx2 n s = Some (st2, ctx3, s1)"
    and k: "(if st2 \<noteq> PSA_SUCCESS then Some (st2, [], ctx3, s1)
      else case kdf_serve E ctx3 n (kd_output_offset ctx + n) s1 of
        None \<Rightarrow> None
      | Some (Inl e, s2) \<Rightarrow> Some (e, [], ctx3, s2)
      | Some (Inr bs, s2) \<Rightarrow> Some (PSA_SUCCESS, bs, ctx3\<lparr>kd_output_offset := kd_output_offset ctx3 + n\<rparr>, s2))
      = Some (st, bs, ctx', s')"
  shows "kdf_good R ctx' \<and> kdf_read R n ctx ctx' (st = PSA_SUCCESS) bs \<and> kd_error_state ctx' = kd_error_state ctx"
proof -
  have capok: "if kd_capacity ctx = SIZE_MAX then kd_capacity ctx1 = SIZE_MAX
    else n \<le> kd_capacity ctx \<and> kd_capacity ctx1 = kd_capacity ctx - n"
    using S st1 by (auto split: if_splits)
  have same1: "kdf_stream R ctx1 = kdf_stream R ctx" if "kd_output_started ctx"
    using S that by (blast intro: kdf_stream_same)
  have c2: "c = prefix_of (kdf_stream R ctx1) (length c)" "kd_output_offset ctx + kd_capacity ctx \<le> length c" "kd_capacity ctx \<noteq> SIZE_MAX"
    if "kd_output_cache ctx = Some c" for c
    using that good same1 by (auto simp: kdf_good_def)
  obtain cache where c3: "ctx3 = ctx1\<lparr>kd_output_started := True, kd_output_cache := cache\<rparr>"
    and cc: "cache = kd_output_cache ctx \<or>
      (\<exists>c. cache = Some c \<and> kd_output_cache ctx = None \<and> kd_output_offset ctx = 0 \<and>
         c = prefix_of (kdf_stream R ctx1) (length c) \<and> length c = n + kd_capacity ctx1 \<and> kd_capacity ctx1 \<noteq> SIZE_MAX)"
  proof -
    from fill_cache_cases [OF ok f] show ?thesis
    proof (elim disjE exE conjE)
      assume "ctx3 = ctx2"
      then show ?thesis using that [of "kd_output_cache ctx"] S by (simp add: ctx2)
    next
      fix c assume "kd_output_cache ctx2 = None" "kd_output_offset ctx2 = 0"
        "ctx3 = ctx2\<lparr>kd_output_cache := Some c\<rparr>" "c = prefix_of (kdf_stream R ctx2) (length c)"
        "length c = n + kd_capacity ctx2" "kd_capacity ctx2 \<noteq> SIZE_MAX"
      then show ?thesis using that [of "Some c"] S by (simp add: ctx2)
    qed
  qed
  have cok: "c = prefix_of (kdf_stream R ctx3) (length c) \<and> kd_capacity ctx1 \<noteq> SIZE_MAX \<and>
      kd_output_offset ctx + n + kd_capacity ctx1 \<le> length c" if "cache = Some c" for c
    using cc that c2 [of c] capok cap by (auto simp: c3 split: if_splits)
  have same3: "kdf_inputs_same ctx ctx3" using S by (simp add: c3)
  have good3: "kdf_good R ctx3"
    using cok S by (auto simp: kdf_good_def c3)
  have f3: "kd_output_offset ctx3 = kd_output_offset ctx" "kd_output_started ctx3"
    "kd_capacity ctx3 = kd_capacity ctx1" "kd_error_state ctx3 = kd_error_state ctx" "kd_output_cache ctx3 = cache"
    "kd_output_started ctx \<Longrightarrow> sp800_108_L_bytes ctx3 = sp800_108_L_bytes ctx"
    using S by (simp_all add: c3)
  have raw: "kd_is_raw_kdf ctx3 \<Longrightarrow> kd_output_offset ctx3 + n \<le> length (kd_secret ctx3)"
    using output_check_raw [OF chk] kdf_inputs_sameD [OF same3] f3(1) by simp
  consider (fail) "st \<noteq> PSA_SUCCESS" "bs = []" "ctx' = ctx3"
    | (done') s2 where "st = PSA_SUCCESS" "kdf_serve E ctx3 n (kd_output_offset ctx3 + n) s1 = Some (Inr bs, s2)"
        "ctx' = ctx3\<lparr>kd_output_offset := kd_output_offset ctx3 + n\<rparr>"
  proof (cases "st2 = PSA_SUCCESS")
    case False
    then show ?thesis using k that(1) by simp
  next
    case True
    note k' = k [unfolded True f3(1) [symmetric]]
    show ?thesis
    proof (cases "kdf_serve E ctx3 n (kd_output_offset ctx3 + n) s1")
      case None
      with k' show ?thesis by simp
    next
      case (Some p)
      obtain x s2 where p: "p = (x, s2)" by (cases p)
      show ?thesis
      proof (cases x)
        case (Inl e)
        then have "e \<noteq> PSA_SUCCESS" using Some p serve_Inl by blast
        then show ?thesis using k' Some p Inl that(1) by simp
      next
        case (Inr ys)
        then show ?thesis using k' Some p that(2) [of s2] by simp
      qed
    qed
  qed
  then show ?thesis
  proof cases
    case fail
    then show ?thesis using good3 same3 f3 capok cap
      by (auto simp: kdf_read_def split: if_splits)
  next
    case done'
    have bs: "bs = map (kdf_stream R ctx3) [kd_output_offset ctx3..<kd_output_offset ctx3 + n]"
      by (rule serve_stream [OF ok done'(2) _ raw]) (use cok small f3 in auto)
    have "kdf_good R ctx'" using cok f3 by (auto simp: kdf_good_def done'(3))
    moreover have "kdf_inputs_same ctx ctx'" using same3 by (simp add: done'(3))
    ultimately show ?thesis using bs f3 capok cap
      by (auto simp: kdf_read_def done'(1,3) split: if_splits)
  qed
qed

lemma output_bytes_read:
  assumes ok: "kdf_engine_ok E R V" and good: "kdf_good R ctx" and cap: "kd_capacity ctx \<le> SIZE_MAX"
    and small: "kd_output_offset ctx + out_size output \<le> SIZE_MAX - 15"
    and r: "wolfpsa_kdf_output_bytes E ctx output s = Some (st, bs, ctx', s')"
  shows "kdf_good R ctx' \<and> kdf_read R (out_size output) ctx ctx' (st = PSA_SUCCESS) bs \<and>
    kd_error_state ctx' = kd_error_state ctx"
proof -
  define n where "n = out_size output"
  have early: ?thesis if "ctx' = ctx" "bs = []" "st \<noteq> PSA_SUCCESS"
    using that good by (auto simp: kdf_read_def)
  show ?thesis
  proof (cases "out_null output \<or> kdf_output_check ctx n \<noteq> PSA_SUCCESS")
    case True
    with r early show ?thesis by (auto simp: wolfpsa_kdf_output_bytes_def n_def Let_def split: if_splits)
  next
    case False
    then have chk: "kdf_output_check ctx n = PSA_SUCCESS" and nn: "\<not> out_null output" by auto
    obtain st1 ctx1 where q: "wolfpsa_kdf_require_output (kdf_snapshot_L ctx) n = (st1, ctx1)" by fastforce
    note S = output_reserve [OF q cap]
    show ?thesis
    proof (cases "st1 = PSA_SUCCESS")
      case False
      then have e: "st = st1" "bs = []" "ctx' = ctx1"
        using r chk nn q by (auto simp: wolfpsa_kdf_output_bytes_def n_def [symmetric] Let_def)
      have "kdf_stream R ctx1 = kdf_stream R ctx" if "kd_output_started ctx"
        using S that by (blast intro: kdf_stream_same)
      then show ?thesis
        using S e False good by (auto simp: kdf_read_def kdf_good_def split: if_splits)
    next
      case st1: True
      define ctx2 where "ctx2 = ctx1\<lparr>kd_output_started := True\<rparr>"
      have tot: "(kd_output_offset ctx + n) mod 2 ^ 64 = kd_output_offset ctx + n"
        by (rule mod_less) (use small in \<open>simp add: n_def\<close>)
      obtain st2 ctx3 s1 where f: "kdf_fill_cache E ctx2 n s = Some (st2, ctx3, s1)"
        and k: "(if st2 \<noteq> PSA_SUCCESS then Some (st2, [], ctx3, s1)
          else case kdf_serve E ctx3 n (kd_output_offset ctx + n) s1 of
            None \<Rightarrow> None
          | Some (Inl e, s2) \<Rightarrow> Some (e, [], ctx3, s2)
          | Some (Inr bs, s2) \<Rightarrow> Some (PSA_SUCCESS, bs, ctx3\<lparr>kd_output_offset := kd_output_offset ctx3 + n\<rparr>, s2))
          = Some (st, bs, ctx', s')"
      proof (cases "kdf_fill_cache E ctx2 n s")
        case None
        then show ?thesis using r chk nn q st1 tot
          by (simp add: wolfpsa_kdf_output_bytes_def n_def [symmetric] Let_def ctx2_def [symmetric])
      next
        case (Some p)
        obtain a b c where "p = (a, b, c)" by (cases p)
        then show ?thesis using that [of a b c] Some chk nn q st1
            r [unfolded wolfpsa_kdf_output_bytes_def Let_def, folded n_def, unfolded tot]
          by (simp add: ctx2_def [symmetric])
      qed
      from serve_done [OF ok good cap chk _ S st1 ctx2_def f k] small show ?thesis
        by (simp add: n_def)
    qed
  qed
qed

section \<open>What every call keeps\<close>

text \<open>
  \<open>kdf_mono R n ctx ctx' bs\<close>: a call that asked for at most \<open>n\<close> bytes and delivered \<open>bs\<close> took
  the context from \<open>ctx\<close> to \<open>ctx'\<close>.
\<close>

definition kdf_mono :: "kdf_ref \<Rightarrow> nat \<Rightarrow> wolfpsa_kdf_ctx \<Rightarrow> wolfpsa_kdf_ctx \<Rightarrow> byte list \<Rightarrow> bool" where
  "kdf_mono R n ctx ctx' bs \<longleftrightarrow>
    kdf_good R ctx' \<and> kd_capacity ctx' \<le> kd_capacity ctx \<and>
    (kd_error_state ctx \<longrightarrow> kd_error_state ctx') \<and>
    (kd_output_started ctx \<longrightarrow> kd_output_started ctx' \<and> kdf_stream R ctx' = kdf_stream R ctx) \<and>
    (kd_capacity ctx \<noteq> SIZE_MAX \<longrightarrow>
       kd_capacity ctx' \<noteq> SIZE_MAX \<and>
       kd_output_offset ctx' + kd_capacity ctx' \<le> kd_output_offset ctx + kd_capacity ctx) \<and>
    kd_output_offset ctx + length bs \<le> kd_output_offset ctx' \<and>
    kd_output_offset ctx' \<le> kd_output_offset ctx + n \<and>
    (bs \<noteq> [] \<longrightarrow> kd_output_started ctx') \<and>
    bs = map (kdf_stream R ctx') [kd_output_offset ctx..<kd_output_offset ctx + length bs]"

lemma kdf_mono_refl: "kdf_good R ctx \<Longrightarrow> kdf_mono R n ctx ctx []"
  by (simp add: kdf_mono_def)

lemma kdf_good_error [simp]: "kdf_good R (ctx\<lparr>kd_error_state := e\<rparr>) = kdf_good R ctx"
  by (simp add: kdf_good_def)

lemma kdf_mono_done: "kdf_mono R n ctx ctx' bs \<Longrightarrow> kdf_mono R n ctx (snd (wolfpsa_kdf_done ctx' st)) bs"
  by (simp add: kdf_mono_def wolfpsa_kdf_done_def)

lemma kdf_mono_weaken: "kdf_mono R n ctx ctx' bs \<Longrightarrow> n \<le> m \<Longrightarrow> kdf_mono R m ctx ctx' bs"
  by (simp add: kdf_mono_def)

lemma kdf_mono_silent: "kdf_mono R n ctx ctx' bs \<Longrightarrow> kdf_mono R n ctx ctx' []"
  by (simp add: kdf_mono_def)

lemma kdf_read_mono:
  assumes "kdf_good R ctx'" and "kdf_read R n ctx ctx' succ bs" and "kd_error_state ctx' = kd_error_state ctx"
  shows "kdf_mono R n ctx ctx' bs"
proof -
  have "kdf_stream R ctx' = kdf_stream R ctx" if "kd_output_started ctx"
    using assms(2) that by (auto simp: kdf_read_def intro: kdf_stream_same)
  then show ?thesis using assms by (cases succ) (auto simp: kdf_mono_def kdf_read_def)
qed

text \<open>The side conditions under which the calls are considered.\<close>

definition kdf_ready :: "kdf_ref \<Rightarrow> nat \<Rightarrow> wolfpsa_kdf_ctx \<Rightarrow> bool" where
  "kdf_ready R n ctx \<longleftrightarrow>
    kdf_good R ctx \<and> kd_capacity ctx \<le> SIZE_MAX \<and> kd_output_offset ctx + n \<le> SIZE_MAX - 15"

lemma kdf_ready_weaken: "kdf_ready R n ctx \<Longrightarrow> m \<le> n \<Longrightarrow> kdf_ready R m ctx"
  by (simp add: kdf_ready_def)

lemma output_bytes_op:
  assumes ok: "kdf_engine_ok E R V" and rdy: "kdf_ready R (out_size output) ctx"
    and r: "psa_key_derivation_output_bytes E (Some (Some ctx)) output s = Some (st, bs, op', s')"
  shows "\<exists>ctx'. op' = Some (Some ctx') \<and> kdf_mono R (out_size output) ctx ctx' bs \<and>
    kdf_inputs_same ctx ctx' \<and> kd_output_offset ctx' = kd_output_offset ctx + length bs \<and>
    (st = PSA_SUCCESS \<longrightarrow> \<not> kd_error_state ctx \<and> \<not> kd_error_state ctx' \<and> length bs = out_size output \<and>
       kd_output_offset ctx' = kd_output_offset ctx + out_size output)"
proof (cases "kd_error_state ctx")
  case True
  then show ?thesis using r rdy
    by (auto simp: psa_key_derivation_output_bytes_def wolfpsa_kdf_get_ctx_def wolfpsa_kdf_check_state_def
        kdf_ready_def kdf_mono_refl)
next
  case False
  with r obtain ctx1 where o: "wolfpsa_kdf_output_bytes E ctx output s = Some (st, bs, ctx1, s')"
    and op': "op' = Some (Some (snd (wolfpsa_kdf_done ctx1 st)))"
    by (auto simp: psa_key_derivation_output_bytes_def wolfpsa_kdf_get_ctx_def wolfpsa_kdf_check_state_def
        split: option.splits prod.splits)
  from rdy have rd: "kdf_good R ctx" "kd_capacity ctx \<le> SIZE_MAX"
    "kd_output_offset ctx + out_size output \<le> SIZE_MAX - 15" by (simp_all add: kdf_ready_def)
  note O = output_bytes_read [OF ok rd o]
  have "kdf_mono R (out_size output) ctx (snd (wolfpsa_kdf_done ctx1 st)) bs"
    by (rule kdf_mono_done, rule kdf_read_mono) (use O in auto)
  moreover have "kdf_inputs_same ctx (snd (wolfpsa_kdf_done ctx1 st))"
    using O by (simp add: kdf_read_def wolfpsa_kdf_done_def)
  ultimately show ?thesis using O False op'
    by (auto simp: kdf_read_def wolfpsa_kdf_done_def)
qed

text \<open>Inputs: they change nothing on the output side, and nothing at all once output began.\<close>

definition kdf_output_same :: "wolfpsa_kdf_ctx \<Rightarrow> wolfpsa_kdf_ctx \<Rightarrow> bool" where
  "kdf_output_same ctx ctx' \<longleftrightarrow>
    kd_alg ctx' = kd_alg ctx \<and> kd_ka_alg ctx' = kd_ka_alg ctx \<and> kd_capacity ctx' = kd_capacity ctx \<and>
    kd_output_offset ctx' = kd_output_offset ctx \<and> kd_output_started ctx' = kd_output_started ctx \<and>
    kd_error_state ctx' = kd_error_state ctx \<and> kd_output_cache ctx' = kd_output_cache ctx \<and>
    kd_is_key_agreement ctx' = kd_is_key_agreement ctx \<and> kd_is_raw_kdf ctx' = kd_is_raw_kdf ctx \<and>
    (kd_output_started ctx \<longrightarrow> ctx' = ctx)"

lemma kdf_output_same_refl [simp]: "kdf_output_same ctx ctx"
  by (simp add: kdf_output_same_def)

lemma kdf_output_same_mono: "kdf_good R ctx \<Longrightarrow> kdf_output_same ctx ctx' \<Longrightarrow> kdf_mono R n ctx ctx' []"
  by (cases "kd_output_started ctx") (auto simp: kdf_mono_def kdf_good_def kdf_output_same_def)

lemma input_bytes_same:
  assumes "wolfpsa_kdf_input_bytes E ctx stp d s = (st, ctx', s')"
  shows "kdf_output_same ctx ctx' \<and> kd_can_output_key ctx' = kd_can_output_key ctx \<and>
    (st = PSA_SUCCESS \<longrightarrow> \<not> kd_output_started ctx)"
proof (cases "kd_output_started ctx")
  case True
  then show ?thesis using assms
    by (auto simp: wolfpsa_kdf_input_bytes_def wolfpsa_kdf_validate_step_def Let_def split: if_splits)
next
  case False
  then show ?thesis using assms
    by (auto simp: wolfpsa_kdf_input_bytes_def Let_def kdf_output_same_def split: if_splits prod.splits)
qed

lemma kdf_output_same_grant:
  assumes "wolfpsa_kdf_input_bytes E ctx stp d s = (st, ctx1, s')"
    and "ctx' = (if st = PSA_SUCCESS \<and> P then ctx1\<lparr>kd_can_output_key := True\<rparr> else ctx1)"
  shows "kdf_output_same ctx ctx'"
  using input_bytes_same [OF assms(1)] assms(2) by (auto simp: kdf_output_same_def)

text \<open>The key that a successful input took, and what made it acceptable.\<close>

lemma input_key_cases:
  assumes r: "wolfpsa_kdf_input_key env E ctx stp k s = (st, ctx', s')"
  obtains (failed) "ctx' = ctx" "st \<noteq> PSA_SUCCESS"
  | (taken) attrs d s1 ctx1 where "load_key env k s = (Inr (attrs, d), s1)"
      "wolfpsa_kdf_key_type_ok (kd_alg ctx) stp (type attrs)"
      "wolfpsa_kdf_key_alg_permitted ctx (alg (policy attrs)) \<or> wolfpsa_kdf_key_alg_permitted ctx (alg2 (policy attrs))"
      "wolfpsa_kdf_input_bytes E ctx stp (In d) s1 = (st, ctx1, s')"
      "ctx' = (if st = PSA_SUCCESS \<and> usage (policy attrs) AND PSA_KEY_USAGE_DERIVE \<noteq> 0 \<and>
                  (stp = PSA_KEY_DERIVATION_INPUT_SECRET \<or> stp = PSA_KEY_DERIVATION_INPUT_PASSWORD)
               then ctx1\<lparr>kd_can_output_key := True\<rparr> else ctx1)"
proof (cases "load_key env k s")
  case (Pair ld s1)
  show ?thesis
  proof (cases ld)
    case (Inl e)
    moreover have "e \<noteq> PSA_SUCCESS" using Pair Inl by auto
    ultimately show ?thesis using r Pair by (intro failed) (auto simp: wolfpsa_kdf_input_key_def)
  next
    case (Inr ad)
    obtain attrs d where ad: "ad = (attrs, d)" by (cases ad)
    obtain st1 ctx1 s2 where ib: "wolfpsa_kdf_input_bytes E ctx stp (In d) s1 = (st1, ctx1, s2)" by (metis prod_cases3)
    note u = r [unfolded wolfpsa_kdf_input_key_def Pair Inr ad, simplified, unfolded Let_def ib, simplified]
    show ?thesis
    proof (cases "wolfpsa_kdf_validate_step E ctx stp (length d) = PSA_SUCCESS \<and>
        psa_get_key_usage_flags attrs AND (PSA_KEY_USAGE_DERIVE OR PSA_KEY_USAGE_VERIFY_DERIVATION) \<noteq> 0 \<and>
        wolfpsa_kdf_key_type_ok (kd_alg ctx) stp (type attrs) \<and>
        (wolfpsa_kdf_key_alg_permitted ctx (alg (policy attrs)) \<or>
         wolfpsa_kdf_key_alg_permitted ctx (alg2 (policy attrs)))")
      case False
      then show ?thesis using u
        by (intro failed) (auto simp: psa_get_key_algorithm_def psa_get_key_enrollment_algorithm_def split: if_splits)
    next
      case True
      then show ?thesis using u ib Pair Inr ad
        by (intro taken [of attrs d s1 ctx1])
          (auto simp: psa_get_key_algorithm_def psa_get_key_enrollment_algorithm_def psa_get_key_usage_flags_def
            split: if_splits)
    qed
  qed
qed

lemma input_key_same:
  assumes "wolfpsa_kdf_input_key env E ctx stp k s = (st, ctx', s')"
  shows "kdf_output_same ctx ctx'"
  using assms by (rule input_key_cases) (auto intro: kdf_output_same_grant)

lemma key_agreement_cases:
  assumes r: "wolfpsa_kdf_key_agreement env E X ctx stp k peer s = (st, ctx', s')"
  obtains (failed) "ctx' = ctx" "st \<noteq> PSA_SUCCESS"
  | (taken) pa s1 s2 secret s3 ctx1 where "kd_is_key_agreement ctx"
      "psa_get_key_attributes env k False s = (PSA_SUCCESS, pa, s1)" "s_xmalloc s1 = (True, s2)"
      "wolfpsa_key_agreement_secret env X (PSA_ALG_KEY_AGREEMENT (kd_ka_alg ctx) (kd_alg ctx)) k peer
         (Out (PSA_RAW_KEY_AGREEMENT_OUTPUT_SIZE (type pa) (unat (bits pa)))) s2 = (Inr secret, s3)"
      "wolfpsa_kdf_input_bytes E ctx stp (In secret) s3 = (st, ctx1, s')"
      "ctx' = (if st = PSA_SUCCESS \<and> stp = PSA_KEY_DERIVATION_INPUT_SECRET
               then ctx1\<lparr>kd_can_output_key := True\<rparr> else ctx1)"
proof -
  obtain ast pa s1 where ga: "psa_get_key_attributes env k False s = (ast, pa, s1)" by (metis prod_cases3)
  obtain b s2 where al: "s_xmalloc s1 = (b, s2)" by fastforce
  define n where "n = PSA_RAW_KEY_AGREEMENT_OUTPUT_SIZE (type pa) (unat (bits pa))"
  obtain x s3 where ks: "wolfpsa_key_agreement_secret env X
      (PSA_ALG_KEY_AGREEMENT (kd_ka_alg ctx) (kd_alg ctx)) k peer (Out n) s2 = (x, s3)" by fastforce
  note u = r [unfolded wolfpsa_kdf_key_agreement_def ga prod.case Let_def, folded n_def, unfolded al ks prod.case]
  show ?thesis
  proof (cases "ctx' = ctx \<and> st \<noteq> PSA_SUCCESS")
    case True
    then show ?thesis using failed by blast
  next
    case False
    have "x \<noteq> Inl PSA_SUCCESS" using ks agreement_secret_Inl by blast
    with u False obtain secret where x: "x = Inr secret" "ast = PSA_SUCCESS" "b" "kd_is_key_agreement ctx"
      by (cases x) (auto split: if_splits)
    obtain st1 ctx1 s4 where ib: "wolfpsa_kdf_input_bytes E ctx stp (In secret) s3 = (st1, ctx1, s4)"
      by (metis prod_cases3)
    show ?thesis
      by (rule taken [of pa s1 s2 secret s3 ctx1])
        (use u False ga al ks ib x in \<open>auto simp: n_def [symmetric] split: if_splits\<close>)
  qed
qed

lemma key_agreement_same:
  assumes "wolfpsa_kdf_key_agreement env E X ctx stp k peer s = (st, ctx', s')"
  shows "kdf_output_same ctx ctx'"
  using assms by (rule key_agreement_cases) (auto intro: kdf_output_same_grant)

lemma input_integer_same:
  assumes "wolfpsa_kdf_input_integer ctx stp v = (st, ctx')"
  shows "kdf_output_same ctx ctx' \<and> kd_can_output_key ctx' = kd_can_output_key ctx"
  using assms by (auto simp: wolfpsa_kdf_input_integer_def kdf_output_same_def split: if_splits)

lemma kdf_entry_same:
  assumes f: "\<And>st ctx' s'. f ctx s = (st, ctx', s') \<Longrightarrow> kdf_output_same ctx ctx'"
    and good: "kdf_good R ctx" and r: "kdf_entry (Some (Some ctx)) s f = (st, op', s')"
  shows "\<exists>ctx'. op' = Some (Some ctx') \<and> kdf_mono R n ctx ctx' []"
proof (cases "kd_error_state ctx")
  case True
  then show ?thesis using r good
    by (auto simp: kdf_entry_def wolfpsa_kdf_get_ctx_def wolfpsa_kdf_check_state_def kdf_mono_refl)
next
  case False
  obtain st1 ctx1 s1 where c: "f ctx s = (st1, ctx1, s1)" by (metis prod_cases3)
  have "kdf_mono R n ctx (snd (wolfpsa_kdf_done ctx1 st1)) []"
    by (intro kdf_mono_done kdf_output_same_mono [OF good] f [OF c])
  then show ?thesis using r False c
    by (auto simp: kdf_entry_def wolfpsa_kdf_get_ctx_def wolfpsa_kdf_check_state_def split: prod.splits)
qed

lemma set_capacity_mono:
  assumes good: "kdf_good R ctx" and cap: "kd_capacity ctx \<le> SIZE_MAX"
    and r: "psa_key_derivation_set_capacity E (Some (Some ctx)) m = (st, op')"
  shows "\<exists>ctx'. op' = Some (Some ctx') \<and> kdf_mono R n ctx ctx' []"
proof -
  have m: "kdf_mono R n ctx (ctx\<lparr>kd_capacity := c\<rparr>) []" if "c \<le> kd_capacity ctx" for c
    using good cap that by (auto simp: kdf_mono_def kdf_good_def)
  have e: "kdf_mono R n ctx (ctx\<lparr>kd_error_state := True\<rparr>) []"
    using good by (simp add: kdf_mono_def)
  show ?thesis using r kdf_mono_refl [OF good, of n] m e
    by (auto simp: psa_key_derivation_set_capacity_def wolfpsa_kdf_get_ctx_def wolfpsa_kdf_check_state_def
        wolfpsa_kdf_set_capacity_def wolfpsa_kdf_done_def Let_def kdf_mono_done split: if_splits prod.splits)
qed

end
