(* ===== verification/Kdf_Runs.thy ===== *)
theory Kdf_Runs
  imports Kdf_Machine
begin

text \<open>
  Runs of the key-derivation operation: every call keeps the relation \<open>kdf_mono\<close>
  (\<open>kdf_exec_mono\<close>), and the theorems about whole runs follow by induction on the calls.
\<close>

unbundle bit_operations_syntax

section \<open>Every call keeps the relation\<close>

lemma kdf_done_op_active [simp]: "kdf_done_op (Some (Some ctx)) st = Some (Some (snd (wolfpsa_kdf_done ctx st)))"
  by (simp add: kdf_done_op_def)

lemma done_inputs_same [simp]: "kdf_inputs_same ctx (snd (wolfpsa_kdf_done ctx' st)) = kdf_inputs_same ctx ctx'"
  by (simp add: wolfpsa_kdf_done_def)

lemma error_entry:
  assumes "kd_error_state ctx"
  shows "psa_key_derivation_output_key env E attr (Some (Some ctx)) idn s =
      Some (PSA_ERROR_BAD_STATE, PSA_KEY_ID_NULL, Some (Some ctx), s)"
    and "psa_key_derivation_verify_bytes E (Some (Some ctx)) d s = Some (PSA_ERROR_BAD_STATE, Some (Some ctx), s)"
    and "psa_key_derivation_verify_key env E (Some (Some ctx)) k s = Some (PSA_ERROR_BAD_STATE, Some (Some ctx), s)"
    and "psa_key_derivation_output_bytes E (Some (Some ctx)) output s =
      Some (PSA_ERROR_BAD_STATE, [], Some (Some ctx), s)"
    and "kdf_entry (Some (Some ctx)) s f = (PSA_ERROR_BAD_STATE, Some (Some ctx), s)"
    and "psa_key_derivation_set_capacity E (Some (Some ctx)) n = (PSA_ERROR_BAD_STATE, Some (Some ctx))"
  using assms
  by (simp_all add: psa_key_derivation_output_key_def psa_key_derivation_verify_bytes_def
      psa_key_derivation_verify_key_def psa_key_derivation_output_bytes_def kdf_entry_def
      psa_key_derivation_set_capacity_def wolfpsa_kdf_get_ctx_def wolfpsa_kdf_check_state_def)

lemma verify_bytes_op:
  assumes ok: "kdf_engine_ok E R V" and rdy: "kdf_ready R (min (in_length d) INT_MAX) ctx"
    and r: "psa_key_derivation_verify_bytes E (Some (Some ctx)) d s = Some (st, op', s')"
  shows "\<exists>ctx'. op' = Some (Some ctx') \<and> kdf_mono R (min (in_length d) INT_MAX) ctx ctx' [] \<and>
    kdf_inputs_same ctx ctx' \<and>
    (st = PSA_SUCCESS \<longrightarrow> kd_output_offset ctx' = kd_output_offset ctx + in_length d \<and>
       in_bytes d = map (kdf_stream R ctx') [kd_output_offset ctx..<kd_output_offset ctx + in_length d])"
proof (cases "kd_error_state ctx")
  case True
  then show ?thesis using r rdy by (auto simp: error_entry(2) [OF True] kdf_ready_def kdf_mono_refl)
next
  case False
  then obtain op1 where v: "wolfpsa_kdf_verify_bytes E ctx d s = Some (st, op1, s')" and op': "op' = kdf_done_op op1 st"
    using r by (auto simp: psa_key_derivation_verify_bytes_def wolfpsa_kdf_get_ctx_def wolfpsa_kdf_check_state_def
        split: option.splits)
  have good: "kdf_good R ctx" using rdy by (simp add: kdf_ready_def)
  consider (early) "op1 = Some (Some ctx)" "st \<noteq> PSA_SUCCESS"
    | (read) st1 bs s1 where "in_length d \<le> INT_MAX" "\<not> in_null d"
        "psa_key_derivation_output_bytes E (Some (Some ctx)) (Out (in_length d)) s1 = Some (st1, bs, op1, s')"
        "st = PSA_SUCCESS \<longrightarrow> st1 = PSA_SUCCESS \<and> (in_length d = 0 \<or> bs = in_bytes d)"
  proof -
    have "op1 = Some (Some ctx) \<and> st \<noteq> PSA_SUCCESS \<or>
      (\<exists>st1 bs s1. in_length d \<le> INT_MAX \<and> \<not> in_null d \<and>
        psa_key_derivation_output_bytes E (Some (Some ctx)) (Out (in_length d)) s1 = Some (st1, bs, op1, s') \<and>
        (st = PSA_SUCCESS \<longrightarrow> st1 = PSA_SUCCESS \<and> (in_length d = 0 \<or> bs = in_bytes d)))"
      using v by (auto simp: wolfpsa_kdf_verify_bytes_def Let_def split: if_splits option.splits prod.splits)
    then show ?thesis using that by blast
  qed
  then show ?thesis
  proof cases
    case early
    then show ?thesis using op' kdf_mono_done [OF kdf_mono_refl [OF good]] by simp
  next
    case read
    have rdy': "kdf_ready R (out_size (Out (in_length d))) ctx"
      using rdy read(1) by (simp add: min.absorb1)
    obtain ctx1 where c: "op1 = Some (Some ctx1)" "kdf_mono R (in_length d) ctx ctx1 bs" "kdf_inputs_same ctx ctx1"
      "st1 = PSA_SUCCESS \<longrightarrow> length bs = in_length d \<and> kd_output_offset ctx1 = kd_output_offset ctx + in_length d"
      using output_bytes_op [OF ok rdy' read(3)] by auto
    let ?c = "snd (wolfpsa_kdf_done ctx1 st)"
    have "kdf_mono R (in_length d) ctx ?c bs" by (rule kdf_mono_done [OF c(2)])
    moreover have "min (in_length d) INT_MAX = in_length d" using read(1) by simp
    moreover have "in_bytes d = map (kdf_stream R ?c) [kd_output_offset ctx..<kd_output_offset ctx + in_length d]"
      if "st = PSA_SUCCESS"
      using that read(2,4) c(4) calculation(1) by (cases d) (auto simp: kdf_mono_def)
    ultimately show ?thesis using op' c read(4)
      by (auto intro: kdf_mono_silent simp: wolfpsa_kdf_done_def)
  qed
qed

lemma verify_key_op:
  assumes ok: "kdf_engine_ok E R V" and rdy: "kdf_ready R INT_MAX ctx"
    and r: "psa_key_derivation_verify_key env E (Some (Some ctx)) k s = Some (st, op', s')"
  shows "\<exists>ctx'. op' = Some (Some ctx') \<and> kdf_mono R INT_MAX ctx ctx' [] \<and> kdf_inputs_same ctx ctx'"
proof (cases "kd_error_state ctx")
  case True
  then show ?thesis using r rdy by (auto simp: error_entry(3) [OF True] kdf_ready_def kdf_mono_refl)
next
  case False
  then obtain op1 where v: "wolfpsa_kdf_verify_key env E ctx k s = Some (st, op1, s')" and op': "op' = kdf_done_op op1 st"
    using r by (auto simp: psa_key_derivation_verify_key_def wolfpsa_kdf_get_ctx_def wolfpsa_kdf_check_state_def
        split: option.splits)
  have good: "kdf_good R ctx" using rdy by (simp add: kdf_ready_def)
  consider (early) "op1 = Some (Some ctx)"
    | (read) d s1 where "psa_key_derivation_verify_bytes E (Some (Some ctx)) (In d) s1 = Some (st, op1, s')"
    using v by (auto simp: wolfpsa_kdf_verify_key_def Let_def split: if_splits sum.splits prod.splits)
  then show ?thesis
  proof cases
    case early
    then show ?thesis using op' kdf_mono_done [OF kdf_mono_refl [OF good]] by simp
  next
    case read
    have "kdf_ready R (min (in_length (In d)) INT_MAX) ctx" by (rule kdf_ready_weaken [OF rdy]) simp
    from verify_bytes_op [OF ok this read] obtain ctx1 where c: "op1 = Some (Some ctx1)"
      "kdf_mono R (min (in_length (In d)) INT_MAX) ctx ctx1 []" "kdf_inputs_same ctx ctx1" by blast
    have "kdf_mono R INT_MAX ctx ctx1 []" by (rule kdf_mono_weaken [OF c(2)]) simp
    then show ?thesis using c op' by (simp add: kdf_mono_done)
  qed
qed

lemma output_key_op:
  fixes s s' :: "'st key_store"
  assumes ok: "kdf_engine_ok E R V"
    and rdy: "kdf_ready R (kdf_request (Kd_OutputKey attr idn)) ctx"
    and r: "psa_key_derivation_output_key env E attr (Some (Some ctx)) idn s = Some (st, kid, op', s')"
  shows "\<exists>ctx'. op' = Some (Some ctx') \<and> kdf_mono R (kdf_request (Kd_OutputKey attr idn)) ctx ctx' [] \<and>
    kdf_inputs_same ctx ctx' \<and> (st = PSA_SUCCESS \<longrightarrow> kd_can_output_key ctx)"
proof (cases "kd_error_state ctx")
  case True
  then show ?thesis using r rdy by (auto simp: error_entry(1) [OF True] kdf_ready_def kdf_mono_refl)
next
  case False
  then obtain op1 where v: "wolfpsa_kdf_output_key env E attr ctx idn s = Some (st, kid, op1, s')"
    and op': "op' = kdf_done_op op1 st"
    using r by (auto simp: psa_key_derivation_output_key_def wolfpsa_kdf_get_ctx_def wolfpsa_kdf_check_state_def
        split: option.splits)
  have good: "kdf_good R ctx" using rdy by (simp add: kdf_ready_def)
  consider (early) "op1 = Some (Some ctx)" "st \<noteq> PSA_SUCCESS"
    | (read) at st1 bs and s1 s2 :: "'st key_store" where "attr = Some at" "kd_can_output_key ctx"
        "psa_key_derivation_output_bytes E (Some (Some ctx)) (Out (PSA_BITS_TO_BYTES (unat (bits at)))) s1 =
          Some (st1, bs, op1, s2)"
  proof -
    have "op1 = Some (Some ctx) \<and> st \<noteq> PSA_SUCCESS \<or>
      (\<exists>at st1 bs (s1 :: 'st key_store) s2. attr = Some at \<and> kd_can_output_key ctx \<and>
        psa_key_derivation_output_bytes E (Some (Some ctx)) (Out (PSA_BITS_TO_BYTES (unat (bits at)))) s1 =
          Some (st1, bs, op1, s2))"
      using v by (auto simp: wolfpsa_kdf_output_key_def Let_def split: option.splits if_splits prod.splits)
    then show ?thesis using that by blast
  qed
  then show ?thesis
  proof cases
    case early
    then show ?thesis using op' kdf_mono_done [OF kdf_mono_refl [OF good]] by simp
  next
    case read
    have rdy': "kdf_ready R (out_size (Out (PSA_BITS_TO_BYTES (unat (bits at))))) ctx"
      using rdy read(1) by simp
    from output_bytes_op [OF ok rdy' read(3)] obtain ctx1 where c: "op1 = Some (Some ctx1)"
      "kdf_mono R (PSA_BITS_TO_BYTES (unat (bits at))) ctx ctx1 bs" "kdf_inputs_same ctx ctx1" by auto
    then show ?thesis using op' read by (auto intro!: kdf_mono_done kdf_mono_silent)
  qed
qed

text \<open>The relation for every call on an active operation.\<close>

lemma kdf_exec_mono:
  assumes ok: "kdf_engine_ok E R V" and rdy: "kdf_ready R (kdf_request c) ctx" and c: "c \<noteq> Kd_Abort"
    and r: "kdf_exec env E X c (Some (Some ctx)) s = Some (st, bs, op', s')"
  shows "\<exists>ctx'. op' = Some (Some ctx') \<and> kdf_mono R (kdf_request c) ctx ctx' bs"
proof -
  have good: "kdf_good R ctx" and cap: "kd_capacity ctx \<le> SIZE_MAX" using rdy by (simp_all add: kdf_ready_def)
  show ?thesis
  proof (cases c)
    case (Kd_Setup a)
    then show ?thesis using r good by (auto simp: psa_key_derivation_setup_def Let_def kdf_mono_refl)
  next
    case (Kd_SetCapacity m)
    then show ?thesis using r set_capacity_mono [OF good cap] by (auto split: prod.splits)
  next
    case (Kd_InputBytes stp d)
    then have e: "kdf_entry (Some (Some ctx)) s (\<lambda>ctx s1. wolfpsa_kdf_input_bytes E ctx stp d s1) = (st, op', s')" and b: "bs = []"
      using r by (auto simp: psa_key_derivation_input_bytes_def split: prod.splits)
    show ?thesis unfolding b by (rule kdf_entry_same [OF _ good e]) (auto dest: input_bytes_same split: prod.splits)
  next
    case (Kd_InputInteger stp v)
    then have e: "kdf_entry (Some (Some ctx)) s (\<lambda>ctx s1. case wolfpsa_kdf_input_integer ctx stp v of (status, ctx1) \<Rightarrow> (status, ctx1, s1)) = (st, op', s')" and b: "bs = []"
      using r by (auto simp: psa_key_derivation_input_integer_def split: prod.splits)
    show ?thesis unfolding b by (rule kdf_entry_same [OF _ good e]) (auto dest: input_integer_same split: prod.splits)
  next
    case (Kd_InputKey stp k)
    then have e: "kdf_entry (Some (Some ctx)) s (\<lambda>ctx s1. wolfpsa_kdf_input_key env E ctx stp k s1) = (st, op', s')" and b: "bs = []"
      using r by (auto simp: psa_key_derivation_input_key_def split: prod.splits)
    show ?thesis unfolding b by (rule kdf_entry_same [OF _ good e]) (auto dest: input_key_same split: prod.splits)
  next
    case (Kd_KeyAgreement stp k peer)
    then have e: "kdf_entry (Some (Some ctx)) s (\<lambda>ctx s1. wolfpsa_kdf_key_agreement env E X ctx stp k peer s1) = (st, op', s')" and b: "bs = []"
      using r by (auto simp: psa_key_derivation_key_agreement_def split: prod.splits)
    show ?thesis unfolding b by (rule kdf_entry_same [OF _ good e]) (auto dest: key_agreement_same split: prod.splits)
  next
    case (Kd_OutputBytes ob)
    then show ?thesis using r rdy output_bytes_op [OF ok, of ob ctx s st bs op' s'] by auto
  next
    case (Kd_OutputKey attr idn)
    then show ?thesis using r rdy output_key_op [OF ok, of attr idn ctx env s st _ op' s'] by auto
  next
    case (Kd_VerifyBytes d)
    have "kdf_ready R (min (in_length d) INT_MAX) ctx"
      by (rule kdf_ready_weaken [OF rdy]) (simp add: Kd_VerifyBytes)
    with Kd_VerifyBytes show ?thesis using r verify_bytes_op [OF ok, of d ctx s st op' s']
      by (fastforce intro: kdf_mono_weaken)
  next
    case (Kd_VerifyKey k)
    then show ?thesis using r rdy verify_key_op [OF ok, of ctx env k s st op' s'] by auto
  qed (use c in simp)
qed

section \<open>Runs\<close>

lemma kdf_mono_trans:
  assumes "kdf_mono R n a b bs" and "kdf_mono R m b c xs"
  shows "kdf_mono R (n + m) a c []"
  using assms by (auto simp: kdf_mono_def)

lemma kdf_mono_bytes:
  assumes "kdf_mono R n a b bs" and "kdf_mono R m b c xs"
  shows "bs = map (kdf_stream R c) [kd_output_offset a..<kd_output_offset a + length bs]"
  using assms by (cases "bs = []") (auto simp: kdf_mono_def)

lemma kdf_ready_step:
  assumes "kdf_ready R (n + m) ctx" and "kdf_mono R n ctx ctx' bs"
  shows "kdf_ready R m ctx'"
  using assms by (auto simp: kdf_ready_def kdf_mono_def)

definition kdf_requests :: "kdf_call list \<Rightarrow> nat" where
  "kdf_requests cs = sum_list (map kdf_request cs)"

lemma kdf_requests_simps [simp]: "kdf_requests [] = 0" "kdf_requests (c # cs) = kdf_request c + kdf_requests cs"
  by (simp_all add: kdf_requests_def)

text \<open>The position in the stream at which a call was made, and all bytes of a run.\<close>

definition kdf_pos :: "'st kdf_event \<Rightarrow> nat" where
  "kdf_pos ev = (case ev_op ev of Some (Some ctx) \<Rightarrow> kd_output_offset ctx | _ \<Rightarrow> 0)"

definition kdf_bytes :: "'st kdf_event list \<Rightarrow> byte list" where
  "kdf_bytes evs = concat (map ev_bytes evs)"

definition event_in_stream :: "(nat \<Rightarrow> byte) \<Rightarrow> 'st kdf_event \<Rightarrow> bool" where
  "event_in_stream f ev \<longleftrightarrow> ev_bytes ev = map f [kdf_pos ev..<kdf_pos ev + length (ev_bytes ev)]"

lemma kdf_run_mono:
  assumes ok: "kdf_engine_ok E R V"
  shows "kdf_run env E X cs (Some (Some ctx)) s = Some (evs, op', s') \<Longrightarrow> Kd_Abort \<notin> set cs \<Longrightarrow>
    kdf_ready R (kdf_requests cs) ctx \<Longrightarrow>
    \<exists>ctx'. op' = Some (Some ctx') \<and> kdf_mono R (kdf_requests cs) ctx ctx' [] \<and>
      kd_output_offset ctx + length (kdf_bytes evs) \<le> kd_output_offset ctx' \<and>
      (\<forall>ev \<in> set evs. event_in_stream (kdf_stream R ctx') ev)"
proof (induction cs arbitrary: ctx s evs)
  case Nil
  then show ?case by (auto simp: kdf_bytes_def kdf_ready_def kdf_mono_refl)
next
  case (Cons c cs)
  obtain st bs op1 s1 evs' where x: "kdf_exec env E X c (Some (Some ctx)) s = Some (st, bs, op1, s1)"
    and rest: "kdf_run env E X cs op1 s1 = Some (evs', op', s')"
    and evs: "evs = \<lparr>ev_call = c, ev_op = Some (Some ctx), ev_keys = s, ev_status = st, ev_bytes = bs\<rparr> # evs'"
    using Cons.prems(1) by (rule kdf_run_Cons)
  have rdy: "kdf_ready R (kdf_request c) ctx"
    by (rule kdf_ready_weaken [OF Cons.prems(3)]) simp
  from kdf_exec_mono [OF ok rdy _ x] Cons.prems(2) obtain ctx1 where
    c1: "op1 = Some (Some ctx1)" "kdf_mono R (kdf_request c) ctx ctx1 bs" by auto
  have "kdf_ready R (kdf_requests cs) ctx1"
    by (rule kdf_ready_step [OF _ c1(2)]) (use Cons.prems(3) in simp)
  from Cons.IH [OF rest [unfolded c1(1)] _ this] Cons.prems(2) obtain ctx' where
    c': "op' = Some (Some ctx')" "kdf_mono R (kdf_requests cs) ctx1 ctx' []"
      "kd_output_offset ctx1 + length (kdf_bytes evs') \<le> kd_output_offset ctx'"
      "\<forall>ev \<in> set evs'. event_in_stream (kdf_stream R ctx') ev" by auto
  have "event_in_stream (kdf_stream R ctx') (hd evs)"
    using kdf_mono_bytes [OF c1(2) c'(2)] by (simp add: evs event_in_stream_def kdf_pos_def)
  moreover have "kd_output_offset ctx + length bs \<le> kd_output_offset ctx1" using c1(2) by (simp add: kdf_mono_def)
  ultimately show ?case
    using kdf_mono_trans [OF c1(2) c'(2)] c' by (auto simp: evs kdf_bytes_def)
qed

text \<open>Calls that read the stream without delivering bytes to the caller.\<close>

fun kdf_hidden :: "kdf_call \<Rightarrow> bool" where
  "kdf_hidden (Kd_OutputKey a b) = True"
| "kdf_hidden (Kd_VerifyBytes d) = True"
| "kdf_hidden (Kd_VerifyKey k) = True"
| "kdf_hidden _ = False"

lemma kdf_exec_exact:
  assumes ok: "kdf_engine_ok E R V" and rdy: "kdf_ready R (kdf_request c) ctx" and c: "c \<noteq> Kd_Abort"
    and h: "\<not> kdf_hidden c"
    and r: "kdf_exec env E X c (Some (Some ctx)) s = Some (st, bs, Some (Some ctx'), s')"
  shows "kd_output_offset ctx' = kd_output_offset ctx + length bs"
proof (cases "\<exists>out. c = Kd_OutputBytes out")
  case True
  then show ?thesis using output_bytes_op [OF ok] rdy r by fastforce
next
  case False
  then have "kdf_request c = 0" using h by (cases c) auto
  then show ?thesis using kdf_exec_mono [OF ok rdy c r] by (auto simp: kdf_mono_def)
qed

lemma kdf_run_exact:
  assumes ok: "kdf_engine_ok E R V"
  shows "kdf_run env E X cs (Some (Some ctx)) s = Some (evs, Some (Some ctx'), s') \<Longrightarrow> Kd_Abort \<notin> set cs \<Longrightarrow>
    list_all (\<lambda>c. \<not> kdf_hidden c) cs \<Longrightarrow> kdf_ready R (kdf_requests cs) ctx \<Longrightarrow>
    kdf_bytes evs = map (kdf_stream R ctx') [kd_output_offset ctx..<kd_output_offset ctx'] \<and>
    kd_output_offset ctx \<le> kd_output_offset ctx'"
proof (induction cs arbitrary: ctx s evs)
  case Nil
  then show ?case by (simp add: kdf_bytes_def)
next
  case (Cons c cs)
  obtain st bs op1 s1 evs' where x: "kdf_exec env E X c (Some (Some ctx)) s = Some (st, bs, op1, s1)"
    and rest: "kdf_run env E X cs op1 s1 = Some (evs', Some (Some ctx'), s')"
    and evs: "evs = \<lparr>ev_call = c, ev_op = Some (Some ctx), ev_keys = s, ev_status = st, ev_bytes = bs\<rparr> # evs'"
    using Cons.prems(1) by (rule kdf_run_Cons)
  have rdy: "kdf_ready R (kdf_request c) ctx"
    by (rule kdf_ready_weaken [OF Cons.prems(4)]) simp
  from kdf_exec_mono [OF ok rdy _ x] Cons.prems(2) obtain ctx1 where
    c1: "op1 = Some (Some ctx1)" "kdf_mono R (kdf_request c) ctx ctx1 bs" by auto
  have rdy1: "kdf_ready R (kdf_requests cs) ctx1"
    by (rule kdf_ready_step [OF _ c1(2)]) (use Cons.prems(4) in simp)
  have ih: "kdf_bytes evs' = map (kdf_stream R ctx') [kd_output_offset ctx1..<kd_output_offset ctx']"
    "kd_output_offset ctx1 \<le> kd_output_offset ctx'"
    using Cons.IH [OF rest [unfolded c1(1)] _ _ rdy1] Cons.prems(2,3) by simp_all
  have off: "kd_output_offset ctx1 = kd_output_offset ctx + length bs"
    by (rule kdf_exec_exact [OF ok rdy _ _ x [unfolded c1(1)]]) (use Cons.prems(2,3) in auto)
  obtain m where m: "kdf_mono R m ctx1 ctx' []"
    using kdf_run_mono [OF ok rest [unfolded c1(1)] _ rdy1] Cons.prems(2) by auto
  have "bs = map (kdf_stream R ctx') [kd_output_offset ctx..<kd_output_offset ctx1]"
    using kdf_mono_bytes [OF c1(2) m] off by simp
  moreover have "[kd_output_offset ctx..<kd_output_offset ctx'] =
      [kd_output_offset ctx..<kd_output_offset ctx1] @ [kd_output_offset ctx1..<kd_output_offset ctx']"
    using off ih(2) upt_add_eq_append [of "kd_output_offset ctx" "kd_output_offset ctx1"
      "kd_output_offset ctx' - kd_output_offset ctx1"] by simp
  ultimately show ?case using ih off by (simp add: evs kdf_bytes_def)
qed

end
