(* ===== verification/Kdf_Demo.thy ===== *)
theory Kdf_Demo
  imports Kdf_Runs
begin

text \<open>
  A concrete engine that keeps what wolfCrypt promises, a key store with one key for HKDF, and a
  concrete derivation, for the theorems about runs.
\<close>

unbundle bit_operations_syntax

section \<open>An engine\<close>

definition demo_stream :: "byte list \<Rightarrow> nat \<Rightarrow> byte" where
  "demo_stream k i = sum_list k + word_of_nat i"

definition demo_kdf :: "(wc_hash_type \<times> byte list \<times> byte list) kdf_engine" where
  "demo_kdf =
    \<lparr>ke_mac = demo_mac, wc_HashGetDigestSize = (\<lambda>h. int (digest_size h)),
     wc_HKDF_Extract = (\<lambda>h salt ikm dev. (WC_OK, demo_mac_fun h salt ikm)),
     wc_HKDF_Expand = (\<lambda>h prk info n dev. (WC_OK, prefix_of (demo_stream (prk @ info)) n)),
     wc_PRF_TLS = (\<lambda>n k l sd m dev. (WC_OK, prefix_of (demo_stream (k @ l @ sd)) n)),
     wc_PBKDF2 = (\<lambda>pw salt it n h dev. (WC_OK, prefix_of (demo_stream (pw @ salt)) n))\<rparr>"

definition demo_kdf_ref :: kdf_ref where
  "demo_kdf_ref =
    \<lparr>kr_mac = demo_mac_fun, kr_extract = demo_mac_fun, kr_expand = (\<lambda>h prk info. demo_stream (prk @ info)),
     kr_prf = (\<lambda>m k l sd. demo_stream (k @ l @ sd)), kr_pbkdf2 = (\<lambda>h pw salt it. demo_stream (pw @ salt))\<rparr>"

lemma demo_kdf_ok: "kdf_engine_ok demo_kdf demo_kdf_ref (\<lambda>c. c)"
  by (simp add: kdf_engine_ok_def demo_kdf_def demo_kdf_ref_def demo_mac_ok demo_mac_fun_def)

text \<open>An elliptic-curve engine that gives a constant secret of the size of the buffer.\<close>

definition demo_ecdh :: "(unit, unit) ecdh_engine" where
  "demo_ecdh =
    \<lparr>ec_devid = 0, ec_init = (\<lambda>_ _. (WC_OK, ())), ec_import_private = (\<lambda>_ _ _. (WC_OK, ())),
     ec_set_rng = (\<lambda>_ _. (WC_OK, ())), ec_make_pub = (\<lambda>_. (WC_OK, ())), ec_import_x963 = (\<lambda>_ _ _. (WC_OK, ())),
     ec_shared_secret = (\<lambda>_ _ n. (WC_OK, replicate n 3)), CURVE25519_BLINDING = True,
     x25519_init = (\<lambda>_ _. (WC_OK, ())), x25519_set_rng = (\<lambda>_ _. (WC_OK, ())),
     x25519_import_private = (\<lambda>_ _. (WC_OK, ())), x25519_import_public = (\<lambda>_ _. (WC_OK, ())),
     x25519_shared_secret = (\<lambda>_ _ n. (WC_OK, replicate 32 3)),
     x448_init = (\<lambda>_ _. (WC_OK, ())), x448_import_private = (\<lambda>_ _. (WC_OK, ())),
     x448_import_public = (\<lambda>_ _. (WC_OK, ())), x448_shared_secret = (\<lambda>_ _ n. (WC_OK, replicate 56 3))\<rparr>"

section \<open>Keys\<close>

text \<open>HKDF with SHA-256, and a stored key for it.\<close>

abbreviation demo_hkdf :: psa_algorithm_t where "demo_hkdf \<equiv> 0x08000109"

definition demo_kdf_attr :: psa_key_attributes_t where
  "demo_kdf_attr = psa_key_attributes_init
    \<lparr>type := PSA_KEY_TYPE_DERIVE, bits := 128,
     policy := \<lparr>usage = PSA_KEY_USAGE_DERIVE, alg = demo_hkdf, alg2 = PSA_ALG_NONE\<rparr>\<rparr>"

abbreviation demo_kdf_ks :: "unit posix_state key_store" where
  "demo_kdf_ks \<equiv> demo_with demo_kdf_attr demo_key"

text \<open>Volatile raw data of two bytes, and its import beside the stored key.\<close>

definition demo_raw_attr :: psa_key_attributes_t where
  "demo_raw_attr = psa_key_attributes_init\<lparr>type := PSA_KEY_TYPE_RAW_DATA, bits := 16\<rparr>"

lemma demo_raw_validate:
  "length d = 2 \<Longrightarrow> import_validate demo_env (Some demo_raw_attr) (In d) False = Inr demo_raw_attr"
  by (auto simp: import_validate_def import_check_args_def import_bits_def import_check_data_def
      import_check_chacha_def import_check_raw_def wolfpsa_usage_flags_valid_def psa_defs
      psa_get_key_usage_flags_def Let_def demo_raw_attr_def psa_key_attributes_init_def)

lemma demo_raw_import:
  assumes "length d = 2"
  shows "\<exists>s'. psa_import_key demo_env (Some demo_raw_attr) (In d) False ((demo_with a k)\<lparr>rng_calls := i\<rparr>) =
    (PSA_SUCCESS, PSA_KEY_ID_VENDOR_MIN + 1, s')"
proof -
  let ?t = "(demo_with a k)\<lparr>rng_calls := i\<rparr>"
  let ?s = "?t\<lparr>g_next_key_id := PSA_KEY_ID_VENDOR_MIN + 2\<rparr>"
  have r: "ready default_build ?t" "ready default_build ?s" "alloc_next ?s" "alloc_rest ?s = ?s"
    "wolfpsa_volatile_find ?s (PSA_KEY_ID_VENDOR_MIN + 1) = None"
    by (simp_all add: demo_with_def demo_ks_def fresh_store_def ready_def lock_ok_def default_build_def alloc_next_def
        alloc_rest_def wolfpsa_volatile_find_def)
  have l: "PSA_KEY_LIFETIME_IS_VOLATILE (lifetime demo_raw_attr)"
    by (simp add: demo_raw_attr_def psa_key_attributes_init_def psa_defs)
  have n: "g_next_key_id ?t = PSA_KEY_ID_VENDOR_MIN + 1" by (simp add: demo_with_def)
  have i: "?t\<lparr>g_key_storage_initialized := True\<rparr> = ?t" by (simp add: demo_with_def)
  have len: "c_int 26 = 26" by (simp add: c_int_def)
  have d: "d \<noteq> []" using assms by auto
  show ?thesis
    using assms d r l n check_init_ready [OF r(1)]
    by (simp add: psa_import_key_def demo_raw_validate assign_id_ready import_store_ready volatile_store_ready
        import_finish_def len i)
qed

section \<open>A derivation\<close>

lemmas kdf_eval =
  psa_key_derivation_set_capacity_def wolfpsa_kdf_get_ctx_def wolfpsa_kdf_check_state_def kdf_new_ctx_def
  wolfpsa_kdf_set_capacity_def Let_def kdf_hash_type_from_alg_def psa_defs wolfpsa_kdf_done_def
  psa_key_derivation_input_key_def kdf_entry_def wolfpsa_kdf_input_key_def wolfpsa_kdf_validate_step_def
  kdf_validate_hkdf_def wolfpsa_kdf_step_mask_def wolfpsa_kdf_key_type_ok_def wolfpsa_kdf_key_inputs_def
  wolfpsa_kdf_key_alg_permitted_def wolfpsa_kdf_input_bytes_def wolfpsa_kdf_append_def
  psa_key_derivation_input_bytes_def psa_key_derivation_output_bytes_def wolfpsa_kdf_output_bytes_def
  kdf_output_check_def kdf_snapshot_L_def kdf_is_sp800_def wolfpsa_kdf_require_output_def kdf_fill_cache_def
  wolfpsa_kdf_compute_output_def wolfpsa_kdf_hkdf_def kdf_hkdf_full_def wc_try_def kdf_serve_def

definition demo_kdf_ctx :: wolfpsa_kdf_ctx where
  "demo_kdf_ctx = (kdf_new_ctx demo_hkdf demo_hkdf)\<lparr>kd_capacity := 8160\<rparr>"

lemma demo_kdf_setup:
  "psa_key_derivation_setup demo_kdf (Some None) demo_hkdf demo_kdf_ks =
    (PSA_SUCCESS, Some (Some demo_kdf_ctx), demo_kdf_ks)"
  by (simp add: psa_key_derivation_setup_def demo_kdf_def demo_kdf_ctx_def kdf_eval)

text \<open>The capacity is reduced, the stored key and an info string go in.\<close>

definition demo_kdf_inputs :: "kdf_call list" where
  "demo_kdf_inputs =
    [Kd_SetCapacity 8, Kd_InputKey PSA_KEY_DERIVATION_INPUT_SECRET PSA_KEY_ID_VENDOR_MIN,
     Kd_InputBytes PSA_KEY_DERIVATION_INPUT_INFO (In [7])]"

definition demo_kdf_ctx2 :: wolfpsa_kdf_ctx where
  "demo_kdf_ctx2 = demo_kdf_ctx
    \<lparr>kd_capacity := 8, kd_steps_set := 9, kd_secret := demo_key, kd_info := [7], kd_can_output_key := True\<rparr>"

lemma demo_kdf_attr_simps [simp]:
  "type demo_kdf_attr = PSA_KEY_TYPE_DERIVE" "usage (policy demo_kdf_attr) = PSA_KEY_USAGE_DERIVE"
  "alg (policy demo_kdf_attr) = demo_hkdf" "alg2 (policy demo_kdf_attr) = PSA_ALG_NONE"
  by (simp_all add: demo_kdf_attr_def)

lemma demo_kdf_inputs_run:
  "\<exists>evs. kdf_run demo_env demo_kdf demo_ecdh demo_kdf_inputs (Some (Some demo_kdf_ctx)) demo_kdf_ks =
      Some (evs, Some (Some demo_kdf_ctx2), demo_kdf_ks) \<and> length evs = 3 \<and> kdf_bytes evs = []"
  by (simp add: demo_kdf_inputs_def demo_kdf_ctx2_def demo_kdf_ctx_def demo_kdf_def kdf_eval kdf_bytes_def)

definition demo_kdf_stream :: "nat \<Rightarrow> byte" where
  "demo_kdf_stream = demo_stream (demo_mac_fun WC_HASH_TYPE_SHA256 [] demo_key @ [7])"

definition demo_kdf_ctx3 :: "nat \<Rightarrow> wolfpsa_kdf_ctx" where
  "demo_kdf_ctx3 n = demo_kdf_ctx2
    \<lparr>kd_capacity := 8 - n, kd_output_offset := n, kd_output_started := True,
     kd_output_cache := Some (prefix_of demo_kdf_stream 8)\<rparr>"

lemma demo_extract_length [simp]: "take 32 (demo_mac_fun WC_HASH_TYPE_SHA256 s k) = demo_mac_fun WC_HASH_TYPE_SHA256 s k"
  by (simp add: demo_mac_fun_def)

lemma demo_first_read:
  "n \<le> 8 \<Longrightarrow> psa_key_derivation_output_bytes demo_kdf (Some (Some demo_kdf_ctx2)) (Out n) demo_kdf_ks =
    Some (PSA_SUCCESS, prefix_of demo_kdf_stream n, Some (Some (demo_kdf_ctx3 n)), demo_kdf_ks)"
  by (simp add: demo_kdf_ctx3_def demo_kdf_ctx2_def demo_kdf_ctx_def demo_kdf_stream_def demo_kdf_def kdf_eval take_map take_upt)

lemma demo_next_read:
  "m + n \<le> 8 \<Longrightarrow> psa_key_derivation_output_bytes demo_kdf (Some (Some (demo_kdf_ctx3 m))) (Out n) demo_kdf_ks =
    Some (PSA_SUCCESS, map demo_kdf_stream [m..<m + n], Some (Some (demo_kdf_ctx3 (m + n))), demo_kdf_ks)"
  using take_drop_prefix_of [of m n 8 demo_kdf_stream]
  by (auto simp: demo_kdf_ctx3_def demo_kdf_ctx2_def demo_kdf_ctx_def demo_kdf_def kdf_eval)

lemma demo_output_key:
  "\<exists>kid s'. psa_key_derivation_output_key demo_env demo_kdf (Some demo_raw_attr) (Some (Some demo_kdf_ctx2)) False
      demo_kdf_ks = Some (PSA_SUCCESS, kid, Some (Some (demo_kdf_ctx3 2)), s')"
proof -
  have a: "type demo_raw_attr = PSA_KEY_TYPE_RAW_DATA" "bits demo_raw_attr = 16"
    by (simp_all add: demo_raw_attr_def)
  have c: "kd_can_output_key demo_kdf_ctx2" "\<not> kd_error_state demo_kdf_ctx2"
    by (simp_all add: demo_kdf_ctx2_def demo_kdf_ctx_def kdf_new_ctx_def)
  have "demo_kdf_ks = demo_kdf_ks\<lparr>rng_calls := rng_calls demo_kdf_ks\<rparr>" by simp
  then obtain s' where "psa_import_key demo_env (Some demo_raw_attr) (In (prefix_of demo_kdf_stream 2)) False demo_kdf_ks =
      (PSA_SUCCESS, PSA_KEY_ID_VENDOR_MIN + 1, s')"
    using demo_raw_import [where d = "prefix_of demo_kdf_stream 2" and a = demo_kdf_attr and k = demo_key
        and i = "rng_calls demo_kdf_ks"] by auto
  then show ?thesis using c
    by (simp add: psa_key_derivation_output_key_def wolfpsa_kdf_output_key_def wolfpsa_kdf_get_ctx_def
        wolfpsa_kdf_check_state_def a psa_defs demo_first_read wolfpsa_kdf_done_def del: upt_Suc)
qed

end
