(* ===== verification/Kdf_Properties.thy ===== *)
theory Kdf_Properties
  imports Kdf_Demo
begin

text \<open>
  What a caller of the key-derivation API can rely on, from \<open>psa_key_derivation_setup\<close> on and over
  every sequence of calls: the bytes delivered are those of one stream, the capacity is a budget,
  an error is final, a key comes out only after a key that may be derived from went in, and every
  call returns as long as the block counter of PBKDF2 does not wrap around.
\<close>

unbundle bit_operations_syntax

section \<open>Set-up\<close>

text \<open>The derivation that an algorithm names, and the bytes that it can ever deliver.\<close>

definition kdf_alg_of :: "psa_algorithm_t \<Rightarrow> psa_algorithm_t" where
  "kdf_alg_of a = (if PSA_ALG_IS_KEY_AGREEMENT a then PSA_ALG_KEY_AGREEMENT_GET_KDF a else a)"

definition kdf_limit :: "psa_algorithm_t \<Rightarrow> nat option" where
  "kdf_limit a =
    (let k = kdf_alg_of a; n = digest_size (kdf_hash_type_from_alg k) in
     if PSA_ALG_IS_HKDF_EXTRACT k then Some n
     else if PSA_ALG_IS_HKDF k \<or> PSA_ALG_IS_HKDF_EXPAND k then Some (255 * n)
     else if PSA_ALG_IS_SP800_108_COUNTER_HMAC k \<or> k = PSA_ALG_SP800_108_COUNTER_CMAC then Some (2 ^ 29 - 1)
     else None)"

text \<open>The capacity that a set-up gives.\<close>

definition kdf_capacity0 :: "'c kdf_engine \<Rightarrow> psa_algorithm_t \<Rightarrow> nat" where
  "kdf_capacity0 E k =
    (let d = nat (wc_HashGetDigestSize E (kdf_hash_type_from_alg k)) in
     if PSA_ALG_IS_SP800_108_COUNTER_HMAC k \<or> k = PSA_ALG_SP800_108_COUNTER_CMAC then 0x1fffffff
     else if PSA_ALG_IS_ANY_HKDF k then (if PSA_ALG_IS_HKDF_EXTRACT k then d else 255 * d)
     else SIZE_MAX)"

lemma setup_ctx:
  assumes "psa_key_derivation_setup E op0 a s = (PSA_SUCCESS, op, s')"
  shows "op0 = Some None"
    and "op = Some (Some ((kdf_new_ctx a (kdf_alg_of a))\<lparr>kd_capacity := kdf_capacity0 E (kdf_alg_of a)\<rparr>))"
    and "PSA_ALG_IS_ANY_HKDF (kdf_alg_of a) \<Longrightarrow> kdf_hash_type_from_alg (kdf_alg_of a) \<noteq> WC_HASH_TYPE_NONE"
proof -
  have eta: "(kdf_new_ctx a k)\<lparr>kd_capacity := SIZE_MAX\<rparr> = kdf_new_ctx a k" for k
    by (simp add: kdf_new_ctx_def)
  note u = assms [unfolded psa_key_derivation_setup_def, folded kdf_alg_of_def, unfolded Let_def]
  show "op0 = Some None" and
    "PSA_ALG_IS_ANY_HKDF (kdf_alg_of a) \<Longrightarrow> kdf_hash_type_from_alg (kdf_alg_of a) \<noteq> WC_HASH_TYPE_NONE"
    using u by (auto split: if_splits)
  obtain ok s1 where x: "s_xmalloc s = (ok, s1)" by fastforce
  show "op = Some (Some ((kdf_new_ctx a (kdf_alg_of a))\<lparr>kd_capacity := kdf_capacity0 E (kdf_alg_of a)\<rparr>))"
    using u [unfolded x prod.case] unfolding kdf_capacity0_def Let_def
    by (simp add: eta [simplified] split: if_split_asm) auto
qed

lemma digest_size_le: "digest_size h \<le> 64"
  by (cases h) simp_all

text \<open>The set-up agrees with the limits of the standards.\<close>

lemma capacity0_limit:
  assumes ok: "kdf_engine_ok E R V"
    and h: "PSA_ALG_IS_ANY_HKDF (kdf_alg_of a) \<Longrightarrow> kdf_hash_type_from_alg (kdf_alg_of a) \<noteq> WC_HASH_TYPE_NONE"
  shows "kdf_capacity0 E (kdf_alg_of a) = (case kdf_limit a of None \<Rightarrow> SIZE_MAX | Some m \<Rightarrow> m)"
proof -
  have any: "PSA_ALG_IS_ANY_HKDF k \<longleftrightarrow> PSA_ALG_IS_HKDF_EXTRACT k \<or> PSA_ALG_IS_HKDF k \<or> PSA_ALG_IS_HKDF_EXPAND k" for k
    by (auto simp: PSA_ALG_IS_ANY_HKDF_def PSA_ALG_IS_HKDF_def PSA_ALG_IS_HKDF_EXTRACT_def PSA_ALG_IS_HKDF_EXPAND_def)
  have "\<not> PSA_ALG_IS_ANY_HKDF k" if "PSA_ALG_IS_SP800_108_COUNTER_HMAC k \<or> k = PSA_ALG_SP800_108_COUNTER_CMAC" for k
    using that by (auto simp: psa_defs)
  then show ?thesis using h kdf_engine_okD(2) [OF ok] any [of "kdf_alg_of a"]
    by (auto simp: kdf_capacity0_def kdf_limit_def Let_def)
qed

lemma kdf_limit_small: "kdf_limit a = Some m \<Longrightarrow> m < 2 ^ 29"
  using digest_size_le [of "kdf_hash_type_from_alg (kdf_alg_of a)"]
  by (auto simp: kdf_limit_def Let_def split: if_splits)

lemma setup_ready:
  assumes ok: "kdf_engine_ok E R V" and r: "psa_key_derivation_setup E op0 a s = (PSA_SUCCESS, op, s')"
    and n: "n \<le> SIZE_MAX - 15"
  obtains ctx where "op = Some (Some ctx)" "kdf_ready R n ctx" "kd_output_offset ctx = 0"
    "kd_capacity ctx = (case kdf_limit a of None \<Rightarrow> SIZE_MAX | Some m \<Rightarrow> m)"
proof -
  have c: "kdf_capacity0 E (kdf_alg_of a) = (case kdf_limit a of None \<Rightarrow> SIZE_MAX | Some m \<Rightarrow> m)"
    by (rule capacity0_limit [OF ok setup_ctx(3) [OF r]])
  moreover have "(case kdf_limit a of None \<Rightarrow> SIZE_MAX | Some m \<Rightarrow> m) \<le> SIZE_MAX"
    using kdf_limit_small [of a] by (auto split: option.split)
  ultimately show ?thesis using n
    by (intro that [OF setup_ctx(2) [OF r]]) (simp_all add: kdf_ready_def kdf_good_def kdf_new_ctx_def)
qed

section \<open>One stream\<close>

lemma kdf_run_append:
  "kdf_run env E X cs1 op s = Some (evs1, op1, s1) \<Longrightarrow> kdf_run env E X cs2 op1 s1 = Some (evs2, op2, s2) \<Longrightarrow>
   kdf_run env E X (cs1 @ cs2) op s = Some (evs1 @ evs2, op2, s2)"
  by (induction cs1 arbitrary: op s evs1) (auto split: option.splits)

lemma demo_kdf_reads:
  "\<exists>evs. kdf_run demo_env demo_kdf demo_ecdh [Kd_OutputBytes (Out 2), Kd_OutputBytes (Out 3)]
      (Some (Some demo_kdf_ctx2)) demo_kdf_ks = Some (evs, Some (Some (demo_kdf_ctx3 5)), demo_kdf_ks) \<and>
    length (kdf_bytes evs) = 5"
  using demo_first_read [of 2] demo_next_read [of 2 3] by (simp add: kdf_bytes_def del: upt_Suc)

lemma demo_kdf_inputs_simps [simp]: "Kd_Abort \<notin> set demo_kdf_inputs" "kdf_requests demo_kdf_inputs = 0"
  "list_all (\<lambda>c. \<not> kdf_hidden c) demo_kdf_inputs"
  by (simp_all add: demo_kdf_inputs_def)

lemma kdf_requests_append [simp]: "kdf_requests (cs1 @ cs2) = kdf_requests cs1 + kdf_requests cs2"
  by (simp add: kdf_requests_def)

text \<open>
  C5: Whatever sequence of calls a program makes on a key-derivation operation that it has set up
  (inputs, changes of the capacity, outputs of bytes and keys, verifications, with whatever
  failures on the way, up to the abort), the inputs of the final state define one stream of
  bytes: HKDF of RFC 5869, the TLS 1.2 PRF, the TLS PSK-to-master-secret derivation, PBKDF2,
  the SP 800-108 counter mode or the raw shared secret, as the algorithm says. Every call
  delivered the bytes of that stream from the position it was called at on, although the code
  serves some calls from a cache and recomputes others from the start; a program that only reads
  bytes gets a prefix of the stream, however it cut its reads. The requests of the run together
  are at most \<open>SIZE_MAX - 15\<close> bytes, which no buffers in memory exceed (a block count of the code
  wraps above).
\<close>

theorem kdf_run_stream:
  assumes ok: "kdf_engine_ok E R V"
    and st: "psa_key_derivation_setup E op0 a s0 = (PSA_SUCCESS, op, s)"
    and r: "kdf_run env E X cs op s = Some (evs, op', s')" and na: "Kd_Abort \<notin> set cs"
    and n: "kdf_requests cs \<le> SIZE_MAX - 15"
  shows "\<exists>ctx'. op' = Some (Some ctx') \<and> (\<forall>ev \<in> set evs. event_in_stream (kdf_stream R ctx') ev) \<and>
    (list_all (\<lambda>c. \<not> kdf_hidden c) cs \<longrightarrow>
       kdf_bytes evs = prefix_of (kdf_stream R ctx') (length (kdf_bytes evs)))"
proof -
  obtain ctx where c: "op = Some (Some ctx)" "kdf_ready R (kdf_requests cs) ctx" "kd_output_offset ctx = 0"
    using setup_ready [OF ok st n] by metis
  from kdf_run_mono [OF ok r [unfolded c(1)] na c(2)] obtain ctx' where
    c': "op' = Some (Some ctx')" "\<forall>ev \<in> set evs. event_in_stream (kdf_stream R ctx') ev" by blast
  have "kdf_bytes evs = prefix_of (kdf_stream R ctx') (length (kdf_bytes evs))"
    if "list_all (\<lambda>c. \<not> kdf_hidden c) cs"
    using kdf_run_exact [OF ok r [unfolded c(1) c'(1)] na that c(2)] c(3) by simp
  with c' show ?thesis by blast
qed

theorem kdf_run_stream_witness:
  "\<exists>evs. kdf_run demo_env demo_kdf demo_ecdh
       (demo_kdf_inputs @ [Kd_OutputBytes (Out 2), Kd_OutputBytes (Out 3)])
       (Some (Some demo_kdf_ctx)) demo_kdf_ks = Some (evs, Some (Some (demo_kdf_ctx3 5)), demo_kdf_ks) \<and>
     kdf_bytes evs = prefix_of (kdf_stream demo_kdf_ref (demo_kdf_ctx3 5)) 5"
proof -
  let ?cs = "demo_kdf_inputs @ [Kd_OutputBytes (Out 2), Kd_OutputBytes (Out 3)]"
  obtain evs where r: "kdf_run demo_env demo_kdf demo_ecdh ?cs (Some (Some demo_kdf_ctx)) demo_kdf_ks =
      Some (evs, Some (Some (demo_kdf_ctx3 5)), demo_kdf_ks)" and n: "length (kdf_bytes evs) = 5"
    using demo_kdf_inputs_run demo_kdf_reads kdf_run_append by (fastforce simp: kdf_bytes_def)
  from kdf_run_stream [OF demo_kdf_ok demo_kdf_setup r] n r show ?thesis by simp
qed

section \<open>The capacity\<close>

lemma get_capacity_iff:
  "psa_key_derivation_get_capacity op (Some x) = (PSA_SUCCESS, Some cap) \<longleftrightarrow>
    (\<exists>ctx. op = Some (Some ctx) \<and> kd_capacity ctx = cap)"
  by (auto simp: psa_key_derivation_get_capacity_def wolfpsa_kdf_get_ctx_def split: option.splits)

text \<open>
  C34: The capacity is a budget. If it is finite at some point of a run, then the bytes delivered
  from there on together with the capacity that is left never exceed it, whatever calls are
  made. Over the whole run an HKDF operation delivers at most 255 digests, an HKDF-Extract
  operation at most one, and an SP 800-108 operation at most 2^29 - 1 bytes, so that the length
  in bits fits the 32-bit field that is fed to the PRF. Delivered are the bytes given to the
  caller, without those that were made into keys or compared; the requests of the run together are
  at most \<open>SIZE_MAX - 15\<close> bytes.
\<close>

theorem kdf_capacity_budget:
  assumes ok: "kdf_engine_ok E R V"
    and st: "psa_key_derivation_setup E op0 a s0 = (PSA_SUCCESS, op, s)"
    and r1: "kdf_run env E X cs1 op s = Some (evs1, op1, s1)"
    and r2: "kdf_run env E X cs2 op1 s1 = Some (evs2, op2, s2)"
    and na: "Kd_Abort \<notin> set (cs1 @ cs2)" and n: "kdf_requests (cs1 @ cs2) \<le> SIZE_MAX - 15"
  shows "(\<forall>cap. psa_key_derivation_get_capacity op1 (Some 0) = (PSA_SUCCESS, Some cap) \<and>
      cap \<noteq> PSA_KEY_DERIVATION_UNLIMITED_CAPACITY \<longrightarrow>
      (\<exists>cap2. psa_key_derivation_get_capacity op2 (Some 0) = (PSA_SUCCESS, Some cap2) \<and>
        length (kdf_bytes evs2) + cap2 \<le> cap)) \<and>
    (\<forall>m. kdf_limit a = Some m \<longrightarrow> length (kdf_bytes (evs1 @ evs2)) \<le> m)"
proof -
  have rq: "kdf_requests (cs1 @ cs2) = kdf_requests cs1 + kdf_requests cs2" by (simp add: kdf_requests_def)
  obtain ctx where c: "op = Some (Some ctx)" "kdf_ready R (kdf_requests cs1 + kdf_requests cs2) ctx"
    "kd_output_offset ctx = 0" "kd_capacity ctx = (case kdf_limit a of None \<Rightarrow> SIZE_MAX | Some m \<Rightarrow> m)"
    using setup_ready [OF ok st n] unfolding rq by metis
  have "kdf_ready R (kdf_requests cs1) ctx" by (rule kdf_ready_weaken [OF c(2)]) simp
  from kdf_run_mono [OF ok r1 [unfolded c(1)] _ this] na obtain ctx1 where
    c1: "op1 = Some (Some ctx1)" "kdf_mono R (kdf_requests cs1) ctx ctx1 []"
      "kd_output_offset ctx + length (kdf_bytes evs1) \<le> kd_output_offset ctx1" by auto
  from kdf_run_mono [OF ok r2 [unfolded c1(1)] _ kdf_ready_step [OF c(2) c1(2)]] na obtain ctx2 where
    c2: "op2 = Some (Some ctx2)" "kdf_mono R (kdf_requests cs2) ctx1 ctx2 []"
      "kd_output_offset ctx1 + length (kdf_bytes evs2) \<le> kd_output_offset ctx2" by auto
  have "length (kdf_bytes (evs1 @ evs2)) \<le> m" if "kdf_limit a = Some m" for m
    using that c(3,4) c1(2,3) c2(2,3) kdf_limit_small [OF that] by (simp add: kdf_mono_def kdf_bytes_def)
  moreover have "length (kdf_bytes evs2) + kd_capacity ctx2 \<le> kd_capacity ctx1"
    if "kd_capacity ctx1 \<noteq> SIZE_MAX" using that c2(2,3) by (simp add: kdf_mono_def)
  ultimately show ?thesis by (auto simp: get_capacity_iff c1(1) c2(1))
qed

theorem kdf_capacity_budget_witness:
  "\<exists>evs cap. kdf_run demo_env demo_kdf demo_ecdh [Kd_OutputBytes (Out 2), Kd_OutputBytes (Out 3)]
       (Some (Some demo_kdf_ctx2)) demo_kdf_ks = Some (evs, Some (Some (demo_kdf_ctx3 5)), demo_kdf_ks) \<and>
     psa_key_derivation_get_capacity (Some (Some (demo_kdf_ctx3 5))) (Some 0) = (PSA_SUCCESS, Some cap) \<and>
     length (kdf_bytes evs) + cap \<le> 8"
proof -
  obtain evs1 where r1: "kdf_run demo_env demo_kdf demo_ecdh demo_kdf_inputs (Some (Some demo_kdf_ctx)) demo_kdf_ks =
      Some (evs1, Some (Some demo_kdf_ctx2), demo_kdf_ks)" using demo_kdf_inputs_run by blast
  obtain evs2 where r2: "kdf_run demo_env demo_kdf demo_ecdh [Kd_OutputBytes (Out 2), Kd_OutputBytes (Out 3)]
      (Some (Some demo_kdf_ctx2)) demo_kdf_ks = Some (evs2, Some (Some (demo_kdf_ctx3 5)), demo_kdf_ks)"
    using demo_kdf_reads by blast
  have "kd_capacity demo_kdf_ctx2 = 8" by (simp add: demo_kdf_ctx2_def)
  with kdf_capacity_budget [OF demo_kdf_ok demo_kdf_setup r1 r2] r2 show ?thesis
    by (simp add: get_capacity_iff)
qed

section \<open>What a call keeps, whatever wolfCrypt does\<close>

lemma fill_cache_keeps:
  assumes "kdf_fill_cache E ctx n s = Some (st, ctx', s')"
  shows "ctx' = ctx \<or> (\<exists>c. ctx' = ctx\<lparr>kd_output_cache := c\<rparr>)"
  using assms unfolding kdf_fill_cache_def by (auto split: if_splits option.splits prod.splits sum.splits)

lemma require_snapshot_keeps:
  assumes "wolfpsa_kdf_require_output (kdf_snapshot_L ctx) n = (st, ctx')"
  shows "kdf_inputs_same ctx ctx'" "kd_output_offset ctx' = kd_output_offset ctx"
  using assms by (auto simp: wolfpsa_kdf_require_output_def kdf_snapshot_L_def split: if_splits)

lemma output_bytes_keeps:
  assumes r: "wolfpsa_kdf_output_bytes E ctx output s = Some (st, bs, ctx', s')"
  shows "kdf_inputs_same ctx ctx' \<and> kd_output_offset ctx' \<le> kd_output_offset ctx + out_size output"
proof -
  let ?n = "out_size output"
  obtain st1 ctx1 where q: "wolfpsa_kdf_require_output (kdf_snapshot_L ctx) ?n = (st1, ctx1)" by fastforce
  note k = require_snapshot_keeps [OF q]
  show ?thesis
  proof (cases "kdf_fill_cache E (ctx1\<lparr>kd_output_started := True\<rparr>) ?n s")
    case None
    then show ?thesis using r q k by (auto simp: wolfpsa_kdf_output_bytes_def Let_def split: if_splits)
  next
    case (Some p)
    obtain st2 ctx3 s1 where p: "p = (st2, ctx3, s1)" by (cases p)
    from fill_cache_keeps [OF Some [unfolded p]] k have "kdf_inputs_same ctx ctx3" "kd_output_offset ctx3 = kd_output_offset ctx"
      by auto
    then show ?thesis using r q k Some p
      by (auto simp: wolfpsa_kdf_output_bytes_def Let_def split: if_splits option.splits prod.splits sum.splits)
  qed
qed

lemma done_offset [simp]:
  "kd_output_offset (snd (wolfpsa_kdf_done ctx st)) = kd_output_offset ctx"
  "kd_alg (snd (wolfpsa_kdf_done ctx st)) = kd_alg ctx"
  "kd_can_output_key (snd (wolfpsa_kdf_done ctx st)) = kd_can_output_key ctx"
  "kd_is_key_agreement (snd (wolfpsa_kdf_done ctx st)) = kd_is_key_agreement ctx"
  by (simp_all add: wolfpsa_kdf_done_def)

lemma output_bytes_entry:
  assumes "psa_key_derivation_output_bytes E (Some (Some ctx)) output s = Some (st, bs, op', s')"
  shows "\<exists>ctx'. op' = Some (Some ctx') \<and> kdf_inputs_same ctx ctx' \<and>
    kd_output_offset ctx' \<le> kd_output_offset ctx + out_size output"
  using assms
  by (auto simp: psa_key_derivation_output_bytes_def wolfpsa_kdf_get_ctx_def dest: output_bytes_keeps
      split: if_splits option.splits)

lemma verify_bytes_entry:
  assumes "psa_key_derivation_verify_bytes E (Some (Some ctx)) d s = Some (st, op', s')"
  shows "\<exists>ctx'. op' = Some (Some ctx') \<and> kdf_inputs_same ctx ctx' \<and>
    kd_output_offset ctx' \<le> kd_output_offset ctx + min (in_length d) INT_MAX"
proof (cases "kd_error_state ctx")
  case True
  then show ?thesis using assms by (auto simp: error_entry(2))
next
  case False
  then obtain op1 where v: "wolfpsa_kdf_verify_bytes E ctx d s = Some (st, op1, s')" and op': "op' = kdf_done_op op1 st"
    using assms by (auto simp: psa_key_derivation_verify_bytes_def wolfpsa_kdf_get_ctx_def wolfpsa_kdf_check_state_def
        split: option.splits)
  have "op1 = Some (Some ctx) \<or> in_length d \<le> INT_MAX \<and>
      (\<exists>st1 bs s1. psa_key_derivation_output_bytes E (Some (Some ctx)) (Out (in_length d)) s1 = Some (st1, bs, op1, s'))"
    using v by (auto simp: wolfpsa_kdf_verify_bytes_def Let_def split: if_splits option.splits prod.splits)
  then show ?thesis
  proof (elim disjE conjE exE)
    fix st1 bs s1
    assume "in_length d \<le> INT_MAX"
      and "psa_key_derivation_output_bytes E (Some (Some ctx)) (Out (in_length d)) s1 = Some (st1, bs, op1, s')"
    with output_bytes_entry [OF this(2)] op' show ?thesis by auto
  qed (use op' in auto)
qed

lemma verify_key_entry:
  assumes "psa_key_derivation_verify_key env E (Some (Some ctx)) k s = Some (st, op', s')"
  shows "\<exists>ctx'. op' = Some (Some ctx') \<and> kdf_inputs_same ctx ctx' \<and>
    kd_output_offset ctx' \<le> kd_output_offset ctx + INT_MAX"
proof (cases "kd_error_state ctx")
  case True
  then show ?thesis using assms by (auto simp: error_entry(3))
next
  case False
  then obtain op1 where v: "wolfpsa_kdf_verify_key env E ctx k s = Some (st, op1, s')" and op': "op' = kdf_done_op op1 st"
    using assms by (auto simp: psa_key_derivation_verify_key_def wolfpsa_kdf_get_ctx_def wolfpsa_kdf_check_state_def
        split: option.splits)
  have "op1 = Some (Some ctx) \<or>
      (\<exists>d s1. psa_key_derivation_verify_bytes E (Some (Some ctx)) (In d) s1 = Some (st, op1, s'))"
    using v by (auto simp: wolfpsa_kdf_verify_key_def Let_def split: if_splits sum.splits prod.splits)
  then show ?thesis
  proof (elim disjE exE)
    fix d s1
    assume "psa_key_derivation_verify_bytes E (Some (Some ctx)) (In d) s1 = Some (st, op1, s')"
    from verify_bytes_entry [OF this] op' show ?thesis by fastforce
  qed (use op' in auto)
qed

lemma output_key_entry:
  fixes s s' :: "'st key_store"
  assumes "psa_key_derivation_output_key env E attr (Some (Some ctx)) idn s = Some (st, kid, op', s')"
  shows "\<exists>ctx'. op' = Some (Some ctx') \<and> kdf_inputs_same ctx ctx' \<and>
    kd_output_offset ctx' \<le> kd_output_offset ctx + kdf_request (Kd_OutputKey attr idn) \<and>
    (st = PSA_SUCCESS \<longrightarrow> kd_can_output_key ctx)"
proof (cases "kd_error_state ctx")
  case True
  then show ?thesis using assms by (auto simp: error_entry(1))
next
  case False
  then obtain op1 where v: "wolfpsa_kdf_output_key env E attr ctx idn s = Some (st, kid, op1, s')"
    and op': "op' = kdf_done_op op1 st"
    using assms by (auto simp: psa_key_derivation_output_key_def wolfpsa_kdf_get_ctx_def wolfpsa_kdf_check_state_def
        split: option.splits)
  have "op1 = Some (Some ctx) \<and> st \<noteq> PSA_SUCCESS \<or>
      (\<exists>at st1 bs (s1 :: 'st key_store) s2. attr = Some at \<and> kd_can_output_key ctx \<and>
        psa_key_derivation_output_bytes E (Some (Some ctx)) (Out (PSA_BITS_TO_BYTES (unat (bits at)))) s1 =
          Some (st1, bs, op1, s2))"
    using v by (auto simp: wolfpsa_kdf_output_key_def Let_def split: option.splits if_splits prod.splits)
  then show ?thesis
  proof (elim disjE exE conjE)
    fix at st1 bs and s1 s2 :: "'st key_store"
    assume "attr = Some at" "kd_can_output_key ctx"
      and o: "psa_key_derivation_output_bytes E (Some (Some ctx)) (Out (PSA_BITS_TO_BYTES (unat (bits at)))) s1 =
          Some (st1, bs, op1, s2)"
    with output_bytes_entry [OF o] op' show ?thesis by auto
  qed (use op' in auto)
qed

section \<open>Who may take a key out\<close>

text \<open>A key policy that allows a derivation set up with algorithm \<open>a\<close>.\<close>

definition kdf_policy_allows :: "psa_algorithm_t \<Rightarrow> psa_algorithm_t \<Rightarrow> bool" where
  "kdf_policy_allows a p \<longleftrightarrow>
    p \<noteq> PSA_ALG_NONE \<and>
    (if PSA_ALG_IS_KEY_AGREEMENT a
     then PSA_ALG_IS_KEY_AGREEMENT p \<and> PSA_ALG_KEY_AGREEMENT_GET_KDF p = PSA_ALG_KEY_AGREEMENT_GET_KDF a
     else p = a)"

text \<open>
  A call that authorises the output of keys: the successful input, as the secret or the password,
  of a stored key whose policy has the derive usage and allows the algorithm, or the successful
  agreement, as the secret, with a stored key pair. The agreement reads the attributes first,
  allocates the buffer for the secret and loads the key; the attributes and the loaded key must
  have the derive usage, and the loaded key is an elliptic-curve key pair whose policy allows the
  algorithm (\<open>agreement_key_ok\<close>).
\<close>

definition kdf_authorises :: "('st, 'h) psa_env \<Rightarrow> psa_algorithm_t \<Rightarrow> 'st kdf_event \<Rightarrow> bool" where
  "kdf_authorises env a ev \<longleftrightarrow>
    ev_status ev = PSA_SUCCESS \<and>
    (case ev_call ev of
       Kd_InputKey stp k \<Rightarrow>
         (stp = PSA_KEY_DERIVATION_INPUT_SECRET \<or> stp = PSA_KEY_DERIVATION_INPUT_PASSWORD) \<and>
         (case load_key env k (ev_keys ev) of
            (Inl e, s1) \<Rightarrow> False
          | (Inr (attrs, d), s1) \<Rightarrow>
              usage (policy attrs) AND PSA_KEY_USAGE_DERIVE \<noteq> 0 \<and>
              (kdf_policy_allows a (alg (policy attrs)) \<or> kdf_policy_allows a (alg2 (policy attrs))))
     | Kd_KeyAgreement stp k peer \<Rightarrow>
         stp = PSA_KEY_DERIVATION_INPUT_SECRET \<and>
         (case psa_get_key_attributes env k False (ev_keys ev) of
            (ast, attrs, s1) \<Rightarrow>
              ast = PSA_SUCCESS \<and> usage (policy attrs) AND PSA_KEY_USAGE_DERIVE \<noteq> 0 \<and>
              PSA_KEY_TYPE_IS_KEY_PAIR (type attrs) \<and>
              (case load_key env k (snd (s_xmalloc s1)) of
                 (Inl e, s2) \<Rightarrow> False
               | (Inr (attrs2, d), s2) \<Rightarrow> agreement_key_ok a attrs2))
     | _ \<Rightarrow> False)"

definition kdf_for :: "psa_algorithm_t \<Rightarrow> wolfpsa_kdf_ctx \<Rightarrow> bool" where
  "kdf_for a ctx \<longleftrightarrow>
    kd_alg ctx = kdf_alg_of a \<and> kd_is_key_agreement ctx = PSA_ALG_IS_KEY_AGREEMENT a \<and>
    (PSA_ALG_IS_KEY_AGREEMENT a \<longrightarrow> kd_ka_alg ctx = PSA_ALG_KEY_AGREEMENT_GET_BASE a)"

lemma kdf_done_ka_alg [simp]: "kd_ka_alg (snd (wolfpsa_kdf_done ctx st)) = kd_ka_alg ctx"
  by (simp add: wolfpsa_kdf_done_def)

lemma kdf_for_allows:
  "kdf_for a ctx \<Longrightarrow> wolfpsa_kdf_key_alg_permitted ctx p \<Longrightarrow> kdf_policy_allows a p"
  by (auto simp: kdf_for_def wolfpsa_kdf_key_alg_permitted_def kdf_policy_allows_def kdf_alg_of_def split: if_splits)

lemma input_key_grant:
  assumes r: "wolfpsa_kdf_input_key env E ctx stp k s = (st, ctx', s')" and f: "kdf_for a ctx"
    and g: "kd_can_output_key ctx'" "\<not> kd_can_output_key ctx"
  shows "kdf_authorises env a \<lparr>ev_call = Kd_InputKey stp k, ev_op = op, ev_keys = s, ev_status = st, ev_bytes = bs\<rparr>"
  using r
proof (cases rule: input_key_cases)
  case failed
  with g show ?thesis by simp
next
  case (taken attrs d s1 ctx1)
  have "\<not> kd_can_output_key ctx1" using input_bytes_same [OF taken(4)] g(2) by simp
  with taken(5) g(1) have "st = PSA_SUCCESS \<and> usage (policy attrs) AND PSA_KEY_USAGE_DERIVE \<noteq> 0 \<and>
      (stp = PSA_KEY_DERIVATION_INPUT_SECRET \<or> stp = PSA_KEY_DERIVATION_INPUT_PASSWORD)"
    by (auto split: if_splits)
  with taken(1,3) kdf_for_allows [OF f] show ?thesis by (auto simp: kdf_authorises_def)
qed

lemma key_agreement_grant:
  assumes r: "wolfpsa_kdf_key_agreement env E X ctx stp k peer s = (st, ctx', s')" and f: "kdf_for a ctx"
    and g: "kd_can_output_key ctx'" "\<not> kd_can_output_key ctx"
  shows "kdf_authorises env a
    \<lparr>ev_call = Kd_KeyAgreement stp k peer, ev_op = op, ev_keys = s, ev_status = st, ev_bytes = bs\<rparr>"
  using r
proof (cases rule: key_agreement_cases)
  case failed
  with g show ?thesis by simp
next
  case (taken pa s1 s2 secret s3 ctx1)
  have "\<not> kd_can_output_key ctx1" using input_bytes_same [OF taken(5)] g(2) by simp
  with taken(6) g(1) have st: "st = PSA_SUCCESS" "stp = PSA_KEY_DERIVATION_INPUT_SECRET"
    by (auto split: if_splits)
  have a: "PSA_ALG_IS_KEY_AGREEMENT a" using f taken(1) by (simp add: kdf_for_def)
  then have "PSA_ALG_KEY_AGREEMENT (kd_ka_alg ctx) (kd_alg ctx) = a"
    using f agreement_recombine [OF a] by (simp add: kdf_for_def kdf_alg_of_def)
  with taken(4) obtain attrs d s4 where k: "load_key env k s2 = (Inr (attrs, d), s4)" "agreement_key_ok a attrs"
    using agreement_secret_ok [OF _ a] by metis
  have "usage (policy pa) AND PSA_KEY_USAGE_DERIVE \<noteq> 0" "PSA_KEY_TYPE_IS_KEY_PAIR (type pa)"
    using r [unfolded wolfpsa_kdf_key_agreement_def taken(2) prod.case Let_def] g
    by (auto simp: psa_get_key_usage_flags_def split: if_split_asm)
  with st taken(2,3) k show ?thesis by (auto simp: kdf_authorises_def)
qed

text \<open>One call on an active operation.\<close>

lemma kdf_entry_active:
  assumes f: "\<And>st ctx' s'. f ctx s = (st, ctx', s') \<Longrightarrow>
      kdf_output_same ctx ctx' \<and> (kd_can_output_key ctx' \<longrightarrow> kd_can_output_key ctx \<or> P st)"
    and a: "kdf_for a ctx" and r: "kdf_entry (Some (Some ctx)) s f = (st, op', s')"
  shows "\<exists>ctx'. op' = Some (Some ctx') \<and> kdf_for a ctx' \<and> kd_output_offset ctx' \<le> kd_output_offset ctx + n \<and>
    (kd_can_output_key ctx' \<longrightarrow> kd_can_output_key ctx \<or> P st)"
proof (cases "kd_error_state ctx")
  case True
  then show ?thesis using r a by (auto simp: error_entry(5))
next
  case False
  obtain st1 ctx1 s1 where c: "f ctx s = (st1, ctx1, s1)" by (metis prod_cases3)
  with r False have "op' = Some (Some (snd (wolfpsa_kdf_done ctx1 st1)))" "st = st1"
    by (auto simp: kdf_entry_def wolfpsa_kdf_get_ctx_def wolfpsa_kdf_check_state_def wolfpsa_kdf_done_def)
  with f [OF c] a show ?thesis by (auto simp: kdf_output_same_def kdf_for_def)
qed

lemma kdf_exec_active:
  assumes c: "c \<noteq> Kd_Abort" and f: "kdf_for a ctx"
    and r: "kdf_exec env E X c (Some (Some ctx)) s = Some (st, bs, op', s')"
  shows "\<exists>ctx'. op' = Some (Some ctx') \<and> kdf_for a ctx' \<and>
    kd_output_offset ctx' \<le> kd_output_offset ctx + kdf_request c \<and>
    (kd_can_output_key ctx' \<longrightarrow> kd_can_output_key ctx \<or>
       kdf_authorises env a \<lparr>ev_call = c, ev_op = op, ev_keys = s, ev_status = st, ev_bytes = bs\<rparr>) \<and>
    (st = PSA_SUCCESS \<longrightarrow> (\<forall>attr idn. c = Kd_OutputKey attr idn \<longrightarrow> kd_can_output_key ctx))"
proof -
  let ?Q = "\<lambda>st. kdf_authorises env a \<lparr>ev_call = c, ev_op = op, ev_keys = s, ev_status = st, ev_bytes = bs\<rparr>"
  show ?thesis
  proof (cases c)
    case (Kd_Setup b)
    then show ?thesis using r f by (auto simp: psa_key_derivation_setup_def Let_def)
  next
    case Kd_Abort
    with c show ?thesis by simp
  next
    case (Kd_SetCapacity m)
    then show ?thesis using r f
      by (auto simp: psa_key_derivation_set_capacity_def wolfpsa_kdf_get_ctx_def wolfpsa_kdf_set_capacity_def
          wolfpsa_kdf_done_def kdf_for_def Let_def split: if_splits prod.splits)
  next
    case (Kd_InputBytes stp d)
    with r have e: "kdf_entry (Some (Some ctx)) s (\<lambda>ctx s1. wolfpsa_kdf_input_bytes E ctx stp d s1) = (st, op', s')"
      by (auto simp: psa_key_derivation_input_bytes_def split: prod.splits)
    from kdf_entry_active [OF _ f e, of ?Q "kdf_request c"] Kd_InputBytes show ?thesis
      by (auto dest: input_bytes_same)
  next
    case (Kd_InputInteger stp v)
    with r have e: "kdf_entry (Some (Some ctx)) s (\<lambda>ctx s1. case wolfpsa_kdf_input_integer ctx stp v of (status, ctx1) \<Rightarrow> (status, ctx1, s1)) = (st, op', s')"
      by (auto simp: psa_key_derivation_input_integer_def split: prod.splits)
    have "\<exists>ctx'. op' = Some (Some ctx') \<and> kdf_for a ctx' \<and>
        kd_output_offset ctx' \<le> kd_output_offset ctx + kdf_request c \<and>
        (kd_can_output_key ctx' \<longrightarrow> kd_can_output_key ctx \<or> ?Q st)"
      by (rule kdf_entry_active [OF _ f e]) (auto dest: input_integer_same split: prod.splits)
    then show ?thesis by (auto simp: Kd_InputInteger)
  next
    case (Kd_InputKey stp k)
    with r have e: "kdf_entry (Some (Some ctx)) s (\<lambda>ctx s1. wolfpsa_kdf_input_key env E ctx stp k s1) = (st, op', s')"
      by (auto simp: psa_key_derivation_input_key_def split: prod.splits)
    from kdf_entry_active [OF _ f e, of ?Q "kdf_request c"] Kd_InputKey show ?thesis
      by (auto dest: input_key_same intro: input_key_grant [OF _ f])
  next
    case (Kd_KeyAgreement stp k peer)
    with r have e: "kdf_entry (Some (Some ctx)) s (\<lambda>ctx s1. wolfpsa_kdf_key_agreement env E X ctx stp k peer s1) = (st, op', s')"
      by (auto simp: psa_key_derivation_key_agreement_def split: prod.splits)
    from kdf_entry_active [OF _ f e, of ?Q "kdf_request c"] Kd_KeyAgreement show ?thesis
      by (auto dest: key_agreement_same intro: key_agreement_grant [OF _ f])
  next
    case (Kd_OutputBytes ob)
    then show ?thesis using r f output_bytes_entry [of E ctx ob s st bs op' s']
      by (auto simp: kdf_for_def kdf_inputs_sameD)
  next
    case (Kd_OutputKey attr idn)
    with r obtain kid where "psa_key_derivation_output_key env E attr (Some (Some ctx)) idn s = Some (st, kid, op', s')"
      by auto
    from output_key_entry [OF this] Kd_OutputKey f show ?thesis by (auto simp: kdf_for_def kdf_inputs_sameD)
  next
    case (Kd_VerifyBytes d)
    then show ?thesis using r f verify_bytes_entry [of E ctx d s st op' s']
      by (auto simp: kdf_for_def kdf_inputs_sameD)
  next
    case (Kd_VerifyKey k)
    then show ?thesis using r f verify_key_entry [of env E ctx k s st op' s']
      by (auto simp: kdf_for_def kdf_inputs_sameD)
  qed
qed

lemma kdf_run_authorised:
  "kdf_run env E X cs (Some (Some ctx)) s = Some (evs, op', s') \<Longrightarrow> Kd_Abort \<notin> set cs \<Longrightarrow> kdf_for a ctx \<Longrightarrow>
   i < length evs \<Longrightarrow> ev_call (evs ! i) = Kd_OutputKey attr idn \<Longrightarrow> ev_status (evs ! i) = PSA_SUCCESS \<Longrightarrow>
   kd_can_output_key ctx \<or> (\<exists>j < i. kdf_authorises env a (evs ! j))"
proof (induction cs arbitrary: ctx s evs i)
  case (Cons c cs)
  obtain st bs op1 s1 evs' where x: "kdf_exec env E X c (Some (Some ctx)) s = Some (st, bs, op1, s1)"
    and rest: "kdf_run env E X cs op1 s1 = Some (evs', op', s')"
    and evs: "evs = \<lparr>ev_call = c, ev_op = Some (Some ctx), ev_keys = s, ev_status = st, ev_bytes = bs\<rparr> # evs'"
    using Cons.prems(1) by (rule kdf_run_Cons)
  from kdf_exec_active [OF _ Cons.prems(3) x, of "Some (Some ctx)"] Cons.prems(2) obtain ctx1 where
    c1: "op1 = Some (Some ctx1)" "kdf_for a ctx1"
      "kd_can_output_key ctx1 \<longrightarrow> kd_can_output_key ctx \<or> kdf_authorises env a (evs ! 0)"
      "st = PSA_SUCCESS \<longrightarrow> (\<forall>attr idn. c = Kd_OutputKey attr idn \<longrightarrow> kd_can_output_key ctx)"
    by (auto simp: evs)
  show ?case
  proof (cases i)
    case 0
    with c1(4) Cons.prems(5,6) show ?thesis by (simp add: evs)
  next
    case (Suc i')
    with Cons.IH [OF rest [unfolded c1(1)] _ c1(2), of i'] Cons.prems(2,4-6)
    have "kd_can_output_key ctx1 \<or> (\<exists>j < i'. kdf_authorises env a (evs' ! j))" by (simp add: evs)
    then have "kd_can_output_key ctx1 \<or> (\<exists>j < i. kdf_authorises env a (evs ! j))"
      using Suc by (auto simp: evs)
    moreover have "(0 :: nat) < i" using Suc by simp
    ultimately show ?thesis using c1(3) by blast
  qed
qed simp

text \<open>
  C6: A key comes out of a derivation only if a key went in that may be derived from. Whenever
  \<open>psa_key_derivation_output_key\<close> succeeds in a run from the set-up on, an earlier call of the run
  succeeded in feeding a stored key as the secret or the password whose usage flags include
  \<open>PSA_KEY_USAGE_DERIVE\<close> and whose policy names the algorithm of the operation (its key-derivation
  function, for a combined one), or in feeding, as the secret, the shared secret of a stored
  elliptic-curve key pair that has that usage flag and whose policy admits the operation's
  algorithm: key agreement with the same base, either raw or bound to the same key-derivation
  function. The run has no abort after the set-up, which would end the operation. Secrets that the
  caller passed as bytes never authorise.
\<close>

theorem kdf_output_key_authorised:
  assumes st: "psa_key_derivation_setup E op0 a s0 = (PSA_SUCCESS, op, s)"
    and r: "kdf_run env E X cs op s = Some (evs, op', s')" and na: "Kd_Abort \<notin> set cs"
    and i: "i < length evs" "ev_call (evs ! i) = Kd_OutputKey attr idn" "ev_status (evs ! i) = PSA_SUCCESS"
  shows "\<exists>j < i. kdf_authorises env a (evs ! j)"
proof -
  let ?ctx = "(kdf_new_ctx a (kdf_alg_of a))\<lparr>kd_capacity := kdf_capacity0 E (kdf_alg_of a)\<rparr>"
  have "kdf_for a ?ctx" and "\<not> kd_can_output_key ?ctx" by (simp_all add: kdf_for_def kdf_new_ctx_def)
  with kdf_run_authorised [OF r [unfolded setup_ctx(2) [OF st]] na _ i] show ?thesis by blast
qed

theorem kdf_output_key_authorised_witness:
  "\<exists>evs r. kdf_run demo_env demo_kdf demo_ecdh (demo_kdf_inputs @ [Kd_OutputKey (Some demo_raw_attr) False])
       (Some (Some demo_kdf_ctx)) demo_kdf_ks = Some (evs, r) \<and> (\<exists>j < 3. kdf_authorises demo_env demo_hkdf (evs ! j))"
proof -
  obtain evs1 where r1: "kdf_run demo_env demo_kdf demo_ecdh demo_kdf_inputs (Some (Some demo_kdf_ctx)) demo_kdf_ks =
      Some (evs1, Some (Some demo_kdf_ctx2), demo_kdf_ks)" "length evs1 = 3" using demo_kdf_inputs_run by blast
  obtain s' where r2: "kdf_run demo_env demo_kdf demo_ecdh [Kd_OutputKey (Some demo_raw_attr) False]
      (Some (Some demo_kdf_ctx2)) demo_kdf_ks =
      Some ([\<lparr>ev_call = Kd_OutputKey (Some demo_raw_attr) False, ev_op = Some (Some demo_kdf_ctx2),
              ev_keys = demo_kdf_ks, ev_status = PSA_SUCCESS, ev_bytes = []\<rparr>], Some (Some (demo_kdf_ctx3 2)), s')"
    using demo_output_key by auto
  note r = kdf_run_append [OF r1(1) r2]
  have "\<exists>j < 3. kdf_authorises demo_env demo_hkdf ((evs1 @ [\<lparr>ev_call = Kd_OutputKey (Some demo_raw_attr) False,
      ev_op = Some (Some demo_kdf_ctx2), ev_keys = demo_kdf_ks, ev_status = PSA_SUCCESS, ev_bytes = []\<rparr>]) ! j)"
    by (rule kdf_output_key_authorised [OF demo_kdf_setup r, where attr = "Some demo_raw_attr" and idn = False])
      (simp_all add: nth_append r1(2))
  with r show ?thesis by blast
qed

section \<open>Errors are final\<close>

lemma kdf_exec_error_state:
  assumes "kd_error_state ctx" and "c \<noteq> Kd_Abort"
  shows "kdf_exec env E X c (Some (Some ctx)) s = Some (PSA_ERROR_BAD_STATE, [], Some (Some ctx), s)"
  using assms(2)
  by (cases c) (auto simp: error_entry [OF assms(1)] psa_key_derivation_setup_def psa_key_derivation_input_bytes_def
      psa_key_derivation_input_integer_def psa_key_derivation_input_key_def
      psa_key_derivation_key_agreement_def Let_def)

lemma kdf_run_error_state:
  assumes "kd_error_state ctx"
  shows "Kd_Abort \<notin> set cs \<Longrightarrow>
    kdf_run env E X cs (Some (Some ctx)) s =
      Some (map (\<lambda>c. \<lparr>ev_call = c, ev_op = Some (Some ctx), ev_keys = s, ev_status = PSA_ERROR_BAD_STATE,
                      ev_bytes = []\<rparr>) cs, Some (Some ctx), s)"
  by (induction cs) (auto simp: kdf_exec_error_state [OF assms])

text \<open>The failures that the code does not record: a wrong value to verify, an unknown key.\<close>

definition kdf_fatal :: "kdf_call \<Rightarrow> psa_status \<Rightarrow> bool" where
  "kdf_fatal c st \<longleftrightarrow>
    st \<noteq> PSA_SUCCESS \<and> st \<noteq> PSA_ERROR_INVALID_SIGNATURE \<and> st \<noteq> PSA_ERROR_INVALID_HANDLE \<and>
    (case c of Kd_Setup a \<Rightarrow> False | Kd_Abort \<Rightarrow> False
     | Kd_SetCapacity n \<Rightarrow> st \<noteq> PSA_ERROR_INVALID_ARGUMENT | _ \<Rightarrow> True)"

lemma done_fatal:
  assumes "st \<noteq> PSA_SUCCESS" "st \<noteq> PSA_ERROR_INVALID_SIGNATURE" "st \<noteq> PSA_ERROR_INVALID_HANDLE"
  shows "kd_error_state (snd (wolfpsa_kdf_done ctx st))"
  using assms by (simp add: wolfpsa_kdf_done_def)

lemma kdf_exec_fatal:
  assumes r: "kdf_exec env E X c (Some (Some ctx)) s = Some (st, bs, op', s')" and f: "kdf_fatal c st"
  shows "\<exists>ctx'. op' = Some (Some ctx') \<and> kd_error_state ctx'"
proof (cases "kd_error_state ctx")
  case True
  have "c \<noteq> Kd_Abort" using f by (auto simp: kdf_fatal_def)
  then show ?thesis using r True by (auto simp: kdf_exec_error_state [OF True])
next
  case False
  have st: "st \<noteq> PSA_SUCCESS" "st \<noteq> PSA_ERROR_INVALID_SIGNATURE" "st \<noteq> PSA_ERROR_INVALID_HANDLE"
    using f by (simp_all add: kdf_fatal_def)
  note D = done_fatal [OF st]
  note S = wolfpsa_kdf_get_ctx_def wolfpsa_kdf_check_state_def kdf_entry_def
  show ?thesis
  proof (cases c)
    case (Kd_OutputKey attr idn)
    then obtain ctx1 kid where "op' = Some (Some ctx1)"
      "psa_key_derivation_output_key env E attr (Some (Some ctx)) idn s = Some (st, kid, op', s')"
      using r output_key_entry by fastforce
    then show ?thesis using D False
      by (auto simp: psa_key_derivation_output_key_def S kdf_done_op_def split: option.splits)
  next
    case (Kd_VerifyBytes d)
    then obtain ctx1 where "op' = Some (Some ctx1)" "psa_key_derivation_verify_bytes E (Some (Some ctx)) d s = Some (st, op', s')"
      using r verify_bytes_entry by fastforce
    then show ?thesis using D False
      by (auto simp: psa_key_derivation_verify_bytes_def S kdf_done_op_def split: option.splits)
  next
    case (Kd_VerifyKey k)
    then obtain ctx1 where "op' = Some (Some ctx1)" "psa_key_derivation_verify_key env E (Some (Some ctx)) k s = Some (st, op', s')"
      using r verify_key_entry by fastforce
    then show ?thesis using D False
      by (auto simp: psa_key_derivation_verify_key_def S kdf_done_op_def split: option.splits)
  next
    case (Kd_OutputBytes ob)
    then show ?thesis using r D False
      by (auto simp: psa_key_derivation_output_bytes_def S split: option.splits)
  qed (use r D False f in \<open>auto simp: S kdf_fatal_def psa_key_derivation_set_capacity_def psa_key_derivation_input_bytes_def
      psa_key_derivation_input_integer_def psa_key_derivation_input_key_def psa_key_derivation_key_agreement_def
      wolfpsa_kdf_done_def split: prod.splits if_splits\<close>)
qed

text \<open>
  An error is final. After a call on an active derivation has failed (other than with a wrong
  value to verify, an unknown key id, a capacity that is too large, or a second set-up), every
  later call that works on the operation (\<open>kdf_call\<close>) fails with \<open>PSA_ERROR_BAD_STATE\<close> up to the abort,
  delivers nothing and changes neither the operation nor the key store: no partial derivation goes
  on after a failure. Only \<open>psa_key_derivation_get_capacity\<close>, which reads the operation, still
  answers, with the capacity that was left.
\<close>

theorem kdf_error_final:
  assumes "kdf_exec env E X c (Some (Some ctx)) s = Some (st, bs, op1, s1)" and "kdf_fatal c st"
    and "Kd_Abort \<notin> set cs"
  shows "\<exists>evs. kdf_run env E X cs op1 s1 = Some (evs, op1, s1) \<and> length evs = length cs \<and>
    (\<forall>ev \<in> set evs. ev_status ev = PSA_ERROR_BAD_STATE \<and> ev_bytes ev = []) \<and>
    (\<exists>ctx1. op1 = Some (Some ctx1) \<and> psa_key_derivation_get_capacity op1 (Some 0) = (PSA_SUCCESS, Some (kd_capacity ctx1)))"
proof -
  obtain ctx1 where c: "op1 = Some (Some ctx1)" "kd_error_state ctx1" using kdf_exec_fatal [OF assms(1,2)] by blast
  then show ?thesis
    by (simp add: kdf_run_error_state [OF c(2) assms(3)] psa_key_derivation_get_capacity_def wolfpsa_kdf_get_ctx_def)
qed

theorem kdf_error_final_witness:
  "\<exists>op1 s1 evs. kdf_exec demo_env demo_kdf demo_ecdh (Kd_OutputBytes (Out 9)) (Some (Some demo_kdf_ctx2)) demo_kdf_ks =
       Some (PSA_ERROR_INSUFFICIENT_DATA, [], op1, s1) \<and>
     kdf_run demo_env demo_kdf demo_ecdh [Kd_OutputBytes (Out 1), Kd_VerifyKey 5] op1 s1 = Some (evs, op1, s1) \<and>
     (\<forall>ev \<in> set evs. ev_status ev = PSA_ERROR_BAD_STATE)"
proof -
  obtain op1 s1 where x: "kdf_exec demo_env demo_kdf demo_ecdh (Kd_OutputBytes (Out 9)) (Some (Some demo_kdf_ctx2)) demo_kdf_ks =
       Some (PSA_ERROR_INSUFFICIENT_DATA, [], op1, s1)"
    by (simp add: demo_kdf_ctx2_def demo_kdf_ctx_def kdf_eval)
  have "\<exists>evs. kdf_run demo_env demo_kdf demo_ecdh [Kd_OutputBytes (Out 1), Kd_VerifyKey 5] op1 s1 = Some (evs, op1, s1) \<and>
      length evs = length [Kd_OutputBytes (Out 1), Kd_VerifyKey 5] \<and>
      (\<forall>ev \<in> set evs. ev_status ev = PSA_ERROR_BAD_STATE \<and> ev_bytes ev = []) \<and>
      (\<exists>ctx1. op1 = Some (Some ctx1) \<and> psa_key_derivation_get_capacity op1 (Some 0) = (PSA_SUCCESS, Some (kd_capacity ctx1)))"
    by (rule kdf_error_final [OF x]) (simp_all add: kdf_fatal_def)
  with x show ?thesis by blast
qed

section \<open>Verification\<close>

text \<open>
  C22: Verification compares with the derived bytes. After any run of calls since the set-up, a
  successful \<open>psa_key_derivation_verify_bytes\<close> means that the expected bytes are the next bytes of
  the stream of the operation; and when a read of that many bytes would succeed, the verification
  gives \<open>PSA_SUCCESS\<close> for exactly those bytes, \<open>PSA_ERROR_INVALID_SIGNATURE\<close> for all others,
  and leaves the operation as the read would. The requests together are at most \<open>SIZE_MAX - 15\<close>
  bytes.
\<close>

theorem kdf_verify_exact:
  assumes ok: "kdf_engine_ok E R V"
    and st: "psa_key_derivation_setup E op0 a s0 = (PSA_SUCCESS, op, s)"
    and r: "kdf_run env E X cs op s = Some (evs, op1, s1)" and na: "Kd_Abort \<notin> set cs"
    and n: "kdf_requests cs + length d \<le> SIZE_MAX - 15"
  shows "\<exists>ctx1. op1 = Some (Some ctx1) \<and>
    (\<forall>op2 s2. psa_key_derivation_verify_bytes E op1 (In d) s1 = Some (PSA_SUCCESS, op2, s2) \<longrightarrow>
       (\<exists>ctx2. op2 = Some (Some ctx2) \<and>
          d = map (kdf_stream R ctx2) [kd_output_offset ctx1..<kd_output_offset ctx1 + length d])) \<and>
    (\<forall>s2 bs op3 s3. d \<noteq> [] \<and> length d \<le> INT_MAX \<and> s_xmalloc s1 = (True, s2) \<and>
         psa_key_derivation_output_bytes E op1 (Out (length d)) s2 = Some (PSA_SUCCESS, bs, op3, s3) \<longrightarrow>
       (\<exists>ctx3. op3 = Some (Some ctx3) \<and>
          psa_key_derivation_verify_bytes E op1 (In d) s1 =
            Some (if d = map (kdf_stream R ctx3) [kd_output_offset ctx1..<kd_output_offset ctx1 + length d]
                  then PSA_SUCCESS else PSA_ERROR_INVALID_SIGNATURE, op3, s3)))"
proof -
  obtain ctx where c: "op = Some (Some ctx)" "kdf_ready R (kdf_requests cs + length d) ctx"
    using setup_ready [OF ok st n] by metis
  have "kdf_ready R (kdf_requests cs) ctx" by (rule kdf_ready_weaken [OF c(2)]) simp
  from kdf_run_mono [OF ok r [unfolded c(1)] na this] obtain ctx1 where
    c1: "op1 = Some (Some ctx1)" "kdf_mono R (kdf_requests cs) ctx ctx1 []" by blast
  have rdy: "kdf_ready R (length d) ctx1" by (rule kdf_ready_step [OF c(2) c1(2)])
  then have rdy': "kdf_ready R (min (in_length (In d)) INT_MAX) ctx1" by (rule kdf_ready_weaken) simp
  have "\<exists>ctx2. op2 = Some (Some ctx2) \<and> d = map (kdf_stream R ctx2) [kd_output_offset ctx1..<kd_output_offset ctx1 + length d]"
    if v: "psa_key_derivation_verify_bytes E op1 (In d) s1 = Some (PSA_SUCCESS, op2, s2)" for op2 s2
    using verify_bytes_op [OF ok rdy' v [unfolded c1(1)]] by auto
  moreover have "\<exists>ctx3. op3 = Some (Some ctx3) \<and>
      psa_key_derivation_verify_bytes E op1 (In d) s1 =
        Some (if d = map (kdf_stream R ctx3) [kd_output_offset ctx1..<kd_output_offset ctx1 + length d]
              then PSA_SUCCESS else PSA_ERROR_INVALID_SIGNATURE, op3, s3)"
    if d: "d \<noteq> []" "length d \<le> INT_MAX" "s_xmalloc s1 = (True, s2)"
      and ob: "psa_key_derivation_output_bytes E op1 (Out (length d)) s2 = Some (PSA_SUCCESS, bs, op3, s3)"
    for s2 bs op3 s3
  proof -
    obtain ctx3 where c3: "op3 = Some (Some ctx3)" "kdf_mono R (length d) ctx1 ctx3 bs" "length bs = length d"
      "\<not> kd_error_state ctx1"
      using output_bytes_op [OF ok _ ob [unfolded c1(1)]] rdy by auto
    then have bs: "bs = map (kdf_stream R ctx3) [kd_output_offset ctx1..<kd_output_offset ctx1 + length d]"
      by (simp add: kdf_mono_def)
    have done': "kdf_done_op op3 (if P then PSA_SUCCESS else PSA_ERROR_INVALID_SIGNATURE) = op3" for P
      by (simp add: c3(1) wolfpsa_kdf_done_def)
    have "psa_key_derivation_verify_bytes E op1 (In d) s1 =
        Some (if d = bs then PSA_SUCCESS else PSA_ERROR_INVALID_SIGNATURE, op3, s3)"
      using d ob c3 done' unfolding c1(1)
      by (auto simp: psa_key_derivation_verify_bytes_def wolfpsa_kdf_get_ctx_def wolfpsa_kdf_check_state_def
          wolfpsa_kdf_verify_bytes_def Let_def wolfpsa_kdf_done_def)
    with c3(1) show ?thesis unfolding bs by blast
  qed
  ultimately show ?thesis using c1(1) by blast
qed

theorem kdf_verify_exact_witness:
  "psa_key_derivation_verify_bytes demo_kdf (Some (Some demo_kdf_ctx2)) (In (prefix_of demo_kdf_stream 3)) demo_kdf_ks =
     Some (PSA_SUCCESS, Some (Some (demo_kdf_ctx3 3)), demo_kdf_ks)"
proof -
  let ?d = "prefix_of demo_kdf_stream 3"
  obtain evs1 where r1: "kdf_run demo_env demo_kdf demo_ecdh demo_kdf_inputs (Some (Some demo_kdf_ctx)) demo_kdf_ks =
      Some (evs1, Some (Some demo_kdf_ctx2), demo_kdf_ks)" using demo_kdf_inputs_run by blast
  have o: "psa_key_derivation_output_bytes demo_kdf (Some (Some demo_kdf_ctx2)) (Out (length ?d)) demo_kdf_ks =
      Some (PSA_SUCCESS, ?d, Some (Some (demo_kdf_ctx3 3)), demo_kdf_ks)" using demo_first_read [of 3] by simp
  have s: "kdf_stream demo_kdf_ref (demo_kdf_ctx3 3) = demo_kdf_stream"
    by (simp add: kdf_stream_def demo_kdf_ctx3_def demo_kdf_ctx2_def demo_kdf_ctx_def kdf_new_ctx_def demo_kdf_stream_def
        demo_kdf_ref_def kdf_hash_type_from_alg_def psa_defs)
  have z: "kd_output_offset demo_kdf_ctx2 = 0" by (simp add: demo_kdf_ctx2_def demo_kdf_ctx_def kdf_new_ctx_def)
  from kdf_verify_exact [OF demo_kdf_ok demo_kdf_setup r1, of ?d] o z show ?thesis
    by (simp add: s del: upt_Suc)
qed

section \<open>Every call returns\<close>

abbreviation PBKDF2_CMAC_MAX :: nat where "PBKDF2_CMAC_MAX \<equiv> 16 * (2 ^ 32 - 2)"

lemma pbkdf2_blocks_bound: "n \<le> PBKDF2_CMAC_MAX \<Longrightarrow> pbkdf2_blocks n < 2 ^ 32 - 1"
  by (simp add: pbkdf2_blocks_def)

lemma compute_returns:
  assumes "kd_alg ctx = PSA_ALG_PBKDF2_AES_CMAC_PRF_128 \<longrightarrow> n \<le> PBKDF2_CMAC_MAX"
  shows "\<exists>r s'. wolfpsa_kdf_compute_output E ctx n s = Some (r, s')"
  using assms compute_output_returns [of ctx n] pbkdf2_blocks_bound by blast

lemma fill_cache_returns: "kdf_fill_cache E ctx n s \<noteq> None"
proof (cases "n + kd_capacity ctx \<le> WOLFPSA_KDF_MAX_CACHE_BYTES")
  case True
  obtain b s1 where x: "s_xmalloc s = (b, s1)" by fastforce
  obtain r s2 where c: "wolfpsa_kdf_compute_output E ctx (n + kd_capacity ctx) s1 = Some (r, s2)"
    using compute_returns [of ctx "n + kd_capacity ctx" E s1] True by auto
  show ?thesis unfolding kdf_fill_cache_def x prod.case c option.case by (cases r) simp_all
qed (simp add: kdf_fill_cache_def)

lemma serve_returns:
  assumes b: "kd_alg ctx = PSA_ALG_PBKDF2_AES_CMAC_PRF_128 \<longrightarrow> m \<le> PBKDF2_CMAC_MAX" and n: "n \<le> m"
  shows "kdf_serve E ctx n m s \<noteq> None"
proof -
  obtain q s1 where x: "s_xmalloc s = (q, s1)" by fastforce
  obtain r s2 where c: "wolfpsa_kdf_compute_output E ctx m s1 = Some (r, s2)"
    using compute_returns [OF b] by blast
  obtain r' s2' where c': "wolfpsa_kdf_compute_output E ctx n s = Some (r', s2')"
    using compute_returns [of ctx n E s] b n by auto
  show ?thesis unfolding kdf_serve_def x prod.case c c' option.case
    by (cases "kd_output_cache ctx"; cases r) simp_all
qed

lemma output_bytes_returns:
  assumes b: "kd_alg ctx = PSA_ALG_PBKDF2_AES_CMAC_PRF_128 \<longrightarrow> kd_output_offset ctx + out_size output \<le> PBKDF2_CMAC_MAX"
    and n: "out_size output \<le> SIZE_MAX" "kd_output_offset ctx \<le> SIZE_MAX"
  shows "psa_key_derivation_output_bytes E (Some (Some ctx)) output s \<noteq> None"
proof -
  let ?n = "out_size output" and ?t = "(kd_output_offset ctx + out_size output) mod 2 ^ 64"
  obtain st1 ctx1 where q: "wolfpsa_kdf_require_output (kdf_snapshot_L ctx) ?n = (st1, ctx1)" by fastforce
  note k = require_snapshot_keeps [OF q]
  obtain st2 ctx3 s1 where f: "kdf_fill_cache E (ctx1\<lparr>kd_output_started := True\<rparr>) ?n s = Some (st2, ctx3, s1)"
    using fill_cache_returns by (metis not_None_eq prod_cases3)
  have alg: "kd_alg ctx3 = kd_alg ctx"
    using fill_cache_keeps [OF f] kdf_inputs_sameD(1) [OF k(1)] by auto
  have "kdf_serve E ctx3 ?n ?t s1 \<noteq> None" if "\<not> ?t < kd_output_offset ctx"
  proof (rule serve_returns)
    have t: "?t = kd_output_offset ctx + ?n"
    proof (cases "kd_output_offset ctx + ?n < 2 ^ 64")
      case False
      then have "?t = kd_output_offset ctx + ?n - 2 ^ 64" using n by (simp add: le_mod_geq)
      with that n False show ?thesis by simp
    qed simp
    then show "kd_alg ctx3 = PSA_ALG_PBKDF2_AES_CMAC_PRF_128 \<longrightarrow> ?t \<le> PBKDF2_CMAC_MAX" using b alg by simp
    show "?n \<le> ?t" using t by simp
  qed
  then have "wolfpsa_kdf_output_bytes E ctx output s \<noteq> None"
    unfolding wolfpsa_kdf_output_bytes_def Let_def q prod.case f option.case
    by (auto split: option.split sum.split)
  then show ?thesis
    by (auto simp: psa_key_derivation_output_bytes_def wolfpsa_kdf_get_ctx_def split: option.split)
qed

text \<open>A call on an active operation returns while the operation stays within the bounds.\<close>

definition kdf_bounded :: "nat \<Rightarrow> wolfpsa_kdf_ctx \<Rightarrow> bool" where
  "kdf_bounded n ctx \<longleftrightarrow>
    kd_output_offset ctx + n \<le> SIZE_MAX \<and>
    (kd_alg ctx = PSA_ALG_PBKDF2_AES_CMAC_PRF_128 \<longrightarrow> kd_output_offset ctx + n \<le> PBKDF2_CMAC_MAX)"

lemma kdf_bounded_out:
  "kdf_bounded n ctx \<Longrightarrow> out_size output \<le> n \<Longrightarrow>
   psa_key_derivation_output_bytes E (Some (Some ctx)) output s \<noteq> None"
  by (rule output_bytes_returns) (auto simp: kdf_bounded_def)

lemma kdf_bounded_verify:
  fixes s :: "'st key_store"
  assumes "kdf_bounded (min (in_length d) INT_MAX) ctx"
  shows "psa_key_derivation_verify_bytes E (Some (Some ctx)) d s \<noteq> None"
proof -
  have o: "psa_key_derivation_output_bytes E (Some (Some ctx)) (Out (in_length d)) s1 \<noteq> None"
    if "in_length d \<le> INT_MAX" for s1 :: "'st key_store"
    by (rule kdf_bounded_out [OF assms]) (use that in simp)
  have "wolfpsa_kdf_verify_bytes E ctx d s \<noteq> None"
  proof (cases "in_length d \<le> INT_MAX")
    case True
    obtain q s1 where x: "s_xmalloc s = (q, s1)" by fastforce
    obtain st bs op' s' where c: "psa_key_derivation_output_bytes E (Some (Some ctx)) (Out (in_length d)) s =
        Some (st, bs, op', s')" using o [OF True, of s] by auto
    obtain st1 bs1 op1 s1' where c1: "psa_key_derivation_output_bytes E (Some (Some ctx)) (Out (in_length d)) s1 =
        Some (st1, bs1, op1, s1')" using o [OF True, of s1] by auto
    show ?thesis using c unfolding wolfpsa_kdf_verify_bytes_def Let_def x prod.case c1 option.case by auto
  qed (simp add: wolfpsa_kdf_verify_bytes_def Let_def)
  then show ?thesis
    by (auto simp: psa_key_derivation_verify_bytes_def wolfpsa_kdf_get_ctx_def split: option.split)
qed

lemma kdf_exec_returns:
  fixes s :: "'st key_store"
  assumes "kdf_bounded (kdf_request c) ctx"
  shows "kdf_exec env E X c (Some (Some ctx)) s \<noteq> None"
proof (cases c)
  case (Kd_OutputBytes ob)
  have "psa_key_derivation_output_bytes E (Some (Some ctx)) ob s \<noteq> None"
    by (rule kdf_bounded_out [OF assms]) (simp add: Kd_OutputBytes)
  then show ?thesis by (simp add: Kd_OutputBytes)
next
  case (Kd_OutputKey attr idn)
  have o: "psa_key_derivation_output_bytes E (Some (Some ctx)) (Out (PSA_BITS_TO_BYTES (unat (bits at)))) s1 \<noteq> None"
    if "attr = Some at" for at and s1 :: "'st key_store"
    by (rule kdf_bounded_out [OF assms]) (simp add: that Kd_OutputKey)
  have "wolfpsa_kdf_output_key env E attr ctx idn s \<noteq> None"
  proof (cases attr)
    case (Some at)
    obtain q s1 where x: "s_xmalloc s = (q, s1)" by fastforce
    obtain st bs op' s' where c: "psa_key_derivation_output_bytes E (Some (Some ctx))
        (Out (PSA_BITS_TO_BYTES (unat (bits at)))) s1 = Some (st, bs, op', s')" using o [OF Some, of s1] by auto
    show ?thesis unfolding wolfpsa_kdf_output_key_def Let_def Some x prod.case c option.case
      by (auto split: prod.split)
  qed (simp add: wolfpsa_kdf_output_key_def Let_def)
  then show ?thesis
    by (auto simp: Kd_OutputKey psa_key_derivation_output_key_def wolfpsa_kdf_get_ctx_def split: option.split)
next
  case (Kd_VerifyBytes d)
  have "kdf_bounded (min (in_length d) INT_MAX) ctx" using assms by (auto simp: Kd_VerifyBytes kdf_bounded_def)
  from kdf_bounded_verify [OF this, of E s] show ?thesis by (simp add: Kd_VerifyBytes)
next
  case (Kd_VerifyKey k)
  have "kdf_bounded (min (in_length (In d)) INT_MAX) ctx" for d using assms by (auto simp: Kd_VerifyKey kdf_bounded_def)
  from kdf_bounded_verify [OF this] have "wolfpsa_kdf_verify_key env E ctx k s \<noteq> None"
    unfolding wolfpsa_kdf_verify_key_def Let_def by (auto split: prod.split sum.split)
  then show ?thesis
    by (auto simp: Kd_VerifyKey psa_key_derivation_verify_key_def wolfpsa_kdf_get_ctx_def split: option.split)
qed (auto split: prod.split)

definition kdf_op_bounded :: "nat \<Rightarrow> psa_key_derivation_operation_t option \<Rightarrow> bool" where
  "kdf_op_bounded n op \<longleftrightarrow> (\<forall>ctx. op = Some (Some ctx) \<longrightarrow> kdf_bounded n ctx \<and> (\<exists>a. kdf_for a ctx))"

lemma kdf_setup_op:
  assumes "psa_key_derivation_setup E op a s = (st, op', s')"
  shows "op' = op \<or> st = PSA_SUCCESS"
  using assms by (auto simp: psa_key_derivation_setup_def Let_def split: if_splits prod.splits)

lemma kdf_exec_inactive:
  assumes "\<And>ctx. op \<noteq> Some (Some ctx)"
  obtains st op' s' where "kdf_exec env E X c op s = Some (st, [], op', s')"
    and "op' = op \<or> op' = Some None \<or> (\<exists>a s0. c = Kd_Setup a \<and> psa_key_derivation_setup E op a s = (PSA_SUCCESS, op', s'))"
proof -
  have g: "wolfpsa_kdf_get_ctx op = None" using assms by (cases op; cases "the op") (auto simp: wolfpsa_kdf_get_ctx_def)
  have e: "kdf_entry op s f = (wolfpsa_kdf_check_state None, op, s)" for f
    by (simp add: kdf_entry_def g)
  show ?thesis
  proof (cases c)
    case (Kd_Setup a)
    obtain st op' s' where "psa_key_derivation_setup E op a s = (st, op', s')" by (metis prod_cases3)
    with kdf_setup_op [OF this] Kd_Setup show ?thesis by (intro that [of st op' s']) auto
  next
    case Kd_Abort
    then show ?thesis using that [of "fst (psa_key_derivation_abort op)" "snd (psa_key_derivation_abort op)" s]
      by (simp add: psa_key_derivation_abort_def)
  qed (use that in \<open>auto simp: e g psa_key_derivation_set_capacity_def
      psa_key_derivation_input_bytes_def psa_key_derivation_input_integer_def psa_key_derivation_input_key_def
      psa_key_derivation_key_agreement_def psa_key_derivation_output_bytes_def psa_key_derivation_output_key_def
      psa_key_derivation_verify_bytes_def psa_key_derivation_verify_key_def\<close>)
qed

lemma kdf_exec_step_returns:
  assumes b: "kdf_op_bounded (kdf_request c + n) op" and n: "n \<le> SIZE_MAX"
    and pb: "\<And>a. c = Kd_Setup a \<Longrightarrow> kdf_alg_of a = PSA_ALG_PBKDF2_AES_CMAC_PRF_128 \<Longrightarrow> n \<le> PBKDF2_CMAC_MAX"
  obtains st bs op' s' where "kdf_exec env E X c op s = Some (st, bs, op', s')" and "kdf_op_bounded n op'"
proof (cases "\<exists>ctx. op = Some (Some ctx)")
  case True
  then obtain ctx a where c: "op = Some (Some ctx)" "kdf_bounded (kdf_request c + n) ctx" "kdf_for a ctx"
    using b by (auto simp: kdf_op_bounded_def)
  have "kdf_bounded (kdf_request c) ctx" using c(2) by (auto simp: kdf_bounded_def)
  from kdf_exec_returns [OF this] c(1) obtain st bs op' s' where x: "kdf_exec env E X c op s = Some (st, bs, op', s')"
    by (metis not_None_eq prod_cases4)
  show ?thesis
  proof (cases "c = Kd_Abort")
    case True
    with x c(1) show ?thesis
      by (intro that [OF x]) (auto simp: psa_key_derivation_abort_def kdf_op_bounded_def)
  next
    case False
    from kdf_exec_active [OF False c(3) x [unfolded c(1)]] obtain ctx' where
      "op' = Some (Some ctx')" "kdf_for a ctx'" "kd_output_offset ctx' \<le> kd_output_offset ctx + kdf_request c" by blast
    with c(2,3) show ?thesis
      by (intro that [OF x]) (auto simp: kdf_op_bounded_def kdf_bounded_def kdf_for_def)
  qed
next
  case False
  then obtain st op' s' where x: "kdf_exec env E X c op s = Some (st, [], op', s')"
    and o: "op' = op \<or> op' = Some None \<or> (\<exists>a s0. c = Kd_Setup a \<and> psa_key_derivation_setup E op a s = (PSA_SUCCESS, op', s'))"
    using kdf_exec_inactive by metis
  have "kdf_op_bounded n op'" using o
  proof (elim disjE exE conjE)
    fix a s0 assume a: "c = Kd_Setup a" "psa_key_derivation_setup E op a s = (PSA_SUCCESS, op', s')"
    then show ?thesis using n pb [OF a(1)] setup_ctx(2) [OF a(2)]
      by (auto simp: kdf_op_bounded_def kdf_bounded_def kdf_for_def kdf_new_ctx_def)
  qed (use False in \<open>auto simp: kdf_op_bounded_def\<close>)
  then show ?thesis by (rule that [OF x])
qed

lemma kdf_run_bounded:
  "kdf_op_bounded (kdf_requests cs) op \<Longrightarrow> kdf_requests cs \<le> SIZE_MAX \<Longrightarrow>
   (\<And>a. Kd_Setup a \<in> set cs \<Longrightarrow> kdf_alg_of a = PSA_ALG_PBKDF2_AES_CMAC_PRF_128 \<Longrightarrow> kdf_requests cs \<le> PBKDF2_CMAC_MAX) \<Longrightarrow>
   \<exists>r. kdf_run env E X cs op s = Some r"
proof (induction cs arbitrary: op s)
  case (Cons c cs)
  obtain st bs op' s' where x: "kdf_exec env E X c op s = Some (st, bs, op', s')" and b: "kdf_op_bounded (kdf_requests cs) op'"
  proof (rule kdf_exec_step_returns [of c "kdf_requests cs" op env E X s])
    show "kdf_op_bounded (kdf_request c + kdf_requests cs) op" using Cons.prems(1) by simp
    show "kdf_requests cs \<le> SIZE_MAX" using Cons.prems(2) by simp
    show "kdf_requests cs \<le> PBKDF2_CMAC_MAX"
      if "c = Kd_Setup a" "kdf_alg_of a = PSA_ALG_PBKDF2_AES_CMAC_PRF_128" for a
      using Cons.prems(3) [of a] that by simp
  qed
  have "\<exists>r. kdf_run env E X cs op' s' = Some r"
  proof (rule Cons.IH [OF b])
    show "kdf_requests cs \<le> SIZE_MAX" using Cons.prems(2) by simp
    show "kdf_requests cs \<le> PBKDF2_CMAC_MAX"
      if "Kd_Setup a \<in> set cs" "kdf_alg_of a = PSA_ALG_PBKDF2_AES_CMAC_PRF_128" for a
      using Cons.prems(3) [of a] that by simp
  qed
  then show ?case using x by auto
qed simp

text \<open>
  C35: Every call on a key-derivation operation returns, whatever calls came before, whatever the
  allocator does and however wolfCrypt answers. The one exception is PBKDF2 with AES-CMAC, whose
  block counter has 32 bits: there the theorem asks that the program does not request more than
  \<open>16 * (2^32 - 2)\<close> bytes in all, where a verification of a key counts as \<open>INT_MAX\<close> bytes, the most
  that a stored key has.
\<close>

theorem kdf_run_returns:
  assumes "kdf_requests cs \<le> SIZE_MAX"
    and "\<And>a. Kd_Setup a \<in> set cs \<Longrightarrow> kdf_alg_of a = PSA_ALG_PBKDF2_AES_CMAC_PRF_128 \<Longrightarrow>
      kdf_requests cs \<le> 16 * (2 ^ 32 - 2)"
  shows "\<exists>evs op' s'. kdf_run env E X cs (Some None) s = Some (evs, op', s')"
  using kdf_run_bounded [of cs "Some None" env E X s] assms by (auto simp: kdf_op_bounded_def)

theorem kdf_run_returns_witness:
  "\<exists>evs op' s'. kdf_run demo_env demo_kdf demo_ecdh
     [Kd_Setup PSA_ALG_PBKDF2_AES_CMAC_PRF_128, Kd_InputBytes PSA_KEY_DERIVATION_INPUT_PASSWORD (In [1]),
      Kd_InputInteger PSA_KEY_DERIVATION_INPUT_COST 1000, Kd_InputBytes PSA_KEY_DERIVATION_INPUT_SALT (In [2]),
      Kd_OutputBytes (Out 64), Kd_Abort] (Some None) demo_kdf_ks = Some (evs, op', s')"
  by (rule kdf_run_returns) simp_all

text \<open>
  C40: The bound on PBKDF2 with AES-CMAC is needed: asked for \<open>2^36 - 31\<close> bytes or more, the block
  loop can only end with an error. Its 32-bit counter wraps around before it exceeds the number
  of blocks, so that a derivation whose blocks all succeed runs for ever. (Above \<open>SIZE_MAX - 15\<close>
  bytes, more than any buffer holds, the count of blocks wraps itself.)
\<close>

theorem pbkdf2_cmac_never_succeeds:
  assumes "2 ^ 36 - 31 \<le> n" and "n \<le> SIZE_MAX - 15"
    and "kd_alg ctx = PSA_ALG_PBKDF2_AES_CMAC_PRF_128" and "\<not> kd_is_raw_kdf ctx"
  shows "wolfpsa_kdf_compute_output E ctx n s \<noteq> Some (Inr out, s')"
proof
  assume c: "wolfpsa_kdf_compute_output E ctx n s = Some (Inr out, s')"
  have "2 ^ 32 - 1 \<le> pbkdf2_blocks n" using assms(1,2) by (simp add: pbkdf2_blocks_def)
  note w = pbkdf2_cmac_loop_wraps [OF this]
  have "kdf_pbkdf2_cmac E ctx n s = Some (Inr out, s')"
    using c assms(3,4) by (simp add: wolfpsa_kdf_compute_output_def wolfpsa_kdf_pbkdf2_def psa_defs)
  then show False
    by (auto simp: kdf_pbkdf2_cmac_def Let_def dest: w split: if_splits prod.splits sum.splits option.splits)
qed

theorem pbkdf2_cmac_never_succeeds_witness:
  "wolfpsa_kdf_compute_output demo_kdf
     (kdf_new_ctx PSA_ALG_PBKDF2_AES_CMAC_PRF_128 PSA_ALG_PBKDF2_AES_CMAC_PRF_128) (2 ^ 36) demo_ks \<noteq>
     Some (Inr [1], demo_ks)"
  by (rule pbkdf2_cmac_never_succeeds) (simp_all add: kdf_new_ctx_def)

end
