(* ===== verification/Kdf_Agree.thy ===== *)
theory Kdf_Agree
  imports Kdf_Properties
begin

text \<open>
  Key agreement, alone and with a derivation: which keys \<open>psa_raw_key_agreement\<close> and
  \<open>psa_key_agreement\<close> use, and which key the latter makes of the shared secret.
\<close>

unbundle bit_operations_syntax

section \<open>Inputs\<close>

text \<open>What a successful input appends, for the steps that \<open>psa_key_agreement\<close> uses.\<close>

lemma append_value:
  assumes "wolfpsa_kdf_append buf d s = (PSA_SUCCESS, buf', s')"
  shows "buf' = buf @ in_bytes d"
  using assms by (cases d) (auto simp: wolfpsa_kdf_append_def split: if_splits prod.splits)

lemma input_bytes_value:
  assumes r: "wolfpsa_kdf_input_bytes E ctx stp d s = (PSA_SUCCESS, ctx', s')"
  shows "stp = PSA_KEY_DERIVATION_INPUT_SECRET \<Longrightarrow>
      ctx' = ctx\<lparr>kd_secret := kd_secret ctx @ in_bytes d, kd_steps_set := kd_steps_set ctx OR 1\<rparr>"
    and "stp = PSA_KEY_DERIVATION_INPUT_SALT \<Longrightarrow>
      ctx' = ctx\<lparr>kd_salt := kd_salt ctx @ in_bytes d, kd_steps_set := kd_steps_set ctx OR 4\<rparr>"
    and "stp = PSA_KEY_DERIVATION_INPUT_INFO \<Longrightarrow>
      ctx' = ctx\<lparr>kd_info := kd_info ctx @ in_bytes d, kd_steps_set := kd_steps_set ctx OR 8\<rparr>"
  using r by (auto simp: wolfpsa_kdf_input_bytes_def wolfpsa_kdf_step_mask_def Let_def dest!: append_value
      split: if_splits prod.splits)

lemma kdf_entry_success:
  assumes "kdf_entry op s f = (PSA_SUCCESS, op', s')"
  obtains ctx ctx' where "op = Some (Some ctx)" "op' = Some (Some ctx')" "f ctx s = (PSA_SUCCESS, ctx', s')"
    "\<not> kd_error_state ctx"
proof (cases "\<exists>ctx. op = Some (Some ctx)")
  case True
  then obtain ctx where c: "op = Some (Some ctx)" by blast
  obtain st1 ctx1 s1 where f: "f ctx s = (st1, ctx1, s1)" by (metis prod_cases3)
  show ?thesis using assms c f
    by (intro that [of ctx ctx1]) (auto simp: kdf_entry_def wolfpsa_kdf_get_ctx_def wolfpsa_kdf_check_state_def
        wolfpsa_kdf_done_def split: if_splits)
next
  case False
  then have "wolfpsa_kdf_get_ctx op = None" by (cases op; cases "the op") (auto simp: wolfpsa_kdf_get_ctx_def)
  then show ?thesis using assms by (simp add: kdf_entry_def wolfpsa_kdf_check_state_def)
qed

section \<open>The keys stay as they are\<close>

lemma setup_frame:
  assumes "psa_key_derivation_setup E op a s = (st, op', s')" and "lock_ok s"
  shows "load_frame recs s s'"
  using assms by (auto simp: psa_key_derivation_setup_def Let_def load_frame_def intro: xmalloc_load_frame
      dest: xmalloc_load_frame [of s _ _ recs] split: if_splits prod.splits)

lemma append_frame:
  assumes "wolfpsa_kdf_append buf d s = (st, buf', s')" and "lock_ok s"
  shows "load_frame recs s s'"
  using assms xmalloc_load_frame [OF assms(2), of _ _ recs]
  by (auto simp: wolfpsa_kdf_append_def load_frame_def split: if_splits prod.splits)

lemma input_bytes_frame:
  assumes "wolfpsa_kdf_input_bytes E ctx stp d s = (st, ctx', s')" and "lock_ok s"
  shows "load_frame recs s s'"
proof -
  have "load_frame recs s s" using assms(2) by (simp add: load_frame_def)
  then show ?thesis using assms(1) append_frame [OF _ assms(2), where recs = recs]
    by (auto simp: wolfpsa_kdf_input_bytes_def Let_def split: if_splits prod.splits)
qed

lemma hkdf_output_frame:
  assumes r: "psa_key_derivation_output_bytes E (Some (Some ctx)) out s = Some (st, bs, op', s')"
    and h: "PSA_ALG_IS_HKDF (kd_alg ctx)" "\<not> kd_is_raw_kdf ctx" and lk: "lock_ok s"
  shows "load_frame recs s s'"
proof -
  have f: "load_frame recs s s" using lk by (simp add: load_frame_def)
  have c: "wolfpsa_kdf_compute_output E ctx1 n s1 = Some (wolfpsa_kdf_hkdf E ctx1 n, s1)"
    if "kdf_inputs_same ctx ctx1" for ctx1 n and s1 :: "'a key_store"
    using that h by (simp add: wolfpsa_kdf_compute_output_def kdf_inputs_same_def PSA_ALG_IS_ANY_HKDF_def PSA_ALG_IS_HKDF_def)
  have fill: "load_frame recs s s1 \<and> kdf_inputs_same ctx ctx2"
    if "kdf_fill_cache E ctx1 n s = Some (st1, ctx2, s1)" "kdf_inputs_same ctx ctx1" for ctx1 ctx2 n st1 s1
    using that f xmalloc_load_frame [OF lk, of _ _ recs]
    by (auto simp: kdf_fill_cache_def c kdf_inputs_same_def split: if_splits prod.splits sum.splits)
  have serve: "load_frame recs s s2"
    if "kdf_serve E ctx2 n m s1 = Some (x, s2)" "kdf_inputs_same ctx ctx2" "load_frame recs s s1" for ctx2 n m s1 x s2
  proof -
    have "load_frame recs s1 s3" if "s_xmalloc s1 = (b, s3)" for b s3
      using xmalloc_load_frame [OF _ that] \<open>load_frame recs s s1\<close> by (simp add: load_frame_def)
    then show ?thesis using that load_frame_trans [OF that(3)]
      by (auto simp: kdf_serve_def c split: if_splits prod.splits sum.splits option.splits)
  qed
  obtain st1 ctx1 where q: "wolfpsa_kdf_require_output (kdf_snapshot_L ctx) (out_size out) = (st1, ctx1)" by fastforce
  have "kdf_inputs_same ctx (ctx1\<lparr>kd_output_started := True\<rparr>)"
    using require_output_cases [OF q] by (auto simp: kdf_snapshot_L_def kdf_inputs_same_def split: if_splits)
  then have "load_frame recs s s2" if "wolfpsa_kdf_output_bytes E ctx out s = Some (x, y, z, s2)" for x y z s2
    using that f unfolding wolfpsa_kdf_output_bytes_def Let_def q prod.case
    by (auto dest!: fill dest: serve split: if_splits option.splits prod.splits sum.splits)
  then show ?thesis
    using r f by (auto simp: psa_key_derivation_output_bytes_def wolfpsa_kdf_get_ctx_def split: if_splits option.splits)
qed

section \<open>The policy of the private key\<close>

text \<open>
  C30: A shared secret is only ever made with a key whose policy asks for it. When
  \<open>psa_raw_key_agreement\<close> succeeds, the algorithm is raw ECDH, the id names a stored elliptic-curve
  key pair with the derive usage, and one of the two algorithms of its policy is raw ECDH as
  well: a key that is bound to a key-derivation function never gives its shared secret away.
\<close>

theorem raw_agreement_policy:
  assumes r: "psa_raw_key_agreement env X a k peer output len s = (PSA_SUCCESS, secret, len', s')"
  shows "\<exists>attrs d s1. load_key env k s = (Inr (attrs, d), s1) \<and> PSA_KEY_TYPE_IS_ECC_KEY_PAIR (type attrs) \<and>
    usage (policy attrs) AND PSA_KEY_USAGE_DERIVE = PSA_KEY_USAGE_DERIVE \<and>
    PSA_ALG_IS_RAW_KEY_AGREEMENT a \<and> PSA_ALG_KEY_AGREEMENT_GET_BASE a = PSA_ALG_ECDH \<and>
    len' = Some (length secret) \<and>
    (\<exists>p \<in> {alg (policy attrs), alg2 (policy attrs)}.
       PSA_ALG_IS_RAW_KEY_AGREEMENT p \<and> PSA_ALG_KEY_AGREEMENT_GET_BASE p = PSA_ALG_ECDH)"
proof -
  have raw: "PSA_ALG_IS_RAW_KEY_AGREEMENT a" "len' = Some (length secret)"
    "wolfpsa_key_agreement_secret env X a k peer output s = (Inr secret, s')"
    using r by (auto simp: psa_raw_key_agreement_def Let_def agreement_secret_Inl split: if_splits prod.splits sum.splits)
  have ka: "PSA_ALG_IS_KEY_AGREEMENT a" using raw(1) by (simp add: PSA_ALG_IS_RAW_KEY_AGREEMENT_def)
  from raw(3) obtain attrs d s1 where k: "load_key env k s = (Inr (attrs, d), s1)"
    "usage (policy attrs) AND PSA_KEY_USAGE_DERIVE = PSA_KEY_USAGE_DERIVE"
    "wolfpsa_asymmetric_alg_permitted (alg (policy attrs)) a PSA_KEY_USAGE_DERIVE \<or>
     wolfpsa_asymmetric_alg_permitted (alg2 (policy attrs)) a PSA_KEY_USAGE_DERIVE"
    "PSA_KEY_TYPE_IS_ECC_KEY_PAIR (type attrs)" "PSA_ALG_KEY_AGREEMENT_GET_BASE a = PSA_ALG_ECDH"
    by (rule agreement_secret_key)
  have "PSA_ALG_IS_RAW_KEY_AGREEMENT p \<and> PSA_ALG_KEY_AGREEMENT_GET_BASE p = PSA_ALG_ECDH"
    if "wolfpsa_asymmetric_alg_permitted p a PSA_KEY_USAGE_DERIVE" for p
    using that k(5) raw(1) by (auto simp: agreement_permitted_iff [OF ka] agreement_policy_allows_def PSA_ALG_IS_RAW_KEY_AGREEMENT_def)
  with k raw show ?thesis by blast
qed

text \<open>A stored P-256 key for ECDH, and a peer's public value.\<close>

definition demo_ec_attr :: "psa_algorithm_t \<Rightarrow> psa_key_attributes_t" where
  "demo_ec_attr a = psa_key_attributes_init
    \<lparr>type := 0x7112, bits := 256, policy := \<lparr>usage = PSA_KEY_USAGE_DERIVE, alg = a, alg2 = PSA_ALG_NONE\<rparr>\<rparr>"

abbreviation demo_ec_ks :: "psa_algorithm_t \<Rightarrow> unit posix_state key_store" where
  "demo_ec_ks a \<equiv> demo_with (demo_ec_attr a) (replicate 32 5)"

definition demo_peer :: inbuf where
  "demo_peer = In (4 # replicate 64 9)"

lemma demo_ec_attr_simps [simp]:
  "type (demo_ec_attr a) = 0x7112" "bits (demo_ec_attr a) = 256" "usage (policy (demo_ec_attr a)) = PSA_KEY_USAGE_DERIVE"
  "alg (policy (demo_ec_attr a)) = a" "alg2 (policy (demo_ec_attr a)) = PSA_ALG_NONE"
  by (simp_all add: demo_ec_attr_def)

lemma demo_rng: "wc_init_rng demo_env i = WC_OK"
  by (simp add: demo_env_def)

lemma demo_ec_secret:
  assumes "a = 0x09020000 \<or> a = 0x09020109"
  shows "wolfpsa_key_agreement_secret demo_env demo_ecdh a PSA_KEY_ID_VENDOR_MIN demo_peer (Out 32) (demo_ec_ks a) =
    (Inr (replicate 32 3), (demo_ec_ks a)\<lparr>rng_calls := Suc 0\<rparr>)"
proof -
  have "wc_psa_get_ecc_curve_id default_build 0x7112 256 \<noteq> ECC_CURVE_INVALID"
    by (simp add: wc_psa_get_ecc_curve_id_def default_build_def psa_defs)
  moreover have "rng_calls (demo_ec_ks a) = 0" by (simp add: demo_with_def demo_ks_def fresh_store_def)
  ultimately show ?thesis using assms
    by (auto simp: wolfpsa_key_agreement_secret_def agreement_of_key_def wolfpsa_asymmetric_check_key_def ecdh_weierstrass_def Let_def
        psa_defs wolfpsa_asymmetric_alg_permitted_def wolfpsa_key_agreement_alg_permitted_def demo_peer_def
        demo_ecdh_def wc_try_def wolfpsa_check_word32_length_def demo_rng)
qed

theorem raw_agreement_policy_witness:
  "\<exists>attrs d s1. load_key demo_env PSA_KEY_ID_VENDOR_MIN (demo_ec_ks 0x09020000) = (Inr (attrs, d), s1) \<and>
     usage (policy attrs) AND PSA_KEY_USAGE_DERIVE = PSA_KEY_USAGE_DERIVE"
proof -
  have "psa_raw_key_agreement demo_env demo_ecdh 0x09020000 PSA_KEY_ID_VENDOR_MIN demo_peer (Out 32) (Some 0)
      (demo_ec_ks 0x09020000) = (PSA_SUCCESS, replicate 32 3, Some 32, (demo_ec_ks 0x09020000)\<lparr>rng_calls := Suc 0\<rparr>)"
    by (simp add: psa_raw_key_agreement_def demo_ec_secret wolfpsa_clear_length_def psa_defs)
  from raw_agreement_policy [OF this] show ?thesis by blast
qed

section \<open>Agreement and derivation\<close>

lemma hkdf_stream:
  assumes "PSA_ALG_IS_HKDF (kd_alg ctx)" "\<not> kd_is_raw_kdf ctx"
  shows "kdf_stream R ctx =
    kr_expand R (kdf_hash_type_from_alg (kd_alg ctx))
      (kr_extract R (kdf_hash_type_from_alg (kd_alg ctx)) (kd_salt ctx) (kd_secret ctx)) (kd_info ctx)"
proof -
  have "\<not> PSA_ALG_IS_HKDF_EXTRACT (kd_alg ctx)" "\<not> PSA_ALG_IS_HKDF_EXPAND (kd_alg ctx)"
    using assms(1) by (simp_all add: psa_defs)
  then show ?thesis using assms by (simp add: kdf_stream_def Let_def)
qed

text \<open>
  The agreement inside a derivation takes the key that the caller's id names before the call, and
  the size of the buffer for the secret is that key's.
\<close>

lemma key_agreement_key:
  assumes env: "env_ops env = posix_ops os" and lk: "lock_ok s"
    and r: "wolfpsa_kdf_key_agreement env E X ctx stp k peer s = (PSA_SUCCESS, ctx', s')"
    and a: "PSA_ALG_KEY_AGREEMENT (kd_ka_alg ctx) (kd_alg ctx) = a" "PSA_ALG_IS_KEY_AGREEMENT a"
  obtains attrs d secret t1 t2 ctx1 where "key_at posix_recs s k = Some (attrs, d)" "agreement_key_ok a attrs"
    "agreement_of_key env X attrs d peer (Out (PSA_RAW_KEY_AGREEMENT_OUTPUT_SIZE (type attrs) (unat (bits attrs)))) t1 =
       (Inr secret, t2)"
    "load_frame posix_recs s t1" "load_frame posix_recs s s'"
    "wolfpsa_kdf_input_bytes E ctx stp (In secret) t2 = (PSA_SUCCESS, ctx1, s')"
    "ctx' = (if stp = PSA_KEY_DERIVATION_INPUT_SECRET then ctx1\<lparr>kd_can_output_key := True\<rparr> else ctx1)"
  using r
proof (cases rule: key_agreement_cases)
  case (taken pa s1 s2 secret s3 ctx1)
  note ga = posix_keys.get_attributes_sound [OF env lk taken(2)]
  have f1: "load_frame posix_recs s s1" using ga by blast
  have f2: "load_frame posix_recs s s2"
    using load_frame_trans [OF f1 xmalloc_load_frame [OF _ taken(3)]] f1 by (simp add: load_frame_def)
  then have lk2: "lock_ok s2" by (simp add: load_frame_def)
  obtain attrs d t1 where k: "load_key env k s2 = (Inr (attrs, d), t1)" "agreement_key_ok a attrs"
    "agreement_of_key env X attrs d peer (Out (PSA_RAW_KEY_AGREEMENT_OUTPUT_SIZE (type pa) (unat (bits pa)))) t1 = (Inr secret, s3)"
    using taken(4) a by (auto elim: agreement_secret_ok)
  note L = posix_keys.load_key_sound [OF env lk2 k(1)]
  have key: "key_at posix_recs s k = Some (attrs, d)" using L(2) key_at_frame [OF f2] by simp
  have "pa = attrs\<lparr>id := k\<rparr>"
    using ga attrs_of_lookup [OF key [unfolded key_at_def]] by simp
  then have k3: "agreement_of_key env X attrs d peer
      (Out (PSA_RAW_KEY_AGREEMENT_OUTPUT_SIZE (type attrs) (unat (bits attrs)))) t1 = (Inr secret, s3)"
    using k(3) by simp
  have g1: "load_frame posix_recs s t1" by (rule load_frame_trans [OF f2 L(1)])
  have g3: "load_frame posix_recs s s3"
    using load_frame_trans [OF g1 agreement_of_key_frame [OF k3]] g1 by (simp add: load_frame_def)
  have "load_frame posix_recs s s'"
    using load_frame_trans [OF g3 input_bytes_frame [OF taken(5)]] g3 by (simp add: load_frame_def)
  with key k(2) k3 g1 show ?thesis using taken(5,6) by (intro that) auto
qed simp

text \<open>The operation after the inputs, for HKDF.\<close>

lemma agreement_inputs_hkdf:
  assumes env: "env_ops env = posix_ops os" and lk: "lock_ok s"
    and a: "PSA_ALG_IS_KEY_AGREEMENT a" "PSA_ALG_IS_HKDF (PSA_ALG_KEY_AGREEMENT_GET_KDF a)"
    and r: "agreement_kdf_inputs env E X k peer a s = (PSA_SUCCESS, op, s')"
  shows "\<exists>attrs d secret t1 t2 ctx. key_at posix_recs s k = Some (attrs, d) \<and> agreement_key_ok a attrs \<and>
    agreement_of_key env X attrs d peer (Out (PSA_RAW_KEY_AGREEMENT_OUTPUT_SIZE (type attrs) (unat (bits attrs)))) t1 =
      (Inr secret, t2) \<and> load_frame posix_recs s t1 \<and> load_frame posix_recs s s' \<and>
    op = Some (Some ctx) \<and> kd_salt ctx = [] \<and> kd_info ctx = [] \<and> kd_secret ctx = secret \<and>
    kd_alg ctx = PSA_ALG_KEY_AGREEMENT_GET_KDF a \<and> kd_output_offset ctx = 0 \<and> kd_output_cache ctx = None \<and>
    \<not> kd_output_started ctx \<and> \<not> kd_is_raw_kdf ctx \<and> kd_capacity ctx = kdf_capacity0 E (kdf_alg_of a) \<and>
    kdf_hash_type_from_alg (kdf_alg_of a) \<noteq> WC_HASH_TYPE_NONE"
proof -
  let ?k = "PSA_ALG_KEY_AGREEMENT_GET_KDF a"
  have k: "kdf_alg_of a = ?k" by (simp add: kdf_alg_of_def a(1))
  have nraw: "?k \<noteq> PSA_ALG_CATEGORY_KEY_DERIVATION" using a(2) by (auto simp: psa_defs)
  obtain st1 op1 s1 where r1: "psa_key_derivation_setup E (Some None) a s = (st1, op1, s1)" by (metis prod_cases3)
  obtain st2 op2 s2 where r2: "psa_key_derivation_input_bytes E op1 PSA_KEY_DERIVATION_INPUT_SALT (NullIn 0) s1 = (st2, op2, s2)"
    by (metis prod_cases3)
  obtain st3 op3 s3 where r3: "psa_key_derivation_key_agreement env E X op2 PSA_KEY_DERIVATION_INPUT_SECRET k peer s2 = (st3, op3, s3)"
    by (metis prod_cases3)
  note u = r [unfolded agreement_kdf_inputs_def Let_def r1 prod.case]
  have ok: "st1 = PSA_SUCCESS" "st2 = PSA_SUCCESS" "st3 = PSA_SUCCESS"
    and r4: "psa_key_derivation_input_bytes E op3 PSA_KEY_DERIVATION_INPUT_INFO (NullIn 0) s3 = (PSA_SUCCESS, op, s')"
    using u a(2) by (auto simp: r2 r3 split: if_splits)
  define c0 where "c0 = (kdf_new_ctx a ?k)\<lparr>kd_capacity := kdf_capacity0 E ?k\<rparr>"
  have o1: "op1 = Some (Some c0)" using setup_ctx(2) [OF r1 [unfolded ok]] by (simp add: k c0_def)
  obtain c1 where c1: "op2 = Some (Some c1)"
    "wolfpsa_kdf_input_bytes E c0 PSA_KEY_DERIVATION_INPUT_SALT (NullIn 0) s1 = (PSA_SUCCESS, c1, s2)"
    using r2 [unfolded ok psa_key_derivation_input_bytes_def] o1 by (auto elim: kdf_entry_success)
  obtain c2 where c2: "op3 = Some (Some c2)"
    "wolfpsa_kdf_key_agreement env E X c1 PSA_KEY_DERIVATION_INPUT_SECRET k peer s2 = (PSA_SUCCESS, c2, s3)"
    using r3 [unfolded ok psa_key_derivation_key_agreement_def] c1(1) by (auto elim: kdf_entry_success)
  obtain c3 where c3: "op = Some (Some c3)"
    "wolfpsa_kdf_input_bytes E c2 PSA_KEY_DERIVATION_INPUT_INFO (NullIn 0) s3 = (PSA_SUCCESS, c3, s')"
    using r4 [unfolded psa_key_derivation_input_bytes_def] c2(1) by (auto elim: kdf_entry_success)
  have h: "kdf_hash_type_from_alg ?k \<noteq> WC_HASH_TYPE_NONE"
    using setup_ctx(3) [OF r1 [unfolded ok]] a(2) by (simp add: k PSA_ALG_IS_ANY_HKDF_def PSA_ALG_IS_HKDF_def)
  note v1 = input_bytes_value(2) [OF c1(2) refl]
  note v3 = input_bytes_value(3) [OF c3(2) refl]
  have f1: "load_frame posix_recs s s1" by (rule setup_frame [OF r1 lk])
  have f2: "load_frame posix_recs s s2"
    using load_frame_trans [OF f1 input_bytes_frame [OF c1(2)]] f1 by (simp add: load_frame_def)
  then have lk2: "lock_ok s2" by (simp add: load_frame_def)
  have ca: "PSA_ALG_KEY_AGREEMENT (kd_ka_alg c1) (kd_alg c1) = a"
    using agreement_recombine [OF a(1)] by (simp add: v1 c0_def kdf_new_ctx_def a(1))
  obtain attrs d secret t1 t2 c2' where key: "key_at posix_recs s2 k = Some (attrs, d)" "agreement_key_ok a attrs"
      "agreement_of_key env X attrs d peer (Out (PSA_RAW_KEY_AGREEMENT_OUTPUT_SIZE (type attrs) (unat (bits attrs)))) t1 =
         (Inr secret, t2)"
    and f3: "load_frame posix_recs s2 t1" "load_frame posix_recs s2 s3"
    and v: "wolfpsa_kdf_input_bytes E c1 PSA_KEY_DERIVATION_INPUT_SECRET (In secret) t2 = (PSA_SUCCESS, c2', s3)"
      "c2 = c2'\<lparr>kd_can_output_key := True\<rparr>"
    using key_agreement_key [OF env lk2 c2(2) ca a(1)] by (metis (full_types))
  note v2 = input_bytes_value(1) [OF v(1) refl]
  have "load_frame posix_recs s s'"
    using load_frame_trans [OF load_frame_trans [OF f2 f3(2)] input_bytes_frame [OF c3(2)]] f3(2)
    by (simp add: load_frame_def)
  moreover have "key_at posix_recs s k = Some (attrs, d)" using key(1) key_at_frame [OF f2] by simp
  moreover have "load_frame posix_recs s t1" by (rule load_frame_trans [OF f2 f3(1)])
  ultimately show ?thesis using key(2,3) v(2) nraw h
    by (intro exI [of _ attrs] exI [of _ d] exI [of _ secret] exI [of _ t1] exI [of _ t2] exI [of _ c3])
      (simp add: c3(1) v3 v2 v1 c0_def kdf_new_ctx_def k)
qed

text \<open>
  C21: \<open>psa_key_agreement\<close> with HKDF derives what it says. When it succeeds for the combination of
  ECDH with HKDF over the POSIX store, the caller's id named, when the call began, an
  elliptic-curve key pair with the derive usage whose policy admits the combination (key agreement
  with the same base, raw or bound to the same HKDF); the shared secret was computed from the
  bytes of that key and the peer's public value; and the key that is imported, with nothing else
  changed in the key store before, consists of the first bytes of HKDF (RFC 5869) of that secret
  with empty salt and empty info, as many as the size in the caller's attributes asks for. The
  engine is taken to keep to its documented results (\<open>kdf_engine_ok\<close>), and no caller holds the
  library's lock (\<open>lock_ok\<close>).
\<close>

theorem key_agreement_hkdf:
  assumes env: "env_ops env = posix_ops os" and lk: "lock_ok s" and ok: "kdf_engine_ok E R V"
    and a: "PSA_ALG_IS_KEY_AGREEMENT a" "PSA_ALG_IS_HKDF (PSA_ALG_KEY_AGREEMENT_GET_KDF a)"
    and r: "psa_key_agreement env E X k peer a (Some attr) False s = Some (PSA_SUCCESS, kid, s')"
  shows "\<exists>attrs d secret t1 t2 s3. key_at posix_recs s k = Some (attrs, d) \<and> agreement_key_ok a attrs \<and>
    agreement_of_key env X attrs d peer (Out (PSA_RAW_KEY_AGREEMENT_OUTPUT_SIZE (type attrs) (unat (bits attrs)))) t1 =
      (Inr secret, t2) \<and> load_frame posix_recs s t1 \<and> load_frame posix_recs s s3 \<and>
    psa_import_key env (Some attr)
      (In (prefix_of (let h = kdf_hash_type_from_alg (PSA_ALG_KEY_AGREEMENT_GET_KDF a)
                      in kr_expand R h (kr_extract R h [] secret) [])
             (PSA_BITS_TO_BYTES (unat (bits attr))))) False s3 = (PSA_SUCCESS, kid, s')"
proof -
  let ?k = "PSA_ALG_KEY_AGREEMENT_GET_KDF a" and ?n = "PSA_BITS_TO_BYTES (unat (bits attr))"
  have "\<not> PSA_ALG_IS_RAW_KEY_AGREEMENT a" using a(2) by (auto simp: psa_defs)
  with r a(1) have "wolfpsa_key_agreement_kdf env E X k peer a attr s = Some (PSA_SUCCESS, kid, s')"
    by (simp add: psa_key_agreement_def)
  then obtain op s1 op2 where i: "agreement_kdf_inputs env E X k peer a s = (PSA_SUCCESS, op, s1)"
    and o: "psa_key_derivation_output_key env E (Some attr) op False s1 = Some (PSA_SUCCESS, kid, op2, s')"
    by (auto simp: wolfpsa_key_agreement_kdf_def split: prod.splits if_splits option.splits)
  from agreement_inputs_hkdf [OF env lk a i] obtain attrs d secret t1 t2 ctx where
    sec: "key_at posix_recs s k = Some (attrs, d)" "agreement_key_ok a attrs"
      "agreement_of_key env X attrs d peer (Out (PSA_RAW_KEY_AGREEMENT_OUTPUT_SIZE (type attrs) (unat (bits attrs)))) t1 =
         (Inr secret, t2)" "load_frame posix_recs s t1"
    and f1: "load_frame posix_recs s s1"
    and c: "op = Some (Some ctx)" "kd_salt ctx = []" "kd_info ctx = []" "kd_secret ctx = secret"
      "kd_alg ctx = ?k" "kd_output_offset ctx = 0" "kd_output_cache ctx = None" "\<not> kd_output_started ctx"
      "\<not> kd_is_raw_kdf ctx" "kd_capacity ctx = kdf_capacity0 E (kdf_alg_of a)"
    and h: "kdf_hash_type_from_alg (kdf_alg_of a) \<noteq> WC_HASH_TYPE_NONE" by blast
  obtain b bs op3 s4 s5 where xm: "s_xmalloc s1 = (b, s4)"
    and ob: "psa_key_derivation_output_bytes E (Some (Some ctx)) (Out ?n) s4 = Some (PSA_SUCCESS, bs, op3, s5)"
    and im: "psa_import_key env (Some attr) (In bs) False s5 = (PSA_SUCCESS, kid, s')"
    using o unfolding c(1)
    by (auto simp: psa_key_derivation_output_key_def wolfpsa_kdf_output_key_def wolfpsa_kdf_get_ctx_def Let_def
        split: if_splits option.splits prod.splits)
  have f4: "load_frame posix_recs s s4"
    using load_frame_trans [OF f1 xmalloc_load_frame [OF _ xm]] f1 by (simp add: load_frame_def)
  then have "load_frame posix_recs s4 s5"
    using hkdf_output_frame [OF ob] a(2) c(5,9) by (simp add: load_frame_def)
  then have f5: "load_frame posix_recs s s5" by (rule load_frame_trans [OF f4])
  have cap: "kd_capacity ctx \<le> SIZE_MAX"
    using capacity0_limit [OF ok h] kdf_limit_small [of a] c(10) by (auto split: option.splits)
  have "unat (bits attr) < 65536" by (rule order_less_le_trans [OF unsigned_less]) simp
  moreover have "?n \<le> unat (bits attr) + 7" unfolding PSA_BITS_TO_BYTES_def by (rule div_le_dividend)
  moreover have "(65543 :: nat) \<le> SIZE_MAX - 15" by simp
  ultimately have n: "?n \<le> SIZE_MAX - 15" by linarith
  have "kdf_ready R (out_size (Out ?n)) ctx" using n cap c(6-8) by (simp add: kdf_ready_def kdf_good_def)
  from output_bytes_op [OF ok this ob] obtain ctx' where
    c': "kdf_mono R ?n ctx ctx' bs" "kdf_inputs_same ctx ctx'" "length bs = ?n" by auto
  have "kdf_stream R ctx' = kr_expand R (kdf_hash_type_from_alg ?k) (kr_extract R (kdf_hash_type_from_alg ?k) [] secret) []"
    using hkdf_stream [of ctx' R] c'(2) c a(2) by (simp add: kdf_inputs_same_def)
  then have "bs = prefix_of (kr_expand R (kdf_hash_type_from_alg ?k) (kr_extract R (kdf_hash_type_from_alg ?k) [] secret) []) ?n"
    using c'(1,3) c(6) by (simp add: kdf_mono_def)
  with sec f5 im show ?thesis unfolding Let_def by blast
qed

lemma demo_ec_hkdf_inputs:
  "\<exists>ctx. agreement_kdf_inputs demo_env demo_kdf demo_ecdh PSA_KEY_ID_VENDOR_MIN demo_peer 0x09020109 (demo_ec_ks 0x09020109) =
      (PSA_SUCCESS, Some (Some ctx), (demo_ec_ks 0x09020109)\<lparr>rng_calls := Suc 0\<rparr>) \<and>
    kd_can_output_key ctx \<and> \<not> kd_error_state ctx \<and> kd_alg ctx = demo_hkdf \<and> kd_steps_set ctx = 13 \<and>
    kd_capacity ctx = 8160 \<and> kd_output_offset ctx = 0 \<and> kd_output_cache ctx = None \<and> \<not> kd_is_raw_kdf ctx \<and>
    \<not> kd_output_started ctx \<and> kd_secret ctx = replicate 32 3 \<and> kd_salt ctx = [] \<and> kd_info ctx = []"
proof -
  let ?s = "demo_ec_ks 0x09020109"
  have g: "psa_get_key_attributes demo_env PSA_KEY_ID_VENDOR_MIN False ?s =
      (PSA_SUCCESS, (demo_ec_attr 0x09020109)\<lparr>id := PSA_KEY_ID_VENDOR_MIN\<rparr>, ?s)"
    using check_init_ready [of default_build ?s]
    by (simp add: psa_get_key_attributes_def volatile_get_attributes_ready)
  have x: "s_xmalloc (?s\<lparr>rng_calls := Suc 0\<rparr>) = (True, ?s\<lparr>rng_calls := Suc 0\<rparr>)"
    by (simp add: s_xmalloc_eq alloc_next_def alloc_rest_def)
  show ?thesis
    by (simp add: agreement_kdf_inputs_def psa_key_derivation_setup_def psa_key_derivation_key_agreement_def
        wolfpsa_kdf_key_agreement_def g x demo_ec_secret demo_kdf_def kdf_eval)
qed

theorem key_agreement_hkdf_witness:
  "\<exists>s' attrs d secret t1 t2 s3 bs. psa_key_agreement demo_env demo_kdf demo_ecdh PSA_KEY_ID_VENDOR_MIN demo_peer 0x09020109
       (Some demo_raw_attr) False (demo_ec_ks 0x09020109) = Some (PSA_SUCCESS, PSA_KEY_ID_VENDOR_MIN + 1, s') \<and>
     attrs = demo_ec_attr 0x09020109 \<and> d = replicate 32 5 \<and>
     agreement_of_key demo_env demo_ecdh attrs d demo_peer (Out 32) t1 = (Inr secret, t2) \<and>
     load_frame posix_recs (demo_ec_ks 0x09020109) s3 \<and>
     psa_import_key demo_env (Some demo_raw_attr) (In bs) False s3 = (PSA_SUCCESS, PSA_KEY_ID_VENDOR_MIN + 1, s')"
proof -
  let ?s = "(demo_ec_ks 0x09020109)\<lparr>rng_calls := Suc 0\<rparr>"
  obtain ctx where c: "agreement_kdf_inputs demo_env demo_kdf demo_ecdh PSA_KEY_ID_VENDOR_MIN demo_peer 0x09020109
      (demo_ec_ks 0x09020109) = (PSA_SUCCESS, Some (Some ctx), ?s)"
    "kd_can_output_key ctx" "\<not> kd_error_state ctx" "kd_alg ctx = demo_hkdf" "kd_steps_set ctx = 13"
    "kd_capacity ctx = 8160" "kd_output_offset ctx = 0" "kd_output_cache ctx = None" "\<not> kd_is_raw_kdf ctx"
    "\<not> kd_output_started ctx" "kd_secret ctx = replicate 32 3" "kd_salt ctx = []" "kd_info ctx = []"
    using demo_ec_hkdf_inputs by blast
  have a: "type demo_raw_attr = PSA_KEY_TYPE_RAW_DATA" "bits demo_raw_attr = 16" by (simp_all add: demo_raw_attr_def)
  have x: "s_xmalloc ?s = (True, ?s)" by (simp add: s_xmalloc_eq alloc_next_def alloc_rest_def)
  obtain bs op1 where o: "psa_key_derivation_output_bytes demo_kdf (Some (Some ctx)) (Out 2) ?s =
      Some (PSA_SUCCESS, bs, Some (Some op1), ?s)" "length bs = 2"
    using c x by (simp add: demo_kdf_def kdf_eval del: upt_Suc)
  obtain s' where im: "psa_import_key demo_env (Some demo_raw_attr) (In bs) False ?s = (PSA_SUCCESS, PSA_KEY_ID_VENDOR_MIN + 1, s')"
    using demo_raw_import [OF o(2)] by blast
  have "psa_key_derivation_output_key demo_env demo_kdf (Some demo_raw_attr) (Some (Some ctx)) False ?s =
      Some (PSA_SUCCESS, PSA_KEY_ID_VENDOR_MIN + 1, Some (Some op1), s')"
    using c(2,3) x o im
    by (simp add: psa_key_derivation_output_key_def wolfpsa_kdf_output_key_def wolfpsa_kdf_get_ctx_def
        wolfpsa_kdf_check_state_def a psa_defs wolfpsa_kdf_done_def)
  then have r: "psa_key_agreement demo_env demo_kdf demo_ecdh PSA_KEY_ID_VENDOR_MIN demo_peer 0x09020109
      (Some demo_raw_attr) False (demo_ec_ks 0x09020109) = Some (PSA_SUCCESS, PSA_KEY_ID_VENDOR_MIN + 1, s')"
    by (simp add: psa_key_agreement_def wolfpsa_key_agreement_kdf_def c(1) psa_defs)
  have n: "PSA_RAW_KEY_AGREEMENT_OUTPUT_SIZE 0x7112 256 = 32" by (simp add: psa_defs)
  from key_agreement_hkdf [OF demo_env_simps(1) _ demo_kdf_ok _ _ r] r show ?thesis
    by (fastforce simp: psa_defs n)
qed

end
