(* ===== verification/Asym_Wc.thy ===== *)
theory Asym_Wc
  imports Asym_Agree Hash
begin

text \<open>
  What the asymmetric back ends share: the algorithm and size macros of signatures and RSA
  encryption, the translation of an algorithm to wolfCrypt's hash and padding types
  (\<open>src/psa_asymmetric.c\<close>), and the sequencing of wolfCrypt calls that may fail. The modelled
  build is the one of \<open>user_settings.h\<close>: RSA with PSS (and discovery of the salt length) and
  OAEP, ECC with deterministic ECDSA, Ed25519, Ed448, ML-DSA, LMS and XMSS are compiled in.
\<close>

unbundle bit_operations_syntax

section \<open>Algorithm and size macros\<close>

definition PSA_KEY_TYPE_ECC_KEY_PAIR :: "psa_ecc_family_t \<Rightarrow> psa_key_type_t" where
  [psa_defs]: "PSA_KEY_TYPE_ECC_KEY_PAIR curve = PSA_KEY_TYPE_ECC_KEY_PAIR_BASE OR ucast curve"

definition PSA_KEY_TYPE_ECC_PUBLIC_KEY :: "psa_ecc_family_t \<Rightarrow> psa_key_type_t" where
  [psa_defs]: "PSA_KEY_TYPE_ECC_PUBLIC_KEY curve = PSA_KEY_TYPE_ECC_PUBLIC_KEY_BASE OR ucast curve"

definition PSA_KEY_TYPE_IS_ASYMMETRIC :: "psa_key_type_t \<Rightarrow> bool" where
  [psa_defs]: "PSA_KEY_TYPE_IS_ASYMMETRIC t \<longleftrightarrow>
    t AND PSA_KEY_TYPE_CATEGORY_MASK AND NOT PSA_KEY_TYPE_CATEGORY_FLAG_PAIR = PSA_KEY_TYPE_CATEGORY_PUBLIC_KEY"

abbreviation PSA_ALG_RSA_PKCS1V15_SIGN_RAW :: psa_algorithm_t where
  "PSA_ALG_RSA_PKCS1V15_SIGN_RAW \<equiv> PSA_ALG_RSA_PKCS1V15_SIGN_BASE"

definition PSA_ALG_IS_RSA_PKCS1V15_SIGN :: "psa_algorithm_t \<Rightarrow> bool" where
  [psa_defs]: "PSA_ALG_IS_RSA_PKCS1V15_SIGN a \<longleftrightarrow> a AND NOT PSA_ALG_HASH_MASK = PSA_ALG_RSA_PKCS1V15_SIGN_BASE"

definition PSA_ALG_IS_RSA_PSS_STANDARD_SALT :: "psa_algorithm_t \<Rightarrow> bool" where
  [psa_defs]: "PSA_ALG_IS_RSA_PSS_STANDARD_SALT a \<longleftrightarrow> a AND NOT PSA_ALG_HASH_MASK = PSA_ALG_RSA_PSS_BASE"

definition PSA_ALG_IS_RSA_PSS_ANY_SALT :: "psa_algorithm_t \<Rightarrow> bool" where
  [psa_defs]: "PSA_ALG_IS_RSA_PSS_ANY_SALT a \<longleftrightarrow> a AND NOT PSA_ALG_HASH_MASK = PSA_ALG_RSA_PSS_ANY_SALT_BASE"

definition PSA_ALG_IS_RSA_PSS :: "psa_algorithm_t \<Rightarrow> bool" where
  [psa_defs]: "PSA_ALG_IS_RSA_PSS a \<longleftrightarrow> PSA_ALG_IS_RSA_PSS_STANDARD_SALT a \<or> PSA_ALG_IS_RSA_PSS_ANY_SALT a"

definition PSA_ALG_IS_RSA_OAEP :: "psa_algorithm_t \<Rightarrow> bool" where
  [psa_defs]: "PSA_ALG_IS_RSA_OAEP a \<longleftrightarrow> a AND NOT PSA_ALG_HASH_MASK = PSA_ALG_RSA_OAEP_BASE"

definition PSA_ALG_RSA_OAEP_GET_HASH :: "psa_algorithm_t \<Rightarrow> psa_algorithm_t" where
  [psa_defs]: "PSA_ALG_RSA_OAEP_GET_HASH a =
    (if PSA_ALG_IS_RSA_OAEP a then (a AND PSA_ALG_HASH_MASK) OR PSA_ALG_CATEGORY_HASH else 0)"

definition PSA_ALG_ECDSA :: "psa_algorithm_t \<Rightarrow> psa_algorithm_t" where
  [psa_defs]: "PSA_ALG_ECDSA h = PSA_ALG_ECDSA_BASE OR (h AND PSA_ALG_HASH_MASK)"

definition PSA_ALG_ECDSA_IS_DETERMINISTIC :: "psa_algorithm_t \<Rightarrow> bool" where
  [psa_defs]: "PSA_ALG_ECDSA_IS_DETERMINISTIC a \<longleftrightarrow> a AND PSA_ALG_ECDSA_DETERMINISTIC_FLAG \<noteq> 0"

definition PSA_ALG_IS_DETERMINISTIC_ECDSA :: "psa_algorithm_t \<Rightarrow> bool" where
  [psa_defs]: "PSA_ALG_IS_DETERMINISTIC_ECDSA a \<longleftrightarrow> PSA_ALG_IS_ECDSA a \<and> PSA_ALG_ECDSA_IS_DETERMINISTIC a"

definition PSA_ALG_ED25519PH :: psa_algorithm_t where
  [psa_defs]: "PSA_ALG_ED25519PH = PSA_ALG_HASH_EDDSA_BASE OR (PSA_ALG_SHA_512 AND PSA_ALG_HASH_MASK)"

definition PSA_ALG_ED448PH :: psa_algorithm_t where
  [psa_defs]: "PSA_ALG_ED448PH = PSA_ALG_HASH_EDDSA_BASE OR (PSA_ALG_SHAKE256_512 AND PSA_ALG_HASH_MASK)"

definition PSA_ALG_IS_ML_DSA :: "psa_algorithm_t \<Rightarrow> bool" where
  [psa_defs]: "PSA_ALG_IS_ML_DSA a \<longleftrightarrow> a AND NOT 0x100 = 0x06004400"

definition PSA_ALG_IS_DETERMINISTIC_HASH_ML_DSA :: "psa_algorithm_t \<Rightarrow> bool" where
  [psa_defs]: "PSA_ALG_IS_DETERMINISTIC_HASH_ML_DSA a \<longleftrightarrow> a AND NOT 0xff = 0x06004700"

definition PSA_ALG_IS_HEDGED_HASH_ML_DSA :: "psa_algorithm_t \<Rightarrow> bool" where
  [psa_defs]: "PSA_ALG_IS_HEDGED_HASH_ML_DSA a \<longleftrightarrow> a AND NOT 0xff = 0x06004600"

definition PSA_ECDSA_SIGNATURE_SIZE :: "nat \<Rightarrow> nat" where
  [psa_defs]: "PSA_ECDSA_SIGNATURE_SIZE curve_bits = PSA_BITS_TO_BYTES curve_bits * 2"

definition PSA_VENDOR_ECC_SIGNATURE_SIZE :: "nat \<Rightarrow> nat" where
  [psa_defs]: "PSA_VENDOR_ECC_SIGNATURE_SIZE key_bits =
    (if key_bits = 448 then 114 else PSA_ECDSA_SIGNATURE_SIZE key_bits)"

definition PSA_SIGN_OUTPUT_SIZE :: "psa_key_type_t \<Rightarrow> nat \<Rightarrow> psa_algorithm_t \<Rightarrow> nat" where
  [psa_defs]: "PSA_SIGN_OUTPUT_SIZE key_type key_bits a =
    (if PSA_KEY_TYPE_IS_RSA key_type then PSA_BITS_TO_BYTES key_bits
     else if PSA_KEY_TYPE_IS_ECC key_type then PSA_VENDOR_ECC_SIGNATURE_SIZE key_bits
     else if PSA_KEY_TYPE_IS_ML_DSA key_type then
       (if key_bits = 128 then 2420 else if key_bits = 192 then 3309 else if key_bits = 256 then 4627 else 0)
     else 0)"

definition PSA_ASYMMETRIC_ENCRYPT_OUTPUT_SIZE :: "psa_key_type_t \<Rightarrow> nat \<Rightarrow> psa_algorithm_t \<Rightarrow> nat" where
  [psa_defs]: "PSA_ASYMMETRIC_ENCRYPT_OUTPUT_SIZE key_type key_bits a =
    (if PSA_KEY_TYPE_IS_RSA key_type then PSA_BITS_TO_BYTES key_bits else 0)"

section \<open>wolfCrypt's hash and padding types\<close>

definition wc_psa_get_hash_type :: "psa_algorithm_t \<Rightarrow> wc_hash_type" where
  "wc_psa_get_hash_type a =
    (let hash_alg = (if PSA_ALG_IS_RSA_OAEP a then PSA_ALG_RSA_OAEP_GET_HASH a else PSA_ALG_SIGN_GET_HASH a) in
     if hash_alg = PSA_ALG_MD5 then WC_HASH_TYPE_MD5
     else if hash_alg = PSA_ALG_SHA_1 then WC_HASH_TYPE_SHA
     else if hash_alg = PSA_ALG_SHA_224 then WC_HASH_TYPE_SHA224
     else if hash_alg = PSA_ALG_SHA_256 then WC_HASH_TYPE_SHA256
     else if hash_alg = PSA_ALG_SHA_384 then WC_HASH_TYPE_SHA384
     else if hash_alg = PSA_ALG_SHA_512 then WC_HASH_TYPE_SHA512
     else if hash_alg = PSA_ALG_SHA_512_224 then WC_HASH_TYPE_SHA512_224
     else if hash_alg = PSA_ALG_SHA_512_256 then WC_HASH_TYPE_SHA512_256
     else WC_HASH_TYPE_NONE)"

datatype rsa_padding = WC_RSA_NO_PADDING_CODE | WC_RSA_PKCSV15_PAD | WC_RSA_PSS_PAD | WC_RSA_OAEP_PAD

definition wc_psa_get_rsa_padding :: "psa_algorithm_t \<Rightarrow> rsa_padding" where
  "wc_psa_get_rsa_padding a =
    (if PSA_ALG_IS_RSA_PKCS1V15_SIGN a then WC_RSA_PKCSV15_PAD
     else if PSA_ALG_IS_RSA_PSS a then WC_RSA_PSS_PAD
     else if a = PSA_ALG_RSA_PKCS1V15_CRYPT then WC_RSA_PKCSV15_PAD
     else if PSA_ALG_IS_RSA_OAEP a then WC_RSA_OAEP_PAD
     else WC_RSA_NO_PADDING_CODE)"

section \<open>Devices, generators and calls that may fail\<close>

text \<open>
  \<open>dev_default\<close> is what \<open>wolfPSA_GetDefaultDevID()\<close> gives. Random generators are numbered by
  \<open>rng_calls\<close>; \<open>wc_InitRng_ex\<close> gets the number and the device.
\<close>

record wc_device =
  dev_default :: int
  INVALID_DEVID :: int
  wc_InitRng_ex :: "nat \<Rightarrow> int \<Rightarrow> wc_ret"

type_synonym ('a, 'st) asym_run = "'st key_store \<Rightarrow> (psa_status + 'a) \<times> 'st key_store"

definition fail_with :: "psa_status \<Rightarrow> ('a, 'st) asym_run" where
  "fail_with e s = (Inl e, s)"

definition give :: "'a \<Rightarrow> ('a, 'st) asym_run" where
  "give x s = (Inr x, s)"

definition wc_step :: "wc_ret \<times> 'a \<Rightarrow> ('a \<Rightarrow> ('b, 'st) asym_run) \<Rightarrow> ('b, 'st) asym_run" where
  "wc_step r k = (case r of (ret, x) \<Rightarrow> if ret \<noteq> WC_OK then fail_with (wc_error_to_psa_status ret) else k x)"

definition with_rng :: "wc_device \<Rightarrow> int \<Rightarrow> (nat \<Rightarrow> ('b, 'st) asym_run) \<Rightarrow> ('b, 'st) asym_run" where
  "with_rng D devId k s =
    (let i = rng_calls s; s1 = s\<lparr>rng_calls := Suc i\<rparr>; ret = wc_InitRng_ex D i devId in
     if ret \<noteq> WC_OK then fail_with (wc_error_to_psa_status ret) s1 else k i s1)"

definition with_malloc :: "('b, 'st) asym_run \<Rightarrow> ('b, 'st) asym_run" where
  "with_malloc k s =
    (case s_xmalloc s of (ok, s1) \<Rightarrow> if \<not> ok then fail_with PSA_ERROR_INSUFFICIENT_MEMORY s1 else k s1)"

fun run_status :: "psa_status + 'a \<Rightarrow> psa_status" where
  "run_status (Inl e) = e"
| "run_status (Inr x) = PSA_SUCCESS"

lemma fail_with_Inr [simp]: "fail_with e s = (Inr x, s') \<longleftrightarrow> False"
  by (simp add: fail_with_def)

lemma give_eq [simp]: "give x s = (r, s') \<longleftrightarrow> r = Inr x \<and> s' = s"
  by (auto simp: give_def)

lemma wc_step_Inr: "wc_step r k s = (Inr y, s') \<longleftrightarrow> (\<exists>x. r = (WC_OK, x) \<and> k x s = (Inr y, s'))"
  by (cases r) (auto simp: wc_step_def)

lemma wc_step_OK [simp]: "wc_step (WC_OK, x) k = k x"
  by (simp add: wc_step_def)

lemma with_rng_Inr:
  "with_rng D dev k s = (Inr y, s') \<longleftrightarrow>
    wc_InitRng_ex D (rng_calls s) dev = WC_OK \<and> k (rng_calls s) (s\<lparr>rng_calls := Suc (rng_calls s)\<rparr>) = (Inr y, s')"
  by (simp add: with_rng_def Let_def)

lemma case_sum_Inr:
  "(case r of Inl e \<Rightarrow> fail_with (f e) | Inr x \<Rightarrow> k x) s = (Inr y, s') \<longleftrightarrow> (\<exists>x. r = Inr x \<and> k x s = (Inr y, s'))"
  by (cases r) auto

lemma with_rng_device: "with_rng (D\<lparr>dev_default := dev\<rparr>) devId k = with_rng D devId k"
  by (rule ext) (simp add: with_rng_def)

lemma with_malloc_Inr:
  "with_malloc k s = (Inr y, s') \<longleftrightarrow> (\<exists>s1. s_xmalloc s = (True, s1) \<and> k s1 = (Inr y, s'))"
  by (cases "s_xmalloc s") (auto simp: with_malloc_def)

lemma with_malloc_ok: "allocs s = [] \<Longrightarrow> with_malloc k s = k s"
  by (cases s) (simp add: with_malloc_def s_xmalloc_def)

text \<open>A run that never fails with the success code; the combinators keep it.\<close>

definition proper :: "('a, 'st) asym_run \<Rightarrow> bool" where
  "proper f \<longleftrightarrow> (\<forall>s. fst (f s) \<noteq> Inl PSA_SUCCESS)"

lemma proper_fail [simp]: "proper (fail_with e) \<longleftrightarrow> e \<noteq> PSA_SUCCESS"
  by (simp add: proper_def fail_with_def)

lemma proper_give [simp]: "proper (give x)"
  by (simp add: proper_def give_def)

lemma proper_wc_step [simp]: "(\<And>x. proper (k x)) \<Longrightarrow> proper (wc_step r k)"
  by (cases r) (auto simp: wc_step_def)

lemma proper_with_rng [simp]: "(\<And>i. proper (k i)) \<Longrightarrow> proper (with_rng D dev k)"
  by (auto simp: proper_def with_rng_def Let_def fail_with_def)

lemma proper_with_malloc [simp]: "proper k \<Longrightarrow> proper (with_malloc k)"
  by (auto simp: proper_def with_malloc_def fail_with_def split: prod.splits)

lemma proper_if [simp]: "\<lbrakk>c \<Longrightarrow> proper f; \<not> c \<Longrightarrow> proper g\<rbrakk> \<Longrightarrow> proper (if c then f else g)"
  by simp

lemma run_status_success: "proper f \<Longrightarrow> f s = (r, s') \<Longrightarrow> run_status r = PSA_SUCCESS \<longleftrightarrow> (\<exists>x. r = Inr x)"
  by (cases r) (auto simp: proper_def dest: spec [of _ s])

text \<open>A run that changes nothing but the script of allocations and the number of generators.\<close>

definition quiet_to :: "'st key_store \<Rightarrow> 'st key_store \<Rightarrow> bool" where
  "quiet_to s s' \<longleftrightarrow> (\<exists>as n. s' = s\<lparr>allocs := as, rng_calls := n\<rparr> \<and> (allocs s = [] \<longrightarrow> as = []))"

lemma quiet_refl [simp, intro]: "quiet_to s s"
  unfolding quiet_to_def by (intro exI [of _ "allocs s"] exI [of _ "rng_calls s"]) simp

lemma quiet_trans [trans]: "quiet_to s s1 \<Longrightarrow> quiet_to s1 s2 \<Longrightarrow> quiet_to s s2"
  unfolding quiet_to_def by fastforce

lemma quiet_rng [simp]: "quiet_to s (s\<lparr>rng_calls := n\<rparr>)"
  unfolding quiet_to_def by (intro exI [of _ "allocs s"] exI [of _ n]) simp

lemma quiet_xmalloc: "s_xmalloc s = (ok, s') \<Longrightarrow> quiet_to s s'"
  unfolding quiet_to_def s_xmalloc_def
  by (cases "allocs s") (auto intro!: exI [of _ "allocs s'"] exI [of _ "rng_calls s"])

definition quiet :: "('a, 'st) asym_run \<Rightarrow> bool" where
  "quiet f \<longleftrightarrow> (\<forall>s. quiet_to s (snd (f s)))"

lemma quietD: "quiet f \<Longrightarrow> f s = (r, s') \<Longrightarrow> quiet_to s s'"
  by (metis quiet_def snd_conv)

lemma quiet_fail [simp]: "quiet (fail_with e)"
  by (simp add: quiet_def fail_with_def)

lemma quiet_give [simp]: "quiet (give x)"
  by (simp add: quiet_def give_def)

lemma quiet_wc_step [simp]: "(\<And>x. quiet (k x)) \<Longrightarrow> quiet (wc_step r k)"
  by (cases r) (auto simp: wc_step_def)

lemma quiet_with_rng [simp]:
  assumes "\<And>i. quiet (k i)" shows "quiet (with_rng D dev k)"
proof -
  have "quiet_to s (snd (k i (s\<lparr>rng_calls := n\<rparr>)))" for i n s
    by (rule quiet_trans [OF quiet_rng [of s n]]) (use assms [of i] in \<open>simp add: quiet_def\<close>)
  then show ?thesis by (auto simp: quiet_def with_rng_def Let_def fail_with_def)
qed

lemma quiet_with_malloc [simp]:
  fixes k :: "('b, 'a) asym_run"
  assumes "quiet k" shows "quiet (with_malloc k)"
  unfolding quiet_def
proof
  fix s :: "'a key_store"
  obtain ok s1 where m: "s_xmalloc s = (ok, s1)" by fastforce
  note q = quiet_xmalloc [OF m]
  have "quiet_to s (snd (k s1))" using quiet_trans [OF q] assms by (simp add: quiet_def)
  with q m show "quiet_to s (snd (with_malloc k s))" by (simp add: with_malloc_def fail_with_def)
qed

lemma quiet_if [simp]: "\<lbrakk>c \<Longrightarrow> quiet f; \<not> c \<Longrightarrow> quiet g\<rbrakk> \<Longrightarrow> quiet (if c then f else g)"
  by simp

end
