(* ===== verification/Asym_Ecc.thy ===== *)
theory Asym_Ecc
  imports Asym_Wc
begin

text \<open>
  ECDSA and elliptic-curve keys, \<open>src/psa_ecc.c\<close>: signing (wolfCrypt's DER signature turned into
  the fixed-size \<open>r || s\<close> of PSA), verification, key generation and public-key export. wolfCrypt's
  \<open>ecc_key\<close> operations are a parameter (record \<open>ecc_engine\<close>, its fields named after the calls).
\<close>

unbundle bit_operations_syntax

section \<open>wolfCrypt's operations\<close>

text \<open>
  \<open>'e\<close> is an \<open>ecc_key\<close>. \<open>wc_ecc_sign_hash\<close> gets the hash, the size of the DER buffer and the
  number of the random generator. \<open>wc_ecc_sig_to_rs\<close> gets the capacities of the two buffers and
  gives the bytes it stored. The integer of \<open>wc_ecc_verify_hash\<close> is \<open>*res\<close>.
  \<open>ecc_private\<close> tells whether \<open>ecc.type\<close> is \<open>ECC_PRIVATEKEY\<close>, and \<open>mp_to_unsigned_bin_len\<close>
  writes the private scalar \<open>ecc.k\<close>.
\<close>

record 'e ecc_engine =
  wc_ecc_init_ex :: "int \<Rightarrow> wc_ret \<times> 'e"
  wc_ecc_import_private_key_ex :: "byte list \<Rightarrow> ecc_curve \<Rightarrow> 'e \<Rightarrow> wc_ret \<times> 'e"
  wc_ecc_import_x963_ex :: "byte list \<Rightarrow> ecc_curve \<Rightarrow> 'e \<Rightarrow> wc_ret \<times> 'e"
  wc_ecc_make_pub_ex :: "'e \<Rightarrow> wc_ret \<times> 'e"
  wc_ecc_set_deterministic_ex :: "wc_hash_type \<Rightarrow> 'e \<Rightarrow> wc_ret \<times> 'e"
  wc_ecc_sig_size :: "'e \<Rightarrow> nat"
  wc_ecc_sign_hash :: "inbuf \<Rightarrow> nat \<Rightarrow> nat \<Rightarrow> 'e \<Rightarrow> wc_ret \<times> byte list"
  wc_ecc_sig_to_rs :: "byte list \<Rightarrow> nat \<Rightarrow> nat \<Rightarrow> wc_ret \<times> byte list \<times> byte list"
  wc_ecc_rs_raw_to_sig :: "byte list \<Rightarrow> byte list \<Rightarrow> nat \<Rightarrow> wc_ret \<times> byte list"
  wc_ecc_verify_hash :: "byte list \<Rightarrow> inbuf \<Rightarrow> 'e \<Rightarrow> wc_ret \<times> int"
  wc_ecc_make_key_ex :: "nat \<Rightarrow> nat \<Rightarrow> ecc_curve \<Rightarrow> 'e \<Rightarrow> wc_ret \<times> 'e"
  ecc_private :: "'e \<Rightarrow> bool"
  mp_to_unsigned_bin_len :: "'e \<Rightarrow> nat \<Rightarrow> wc_ret \<times> byte list"
  wc_ecc_export_x963 :: "'e \<Rightarrow> outbuf \<Rightarrow> wc_ret \<times> byte list"

section \<open>Signing\<close>

text \<open>A big-endian number in a field of \<open>n\<close> bytes: zeros, then the bytes.\<close>

definition be_field :: "nat \<Rightarrow> byte list \<Rightarrow> byte list" where
  "be_field n r = replicate (n - length r) 0 @ r"

text \<open>From the allocation of the DER buffer on.\<close>

definition ecc_sign_raw :: "'e ecc_engine \<Rightarrow> nat \<Rightarrow> inbuf \<Rightarrow> nat \<Rightarrow> 'e \<Rightarrow> (byte list, 'st) asym_run" where
  "ecc_sign_raw E key_bytes hash rng ecc =
    with_malloc
      (wc_step (wc_ecc_sign_hash E hash (wc_ecc_sig_size E ecc) rng ecc) (\<lambda>der.
       with_malloc
         (wc_step (wc_ecc_sig_to_rs E der key_bytes key_bytes) (\<lambda>(r, t).
            if length r > key_bytes \<or> length t > key_bytes then fail_with PSA_ERROR_INVALID_SIGNATURE
            else give (be_field key_bytes r @ be_field key_bytes t)))))"

definition psa_asymmetric_sign_ecc ::
    "build \<Rightarrow> wc_device \<Rightarrow> 'e ecc_engine \<Rightarrow> psa_key_type_t \<Rightarrow> nat \<Rightarrow> byte list \<Rightarrow> psa_algorithm_t \<Rightarrow>
     inbuf \<Rightarrow> outbuf \<Rightarrow> (byte list, 'st) asym_run" where
  "psa_asymmetric_sign_ecc b D E key_type key_bits key_buffer a hash signature =
    (let curve_id = wc_psa_get_ecc_curve_id b key_type key_bits;
         key_bytes = PSA_BITS_TO_BYTES key_bits;
         devId = (if PSA_ALG_IS_DETERMINISTIC_ECDSA a then INVALID_DEVID D else dev_default D)
     in
     if \<not> PSA_KEY_TYPE_IS_ECC_KEY_PAIR key_type then fail_with PSA_ERROR_INVALID_ARGUMENT
     else if \<not> PSA_ALG_IS_ECDSA a \<and> \<not> PSA_ALG_IS_DETERMINISTIC_ECDSA a then fail_with PSA_ERROR_NOT_SUPPORTED
     else if out_null signature then fail_with PSA_ERROR_INVALID_ARGUMENT
     else if curve_id = ECC_CURVE_INVALID then fail_with PSA_ERROR_NOT_SUPPORTED
     else if wolfpsa_check_word32_length (length key_buffer) \<noteq> PSA_SUCCESS \<or>
             wolfpsa_check_word32_length (in_length hash) \<noteq> PSA_SUCCESS
       then fail_with PSA_ERROR_INVALID_ARGUMENT
     else
       wc_step (wc_ecc_init_ex E devId) (\<lambda>ecc.
       with_rng D devId (\<lambda>rng.
       wc_step (wc_ecc_import_private_key_ex E key_buffer curve_id ecc) (\<lambda>ecc1.
         if out_size signature < key_bytes * 2 then fail_with PSA_ERROR_BUFFER_TOO_SMALL
         else if PSA_ALG_IS_DETERMINISTIC_ECDSA a then
           (let hash_type = wc_psa_get_hash_type a in
            if hash_type = WC_HASH_TYPE_NONE then fail_with PSA_ERROR_NOT_SUPPORTED
            else
              wc_step (wc_ecc_set_deterministic_ex E hash_type ecc1) (\<lambda>ecc2.
              ecc_sign_raw E key_bytes hash rng ecc2))
         else ecc_sign_raw E key_bytes hash rng ecc1))))"

section \<open>Verification\<close>

definition psa_asymmetric_verify_ecc ::
    "build \<Rightarrow> wc_device \<Rightarrow> 'e ecc_engine \<Rightarrow> psa_key_type_t \<Rightarrow> nat \<Rightarrow> byte list \<Rightarrow> psa_algorithm_t \<Rightarrow>
     inbuf \<Rightarrow> inbuf \<Rightarrow> (unit, 'st) asym_run" where
  "psa_asymmetric_verify_ecc b D E key_type key_bits key_buffer a hash signature =
    (let curve_id = wc_psa_get_ecc_curve_id b key_type key_bits;
         key_bytes = PSA_BITS_TO_BYTES key_bits;
         sig = in_bytes signature
     in
     if \<not> PSA_KEY_TYPE_IS_ECC_PUBLIC_KEY key_type \<and> \<not> PSA_KEY_TYPE_IS_ECC_KEY_PAIR key_type
       then fail_with PSA_ERROR_INVALID_ARGUMENT
     else if \<not> PSA_ALG_IS_ECDSA a \<and> \<not> PSA_ALG_IS_DETERMINISTIC_ECDSA a then fail_with PSA_ERROR_NOT_SUPPORTED
     else if curve_id = ECC_CURVE_INVALID then fail_with PSA_ERROR_NOT_SUPPORTED
     else if wolfpsa_check_word32_length (length key_buffer) \<noteq> PSA_SUCCESS \<or>
             wolfpsa_check_word32_length (in_length hash) \<noteq> PSA_SUCCESS
       then fail_with PSA_ERROR_INVALID_ARGUMENT
     else
       wc_step (wc_ecc_init_ex E (dev_default D)) (\<lambda>ecc.
       wc_step
         (if PSA_KEY_TYPE_IS_ECC_PUBLIC_KEY key_type then wc_ecc_import_x963_ex E key_buffer curve_id ecc
          else
            (case wc_ecc_import_private_key_ex E key_buffer curve_id ecc of
               (ret, ecc1) \<Rightarrow> if ret = WC_OK then wc_ecc_make_pub_ex E ecc1 else (ret, ecc1))) (\<lambda>ecc2.
         if in_length signature \<noteq> key_bytes * 2 then fail_with PSA_ERROR_INVALID_SIGNATURE
         else
           with_malloc
             (case wc_ecc_rs_raw_to_sig E (take key_bytes sig) (take key_bytes (drop key_bytes sig))
                     (wc_ecc_sig_size E ecc2) of
                (ret, der_sig) \<Rightarrow>
                  if ret \<noteq> WC_OK then fail_with PSA_ERROR_INVALID_SIGNATURE
                  else
                    wc_step (wc_ecc_verify_hash E der_sig hash ecc2) (\<lambda>verify_res.
                      if verify_res \<noteq> 1 then fail_with PSA_ERROR_INVALID_SIGNATURE else give ())))))"

section \<open>Key generation and export\<close>

text \<open>The length pointers are never NULL in the calls of \<open>src/psa_key_storage.c\<close>.\<close>

definition psa_asymmetric_generate_key_ecc ::
    "build \<Rightarrow> wc_device \<Rightarrow> 'e ecc_engine \<Rightarrow> psa_key_type_t \<Rightarrow> nat \<Rightarrow> outbuf \<Rightarrow> outbuf \<Rightarrow>
     (byte list \<times> byte list, 'st) asym_run" where
  "psa_asymmetric_generate_key_ecc b D E key_type key_bits private_key public_key =
    (let curve_id = wc_psa_get_ecc_curve_id b key_type key_bits;
         priv_len = PSA_BITS_TO_BYTES key_bits
     in
     if \<not> PSA_KEY_TYPE_IS_ECC_KEY_PAIR key_type then fail_with PSA_ERROR_INVALID_ARGUMENT
     else if curve_id = ECC_CURVE_INVALID then fail_with PSA_ERROR_NOT_SUPPORTED
     else if wolfpsa_check_word32_length (out_size public_key) \<noteq> PSA_SUCCESS
       then fail_with PSA_ERROR_INVALID_ARGUMENT
     else
       wc_step (wc_ecc_init_ex E (dev_default D)) (\<lambda>ecc.
       with_rng D (dev_default D) (\<lambda>rng.
       wc_step (wc_ecc_make_key_ex E rng (PSA_BITS_TO_BYTES key_bits) curve_id ecc) (\<lambda>ecc1.
         if out_null private_key \<or> out_null public_key then fail_with PSA_ERROR_INVALID_ARGUMENT
         else if out_size private_key < priv_len then fail_with PSA_ERROR_BUFFER_TOO_SMALL
         else if \<not> ecc_private E ecc1 then fail_with PSA_ERROR_HARDWARE_FAILURE
         else
           wc_step (mp_to_unsigned_bin_len E ecc1 priv_len) (\<lambda>priv.
           wc_step (wc_ecc_export_x963 E ecc1 public_key) (\<lambda>pub.
             give (priv, pub)))))))"

definition psa_asymmetric_export_public_key_ecc ::
    "build \<Rightarrow> wc_device \<Rightarrow> 'e ecc_engine \<Rightarrow> psa_key_type_t \<Rightarrow> nat \<Rightarrow> byte list \<Rightarrow> outbuf \<Rightarrow>
     psa_status + byte list" where
  "psa_asymmetric_export_public_key_ecc b D E key_type key_bits key_buffer output =
    (let curve_id = wc_psa_get_ecc_curve_id b key_type key_bits in
     if \<not> PSA_KEY_TYPE_IS_ECC_KEY_PAIR key_type \<and> \<not> PSA_KEY_TYPE_IS_ECC_PUBLIC_KEY key_type
       then Inl PSA_ERROR_INVALID_ARGUMENT
     else if curve_id = ECC_CURVE_INVALID then Inl PSA_ERROR_NOT_SUPPORTED
     else if wolfpsa_check_word32_length (length key_buffer) \<noteq> PSA_SUCCESS \<or>
             wolfpsa_check_word32_length (out_size output) \<noteq> PSA_SUCCESS
       then Inl PSA_ERROR_INVALID_ARGUMENT
     else
       wc_try (wc_ecc_init_ex E (dev_default D)) (\<lambda>ecc.
       wc_try
         (if PSA_KEY_TYPE_IS_ECC_KEY_PAIR key_type then
            (case wc_ecc_import_private_key_ex E key_buffer curve_id ecc of
               (ret, ecc1) \<Rightarrow> if ret = WC_OK then wc_ecc_make_pub_ex E ecc1 else (ret, ecc1))
          else wc_ecc_import_x963_ex E key_buffer curve_id ecc) (\<lambda>ecc2.
         if out_null output \<and> out_size output \<noteq> 0 then Inl PSA_ERROR_INVALID_ARGUMENT
         else
           (case wc_ecc_export_x963 E ecc2 output of
              (ret, pub) \<Rightarrow> wc_try (if ret = LENGTH_ONLY_E then BUFFER_E else ret, pub) Inr))))"

section \<open>Shape of a signature\<close>

lemma length_be_field [simp]: "length r \<le> n \<Longrightarrow> length (be_field n r) = n"
  by (simp add: be_field_def)

lemma ecc_sign_raw_frame [simp]:
  "proper (ecc_sign_raw E n hash rng ecc)" "quiet (ecc_sign_raw E n hash rng ecc)"
  by (simp_all add: ecc_sign_raw_def case_prod_unfold)

lemma sign_ecc_frame [simp]:
  "proper (psa_asymmetric_sign_ecc b D E t n d a hash out)" "quiet (psa_asymmetric_sign_ecc b D E t n d a hash out)"
  by (simp_all add: psa_asymmetric_sign_ecc_def Let_def)

lemma verify_ecc_frame [simp]:
  "proper (psa_asymmetric_verify_ecc b D E t n d a hash sig)" "quiet (psa_asymmetric_verify_ecc b D E t n d a hash sig)"
  by (simp_all add: psa_asymmetric_verify_ecc_def Let_def case_prod_unfold)

lemma ecc_sign_raw_Inr:
  assumes "ecc_sign_raw E n hash rng ecc s = (Inr sig, s')"
  obtains der r t where "wc_ecc_sign_hash E hash (wc_ecc_sig_size E ecc) rng ecc = (WC_OK, der)"
    and "wc_ecc_sig_to_rs E der n n = (WC_OK, r, t)" and "length r \<le> n" and "length t \<le> n"
    and "sig = be_field n r @ be_field n t"
  using assms by (auto simp: ecc_sign_raw_def with_malloc_Inr wc_step_Inr split: if_splits)

text \<open>The key object that signs: the imported key, set to deterministic nonces where the algorithm asks for it.\<close>

definition ecc_signer :: "'e ecc_engine \<Rightarrow> byte list \<Rightarrow> ecc_curve \<Rightarrow> 'e \<Rightarrow> bool" where
  "ecc_signer E d c ecc \<longleftrightarrow> (\<exists>dev ecc0 ecc1.
    wc_ecc_init_ex E dev = (WC_OK, ecc0) \<and> wc_ecc_import_private_key_ex E d c ecc0 = (WC_OK, ecc1) \<and>
    (ecc = ecc1 \<or> (\<exists>h. wc_ecc_set_deterministic_ex E h ecc1 = (WC_OK, ecc))))"

lemma sign_ecc_Inr:
  assumes "psa_asymmetric_sign_ecc b D E t n d a hash out s = (Inr sig, s')"
  obtains ecc rng s1 where "PSA_KEY_TYPE_IS_ECC_KEY_PAIR t" and "PSA_ALG_IS_ECDSA a"
    and "wc_psa_get_ecc_curve_id b t n \<noteq> ECC_CURVE_INVALID" and "PSA_BITS_TO_BYTES n * 2 \<le> out_size out"
    and "wolfpsa_check_word32_length (length d) = PSA_SUCCESS"
    and "wolfpsa_check_word32_length (in_length hash) = PSA_SUCCESS"
    and "ecc_signer E d (wc_psa_get_ecc_curve_id b t n) ecc"
    and "ecc_sign_raw E (PSA_BITS_TO_BYTES n) hash rng ecc s1 = (Inr sig, s')"
proof -
  have det: "PSA_ALG_IS_DETERMINISTIC_ECDSA a \<Longrightarrow> PSA_ALG_IS_ECDSA a" by (simp add: PSA_ALG_IS_DETERMINISTIC_ECDSA_def)
  note u = assms [unfolded psa_asymmetric_sign_ecc_def Let_def]
  have g: "PSA_KEY_TYPE_IS_ECC_KEY_PAIR t" "PSA_ALG_IS_ECDSA a" "wc_psa_get_ecc_curve_id b t n \<noteq> ECC_CURVE_INVALID"
    "wolfpsa_check_word32_length (length d) = PSA_SUCCESS" "wolfpsa_check_word32_length (in_length hash) = PSA_SUCCESS"
    using u det by (auto split: if_splits)
  obtain dev ecc0 rng s0 ecc1 where k: "wc_ecc_init_ex E dev = (WC_OK, ecc0)"
    "wc_ecc_import_private_key_ex E d (wc_psa_get_ecc_curve_id b t n) ecc0 = (WC_OK, ecc1)"
    and z: "PSA_BITS_TO_BYTES n * 2 \<le> out_size out"
    and r: "(if PSA_ALG_IS_DETERMINISTIC_ECDSA a then
        if wc_psa_get_hash_type a = WC_HASH_TYPE_NONE then fail_with PSA_ERROR_NOT_SUPPORTED
        else wc_step (wc_ecc_set_deterministic_ex E (wc_psa_get_hash_type a) ecc1)
          (ecc_sign_raw E (PSA_BITS_TO_BYTES n) hash rng)
      else ecc_sign_raw E (PSA_BITS_TO_BYTES n) hash rng ecc1) s0 = (Inr sig, s')"
    using u by (auto simp: wc_step_Inr with_rng_Inr split: if_splits)
  show ?thesis
  proof (cases "PSA_ALG_IS_DETERMINISTIC_ECDSA a")
    case True
    then obtain ecc2 where "wc_ecc_set_deterministic_ex E (wc_psa_get_hash_type a) ecc1 = (WC_OK, ecc2)"
      "ecc_sign_raw E (PSA_BITS_TO_BYTES n) hash rng ecc2 s0 = (Inr sig, s')"
      using r by (auto simp: wc_step_Inr split: if_splits)
    with k show ?thesis by (intro that [OF g(1-3) z g(4,5)]) (auto simp: ecc_signer_def)
  next
    case False
    with r k show ?thesis by (intro that [OF g(1-3) z g(4,5)]) (auto simp: ecc_signer_def)
  qed
qed

lemma sign_ecc_length:
  assumes "psa_asymmetric_sign_ecc b D E t n d a hash out s = (Inr sig, s')"
  shows "length sig = 2 * PSA_BITS_TO_BYTES n" and "length sig \<le> out_size out"
proof -
  obtain ecc rng s1 where z: "PSA_BITS_TO_BYTES n * 2 \<le> out_size out"
    and r: "ecc_sign_raw E (PSA_BITS_TO_BYTES n) hash rng ecc s1 = (Inr sig, s')"
    by (rule sign_ecc_Inr [OF assms])
  show l: "length sig = 2 * PSA_BITS_TO_BYTES n" by (rule ecc_sign_raw_Inr [OF r]) simp
  show "length sig \<le> out_size out" using l z by simp
qed

section \<open>What wolfCrypt promises\<close>

text \<open>
  \<open>ecc_holds E d c ecc\<close>: the object has the public key of the private key \<open>d\<close>, either computed
  from it or imported from its exported form.
\<close>

definition ecc_pair_object :: "'e ecc_engine \<Rightarrow> byte list \<Rightarrow> ecc_curve \<Rightarrow> 'e \<Rightarrow> bool" where
  "ecc_pair_object E d c ecc \<longleftrightarrow> (\<exists>dev ecc0 ecc1.
    wc_ecc_init_ex E dev = (WC_OK, ecc0) \<and> wc_ecc_import_private_key_ex E d c ecc0 = (WC_OK, ecc1) \<and>
    wc_ecc_make_pub_ex E ecc1 = (WC_OK, ecc))"

definition ecc_public_value :: "'e ecc_engine \<Rightarrow> byte list \<Rightarrow> ecc_curve \<Rightarrow> byte list \<Rightarrow> bool" where
  "ecc_public_value E d c pk \<longleftrightarrow> (\<exists>ecc out. ecc_pair_object E d c ecc \<and> wc_ecc_export_x963 E ecc out = (WC_OK, pk))"

definition ecc_holds :: "'e ecc_engine \<Rightarrow> byte list \<Rightarrow> ecc_curve \<Rightarrow> 'e \<Rightarrow> bool" where
  "ecc_holds E d c ecc \<longleftrightarrow> ecc_pair_object E d c ecc \<or>
    (\<exists>pk dev ecc0. ecc_public_value E d c pk \<and> wc_ecc_init_ex E dev = (WC_OK, ecc0) \<and>
      wc_ecc_import_x963_ex E pk c ecc0 = (WC_OK, ecc))"

text \<open>
  The documented behaviour of wolfCrypt's ECDSA. A DER signature that \<open>wc_ecc_sign_hash\<close> made is
  accepted by \<open>wc_ecc_verify_hash\<close> for the matching public key and the same hash; and
  \<open>wc_ecc_rs_raw_to_sig\<close>, which reads big-endian numbers, gives back the signature that
  \<open>wc_ecc_sig_to_rs\<close> took apart, whatever the number of leading zeros.
\<close>

definition ecc_correct :: "'e ecc_engine \<Rightarrow> bool" where
  "ecc_correct E \<longleftrightarrow>
    (\<forall>d c ecc hash m rng der ecc'. ecc_signer E d c ecc \<longrightarrow> wc_ecc_sign_hash E hash m rng ecc = (WC_OK, der) \<longrightarrow>
       ecc_holds E d c ecc' \<longrightarrow> wc_ecc_verify_hash E der hash ecc' = (WC_OK, 1)) \<and>
    (\<forall>d c ecc hash m rng der n r t ecc'. ecc_signer E d c ecc \<longrightarrow>
       wc_ecc_sign_hash E hash m rng ecc = (WC_OK, der) \<longrightarrow> wc_ecc_sig_to_rs E der n n = (WC_OK, r, t) \<longrightarrow>
       ecc_holds E d c ecc' \<longrightarrow>
       wc_ecc_rs_raw_to_sig E (be_field n r) (be_field n t) (wc_ecc_sig_size E ecc') = (WC_OK, der))"

text \<open>wolfCrypt does not run out of resources: a key object can be set up and a key that was imported once is imported again.\<close>

definition ecc_available :: "wc_device \<Rightarrow> 'e ecc_engine \<Rightarrow> bool" where
  "ecc_available D E \<longleftrightarrow>
    (\<exists>ecc. wc_ecc_init_ex E (dev_default D) = (WC_OK, ecc)) \<and>
    (\<forall>d c ecc dev ecc0. ecc_signer E d c ecc \<longrightarrow> wc_ecc_init_ex E dev = (WC_OK, ecc0) \<longrightarrow>
       (\<exists>ecc1 ecc2. wc_ecc_import_private_key_ex E d c ecc0 = (WC_OK, ecc1) \<and> wc_ecc_make_pub_ex E ecc1 = (WC_OK, ecc2))) \<and>
    (\<forall>d c pk dev ecc0. ecc_public_value E d c pk \<longrightarrow> wc_ecc_init_ex E dev = (WC_OK, ecc0) \<longrightarrow>
       (\<exists>ecc1. wc_ecc_import_x963_ex E pk c ecc0 = (WC_OK, ecc1)))"

section \<open>Verification of a signature made\<close>

lemma types_exclusive:
  "PSA_KEY_TYPE_IS_ECC_KEY_PAIR t \<Longrightarrow> \<not> PSA_KEY_TYPE_IS_ECC_PUBLIC_KEY t"
  by (simp add: psa_defs)

lemma verify_ecc_given:
  assumes t: "PSA_KEY_TYPE_IS_ECC_KEY_PAIR t \<and> d' = d \<or> PSA_KEY_TYPE_IS_ECC_PUBLIC_KEY t \<and> ecc_public_value E d c d'"
    and c: "wc_psa_get_ecc_curve_id b t n = c" "c \<noteq> ECC_CURVE_INVALID"
    and a: "PSA_ALG_IS_ECDSA a" and len: "length d' \<le> UINT32_MAX" "in_length hash \<le> UINT32_MAX"
    and up: "ecc_available D E" and ok: "ecc_correct E" and al: "allocs s = []"
    and sg: "ecc_signer E d c ecc" "ecc_sign_raw E (PSA_BITS_TO_BYTES n) hash rng ecc sa = (Inr sig, sb)"
  shows "psa_asymmetric_verify_ecc b D E t n d' a hash (In sig) s = (Inr (), s)"
proof -
  let ?n = "PSA_BITS_TO_BYTES n"
  obtain ecc0 where i: "wc_ecc_init_ex E (dev_default D) = (WC_OK, ecc0)" using up by (auto simp: ecc_available_def)
  obtain ecc2 where l: "(if PSA_KEY_TYPE_IS_ECC_PUBLIC_KEY t then wc_ecc_import_x963_ex E d' c ecc0
      else case wc_ecc_import_private_key_ex E d' c ecc0 of
        (ret, ecc1) \<Rightarrow> if ret = WC_OK then wc_ecc_make_pub_ex E ecc1 else (ret, ecc1)) = (WC_OK, ecc2)"
    and h: "ecc_holds E d c ecc2"
  proof (cases "PSA_KEY_TYPE_IS_ECC_PUBLIC_KEY t")
    case True
    then have v: "ecc_public_value E d c d'" using t types_exclusive by blast
    then obtain ecc1 where "wc_ecc_import_x963_ex E d' c ecc0 = (WC_OK, ecc1)"
      using up i unfolding ecc_available_def by blast
    with True v i show ?thesis by (intro that) (auto simp: ecc_holds_def)
  next
    case False
    then have d: "d' = d" using t by blast
    obtain ecc1 ecc2 where "wc_ecc_import_private_key_ex E d c ecc0 = (WC_OK, ecc1)" "wc_ecc_make_pub_ex E ecc1 = (WC_OK, ecc2)"
      using up i sg(1) unfolding ecc_available_def by blast
    with False d i show ?thesis by (intro that [of ecc2]) (auto simp: ecc_holds_def ecc_pair_object_def)
  qed
  obtain der r u where der: "wc_ecc_sign_hash E hash (wc_ecc_sig_size E ecc) rng ecc = (WC_OK, der)"
    and rs: "wc_ecc_sig_to_rs E der ?n ?n = (WC_OK, r, u)" and lr: "length r \<le> ?n" "length u \<le> ?n"
    and sig: "sig = be_field ?n r @ be_field ?n u"
    by (rule ecc_sign_raw_Inr [OF sg(2)])
  have "wc_ecc_rs_raw_to_sig E (be_field ?n r) (be_field ?n u) (wc_ecc_sig_size E ecc2) = (WC_OK, der)"
    and "wc_ecc_verify_hash E der hash ecc2 = (WC_OK, 1)"
    using ok sg(1) der rs h unfolding ecc_correct_def by blast+
  with c a len i l sig lr t show ?thesis
    by (auto simp: psa_asymmetric_verify_ecc_def Let_def wolfpsa_check_word32_length_def with_malloc_ok [OF al] give_def)
qed

text \<open>ECDSA: what \<open>psa_asymmetric_sign_ecc\<close> made, \<open>psa_asymmetric_verify_ecc\<close> accepts.\<close>

lemma ecc_roundtrip:
  assumes "psa_asymmetric_sign_ecc b D E t n d a hash out s = (Inr sig, s')"
    and "ecc_available D E" and "ecc_correct E" and "allocs s2 = []"
  shows "psa_asymmetric_verify_ecc b D E t n d a hash (In sig) s2 = (Inr (), s2)"
proof -
  obtain ecc rng s1 where g: "PSA_KEY_TYPE_IS_ECC_KEY_PAIR t" "PSA_ALG_IS_ECDSA a"
    "wc_psa_get_ecc_curve_id b t n \<noteq> ECC_CURVE_INVALID"
    "wolfpsa_check_word32_length (length d) = PSA_SUCCESS" "wolfpsa_check_word32_length (in_length hash) = PSA_SUCCESS"
    "ecc_signer E d (wc_psa_get_ecc_curve_id b t n) ecc"
    "ecc_sign_raw E (PSA_BITS_TO_BYTES n) hash rng ecc s1 = (Inr sig, s')"
    by (rule sign_ecc_Inr [OF assms(1)])
  show ?thesis
    by (rule verify_ecc_given [where d = d and c = "wc_psa_get_ecc_curve_id b t n" and ecc = ecc and rng = rng and sa = s1 and sb = s'])
      (use g assms(2-4) in \<open>auto simp: wolfpsa_check_word32_length_def split: if_splits\<close>)
qed

text \<open>Deterministic ECDSA stays on the software signer: the default device plays no part.\<close>

lemma sign_ecc_deterministic_device:
  assumes "PSA_ALG_IS_DETERMINISTIC_ECDSA a"
  shows "psa_asymmetric_sign_ecc b (D\<lparr>dev_default := dev\<rparr>) E t n d a hash out = psa_asymmetric_sign_ecc b D E t n d a hash out"
  by (simp add: psa_asymmetric_sign_ecc_def assms with_rng_device Let_def)

end
