(* ===== verification/Asym_Rsa.thy ===== *)
theory Asym_Rsa
  imports Asym_Wc
begin

text \<open>
  RSA, \<open>src/psa_rsa.c\<close>: signatures with PKCS#1 v1.5 and PSS, encryption with PKCS#1 v1.5 and OAEP,
  key generation and public-key export. wolfCrypt's \<open>RsaKey\<close> operations are a parameter (record
  \<open>rsa_engine\<close>, its fields named after the calls).
\<close>

unbundle bit_operations_syntax

section \<open>wolfCrypt's operations\<close>

datatype rsa_mgf =
    WC_MGF1NONE | WC_MGF1SHA1 | WC_MGF1SHA224 | WC_MGF1SHA256 | WC_MGF1SHA384 | WC_MGF1SHA512
  | WC_MGF1SHA512_224 | WC_MGF1SHA512_256

datatype rsa_salt_len = RSA_PSS_SALT_LEN_DEFAULT | RSA_PSS_SALT_LEN_DISCOVER

text \<open>
  \<open>'r\<close> is an \<open>RsaKey\<close>. A call that returns a length or a negative error gives the error code or
  the bytes it stored, as many as the length. \<open>wc_EncodeSignature\<close> gives the DER \<open>DigestInfo\<close>, or
  nothing when it fails. The random generator is given by its number. The number given to the
  verification calls is the size of the local buffer, \<open>RSA_MAX_SIZE / 8\<close>.
\<close>

type_synonym wc_len = "wc_ret + byte list"

record 'r rsa_engine =
  rsa_max_bytes :: nat
  wc_InitRsaKey_ex :: "int \<Rightarrow> wc_ret \<times> 'r"
  wc_RsaPrivateKeyDecode :: "byte list \<Rightarrow> 'r \<Rightarrow> wc_ret \<times> 'r"
  wc_RsaPublicKeyDecode :: "byte list \<Rightarrow> 'r \<Rightarrow> wc_ret \<times> 'r"
  wc_RsaEncryptSize :: "'r \<Rightarrow> int"
  mp_count_bits :: "'r \<Rightarrow> int"
  wc_GetCTC_HashOID :: "wc_hash_type \<Rightarrow> int"
  wc_EncodeSignature :: "inbuf \<Rightarrow> int \<Rightarrow> byte list"
  wc_RsaSSL_Sign :: "inbuf \<Rightarrow> outbuf \<Rightarrow> nat \<Rightarrow> 'r \<Rightarrow> wc_len"
  wc_RsaSSL_Verify_ex :: "inbuf \<Rightarrow> nat \<Rightarrow> 'r \<Rightarrow> wc_len"
  wc_RsaSSL_Verify_ex2 :: "inbuf \<Rightarrow> nat \<Rightarrow> wc_hash_type \<Rightarrow> 'r \<Rightarrow> wc_len"
  wc_RsaPSS_Sign :: "inbuf \<Rightarrow> outbuf \<Rightarrow> wc_hash_type \<Rightarrow> rsa_mgf \<Rightarrow> nat \<Rightarrow> 'r \<Rightarrow> wc_len"
  wc_RsaPSS_Verify_ex :: "inbuf \<Rightarrow> nat \<Rightarrow> wc_hash_type \<Rightarrow> rsa_mgf \<Rightarrow> rsa_salt_len \<Rightarrow> 'r \<Rightarrow> wc_len"
  wc_RsaPSS_CheckPadding_ex2 :: "inbuf \<Rightarrow> byte list \<Rightarrow> wc_hash_type \<Rightarrow> rsa_salt_len \<Rightarrow> int \<Rightarrow> wc_ret"
  wc_RsaPublicEncrypt :: "inbuf \<Rightarrow> outbuf \<Rightarrow> nat \<Rightarrow> 'r \<Rightarrow> wc_len"
  wc_RsaPublicEncrypt_ex :: "inbuf \<Rightarrow> outbuf \<Rightarrow> nat \<Rightarrow> wc_hash_type \<Rightarrow> rsa_mgf \<Rightarrow> inbuf \<Rightarrow> 'r \<Rightarrow> wc_len"
  wc_RsaSetRNG :: "nat \<Rightarrow> 'r \<Rightarrow> wc_ret \<times> 'r"
  wc_RsaPrivateDecrypt :: "inbuf \<Rightarrow> nat \<Rightarrow> 'r \<Rightarrow> wc_len"
  wc_RsaPrivateDecrypt_ex :: "inbuf \<Rightarrow> nat \<Rightarrow> wc_hash_type \<Rightarrow> rsa_mgf \<Rightarrow> inbuf \<Rightarrow> 'r \<Rightarrow> wc_len"
  wc_MakeRsaKey :: "nat \<Rightarrow> nat \<Rightarrow> nat \<Rightarrow> 'r \<Rightarrow> wc_ret \<times> 'r"
  wc_RsaKeyToDer :: "'r \<Rightarrow> outbuf \<Rightarrow> wc_len"
  wc_RsaKeyToPublicDer :: "'r \<Rightarrow> outbuf \<Rightarrow> wc_len"

text \<open>A returned 0 is a success with no bytes.\<close>

definition ret_bytes :: "wc_len \<Rightarrow> wc_len" where
  "ret_bytes r = (if r = Inl WC_OK then Inr [] else r)"

abbreviation WC_MAX_DIGEST_SIZE :: nat where "WC_MAX_DIGEST_SIZE \<equiv> 64"

section \<open>Helpers\<close>

fun wc_psa_get_mgf :: "wc_hash_type \<Rightarrow> rsa_mgf" where
  "wc_psa_get_mgf WC_HASH_TYPE_SHA = WC_MGF1SHA1"
| "wc_psa_get_mgf WC_HASH_TYPE_SHA224 = WC_MGF1SHA224"
| "wc_psa_get_mgf WC_HASH_TYPE_SHA256 = WC_MGF1SHA256"
| "wc_psa_get_mgf WC_HASH_TYPE_SHA384 = WC_MGF1SHA384"
| "wc_psa_get_mgf WC_HASH_TYPE_SHA512 = WC_MGF1SHA512"
| "wc_psa_get_mgf WC_HASH_TYPE_SHA512_224 = WC_MGF1SHA512_224"
| "wc_psa_get_mgf WC_HASH_TYPE_SHA512_256 = WC_MGF1SHA512_256"
| "wc_psa_get_mgf _ = WC_MGF1NONE"

definition wc_psa_rsa_hash_length_ok :: "psa_algorithm_t \<Rightarrow> nat \<Rightarrow> bool" where
  "wc_psa_rsa_hash_length_ok a hash_length =
    (if a = PSA_ALG_RSA_PKCS1V15_SIGN_RAW then True
     else let expected = PSA_HASH_LENGTH (PSA_ALG_SIGN_GET_HASH a) in expected \<noteq> 0 \<and> hash_length = expected)"

definition wc_psa_rsa_status :: "wc_ret \<Rightarrow> psa_status \<Rightarrow> psa_status" where
  "wc_psa_rsa_status ret bad_input =
    (if ret \<in> {BUFFER_E, RSA_BUFFER_E, BAD_PADDING_E, RSA_PAD_E, PSS_SALTLEN_E, RSA_OUT_OF_RANGE_E}
     then bad_input else wc_error_to_psa_status ret)"

text \<open>The end of an operation: an error, or the bytes stored and their number.\<close>

definition rsa_finish :: "psa_status \<Rightarrow> wc_len \<Rightarrow> (byte list, 'st) asym_run" where
  "rsa_finish bad_input r =
    (case ret_bytes r of Inl ret \<Rightarrow> fail_with (wc_psa_rsa_status ret bad_input) | Inr bs \<Rightarrow> give bs)"

definition rsa_decode_key ::
    "'r rsa_engine \<Rightarrow> psa_key_type_t \<Rightarrow> byte list \<Rightarrow> 'r \<Rightarrow> wc_ret \<times> 'r" where
  "rsa_decode_key E key_type key_buffer rsa_key =
    (if key_type = PSA_KEY_TYPE_RSA_PUBLIC_KEY then wc_RsaPublicKeyDecode E key_buffer rsa_key
     else wc_RsaPrivateKeyDecode E key_buffer rsa_key)"

section \<open>Signing\<close>

text \<open>The PKCS#1 v1.5 branch: the \<open>DigestInfo\<close> of the hash, or the input itself.\<close>

definition rsa_sign_pkcs1v15 ::
    "'r rsa_engine \<Rightarrow> psa_algorithm_t \<Rightarrow> wc_hash_type \<Rightarrow> inbuf \<Rightarrow> outbuf \<Rightarrow> nat \<Rightarrow> 'r \<Rightarrow> (byte list, 'st) asym_run" where
  "rsa_sign_pkcs1v15 E a hash_type hash signature rng rsa_key =
    (if a = PSA_ALG_RSA_PKCS1V15_SIGN_RAW
       then rsa_finish PSA_ERROR_INVALID_ARGUMENT (wc_RsaSSL_Sign E hash signature rng rsa_key)
     else
       (let hash_oid = wc_GetCTC_HashOID E hash_type in
        if hash_oid \<le> 0 then fail_with PSA_ERROR_NOT_SUPPORTED
        else if in_length hash > WC_MAX_DIGEST_SIZE then fail_with PSA_ERROR_INVALID_ARGUMENT
        else
          with_malloc
            (let sig_input = wc_EncodeSignature E hash hash_oid in
             if sig_input = [] then fail_with PSA_ERROR_INSUFFICIENT_MEMORY
             else rsa_finish PSA_ERROR_INVALID_ARGUMENT (wc_RsaSSL_Sign E (In sig_input) signature rng rsa_key))))"

definition psa_asymmetric_sign_rsa ::
    "wc_device \<Rightarrow> 'r rsa_engine \<Rightarrow> psa_key_type_t \<Rightarrow> byte list \<Rightarrow> psa_algorithm_t \<Rightarrow> inbuf \<Rightarrow> outbuf \<Rightarrow>
     (byte list, 'st) asym_run" where
  "psa_asymmetric_sign_rsa D E key_type key_buffer a hash signature =
    (if key_type \<noteq> PSA_KEY_TYPE_RSA_KEY_PAIR then fail_with PSA_ERROR_INVALID_ARGUMENT
     else if wolfpsa_check_word32_length (length key_buffer) \<noteq> PSA_SUCCESS \<or>
             wolfpsa_check_word32_length (in_length hash) \<noteq> PSA_SUCCESS \<or>
             wolfpsa_check_word32_length (out_size signature) \<noteq> PSA_SUCCESS \<or>
             \<not> wc_psa_rsa_hash_length_ok a (in_length hash)
       then fail_with PSA_ERROR_INVALID_ARGUMENT
     else
       wc_step (wc_InitRsaKey_ex E (dev_default D)) (\<lambda>key0.
       wc_step (wc_RsaPrivateKeyDecode E key_buffer key0) (\<lambda>rsa_key.
       with_rng D (dev_default D) (\<lambda>rng.
         let padding = wc_psa_get_rsa_padding a; hash_type = wc_psa_get_hash_type a in
         if padding = WC_RSA_PKCSV15_PAD then rsa_sign_pkcs1v15 E a hash_type hash signature rng rsa_key
         else if padding = WC_RSA_PSS_PAD then
           rsa_finish PSA_ERROR_INVALID_ARGUMENT
             (wc_RsaPSS_Sign E hash signature hash_type (wc_psa_get_mgf hash_type) rng rsa_key)
         else rsa_finish PSA_ERROR_INVALID_ARGUMENT (Inl BAD_FUNC_ARG)))))"

section \<open>Verification\<close>

text \<open>
  What the branches leave in \<open>ret\<close>: an error or the length of a matching hash. An early
  return is \<open>fail_with\<close>.
\<close>

definition rsa_verify_end :: "nat \<Rightarrow> wc_ret + nat \<Rightarrow> (unit, 'st) asym_run" where
  "rsa_verify_end hash_length ret =
    (case ret of
       Inl e \<Rightarrow> fail_with (wc_psa_rsa_status e PSA_ERROR_INVALID_SIGNATURE)
     | Inr n \<Rightarrow> if n \<noteq> hash_length then fail_with PSA_ERROR_INVALID_SIGNATURE else give ())"

definition rsa_verify_raw :: "'r rsa_engine \<Rightarrow> inbuf \<Rightarrow> inbuf \<Rightarrow> 'r \<Rightarrow> wc_ret + nat" where
  "rsa_verify_raw E hash signature rsa_key =
    (case ret_bytes (wc_RsaSSL_Verify_ex E signature (rsa_max_bytes E) rsa_key) of
       Inl e \<Rightarrow> Inl e
     | Inr decoded \<Rightarrow>
         if length decoded > 0 \<and> (length decoded \<noteq> in_length hash \<or> decoded \<noteq> in_bytes hash) then Inl SIG_VERIFY_E
         else Inr (length decoded))"

definition rsa_verify_digestinfo ::
    "'r rsa_engine \<Rightarrow> wc_hash_type \<Rightarrow> inbuf \<Rightarrow> byte list \<Rightarrow> inbuf \<Rightarrow> 'r \<Rightarrow> wc_ret + nat" where
  "rsa_verify_digestinfo E hash_type hash encoded signature rsa_key =
    (case ret_bytes (wc_RsaSSL_Verify_ex2 E signature (rsa_max_bytes E) hash_type rsa_key) of
       Inl e \<Rightarrow> Inl e
     | Inr decoded \<Rightarrow>
         if length decoded > 0 then
           (if length decoded \<noteq> length encoded \<or> decoded \<noteq> encoded then Inl SIG_VERIFY_E
            else Inr (in_length hash))
         else Inr 0)"

definition rsa_verify_pss :: "'r rsa_engine \<Rightarrow> psa_algorithm_t \<Rightarrow> wc_hash_type \<Rightarrow> inbuf \<Rightarrow> inbuf \<Rightarrow> 'r \<Rightarrow> wc_ret + nat" where
  "rsa_verify_pss E a hash_type hash signature rsa_key =
    (let salt_len = (if PSA_ALG_IS_RSA_PSS_ANY_SALT a then RSA_PSS_SALT_LEN_DISCOVER else RSA_PSS_SALT_LEN_DEFAULT) in
     case ret_bytes (wc_RsaPSS_Verify_ex E signature (rsa_max_bytes E) hash_type (wc_psa_get_mgf hash_type) salt_len rsa_key) of
       Inl e \<Rightarrow> Inl e
     | Inr decoded \<Rightarrow>
         if length decoded > 0 then
           (if wc_RsaPSS_CheckPadding_ex2 E hash decoded hash_type salt_len (mp_count_bits E rsa_key) = WC_OK
            then Inr (in_length hash) else Inl SIG_VERIFY_E)
         else Inr 0)"

definition psa_asymmetric_verify_rsa ::
    "wc_device \<Rightarrow> 'r rsa_engine \<Rightarrow> psa_key_type_t \<Rightarrow> byte list \<Rightarrow> psa_algorithm_t \<Rightarrow> inbuf \<Rightarrow> inbuf \<Rightarrow>
     (unit, 'st) asym_run" where
  "psa_asymmetric_verify_rsa D E key_type key_buffer a hash signature =
    (if key_type \<noteq> PSA_KEY_TYPE_RSA_PUBLIC_KEY \<and> key_type \<noteq> PSA_KEY_TYPE_RSA_KEY_PAIR
       then fail_with PSA_ERROR_INVALID_ARGUMENT
     else if wolfpsa_check_word32_length (length key_buffer) \<noteq> PSA_SUCCESS \<or>
             wolfpsa_check_word32_length (in_length hash) \<noteq> PSA_SUCCESS \<or>
             wolfpsa_check_word32_length (in_length signature) \<noteq> PSA_SUCCESS \<or>
             \<not> wc_psa_rsa_hash_length_ok a (in_length hash)
       then fail_with PSA_ERROR_INVALID_ARGUMENT
     else
       wc_step (wc_InitRsaKey_ex E (dev_default D)) (\<lambda>key0.
       wc_step (rsa_decode_key E key_type key_buffer key0) (\<lambda>rsa_key.
         if int (in_length signature) \<noteq> wc_RsaEncryptSize E rsa_key then fail_with PSA_ERROR_INVALID_SIGNATURE
         else
           (let padding = wc_psa_get_rsa_padding a; hash_type = wc_psa_get_hash_type a in
            if padding = WC_RSA_PKCSV15_PAD then
              (if a = PSA_ALG_RSA_PKCS1V15_SIGN_RAW
                 then rsa_verify_end (in_length hash) (rsa_verify_raw E hash signature rsa_key)
               else
                 (let hash_oid = wc_GetCTC_HashOID E hash_type; encoded = wc_EncodeSignature E hash hash_oid in
                  if hash_oid \<le> 0 then fail_with PSA_ERROR_NOT_SUPPORTED
                  else if in_length hash > WC_MAX_DIGEST_SIZE then fail_with PSA_ERROR_INVALID_ARGUMENT
                  else if encoded = [] then fail_with PSA_ERROR_INSUFFICIENT_MEMORY
                  else rsa_verify_end (in_length hash)
                         (rsa_verify_digestinfo E hash_type hash encoded signature rsa_key)))
            else if padding = WC_RSA_PSS_PAD then
              rsa_verify_end (in_length hash) (rsa_verify_pss E a hash_type hash signature rsa_key)
            else rsa_verify_end (in_length hash) (Inl BAD_FUNC_ARG)))))"

section \<open>Encryption\<close>

definition psa_asymmetric_encrypt_rsa ::
    "wc_device \<Rightarrow> 'r rsa_engine \<Rightarrow> psa_key_type_t \<Rightarrow> nat \<Rightarrow> byte list \<Rightarrow> psa_algorithm_t \<Rightarrow> inbuf \<Rightarrow> inbuf \<Rightarrow> outbuf \<Rightarrow>
     (byte list, 'st) asym_run" where
  "psa_asymmetric_encrypt_rsa D E key_type key_bits key_buffer a input salt output =
    (if key_type \<noteq> PSA_KEY_TYPE_RSA_PUBLIC_KEY \<and> key_type \<noteq> PSA_KEY_TYPE_RSA_KEY_PAIR
       then fail_with PSA_ERROR_INVALID_ARGUMENT
     else if wolfpsa_check_word32_length (length key_buffer) \<noteq> PSA_SUCCESS \<or>
             wolfpsa_check_word32_length (in_length input) \<noteq> PSA_SUCCESS \<or>
             wolfpsa_check_word32_length (out_size output) \<noteq> PSA_SUCCESS \<or>
             wolfpsa_check_word32_length (in_length salt) \<noteq> PSA_SUCCESS
       then fail_with PSA_ERROR_INVALID_ARGUMENT
     else if out_size output < PSA_ASYMMETRIC_ENCRYPT_OUTPUT_SIZE key_type key_bits a
       then fail_with PSA_ERROR_BUFFER_TOO_SMALL
     else
       wc_step (wc_InitRsaKey_ex E (dev_default D)) (\<lambda>key0.
       wc_step (rsa_decode_key E key_type key_buffer key0) (\<lambda>rsa_key.
       with_rng D (dev_default D) (\<lambda>rng.
         let padding = wc_psa_get_rsa_padding a; hash_type = wc_psa_get_hash_type a; mgf = wc_psa_get_mgf hash_type in
         rsa_finish PSA_ERROR_INVALID_ARGUMENT
           (if padding = WC_RSA_PKCSV15_PAD then wc_RsaPublicEncrypt E input output rng rsa_key
            else if padding = WC_RSA_OAEP_PAD then
              (if mgf = WC_MGF1NONE then Inl BAD_FUNC_ARG
               else wc_RsaPublicEncrypt_ex E input output rng hash_type mgf salt rsa_key)
            else Inl BAD_FUNC_ARG)))))"

definition psa_asymmetric_decrypt_rsa ::
    "wc_device \<Rightarrow> 'r rsa_engine \<Rightarrow> psa_key_type_t \<Rightarrow> byte list \<Rightarrow> psa_algorithm_t \<Rightarrow> inbuf \<Rightarrow> inbuf \<Rightarrow> outbuf \<Rightarrow>
     (byte list, 'st) asym_run" where
  "psa_asymmetric_decrypt_rsa D E key_type key_buffer a input salt output =
    (if key_type \<noteq> PSA_KEY_TYPE_RSA_KEY_PAIR then fail_with PSA_ERROR_INVALID_ARGUMENT
     else if wolfpsa_check_word32_length (length key_buffer) \<noteq> PSA_SUCCESS \<or>
             wolfpsa_check_word32_length (in_length input) \<noteq> PSA_SUCCESS \<or>
             wolfpsa_check_word32_length (in_length salt) \<noteq> PSA_SUCCESS
       then fail_with PSA_ERROR_INVALID_ARGUMENT
     else
       wc_step (wc_InitRsaKey_ex E (dev_default D)) (\<lambda>key0.
       wc_step (wc_RsaPrivateKeyDecode E key_buffer key0) (\<lambda>key1.
       with_rng D (dev_default D) (\<lambda>rng.
       wc_step (wc_RsaSetRNG E rng key1) (\<lambda>rsa_key.
         let padding = wc_psa_get_rsa_padding a; hash_type = wc_psa_get_hash_type a; mgf = wc_psa_get_mgf hash_type;
             plain_len = wc_RsaEncryptSize E rsa_key
         in
         if plain_len \<le> 0 then fail_with PSA_ERROR_INVALID_ARGUMENT
         else
           with_malloc
             (case ret_bytes
                (if padding = WC_RSA_PKCSV15_PAD then wc_RsaPrivateDecrypt E input (nat plain_len) rsa_key
                 else if padding = WC_RSA_OAEP_PAD then
                   (if mgf = WC_MGF1NONE then Inl BAD_FUNC_ARG
                    else wc_RsaPrivateDecrypt_ex E input (nat plain_len) hash_type mgf salt rsa_key)
                 else Inl BAD_FUNC_ARG) of
                Inl ret \<Rightarrow> fail_with (wc_psa_rsa_status ret PSA_ERROR_INVALID_PADDING)
              | Inr plain \<Rightarrow>
                  if length plain > out_size output then fail_with PSA_ERROR_BUFFER_TOO_SMALL
                  else give plain))))))"

section \<open>Key generation and export\<close>

text \<open>The public part is written when there is room for it; \<open>None\<close> is a NULL length pointer.\<close>

definition psa_asymmetric_generate_key_rsa ::
    "wc_device \<Rightarrow> 'r rsa_engine \<Rightarrow> psa_key_type_t \<Rightarrow> nat \<Rightarrow> outbuf \<Rightarrow> outbuf \<Rightarrow> bool \<Rightarrow>
     (byte list \<times> byte list, 'st) asym_run" where
  "psa_asymmetric_generate_key_rsa D E key_type key_bits private_key public_key want_public =
    (if key_type \<noteq> PSA_KEY_TYPE_RSA_KEY_PAIR then fail_with PSA_ERROR_INVALID_ARGUMENT
     else if wolfpsa_check_word32_length (out_size private_key) \<noteq> PSA_SUCCESS \<or>
             wolfpsa_check_word32_length (out_size public_key) \<noteq> PSA_SUCCESS
       then fail_with PSA_ERROR_INVALID_ARGUMENT
     else
       wc_step (wc_InitRsaKey_ex E (dev_default D)) (\<lambda>key0.
       with_rng D (dev_default D) (\<lambda>rng.
       wc_step (wc_MakeRsaKey E key_bits 65537 rng key0) (\<lambda>rsa_key.
         case ret_bytes (wc_RsaKeyToDer E rsa_key private_key) of
           Inl ret \<Rightarrow> fail_with (wc_error_to_psa_status ret)
         | Inr priv \<Rightarrow>
             if \<not> out_null public_key \<and> want_public \<and> out_size public_key > 0 then
               (case ret_bytes (wc_RsaKeyToPublicDer E rsa_key public_key) of
                  Inl ret \<Rightarrow> fail_with (wc_error_to_psa_status ret)
                | Inr pub \<Rightarrow> give (priv, pub))
             else give (priv, [])))))"

definition psa_asymmetric_export_public_key_rsa ::
    "wc_device \<Rightarrow> 'r rsa_engine \<Rightarrow> psa_key_type_t \<Rightarrow> byte list \<Rightarrow> outbuf \<Rightarrow> psa_status + byte list" where
  "psa_asymmetric_export_public_key_rsa D E key_type key_buffer output =
    (if key_type \<noteq> PSA_KEY_TYPE_RSA_KEY_PAIR \<and> key_type \<noteq> PSA_KEY_TYPE_RSA_PUBLIC_KEY
       then Inl PSA_ERROR_INVALID_ARGUMENT
     else if wolfpsa_check_word32_length (length key_buffer) \<noteq> PSA_SUCCESS \<or>
             wolfpsa_check_word32_length (out_size output) \<noteq> PSA_SUCCESS
       then Inl PSA_ERROR_INVALID_ARGUMENT
     else
       wc_try (wc_InitRsaKey_ex E (dev_default D)) (\<lambda>key0.
       wc_try (rsa_decode_key E key_type key_buffer key0) (\<lambda>rsa_key.
         case ret_bytes (wc_RsaKeyToPublicDer E rsa_key output) of
           Inl ret \<Rightarrow> Inl (wc_error_to_psa_status ret)
         | Inr pub \<Rightarrow> Inr pub)))"

section \<open>Failures\<close>

lemma rsa_status_success [simp]:
  "bad \<noteq> PSA_SUCCESS \<Longrightarrow> wc_psa_rsa_status ret bad = PSA_SUCCESS \<longleftrightarrow> ret = WC_OK"
  by (auto simp: wc_psa_rsa_status_def)

lemma ret_bytes_not_ok [simp]: "ret_bytes r \<noteq> Inl WC_OK"
  by (simp add: ret_bytes_def)

lemma ret_bytes_Inr [simp]: "ret_bytes (Inr bs) = Inr bs"
  by (simp add: ret_bytes_def)

lemma rsa_finish_frame [simp]:
  "bad \<noteq> PSA_SUCCESS \<Longrightarrow> proper (rsa_finish bad r)" "quiet (rsa_finish bad r)"
  using ret_bytes_not_ok [of r] by (auto simp: rsa_finish_def split: sum.split)

lemma rsa_finish_Inr: "rsa_finish bad r s = (Inr bs, s') \<longleftrightarrow> ret_bytes r = Inr bs \<and> s' = s"
  by (auto simp: rsa_finish_def fail_with_def split: sum.split)

lemma verify_end_frame [simp]:
  "r \<noteq> Inl WC_OK \<Longrightarrow> proper (rsa_verify_end n r)" "quiet (rsa_verify_end n r)"
  by (auto simp: rsa_verify_end_def split: sum.split)

lemma verify_branches_not_ok [simp]:
  "rsa_verify_raw E h sig k \<noteq> Inl WC_OK" "rsa_verify_digestinfo E ht h enc sig k \<noteq> Inl WC_OK"
  "rsa_verify_pss E a ht h sig k \<noteq> Inl WC_OK"
  by (auto simp: rsa_verify_raw_def rsa_verify_digestinfo_def rsa_verify_pss_def Let_def split: sum.split)

lemma sign_rsa_frame [simp]:
  "proper (psa_asymmetric_sign_rsa D E t d a hash out)" "quiet (psa_asymmetric_sign_rsa D E t d a hash out)"
  by (simp_all add: psa_asymmetric_sign_rsa_def rsa_sign_pkcs1v15_def Let_def)

lemma verify_rsa_frame [simp]:
  "proper (psa_asymmetric_verify_rsa D E t d a hash sig)" "quiet (psa_asymmetric_verify_rsa D E t d a hash sig)"
  by (simp_all add: psa_asymmetric_verify_rsa_def Let_def)

lemma encrypt_rsa_frame [simp]:
  "proper (psa_asymmetric_encrypt_rsa D E t n d a m salt out)" "quiet (psa_asymmetric_encrypt_rsa D E t n d a m salt out)"
  by (simp_all add: psa_asymmetric_encrypt_rsa_def Let_def)

lemma decrypt_end_frame:
  "proper (case ret_bytes r of Inl ret \<Rightarrow> fail_with (wc_psa_rsa_status ret PSA_ERROR_INVALID_PADDING)
     | Inr plain \<Rightarrow> if length plain > n then fail_with PSA_ERROR_BUFFER_TOO_SMALL else give plain)"
  "quiet (case ret_bytes r of Inl ret \<Rightarrow> fail_with (wc_psa_rsa_status ret PSA_ERROR_INVALID_PADDING)
     | Inr plain \<Rightarrow> if length plain > n then fail_with PSA_ERROR_BUFFER_TOO_SMALL else give plain)"
  using ret_bytes_not_ok [of r] by (auto split: sum.split)

lemma decrypt_rsa_frame [simp]:
  "proper (psa_asymmetric_decrypt_rsa D E t d a m salt out)" "quiet (psa_asymmetric_decrypt_rsa D E t d a m salt out)"
  by (simp_all add: psa_asymmetric_decrypt_rsa_def Let_def decrypt_end_frame)

section \<open>What wolfCrypt promises\<close>

text \<open>The object decoded from the private key \<open>d\<close>.\<close>

definition rsa_object :: "'r rsa_engine \<Rightarrow> byte list \<Rightarrow> 'r \<Rightarrow> bool" where
  "rsa_object E d k \<longleftrightarrow> (\<exists>dev k0. wc_InitRsaKey_ex E dev = (WC_OK, k0) \<and> wc_RsaPrivateKeyDecode E d k0 = (WC_OK, k))"

text \<open>
  The documented behaviour of wolfCrypt's RSA for the object of a private key: a
  signature has the size of the modulus and fits its buffer; removing the padding of a PKCS#1 v1.5
  signature gives the signed bytes; a PSS signature passes the two steps of its verification.
\<close>

definition rsa_sign_correct :: "'r rsa_engine \<Rightarrow> bool" where
  "rsa_sign_correct E \<longleftrightarrow>
    (\<forall>d k m out rng sig. rsa_object E d k \<longrightarrow> ret_bytes (wc_RsaSSL_Sign E m out rng k) = Inr sig \<longrightarrow>
       sig \<noteq> [] \<and> length sig \<le> out_size out \<and> int (length sig) = wc_RsaEncryptSize E k \<and>
       wc_RsaSSL_Verify_ex E (In sig) (rsa_max_bytes E) k = Inr (in_bytes m) \<and>
       (\<forall>ht. wc_RsaSSL_Verify_ex2 E (In sig) (rsa_max_bytes E) ht k = Inr (in_bytes m))) \<and>
    (\<forall>d k h out ht mgf rng sig salt. rsa_object E d k \<longrightarrow>
       ret_bytes (wc_RsaPSS_Sign E h out ht mgf rng k) = Inr sig \<longrightarrow>
       sig \<noteq> [] \<and> length sig \<le> out_size out \<and> int (length sig) = wc_RsaEncryptSize E k \<and>
       (\<exists>enc. enc \<noteq> [] \<and> wc_RsaPSS_Verify_ex E (In sig) (rsa_max_bytes E) ht mgf salt k = Inr enc \<and>
          wc_RsaPSS_CheckPadding_ex2 E h enc ht salt (mp_count_bits E k) = WC_OK))"

text \<open>Decryption gives back what was encrypted with the same padding, hash, mask and label.\<close>

definition rsa_crypt_correct :: "'r rsa_engine \<Rightarrow> bool" where
  "rsa_crypt_correct E \<longleftrightarrow>
    (\<forall>d k k'' m out rng rng' c. rsa_object E d k \<longrightarrow> wc_RsaSetRNG E rng' k = (WC_OK, k'') \<longrightarrow>
       ret_bytes (wc_RsaPublicEncrypt E m out rng k) = Inr c \<longrightarrow>
       wc_RsaEncryptSize E k'' > 0 \<and> length c \<le> out_size out \<and>
       wc_RsaPrivateDecrypt E (In c) (nat (wc_RsaEncryptSize E k'')) k'' = Inr (in_bytes m)) \<and>
    (\<forall>d k k'' m out rng rng' c ht mgf salt. rsa_object E d k \<longrightarrow>
       wc_RsaSetRNG E rng' k = (WC_OK, k'') \<longrightarrow>
       ret_bytes (wc_RsaPublicEncrypt_ex E m out rng ht mgf salt k) = Inr c \<longrightarrow>
       wc_RsaEncryptSize E k'' > 0 \<and> length c \<le> out_size out \<and>
       wc_RsaPrivateDecrypt_ex E (In c) (nat (wc_RsaEncryptSize E k'')) ht mgf salt k'' = Inr (in_bytes m))"

section \<open>Verification of a signature made\<close>

text \<open>The three ways to a signature.\<close>

lemma sign_rsa_Inr:
  assumes "psa_asymmetric_sign_rsa D E t d a hash out s = (Inr sig, s')"
  obtains k0 k rng where "t = PSA_KEY_TYPE_RSA_KEY_PAIR"
    and "wc_InitRsaKey_ex E (dev_default D) = (WC_OK, k0)" and "wc_RsaPrivateKeyDecode E d k0 = (WC_OK, k)"
    and "length d \<le> UINT32_MAX" and "in_length hash \<le> UINT32_MAX" and "out_size out \<le> UINT32_MAX"
    and "wc_psa_rsa_hash_length_ok a (in_length hash)"
    and "(wc_psa_get_rsa_padding a = WC_RSA_PKCSV15_PAD \<and> a = PSA_ALG_RSA_PKCS1V15_SIGN_RAW \<and>
        ret_bytes (wc_RsaSSL_Sign E hash out rng k) = Inr sig) \<or>
      (wc_psa_get_rsa_padding a = WC_RSA_PKCSV15_PAD \<and> a \<noteq> PSA_ALG_RSA_PKCS1V15_SIGN_RAW \<and>
        wc_GetCTC_HashOID E (wc_psa_get_hash_type a) > 0 \<and> in_length hash \<le> WC_MAX_DIGEST_SIZE \<and>
        wc_EncodeSignature E hash (wc_GetCTC_HashOID E (wc_psa_get_hash_type a)) \<noteq> [] \<and>
        ret_bytes (wc_RsaSSL_Sign E (In (wc_EncodeSignature E hash (wc_GetCTC_HashOID E (wc_psa_get_hash_type a)))) out rng k) =
          Inr sig) \<or>
      (wc_psa_get_rsa_padding a = WC_RSA_PSS_PAD \<and>
        ret_bytes (wc_RsaPSS_Sign E hash out (wc_psa_get_hash_type a) (wc_psa_get_mgf (wc_psa_get_hash_type a)) rng k) = Inr sig)"
proof -
  note u = assms [unfolded psa_asymmetric_sign_rsa_def Let_def]
  have g: "t = PSA_KEY_TYPE_RSA_KEY_PAIR" "length d \<le> UINT32_MAX" "in_length hash \<le> UINT32_MAX"
    "out_size out \<le> UINT32_MAX" "wc_psa_rsa_hash_length_ok a (in_length hash)"
    using u by (auto simp: wolfpsa_check_word32_length_def split: if_splits)
  obtain k0 k rng s0 where k: "wc_InitRsaKey_ex E (dev_default D) = (WC_OK, k0)" "wc_RsaPrivateKeyDecode E d k0 = (WC_OK, k)"
    and r: "(if wc_psa_get_rsa_padding a = WC_RSA_PKCSV15_PAD
        then rsa_sign_pkcs1v15 E a (wc_psa_get_hash_type a) hash out rng k
        else if wc_psa_get_rsa_padding a = WC_RSA_PSS_PAD
        then rsa_finish PSA_ERROR_INVALID_ARGUMENT
          (wc_RsaPSS_Sign E hash out (wc_psa_get_hash_type a) (wc_psa_get_mgf (wc_psa_get_hash_type a)) rng k)
        else rsa_finish PSA_ERROR_INVALID_ARGUMENT (Inl BAD_FUNC_ARG)) s0 = (Inr sig, s')"
    using u g by (auto simp: wolfpsa_check_word32_length_def wc_step_Inr with_rng_Inr)
  show ?thesis
    by (rule that [OF g(1) k g(2-5), of rng])
      (use r in \<open>auto simp: rsa_sign_pkcs1v15_def rsa_finish_Inr with_malloc_Inr Let_def ret_bytes_def split: if_splits\<close>)
qed

lemma rsa_roundtrip:
  assumes sg: "psa_asymmetric_sign_rsa D E t d a hash out s = (Inr sig, s')"
    and ok: "rsa_sign_correct E" and nn: "\<not> in_null hash"
  shows "psa_asymmetric_verify_rsa D E t d a hash (In sig) s2 = (Inr (), s2)" and "sig \<noteq> []" and "length sig \<le> out_size out"
proof -
  let ?h = "wc_psa_get_hash_type a"
  obtain k0 k rng where g: "t = PSA_KEY_TYPE_RSA_KEY_PAIR" "wc_InitRsaKey_ex E (dev_default D) = (WC_OK, k0)"
    "wc_RsaPrivateKeyDecode E d k0 = (WC_OK, k)" "length d \<le> UINT32_MAX"
    "in_length hash \<le> UINT32_MAX" "out_size out \<le> UINT32_MAX" "wc_psa_rsa_hash_length_ok a (in_length hash)"
    and r: "(wc_psa_get_rsa_padding a = WC_RSA_PKCSV15_PAD \<and> a = PSA_ALG_RSA_PKCS1V15_SIGN_RAW \<and>
        ret_bytes (wc_RsaSSL_Sign E hash out rng k) = Inr sig) \<or>
      (wc_psa_get_rsa_padding a = WC_RSA_PKCSV15_PAD \<and> a \<noteq> PSA_ALG_RSA_PKCS1V15_SIGN_RAW \<and>
        wc_GetCTC_HashOID E ?h > 0 \<and> in_length hash \<le> WC_MAX_DIGEST_SIZE \<and>
        wc_EncodeSignature E hash (wc_GetCTC_HashOID E ?h) \<noteq> [] \<and>
        ret_bytes (wc_RsaSSL_Sign E (In (wc_EncodeSignature E hash (wc_GetCTC_HashOID E ?h))) out rng k) = Inr sig) \<or>
      (wc_psa_get_rsa_padding a = WC_RSA_PSS_PAD \<and>
        ret_bytes (wc_RsaPSS_Sign E hash out ?h (wc_psa_get_mgf ?h) rng k) = Inr sig)"
    by (rule sign_rsa_Inr [OF sg])
  have o: "rsa_object E d k" using g(2,3) by (auto simp: rsa_object_def)
  have dec: "rsa_decode_key E t d k0 = (WC_OK, k)" using g(1,3) by (simp add: rsa_decode_key_def)
  note S = ok [unfolded rsa_sign_correct_def, THEN conjunct1, rule_format, OF o]
  note P = ok [unfolded rsa_sign_correct_def, THEN conjunct2, rule_format, OF o]
  have sz: "sig \<noteq> [] \<and> length sig \<le> out_size out \<and> int (length sig) = wc_RsaEncryptSize E k"
    using r S P by blast
  then show "sig \<noteq> []" "length sig \<le> out_size out" by simp_all
  have ls: "length sig \<le> UINT32_MAX" using sz g(6) by simp
  have raw: "rsa_verify_raw E hash (In sig) k = Inr (in_length hash)"
    if "ret_bytes (wc_RsaSSL_Sign E hash out rng k) = Inr sig"
    using S [OF that] nn by (cases hash) (auto simp: rsa_verify_raw_def)
  have info: "rsa_verify_digestinfo E ?h hash enc (In sig) k = Inr (in_length hash)"
    if "ret_bytes (wc_RsaSSL_Sign E (In enc) out rng k) = Inr sig" "enc \<noteq> []" for enc
    using S [OF that(1)] that(2) by (simp add: rsa_verify_digestinfo_def)
  have pss: "rsa_verify_pss E a ?h hash (In sig) k = Inr (in_length hash)"
    if "ret_bytes (wc_RsaPSS_Sign E hash out ?h (wc_psa_get_mgf ?h) rng k) = Inr sig"
    using P [OF that, of "if PSA_ALG_IS_RSA_PSS_ANY_SALT a then RSA_PSS_SALT_LEN_DISCOVER else RSA_PSS_SALT_LEN_DEFAULT"]
    by (auto simp: rsa_verify_pss_def Let_def)
  have pre: "wolfpsa_check_word32_length (length d) = PSA_SUCCESS" "wolfpsa_check_word32_length (in_length hash) = PSA_SUCCESS"
    "wolfpsa_check_word32_length (length sig) = PSA_SUCCESS"
    using g(4,5) ls by (simp_all add: wolfpsa_check_word32_length_def)
  note facts = psa_asymmetric_verify_rsa_def Let_def rsa_verify_end_def give_def pre g(1,2) dec [unfolded g(1)]
    conjunct2 [OF sz [THEN conjunct2]]
  show "psa_asymmetric_verify_rsa D E t d a hash (In sig) s2 = (Inr (), s2)"
    using r
  proof (elim disjE conjE)
    assume "wc_psa_get_rsa_padding a = WC_RSA_PKCSV15_PAD" "a = PSA_ALG_RSA_PKCS1V15_SIGN_RAW"
      "ret_bytes (wc_RsaSSL_Sign E hash out rng k) = Inr sig"
    with raw g(7) show ?thesis by (simp add: facts)
  next
    assume "wc_psa_get_rsa_padding a = WC_RSA_PKCSV15_PAD" "a \<noteq> PSA_ALG_RSA_PKCS1V15_SIGN_RAW"
      "0 < wc_GetCTC_HashOID E ?h" "in_length hash \<le> WC_MAX_DIGEST_SIZE"
      "wc_EncodeSignature E hash (wc_GetCTC_HashOID E ?h) \<noteq> []"
      "ret_bytes (wc_RsaSSL_Sign E (In (wc_EncodeSignature E hash (wc_GetCTC_HashOID E ?h))) out rng k) = Inr sig"
    with info g(7) show ?thesis by (simp add: facts)
  next
    assume "wc_psa_get_rsa_padding a = WC_RSA_PSS_PAD"
      "ret_bytes (wc_RsaPSS_Sign E hash out ?h (wc_psa_get_mgf ?h) rng k) = Inr sig"
    with pss g(7) show ?thesis by (simp add: facts)
  qed
qed

text \<open>
  The verification of a PKCS#1 v1.5 signature compares the whole recovered block with a fresh
  \<open>DigestInfo\<close> of the caller's hash: it accepts exactly when they are equal.
\<close>

lemma verify_pkcs1v15_iff:
  assumes a: "PSA_ALG_IS_RSA_PKCS1V15_SIGN a" "a \<noteq> PSA_ALG_RSA_PKCS1V15_SIGN_RAW"
  shows "psa_asymmetric_verify_rsa D E t d a hash sig s = (Inr (), s') \<longleftrightarrow>
    s' = s \<and> (t = PSA_KEY_TYPE_RSA_PUBLIC_KEY \<or> t = PSA_KEY_TYPE_RSA_KEY_PAIR) \<and>
    length d \<le> UINT32_MAX \<and> in_length sig \<le> UINT32_MAX \<and>
    in_length hash = PSA_HASH_LENGTH (PSA_ALG_SIGN_GET_HASH a) \<and> in_length hash \<noteq> 0 \<and>
    (\<exists>k0 k. wc_InitRsaKey_ex E (dev_default D) = (WC_OK, k0) \<and> rsa_decode_key E t d k0 = (WC_OK, k) \<and>
       int (in_length sig) = wc_RsaEncryptSize E k \<and> wc_GetCTC_HashOID E (wc_psa_get_hash_type a) > 0 \<and>
       wc_EncodeSignature E hash (wc_GetCTC_HashOID E (wc_psa_get_hash_type a)) \<noteq> [] \<and>
       ret_bytes (wc_RsaSSL_Verify_ex2 E sig (rsa_max_bytes E) (wc_psa_get_hash_type a) k) =
         Inr (wc_EncodeSignature E hash (wc_GetCTC_HashOID E (wc_psa_get_hash_type a))))"
proof -
  have p: "wc_psa_get_rsa_padding a = WC_RSA_PKCSV15_PAD" using a(1) by (simp add: wc_psa_get_rsa_padding_def)
  have l: "PSA_HASH_LENGTH h \<le> 64" for h by (simp add: PSA_HASH_LENGTH_def Let_def)
  have small: "n \<le> 4294967295" "n \<le> 64" if "n = PSA_HASH_LENGTH h" for n h using l [of h] that by simp_all
  have e: "rsa_verify_end n (rsa_verify_digestinfo E ht h enc sg k) s = (Inr (), s') \<longleftrightarrow>
      s' = s \<and> ret_bytes (wc_RsaSSL_Verify_ex2 E sg (rsa_max_bytes E) ht k) = Inr enc"
    if "n = in_length h" "n \<noteq> 0" "enc \<noteq> []" for n ht h enc sg k
    using that by (auto simp: rsa_verify_end_def rsa_verify_digestinfo_def split: sum.split)
  show ?thesis
    unfolding psa_asymmetric_verify_rsa_def Let_def
    using p a(2) small [of "in_length hash" "PSA_ALG_SIGN_GET_HASH a"]
    by (auto simp: wolfpsa_check_word32_length_def wc_psa_rsa_hash_length_ok_def Let_def wc_step_Inr e
        split: if_splits)
qed

section \<open>Decryption of a ciphertext made\<close>

definition rsa_rng_available :: "wc_device \<Rightarrow> 'r rsa_engine \<Rightarrow> bool" where
  "rsa_rng_available D E \<longleftrightarrow>
    (\<forall>i. wc_InitRng_ex D i (dev_default D) = WC_OK) \<and> (\<forall>i k. \<exists>k'. wc_RsaSetRNG E i k = (WC_OK, k'))"

text \<open>What the two functions pass to wolfCrypt for an algorithm, a message and a label.\<close>

definition rsa_encrypt_call ::
    "'r rsa_engine \<Rightarrow> psa_algorithm_t \<Rightarrow> inbuf \<Rightarrow> inbuf \<Rightarrow> outbuf \<Rightarrow> nat \<Rightarrow> 'r \<Rightarrow> wc_len" where
  "rsa_encrypt_call E a m salt out rng k =
    (if wc_psa_get_rsa_padding a = WC_RSA_PKCSV15_PAD then wc_RsaPublicEncrypt E m out rng k
     else if wc_psa_get_rsa_padding a = WC_RSA_OAEP_PAD then
       (if wc_psa_get_mgf (wc_psa_get_hash_type a) = WC_MGF1NONE then Inl BAD_FUNC_ARG
        else wc_RsaPublicEncrypt_ex E m out rng (wc_psa_get_hash_type a) (wc_psa_get_mgf (wc_psa_get_hash_type a)) salt k)
     else Inl BAD_FUNC_ARG)"

definition rsa_decrypt_call :: "'r rsa_engine \<Rightarrow> psa_algorithm_t \<Rightarrow> inbuf \<Rightarrow> inbuf \<Rightarrow> 'r \<Rightarrow> wc_len" where
  "rsa_decrypt_call E a c salt k =
    (if wc_psa_get_rsa_padding a = WC_RSA_PKCSV15_PAD then wc_RsaPrivateDecrypt E c (nat (wc_RsaEncryptSize E k)) k
     else if wc_psa_get_rsa_padding a = WC_RSA_OAEP_PAD then
       (if wc_psa_get_mgf (wc_psa_get_hash_type a) = WC_MGF1NONE then Inl BAD_FUNC_ARG
        else wc_RsaPrivateDecrypt_ex E c (nat (wc_RsaEncryptSize E k)) (wc_psa_get_hash_type a)
          (wc_psa_get_mgf (wc_psa_get_hash_type a)) salt k)
     else Inl BAD_FUNC_ARG)"

lemma crypt_calls_inverse:
  assumes ok: "rsa_crypt_correct E" and k: "rsa_object E d k" "wc_RsaSetRNG E rng' k = (WC_OK, k'')"
    and c: "ret_bytes (rsa_encrypt_call E a m salt out rng k) = Inr c"
  shows "wc_RsaEncryptSize E k'' > 0" and "length c \<le> out_size out"
    and "rsa_decrypt_call E a (In c) salt k'' = Inr (in_bytes m)"
proof -
  note P = ok [unfolded rsa_crypt_correct_def, THEN conjunct1, rule_format, OF k]
  note O = ok [unfolded rsa_crypt_correct_def, THEN conjunct2, rule_format, OF k]
  consider "wc_psa_get_rsa_padding a = WC_RSA_PKCSV15_PAD"
      "ret_bytes (wc_RsaPublicEncrypt E m out rng k) = Inr c"
    | "wc_psa_get_rsa_padding a = WC_RSA_OAEP_PAD" "wc_psa_get_mgf (wc_psa_get_hash_type a) \<noteq> WC_MGF1NONE"
      "ret_bytes (wc_RsaPublicEncrypt_ex E m out rng (wc_psa_get_hash_type a)
        (wc_psa_get_mgf (wc_psa_get_hash_type a)) salt k) = Inr c"
    using c by (auto simp: rsa_encrypt_call_def ret_bytes_def split: if_splits)
  then have "wc_RsaEncryptSize E k'' > 0 \<and> length c \<le> out_size out \<and> rsa_decrypt_call E a (In c) salt k'' = Inr (in_bytes m)"
  proof cases
    case 1
    with P [OF 1(2)] show ?thesis by (simp add: rsa_decrypt_call_def)
  next
    case 2
    with O [OF 2(3)] show ?thesis by (simp add: rsa_decrypt_call_def)
  qed
  then show "wc_RsaEncryptSize E k'' > 0" "length c \<le> out_size out"
    "rsa_decrypt_call E a (In c) salt k'' = Inr (in_bytes m)" by simp_all
qed

lemma encrypt_rsa_Inr:
  assumes "psa_asymmetric_encrypt_rsa D E PSA_KEY_TYPE_RSA_KEY_PAIR n d a m salt out s = (Inr c, s')"
  obtains k0 k rng where "wc_InitRsaKey_ex E (dev_default D) = (WC_OK, k0)" and "wc_RsaPrivateKeyDecode E d k0 = (WC_OK, k)"
    and "ret_bytes (rsa_encrypt_call E a m salt out rng k) = Inr c"
    and "wolfpsa_check_word32_length (length d) = PSA_SUCCESS" and "wolfpsa_check_word32_length (in_length salt) = PSA_SUCCESS"
    and "out_size out \<le> UINT32_MAX"
proof -
  note u = assms [unfolded psa_asymmetric_encrypt_rsa_def Let_def, folded rsa_encrypt_call_def]
  have g: "wolfpsa_check_word32_length (length d) = PSA_SUCCESS" "wolfpsa_check_word32_length (in_length m) = PSA_SUCCESS"
    "wolfpsa_check_word32_length (out_size out) = PSA_SUCCESS" "wolfpsa_check_word32_length (in_length salt) = PSA_SUCCESS"
    "PSA_ASYMMETRIC_ENCRYPT_OUTPUT_SIZE PSA_KEY_TYPE_RSA_KEY_PAIR n a \<le> out_size out"
    using u by (auto split: if_splits)
  obtain k0 k where "wc_InitRsaKey_ex E (dev_default D) = (WC_OK, k0)" "wc_RsaPrivateKeyDecode E d k0 = (WC_OK, k)"
    "ret_bytes (rsa_encrypt_call E a m salt out (rng_calls s) k) = Inr c"
    using u g by (auto simp: wc_step_Inr with_rng_Inr rsa_finish_Inr rsa_decode_key_def)
  then show ?thesis
    by (intro that [of k0 k "rng_calls s"])
      (use g in \<open>auto simp: rsa_object_def wolfpsa_check_word32_length_def split: if_splits\<close>)
qed

lemma rsa_crypt_roundtrip:
  assumes e: "psa_asymmetric_encrypt_rsa D E PSA_KEY_TYPE_RSA_KEY_PAIR n d a m salt out s = (Inr c, s')"
    and up: "rsa_rng_available D E" and ok: "rsa_crypt_correct E"
    and al: "allocs s2 = []" and fits: "length (in_bytes m) \<le> out_size out2"
  shows "\<exists>s3. psa_asymmetric_decrypt_rsa D E PSA_KEY_TYPE_RSA_KEY_PAIR d a (In c) salt out2 s2 = (Inr (in_bytes m), s3)"
    and "length c \<le> out_size out"
proof -
  obtain k0 k rng where i: "wc_InitRsaKey_ex E (dev_default D) = (WC_OK, k0)" "wc_RsaPrivateKeyDecode E d k0 = (WC_OK, k)"
    and c: "ret_bytes (rsa_encrypt_call E a m salt out rng k) = Inr c"
    and g: "wolfpsa_check_word32_length (length d) = PSA_SUCCESS" "wolfpsa_check_word32_length (in_length salt) = PSA_SUCCESS"
      "out_size out \<le> UINT32_MAX"
    by (rule encrypt_rsa_Inr [OF e])
  have k: "rsa_object E d k" using i by (auto simp: rsa_object_def)
  obtain k'' where r: "wc_RsaSetRNG E (rng_calls s2) k = (WC_OK, k'')" and ir: "wc_InitRng_ex D (rng_calls s2) (dev_default D) = WC_OK"
    using up unfolding rsa_rng_available_def by blast
  note inv = crypt_calls_inverse [OF ok k r c]
  show "length c \<le> out_size out" by (rule inv(2))
  then have "wolfpsa_check_word32_length (length c) = PSA_SUCCESS" using g(3) by (simp add: wolfpsa_check_word32_length_def)
  then show "\<exists>s3. psa_asymmetric_decrypt_rsa D E PSA_KEY_TYPE_RSA_KEY_PAIR d a (In c) salt out2 s2 = (Inr (in_bytes m), s3)"
    using inv(1,3) g(1,2) i ir r fits
    unfolding psa_asymmetric_decrypt_rsa_def Let_def rsa_decrypt_call_def [symmetric]
    by (simp add: with_rng_def Let_def with_malloc_ok al)
qed

end
