(* ===== verification/Asym_Ed.thy ===== *)
theory Asym_Ed
  imports Asym_Wc
begin

text \<open>
  Ed25519 and Ed448, \<open>src/psa_ed25519_ed448.c\<close>: signing and verification of messages and of
  prehashes, with a context, key generation and public-key export. wolfCrypt's operations are a
  parameter; the same record \<open>ed_engine\<close> describes \<open>wc_ed25519_*\<close> and \<open>wc_ed448_*\<close>.
\<close>

unbundle bit_operations_syntax

section \<open>wolfCrypt's operations\<close>

text \<open>
  \<open>'d\<close> is an \<open>ed25519_key\<close> or an \<open>ed448_key\<close>. The type byte of \<open>wc_ed25519_sign_msg_ex\<close> is an
  \<open>ed_variant\<close>; \<open>wc_ed448_sign_msg\<close> has none and gets \<open>Ed448\<close>. The integer of a verification is
  \<open>*res\<close>. \<open>ed_priv_set\<close> is the field \<open>privKeySet\<close>.
\<close>

datatype ed_variant = Ed25519 | Ed25519ctx | Ed448

record 'd ed_engine =
  ed_init_ex :: "int \<Rightarrow> wc_ret \<times> 'd"
  ed_import_private_only :: "byte list \<Rightarrow> 'd \<Rightarrow> wc_ret \<times> 'd"
  ed_make_public :: "'d \<Rightarrow> wc_ret \<times> 'd"
  ed_import_public :: "byte list \<Rightarrow> 'd \<Rightarrow> wc_ret \<times> 'd"
  ed_sign_msg :: "ed_variant \<Rightarrow> inbuf \<Rightarrow> inbuf \<Rightarrow> outbuf \<Rightarrow> 'd \<Rightarrow> wc_ret \<times> byte list"
  edph_sign_hash :: "inbuf \<Rightarrow> inbuf \<Rightarrow> outbuf \<Rightarrow> 'd \<Rightarrow> wc_ret \<times> byte list"
  ed_verify_msg :: "ed_variant \<Rightarrow> inbuf \<Rightarrow> inbuf \<Rightarrow> inbuf \<Rightarrow> 'd \<Rightarrow> wc_ret \<times> int"
  edph_verify_hash :: "inbuf \<Rightarrow> inbuf \<Rightarrow> inbuf \<Rightarrow> 'd \<Rightarrow> wc_ret \<times> int"
  ed_make_key :: "nat \<Rightarrow> 'd \<Rightarrow> wc_ret \<times> 'd"
  ed_priv_set :: "'d \<Rightarrow> bool"
  ed_export_private_only :: "'d \<Rightarrow> outbuf \<Rightarrow> wc_ret \<times> byte list"
  ed_export_public :: "'d \<Rightarrow> outbuf \<Rightarrow> wc_ret \<times> byte list"

abbreviation ED25519_PUB_KEY_SIZE :: nat where "ED25519_PUB_KEY_SIZE \<equiv> 32"
abbreviation ED448_PUB_KEY_SIZE :: nat where "ED448_PUB_KEY_SIZE \<equiv> 57"

abbreviation ed_pair_type :: psa_key_type_t where
  "ed_pair_type \<equiv> PSA_KEY_TYPE_ECC_KEY_PAIR PSA_ECC_FAMILY_TWISTED_EDWARDS"
abbreviation ed_public_type :: psa_key_type_t where
  "ed_public_type \<equiv> PSA_KEY_TYPE_ECC_PUBLIC_KEY PSA_ECC_FAMILY_TWISTED_EDWARDS"

text \<open>\<open>ctx_ptr\<close> and \<open>ctx_len\<close>: an empty context is passed as NULL.\<close>

definition ctx_arg :: "inbuf \<Rightarrow> inbuf" where
  "ctx_arg context = (if in_length context > 0 then context else NullIn 0)"

text \<open>The stored seed, imported, and the public component made from it.\<close>

definition ed_load_pair :: "'d ed_engine \<Rightarrow> byte list \<Rightarrow> 'd \<Rightarrow> wc_ret \<times> 'd" where
  "ed_load_pair E key_buffer ed_key =
    (case ed_import_private_only E key_buffer ed_key of
       (ret, ed_key1) \<Rightarrow> if ret = WC_OK then ed_make_public E ed_key1 else (ret, ed_key1))"

definition ed_load_key :: "'d ed_engine \<Rightarrow> psa_key_type_t \<Rightarrow> byte list \<Rightarrow> 'd \<Rightarrow> wc_ret \<times> 'd" where
  "ed_load_key E key_type key_buffer ed_key =
    (if key_type = ed_pair_type then ed_load_pair E key_buffer ed_key
     else ed_import_public E key_buffer ed_key)"

definition ed_accept :: "int \<Rightarrow> (unit, 'st) asym_run" where
  "ed_accept verify_res = (if verify_res \<noteq> 1 then fail_with PSA_ERROR_INVALID_SIGNATURE else give ())"

section \<open>Ed25519\<close>

definition psa_asymmetric_sign_ed25519 ::
    "wc_device \<Rightarrow> 'd ed_engine \<Rightarrow> psa_key_type_t \<Rightarrow> nat \<Rightarrow> byte list \<Rightarrow> psa_algorithm_t \<Rightarrow> inbuf \<Rightarrow> outbuf \<Rightarrow> inbuf \<Rightarrow>
     (byte list, 'st) asym_run" where
  "psa_asymmetric_sign_ed25519 D E key_type key_bits key_buffer a hash signature context =
    (if a \<noteq> PSA_ALG_PURE_EDDSA \<and> a \<noteq> PSA_ALG_EDDSA_CTX \<and> a \<noteq> PSA_ALG_ED25519PH
       then fail_with PSA_ERROR_NOT_SUPPORTED
     else if a = PSA_ALG_PURE_EDDSA \<and> in_length context \<noteq> 0 then fail_with PSA_ERROR_INVALID_ARGUMENT
     else if in_length context > 255 then fail_with PSA_ERROR_INVALID_ARGUMENT
     else if key_type \<noteq> ed_pair_type \<or> key_bits \<noteq> 255 then fail_with PSA_ERROR_INVALID_ARGUMENT
     else if wolfpsa_check_word32_length (length key_buffer) \<noteq> PSA_SUCCESS \<or>
             wolfpsa_check_word32_length (in_length hash) \<noteq> PSA_SUCCESS \<or>
             wolfpsa_check_word32_length (out_size signature) \<noteq> PSA_SUCCESS
       then fail_with PSA_ERROR_INVALID_ARGUMENT
     else if a = PSA_ALG_ED25519PH \<and> in_length hash \<noteq> PSA_HASH_LENGTH PSA_ALG_SHA_512
       then fail_with PSA_ERROR_INVALID_ARGUMENT
     else
       wc_step (ed_init_ex E (dev_default D)) (\<lambda>key0.
       wc_step (ed_load_pair E key_buffer key0) (\<lambda>ed_key.
       wc_step
         (if a = PSA_ALG_ED25519PH then edph_sign_hash E hash (ctx_arg context) signature ed_key
          else ed_sign_msg E (if a = PSA_ALG_EDDSA_CTX then Ed25519ctx else Ed25519) hash (ctx_arg context)
                 signature ed_key)
         give)))"

definition psa_asymmetric_verify_ed25519 ::
    "wc_device \<Rightarrow> 'd ed_engine \<Rightarrow> psa_key_type_t \<Rightarrow> nat \<Rightarrow> byte list \<Rightarrow> psa_algorithm_t \<Rightarrow> inbuf \<Rightarrow> inbuf \<Rightarrow> inbuf \<Rightarrow>
     (unit, 'st) asym_run" where
  "psa_asymmetric_verify_ed25519 D E key_type key_bits key_buffer a hash signature context =
    (if a \<noteq> PSA_ALG_PURE_EDDSA \<and> a \<noteq> PSA_ALG_EDDSA_CTX \<and> a \<noteq> PSA_ALG_ED25519PH
       then fail_with PSA_ERROR_NOT_SUPPORTED
     else if a = PSA_ALG_PURE_EDDSA \<and> in_length context \<noteq> 0 then fail_with PSA_ERROR_INVALID_ARGUMENT
     else if in_length context > 255 then fail_with PSA_ERROR_INVALID_ARGUMENT
     else if key_type \<noteq> ed_pair_type \<and> key_type \<noteq> ed_public_type \<or> key_bits \<noteq> 255
       then fail_with PSA_ERROR_INVALID_ARGUMENT
     else if wolfpsa_check_word32_length (length key_buffer) \<noteq> PSA_SUCCESS \<or>
             wolfpsa_check_word32_length (in_length hash) \<noteq> PSA_SUCCESS \<or>
             wolfpsa_check_word32_length (in_length signature) \<noteq> PSA_SUCCESS
       then fail_with PSA_ERROR_INVALID_ARGUMENT
     else if a = PSA_ALG_ED25519PH \<and> in_length hash \<noteq> PSA_HASH_LENGTH PSA_ALG_SHA_512
       then fail_with PSA_ERROR_INVALID_ARGUMENT
     else
       wc_step (ed_init_ex E (dev_default D)) (\<lambda>key0.
       wc_step (ed_load_key E key_type key_buffer key0) (\<lambda>ed_key.
       wc_step
         (if a = PSA_ALG_ED25519PH then edph_verify_hash E signature hash (ctx_arg context) ed_key
          else ed_verify_msg E (if a = PSA_ALG_EDDSA_CTX then Ed25519ctx else Ed25519) signature hash
                 (ctx_arg context) ed_key)
         ed_accept)))"

text \<open>The lengths are never NULL pointers in the calls of \<open>src/psa_key_storage.c\<close>.\<close>

definition psa_asymmetric_generate_key_ed25519 ::
    "wc_device \<Rightarrow> 'd ed_engine \<Rightarrow> psa_key_type_t \<Rightarrow> nat \<Rightarrow> outbuf \<Rightarrow> outbuf \<Rightarrow>
     (byte list \<times> byte list, 'st) asym_run" where
  "psa_asymmetric_generate_key_ed25519 D E key_type key_bits private_key public_key =
    (if key_type \<noteq> ed_pair_type \<or> key_bits \<noteq> 255 then fail_with PSA_ERROR_INVALID_ARGUMENT
     else if wolfpsa_check_word32_length (out_size private_key) \<noteq> PSA_SUCCESS \<or>
             wolfpsa_check_word32_length (out_size public_key) \<noteq> PSA_SUCCESS
       then fail_with PSA_ERROR_INVALID_ARGUMENT
     else
       wc_step (ed_init_ex E (dev_default D)) (\<lambda>key0.
       with_rng D (dev_default D) (\<lambda>rng.
       wc_step (ed_make_key E rng key0) (\<lambda>ed_key.
         if \<not> ed_priv_set E ed_key then fail_with PSA_ERROR_HARDWARE_FAILURE
         else
           wc_step (ed_export_private_only E ed_key private_key) (\<lambda>priv.
           wc_step (ed_export_public E ed_key public_key) (\<lambda>pub.
             give (priv, pub)))))))"

definition psa_asymmetric_export_public_key_ed25519 ::
    "wc_device \<Rightarrow> 'd ed_engine \<Rightarrow> psa_key_type_t \<Rightarrow> nat \<Rightarrow> byte list \<Rightarrow> outbuf \<Rightarrow> psa_status + byte list" where
  "psa_asymmetric_export_public_key_ed25519 D E key_type key_bits key_buffer output =
    (if key_type \<noteq> ed_pair_type \<and> key_type \<noteq> ed_public_type \<or> key_bits \<noteq> 255 then Inl PSA_ERROR_INVALID_ARGUMENT
     else if wolfpsa_check_word32_length (length key_buffer) \<noteq> PSA_SUCCESS \<or>
             wolfpsa_check_word32_length (out_size output) \<noteq> PSA_SUCCESS
       then Inl PSA_ERROR_INVALID_ARGUMENT
     else if out_null output \<and> out_size output \<noteq> 0 then Inl PSA_ERROR_INVALID_ARGUMENT
     else if out_size output < ED25519_PUB_KEY_SIZE then Inl PSA_ERROR_BUFFER_TOO_SMALL
     else
       wc_try (ed_init_ex E (dev_default D)) (\<lambda>key0.
       wc_try (ed_load_key E key_type key_buffer key0) (\<lambda>ed_key.
       wc_try (ed_export_public E ed_key output) Inr)))"

section \<open>Ed448\<close>

definition psa_asymmetric_sign_ed448 ::
    "wc_device \<Rightarrow> 'd ed_engine \<Rightarrow> psa_key_type_t \<Rightarrow> nat \<Rightarrow> byte list \<Rightarrow> psa_algorithm_t \<Rightarrow> inbuf \<Rightarrow> outbuf \<Rightarrow> inbuf \<Rightarrow>
     (byte list, 'st) asym_run" where
  "psa_asymmetric_sign_ed448 D E key_type key_bits key_buffer a hash signature context =
    (if a \<noteq> PSA_ALG_PURE_EDDSA \<and> a \<noteq> PSA_ALG_EDDSA_CTX \<and> a \<noteq> PSA_ALG_ED448PH
       then fail_with PSA_ERROR_NOT_SUPPORTED
     else if in_length context > 255 then fail_with PSA_ERROR_INVALID_ARGUMENT
     else if key_type \<noteq> ed_pair_type \<or> key_bits \<noteq> 448 then fail_with PSA_ERROR_INVALID_ARGUMENT
     else if wolfpsa_check_word32_length (length key_buffer) \<noteq> PSA_SUCCESS \<or>
             wolfpsa_check_word32_length (in_length hash) \<noteq> PSA_SUCCESS \<or>
             wolfpsa_check_word32_length (out_size signature) \<noteq> PSA_SUCCESS
       then fail_with PSA_ERROR_INVALID_ARGUMENT
     else if a = PSA_ALG_ED448PH \<and> in_length hash \<noteq> 64 then fail_with PSA_ERROR_INVALID_ARGUMENT
     else if a = PSA_ALG_PURE_EDDSA \<and> in_length context \<noteq> 0 then fail_with PSA_ERROR_INVALID_ARGUMENT
     else
       (let ctx = (if a = PSA_ALG_PURE_EDDSA then NullIn 0 else ctx_arg context) in
        wc_step (ed_init_ex E (dev_default D)) (\<lambda>key0.
        wc_step (ed_load_pair E key_buffer key0) (\<lambda>ed_key.
        wc_step
          (if a = PSA_ALG_ED448PH then edph_sign_hash E hash ctx signature ed_key
           else ed_sign_msg E Ed448 hash ctx signature ed_key)
          give))))"

definition psa_asymmetric_verify_ed448 ::
    "wc_device \<Rightarrow> 'd ed_engine \<Rightarrow> psa_key_type_t \<Rightarrow> nat \<Rightarrow> byte list \<Rightarrow> psa_algorithm_t \<Rightarrow> inbuf \<Rightarrow> inbuf \<Rightarrow> inbuf \<Rightarrow>
     (unit, 'st) asym_run" where
  "psa_asymmetric_verify_ed448 D E key_type key_bits key_buffer a hash signature context =
    (if a \<noteq> PSA_ALG_PURE_EDDSA \<and> a \<noteq> PSA_ALG_EDDSA_CTX \<and> a \<noteq> PSA_ALG_ED448PH
       then fail_with PSA_ERROR_NOT_SUPPORTED
     else if in_length context > 255 then fail_with PSA_ERROR_INVALID_ARGUMENT
     else if key_type \<noteq> ed_pair_type \<and> key_type \<noteq> ed_public_type \<or> key_bits \<noteq> 448
       then fail_with PSA_ERROR_INVALID_ARGUMENT
     else if wolfpsa_check_word32_length (length key_buffer) \<noteq> PSA_SUCCESS \<or>
             wolfpsa_check_word32_length (in_length hash) \<noteq> PSA_SUCCESS \<or>
             wolfpsa_check_word32_length (in_length signature) \<noteq> PSA_SUCCESS
       then fail_with PSA_ERROR_INVALID_ARGUMENT
     else if a = PSA_ALG_ED448PH \<and> in_length hash \<noteq> 64 then fail_with PSA_ERROR_INVALID_ARGUMENT
     else if a = PSA_ALG_PURE_EDDSA \<and> in_length context \<noteq> 0 then fail_with PSA_ERROR_INVALID_ARGUMENT
     else
       (let ctx = (if a = PSA_ALG_PURE_EDDSA then NullIn 0 else ctx_arg context) in
        wc_step (ed_init_ex E (dev_default D)) (\<lambda>key0.
        wc_step (ed_load_key E key_type key_buffer key0) (\<lambda>ed_key.
        wc_step
          (if a = PSA_ALG_ED448PH then edph_verify_hash E signature hash ctx ed_key
           else ed_verify_msg E Ed448 signature hash ctx ed_key)
          ed_accept))))"

definition psa_asymmetric_generate_key_ed448 ::
    "wc_device \<Rightarrow> 'd ed_engine \<Rightarrow> psa_key_type_t \<Rightarrow> nat \<Rightarrow> outbuf \<Rightarrow> outbuf \<Rightarrow>
     (byte list \<times> byte list, 'st) asym_run" where
  "psa_asymmetric_generate_key_ed448 D E key_type key_bits private_key public_key =
    (if key_type \<noteq> ed_pair_type \<or> key_bits \<noteq> 448 then fail_with PSA_ERROR_INVALID_ARGUMENT
     else if wolfpsa_check_word32_length (out_size private_key) \<noteq> PSA_SUCCESS \<or>
             wolfpsa_check_word32_length (out_size public_key) \<noteq> PSA_SUCCESS
       then fail_with PSA_ERROR_INVALID_ARGUMENT
     else
       wc_step (ed_init_ex E (dev_default D)) (\<lambda>key0.
       with_rng D (dev_default D) (\<lambda>rng.
       wc_step (ed_make_key E rng key0) (\<lambda>ed_key.
       wc_step (ed_export_private_only E ed_key private_key) (\<lambda>priv.
       wc_step (ed_export_public E ed_key public_key) (\<lambda>pub.
         give (priv, pub)))))))"

definition psa_asymmetric_export_public_key_ed448 ::
    "wc_device \<Rightarrow> 'd ed_engine \<Rightarrow> psa_key_type_t \<Rightarrow> nat \<Rightarrow> byte list \<Rightarrow> outbuf \<Rightarrow> psa_status + byte list" where
  "psa_asymmetric_export_public_key_ed448 D E key_type key_bits key_buffer output =
    (if key_type \<noteq> ed_pair_type \<and> key_type \<noteq> ed_public_type \<or> key_bits \<noteq> 448 then Inl PSA_ERROR_INVALID_ARGUMENT
     else if wolfpsa_check_word32_length (length key_buffer) \<noteq> PSA_SUCCESS \<or>
             wolfpsa_check_word32_length (out_size output) \<noteq> PSA_SUCCESS
       then Inl PSA_ERROR_INVALID_ARGUMENT
     else if out_null output \<and> out_size output \<noteq> 0 then Inl PSA_ERROR_INVALID_ARGUMENT
     else if out_size output < ED448_PUB_KEY_SIZE then Inl PSA_ERROR_BUFFER_TOO_SMALL
     else
       wc_try (ed_init_ex E (dev_default D)) (\<lambda>key0.
       wc_try (ed_load_key E key_type key_buffer key0) (\<lambda>ed_key.
       wc_try (ed_export_public E ed_key output) Inr)))"

section \<open>Failures\<close>

lemma ed_accept_frame [simp]: "proper (ed_accept r)" "quiet (ed_accept r)"
  by (simp_all add: ed_accept_def)

lemma sign_ed_frame [simp]:
  "proper (psa_asymmetric_sign_ed25519 D E t n d a hash out c)" "quiet (psa_asymmetric_sign_ed25519 D E t n d a hash out c)"
  "proper (psa_asymmetric_sign_ed448 D E t n d a hash out c)" "quiet (psa_asymmetric_sign_ed448 D E t n d a hash out c)"
  by (simp_all add: psa_asymmetric_sign_ed25519_def psa_asymmetric_sign_ed448_def Let_def)

lemma verify_ed_frame [simp]:
  "proper (psa_asymmetric_verify_ed25519 D E t n d a hash sig c)" "quiet (psa_asymmetric_verify_ed25519 D E t n d a hash sig c)"
  "proper (psa_asymmetric_verify_ed448 D E t n d a hash sig c)" "quiet (psa_asymmetric_verify_ed448 D E t n d a hash sig c)"
  by (simp_all add: psa_asymmetric_verify_ed25519_def psa_asymmetric_verify_ed448_def Let_def)

section \<open>What wolfCrypt promises\<close>

definition ed_object :: "'d ed_engine \<Rightarrow> byte list \<Rightarrow> 'd \<Rightarrow> bool" where
  "ed_object E d k \<longleftrightarrow> (\<exists>dev k0. ed_init_ex E dev = (WC_OK, k0) \<and> ed_load_pair E d k0 = (WC_OK, k))"

text \<open>
  A signature that a key object made for a message (or a prehash) and a context fits its buffer,
  and the object accepts it for the same variant, message and context.
\<close>

definition ed_correct :: "'d ed_engine \<Rightarrow> bool" where
  "ed_correct E \<longleftrightarrow>
    (\<forall>d k v m c out sig. ed_object E d k \<longrightarrow> ed_sign_msg E v m c out k = (WC_OK, sig) \<longrightarrow>
       sig \<noteq> [] \<and> length sig \<le> out_size out \<and> ed_verify_msg E v (In sig) m c k = (WC_OK, 1)) \<and>
    (\<forall>d k m c out sig. ed_object E d k \<longrightarrow> edph_sign_hash E m c out k = (WC_OK, sig) \<longrightarrow>
       sig \<noteq> [] \<and> length sig \<le> out_size out \<and> edph_verify_hash E (In sig) m c k = (WC_OK, 1))"

section \<open>Verification of a signature made\<close>

lemma word32_le: "n \<le> m \<Longrightarrow> wolfpsa_check_word32_length m = PSA_SUCCESS \<Longrightarrow> wolfpsa_check_word32_length n = PSA_SUCCESS"
  by (auto simp: wolfpsa_check_word32_length_def split: if_splits)

lemma ed25519_roundtrip:
  assumes sg: "psa_asymmetric_sign_ed25519 D E t n d a hash out c s = (Inr sig, s')"
    and ok: "ed_correct E"
  shows "psa_asymmetric_verify_ed25519 D E t n d a hash (In sig) c s2 = (Inr (), s2)" and "sig \<noteq> []" and "length sig \<le> out_size out"
proof -
  note u = sg [unfolded psa_asymmetric_sign_ed25519_def]
  have g: "a = PSA_ALG_PURE_EDDSA \<or> a = PSA_ALG_EDDSA_CTX \<or> a = PSA_ALG_ED25519PH"
    "a = PSA_ALG_PURE_EDDSA \<longrightarrow> in_length c = 0" "in_length c \<le> 255" "t = ed_pair_type" "n = 255"
    "wolfpsa_check_word32_length (length d) = PSA_SUCCESS" "wolfpsa_check_word32_length (in_length hash) = PSA_SUCCESS"
    "wolfpsa_check_word32_length (out_size out) = PSA_SUCCESS"
    "a = PSA_ALG_ED25519PH \<longrightarrow> in_length hash = PSA_HASH_LENGTH PSA_ALG_SHA_512"
    using u by (auto split: if_splits)
  let ?v = "if a = PSA_ALG_EDDSA_CTX then Ed25519ctx else Ed25519"
  obtain k0 k where k: "ed_init_ex E (dev_default D) = (WC_OK, k0)" "ed_load_pair E d k0 = (WC_OK, k)"
    and r: "(if a = PSA_ALG_ED25519PH then edph_sign_hash E hash (ctx_arg c) out k
       else ed_sign_msg E ?v hash (ctx_arg c) out k) = (WC_OK, sig)"
    using u by (auto simp: wc_step_Inr split: if_splits)
  have o: "ed_object E d k" using k by (auto simp: ed_object_def)
  have "sig \<noteq> [] \<and> length sig \<le> out_size out \<and> (if a = PSA_ALG_ED25519PH then edph_verify_hash E (In sig) hash (ctx_arg c) k
       else ed_verify_msg E ?v (In sig) hash (ctx_arg c) k) = (WC_OK, 1)"
    using ok o r unfolding ed_correct_def by (auto split: if_splits)
  with g k word32_le [of "length sig" "out_size out"]
  show "psa_asymmetric_verify_ed25519 D E t n d a hash (In sig) c s2 = (Inr (), s2)" "sig \<noteq> []" "length sig \<le> out_size out"
    by (auto simp: psa_asymmetric_verify_ed25519_def ed_load_key_def ed_accept_def give_def)
qed

lemma ed448_roundtrip:
  assumes sg: "psa_asymmetric_sign_ed448 D E t n d a hash out c s = (Inr sig, s')"
    and ok: "ed_correct E"
  shows "psa_asymmetric_verify_ed448 D E t n d a hash (In sig) c s2 = (Inr (), s2)" and "sig \<noteq> []" and "length sig \<le> out_size out"
proof -
  let ?c = "if a = PSA_ALG_PURE_EDDSA then NullIn 0 else ctx_arg c"
  note u = sg [unfolded psa_asymmetric_sign_ed448_def Let_def]
  have g: "a = PSA_ALG_PURE_EDDSA \<or> a = PSA_ALG_EDDSA_CTX \<or> a = PSA_ALG_ED448PH"
    "a = PSA_ALG_PURE_EDDSA \<longrightarrow> in_length c = 0" "in_length c \<le> 255" "t = ed_pair_type" "n = 448"
    "wolfpsa_check_word32_length (length d) = PSA_SUCCESS" "wolfpsa_check_word32_length (in_length hash) = PSA_SUCCESS"
    "wolfpsa_check_word32_length (out_size out) = PSA_SUCCESS" "a = PSA_ALG_ED448PH \<longrightarrow> in_length hash = 64"
    using u by (auto split: if_splits)
  obtain k0 k where k: "ed_init_ex E (dev_default D) = (WC_OK, k0)" "ed_load_pair E d k0 = (WC_OK, k)"
    and r: "(if a = PSA_ALG_ED448PH then edph_sign_hash E hash ?c out k
       else ed_sign_msg E Ed448 hash ?c out k) = (WC_OK, sig)"
    using u g by (auto simp: wc_step_Inr)
  have o: "ed_object E d k" using k by (auto simp: ed_object_def)
  have "sig \<noteq> [] \<and> length sig \<le> out_size out \<and> (if a = PSA_ALG_ED448PH then edph_verify_hash E (In sig) hash ?c k
       else ed_verify_msg E Ed448 (In sig) hash ?c k) = (WC_OK, 1)"
  proof (cases "a = PSA_ALG_ED448PH")
    case True
    then show ?thesis using r ok [unfolded ed_correct_def, THEN conjunct2, rule_format, OF o] by simp
  next
    case False
    then show ?thesis using r ok [unfolded ed_correct_def, THEN conjunct1, rule_format, OF o] by simp
  qed
  with g k word32_le [of "length sig" "out_size out"]
  show "psa_asymmetric_verify_ed448 D E t n d a hash (In sig) c s2 = (Inr (), s2)" "sig \<noteq> []" "length sig \<le> out_size out"
    unfolding psa_asymmetric_verify_ed448_def Let_def by (auto simp: ed_load_key_def ed_accept_def give_def)
qed

end
