(* ===== verification/Asym_Pqc.thy ===== *)
theory Asym_Pqc
  imports Asym_Wc
begin

text \<open>
  The post-quantum signatures: ML-DSA with keys stored as 32-byte seeds (\<open>src/psa_mldsa.c\<close>), and
  the verification of the stateful hash-based schemes LMS/HSS and XMSS/XMSS-MT
  (\<open>src/psa_lms_xmss.c\<close>). wolfCrypt's operations are parameters, their fields named after the
  calls.
\<close>

unbundle bit_operations_syntax

section \<open>ML-DSA\<close>

datatype mldsa_level = WC_ML_DSA_44 | WC_ML_DSA_65 | WC_ML_DSA_87

text \<open>The hash types of HashML-DSA: those shared with the other back ends and two XOFs.\<close>

datatype mldsa_hash = Wc_Hash wc_hash_type | WC_HASH_TYPE_SHAKE128 | WC_HASH_TYPE_SHAKE256

text \<open>
  \<open>'k\<close> is a \<open>wc_MlDsaKey\<close>. The order of the arguments is that of the calls: context, signature
  buffer, input, hash type, then the number of the random generator or the 32 bytes of \<open>rnd\<close>,
  and the key. The integer of a verification is \<open>*res\<close>.
\<close>

record 'k mldsa_engine =
  wc_MlDsaKey_Init :: "int \<Rightarrow> wc_ret \<times> 'k"
  wc_MlDsaKey_SetParams :: "mldsa_level \<Rightarrow> 'k \<Rightarrow> wc_ret \<times> 'k"
  wc_MlDsaKey_MakeKeyFromSeed :: "byte list \<Rightarrow> 'k \<Rightarrow> wc_ret \<times> 'k"
  wc_MlDsaKey_PubSize :: "'k \<Rightarrow> wc_ret + nat"
  wc_MlDsaKey_SigSize :: "'k \<Rightarrow> wc_ret + nat"
  wc_MlDsaKey_ExportPubRaw :: "'k \<Rightarrow> outbuf \<Rightarrow> wc_ret \<times> byte list"
  wc_MlDsaKey_ImportPubRaw :: "byte list \<Rightarrow> 'k \<Rightarrow> wc_ret \<times> 'k"
  wc_MlDsaKey_SignCtx :: "inbuf \<Rightarrow> outbuf \<Rightarrow> inbuf \<Rightarrow> nat \<Rightarrow> 'k \<Rightarrow> wc_ret \<times> byte list"
  wc_MlDsaKey_SignCtxWithSeed :: "inbuf \<Rightarrow> outbuf \<Rightarrow> inbuf \<Rightarrow> byte list \<Rightarrow> 'k \<Rightarrow> wc_ret \<times> byte list"
  wc_MlDsaKey_SignCtxHash :: "inbuf \<Rightarrow> outbuf \<Rightarrow> inbuf \<Rightarrow> mldsa_hash \<Rightarrow> nat \<Rightarrow> 'k \<Rightarrow> wc_ret \<times> byte list"
  wc_MlDsaKey_SignCtxHashWithSeed ::
    "inbuf \<Rightarrow> outbuf \<Rightarrow> inbuf \<Rightarrow> mldsa_hash \<Rightarrow> byte list \<Rightarrow> 'k \<Rightarrow> wc_ret \<times> byte list"
  wc_MlDsaKey_VerifyCtx :: "inbuf \<Rightarrow> inbuf \<Rightarrow> inbuf \<Rightarrow> 'k \<Rightarrow> wc_ret \<times> int"
  wc_MlDsaKey_VerifyCtxHash :: "inbuf \<Rightarrow> inbuf \<Rightarrow> inbuf \<Rightarrow> mldsa_hash \<Rightarrow> 'k \<Rightarrow> wc_ret \<times> int"

abbreviation WOLFPSA_MLDSA_SEED_SIZE :: nat where "WOLFPSA_MLDSA_SEED_SIZE \<equiv> 32"

text \<open>A returned 0 is a size.\<close>

definition ret_size :: "wc_ret + nat \<Rightarrow> wc_ret + nat" where
  "ret_size r = (if r = Inl WC_OK then Inr 0 else r)"

definition mldsa_bits_to_level :: "nat \<Rightarrow> mldsa_level option" where
  "mldsa_bits_to_level n =
    (if n = 128 then Some WC_ML_DSA_44 else if n = 192 then Some WC_ML_DSA_65
     else if n = 256 then Some WC_ML_DSA_87 else None)"

definition mldsa_psa_hash_to_wc :: "psa_algorithm_t \<Rightarrow> mldsa_hash" where
  "mldsa_psa_hash_to_wc h =
    (if h = PSA_ALG_SHA_256 then Wc_Hash WC_HASH_TYPE_SHA256
     else if h = PSA_ALG_SHA_384 then Wc_Hash WC_HASH_TYPE_SHA384
     else if h = PSA_ALG_SHA_512 then Wc_Hash WC_HASH_TYPE_SHA512
     else if h = PSA_ALG_SHA3_256 then Wc_Hash WC_HASH_TYPE_SHA3_256
     else if h = PSA_ALG_SHA3_384 then Wc_Hash WC_HASH_TYPE_SHA3_384
     else if h = PSA_ALG_SHA3_512 then Wc_Hash WC_HASH_TYPE_SHA3_512
     else if h = PSA_ALG_SHAKE128_256 then WC_HASH_TYPE_SHAKE128
     else if h = PSA_ALG_SHAKE256_512 then WC_HASH_TYPE_SHAKE256
     else Wc_Hash WC_HASH_TYPE_NONE)"

definition mldsa_key_init :: "wc_device \<Rightarrow> 'k mldsa_engine \<Rightarrow> nat \<Rightarrow> psa_status + 'k" where
  "mldsa_key_init D E n =
    (case mldsa_bits_to_level n of
       None \<Rightarrow> Inl PSA_ERROR_NOT_SUPPORTED
     | Some level \<Rightarrow>
         wc_try (wc_MlDsaKey_Init E (dev_default D)) (\<lambda>key0.
         wc_try (wc_MlDsaKey_SetParams E level key0) Inr))"

definition mldsa_expand_seed :: "'k mldsa_engine \<Rightarrow> byte list \<Rightarrow> 'k \<Rightarrow> psa_status + 'k" where
  "mldsa_expand_seed E seed key = wc_try (wc_MlDsaKey_MakeKeyFromSeed E seed key) Inr"

text \<open>A step that gives its own status.\<close>

definition psa_step :: "psa_status + 'a \<Rightarrow> ('a \<Rightarrow> ('b, 'st) asym_run) \<Rightarrow> ('b, 'st) asym_run" where
  "psa_step r k = (case r of Inl e \<Rightarrow> fail_with e | Inr x \<Rightarrow> k x)"

definition wolfpsa_mldsa_generate_seed ::
    "('st, 'h) psa_env \<Rightarrow> wc_device \<Rightarrow> 'k mldsa_engine \<Rightarrow> nat \<Rightarrow> (byte list, 'st) asym_run" where
  "wolfpsa_mldsa_generate_seed env D E n s =
    (if mldsa_bits_to_level n = None then (Inl PSA_ERROR_NOT_SUPPORTED, s)
     else
       (case psa_generate_random env (Out WOLFPSA_MLDSA_SEED_SIZE) s of
          (status, seed, s1) \<Rightarrow>
            if status \<noteq> PSA_SUCCESS then (Inl status, s1)
            else
              psa_step (mldsa_key_init D E n) (\<lambda>key.
              psa_step (mldsa_expand_seed E seed key) (\<lambda>_. give seed)) s1))"

definition wolfpsa_mldsa_export_public ::
    "wc_device \<Rightarrow> 'k mldsa_engine \<Rightarrow> nat \<Rightarrow> byte list \<Rightarrow> outbuf \<Rightarrow> psa_status + byte list" where
  "wolfpsa_mldsa_export_public D E n seed output =
    (if wolfpsa_check_word32_length (out_size output) \<noteq> PSA_SUCCESS then Inl PSA_ERROR_INVALID_ARGUMENT
     else
       (case mldsa_key_init D E n of
          Inl e \<Rightarrow> Inl e
        | Inr key0 \<Rightarrow>
            (case mldsa_expand_seed E seed key0 of
               Inl e \<Rightarrow> Inl e
             | Inr key \<Rightarrow>
                 (case ret_size (wc_MlDsaKey_PubSize E key) of
                    Inl e \<Rightarrow> Inl (wc_error_to_psa_status e)
                  | Inr pub_size \<Rightarrow>
                      if out_size output < pub_size then Inl PSA_ERROR_BUFFER_TOO_SMALL
                      else wc_try (wc_MlDsaKey_ExportPubRaw E key output) Inr))))"

text \<open>An empty context is passed as NULL.\<close>

definition mldsa_ctx :: "inbuf \<Rightarrow> inbuf" where
  "mldsa_ctx context = (if in_length context = 0 then NullIn 0 else context)"

text \<open>The raw message and the pre-computed hash.\<close>

definition mldsa_sign_message ::
    "wc_device \<Rightarrow> 'k mldsa_engine \<Rightarrow> psa_algorithm_t \<Rightarrow> inbuf \<Rightarrow> inbuf \<Rightarrow> outbuf \<Rightarrow> 'k \<Rightarrow> (byte list, 'st) asym_run" where
  "mldsa_sign_message D E a ctx input signature key =
    (if a = PSA_ALG_ML_DSA then
       with_rng D (dev_default D) (\<lambda>rng. wc_step (wc_MlDsaKey_SignCtx E ctx signature input rng key) give)
     else if a = PSA_ALG_DETERMINISTIC_ML_DSA then
       wc_step (wc_MlDsaKey_SignCtxWithSeed E ctx signature input (replicate WOLFPSA_MLDSA_SEED_SIZE 0) key) give
     else if PSA_ALG_IS_HASH_ML_DSA a \<or> PSA_ALG_IS_DETERMINISTIC_HASH_ML_DSA a
       then fail_with PSA_ERROR_INVALID_ARGUMENT
     else fail_with PSA_ERROR_NOT_SUPPORTED)"

definition mldsa_sign_digest ::
    "wc_device \<Rightarrow> 'k mldsa_engine \<Rightarrow> psa_algorithm_t \<Rightarrow> inbuf \<Rightarrow> inbuf \<Rightarrow> outbuf \<Rightarrow> 'k \<Rightarrow> (byte list, 'st) asym_run" where
  "mldsa_sign_digest D E a ctx input signature key =
    (let wc_hash = mldsa_psa_hash_to_wc (PSA_ALG_GET_HASH a) in
     if PSA_ALG_IS_HEDGED_HASH_ML_DSA a then
       (if wc_hash = Wc_Hash WC_HASH_TYPE_NONE then fail_with PSA_ERROR_NOT_SUPPORTED
        else with_rng D (dev_default D) (\<lambda>rng.
          wc_step (wc_MlDsaKey_SignCtxHash E ctx signature input wc_hash rng key) give))
     else if PSA_ALG_IS_DETERMINISTIC_HASH_ML_DSA a then
       (if wc_hash = Wc_Hash WC_HASH_TYPE_NONE then fail_with PSA_ERROR_NOT_SUPPORTED
        else wc_step (wc_MlDsaKey_SignCtxHashWithSeed E ctx signature input wc_hash
          (replicate WOLFPSA_MLDSA_SEED_SIZE 0) key) give)
     else fail_with PSA_ERROR_INVALID_ARGUMENT)"

definition wolfpsa_mldsa_sign ::
    "wc_device \<Rightarrow> 'k mldsa_engine \<Rightarrow> nat \<Rightarrow> byte list \<Rightarrow> psa_algorithm_t \<Rightarrow> inbuf \<Rightarrow> inbuf \<Rightarrow> bool \<Rightarrow> outbuf \<Rightarrow>
     (byte list, 'st) asym_run" where
  "wolfpsa_mldsa_sign D E n key_data a context input input_is_hash signature =
    (if length key_data \<noteq> WOLFPSA_MLDSA_SEED_SIZE then fail_with PSA_ERROR_INVALID_ARGUMENT
     else if in_length context > 255 then fail_with PSA_ERROR_INVALID_ARGUMENT
     else if wolfpsa_check_word32_length (in_length input) \<noteq> PSA_SUCCESS \<or>
             wolfpsa_check_word32_length (out_size signature) \<noteq> PSA_SUCCESS
       then fail_with PSA_ERROR_INVALID_ARGUMENT
     else
       psa_step (mldsa_key_init D E n) (\<lambda>key0.
       psa_step (mldsa_expand_seed E key_data key0) (\<lambda>key.
         case ret_size (wc_MlDsaKey_SigSize E key) of
           Inl e \<Rightarrow> fail_with (wc_error_to_psa_status e)
         | Inr sig_size \<Rightarrow>
             if out_size signature < sig_size then fail_with PSA_ERROR_BUFFER_TOO_SMALL
             else if \<not> input_is_hash then mldsa_sign_message D E a (mldsa_ctx context) input signature key
             else mldsa_sign_digest D E a (mldsa_ctx context) input signature key)))"

definition mldsa_load_key ::
    "'k mldsa_engine \<Rightarrow> psa_key_type_t \<Rightarrow> byte list \<Rightarrow> 'k \<Rightarrow> psa_status + 'k" where
  "mldsa_load_key E key_type key_data key =
    (if key_type = PSA_KEY_TYPE_ML_DSA_KEY_PAIR then
       (if length key_data \<noteq> WOLFPSA_MLDSA_SEED_SIZE then Inl PSA_ERROR_INVALID_ARGUMENT
        else mldsa_expand_seed E key_data key)
     else if key_type = PSA_KEY_TYPE_ML_DSA_PUBLIC_KEY then wc_try (wc_MlDsaKey_ImportPubRaw E key_data key) Inr
     else Inl PSA_ERROR_INVALID_ARGUMENT)"

definition mldsa_accept :: "int \<Rightarrow> (unit, 'st) asym_run" where
  "mldsa_accept verify_res = (if verify_res \<noteq> 1 then fail_with PSA_ERROR_INVALID_SIGNATURE else give ())"

definition wolfpsa_mldsa_verify ::
    "wc_device \<Rightarrow> 'k mldsa_engine \<Rightarrow> nat \<Rightarrow> psa_key_type_t \<Rightarrow> byte list \<Rightarrow> psa_algorithm_t \<Rightarrow> inbuf \<Rightarrow> inbuf \<Rightarrow> bool \<Rightarrow>
     inbuf \<Rightarrow> (unit, 'st) asym_run" where
  "wolfpsa_mldsa_verify D E n key_type key_data a context input input_is_hash signature =
    (if in_length context > 255 then fail_with PSA_ERROR_INVALID_ARGUMENT
     else if wolfpsa_check_word32_length (length key_data) \<noteq> PSA_SUCCESS \<or>
             wolfpsa_check_word32_length (in_length input) \<noteq> PSA_SUCCESS \<or>
             wolfpsa_check_word32_length (in_length signature) \<noteq> PSA_SUCCESS
       then fail_with PSA_ERROR_INVALID_ARGUMENT
     else
       psa_step (mldsa_key_init D E n) (\<lambda>key0.
       psa_step (mldsa_load_key E key_type key_data key0) (\<lambda>key.
         if \<not> input_is_hash then
           (if a = PSA_ALG_ML_DSA \<or> a = PSA_ALG_DETERMINISTIC_ML_DSA
              then wc_step (wc_MlDsaKey_VerifyCtx E signature (mldsa_ctx context) input key) mldsa_accept
            else if PSA_ALG_IS_HASH_ML_DSA a \<or> PSA_ALG_IS_DETERMINISTIC_HASH_ML_DSA a
              then fail_with PSA_ERROR_INVALID_ARGUMENT
            else fail_with PSA_ERROR_NOT_SUPPORTED)
         else
           (if PSA_ALG_IS_HASH_ML_DSA a \<or> PSA_ALG_IS_DETERMINISTIC_HASH_ML_DSA a then
              (let wc_hash = mldsa_psa_hash_to_wc (PSA_ALG_GET_HASH a) in
               if wc_hash = Wc_Hash WC_HASH_TYPE_NONE then fail_with PSA_ERROR_NOT_SUPPORTED
               else wc_step (wc_MlDsaKey_VerifyCtxHash E signature (mldsa_ctx context) input wc_hash key) mldsa_accept)
            else fail_with PSA_ERROR_INVALID_ARGUMENT))))"

section \<open>LMS and XMSS\<close>

text \<open>
  \<open>'l\<close> is an \<open>LmsKey\<close>, \<open>'x\<close> an \<open>XmssKey\<close>. The verification calls get the message with its length
  cast to \<open>int\<close>; \<open>True\<close> in \<open>wc_XmssKey_ImportPubRaw_ex\<close> is \<open>is_xmssmt\<close>.
\<close>

record ('l, 'x) hbs_engine =
  wc_LmsKey_Init :: "int \<Rightarrow> wc_ret \<times> 'l"
  wc_LmsKey_ImportPubRaw :: "byte list \<Rightarrow> 'l \<Rightarrow> wc_ret \<times> 'l"
  wc_LmsKey_Verify :: "inbuf \<Rightarrow> inbuf \<Rightarrow> int \<Rightarrow> 'l \<Rightarrow> wc_ret"
  wc_XmssKey_Init :: "int \<Rightarrow> wc_ret \<times> 'x"
  wc_XmssKey_ImportPubRaw_ex :: "byte list \<Rightarrow> bool \<Rightarrow> 'x \<Rightarrow> wc_ret \<times> 'x"
  wc_XmssKey_Verify :: "inbuf \<Rightarrow> inbuf \<Rightarrow> int \<Rightarrow> 'x \<Rightarrow> wc_ret"

text \<open>\<open>(int)msg_len\<close> for a length that fits in 32 bits.\<close>

definition int_cast :: "nat \<Rightarrow> int" where
  "int_cast n = sint (word_of_nat n :: u32)"

text \<open>The end of both: \<open>SIG_VERIFY_E\<close> and \<open>-1\<close> are a bad signature.\<close>

definition hbs_verdict :: "wc_ret \<Rightarrow> psa_status" where
  "hbs_verdict ret =
    (if ret = SIG_VERIFY_E \<or> ret = WC_OTHER (- 1) then PSA_ERROR_INVALID_SIGNATURE
     else if ret \<noteq> WC_OK then wc_error_to_psa_status ret
     else PSA_SUCCESS)"

definition hbs_lengths_ok :: "byte list \<Rightarrow> inbuf \<Rightarrow> inbuf \<Rightarrow> bool" where
  "hbs_lengths_ok pub msg sig \<longleftrightarrow>
    wolfpsa_check_word32_length (length pub) = PSA_SUCCESS \<and>
    wolfpsa_check_word32_length (in_length msg) = PSA_SUCCESS \<and>
    wolfpsa_check_word32_length (in_length sig) = PSA_SUCCESS"

definition wolfpsa_lms_verify ::
    "wc_device \<Rightarrow> ('l, 'x) hbs_engine \<Rightarrow> byte list \<Rightarrow> inbuf \<Rightarrow> inbuf \<Rightarrow> psa_status" where
  "wolfpsa_lms_verify D E pub msg sig =
    (if \<not> hbs_lengths_ok pub msg sig then PSA_ERROR_INVALID_ARGUMENT
     else
       (case wc_LmsKey_Init E (dev_default D) of
          (r1, key0) \<Rightarrow>
            if r1 \<noteq> WC_OK then wc_error_to_psa_status r1
            else
              (case wc_LmsKey_ImportPubRaw E pub key0 of
                 (r2, key) \<Rightarrow>
                   if r2 \<noteq> WC_OK then wc_error_to_psa_status r2
                   else hbs_verdict (wc_LmsKey_Verify E sig msg (int_cast (in_length msg)) key))))"

text \<open>
  The loop over \<open>is_xmssmt\<close>: an error that ends the function, the imported key, or nothing when
  neither table knows the key.
\<close>

fun xmss_import_loop ::
    "wc_device \<Rightarrow> ('l, 'x) hbs_engine \<Rightarrow> byte list \<Rightarrow> bool list \<Rightarrow> psa_status + 'x option" where
  "xmss_import_loop D E pub [] = Inr None"
| "xmss_import_loop D E pub (is_xmssmt # rest) =
    (case wc_XmssKey_Init E (dev_default D) of
       (r1, key0) \<Rightarrow>
         if r1 \<noteq> WC_OK then Inl (wc_error_to_psa_status r1)
         else
           (case wc_XmssKey_ImportPubRaw_ex E pub is_xmssmt key0 of
              (r2, key) \<Rightarrow>
                if r2 = NOT_COMPILED_IN \<or> r2 = BUFFER_E then xmss_import_loop D E pub rest
                else if r2 \<noteq> WC_OK then Inl (wc_error_to_psa_status r2)
                else Inr (Some key)))"

definition wolfpsa_xmss_verify ::
    "wc_device \<Rightarrow> ('l, 'x) hbs_engine \<Rightarrow> byte list \<Rightarrow> inbuf \<Rightarrow> inbuf \<Rightarrow> psa_status" where
  "wolfpsa_xmss_verify D E pub msg sig =
    (if \<not> hbs_lengths_ok pub msg sig then PSA_ERROR_INVALID_ARGUMENT
     else
       (case xmss_import_loop D E pub [False, True] of
          Inl e \<Rightarrow> e
        | Inr None \<Rightarrow> PSA_ERROR_INVALID_ARGUMENT
        | Inr (Some key) \<Rightarrow> hbs_verdict (wc_XmssKey_Verify E sig msg (int_cast (in_length msg)) key)))"

section \<open>Failures\<close>

lemma ret_size_not_ok [simp]: "ret_size r \<noteq> Inl WC_OK"
  by (simp add: ret_size_def)

lemma mldsa_steps_not_ok [simp]:
  "mldsa_key_init D E n \<noteq> Inl PSA_SUCCESS" "mldsa_expand_seed E d k \<noteq> Inl PSA_SUCCESS"
  "mldsa_load_key E t d k \<noteq> Inl PSA_SUCCESS"
  by (auto simp: mldsa_key_init_def mldsa_expand_seed_def mldsa_load_key_def wc_try_Inl split: option.split)

lemma psa_step_frame [simp]:
  "\<lbrakk>r \<noteq> Inl PSA_SUCCESS; \<And>x. proper (k x)\<rbrakk> \<Longrightarrow> proper (psa_step r k)" "(\<And>x. quiet (k x)) \<Longrightarrow> quiet (psa_step r k)"
  by (auto simp: psa_step_def split: sum.split)

lemma psa_step_Inr: "psa_step r k s = (Inr y, s') \<longleftrightarrow> (\<exists>x. r = Inr x \<and> k x s = (Inr y, s'))"
  by (auto simp: psa_step_def split: sum.split)

lemma mldsa_branches_frame [simp]:
  "proper (mldsa_accept i)" "quiet (mldsa_accept i)"
  "proper (mldsa_sign_message D E a c m out k)" "quiet (mldsa_sign_message D E a c m out k)"
  "proper (mldsa_sign_digest D E a c m out k)" "quiet (mldsa_sign_digest D E a c m out k)"
  by (simp_all add: mldsa_accept_def mldsa_sign_message_def mldsa_sign_digest_def Let_def)

lemma mldsa_sized_frame:
  assumes "proper f" "quiet f"
  shows "proper (case ret_size r of Inl e \<Rightarrow> fail_with (wc_error_to_psa_status e)
      | Inr z \<Rightarrow> if n < z then fail_with PSA_ERROR_BUFFER_TOO_SMALL else f)"
    "quiet (case ret_size r of Inl e \<Rightarrow> fail_with (wc_error_to_psa_status e)
      | Inr z \<Rightarrow> if n < z then fail_with PSA_ERROR_BUFFER_TOO_SMALL else f)"
  using assms ret_size_not_ok [of r] by (auto split: sum.split)

lemma mldsa_frame [simp]:
  "proper (wolfpsa_mldsa_sign D E n d a c m ih out)" "quiet (wolfpsa_mldsa_sign D E n d a c m ih out)"
  "proper (wolfpsa_mldsa_verify D E n t d a c m ih sig)" "quiet (wolfpsa_mldsa_verify D E n t d a c m ih sig)"
  by (simp_all add: wolfpsa_mldsa_sign_def wolfpsa_mldsa_verify_def Let_def mldsa_sized_frame)

section \<open>Verification of a signature made\<close>

definition mldsa_object :: "wc_device \<Rightarrow> 'k mldsa_engine \<Rightarrow> nat \<Rightarrow> byte list \<Rightarrow> 'k \<Rightarrow> bool" where
  "mldsa_object D E n d k \<longleftrightarrow> (\<exists>k0. mldsa_key_init D E n = Inr k0 \<and> mldsa_expand_seed E d k0 = Inr k)"

text \<open>
  The documented behaviour of wolfCrypt's ML-DSA: the signature of an expanded key, hedged or
  deterministic, fits its buffer and is accepted for the same context, input and hash type.
\<close>

definition mldsa_correct :: "wc_device \<Rightarrow> 'k mldsa_engine \<Rightarrow> bool" where
  "mldsa_correct D E \<longleftrightarrow>
    (\<forall>n d k c out m sig. mldsa_object D E n d k \<longrightarrow>
       (\<exists>rng. wc_MlDsaKey_SignCtx E c out m rng k = (WC_OK, sig)) \<or>
       (\<exists>z. wc_MlDsaKey_SignCtxWithSeed E c out m z k = (WC_OK, sig)) \<longrightarrow>
       sig \<noteq> [] \<and> length sig \<le> out_size out \<and> wc_MlDsaKey_VerifyCtx E (In sig) c m k = (WC_OK, 1)) \<and>
    (\<forall>n d k c out m h sig. mldsa_object D E n d k \<longrightarrow>
       (\<exists>rng. wc_MlDsaKey_SignCtxHash E c out m h rng k = (WC_OK, sig)) \<or>
       (\<exists>z. wc_MlDsaKey_SignCtxHashWithSeed E c out m h z k = (WC_OK, sig)) \<longrightarrow>
       sig \<noteq> [] \<and> length sig \<le> out_size out \<and> wc_MlDsaKey_VerifyCtxHash E (In sig) c m h k = (WC_OK, 1))"

lemma mldsa_sign_message_Inr:
  assumes "mldsa_sign_message D E a c m out k s = (Inr sig, s')"
  shows "(a = PSA_ALG_ML_DSA \<or> a = PSA_ALG_DETERMINISTIC_ML_DSA) \<and>
    ((\<exists>rng. wc_MlDsaKey_SignCtx E c out m rng k = (WC_OK, sig)) \<or>
     (\<exists>z. wc_MlDsaKey_SignCtxWithSeed E c out m z k = (WC_OK, sig)))"
  using assms by (auto simp: mldsa_sign_message_def with_rng_Inr wc_step_Inr split: if_splits)

lemma mldsa_sign_digest_Inr:
  assumes "mldsa_sign_digest D E a c m out k s = (Inr sig, s')"
  shows "(PSA_ALG_IS_HASH_ML_DSA a \<or> PSA_ALG_IS_DETERMINISTIC_HASH_ML_DSA a) \<and>
    mldsa_psa_hash_to_wc (PSA_ALG_GET_HASH a) \<noteq> Wc_Hash WC_HASH_TYPE_NONE \<and>
    ((\<exists>rng. wc_MlDsaKey_SignCtxHash E c out m (mldsa_psa_hash_to_wc (PSA_ALG_GET_HASH a)) rng k = (WC_OK, sig)) \<or>
     (\<exists>z. wc_MlDsaKey_SignCtxHashWithSeed E c out m (mldsa_psa_hash_to_wc (PSA_ALG_GET_HASH a)) z k = (WC_OK, sig)))"
proof -
  have w: "PSA_ALG_IS_HEDGED_HASH_ML_DSA a \<Longrightarrow> PSA_ALG_IS_HASH_ML_DSA a"
  proof -
    assume "PSA_ALG_IS_HEDGED_HASH_ML_DSA a"
    then have "(a AND NOT 0xff) AND NOT 0x1ff = 0x06004600 AND NOT 0x1ff" by (simp only: PSA_ALG_IS_HEDGED_HASH_ML_DSA_def)
    then show ?thesis by (simp add: PSA_ALG_IS_HASH_ML_DSA_def and.assoc)
  qed
  show ?thesis using assms w by (auto simp: mldsa_sign_digest_def Let_def with_rng_Inr wc_step_Inr split: if_splits)
qed

lemma mldsa_roundtrip:
  assumes sg: "wolfpsa_mldsa_sign D E n d a c m ih out s = (Inr sig, s')" and ok: "mldsa_correct D E"
  shows "wolfpsa_mldsa_verify D E n PSA_KEY_TYPE_ML_DSA_KEY_PAIR d a c m ih (In sig) s2 = (Inr (), s2)"
    and "sig \<noteq> []" and "length sig \<le> out_size out"
proof -
  note u = sg [unfolded wolfpsa_mldsa_sign_def]
  have g: "length d = WOLFPSA_MLDSA_SEED_SIZE" "in_length c \<le> 255" "wolfpsa_check_word32_length (in_length m) = PSA_SUCCESS"
    "wolfpsa_check_word32_length (out_size out) = PSA_SUCCESS"
    using u by (auto split: if_splits)
  obtain k0 k where k: "mldsa_key_init D E n = Inr k0" "mldsa_expand_seed E d k0 = Inr k"
    and z: "(case ret_size (wc_MlDsaKey_SigSize E k) of
        Inl e \<Rightarrow> fail_with (wc_error_to_psa_status e)
      | Inr z \<Rightarrow> if out_size out < z then fail_with PSA_ERROR_BUFFER_TOO_SMALL
          else if \<not> ih then mldsa_sign_message D E a (mldsa_ctx c) m out k
          else mldsa_sign_digest D E a (mldsa_ctx c) m out k) s = (Inr sig, s')"
    using u g by (auto simp: psa_step_Inr)
  have r: "(if \<not> ih then mldsa_sign_message D E a (mldsa_ctx c) m out k
       else mldsa_sign_digest D E a (mldsa_ctx c) m out k) s = (Inr sig, s')"
    using z by (cases "ret_size (wc_MlDsaKey_SigSize E k)") (auto split: if_splits)
  have o: "mldsa_object D E n d k" using k by (auto simp: mldsa_object_def)
  have g32: "wolfpsa_check_word32_length 32 = PSA_SUCCESS" by (simp add: wolfpsa_check_word32_length_def)
  have fits: "length sig \<le> out_size out \<Longrightarrow> wolfpsa_check_word32_length (length sig) = PSA_SUCCESS"
    using g(4) by (auto simp: wolfpsa_check_word32_length_def split: if_splits)
  note facts = wolfpsa_mldsa_verify_def mldsa_load_key_def psa_step_def mldsa_accept_def give_def Let_def k g(1,3,4) g32
  have "wolfpsa_mldsa_verify D E n PSA_KEY_TYPE_ML_DSA_KEY_PAIR d a c m ih (In sig) s2 = (Inr (), s2) \<and>
    sig \<noteq> [] \<and> length sig \<le> out_size out"
  proof (cases ih)
    case False
    then have m: "mldsa_sign_message D E a (mldsa_ctx c) m out k s = (Inr sig, s')" using r by simp
    note M = mldsa_sign_message_Inr [OF m]
    note V = ok [unfolded mldsa_correct_def, THEN conjunct1, rule_format, OF o conjunct2 [OF M]]
    show ?thesis using False M V fits g(2) by (auto simp: facts)
  next
    case True
    then have m: "mldsa_sign_digest D E a (mldsa_ctx c) m out k s = (Inr sig, s')" using r by simp
    note M = mldsa_sign_digest_Inr [OF m]
    note V = ok [unfolded mldsa_correct_def, THEN conjunct2, rule_format, OF o conjunct2 [OF conjunct2 [OF M]]]
    show ?thesis using True M V fits g(2) by (auto simp: facts)
  qed
  then show "wolfpsa_mldsa_verify D E n PSA_KEY_TYPE_ML_DSA_KEY_PAIR d a c m ih (In sig) s2 = (Inr (), s2)"
    and "sig \<noteq> []" and "length sig \<le> out_size out" by simp_all
qed

section \<open>The family of an XMSS key\<close>

text \<open>
  A key that the single-tree table can read is always verified as a single-tree key: the
  multi-tree table is asked only when the first import fails with \<open>NOT_COMPILED_IN\<close> or \<open>BUFFER_E\<close>.
\<close>

lemma xmss_verify_single_tree:
  assumes "wc_XmssKey_Init E (dev_default D) = (WC_OK, k0)" and "wc_XmssKey_ImportPubRaw_ex E pub False k0 = (WC_OK, k)"
    and "hbs_lengths_ok pub msg sig"
  shows "wolfpsa_xmss_verify D E pub msg sig = hbs_verdict (wc_XmssKey_Verify E sig msg (int_cast (in_length msg)) k)"
  using assms by (simp add: wolfpsa_xmss_verify_def)

end
