(* ===== verification/Asym_Api.thy ===== *)
theory Asym_Api
  imports Asym_Ecc Asym_Rsa Asym_Ed Asym_Pqc
begin

text \<open>
  The asymmetric part of the API, \<open>src/psa_asymmetric_api.c\<close>: signatures and verification of hashes
  and messages, with and without a context, and asymmetric encryption. Each function loads the
  key, checks its policy, checks the context, and dispatches on the key type to a back end.

  On success a function gives the bytes it stored and the length it wrote; on failure the
  contents of the output buffer are not described.
\<close>

unbundle bit_operations_syntax

record ('e, 'r, 'd, 'f, 'k, 'l, 'x, 'hh) asym_engine =
  as_dev :: wc_device
  as_ecc :: "'e ecc_engine"
  as_rsa :: "'r rsa_engine"
  as_ed25519 :: "'d ed_engine"
  as_ed448 :: "'f ed_engine"
  as_mldsa :: "'k mldsa_engine"
  as_hbs :: "('l, 'x) hbs_engine"
  as_hash :: "'hh hash_engine"

section \<open>Context and size of the signature\<close>

definition wolfpsa_check_context :: "psa_algorithm_t \<Rightarrow> inbuf \<Rightarrow> psa_status" where
  "wolfpsa_check_context a context =
    (if in_length context > 255 then PSA_ERROR_INVALID_ARGUMENT
     else if in_length context = 0 then PSA_SUCCESS
     else if a = PSA_ALG_EDDSA_CTX \<or> a = PSA_ALG_ED25519PH \<or> a = PSA_ALG_ED448PH then PSA_SUCCESS
     else if PSA_ALG_IS_ML_DSA a \<or> PSA_ALG_IS_HASH_ML_DSA a \<or> PSA_ALG_IS_DETERMINISTIC_HASH_ML_DSA a
       then PSA_SUCCESS
     else PSA_ERROR_INVALID_ARGUMENT)"

definition wolfpsa_sign_output_size :: "psa_key_type_t \<Rightarrow> nat \<Rightarrow> psa_algorithm_t \<Rightarrow> nat" where
  "wolfpsa_sign_output_size key_type key_bits a = PSA_SIGN_OUTPUT_SIZE key_type key_bits a"

definition is_lms_type :: "psa_key_type_t \<Rightarrow> bool" where
  "is_lms_type t \<longleftrightarrow> t = PSA_KEY_TYPE_LMS_PUBLIC_KEY \<or> t = PSA_KEY_TYPE_HSS_PUBLIC_KEY"

definition is_xmss_type :: "psa_key_type_t \<Rightarrow> bool" where
  "is_xmss_type t \<longleftrightarrow> t = PSA_KEY_TYPE_XMSS_PUBLIC_KEY \<or> t = PSA_KEY_TYPE_XMSS_MT_PUBLIC_KEY"

section \<open>Dispatch\<close>

text \<open>The last part of the workers: RSA, Edwards and Weierstrass keys.\<close>

definition sign_dispatch ::
    "build \<Rightarrow> ('e, 'r, 'd, 'f, 'k, 'l, 'x, 'hh) asym_engine \<Rightarrow> psa_key_attributes_t \<Rightarrow> byte list \<Rightarrow> psa_algorithm_t \<Rightarrow>
     inbuf \<Rightarrow> inbuf \<Rightarrow> outbuf \<Rightarrow> (byte list, 'st) asym_run" where
  "sign_dispatch b A attrs d a hash context signature =
    (let t = type attrs; n = unat (bits attrs); D = as_dev A in
     if PSA_KEY_TYPE_IS_RSA t then psa_asymmetric_sign_rsa D (as_rsa A) t d a hash signature
     else if t = ed_pair_type then
       (if n = 255 then psa_asymmetric_sign_ed25519 D (as_ed25519 A) t n d a hash signature context
        else if n = 448 then psa_asymmetric_sign_ed448 D (as_ed448 A) t n d a hash signature context
        else fail_with PSA_ERROR_NOT_SUPPORTED)
     else if PSA_KEY_TYPE_IS_ECC t then psa_asymmetric_sign_ecc b D (as_ecc A) t n d a hash signature
     else fail_with PSA_ERROR_NOT_SUPPORTED)"

definition verify_dispatch ::
    "build \<Rightarrow> ('e, 'r, 'd, 'f, 'k, 'l, 'x, 'hh) asym_engine \<Rightarrow> psa_key_attributes_t \<Rightarrow> byte list \<Rightarrow> psa_algorithm_t \<Rightarrow>
     inbuf \<Rightarrow> inbuf \<Rightarrow> inbuf \<Rightarrow> (unit, 'st) asym_run" where
  "verify_dispatch b A attrs d a hash context signature =
    (let t = type attrs; n = unat (bits attrs); D = as_dev A in
     if PSA_KEY_TYPE_IS_RSA t then psa_asymmetric_verify_rsa D (as_rsa A) t d a hash signature
     else if t = ed_pair_type \<or> t = ed_public_type then
       (if n = 255 then psa_asymmetric_verify_ed25519 D (as_ed25519 A) t n d a hash signature context
        else if n = 448 then psa_asymmetric_verify_ed448 D (as_ed448 A) t n d a hash signature context
        else fail_with PSA_ERROR_NOT_SUPPORTED)
     else if PSA_KEY_TYPE_IS_ECC t then psa_asymmetric_verify_ecc b D (as_ecc A) t n d a hash signature
     else fail_with PSA_ERROR_NOT_SUPPORTED)"

text \<open>Pure EdDSA: the message goes to the back end as it is.\<close>

definition eddsa_sign_message ::
    "('e, 'r, 'd, 'f, 'k, 'l, 'x, 'hh) asym_engine \<Rightarrow> psa_key_attributes_t \<Rightarrow> byte list \<Rightarrow> psa_algorithm_t \<Rightarrow>
     inbuf \<Rightarrow> inbuf \<Rightarrow> outbuf \<Rightarrow> (byte list, 'st) asym_run" where
  "eddsa_sign_message A attrs d a input context signature =
    (let t = type attrs; n = unat (bits attrs); D = as_dev A in
     if n = 255 then psa_asymmetric_sign_ed25519 D (as_ed25519 A) t n d a input signature context
     else if n = 448 then psa_asymmetric_sign_ed448 D (as_ed448 A) t n d a input signature context
     else fail_with PSA_ERROR_NOT_SUPPORTED)"

definition eddsa_verify_message ::
    "('e, 'r, 'd, 'f, 'k, 'l, 'x, 'hh) asym_engine \<Rightarrow> psa_key_attributes_t \<Rightarrow> byte list \<Rightarrow> psa_algorithm_t \<Rightarrow>
     inbuf \<Rightarrow> inbuf \<Rightarrow> inbuf \<Rightarrow> (unit, 'st) asym_run" where
  "eddsa_verify_message A attrs d a input context signature =
    (let t = type attrs; n = unat (bits attrs); D = as_dev A in
     if n = 255 then psa_asymmetric_verify_ed25519 D (as_ed25519 A) t n d a input signature context
     else if n = 448 then psa_asymmetric_verify_ed448 D (as_ed448 A) t n d a input signature context
     else fail_with PSA_ERROR_NOT_SUPPORTED)"

section \<open>Signing a hash\<close>

text \<open>After the key is loaded and its policy checked.\<close>

definition sign_hash_loaded ::
    "build \<Rightarrow> ('e, 'r, 'd, 'f, 'k, 'l, 'x, 'hh) asym_engine \<Rightarrow> psa_key_attributes_t \<Rightarrow> byte list \<Rightarrow> psa_algorithm_t \<Rightarrow>
     inbuf \<Rightarrow> inbuf \<Rightarrow> outbuf \<Rightarrow> (byte list, 'st) asym_run" where
  "sign_hash_loaded b A attrs d a hash context signature =
    (let t = type attrs; n = unat (bits attrs); sig_size = wolfpsa_sign_output_size t n a in
     if wolfpsa_check_context a context \<noteq> PSA_SUCCESS then fail_with (wolfpsa_check_context a context)
     else if PSA_KEY_TYPE_IS_ML_DSA t then
       (if PSA_ALG_IS_ML_DSA a then fail_with PSA_ERROR_INVALID_ARGUMENT
        else if PSA_ALG_IS_HASH_ML_DSA a \<or> PSA_ALG_IS_DETERMINISTIC_HASH_ML_DSA a then
          (if t \<noteq> PSA_KEY_TYPE_ML_DSA_KEY_PAIR then fail_with PSA_ERROR_INVALID_ARGUMENT
           else wolfpsa_mldsa_sign (as_dev A) (as_mldsa A) n d a context hash True signature)
        else fail_with PSA_ERROR_INVALID_ARGUMENT)
     else if \<not> PSA_ALG_IS_SIGN_HASH a then fail_with PSA_ERROR_INVALID_ARGUMENT
     else if is_lms_type t then fail_with PSA_ERROR_INVALID_ARGUMENT
     else if is_xmss_type t then fail_with PSA_ERROR_INVALID_ARGUMENT
     else if sig_size \<noteq> 0 \<and> out_size signature < sig_size then fail_with PSA_ERROR_BUFFER_TOO_SMALL
     else sign_dispatch b A attrs d a hash context signature)"

text \<open>The status, the bytes and the length that a signing function leaves.\<close>

fun sign_out ::
    "nat option \<Rightarrow> (psa_status + byte list) \<times> 'st key_store \<Rightarrow> psa_status \<times> byte list \<times> nat option \<times> 'st key_store" where
  "sign_out len (Inl e, s) = (e, [], len, s)"
| "sign_out len (Inr sig, s) = (PSA_SUCCESS, sig, Some (length sig), s)"

definition wolfpsa_sign_hash_worker ::
    "('st, 'h) psa_env \<Rightarrow> ('e, 'r, 'd, 'f, 'k, 'l, 'x, 'hh) asym_engine \<Rightarrow> psa_key_id_t \<Rightarrow> psa_algorithm_t \<Rightarrow> inbuf \<Rightarrow>
     inbuf \<Rightarrow> outbuf \<Rightarrow> nat option \<Rightarrow> 'st key_store \<Rightarrow> psa_status \<times> byte list \<times> nat option \<times> 'st key_store" where
  "wolfpsa_sign_hash_worker env A key a hash context signature len0 s =
    (let len = wolfpsa_clear_length len0 in
     if len = None then (PSA_ERROR_INVALID_ARGUMENT, [], len, s)
     else if in_null hash then (PSA_ERROR_INVALID_ARGUMENT, [], len, s)
     else if out_null signature \<and> out_size signature \<noteq> 0 then (PSA_ERROR_INVALID_ARGUMENT, [], len, s)
     else
       (case wolfpsa_asymmetric_check_key env key PSA_KEY_USAGE_SIGN_HASH a s of
          (Inl status, s1) \<Rightarrow> (status, [], len, s1)
        | (Inr (attrs, d), s1) \<Rightarrow>
            sign_out len (sign_hash_loaded (env_build env) A attrs d a hash context signature s1)))"

section \<open>Verifying a hash\<close>

definition verify_hash_loaded ::
    "build \<Rightarrow> ('e, 'r, 'd, 'f, 'k, 'l, 'x, 'hh) asym_engine \<Rightarrow> psa_key_attributes_t \<Rightarrow> byte list \<Rightarrow> psa_algorithm_t \<Rightarrow>
     inbuf \<Rightarrow> inbuf \<Rightarrow> inbuf \<Rightarrow> (unit, 'st) asym_run" where
  "verify_hash_loaded b A attrs d a hash context signature =
    (let t = type attrs; n = unat (bits attrs) in
     if in_length signature = 0 then fail_with PSA_ERROR_INVALID_SIGNATURE
     else if wolfpsa_check_context a context \<noteq> PSA_SUCCESS then fail_with (wolfpsa_check_context a context)
     else if PSA_KEY_TYPE_IS_ML_DSA t then
       (if PSA_ALG_IS_ML_DSA a then fail_with PSA_ERROR_INVALID_ARGUMENT
        else if PSA_ALG_IS_HASH_ML_DSA a \<or> PSA_ALG_IS_DETERMINISTIC_HASH_ML_DSA a then
          wolfpsa_mldsa_verify (as_dev A) (as_mldsa A) n t d a context hash True signature
        else fail_with PSA_ERROR_INVALID_ARGUMENT)
     else if \<not> PSA_ALG_IS_SIGN_HASH a then fail_with PSA_ERROR_INVALID_ARGUMENT
     else if is_lms_type t then fail_with PSA_ERROR_INVALID_ARGUMENT
     else if is_xmss_type t then fail_with PSA_ERROR_INVALID_ARGUMENT
     else verify_dispatch b A attrs d a hash context signature)"

fun verify_out :: "(psa_status + unit) \<times> 'st key_store \<Rightarrow> psa_status \<times> 'st key_store" where
  "verify_out (r, s) = (run_status r, s)"

definition wolfpsa_verify_hash_worker ::
    "('st, 'h) psa_env \<Rightarrow> ('e, 'r, 'd, 'f, 'k, 'l, 'x, 'hh) asym_engine \<Rightarrow> psa_key_id_t \<Rightarrow> psa_algorithm_t \<Rightarrow> inbuf \<Rightarrow>
     inbuf \<Rightarrow> inbuf \<Rightarrow> 'st key_store \<Rightarrow> psa_status \<times> 'st key_store" where
  "wolfpsa_verify_hash_worker env A key a hash context signature s =
    (if in_null hash \<and> in_length hash \<noteq> 0 then (PSA_ERROR_INVALID_ARGUMENT, s)
     else if in_null signature \<and> in_length signature \<noteq> 0 then (PSA_ERROR_INVALID_ARGUMENT, s)
     else
       (case wolfpsa_asymmetric_check_key env key PSA_KEY_USAGE_VERIFY_HASH a s of
          (Inl status, s1) \<Rightarrow> (status, s1)
        | (Inr (attrs, d), s1) \<Rightarrow>
            verify_out (verify_hash_loaded (env_build env) A attrs d a hash context signature s1)))"

definition psa_sign_hash ::
    "('st, 'h) psa_env \<Rightarrow> ('e, 'r, 'd, 'f, 'k, 'l, 'x, 'hh) asym_engine \<Rightarrow> psa_key_id_t \<Rightarrow> psa_algorithm_t \<Rightarrow> inbuf \<Rightarrow>
     outbuf \<Rightarrow> nat option \<Rightarrow> 'st key_store \<Rightarrow> psa_status \<times> byte list \<times> nat option \<times> 'st key_store" where
  "psa_sign_hash env A key a hash signature len s =
    wolfpsa_sign_hash_worker env A key a hash (NullIn 0) signature len s"

definition psa_verify_hash ::
    "('st, 'h) psa_env \<Rightarrow> ('e, 'r, 'd, 'f, 'k, 'l, 'x, 'hh) asym_engine \<Rightarrow> psa_key_id_t \<Rightarrow> psa_algorithm_t \<Rightarrow> inbuf \<Rightarrow>
     inbuf \<Rightarrow> 'st key_store \<Rightarrow> psa_status \<times> 'st key_store" where
  "psa_verify_hash env A key a hash signature s =
    wolfpsa_verify_hash_worker env A key a hash (NullIn 0) signature s"

definition psa_sign_hash_with_context ::
    "('st, 'h) psa_env \<Rightarrow> ('e, 'r, 'd, 'f, 'k, 'l, 'x, 'hh) asym_engine \<Rightarrow> psa_key_id_t \<Rightarrow> psa_algorithm_t \<Rightarrow> inbuf \<Rightarrow>
     inbuf \<Rightarrow> outbuf \<Rightarrow> nat option \<Rightarrow> 'st key_store \<Rightarrow> psa_status \<times> byte list \<times> nat option \<times> 'st key_store" where
  "psa_sign_hash_with_context env A key a hash context signature len s =
    wolfpsa_sign_hash_worker env A key a hash context signature len s"

definition psa_verify_hash_with_context ::
    "('st, 'h) psa_env \<Rightarrow> ('e, 'r, 'd, 'f, 'k, 'l, 'x, 'hh) asym_engine \<Rightarrow> psa_key_id_t \<Rightarrow> psa_algorithm_t \<Rightarrow> inbuf \<Rightarrow>
     inbuf \<Rightarrow> inbuf \<Rightarrow> 'st key_store \<Rightarrow> psa_status \<times> 'st key_store" where
  "psa_verify_hash_with_context env A key a hash context signature s =
    wolfpsa_verify_hash_worker env A key a hash context signature s"

section \<open>Signing a message\<close>

text \<open>The hash of a message in a local buffer.\<close>

definition hash_step ::
    "('st, 'h) psa_env \<Rightarrow> 'hh hash_engine \<Rightarrow> psa_algorithm_t \<Rightarrow> inbuf \<Rightarrow> (inbuf \<Rightarrow> ('b, 'st) asym_run) \<Rightarrow> ('b, 'st) asym_run" where
  "hash_step env H h input k s =
    (case psa_hash_compute env H h input (Out WOLFPSA_HASH_MAX_SIZE) (Some 0) s of
       (status, bs, len, s1) \<Rightarrow> if status \<noteq> PSA_SUCCESS then fail_with status s1 else k (In bs) s1)"

text \<open>The digest that is signed: the input itself for raw RSA, its hash otherwise.\<close>

definition message_digest ::
    "('st, 'h) psa_env \<Rightarrow> 'hh hash_engine \<Rightarrow> psa_algorithm_t \<Rightarrow> inbuf \<Rightarrow> (inbuf \<Rightarrow> ('b, 'st) asym_run) \<Rightarrow> ('b, 'st) asym_run" where
  "message_digest env H a input k =
    (if a = PSA_ALG_RSA_PKCS1V15_SIGN_RAW then
       (if in_length input > WOLFPSA_HASH_MAX_SIZE then fail_with PSA_ERROR_INVALID_ARGUMENT
        else k (In (in_bytes input)))
     else if PSA_ALG_SIGN_GET_HASH a = 0 then fail_with PSA_ERROR_NOT_SUPPORTED
     else hash_step env H (PSA_ALG_SIGN_GET_HASH a) input k)"

definition sign_message_loaded ::
    "('st, 'h) psa_env \<Rightarrow> ('e, 'r, 'd, 'f, 'k, 'l, 'x, 'hh) asym_engine \<Rightarrow> psa_key_attributes_t \<Rightarrow> byte list \<Rightarrow>
     psa_algorithm_t \<Rightarrow> inbuf \<Rightarrow> inbuf \<Rightarrow> outbuf \<Rightarrow> (byte list, 'st) asym_run" where
  "sign_message_loaded env A attrs d a input context signature =
    (let t = type attrs; n = unat (bits attrs); sig_size = wolfpsa_sign_output_size t n a in
     if wolfpsa_check_context a context \<noteq> PSA_SUCCESS then fail_with (wolfpsa_check_context a context)
     else if sig_size \<noteq> 0 \<and> out_size signature < sig_size then fail_with PSA_ERROR_BUFFER_TOO_SMALL
     else if PSA_KEY_TYPE_IS_ML_DSA t then
       (if \<not> PSA_ALG_IS_ML_DSA a \<and> \<not> PSA_ALG_IS_HASH_ML_DSA a \<and> \<not> PSA_ALG_IS_DETERMINISTIC_HASH_ML_DSA a
          then fail_with PSA_ERROR_INVALID_ARGUMENT
        else if t \<noteq> PSA_KEY_TYPE_ML_DSA_KEY_PAIR then fail_with PSA_ERROR_INVALID_ARGUMENT
        else if PSA_ALG_IS_ML_DSA a
          then wolfpsa_mldsa_sign (as_dev A) (as_mldsa A) n d a context input False signature
        else hash_step env (as_hash A) (PSA_ALG_GET_HASH a) input (\<lambda>hash.
          wolfpsa_mldsa_sign (as_dev A) (as_mldsa A) n d a context hash True signature))
     else if is_lms_type t then fail_with PSA_ERROR_INVALID_ARGUMENT
     else if is_xmss_type t then fail_with PSA_ERROR_INVALID_ARGUMENT
     else if (a = PSA_ALG_PURE_EDDSA \<or> a = PSA_ALG_EDDSA_CTX) \<and> t = ed_pair_type
       then eddsa_sign_message A attrs d a input context signature
     else message_digest env (as_hash A) a input (\<lambda>hash.
       sign_dispatch (env_build env) A attrs d a hash context signature))"

definition wolfpsa_sign_message_worker ::
    "('st, 'h) psa_env \<Rightarrow> ('e, 'r, 'd, 'f, 'k, 'l, 'x, 'hh) asym_engine \<Rightarrow> psa_key_id_t \<Rightarrow> psa_algorithm_t \<Rightarrow> inbuf \<Rightarrow>
     inbuf \<Rightarrow> outbuf \<Rightarrow> nat option \<Rightarrow> 'st key_store \<Rightarrow> psa_status \<times> byte list \<times> nat option \<times> 'st key_store" where
  "wolfpsa_sign_message_worker env A key a input context signature len0 s =
    (let len = wolfpsa_clear_length len0 in
     if len = None then (PSA_ERROR_INVALID_ARGUMENT, [], len, s)
     else if in_null input then (PSA_ERROR_INVALID_ARGUMENT, [], len, s)
     else if out_null signature \<and> out_size signature \<noteq> 0 then (PSA_ERROR_INVALID_ARGUMENT, [], len, s)
     else
       (case wolfpsa_asymmetric_check_key env key PSA_KEY_USAGE_SIGN_MESSAGE a s of
          (Inl status, s1) \<Rightarrow> (status, [], len, s1)
        | (Inr (attrs, d), s1) \<Rightarrow>
            sign_out len (sign_message_loaded env A attrs d a input context signature s1)))"

section \<open>Verifying a message\<close>

definition status_run :: "psa_status \<Rightarrow> (unit, 'st) asym_run" where
  "status_run status = (if status = PSA_SUCCESS then give () else fail_with status)"

definition verify_message_loaded ::
    "('st, 'h) psa_env \<Rightarrow> ('e, 'r, 'd, 'f, 'k, 'l, 'x, 'hh) asym_engine \<Rightarrow> psa_key_attributes_t \<Rightarrow> byte list \<Rightarrow>
     psa_algorithm_t \<Rightarrow> inbuf \<Rightarrow> inbuf \<Rightarrow> inbuf \<Rightarrow> (unit, 'st) asym_run" where
  "verify_message_loaded env A attrs d a input context signature =
    (let t = type attrs; n = unat (bits attrs); D = as_dev A in
     if in_length signature = 0 then fail_with PSA_ERROR_INVALID_SIGNATURE
     else if wolfpsa_check_context a context \<noteq> PSA_SUCCESS then fail_with (wolfpsa_check_context a context)
     else if PSA_KEY_TYPE_IS_ML_DSA t then
       (if \<not> PSA_ALG_IS_ML_DSA a \<and> \<not> PSA_ALG_IS_HASH_ML_DSA a \<and> \<not> PSA_ALG_IS_DETERMINISTIC_HASH_ML_DSA a
          then fail_with PSA_ERROR_INVALID_ARGUMENT
        else if PSA_ALG_IS_ML_DSA a
          then wolfpsa_mldsa_verify D (as_mldsa A) n t d a context input False signature
        else hash_step env (as_hash A) (PSA_ALG_GET_HASH a) input (\<lambda>hash.
          wolfpsa_mldsa_verify D (as_mldsa A) n t d a context hash True signature))
     else if t = PSA_KEY_TYPE_LMS_PUBLIC_KEY then
       (if a \<noteq> PSA_ALG_LMS then fail_with PSA_ERROR_INVALID_ARGUMENT
        else status_run (wolfpsa_lms_verify D (as_hbs A) d input signature))
     else if t = PSA_KEY_TYPE_HSS_PUBLIC_KEY then
       (if a \<noteq> PSA_ALG_HSS then fail_with PSA_ERROR_INVALID_ARGUMENT
        else status_run (wolfpsa_lms_verify D (as_hbs A) d input signature))
     else if t = PSA_KEY_TYPE_XMSS_PUBLIC_KEY then
       (if a \<noteq> PSA_ALG_XMSS then fail_with PSA_ERROR_INVALID_ARGUMENT
        else status_run (wolfpsa_xmss_verify D (as_hbs A) d input signature))
     else if t = PSA_KEY_TYPE_XMSS_MT_PUBLIC_KEY then
       (if a \<noteq> PSA_ALG_XMSS_MT then fail_with PSA_ERROR_INVALID_ARGUMENT
        else status_run (wolfpsa_xmss_verify D (as_hbs A) d input signature))
     else if (a = PSA_ALG_PURE_EDDSA \<or> a = PSA_ALG_EDDSA_CTX) \<and> (t = ed_pair_type \<or> t = ed_public_type)
       then eddsa_verify_message A attrs d a input context signature
     else message_digest env (as_hash A) a input (\<lambda>hash.
       verify_dispatch (env_build env) A attrs d a hash context signature))"

definition wolfpsa_verify_message_worker ::
    "('st, 'h) psa_env \<Rightarrow> ('e, 'r, 'd, 'f, 'k, 'l, 'x, 'hh) asym_engine \<Rightarrow> psa_key_id_t \<Rightarrow> psa_algorithm_t \<Rightarrow> inbuf \<Rightarrow>
     inbuf \<Rightarrow> inbuf \<Rightarrow> 'st key_store \<Rightarrow> psa_status \<times> 'st key_store" where
  "wolfpsa_verify_message_worker env A key a input context signature s =
    (if in_null input \<and> in_length input \<noteq> 0 then (PSA_ERROR_INVALID_ARGUMENT, s)
     else if in_null signature \<and> in_length signature \<noteq> 0 then (PSA_ERROR_INVALID_ARGUMENT, s)
     else
       (case wolfpsa_asymmetric_check_key env key PSA_KEY_USAGE_VERIFY_MESSAGE a s of
          (Inl status, s1) \<Rightarrow> (status, s1)
        | (Inr (attrs, d), s1) \<Rightarrow> verify_out (verify_message_loaded env A attrs d a input context signature s1)))"

definition psa_sign_message ::
    "('st, 'h) psa_env \<Rightarrow> ('e, 'r, 'd, 'f, 'k, 'l, 'x, 'hh) asym_engine \<Rightarrow> psa_key_id_t \<Rightarrow> psa_algorithm_t \<Rightarrow> inbuf \<Rightarrow>
     outbuf \<Rightarrow> nat option \<Rightarrow> 'st key_store \<Rightarrow> psa_status \<times> byte list \<times> nat option \<times> 'st key_store" where
  "psa_sign_message env A key a input signature len s =
    wolfpsa_sign_message_worker env A key a input (NullIn 0) signature len s"

definition psa_verify_message ::
    "('st, 'h) psa_env \<Rightarrow> ('e, 'r, 'd, 'f, 'k, 'l, 'x, 'hh) asym_engine \<Rightarrow> psa_key_id_t \<Rightarrow> psa_algorithm_t \<Rightarrow> inbuf \<Rightarrow>
     inbuf \<Rightarrow> 'st key_store \<Rightarrow> psa_status \<times> 'st key_store" where
  "psa_verify_message env A key a input signature s =
    wolfpsa_verify_message_worker env A key a input (NullIn 0) signature s"

definition psa_sign_message_with_context ::
    "('st, 'h) psa_env \<Rightarrow> ('e, 'r, 'd, 'f, 'k, 'l, 'x, 'hh) asym_engine \<Rightarrow> psa_key_id_t \<Rightarrow> psa_algorithm_t \<Rightarrow> inbuf \<Rightarrow>
     inbuf \<Rightarrow> outbuf \<Rightarrow> nat option \<Rightarrow> 'st key_store \<Rightarrow> psa_status \<times> byte list \<times> nat option \<times> 'st key_store" where
  "psa_sign_message_with_context env A key a input context signature len s =
    wolfpsa_sign_message_worker env A key a input context signature len s"

definition psa_verify_message_with_context ::
    "('st, 'h) psa_env \<Rightarrow> ('e, 'r, 'd, 'f, 'k, 'l, 'x, 'hh) asym_engine \<Rightarrow> psa_key_id_t \<Rightarrow> psa_algorithm_t \<Rightarrow> inbuf \<Rightarrow>
     inbuf \<Rightarrow> inbuf \<Rightarrow> 'st key_store \<Rightarrow> psa_status \<times> 'st key_store" where
  "psa_verify_message_with_context env A key a input context signature s =
    wolfpsa_verify_message_worker env A key a input context signature s"

section \<open>Asymmetric encryption\<close>

text \<open>The two functions differ in the usage flag and in the RSA function they call.\<close>

definition crypt_entry ::
    "('st, 'h) psa_env \<Rightarrow> psa_key_usage_t \<Rightarrow> psa_key_id_t \<Rightarrow> psa_algorithm_t \<Rightarrow> outbuf \<Rightarrow> nat option \<Rightarrow>
     (psa_key_attributes_t \<Rightarrow> byte list \<Rightarrow> (byte list, 'st) asym_run) \<Rightarrow> 'st key_store \<Rightarrow>
     psa_status \<times> byte list \<times> nat option \<times> 'st key_store" where
  "crypt_entry env u key a output len0 rsa s =
    (let len = wolfpsa_clear_length len0 in
     if len = None then (PSA_ERROR_INVALID_ARGUMENT, [], len, s)
     else
       (case wolfpsa_asymmetric_check_key env key u a s of
          (Inl status, s1) \<Rightarrow> (status, [], len, s1)
        | (Inr (attrs, d), s1) \<Rightarrow>
            sign_out len
              ((if PSA_KEY_TYPE_IS_RSA (type attrs) then
                  (if out_null output \<and> out_size output \<noteq> 0 then fail_with PSA_ERROR_INVALID_ARGUMENT
                   else rsa attrs d)
                else fail_with (if PSA_KEY_TYPE_IS_ASYMMETRIC (type attrs) then PSA_ERROR_NOT_SUPPORTED
                                else PSA_ERROR_INVALID_ARGUMENT)) s1)))"

definition psa_asymmetric_encrypt ::
    "('st, 'h) psa_env \<Rightarrow> ('e, 'r, 'd, 'f, 'k, 'l, 'x, 'hh) asym_engine \<Rightarrow> psa_key_id_t \<Rightarrow> psa_algorithm_t \<Rightarrow> inbuf \<Rightarrow>
     inbuf \<Rightarrow> outbuf \<Rightarrow> nat option \<Rightarrow> 'st key_store \<Rightarrow> psa_status \<times> byte list \<times> nat option \<times> 'st key_store" where
  "psa_asymmetric_encrypt env A key a input salt output len s =
    crypt_entry env PSA_KEY_USAGE_ENCRYPT key a output len (\<lambda>attrs d.
      psa_asymmetric_encrypt_rsa (as_dev A) (as_rsa A) (type attrs) (unat (bits attrs)) d a input salt output) s"

definition psa_asymmetric_decrypt ::
    "('st, 'h) psa_env \<Rightarrow> ('e, 'r, 'd, 'f, 'k, 'l, 'x, 'hh) asym_engine \<Rightarrow> psa_key_id_t \<Rightarrow> psa_algorithm_t \<Rightarrow> inbuf \<Rightarrow>
     inbuf \<Rightarrow> outbuf \<Rightarrow> nat option \<Rightarrow> 'st key_store \<Rightarrow> psa_status \<times> byte list \<times> nat option \<times> 'st key_store" where
  "psa_asymmetric_decrypt env A key a input salt output len s =
    crypt_entry env PSA_KEY_USAGE_DECRYPT key a output len (\<lambda>attrs d.
      psa_asymmetric_decrypt_rsa (as_dev A) (as_rsa A) (type attrs) d a input salt output) s"

end
