(* ===== verification/Asym_Sign.thy ===== *)
theory Asym_Sign
  imports Asym_Api
begin

text \<open>
  What the asymmetric API promises: a signature that was made is accepted, only a key whose policy
  asks for it is used, outputs fit their buffers, RSA verification compares the whole block,
  deterministic ECDSA stays off the device, and decryption undoes encryption.
\<close>

unbundle bit_operations_syntax

section \<open>Failures and frames\<close>

lemma dispatch_frame [simp]:
  "proper (sign_dispatch b A attrs d a h c out)" "quiet (sign_dispatch b A attrs d a h c out)"
  "proper (verify_dispatch b A attrs d a h c sig)" "quiet (verify_dispatch b A attrs d a h c sig)"
  "proper (eddsa_sign_message A attrs d a h c out)" "quiet (eddsa_sign_message A attrs d a h c out)"
  "proper (eddsa_verify_message A attrs d a h c sig)" "quiet (eddsa_verify_message A attrs d a h c sig)"
  by (simp_all add: sign_dispatch_def verify_dispatch_def eddsa_sign_message_def eddsa_verify_message_def Let_def)

lemma hash_loaded_frame [simp]:
  "proper (sign_hash_loaded b A attrs d a h c out)" "quiet (sign_hash_loaded b A attrs d a h c out)"
  "proper (verify_hash_loaded b A attrs d a h c sig)" "quiet (verify_hash_loaded b A attrs d a h c sig)"
  by (simp_all add: sign_hash_loaded_def verify_hash_loaded_def Let_def)

section \<open>Signing and verifying with one key\<close>

text \<open>What is assumed of wolfCrypt, back end by back end.\<close>

definition asym_correct :: "('e, 'r, 'd, 'f, 'k, 'l, 'x, 'hh) asym_engine \<Rightarrow> bool" where
  "asym_correct A \<longleftrightarrow>
    ecc_available (as_dev A) (as_ecc A) \<and> ecc_correct (as_ecc A) \<and> rsa_sign_correct (as_rsa A) \<and>
    ed_correct (as_ed25519 A) \<and> ed_correct (as_ed448 A) \<and> mldsa_correct (as_dev A) (as_mldsa A)"

lemma curve_bits_pos: "wc_psa_get_ecc_curve_id b t n \<noteq> ECC_CURVE_INVALID \<Longrightarrow> PSA_BITS_TO_BYTES n > 0"
  by (auto simp: wc_psa_get_ecc_curve_id_def PSA_BITS_TO_BYTES_def Let_def split: if_splits)

lemma dispatch_roundtrip:
  assumes sg: "sign_dispatch b A attrs d a h c out s = (Inr sig, s')" and ok: "asym_correct A"
    and nn: "\<not> in_null h" and al: "allocs s2 = []"
  shows "verify_dispatch b A attrs d a h c (In sig) s2 = (Inr (), s2)" and "sig \<noteq> []" and "length sig \<le> out_size out"
proof -
  let ?t = "type attrs" and ?n = "unat (bits attrs)" and ?D = "as_dev A"
  note u = sg [unfolded sign_dispatch_def Let_def] and OK = ok [unfolded asym_correct_def]
  have "verify_dispatch b A attrs d a h c (In sig) s2 = (Inr (), s2) \<and> sig \<noteq> [] \<and> length sig \<le> out_size out"
  proof -
    consider "PSA_KEY_TYPE_IS_RSA ?t" "psa_asymmetric_sign_rsa ?D (as_rsa A) ?t d a h out s = (Inr sig, s')"
      | "\<not> PSA_KEY_TYPE_IS_RSA ?t" "?t = ed_pair_type" "?n = 255"
        "psa_asymmetric_sign_ed25519 ?D (as_ed25519 A) ?t ?n d a h out c s = (Inr sig, s')"
      | "\<not> PSA_KEY_TYPE_IS_RSA ?t" "?t = ed_pair_type" "?n = 448"
        "psa_asymmetric_sign_ed448 ?D (as_ed448 A) ?t ?n d a h out c s = (Inr sig, s')"
      | "\<not> PSA_KEY_TYPE_IS_RSA ?t" "?t \<noteq> ed_pair_type" "PSA_KEY_TYPE_IS_ECC ?t"
        "psa_asymmetric_sign_ecc b ?D (as_ecc A) ?t ?n d a h out s = (Inr sig, s')"
      using u by (auto split: if_splits)
    then show ?thesis
    proof cases
      case 1
      then show ?thesis using rsa_roundtrip [OF 1(2) _ nn] OK by (simp add: verify_dispatch_def Let_def)
    next
      case 2
      then show ?thesis using ed25519_roundtrip [OF 2(4)] OK by (simp add: verify_dispatch_def Let_def)
    next
      case 3
      then show ?thesis using ed448_roundtrip [OF 3(4)] OK by (simp add: verify_dispatch_def Let_def)
    next
      case 4
      have "PSA_KEY_TYPE_IS_ECC_KEY_PAIR ?t" and cv: "wc_psa_get_ecc_curve_id b ?t ?n \<noteq> ECC_CURVE_INVALID"
        by (rule sign_ecc_Inr [OF 4(4)]; assumption)+
      then have "?t \<noteq> ed_public_type" by (auto simp: psa_defs)
      moreover have p: "PSA_BITS_TO_BYTES ?n > 0" using cv by (rule curve_bits_pos)
      moreover have "sig \<noteq> []" using sign_ecc_length(1) [OF 4(4)] p by auto
      ultimately show ?thesis using 4 ecc_roundtrip [OF 4(4)] sign_ecc_length(2) [OF 4(4)] OK al
        by (simp add: verify_dispatch_def Let_def)
    qed
  qed
  then show "verify_dispatch b A attrs d a h c (In sig) s2 = (Inr (), s2)" and "sig \<noteq> []" and "length sig \<le> out_size out"
    by simp_all
qed

lemma hash_loaded_roundtrip:
  assumes sg: "sign_hash_loaded b A attrs d a h c out s = (Inr sig, s')" and ok: "asym_correct A"
    and nn: "\<not> in_null h" and al: "allocs s2 = []"
  shows "verify_hash_loaded b A attrs d a h c (In sig) s2 = (Inr (), s2)" and "sig \<noteq> []" and "length sig \<le> out_size out"
proof -
  note u = sg [unfolded sign_hash_loaded_def Let_def]
  have "verify_hash_loaded b A attrs d a h c (In sig) s2 = (Inr (), s2) \<and> sig \<noteq> [] \<and> length sig \<le> out_size out"
  proof (cases "PSA_KEY_TYPE_IS_ML_DSA (type attrs)")
    case True
    have g: "wolfpsa_check_context a c = PSA_SUCCESS" "\<not> PSA_ALG_IS_ML_DSA a" "type attrs = PSA_KEY_TYPE_ML_DSA_KEY_PAIR"
      "PSA_ALG_IS_HASH_ML_DSA a \<or> PSA_ALG_IS_DETERMINISTIC_HASH_ML_DSA a"
      and m: "wolfpsa_mldsa_sign (as_dev A) (as_mldsa A) (unat (bits attrs)) d a c h True out s = (Inr sig, s')"
      using u True by (auto split: if_splits)
    show ?thesis using True g mldsa_roundtrip [OF m] ok by (simp add: verify_hash_loaded_def asym_correct_def)
  next
    case False
    have g: "wolfpsa_check_context a c = PSA_SUCCESS" "PSA_ALG_IS_SIGN_HASH a" "\<not> is_lms_type (type attrs)"
      "\<not> is_xmss_type (type attrs)" and m: "sign_dispatch b A attrs d a h c out s = (Inr sig, s')"
      using u False by (auto split: if_splits)
    show ?thesis using False g dispatch_roundtrip [OF m ok nn al] by (simp add: verify_hash_loaded_def)
  qed
  then show "verify_hash_loaded b A attrs d a h c (In sig) s2 = (Inr (), s2)" and "sig \<noteq> []" and "length sig \<le> out_size out"
    by simp_all
qed

section \<open>Policies\<close>

text \<open>The other usages admit at least what signing and encryption do.\<close>

lemma sign_permitted_verify:
  assumes "wolfpsa_asymmetric_alg_permitted p a u" and "u \<in> {PSA_KEY_USAGE_SIGN_HASH, PSA_KEY_USAGE_SIGN_MESSAGE, PSA_KEY_USAGE_ENCRYPT}"
  shows "wolfpsa_asymmetric_alg_permitted p a v"
proof -
  have z: "u AND (PSA_KEY_USAGE_VERIFY_HASH OR PSA_KEY_USAGE_VERIFY_MESSAGE) = 0" using assms(2) by auto
  have "wolfpsa_sign_alg_permitted p a u \<Longrightarrow> wolfpsa_sign_alg_permitted p a v"
    unfolding wolfpsa_sign_alg_permitted_def z by (simp split: if_split_asm)
  with assms(1) show ?thesis by (simp add: wolfpsa_asymmetric_alg_permitted_def split: if_split_asm)
qed

text \<open>
  Which requests an algorithm of a policy grants: itself; a signature algorithm with any hash, the
  same algorithm with each hash; to verify, ECDSA and deterministic ECDSA grant each other with the
  same hash, and so do the two families of HashML-DSA, where any hash grants each hash; a
  key-agreement algorithm what \<open>agreement_policy_allows\<close> says.
\<close>

definition any_hash_grants :: "psa_algorithm_t \<Rightarrow> psa_algorithm_t \<Rightarrow> bool" where
  "any_hash_grants p a \<longleftrightarrow>
    PSA_ALG_IS_SIGN_HASH a \<and> PSA_ALG_SIGN_GET_HASH p = PSA_ALG_ANY_HASH \<and> PSA_ALG_SIGN_GET_HASH a \<noteq> PSA_ALG_ANY_HASH \<and>
    p AND NOT PSA_ALG_HASH_MASK = a AND NOT PSA_ALG_HASH_MASK"

definition verify_grants :: "psa_algorithm_t \<Rightarrow> psa_algorithm_t \<Rightarrow> bool" where
  "verify_grants p a \<longleftrightarrow>
    PSA_ALG_IS_ECDSA p \<and> PSA_ALG_IS_ECDSA a \<and> PSA_ALG_GET_HASH p = PSA_ALG_GET_HASH a \<and> PSA_ALG_GET_HASH a \<noteq> PSA_ALG_NONE \<or>
    PSA_ALG_IS_HASH_ML_DSA p \<and> PSA_ALG_IS_HASH_ML_DSA a \<and> PSA_ALG_GET_HASH a \<noteq> PSA_ALG_ANY_HASH \<and>
      PSA_ALG_GET_HASH p \<in> {PSA_ALG_ANY_HASH, PSA_ALG_GET_HASH a}"

definition policy_grants :: "psa_algorithm_t \<Rightarrow> psa_key_usage_t \<Rightarrow> psa_algorithm_t \<Rightarrow> bool" where
  "policy_grants p u a \<longleftrightarrow>
    p \<noteq> PSA_ALG_NONE \<and>
    (p = a \<or> any_hash_grants p a \<or>
     u AND (PSA_KEY_USAGE_VERIFY_HASH OR PSA_KEY_USAGE_VERIFY_MESSAGE) \<noteq> 0 \<and> verify_grants p a \<or>
     PSA_ALG_IS_KEY_AGREEMENT a \<and> agreement_policy_allows a p)"

text \<open>A key whose policy has the usage and an algorithm that grants the request.\<close>

definition policy_admits :: "psa_key_attributes_t \<Rightarrow> psa_key_usage_t \<Rightarrow> psa_algorithm_t \<Rightarrow> bool" where
  "policy_admits attrs u a \<longleftrightarrow> usage (policy attrs) AND u = u \<and>
    (\<exists>p \<in> {alg (policy attrs), alg2 (policy attrs)}. policy_grants p u a)"

lemma agreement_alg_apart:
  "PSA_ALG_IS_KEY_AGREEMENT a \<Longrightarrow> \<not> PSA_ALG_IS_SIGN_HASH a \<and> \<not> PSA_ALG_IS_ECDSA a \<and> \<not> PSA_ALG_IS_HASH_ML_DSA a"
proof -
  assume k: "PSA_ALG_IS_KEY_AGREEMENT a"
  have "a AND m \<noteq> c" if "m AND 0x7f000000 = 0x7f000000" "c AND 0x7f000000 \<noteq> 0x09000000" for m c :: psa_algorithm_t
  proof
    assume "a AND m = c"
    then have "a AND (m AND 0x7f000000) = c AND 0x7f000000" by (simp add: and.assoc [symmetric])
    with that k show False by (simp add: psa_defs)
  qed
  with k show ?thesis by (auto simp: psa_defs)
qed

text \<open>The test of the code is this one.\<close>

lemma alg_permitted_iff: "wolfpsa_asymmetric_alg_permitted p a u \<longleftrightarrow> policy_grants p u a"
proof (cases "PSA_ALG_IS_KEY_AGREEMENT a")
  case True
  have e: "agreement_policy_allows a a" using True by (simp add: agreement_policy_allows_def)
  have "p \<noteq> a" if "\<not> PSA_ALG_IS_KEY_AGREEMENT p" using that True by auto
  with True e agreement_alg_apart [OF True] show ?thesis
    by (auto simp: wolfpsa_asymmetric_alg_permitted_def wolfpsa_key_agreement_alg_permitted_def wolfpsa_sign_alg_permitted_def
        policy_grants_def any_hash_grants_def verify_grants_def agreement_policy_allows_def split: if_splits)
next
  case False
  then show ?thesis
    by (auto simp: wolfpsa_asymmetric_alg_permitted_def wolfpsa_sign_alg_permitted_def
        policy_grants_def any_hash_grants_def verify_grants_def)
qed

lemma policy_admits_code:
  "policy_admits attrs u a \<longleftrightarrow> usage (policy attrs) AND u = u \<and>
    (wolfpsa_asymmetric_alg_permitted (alg (policy attrs)) a u \<or> wolfpsa_asymmetric_alg_permitted (alg2 (policy attrs)) a u)"
  by (simp add: policy_admits_def alg_permitted_iff)

text \<open>What a check of the key tells: the key at the id, its usage and its algorithms.\<close>

lemma check_key_Inr:
  "wolfpsa_asymmetric_check_key env k u a s = (Inr (attrs, d), s1) \<longleftrightarrow>
    load_key env k s = (Inr (attrs, d), s1) \<and> policy_admits attrs u a"
  by (auto simp: wolfpsa_asymmetric_check_key_def policy_admits_code psa_get_key_usage_flags_def psa_get_key_algorithm_def
      psa_get_key_enrollment_algorithm_def split: prod.splits sum.splits)

lemma check_key_Inl: "wolfpsa_asymmetric_check_key env k u a s \<noteq> (Inl PSA_SUCCESS, s1)"
  by (auto simp: wolfpsa_asymmetric_check_key_def split: prod.splits sum.splits if_splits)

lemma policy_admits_verify:
  assumes "policy_admits attrs u a" "u \<in> {PSA_KEY_USAGE_SIGN_HASH, PSA_KEY_USAGE_SIGN_MESSAGE, PSA_KEY_USAGE_ENCRYPT}" "usage (policy attrs) AND v = v"
  shows "policy_admits attrs v a"
  using assms sign_permitted_verify by (auto simp: policy_admits_code)

lemma sign_out_success:
  assumes "sign_out len (f s) = (PSA_SUCCESS, sig, len', s')" and "proper f"
  shows "f s = (Inr sig, s')" and "len' = Some (length sig)"
proof -
  obtain r s1 where f: "f s = (r, s1)" by fastforce
  have "r \<noteq> Inl PSA_SUCCESS" using assms(2) f by (metis fst_conv proper_def)
  with assms(1) f show "f s = (Inr sig, s')" "len' = Some (length sig)" by (cases r, auto)+
qed

lemma sign_hash_worker_success:
  assumes "wolfpsa_sign_hash_worker env A k a h c out len s = (PSA_SUCCESS, sig, len', s')"
  obtains attrs d s1 where "load_key env k s = (Inr (attrs, d), s1)" and "policy_admits attrs PSA_KEY_USAGE_SIGN_HASH a"
    and "sign_hash_loaded (env_build env) A attrs d a h c out s1 = (Inr sig, s')" and "len' = Some (length sig)"
    and "\<not> in_null h" and "len \<noteq> None"
proof -
  obtain r s1 where c: "wolfpsa_asymmetric_check_key env k PSA_KEY_USAGE_SIGN_HASH a s = (r, s1)" by fastforce
  note u = assms [unfolded wolfpsa_sign_hash_worker_def Let_def c prod.case]
  have "r \<noteq> Inl PSA_SUCCESS" using check_key_Inl c by metis
  then obtain attrs d where r: "r = Inr (attrs, d)"
    using u by (cases r) (auto split: if_splits)
  have so: "sign_out (wolfpsa_clear_length len) (sign_hash_loaded (env_build env) A attrs d a h c out s1) = (PSA_SUCCESS, sig, len', s')"
    and g: "\<not> in_null h" "wolfpsa_clear_length len \<noteq> None"
    using u r by (auto split: if_splits)
  note S = sign_out_success [OF so hash_loaded_frame(1)]
  have "len \<noteq> None" using g(2) by (auto simp: wolfpsa_clear_length_def)
  with c r S g(1) show ?thesis by (intro that [of attrs d s1]) (simp_all add: check_key_Inr)
qed

section \<open>Messages\<close>

text \<open>The digest of an input does not depend on the state of the library.\<close>

lemma hash_setup_again:
  assumes "psa_hash_setup env H (Some None) h s = (PSA_SUCCESS, op, s1)"
    and "ready (env_build env) s2" "g_psa_crypto_initialized s2" "allocs s2 = []"
  shows "psa_hash_setup env H (Some None) h s2 = (PSA_SUCCESS, op, s2)"
proof -
  have m: "s_xmalloc s2 = (True, s2)" using assms(4) by (cases s2) (simp add: s_xmalloc_def)
  show ?thesis using assms(1-3)
    by (auto simp: psa_hash_setup_def m is_initialized_ready split: prod.splits if_splits option.splits)
qed

lemma hash_compute_again:
  assumes c: "psa_hash_compute env H h x out (Some l) s = (PSA_SUCCESS, bs, len, s1)"
    and r: "ready (env_build env) s2" "g_psa_crypto_initialized s2" "allocs s2 = []"
  shows "psa_hash_compute env H h x out (Some l) s2 = (PSA_SUCCESS, bs, len, s2)"
proof -
  obtain i sa where i: "wolfPSA_CryptoIsInitialized (env_build env) s = (i, sa)" by fastforce
  obtain st op sb where su: "psa_hash_setup env H (Some None) h sa = (st, op, sb)" by (metis prod_cases3)
  have "i" "st = PSA_SUCCESS" using c i su by (auto simp: psa_hash_compute_def Let_def split: if_splits)
  note su' = hash_setup_again [OF su [unfolded this(2)] r]
  show ?thesis using c i su \<open>i\<close> \<open>st = PSA_SUCCESS\<close> su' is_initialized_ready [OF r(1)] r(2)
    by (auto simp: psa_hash_compute_def Let_def split: prod.splits if_splits)
qed

lemma hash_step_Inr:
  "hash_step env H h x k s = (Inr y, s') \<longleftrightarrow>
    (\<exists>bs len s1. psa_hash_compute env H h x (Out WOLFPSA_HASH_MAX_SIZE) (Some 0) s = (PSA_SUCCESS, bs, len, s1) \<and>
       k (In bs) s1 = (Inr y, s'))"
  by (auto simp: hash_step_def split: prod.splits)

lemma hash_step_proper [simp]: "(\<And>x. proper (k x)) \<Longrightarrow> proper (hash_step env H h x k)"
  by (auto simp: proper_def hash_step_def fail_with_def split: prod.split)

lemma message_digest_proper [simp]: "(\<And>x. proper (k x)) \<Longrightarrow> proper (message_digest env H a x k)"
  by (simp add: message_digest_def)

lemma status_run_proper [simp]: "proper (status_run st)"
  by (simp add: status_run_def)

lemma message_loaded_proper [simp]:
  "proper (sign_message_loaded env A attrs d a x c out)" "proper (verify_message_loaded env A attrs d a x c sig)"
  by (simp_all add: sign_message_loaded_def verify_message_loaded_def Let_def)

text \<open>The digest that reaches a back end, and that it reaches it again.\<close>

lemma message_digest_again:
  assumes "message_digest env H a x f s = (Inr y, s')"
    and "ready (env_build env) s2" "g_psa_crypto_initialized s2" "allocs s2 = []"
  obtains h s1 where "f h s1 = (Inr y, s')" "\<not> in_null h" "\<And>g. message_digest env H a x g s2 = g h s2"
proof (cases "a = PSA_ALG_RSA_PKCS1V15_SIGN_RAW")
  case True
  then show ?thesis using assms(1) by (intro that [of "In (in_bytes x)" s]) (auto simp: message_digest_def split: if_splits)
next
  case False
  then obtain bs len s1 where
    c: "psa_hash_compute env H (PSA_ALG_SIGN_GET_HASH a) x (Out WOLFPSA_HASH_MAX_SIZE) (Some 0) s = (PSA_SUCCESS, bs, len, s1)"
    and f: "f (In bs) s1 = (Inr y, s')" and z: "PSA_ALG_SIGN_GET_HASH a \<noteq> 0"
    using assms(1) by (auto simp: message_digest_def hash_step_Inr split: if_splits)
  show ?thesis
    by (rule that [of "In bs" s1]) (use f False z hash_compute_again [OF c assms(2-4)] in \<open>simp_all add: message_digest_def hash_step_def\<close>)
qed

lemma eddsa_roundtrip:
  assumes "eddsa_sign_message A attrs d a x c out s = (Inr sig, s')" and "asym_correct A"
  shows "eddsa_verify_message A attrs d a x c (In sig) s2 = (Inr (), s2)" and "sig \<noteq> []" and "length sig \<le> out_size out"
proof -
  let ?t = "type attrs" and ?n = "unat (bits attrs)"
  have ok: "ed_correct (as_ed25519 A)" "ed_correct (as_ed448 A)" using assms(2) by (simp_all add: asym_correct_def)
  consider "?n = 255" "psa_asymmetric_sign_ed25519 (as_dev A) (as_ed25519 A) ?t ?n d a x out c s = (Inr sig, s')"
    | "?n = 448" "psa_asymmetric_sign_ed448 (as_dev A) (as_ed448 A) ?t ?n d a x out c s = (Inr sig, s')"
    using assms(1) by (auto simp: eddsa_sign_message_def Let_def split: if_splits)
  then have "eddsa_verify_message A attrs d a x c (In sig) s2 = (Inr (), s2) \<and> sig \<noteq> [] \<and> length sig \<le> out_size out"
  proof cases
    case 1
    then show ?thesis using ed25519_roundtrip [OF 1(2) ok(1)] by (simp add: eddsa_verify_message_def)
  next
    case 2
    then show ?thesis using ed448_roundtrip [OF 2(2) ok(2)] by (simp add: eddsa_verify_message_def)
  qed
  then show "eddsa_verify_message A attrs d a x c (In sig) s2 = (Inr (), s2)" and "sig \<noteq> []" and "length sig \<le> out_size out"
    by simp_all
qed

lemma message_loaded_roundtrip:
  assumes sg: "sign_message_loaded env A attrs d a x c out s = (Inr sig, s')" and ok: "asym_correct A"
    and r: "ready (env_build env) s2" "g_psa_crypto_initialized s2" "allocs s2 = []"
  shows "verify_message_loaded env A attrs d a x c (In sig) s2 = (Inr (), s2)" and "sig \<noteq> []" and "length sig \<le> out_size out"
proof -
  let ?t = "type attrs" and ?n = "unat (bits attrs)"
  note u = sg [unfolded sign_message_loaded_def Let_def]
  have cx: "wolfpsa_check_context a c = PSA_SUCCESS" using u by (auto split: if_splits)
  have "verify_message_loaded env A attrs d a x c (In sig) s2 = (Inr (), s2) \<and> sig \<noteq> [] \<and> length sig \<le> out_size out"
  proof (cases "PSA_KEY_TYPE_IS_ML_DSA ?t")
    case True
    have g: "PSA_ALG_IS_ML_DSA a \<or> PSA_ALG_IS_HASH_ML_DSA a \<or> PSA_ALG_IS_DETERMINISTIC_HASH_ML_DSA a"
      "?t = PSA_KEY_TYPE_ML_DSA_KEY_PAIR"
      using u True by (auto split: if_splits)
    have mc: "mldsa_correct (as_dev A) (as_mldsa A)" using ok by (simp add: asym_correct_def)
    show ?thesis
    proof (cases "PSA_ALG_IS_ML_DSA a")
      case m: True
      have "wolfpsa_mldsa_sign (as_dev A) (as_mldsa A) ?n d a c x False out s = (Inr sig, s')"
        using u True m by (auto split: if_splits)
      from mldsa_roundtrip [OF this mc] show ?thesis using True m g cx by (simp add: verify_message_loaded_def)
    next
      case m: False
      obtain bs len s1 where
        h: "psa_hash_compute env (as_hash A) (PSA_ALG_GET_HASH a) x (Out WOLFPSA_HASH_MAX_SIZE) (Some 0) s = (PSA_SUCCESS, bs, len, s1)"
        and "wolfpsa_mldsa_sign (as_dev A) (as_mldsa A) ?n d a c (In bs) True out s1 = (Inr sig, s')"
        using u True m by (auto simp: hash_step_Inr split: if_splits)
      from mldsa_roundtrip [OF this(2) mc] show ?thesis using True m g cx hash_compute_again [OF h r]
        by (auto simp: verify_message_loaded_def hash_step_def Let_def)
    qed
  next
    case nm: False
    have g: "\<not> is_lms_type ?t" "\<not> is_xmss_type ?t" using u nm by (auto split: if_splits)
    let ?ed = "(a = PSA_ALG_PURE_EDDSA \<or> a = PSA_ALG_EDDSA_CTX) \<and> ?t = ed_pair_type"
    show ?thesis
    proof (cases ?ed)
      case True
      then have "eddsa_sign_message A attrs d a x c out s = (Inr sig, s')" using u nm by (auto split: if_splits)
      from eddsa_roundtrip [OF this ok] show ?thesis using True nm g cx
        by (auto simp: verify_message_loaded_def is_lms_type_def is_xmss_type_def Let_def)
    next
      case False
      then have m: "message_digest env (as_hash A) a x (\<lambda>h. sign_dispatch (env_build env) A attrs d a h c out) s = (Inr sig, s')"
        using u nm by (auto split: if_splits)
      then have ne: "a \<noteq> PSA_ALG_PURE_EDDSA" "a \<noteq> PSA_ALG_EDDSA_CTX" by (auto simp: message_digest_def psa_defs)
      from m obtain h s1 where sd: "sign_dispatch (env_build env) A attrs d a h c out s1 = (Inr sig, s')" and nn: "\<not> in_null h"
        and md: "\<And>g. message_digest env (as_hash A) a x g s2 = (g h s2 :: (psa_status + unit) \<times> _)"
        by (rule message_digest_again [OF _ r]) blast
      with dispatch_roundtrip [OF sd ok nn r(3)] show ?thesis using ne nm g cx md
        by (auto simp: verify_message_loaded_def is_lms_type_def is_xmss_type_def Let_def)
    qed
  qed
  then show "verify_message_loaded env A attrs d a x c (In sig) s2 = (Inr (), s2)" and "sig \<noteq> []" and "length sig \<le> out_size out"
    by simp_all
qed

end
