(* ===== verification/Asym_Demo.thy ===== *)
theory Asym_Demo
  imports Asym_Sign
begin

text \<open>
  Concrete engines that keep what wolfCrypt promises: signatures are a checksum of the key and
  the input, RSA blocks carry their message behind its length. They are the engines of the
  witnesses and show that the hypotheses on wolfCrypt can hold together.
\<close>

unbundle bit_operations_syntax

section \<open>Engines\<close>

definition demo_device :: wc_device where
  "demo_device = \<lparr>dev_default = 7, INVALID_DEVID = -2, wc_InitRng_ex = (\<lambda>i dev. WC_OK)\<rparr>"

text \<open>The checksum of a key, an input and a context.\<close>

definition demo_tag :: "byte list \<Rightarrow> inbuf \<Rightarrow> inbuf \<Rightarrow> byte" where
  "demo_tag k m c = sum_list k + 3 * sum_list (in_bytes m) + 5 * sum_list (in_bytes c) + 1"

definition demo_verdict :: "byte list \<Rightarrow> byte \<Rightarrow> wc_ret \<times> int" where
  "demo_verdict sig x = (WC_OK, if sig = [x] then 1 else 0)"

definition demo_ecc :: "byte list ecc_engine" where
  "demo_ecc =
    \<lparr>wc_ecc_init_ex = (\<lambda>dev. (WC_OK, [])), wc_ecc_import_private_key_ex = (\<lambda>d c k. (WC_OK, d)),
     wc_ecc_import_x963_ex = (\<lambda>d c k. (WC_OK, d)), wc_ecc_make_pub_ex = (\<lambda>k. (WC_OK, k)),
     wc_ecc_set_deterministic_ex = (\<lambda>h k. (WC_OK, k)), wc_ecc_sig_size = (\<lambda>k. 72),
     wc_ecc_sign_hash = (\<lambda>h m rng k. (WC_OK, [demo_tag k h (NullIn 0)])),
     wc_ecc_sig_to_rs = (\<lambda>der n m. (WC_OK, der, der)), wc_ecc_rs_raw_to_sig = (\<lambda>r t m. (WC_OK, [last r])),
     wc_ecc_verify_hash = (\<lambda>der h k. demo_verdict der (demo_tag k h (NullIn 0))),
     wc_ecc_make_key_ex = (\<lambda>rng n c k. (WC_OK, replicate n 1)), ecc_private = (\<lambda>k. True),
     mp_to_unsigned_bin_len = (\<lambda>k n. (WC_OK, take n k)),
     wc_ecc_export_x963 = (\<lambda>k out. if length k \<le> out_size out then (WC_OK, k) else (BUFFER_E, []))\<rparr>"

text \<open>A block of 128 bytes with the message behind its length, and the message of a block.\<close>

definition demo_block :: "inbuf \<Rightarrow> outbuf \<Rightarrow> wc_len" where
  "demo_block m out =
    (if length (in_bytes m) > 100 \<or> out_size out < 128 then Inl RSA_BUFFER_E
     else Inr (word_of_nat (length (in_bytes m)) # in_bytes m @ replicate (127 - length (in_bytes m)) 0))"

definition demo_unblock :: "inbuf \<Rightarrow> wc_len" where
  "demo_unblock c = (case in_bytes c of [] \<Rightarrow> Inl RSA_BUFFER_E | n # bs \<Rightarrow> Inr (take (unat n) bs))"

definition demo_rsa :: "byte list rsa_engine" where
  "demo_rsa =
    \<lparr>rsa_max_bytes = 512, wc_InitRsaKey_ex = (\<lambda>dev. (WC_OK, [])), wc_RsaPrivateKeyDecode = (\<lambda>d k. (WC_OK, d)),
     wc_RsaPublicKeyDecode = (\<lambda>d k. (WC_OK, d)), wc_RsaEncryptSize = (\<lambda>k. 128), mp_count_bits = (\<lambda>k. 1024),
     wc_GetCTC_HashOID = (\<lambda>h. 1), wc_EncodeSignature = (\<lambda>h oid. 48 # in_bytes h),
     wc_RsaSSL_Sign = (\<lambda>m out rng k. demo_block m out), wc_RsaSSL_Verify_ex = (\<lambda>sig n k. demo_unblock sig),
     wc_RsaSSL_Verify_ex2 = (\<lambda>sig n h k. demo_unblock sig),
     wc_RsaPSS_Sign = (\<lambda>h out ht mgf rng k. demo_block (In (1 # in_bytes h)) out),
     wc_RsaPSS_Verify_ex = (\<lambda>sig n ht mgf salt k. demo_unblock sig),
     wc_RsaPSS_CheckPadding_ex2 = (\<lambda>h enc ht salt n. if enc = 1 # in_bytes h then WC_OK else BAD_PADDING_E),
     wc_RsaPublicEncrypt = (\<lambda>m out rng k. demo_block m out),
     wc_RsaPublicEncrypt_ex = (\<lambda>m out rng ht mgf salt k. demo_block m out),
     wc_RsaSetRNG = (\<lambda>rng k. (WC_OK, k)), wc_RsaPrivateDecrypt = (\<lambda>c n k. demo_unblock c),
     wc_RsaPrivateDecrypt_ex = (\<lambda>c n ht mgf salt k. demo_unblock c),
     wc_MakeRsaKey = (\<lambda>n e rng k. (WC_OK, [1])), wc_RsaKeyToDer = (\<lambda>k out. demo_block (In k) out), wc_RsaKeyToPublicDer = (\<lambda>k out. demo_block (In k) out)\<rparr>"

definition demo_sign1 :: "inbuf \<Rightarrow> inbuf \<Rightarrow> outbuf \<Rightarrow> byte list \<Rightarrow> wc_ret \<times> byte list" where
  "demo_sign1 m c out k = (if out_size out < 1 then (BUFFER_E, []) else (WC_OK, [demo_tag k m c]))"

definition demo_ed :: "byte list ed_engine" where
  "demo_ed =
    \<lparr>ed_init_ex = (\<lambda>dev. (WC_OK, [])), ed_import_private_only = (\<lambda>d k. (WC_OK, d)), ed_make_public = (\<lambda>k. (WC_OK, k)),
     ed_import_public = (\<lambda>d k. (WC_OK, d)), ed_sign_msg = (\<lambda>v. demo_sign1), edph_sign_hash = demo_sign1,
     ed_verify_msg = (\<lambda>v sig m c k. demo_verdict (in_bytes sig) (demo_tag k m c)),
     edph_verify_hash = (\<lambda>sig m c k. demo_verdict (in_bytes sig) (demo_tag k m c)),
     ed_make_key = (\<lambda>rng k. (WC_OK, [1])), ed_priv_set = (\<lambda>k. True),
     ed_export_private_only = (\<lambda>k out. (WC_OK, take (out_size out) k)), ed_export_public = (\<lambda>k out. (WC_OK, k))\<rparr>"

definition demo_mldsa :: "byte list mldsa_engine" where
  "demo_mldsa =
    \<lparr>wc_MlDsaKey_Init = (\<lambda>dev. (WC_OK, [])), wc_MlDsaKey_SetParams = (\<lambda>l k. (WC_OK, k)),
     wc_MlDsaKey_MakeKeyFromSeed = (\<lambda>d k. (WC_OK, d)), wc_MlDsaKey_PubSize = (\<lambda>k. Inr 1312),
     wc_MlDsaKey_SigSize = (\<lambda>k. Inr 1), wc_MlDsaKey_ExportPubRaw = (\<lambda>k out. (WC_OK, k)),
     wc_MlDsaKey_ImportPubRaw = (\<lambda>d k. (WC_OK, d)), wc_MlDsaKey_SignCtx = (\<lambda>c out m rng. demo_sign1 m c out),
     wc_MlDsaKey_SignCtxWithSeed = (\<lambda>c out m z. demo_sign1 m c out),
     wc_MlDsaKey_SignCtxHash = (\<lambda>c out m h rng. demo_sign1 m c out),
     wc_MlDsaKey_SignCtxHashWithSeed = (\<lambda>c out m h z. demo_sign1 m c out),
     wc_MlDsaKey_VerifyCtx = (\<lambda>sig c m k. demo_verdict (in_bytes sig) (demo_tag k m c)),
     wc_MlDsaKey_VerifyCtxHash = (\<lambda>sig c m h k. demo_verdict (in_bytes sig) (demo_tag k m c))\<rparr>"

definition demo_hbs :: "(unit, unit) hbs_engine" where
  "demo_hbs =
    \<lparr>wc_LmsKey_Init = (\<lambda>dev. (WC_OK, ())), wc_LmsKey_ImportPubRaw = (\<lambda>d k. (WC_OK, ())),
     wc_LmsKey_Verify = (\<lambda>sig m n k. SIG_VERIFY_E), wc_XmssKey_Init = (\<lambda>dev. (WC_OK, ())),
     wc_XmssKey_ImportPubRaw_ex = (\<lambda>d mt k. (WC_OK, ())), wc_XmssKey_Verify = (\<lambda>sig m n k. SIG_VERIFY_E)\<rparr>"

definition demo_asym ::
    "(byte list, byte list, byte list, byte list, byte list, unit, unit, wc_digest \<times> byte list) asym_engine" where
  "demo_asym =
    \<lparr>as_dev = demo_device, as_ecc = demo_ecc, as_rsa = demo_rsa, as_ed25519 = demo_ed, as_ed448 = demo_ed,
     as_mldsa = demo_mldsa, as_hbs = demo_hbs, as_hash = demo_hash\<rparr>"

section \<open>They keep the promises\<close>

lemma demo_ecc_ok: "ecc_available demo_device demo_ecc" "ecc_correct demo_ecc"
proof -
  have s: "ecc_signer demo_ecc d c k \<longleftrightarrow> k = d" for d c k by (auto simp: ecc_signer_def demo_ecc_def)
  have o: "ecc_pair_object demo_ecc d c k \<longleftrightarrow> k = d" for d c k by (auto simp: ecc_pair_object_def demo_ecc_def)
  have h: "ecc_holds demo_ecc d c k \<longleftrightarrow> k = d" for d c k
    by (auto simp: ecc_holds_def ecc_public_value_def o) (auto simp: demo_ecc_def split: if_splits)
  show "ecc_correct demo_ecc"
    by (auto simp: ecc_correct_def s h) (auto simp: demo_ecc_def demo_verdict_def be_field_def)
  show "ecc_available demo_device demo_ecc"
    by (simp add: ecc_available_def demo_ecc_def)
qed

lemma demo_unblock_block: "demo_block m out = Inr c \<Longrightarrow> demo_unblock (In c) = Inr (in_bytes m)"
  by (auto simp: demo_block_def demo_unblock_def unat_of_nat split: if_splits)

lemma demo_block_ret: "ret_bytes (demo_block m out) = demo_block m out"
  by (simp add: demo_block_def ret_bytes_def)

lemma demo_block_size: "demo_block m out = Inr c \<Longrightarrow> length c = 128 \<and> 128 \<le> out_size out \<and> c \<noteq> []"
  by (auto simp: demo_block_def split: if_splits)

lemma demo_rsa_ok: "rsa_sign_correct demo_rsa" "rsa_crypt_correct demo_rsa" "rsa_rng_available demo_device demo_rsa"
proof -
  note B = demo_unblock_block demo_block_size
  have o: "rsa_object demo_rsa d k \<longleftrightarrow> k = d" for d k by (auto simp: rsa_object_def demo_rsa_def)
  show "rsa_sign_correct demo_rsa" unfolding rsa_sign_correct_def o
    by (intro conjI allI impI; simp add: demo_rsa_def demo_block_ret B)
  show "rsa_crypt_correct demo_rsa" unfolding rsa_crypt_correct_def o
    by (intro conjI allI impI; simp add: demo_rsa_def demo_block_ret B)
  show "rsa_rng_available demo_device demo_rsa" by (simp add: rsa_rng_available_def demo_rsa_def demo_device_def)
qed

lemma demo_ed_ok: "ed_correct demo_ed"
  by (auto simp: ed_correct_def demo_ed_def demo_sign1_def demo_verdict_def split: if_splits)

lemma demo_mldsa_ok: "mldsa_correct D demo_mldsa"
  by (auto simp: mldsa_correct_def demo_mldsa_def demo_sign1_def demo_verdict_def split: if_splits)

lemma demo_asym_ok: "asym_correct demo_asym"
  by (simp add: asym_correct_def demo_asym_def demo_ecc_ok demo_rsa_ok demo_ed_ok demo_mldsa_ok)

section \<open>A key that signs\<close>

text \<open>A P-256 key pair for ECDSA with SHA-256, with the four usages of signatures.\<close>

definition demo_sign_attr :: "psa_algorithm_t \<Rightarrow> psa_key_attributes_t" where
  "demo_sign_attr a = psa_key_attributes_init
    \<lparr>type := 0x7112, bits := 256, policy := \<lparr>usage = 0x3c00, alg = a, alg2 = PSA_ALG_NONE\<rparr>\<rparr>"

lemma demo_sign_attr_simps [simp]:
  "type (demo_sign_attr a) = 0x7112" "bits (demo_sign_attr a) = 256" "usage (policy (demo_sign_attr a)) = 0x3c00"
  "alg (policy (demo_sign_attr a)) = a" "alg2 (policy (demo_sign_attr a)) = PSA_ALG_NONE"
  by (simp_all add: demo_sign_attr_def)

abbreviation demo_sign_ks :: "psa_algorithm_t \<Rightarrow> unit posix_state key_store" where
  "demo_sign_ks a \<equiv> demo_with (demo_sign_attr a) [5]"

abbreviation demo_ecdsa :: psa_algorithm_t where "demo_ecdsa \<equiv> 0x06000609"

lemma demo_asym_simps [simp]:
  "as_dev demo_asym = demo_device" "as_ecc demo_asym = demo_ecc" "as_rsa demo_asym = demo_rsa" "as_hash demo_asym = demo_hash"
  by (simp_all add: demo_asym_def)

lemma demo_rng_calls [simp]: "rng_calls (demo_with a d) = 0"
  by (simp add: demo_with_def demo_ks_def fresh_store_def)

lemma demo_volatile [simp]: "n \<in> set (g_volatile_keys (demo_with a d)) \<longleftrightarrow> n = \<lparr>node_id = PSA_KEY_ID_VENDOR_MIN, attributes = a, data = d\<rparr>"
  by (simp add: demo_with_def)

text \<open>The check of the key and the run of the back end.\<close>

lemma demo_check_key:
  assumes "u \<in> {PSA_KEY_USAGE_SIGN_HASH, PSA_KEY_USAGE_VERIFY_HASH, PSA_KEY_USAGE_SIGN_MESSAGE, PSA_KEY_USAGE_VERIFY_MESSAGE}"
  shows "wolfpsa_asymmetric_check_key demo_env PSA_KEY_ID_VENDOR_MIN u demo_ecdsa (demo_sign_ks demo_ecdsa) =
    (Inr (demo_sign_attr demo_ecdsa, [5]), demo_sign_ks demo_ecdsa)"
  using assms
  by (auto simp: check_key_Inr policy_admits_code wolfpsa_asymmetric_alg_permitted_def wolfpsa_sign_alg_permitted_def psa_defs)

lemma demo_dispatch:
  assumes "in_length h < 100"
  shows "sign_dispatch default_build demo_asym (demo_sign_attr demo_ecdsa) [5] demo_ecdsa h c (Out 64) (demo_sign_ks demo_ecdsa) =
    (Inr (be_field 32 [demo_tag [5] h (NullIn 0)] @ be_field 32 [demo_tag [5] h (NullIn 0)]),
     (demo_sign_ks demo_ecdsa)\<lparr>rng_calls := Suc 0\<rparr>)"
proof -
  have c: "wc_psa_get_ecc_curve_id default_build 0x7112 256 = ECC_SECP256R1" 
    by (simp add: wc_psa_get_ecc_curve_id_def default_build_def psa_defs)
  have al: "allocs ((demo_sign_ks demo_ecdsa)\<lparr>rng_calls := Suc 0\<rparr>) = []" by simp
  show ?thesis using assms c
    by (simp add: sign_dispatch_def psa_asymmetric_sign_ecc_def psa_defs wolfpsa_check_word32_length_def with_rng_def
        demo_device_def demo_ecc_def ecc_sign_raw_def with_malloc_ok [OF al] give_def)
qed

end
