(* ===== verification/Asym_Properties.thy ===== *)
theory Asym_Properties
  imports Asym_Demo
begin

text \<open>
  The properties of the asymmetric API over the POSIX key store, with concrete engines as
  witnesses.
\<close>

unbundle bit_operations_syntax

section \<open>The calls and the key they use\<close>






text \<open>What the call does once the key is there, without its result.\<close>

definition run_only :: "('a, 'st) asym_run \<Rightarrow> (unit, 'st) asym_run" where
  "run_only f s = ((case fst (f s) of Inl e \<Rightarrow> Inl e | Inr x \<Rightarrow> Inr ()), snd (f s))"


lemma run_only_frame [simp]: "proper (run_only f) \<longleftrightarrow> proper f" "quiet (run_only f) \<longleftrightarrow> quiet f"
  by (auto simp: proper_def quiet_def run_only_def split: sum.splits)




lemma run_only_fail [simp]: "run_only (fail_with e) = fail_with e"
  by (rule ext) (simp add: run_only_def fail_with_def)


section \<open>No call changes a key\<close>

definition keeps_keys :: "('a, 'st) asym_run \<Rightarrow> bool" where
  "keeps_keys f \<longleftrightarrow> (\<forall>(recs :: 'st \<Rightarrow> nat \<Rightarrow> byte list option) s. lock_ok s \<longrightarrow> load_frame recs s (snd (f s)))"

lemma quiet_to_frame: "quiet_to s s' \<Longrightarrow> lock_ok s \<Longrightarrow> load_frame recs s s'"
  by (auto simp: quiet_to_def load_frame_def lock_ok_def)

lemma quiet_keeps [simp]: "quiet f \<Longrightarrow> keeps_keys f"
  by (simp add: quiet_def keeps_keys_def quiet_to_frame)


lemma hash_setup_keeps:
  assumes "lock_ok s" and "psa_hash_setup env H op h s = (st, op', s')"
  shows "load_frame recs s s'"
proof -
  obtain i s1 where i: "wolfPSA_CryptoIsInitialized (env_build env) s = (i, s1)" by fastforce
  have f: "load_frame recs s s1" "lock_ok s1"
    using is_initialized_cases [OF assms(1) i] by (simp_all add: load_frame_core)
  moreover have "load_frame recs s (alloc_rest s1)" using load_frame_trans [OF f(1) load_frame_alloc [OF f(2)]] .
  moreover have "load_frame recs s s" using assms(1) by (simp add: load_frame_def)
  ultimately show ?thesis using assms(2) i
    by (auto simp: psa_hash_setup_def s_xmalloc_eq split: if_splits option.splits prod.splits)
qed

lemma hash_compute_keeps:
  assumes "lock_ok s" and "psa_hash_compute env H h x out len s = (st, bs, len', s')"
  shows "load_frame recs s s'"
proof -
  obtain i s1 where i: "wolfPSA_CryptoIsInitialized (env_build env) s = (i, s1)" by fastforce
  obtain st1 op s2 where su: "psa_hash_setup env H (Some None) h s1 = (st1, op, s2)" by (metis prod_cases3)
  have f: "load_frame recs s s1" "lock_ok s1"
    using is_initialized_cases [OF assms(1) i] by (simp_all add: load_frame_core)
  have "load_frame recs s s2" by (rule load_frame_trans [OF f(1) hash_setup_keeps [OF f(2) su]])
  with f(1) show ?thesis using assms(2) i su
    by (auto simp: psa_hash_compute_def Let_def split: if_splits prod.splits)
qed

lemma hash_step_keeps [simp]:
  fixes k :: "inbuf \<Rightarrow> ('b, 'st) asym_run"
  assumes "\<And>x. quiet (k x)" shows "keeps_keys (hash_step env H h x k)"
proof -
  have "load_frame recs s (snd (hash_step env H h x k s))"
    if l: "lock_ok s" for recs :: "'st \<Rightarrow> nat \<Rightarrow> byte list option" and s
  proof -
    obtain st bs len s1 where c: "psa_hash_compute env H h x (Out WOLFPSA_HASH_MAX_SIZE) (Some 0) s = (st, bs, len, s1)"
      by (metis prod_cases4)
    have f: "load_frame recs s s1" by (rule hash_compute_keeps [OF l c])
    then have "lock_ok s1" by (simp add: load_frame_def)
    then have "load_frame recs s1 (snd (k (In bs) s1))" using quiet_keeps [OF assms] by (simp add: keeps_keys_def)
    with f c show ?thesis by (auto simp: hash_step_def fail_with_def dest: load_frame_trans)
  qed
  then show ?thesis by (simp add: keeps_keys_def)
qed

lemma keeps_if: "\<lbrakk>c \<Longrightarrow> keeps_keys f; \<not> c \<Longrightarrow> keeps_keys g\<rbrakk> \<Longrightarrow> keeps_keys (if c then f else g)"
  by simp

lemma status_run_quiet [simp]: "quiet (status_run st)"
  by (simp add: status_run_def)

lemma message_loaded_keeps [simp]:
  "keeps_keys (sign_message_loaded env A attrs d a x c out)" "keeps_keys (verify_message_loaded env A attrs d a x c sig)"
  unfolding sign_message_loaded_def verify_message_loaded_def message_digest_def Let_def
  by (intro keeps_if; simp)+

lemma run_only_keeps [simp]: "keeps_keys (run_only f) \<longleftrightarrow> keeps_keys f"
  by (simp add: keeps_keys_def run_only_def)


section \<open>Only key pairs sign and decrypt\<close>

lemma pair_types [simp]:
  "PSA_KEY_TYPE_IS_ECC_KEY_PAIR t \<Longrightarrow> PSA_KEY_TYPE_IS_KEY_PAIR t" "PSA_KEY_TYPE_IS_KEY_PAIR ed_pair_type"
  "PSA_KEY_TYPE_IS_KEY_PAIR PSA_KEY_TYPE_RSA_KEY_PAIR" "PSA_KEY_TYPE_IS_KEY_PAIR PSA_KEY_TYPE_ML_DSA_KEY_PAIR"
proof -
  assume "PSA_KEY_TYPE_IS_ECC_KEY_PAIR t"
  then have "(t AND NOT 0xff) AND 0x7000 = 0x7100 AND (0x7000 :: psa_key_type_t)" by (simp only: psa_defs)
  then show "PSA_KEY_TYPE_IS_KEY_PAIR t" by (simp add: psa_defs and.assoc)
qed (simp_all add: psa_defs)





text \<open>A signature by the stored key of the hash \<open>[1, 2]\<close>.\<close>

abbreviation demo_sig :: "byte list" where
  "demo_sig \<equiv> be_field 32 [15] @ be_field 32 [15]"

lemma demo_sign_hash:
  "psa_sign_hash_with_context demo_env demo_asym PSA_KEY_ID_VENDOR_MIN demo_ecdsa (In [1, 2]) (NullIn 0) (Out 64) (Some 0)
     (demo_sign_ks demo_ecdsa) = (PSA_SUCCESS, demo_sig, Some 64, (demo_sign_ks demo_ecdsa)\<lparr>rng_calls := Suc 0\<rparr>)"
proof -
  have l: "sign_hash_loaded default_build demo_asym (demo_sign_attr demo_ecdsa) [5] demo_ecdsa (In [1, 2]) (NullIn 0) (Out 64) =
      sign_dispatch default_build demo_asym (demo_sign_attr demo_ecdsa) [5] demo_ecdsa (In [1, 2]) (NullIn 0) (Out 64)"
    by (simp add: sign_hash_loaded_def wolfpsa_check_context_def wolfpsa_sign_output_size_def is_lms_type_def
        is_xmss_type_def psa_defs)
  show ?thesis
    by (simp add: psa_sign_hash_with_context_def wolfpsa_sign_hash_worker_def wolfpsa_clear_length_def demo_check_key l
        demo_dispatch demo_tag_def be_field_def)
qed


section \<open>A signature that was made is accepted\<close>

text \<open>In service, a check of a stored key succeeds when the policy allows it.\<close>

lemma check_key_again:
  assumes "env_ops env = posix_ops os" and r: "ready (env_build env) s" "g_psa_crypto_initialized s"
    and "posix_healthy os (store s)" and al: "allocs s = []"
    and "\<And>n. n \<in> set (g_volatile_keys s) \<Longrightarrow> data n \<noteq> []"
    and "key_at posix_recs s k = Some (attrs, d)" and p: "policy_admits attrs v a"
  obtains s' where "wolfpsa_asymmetric_check_key env k v a s = (Inr (attrs, d), s')"
    "ready (env_build env) s'" "g_psa_crypto_initialized s'" "allocs s' = []"
proof -
  obtain st' where l: "load_key env k s = (Inr (attrs, d), s\<lparr>g_key_storage_initialized := True, store := st'\<rparr>)"
    using posix_keys.load_key_healthy [OF assms(1-7)] by blast
  show ?thesis
    by (rule that [of "s\<lparr>g_key_storage_initialized := True, store := st'\<rparr>"])
      (use l p r al in \<open>simp_all add: check_key_Inr ready_def lock_ok_def\<close>)
qed

text \<open>
  C15: A signature of a hash verifies. When \<open>psa_sign_hash_with_context\<close> succeeds, with any key
  type and algorithm the library signs with, it reports the length of the signature and stays
  within the caller's buffer; and a later \<open>psa_verify_hash_with_context\<close> with the same id, of the
  same hash, context and signature, succeeds, whatever happened in between, in every state in which
  the same key is stored under the id (\<open>key_at\<close>) with the usage flag to verify hashes, the library
  is initialised and its lock free, no failure is pending in the POSIX store or the allocator, and
  no volatile key is empty. Of wolfCrypt it is assumed that the objects and generators it needs can
  be set up and that its own signatures verify (\<open>asym_correct\<close>).
\<close>

theorem hash_signature_verifies:
  assumes env: "env_ops env = posix_ops os" and lk: "lock_ok s" and ok: "asym_correct A"
    and sg: "psa_sign_hash_with_context env A k a h c out len s = (PSA_SUCCESS, sig, len', s')"
    and r: "ready (env_build env) s2" "g_psa_crypto_initialized s2" "posix_healthy os (store s2)" "allocs s2 = []"
      "\<And>n. n \<in> set (g_volatile_keys s2) \<Longrightarrow> data n \<noteq> []"
    and ky: "key_at posix_recs s2 k = key_at posix_recs s k"
    and use: "\<And>attrs d. key_at posix_recs s k = Some (attrs, d) \<Longrightarrow>
      usage (policy attrs) AND PSA_KEY_USAGE_VERIFY_HASH = PSA_KEY_USAGE_VERIFY_HASH"
  shows "len' = Some (length sig) \<and> length sig \<le> out_size out \<and>
    (\<exists>s3. psa_verify_hash_with_context env A k a h c (In sig) s2 = (PSA_SUCCESS, s3))"
proof -
  from sg obtain attrs d s1 where l: "load_key env k s = (Inr (attrs, d), s1)"
    and p: "policy_admits attrs PSA_KEY_USAGE_SIGN_HASH a"
    and m: "sign_hash_loaded (env_build env) A attrs d a h c out s1 = (Inr sig, s')"
    and ln: "len' = Some (length sig)" and nn: "\<not> in_null h"
    unfolding psa_sign_hash_with_context_def by (rule sign_hash_worker_success)
  note ka = posix_keys.load_key_sound(2) [OF env lk l refl]
  have v: "policy_admits attrs PSA_KEY_USAGE_VERIFY_HASH a" by (rule policy_admits_verify [OF p _ use [OF ka]]) simp
  obtain s3 where ck: "wolfpsa_asymmetric_check_key env k PSA_KEY_USAGE_VERIFY_HASH a s2 = (Inr (attrs, d), s3)"
    and al: "allocs s3 = []"
    by (rule check_key_again [OF env r ky [unfolded ka] v])
  note R = hash_loaded_roundtrip [OF m ok nn al]
  show ?thesis using ln R ck nn
    by (simp add: psa_verify_hash_with_context_def wolfpsa_verify_hash_worker_def)
qed

theorem hash_signature_verifies_witness:
  "\<exists>s3. psa_verify_hash_with_context demo_env demo_asym PSA_KEY_ID_VENDOR_MIN demo_ecdsa (In [1, 2]) (NullIn 0) (In demo_sig)
     (demo_sign_ks demo_ecdsa) = (PSA_SUCCESS, s3)"
  using hash_signature_verifies [OF demo_env_simps(1) demo_with_simps(2) demo_asym_ok demo_sign_hash, of "demo_sign_ks demo_ecdsa"]
    demo_healthy by simp

lemma sign_message_worker_success:
  assumes "wolfpsa_sign_message_worker env A k a x c out len s = (PSA_SUCCESS, sig, len', s')"
  obtains attrs d s1 where "load_key env k s = (Inr (attrs, d), s1)" and "policy_admits attrs PSA_KEY_USAGE_SIGN_MESSAGE a"
    and "sign_message_loaded env A attrs d a x c out s1 = (Inr sig, s')" and "len' = Some (length sig)" and "\<not> in_null x"
proof -
  obtain r s1 where c: "wolfpsa_asymmetric_check_key env k PSA_KEY_USAGE_SIGN_MESSAGE a s = (r, s1)" by fastforce
  note u = assms [unfolded wolfpsa_sign_message_worker_def Let_def c prod.case]
  have "r \<noteq> Inl PSA_SUCCESS" using check_key_Inl c by metis
  then obtain attrs d where r: "r = Inr (attrs, d)"
    using u by (cases r) (auto split: if_splits)
  have so: "sign_out (wolfpsa_clear_length len) (sign_message_loaded env A attrs d a x c out s1) = (PSA_SUCCESS, sig, len', s')"
    and g: "\<not> in_null x"
    using u r by (auto split: if_splits)
  note S = sign_out_success [OF so message_loaded_proper(1)]
  with c r g show ?thesis by (intro that [of attrs d s1]) (simp_all add: check_key_Inr)
qed

text \<open>
  C16: A signature of a message verifies. When \<open>psa_sign_message_with_context\<close> succeeds, it reports
  the length of the signature and stays within the caller's buffer; and a later
  \<open>psa_verify_message_with_context\<close> with the same id, of the same message, context and signature,
  succeeds, for every key type and algorithm the library signs with: both sides reduce the message
  to the same digest, or hand the whole message to the back end. The later state is any in which
  the same key is stored under the id (\<open>key_at\<close>) with the usage flag to verify messages, the library
  is initialised and its lock free, no failure is pending in the POSIX store or the allocator, and
  no volatile key is empty; of wolfCrypt the same is assumed as for hashes (\<open>asym_correct\<close>).
\<close>

theorem message_signature_verifies:
  assumes env: "env_ops env = posix_ops os" and lk: "lock_ok s" and ok: "asym_correct A"
    and sg: "psa_sign_message_with_context env A k a x c out len s = (PSA_SUCCESS, sig, len', s')"
    and r: "ready (env_build env) s2" "g_psa_crypto_initialized s2" "posix_healthy os (store s2)" "allocs s2 = []"
      "\<And>n. n \<in> set (g_volatile_keys s2) \<Longrightarrow> data n \<noteq> []"
    and ky: "key_at posix_recs s2 k = key_at posix_recs s k"
    and use: "\<And>attrs d. key_at posix_recs s k = Some (attrs, d) \<Longrightarrow>
      usage (policy attrs) AND PSA_KEY_USAGE_VERIFY_MESSAGE = PSA_KEY_USAGE_VERIFY_MESSAGE"
  shows "len' = Some (length sig) \<and> length sig \<le> out_size out \<and>
    (\<exists>s3. psa_verify_message_with_context env A k a x c (In sig) s2 = (PSA_SUCCESS, s3))"
proof -
  from sg obtain attrs d s1 where l: "load_key env k s = (Inr (attrs, d), s1)"
    and p: "policy_admits attrs PSA_KEY_USAGE_SIGN_MESSAGE a"
    and m: "sign_message_loaded env A attrs d a x c out s1 = (Inr sig, s')"
    and ln: "len' = Some (length sig)" and nn: "\<not> in_null x"
    unfolding psa_sign_message_with_context_def by (rule sign_message_worker_success)
  note ka = posix_keys.load_key_sound(2) [OF env lk l refl]
  have v: "policy_admits attrs PSA_KEY_USAGE_VERIFY_MESSAGE a" by (rule policy_admits_verify [OF p _ use [OF ka]]) simp
  obtain s3 where ck: "wolfpsa_asymmetric_check_key env k PSA_KEY_USAGE_VERIFY_MESSAGE a s2 = (Inr (attrs, d), s3)"
    and r3: "ready (env_build env) s3" "g_psa_crypto_initialized s3" "allocs s3 = []"
    by (rule check_key_again [OF env r ky [unfolded ka] v])
  note R = message_loaded_roundtrip [OF m ok r3]
  show ?thesis using ln R ck nn
    by (simp add: psa_verify_message_with_context_def wolfpsa_verify_message_worker_def)
qed

lemma demo_sign_message:
  "\<exists>sig s'. psa_sign_message_with_context demo_env demo_asym PSA_KEY_ID_VENDOR_MIN demo_ecdsa (In [1, 2]) (NullIn 0) (Out 64) (Some 0)
     (demo_sign_ks demo_ecdsa) = (PSA_SUCCESS, sig, Some (length sig), s')"
proof -
  let ?s = "demo_sign_ks demo_ecdsa" and ?d = "demo_digest Wc_Sha256 [1, 2]"
  have "psa_hash_compute demo_env demo_hash PSA_ALG_SHA_256 (In [1, 2]) (Out 64) (Some 0) ?s = (PSA_SUCCESS, ?d, Some 32, ?s)"
    by (simp add: psa_hash_compute_def is_initialized_ready psa_hash_setup_def psa_hash_check_alg_supported_def hash_init_switch_def
        psa_hash_update_def psa_hash_finish_def psa_hash_get_ctx_def hash_update_switch_def hash_final_switch_def
        psa_hash_get_size_def demo_hash_def wolfpsa_clear_length_def psa_defs Let_def)
  then have "sign_message_loaded demo_env demo_asym (demo_sign_attr demo_ecdsa) [5] demo_ecdsa (In [1, 2]) (NullIn 0) (Out 64) ?s =
      sign_dispatch default_build demo_asym (demo_sign_attr demo_ecdsa) [5] demo_ecdsa (In ?d) (NullIn 0) (Out 64) ?s"
    by (simp add: sign_message_loaded_def wolfpsa_check_context_def wolfpsa_sign_output_size_def is_lms_type_def
        is_xmss_type_def message_digest_def hash_step_def psa_defs)
  then show ?thesis
    by (simp add: psa_sign_message_with_context_def wolfpsa_sign_message_worker_def wolfpsa_clear_length_def demo_check_key
        demo_dispatch demo_digest_def)
qed

theorem message_signature_verifies_witness:
  "\<exists>sig s3. psa_verify_message_with_context demo_env demo_asym PSA_KEY_ID_VENDOR_MIN demo_ecdsa (In [1, 2]) (NullIn 0) (In sig)
     (demo_sign_ks demo_ecdsa) = (PSA_SUCCESS, s3)"
proof -
  obtain sig s' where "psa_sign_message_with_context demo_env demo_asym PSA_KEY_ID_VENDOR_MIN demo_ecdsa (In [1, 2]) (NullIn 0)
      (Out 64) (Some 0) (demo_sign_ks demo_ecdsa) = (PSA_SUCCESS, sig, Some (length sig), s')"
    using demo_sign_message by blast
  from message_signature_verifies [OF demo_env_simps(1) demo_with_simps(2) demo_asym_ok this, of "demo_sign_ks demo_ecdsa"]
  show ?thesis using demo_healthy by auto
qed

section \<open>RSA\<close>

lemma pkcs1v15_sign_hash: "PSA_ALG_IS_RSA_PKCS1V15_SIGN a \<Longrightarrow> PSA_ALG_IS_SIGN_HASH a"
proof -
  assume "PSA_ALG_IS_RSA_PKCS1V15_SIGN a"
  then have e: "a AND NOT 0xff = 0x06000200" by (simp only: psa_defs)
  have "a AND 0x7f000000 = (a AND NOT 0xff) AND 0x7f000000" by (simp add: and.assoc)
  then have "a AND 0x7f000000 = 0x06000000" unfolding e by simp
  then show ?thesis using e by (auto simp: psa_defs)
qed

text \<open>
  C17: Verification of a PKCS#1 v1.5 signature with a \<open>DigestInfo\<close> compares everything. With an RSA
  key that loads under the id and whose policy admits it, \<open>psa_verify_hash\<close> accepts exactly when
  hash and signature are not empty, the hash has the length of the algorithm's hash, the key
  decodes, the signature has the size of the modulus, and the block that wolfCrypt recovers from
  the signature equals, byte for byte and in length, the \<open>DigestInfo\<close> that it encodes of the
  caller's hash: no trailing bytes, no other hash, no prefix of the block is accepted. (Key and
  signature are at most \<open>UINT32_MAX\<close> bytes long, or the call is refused.)
\<close>

theorem rsa_verification_exact:
  assumes l: "load_key env k s = (Inr (attrs, d), s1)" and t: "type attrs = PSA_KEY_TYPE_RSA_PUBLIC_KEY \<or> type attrs = PSA_KEY_TYPE_RSA_KEY_PAIR"
    and p: "policy_admits attrs PSA_KEY_USAGE_VERIFY_HASH a"
    and a: "PSA_ALG_IS_RSA_PKCS1V15_SIGN a" "a \<noteq> PSA_ALG_RSA_PKCS1V15_SIGN_RAW"
  shows "psa_verify_hash env A k a (In h) (In sig) s = (PSA_SUCCESS, s') \<longleftrightarrow>
    s' = s1 \<and> length d \<le> UINT32_MAX \<and> length sig \<le> UINT32_MAX \<and> sig \<noteq> [] \<and>
    length h = PSA_HASH_LENGTH (PSA_ALG_SIGN_GET_HASH a) \<and> h \<noteq> [] \<and>
    (\<exists>k0 kk. wc_InitRsaKey_ex (as_rsa A) (dev_default (as_dev A)) = (WC_OK, k0) \<and>
       rsa_decode_key (as_rsa A) (type attrs) d k0 = (WC_OK, kk) \<and> int (length sig) = wc_RsaEncryptSize (as_rsa A) kk \<and>
       (let ht = wc_psa_get_hash_type a; oid = wc_GetCTC_HashOID (as_rsa A) ht; info = wc_EncodeSignature (as_rsa A) (In h) oid in
        oid > 0 \<and> info \<noteq> [] \<and> ret_bytes (wc_RsaSSL_Verify_ex2 (as_rsa A) (In sig) (rsa_max_bytes (as_rsa A)) ht kk) = Inr info))"
proof -
  let ?v = "verify_hash_loaded (env_build env) A attrs d a (In h) (NullIn 0) (In sig)"
  have "wolfpsa_asymmetric_check_key env k PSA_KEY_USAGE_VERIFY_HASH a s = (Inr (attrs, d), s1)"
    using l p by (simp add: check_key_Inr)
  then have w: "psa_verify_hash env A k a (In h) (In sig) s = verify_out (?v s1)"
    by (simp add: psa_verify_hash_def wolfpsa_verify_hash_worker_def)
  have o: "verify_out (?v s1) = (PSA_SUCCESS, s') \<longleftrightarrow> ?v s1 = (Inr (), s')"
    using run_status_success [OF hash_loaded_frame(3) surjective_pairing, of "env_build env" A attrs d a "In h" "NullIn 0" "In sig" s1]
    by (cases "?v s1") auto
  have sh: "PSA_ALG_IS_SIGN_HASH a" using a(1) by (rule pkcs1v15_sign_hash)
  have g: "PSA_KEY_TYPE_IS_RSA (type attrs)" "\<not> PSA_KEY_TYPE_IS_ML_DSA (type attrs)" "\<not> is_lms_type (type attrs)" "\<not> is_xmss_type (type attrs)"
    using t by (auto simp: psa_defs is_lms_type_def is_xmss_type_def)
  have "?v s1 = (Inr (), s') \<longleftrightarrow> sig \<noteq> [] \<and> psa_asymmetric_verify_rsa (as_dev A) (as_rsa A) (type attrs) d a (In h) (In sig) s1 = (Inr (), s')"
    using sh g by (simp add: verify_hash_loaded_def verify_dispatch_def wolfpsa_check_context_def Let_def)
  then show ?thesis unfolding w o verify_pkcs1v15_iff [OF a] Let_def using t
    by auto
qed

text \<open>A stored RSA public key of 1024 bits, a hash, and the signature block of its \<open>DigestInfo\<close>.\<close>

definition demo_rsa_attr :: "psa_key_type_t \<Rightarrow> psa_key_usage_t \<Rightarrow> psa_algorithm_t \<Rightarrow> psa_key_attributes_t" where
  "demo_rsa_attr t u a = psa_key_attributes_init
    \<lparr>type := t, bits := 1024, policy := \<lparr>usage = u, alg = a, alg2 = PSA_ALG_NONE\<rparr>\<rparr>"

lemma demo_rsa_attr_simps [simp]:
  "type (demo_rsa_attr t u a) = t" "bits (demo_rsa_attr t u a) = 1024" "usage (policy (demo_rsa_attr t u a)) = u"
  "alg (policy (demo_rsa_attr t u a)) = a" "alg2 (policy (demo_rsa_attr t u a)) = PSA_ALG_NONE"
  by (simp_all add: demo_rsa_attr_def)

abbreviation demo_rsa_public :: "unit posix_state key_store" where
  "demo_rsa_public \<equiv> demo_with (demo_rsa_attr PSA_KEY_TYPE_RSA_PUBLIC_KEY PSA_KEY_USAGE_VERIFY_HASH 0x06000209) [9]"

theorem rsa_verification_exact_witness:
  "fst (psa_verify_hash demo_env demo_asym PSA_KEY_ID_VENDOR_MIN 0x06000209 (In (replicate 32 7))
      (In (33 # 48 # replicate 32 7 @ replicate 94 0)) demo_rsa_public) = PSA_SUCCESS \<and>
   fst (psa_verify_hash demo_env demo_asym PSA_KEY_ID_VENDOR_MIN 0x06000209 (In (replicate 32 7))
      (In (34 # 48 # replicate 32 7 @ replicate 94 0)) demo_rsa_public) \<noteq> PSA_SUCCESS"
proof -
  let ?v = "\<lambda>sig. psa_verify_hash demo_env demo_asym PSA_KEY_ID_VENDOR_MIN 0x06000209 (In (replicate 32 7)) (In sig) demo_rsa_public"
  have l: "load_key demo_env PSA_KEY_ID_VENDOR_MIN demo_rsa_public =
      (Inr (demo_rsa_attr PSA_KEY_TYPE_RSA_PUBLIC_KEY PSA_KEY_USAGE_VERIFY_HASH 0x06000209, [9]), demo_rsa_public)" by simp
  have p: "policy_admits (demo_rsa_attr PSA_KEY_TYPE_RSA_PUBLIC_KEY PSA_KEY_USAGE_VERIFY_HASH 0x06000209) PSA_KEY_USAGE_VERIFY_HASH 0x06000209"
    by (simp add: policy_admits_code wolfpsa_asymmetric_alg_permitted_def wolfpsa_sign_alg_permitted_def psa_defs)
  have a: "PSA_ALG_IS_RSA_PKCS1V15_SIGN 0x06000209" by (simp add: psa_defs)
  note X = rsa_verification_exact [OF l _ p a, of demo_asym "replicate 32 7", simplified demo_rsa_attr_simps, simplified]
  have "?v (33 # 48 # replicate 32 7 @ replicate 94 0) = (PSA_SUCCESS, demo_rsa_public)"
    by (subst X) (simp add: demo_rsa_def rsa_decode_key_def demo_unblock_def psa_defs PSA_HASH_LENGTH_def)
  moreover have "?v (34 # 48 # replicate 32 7 @ replicate 94 0) \<noteq> (PSA_SUCCESS, s)" for s
    by (subst X) (simp add: demo_rsa_def rsa_decode_key_def demo_unblock_def psa_defs PSA_HASH_LENGTH_def)
  ultimately show ?thesis by (metis fst_conv prod.collapse)
qed

text \<open>What a successful encryption or decryption did.\<close>

lemma crypt_entry_success:
  assumes r: "crypt_entry env u k a out len f s = (PSA_SUCCESS, c, len', s')" and f: "\<And>attrs d. proper (f attrs d)"
  obtains attrs d s1 where "load_key env k s = (Inr (attrs, d), s1)" and "policy_admits attrs u a"
    and "f attrs d s1 = (Inr c, s')" and "len' = Some (length c)" and "PSA_KEY_TYPE_IS_RSA (type attrs)"
proof -
  obtain r s1 where ck: "wolfpsa_asymmetric_check_key env k u a s = (r, s1)" by fastforce
  note w = r [unfolded crypt_entry_def Let_def ck prod.case]
  have "r \<noteq> Inl PSA_SUCCESS" using check_key_Inl ck by metis
  then obtain attrs d where rr: "r = Inr (attrs, d)"
    using w by (cases r) (auto split: if_splits)
  let ?g = "if PSA_KEY_TYPE_IS_RSA (type attrs) then
      (if out_null out \<and> out_size out \<noteq> 0 then fail_with PSA_ERROR_INVALID_ARGUMENT else f attrs d)
    else fail_with (if PSA_KEY_TYPE_IS_ASYMMETRIC (type attrs) then PSA_ERROR_NOT_SUPPORTED else PSA_ERROR_INVALID_ARGUMENT)"
  have "sign_out (wolfpsa_clear_length len) (?g s1) = (PSA_SUCCESS, c, len', s')"
    using w rr by (auto split: if_splits)
  then have S: "?g s1 = (Inr c, s')" "len' = Some (length c)"
    by (rule sign_out_success; simp add: f)+
  show ?thesis by (rule that [of attrs d s1]) (use ck rr S in \<open>auto simp: check_key_Inr split: if_splits\<close>)
qed

text \<open>
  C19: Decryption undoes encryption. When \<open>psa_asymmetric_encrypt\<close> succeeds with a stored RSA key
  pair, with either padding and any label, it reports the length of the ciphertext and stays
  within its buffer; and a later \<open>psa_asymmetric_decrypt\<close> with the same id, of that ciphertext with
  the same algorithm and label, gives back the message, for every output buffer the message fits
  into, in every state in which the same key pair is stored under the id (\<open>key_at\<close>) with the usage
  flag to decrypt, the library is initialised and its lock free, no failure is pending in the POSIX
  store or the allocator, and no volatile key is empty. Of wolfCrypt it is assumed that a random
  generator is available to decryption (\<open>rsa_rng_available\<close>) and that its private operation undoes
  its public one (\<open>rsa_crypt_correct\<close>).
\<close>

theorem rsa_decryption_inverts:
  assumes env: "env_ops env = posix_ops os" and lk: "lock_ok s"
    and up: "rsa_rng_available (as_dev A) (as_rsa A)" and ok: "rsa_crypt_correct (as_rsa A)"
    and enc: "psa_asymmetric_encrypt env A k a m salt out len s = (PSA_SUCCESS, c, len', s')"
    and r: "ready (env_build env) s2" "g_psa_crypto_initialized s2" "posix_healthy os (store s2)" "allocs s2 = []"
      "\<And>n. n \<in> set (g_volatile_keys s2) \<Longrightarrow> data n \<noteq> []"
    and ky: "key_at posix_recs s2 k = key_at posix_recs s k"
    and use: "\<And>attrs d. key_at posix_recs s k = Some (attrs, d) \<Longrightarrow>
      usage (policy attrs) AND PSA_KEY_USAGE_DECRYPT = PSA_KEY_USAGE_DECRYPT \<and> type attrs = PSA_KEY_TYPE_RSA_KEY_PAIR"
    and fits: "length (in_bytes m) \<le> n"
  shows "len' = Some (length c) \<and> length c \<le> out_size out \<and>
    (\<exists>s3. psa_asymmetric_decrypt env A k a (In c) salt (Out n) (Some l) s2 =
       (PSA_SUCCESS, in_bytes m, Some (length (in_bytes m)), s3))"
proof -
  from enc obtain attrs d s1 where l: "load_key env k s = (Inr (attrs, d), s1)"
    and p: "policy_admits attrs PSA_KEY_USAGE_ENCRYPT a"
    and e: "psa_asymmetric_encrypt_rsa (as_dev A) (as_rsa A) (type attrs) (unat (bits attrs)) d a m salt out s1 = (Inr c, s')"
    and ln: "len' = Some (length c)" and rsa: "PSA_KEY_TYPE_IS_RSA (type attrs)"
    unfolding psa_asymmetric_encrypt_def by (rule crypt_entry_success) simp
  note ka = posix_keys.load_key_sound(2) [OF env lk l refl]
  note t = use [OF ka]
  have v: "policy_admits attrs PSA_KEY_USAGE_DECRYPT a"
    by (rule policy_admits_verify [OF p _ conjunct1 [OF t]]) simp
  obtain s3 where ck: "wolfpsa_asymmetric_check_key env k PSA_KEY_USAGE_DECRYPT a s2 = (Inr (attrs, d), s3)"
    and al: "allocs s3 = []"
    by (rule check_key_again [OF env r ky [unfolded ka] v])
  note R = rsa_crypt_roundtrip [OF e [unfolded conjunct2 [OF t]] up ok al, of "Out n"]
  obtain s4 where "psa_asymmetric_decrypt_rsa (as_dev A) (as_rsa A) PSA_KEY_TYPE_RSA_KEY_PAIR d a (In c) salt (Out n) s3 = (Inr (in_bytes m), s4)"
    using R(1) fits by auto
  then show ?thesis using ln R(2) fits ck rsa t
    by (simp add: psa_asymmetric_decrypt_def crypt_entry_def wolfpsa_clear_length_def)
qed

text \<open>A stored RSA key pair that encrypts with OAEP and SHA-256.\<close>

abbreviation demo_oaep :: psa_algorithm_t where "demo_oaep \<equiv> 0x07000309"

abbreviation demo_rsa_pair :: "unit posix_state key_store" where
  "demo_rsa_pair \<equiv> demo_with (demo_rsa_attr PSA_KEY_TYPE_RSA_KEY_PAIR 0x300 demo_oaep) [9]"

lemma demo_encrypt:
  "\<exists>c len s'. psa_asymmetric_encrypt demo_env demo_asym PSA_KEY_ID_VENDOR_MIN demo_oaep (In [1, 2, 3]) (In [4]) (Out 128) (Some 0)
     demo_rsa_pair = (PSA_SUCCESS, c, len, s')"
proof -
  have "wolfpsa_asymmetric_check_key demo_env PSA_KEY_ID_VENDOR_MIN PSA_KEY_USAGE_ENCRYPT demo_oaep demo_rsa_pair =
      (Inr (demo_rsa_attr PSA_KEY_TYPE_RSA_KEY_PAIR 0x300 demo_oaep, [9]), demo_rsa_pair)"
    by (simp add: check_key_Inr policy_admits_code wolfpsa_asymmetric_alg_permitted_def wolfpsa_sign_alg_permitted_def psa_defs)
  then show ?thesis
    by (simp add: psa_asymmetric_encrypt_def crypt_entry_def wolfpsa_clear_length_def psa_asymmetric_encrypt_rsa_def
        wolfpsa_check_word32_length_def wc_psa_get_rsa_padding_def wc_psa_get_hash_type_def psa_defs
        demo_rsa_def demo_device_def with_rng_def rsa_decode_key_def rsa_finish_def demo_block_def give_def)
qed

theorem rsa_decryption_inverts_witness:
  "\<exists>c s3. psa_asymmetric_decrypt demo_env demo_asym PSA_KEY_ID_VENDOR_MIN demo_oaep (In c) (In [4]) (Out 3) (Some 0)
     demo_rsa_pair = (PSA_SUCCESS, [1, 2, 3], Some 3, s3)"
proof -
  obtain c len s' where "psa_asymmetric_encrypt demo_env demo_asym PSA_KEY_ID_VENDOR_MIN demo_oaep (In [1, 2, 3]) (In [4]) (Out 128)
      (Some 0) demo_rsa_pair = (PSA_SUCCESS, c, len, s')" using demo_encrypt by blast
  from rsa_decryption_inverts [OF demo_env_simps(1) demo_with_simps(2) _ _ this, of demo_rsa_pair 3 0]
  show ?thesis using demo_healthy demo_rsa_ok by (auto simp: numeral_3_eq_3)
qed

section \<open>ECDSA\<close>

text \<open>The types of elliptic-curve keys are not the ones of the other back ends.\<close>

lemma ecc_type_apart:
  assumes "PSA_KEY_TYPE_IS_ECC t"
  shows "\<not> PSA_KEY_TYPE_IS_RSA t" "\<not> PSA_KEY_TYPE_IS_ML_DSA t" "\<not> is_lms_type t" "\<not> is_xmss_type t"
  using assms by (auto simp: psa_defs is_lms_type_def is_xmss_type_def)

lemma deterministic_dispatch_device:
  assumes "PSA_KEY_TYPE_IS_ECC (type attrs)" and a: "PSA_ALG_IS_DETERMINISTIC_ECDSA a"
  shows "sign_dispatch b (A\<lparr>as_dev := as_dev A\<lparr>dev_default := dev\<rparr>\<rparr>) attrs d a h c out = sign_dispatch b A attrs d a h c out"
proof -
  have "a \<noteq> PSA_ALG_PURE_EDDSA" "a \<noteq> PSA_ALG_EDDSA_CTX" "a \<noteq> PSA_ALG_ED25519PH" "a \<noteq> PSA_ALG_ED448PH"
    using a by (auto simp: psa_defs)
  then show ?thesis using ecc_type_apart(1) [OF assms(1)]
    by (simp add: sign_dispatch_def sign_ecc_deterministic_device [OF a] Let_def psa_asymmetric_sign_ed25519_def
        psa_asymmetric_sign_ed448_def)
qed

text \<open>
  C29: Deterministic ECDSA is not sent to a crypto device. With an elliptic-curve key and a
  deterministic ECDSA algorithm, \<open>psa_sign_hash\<close> and \<open>psa_sign_message\<close> do the same whatever
  default device the asymmetric back ends see: the key is loaded into an object of the invalid
  device, so that a device that ignores the request for a deterministic nonce is never asked. (The
  hashing of a message, which has no nonce, is outside this statement.)
\<close>

theorem deterministic_ecdsa_ignores_device:
  assumes t: "\<And>attrs d s1. load_key env k s = (Inr (attrs, d), s1) \<Longrightarrow> PSA_KEY_TYPE_IS_ECC (type attrs)"
    and a: "PSA_ALG_IS_DETERMINISTIC_ECDSA a"
  shows "psa_sign_hash env (A\<lparr>as_dev := as_dev A\<lparr>dev_default := dev\<rparr>\<rparr>) k a h out len s = psa_sign_hash env A k a h out len s \<and>
    psa_sign_message env (A\<lparr>as_dev := as_dev A\<lparr>dev_default := dev\<rparr>\<rparr>) k a x out len s = psa_sign_message env A k a x out len s"
proof -
  let ?A = "A\<lparr>as_dev := as_dev A\<lparr>dev_default := dev\<rparr>\<rparr>"
  have na: "a \<noteq> PSA_ALG_PURE_EDDSA" "a \<noteq> PSA_ALG_EDDSA_CTX" using a by (auto simp: psa_defs)
  have l: "sign_hash_loaded b ?A attrs d a h c out = sign_hash_loaded b A attrs d a h c out"
    "sign_message_loaded env ?A attrs d a x c out = sign_message_loaded env A attrs d a x c out"
    if "PSA_KEY_TYPE_IS_ECC (type attrs)" for b attrs d h x c out
    using ecc_type_apart [OF that] na
    by (simp_all add: sign_hash_loaded_def sign_message_loaded_def deterministic_dispatch_device [OF that a] Let_def)
  have ck: "PSA_KEY_TYPE_IS_ECC (type attrs)" if "wolfpsa_asymmetric_check_key env k u a s = (Inr (attrs, d), s1)" for u attrs d s1
    using that t by (simp add: check_key_Inr)
  show ?thesis
    by (auto simp: psa_sign_hash_def psa_sign_message_def wolfpsa_sign_hash_worker_def wolfpsa_sign_message_worker_def Let_def
        l ck split: prod.split sum.split)
qed

theorem deterministic_ecdsa_ignores_device_witness:
  "psa_sign_hash demo_env (demo_asym\<lparr>as_dev := demo_device\<lparr>dev_default := 9\<rparr>\<rparr>) PSA_KEY_ID_VENDOR_MIN 0x06000709 (In [1, 2]) (Out 64) (Some 0)
     (demo_sign_ks 0x06000709) =
   psa_sign_hash demo_env demo_asym PSA_KEY_ID_VENDOR_MIN 0x06000709 (In [1, 2]) (Out 64) (Some 0) (demo_sign_ks 0x06000709)"
proof -
  have t: "PSA_KEY_TYPE_IS_ECC (type attrs)"
    if "load_key demo_env PSA_KEY_ID_VENDOR_MIN (demo_sign_ks 0x06000709) = (Inr (attrs, d), s1)" for attrs d s1
    using that by (auto simp: psa_defs)
  have a: "PSA_ALG_IS_DETERMINISTIC_ECDSA 0x06000709" by (simp add: psa_defs)
  have s: "as_dev demo_asym\<lparr>dev_default := 9\<rparr> = demo_device\<lparr>dev_default := 9\<rparr>" by simp
  show ?thesis
    by (rule deterministic_ecdsa_ignores_device [OF _ a, where A = demo_asym and dev = 9, unfolded s, THEN conjunct1]) (rule t)
qed

text \<open>The bits of an ECDSA algorithm outside its hash.\<close>

lemma ecdsa_alg:
  "PSA_ALG_IS_ECDSA (PSA_ALG_ECDSA h)" "\<not> PSA_ALG_IS_DETERMINISTIC_ECDSA (PSA_ALG_ECDSA h)"
  "PSA_ALG_IS_SIGN_HASH (PSA_ALG_ECDSA h)" "\<not> PSA_ALG_IS_KEY_AGREEMENT (PSA_ALG_ECDSA h)"
  "PSA_ALG_ECDSA h AND NOT PSA_ALG_HASH_MASK = PSA_ALG_ECDSA_BASE"
proof -
  have m: "PSA_ALG_ECDSA h AND x = 0x06000600 AND x" if "x AND 0xff = 0" for x
    using that by (simp add: PSA_ALG_ECDSA_def bit.conj_disj_distrib2 and.assoc and.commute [of "0xff" x])
  have "PSA_ALG_ECDSA h \<noteq> y" if "y AND NOT 0xff \<noteq> 0x06000600" for y
    using that m [of "NOT 0xff"] by auto
  with m show "PSA_ALG_IS_ECDSA (PSA_ALG_ECDSA h)" "\<not> PSA_ALG_IS_DETERMINISTIC_ECDSA (PSA_ALG_ECDSA h)"
    "PSA_ALG_IS_SIGN_HASH (PSA_ALG_ECDSA h)" "\<not> PSA_ALG_IS_KEY_AGREEMENT (PSA_ALG_ECDSA h)"
    "PSA_ALG_ECDSA h AND NOT PSA_ALG_HASH_MASK = PSA_ALG_ECDSA_BASE"
    unfolding PSA_ALG_IS_ECDSA_def PSA_ALG_IS_DETERMINISTIC_ECDSA_def PSA_ALG_ECDSA_IS_DETERMINISTIC_def
      PSA_ALG_IS_SIGN_HASH_def PSA_ALG_IS_SIGN_def PSA_ALG_IS_KEY_AGREEMENT_def
    by (simp_all add: and.assoc)
qed

text \<open>
  A wildcard is accepted as a request. For a key whose policy is ECDSA with any hash,
  \<open>psa_sign_hash\<close> with the wildcard itself as the algorithm does exactly what it does with ECDSA
  and a concrete hash: neither the policy check nor the elliptic-curve back end asks for a concrete
  hash.
\<close>

theorem ecdsa_wildcard_request:
  assumes l: "load_key env k s = (Inr (attrs, d), s1)" and p: "alg (policy attrs) = PSA_ALG_ECDSA PSA_ALG_ANY_HASH"
    and t: "PSA_KEY_TYPE_IS_ECC (type attrs)" "type attrs \<noteq> ed_pair_type"
  shows "psa_sign_hash env A k (PSA_ALG_ECDSA PSA_ALG_ANY_HASH) x out len s = psa_sign_hash env A k (PSA_ALG_ECDSA h) x out len s"
proof -
  have n: "PSA_ALG_ECDSA g = PSA_ALG_ECDSA PSA_ALG_ANY_HASH" if "PSA_ALG_SIGN_GET_HASH (PSA_ALG_ECDSA g) = PSA_ALG_ANY_HASH" for g
  proof -
    have "((PSA_ALG_ECDSA g AND 0xff) OR 0x02000000) AND 0xff = (0x020000ff AND 0xff :: psa_algorithm_t)"
      using that by (simp add: PSA_ALG_SIGN_GET_HASH_def split: if_split_asm)
    then have "g AND 0xff = 0xff"
      by (simp add: PSA_ALG_ECDSA_def bit.conj_disj_distrib2 and.assoc)
    then show ?thesis by (simp add: PSA_ALG_ECDSA_def)
  qed
  have k: "PSA_ALG_SIGN_GET_HASH (PSA_ALG_ECDSA PSA_ALG_ANY_HASH) = PSA_ALG_ANY_HASH" by (simp add: psa_defs)
  have w: "wolfpsa_sign_alg_permitted (PSA_ALG_ECDSA PSA_ALG_ANY_HASH) (PSA_ALG_ECDSA g) u" for g u
    using n [of g] k ecdsa_alg(3,5) by (auto simp: wolfpsa_sign_alg_permitted_def)
  have z: "PSA_ALG_ECDSA PSA_ALG_ANY_HASH \<noteq> PSA_ALG_NONE" by (simp add: psa_defs)
  have c: "wolfpsa_asymmetric_check_key env k u (PSA_ALG_ECDSA g) s =
      (if usage (policy attrs) AND u = u then Inr (attrs, d) else Inl PSA_ERROR_NOT_PERMITTED, s1)" for u g
    using w z ecdsa_alg(4) by (simp add: wolfpsa_asymmetric_check_key_def l p wolfpsa_asymmetric_alg_permitted_def
        psa_get_key_usage_flags_def psa_get_key_algorithm_def)
  have q: "psa_asymmetric_sign_ecc b D E ty n d (PSA_ALG_ECDSA g) x out = psa_asymmetric_sign_ecc b D E ty n d (PSA_ALG_ECDSA 0) x out"
    for b D E ty n g by (simp add: psa_asymmetric_sign_ecc_def ecdsa_alg Let_def cong: if_cong)
  have e: "sign_hash_loaded b A attrs d (PSA_ALG_ECDSA g) x (NullIn 0) out =
      (if wolfpsa_sign_output_size (type attrs) (unat (bits attrs)) 0 \<noteq> 0 \<and>
          out_size out < wolfpsa_sign_output_size (type attrs) (unat (bits attrs)) 0
       then fail_with PSA_ERROR_BUFFER_TOO_SMALL
       else psa_asymmetric_sign_ecc b (as_dev A) (as_ecc A) (type attrs) (unat (bits attrs)) d (PSA_ALG_ECDSA 0) x out)" for b g
    using ecc_type_apart [OF t(1)] t
    by (simp add: sign_hash_loaded_def sign_dispatch_def wolfpsa_check_context_def wolfpsa_sign_output_size_def
        PSA_SIGN_OUTPUT_SIZE_def ecdsa_alg q [of _ _ _ _ _ g] Let_def)
  show ?thesis unfolding psa_sign_hash_def wolfpsa_sign_hash_worker_def Let_def c by (simp add: e)
qed

theorem ecdsa_wildcard_request_witness:
  "psa_sign_hash demo_env demo_asym PSA_KEY_ID_VENDOR_MIN (PSA_ALG_ECDSA PSA_ALG_ANY_HASH) (In [1]) (Out 64) (Some 0)
     (demo_sign_ks 0x060006ff) =
   psa_sign_hash demo_env demo_asym PSA_KEY_ID_VENDOR_MIN (PSA_ALG_ECDSA PSA_ALG_SHA_256) (In [1]) (Out 64) (Some 0)
     (demo_sign_ks 0x060006ff)"
  by (rule ecdsa_wildcard_request [of demo_env PSA_KEY_ID_VENDOR_MIN "demo_sign_ks 0x060006ff" "demo_sign_attr 0x060006ff" "[5]" "demo_sign_ks 0x060006ff"])
    (simp_all add: psa_defs)

end
