(* ===== verification/Asym_Link.thy ===== *)
theory Asym_Link
  imports Asym_Properties
begin

text \<open>
  Key management over the modelled back ends: the generators and exporters that
  \<open>src/psa_key_storage.c\<close> calls are those of \<open>src/psa_rsa.c\<close>, \<open>src/psa_ecc.c\<close>,
  \<open>src/psa_ed25519_ed448.c\<close> and \<open>src/psa_mldsa.c\<close>. What is shown: they keep to their buffers, as
  key management relies on, and a public key that was exported accepts what its key pair signs.
\<close>

unbundle bit_operations_syntax

section \<open>The environment with the back ends in place\<close>

text \<open>
  A generator is called with the number of its random generator; nothing else of the state
  matters to it. The private key is what is imported.
\<close>

definition gen_bytes :: "(byte list \<times> byte list, unit) asym_run \<Rightarrow> nat \<Rightarrow> psa_status \<times> byte list" where
  "gen_bytes f i =
    (case fst (f ((fresh_store ())\<lparr>rng_calls := i\<rparr>)) of Inl e \<Rightarrow> (e, []) | Inr (priv, pub) \<Rightarrow> (PSA_SUCCESS, priv))"

definition status_bytes :: "psa_status + byte list \<Rightarrow> psa_status \<times> byte list" where
  "status_bytes r = (case r of Inl e \<Rightarrow> (e, []) | Inr bs \<Rightarrow> (PSA_SUCCESS, bs))"

definition asym_env ::
    "('st, 'h) psa_env \<Rightarrow> ('e, 'r, 'd, 'f, 'k, 'l, 'x, 'hh) asym_engine \<Rightarrow> ('st, 'h) psa_env" where
  "asym_env env A =
    (let D = as_dev A; b = env_build env; pub = \<lambda>n. Out (PSA_KEY_EXPORT_ECC_PUBLIC_KEY_MAX_SIZE n) in
     env\<lparr>gen_rsa := \<lambda>i n c.
           gen_bytes (psa_asymmetric_generate_key_rsa D (as_rsa A) PSA_KEY_TYPE_RSA_KEY_PAIR n (Out c) (NullOut 0) False) i,
         gen_ecc := \<lambda>i t n c. gen_bytes (psa_asymmetric_generate_key_ecc b D (as_ecc A) t n (Out c) (pub n)) i,
         gen_ed25519 := \<lambda>i c.
           gen_bytes (psa_asymmetric_generate_key_ed25519 D (as_ed25519 A) ed_pair_type 255 (Out c) (pub 255)) i,
         gen_ed448 := \<lambda>i c.
           gen_bytes (psa_asymmetric_generate_key_ed448 D (as_ed448 A) ed_pair_type 448 (Out c) (pub 448)) i,
         export_ecc := \<lambda>t n d c. status_bytes (psa_asymmetric_export_public_key_ecc b D (as_ecc A) t n d (Out c)),
         export_ed25519 := \<lambda>d c.
           status_bytes (psa_asymmetric_export_public_key_ed25519 D (as_ed25519 A) ed_pair_type 255 d (Out c)),
         export_ed448 := \<lambda>d c.
           status_bytes (psa_asymmetric_export_public_key_ed448 D (as_ed448 A) ed_pair_type 448 d (Out c)),
         export_mldsa := \<lambda>n d c. status_bytes (wolfpsa_mldsa_export_public D (as_mldsa A) n d (Out c))\<rparr>)"

lemma asym_env_simps [simp]:
  "env_build (asym_env env A) = env_build env" "env_ops (asym_env env A) = env_ops env"
  "wc_rng_block (asym_env env A) = wc_rng_block env" "gen_x25519 (asym_env env A) = gen_x25519 env"
  "gen_x448 (asym_env env A) = gen_x448 env" "mldsa_seed (asym_env env A) = mldsa_seed env"
  "mlkem_seed (asym_env env A) = mlkem_seed env"
  by (simp_all add: asym_env_def Let_def)

section \<open>Generators keep to their buffers\<close>

text \<open>What wolfCrypt documents of the functions that write a key: they stay within the size they are given.\<close>

definition key_writers_fit :: "('e, 'r, 'd, 'f, 'k, 'l, 'x, 'hh) asym_engine \<Rightarrow> bool" where
  "key_writers_fit A \<longleftrightarrow>
    (\<forall>k out bs. ret_bytes (wc_RsaKeyToDer (as_rsa A) k out) = Inr bs \<longrightarrow> length bs \<le> out_size out) \<and>
    (\<forall>k n bs. mp_to_unsigned_bin_len (as_ecc A) k n = (WC_OK, bs) \<longrightarrow> length bs \<le> n) \<and>
    (\<forall>k out bs. wc_ecc_export_x963 (as_ecc A) k out = (WC_OK, bs) \<longrightarrow> length bs \<le> out_size out) \<and>
    (\<forall>k out bs. ed_export_private_only (as_ed25519 A) k out = (WC_OK, bs) \<longrightarrow> length bs \<le> out_size out) \<and>
    (\<forall>k out bs. ed_export_private_only (as_ed448 A) k out = (WC_OK, bs) \<longrightarrow> length bs \<le> out_size out)"

lemma gen_bytes_length:
  assumes "\<And>s s' priv pub. f s = (Inr (priv, pub), s') \<Longrightarrow> length priv \<le> c"
  shows "length (snd (gen_bytes f i)) \<le> c"
proof -
  obtain r s' where f: "f ((fresh_store ())\<lparr>rng_calls := i\<rparr>) = (r, s')" by fastforce
  then show ?thesis using assms by (cases r) (auto simp: gen_bytes_def split: prod.split)
qed

lemma generators_fit:
  assumes "key_writers_fit A"
  shows "psa_asymmetric_generate_key_rsa D (as_rsa A) t n (Out c) pub w s = (Inr (priv, pk), s') \<Longrightarrow> length priv \<le> c"
    and "psa_asymmetric_generate_key_ecc b D (as_ecc A) t n (Out c) pub s = (Inr (priv, pk), s') \<Longrightarrow> length priv \<le> c"
    and "psa_asymmetric_generate_key_ed25519 D (as_ed25519 A) t n (Out c) pub s = (Inr (priv, pk), s') \<Longrightarrow> length priv \<le> c"
    and "psa_asymmetric_generate_key_ed448 D (as_ed448 A) t n (Out c) pub s = (Inr (priv, pk), s') \<Longrightarrow> length priv \<le> c"
proof -
  have F: "\<And>k out bs. ret_bytes (wc_RsaKeyToDer (as_rsa A) k out) = Inr bs \<Longrightarrow> length bs \<le> out_size out"
    "\<And>k n bs. mp_to_unsigned_bin_len (as_ecc A) k n = (WC_OK, bs) \<Longrightarrow> length bs \<le> n"
    "\<And>k out bs. ed_export_private_only (as_ed25519 A) k out = (WC_OK, bs) \<Longrightarrow> length bs \<le> out_size out"
    "\<And>k out bs. ed_export_private_only (as_ed448 A) k out = (WC_OK, bs) \<Longrightarrow> length bs \<le> out_size out"
    using assms by (simp_all add: key_writers_fit_def)
  show "psa_asymmetric_generate_key_rsa D (as_rsa A) t n (Out c) pub w s = (Inr (priv, pk), s') \<Longrightarrow> length priv \<le> c"
    by (auto simp: psa_asymmetric_generate_key_rsa_def wc_step_Inr with_rng_Inr case_sum_Inr dest!: F(1) split: if_splits)
  show "psa_asymmetric_generate_key_ecc b D (as_ecc A) t n (Out c) pub s = (Inr (priv, pk), s') \<Longrightarrow> length priv \<le> c"
    by (auto simp: psa_asymmetric_generate_key_ecc_def wc_step_Inr with_rng_Inr Let_def dest!: F(2) split: if_splits)
  show "psa_asymmetric_generate_key_ed25519 D (as_ed25519 A) t n (Out c) pub s = (Inr (priv, pk), s') \<Longrightarrow> length priv \<le> c"
    by (auto simp: psa_asymmetric_generate_key_ed25519_def wc_step_Inr with_rng_Inr dest!: F(3) split: if_splits)
  show "psa_asymmetric_generate_key_ed448 D (as_ed448 A) t n (Out c) pub s = (Inr (priv, pk), s') \<Longrightarrow> length priv \<le> c"
    by (auto simp: psa_asymmetric_generate_key_ed448_def wc_step_Inr with_rng_Inr dest!: F(4) split: if_splits)
qed

text \<open>So what key management assumes of its generators holds of the modelled ones.\<close>

lemma asym_env_bounded:
  assumes "env_bounded env" and w: "key_writers_fit A"
  shows "env_bounded (asym_env env A)"
proof -
  have "length (snd (gen_rsa (asym_env env A) i n c)) \<le> c" "length (snd (gen_ecc (asym_env env A) i t n c)) \<le> c"
    "length (snd (gen_ed25519 (asym_env env A) i c)) \<le> c" "length (snd (gen_ed448 (asym_env env A) i c)) \<le> c" for i t n c
    by (simp_all add: asym_env_def Let_def gen_bytes_length generators_fit [OF w])
  with assms(1) show ?thesis by (simp add: env_bounded_def)
qed

section \<open>Exported public keys\<close>

text \<open>The type of the public key of a pair: the same family, another category.\<close>

lemma public_type:
  fixes t :: psa_key_type_t
  defines "p \<equiv> PSA_KEY_TYPE_PUBLIC_KEY_OF_KEY_PAIR t"
  assumes k: "PSA_KEY_TYPE_IS_ECC_KEY_PAIR t"
  shows "PSA_KEY_TYPE_IS_ECC_PUBLIC_KEY p" and "PSA_KEY_TYPE_ECC_GET_FAMILY p = PSA_KEY_TYPE_ECC_GET_FAMILY t"
    and "PSA_KEY_TYPE_IS_ECC p" and "PSA_KEY_TYPE_IS_ECC t" and "p = ed_public_type \<Longrightarrow> t = ed_pair_type"
    and "p \<noteq> ed_pair_type"
proof -
  have e: "t AND NOT 0xff = 0x7100" using k by (simp only: psa_defs)
  have pd: "p = t AND NOT 0x3000" by (simp only: p_def psa_defs)
  have "p AND NOT 0xff = (t AND NOT 0xff) AND NOT 0x3000" by (simp add: pd ac_simps)
  then have u: "p AND NOT 0xff = 0x4100" unfolding e by simp
  have l: "p AND 0xff = t AND 0xff" by (simp add: pd and.assoc)
  have split: "x = (x AND NOT 0xff) OR (x AND 0xff)" for x :: psa_key_type_t
    by (metis bit.conj_cancel_left bit.conj_disj_distrib and.right_neutral bit.disj_cancel_left)
  have pp: "p AND NOT 0x3000 = p" by (simp add: pd and.assoc)
  show "PSA_KEY_TYPE_IS_ECC_PUBLIC_KEY p" using u by (simp only: psa_defs)
  show ip: "PSA_KEY_TYPE_IS_ECC p" unfolding PSA_KEY_TYPE_IS_ECC_def PSA_KEY_TYPE_PUBLIC_KEY_OF_KEY_PAIR_def pp using u .
  show it: "PSA_KEY_TYPE_IS_ECC t" unfolding PSA_KEY_TYPE_IS_ECC_def p_def [symmetric] using u .
  show "PSA_KEY_TYPE_ECC_GET_FAMILY p = PSA_KEY_TYPE_ECC_GET_FAMILY t"
    using ip it by (simp add: PSA_KEY_TYPE_ECC_GET_FAMILY_def PSA_KEY_TYPE_HAS_ECC_FAMILY_def l)
  show "t = ed_pair_type" if "p = ed_public_type"
  proof -
    have m: "t AND 0xff = 0x42" using that l by (simp add: psa_defs)
    have "t = 0x7100 OR 0x42" using split [of t] unfolding e m .
    then show ?thesis by (simp add: psa_defs)
  qed
  show "p \<noteq> ed_pair_type" using u by (auto simp: psa_defs)
qed

lemma public_curve:
  "PSA_KEY_TYPE_IS_ECC_KEY_PAIR t \<Longrightarrow>
   wc_psa_get_ecc_curve_id b (PSA_KEY_TYPE_PUBLIC_KEY_OF_KEY_PAIR t) n = wc_psa_get_ecc_curve_id b t n"
  by (simp add: wc_psa_get_ecc_curve_id_def public_type)

text \<open>An exported public value is the one that wolfCrypt makes from the private key.\<close>

lemma export_ecc_value:
  assumes "psa_asymmetric_export_public_key_ecc b D E t n d (Out c) = Inr pk" and t: "PSA_KEY_TYPE_IS_ECC_KEY_PAIR t"
  shows "ecc_public_value E d (wc_psa_get_ecc_curve_id b t n) pk" and "c \<le> UINT32_MAX"
    and "\<exists>k. wc_ecc_export_x963 E k (Out c) = (WC_OK, pk)"
proof -
  let ?c = "wc_psa_get_ecc_curve_id b t n"
  obtain k0 k2 where i: "wc_ecc_init_ex E (dev_default D) = (WC_OK, k0)"
    and l: "(case wc_ecc_import_private_key_ex E d ?c k0 of (ret, k1) \<Rightarrow> if ret = WC_OK then wc_ecc_make_pub_ex E k1 else (ret, k1)) =
      (WC_OK, k2)" and x: "wc_ecc_export_x963 E k2 (Out c) = (WC_OK, pk)" and "c \<le> UINT32_MAX"
    using assms by (auto simp: psa_asymmetric_export_public_key_ecc_def Let_def wc_try_Inr wolfpsa_check_word32_length_def
        split: if_splits prod.splits)
  have "ecc_pair_object E d ?c k2" using i l by (auto simp: ecc_pair_object_def split: prod.splits if_splits)
  with x \<open>c \<le> UINT32_MAX\<close> show "ecc_public_value E d ?c pk" "c \<le> UINT32_MAX" "\<exists>k. wc_ecc_export_x963 E k (Out c) = (WC_OK, pk)"
    by (auto simp: ecc_public_value_def)
qed

lemma wc_try_failure: "(\<And>x. k x \<noteq> Inl PSA_SUCCESS) \<Longrightarrow> wc_try r k \<noteq> Inl PSA_SUCCESS"
  by (cases r) (simp add: wc_try_def)

lemma export_ecc_failure: "psa_asymmetric_export_public_key_ecc b D E t n d out \<noteq> Inl PSA_SUCCESS"
  unfolding psa_asymmetric_export_public_key_ecc_def Let_def
  by (simp add: wc_try_failure case_prod_unfold)

text \<open>
  C18: An exported public key accepts what its key pair signs. Let key management use the modelled
  back ends (\<open>asym_env\<close>). A Weierstrass key pair signs a hash with \<open>psa_sign_hash\<close>; its public key is
  exported with \<open>psa_export_public_key\<close>, before or after, in a state that holds the same key under
  the id; and some store, of this or another process with the same engines, holds the exported
  bytes as a public key of the same family and size under an id whose policy admits the
  verification. If there the library is initialised and its lock free, no failure is pending in
  the POSIX store or the allocator, and no volatile key is empty, \<open>psa_verify_hash\<close> with that id
  accepts the signature. Of wolfCrypt it is assumed that its own signatures verify (\<open>asym_correct\<close>)
  and that it keeps to the buffers it writes keys to (\<open>key_writers_fit\<close>).
\<close>

theorem exported_public_key_verifies:
  assumes env: "env_ops env = posix_ops os" and ok: "asym_correct A" and fit: "key_writers_fit A"
    and lk: "lock_ok s" "lock_ok sx"
    and key: "key_at posix_recs s k = Some (attrs, d)" "key_at posix_recs sx k = Some (attrs, d)"
    and t: "PSA_KEY_TYPE_IS_ECC_KEY_PAIR (type attrs)" "PSA_KEY_TYPE_ECC_GET_FAMILY (type attrs) \<noteq> PSA_ECC_FAMILY_TWISTED_EDWARDS"
      "PSA_KEY_TYPE_ECC_GET_FAMILY (type attrs) \<noteq> PSA_ECC_FAMILY_MONTGOMERY"
    and sg: "psa_sign_hash (asym_env env A) A k a h out len s = (PSA_SUCCESS, sig, len', s')"
    and ex: "psa_export_public_key (asym_env env A) k pout False sx = (PSA_SUCCESS, pk, n, sx')"
    and r: "ready (env_build env) s2" "g_psa_crypto_initialized s2" "posix_healthy os (store s2)" "allocs s2 = []"
      "\<And>nd. nd \<in> set (g_volatile_keys s2) \<Longrightarrow> data nd \<noteq> []"
    and pub: "key_at posix_recs s2 k2 = Some (pattrs, pk)" "type pattrs = PSA_KEY_TYPE_PUBLIC_KEY_OF_KEY_PAIR (type attrs)"
      "bits pattrs = bits attrs" "policy_admits pattrs PSA_KEY_USAGE_VERIFY_HASH a"
  shows "\<exists>s3. psa_verify_hash (asym_env env A) A k2 a h (In sig) s2 = (PSA_SUCCESS, s3)"
proof -
  let ?e = "asym_env env A" and ?t = "type attrs" and ?n = "unat (bits attrs)" and ?b = "env_build env"
  have env': "env_ops ?e = posix_ops os" using env by simp
  note pt = public_type [OF t(1), folded pub(2)]
  have ned: "?t \<noteq> ed_pair_type" "type pattrs \<noteq> ed_public_type" "type pattrs \<noteq> ed_pair_type"
    using t pt(5,6) by (auto simp: psa_defs)
  obtain attrs' d' s1 where l: "load_key ?e k s = (Inr (attrs', d'), s1)"
    and m: "sign_hash_loaded ?b A attrs' d' a h (NullIn 0) out s1 = (Inr sig, s')" and nn: "\<not> in_null h"
    using sg unfolding psa_sign_hash_def by (rule sign_hash_worker_success) simp
  have at: "attrs' = attrs" "d' = d" using posix_keys.load_key_sound(2) [OF env' lk(1) l refl] key(1) by simp_all
  have cx: "PSA_ALG_IS_SIGN_HASH a" and
    sd: "psa_asymmetric_sign_ecc ?b (as_dev A) (as_ecc A) ?t ?n d a h out s1 = (Inr sig, s')"
    using m ecc_type_apart [OF pt(4)] pt(4) ned at by (auto simp: sign_hash_loaded_def sign_dispatch_def Let_def split: if_splits)
  obtain ecc rng sa where g: "PSA_ALG_IS_ECDSA a" "wc_psa_get_ecc_curve_id ?b ?t ?n \<noteq> ECC_CURVE_INVALID"
    "wolfpsa_check_word32_length (in_length h) = PSA_SUCCESS" "ecc_signer (as_ecc A) d (wc_psa_get_ecc_curve_id ?b ?t ?n) ecc"
    "ecc_sign_raw (as_ecc A) (PSA_BITS_TO_BYTES ?n) h rng ecc sa = (Inr sig, s')"
    by (rule sign_ecc_Inr [OF sd])
  have xo: "\<exists>sy. export_public_of ?e attrs d (out_size pout) sy = (PSA_SUCCESS, pk, n, sx')"
    using posix_keys.export_public_sound [OF env' lk(2) ex] key(2) by (auto simp: key_at_def)
  have xp: "psa_asymmetric_export_public_key_ecc ?b (as_dev A) (as_ecc A) ?t ?n d (Out (out_size pout)) = Inr pk"
  proof -
    have np: "\<not> PSA_KEY_TYPE_IS_ECC_PUBLIC_KEY ?t" using t(1) by (rule types_exclusive)
    obtain sy where "export_public_of ?e attrs d (out_size pout) sy = (PSA_SUCCESS, pk, n, sx')" using xo by blast
    then have "status_bytes (psa_asymmetric_export_public_key_ecc ?b (as_dev A) (as_ecc A) ?t ?n d (Out (out_size pout))) = (PSA_SUCCESS, pk)"
      using t(2,3) np pt(4) ecc_type_apart(1) [OF pt(4)]
      by (simp add: export_public_of_def export_ecc_pair_def backend_public_def asym_env_def Let_def prod_eq_iff)
    then show ?thesis by (auto simp: status_bytes_def export_ecc_failure split: sum.splits)
  qed
  note v = export_ecc_value [OF xp t(1)]
  have lp: "length pk \<le> UINT32_MAX" using v(2,3) fit by (fastforce simp: key_writers_fit_def)
  obtain s3 where ck: "wolfpsa_asymmetric_check_key ?e k2 PSA_KEY_USAGE_VERIFY_HASH a s2 = (Inr (pattrs, pk), s3)"
    and al: "allocs s3 = []"
    using check_key_again [OF env' _ r(2-5) pub(1,4)] r(1) by auto
  have OK: "ecc_available (as_dev A) (as_ecc A)" "ecc_correct (as_ecc A)" using ok by (simp_all add: asym_correct_def)
  have "psa_asymmetric_verify_ecc ?b (as_dev A) (as_ecc A) (type pattrs) ?n pk a h (In sig) s3 = (Inr (), s3)"
    by (rule verify_ecc_given [OF _ public_curve [OF t(1), folded pub(2)] g(2,1) lp _ OK al g(4,5)])
      (use pt(1) v(1) g(3) in \<open>auto simp: wolfpsa_check_word32_length_def split: if_splits\<close>)
  moreover have "sig \<noteq> []" using sign_ecc_length(1) [OF sd] curve_bits_pos [OF g(2)] by auto
  ultimately have "verify_hash_loaded ?b A pattrs pk a h (NullIn 0) (In sig) s3 = (Inr (), s3)"
    using ecc_type_apart [OF pt(3)] pt(3) ned(2,3) cx pub(3)
    by (simp add: verify_hash_loaded_def verify_dispatch_def wolfpsa_check_context_def Let_def)
  then show ?thesis using ck nn by (simp add: psa_verify_hash_def wolfpsa_verify_hash_worker_def)
qed

text \<open>The witness: the key pair of \<open>Asym_Demo\<close>, and its exported public key in another store.\<close>

lemma asym_env_load_key [simp]: "load_key (asym_env env A) = load_key env"
  unfolding load_key_def wolfpsa_get_key_data_def load_persistent_def open_read_header_def close_handle_def read_body_close_def
    asym_env_simps by (rule refl)

lemma demo_writers_fit: "key_writers_fit demo_asym"
  by (auto simp: key_writers_fit_def demo_asym_def demo_rsa_def demo_ecc_def demo_ed_def demo_block_ret dest: demo_block_size
      split: if_splits)

definition demo_public_attr :: psa_key_attributes_t where
  "demo_public_attr = psa_key_attributes_init
    \<lparr>type := 0x4112, bits := 256,
     policy := \<lparr>usage = PSA_KEY_USAGE_VERIFY_HASH, alg = demo_ecdsa, alg2 = PSA_ALG_NONE\<rparr>\<rparr>"

lemma demo_export_public:
  "psa_export_public_key (asym_env demo_env demo_asym) PSA_KEY_ID_VENDOR_MIN (Out 65) False (demo_sign_ks demo_ecdsa) =
    (PSA_SUCCESS, [5], 1, demo_sign_ks demo_ecdsa)"
proof -
  let ?s = "demo_sign_ks demo_ecdsa"
  have c: "wc_psa_get_ecc_curve_id default_build 0x7112 256 = ECC_SECP256R1"
    by (simp add: wc_psa_get_ecc_curve_id_def default_build_def psa_defs)
  have "psa_asymmetric_export_public_key_ecc default_build demo_device demo_ecc 0x7112 256 [5] (Out 65) = Inr [5]"
    using c by (simp add: psa_asymmetric_export_public_key_ecc_def wolfpsa_check_word32_length_def wc_try_def demo_ecc_def psa_defs)
  then have "export_public_of (asym_env demo_env demo_asym) (demo_sign_attr demo_ecdsa) [5] 65 ?s = (PSA_SUCCESS, [5], 1, ?s)"
    by (simp add: export_public_of_def export_ecc_pair_def backend_public_def asym_env_def status_bytes_def psa_defs)
  then show ?thesis
    by (simp add: psa_export_public_key_def check_init_ready volatile_get_ready has_public_part_def psa_defs)
qed

theorem exported_public_key_verifies_witness:
  "\<exists>s3. psa_verify_hash (asym_env demo_env demo_asym) demo_asym PSA_KEY_ID_VENDOR_MIN demo_ecdsa (In [1, 2]) (In demo_sig)
     (demo_with demo_public_attr [5]) = (PSA_SUCCESS, s3)"
proof -
  let ?s = "demo_sign_ks demo_ecdsa"
  have ck: "wolfpsa_asymmetric_check_key (asym_env demo_env demo_asym) = wolfpsa_asymmetric_check_key demo_env"
    by (intro ext) (simp add: wolfpsa_asymmetric_check_key_def)
  have sg: "psa_sign_hash (asym_env demo_env demo_asym) demo_asym PSA_KEY_ID_VENDOR_MIN demo_ecdsa (In [1, 2]) (Out 64) (Some 0) ?s =
      (PSA_SUCCESS, demo_sig, Some 64, ?s\<lparr>rng_calls := Suc 0\<rparr>)"
    using demo_sign_hash
    unfolding psa_sign_hash_def psa_sign_hash_with_context_def wolfpsa_sign_hash_worker_def ck asym_env_simps .
  have p: "policy_admits demo_public_attr PSA_KEY_USAGE_VERIFY_HASH demo_ecdsa"
    by (simp add: policy_admits_code demo_public_attr_def wolfpsa_asymmetric_alg_permitted_def wolfpsa_sign_alg_permitted_def psa_defs)
  show ?thesis
    by (rule exported_public_key_verifies [OF demo_env_simps(1) demo_asym_ok demo_writers_fit _ _ _ _ _ _ _ sg demo_export_public,
          where attrs = "demo_sign_attr demo_ecdsa" and pattrs = demo_public_attr])
      (use p demo_healthy in \<open>simp_all add: demo_public_attr_def psa_defs\<close>)
qed

end
