(* ===== verification/Spec2Isabelle.thy ===== *)
theory Spec2Isabelle
  imports Key_Machine Posix_Keys Mac Cipher_Roundtrip Aead_Machine Xof Key_Wrap Store_Zephyr Kdf_Agree Asym_Link
begin

text \<open>
  \<^bold>\<open>wolfPSA, verified.\<close> wolfPSA implements the PSA Crypto API on top of wolfCrypt. This
  development models its key management (\<open>src/psa_key_storage.c\<close>, \<open>src/psa_store_posix.c\<close>, \<open>src/psa_store_zephyr.c\<close>,
  \<open>src/psa_crypto.c\<close>, \<open>src/psa_engine.c\<close>, \<open>src/psa_random.c\<close>, \<open>src/psa_lock.h\<close>, the parts of the
  \<open>wolfpsa/psa\<close> headers they use) and the operations on keys that keep state of their own:
  message authentication (\<open>src/psa_mac.c\<close>), ciphers (\<open>src/psa_cipher.c\<close>), authenticated
  encryption (\<open>src/psa_aead.c\<close>, \<open>src/psa_aead_internal.h\<close>, \<open>src/psa_chacha20_poly1305.c\<close>), hashes
  (\<open>src/psa_hash_engine.c\<close>), extendable-output functions (\<open>src/psa_xof.c\<close>), key wrapping
  (\<open>src/psa_key_wrap.c\<close>), key derivation (\<open>src/psa_key_derivation.c\<close>), and the asymmetric
  operations (\<open>src/psa_asymmetric_api.c\<close>): key agreement with \<open>src/psa_montgomery.c\<close>, signatures and
  encryption with \<open>src/psa_ecc.c\<close>, \<open>src/psa_rsa.c\<close>, \<open>src/psa_ed25519_ed448.c\<close>, \<open>src/psa_mldsa.c\<close> and
  \<open>src/psa_lms_xmss.c\<close>.

  \<^bold>\<open>The parts and how they interact.\<close> A caller creates keys (import, generate, copy), uses them
  (export, public export, attributes, usage check, and the internal loader that every
  cryptographic operation calls) and destroys them. A volatile key lives in a linked list, a
  persistent key in a record of a store backend chosen at link time; ids come from the caller
  or from a counter. One mutex guards the list, the counter and the check-then-write of a
  persistent import. A MAC, cipher or AEAD operation loads its key once, at set-up, through the same
  loader, checks its type, usage and policy, and from then on works on a context of its own
  that holds the wolfCrypt state and the bytes not yet processed. A key derivation collects its
  inputs first (bytes, keys, shared secrets) and computes its output on demand, from the start
  or from a cache; the keys it gives out are imported into the key store, and
  \<open>psa_key_agreement\<close> drives a whole derivation on the shared secret. A signature or an asymmetric
  encryption is one call: it loads the key, checks usage and policy, reduces a message to a digest
  where the algorithm asks for it, and dispatches on the key type to a back end, the same back
  ends that key management calls to generate keys and to export public ones.

  \<^bold>\<open>Theories.\<close>
  \<^item> \<open>Prelude\<close>: C integer types, buffer arguments, allocation outcomes, little-endian images.
  \<^item> \<open>Psa_Values\<close>: key types, algorithms, lifetimes, sizes and attributes of the PSA headers.
  \<^item> \<open>Psa_Engine\<close>: build options, wolfCrypt return codes and their translation, the device id.
  \<^item> \<open>Key_Codec\<close>, \<open>Key_Der\<close>: curve tables, size inference, validation of key data, the image of
    a record, the DER writer for RSA public keys with a reader and the round trip.
  \<^item> \<open>Key_Policy\<close>: the intersection of algorithm policies, against the set of algorithms that a
    policy denotes.
  \<^item> \<open>Store_Interface\<close>: the backend entry points as a record, their contract as the locale
    \<open>store_backend\<close>. \<open>Store_Posix\<close>: the POSIX backend over a file map and a directory tree, and
    the interpretation of the contract. \<open>Store_Zephyr\<close>: the backend over a storage service
    (\<open>its_ok\<close>) and the stub without one, and that they keep the contract too.
  \<^item> \<open>Psa_Core\<close>: the global state, the mutex, initialisation and the random generator.
  \<^item> \<open>Key_Storage\<close>: the volatile list, the loader and \<open>psa_import_key\<close>; the locale
    \<open>key_backend\<close> collects what the key store does over a backend that keeps its contract.
    \<open>Key_Api\<close>: generation, destruction, export, public export, attributes, copy, usage check.
    \<open>Key_Contract\<close>: these operations against the abstract lookup \<open>ks_lookup\<close>.
  \<^item> \<open>Key_Machine\<close>: the calls as a state machine, its invariant, and its refinement of a map.
  \<^item> \<open>Key_Use\<close>: the load that starts every operation. \<open>Posix_Keys\<close>: the interpretation of the key
    store on the POSIX backend, and a concrete environment for instances of the theorems.
  \<^item> \<open>Mac\<close>: \<open>src/psa_mac.c\<close>, against the MAC function that wolfCrypt computes (\<open>mac_engine_ok\<close>).
  \<^item> \<open>Cipher\<close>: \<open>src/psa_cipher.c\<close>; \<open>Cipher_Machine\<close>: its calls as a state machine, and
    independence of the cut into updates (\<open>cipher_chains\<close>); \<open>Cipher_Roundtrip\<close>: decryption undoes
    encryption (\<open>cipher_inverts\<close>).
  \<^item> \<open>Aead_Ccm\<close>: the context of an AEAD operation, and the streaming CCM that wolfPSA builds from
    the AES block function, against NIST SP 800-38C (\<open>aes_direct\<close>). \<open>Aead\<close>: the entry points of
    \<open>src/psa_aead.c\<close>. \<open>Aead_Stream\<close>: multi-part CCM through these entry points;
    \<open>Aead_Machine\<close>: the calls as a state machine.
  \<^item> \<open>Hash\<close>: \<open>src/psa_hash_engine.c\<close>, against the digest function of wolfCrypt (\<open>hash_engine_ok\<close>).
    \<open>Xof\<close>: \<open>src/psa_xof.c\<close>, its loops as partial functions that are shown to return, against the
    SHAKE stream (\<open>xof_engine_ok\<close>). \<open>Key_Wrap\<close>: \<open>src/psa_key_wrap.c\<close> as an export and an import
    (\<open>key_wrap_inverts\<close>).
  \<^item> \<open>Asym_Agree\<close>: the policy checks of \<open>src/psa_asymmetric_api.c\<close> and the ECDH shared secret.
    \<open>Kdf\<close>: the context of \<open>src/psa_key_derivation.c\<close>, set-up, capacity and inputs;
    \<open>Kdf_Compute\<close>: the derivations, two of whose loops are partial functions; \<open>Kdf_Output\<close>: output
    and verification of bytes and keys, and \<open>psa_key_agreement\<close>. \<open>Kdf_Stream\<close>: the stream of bytes
    that the standards define from the inputs (\<open>kdf_stream\<close>, over \<open>kdf_engine_ok\<close>) and the
    derivations against it. \<open>Kdf_Machine\<close>, \<open>Kdf_Runs\<close>: the calls as a state machine and what
    every call and every run keeps. \<open>Kdf_Demo\<close>: a concrete engine. \<open>Kdf_Properties\<close>, \<open>Kdf_Agree\<close>:
    the theorems about derivations and agreements.
  \<^item> \<open>Asym_Wc\<close>: the algorithm macros and helpers of the asymmetric sources, and runs that may fail.
    \<open>Asym_Ecc\<close>, \<open>Asym_Rsa\<close>, \<open>Asym_Ed\<close>, \<open>Asym_Pqc\<close>: the back ends, each with what wolfCrypt promises and
    that it accepts its own signatures. \<open>Asym_Api\<close>: the entry points of \<open>src/psa_asymmetric_api.c\<close>.
    \<open>Asym_Sign\<close>: one key through the entry points, and which requests a policy grants
    (\<open>policy_grants\<close>). \<open>Asym_Demo\<close>: concrete engines. \<open>Asym_Properties\<close>: the theorems about
    signatures and encryption. \<open>Asym_Link\<close>: key management over these back ends (\<open>asym_env\<close>).

  \<^bold>\<open>State and effects.\<close> \<open>key_store\<close> holds the file-scope variables of the sources, and as
  bookkeeping the state of the mutex, a flag for its misuse, the outcomes of coming allocations
  and mutex creations, a counter of random calls, and the state of the backend. An operation
  takes the state and returns it with the status and what it wrote through its pointers. What
  lies outside (wolfCrypt, the per-algorithm generators and exporters, the file system) is a
  field of \<open>psa_env\<close>, of \<open>dir_ops\<close>, or a script of outcomes in the state, so that theorems hold
  for every behaviour of it; where a theorem needs more, it names the hypothesis
  (\<open>env_bounded\<close>: generators keep to their buffers; \<open>posix_healthy\<close>: no failure pending;
  \<open>mac_engine_ok\<close>, \<open>cipher_chains\<close>, \<open>cipher_inverts\<close>, \<open>aes_direct\<close>, \<open>hash_engine_ok\<close>,
  \<open>xof_engine_ok\<close>, \<open>key_wrap_inverts\<close>, \<open>kdf_engine_ok\<close>: wolfCrypt's documented behaviour; \<open>asym_correct\<close>, \<open>rsa_crypt_correct\<close>,
  \<open>rsa_rng_available\<close>, \<open>key_writers_fit\<close>: the same of its asymmetric part; \<open>its_ok\<close>: that of the
  storage service, \<open>its_roomy\<close>: a storage service that does not fail and has room). The
  operations are those of the default \<open>user_settings.h\<close>.

  \<^bold>\<open>What is shown.\<close> Sequences of calls refine a map from ids to keys (\<open>key_store_refines_map\<close>);
  an import is all or nothing and a write session is atomic whatever fails; a copy never widens
  a policy, with the policy intersection proved exact; exports need permission; loads agree with
  the abstract lookup; persistent keys survive a restart; the mutex discipline and the id
  counter hold in every reachable state; the store opens only below trusted directories;
  the codecs round-trip. A MAC is that of the whole message under the named key and verification
  accepts exactly it; a cipher's output does not depend on how the data was cut, and decryption
  returns the plaintext; the streaming CCM is the CCM of the standard, its verification accepts
  exactly the right tag, and it undoes its encryption; digests belong to the whole message, also
  after a clone, and comparison accepts exactly them; an XOF delivers the SHAKE stream however it
  is asked for; a wrapped key arrives unchanged; the key store refines the map on Zephyr too; all
  bytes of a key derivation belong to the one stream that its inputs define, its capacity is a
  budget, its errors are final, verification accepts exactly the derived bytes, a key comes out
  only under the policy of a key that went in, and a key agreement uses a private key only as its
  policy says, and derives from the key that the caller named; an asymmetric operation uses a key
  only as its policy says and changes none; signatures of hashes and messages verify, also under
  the exported public key, decryption undoes encryption, RSA verification compares the whole
  block, and deterministic ECDSA does not depend on a device; the
  contexts keep their invariants and the loops end. The section on departures
  proves three places where the code does not do what its comments say.

  \<^bold>\<open>Bounds.\<close> The directory walks stop after 256 steps, as in the source; the loops of the XOF
  are partial functions, proved to return in every reachable state; so are the block loops of
  the key derivation, which return for all lengths up to \<open>16 * (2^32 - 2)\<close> bytes of PBKDF2 with
  AES-CMAC and for all lengths otherwise; all other recursion is structural. Sizes are natural numbers with the guards of the source; where the code
  converts a size to \<open>int\<close> the conversion is written out (\<open>c_int\<close>). For a record longer than
  \<open>INT_MAX\<close> the C code hands a negative length to the backend, which the model does not follow:
  theorems on persistent imports carry the bound or the success of the call.

  \<^bold>\<open>Not modelled.\<close> Debug tracing and the erasure of freed buffers have no value in the model; the
  Windows branches of the POSIX store; key encapsulation with ML-KEM (its keys' generation and
  public export, and those of Montgomery keys, stay parameters); the unused support checks of
  \<open>src/psa_asymmetric.c\<close>; the stubs of builds without an algorithm; wolfCrypt itself, which is a
  parameter throughout.
\<close>

unbundle bit_operations_syntax

section \<open>The key store as a map\<close>

text \<open>
  C1: A sequence of key-management calls on the POSIX store behaves like operations on a map from
  ids to keys: failing calls and reads change nothing, a creation adds one key under a free id, a
  copy stays within its source's policy, destruction removes exactly the named key, an export
  returns the stored bytes of an exportable key. This holds for disciplined callers (\<open>op_ok\<close>): no
  import, generation or copy asks for an id of the vendor range \<open>0x40000000\<close> to \<open>0x7fffffff\<close>, from
  which the library takes its automatic ids, and the record of an imported key (header and data)
  is at most \<open>INT_MAX\<close> bytes long; from a fresh process whose store has no record in the vendor
  range and none longer than \<open>INT_MAX\<close> (\<open>id_inv\<close>); with generators that keep to their buffers
  (\<open>env_bounded\<close>). What happens to undisciplined callers is shown among the departures below.
\<close>

theorem key_store_refines_map:
  assumes "env_ops env = posix_ops os" and "env_bounded env"
    and "id_inv posix_recs (fresh_store st)" and "list_all op_ok calls"
    and "run_all env calls (fresh_store st) = (tr, s')"
  shows "abs_run tr (ks_abs posix_recs (fresh_store st)) (ks_abs posix_recs s')"
  using posix_keys.run_refines [OF assms] by blast

lemma demo_fresh_id_inv: "id_inv posix_recs (fresh_store demo_posix)"
  using ks_inv_fresh_store [of demo_posix]
  by (simp add: id_inv_def ks_abs_def ks_lookup_def fresh_store_def wolfpsa_volatile_find_def)

theorem key_store_refines_map_witness:
  "\<exists>tr s'. run_all demo_env [Op_init WC_OK, Op_import (Some (demo_attr 5 1)) (In demo_key) False,
       Op_export 5 (Out 16) False, Op_destroy 5] (fresh_store demo_posix) = (tr, s') \<and>
     abs_run tr (ks_abs posix_recs (fresh_store demo_posix)) (ks_abs posix_recs s')"
proof -
  let ?calls = "[Op_init WC_OK, Op_import (Some (demo_attr 5 1)) (In demo_key) False,
       Op_export 5 (Out 16) False, Op_destroy 5]"
  obtain tr s' where r: "run_all demo_env ?calls (fresh_store demo_posix) = (tr, s')" by fastforce
  have "list_all op_ok ?calls" by (simp add: vendor_id_def)
  from key_store_refines_map [OF _ demo_bounded demo_fresh_id_inv this r] show ?thesis using r by auto
qed

text \<open>
  C26: In every state that calls can reach, whatever allocations fail: the mutex is free and was
  never misused, volatile ids are distinct and were handed out by the counter in the vendor
  range, every volatile key has data, and the counter has not left its range.
\<close>

theorem reachable_key_store_inv:
  assumes "env_ops env = posix_ops os" and "reachable env s"
  shows "ks_inv s"
  using assms by (rule posix_keys.reachable_inv)

theorem reachable_key_store_inv_witness: "ks_inv (snd (snd (snd (run_op demo_env
    (Op_import (Some (demo_attr 0 0)) (In demo_key) False) (fresh_store demo_posix)))))"
proof -
  obtain st kid bs s' where "run_op demo_env (Op_import (Some (demo_attr 0 0)) (In demo_key) False)
      (fresh_store demo_posix) = (st, kid, bs, s')" by (metis prod_cases4)
  with reachable_key_store_inv [OF demo_env_simps(1) reachable.call [OF reachable.boot this]]
  show ?thesis by simp
qed

text \<open>
  An id of a volatile key is never given out again: along any call the counter does not
  decrease, and a volatile key that the call created has an id from the part of the range that
  the counter passed over.
\<close>

theorem volatile_ids_not_reused:
  assumes "env_ops env = posix_ops os" and "reachable env s" and "run_op env op s = (st, kid, bs, s')"
  shows "g_next_key_id s \<le> g_next_key_id s' \<and>
    (\<forall>n \<in> set (g_volatile_keys s'). n \<in> set (g_volatile_keys s) \<or>
       g_next_key_id s \<le> node_id n \<and> node_id n < g_next_key_id s')"
  using posix_keys.step_counter [OF assms(1) posix_keys.reachable_inv [OF assms(1,2)] assms(3)] .

theorem volatile_ids_not_reused_witness:
  "g_next_key_id (fresh_store demo_posix) \<le> g_next_key_id (snd (snd (snd (run_op demo_env
    (Op_import (Some (demo_attr 0 0)) (In demo_key) False) (fresh_store demo_posix)))))"
proof -
  obtain st kid bs s' where "run_op demo_env (Op_import (Some (demo_attr 0 0)) (In demo_key) False)
      (fresh_store demo_posix) = (st, kid, bs, s')" by (metis prod_cases4)
  with volatile_ids_not_reused [OF demo_env_simps(1) reachable.boot this] show ?thesis by simp
qed

section \<open>Creation\<close>

text \<open>
  C2: An import of data whose record (header and data) is at most \<open>INT_MAX\<close> bytes long is all or
  nothing, over the POSIX store and whatever fails in it. When it succeeds, the key (with its size
  completed) is stored under the returned id and nothing else changed; the id was free among keys
  of the same kind, that is, no record stood under it for a persistent key and no volatile key had
  it for a volatile one; a caller's persistent id is kept and any other key gets the counter's id.
  When it fails, no key and no record changed, and the returned id is null unless memory ran out.
  Longer records, and a volatile key over a record of the same id, are among the departures below.
\<close>

theorem import_all_or_nothing:
  assumes "env_ops env = posix_ops os" and "lock_ok s"
    and "header_length + in_length din \<le> INT_MAX"
    and "psa_import_key env aa din idn s = (status, kid, s')"
  shows "if status = PSA_SUCCESS
     then (\<exists>a. import_validate env aa din idn = Inr a \<and>
       import_effect posix_recs a (in_bytes din) kid s s' \<and>
       kid = (if \<not> PSA_KEY_LIFETIME_IS_VOLATILE (lifetime a) \<and> id a \<noteq> PSA_KEY_ID_NULL
              then id a else g_next_key_id s))
     else no_effect posix_recs s s' \<and> (kid = PSA_KEY_ID_NULL \<or> status = PSA_ERROR_INSUFFICIENT_MEMORY)"
  using posix_keys.import_key_cases [OF assms] by (auto split: if_splits)

lemma demo_import:
  "\<exists>st'. posix_healthy demo_dirs st' \<and>
     psa_import_key demo_env (Some (demo_attr k 1)) (In demo_key) False demo_ks =
       (PSA_SUCCESS, k, demo_ks\<lparr>g_key_storage_initialized := True, store := st'\<rparr>)"
  if "k \<noteq> PSA_KEY_ID_NULL" for k
  using posix_keys.healthy_import [OF demo_env_simps(1) _ _ _ _ demo_validate [of 1 k], of demo_ks]
    demo_healthy that by simp

theorem import_all_or_nothing_witness:
  "\<exists>s'. psa_import_key demo_env (Some (demo_attr 5 1)) (In demo_key) False demo_ks = (PSA_SUCCESS, 5, s') \<and>
     posix_recs (store s') = [5 \<mapsto> key_record (demo_attr 5 1) demo_key]"
proof -
  obtain s' where i: "psa_import_key demo_env (Some (demo_attr 5 1)) (In demo_key) False demo_ks = (PSA_SUCCESS, 5, s')"
    using demo_import [of 5] by auto
  have "\<exists>a. import_validate demo_env (Some (demo_attr 5 1)) (In demo_key) False = Inr a \<and>
      import_effect posix_recs a demo_key 5 demo_ks s'"
    using import_all_or_nothing [OF demo_env_simps(1) _ _ i] by auto
  then have "import_effect posix_recs (demo_attr 5 1) demo_key 5 demo_ks s'" by (simp add: demo_validate)
  then have "posix_recs (store s') = (\<lambda>k. None)(5 \<mapsto> key_record (demo_attr 5 1) demo_key)"
    by (auto simp: import_effect_def)
  then show ?thesis using i by auto
qed

text \<open>
  Over a store that meets no failure, importing a valid persistent key succeeds exactly
  when no record stands under its id, and otherwise reports that it exists already. The record
  is at most \<open>INT_MAX\<close> bytes long.
\<close>

theorem import_succeeds_when_free:
  assumes "env_ops env = posix_ops os" and "ready (env_build env) s" and "g_psa_crypto_initialized s"
    and "posix_healthy os (store s)" and "allocs s = []"
    and "import_validate env aa din idn = Inr a"
    and "\<not> PSA_KEY_LIFETIME_IS_VOLATILE (lifetime a)" and "id a \<noteq> PSA_KEY_ID_NULL"
    and "header_length + in_length din \<le> INT_MAX"
  shows "\<exists>s'. psa_import_key env aa din idn s =
    (if posix_recs (store s) (unat (id a)) = None then (PSA_SUCCESS, id a, s')
     else (PSA_ERROR_ALREADY_EXISTS, PSA_KEY_ID_NULL, s'))"
  using posix_keys.healthy_import [OF assms] by auto

theorem import_succeeds_when_free_witness:
  "\<exists>s'. psa_import_key demo_env (Some (demo_attr 9 1)) (In demo_key) False demo_ks = (PSA_SUCCESS, 9, s')"
  using import_succeeds_when_free [OF demo_env_simps(1) _ _ _ _ demo_validate [of 1 9], of demo_ks] demo_healthy
  by simp

text \<open>
  C27: A persistent key survives the process. After a successful import over a healthy store, a
  new process that initialises the library and asks for the id gets the imported attributes
  (without the second algorithm, which is not stored) and exactly the imported bytes. The record
  is at most \<open>INT_MAX\<close> bytes long.
\<close>

theorem persistent_key_survives_restart:
  assumes "env_ops env = posix_ops os" and "ready (env_build env) s" and "g_psa_crypto_initialized s"
    and "posix_healthy os (store s)" and "allocs s = []"
    and "import_validate env aa din idn = Inr a"
    and "\<not> PSA_KEY_LIFETIME_IS_VOLATILE (lifetime a)" and "id a \<noteq> PSA_KEY_ID_NULL"
    and "header_length + in_length din \<le> INT_MAX" and "posix_recs (store s) (unat (id a)) = None"
  shows "\<exists>s' s1 s2. psa_import_key env aa din idn s = (PSA_SUCCESS, id a, s') \<and>
    psa_crypto_init (env_build env) WC_OK (fresh_store (store s')) = (PSA_SUCCESS, s1) \<and>
    wolfpsa_get_key_data env (id a) a1 s1 =
      (PSA_SUCCESS, a\<lparr>policy := (policy a)\<lparr>alg2 := PSA_ALG_NONE\<rparr>, id := id a1\<rparr>,
       Some (in_bytes din), length (in_bytes din), s2)"
proof -
  obtain st' where i: "psa_import_key env aa din idn s =
      (PSA_SUCCESS, id a, s\<lparr>g_key_storage_initialized := True, store := st'\<rparr>)" "posix_healthy os st'"
    using posix_keys.healthy_import [OF assms(1-9)] assms(10) by auto
  have d: "in_bytes din \<noteq> []" "length (in_bytes din) \<le> INT_MAX"
    using assms(6) by (auto elim!: validate_Inr)
  have r: "posix_recs st' (unat (id a)) = Some (key_record a (in_bytes din))"
    using posix_keys.import_key_cases [OF assms(1) ready_lock_ok [OF assms(2)] assms(9) i(1)] assms(6,7)
    by (simp add: import_effect_def)
  obtain s1 where s1: "psa_crypto_init (env_build env) WC_OK (fresh_store st') = (PSA_SUCCESS, s1)"
      "ready (env_build env) s1" "g_psa_crypto_initialized s1" "store s1 = st'" "allocs s1 = []"
      "g_volatile_keys s1 = []"
    using init_fresh [of "env_build env" st'] by (elim exE conjE)
  have "ks_lookup (posix_recs (store s1)) s1 a1 (id a) =
      Some (a\<lparr>policy := (policy a)\<lparr>alg2 := PSA_ALG_NONE\<rparr>, id := id a1\<rparr>, in_bytes din)"
    using s1 r record_key_key_record [OF d, of a1 a] by (simp add: ks_lookup_def wolfpsa_volatile_find_def)
  then obtain st2 where "wolfpsa_get_key_data env (id a) a1 s1 =
      (PSA_SUCCESS, a\<lparr>policy := (policy a)\<lparr>alg2 := PSA_ALG_NONE\<rparr>, id := id a1\<rparr>,
       Some (in_bytes din), length (in_bytes din), s1\<lparr>g_key_storage_initialized := True, store := st2\<rparr>)"
    using posix_keys.get_key_data_healthy [OF assms(1) s1(2,3) _ s1(5), of a1 "id a"] s1(4,6) i(2) by simp blast
  moreover have "store (s\<lparr>g_key_storage_initialized := True, store := st'\<rparr>) = st'" by simp
  ultimately show ?thesis using i(1) s1(1) by metis
qed

theorem persistent_key_survives_restart_witness:
  "\<exists>s' s1 s2. psa_import_key demo_env (Some (demo_attr 5 1)) (In demo_key) False demo_ks = (PSA_SUCCESS, 5, s') \<and>
    psa_crypto_init default_build WC_OK (fresh_store (store s')) = (PSA_SUCCESS, s1) \<and>
    wolfpsa_get_key_data demo_env 5 psa_key_attributes_init s1 =
      (PSA_SUCCESS, (demo_attr 5 1)\<lparr>id := 0\<rparr>, Some demo_key, 16, s2)"
  using persistent_key_survives_restart [OF demo_env_simps(1) _ _ _ _ demo_validate [of 1 5], of demo_ks
      psa_key_attributes_init] demo_healthy
  by (simp add: demo_attr_def psa_key_attributes_init_def)

text \<open>The bytes of an elliptic-curve key, by the length of its curve.\<close>

definition ecc_data_fits :: "psa_key_type_t \<Rightarrow> psa_key_bits_t \<Rightarrow> byte list \<Rightarrow> bool" where
  "ecc_data_fits t b d \<longleftrightarrow>
    (let family = PSA_KEY_TYPE_ECC_GET_FAMILY t; n = wolfpsa_ecc_length_from_bits family b in
     0 < n \<and>
     (if PSA_KEY_TYPE_IS_ECC_PUBLIC_KEY t \<and> family \<noteq> PSA_ECC_FAMILY_MONTGOMERY \<and> family \<noteq> PSA_ECC_FAMILY_TWISTED_EDWARDS
      then length d = 1 + 2 * n \<and> hd d = 0x04 else length d = n))"

lemma check_ecc_fits:
  assumes "import_check_ecc b wc a d = PSA_SUCCESS"
  shows "ecc_data_fits (type a) (bits a) d"
  using assms by (auto simp: import_check_ecc_def ecc_data_fits_def Let_def elim!: oddE split: if_splits)

lemma ecc_import_check:
  assumes "PSA_KEY_TYPE_IS_ECC_KEY_PAIR (type a) \<or> PSA_KEY_TYPE_IS_ECC_PUBLIC_KEY (type a)"
    and "import_check_data b wc a d = PSA_SUCCESS"
  shows "import_check_ecc b wc a d = PSA_SUCCESS"
proof -
  have ecc: "type a AND 0x0f00 = 0x0100"
    using assms(1)
    by (auto simp: psa_defs and.assoc dest!: arg_cong [of "type a AND - 256" _ "\<lambda>x. x AND 0x0f00"])
  have "\<not> PSA_KEY_TYPE_IS_ML_DSA (type a)" "\<not> PSA_KEY_TYPE_IS_ML_KEM (type a)"
    using ecc by (auto simp: psa_defs and.assoc dest!: arg_cong [of "type a AND - 12289" _ "\<lambda>x. x AND 0x0f00"])
  then show ?thesis using assms by (auto simp: import_check_data_def Let_def psa_defs split: if_splits)
qed

text \<open>
  C37: What an accepted key looks like: it is stored locally, its usage flags are defined ones, it
  has a type, data, and a second algorithm only where the build keeps it. AES keys have 16, 24 or
  32 bytes, DES keys 24 and ChaCha20 keys 32, and so many bits; byte-string keys (HMAC, raw data,
  derivation, password, password hash, pepper) have the bit count of their data; an
  elliptic-curve private key, and a public key on a Montgomery or Edwards curve, has the length
  that the table of curves gives for its family and bit count, and any other elliptic-curve public
  key is an uncompressed point with two coordinates of that length. Of the lengths of other types
  nothing is said.
\<close>

theorem imported_key_well_formed:
  assumes "psa_import_key env aa din idn s = (PSA_SUCCESS, kid, s')"
  shows "\<exists>a. import_validate env aa din idn = Inr a \<and>
    PSA_KEY_LIFETIME_GET_LOCATION (lifetime a) = PSA_KEY_LOCATION_LOCAL_STORAGE \<and>
    wolfpsa_usage_flags_valid (usage (policy a)) \<and> type a \<noteq> PSA_KEY_TYPE_NONE \<and>
    (alg2 (policy a) \<noteq> PSA_ALG_NONE \<longrightarrow>
       WOLFPSA_ENROLLMENT_ALG (env_build env) \<and> PSA_KEY_LIFETIME_IS_VOLATILE (lifetime a)) \<and>
    0 < length (in_bytes din) \<and>
    (type a = PSA_KEY_TYPE_AES \<longrightarrow> length (in_bytes din) \<in> {16, 24, 32} \<and>
       unat (bits a) = 8 * length (in_bytes din)) \<and>
    (type a = PSA_KEY_TYPE_DES \<longrightarrow> length (in_bytes din) = 24 \<and> bits a = 192) \<and>
    (type a = PSA_KEY_TYPE_CHACHA20 \<longrightarrow> length (in_bytes din) = 32 \<and> bits a = 256) \<and>
    (type a \<in> {PSA_KEY_TYPE_HMAC, PSA_KEY_TYPE_RAW_DATA, PSA_KEY_TYPE_DERIVE, PSA_KEY_TYPE_PASSWORD,
               PSA_KEY_TYPE_PASSWORD_HASH, PSA_KEY_TYPE_PEPPER} \<longrightarrow>
       unat (bits a) = 8 * length (in_bytes din)) \<and>
    (PSA_KEY_TYPE_IS_ECC_KEY_PAIR (type a) \<or> PSA_KEY_TYPE_IS_ECC_PUBLIC_KEY (type a) \<longrightarrow>
       ecc_data_fits (type a) (bits a) (in_bytes din))"
proof (cases "import_validate env aa din idn")
  case (Inl e)
  then show ?thesis using assms validate_Inl [OF Inl] by (simp add: psa_import_key_def)
next
  case (Inr a)
  obtain a0 b where v: "aa = Some a0" "a = a0\<lparr>bits := b\<rparr>"
    "in_bytes din \<noteq> []" "length (in_bytes din) \<le> INT_MAX"
    "PSA_KEY_LIFETIME_GET_LOCATION (lifetime a) = PSA_KEY_LOCATION_LOCAL_STORAGE"
    "alg2 (policy a) = PSA_ALG_NONE \<or>
       WOLFPSA_ENROLLMENT_ALG (env_build env) \<and> PSA_KEY_LIFETIME_IS_VOLATILE (lifetime a)"
    "wolfpsa_usage_flags_valid (usage (policy a))" "type a \<noteq> PSA_KEY_TYPE_NONE"
    "import_check_data (env_build env) (env_wc env) a (in_bytes din) = PSA_SUCCESS"
    using Inr by (rule validate_Inr)
  let ?n = "length (in_bytes din)"
  note chk = v(9) [unfolded import_check_data_def Let_def]
  have aes: "?n \<in> {16, 24, 32} \<and> unat (bits a) = 8 * ?n" if "type a = PSA_KEY_TYPE_AES"
    using chk that by (auto simp: import_check_chacha_def import_check_aes_def split: if_splits)
  have des: "?n = 24 \<and> bits a = 192" if "type a = PSA_KEY_TYPE_DES"
    using chk that by (auto simp: import_check_chacha_def import_check_des_def split: if_splits)
  have cha: "?n = 32 \<and> bits a = 256" if "type a = PSA_KEY_TYPE_CHACHA20"
    using chk that by (auto simp: import_check_chacha_def split: if_splits)
  have raw: "unat (bits a) = 8 * ?n"
    if t: "type a \<in> {PSA_KEY_TYPE_HMAC, PSA_KEY_TYPE_RAW_DATA, PSA_KEY_TYPE_DERIVE, PSA_KEY_TYPE_PASSWORD,
               PSA_KEY_TYPE_PASSWORD_HASH, PSA_KEY_TYPE_PEPPER}"
  proof -
    have "import_check_raw a ?n = PSA_SUCCESS"
      using chk t by (auto simp: import_check_chacha_def split: if_splits)
    then have r: "?n * 8 \<le> PSA_MAX_KEY_BITS" "bits a = word_of_nat (?n * 8)"
      by (auto simp: import_check_raw_def not_less split: if_splits)
    have "unat (word_of_nat m :: u16) = m" if "m \<le> PSA_MAX_KEY_BITS" for m
      using that by (simp add: unat_of_nat)
    from this [OF r(1)] show ?thesis by (simp only: r(2) mult.commute)
  qed
  have ecc: "ecc_data_fits (type a) (bits a) (in_bytes din)"
    if "PSA_KEY_TYPE_IS_ECC_KEY_PAIR (type a) \<or> PSA_KEY_TYPE_IS_ECC_PUBLIC_KEY (type a)"
    by (rule check_ecc_fits [OF ecc_import_check [OF that v(9)]])
  show ?thesis
    using Inr v aes des cha raw ecc by (intro exI [of _ a]) blast
qed

theorem imported_key_well_formed_witness:
  "\<exists>s'. psa_import_key demo_env (Some (demo_attr 5 1)) (In demo_key) False demo_ks = (PSA_SUCCESS, 5, s') \<and>
     length demo_key \<in> {16, 24, 32}"
proof -
  obtain s' where i: "psa_import_key demo_env (Some (demo_attr 5 1)) (In demo_key) False demo_ks = (PSA_SUCCESS, 5, s')"
    using demo_import [of 5] by auto
  have "length demo_key \<in> {16, 24, 32}"
    using imported_key_well_formed [OF i] by (simp add: demo_validate)
  with i show ?thesis by blast
qed

section \<open>Use and destruction\<close>

text \<open>
  Loading a key agrees with the abstract store and never changes it: on success it returns
  the attributes and bytes that the volatile list, else the persistent record, holds; an
  invalid handle is reported only when there is neither.
\<close>

theorem get_key_data_refines:
  assumes "env_ops env = posix_ops os" and "lock_ok s"
    and "wolfpsa_get_key_data env k a0 s = (status, a, dd, n, s')"
  shows "load_frame posix_recs s s' \<and>
    (status = PSA_SUCCESS \<longrightarrow>
       (\<exists>d. dd = Some d \<and> n = length d \<and> ks_lookup (posix_recs (store s)) s a0 k = Some (a, d))) \<and>
    (status = PSA_ERROR_INVALID_HANDLE \<longrightarrow> ks_lookup (posix_recs (store s)) s a0 k = None)"
  using posix_keys.get_key_data_sound [OF assms] .

text \<open>The state after the import of an exportable AES key under the id \<open>k\<close>.\<close>

lemma demo_imported:
  assumes "k \<noteq> PSA_KEY_ID_NULL"
  obtains s' where
    "psa_import_key demo_env (Some (demo_attr k 1)) (In demo_key) False demo_ks = (PSA_SUCCESS, k, s')"
    "ready default_build s'" "lock_ok s'" "g_psa_crypto_initialized s'" "allocs s' = []"
    "posix_healthy demo_dirs (store s')" "g_volatile_keys s' = []" "g_next_key_id s' = PSA_KEY_ID_VENDOR_MIN"
    "posix_recs (store s') (unat k) = Some (key_record (demo_attr k 1) demo_key)"
proof -
  obtain st' where i: "posix_healthy demo_dirs st'"
      "psa_import_key demo_env (Some (demo_attr k 1)) (In demo_key) False demo_ks =
        (PSA_SUCCESS, k, demo_ks\<lparr>g_key_storage_initialized := True, store := st'\<rparr>)"
    using demo_import [OF assms] by blast
  have "posix_recs st' (unat k) = Some (key_record (demo_attr k 1) demo_key)"
    using posix_keys.import_key_cases [OF demo_env_simps(1) _ _ i(2)] by (simp add: import_effect_def demo_validate)
  then show thesis using i by (intro that [of "demo_ks\<lparr>g_key_storage_initialized := True, store := st'\<rparr>"]) simp_all
qed


theorem get_key_data_refines_witness:
  "load_frame posix_recs demo_ks (snd (snd (snd (snd (wolfpsa_get_key_data demo_env 5 psa_key_attributes_init demo_ks)))))"
proof -
  obtain st a dd n s' where g: "wolfpsa_get_key_data demo_env 5 psa_key_attributes_init demo_ks = (st, a, dd, n, s')"
    by (metis prod_cases5)
  from get_key_data_refines [OF demo_env_simps(1) _ g] show ?thesis by (simp add: g)
qed

text \<open>
  C36: An export needs the key's permission. A successful export writes exactly the bytes that the
  key store holds under the id, at most as many as the caller's buffer takes, and the key's usage
  flags include export; a failing one reports the length zero and leaves in the buffer nothing, or
  zeros where a record could not be read to its end. Neither changes a key or a record.
\<close>

theorem export_needs_permission:
  assumes "env_ops env = posix_ops os" and "lock_ok s"
    and "psa_export_key env k out ln s = (status, bs, n, s')"
  shows "load_frame posix_recs s s' \<and>
    (if status = PSA_SUCCESS
     then n = length bs \<and> n \<le> out_size out \<and>
       (\<exists>a. ks_lookup (posix_recs (store s)) s psa_key_attributes_init k = Some (a, bs) \<and>
          usage (policy a) AND PSA_KEY_USAGE_EXPORT \<noteq> 0)
     else n = 0 \<and> only_zeros (out_size out) bs)"
  using posix_keys.export_sound [OF assms] .

text \<open>Exports of a volatile key of 16 bytes, with the export flag and without it.\<close>

lemma demo_export:
  assumes "d \<noteq> []" "length d \<le> 16"
  shows "psa_export_key demo_env PSA_KEY_ID_VENDOR_MIN (Out 16) False (demo_with a d) =
    (if usage (policy a) AND PSA_KEY_USAGE_EXPORT = 0 then (PSA_ERROR_NOT_PERMITTED, [], 0, demo_with a d)
     else (PSA_SUCCESS, d, length d, demo_with a d))"
  using assms check_init_ready [of default_build "demo_with a d"]
    volatile_get_ready [of default_build "demo_with a d" PSA_KEY_ID_VENDOR_MIN]
  by (simp add: psa_export_key_def)

theorem export_needs_permission_witness:
  "psa_export_key demo_env PSA_KEY_ID_VENDOR_MIN (Out 16) False (demo_with (demo_attr 0 0) demo_key) =
     (PSA_SUCCESS, demo_key, 16, demo_with (demo_attr 0 0) demo_key) \<and>
   (\<exists>a. ks_lookup (posix_recs demo_posix) (demo_with (demo_attr 0 0) demo_key) psa_key_attributes_init PSA_KEY_ID_VENDOR_MIN =
        Some (a, demo_key) \<and> usage (policy a) AND PSA_KEY_USAGE_EXPORT \<noteq> 0) \<and>
   (\<exists>bs s'. psa_export_key demo_env PSA_KEY_ID_VENDOR_MIN (Out 16) False (demo_with psa_key_attributes_init demo_key) =
        (PSA_ERROR_NOT_PERMITTED, bs, 0, s') \<and> only_zeros 16 bs)"
proof -
  let ?s = "demo_with (demo_attr 0 0) demo_key" and ?r = "demo_with psa_key_attributes_init demo_key"
  have x: "psa_export_key demo_env PSA_KEY_ID_VENDOR_MIN (Out 16) False ?s = (PSA_SUCCESS, demo_key, 16, ?s)"
    by (simp add: demo_export)
  have y: "psa_export_key demo_env PSA_KEY_ID_VENDOR_MIN (Out 16) False ?r = (PSA_ERROR_NOT_PERMITTED, [], 0, ?r)"
    by (simp add: demo_export psa_key_attributes_init_def)
  from export_needs_permission [OF demo_env_simps(1) _ x] export_needs_permission [OF demo_env_simps(1) _ y] x y
  show ?thesis by auto
qed

text \<open>
  The public-key export never hands out a key that has no public part: it succeeds only for
  RSA, elliptic-curve, ML-DSA, ML-KEM keys and hash-based public keys, and what it writes is
  computed from the stored key of that id.
\<close>

theorem export_public_only_public:
  assumes "env_ops env = posix_ops os" and "lock_ok s"
    and "psa_export_public_key env k out ln s = (status, bs, n, s')"
  shows "load_frame posix_recs s s' \<and>
    (status = PSA_SUCCESS \<longrightarrow>
       (\<exists>a d s1. ks_lookup (posix_recs (store s)) s psa_key_attributes_init k = Some (a, d) \<and>
          has_public_part (type a) \<and>
          export_public_of env a d (out_size out) s1 = (PSA_SUCCESS, bs, n, s')))"
  using posix_keys.export_public_sound [OF assms] .

theorem export_public_only_public_witness:
  "\<exists>s' st bs n s''. psa_import_key demo_env (Some (demo_attr 5 1)) (In demo_key) False demo_ks = (PSA_SUCCESS, 5, s') \<and>
     psa_export_public_key demo_env 5 (Out 64) False s' = (st, bs, n, s'') \<and> st \<noteq> PSA_SUCCESS"
proof -
  obtain s' where i: "psa_import_key demo_env (Some (demo_attr 5 1)) (In demo_key) False demo_ks = (PSA_SUCCESS, 5, s')"
      "lock_ok s'" "g_volatile_keys s' = []"
      "posix_recs (store s') (unat (5 :: psa_key_id_t)) = Some (key_record (demo_attr 5 1) demo_key)"
    by (rule demo_imported [of 5]) (simp, blast)
  obtain st bs n s'' where g: "psa_export_public_key demo_env 5 (Out 64) False s' = (st, bs, n, s'')"
    by (metis prod_cases4)
  have "ks_lookup (posix_recs (store s')) s' psa_key_attributes_init 5 =
      Some ((demo_attr 5 1)\<lparr>id := 0\<rparr>, demo_key)"
    using i record_key_key_record [of demo_key psa_key_attributes_init "demo_attr 5 1"]
    by (simp add: ks_lookup_def wolfpsa_volatile_find_def demo_attr_def psa_key_attributes_init_def)
  then have "st \<noteq> PSA_SUCCESS"
    using export_public_only_public [OF demo_env_simps(1) i(2) g] by (auto simp: has_public_part_def psa_defs)
  then show ?thesis using i(1) g by blast
qed




text \<open>
  The usage check over a healthy store is exact: it accepts when the stored usage flags
  contain all the requested ones and the stored policy permits the algorithm, refuses with
  \<open>PSA_ERROR_NOT_PERMITTED\<close> otherwise, and reports an unknown id as an invalid handle.
\<close>

theorem check_key_usage_exact:
  assumes "env_ops env = posix_ops os" and "ready (env_build env) s"
    and "g_psa_crypto_initialized s" and "posix_healthy os (store s)"
  shows "fst (psa_check_key_usage env k al u s) =
    (case attrs_lookup (posix_recs (store s)) s k of
       None \<Rightarrow> if posix_recs (store s) (unat k) = None then PSA_ERROR_INVALID_HANDLE
               else PSA_ERROR_STORAGE_FAILURE
     | Some a \<Rightarrow>
         if usage (policy a) AND u = u \<and> (al = PSA_ALG_NONE \<or> wolfpsa_key_permits_alg a al)
         then PSA_SUCCESS else PSA_ERROR_NOT_PERMITTED)"
  using posix_keys.get_attributes_healthy [OF assms, of k]
  by (auto simp: psa_check_key_usage_def psa_get_key_usage_flags_def split: option.splits)

theorem check_key_usage_exact_witness:
  "fst (psa_check_key_usage demo_env 5 PSA_ALG_NONE PSA_KEY_USAGE_EXPORT demo_ks) = PSA_ERROR_INVALID_HANDLE"
  using check_key_usage_exact [of demo_env demo_dirs demo_ks 5] demo_healthy
  by (simp add: attrs_lookup_def)

text \<open>
  A successful destruction removes the volatile key of that id, or else the persistent
  record, and no other key or record; a failing one removes nothing, and an invalid
  handle is reported only for an id that names no key.
\<close>

theorem destroy_removes_one_key:
  assumes "env_ops env = posix_ops os" and "lock_ok s" and "k \<noteq> PSA_KEY_ID_NULL"
    and "psa_destroy_key env k s = (status, s')"
  shows "(if status = PSA_SUCCESS then
       (if wolfpsa_volatile_find s k \<noteq> None
        then g_volatile_keys s' = unlink_node k (g_volatile_keys s) \<and>
          posix_recs (store s') = posix_recs (store s)
        else g_volatile_keys s' = g_volatile_keys s \<and>
          posix_recs (store s') = (posix_recs (store s))(unat k := None))
     else no_effect posix_recs s s') \<and>
    (status = PSA_ERROR_INVALID_HANDLE \<longrightarrow>
       wolfpsa_volatile_find s k = None \<and> posix_recs (store s) (unat k) = None)"
  using posix_keys.destroy_cases [OF assms] by blast

theorem destroy_removes_one_key_witness:
  "fst (psa_destroy_key demo_env 5 demo_ks) = PSA_SUCCESS \<or> no_effect posix_recs demo_ks (snd (psa_destroy_key demo_env 5 demo_ks))"
proof -
  obtain st s' where d: "psa_destroy_key demo_env 5 demo_ks = (st, s')" by fastforce
  from destroy_removes_one_key [OF demo_env_simps(1) _ _ d] show ?thesis by (auto simp: d split: if_splits)
qed

section \<open>Where the code departs from its comments\<close>

lemma volatile_import_eq:
  assumes rdy: "ready (env_build env) s" and ini: "g_psa_crypto_initialized s" and al: "allocs s = []"
    and v: "import_validate env aa din idn = Inr a" and vol: "PSA_KEY_LIFETIME_IS_VOLATILE (lifetime a)"
    and nx: "PSA_KEY_ID_VENDOR_MIN \<le> g_next_key_id s" "g_next_key_id s \<le> PSA_KEY_ID_VENDOR_MAX"
    and free: "wolfpsa_volatile_find s (g_next_key_id s) = None"
  shows "psa_import_key env aa din idn s =
    (case import_finish (g_next_key_id s) (length (key_record a (in_bytes din)))
            (Inr (c_int (length (key_record a (in_bytes din))))) of
       (status, kid) \<Rightarrow> (status, kid,
         s\<lparr>g_key_storage_initialized := True, g_next_key_id := g_next_key_id s + 1,
           g_volatile_keys := \<lparr>node_id = g_next_key_id s, attributes = a, data = in_bytes din\<rparr> #
             g_volatile_keys s\<rparr>))"
proof -
  let ?s1 = "s\<lparr>g_key_storage_initialized := True\<rparr>"
  let ?s2 = "?s1\<lparr>g_next_key_id := g_next_key_id s + 1\<rparr>"
  have r: "ready (env_build env) ?s1" "ready (env_build env) ?s2" using rdy by simp_all
  have an: "alloc_next ?s2" "alloc_rest ?s2 = ?s2" using al by (simp_all add: alloc_next_def alloc_rest_def)
  have ne: "in_bytes din \<noteq> []" using v by (rule validate_Inr)
  have f: "wolfpsa_volatile_find ?s2 (g_next_key_id s) = None" using free by (simp add: wolfpsa_volatile_find_def)
  show ?thesis
    using v vol nx ini an f ne check_init_ready [OF rdy]
    by (simp add: psa_import_key_def assign_id_ready [OF r(1)] import_store_ready [OF r(2)]
        volatile_store_ready [OF r(2)] not_less [symmetric] split: prod.split)
qed

text \<open>
  C38: Automatic ids do collide with persistent ones. \<open>psa_import_key\<close> takes a persistent id of the
  vendor range from its caller, and the counter of automatic ids starts anew in every process;
  when it reaches such a record, the volatile key that gets the id hides the record from every
  lookup, and destroying the volatile key leaves the record in place, so that the old key
  comes back under the destroyed id. The comment at the counter excludes this.
\<close>

theorem automatic_id_shadows_record:
  assumes "env_ops env = posix_ops os" and "ready (env_build env) s" and "g_psa_crypto_initialized s"
    and "allocs s = []" and "import_validate env aa din idn = Inr a"
    and "PSA_KEY_LIFETIME_IS_VOLATILE (lifetime a)" and "header_length + in_length din \<le> INT_MAX"
    and "k = g_next_key_id s" and "PSA_KEY_ID_VENDOR_MIN \<le> k" and "k \<le> PSA_KEY_ID_VENDOR_MAX"
    and "wolfpsa_volatile_find s k = None" and "ks_abs posix_recs s k = Some old"
  shows "\<exists>s1 s2. psa_import_key env aa din idn s = (PSA_SUCCESS, k, s1) \<and>
    ks_abs posix_recs s1 k = Some (a, in_bytes din) \<and>
    psa_destroy_key env k s1 = (PSA_SUCCESS, s2) \<and> ks_abs posix_recs s2 k = Some old"
proof -
  let ?node = "\<lparr>node_id = k, attributes = a, data = in_bytes din\<rparr>"
  let ?s1 = "s\<lparr>g_key_storage_initialized := True, g_next_key_id := k + 1,
      g_volatile_keys := ?node # g_volatile_keys s\<rparr>"
  have "\<not> in_null din" using assms(5) by (rule validate_Inr)
  then have "in_length din = length (in_bytes din)" by (cases din) simp_all
  then have c: "c_int (length (key_record a (in_bytes din))) = int (length (key_record a (in_bytes din)))"
    using assms(7) by (intro c_int_small) simp
  have i: "psa_import_key env aa din idn s = (PSA_SUCCESS, k, ?s1)"
    using volatile_import_eq [OF assms(2-6)] assms(8-11) c by (simp add: import_finish_def)
  have r1: "ready (env_build env) ?s1" using assms(2) by simp
  have nz: "k \<noteq> PSA_KEY_ID_NULL" using assms(9) by (auto simp: word_le_nat_alt)
  have f1: "wolfpsa_volatile_find ?s1 k = Some ?node" by (simp add: wolfpsa_volatile_find_def)
  have ini1: "g_psa_crypto_initialized ?s1" using assms(3) by simp
  have "?s1\<lparr>g_key_storage_initialized := True\<rparr> = ?s1" by (cases s) simp
  then have c1: "psa_key_storage_check_init (env_build env) ?s1 = (PSA_SUCCESS, ?s1)"
    using check_init_ready [OF r1] ini1 by simp
  have "psa_destroy_key env k ?s1 = (PSA_SUCCESS, ?s1\<lparr>g_volatile_keys := g_volatile_keys s\<rparr>)"
    using nz c1 f1 volatile_remove_ready [OF r1, of k] by (simp add: psa_destroy_key_def)
  moreover have "ks_abs posix_recs ?s1 k = Some (a, in_bytes din)"
    using f1 by (simp add: ks_abs_def ks_lookup_def)
  moreover have "ks_abs posix_recs (?s1\<lparr>g_volatile_keys := g_volatile_keys s\<rparr>) k = Some old"
    using assms(12) by (simp add: ks_abs_def ks_lookup_def wolfpsa_volatile_find_def)
  ultimately show ?thesis using i by blast
qed

theorem automatic_id_shadows_record_witness:
  "\<exists>s s1 s2. psa_import_key demo_env (Some (demo_attr 0x40000000 1)) (In demo_key) False demo_ks =
       (PSA_SUCCESS, 0x40000000, s) \<and>
     psa_import_key demo_env (Some (demo_attr 0 0)) (In demo_key) False s = (PSA_SUCCESS, 0x40000000, s1) \<and>
     psa_destroy_key demo_env 0x40000000 s1 = (PSA_SUCCESS, s2) \<and>
     ks_abs posix_recs s2 0x40000000 = Some ((demo_attr 0 1), demo_key)"
proof (rule demo_imported [of "0x40000000"])
  fix s assume s: "psa_import_key demo_env (Some (demo_attr 0x40000000 1)) (In demo_key) False demo_ks =
       (PSA_SUCCESS, 0x40000000, s)"
    "ready default_build s" "g_psa_crypto_initialized s" "allocs s = []" "g_volatile_keys s = []"
    "g_next_key_id s = PSA_KEY_ID_VENDOR_MIN"
    "posix_recs (store s) (unat (0x40000000 :: psa_key_id_t)) = Some (key_record (demo_attr 0x40000000 1) demo_key)"
  have "wolfpsa_volatile_find s 0x40000000 = None" using s(5) by (simp add: wolfpsa_volatile_find_def)
  moreover have "ks_abs posix_recs s 0x40000000 = Some ((demo_attr 0 1), demo_key)"
    using s(5,7) record_key_key_record [of demo_key psa_key_attributes_init "demo_attr 0x40000000 1"]
    by (simp add: ks_abs_def ks_lookup_def wolfpsa_volatile_find_def demo_attr_def psa_key_attributes_init_def)
  ultimately show ?thesis
    using automatic_id_shadows_record [OF demo_env_simps(1) _ s(3,4) demo_validate [of 0 0],
        of "0x40000000" "(demo_attr 0 1, demo_key)"] s(1,2,6)
    by simp blast
qed simp

text \<open>
  C39: The length check of an import lets lengths pass whose record does not fit an \<open>int\<close>, which
  its comment means to reject. A volatile key of such a length is stored, and yet the
  call reports a storage failure and a null id: the key stays in memory under an id that the
  caller never learns.
\<close>

theorem oversized_import_leaves_key:
  assumes "ready (env_build env) s" and "g_psa_crypto_initialized s" and "allocs s = []"
    and "import_validate env aa din idn = Inr a" and "PSA_KEY_LIFETIME_IS_VOLATILE (lifetime a)"
    and "PSA_KEY_ID_VENDOR_MIN \<le> g_next_key_id s" and "g_next_key_id s \<le> PSA_KEY_ID_VENDOR_MAX"
    and "wolfpsa_volatile_find s (g_next_key_id s) = None"
    and "INT_MAX < header_length + length (in_bytes din)"
  shows "\<exists>s'. psa_import_key env aa din idn s = (PSA_ERROR_STORAGE_FAILURE, PSA_KEY_ID_NULL, s') \<and>
    wolfpsa_volatile_find s' (g_next_key_id s) =
      Some \<lparr>node_id = g_next_key_id s, attributes = a, data = in_bytes din\<rparr>"
proof -
  have "length (in_bytes din) \<le> INT_MAX" using assms(4) by (rule validate_Inr)
  then have "c_int (length (key_record a (in_bytes din))) < 0"
    using assms(9) by (intro c_int_wraps) simp_all
  then show ?thesis
    using volatile_import_eq [OF assms(1-8)] by (simp add: import_finish_def wolfpsa_volatile_find_def)
qed

lemma demo_dh_validate:
  assumes "d \<noteq> []" and "length d \<le> INT_MAX"
  shows "import_validate demo_env (Some ((demo_attr 0 0)\<lparr>type := PSA_KEY_TYPE_DH_PUBLIC_KEY_BASE OR 3\<rparr>)) (In d) False =
    Inr ((demo_attr 0 0)\<lparr>type := PSA_KEY_TYPE_DH_PUBLIC_KEY_BASE OR 3\<rparr>)"
  using assms
  by (simp add: import_validate_def import_check_args_def import_bits_def import_check_data_def
      import_check_chacha_def wolfpsa_usage_flags_valid_def psa_defs psa_get_key_usage_flags_def Let_def)

theorem oversized_import_leaves_key_witness:
  "\<exists>d a s'. psa_import_key demo_env (Some a) (In d) False demo_ks = (PSA_ERROR_STORAGE_FAILURE, PSA_KEY_ID_NULL, s') \<and>
     wolfpsa_volatile_find s' PSA_KEY_ID_VENDOR_MIN \<noteq> None"
proof -
  obtain d :: "byte list" where d: "length d = INT_MAX" using Ex_list_of_length by blast
  then have ne: "d \<noteq> []" by auto
  have len: "length d \<le> INT_MAX" using d by simp
  have big: "INT_MAX < header_length + length (in_bytes (In d))" using d by simp
  let ?a = "(demo_attr 0 0)\<lparr>type := PSA_KEY_TYPE_DH_PUBLIC_KEY_BASE OR 3\<rparr>"
  have "\<exists>s'. psa_import_key demo_env (Some ?a) (In d) False demo_ks = (PSA_ERROR_STORAGE_FAILURE, PSA_KEY_ID_NULL, s') \<and>
    wolfpsa_volatile_find s' (g_next_key_id demo_ks) =
      Some \<lparr>node_id = g_next_key_id demo_ks, attributes = ?a, data = in_bytes (In d)\<rparr>"
    by (rule oversized_import_leaves_key [OF _ _ _ demo_dh_validate [OF ne len] _ _ _ _ big]) simp_all
  then show ?thesis by auto
qed

end
